(* ===== verification/Zb_Prelude.thy ===== *)
theory Zb_Prelude
  imports Main "HOL-Library.Word" "HOL-Library.Monad_Syntax"
begin

text \<open>
  Shared vocabulary of the development: the stack's integer types, its return codes, the
  names of the callbacks the modelled code schedules, checked array access, \<open>memmove\<close> and
  \<open>memcpy\<close> on arrays modelled as lists, and bit vectors.

  A model function that can fail a \<^verbatim>\<open>ZB_ASSERT\<close>, or that can touch an array out of its
  bounds, has an \<open>option\<close> result: \<open>None\<close> says that the C execution has no result
  (\<^verbatim>\<open>zb_assert\<close> aborts, or the behaviour is undefined), \<open>Some\<close> gives the result.
  Arrays are lists of the declared length; unsigned counters of the 32-bit target are \<open>nat\<close>
  with the wrap-around written out (\<open>inc32\<close>, \<open>dec32\<close>).
\<close>

unbundle bit_operations_syntax

named_theorems zb_defs \<open>definitions a component's proofs unfold together\<close>
named_theorems zb_wf \<open>well-formedness facts kept by every operation\<close>

section \<open>Integer types\<close>

type_synonym zb_uint8_t = "8 word"
type_synonym zb_uint16_t = "16 word"
type_synonym zb_uint32_t = "32 word"
type_synonym zb_ret_t = int

definition inc32 :: "nat \<Rightarrow> nat" where
  "inc32 n = (n + 1) mod 2 ^ 32"

definition dec32 :: "nat \<Rightarrow> nat" where
  "dec32 n = (if n = 0 then 2 ^ 32 - 1 else n - 1)"

lemma inc32_small [simp]: "n < 2 ^ 32 - 1 \<Longrightarrow> inc32 n = Suc n"
  by (simp add: inc32_def)

lemma dec32_pos [simp]: "0 < n \<Longrightarrow> dec32 n = n - 1"
  by (simp add: dec32_def)

lemma dec32_0 [simp]: "dec32 0 = 4294967295"
  by (simp add: dec32_def)

text \<open>The 8-bit counters of the code (\<^verbatim>\<open>zb_uint8_t\<close>), read as numbers.\<close>

definition inc8 :: "nat \<Rightarrow> nat" where
  "inc8 n = (n + 1) mod 256"

definition dec8 :: "nat \<Rightarrow> nat" where
  "dec8 n = (if n = 0 then 255 else n - 1)"

lemma inc8_small [simp]: "n < 255 \<Longrightarrow> inc8 n = Suc n"
  by (simp add: inc8_def)

lemma dec8_pos [simp]: "0 < n \<Longrightarrow> dec8 n = n - 1"
  by (simp add: dec8_def)

lemma dec8_0 [simp]: "dec8 0 = 255"
  by (simp add: dec8_def)

section \<open>Return codes\<close>

definition ERROR_CODE :: "int \<Rightarrow> int \<Rightarrow> int" where
  "ERROR_CODE category code = (if code \<noteq> 0 then - (category * 10000 + code) else 0)"

definition RET_OK :: zb_ret_t where "RET_OK = 0"

definition RET_ERROR :: zb_ret_t where "RET_ERROR = ERROR_CODE 0 1"

definition RET_NO_MEMORY :: zb_ret_t where "RET_NO_MEMORY = ERROR_CODE 0 22"

definition RET_ALREADY_EXISTS :: zb_ret_t where "RET_ALREADY_EXISTS = ERROR_CODE 0 27"

definition RET_NOT_FOUND :: zb_ret_t where "RET_NOT_FOUND = ERROR_CODE 0 28"

definition RET_OVERFLOW :: zb_ret_t where "RET_OVERFLOW = ERROR_CODE 0 29"

definition RET_ILLEGAL_REQUEST :: zb_ret_t where "RET_ILLEGAL_REQUEST = ERROR_CODE 0 62"

definition RET_INVALID_BINDING :: zb_ret_t where "RET_INVALID_BINDING = ERROR_CODE 0 63"

definition RET_NO_ACK :: zb_ret_t where "RET_NO_ACK = ERROR_CODE 0 66"

definition RET_NO_BOUND_DEVICE :: zb_ret_t where "RET_NO_BOUND_DEVICE = ERROR_CODE 0 68"

lemmas zb_ret_defs = RET_OK_def RET_ERROR_def RET_NO_MEMORY_def RET_ALREADY_EXISTS_def
  RET_NOT_FOUND_def RET_OVERFLOW_def RET_ILLEGAL_REQUEST_def RET_INVALID_BINDING_def
  RET_NO_ACK_def RET_NO_BOUND_DEVICE_def ERROR_CODE_def

lemma ret_neq [simp]:
  "RET_OVERFLOW \<noteq> RET_OK" "RET_OK \<noteq> RET_OVERFLOW" "RET_NOT_FOUND \<noteq> RET_OK" "RET_OK \<noteq> RET_NOT_FOUND"
  "RET_ERROR \<noteq> RET_OK" "RET_OK \<noteq> RET_ERROR" "RET_ALREADY_EXISTS \<noteq> RET_OK"
  "RET_OK \<noteq> RET_ALREADY_EXISTS" "RET_NO_MEMORY \<noteq> RET_OK" "RET_OK \<noteq> RET_NO_MEMORY"
  "RET_ALREADY_EXISTS \<noteq> RET_OVERFLOW" "RET_OVERFLOW \<noteq> RET_ALREADY_EXISTS"
  "RET_NOT_FOUND \<noteq> RET_OVERFLOW" "RET_OVERFLOW \<noteq> RET_NOT_FOUND"
  "RET_INVALID_BINDING \<noteq> RET_OK" "RET_OK \<noteq> RET_INVALID_BINDING"
  "RET_ILLEGAL_REQUEST \<noteq> RET_OK" "RET_OK \<noteq> RET_ILLEGAL_REQUEST"
  "RET_OVERFLOW \<noteq> RET_ERROR" "RET_ERROR \<noteq> RET_OVERFLOW"
  by (simp_all add: zb_ret_defs)

section \<open>Callbacks\<close>

text \<open>
  A callback of the stack is a C function pointer; the model names the functions that the
  modelled code schedules, and \<open>Cb_user\<close> stands for any other function (the application's,
  or one of a part that is not modelled).
\<close>

datatype zb_callback =
    Cb_zb_aps_check_timer_cb
  | Cb_zb_aps_ack_timer_cb
  | Cb_zb_apsde_data_confirm
  | Cb_zb_apsde_data_indication
  | Cb_zb_nlde_data_request
  | Cb_zb_aps_pass_group_msg_up
  | Cb_zb_aps_pass_local_group_pkt_up
  | Cb_zb_aps_pass_up_group_buf
  | Cb_zb_aps_send_ack_and_continue
  | Cb_zb_nwk_forward
  | Cb_zb_nlme_status_indication
  | Cb_zb_nlme_leave_request
  | Cb_zb_nwk_mesh_expiry_route_disc
  | Cb_zb_nwk_mesh_expiry_pending
  | Cb_zb_nwk_mesh_initiate_route_discovery
  | Cb_nwk_route_disc_failed
  | Cb_zb_nlme_route_discovery_confirm
  | Cb_zb_apsme_transport_key_request
  | Cb_zb_apsme_update_device_request
  | Cb_zb_apsme_switch_key_request
  | Cb_zb_secur_apsme_remove_device
  | Cb_secur_send_key_sw_next
  | Cb_zb_secur_send_nwk_key_switch
  | Cb_zb_secur_switch_nwk_key_br
  | Cb_zb_nwk_btr_expiry
  | Cb_zb_nwk_call_br_confirm
  | Cb_nwk_broadcast_transmition
  | Cb_nwk_frame_indication
  | Cb_new_buffer_allocated
  | Cb_call_status_indication
  | Cb_zb_nlde_data_indication
  | Cb_zb_nlde_data_confirm
  | Cb_zb_nlme_leave_confirm
  | Cb_zb_nlme_rejoin_response_timeout
  | Cb_zb_mcps_data_request
  | Cb_zb_apsde_data_request
  | Cb_zb_apsme_transport_key_indication
  | Cb_zb_apsme_update_device_indication
  | Cb_zb_apsme_remove_device_indication
  | Cb_zb_apsme_request_key_indication
  | Cb_zb_apsme_switch_key_indication
  | Cb_zb_aps_pass_nwk_key_to_children
  | Cb_zb_apsme_get_confirm
  | Cb_zb_apsme_set_confirm
  | Cb_zb_nlme_get_confirm
  | Cb_zb_nlme_set_confirm
  | Cb_zb_nlme_leave_indication
  | Cb_zb_nwk_leave_ind_prnt
  | Cb_zb_nwk_do_leave_local
  | Cb_zb_nlme_join_request
  | Cb_user nat

section \<open>Checked arrays, memmove, asserts\<close>

definition zb_assert :: "bool \<Rightarrow> unit option" where
  "zb_assert b = (if b then Some () else None)"

lemma zb_assert_simps [simp]: "zb_assert True = Some ()" "zb_assert False = None"
  by (simp_all add: zb_assert_def)

lemma zb_assert_Some_iff [simp]: "zb_assert b = Some u \<longleftrightarrow> b"
  by (simp add: zb_assert_def)

definition aget :: "'a list \<Rightarrow> nat \<Rightarrow> 'a option" where
  "aget xs i = (if i < length xs then Some (xs ! i) else None)"

lemma aget_in [simp]: "i < length xs \<Longrightarrow> aget xs i = Some (xs ! i)"
  by (simp add: aget_def)

lemma aget_out [simp]: "length xs \<le> i \<Longrightarrow> aget xs i = None"
  by (simp add: aget_def)

lemma aget_Some_iff: "aget xs i = Some x \<longleftrightarrow> i < length xs \<and> x = xs ! i"
  by (auto simp: aget_def)

text \<open>\<^verbatim>\<open>memmove(xs + d, xs + s, n)\<close> inside one array, \<open>n\<close> counted in elements.\<close>

definition memmove :: "'a list \<Rightarrow> nat \<Rightarrow> nat \<Rightarrow> nat \<Rightarrow> 'a list option" where
  "memmove xs d s n =
     (if d + n \<le> length xs \<and> s + n \<le> length xs
      then Some (take d xs @ take n (drop s xs) @ drop (d + n) xs) else None)"

lemma memmove_length: "memmove xs d s n = Some ys \<Longrightarrow> length ys = length xs"
  by (auto simp: memmove_def split: if_splits)

lemma memmove_nth:
  assumes "memmove xs d s n = Some ys" "i < length xs"
  shows "ys ! i = (if d \<le> i \<and> i < d + n then xs ! (s + (i - d)) else xs ! i)"
  using assms by (auto simp: memmove_def nth_append split: if_splits)

text \<open>\<^verbatim>\<open>memcpy(xs + d, src, length src)\<close>: write a block of bytes into an array.\<close>

definition blit :: "'a list \<Rightarrow> nat \<Rightarrow> 'a list \<Rightarrow> 'a list option" where
  "blit xs d ys = (if d + length ys \<le> length xs
     then Some (take d xs @ ys @ drop (d + length ys) xs) else None)"

lemma blit_length: "blit xs d ys = Some zs \<Longrightarrow> length zs = length xs"
  by (auto simp: blit_def split: if_splits)

lemma blit_read:
  "blit xs d ys = Some zs \<Longrightarrow> take (length ys) (drop d zs) = ys"
  by (auto simp: blit_def split: if_splits)

lemma blit_frame_before:
  "blit xs d ys = Some zs \<Longrightarrow> a + n \<le> d \<Longrightarrow> take n (drop a zs) = take n (drop a xs)"
  by (auto simp: blit_def drop_take split: if_splits)

lemma blit_frame_after:
  assumes "blit xs d ys = Some zs" "d + length ys \<le> a"
  shows "take n (drop a zs) = take n (drop a xs)"
proof -
  from assms obtain k where "a = d + length ys + k" using le_Suc_ex by blast
  with assms show ?thesis by (auto simp: blit_def ac_simps split: if_splits)
qed

lemma take_snoc_update: "n < length xs \<Longrightarrow> take (Suc n) (xs[n := x]) = take n xs @ [x]"
  by (simp add: take_Suc_conv_app_nth)

section \<open>Bit vectors\<close>

definition zb_check_bit_in_bit_vector :: "zb_uint8_t list \<Rightarrow> nat \<Rightarrow> bool" where
  "zb_check_bit_in_bit_vector v b = ((v ! (b div 8)) AND push_bit (b mod 8) 1 \<noteq> 0)"

definition zb_set_bit_in_bit_vector :: "zb_uint8_t list \<Rightarrow> nat \<Rightarrow> zb_uint8_t list" where
  "zb_set_bit_in_bit_vector v b = v[b div 8 := (v ! (b div 8)) OR push_bit (b mod 8) 1]"

lemma and_push_bit_1_neq0: "(w AND push_bit k (1 :: 'a::len word) \<noteq> 0) = bit w k"
proof
  assume "w AND push_bit k 1 \<noteq> 0"
  then obtain n where "bit (w AND push_bit k 1) n" by (metis bit_eqI bit_0_eq bot_apply bot_bool_def)
  then have "bit w n" and "n = k" by (auto simp: bit_and_iff bit_exp_iff)
  then show "bit w k" by simp
next
  assume b: "bit w k"
  then have "k < LENGTH('a)" by (rule bit_imp_le_length)
  with b have "bit (w AND push_bit k 1) k"
    by (simp add: bit_and_iff bit_exp_iff)
  then show "w AND push_bit k 1 \<noteq> 0" by (metis bit_0_eq bot_apply bot_bool_def)
qed

lemma check_bit_iff: "zb_check_bit_in_bit_vector v b = bit (v ! (b div 8)) (b mod 8)"
  unfolding zb_check_bit_in_bit_vector_def by (rule and_push_bit_1_neq0)

lemma length_set_bit [simp]: "length (zb_set_bit_in_bit_vector v b) = length v"
  by (simp add: zb_set_bit_in_bit_vector_def)

lemma check_set_bit:
  assumes "b div 8 < length v" "c div 8 < length v"
  shows "zb_check_bit_in_bit_vector (zb_set_bit_in_bit_vector v b) c =
    (b = c \<or> zb_check_bit_in_bit_vector v c)"
proof (cases "b div 8 = c div 8")
  case True
  have "b = c \<longleftrightarrow> b mod 8 = c mod 8" using True by (metis div_mult_mod_eq)
  with True assms show ?thesis
    by (auto simp: check_bit_iff zb_set_bit_in_bit_vector_def bit_or_iff bit_exp_iff)
next
  case False
  then show ?thesis by (auto simp: check_bit_iff zb_set_bit_in_bit_vector_def)
qed

section \<open>Exclusive or\<close>

lemma xor_left_cancel [simp]: "x XOR y = x XOR z \<longleftrightarrow> y = (z :: 'a::len word)"
proof
  assume "x XOR y = x XOR z"
  then have "(x XOR x) XOR y = (x XOR x) XOR z" unfolding xor.assoc by (rule arg_cong)
  then show "y = z" by simp
qed simp

lemma xor_right_cancel [simp]: "y XOR x = z XOR x \<longleftrightarrow> y = (z :: 'a::len word)"
  unfolding xor.commute [of _ x] by (rule xor_left_cancel)

lemma xor_eq_0 [simp]: "x XOR y = 0 \<longleftrightarrow> x = (y :: 'a::len word)"
  using xor_left_cancel [of x y x] by (metis xor_self_eq)

lemma xor_twice [simp]: "x XOR (x XOR y) = (y :: 'a::len word)"
  by (simp flip: xor.assoc)

section \<open>Lookup tables\<close>

text \<open>A property of every entry of a table, checked entry by entry.\<close>

fun tab_all :: "('a::len word \<Rightarrow> 'b \<Rightarrow> bool) \<Rightarrow> 'b list \<Rightarrow> 'a word \<Rightarrow> bool" where
  "tab_all P [] i \<longleftrightarrow> True"
| "tab_all P (x # xs) i \<longleftrightarrow> P i x \<and> tab_all P xs (i + 1)"

lemma tab_all_nth: "tab_all P xs i \<Longrightarrow> k < length xs \<Longrightarrow> P (i + word_of_nat k) (xs ! k)"
proof (induction xs arbitrary: i k)
  case (Cons x xs)
  show ?case
  proof (cases k)
    case (Suc j)
    have "i + 1 + word_of_nat j = i + word_of_nat (Suc j)" by simp
    with Suc Cons.IH [of "i + 1" j] Cons.prems show ?thesis by simp
  qed (use Cons.prems in simp)
qed simp

lemma tab_all_byte: "tab_all P xs 0 \<Longrightarrow> length xs = 256 \<Longrightarrow> P x (xs ! unat (x :: 8 word))"
  using tab_all_nth [of P xs 0 "unat x"] unsigned_less [of x] by simp

section \<open>Hash functions (zb_hash.h)\<close>

text \<open>
  The C expression has type \<^verbatim>\<open>unsigned int\<close> (32 bits), because \<^verbatim>\<open>ZB_HASH_MAGIC_VAL\<close> is
  \<^verbatim>\<open>5381u\<close>; \<^verbatim>\<open>ZB_INT_MASK\<close> is \<^verbatim>\<open>0x7fffffff\<close> on the 32-bit target.
\<close>

definition ZB_HASH_FUNC_STEP :: "zb_uint32_t \<Rightarrow> zb_uint32_t \<Rightarrow> zb_uint32_t" where
  "ZB_HASH_FUNC_STEP hash_var v = (push_bit 5 hash_var + hash_var) + v"

definition ZB_4INT_HASH_FUNC :: "zb_uint32_t \<Rightarrow> zb_uint32_t \<Rightarrow> zb_uint32_t \<Rightarrow> zb_uint32_t \<Rightarrow> zb_uint32_t" where
  "ZB_4INT_HASH_FUNC v1 v2 v3 v4 =
     ZB_HASH_FUNC_STEP (ZB_HASH_FUNC_STEP (ZB_HASH_FUNC_STEP
       (ZB_HASH_FUNC_STEP 5381 v1) v2) v3) v4 AND 0x7fffffff"

end
