(* ===== verification/Zb_Ring.thy ===== *)
theory Zb_Ring
  imports Zb_Prelude
begin

text \<open>
  The generic ring buffer of \<^verbatim>\<open>include/zb_ringbuffer.h\<close>: the record \<open>zb_ring\<close> is the struct
  that \<^verbatim>\<open>ZB_RING_BUFFER_DECLARE\<close> declares, and each macro is one definition. The capacity is
  the length of the array. The locale \<open>bounded_queue\<close> is the contract that the scheduler and
  the APS queues rely on, stated with an abstraction function to lists, and it is interpreted
  on the macros' model.
\<close>

section \<open>The macros\<close>

record 'a zb_ring =
  ring_buf :: "'a list"
  read_i :: nat
  write_i :: nat
  written :: nat

definition ZB_RING_BUFFER_INIT :: "'a zb_ring \<Rightarrow> 'a zb_ring" where
  "ZB_RING_BUFFER_INIT rb = rb\<lparr>read_i := 0, write_i := 0, written := 0\<rparr>"

definition ZB_RING_BUFFER_CAPACITY :: "'a zb_ring \<Rightarrow> nat" where
  "ZB_RING_BUFFER_CAPACITY rb = length (ring_buf rb)"

definition ZB_RING_BUFFER_IS_FULL :: "'a zb_ring \<Rightarrow> bool" where
  "ZB_RING_BUFFER_IS_FULL rb = (written rb \<ge> ZB_RING_BUFFER_CAPACITY rb)"

definition ZB_RING_BUFFER_IS_EMPTY :: "'a zb_ring \<Rightarrow> bool" where
  "ZB_RING_BUFFER_IS_EMPTY rb = (written rb = 0)"

text \<open>The pointer that the macro returns is modelled by the index of the slot.\<close>

definition ZB_RING_BUFFER_PUT_RESERVE :: "'a zb_ring \<Rightarrow> nat option" where
  "ZB_RING_BUFFER_PUT_RESERVE rb =
     (if ZB_RING_BUFFER_IS_FULL rb then None else Some (write_i rb))"

definition ZB_RING_BUFFER_FLUSH_PUT :: "'a zb_ring \<Rightarrow> 'a zb_ring" where
  "ZB_RING_BUFFER_FLUSH_PUT rb =
     rb\<lparr>written := inc32 (written rb),
        write_i := (write_i rb + 1) mod ZB_RING_BUFFER_CAPACITY rb\<rparr>"

definition ZB_RING_BUFFER_PUT :: "'a \<Rightarrow> 'a zb_ring \<Rightarrow> 'a zb_ring" where
  "ZB_RING_BUFFER_PUT value rb =
     rb\<lparr>ring_buf := (ring_buf rb)[write_i rb := value],
        written := inc32 (written rb),
        write_i := (write_i rb + 1) mod ZB_RING_BUFFER_CAPACITY rb\<rparr>"

definition ZB_RING_BUFFER_GET :: "'a zb_ring \<Rightarrow> 'a" where
  "ZB_RING_BUFFER_GET rb = ring_buf rb ! read_i rb"

definition ZB_RING_BUFFER_PEEK :: "'a zb_ring \<Rightarrow> 'a option" where
  "ZB_RING_BUFFER_PEEK rb =
     (if ZB_RING_BUFFER_IS_EMPTY rb then None else Some (ring_buf rb ! read_i rb))"

definition ZB_RING_BUFFER_FLUSH_GET :: "'a zb_ring \<Rightarrow> 'a zb_ring" where
  "ZB_RING_BUFFER_FLUSH_GET rb =
     rb\<lparr>written := dec32 (written rb),
        read_i := (read_i rb + 1) mod ZB_RING_BUFFER_CAPACITY rb\<rparr>"

lemmas ring_defs = ZB_RING_BUFFER_INIT_def ZB_RING_BUFFER_CAPACITY_def
  ZB_RING_BUFFER_IS_FULL_def ZB_RING_BUFFER_IS_EMPTY_def ZB_RING_BUFFER_PUT_RESERVE_def
  ZB_RING_BUFFER_FLUSH_PUT_def ZB_RING_BUFFER_PUT_def ZB_RING_BUFFER_PEEK_def
  ZB_RING_BUFFER_GET_def ZB_RING_BUFFER_FLUSH_GET_def

section \<open>Well-formedness and the abstraction to a list\<close>

definition ring_wf :: "nat \<Rightarrow> 'a zb_ring \<Rightarrow> bool" where
  "ring_wf cap rb \<longleftrightarrow> length (ring_buf rb) = cap \<and> 0 < cap \<and> cap < 2 ^ 32 - 1
     \<and> read_i rb < cap \<and> written rb \<le> cap \<and> write_i rb = (read_i rb + written rb) mod cap"

definition ring_list :: "'a zb_ring \<Rightarrow> 'a list" where
  "ring_list rb = map (\<lambda>k. ring_buf rb ! ((read_i rb + k) mod length (ring_buf rb))) [0..<written rb]"

lemma length_ring_list [simp]: "length (ring_list rb) = written rb"
  by (simp add: ring_list_def)

lemma ring_list_Nil_iff [simp]: "ring_list rb = [] \<longleftrightarrow> written rb = 0"
  by (simp add: ring_list_def)

lemma ring_list_nth:
  "k < written rb \<Longrightarrow> ring_list rb ! k = ring_buf rb ! ((read_i rb + k) mod length (ring_buf rb))"
  by (simp add: ring_list_def)

lemma mod_add_left_cancel:
  assumes "(r + k) mod c = (r + m) mod c" "k < c" "m < c"
  shows "k = (m::nat)"
proof -
  have "c dvd (r + k) - (r + m)" "c dvd (r + m) - (r + k)"
    using assms(1) by (metis mod_eq_dvd_iff_nat nat_le_linear diff_is_0_eq dvd_0_right)+
  then have "c dvd k - m" "c dvd m - k" by simp_all
  with assms(2,3) show ?thesis
    by (metis diff_is_0_eq dvd_imp_le less_imp_diff_less linorder_neqE_nat not_le zero_less_diff)
qed

lemma ring_put_wf:
  assumes "ring_wf cap rb" "written rb < cap"
  shows "ring_wf cap (ZB_RING_BUFFER_PUT v rb)"
proof -
  have "(Suc (read_i rb + written rb)) mod cap = Suc ((read_i rb + written rb) mod cap) mod cap"
    by (simp add: mod_Suc_eq)
  with assms show ?thesis by (auto simp: ring_wf_def ring_defs)
qed

lemma ring_put_list:
  assumes wf: "ring_wf cap rb" and room: "written rb < cap"
  shows "ring_list (ZB_RING_BUFFER_PUT v rb) = ring_list rb @ [v]"
proof (rule nth_equalityI)
  have c: "length (ring_buf rb) = cap" "0 < cap" "written rb < 2 ^ 32 - 1"
    using assms by (auto simp: ring_wf_def)
  then show "length (ring_list (ZB_RING_BUFFER_PUT v rb)) = length (ring_list rb @ [v])"
    by (simp add: ring_defs)
  fix k assume "k < length (ring_list (ZB_RING_BUFFER_PUT v rb))"
  with c have k: "k \<le> written rb" by (simp add: ring_defs)
  have w: "write_i rb = (read_i rb + written rb) mod cap" using wf by (simp add: ring_wf_def)
  show "ring_list (ZB_RING_BUFFER_PUT v rb) ! k = (ring_list rb @ [v]) ! k"
  proof (cases "k = written rb")
    case True
    with c w show ?thesis
      by (simp add: ring_list_nth ring_defs nth_append)
  next
    case False
    with k have k': "k < written rb" by simp
    with mod_add_left_cancel [of "read_i rb" k cap "written rb"] room w
    have "write_i rb \<noteq> (read_i rb + k) mod cap" by auto
    with c k' show ?thesis
      by (simp add: ring_list_nth ring_defs nth_append)
  qed
qed

lemma ring_flush_get_wf:
  assumes "ring_wf cap rb" "written rb \<noteq> 0"
  shows "ring_wf cap (ZB_RING_BUFFER_FLUSH_GET rb)"
proof -
  have "(Suc (read_i rb) mod cap + (written rb - 1)) mod cap = (read_i rb + written rb) mod cap"
    using assms(2) by (cases "written rb") (simp_all add: mod_add_left_eq)
  with assms show ?thesis by (auto simp: ring_wf_def ring_defs)
qed

lemma ring_flush_get_list:
  assumes "ring_wf cap rb" "written rb \<noteq> 0"
  shows "ring_list (ZB_RING_BUFFER_FLUSH_GET rb) = tl (ring_list rb)"
proof (rule nth_equalityI)
  have c: "length (ring_buf rb) = cap" using assms by (simp add: ring_wf_def)
  show "length (ring_list (ZB_RING_BUFFER_FLUSH_GET rb)) = length (tl (ring_list rb))"
    using assms by (simp add: ring_defs)
  fix k assume "k < length (ring_list (ZB_RING_BUFFER_FLUSH_GET rb))"
  with assms have k: "Suc k < written rb" by (simp add: ring_defs)
  have "(Suc (read_i rb) mod cap + k) mod cap = (read_i rb + Suc k) mod cap"
    by (simp add: mod_add_left_eq)
  with k c assms(2) show "ring_list (ZB_RING_BUFFER_FLUSH_GET rb) ! k = tl (ring_list rb) ! k"
    by (simp add: ring_list_nth ring_defs nth_tl)
qed

lemma ring_peek:
  assumes "ring_wf cap rb"
  shows "ZB_RING_BUFFER_PEEK rb = (case ring_list rb of [] \<Rightarrow> None | x # _ \<Rightarrow> Some x)"
proof (cases "written rb = 0")
  case True
  then show ?thesis by (simp add: ring_defs ring_list_def)
next
  case False
  then have "ring_list rb ! 0 = ring_buf rb ! read_i rb" "ring_list rb \<noteq> []"
    using assms ring_list_nth [of 0 rb] by (auto simp: ring_wf_def ring_list_def)
  with False show ?thesis by (cases "ring_list rb") (auto simp: ring_defs)
qed

lemma ring_reserve_fill:
  "ZB_RING_BUFFER_PUT_RESERVE rb = Some i \<Longrightarrow>
   ZB_RING_BUFFER_FLUSH_PUT (rb\<lparr>ring_buf := (ring_buf rb)[i := v]\<rparr>) = ZB_RING_BUFFER_PUT v rb"
  by (auto simp: ring_defs split: if_splits)

section \<open>The bounded queue contract\<close>

locale bounded_queue =
  fixes put :: "'a \<Rightarrow> 'q \<Rightarrow> 'q" and peek :: "'q \<Rightarrow> 'a option" and pop :: "'q \<Rightarrow> 'q"
    and is_full :: "'q \<Rightarrow> bool" and contents :: "'q \<Rightarrow> 'a list" and inv :: "'q \<Rightarrow> bool"
    and capacity :: nat
  assumes put_inv: "inv q \<Longrightarrow> \<not> is_full q \<Longrightarrow> inv (put x q)"
    and put_contents: "inv q \<Longrightarrow> \<not> is_full q \<Longrightarrow> contents (put x q) = contents q @ [x]"
    and pop_inv: "inv q \<Longrightarrow> contents q \<noteq> [] \<Longrightarrow> inv (pop q)"
    and pop_contents: "inv q \<Longrightarrow> contents q \<noteq> [] \<Longrightarrow> contents (pop q) = tl (contents q)"
    and peek_hd: "inv q \<Longrightarrow> peek q = (case contents q of [] \<Rightarrow> None | x # _ \<Rightarrow> Some x)"
    and full_iff: "inv q \<Longrightarrow> is_full q = (length (contents q) = capacity)"
    and bounded: "inv q \<Longrightarrow> length (contents q) \<le> capacity"
begin

fun put_all :: "'a list \<Rightarrow> 'q \<Rightarrow> 'q" where
  "put_all [] q = q"
| "put_all (x # xs) q = put_all xs (put x q)"

fun take_n :: "nat \<Rightarrow> 'q \<Rightarrow> 'a list" where
  "take_n 0 q = []"
| "take_n (Suc n) q = (case peek q of None \<Rightarrow> [] | Some x \<Rightarrow> x # take_n n (pop q))"

lemma put_all_contents:
  "inv q \<Longrightarrow> length (contents q) + length xs \<le> capacity \<Longrightarrow>
   inv (put_all xs q) \<and> contents (put_all xs q) = contents q @ xs"
proof (induction xs arbitrary: q)
  case (Cons x xs)
  then have "\<not> is_full q" by (simp add: full_iff)
  with Cons show ?case by (simp add: put_inv put_contents)
qed simp

lemma take_n_contents:
  "inv q \<Longrightarrow> take_n n q = take n (contents q)"
proof (induction n arbitrary: q)
  case (Suc n)
  then show ?case
    by (cases "contents q") (simp_all add: peek_hd pop_inv pop_contents)
qed simp

lemma fifo:
  "inv q \<Longrightarrow> contents q = [] \<Longrightarrow> length xs \<le> capacity \<Longrightarrow>
   take_n (length xs) (put_all xs q) = xs"
  using put_all_contents [of q xs] take_n_contents by simp

end

interpretation ring: bounded_queue ZB_RING_BUFFER_PUT ZB_RING_BUFFER_PEEK ZB_RING_BUFFER_FLUSH_GET
  ZB_RING_BUFFER_IS_FULL ring_list "ring_wf cap" cap for cap
proof unfold_locales
  fix q :: "'a zb_ring" and x
  assume wf: "ring_wf cap q"
  show "ZB_RING_BUFFER_PEEK q = (case ring_list q of [] \<Rightarrow> None | x # xa \<Rightarrow> Some x)"
    using wf by (rule ring_peek)
  show "ZB_RING_BUFFER_IS_FULL q = (length (ring_list q) = cap)" "length (ring_list q) \<le> cap"
    using wf by (auto simp: ring_wf_def ring_defs)
  show "ring_wf cap (ZB_RING_BUFFER_PUT x q)"
    "ring_list (ZB_RING_BUFFER_PUT x q) = ring_list q @ [x]" if "\<not> ZB_RING_BUFFER_IS_FULL q"
  proof -
    have "written q < cap"
      using that wf by (auto simp: ring_defs ring_wf_def)
    with wf show "ring_wf cap (ZB_RING_BUFFER_PUT x q)"
      "ring_list (ZB_RING_BUFFER_PUT x q) = ring_list q @ [x]"
      by (auto intro: ring_put_wf ring_put_list)
  qed
  show "ring_wf cap (ZB_RING_BUFFER_FLUSH_GET q)"
    "ring_list (ZB_RING_BUFFER_FLUSH_GET q) = tl (ring_list q)" if "ring_list q \<noteq> []"
    using that wf
    by (auto intro!: ring_flush_get_wf ring_flush_get_list)
qed

end
