(* ===== verification/Zb_List.thy ===== *)
theory Zb_List
  imports Zb_Prelude
begin

text \<open>
  The intrusive list macros of \<^verbatim>\<open>include/zb_list_macros.h\<close> on an explicit store. A list
  element is the index of an entry of its pool, \<open>None\<close> is the null pointer, and the store
  \<open>zb_links\<close> holds the \<^verbatim>\<open>_next\<close> and \<^verbatim>\<open>_prev\<close> fields of every entry. As in the C code the
  doubly linked lists, the singly linked lists and the stacks share the field \<^verbatim>\<open>_next\<close>.
  Dereferencing a null pointer gives \<open>None\<close>. The predicates \<open>dll\<close>, \<open>sll\<close> and \<open>stk\<close> relate the
  store to the abstract list, and each macro is shown to implement a list operation.
\<close>

record zb_links =
  l_next :: "nat \<Rightarrow> nat option"
  l_prev :: "nat \<Rightarrow> nat option"

definition set_next :: "nat \<Rightarrow> nat option \<Rightarrow> zb_links \<Rightarrow> zb_links" where
  "set_next e p L = L\<lparr>l_next := (l_next L)(e := p)\<rparr>"

definition set_prev :: "nat \<Rightarrow> nat option \<Rightarrow> zb_links \<Rightarrow> zb_links" where
  "set_prev e p L = L\<lparr>l_prev := (l_prev L)(e := p)\<rparr>"

lemma set_links_simps [simp]:
  "l_next (set_next e p L) = (l_next L)(e := p)" "l_prev (set_next e p L) = l_prev L"
  "l_prev (set_prev e p L) = (l_prev L)(e := p)" "l_next (set_prev e p L) = l_next L"
  by (simp_all add: set_next_def set_prev_def)

section \<open>Doubly linked lists\<close>

text \<open>
  \<^verbatim>\<open>ZB_LIST_CHECK_ENT\<close> (debug builds) walks the list and asserts that the entry is not in it.
  A walk of more than \<open>ZB_LIST_FUEL\<close> entries has left every pool of the stack (the largest has
  16 entries), so the list is cyclic and the walk would not end.
\<close>

definition ZB_LIST_FUEL :: nat where "ZB_LIST_FUEL = 256"

fun list_walk :: "nat \<Rightarrow> (nat \<Rightarrow> nat option) \<Rightarrow> nat option \<Rightarrow> nat list option" where
  "list_walk fuel nx None = Some []"
| "list_walk 0 nx (Some e) = None"
| "list_walk (Suc fuel) nx (Some e) = map_option (Cons e) (list_walk fuel nx (nx e))"

definition ZB_LIST_CHECK_ENT :: "zb_links \<Rightarrow> nat option \<Rightarrow> nat \<Rightarrow> unit option" where
  "ZB_LIST_CHECK_ENT L list ent = do {
     xs \<leftarrow> list_walk ZB_LIST_FUEL (l_next L) list;
     zb_assert (ent \<notin> set xs) }"

definition ZB_LIST_GET_TAIL :: "zb_links \<Rightarrow> nat option \<Rightarrow> nat option" where
  "ZB_LIST_GET_TAIL L list = (case list of Some h \<Rightarrow> l_prev L h | None \<Rightarrow> None)"

definition ZB_LIST_CUT_HEAD :: "zb_links \<Rightarrow> nat option \<Rightarrow> zb_links \<times> nat option \<times> nat option" where
  "ZB_LIST_CUT_HEAD L list =
     (case list of None \<Rightarrow> (L, list, None)
      | Some h \<Rightarrow>
          let L1 = (case l_next L h of Some n \<Rightarrow> set_prev n (l_prev L h) L | None \<Rightarrow> L);
              L2 = set_prev h None L1
          in (L2, l_next L2 h, Some h))"

definition ZB_LIST_INSERT_HEAD :: "zb_links \<Rightarrow> nat option \<Rightarrow> nat \<Rightarrow> (zb_links \<times> nat option) option" where
  "ZB_LIST_INSERT_HEAD L list ent = do {
     ZB_LIST_CHECK_ENT L list ent;
     let L1 = set_next ent list L;
     let L2 = (case list of
         Some h \<Rightarrow> set_prev h (Some ent) (set_prev ent (l_prev L1 h) L1)
       | None \<Rightarrow> set_prev ent (Some ent) L1);
     Some (L2, Some ent) }"

definition ZB_LIST_INSERT_TAIL :: "zb_links \<Rightarrow> nat option \<Rightarrow> nat \<Rightarrow> (zb_links \<times> nat option) option" where
  "ZB_LIST_INSERT_TAIL L list ent = do {
     ZB_LIST_CHECK_ENT L list ent;
     let L1 = set_next ent None L;
     (case list of
        Some h \<Rightarrow> do {
          let L2 = set_prev ent (l_prev L1 h) L1;
          t \<leftarrow> l_prev L2 h;
          let L3 = set_next t (Some ent) L2;
          Some (set_prev h (Some ent) L3, Some h) }
      | None \<Rightarrow> Some (set_prev ent (Some ent) L1, Some ent)) }"

definition ZB_LIST_INSERT_AFTER ::
    "zb_links \<Rightarrow> nat option \<Rightarrow> nat \<Rightarrow> nat \<Rightarrow> (zb_links \<times> nat option) option" where
  "ZB_LIST_INSERT_AFTER L list ent new_ent = do {
     ZB_LIST_CHECK_ENT L list new_ent;
     if Some ent = ZB_LIST_GET_TAIL L list then ZB_LIST_INSERT_TAIL L list new_ent
     else do {
       let L1 = set_next new_ent (l_next L ent) L;
       let L2 = set_prev new_ent (Some ent) L1;
       n \<leftarrow> l_next L2 ent;
       let L3 = set_prev n (Some new_ent) L2;
       Some (set_next ent (Some new_ent) L3, list) } }"

definition ZB_LIST_REMOVE :: "zb_links \<Rightarrow> nat option \<Rightarrow> nat \<Rightarrow> (zb_links \<times> nat option) option" where
  "ZB_LIST_REMOVE L list ent =
     (if l_prev L ent = None then Some (L, list)
      else do {
        L1 \<leftarrow> (case l_next L ent of
            Some n \<Rightarrow> Some (set_prev n (l_prev L ent) L)
          | None \<Rightarrow> do { h \<leftarrow> list; Some (set_prev h (l_prev L ent) L) });
        (L2, list') \<leftarrow> (if Some ent = list then Some (L1, l_next L1 ent)
          else do { p \<leftarrow> l_prev L1 ent; Some (set_next p (l_next L1 ent) L1, list) });
        Some (set_prev ent None L2, list') })"

section \<open>Stacks and singly linked lists\<close>

definition ZB_STK_PUSH :: "zb_links \<Rightarrow> nat option \<Rightarrow> nat \<Rightarrow> zb_links \<times> nat option" where
  "ZB_STK_PUSH L head ent = (set_next ent head L, Some ent)"

definition ZB_STK_POP :: "zb_links \<Rightarrow> nat option \<Rightarrow> nat option \<times> nat option" where
  "ZB_STK_POP L head = (case head of Some h \<Rightarrow> (l_next L h, Some h) | None \<Rightarrow> (head, None))"

definition ZB_SL_LIST_INSERT_TAIL ::
    "zb_links \<Rightarrow> nat option \<Rightarrow> nat option \<Rightarrow> nat \<Rightarrow> zb_links \<times> nat option \<times> nat option" where
  "ZB_SL_LIST_INSERT_TAIL L head tail ent =
     (let L1 = set_next ent None L in
      case tail of Some t \<Rightarrow> (set_next t (Some ent) L1, head, Some ent)
      | None \<Rightarrow> (L1, Some ent, Some ent))"

definition ZB_SL_LIST_CUT_HEAD ::
    "zb_links \<Rightarrow> nat option \<Rightarrow> nat option \<Rightarrow> nat option \<times> nat option \<times> nat option" where
  "ZB_SL_LIST_CUT_HEAD L head tail =
     (case head of
        Some h \<Rightarrow> (l_next L h, if l_next L h = None then None else tail, Some h)
      | None \<Rightarrow> (head, tail, None))"

section \<open>Representation\<close>

text \<open>\<open>seg nx p xs q\<close>: following \<open>nx\<close> from \<open>p\<close> visits \<open>xs\<close> and arrives at \<open>q\<close>.\<close>

fun seg :: "(nat \<Rightarrow> nat option) \<Rightarrow> nat option \<Rightarrow> nat list \<Rightarrow> nat option \<Rightarrow> bool" where
  "seg nx p [] q = (p = q)"
| "seg nx p (x # xs) q = (p = Some x \<and> seg nx (nx x) xs q)"

text \<open>\<open>bwd pv y xs\<close>: the \<open>_prev\<close> fields of \<open>xs\<close> point to the element before, the first to \<open>y\<close>.\<close>

fun bwd :: "(nat \<Rightarrow> nat option) \<Rightarrow> nat \<Rightarrow> nat list \<Rightarrow> bool" where
  "bwd pv y [] = True"
| "bwd pv y (x # xs) = (pv x = Some y \<and> bwd pv x xs)"

definition dll :: "zb_links \<Rightarrow> nat option \<Rightarrow> nat list \<Rightarrow> bool" where
  "dll L list xs \<longleftrightarrow> distinct xs \<and> seg (l_next L) list xs None
     \<and> (xs \<noteq> [] \<longrightarrow> bwd (l_prev L) (last xs) xs)"

definition stk :: "zb_links \<Rightarrow> nat option \<Rightarrow> nat list \<Rightarrow> bool" where
  "stk L head xs \<longleftrightarrow> distinct xs \<and> seg (l_next L) head xs None"

definition sll :: "zb_links \<Rightarrow> nat option \<Rightarrow> nat option \<Rightarrow> nat list \<Rightarrow> bool" where
  "sll L head tail xs \<longleftrightarrow> stk L head xs \<and> tail = (if xs = [] then None else Some (last xs))"

lemma seg_upd [simp]: "e \<notin> set xs \<Longrightarrow> seg (nx(e := v)) p xs q = seg nx p xs q"
  by (induction xs arbitrary: p) auto

lemma seg_append: "seg nx p (xs @ ys) q = (\<exists>r. seg nx p xs r \<and> seg nx r ys q)"
  by (induction xs arbitrary: p) auto

lemma bwd_upd [simp]: "e \<notin> set xs \<Longrightarrow> bwd (pv(e := v)) y xs = bwd pv y xs"
  by (induction xs arbitrary: y) auto

lemma bwd_append: "bwd pv y (xs @ ys) = (bwd pv y xs \<and> bwd pv (last (y # xs)) ys)"
  by (induction xs arbitrary: y) auto

lemma seg_head: "seg nx p xs None \<Longrightarrow> p = (case xs of [] \<Rightarrow> None | x # _ \<Rightarrow> Some x)"
  by (cases xs) auto

lemma seg_walk: "seg nx p xs None \<Longrightarrow> length xs \<le> fuel \<Longrightarrow> list_walk fuel nx p = Some xs"
proof (induction xs arbitrary: p fuel)
  case (Cons x xs)
  then show ?case by (cases fuel) auto
qed simp

lemma dll_check:
  assumes "dll L list xs" "e \<notin> set xs" "length xs \<le> ZB_LIST_FUEL"
  shows "ZB_LIST_CHECK_ENT L list e = Some ()"
  using assms seg_walk [of "l_next L" list xs ZB_LIST_FUEL]
  by (simp add: dll_def ZB_LIST_CHECK_ENT_def)

lemma dll_Nil [simp]: "dll L list [] \<longleftrightarrow> list = None"
  by (auto simp: dll_def)

lemma dll_head: "dll L list xs \<Longrightarrow> list = (case xs of [] \<Rightarrow> None | x # _ \<Rightarrow> Some x)"
  by (auto simp: dll_def dest: seg_head)

lemma dll_distinct: "dll L list xs \<Longrightarrow> distinct xs"
  by (simp add: dll_def)

lemma stk_distinct: "stk L head xs \<Longrightarrow> distinct xs"
  by (simp add: stk_def)

lemma stk_head: "stk L head xs \<Longrightarrow> head = (case xs of [] \<Rightarrow> None | x # _ \<Rightarrow> Some x)"
  by (auto simp: stk_def dest: seg_head)

section \<open>The macros implement list operations\<close>

text \<open>Each lemma has the list operation and the frame: fields of other entries are unchanged.\<close>

lemma dll_insert_head:
  assumes d: "dll L list xs" and e: "e \<notin> set xs" and len: "length xs \<le> ZB_LIST_FUEL"
  shows "\<exists>L'. ZB_LIST_INSERT_HEAD L list e = Some (L', Some e) \<and> dll L' (Some e) (e # xs)
     \<and> (\<forall>x. x \<noteq> e \<longrightarrow> l_next L' x = l_next L x)"
proof (cases xs)
  case Nil
  with d have "list = None" by simp
  with dll_check [OF d e len] Nil show ?thesis
    by (auto simp: ZB_LIST_INSERT_HEAD_def dll_def)
next
  case (Cons h t)
  with d have "list = Some h" by (auto dest: dll_head)
  with dll_check [OF d e len] Cons d e show ?thesis
    by (auto simp: ZB_LIST_INSERT_HEAD_def dll_def)
qed

lemma dll_insert_tail:
  assumes d: "dll L list xs" and e: "e \<notin> set xs" and len: "length xs \<le> ZB_LIST_FUEL"
  shows "\<exists>L' list'. ZB_LIST_INSERT_TAIL L list e = Some (L', list') \<and> dll L' list' (xs @ [e])
     \<and> (\<forall>x. x \<notin> set (e # xs) \<longrightarrow> l_next L' x = l_next L x)"
proof (cases xs rule: rev_cases)
  case Nil
  with d have "list = None" by simp
  with dll_check [OF d e len] Nil show ?thesis
    by (auto simp: ZB_LIST_INSERT_TAIL_def dll_def)
next
  case (snoc ys t)
  then have ne: "xs \<noteq> []" by simp
  then obtain h where h: "list = Some h" "hd xs = h"
    using dll_head [OF d] by (auto split: list.splits)
  note h = h ne
  have prev: "l_prev L h = Some t"
    using d h snoc by (cases ys) (auto simp: dll_def)
  have ht: "h \<in> set xs" "h \<noteq> e" using h e by (cases xs; auto)+
  show ?thesis
  proof (cases ys)
    case Nil
    with snoc h have "xs = [t]" "h = t" by auto
    with d e h prev dll_check [OF d e len] show ?thesis
      by (auto simp: ZB_LIST_INSERT_TAIL_def dll_def)
  next
    case (Cons a ys')
    with snoc h have xs: "xs = h # ys' @ [t]" by simp
    have t: "t \<noteq> e" "t \<noteq> h" "t \<notin> set ys'" "h \<notin> set ys'" "e \<notin> set ys'"
      using xs d e by (auto simp: dll_def)
    let ?L = "set_prev h (Some e) (set_next t (Some e) (set_prev e (Some t) (set_next e None L)))"
    have "ZB_LIST_INSERT_TAIL L list e = Some (?L, Some h)"
      using dll_check [OF d e len] h prev ht by (simp add: ZB_LIST_INSERT_TAIL_def)
    moreover have "dll ?L (Some h) (xs @ [e])"
      using d e t xs ht by (auto simp: dll_def seg_append bwd_append)
    ultimately show ?thesis using xs by auto
  qed
qed

lemma dll_insert_after:
  assumes d: "dll L list (xs @ a # ys)" and e: "e \<notin> set (xs @ a # ys)"
    and len: "length (xs @ a # ys) \<le> ZB_LIST_FUEL"
  shows "\<exists>L' list'. ZB_LIST_INSERT_AFTER L list a e = Some (L', list')
     \<and> dll L' list' (xs @ a # e # ys)
     \<and> (\<forall>x. x \<notin> set (e # xs @ a # ys) \<longrightarrow> l_next L' x = l_next L x)"
proof -
  have tail: "ZB_LIST_GET_TAIL L list = Some (last (xs @ a # ys))"
    using d by (cases xs) (auto simp: ZB_LIST_GET_TAIL_def dll_def)
  show ?thesis
  proof (cases ys)
    case Nil
    with tail dll_check [OF d e len] dll_insert_tail [OF d e len] show ?thesis
      by (simp add: ZB_LIST_INSERT_AFTER_def) 
  next
    case (Cons n ys')
    with d have na: "last (xs @ a # ys) \<noteq> a" "l_next L a = Some n"
      by (auto simp: dll_def seg_append)
    let ?L = "set_next a (Some e) (set_prev n (Some e) (set_prev e (Some a) (set_next e (Some n) L)))"
    have "a \<noteq> e" using e by auto
    then have "ZB_LIST_INSERT_AFTER L list a e = Some (?L, list)"
      using dll_check [OF d e len] tail na by (simp add: ZB_LIST_INSERT_AFTER_def)
    moreover have "dll ?L list (xs @ a # e # ys)"
      using d e Cons na by (cases xs) (auto simp: dll_def seg_append bwd_append)
    ultimately show ?thesis by auto
  qed
qed

lemma dll_cut_head:
  assumes d: "dll L list (h # xs)"
  shows "\<exists>L' list'. ZB_LIST_CUT_HEAD L list = (L', list', Some h) \<and> dll L' list' xs
     \<and> l_prev L' h = None \<and> l_next L' = l_next L"
proof (cases xs)
  case Nil
  with d show ?thesis by (auto simp: ZB_LIST_CUT_HEAD_def dll_def)
next
  case (Cons n ys)
  with d show ?thesis by (auto simp: ZB_LIST_CUT_HEAD_def dll_def)
qed

lemma dll_remove:
  assumes d: "dll L list (xs @ e # ys)"
  shows "\<exists>L' list'. ZB_LIST_REMOVE L list e = Some (L', list') \<and> dll L' list' (xs @ ys)
     \<and> l_prev L' e = None \<and> (\<forall>x. x \<notin> set xs \<longrightarrow> l_next L' x = l_next L x)"
proof (cases xs rule: rev_cases)
  case Nil
  with d show ?thesis
    by (cases ys) (auto simp: ZB_LIST_REMOVE_def dll_def)
next
  case (snoc us p)
  then obtain h where h: "list = Some h" "h \<in> set xs"
    using d by (cases us) (auto simp: dll_def)
  have ep: "l_prev L e = Some p" "e \<noteq> h" "p \<noteq> e"
    using d snoc h by (auto simp: dll_def bwd_append)
  show ?thesis
  proof (cases ys)
    case Nil
    let ?L = "set_prev e None (set_next p None (set_prev h (Some p) L))"
    have "l_next L e = None" using d Nil by (auto simp: dll_def seg_append)
    with ep h have "ZB_LIST_REMOVE L list e = Some (?L, list)"
      by (auto simp: ZB_LIST_REMOVE_def)
    moreover have "dll ?L list (xs @ ys)"
      using d Nil snoc h ep by (cases us) (auto simp: dll_def seg_append bwd_append)
    ultimately show ?thesis using snoc by auto
  next
    case (Cons n ys')
    let ?L = "set_prev e None (set_next p (Some n) (set_prev n (Some p) L))"
    have "l_next L e = Some n" using d Cons by (auto simp: dll_def seg_append)
    moreover have "n \<noteq> e" using d Cons by (auto simp: dll_def)
    ultimately have "ZB_LIST_REMOVE L list e = Some (?L, list)"
      using ep h by (auto simp: ZB_LIST_REMOVE_def)
    moreover have "dll ?L list (xs @ ys)"
      using d Cons snoc ep by (cases us) (auto simp: dll_def seg_append bwd_append)
    ultimately show ?thesis using snoc by auto
  qed
qed

lemma stk_push:
  "stk L head xs \<Longrightarrow> e \<notin> set xs \<Longrightarrow> ZB_STK_PUSH L head e = (L', head') \<Longrightarrow>
   stk L' head' (e # xs) \<and> l_prev L' = l_prev L \<and> (\<forall>x. x \<noteq> e \<longrightarrow> l_next L' x = l_next L x)"
  by (auto simp: ZB_STK_PUSH_def stk_def)

lemma stk_pop:
  "stk L head (x # xs) \<Longrightarrow> \<exists>head'. ZB_STK_POP L head = (head', Some x) \<and> stk L head' xs"
  by (auto simp: ZB_STK_POP_def stk_def)

lemma stk_pop_empty: "stk L head [] \<Longrightarrow> ZB_STK_POP L head = (None, None)"
  by (auto simp: ZB_STK_POP_def stk_def)

lemma sll_insert_tail:
  assumes s: "sll L head tail xs" and e: "e \<notin> set xs"
  shows "\<exists>L' head' tail'. ZB_SL_LIST_INSERT_TAIL L head tail e = (L', head', tail')
     \<and> sll L' head' tail' (xs @ [e]) \<and> l_prev L' = l_prev L
     \<and> (\<forall>x. x \<notin> set (e # xs) \<longrightarrow> l_next L' x = l_next L x)"
proof (cases xs rule: rev_cases)
  case Nil
  with s show ?thesis by (auto simp: ZB_SL_LIST_INSERT_TAIL_def sll_def stk_def)
next
  case (snoc ys t)
  with s e show ?thesis
    by (auto simp: ZB_SL_LIST_INSERT_TAIL_def sll_def stk_def seg_append)
qed

lemma sll_cut_head:
  assumes "sll L head tail (x # xs)"
  shows "\<exists>head' tail'. ZB_SL_LIST_CUT_HEAD L head tail = (head', tail', Some x)
     \<and> sll L head' tail' xs"
proof (cases xs)
  case Nil
  with assms show ?thesis by (auto simp: ZB_SL_LIST_CUT_HEAD_def sll_def stk_def)
next
  case (Cons y ys)
  with assms show ?thesis by (auto simp: ZB_SL_LIST_CUT_HEAD_def sll_def stk_def)
qed

text \<open>Frames: a list is untouched by changes to the fields of entries outside it.\<close>

lemma seg_frame: "(\<forall>x\<in>set xs. nx' x = nx x) \<Longrightarrow> seg nx' p xs q = seg nx p xs q"
  by (induction xs arbitrary: p) auto

lemma bwd_frame: "(\<forall>x\<in>set xs. pv' x = pv x) \<Longrightarrow> bwd pv' y xs = bwd pv y xs"
  by (induction xs arbitrary: y) auto

lemma stk_frame: "(\<forall>x\<in>set xs. l_next L' x = l_next L x) \<Longrightarrow> stk L' h xs = stk L h xs"
  unfolding stk_def using seg_frame by blast

lemma sll_frame: "(\<forall>x\<in>set xs. l_next L' x = l_next L x) \<Longrightarrow> sll L' h t xs = sll L h t xs"
  unfolding sll_def using stk_frame by blast

lemma dll_frame:
  "(\<forall>x\<in>set xs. l_next L' x = l_next L x \<and> l_prev L' x = l_prev L x) \<Longrightarrow> dll L' h xs = dll L h xs"
  unfolding dll_def using seg_frame [of xs "l_next L'" "l_next L"]
    bwd_frame [of xs "l_prev L'" "l_prev L"] by blast

end
