(* ===== verification/Zb_Time.thy ===== *)
theory Zb_Time
  imports Zb_Prelude
begin

text \<open>
  The 16-bit time arithmetic of \<^verbatim>\<open>include/zb_time.h\<close> and the timer of \<^verbatim>\<open>common/zb_time.c\<close>
  (the branch for every platform but the 8051). Time wraps around; two times are compared by
  the sign of their 16-bit difference, so \<open>ZB_TIME_GE\<close> is an order only on times that lie
  within half of the range. The lemmas give it that order on a window, and the timer's
  behaviour: after a start the timer never stops later than asked.
\<close>

type_synonym zb_time_t = "16 word"

definition ZB_HALF_MAX_TIME_VAL :: zb_time_t where "ZB_HALF_MAX_TIME_VAL = 32767"

definition ZB_TIME_SUBTRACT :: "zb_time_t \<Rightarrow> zb_time_t \<Rightarrow> zb_time_t" where
  "ZB_TIME_SUBTRACT a b = (if a - b < ZB_HALF_MAX_TIME_VAL then a - b else b - a)"

definition ZB_TIME_ADD :: "zb_time_t \<Rightarrow> zb_time_t \<Rightarrow> zb_time_t" where
  "ZB_TIME_ADD a b = a + b"

definition ZB_TIME_GE :: "zb_time_t \<Rightarrow> zb_time_t \<Rightarrow> bool" where
  "ZB_TIME_GE a b = (a - b < ZB_HALF_MAX_TIME_VAL)"

definition ZB_BEACON_INTERVAL_USEC :: nat where "ZB_BEACON_INTERVAL_USEC = 15360"

text \<open>The conversions, on the values of the C expressions (evaluated in \<^verbatim>\<open>long\<close> or \<^verbatim>\<open>int\<close>).\<close>

definition ZB_TIME_BEACON_INTERVAL_TO_MSEC :: "nat \<Rightarrow> nat" where
  "ZB_TIME_BEACON_INTERVAL_TO_MSEC t = ZB_BEACON_INTERVAL_USEC div 100 * t div 10"

definition ZB_MILLISECONDS_TO_BEACON_INTERVAL :: "nat \<Rightarrow> nat" where
  "ZB_MILLISECONDS_TO_BEACON_INTERVAL ms = (10 * ms + 3) div (ZB_BEACON_INTERVAL_USEC div 100)"

definition ZB_TIME_ONE_SECOND :: nat where
  "ZB_TIME_ONE_SECOND = ZB_MILLISECONDS_TO_BEACON_INTERVAL 1000"

record zb_timer =
  timer_stop :: zb_time_t
  tm_now :: zb_time_t
  tm_started :: bool

definition ZB_TIMER_GET :: "zb_timer \<Rightarrow> zb_time_t" where
  "ZB_TIMER_GET tm = tm_now tm"

definition zb_timer_start :: "zb_time_t \<Rightarrow> zb_timer \<Rightarrow> zb_timer" where
  "zb_timer_start timeout tm =
     (let t_cur = ZB_TIMER_GET tm; t = ZB_TIME_ADD t_cur timeout in
      if \<not> tm_started tm \<or> \<not> ZB_TIME_GE t (timer_stop tm) \<or> \<not> ZB_TIME_GE (timer_stop tm) t_cur
      then tm\<lparr>timer_stop := t, tm_started := True\<rparr> else tm)"

definition zb_timer_stop_async :: "zb_timer \<Rightarrow> zb_timer" where
  "zb_timer_stop_async tm = tm\<lparr>tm_started := False\<rparr>"

lemma timer_frame [simp]:
  "tm_now (zb_timer_start d tm) = tm_now tm" "tm_now (zb_timer_stop_async tm) = tm_now tm"
  by (simp_all add: zb_timer_start_def zb_timer_stop_async_def Let_def)

section \<open>Distances on the time circle\<close>

text \<open>\<open>time_from b t\<close> is how far \<open>t\<close> lies after \<open>b\<close>, going forward around the circle.\<close>

definition time_from :: "zb_time_t \<Rightarrow> zb_time_t \<Rightarrow> nat" where
  "time_from b t = unat (t - b)"

lemma time_ge_unat: "ZB_TIME_GE a b \<longleftrightarrow> unat (a - b) < 32767"
  by (simp add: ZB_TIME_GE_def ZB_HALF_MAX_TIME_VAL_def word_less_nat_alt)

lemma time_ge_refl [simp]: "ZB_TIME_GE a a"
  by (simp add: time_ge_unat)

lemma unat_diff16:
  "unat (a - b :: 16 word) = (if unat b \<le> unat a then unat a - unat b else unat a + 65536 - unat b)"
proof -
  have u: "uint w = int (unat w)" for w :: "16 word" by simp
  have *: "n = (if k \<le> m then m - k else m + 65536 - k)"
    if "int n = (if int k \<le> int m then int m - int k else int m - int k + 65536)" for n m k :: nat
    using that by (auto split: if_splits)
  show ?thesis
    by (rule *, rule trans [OF uint_sub_if' [of a b, unfolded u]]) simp
qed

text \<open>
  On times less than half of the range ahead of a base time, the comparison is the linear order
  of their distances from the base.
\<close>

lemma time_ge_window:
  assumes "time_from b x < 32767" "time_from b y < 32767"
  shows "ZB_TIME_GE x y \<longleftrightarrow> time_from b y \<le> time_from b x"
proof -
  have "unat (x - y) = unat ((x - b) - (y - b))" by simp
  also have "\<dots> = (if unat (y - b) \<le> unat (x - b) then unat (x - b) - unat (y - b)
      else unat (x - b) + 65536 - unat (y - b))" by (rule unat_diff16)
  finally show ?thesis using assms by (auto simp: time_ge_unat time_from_def split: if_splits)
qed

lemma time_subtract_window:
  "time_from b a < 32767 \<Longrightarrow> ZB_TIME_SUBTRACT a b = a - b"
  by (simp add: ZB_TIME_SUBTRACT_def ZB_HALF_MAX_TIME_VAL_def time_from_def word_less_nat_alt)

lemma msec_roundtrip_le:
  "ZB_MILLISECONDS_TO_BEACON_INTERVAL (ZB_TIME_BEACON_INTERVAL_TO_MSEC t) \<le> t"
proof -
  have "10 * (153 * t div 10) + 3 < 153 * (t + 1)"
    using times_div_less_eq_dividend [of 10 "153 * t"] by simp
  then have "(10 * (153 * t div 10) + 3) div 153 < t + 1"
    by (simp add: div_less_iff_less_mult mult.commute)
  then show ?thesis
    by (simp add: ZB_MILLISECONDS_TO_BEACON_INTERVAL_def ZB_TIME_BEACON_INTERVAL_TO_MSEC_def
        ZB_BEACON_INTERVAL_USEC_def)
qed

text \<open>A started timer stops no later than the requested timeout.\<close>

lemma timer_start_deadline:
  assumes "unat d < 32767"
  shows "tm_started (zb_timer_start d tm) \<and>
    time_from (tm_now tm) (timer_stop (zb_timer_start d tm)) \<le> unat d"
  using assms time_ge_window [of "tm_now tm" "tm_now tm + d" "timer_stop tm"]
  by (auto simp: zb_timer_start_def Let_def ZB_TIMER_GET_def ZB_TIME_ADD_def time_from_def
      time_ge_unat)

end
