(* ===== verification/Zb_Sched.thy ===== *)
theory Zb_Sched
  imports Zb_Ring Zb_List Zb_Time "HOL-Library.Multiset"
begin

text \<open>
  The cooperative scheduler: \<^verbatim>\<open>include/zb_scheduler.h\<close>, \<^verbatim>\<open>common/zb_scheduler.c\<close> and
  \<^verbatim>\<open>common/zb_scheduler_init.c\<close>. \<open>zb_globals\<close> is the part of the global context that the
  scheduler uses (\<^verbatim>\<open>ZG->sched\<close> and \<^verbatim>\<open>ZIG->time\<close>); it is an extensible record, so that the
  theories above add the globals of their components. Timer queue entries and delayed-buffer
  entries are indices into \<^verbatim>\<open>tm_buffer\<close> and \<^verbatim>\<open>delayed_buf\<close>, their links are the stores
  \<open>tm_links\<close> and \<open>buf_links\<close>. The abstract contents of the queues are \<open>alarms\<close>, \<open>in_waiters\<close>
  and \<open>out_waiters\<close>; the lemmas show that each operation implements a list operation on them.
\<close>

section \<open>State\<close>

definition ZB_SCHEDULER_Q_SIZE :: nat where "ZB_SCHEDULER_Q_SIZE = 16"

definition ZB_BUF_Q_SIZE :: nat where "ZB_BUF_Q_SIZE = 16"

definition ZB_MAC_QUEUE_SIZE :: nat where "ZB_MAC_QUEUE_SIZE = 4"

definition ZB_IOBUF_POOL_SIZE :: nat where "ZB_IOBUF_POOL_SIZE = 16"

definition ZB_ALARM_ANY_PARAM :: zb_uint8_t where "ZB_ALARM_ANY_PARAM = -1"

definition ZB_ALARM_ALL_CB :: zb_uint8_t where "ZB_ALARM_ALL_CB = -2"

lemmas sched_consts = ZB_SCHEDULER_Q_SIZE_def ZB_BUF_Q_SIZE_def ZB_MAC_QUEUE_SIZE_def
  ZB_IOBUF_POOL_SIZE_def

text \<open>\<open>zb_cb_q_ent_t\<close> and \<open>zb_mac_cb_ent_t\<close> have the same fields.\<close>

record zb_cb_q_ent =
  cb_func :: zb_callback
  cb_param :: zb_uint8_t

record zb_tm_q_ent =
  tm_func :: zb_callback
  tm_param :: zb_uint8_t
  run_time :: zb_time_t

record zb_sched_globals =
  cb_q :: "zb_cb_q_ent zb_ring"
  mac_receive_pending :: zb_uint8_t
  mac_tx_q :: "zb_cb_q_ent zb_ring"
  tm_buffer :: "zb_tm_q_ent list"
  tm_links :: zb_links
  delayed_buf :: "zb_callback list"
  buf_links :: zb_links
  tm_queue :: "nat option"
  tm_freelist :: "nat option"
  inbuf_queue :: "nat option"
  inbuf_queue_tail :: "nat option"
  outbuf_queue :: "nat option"
  outbuf_queue_tail :: "nat option"
  buf_freelist :: "nat option"

record zb_globals =
  sched :: zb_sched_globals
  timer :: zb_timer

section \<open>Operations\<close>

fun push_entries :: "zb_links \<Rightarrow> nat option \<Rightarrow> nat list \<Rightarrow> zb_links \<times> nat option" where
  "push_entries L head [] = (L, head)"
| "push_entries L head (i # is) =
     (let (L', head') = ZB_STK_PUSH L head i in push_entries L' head' is)"

definition zb_sched_init :: "zb_sched_globals \<Rightarrow> zb_sched_globals" where
  "zb_sched_init s =
     (let (L1, h1) = push_entries (tm_links s) (tm_freelist s) [0..<ZB_SCHEDULER_Q_SIZE];
          (L2, h2) = push_entries (buf_links s) (buf_freelist s) [0..<ZB_BUF_Q_SIZE]
      in s\<lparr>tm_links := L1, tm_freelist := h1, buf_links := L2, buf_freelist := h2\<rparr>)"

definition zb_schedule_callback ::
    "zb_callback \<Rightarrow> zb_uint8_t \<Rightarrow> 'z zb_globals_scheme \<Rightarrow> ('z zb_globals_scheme \<times> zb_ret_t) option" where
  "zb_schedule_callback func param g =
     (case ZB_RING_BUFFER_PUT_RESERVE (cb_q (sched g)) of
        Some i \<Rightarrow> do {
          let q = cb_q (sched g);
          let q' = ZB_RING_BUFFER_FLUSH_PUT
            (q\<lparr>ring_buf := (ring_buf q)[i := \<lparr>cb_func = func, cb_param = param\<rparr>]\<rparr>);
          zb_assert (unat param \<le> ZB_IOBUF_POOL_SIZE);
          Some (g\<lparr>sched := (sched g)\<lparr>cb_q := q'\<rparr>\<rparr>, RET_OK) }
      | None \<Rightarrow> Some (g, RET_OVERFLOW))"

definition zb_schedule_tx_cb ::
    "zb_callback \<Rightarrow> zb_uint8_t \<Rightarrow> 'z zb_globals_scheme \<Rightarrow> ('z zb_globals_scheme \<times> zb_ret_t) option" where
  "zb_schedule_tx_cb func param g =
     (case ZB_RING_BUFFER_PUT_RESERVE (mac_tx_q (sched g)) of
        Some i \<Rightarrow> do {
          let q = mac_tx_q (sched g);
          let q' = ZB_RING_BUFFER_FLUSH_PUT
            (q\<lparr>ring_buf := (ring_buf q)[i := \<lparr>cb_func = func, cb_param = param\<rparr>]\<rparr>);
          zb_assert (unat param \<le> ZB_IOBUF_POOL_SIZE);
          Some (g\<lparr>sched := (sched g)\<lparr>mac_tx_q := q'\<rparr>\<rparr>, RET_OK) }
      | None \<Rightarrow> Some (g, RET_OVERFLOW))"

text \<open>
  The walk of \<^verbatim>\<open>zb_schedule_alarm\<close> to the first entry that the new time does not follow; fuel
  bounds it as in \<open>list_walk\<close>.
\<close>

fun alarm_walk :: "nat \<Rightarrow> zb_sched_globals \<Rightarrow> zb_time_t \<Rightarrow> nat option \<Rightarrow> nat option option" where
  "alarm_walk fuel s rt None = Some None"
| "alarm_walk 0 s rt (Some e) = None"
| "alarm_walk (Suc fuel) s rt (Some e) =
     (if ZB_TIME_GE rt (run_time (tm_buffer s ! e))
      then alarm_walk fuel s rt (l_next (tm_links s) e) else Some (Some e))"

definition insert_tmq_head :: "nat \<Rightarrow> zb_sched_globals \<Rightarrow> zb_sched_globals option" where
  "insert_tmq_head nent s = do {
     (L, q) \<leftarrow> ZB_LIST_INSERT_HEAD (tm_links s) (tm_queue s) nent;
     Some (s\<lparr>tm_links := L, tm_queue := q\<rparr>) }"

definition alarm_place :: "nat \<Rightarrow> zb_time_t \<Rightarrow> zb_sched_globals \<Rightarrow> zb_sched_globals option" where
  "alarm_place nent rt s =
     (case tm_queue s of
        None \<Rightarrow> insert_tmq_head nent s
      | Some h \<Rightarrow>
          if ZB_TIME_GE (run_time (tm_buffer s ! h)) rt then insert_tmq_head nent s
          else do {
            ent \<leftarrow> alarm_walk ZB_LIST_FUEL s rt (tm_queue s);
            case ent of
              Some e \<Rightarrow>
                (case l_prev (tm_links s) e of
                   Some p \<Rightarrow> do {
                     (L, q) \<leftarrow> ZB_LIST_INSERT_AFTER (tm_links s) (tm_queue s) p nent;
                     Some (s\<lparr>tm_links := L, tm_queue := q\<rparr>) }
                 | None \<Rightarrow> insert_tmq_head nent s)
            | None \<Rightarrow> do {
                (L, q) \<leftarrow> ZB_LIST_INSERT_TAIL (tm_links s) (tm_queue s) nent;
                Some (s\<lparr>tm_links := L, tm_queue := q\<rparr>) } })"

definition zb_schedule_alarm ::
    "zb_callback \<Rightarrow> zb_uint8_t \<Rightarrow> zb_time_t \<Rightarrow> 'z zb_globals_scheme
     \<Rightarrow> ('z zb_globals_scheme \<times> zb_ret_t) option" where
  "zb_schedule_alarm func param run_after g =
     (let s = sched g; (fl, nent) = ZB_STK_POP (tm_links s) (tm_freelist s) in
      case nent of
        Some n \<Rightarrow> do {
          let t = ZB_TIMER_GET (timer g);
          let rt = ZB_TIME_ADD t run_after;
          let ent = \<lparr>tm_func = func, tm_param = param, run_time = rt\<rparr>;
          s1 \<leftarrow> alarm_place n rt (s\<lparr>tm_freelist := fl, tm_buffer := (tm_buffer s)[n := ent]\<rparr>);
          h \<leftarrow> tm_queue s1;
          let hrt = run_time (tm_buffer s1 ! h);
          let tm = (if hrt \<noteq> t \<and> ZB_TIME_GE hrt t
                    then zb_timer_start (ZB_TIME_SUBTRACT hrt t) (timer g) else timer g);
          Some (g\<lparr>sched := s1, timer := tm\<rparr>, RET_OK) }
      | None \<Rightarrow> Some (g, RET_OVERFLOW))"

definition alarm_matches :: "zb_callback \<Rightarrow> zb_uint8_t \<Rightarrow> zb_tm_q_ent \<Rightarrow> bool" where
  "alarm_matches func param ent \<longleftrightarrow> tm_func ent = func \<and>
     (param = ZB_ALARM_ANY_PARAM \<or> param = ZB_ALARM_ALL_CB \<or> param = tm_param ent)"

fun alarm_cancel_loop ::
    "nat \<Rightarrow> zb_callback \<Rightarrow> zb_uint8_t \<Rightarrow> nat option \<Rightarrow> zb_sched_globals \<Rightarrow> zb_ret_t
     \<Rightarrow> (zb_sched_globals \<times> zb_ret_t) option" where
  "alarm_cancel_loop fuel func param None s ret = Some (s, ret)"
| "alarm_cancel_loop 0 func param (Some e) s ret = None"
| "alarm_cancel_loop (Suc fuel) func param (Some e) s ret =
     (let nxt = l_next (tm_links s) e in
      if alarm_matches func param (tm_buffer s ! e) then do {
        (L, q) \<leftarrow> ZB_LIST_REMOVE (tm_links s) (tm_queue s) e;
        let (L', fl) = ZB_STK_PUSH L (tm_freelist s) e;
        let s' = s\<lparr>tm_links := L', tm_queue := q, tm_freelist := fl\<rparr>;
        if param \<noteq> ZB_ALARM_ALL_CB then Some (s', RET_OK)
        else alarm_cancel_loop fuel func param nxt s' RET_OK }
      else alarm_cancel_loop fuel func param nxt s ret)"

definition zb_schedule_alarm_cancel ::
    "zb_callback \<Rightarrow> zb_uint8_t \<Rightarrow> 'z zb_globals_scheme \<Rightarrow> ('z zb_globals_scheme \<times> zb_ret_t) option" where
  "zb_schedule_alarm_cancel func param g = do {
     (s, ret) \<leftarrow> alarm_cancel_loop ZB_LIST_FUEL func param (tm_queue (sched g)) (sched g) RET_NOT_FOUND;
     Some (g\<lparr>sched := s\<rparr>, ret) }"

section \<open>The main loop\<close>

text \<open>
  The loop calls functions through pointers, polls the transport and the MAC. These are
  arguments: \<open>call f p\<close> runs callback \<open>f\<close>, \<open>mac\<close> is \<^verbatim>\<open>CHECK_INT_N_TIMER\<close> followed by
  \<^verbatim>\<open>zb_mac_main_loop\<close>, \<open>intr\<close> is the condition that breaks out of both inner loops
  (a pending transceiver interrupt and a free input buffer), \<open>try_io\<close> is \<^verbatim>\<open>ZB_TRY_IO\<close>.
  Callbacks may schedule callbacks, so the loops need not end and take fuel; \<open>None\<close> is also the
  result when it runs out. A result is the state with the flag \<^verbatim>\<open>did_something\<close>.
\<close>

type_synonym 'g zb_call = "zb_callback \<Rightarrow> zb_uint8_t \<Rightarrow> 'g \<Rightarrow> 'g option"

fun cb_loop :: "nat \<Rightarrow> 'z zb_globals_scheme zb_call \<Rightarrow> ('z zb_globals_scheme \<Rightarrow> bool)
    \<Rightarrow> 'z zb_globals_scheme \<Rightarrow> bool \<Rightarrow> ('z zb_globals_scheme \<times> bool) option" where
  "cb_loop fuel call intr g did =
     (case ZB_RING_BUFFER_PEEK (cb_q (sched g)) of
        None \<Rightarrow> Some (g, did)
      | Some ent \<Rightarrow>
          (case fuel of 0 \<Rightarrow> None | Suc fuel' \<Rightarrow>
             if intr g then Some (g, True)
             else do {
               g1 \<leftarrow> call (cb_func ent) (cb_param ent) g;
               cb_loop fuel' call intr
                 (g1\<lparr>sched := (sched g1)\<lparr>cb_q := ZB_RING_BUFFER_FLUSH_GET (cb_q (sched g1))\<rparr>\<rparr>) True }))"

declare cb_loop.simps [simp del]

fun tm_loop :: "nat \<Rightarrow> 'z zb_globals_scheme zb_call \<Rightarrow> ('z zb_globals_scheme \<Rightarrow> bool) \<Rightarrow> zb_time_t
    \<Rightarrow> 'z zb_globals_scheme \<Rightarrow> bool \<Rightarrow> ('z zb_globals_scheme \<times> bool) option" where
  "tm_loop fuel call intr t g did =
     (case tm_queue (sched g) of
        None \<Rightarrow> Some (g, did)
      | Some e \<Rightarrow>
          if \<not> ZB_TIME_GE t (run_time (tm_buffer (sched g) ! e)) then Some (g, did)
          else (case fuel of 0 \<Rightarrow> None | Suc fuel' \<Rightarrow>
             if intr g then Some (g, True)
             else do {
               let s = sched g;
               let (L, q, _) = ZB_LIST_CUT_HEAD (tm_links s) (tm_queue s);
               let ent = tm_buffer s ! e;
               g1 \<leftarrow> call (tm_func ent) (tm_param ent) (g\<lparr>sched := s\<lparr>tm_links := L, tm_queue := q\<rparr>\<rparr>);
               let s1 = sched g1;
               let (L', fl) = ZB_STK_PUSH (tm_links s1) (tm_freelist s1) e;
               tm_loop fuel' call intr t (g1\<lparr>sched := s1\<lparr>tm_links := L', tm_freelist := fl\<rparr>\<rparr>) True }))"

declare tm_loop.simps [simp del]

text \<open>One round of the outer \<^verbatim>\<open>do\<close> loop, its timer handling included.\<close>

definition sched_round :: "nat \<Rightarrow> 'z zb_globals_scheme zb_call \<Rightarrow> ('z zb_globals_scheme \<Rightarrow> bool)
    \<Rightarrow> ('z zb_globals_scheme \<Rightarrow> 'z zb_globals_scheme option)
    \<Rightarrow> 'z zb_globals_scheme \<Rightarrow> ('z zb_globals_scheme \<times> bool) option" where
  "sched_round fuel call intr mac g = do {
     g1 \<leftarrow> mac g;
     (g2, did) \<leftarrow> cb_loop fuel call intr g1 False;
     let t = (if tm_queue (sched g2) \<noteq> None then ZB_TIMER_GET (timer g2) else 0);
     (g3, did') \<leftarrow> (if tm_queue (sched g2) \<noteq> None then tm_loop fuel call intr t g2 did
                    else Some (g2, did));
     let g4 = (case tm_queue (sched g3) of
         Some h \<Rightarrow> g3\<lparr>timer := zb_timer_start
           (ZB_TIME_SUBTRACT (run_time (tm_buffer (sched g3) ! h)) t) (timer g3)\<rparr>
       | None \<Rightarrow> g3\<lparr>timer := zb_timer_stop_async (timer g3)\<rparr>);
     Some (g4, did') }"

fun sched_rounds :: "nat \<Rightarrow> 'z zb_globals_scheme zb_call \<Rightarrow> ('z zb_globals_scheme \<Rightarrow> bool)
    \<Rightarrow> ('z zb_globals_scheme \<Rightarrow> 'z zb_globals_scheme option)
    \<Rightarrow> 'z zb_globals_scheme \<Rightarrow> 'z zb_globals_scheme option" where
  "sched_rounds 0 call intr mac g = None"
| "sched_rounds (Suc fuel) call intr mac g = do {
     (g1, did) \<leftarrow> sched_round (Suc fuel) call intr mac g;
     if did then sched_rounds fuel call intr mac g1 else Some g1 }"

definition zb_sched_loop_iteration :: "nat \<Rightarrow> 'z zb_globals_scheme zb_call
    \<Rightarrow> ('z zb_globals_scheme \<Rightarrow> bool) \<Rightarrow> ('z zb_globals_scheme \<Rightarrow> 'z zb_globals_scheme option)
    \<Rightarrow> ('z zb_globals_scheme \<Rightarrow> 'z zb_globals_scheme)
    \<Rightarrow> 'z zb_globals_scheme \<Rightarrow> 'z zb_globals_scheme option" where
  "zb_sched_loop_iteration fuel call intr mac try_io g =
     map_option try_io (sched_rounds fuel call intr mac g)"

section \<open>Representation of the alarm queue\<close>

text \<open>
  \<open>tm_rep D s q fl\<close>: the timer queue links the entries \<open>q\<close>, the freelist links \<open>fl\<close>, the
  entries \<open>D\<close> are detached (held by a running operation), and together they are all the
  entries of \<^verbatim>\<open>tm_buffer\<close>, each once.
\<close>

definition tm_rep :: "nat list \<Rightarrow> zb_sched_globals \<Rightarrow> nat list \<Rightarrow> nat list \<Rightarrow> bool" where
  "tm_rep D s q fl \<longleftrightarrow> length (tm_buffer s) = ZB_SCHEDULER_Q_SIZE
     \<and> dll (tm_links s) (tm_queue s) q \<and> stk (tm_links s) (tm_freelist s) fl
     \<and> distinct (D @ q @ fl) \<and> set (D @ q @ fl) = {..<ZB_SCHEDULER_Q_SIZE}"

definition alarm_ids :: "zb_sched_globals \<Rightarrow> nat list" where
  "alarm_ids s = (case list_walk ZB_LIST_FUEL (l_next (tm_links s)) (tm_queue s) of
     Some q \<Rightarrow> q | None \<Rightarrow> [])"

definition alarms :: "zb_sched_globals \<Rightarrow> zb_tm_q_ent list" where
  "alarms s = map (\<lambda>e. tm_buffer s ! e) (alarm_ids s)"

text \<open>The list operation of \<^verbatim>\<open>zb_schedule_alarm\<close>, for arbitrary times.\<close>

definition alarm_insert :: "zb_tm_q_ent \<Rightarrow> zb_tm_q_ent list \<Rightarrow> zb_tm_q_ent list" where
  "alarm_insert n as =
     (case as of
        [] \<Rightarrow> [n]
      | h # _ \<Rightarrow>
          if ZB_TIME_GE (run_time h) (run_time n) then n # as
          else let p = takeWhile (\<lambda>e. ZB_TIME_GE (run_time n) (run_time e)) as in
            if p = [] then as @ [n] else p @ n # drop (length p) as)"

section \<open>Representation of the buffer waiting queues; well-formedness\<close>

text \<open>\<open>bq_rep D s iq oq bf\<close>: the same for the entries of \<^verbatim>\<open>delayed_buf\<close>.\<close>

definition bq_rep ::
    "nat list \<Rightarrow> zb_sched_globals \<Rightarrow> nat list \<Rightarrow> nat list \<Rightarrow> nat list \<Rightarrow> bool" where
  "bq_rep D s iq oq bf \<longleftrightarrow> length (delayed_buf s) = ZB_BUF_Q_SIZE
     \<and> sll (buf_links s) (inbuf_queue s) (inbuf_queue_tail s) iq
     \<and> sll (buf_links s) (outbuf_queue s) (outbuf_queue_tail s) oq
     \<and> stk (buf_links s) (buf_freelist s) bf
     \<and> distinct (D @ iq @ oq @ bf) \<and> set (D @ iq @ oq @ bf) = {..<ZB_BUF_Q_SIZE}"

definition waiters :: "zb_sched_globals \<Rightarrow> nat option \<Rightarrow> zb_callback list" where
  "waiters s h = (case list_walk ZB_LIST_FUEL (l_next (buf_links s)) h of
     Some q \<Rightarrow> map (\<lambda>e. delayed_buf s ! e) q | None \<Rightarrow> [])"

definition in_waiters :: "zb_sched_globals \<Rightarrow> zb_callback list" where
  "in_waiters s = waiters s (inbuf_queue s)"

definition out_waiters :: "zb_sched_globals \<Rightarrow> zb_callback list" where
  "out_waiters s = waiters s (outbuf_queue s)"

definition callbacks :: "zb_sched_globals \<Rightarrow> zb_cb_q_ent list" where
  "callbacks s = ring_list (cb_q s)"

definition sched_wf :: "zb_sched_globals \<Rightarrow> bool" where
  "sched_wf s \<longleftrightarrow> ring_wf ZB_SCHEDULER_Q_SIZE (cb_q s) \<and> ring_wf ZB_MAC_QUEUE_SIZE (mac_tx_q s)
     \<and> (\<exists>q fl. tm_rep [] s q fl) \<and> (\<exists>iq oq bf. bq_rep [] s iq oq bf)"

section \<open>Facts on the alarm queue's representation\<close>

text \<open>\<open>tm_only s s'\<close>: the two states differ at most in the fields of the alarm queue.\<close>

definition tm_only :: "zb_sched_globals \<Rightarrow> zb_sched_globals \<Rightarrow> bool" where
  "tm_only s s' \<longleftrightarrow> s' = s\<lparr>tm_buffer := tm_buffer s', tm_links := tm_links s',
     tm_queue := tm_queue s', tm_freelist := tm_freelist s'\<rparr>"

lemma tm_only_refl [simp]: "tm_only s s"
  by (simp add: tm_only_def)

lemma tm_only_trans: "tm_only s s1 \<Longrightarrow> tm_only s1 s2 \<Longrightarrow> tm_only s s2"
  unfolding tm_only_def by (cases s; cases s1; cases s2) simp

lemma tm_only_upd [simp]:
  "tm_only s (s1\<lparr>tm_buffer := b\<rparr>) = tm_only s s1" "tm_only s (s1\<lparr>tm_links := L\<rparr>) = tm_only s s1"
  "tm_only s (s1\<lparr>tm_queue := q\<rparr>) = tm_only s s1" "tm_only s (s1\<lparr>tm_freelist := f\<rparr>) = tm_only s s1"
  "tm_only (s\<lparr>tm_buffer := b\<rparr>) s1 = tm_only s s1" "tm_only (s\<lparr>tm_links := L\<rparr>) s1 = tm_only s s1"
  "tm_only (s\<lparr>tm_queue := q\<rparr>) s1 = tm_only s s1" "tm_only (s\<lparr>tm_freelist := f\<rparr>) s1 = tm_only s s1"
  unfolding tm_only_def by (cases s; cases s1; simp)+

lemma tm_only_fields:
  "tm_only s s' \<Longrightarrow> cb_q s' = cb_q s \<and> mac_tx_q s' = mac_tx_q s \<and> mac_receive_pending s' = mac_receive_pending s
    \<and> bq_rep D s' = bq_rep D s \<and> in_waiters s' = in_waiters s \<and> out_waiters s' = out_waiters s"
  unfolding tm_only_def fun_eq_iff bq_rep_def in_waiters_def out_waiters_def waiters_def
  by (cases s; cases s') (simp cong: option.case_cong)

lemma tm_rep_count: "tm_rep D s q fl \<Longrightarrow> length D + length q + length fl = 16"
proof -
  assume "tm_rep D s q fl"
  then have d: "distinct (D @ q @ fl)" and "set (D @ q @ fl) = {..<16}"
    by (auto simp: tm_rep_def ZB_SCHEDULER_Q_SIZE_def)
  then have "card (set (D @ q @ fl)) = 16" by simp
  with distinct_card [OF d] show ?thesis by simp
qed

lemma tm_rep_fuel: "tm_rep D s q fl \<Longrightarrow> length q \<le> ZB_LIST_FUEL"
  using tm_rep_count [of D s q fl] by (simp add: ZB_LIST_FUEL_def)

lemma tm_rep_bound: "tm_rep D s q fl \<Longrightarrow> e \<in> set (D @ q @ fl) \<Longrightarrow> e < length (tm_buffer s)"
  unfolding tm_rep_def by (metis lessThan_iff)

lemma alarm_ids_rep: "tm_rep D s q fl \<Longrightarrow> alarm_ids s = q"
  using tm_rep_fuel [of D s q fl] seg_walk [of "l_next (tm_links s)" "tm_queue s" q ZB_LIST_FUEL]
  by (simp add: alarm_ids_def tm_rep_def dll_def)

lemma alarms_rep: "tm_rep D s q fl \<Longrightarrow> alarms s = map (\<lambda>e. tm_buffer s ! e) q"
  by (simp add: alarms_def alarm_ids_rep)

lemma dll_prev:
  "dll L list (us @ p # e # ys) \<Longrightarrow> l_prev L e = Some p"
  by (cases us) (auto simp: dll_def bwd_append)

lemma dll_prev_head: "dll L list (e # ys) \<Longrightarrow> l_prev L e = Some (last (e # ys))"
  by (simp add: dll_def)

lemma alarm_walk_seg:
  "seg (l_next (tm_links s)) p xs None \<Longrightarrow> length xs \<le> fuel \<Longrightarrow>
   alarm_walk fuel s rt p =
     Some (case dropWhile (\<lambda>e. ZB_TIME_GE rt (run_time (tm_buffer s ! e))) xs of
       [] \<Rightarrow> None | e # _ \<Rightarrow> Some e)"
proof (induction xs arbitrary: p fuel)
  case (Cons x xs)
  then show ?case by (cases fuel) auto
qed simp

text \<open>A list macro that inserts a detached entry keeps the representation.\<close>

lemma tm_rep_insert:
  assumes r: "tm_rep (n # D) s (xs @ ys) fl"
    and d: "dll L' list' (xs @ n # ys)"
    and f: "\<forall>x. x \<notin> set (n # xs @ ys) \<longrightarrow> l_next L' x = l_next (tm_links s) x"
  shows "tm_rep D (s\<lparr>tm_links := L', tm_queue := list'\<rparr>) (xs @ n # ys) fl"
proof -
  have "\<forall>x\<in>set fl. l_next L' x = l_next (tm_links s) x"
    using r f by (auto simp: tm_rep_def)
  then have "stk L' (tm_freelist s) fl = stk (tm_links s) (tm_freelist s) fl" by (rule stk_frame)
  with r d show ?thesis by (auto simp: tm_rep_def)
qed

lemma tm_rep_head:
  assumes "tm_rep (n # D) s q fl"
  shows "\<exists>L'. insert_tmq_head n s = Some (s\<lparr>tm_links := L', tm_queue := Some n\<rparr>)
    \<and> tm_rep D (s\<lparr>tm_links := L', tm_queue := Some n\<rparr>) (n # q) fl"
proof -
  have "dll (tm_links s) (tm_queue s) q" "n \<notin> set q" using assms by (auto simp: tm_rep_def)
  then obtain L' where L': "ZB_LIST_INSERT_HEAD (tm_links s) (tm_queue s) n = Some (L', Some n)"
      "dll L' (Some n) (n # q)" "\<forall>x. x \<noteq> n \<longrightarrow> l_next L' x = l_next (tm_links s) x"
    using dll_insert_head tm_rep_fuel [OF assms] by blast
  then show ?thesis using tm_rep_insert [of n D s "[]" q fl L' "Some n"] assms
    by (auto simp: insert_tmq_head_def)
qed

lemma tm_rep_tail:
  assumes "tm_rep (n # D) s q fl"
  shows "\<exists>L' q1. ZB_LIST_INSERT_TAIL (tm_links s) (tm_queue s) n = Some (L', q1)
    \<and> tm_rep D (s\<lparr>tm_links := L', tm_queue := q1\<rparr>) (q @ [n]) fl"
proof -
  have "dll (tm_links s) (tm_queue s) q" "n \<notin> set q" using assms by (auto simp: tm_rep_def)
  then obtain L' q1 where L': "ZB_LIST_INSERT_TAIL (tm_links s) (tm_queue s) n = Some (L', q1)"
      "dll L' q1 (q @ [n])" "\<forall>x. x \<notin> set (n # q) \<longrightarrow> l_next L' x = l_next (tm_links s) x"
    using dll_insert_tail tm_rep_fuel [OF assms] by blast
  then show ?thesis using tm_rep_insert [of n D s q "[]" fl L' q1] assms by auto
qed

lemma tm_rep_after:
  assumes "tm_rep (n # D) s (xs @ a # ys) fl"
  shows "\<exists>L' q1. ZB_LIST_INSERT_AFTER (tm_links s) (tm_queue s) a n = Some (L', q1)
    \<and> tm_rep D (s\<lparr>tm_links := L', tm_queue := q1\<rparr>) (xs @ a # n # ys) fl"
proof -
  have "dll (tm_links s) (tm_queue s) (xs @ a # ys)" "n \<notin> set (xs @ a # ys)"
    using assms by (auto simp: tm_rep_def)
  then obtain L' q1 where L': "ZB_LIST_INSERT_AFTER (tm_links s) (tm_queue s) a n = Some (L', q1)"
      "dll L' q1 (xs @ a # n # ys)"
      "\<forall>x. x \<notin> set (n # xs @ a # ys) \<longrightarrow> l_next L' x = l_next (tm_links s) x"
    using dll_insert_after tm_rep_fuel [OF assms] by blast
  then show ?thesis using tm_rep_insert [of n D s "xs @ [a]" ys fl L' q1] assms by auto
qed

definition placed :: "nat \<Rightarrow> nat list \<Rightarrow> zb_sched_globals \<Rightarrow> nat list \<Rightarrow> nat list
    \<Rightarrow> zb_sched_globals option \<Rightarrow> bool" where
  "placed n D s q' fl r \<longleftrightarrow> (\<exists>L' q1. r = Some (s\<lparr>tm_links := L', tm_queue := q1\<rparr>)
     \<and> tm_rep D (s\<lparr>tm_links := L', tm_queue := q1\<rparr>) q' fl)"

lemma butlast_last_append [simp]: "xs \<noteq> [] \<Longrightarrow> butlast xs @ last xs # ys = xs @ ys"
  by (induction xs) auto

lemma placedI:
  "r = Some (s\<lparr>tm_links := L', tm_queue := q1\<rparr>) \<Longrightarrow>
   tm_rep D (s\<lparr>tm_links := L', tm_queue := q1\<rparr>) q' fl \<Longrightarrow> placed n D s q' fl r"
  by (auto simp: placed_def)

lemma alarm_place_rep:
  assumes r: "tm_rep (n # D) s q fl" and rt: "run_time (tm_buffer s ! n) = rt"
  shows "\<exists>q'. placed n D s q' fl (alarm_place n rt s)
    \<and> map ((!) (tm_buffer s)) q' = alarm_insert (tm_buffer s ! n) (map ((!) (tm_buffer s)) q)"
proof (cases q)
  case Nil
  with r have "tm_queue s = None" by (simp add: tm_rep_def)
  then show ?thesis using tm_rep_head [OF r] Nil
    by (auto simp: placed_def alarm_place_def alarm_insert_def intro!: exI [of _ "[n]"])
next
  case (Cons h q2)
  with r have h: "tm_queue s = Some h" by (auto simp: tm_rep_def dest: dll_head)
  let ?P = "\<lambda>e. ZB_TIME_GE rt (run_time (tm_buffer s ! e))"
  show ?thesis
  proof (cases "ZB_TIME_GE (run_time (tm_buffer s ! h)) rt")
    case True
    then show ?thesis using tm_rep_head [OF r] Cons h rt
      by (auto simp: placed_def alarm_place_def alarm_insert_def intro!: exI [of _ "n # q"])
  next
    case False
    have "seg (l_next (tm_links s)) (tm_queue s) q None" using r by (simp add: tm_rep_def dll_def)
    then have walk: "alarm_walk ZB_LIST_FUEL s rt (Some h) =
        Some (case dropWhile ?P q of [] \<Rightarrow> None | e # _ \<Rightarrow> Some e)"
      using alarm_walk_seg [of s "Some h" q ZB_LIST_FUEL rt] tm_rep_fuel [OF r] h by simp
    have ins: "alarm_insert (tm_buffer s ! n) (map ((!) (tm_buffer s)) q) =
        map ((!) (tm_buffer s)) (if takeWhile ?P q = [] then q @ [n]
          else takeWhile ?P q @ n # dropWhile ?P q)"
      using False Cons rt
      by (auto simp: alarm_insert_def Let_def takeWhile_map o_def drop_map dropWhile_eq_drop)
    have split: "q = takeWhile ?P q @ dropWhile ?P q" by simp
    show ?thesis
    proof (cases "dropWhile ?P q")
      case Nil
      then have "takeWhile ?P q = q" using split by (metis append_Nil2)
      moreover have "placed n D s (q @ [n]) fl (alarm_place n rt s)"
        using tm_rep_tail [OF r] walk Nil False h by (auto simp: alarm_place_def intro!: placedI)
      ultimately show ?thesis using ins Nil
        by (intro exI [of _ "q @ [n]"]) (simp add: takeWhile_eq_all_conv [THEN iffD2])
    next
      case (Cons e ys)
      show ?thesis
      proof (cases "takeWhile ?P q" rule: rev_cases)
        case Nil
        with split Cons have q: "q = e # ys" by simp
        have pv: "l_prev (tm_links s) e = Some (last q)"
          using r q dll_prev_head by (auto simp: tm_rep_def)
        have "butlast q @ last q # [] = q" using q by simp
        then have "placed n D s (q @ [n]) fl (alarm_place n rt s)"
          using tm_rep_after [of n D s "butlast q" "last q" "[]" fl] r walk Cons False h pv q
          by (auto simp: alarm_place_def intro!: placedI simp flip: append_assoc)
        then show ?thesis using ins Nil by (intro exI [of _ "q @ [n]"]) simp
      next
        case (snoc us p)
        with split Cons have q: "q = us @ p # e # ys" by simp
        then have pv: "l_prev (tm_links s) e = Some p"
          using r dll_prev by (auto simp: tm_rep_def)
        have "placed n D s (us @ p # n # e # ys) fl (alarm_place n rt s)"
          using tm_rep_after [of n D s us p "e # ys" fl] r walk Cons False h pv q
          by (auto simp: alarm_place_def intro!: placedI)
        then show ?thesis using ins snoc Cons by (intro exI [of _ "us @ p # n # e # ys"]) simp
      qed
    qed
  qed
qed

section \<open>Well-formedness and frames\<close>

lemma sched_wf_ring: "sched_wf s \<Longrightarrow> ring_wf 16 (cb_q s)"
  by (simp add: sched_wf_def sched_consts)

lemma bq_rep_count: "bq_rep D s iq oq bf \<Longrightarrow> length D + length iq + length oq + length bf = 16"
proof -
  assume "bq_rep D s iq oq bf"
  then have d: "distinct (D @ iq @ oq @ bf)" and "set (D @ iq @ oq @ bf) = {..<16}"
    by (auto simp: bq_rep_def ZB_BUF_Q_SIZE_def)
  then have "card (set (D @ iq @ oq @ bf)) = 16" by simp
  with distinct_card [OF d] show ?thesis by simp
qed

lemma waiters_rep:
  "sll (buf_links s) h t q \<Longrightarrow> length q \<le> 16 \<Longrightarrow> waiters s h = map (\<lambda>e. delayed_buf s ! e) q"
  using seg_walk [of "l_next (buf_links s)" h q ZB_LIST_FUEL]
  by (simp add: waiters_def sll_def stk_def ZB_LIST_FUEL_def)

lemma in_waiters_rep: "bq_rep D s iq oq bf \<Longrightarrow> in_waiters s = map (\<lambda>e. delayed_buf s ! e) iq"
  using bq_rep_count [of D s iq oq bf] waiters_rep unfolding in_waiters_def bq_rep_def by force

lemma out_waiters_rep: "bq_rep D s iq oq bf \<Longrightarrow> out_waiters s = map (\<lambda>e. delayed_buf s ! e) oq"
  using bq_rep_count [of D s iq oq bf] waiters_rep unfolding out_waiters_def bq_rep_def by force

text \<open>The parts do not interfere: each representation reads its own fields only.\<close>

lemma tm_rep_cong:
  "tm_buffer s' = tm_buffer s \<Longrightarrow> tm_links s' = tm_links s \<Longrightarrow> tm_queue s' = tm_queue s \<Longrightarrow>
   tm_freelist s' = tm_freelist s \<Longrightarrow> tm_rep D s' q fl = tm_rep D s q fl"
  by (simp add: tm_rep_def)

lemma bq_rep_cong:
  "delayed_buf s' = delayed_buf s \<Longrightarrow> buf_links s' = buf_links s \<Longrightarrow>
   inbuf_queue s' = inbuf_queue s \<Longrightarrow> inbuf_queue_tail s' = inbuf_queue_tail s \<Longrightarrow>
   outbuf_queue s' = outbuf_queue s \<Longrightarrow> outbuf_queue_tail s' = outbuf_queue_tail s \<Longrightarrow>
   buf_freelist s' = buf_freelist s \<Longrightarrow> bq_rep D s' iq oq bf = bq_rep D s iq oq bf"
  by (simp add: bq_rep_def)

lemma tm_rep_simps [simp]:
  "tm_rep D (s\<lparr>cb_q := r\<rparr>) = tm_rep D s" "tm_rep D (s\<lparr>mac_tx_q := r\<rparr>) = tm_rep D s"
  "tm_rep D (s\<lparr>delayed_buf := db\<rparr>) = tm_rep D s" "tm_rep D (s\<lparr>buf_links := L\<rparr>) = tm_rep D s"
  "tm_rep D (s\<lparr>inbuf_queue := h\<rparr>) = tm_rep D s" "tm_rep D (s\<lparr>inbuf_queue_tail := h\<rparr>) = tm_rep D s"
  "tm_rep D (s\<lparr>outbuf_queue := h\<rparr>) = tm_rep D s" "tm_rep D (s\<lparr>outbuf_queue_tail := h\<rparr>) = tm_rep D s"
  "tm_rep D (s\<lparr>buf_freelist := h\<rparr>) = tm_rep D s"
  by (simp_all add: fun_eq_iff tm_rep_def)

lemma bq_rep_simps [simp]:
  "bq_rep D (s\<lparr>cb_q := r\<rparr>) = bq_rep D s" "bq_rep D (s\<lparr>mac_tx_q := r\<rparr>) = bq_rep D s"
  "bq_rep D (s\<lparr>tm_buffer := tb\<rparr>) = bq_rep D s" "bq_rep D (s\<lparr>tm_links := L\<rparr>) = bq_rep D s"
  "bq_rep D (s\<lparr>tm_queue := h\<rparr>) = bq_rep D s" "bq_rep D (s\<lparr>tm_freelist := h\<rparr>) = bq_rep D s"
  by (simp_all add: fun_eq_iff bq_rep_def)

lemma alarms_simps [simp]:
  "alarms (s\<lparr>cb_q := r\<rparr>) = alarms s" "alarms (s\<lparr>mac_tx_q := r\<rparr>) = alarms s"
  "alarms (s\<lparr>delayed_buf := db\<rparr>) = alarms s" "alarms (s\<lparr>buf_links := L\<rparr>) = alarms s"
  "alarms (s\<lparr>inbuf_queue := h\<rparr>) = alarms s" "alarms (s\<lparr>inbuf_queue_tail := h\<rparr>) = alarms s"
  "alarms (s\<lparr>outbuf_queue := h\<rparr>) = alarms s" "alarms (s\<lparr>outbuf_queue_tail := h\<rparr>) = alarms s"
  "alarms (s\<lparr>buf_freelist := h\<rparr>) = alarms s"
  by (simp_all add: alarms_def alarm_ids_def)

lemma in_out_waiters_simps [simp]:
  "in_waiters (s\<lparr>cb_q := r\<rparr>) = in_waiters s" "out_waiters (s\<lparr>cb_q := r\<rparr>) = out_waiters s"
  "in_waiters (s\<lparr>mac_tx_q := r\<rparr>) = in_waiters s" "out_waiters (s\<lparr>mac_tx_q := r\<rparr>) = out_waiters s"
  by (simp_all add: in_waiters_def out_waiters_def waiters_def cong: option.case_cong)

lemma alarms_length: "sched_wf s \<Longrightarrow> length (alarms s) \<le> 16"
  using tm_rep_count alarms_rep by (fastforce simp: sched_wf_def)

section \<open>Scheduling and cancelling\<close>

lemma schedule_callback_ring:
  assumes wf: "ring_wf 16 (cb_q (sched g))"
  shows "zb_schedule_callback func param g =
    (if length (callbacks (sched g)) < 16 then
       (if unat param \<le> 16
        then Some (g\<lparr>sched := (sched g)\<lparr>cb_q := ZB_RING_BUFFER_PUT \<lparr>cb_func = func, cb_param = param\<rparr>
               (cb_q (sched g))\<rparr>\<rparr>, RET_OK)
        else None)
     else Some (g, RET_OVERFLOW))"
proof -
  have "(length (callbacks (sched g)) < 16) = (\<not> ZB_RING_BUFFER_IS_FULL (cb_q (sched g)))"
    using wf by (auto simp: callbacks_def ring_wf_def ring_defs)
  then show ?thesis
    by (auto simp: zb_schedule_callback_def ZB_RING_BUFFER_PUT_RESERVE_def ZB_IOBUF_POOL_SIZE_def
        ring_reserve_fill zb_assert_def)
qed

lemmas schedule_callback_spec = schedule_callback_ring [OF sched_wf_ring]

lemma schedule_callback_wf:
  "sched_wf s \<Longrightarrow> length (callbacks s) < 16 \<Longrightarrow>
   sched_wf (s\<lparr>cb_q := ZB_RING_BUFFER_PUT e (cb_q s)\<rparr>) \<and>
   callbacks (s\<lparr>cb_q := ZB_RING_BUFFER_PUT e (cb_q s)\<rparr>) = callbacks s @ [e]"
  using ring.put_inv [of 16 "cb_q s" e] ring.put_contents [of 16 "cb_q s" e] ring.full_iff [of 16 "cb_q s"]
  by (auto simp: sched_wf_def callbacks_def sched_consts)

lemma schedule_alarm_ok:
  assumes r: "tm_rep D (sched g) q (n # fl)"
  shows "\<exists>g' q'. zb_schedule_alarm func param d g = Some (g', RET_OK)
    \<and> tm_rep D (sched g') q' fl
    \<and> tm_only (sched g) (sched g')
    \<and> alarms (sched g') = alarm_insert \<lparr>tm_func = func, tm_param = param,
         run_time = tm_now (timer g) + d\<rparr> (alarms (sched g))
    \<and> timer g' = (let hrt = run_time (hd (alarms (sched g'))); t = tm_now (timer g) in
         if hrt \<noteq> t \<and> ZB_TIME_GE hrt t then zb_timer_start (ZB_TIME_SUBTRACT hrt t) (timer g)
         else timer g)
    \<and> zb_globals.more g' = zb_globals.more g"
proof -
  let ?s = "sched g"
  let ?ent = "\<lparr>tm_func = func, tm_param = param, run_time = tm_now (timer g) + d\<rparr>"
  have "stk (tm_links ?s) (tm_freelist ?s) (n # fl)" using r by (simp add: tm_rep_def)
  then obtain h where pop: "ZB_STK_POP (tm_links ?s) (tm_freelist ?s) = (h, Some n)"
    "stk (tm_links ?s) h fl" using stk_pop by blast
  let ?s1 = "?s\<lparr>tm_freelist := h, tm_buffer := (tm_buffer ?s)[n := ?ent]\<rparr>"
  have n: "n < length (tm_buffer ?s)" "n \<notin> set q" using r tm_rep_bound [OF r, of n]
    by (auto simp: tm_rep_def)
  have r1: "tm_rep (n # D) ?s1 q fl" using r pop by (auto simp: tm_rep_def)
  have same: "map ((!) (tm_buffer ?s1)) q = alarms ?s"
    using n r by (auto simp: alarms_rep nth_list_update)
  obtain L q1 q' where p: "alarm_place n (tm_now (timer g) + d) ?s1
        = Some (?s1\<lparr>tm_links := L, tm_queue := q1\<rparr>)"
      "tm_rep D (?s1\<lparr>tm_links := L, tm_queue := q1\<rparr>) q' fl"
      "map ((!) (tm_buffer ?s1)) q' = alarm_insert ?ent (alarms ?s)"
    using alarm_place_rep [OF r1, of "tm_now (timer g) + d"] same n by (auto simp: placed_def)
  let ?s2 = "?s1\<lparr>tm_links := L, tm_queue := q1\<rparr>"
  have al: "alarms ?s2 = alarm_insert ?ent (alarms ?s)"
    using p(3) alarms_rep [OF p(2)] by simp
  have "q' \<noteq> []" using p(3) by (auto simp: alarm_insert_def Let_def split: list.splits if_splits)
  then obtain hd' tl' where q': "q' = hd' # tl'" by (cases q') auto
  with p(2) have "q1 = Some hd'" by (auto simp: tm_rep_def dest: dll_head)
  moreover have hrt: "run_time (hd (alarms ?s2)) = run_time ((tm_buffer ?s1) ! hd')"
    using alarms_rep [OF p(2)] q' by simp
  ultimately have res: "zb_schedule_alarm func param d g = Some (g\<lparr>sched := ?s2, timer :=
      (let hrt = run_time (hd (alarms ?s2)); t = tm_now (timer g) in
         if hrt \<noteq> t \<and> ZB_TIME_GE hrt t then zb_timer_start (ZB_TIME_SUBTRACT hrt t) (timer g)
         else timer g)\<rparr>, RET_OK)"
    unfolding hrt using pop(1) p(1)
    by (simp add: zb_schedule_alarm_def ZB_TIMER_GET_def ZB_TIME_ADD_def Let_def)
  show ?thesis
    by (rule exI, rule exI [of _ q'], intro conjI, rule res) (use p(2) al in \<open>auto simp: Let_def\<close>)
qed

lemma schedule_alarm_full:
  assumes "tm_rep D (sched g) q []"
  shows "zb_schedule_alarm func param d g = Some (g, RET_OVERFLOW)"
  using assms by (simp add: zb_schedule_alarm_def tm_rep_def stk_pop_empty)

text \<open>Cancelling: the list operations, and the loop over a suffix of the queue.\<close>

fun cancel_first :: "('a \<Rightarrow> bool) \<Rightarrow> 'a list \<Rightarrow> 'a list" where
  "cancel_first P [] = []"
| "cancel_first P (x # xs) = (if P x then xs else x # cancel_first P xs)"

lemma alarm_remove_push:
  assumes r: "tm_rep [] s (xs @ e # ys) fl"
  shows "\<exists>L q1 L' h. ZB_LIST_REMOVE (tm_links s) (tm_queue s) e = Some (L, q1)
    \<and> ZB_STK_PUSH L (tm_freelist s) e = (L', h)
    \<and> tm_rep [] (s\<lparr>tm_links := L', tm_queue := q1, tm_freelist := h\<rparr>) (xs @ ys) (e # fl)
    \<and> (\<forall>x\<in>set ys. l_next L' x = l_next (tm_links s) x)"
proof -
  have d: "dll (tm_links s) (tm_queue s) (xs @ e # ys)" and f: "stk (tm_links s) (tm_freelist s) fl"
    and dis: "distinct (xs @ e # ys @ fl)" using r by (auto simp: tm_rep_def)
  obtain L q1 where rem: "ZB_LIST_REMOVE (tm_links s) (tm_queue s) e = Some (L, q1)"
      "dll L q1 (xs @ ys)" "\<forall>x. x \<notin> set xs \<longrightarrow> l_next L x = l_next (tm_links s) x"
    using dll_remove [OF d] by blast
  obtain L' h where push: "ZB_STK_PUSH L (tm_freelist s) e = (L', h)" by fastforce
  have "\<forall>x\<in>set fl. l_next L x = l_next (tm_links s) x" using dis rem(3) by auto
  then have "stk L (tm_freelist s) fl" using f stk_frame by blast
  then have p: "stk L' h (e # fl)" "l_prev L' = l_prev L" "\<forall>x. x \<noteq> e \<longrightarrow> l_next L' x = l_next L x"
    using stk_push [OF _ _ push] dis by auto
  have "\<forall>x\<in>set (xs @ ys). l_next L' x = l_next L x \<and> l_prev L' x = l_prev L x" using p dis by auto
  then have "dll L' q1 (xs @ ys)" using rem(2) dll_frame by blast
  moreover have "x \<noteq> e \<and> x \<notin> set xs" if "x \<in> set ys" for x using dis that by auto
  then have "\<forall>x\<in>set ys. l_next L' x = l_next (tm_links s) x" using p(3) rem(3) by simp
  ultimately show ?thesis using rem(1) push p(1) r
    by (auto simp: tm_rep_def)
qed

lemma alarm_cancel_loop_spec:
  fixes func param
  defines "P \<equiv> alarm_matches func param"
  assumes "tm_rep [] s (xs @ ys) fl" "seg (l_next (tm_links s)) p ys None" "length ys \<le> fuel"
  shows "\<exists>s' ys' fl'. alarm_cancel_loop fuel func param p s ret =
      Some (s', if \<exists>e\<in>set ys. P (tm_buffer s ! e) then RET_OK else ret)
    \<and> tm_rep [] s' (xs @ ys') fl'
    \<and> tm_only s s' \<and> tm_buffer s' = tm_buffer s
    \<and> map ((!) (tm_buffer s)) ys' = (if param = ZB_ALARM_ALL_CB
        then filter (\<lambda>e. \<not> P e) (map ((!) (tm_buffer s)) ys)
        else cancel_first P (map ((!) (tm_buffer s)) ys))"
  using assms(2-)
proof (induction ys arbitrary: xs fl s p ret fuel)
  case Nil
  then show ?case by (auto intro!: exI [of _ "[]"] exI [of _ fl])
next
  case (Cons e ys)
  then obtain fuel' where fuel: "fuel = Suc fuel'" "length ys \<le> fuel'" by (cases fuel) auto
  have p: "p = Some e" and nxt: "seg (l_next (tm_links s)) (l_next (tm_links s) e) ys None"
    using Cons.prems by auto
  show ?case
  proof (cases "P (tm_buffer s ! e)")
    case False
    have "tm_rep [] s ((xs @ [e]) @ ys) fl" using Cons.prems by simp
    from Cons.IH [OF this nxt fuel(2), of ret] obtain s' ys' fl' where
      "alarm_cancel_loop fuel' func param (l_next (tm_links s) e) s ret =
        Some (s', if \<exists>e\<in>set ys. P (tm_buffer s ! e) then RET_OK else ret)"
      "tm_rep [] s' (xs @ e # ys') fl'" "tm_only s s' \<and> tm_buffer s' = tm_buffer s"
      "map ((!) (tm_buffer s)) ys' = (if param = ZB_ALARM_ALL_CB
        then filter (\<lambda>e. \<not> P e) (map ((!) (tm_buffer s)) ys)
        else cancel_first P (map ((!) (tm_buffer s)) ys))" by auto
    with False show ?thesis
      using p fuel
      by (intro exI [of _ s'] exI [of _ "e # ys'"] exI [of _ fl']) (auto simp: P_def)
  next
    case True
    obtain L q1 L' h where rp: "ZB_LIST_REMOVE (tm_links s) (tm_queue s) e = Some (L, q1)"
        "ZB_STK_PUSH L (tm_freelist s) e = (L', h)"
        "tm_rep [] (s\<lparr>tm_links := L', tm_queue := q1, tm_freelist := h\<rparr>) (xs @ ys) (e # fl)"
        "\<forall>x\<in>set ys. l_next L' x = l_next (tm_links s) x"
      using alarm_remove_push [of s xs e ys fl] Cons.prems by blast
    let ?s = "s\<lparr>tm_links := L', tm_queue := q1, tm_freelist := h\<rparr>"
    show ?thesis
    proof (cases "param = ZB_ALARM_ALL_CB")
      case False
      then show ?thesis using True rp p fuel
        by (intro exI [of _ ?s] exI [of _ ys] exI [of _ "e # fl"]) (auto simp: P_def)
    next
      case all: True
      have "seg (l_next (tm_links ?s)) (l_next (tm_links s) e) ys None"
        using nxt rp(4) seg_frame [of ys "l_next L'" "l_next (tm_links s)"] by auto
      from Cons.IH [OF rp(3) this fuel(2), of RET_OK] show ?thesis
        using True rp p fuel all by (auto simp: P_def) 
    qed
  qed
qed

lemma sched_wf_tm_only:
  "sched_wf s \<Longrightarrow> tm_only s s' \<Longrightarrow> tm_rep [] s' q fl \<Longrightarrow> sched_wf s'"
  using tm_only_fields [of s s' "[]"] by (auto simp: sched_wf_def)

text \<open>
  The contract of \<^verbatim>\<open>zb_schedule_alarm\<close> on a well-formed state: it inserts the entry in the
  queue, or reports an overflow and changes nothing when all entries are in use.
\<close>

lemma schedule_alarm_spec:
  assumes wf: "sched_wf (sched g)"
  shows "\<exists>g' ret. zb_schedule_alarm func param d g = Some (g', ret) \<and> sched_wf (sched g')
    \<and> tm_only (sched g) (sched g') \<and> tm_now (timer g') = tm_now (timer g)
    \<and> zb_globals.more g' = zb_globals.more g
    \<and> (if length (alarms (sched g)) < 16
       then ret = RET_OK \<and> alarms (sched g') = alarm_insert \<lparr>tm_func = func, tm_param = param,
         run_time = tm_now (timer g) + d\<rparr> (alarms (sched g))
         \<and> timer g' = (let hrt = run_time (hd (alarms (sched g'))); t = tm_now (timer g) in
             if hrt \<noteq> t \<and> ZB_TIME_GE hrt t then zb_timer_start (ZB_TIME_SUBTRACT hrt t) (timer g)
             else timer g)
       else ret = RET_OVERFLOW \<and> g' = g)"
proof -
  obtain q fl where r: "tm_rep [] (sched g) q fl" using wf by (auto simp: sched_wf_def)
  have len: "length (alarms (sched g)) = length q" using alarms_rep [OF r] by simp
  show ?thesis
  proof (cases fl)
    case Nil
    then have "length q = 16" using tm_rep_count [OF r] by simp
    then show ?thesis using schedule_alarm_full [of "[]" g q func param d] r Nil wf len by simp
  next
    case (Cons n fl')
    then have "length q < 16" using tm_rep_count [OF r] by simp
    moreover obtain g' q' where g': "zb_schedule_alarm func param d g = Some (g', RET_OK)"
        "tm_rep [] (sched g') q' fl'" "tm_only (sched g) (sched g')"
        "alarms (sched g') = alarm_insert \<lparr>tm_func = func, tm_param = param,
           run_time = tm_now (timer g) + d\<rparr> (alarms (sched g))"
        "timer g' = (let hrt = run_time (hd (alarms (sched g'))); t = tm_now (timer g) in
           if hrt \<noteq> t \<and> ZB_TIME_GE hrt t then zb_timer_start (ZB_TIME_SUBTRACT hrt t) (timer g)
           else timer g)" "zb_globals.more g' = zb_globals.more g"
      using schedule_alarm_ok [of "[]" g q n fl' func param d] r Cons by blast
    moreover have "tm_now (timer g') = tm_now (timer g)" using g'(5) by (simp add: Let_def)
    ultimately show ?thesis using sched_wf_tm_only [OF wf g'(3,2)] len by auto
  qed
qed

lemma schedule_alarm_cancel_spec:
  assumes wf: "sched_wf (sched g)"
  shows "\<exists>s'. zb_schedule_alarm_cancel func param g = Some (g\<lparr>sched := s'\<rparr>,
      if \<exists>a\<in>set (alarms (sched g)). alarm_matches func param a then RET_OK else RET_NOT_FOUND)
    \<and> sched_wf s' \<and> tm_only (sched g) s'
    \<and> alarms s' = (if param = ZB_ALARM_ALL_CB
        then filter (\<lambda>a. \<not> alarm_matches func param a) (alarms (sched g))
        else cancel_first (alarm_matches func param) (alarms (sched g)))"
proof -
  obtain q fl where r: "tm_rep [] (sched g) ([] @ q) fl" using wf by (auto simp: sched_wf_def)
  then have al: "alarms (sched g) = map ((!) (tm_buffer (sched g))) q" by (simp add: alarms_rep)
  have sg: "seg (l_next (tm_links (sched g))) (tm_queue (sched g)) q None"
    using r by (simp add: tm_rep_def dll_def)
  obtain s' ys' fl' where s': "alarm_cancel_loop ZB_LIST_FUEL func param (tm_queue (sched g)) (sched g)
        RET_NOT_FOUND = Some (s', if \<exists>a\<in>set (alarms (sched g)). alarm_matches func param a
          then RET_OK else RET_NOT_FOUND)"
      "tm_rep [] s' ys' fl'" "tm_only (sched g) s'" "tm_buffer s' = tm_buffer (sched g)"
      "map ((!) (tm_buffer (sched g))) ys' = (if param = ZB_ALARM_ALL_CB
        then filter (\<lambda>a. \<not> alarm_matches func param a) (alarms (sched g))
        else cancel_first (alarm_matches func param) (alarms (sched g)))"
    using alarm_cancel_loop_spec [OF r sg, of ZB_LIST_FUEL func param RET_NOT_FOUND] tm_rep_fuel [OF r] al
    by auto
  then show ?thesis using sched_wf_tm_only [OF wf s'(3,2)] alarms_rep [OF s'(2)]
    by (intro exI [of _ s']) (simp add: zb_schedule_alarm_cancel_def)
qed

section \<open>Initial state\<close>

text \<open>The zero-initialised globals: null pointers, empty rings.\<close>

definition zero_links :: zb_links where
  "zero_links = \<lparr>l_next = (\<lambda>_. None), l_prev = (\<lambda>_. None)\<rparr>"

definition zero_ring :: "nat \<Rightarrow> zb_cb_q_ent zb_ring" where
  "zero_ring n = \<lparr>ring_buf = replicate n \<lparr>cb_func = Cb_user 0, cb_param = 0\<rparr>,
     read_i = 0, write_i = 0, written = 0\<rparr>"

definition sched_zero :: zb_sched_globals where
  "sched_zero = \<lparr>cb_q = zero_ring ZB_SCHEDULER_Q_SIZE, mac_receive_pending = 0,
     mac_tx_q = zero_ring ZB_MAC_QUEUE_SIZE,
     tm_buffer = replicate ZB_SCHEDULER_Q_SIZE \<lparr>tm_func = Cb_user 0, tm_param = 0, run_time = 0\<rparr>,
     tm_links = zero_links, delayed_buf = replicate ZB_BUF_Q_SIZE (Cb_user 0),
     buf_links = zero_links, tm_queue = None, tm_freelist = None, inbuf_queue = None,
     inbuf_queue_tail = None, outbuf_queue = None, outbuf_queue_tail = None, buf_freelist = None\<rparr>"

lemma push_entries_stk:
  "stk L h xs \<Longrightarrow> distinct is \<Longrightarrow> set is \<inter> set xs = {} \<Longrightarrow> push_entries L h is = (L', h') \<Longrightarrow>
   stk L' h' (rev is @ xs)"
proof (induction "is" arbitrary: L h xs)
  case (Cons i "is")
  obtain L1 h1 where p: "ZB_STK_PUSH L h i = (L1, h1)" by fastforce
  then have "stk L1 h1 (i # xs)" using stk_push [of L h xs i L1 h1] Cons.prems by auto
  from Cons.IH [OF this] p Cons.prems show ?case by auto
qed simp

lemma sched_init_wf:
  assumes "tm_queue s = None" "tm_freelist s = None" "buf_freelist s = None"
    "inbuf_queue s = None" "inbuf_queue_tail s = None" "outbuf_queue s = None" "outbuf_queue_tail s = None"
    "length (tm_buffer s) = 16" "length (delayed_buf s) = 16" "ring_wf 16 (cb_q s)" "ring_wf 4 (mac_tx_q s)"
  shows "sched_wf (zb_sched_init s) \<and> alarms (zb_sched_init s) = []
    \<and> in_waiters (zb_sched_init s) = [] \<and> out_waiters (zb_sched_init s) = []"
proof -
  obtain L1 h1 L2 h2 where p: "push_entries (tm_links s) None [0..<16] = (L1, h1)"
    "push_entries (buf_links s) None [0..<16] = (L2, h2)" by fastforce
  have "stk (tm_links s) None []" "stk (buf_links s) None []" by (simp_all add: stk_def)
  then have "stk L1 h1 (rev [0..<16])" "stk L2 h2 (rev [0..<16])"
    using push_entries_stk p by fastforce+
  moreover have "set (rev [0..<16]) = {..<16::nat}" by auto
  moreover have "distinct (rev [0..<16::nat])" by simp
  ultimately have "tm_rep [] (zb_sched_init s) [] (rev [0..<16])"
    "bq_rep [] (zb_sched_init s) [] [] (rev [0..<16])"
    using assms p by (auto simp: zb_sched_init_def tm_rep_def bq_rep_def sll_def sched_consts stk_def
        simp del: set_rev)
  moreover from this have "alarms (zb_sched_init s) = []" "in_waiters (zb_sched_init s) = []"
    "out_waiters (zb_sched_init s) = []"
    using alarms_rep in_waiters_rep out_waiters_rep by fastforce+
  moreover have "cb_q (zb_sched_init s) = cb_q s" "mac_tx_q (zb_sched_init s) = mac_tx_q s"
    by (auto simp: zb_sched_init_def split: prod.splits)
  ultimately show ?thesis using assms(10,11) by (auto simp: sched_wf_def sched_consts)
qed

text \<open>
  On the zero-initialised globals \<^verbatim>\<open>zb_sched_init\<close> builds a well-formed scheduler: all 16
  timer entries and all 16 delayed-buffer entries are free, nothing is queued.
\<close>

theorem zb_sched_init_establishes_wf:
  "sched_wf (zb_sched_init sched_zero) \<and> alarms (zb_sched_init sched_zero) = []
   \<and> callbacks (zb_sched_init sched_zero) = []
   \<and> in_waiters (zb_sched_init sched_zero) = [] \<and> out_waiters (zb_sched_init sched_zero) = []"
proof -
  have "sched_wf (zb_sched_init sched_zero) \<and> alarms (zb_sched_init sched_zero) = []
    \<and> in_waiters (zb_sched_init sched_zero) = [] \<and> out_waiters (zb_sched_init sched_zero) = []"
    by (rule sched_init_wf) (simp_all add: sched_zero_def sched_consts zero_ring_def ring_wf_def)
  moreover have "callbacks (zb_sched_init sched_zero) = []"
    by (auto simp: callbacks_def zb_sched_init_def sched_zero_def zero_ring_def split: prod.splits)
  ultimately show ?thesis by blast
qed

section \<open>Order of the alarm queue\<close>

text \<open>\<open>alarms_in b as\<close>: seen from \<open>b\<close>, the run times lie within half of the time range, in order.\<close>

definition alarms_in :: "zb_time_t \<Rightarrow> zb_tm_q_ent list \<Rightarrow> bool" where
  "alarms_in b as \<longleftrightarrow> (\<forall>a\<in>set as. time_from b (run_time a) < 32767)
     \<and> sorted (map (\<lambda>a. time_from b (run_time a)) as)"

lemma sorted_insert_split:
  "sorted (map f (p @ r)) \<Longrightarrow> \<forall>x\<in>set p. f x \<le> f n \<Longrightarrow> \<forall>x\<in>set r. f n \<le> (f x :: nat) \<Longrightarrow>
   sorted (map f (p @ n # r))"
  by (auto simp: sorted_append)

lemma sorted_dropWhile_ge:
  assumes "sorted (map f xs)" "x \<in> set (dropWhile (\<lambda>e. f e \<le> (k::nat)) xs)"
  shows "k < f x"
  using assms by (induction xs) (auto split: if_splits)

lemma mset_takeWhile_drop:
  "mset (takeWhile P xs) + mset (drop (length (takeWhile P xs)) xs) = mset xs"
  by (induction xs) auto

lemma alarm_insert_mset: "mset (alarm_insert n as) = add_mset n (mset as)"
  by (auto simp: alarm_insert_def Let_def mset_takeWhile_drop split: list.split)

lemma alarm_insert_in:
  assumes s: "alarms_in b as" and w: "time_from b (run_time n) < 32767"
  shows "alarms_in b (alarm_insert n as)"
proof (cases as)
  case Nil
  with w show ?thesis by (simp add: alarms_in_def alarm_insert_def)
next
  case (Cons h t)
  let ?f = "\<lambda>a. time_from b (run_time a)"
  let ?P = "\<lambda>e. ZB_TIME_GE (run_time n) (run_time e)"
  have ge: "ZB_TIME_GE (run_time x) (run_time n) = (?f n \<le> ?f x)"
    "ZB_TIME_GE (run_time n) (run_time x) = (?f x \<le> ?f n)" if "x \<in> set as" for x
    using s w that time_ge_window by (auto simp: alarms_in_def)
  have mem: "set (alarm_insert n as) = insert n (set as)"
    using alarm_insert_mset [of n as] by (metis set_mset_add_mset_insert set_mset_mset)
  show ?thesis
  proof (cases "?f n \<le> ?f h")
    case True
    have "sorted (map ?f (n # as))" using s True Cons by (auto simp: alarms_in_def)
    with True Cons ge [of h] s w show ?thesis by (simp add: alarm_insert_def alarms_in_def)
  next
    case False
    have tw: "takeWhile ?P as = takeWhile (\<lambda>e. ?f e \<le> ?f n) as"
      by (rule takeWhile_cong) (simp_all add: ge)
    have dw: "dropWhile ?P as = dropWhile (\<lambda>e. ?f e \<le> ?f n) as"
      by (rule dropWhile_cong) (simp_all add: ge)
    have ne: "takeWhile ?P as \<noteq> []" using False Cons ge [of h] by simp
    then have ins: "alarm_insert n as = takeWhile ?P as @ n # dropWhile ?P as"
      using False Cons ge [of h] by (simp add: alarm_insert_def Let_def dropWhile_eq_drop)
    have "sorted (map ?f (takeWhile ?P as @ n # dropWhile ?P as))"
    proof (rule sorted_insert_split)
      show "sorted (map ?f (takeWhile ?P as @ dropWhile ?P as))"
        using s by (simp only: takeWhile_dropWhile_id alarms_in_def)
      show "\<forall>x\<in>set (takeWhile ?P as). ?f x \<le> ?f n" unfolding tw by (auto dest: set_takeWhileD)
      show "\<forall>x\<in>set (dropWhile ?P as). ?f n \<le> ?f x"
        unfolding dw using s sorted_dropWhile_ge [of ?f as _ "?f n"]
        by (auto simp: alarms_in_def intro: less_imp_le)
    qed
    with s w mem ins show ?thesis by (simp add: alarms_in_def)
  qed
qed

section \<open>Taking the head of the alarm queue, freeing an entry\<close>

lemma more_commute [simp]:
  "g\<lparr>zb_globals.more := m, sched := s\<rparr> = g\<lparr>sched := s, zb_globals.more := m\<rparr>"
  "g\<lparr>zb_globals.more := m, timer := t\<rparr> = g\<lparr>timer := t, zb_globals.more := m\<rparr>"
  by (cases g; simp)+

lemma tm_rep_cut:
  assumes "tm_rep D s (h # q) fl"
  shows "\<exists>L q1. ZB_LIST_CUT_HEAD (tm_links s) (tm_queue s) = (L, q1, Some h)
    \<and> tm_rep (h # D) (s\<lparr>tm_links := L, tm_queue := q1\<rparr>) q fl"
proof -
  obtain L q1 where c: "ZB_LIST_CUT_HEAD (tm_links s) (tm_queue s) = (L, q1, Some h)"
      "dll L q1 q" "l_next L = l_next (tm_links s)"
    using dll_cut_head [of "tm_links s" "tm_queue s" h q] assms by (auto simp: tm_rep_def)
  then have "stk L (tm_freelist s) fl = stk (tm_links s) (tm_freelist s) fl"
    by (intro stk_frame) simp
  with c assms show ?thesis by (auto simp: tm_rep_def)
qed

lemma tm_rep_push:
  assumes "tm_rep (h # D) s q fl"
  shows "\<exists>L f. ZB_STK_PUSH (tm_links s) (tm_freelist s) h = (L, f)
    \<and> tm_rep D (s\<lparr>tm_links := L, tm_freelist := f\<rparr>) q (h # fl)"
proof -
  obtain L f where p: "ZB_STK_PUSH (tm_links s) (tm_freelist s) h = (L, f)" by fastforce
  then have l: "stk L f (h # fl)" "l_prev L = l_prev (tm_links s)"
      "\<forall>x. x \<noteq> h \<longrightarrow> l_next L x = l_next (tm_links s) x"
    using stk_push [of "tm_links s" "tm_freelist s" fl h L f] assms by (auto simp: tm_rep_def)
  have "h \<notin> set q" using assms by (auto simp: tm_rep_def)
  then have "\<forall>x\<in>set q. l_next L x = l_next (tm_links s) x \<and> l_prev L x = l_prev (tm_links s) x"
    using l by auto
  then have "dll L (tm_queue s) q = dll (tm_links s) (tm_queue s) q" by (rule dll_frame)
  with p l assms show ?thesis by (auto simp: tm_rep_def)
qed

definition due :: "zb_time_t \<Rightarrow> zb_tm_q_ent \<Rightarrow> bool" where
  "due t a = ZB_TIME_GE t (run_time a)"

text \<open>There is something to run: a queued callback, or a due alarm at the head of the queue.\<close>

definition busy :: "'z zb_globals_scheme \<Rightarrow> bool" where
  "busy g \<longleftrightarrow> callbacks (sched g) \<noteq> [] \<or> takeWhile (due (tm_now (timer g))) (alarms (sched g)) \<noteq> []"

section \<open>Properties of the scheduler\<close>

text \<open>Concrete states for the witnesses: the start state, and one alarm scheduled on it.\<close>

definition demo_start :: zb_globals where
  "demo_start = \<lparr>sched = zb_sched_init sched_zero,
     timer = \<lparr>timer_stop = 0, tm_now = 65530, tm_started = False\<rparr>\<rparr>"

definition demo_alarm :: zb_globals where
  "demo_alarm = fst (the (zb_schedule_alarm Cb_zb_aps_check_timer_cb 7 10 demo_start))"

lemma demo_start_wf [simp]:
  "sched_wf (sched demo_start)" "alarms (sched demo_start) = []"
  "tm_now (timer demo_start) = 65530" "tm_started (timer demo_start) = False"
proof -
  have "sched_wf (zb_sched_init sched_zero) \<and> alarms (zb_sched_init sched_zero) = []
    \<and> in_waiters (zb_sched_init sched_zero) = [] \<and> out_waiters (zb_sched_init sched_zero) = []"
    by (rule sched_init_wf) (simp_all add: sched_zero_def sched_consts zero_ring_def ring_wf_def)
  then show "sched_wf (sched demo_start)" "alarms (sched demo_start) = []"
    "tm_now (timer demo_start) = 65530" "tm_started (timer demo_start) = False"
    by (simp_all add: demo_start_def)
qed

lemma demo_alarm_wf [simp]:
  "sched_wf (sched demo_alarm)" "tm_now (timer demo_alarm) = 65530"
  "alarms (sched demo_alarm) = [\<lparr>tm_func = Cb_zb_aps_check_timer_cb, tm_param = 7, run_time = 4\<rparr>]"
  using schedule_alarm_spec [of demo_start Cb_zb_aps_check_timer_cb 7 10]
  by (auto simp: demo_alarm_def alarm_insert_def)

text \<open>
  C2: \<^verbatim>\<open>zb_schedule_alarm\<close> refines an insertion in the list of pending alarms: with an entry
  left it returns \<^verbatim>\<open>RET_OK\<close>, keeps every other alarm, places the new one before the head when
  the head is not earlier, otherwise after the leading alarms that are not later; with all 16
  entries in use it returns \<^verbatim>\<open>RET_OVERFLOW\<close> and changes nothing. The scheduler stays
  well-formed and the assertions on the list macros hold.
\<close>

theorem zb_schedule_alarm_refines:
  assumes "sched_wf (sched g)"
  shows "\<exists>g' ret. zb_schedule_alarm func param d g = Some (g', ret) \<and> sched_wf (sched g')
    \<and> callbacks (sched g') = callbacks (sched g)
    \<and> (if length (alarms (sched g)) < 16
       then ret = RET_OK \<and> alarms (sched g') = alarm_insert
         \<lparr>tm_func = func, tm_param = param, run_time = tm_now (timer g) + d\<rparr> (alarms (sched g))
       else ret = RET_OVERFLOW \<and> g' = g)"
proof -
  have cb: "callbacks (sched g') = callbacks (sched g)" if "tm_only (sched g) (sched g')" for g' :: "'a zb_globals_scheme"
    using tm_only_fields [OF that] by (simp add: callbacks_def)
  show ?thesis
  proof (cases "length (alarms (sched g)) < 16")
    case True
    then obtain g' where g': "zb_schedule_alarm func param d g = Some (g', RET_OK)"
        "sched_wf (sched g')" "tm_only (sched g) (sched g')"
        "alarms (sched g') = alarm_insert
           \<lparr>tm_func = func, tm_param = param, run_time = tm_now (timer g) + d\<rparr> (alarms (sched g))"
      using schedule_alarm_spec [OF assms, of func param d] by auto
    with True cb [OF g'(3)] show ?thesis by simp
  next
    case False
    then show ?thesis using schedule_alarm_spec [OF assms, of func param d] by auto
  qed
qed

theorem zb_schedule_alarm_refines_witness:
  "\<exists>g' ret. zb_schedule_alarm Cb_zb_aps_ack_timer_cb 3 20 demo_alarm = Some (g', ret)
    \<and> ret = RET_OK \<and> map run_time (alarms (sched g')) = [4, 14]"
  using zb_schedule_alarm_refines [of demo_alarm Cb_zb_aps_ack_timer_cb 3 20]
  by (auto simp: alarm_insert_def ZB_TIME_GE_def ZB_HALF_MAX_TIME_VAL_def)

text \<open>
  C21: Times wrap around, but as long as all run times lie less than half of the 16-bit range
  ahead of a base time \<open>b\<close>, \<^verbatim>\<open>zb_schedule_alarm\<close> keeps the queue sorted by the distance from
  \<open>b\<close> and loses no alarm, and when the head lies in the future the timer is running and
  stops no later than the head's run time.
\<close>

theorem zb_schedule_alarm_sorted:
  assumes wf: "sched_wf (sched g)" and room: "length (alarms (sched g)) < 16"
    and srt: "alarms_in b (alarms (sched g))" and w: "time_from b (tm_now (timer g) + d) < 32767"
  shows "\<exists>g'. zb_schedule_alarm func param d g = Some (g', RET_OK)
    \<and> alarms_in b (alarms (sched g'))
    \<and> mset (alarms (sched g')) = add_mset
        \<lparr>tm_func = func, tm_param = param, run_time = tm_now (timer g) + d\<rparr> (mset (alarms (sched g)))
    \<and> (let hrt = run_time (hd (alarms (sched g'))) in
       hrt \<noteq> tm_now (timer g) \<and> ZB_TIME_GE hrt (tm_now (timer g)) \<longrightarrow> tm_started (timer g')
       \<and> time_from (tm_now (timer g)) (timer_stop (timer g')) \<le> time_from (tm_now (timer g)) hrt)"
proof -
  let ?n = "\<lparr>tm_func = func, tm_param = param, run_time = tm_now (timer g) + d\<rparr>"
  obtain g' where g': "zb_schedule_alarm func param d g = Some (g', RET_OK)"
    "alarms (sched g') = alarm_insert ?n (alarms (sched g))"
    "timer g' = (let hrt = run_time (hd (alarms (sched g'))); t = tm_now (timer g) in
       if hrt \<noteq> t \<and> ZB_TIME_GE hrt t then zb_timer_start (ZB_TIME_SUBTRACT hrt t) (timer g)
       else timer g)"
    using schedule_alarm_spec [OF wf, of func param d] room by auto
  moreover have "alarms_in b (alarms (sched g'))"
    using alarm_insert_in [OF srt, of ?n] w g'(2) by simp
  moreover have "tm_started (timer g')
       \<and> time_from (tm_now (timer g)) (timer_stop (timer g')) \<le> time_from (tm_now (timer g)) hrt"
    if "hrt = run_time (hd (alarms (sched g')))" "hrt \<noteq> tm_now (timer g)"
      "ZB_TIME_GE hrt (tm_now (timer g))" for hrt
    using timer_start_deadline [of "hrt - tm_now (timer g)" "timer g"] that g'(3)
      time_subtract_window [of "tm_now (timer g)" hrt]
    by (simp add: Let_def time_ge_unat time_from_def)
  ultimately show ?thesis by (simp add: alarm_insert_mset Let_def)
qed

theorem zb_schedule_alarm_sorted_witness:
  "\<exists>g'. zb_schedule_alarm Cb_zb_aps_ack_timer_cb 3 5 demo_alarm = Some (g', RET_OK)
    \<and> alarms_in 65530 (alarms (sched g'))"
  using zb_schedule_alarm_sorted [of demo_alarm 65530 5 Cb_zb_aps_ack_timer_cb 3]
  by (auto simp: alarms_in_def time_from_def)

text \<open>
  \<^verbatim>\<open>zb_schedule_alarm_cancel\<close> removes the first pending alarm of the function whose
  parameter matches (any parameter for \<^verbatim>\<open>ZB_ALARM_ANY_PARAM\<close>), or every alarm of the function for
  \<^verbatim>\<open>ZB_ALARM_ALL_CB\<close>, keeps the others in order, and reports \<^verbatim>\<open>RET_NOT_FOUND\<close> exactly when there
  is none; the removed entries are free again.
\<close>

theorem zb_schedule_alarm_cancel_refines:
  assumes "sched_wf (sched g)"
  shows "\<exists>g' ret. zb_schedule_alarm_cancel func param g = Some (g', ret) \<and> sched_wf (sched g')
    \<and> (ret = RET_OK \<longleftrightarrow> (\<exists>a\<in>set (alarms (sched g)). alarm_matches func param a))
    \<and> (ret \<noteq> RET_OK \<longrightarrow> ret = RET_NOT_FOUND)
    \<and> alarms (sched g') = (if param = ZB_ALARM_ALL_CB
        then filter (\<lambda>a. tm_func a \<noteq> func) (alarms (sched g))
        else cancel_first (alarm_matches func param) (alarms (sched g)))"
proof -
  have "(\<lambda>a. \<not> alarm_matches func ZB_ALARM_ALL_CB a) = (\<lambda>a. tm_func a \<noteq> func)"
    by (simp add: alarm_matches_def)
  then show ?thesis using schedule_alarm_cancel_spec [OF assms, of func param] by auto
qed

theorem zb_schedule_alarm_cancel_refines_witness:
  "\<exists>g' ret. zb_schedule_alarm_cancel Cb_zb_aps_check_timer_cb 7 demo_alarm = Some (g', ret)
    \<and> ret = RET_OK \<and> alarms (sched g') = []"
  using zb_schedule_alarm_cancel_refines [of demo_alarm Cb_zb_aps_check_timer_cb 7]
  by (auto simp: alarm_matches_def ZB_ALARM_ALL_CB_def)

text \<open>
  \<^verbatim>\<open>zb_schedule_callback\<close> appends to the queue of immediate callbacks, or returns
  \<^verbatim>\<open>RET_OVERFLOW\<close> and changes nothing when 16 are queued; alarms are untouched.
\<close>

theorem zb_schedule_callback_appends:
  assumes "sched_wf (sched g)" "unat param \<le> 16"
  shows "\<exists>g' ret. zb_schedule_callback func param g = Some (g', ret) \<and> sched_wf (sched g')
    \<and> alarms (sched g') = alarms (sched g)
    \<and> (if length (callbacks (sched g)) < 16
       then ret = RET_OK \<and> callbacks (sched g') = callbacks (sched g) @ [\<lparr>cb_func = func, cb_param = param\<rparr>]
       else ret = RET_OVERFLOW \<and> g' = g)"
  using schedule_callback_spec [OF assms(1), of func param] schedule_callback_wf [OF assms(1)] assms
  by auto

theorem zb_schedule_callback_appends_witness:
  "\<exists>g' ret. zb_schedule_callback Cb_zb_nwk_forward 3 demo_alarm = Some (g', ret)
    \<and> alarms (sched g') = alarms (sched demo_alarm)"
  using zb_schedule_callback_appends [of demo_alarm 3 Cb_zb_nwk_forward] by auto

end
