(* ===== verification/Zb_Buf.thy ===== *)
theory Zb_Buf
  imports Zb_Prelude
begin

text \<open>
  One packet buffer: the struct \<^verbatim>\<open>zb_buf_t\<close> of \<^verbatim>\<open>include/zb_bufpool.h\<close> and the operations of
  \<^verbatim>\<open>common/zb_bufpool.c\<close> that allocate and cut space in it. Pointers into the buffer are
  modelled by indices into its array. The payload is the window of \<open>b_len\<close> bytes at
  \<open>b_data_offset\<close>; the lemmas say how each operation changes the payload and that the window
  stays inside the array, except for \<^verbatim>\<open>zb_buf_smart_alloc_right\<close>, which needs room after it.
\<close>

definition ZB_IO_BUF_SIZE :: nat where "ZB_IO_BUF_SIZE = 148"

record zb_buf =
  b_len :: zb_uint8_t
  b_data_offset :: zb_uint8_t
  b_handle :: zb_uint8_t
  b_mac_hdr_offset :: zb_uint8_t
  b_status :: zb_uint16_t
  b_is_in_buf :: bool
  b_encrypt_type :: "2 word"
  b_use_same_key :: bool
  b_zdo_cmd_no_resp :: bool
  b_mhr_len :: zb_uint8_t
  b_buf :: "zb_uint8_t list"

text \<open>\<^verbatim>\<open>ZB_BZERO(&buf->u, sizeof(buf->u))\<close> clears the whole header.\<close>

definition buf_bzero_hdr :: "zb_buf \<Rightarrow> zb_buf" where
  "buf_bzero_hdr b = b\<lparr>b_len := 0, b_data_offset := 0, b_handle := 0, b_mac_hdr_offset := 0,
     b_status := 0, b_is_in_buf := False, b_encrypt_type := 0, b_use_same_key := False,
     b_zdo_cmd_no_resp := False, b_mhr_len := 0\<rparr>"

definition ZB_BUF_BEGIN :: "zb_buf \<Rightarrow> nat" where
  "ZB_BUF_BEGIN b = unat (b_data_offset b)"

definition ZB_BUF_LEN :: "zb_buf \<Rightarrow> nat" where
  "ZB_BUF_LEN b = unat (b_len b)"

definition ZB_BUF_GET_FREE_SIZE :: "zb_buf \<Rightarrow> nat" where
  "ZB_BUF_GET_FREE_SIZE b = (ZB_IO_BUF_SIZE + 2 ^ 32 - ZB_BUF_LEN b) mod 2 ^ 32"

definition zb_buf_initial_alloc :: "zb_uint8_t \<Rightarrow> zb_buf \<Rightarrow> (zb_buf \<times> nat) option" where
  "zb_buf_initial_alloc sz b = do {
     zb_assert (unat sz < ZB_IO_BUF_SIZE);
     let b1 = (buf_bzero_hdr b)\<lparr>b_is_in_buf := b_is_in_buf b, b_len := sz,
       b_data_offset := of_nat ((ZB_IO_BUF_SIZE - unat sz) div 2)\<rparr>;
     Some (b1, ZB_BUF_BEGIN b1) }"

definition zb_buf_smart_alloc_left :: "zb_uint8_t \<Rightarrow> zb_buf \<Rightarrow> (zb_buf \<times> nat) option" where
  "zb_buf_smart_alloc_left sz b = do {
     zb_assert (unat sz + ZB_BUF_LEN b < ZB_IO_BUF_SIZE);
     b1 \<leftarrow> (if unat (b_data_offset b) < unat sz then do {
         let p = ZB_BUF_BEGIN b;
         m \<leftarrow> memmove (b_buf b) (p + (unat sz - unat (b_data_offset b))) p (unat (b_len b));
         Some (b\<lparr>b_buf := m, b_data_offset := sz\<rparr>) }
       else Some b);
     let b2 = b1\<lparr>b_len := b_len b1 + sz, b_data_offset := b_data_offset b1 - sz\<rparr>;
     Some (b2, ZB_BUF_BEGIN b2) }"

definition zb_buf_smart_alloc_right :: "zb_uint8_t \<Rightarrow> zb_buf \<Rightarrow> (zb_buf \<times> nat) option" where
  "zb_buf_smart_alloc_right sz b = do {
     zb_assert (unat sz + ZB_BUF_LEN b < ZB_IO_BUF_SIZE);
     let ptr = ZB_BUF_BEGIN b + ZB_BUF_LEN b;
     Some (b\<lparr>b_len := b_len b + sz\<rparr>, ptr) }"

definition zb_buf_cut_left :: "zb_uint8_t \<Rightarrow> zb_buf \<Rightarrow> (zb_buf \<times> nat) option" where
  "zb_buf_cut_left sz b = do {
     zb_assert (ZB_BUF_LEN b \<ge> unat sz);
     let b1 = b\<lparr>b_len := b_len b - sz, b_data_offset := b_data_offset b + sz\<rparr>;
     Some (b1, ZB_BUF_BEGIN b1) }"

text \<open>The macro without the assertion.\<close>

definition ZB_BUF_CUT_LEFT2 :: "zb_uint8_t \<Rightarrow> zb_buf \<Rightarrow> zb_buf" where
  "ZB_BUF_CUT_LEFT2 sz b = b\<lparr>b_len := b_len b - sz, b_data_offset := b_data_offset b + sz\<rparr>"

definition zb_buf_cut_right :: "zb_uint8_t \<Rightarrow> zb_buf \<Rightarrow> zb_buf option" where
  "zb_buf_cut_right sz b = do {
     zb_assert (ZB_BUF_LEN b \<ge> unat sz);
     Some (b\<lparr>b_len := b_len b - sz\<rparr>) }"

definition zb_get_buf_tail :: "zb_uint8_t \<Rightarrow> zb_buf \<Rightarrow> nat option" where
  "zb_get_buf_tail sz b = do {
     zb_assert (ZB_BUF_LEN b + unat (b_data_offset b) + unat sz \<le> ZB_IO_BUF_SIZE);
     Some (ZB_IO_BUF_SIZE - unat sz) }"

text \<open>
  The C comparison is on \<^verbatim>\<open>int\<close>, so it is also true when the payload already ends after the
  array. A move to before the array has no result.
\<close>

definition zb_buf_assign_param :: "zb_uint8_t list \<Rightarrow> zb_uint8_t \<Rightarrow> zb_buf \<Rightarrow> zb_buf option" where
  "zb_buf_assign_param param sz b = do {
     zb_assert (unat (b_len b) + unat sz \<le> ZB_IO_BUF_SIZE);
     b1 \<leftarrow> (if ZB_IO_BUF_SIZE < unat sz + (unat (b_data_offset b) + unat (b_len b)) then do {
         let delta = unat sz + (unat (b_data_offset b) + unat (b_len b)) - ZB_IO_BUF_SIZE;
         zb_assert (delta \<le> ZB_BUF_BEGIN b);
         m \<leftarrow> memmove (b_buf b) (ZB_BUF_BEGIN b - delta) (ZB_BUF_BEGIN b) (unat (b_len b));
         Some (b\<lparr>b_buf := m, b_data_offset := b_data_offset b - of_nat delta\<rparr>) }
       else Some b);
     t \<leftarrow> zb_get_buf_tail sz b1;
     m \<leftarrow> blit (b_buf b1) t (take (unat sz) param);
     Some (b1\<lparr>b_buf := m\<rparr>) }"

definition zb_buf_reuse :: "zb_buf \<Rightarrow> zb_buf" where
  "zb_buf_reuse b = (buf_bzero_hdr b)\<lparr>b_is_in_buf := b_is_in_buf b\<rparr>"

definition ZB_BUF_COPY :: "zb_buf \<Rightarrow> zb_buf \<Rightarrow> zb_buf" where
  "ZB_BUF_COPY dst src = src\<lparr>b_is_in_buf := b_is_in_buf dst\<rparr>"

section \<open>The payload window\<close>

definition buf_wf :: "zb_buf \<Rightarrow> bool" where
  "buf_wf b \<longleftrightarrow> length (b_buf b) = ZB_IO_BUF_SIZE
     \<and> unat (b_data_offset b) + unat (b_len b) \<le> ZB_IO_BUF_SIZE"

definition buf_data :: "zb_buf \<Rightarrow> zb_uint8_t list" where
  "buf_data b = take (unat (b_len b)) (drop (unat (b_data_offset b)) (b_buf b))"

lemmas buf_defs = ZB_IO_BUF_SIZE_def ZB_BUF_BEGIN_def ZB_BUF_LEN_def

lemma length_buf_data: "buf_wf b \<Longrightarrow> length (buf_data b) = unat (b_len b)"
  by (auto simp: buf_wf_def buf_data_def ZB_IO_BUF_SIZE_def)

lemma unat8_of_nat: "n < 256 \<Longrightarrow> unat (of_nat n :: 8 word) = n"
  by (simp add: unat_of_nat)

lemma unat8_add: "unat (x :: 8 word) + unat y < 256 \<Longrightarrow> unat (x + y) = unat x + unat y"
  using unat_add_lem [of x y] by simp

lemma unat8_sub: "unat (y :: 8 word) \<le> unat x \<Longrightarrow> unat (x - y) = unat x - unat y"
  by (simp add: unat_sub word_le_nat_alt)

lemma initial_alloc_spec:
  assumes "unat sz < 148" "length (b_buf b) = 148"
  shows "\<exists>b'. zb_buf_initial_alloc sz b = Some (b', unat (b_data_offset b')) \<and> buf_wf b'
    \<and> b_len b' = sz \<and> b_is_in_buf b' = b_is_in_buf b \<and> b_buf b' = b_buf b
    \<and> unat (b_data_offset b') = (148 - unat sz) div 2"
proof -
  have "(148 - unat sz) div 2 < 256" by simp
  then have "unat (of_nat ((148 - unat sz) div 2) :: 8 word) = (148 - unat sz) div 2"
    by (rule unat8_of_nat)
  with assms show ?thesis
    by (auto simp: zb_buf_initial_alloc_def buf_defs buf_wf_def buf_bzero_hdr_def Let_def)
qed

lemma alloc_left_spec:
  assumes wf: "buf_wf b" and s: "unat sz + unat (b_len b) < 148"
  shows "\<exists>b'. zb_buf_smart_alloc_left sz b = Some (b', unat (b_data_offset b')) \<and> buf_wf b'
    \<and> unat (b_len b') = unat (b_len b) + unat sz \<and> b_is_in_buf b' = b_is_in_buf b
    \<and> drop (unat sz) (buf_data b') = buf_data b"
proof -
  have l: "unat (b_len b + sz) = unat (b_len b) + unat sz"
    using s by (simp add: unat8_add)
  have w: "length (b_buf b) = 148" "unat (b_data_offset b) + unat (b_len b) \<le> 148"
    using wf by (auto simp: buf_wf_def buf_defs)
  show ?thesis
  proof (cases "unat (b_data_offset b) < unat sz")
    case False
    then have o: "unat (b_data_offset b - sz) = unat (b_data_offset b) - unat sz"
      by (simp add: unat8_sub)
    with False s l w wf show ?thesis
      by (auto simp: zb_buf_smart_alloc_left_def buf_defs buf_wf_def buf_data_def drop_take Let_def)
  next
    case True
    define m where "m = take (unat sz) (b_buf b) @ take (unat (b_len b)) (drop (unat (b_data_offset b)) (b_buf b))
      @ drop (unat sz + unat (b_len b)) (b_buf b)"
    have m: "memmove (b_buf b) (unat sz) (unat (b_data_offset b)) (unat (b_len b)) = Some m"
      using w s by (simp add: memmove_def m_def)
    have "length m = 148" using memmove_length [OF m] w by simp
    moreover have "take (unat (b_len b)) (drop (unat sz) m) = buf_data b"
      using w s by (simp add: m_def buf_data_def)
    ultimately show ?thesis using True m s l w
      by (auto simp: zb_buf_smart_alloc_left_def buf_defs buf_wf_def buf_data_def drop_take Let_def)
  qed
qed

lemma alloc_right_spec:
  assumes wf: "buf_wf b" and s: "unat (b_data_offset b) + unat (b_len b) + unat sz \<le> 148"
    and t: "unat sz + unat (b_len b) < 148"
  shows "\<exists>b'. zb_buf_smart_alloc_right sz b = Some (b', unat (b_data_offset b) + unat (b_len b))
    \<and> buf_wf b' \<and> unat (b_len b') = unat (b_len b) + unat sz \<and> b_is_in_buf b' = b_is_in_buf b
    \<and> take (unat (b_len b)) (buf_data b') = buf_data b"
proof -
  have "unat (b_len b + sz) = unat (b_len b) + unat sz" using t by (simp add: unat8_add)
  with assms show ?thesis
    by (auto simp: zb_buf_smart_alloc_right_def buf_defs buf_wf_def buf_data_def min_def Let_def)
qed

lemma cut_left_spec:
  assumes wf: "buf_wf b" and s: "unat sz \<le> unat (b_len b)"
  shows "\<exists>b'. zb_buf_cut_left sz b = Some (b', unat (b_data_offset b')) \<and> buf_wf b'
    \<and> buf_data b' = drop (unat sz) (buf_data b) \<and> b_is_in_buf b' = b_is_in_buf b"
proof -
  have "unat (b_data_offset b) + unat sz < 256" using assms by (auto simp: buf_wf_def buf_defs)
  then have "unat (b_data_offset b + sz) = unat (b_data_offset b) + unat sz"
    "unat (b_len b - sz) = unat (b_len b) - unat sz" using s by (simp_all add: unat8_add unat8_sub)
  moreover have "take (unat (b_len b) - unat sz) (drop (unat (b_data_offset b) + unat sz) (b_buf b))
      = drop (unat sz) (buf_data b)"
    by (simp add: buf_data_def drop_take add.commute)
  ultimately show ?thesis using assms
    by (simp add: zb_buf_cut_left_def buf_defs buf_wf_def buf_data_def)
qed

lemma cut_right_spec:
  assumes wf: "buf_wf b" and s: "unat sz \<le> unat (b_len b)"
  shows "\<exists>b'. zb_buf_cut_right sz b = Some b' \<and> buf_wf b'
    \<and> buf_data b' = take (unat (b_len b) - unat sz) (buf_data b) \<and> b_is_in_buf b' = b_is_in_buf b"
proof -
  have "unat (b_len b - sz) = unat (b_len b) - unat sz" using s by (simp add: unat8_sub)
  with assms show ?thesis
    by (auto simp: zb_buf_cut_right_def buf_defs buf_wf_def buf_data_def min_def)
qed

text \<open>
  \<^verbatim>\<open>zb_buf_assign_param\<close> moves the payload left when the tail does not fit behind it; the payload
  is unchanged and the parameter occupies the last bytes of the array.
\<close>

lemma assign_param_spec:
  assumes wf: "buf_wf b" and s: "unat (b_len b) + unat sz \<le> 148" and p: "length param = unat sz"
  shows "\<exists>b'. zb_buf_assign_param param sz b = Some b' \<and> buf_wf b' \<and> buf_data b' = buf_data b
    \<and> drop (148 - unat sz) (b_buf b') = param \<and> b_len b' = b_len b \<and> b_is_in_buf b' = b_is_in_buf b"
proof -
  have w: "length (b_buf b) = 148" "unat (b_data_offset b) + unat (b_len b) \<le> 148"
    using wf by (auto simp: buf_wf_def buf_defs)
  have blit_ok: "\<exists>m. blit xs (148 - unat sz) param = Some m \<and> length m = 148
      \<and> drop (148 - unat sz) m = param \<and> take n (drop a m) = take n (drop a xs)"
    if "length xs = 148" "a + n + unat sz \<le> 148" for xs :: "zb_uint8_t list" and a n
    using that p blit_frame_before [of xs "148 - unat sz" param _ a n] s
    by (auto simp: blit_def)
  show ?thesis
  proof (cases "148 < unat sz + (unat (b_data_offset b) + unat (b_len b))")
    case False
    then obtain m where m: "blit (b_buf b) (148 - unat sz) param = Some m" "length m = 148"
      "drop (148 - unat sz) m = param"
      "take (unat (b_len b)) (drop (unat (b_data_offset b)) m) = buf_data b"
      using blit_ok [of "b_buf b" "unat (b_data_offset b)" "unat (b_len b)"] w by (auto simp: buf_data_def)
    then show ?thesis using False s p w
      by (simp add: zb_buf_assign_param_def zb_get_buf_tail_def buf_defs buf_wf_def buf_data_def)
  next
    case True
    define d where "d = unat sz + (unat (b_data_offset b) + unat (b_len b)) - 148"
    define o' where "o' = unat (b_data_offset b) - d"
    have d: "d \<le> unat (b_data_offset b)" "d < 256" "o' + unat (b_len b) + unat sz = 148"
      using True s w by (auto simp: d_def o'_def)
    have off: "unat (b_data_offset b - of_nat d) = o'"
      using d by (simp add: unat8_sub unat8_of_nat o'_def)
    obtain m where m: "memmove (b_buf b) o' (unat (b_data_offset b)) (unat (b_len b)) = Some m"
      "length m = 148" "take (unat (b_len b)) (drop o' m) = buf_data b"
      using w d by (simp add: memmove_def buf_data_def)
    obtain m' where m': "blit m (148 - unat sz) param = Some m'" "length m' = 148"
      "drop (148 - unat sz) m' = param" "take (unat (b_len b)) (drop o' m') = buf_data b"
      using blit_ok [of m o' "unat (b_len b)"] m d by auto
    have "zb_buf_assign_param param sz b = Some (b\<lparr>b_buf := m', b_data_offset := b_data_offset b - of_nat d\<rparr>)"
      using True s p m m' d off
      by (simp add: zb_buf_assign_param_def zb_get_buf_tail_def buf_defs Let_def flip: d_def o'_def)
    then show ?thesis using m' off d
      by (simp add: buf_wf_def buf_defs buf_data_def)
  qed
qed

section \<open>Properties of the buffer operations\<close>

text \<open>
  Space allocated in front of a payload and cut again gives back the payload, and likewise
  at its end when the array has room there; both keep the payload window inside the 148 bytes.
\<close>

theorem zb_buf_alloc_cut_roundtrip:
  assumes wf: "buf_wf b" and s: "unat sz + unat (b_len b) < 148"
  shows "(\<exists>b1 b2 p q. zb_buf_smart_alloc_left sz b = Some (b1, p) \<and> zb_buf_cut_left sz b1 = Some (b2, q)
      \<and> buf_wf b1 \<and> buf_wf b2 \<and> q = p + unat sz \<and> buf_data b2 = buf_data b)
    \<and> (unat (b_data_offset b) + unat (b_len b) + unat sz \<le> 148 \<longrightarrow>
      (\<exists>b1 b2 p. zb_buf_smart_alloc_right sz b = Some (b1, p) \<and> zb_buf_cut_right sz b1 = Some b2
      \<and> buf_wf b1 \<and> buf_wf b2 \<and> buf_data b2 = buf_data b))"
proof
  obtain b1 where b1: "zb_buf_smart_alloc_left sz b = Some (b1, unat (b_data_offset b1))" "buf_wf b1"
    "unat (b_len b1) = unat (b_len b) + unat sz" "drop (unat sz) (buf_data b1) = buf_data b"
    using alloc_left_spec [OF assms] by auto
  obtain b2 where "zb_buf_cut_left sz b1 = Some (b2, unat (b_data_offset b2))" "buf_wf b2"
    "buf_data b2 = drop (unat sz) (buf_data b1)"
    using cut_left_spec [OF b1(2), of sz] b1(3) by auto
  moreover have "unat (b_data_offset b2) = unat (b_data_offset b1) + unat sz"
  proof -
    have "unat (b_data_offset b1) + unat sz < 256" using b1 by (auto simp: buf_wf_def buf_defs)
    then show ?thesis using calculation(1) b1(3)
      by (auto simp: zb_buf_cut_left_def buf_defs Let_def unat8_add)
  qed
  ultimately show "\<exists>b1 b2 p q. zb_buf_smart_alloc_left sz b = Some (b1, p) \<and> zb_buf_cut_left sz b1 = Some (b2, q)
      \<and> buf_wf b1 \<and> buf_wf b2 \<and> q = p + unat sz \<and> buf_data b2 = buf_data b"
    using b1 by auto
next
  show "unat (b_data_offset b) + unat (b_len b) + unat sz \<le> 148 \<longrightarrow>
      (\<exists>b1 b2 p. zb_buf_smart_alloc_right sz b = Some (b1, p) \<and> zb_buf_cut_right sz b1 = Some b2
      \<and> buf_wf b1 \<and> buf_wf b2 \<and> buf_data b2 = buf_data b)"
  proof
    assume room: "unat (b_data_offset b) + unat (b_len b) + unat sz \<le> 148"
    obtain b1 where b1: "zb_buf_smart_alloc_right sz b = Some (b1, unat (b_data_offset b) + unat (b_len b))"
      "buf_wf b1" "unat (b_len b1) = unat (b_len b) + unat sz"
      "take (unat (b_len b)) (buf_data b1) = buf_data b"
      using alloc_right_spec [OF wf room s] by auto
    moreover obtain b2 where "zb_buf_cut_right sz b1 = Some b2" "buf_wf b2"
      "buf_data b2 = take (unat (b_len b1) - unat sz) (buf_data b1)"
      using cut_right_spec [OF b1(2), of sz] b1(3) by auto
    ultimately show "\<exists>b1 b2 p. zb_buf_smart_alloc_right sz b = Some (b1, p) \<and> zb_buf_cut_right sz b1 = Some b2
      \<and> buf_wf b1 \<and> buf_wf b2 \<and> buf_data b2 = buf_data b" by auto
  qed
qed

definition demo_buf :: zb_buf where
  "demo_buf = \<lparr>b_len = 5, b_data_offset = 2, b_handle = 0, b_mac_hdr_offset = 0, b_status = 0,
     b_is_in_buf = True, b_encrypt_type = 0, b_use_same_key = False, b_zdo_cmd_no_resp = False,
     b_mhr_len = 0, b_buf = replicate 148 7\<rparr>"

lemma demo_buf_facts:
  "buf_wf demo_buf" "unat (b_len demo_buf) = 5" "buf_data demo_buf = replicate 5 7"
  by (simp_all add: demo_buf_def buf_wf_def buf_defs buf_data_def)

theorem zb_buf_alloc_cut_roundtrip_witness:
  "\<exists>b1 b2 p q. zb_buf_smart_alloc_left 4 demo_buf = Some (b1, p) \<and> zb_buf_cut_left 4 b1 = Some (b2, q)
    \<and> buf_data b2 = replicate 5 7"
  using zb_buf_alloc_cut_roundtrip [of demo_buf 4]
  by (auto simp: demo_buf_facts)

text \<open>
  \<^verbatim>\<open>zb_buf_assign_param\<close> succeeds whenever payload and parameter fit in the array together:
  it leaves the payload unchanged, moving it if it must, and the parameter occupies the last
  bytes of the array, where \<^verbatim>\<open>ZB_GET_BUF_PARAM\<close> finds it.
\<close>

theorem zb_buf_assign_param_keeps_payload:
  assumes "buf_wf b" "unat (b_len b) + unat sz \<le> 148" "length param = unat sz"
  shows "\<exists>b' t. zb_buf_assign_param param sz b = Some b' \<and> buf_wf b' \<and> buf_data b' = buf_data b
    \<and> zb_get_buf_tail sz b' = Some t \<and> take (unat sz) (drop t (b_buf b')) = param"
proof -
  obtain b' where b': "zb_buf_assign_param param sz b = Some b'" "buf_wf b'" "buf_data b' = buf_data b"
    "drop (148 - unat sz) (b_buf b') = param"
    using assign_param_spec [OF assms] by auto
  then obtain b1 t m where "zb_get_buf_tail sz b1 = Some t" "b' = b1\<lparr>b_buf := m\<rparr>"
    unfolding zb_buf_assign_param_def by (auto simp: Let_def bind_eq_Some_conv split: if_splits)
  then have "zb_get_buf_tail sz b' = Some (148 - unat sz)"
    by (auto simp: zb_get_buf_tail_def buf_defs bind_eq_Some_conv)
  with b' assms(3) show ?thesis by auto
qed

theorem zb_buf_assign_param_keeps_payload_witness:
  "\<exists>b' t. zb_buf_assign_param [1, 2, 3] 3 demo_buf = Some b' \<and> buf_data b' = replicate 5 7
    \<and> zb_get_buf_tail 3 b' = Some t \<and> take 3 (drop t (b_buf b')) = [1, 2, 3]"
  using zb_buf_assign_param_keeps_payload [of demo_buf 3 "[1, 2, 3]"]
  by (auto simp: demo_buf_facts)

text \<open>
  \<^verbatim>\<open>zb_buf_smart_alloc_right\<close> checks the payload length alone, not the space behind the
  payload, and does not move the payload as \<^verbatim>\<open>zb_buf_smart_alloc_left\<close> does: on a buffer that
  \<^verbatim>\<open>zb_buf_initial_alloc\<close> made with 100 bytes, allocating 40 more passes the assertion and gives
  16 bytes beyond the end of the array.
\<close>

theorem zb_buf_smart_alloc_right_overruns:
  "\<exists>b p b'. zb_buf_initial_alloc 100 demo_buf = Some (b, p) \<and> buf_wf b
    \<and> zb_buf_smart_alloc_right 40 b = Some (b', 124) \<and> \<not> buf_wf b'
    \<and> 124 + 40 = ZB_IO_BUF_SIZE + 16"
  by (simp add: zb_buf_initial_alloc_def zb_buf_smart_alloc_right_def buf_defs buf_wf_def
      buf_bzero_hdr_def demo_buf_def)

end
