(* ===== verification/Zb_Bufpool.thy ===== *)
theory Zb_Bufpool
  imports Zb_Sched Zb_Buf
begin

text \<open>
  The pool of packet buffers: \<^verbatim>\<open>common/zb_bufpool.c\<close>, \<^verbatim>\<open>common/zb_bufpool_init.c\<close> and
  \<^verbatim>\<open>include/zb_bufpool_globals.h\<close>. A buffer is the index of its slot (\<^verbatim>\<open>ZB_REF_FROM_BUF\<close>). The
  union member \<^verbatim>\<open>u.next\<close> of the free buffers is the link store \<open>bp_next\<close>; on the 32-bit target it
  shares its bytes with the first four header fields, which are cleared when the buffer is
  taken, and not with \<^verbatim>\<open>is_in_buf\<close>, which \<^verbatim>\<open>zb_free_buf\<close> reads after the link is written.
  Each direction may hold 8 of the 16 buffers. The lemmas show that the counters are exact,
  that a direction below its limit always gets a buffer, and the hand-over of a freed buffer to
  the first waiting callback of its direction.
\<close>

section \<open>State and operations\<close>

definition ZB_BUFS_LIMIT :: nat where "ZB_BUFS_LIMIT = ZB_IOBUF_POOL_SIZE div 2"

record zb_buf_pool =
  bp_pool :: "zb_buf list"
  bp_next :: zb_links
  bp_head :: "nat option"
  bufs_allocated :: "nat list"

text \<open>\<open>rx_need_buf\<close> is the flag \<^verbatim>\<open>MAC_CTX().rx_need_buf\<close>.\<close>

record zb_globals_b = zb_globals +
  bpool :: zb_buf_pool
  rx_need_buf :: bool

lemma bpool_commute [simp]:
  "g\<lparr>bpool := p, sched := s\<rparr> = g\<lparr>sched := s, bpool := p\<rparr>"
  "g\<lparr>bpool := p, timer := t\<rparr> = g\<lparr>timer := t, bpool := p\<rparr>"
  by (cases g; simp)+

definition ZB_IN_BUF_AVAILABLE :: "zb_buf_pool \<Rightarrow> bool" where
  "ZB_IN_BUF_AVAILABLE bp = (bufs_allocated bp ! 1 < ZB_IOBUF_POOL_SIZE div 2)"

definition ZB_OUT_BUF_AVAILABLE :: "zb_buf_pool \<Rightarrow> bool" where
  "ZB_OUT_BUF_AVAILABLE bp = (bufs_allocated bp ! 0 < ZB_IOBUF_POOL_SIZE div 2)"

fun link_pool :: "nat \<Rightarrow> nat \<Rightarrow> zb_links \<Rightarrow> zb_links" where
  "link_pool 0 p L = set_next p None L"
| "link_pool (Suc i) p L = link_pool i (p + 1) (set_next p (Some (p + 1)) L)"

definition zb_init_buffers :: "zb_buf_pool \<Rightarrow> zb_buf_pool" where
  "zb_init_buffers bp =
     (if bp_head bp \<noteq> None then bp
      else bp\<lparr>bp_head := Some 0, bp_next := link_pool (ZB_IOBUF_POOL_SIZE - 1) 0 (bp_next bp)\<rparr>)"

definition pool_inited :: "zb_buf_pool \<Rightarrow> bool" where
  "pool_inited bp \<longleftrightarrow> bp_head bp \<noteq> None \<or> bufs_allocated bp ! 0 \<noteq> 0 \<or> bufs_allocated bp ! 1 \<noteq> 0"

definition zb_get_buf :: "bool \<Rightarrow> zb_buf_pool \<Rightarrow> (zb_buf_pool \<times> nat option) option" where
  "zb_get_buf is_in bp = do {
     zb_assert (pool_inited bp);
     let n = bufs_allocated bp ! of_bool is_in;
     if n < ZB_BUFS_LIMIT then
       (case bp_head bp of
          Some b \<Rightarrow> do {
            let bp1 = bp\<lparr>bp_head := l_next (bp_next bp) b,
              bp_pool := (bp_pool bp)[b := (buf_bzero_hdr (bp_pool bp ! b))],
              bufs_allocated := (bufs_allocated bp)[of_bool is_in := inc8 n]\<rparr>;
            zb_assert (bufs_allocated bp1 ! of_bool is_in \<le> ZB_BUFS_LIMIT);
            Some (bp1\<lparr>bp_pool := (bp_pool bp1)[b := (bp_pool bp1 ! b)\<lparr>b_is_in_buf := is_in\<rparr>]\<rparr>, Some b) }
        | None \<Rightarrow> Some (bp, None))
     else Some (bp, None) }"

definition zb_get_in_buf :: "zb_buf_pool \<Rightarrow> (zb_buf_pool \<times> nat option) option" where
  "zb_get_in_buf bp = zb_get_buf True bp"

definition zb_get_out_buf :: "zb_buf_pool \<Rightarrow> (zb_buf_pool \<times> nat option) option" where
  "zb_get_out_buf bp = zb_get_buf False bp"

definition put_waiter :: "bool \<Rightarrow> nat \<Rightarrow> zb_sched_globals \<Rightarrow> zb_sched_globals" where
  "put_waiter is_in e s =
     (if is_in then
        let (L, h, t) = ZB_SL_LIST_INSERT_TAIL (buf_links s) (inbuf_queue s) (inbuf_queue_tail s) e
        in s\<lparr>buf_links := L, inbuf_queue := h, inbuf_queue_tail := t\<rparr>
      else
        let (L, h, t) = ZB_SL_LIST_INSERT_TAIL (buf_links s) (outbuf_queue s) (outbuf_queue_tail s) e
        in s\<lparr>buf_links := L, outbuf_queue := h, outbuf_queue_tail := t\<rparr>)"

definition zb_get_buf_delayed ::
    "zb_callback \<Rightarrow> bool \<Rightarrow> 'z zb_globals_b_scheme \<Rightarrow> ('z zb_globals_b_scheme \<times> zb_ret_t) option" where
  "zb_get_buf_delayed callback is_in g = do {
     (bp, buf) \<leftarrow> zb_get_buf is_in (bpool g);
     let g1 = g\<lparr>bpool := bp\<rparr>;
     case buf of
       Some b \<Rightarrow> zb_schedule_callback callback (of_nat b) g1
     | None \<Rightarrow>
         (let s = sched g1; (fl, ent) = ZB_STK_POP (buf_links s) (buf_freelist s) in
          case ent of
            Some e \<Rightarrow> Some (g1\<lparr>sched := put_waiter is_in e
              (s\<lparr>buf_freelist := fl, delayed_buf := (delayed_buf s)[e := callback]\<rparr>)\<rparr>, RET_OK)
          | None \<Rightarrow> Some (g1, RET_ERROR)) }"

definition zb_get_in_buf_delayed ::
    "zb_callback \<Rightarrow> 'z zb_globals_b_scheme \<Rightarrow> ('z zb_globals_b_scheme \<times> zb_ret_t) option" where
  "zb_get_in_buf_delayed callback g = zb_get_buf_delayed callback True g"

definition zb_get_out_buf_delayed ::
    "zb_callback \<Rightarrow> 'z zb_globals_b_scheme \<Rightarrow> ('z zb_globals_b_scheme \<times> zb_ret_t) option" where
  "zb_get_out_buf_delayed callback g = zb_get_buf_delayed callback False g"

text \<open>The waiting entry that a freed buffer is handed to, if any; \<open>d\<close> is the buffer's direction.\<close>

definition cut_waiter :: "bool \<Rightarrow> bool \<Rightarrow> zb_sched_globals \<Rightarrow> zb_sched_globals \<times> nat option" where
  "cut_waiter d need s =
     (if d then
        (if \<not> need then
           let (h, t, ent) = ZB_SL_LIST_CUT_HEAD (buf_links s) (inbuf_queue s) (inbuf_queue_tail s)
           in (s\<lparr>inbuf_queue := h, inbuf_queue_tail := t\<rparr>, ent)
         else (s, None))
      else
        let (h, t, ent) = ZB_SL_LIST_CUT_HEAD (buf_links s) (outbuf_queue s) (outbuf_queue_tail s)
        in (s\<lparr>outbuf_queue := h, outbuf_queue_tail := t\<rparr>, ent))"

definition zb_free_buf :: "nat \<Rightarrow> 'z zb_globals_b_scheme \<Rightarrow> 'z zb_globals_b_scheme option" where
  "zb_free_buf b g = do {
     let bp = bpool g;
     buf \<leftarrow> aget (bp_pool bp) b;
     let d = b_is_in_buf buf;
     zb_assert (pool_inited bp);
     zb_assert (bufs_allocated bp ! of_bool d > 0);
     let bp1 = bp\<lparr>bufs_allocated := (bufs_allocated bp)[of_bool d := dec8 (bufs_allocated bp ! of_bool d)],
       bp_next := set_next b (bp_head bp) (bp_next bp), bp_head := Some b\<rparr>;
     let (s, ent) = cut_waiter d (rx_need_buf g) (sched g);
     let g1 = g\<lparr>bpool := bp1, sched := s\<rparr>;
     case ent of
       Some e \<Rightarrow> do {
         (bp2, nb) \<leftarrow> zb_get_buf (b_is_in_buf (bp_pool (bpool g1) ! b)) (bpool g1);
         n \<leftarrow> nb;
         (g2, _) \<leftarrow> zb_schedule_callback (delayed_buf (sched g1) ! e) (of_nat n) (g1\<lparr>bpool := bp2\<rparr>);
         let (L, f) = ZB_STK_PUSH (buf_links (sched g2)) (buf_freelist (sched g2)) e;
         Some (g2\<lparr>sched := (sched g2)\<lparr>buf_links := L, buf_freelist := f\<rparr>\<rparr>) }
     | None \<Rightarrow> Some g1 }"

section \<open>The pool's invariant\<close>

definition dir_bufs :: "zb_buf_pool \<Rightarrow> nat list \<Rightarrow> bool \<Rightarrow> nat set" where
  "dir_bufs bp free d = {b. b < 16 \<and> b \<notin> set free \<and> b_is_in_buf (bp_pool bp ! b) = d}"

definition pool_rep :: "zb_buf_pool \<Rightarrow> nat list \<Rightarrow> bool" where
  "pool_rep bp free \<longleftrightarrow> length (bp_pool bp) = 16 \<and> length (bufs_allocated bp) = 2
     \<and> stk (bp_next bp) (bp_head bp) free \<and> set free \<subseteq> {..<16}
     \<and> (\<forall>d. bufs_allocated bp ! of_bool d = card (dir_bufs bp free d)
          \<and> bufs_allocated bp ! of_bool d \<le> 8)"

definition free_bufs :: "zb_buf_pool \<Rightarrow> nat list" where
  "free_bufs bp = (case list_walk ZB_LIST_FUEL (l_next (bp_next bp)) (bp_head bp) of
     Some xs \<Rightarrow> xs | None \<Rightarrow> [])"

definition pool_wf :: "zb_buf_pool \<Rightarrow> bool" where
  "pool_wf bp \<longleftrightarrow> pool_rep bp (free_bufs bp)"

lemma pool_rep_free: "pool_rep bp free \<Longrightarrow> free_bufs bp = free"
proof -
  assume r: "pool_rep bp free"
  then have "distinct free" "set free \<subseteq> {..<16}" by (auto simp: pool_rep_def stk_def)
  then have "length free \<le> card {..<16::nat}" by (metis card_mono distinct_card finite_lessThan)
  then have "length free \<le> ZB_LIST_FUEL" by (simp add: ZB_LIST_FUEL_def)
  then show ?thesis using r seg_walk [of "l_next (bp_next bp)" "bp_head bp" free ZB_LIST_FUEL]
    by (simp add: free_bufs_def pool_rep_def stk_def)
qed

lemma finite_dir_bufs [simp]: "finite (dir_bufs bp free d)"
  by (simp add: dir_bufs_def)

lemma pool_count:
  assumes "pool_rep bp free"
  shows "length free + bufs_allocated bp ! 0 + bufs_allocated bp ! 1 = 16"
proof -
  have "{..<16} = set free \<union> (dir_bufs bp free False \<union> dir_bufs bp free True)"
    using assms by (auto simp: dir_bufs_def pool_rep_def)
  then have "16 = card (set free \<union> (dir_bufs bp free False \<union> dir_bufs bp free True))"
    by (metis card_lessThan)
  also have "\<dots> = card (set free) + card (dir_bufs bp free False \<union> dir_bufs bp free True)"
    by (rule card_Un_disjoint) (auto simp: dir_bufs_def)
  also have "card (dir_bufs bp free False \<union> dir_bufs bp free True)
      = card (dir_bufs bp free False) + card (dir_bufs bp free True)"
    by (rule card_Un_disjoint) (auto simp: dir_bufs_def)
  moreover have "card (dir_bufs bp free False) = bufs_allocated bp ! 0"
    "card (dir_bufs bp free True) = bufs_allocated bp ! 1"
    using assms by (auto simp: pool_rep_def dest: spec [of _ False] spec [of _ True])
  moreover have "card (set free) = length free"
    using assms by (simp add: pool_rep_def stk_def distinct_card)
  ultimately show ?thesis by simp
qed

lemma of_bool_less_2 [simp]: "of_bool d < (2::nat)" "of_bool d < Suc (Suc 0)"
  by (cases d; simp)+

lemma of_bool_neq [simp]: "of_bool (\<not> d) \<noteq> (of_bool d :: nat)" "of_bool d \<noteq> (of_bool (\<not> d) :: nat)"
  by (cases d; simp)+

lemma pool_sum:
  "pool_rep bp free \<Longrightarrow> length free + bufs_allocated bp ! of_bool d + bufs_allocated bp ! of_bool (\<not> d) = 16"
  using pool_count [of bp free] by (cases d) auto

lemma pool_inited_rep:
  assumes "pool_rep bp free" shows "pool_inited bp"
proof (cases free)
  case Nil
  then show ?thesis using pool_count [OF assms] by (auto simp: pool_inited_def)
next
  case (Cons b fr)
  then show ?thesis using assms by (auto simp: pool_inited_def pool_rep_def dest: stk_head)
qed

lemma all_dir: "(\<forall>d. P d) \<longleftrightarrow> P d \<and> P (\<not> (d::bool))"
  by (cases d) (auto simp: all_bool_eq)

lemma pool_rep_dir:
  "pool_rep bp free \<Longrightarrow> bufs_allocated bp ! of_bool d = card (dir_bufs bp free d)"
  "pool_rep bp free \<Longrightarrow> bufs_allocated bp ! of_bool d \<le> 8"
  unfolding pool_rep_def by blast+

text \<open>A direction below its limit always gets a buffer: the first free one, its header cleared.\<close>

lemma get_buf_ok:
  assumes r: "pool_rep bp free" and n: "bufs_allocated bp ! of_bool d < 8"
  shows "\<exists>b fr bp'. free = b # fr \<and> b < 16 \<and> zb_get_buf d bp = Some (bp', Some b) \<and> pool_rep bp' fr
    \<and> bp_pool bp' = (bp_pool bp)[b := (buf_bzero_hdr (bp_pool bp ! b))\<lparr>b_is_in_buf := d\<rparr>]
    \<and> bufs_allocated bp' = (bufs_allocated bp)[of_bool d := Suc (bufs_allocated bp ! of_bool d)]"
proof -
  let ?n = "bufs_allocated bp ! of_bool d"
  have "bufs_allocated bp ! of_bool (\<not> d) \<le> 8" using r by (rule pool_rep_dir)
  then have "free \<noteq> []" using pool_sum [OF r, of d] n by auto
  then obtain b fr where f: "free = b # fr" by (cases free) auto
  have len: "length (bp_pool bp) = 16" "length (bufs_allocated bp) = 2" using r by (auto simp: pool_rep_def)
  have b: "b < 16" "b \<notin> set fr" "bp_head bp = Some b" "stk (bp_next bp) (l_next (bp_next bp) b) fr"
    using r f by (auto simp: pool_rep_def stk_def)
  let ?bp = "bp\<lparr>bp_head := l_next (bp_next bp) b,
    bp_pool := (bp_pool bp)[b := (buf_bzero_hdr (bp_pool bp ! b))\<lparr>b_is_in_buf := d\<rparr>],
    bufs_allocated := (bufs_allocated bp)[of_bool d := Suc ?n]\<rparr>"
  have "zb_get_buf d bp = Some (?bp, Some b)"
    using pool_inited_rep [OF r] n b len
    by (simp add: zb_get_buf_def ZB_BUFS_LIMIT_def ZB_IOBUF_POOL_SIZE_def Let_def)
  moreover have "pool_rep ?bp fr"
  proof -
    have "dir_bufs ?bp fr d = insert b (dir_bufs bp free d)"
      using f b len by (auto simp: dir_bufs_def nth_list_update)
    moreover have "b \<notin> dir_bufs bp free d" using f by (simp add: dir_bufs_def)
    moreover have "dir_bufs ?bp fr (\<not> d) = dir_bufs bp free (\<not> d)"
      using f b len by (auto simp: dir_bufs_def nth_list_update)
    moreover have "bufs_allocated bp ! of_bool c = card (dir_bufs bp free c)" "card (dir_bufs bp free c) \<le> 8" for c
      using pool_rep_dir [OF r, of c] by simp_all
    moreover have "set fr \<subseteq> {..<16}" using r f by (simp add: pool_rep_def)
    ultimately show ?thesis
      using n b len unfolding pool_rep_def all_dir [of _ d] by auto
  qed
  ultimately show ?thesis using f b by auto
qed

lemma get_buf_limit:
  "pool_rep bp free \<Longrightarrow> bufs_allocated bp ! of_bool d = 8 \<Longrightarrow> zb_get_buf d bp = Some (bp, None)"
  using pool_inited_rep [of bp free]
  by (simp add: zb_get_buf_def ZB_BUFS_LIMIT_def ZB_IOBUF_POOL_SIZE_def)

lemma free_pool_rep:
  assumes r: "pool_rep bp free" and b: "b < 16" "b \<notin> set free" and d: "d = b_is_in_buf (bp_pool bp ! b)"
  shows "0 < bufs_allocated bp ! of_bool d"
    "pool_rep (bp\<lparr>bufs_allocated := (bufs_allocated bp)[of_bool d := bufs_allocated bp ! of_bool d - 1],
       bp_next := set_next b (bp_head bp) (bp_next bp), bp_head := Some b\<rparr>) (b # free)"
proof -
  let ?bp = "bp\<lparr>bufs_allocated := (bufs_allocated bp)[of_bool d := bufs_allocated bp ! of_bool d - 1],
       bp_next := set_next b (bp_head bp) (bp_next bp), bp_head := Some b\<rparr>"
  have in_d: "b \<in> dir_bufs bp free d" using b d by (simp add: dir_bufs_def)
  have al: "bufs_allocated bp ! of_bool c = card (dir_bufs bp free c)" "card (dir_bufs bp free c) \<le> 8" for c
    using pool_rep_dir [OF r, of c] by simp_all
  show pos: "0 < bufs_allocated bp ! of_bool d"
    using in_d al(1) [of d] by (auto simp: card_gt_0_iff)
  have "dir_bufs ?bp (b # free) d = dir_bufs bp free d - {b}" by (auto simp: dir_bufs_def)
  moreover have "dir_bufs ?bp (b # free) (\<not> d) = dir_bufs bp free (\<not> d)" using d by (auto simp: dir_bufs_def)
  moreover have "stk (bp_next ?bp) (bp_head ?bp) (b # free)"
    using r b by (simp add: pool_rep_def stk_def)
  moreover have "bufs_allocated bp ! of_bool d - 1 \<le> 8"
    by (rule le_trans [OF diff_le_self pool_rep_dir(2) [OF r]])
  ultimately show "pool_rep ?bp (b # free)"
    using r b in_d al unfolding pool_rep_def all_dir [of _ d] by simp
qed

section \<open>The waiting queues\<close>

definition dir_waiters :: "bool \<Rightarrow> zb_sched_globals \<Rightarrow> zb_callback list" where
  "dir_waiters d s = (if d then in_waiters s else out_waiters s)"

lemma put_waiter_rep:
  assumes r: "bq_rep [] s iq oq (e # bf)"
  shows "\<exists>fl. ZB_STK_POP (buf_links s) (buf_freelist s) = (fl, Some e) \<and>
    (let s' = put_waiter d e (s\<lparr>buf_freelist := fl, delayed_buf := (delayed_buf s)[e := cb]\<rparr>) in
      bq_rep [] s' (if d then iq @ [e] else iq) (if d then oq else oq @ [e]) bf
      \<and> delayed_buf s' = (delayed_buf s)[e := cb] \<and> cb_q s' = cb_q s \<and> mac_tx_q s' = mac_tx_q s
      \<and> (\<forall>D. tm_rep D s' = tm_rep D s) \<and> alarms s' = alarms s)"
proof -
  have st: "stk (buf_links s) (buf_freelist s) (e # bf)" using r by (simp add: bq_rep_def)
  then obtain fl where fl: "ZB_STK_POP (buf_links s) (buf_freelist s) = (fl, Some e)"
    "stk (buf_links s) fl bf" using stk_pop by blast
  have dis: "e \<notin> set iq" "e \<notin> set oq" "set iq \<inter> set oq = {}" "set iq \<inter> set bf = {}" "set oq \<inter> set bf = {}"
    "e \<notin> set bf" using r by (auto simp: bq_rep_def)
  show ?thesis
  proof (cases d)
    case True
    obtain L h t where ins: "ZB_SL_LIST_INSERT_TAIL (buf_links s) (inbuf_queue s) (inbuf_queue_tail s) e = (L, h, t)"
      "sll L h t (iq @ [e])" "\<forall>x. x \<notin> set (e # iq) \<longrightarrow> l_next L x = l_next (buf_links s) x"
      using sll_insert_tail [of "buf_links s" "inbuf_queue s" "inbuf_queue_tail s" iq e] r dis
      by (auto simp: bq_rep_def)
    have "x \<notin> set (e # iq)" if "x \<in> set oq \<or> x \<in> set bf" for x using that dis by auto
    then have "\<forall>x\<in>set oq. l_next L x = l_next (buf_links s) x" "\<forall>x\<in>set bf. l_next L x = l_next (buf_links s) x"
      using ins(3) by auto
    then have "sll L (outbuf_queue s) (outbuf_queue_tail s) oq" "stk L fl bf"
      using r fl(2) sll_frame stk_frame unfolding bq_rep_def by blast+
    then show ?thesis using True r fl ins by (auto simp: put_waiter_def bq_rep_def Let_def)
  next
    case False
    obtain L h t where ins: "ZB_SL_LIST_INSERT_TAIL (buf_links s) (outbuf_queue s) (outbuf_queue_tail s) e = (L, h, t)"
      "sll L h t (oq @ [e])" "\<forall>x. x \<notin> set (e # oq) \<longrightarrow> l_next L x = l_next (buf_links s) x"
      using sll_insert_tail [of "buf_links s" "outbuf_queue s" "outbuf_queue_tail s" oq e] r dis
      by (auto simp: bq_rep_def)
    have "x \<notin> set (e # oq)" if "x \<in> set iq \<or> x \<in> set bf" for x using that dis by auto
    then have "\<forall>x\<in>set iq. l_next L x = l_next (buf_links s) x" "\<forall>x\<in>set bf. l_next L x = l_next (buf_links s) x"
      using ins(3) by auto
    then have "sll L (inbuf_queue s) (inbuf_queue_tail s) iq" "stk L fl bf"
      using r fl(2) sll_frame stk_frame unfolding bq_rep_def by blast+
    then show ?thesis using False r fl ins by (auto simp: put_waiter_def bq_rep_def Let_def)
  qed
qed

lemma map_upd_notin: "e \<notin> set xs \<Longrightarrow> map (\<lambda>x. (ys[e := v]) ! x) xs = map (\<lambda>x. ys ! x) xs"
  by (auto simp: nth_list_update_neq) (metis nth_list_update_neq)

lemma dir_waiters_rep:
  "bq_rep D s iq oq bf \<Longrightarrow> dir_waiters d s = map (\<lambda>e. delayed_buf s ! e) (if d then iq else oq)"
  by (simp add: dir_waiters_def in_waiters_rep out_waiters_rep)

lemma put_waiter_spec:
  assumes r: "bq_rep [] s iq oq (e # bf)"
  shows "\<exists>fl. ZB_STK_POP (buf_links s) (buf_freelist s) = (fl, Some e) \<and>
    (let s' = put_waiter d e (s\<lparr>buf_freelist := fl, delayed_buf := (delayed_buf s)[e := cb]\<rparr>) in
      (\<exists>iq' oq'. bq_rep [] s' iq' oq' bf) \<and> dir_waiters d s' = dir_waiters d s @ [cb]
      \<and> dir_waiters (\<not> d) s' = dir_waiters (\<not> d) s
      \<and> cb_q s' = cb_q s \<and> mac_tx_q s' = mac_tx_q s
      \<and> (\<forall>D. tm_rep D s' = tm_rep D s) \<and> alarms s' = alarms s)"
proof -
  obtain fl where fl: "ZB_STK_POP (buf_links s) (buf_freelist s) = (fl, Some e)" and
    p: "let s' = put_waiter d e (s\<lparr>buf_freelist := fl, delayed_buf := (delayed_buf s)[e := cb]\<rparr>) in
      bq_rep [] s' (if d then iq @ [e] else iq) (if d then oq else oq @ [e]) bf
      \<and> delayed_buf s' = (delayed_buf s)[e := cb] \<and> cb_q s' = cb_q s \<and> mac_tx_q s' = mac_tx_q s
      \<and> (\<forall>D. tm_rep D s' = tm_rep D s) \<and> alarms s' = alarms s"
    using put_waiter_rep [OF r, of d cb] by blast
  let ?s' = "put_waiter d e (s\<lparr>buf_freelist := fl, delayed_buf := (delayed_buf s)[e := cb]\<rparr>)"
  have q: "bq_rep [] ?s' (if d then iq @ [e] else iq) (if d then oq else oq @ [e]) bf"
    "delayed_buf ?s' = (delayed_buf s)[e := cb]" using p by (auto simp: Let_def)
  have e: "e \<notin> set iq" "e \<notin> set oq" "e < length (delayed_buf s)"
    using r by (auto simp: bq_rep_def)
  have "dir_waiters c ?s' = map (\<lambda>x. (delayed_buf s)[e := cb] ! x)
      (if c then (if d then iq @ [e] else iq) else (if d then oq else oq @ [e]))" for c
    using dir_waiters_rep [OF q(1), of c] q(2) by simp
  then have "dir_waiters d ?s' = dir_waiters d s @ [cb]" "dir_waiters (\<not> d) ?s' = dir_waiters (\<not> d) s"
    using e dir_waiters_rep [OF r] by (auto simp: map_upd_notin)
  with fl p q(1) show ?thesis by (auto simp: Let_def)
qed

lemma cut_waiter_none:
  "bq_rep [] s iq oq bf \<Longrightarrow> d \<and> need \<or> dir_waiters d s = [] \<Longrightarrow> cut_waiter d need s = (s, None)"
  using dir_waiters_rep [of "[]" s iq oq bf d]
  by (auto simp: cut_waiter_def bq_rep_def sll_def stk_def ZB_SL_LIST_CUT_HEAD_def Let_def)

lemma cut_waiter_rep:
  assumes r: "bq_rep [] s iq oq bf" and n: "\<not> (d \<and> need)" and w: "dir_waiters d s = cb # ws"
  shows "\<exists>s' e iq' oq'. cut_waiter d need s = (s', Some e) \<and> bq_rep [e] s' iq' oq' bf
     \<and> delayed_buf s ! e = cb \<and> dir_waiters d s' = ws \<and> dir_waiters (\<not> d) s' = dir_waiters (\<not> d) s
     \<and> delayed_buf s' = delayed_buf s \<and> cb_q s' = cb_q s \<and> mac_tx_q s' = mac_tx_q s
     \<and> (\<forall>D. tm_rep D s' = tm_rep D s) \<and> alarms s' = alarms s"
proof (cases d)
  case True
  with w r obtain e iq' where iq: "iq = e # iq'" "delayed_buf s ! e = cb"
      "ws = map (\<lambda>e. delayed_buf s ! e) iq'" by (auto simp: dir_waiters_rep)
  obtain h t where c: "ZB_SL_LIST_CUT_HEAD (buf_links s) (inbuf_queue s) (inbuf_queue_tail s) = (h, t, Some e)"
      "sll (buf_links s) h t iq'"
    using sll_cut_head [of "buf_links s" "inbuf_queue s" "inbuf_queue_tail s" e iq'] r iq
    by (auto simp: bq_rep_def)
  let ?s = "s\<lparr>inbuf_queue := h, inbuf_queue_tail := t\<rparr>"
  have q: "bq_rep [e] ?s iq' oq bf" using r c iq by (auto simp: bq_rep_def)
  have "dir_waiters c ?s = map (\<lambda>e. delayed_buf s ! e) (if c then iq' else oq)" for c
    using dir_waiters_rep [OF q, of c] by simp
  with q c True iq n dir_waiters_rep [OF r] show ?thesis
    by (intro exI [of _ ?s] exI [of _ e]) (auto simp: cut_waiter_def)
next
  case False
  with w r obtain e oq' where oq: "oq = e # oq'" "delayed_buf s ! e = cb"
      "ws = map (\<lambda>e. delayed_buf s ! e) oq'" by (auto simp: dir_waiters_rep)
  obtain h t where c: "ZB_SL_LIST_CUT_HEAD (buf_links s) (outbuf_queue s) (outbuf_queue_tail s) = (h, t, Some e)"
      "sll (buf_links s) h t oq'"
    using sll_cut_head [of "buf_links s" "outbuf_queue s" "outbuf_queue_tail s" e oq'] r oq
    by (auto simp: bq_rep_def)
  let ?s = "s\<lparr>outbuf_queue := h, outbuf_queue_tail := t\<rparr>"
  have q: "bq_rep [e] ?s iq oq' bf" using r c oq by (auto simp: bq_rep_def)
  have "dir_waiters c ?s = map (\<lambda>e. delayed_buf s ! e) (if c then iq else oq')" for c
    using dir_waiters_rep [OF q, of c] by simp
  with q c False oq n dir_waiters_rep [OF r] show ?thesis
    by (intro exI [of _ ?s] exI [of _ e]) (auto simp: cut_waiter_def)
qed

lemma push_waiter_rep:
  assumes r: "bq_rep [e] s iq oq bf"
  shows "\<exists>L f. ZB_STK_PUSH (buf_links s) (buf_freelist s) e = (L, f) \<and>
    (let s' = s\<lparr>buf_links := L, buf_freelist := f\<rparr> in bq_rep [] s' iq oq (e # bf)
      \<and> dir_waiters d s' = dir_waiters d s \<and> dir_waiters (\<not> d) s' = dir_waiters (\<not> d) s)"
proof -
  obtain L f where p: "ZB_STK_PUSH (buf_links s) (buf_freelist s) e = (L, f)" by fastforce
  then have l: "stk L f (e # bf)" "\<forall>x. x \<noteq> e \<longrightarrow> l_next L x = l_next (buf_links s) x"
    using stk_push [of "buf_links s" "buf_freelist s" bf e L f] r by (auto simp: bq_rep_def)
  have "x \<noteq> e" if "x \<in> set iq \<or> x \<in> set oq" for x using that r by (auto simp: bq_rep_def)
  then have "\<forall>x\<in>set iq. l_next L x = l_next (buf_links s) x" "\<forall>x\<in>set oq. l_next L x = l_next (buf_links s) x"
    using l(2) by auto
  then have "sll L (inbuf_queue s) (inbuf_queue_tail s) iq" "sll L (outbuf_queue s) (outbuf_queue_tail s) oq"
    using r sll_frame unfolding bq_rep_def by blast+
  then have q: "bq_rep [] (s\<lparr>buf_links := L, buf_freelist := f\<rparr>) iq oq (e # bf)"
    using r l by (auto simp: bq_rep_def)
  with p dir_waiters_rep [OF r] dir_waiters_rep [OF q] show ?thesis by (simp add: Let_def)
qed

text \<open>Scheduling a callback does not touch the waiting queues or the alarms.\<close>

lemma dir_waiters_cb [simp]: "dir_waiters d (s\<lparr>cb_q := q\<rparr>) = dir_waiters d s"
  by (simp add: dir_waiters_def)

definition base_wf :: "'z zb_globals_b_scheme \<Rightarrow> bool" where
  "base_wf g \<longleftrightarrow> sched_wf (sched g) \<and> pool_wf (bpool g)"

definition buf_in_use :: "nat \<Rightarrow> zb_buf_pool \<Rightarrow> bool" where
  "buf_in_use b bp \<longleftrightarrow> b < 16 \<and> b \<notin> set (free_bufs bp)"

lemma pool_wfI: "pool_rep bp fr \<Longrightarrow> pool_wf bp"
  by (simp add: pool_wf_def pool_rep_free)

lemma unat8_ref: "b < 16 \<Longrightarrow> unat (of_nat b :: 8 word) = b"
  by (simp add: unat8_of_nat)

section \<open>Properties of the buffer pool\<close>

text \<open>
  The pool cannot starve a direction: as long as one direction holds fewer than 8 buffers,
  \<^verbatim>\<open>zb_get_buf\<close> gives it one, that was free, with a cleared header and the direction set, and at
  the limit it gives none and changes nothing; the counters stay exact.
\<close>

theorem zb_get_buf_no_starvation:
  assumes wf: "pool_wf bp"
  shows "if bufs_allocated bp ! of_bool d < 8
    then \<exists>bp' b. zb_get_buf d bp = Some (bp', Some b) \<and> pool_wf bp'
      \<and> \<not> buf_in_use b bp \<and> (\<forall>c. buf_in_use c bp' = (buf_in_use c bp \<or> c = b))
      \<and> bp_pool bp' ! b = (buf_bzero_hdr (bp_pool bp ! b))\<lparr>b_is_in_buf := d\<rparr>
      \<and> (\<forall>c. c \<noteq> b \<longrightarrow> bp_pool bp' ! c = bp_pool bp ! c)
      \<and> bufs_allocated bp' ! of_bool d = Suc (bufs_allocated bp ! of_bool d)
    else zb_get_buf d bp = Some (bp, None)"
proof (cases "bufs_allocated bp ! of_bool d < 8")
  case True
  have r: "pool_rep bp (free_bufs bp)" using wf by (simp add: pool_wf_def)
  obtain b fr bp' where g: "free_bufs bp = b # fr" "b < 16" "zb_get_buf d bp = Some (bp', Some b)"
    "pool_rep bp' fr" "bp_pool bp' = (bp_pool bp)[b := (buf_bzero_hdr (bp_pool bp ! b))\<lparr>b_is_in_buf := d\<rparr>]"
    "bufs_allocated bp' = (bufs_allocated bp)[of_bool d := Suc (bufs_allocated bp ! of_bool d)]"
    using get_buf_ok [OF r True] by auto
  have "length (bp_pool bp) = 16" "length (bufs_allocated bp) = 2" "b \<notin> set fr"
    using r g(1) by (auto simp: pool_rep_def stk_def)
  with True g pool_wfI [OF g(4)] pool_rep_free [OF g(4)] show ?thesis
    by (auto simp: buf_in_use_def)
next
  case False
  then have "bufs_allocated bp ! of_bool d = 8"
    using wf pool_rep_dir(2) [of bp "free_bufs bp" d] by (simp add: pool_wf_def)
  then show ?thesis using wf get_buf_limit [of bp "free_bufs bp" d] by (simp add: pool_wf_def)
qed

lemma sched_wf_bq:
  "sched_wf s \<Longrightarrow> bq_rep [] s' iq oq bf \<Longrightarrow> cb_q s' = cb_q s \<Longrightarrow> mac_tx_q s' = mac_tx_q s \<Longrightarrow>
   (\<forall>D. tm_rep D s' = tm_rep D s) \<Longrightarrow> sched_wf s'"
  unfolding sched_wf_def by auto

text \<open>The pool after a freed buffer is taken again by its direction.\<close>

lemma free_get_again:
  assumes r: "pool_rep bp free" and b: "b < 16" "b \<notin> set free" and d: "d = b_is_in_buf (bp_pool bp ! b)"
  defines "bp1 \<equiv> bp\<lparr>bufs_allocated := (bufs_allocated bp)[of_bool d := bufs_allocated bp ! of_bool d - 1],
       bp_next := set_next b (bp_head bp) (bp_next bp), bp_head := Some b\<rparr>"
  shows "\<exists>bp2. zb_get_buf d bp1 = Some (bp2, Some b) \<and> pool_rep bp2 free
    \<and> bufs_allocated bp2 = bufs_allocated bp"
proof -
  have r1: "pool_rep bp1 (b # free)" and pos: "0 < bufs_allocated bp ! of_bool d"
    using free_pool_rep [OF r b d] by (simp_all add: bp1_def)
  have len: "length (bufs_allocated bp) = 2" using r by (simp add: pool_rep_def)
  then have "bufs_allocated bp1 ! of_bool d = bufs_allocated bp ! of_bool d - 1" by (simp add: bp1_def)
  moreover have "bufs_allocated bp ! of_bool d \<le> 8" using pool_rep_dir(2) [OF r] .
  ultimately have lt: "bufs_allocated bp1 ! of_bool d < 8" using pos by linarith
  from get_buf_ok [OF r1 lt] obtain bp2 where g: "zb_get_buf d bp1 = Some (bp2, Some b)" "pool_rep bp2 free"
    "bufs_allocated bp2 = (bufs_allocated bp1)[of_bool d := Suc (bufs_allocated bp1 ! of_bool d)]" by auto
  moreover have "bufs_allocated bp2 = bufs_allocated bp"
    using g(3) pos len by (simp add: bp1_def)
  ultimately show ?thesis by auto
qed

lemma free_buf_spec:
  assumes wf: "base_wf g" and use: "buf_in_use b (bpool g)"
    and d: "d = b_is_in_buf (bp_pool (bpool g) ! b)"
  shows "\<exists>g'. zb_free_buf b g = Some g' \<and> base_wf g' \<and> alarms (sched g') = alarms (sched g)
    \<and> (if d \<and> rx_need_buf g \<or> dir_waiters d (sched g) = []
       then \<not> buf_in_use b (bpool g') \<and> sched g' = sched g
         \<and> bufs_allocated (bpool g') ! of_bool d = bufs_allocated (bpool g) ! of_bool d - 1
       else buf_in_use b (bpool g') \<and> bufs_allocated (bpool g') = bufs_allocated (bpool g)
         \<and> dir_waiters d (sched g') = tl (dir_waiters d (sched g))
         \<and> dir_waiters (\<not> d) (sched g') = dir_waiters (\<not> d) (sched g)
         \<and> callbacks (sched g') = callbacks (sched g) @
             (if length (callbacks (sched g)) < 16
              then [\<lparr>cb_func = hd (dir_waiters d (sched g)), cb_param = of_nat b\<rparr>] else []))"
proof -
  let ?bp = "bpool g" and ?s = "sched g"
  let ?bp1 = "?bp\<lparr>bufs_allocated := (bufs_allocated ?bp)[of_bool d := bufs_allocated ?bp ! of_bool d - 1],
       bp_next := set_next b (bp_head ?bp) (bp_next ?bp), bp_head := Some b\<rparr>"
  have r: "pool_rep ?bp (free_bufs ?bp)" and sw: "sched_wf ?s" using wf by (auto simp: base_wf_def pool_wf_def)
  have b: "b < 16" "b \<notin> set (free_bufs ?bp)" using use by (auto simp: buf_in_use_def)
  have len: "length (bp_pool ?bp) = 16" "length (bufs_allocated ?bp) = 2" using r by (auto simp: pool_rep_def)
  note fp = free_pool_rep [OF r b d]
  have pre: "zb_free_buf b g = do {
      let (s, ent) = cut_waiter d (rx_need_buf g) ?s;
      let g1 = g\<lparr>bpool := ?bp1, sched := s\<rparr>;
      case ent of
       Some e \<Rightarrow> do {
         (bp2, nb) \<leftarrow> zb_get_buf d (bpool g1);
         n \<leftarrow> nb;
         (g2, _) \<leftarrow> zb_schedule_callback (delayed_buf (sched g1) ! e) (of_nat n) (g1\<lparr>bpool := bp2\<rparr>);
         let (L, f) = ZB_STK_PUSH (buf_links (sched g2)) (buf_freelist (sched g2)) e;
         Some (g2\<lparr>sched := (sched g2)\<lparr>buf_links := L, buf_freelist := f\<rparr>\<rparr>) }
     | None \<Rightarrow> Some g1 }"
    using b len pool_inited_rep [OF r] fp(1)
    by (simp add: zb_free_buf_def Let_def flip: d)
  obtain iq oq bf where bq: "bq_rep [] ?s iq oq bf" using sw by (auto simp: sched_wf_def)
  show ?thesis
  proof (cases "d \<and> rx_need_buf g \<or> dir_waiters d ?s = []")
    case True
    have "zb_free_buf b g = Some (g\<lparr>bpool := ?bp1\<rparr>)"
      unfolding pre cut_waiter_none [OF bq True] by simp
    moreover have "\<not> buf_in_use b ?bp1" using pool_rep_free [OF fp(2)] by (simp add: buf_in_use_def)
    ultimately show ?thesis using True sw pool_wfI [OF fp(2)] len
      by (auto simp: base_wf_def)
  next
    case False
    then obtain cb ws where w: "dir_waiters d ?s = cb # ws" by (cases "dir_waiters d ?s") auto
    obtain s e iq' oq' where c: "cut_waiter d (rx_need_buf g) ?s = (s, Some e)" "bq_rep [e] s iq' oq' bf"
      "delayed_buf ?s ! e = cb" "dir_waiters d s = ws" "dir_waiters (\<not> d) s = dir_waiters (\<not> d) ?s"
      "delayed_buf s = delayed_buf ?s" "cb_q s = cb_q ?s" "mac_tx_q s = mac_tx_q ?s"
      "\<forall>D. tm_rep D s = tm_rep D ?s" "alarms s = alarms ?s"
      using cut_waiter_rep [OF bq _ w, of "rx_need_buf g"] False by blast
    obtain bp2 where bp2: "zb_get_buf d ?bp1 = Some (bp2, Some b)" "pool_rep bp2 (free_bufs ?bp)"
      "bufs_allocated bp2 = bufs_allocated ?bp" using free_get_again [OF r b d] by auto
    have use2: "buf_in_use b bp2" using b pool_rep_free [OF bp2(2)] by (simp add: buf_in_use_def)
    obtain L f where p: "ZB_STK_PUSH (buf_links s) (buf_freelist s) e = (L, f)"
      "bq_rep [] (s\<lparr>buf_links := L, buf_freelist := f\<rparr>) iq' oq' (e # bf)"
      "dir_waiters d (s\<lparr>buf_links := L, buf_freelist := f\<rparr>) = dir_waiters d s"
      "dir_waiters (\<not> d) (s\<lparr>buf_links := L, buf_freelist := f\<rparr>) = dir_waiters (\<not> d) s"
      using push_waiter_rep [OF c(2), of d] by (auto simp: Let_def)
    let ?s2 = "s\<lparr>buf_links := L, buf_freelist := f\<rparr>"
    have sw2: "sched_wf ?s2" using sched_wf_bq [OF sw p(2)] c by simp
    have cbs: "callbacks s = callbacks ?s" using c by (simp add: callbacks_def)
    let ?q = "ZB_RING_BUFFER_PUT \<lparr>cb_func = cb, cb_param = of_nat b\<rparr> (cb_q ?s)"
    have sc: "zb_schedule_callback cb (of_nat b) (g\<lparr>bpool := bp2, sched := s\<rparr>) =
        (if length (callbacks ?s) < 16 then Some (g\<lparr>bpool := bp2, sched := s\<lparr>cb_q := ?q\<rparr>\<rparr>, RET_OK)
         else Some (g\<lparr>bpool := bp2, sched := s\<rparr>, RET_OVERFLOW))"
      using schedule_callback_ring [of "g\<lparr>bpool := bp2, sched := s\<rparr>" cb "of_nat b"]
        sched_wf_ring [OF sw] unat8_ref [OF b(1)] b(1) cbs c(7) by simp
    show ?thesis
    proof (cases "length (callbacks ?s) < 16")
      case True
      then have "zb_free_buf b g = Some (g\<lparr>bpool := bp2, sched := ?s2\<lparr>cb_q := ?q\<rparr>\<rparr>)"
        unfolding pre c(1) using bp2 c p sc by simp
      then show ?thesis using False sw2 schedule_callback_wf [OF sw2] True w c p bp2 use2 cbs pool_wfI [OF bp2(2)]
        by (simp add: base_wf_def callbacks_def)
    next
      case full: False
      then have "zb_free_buf b g = Some (g\<lparr>bpool := bp2, sched := ?s2\<rparr>)"
        unfolding pre c(1) using bp2 c p sc by simp
      then show ?thesis using False sw2 full w c p bp2 use2 cbs pool_wfI [OF bp2(2)]
        by (simp add: base_wf_def callbacks_def)
    qed
  qed
qed

text \<open>
  \<^verbatim>\<open>zb_free_buf\<close> on a buffer in use: without a waiting callback of its direction (or for an
  input buffer while the MAC needs one) the buffer becomes free. Otherwise it stays in use,
  the first waiting callback of the same direction leaves its queue and is scheduled with
  this buffer, first in, first out; and all invariants hold again.
\<close>

theorem zb_free_buf_hands_over:
  assumes wf: "base_wf g" and use: "buf_in_use b (bpool g)"
    and d: "d = b_is_in_buf (bp_pool (bpool g) ! b)"
  shows "\<exists>g'. zb_free_buf b g = Some g' \<and> base_wf g' \<and> alarms (sched g') = alarms (sched g)
    \<and> (if d \<and> rx_need_buf g \<or> dir_waiters d (sched g) = []
       then \<not> buf_in_use b (bpool g') \<and> sched g' = sched g
         \<and> bufs_allocated (bpool g') ! of_bool d = bufs_allocated (bpool g) ! of_bool d - 1
       else buf_in_use b (bpool g') \<and> bufs_allocated (bpool g') = bufs_allocated (bpool g)
         \<and> dir_waiters d (sched g') = tl (dir_waiters d (sched g))
         \<and> dir_waiters (\<not> d) (sched g') = dir_waiters (\<not> d) (sched g)
         \<and> callbacks (sched g') = callbacks (sched g) @
             (if length (callbacks (sched g)) < 16
              then [\<lparr>cb_func = hd (dir_waiters d (sched g)), cb_param = of_nat b\<rparr>] else []))"
  using assms by (rule free_buf_spec)

section \<open>Initialisation\<close>

definition zero_buf :: zb_buf where
  "zero_buf = \<lparr>b_len = 0, b_data_offset = 0, b_handle = 0, b_mac_hdr_offset = 0, b_status = 0,
     b_is_in_buf = False, b_encrypt_type = 0, b_use_same_key = False, b_zdo_cmd_no_resp = False,
     b_mhr_len = 0, b_buf = replicate ZB_IO_BUF_SIZE 0\<rparr>"

definition pool_zero :: zb_buf_pool where
  "pool_zero = \<lparr>bp_pool = replicate 16 zero_buf, bp_next = zero_links, bp_head = None,
     bufs_allocated = [0, 0]\<rparr>"

lemma link_pool_other: "x < p \<Longrightarrow> l_next (link_pool n p L) x = l_next L x"
  by (induction n arbitrary: p L) auto

lemma link_pool_seg: "seg (l_next (link_pool n p L)) (Some p) [p..<p + n + 1] None"
proof (induction n arbitrary: p L)
  case (Suc n)
  have "l_next (link_pool (Suc n) p L) p = Some (p + 1)" by (simp add: link_pool_other)
  moreover have "[p..<p + Suc n + 1] = p # [p + 1..<(p + 1) + n + 1]"
    by (simp add: upt_conv_Cons del: upt_Suc)
  ultimately show ?case
    using Suc [of "p + 1" "set_next p (Some (p + 1)) L"] by (simp del: upt_Suc)
qed simp

lemma init_buffers_rep: "pool_rep (zb_init_buffers pool_zero) [0..<16]"
proof -
  have "seg (l_next (link_pool 15 0 zero_links)) (Some 0) [0..<16] None"
    using link_pool_seg [of 15 0 zero_links] by simp
  moreover have "dir_bufs bp [0..<16] d = {}" for bp d by (auto simp: dir_bufs_def)
  ultimately show ?thesis
    by (auto simp: pool_rep_def zb_init_buffers_def pool_zero_def stk_def ZB_IOBUF_POOL_SIZE_def
        of_bool_def)
qed

text \<open>
  \<^verbatim>\<open>zb_init_buffers\<close> on zero-initialised globals makes all 16 buffers free and the pool
  well-formed, and calling it again changes nothing.
\<close>

theorem zb_init_buffers_establishes_wf:
  "pool_wf (zb_init_buffers pool_zero) \<and> free_bufs (zb_init_buffers pool_zero) = [0..<16]
   \<and> zb_init_buffers (zb_init_buffers pool_zero) = zb_init_buffers pool_zero"
proof -
  have "bp_head (zb_init_buffers pool_zero) \<noteq> None" by (simp add: zb_init_buffers_def)
  then have "zb_init_buffers (zb_init_buffers pool_zero) = zb_init_buffers pool_zero"
    by (subst zb_init_buffers_def) simp
  then show ?thesis using init_buffers_rep pool_rep_free pool_wfI by blast
qed

definition demo_base :: zb_globals_b where
  "demo_base = \<lparr>sched = zb_sched_init sched_zero,
     timer = \<lparr>timer_stop = 0, tm_now = 65530, tm_started = False\<rparr>,
     bpool = zb_init_buffers pool_zero, rx_need_buf = False\<rparr>"

lemma demo_base_wf [simp]:
  "base_wf demo_base" "sched_wf (sched demo_base)" "pool_wf (bpool demo_base)"
  "bufs_allocated (bpool demo_base) = [0, 0]" "callbacks (sched demo_base) = []"
  "dir_waiters d (sched demo_base) = []" "rx_need_buf demo_base = False"
  "tm_now (timer demo_base) = 65530" "alarms (sched demo_base) = []"
  "free_bufs (bpool demo_base) = [0..<16]"
proof -
  have "sched_wf (zb_sched_init sched_zero) \<and> alarms (zb_sched_init sched_zero) = []
    \<and> in_waiters (zb_sched_init sched_zero) = [] \<and> out_waiters (zb_sched_init sched_zero) = []"
    by (rule sched_init_wf) (simp_all add: sched_zero_def sched_consts zero_ring_def ring_wf_def)
  moreover have "callbacks (zb_sched_init sched_zero) = []"
    by (simp add: callbacks_def zb_sched_init_def sched_zero_def zero_ring_def split: prod.splits)
  moreover have "bufs_allocated (zb_init_buffers pool_zero) = [0, 0]"
    by (simp add: zb_init_buffers_def pool_zero_def)
  ultimately show "base_wf demo_base" "sched_wf (sched demo_base)" "pool_wf (bpool demo_base)"
    "bufs_allocated (bpool demo_base) = [0, 0]" "callbacks (sched demo_base) = []"
    "dir_waiters d (sched demo_base) = []" "rx_need_buf demo_base = False"
    "tm_now (timer demo_base) = 65530" "alarms (sched demo_base) = []"
    "free_bufs (bpool demo_base) = [0..<16]"
    using init_buffers_rep pool_rep_free pool_wfI
    by (auto simp: demo_base_def base_wf_def dir_waiters_def)
qed

theorem zb_get_buf_no_starvation_witness:
  "\<exists>bp' b. zb_get_buf True (bpool demo_base) = Some (bp', Some b) \<and> bufs_allocated bp' ! 1 = 1"
  using zb_get_buf_no_starvation [of "bpool demo_base" True] by auto

text \<open>
  \<^verbatim>\<open>zb_get_buf_delayed\<close>: below the limit of the direction it takes a buffer and schedules the
  callback with it; at the limit it appends the callback to the waiting queue of the
  direction, or returns \<^verbatim>\<open>RET_ERROR\<close> when all 16 queue entries are used. When the callback queue
  is full it returns \<^verbatim>\<open>RET_OVERFLOW\<close>, and the buffer it took stays in use although no
  callback was given it.
\<close>

theorem zb_get_buf_delayed_spec:
  assumes wf: "base_wf g"
  shows "\<exists>g' ret. zb_get_buf_delayed cb d g = Some (g', ret) \<and> base_wf g'
    \<and> (if bufs_allocated (bpool g) ! of_bool d < 8
       then (\<exists>b. \<not> buf_in_use b (bpool g) \<and> (\<forall>c. buf_in_use c (bpool g') = (buf_in_use c (bpool g) \<or> c = b))
           \<and> dir_waiters d (sched g') = dir_waiters d (sched g)
           \<and> (if length (callbacks (sched g)) < 16
              then ret = RET_OK \<and> callbacks (sched g') = callbacks (sched g) @ [\<lparr>cb_func = cb, cb_param = of_nat b\<rparr>]
              else ret = RET_OVERFLOW \<and> callbacks (sched g') = callbacks (sched g)))
       else bpool g' = bpool g \<and> callbacks (sched g') = callbacks (sched g)
         \<and> (if length (dir_waiters d (sched g)) + length (dir_waiters (\<not> d) (sched g)) < 16
            then ret = RET_OK \<and> dir_waiters d (sched g') = dir_waiters d (sched g) @ [cb]
              \<and> dir_waiters (\<not> d) (sched g') = dir_waiters (\<not> d) (sched g)
            else ret = RET_ERROR \<and> g' = g))"
proof (cases "bufs_allocated (bpool g) ! of_bool d < 8")
  case True
  have r: "pool_rep (bpool g) (free_bufs (bpool g))" and sw: "sched_wf (sched g)"
    using wf by (simp_all add: base_wf_def pool_wf_def)
  obtain b fr bp' where b: "free_bufs (bpool g) = b # fr" "b < 16"
    "zb_get_buf d (bpool g) = Some (bp', Some b)" "pool_rep bp' fr"
    using get_buf_ok [OF r True] by auto
  have "b \<notin> set fr" using r b by (simp add: pool_rep_def stk_def)
  then have use: "\<not> buf_in_use b (bpool g)" "\<forall>c. buf_in_use c bp' = (buf_in_use c (bpool g) \<or> c = b)"
    using b pool_rep_free [OF b(4)] by (auto simp: buf_in_use_def)
  have "zb_get_buf_delayed cb d g = zb_schedule_callback cb (of_nat b) (g\<lparr>bpool := bp'\<rparr>)"
    using b by (simp add: zb_get_buf_delayed_def)
  also have "\<dots> = (if length (callbacks (sched g)) < 16
      then Some (g\<lparr>sched := (sched g)\<lparr>cb_q := ZB_RING_BUFFER_PUT \<lparr>cb_func = cb, cb_param = of_nat b\<rparr>
        (cb_q (sched g))\<rparr>, bpool := bp'\<rparr>, RET_OK) else Some (g\<lparr>bpool := bp'\<rparr>, RET_OVERFLOW))"
    using schedule_callback_spec [of "g\<lparr>bpool := bp'\<rparr>" cb "of_nat b"] sw unat8_ref [OF b(2)] b(2) by simp
  finally show ?thesis
    using True use schedule_callback_wf [OF sw] sw pool_wfI [OF b(4)] by (auto simp: base_wf_def)
next
  case False
  have r: "pool_rep (bpool g) (free_bufs (bpool g))" and sw: "sched_wf (sched g)"
    using wf by (simp_all add: base_wf_def pool_wf_def)
  have "bufs_allocated (bpool g) ! of_bool d = 8"
    using False pool_rep_dir(2) [OF r, of d] by simp
  note lim = get_buf_limit [OF r this]
  obtain iq oq bf where bq: "bq_rep [] (sched g) iq oq bf" using sw by (auto simp: sched_wf_def)
  have cnt: "length (dir_waiters d (sched g)) + length (dir_waiters (\<not> d) (sched g)) + length bf = 16"
    using bq_rep_count [OF bq] dir_waiters_rep [OF bq] by (cases d) simp_all
  show ?thesis
  proof (cases bf)
    case Nil
    then have "stk (buf_links (sched g)) (buf_freelist (sched g)) []" using bq by (simp add: bq_rep_def)
    then have "zb_get_buf_delayed cb d g = Some (g, RET_ERROR)"
      using lim stk_pop_empty by (simp add: zb_get_buf_delayed_def)
    then show ?thesis using False cnt Nil wf by simp
  next
    case (Cons e bf')
    obtain fl where fl: "ZB_STK_POP (buf_links (sched g)) (buf_freelist (sched g)) = (fl, Some e)" and
      p: "let s' = put_waiter d e ((sched g)\<lparr>buf_freelist := fl, delayed_buf := (delayed_buf (sched g))[e := cb]\<rparr>) in
      (\<exists>iq' oq'. bq_rep [] s' iq' oq' bf') \<and> dir_waiters d s' = dir_waiters d (sched g) @ [cb]
      \<and> dir_waiters (\<not> d) s' = dir_waiters (\<not> d) (sched g)
      \<and> cb_q s' = cb_q (sched g) \<and> mac_tx_q s' = mac_tx_q (sched g)
      \<and> (\<forall>D. tm_rep D s' = tm_rep D (sched g)) \<and> alarms s' = alarms (sched g)"
      using put_waiter_spec [of "sched g" iq oq e bf' d cb] bq Cons by blast
    let ?s = "put_waiter d e ((sched g)\<lparr>buf_freelist := fl, delayed_buf := (delayed_buf (sched g))[e := cb]\<rparr>)"
    have sw': "sched_wf ?s" using p sched_wf_bq [OF sw] by (auto simp: Let_def)
    have "zb_get_buf_delayed cb d g = Some (g\<lparr>sched := ?s\<rparr>, RET_OK)"
      using lim fl by (simp add: zb_get_buf_delayed_def Let_def)
    then show ?thesis using False cnt Cons wf sw' p
      by (auto simp: base_wf_def callbacks_def Let_def)
  qed
qed

theorem zb_get_buf_delayed_spec_witness:
  "\<exists>g' ret b. zb_get_buf_delayed Cb_zb_nwk_forward False demo_base = Some (g', ret) \<and> ret = RET_OK
    \<and> callbacks (sched g') = [\<lparr>cb_func = Cb_zb_nwk_forward, cb_param = of_nat b\<rparr>]
    \<and> buf_in_use b (bpool g')"
  using zb_get_buf_delayed_spec [of demo_base Cb_zb_nwk_forward False] by auto

definition demo_used :: zb_globals_b where
  "demo_used = demo_base\<lparr>bpool := fst (the (zb_get_buf False (bpool demo_base)))\<rparr>"

lemma demo_used_wf:
  "base_wf demo_used" "buf_in_use 0 (bpool demo_used)" "b_is_in_buf (bp_pool (bpool demo_used) ! 0) = False"
  "sched demo_used = sched demo_base"
proof -
  have r: "pool_rep (bpool demo_base) [0..<16]" using init_buffers_rep by (simp add: demo_base_def)
  have "bufs_allocated (bpool demo_base) ! of_bool False < 8" by simp
  from get_buf_ok [OF r this] obtain bp' where
    "zb_get_buf False (bpool demo_base) = Some (bp', Some 0)" "pool_rep bp' (tl [0..<16])"
    "bp_pool bp' = (bp_pool (bpool demo_base))[0 := (buf_bzero_hdr (bp_pool (bpool demo_base) ! 0))\<lparr>b_is_in_buf := False\<rparr>]"
    by (metis list.sel(1) list.sel(3) upt_rec zero_less_numeral)
  moreover have "length (bp_pool (bpool demo_base)) = 16" using r by (simp add: pool_rep_def)
  ultimately show "base_wf demo_used" "buf_in_use 0 (bpool demo_used)"
    "b_is_in_buf (bp_pool (bpool demo_used) ! 0) = False" "sched demo_used = sched demo_base"
    using pool_wfI pool_rep_free
    by (auto simp: demo_used_def base_wf_def buf_in_use_def)
qed

theorem zb_free_buf_hands_over_witness:
  "\<exists>g'. zb_free_buf 0 demo_used = Some g' \<and> \<not> buf_in_use 0 (bpool g')"
  using zb_free_buf_hands_over [of demo_used 0 False] demo_used_wf by auto

end
