(* ===== verification/Zb_Addr.thy ===== *)
theory Zb_Addr
  imports Zb_Prelude
begin

text \<open>
  The address translation tables: \<^verbatim>\<open>common/zb_address.c\<close>, \<^verbatim>\<open>include/zb_address.h\<close> and
  \<^verbatim>\<open>include/zb_addr_globals.h\<close>, in the configuration without \<^verbatim>\<open>ZB_LIMITED_FEATURES\<close>. This theory
  holds the state and the operations; the theories \<open>Zb_Addr_Facts\<close> and \<open>Zb_Addr_Props\<close> hold the
  lemmas. An output parameter \<^verbatim>\<open>ref_p\<close> is an \<open>option\<close>, \<open>None\<close> where the code leaves it unset.
  Reads and writes outside an array give \<open>None\<close> for the whole operation.
\<close>

section \<open>Configuration and data\<close>

definition ZB_DEV_MANUFACTORER_TABLE_SIZE :: nat where "ZB_DEV_MANUFACTORER_TABLE_SIZE = 16"

definition ZB_IEEE_ADDR_TABLE_SIZE :: nat where "ZB_IEEE_ADDR_TABLE_SIZE = 101"

definition ZB_PANID_TABLE_SIZE :: nat where "ZB_PANID_TABLE_SIZE = 8"

definition ZB_UNKNOWN_SHORT_ADDR :: zb_uint16_t where "ZB_UNKNOWN_SHORT_ADDR = -1"

lemmas addr_consts = ZB_DEV_MANUFACTORER_TABLE_SIZE_def ZB_IEEE_ADDR_TABLE_SIZE_def
  ZB_PANID_TABLE_SIZE_def ZB_UNKNOWN_SHORT_ADDR_def

type_synonym zb_ieee_addr_t = "zb_uint8_t list"

record zb_ieee_addr_compressed =
  ca_manufacturer :: nat
  ca_device_id :: "zb_uint8_t list"

record zb_address_map =
  am_ieee :: zb_ieee_addr_compressed
  am_addr :: zb_uint16_t
  am_dup_counter :: zb_uint8_t
  am_used :: bool
  am_lock_cnt :: "4 word"
  am_clock :: bool
  am_dup_clock :: "2 word"

record zb_pan_id_map =
  pm_long_panid :: "zb_uint8_t list"
  pm_short_panid :: zb_uint16_t

record zb_addr_globals =
  used_manufacturer :: "zb_uint8_t list"
  dev_manufacturer :: "zb_uint8_t list list"
  pan_map :: "zb_pan_id_map list"
  used_pan_addr :: "zb_uint8_t list"
  addr_map :: "zb_address_map list"
  short_sorted :: "nat list"
  n_elements :: nat
  n_sorted_elements :: nat
  clock_i :: nat

definition upd_ent :: "nat \<Rightarrow> (zb_address_map \<Rightarrow> zb_address_map) \<Rightarrow> zb_addr_globals \<Rightarrow> zb_addr_globals option" where
  "upd_ent r f A = do {
     e \<leftarrow> aget (addr_map A) r;
     Some (A\<lparr>addr_map := (addr_map A)[r := f e]\<rparr>) }"

section \<open>PAN identifiers\<close>

definition ZB_ADDRESS_PAN_ID_HASH :: "zb_uint8_t list \<Rightarrow> nat" where
  "ZB_ADDRESS_PAN_ID_HASH pan_id =
     unat (ZB_4INT_HASH_FUNC (ucast (pan_id ! 0)) (ucast (pan_id ! 2)) (ucast (pan_id ! 4))
       (ucast (pan_id ! 6))) mod ZB_PANID_TABLE_SIZE"

text \<open>The \<^verbatim>\<open>do\<close> loops visit at most 8 slots; the first argument counts them.\<close>

fun pan_set_loop :: "nat \<Rightarrow> zb_addr_globals \<Rightarrow> zb_uint8_t list \<Rightarrow> nat \<Rightarrow> nat \<Rightarrow> nat option
    \<Rightarrow> nat option \<times> nat option" where
  "pan_set_loop 0 A pan_id h_i i free_i = (None, free_i)"
| "pan_set_loop (Suc n) A pan_id h_i i free_i =
     (if zb_check_bit_in_bit_vector (used_pan_addr A) i \<and> pm_long_panid (pan_map A ! i) = pan_id
      then (Some i, free_i)
      else
        let free' = (if zb_check_bit_in_bit_vector (used_pan_addr A) i then free_i else Some i);
            i' = (i + 1) mod ZB_PANID_TABLE_SIZE
        in if i' \<noteq> h_i then pan_set_loop n A pan_id h_i i' free' else (None, free'))"

definition zb_address_set_pan_id ::
    "zb_uint16_t \<Rightarrow> zb_uint8_t list \<Rightarrow> zb_addr_globals \<Rightarrow> zb_addr_globals \<times> zb_ret_t \<times> nat option" where
  "zb_address_set_pan_id short_pan_id pan_id A =
     (let h_i = ZB_ADDRESS_PAN_ID_HASH pan_id in
      case pan_set_loop ZB_PANID_TABLE_SIZE A pan_id h_i h_i None of
        (Some i, _) \<Rightarrow> (A, RET_ALREADY_EXISTS, Some i)
      | (None, Some f) \<Rightarrow>
          (A\<lparr>pan_map := (pan_map A)[f := \<lparr>pm_long_panid = pan_id, pm_short_panid = short_pan_id\<rparr>],
             used_pan_addr := zb_set_bit_in_bit_vector (used_pan_addr A) f\<rparr>, RET_OK, Some f)
      | (None, None) \<Rightarrow> (A, RET_OVERFLOW, None))"

definition pan_ref_ok :: "zb_addr_globals \<Rightarrow> nat \<Rightarrow> bool" where
  "pan_ref_ok A ref \<longleftrightarrow> ref < ZB_PANID_TABLE_SIZE \<and> zb_check_bit_in_bit_vector (used_pan_addr A) ref"

definition zb_address_get_pan_id :: "nat \<Rightarrow> zb_addr_globals \<Rightarrow> zb_uint8_t list option" where
  "zb_address_get_pan_id ref A = do {
     zb_assert (pan_ref_ok A ref);
     Some (pm_long_panid (pan_map A ! ref)) }"

fun pan_ref_loop :: "nat \<Rightarrow> zb_addr_globals \<Rightarrow> zb_uint8_t list \<Rightarrow> nat \<Rightarrow> nat \<Rightarrow> nat option" where
  "pan_ref_loop 0 A pan_id h_i i = None"
| "pan_ref_loop (Suc n) A pan_id h_i i =
     (if zb_check_bit_in_bit_vector (used_pan_addr A) i \<and> pm_long_panid (pan_map A ! i) = pan_id
      then Some i
      else let i' = (i + 1) mod ZB_PANID_TABLE_SIZE
        in if i' \<noteq> h_i then pan_ref_loop n A pan_id h_i i' else None)"

definition zb_address_get_pan_id_ref :: "zb_uint8_t list \<Rightarrow> zb_addr_globals \<Rightarrow> zb_ret_t \<times> nat option" where
  "zb_address_get_pan_id_ref pan_id A =
     (let h_i = ZB_ADDRESS_PAN_ID_HASH pan_id in
      case pan_ref_loop ZB_PANID_TABLE_SIZE A pan_id h_i h_i of
        Some i \<Rightarrow> (RET_OK, Some i) | None \<Rightarrow> (RET_NOT_FOUND, None))"

definition zb_address_get_short_pan_id :: "nat \<Rightarrow> zb_addr_globals \<Rightarrow> zb_uint16_t option" where
  "zb_address_get_short_pan_id ref A = do {
     zb_assert (pan_ref_ok A ref);
     Some (pm_short_panid (pan_map A ! ref)) }"

definition zb_address_cmp_pan_id_by_ref :: "nat \<Rightarrow> zb_uint8_t list \<Rightarrow> zb_addr_globals \<Rightarrow> bool option" where
  "zb_address_cmp_pan_id_by_ref ref pan_id A = do {
     zb_assert (pan_ref_ok A ref);
     Some (pan_id = pm_long_panid (pan_map A ! ref)) }"

section \<open>Compressed IEEE addresses\<close>

fun manuf_scan :: "nat \<Rightarrow> zb_addr_globals \<Rightarrow> zb_uint8_t list \<Rightarrow> nat \<Rightarrow> nat \<Rightarrow> nat \<times> nat" where
  "manuf_scan 0 A m i free_i = (i, free_i)"
| "manuf_scan (Suc n) A m i free_i =
     (if zb_check_bit_in_bit_vector (used_manufacturer A) i then
        (if dev_manufacturer A ! i = m then (i, free_i) else manuf_scan n A m (i + 1) free_i)
      else manuf_scan n A m (i + 1) i)"

definition zb_ieee_addr_compress ::
    "zb_ieee_addr_t \<Rightarrow> zb_addr_globals \<Rightarrow> (zb_addr_globals \<times> zb_ieee_addr_compressed) option" where
  "zb_ieee_addr_compress address A = do {
     let (i0, free_i) = manuf_scan ZB_DEV_MANUFACTORER_TABLE_SIZE A (take 3 address) 0
       ZB_DEV_MANUFACTORER_TABLE_SIZE;
     let i = (if i0 = ZB_DEV_MANUFACTORER_TABLE_SIZE then free_i else i0);
     zb_assert (i \<noteq> ZB_DEV_MANUFACTORER_TABLE_SIZE);
     Some (A\<lparr>used_manufacturer := zb_set_bit_in_bit_vector (used_manufacturer A) i,
             dev_manufacturer := (dev_manufacturer A)[i := take 3 address]\<rparr>,
           \<lparr>ca_manufacturer = i, ca_device_id = take 5 (drop 3 address)\<rparr>) }"

definition zb_ieee_addr_decompress :: "zb_ieee_addr_compressed \<Rightarrow> zb_addr_globals \<Rightarrow> zb_ieee_addr_t option" where
  "zb_ieee_addr_decompress c A = do {
     m \<leftarrow> aget (dev_manufacturer A) (ca_manufacturer c);
     Some (m @ ca_device_id c) }"

definition zb_address_compressed_ieee_hash :: "zb_ieee_addr_compressed \<Rightarrow> nat" where
  "zb_address_compressed_ieee_hash c =
     unat (ZB_4INT_HASH_FUNC (ucast (ca_device_id c ! 0)) (ucast (ca_device_id c ! 2))
       (ucast (ca_device_id c ! 3)) (ucast (ca_device_id c ! 4))) mod ZB_IEEE_ADDR_TABLE_SIZE"

definition zb_address_compressed_cmp :: "zb_ieee_addr_compressed \<Rightarrow> zb_ieee_addr_compressed \<Rightarrow> bool" where
  "zb_address_compressed_cmp one two \<longleftrightarrow>
     ca_manufacturer one = ca_manufacturer two \<and> ca_device_id one = ca_device_id two"

definition magic_bitcount8 :: "zb_uint8_t \<Rightarrow> zb_uint8_t" where
  "magic_bitcount8 b0 =
     (let b1 = (b0 AND 0x55) + (drop_bit 1 b0 AND 0x55);
          b2 = (b1 AND 0x33) + (drop_bit 2 b1 AND 0x33)
      in (b2 AND 0x0f) + (drop_bit 4 b2 AND 0x0f))"

section \<open>Searches\<close>

fun ieee_search_loop :: "nat \<Rightarrow> zb_addr_globals \<Rightarrow> zb_ieee_addr_compressed \<Rightarrow> nat \<Rightarrow> nat option" where
  "ieee_search_loop 0 A c i = None"
| "ieee_search_loop (Suc cnt) A c i =
     (if am_used (addr_map A ! i) \<and> zb_address_compressed_cmp (am_ieee (addr_map A ! i)) c then Some i
      else ieee_search_loop cnt A c ((i + 1) mod ZB_IEEE_ADDR_TABLE_SIZE))"

definition ieee_search :: "zb_ieee_addr_compressed \<Rightarrow> zb_addr_globals \<Rightarrow> nat option" where
  "ieee_search c A = ieee_search_loop ZB_IEEE_ADDR_TABLE_SIZE A c (zb_address_compressed_ieee_hash c)"

text \<open>\<^verbatim>\<open>ZG->addr.addr_map[ZG->addr.short_sorted[i]].addr\<close>\<close>

definition sorted_addr :: "zb_addr_globals \<Rightarrow> nat \<Rightarrow> zb_uint16_t option" where
  "sorted_addr A i = do {
     r \<leftarrow> aget (short_sorted A) i;
     e \<leftarrow> aget (addr_map A) r;
     Some (am_addr e) }"

text \<open>
  The bisection that \<^verbatim>\<open>short_search\<close> and \<^verbatim>\<open>add_short_sorted\<close> share: \<open>get i\<close> reads the address at
  position \<open>i\<close>, and \<open>right\<close> is the comparison that moves the left bound.
\<close>

function bisect :: "(nat \<Rightarrow> 'x option) \<Rightarrow> ('x \<Rightarrow> bool) \<Rightarrow> nat \<Rightarrow> nat \<Rightarrow> nat option" where
  "bisect get right l r =
     (if l < r then do {
        let i = l + (r - l) div 2;
        x \<leftarrow> get i;
        if right x then bisect get right (i + 1) r else bisect get right l i }
      else Some l)"
  by pat_completeness auto
termination by (relation "measure (\<lambda>(get, right, l, r). r - l)") auto

declare bisect.simps [simp del]

definition search_loop :: "zb_addr_globals \<Rightarrow> zb_uint16_t \<Rightarrow> nat \<Rightarrow> nat \<Rightarrow> nat option" where
  "search_loop A a l r = bisect (sorted_addr A) (\<lambda>x. a > x) l r"

definition short_search :: "zb_uint16_t \<Rightarrow> zb_addr_globals \<Rightarrow> nat option option" where
  "short_search short_addr A = do {
     l \<leftarrow> (if n_sorted_elements A > 1 then search_loop A short_addr 0 (n_sorted_elements A) else Some 0);
     if n_sorted_elements A > 0 \<and> l < n_sorted_elements A then do {
       x \<leftarrow> sorted_addr A l;
       if short_addr = x then map_option Some (aget (short_sorted A) l) else Some None }
     else Some None }"

section \<open>Updates\<close>

fun del_loop :: "nat \<Rightarrow> nat \<Rightarrow> nat \<Rightarrow> nat \<Rightarrow> nat list \<Rightarrow> nat \<Rightarrow> (nat list \<times> nat) option" where
  "del_loop 0 ref n i ss dec = Some (ss, dec)"
| "del_loop (Suc fuel) ref n i ss dec =
     (if i < n then do {
        x \<leftarrow> aget ss i;
        if x = ref then do {
          ss' \<leftarrow> (if i \<noteq> n - 1 then memmove ss i (i + 1) (n - i) else Some ss);
          del_loop fuel ref n (i + 1) ss' (dec + 1) }
        else del_loop fuel ref n (i + 1) ss dec }
      else Some (ss, dec))"

text \<open>The loop runs \<open>n_sorted_elements\<close> times, which is also the fuel it is given.\<close>

definition del_short_sorted :: "nat \<Rightarrow> zb_addr_globals \<Rightarrow> zb_addr_globals option" where
  "del_short_sorted ref A = do {
     (ss, dec) \<leftarrow> del_loop (n_sorted_elements A) ref (n_sorted_elements A) 0 (short_sorted A) 0;
     Some (A\<lparr>short_sorted := ss,
       n_sorted_elements := (n_sorted_elements A + 2 ^ 32 - dec) mod 2 ^ 32\<rparr>) }"

definition place_loop :: "zb_addr_globals \<Rightarrow> zb_uint16_t \<Rightarrow> nat \<Rightarrow> nat \<Rightarrow> nat option" where
  "place_loop A a l r = bisect (sorted_addr A) (\<lambda>x. a \<ge> x) l r"

definition add_short_sorted :: "nat \<Rightarrow> zb_uint16_t \<Rightarrow> zb_addr_globals \<Rightarrow> zb_addr_globals option" where
  "add_short_sorted ref short_addr A = do {
     let n = n_sorted_elements A;
     l0 \<leftarrow> (if n > 1 then place_loop A short_addr 0 n else Some 0);
     l \<leftarrow> (if n > 0 \<and> l0 < n then do {
             x \<leftarrow> sorted_addr A l0;
             Some (if short_addr > x then l0 + 1 else l0) }
           else Some l0);
     ss \<leftarrow> (if l < n then memmove (short_sorted A) (l + 1) l (n - l) else Some (short_sorted A));
     zb_assert (l < length ss);
     Some (A\<lparr>short_sorted := ss[l := ref mod 256], n_sorted_elements := inc32 n\<rparr>) }"

function clock_scan :: "nat \<Rightarrow> zb_addr_globals \<Rightarrow> nat \<Rightarrow> (zb_addr_globals \<times> nat \<times> bool) option" where
  "clock_scan bound A cnt =
     (if clock_i A < bound \<and> cnt < n_elements A then do {
        let i = clock_i A;
        e \<leftarrow> aget (addr_map A) i;
        let A1 = A\<lparr>clock_i := i + 1\<rparr>;
        if am_used e then
          (if am_lock_cnt e = 0
           then Some (A1\<lparr>addr_map := (addr_map A1)[i := e\<lparr>am_clock := False\<rparr>]\<rparr>, cnt + 1, True)
           else clock_scan bound A1 (cnt + 1))
        else clock_scan bound A1 cnt }
      else Some (A, cnt, False))"
  by pat_completeness auto
termination by (relation "measure (\<lambda>(bound, A, cnt). bound - clock_i A)") auto

declare clock_scan.simps [simp del]

definition clock_tick :: "zb_addr_globals \<Rightarrow> zb_addr_globals option" where
  "clock_tick A = do {
     let limit = clock_i A;
     (A1, cnt, found) \<leftarrow> clock_scan ZB_IEEE_ADDR_TABLE_SIZE A 0;
     if \<not> found \<and> cnt < n_elements A1 then do {
       (A2, _, _) \<leftarrow> clock_scan limit (A1\<lparr>clock_i := 0\<rparr>) cnt;
       Some A2 }
     else Some A1 }"

fun free_search :: "nat \<Rightarrow> zb_addr_globals \<Rightarrow> nat \<Rightarrow> nat \<Rightarrow> nat option" where
  "free_search 0 A i i_end = None"
| "free_search (Suc n) A i i_end =
     (if \<not> am_used (addr_map A ! i) then Some i
      else let i' = (i + 1) mod ZB_IEEE_ADDR_TABLE_SIZE
        in if i' \<noteq> i_end then free_search n A i' i_end else None)"

definition zero_compressed :: zb_ieee_addr_compressed where
  "zero_compressed = \<lparr>ca_manufacturer = 0, ca_device_id = [0, 0, 0, 0, 0]\<rparr>"

definition addr_add ::
    "zb_ieee_addr_compressed option \<Rightarrow> zb_uint16_t \<Rightarrow> zb_addr_globals
     \<Rightarrow> (zb_addr_globals \<times> zb_ret_t \<times> nat option) option" where
  "addr_add ieee short_addr A =
     (let i0 = (case ieee of Some c \<Rightarrow> zb_address_compressed_ieee_hash c | None \<Rightarrow> 0) in
      case free_search ZB_IEEE_ADDR_TABLE_SIZE A i0 i0 of
        None \<Rightarrow> Some (A, RET_OVERFLOW, None)
      | Some i \<Rightarrow> do {
          A1 \<leftarrow> clock_tick A;
          A2 \<leftarrow> upd_ent i (\<lambda>e. e\<lparr>am_addr := short_addr, am_clock := True,
            am_ieee := (case ieee of Some c \<Rightarrow> c | None \<Rightarrow> zero_compressed)\<rparr>) A1;
          e \<leftarrow> aget (addr_map A2) i;
          A3 \<leftarrow> (if short_addr \<noteq> ZB_UNKNOWN_SHORT_ADDR then do {
              A' \<leftarrow> (if am_used e then del_short_sorted i A2 else Some A2);
              add_short_sorted i short_addr A' }
            else Some A2);
          let A4 = A3\<lparr>n_elements := (if am_used e then n_elements A3 else inc32 (n_elements A3))\<rparr>;
          A5 \<leftarrow> upd_ent i (\<lambda>e. e\<lparr>am_used := True\<rparr>) A4;
          Some (A5, RET_OK, Some i) })"

definition zb_address_delete :: "nat \<Rightarrow> zb_addr_globals \<Rightarrow> zb_addr_globals option" where
  "zb_address_delete ref A = do {
     A1 \<leftarrow> del_short_sorted ref A;
     A2 \<leftarrow> upd_ent ref (\<lambda>e. e\<lparr>am_used := False\<rparr>) A1;
     Some (A2\<lparr>n_elements := dec32 (n_elements A2)\<rparr>) }"

definition zb_address_lock :: "nat \<Rightarrow> zb_addr_globals \<Rightarrow> zb_addr_globals option" where
  "zb_address_lock ref A = do {
     e \<leftarrow> aget (addr_map A) ref;
     zb_assert (am_lock_cnt e + 1 \<noteq> 0);
     upd_ent ref (\<lambda>e. e\<lparr>am_lock_cnt := am_lock_cnt e + 1, am_clock := True\<rparr>) A }"

definition zb_address_unlock :: "nat \<Rightarrow> zb_addr_globals \<Rightarrow> zb_addr_globals option" where
  "zb_address_unlock ref A = do {
     e \<leftarrow> aget (addr_map A) ref;
     zb_assert (am_lock_cnt e \<noteq> 0);
     upd_ent ref (\<lambda>e. e\<lparr>am_lock_cnt := am_lock_cnt e - 1\<rparr>) A }"

definition lock_if :: "bool \<Rightarrow> zb_addr_globals \<times> zb_ret_t \<times> nat option
    \<Rightarrow> (zb_addr_globals \<times> zb_ret_t \<times> nat option) option" where
  "lock_if lock res = (case res of (A, ret, ref) \<Rightarrow>
     if lock \<and> ret = RET_OK then do {
       r \<leftarrow> ref;
       A' \<leftarrow> zb_address_lock r A;
       Some (A', ret, ref) }
     else Some (A, ret, ref))"

definition zb_address_by_ieee :: "zb_ieee_addr_t \<Rightarrow> bool \<Rightarrow> bool \<Rightarrow> zb_addr_globals
    \<Rightarrow> (zb_addr_globals \<times> zb_ret_t \<times> nat option) option" where
  "zb_address_by_ieee ieee create lock A = do {
     (A1, c) \<leftarrow> zb_ieee_addr_compress ieee A;
     res \<leftarrow> (case ieee_search c A1 of
         Some r \<Rightarrow> do {
           A2 \<leftarrow> upd_ent r (\<lambda>e. e\<lparr>am_clock := True\<rparr>) A1;
           Some (A2, RET_OK, Some r) }
       | None \<Rightarrow> if create then addr_add (Some c) ZB_UNKNOWN_SHORT_ADDR A1
           else Some (A1, RET_NOT_FOUND, None));
     lock_if lock res }"

definition zb_address_by_short :: "zb_uint16_t \<Rightarrow> bool \<Rightarrow> bool \<Rightarrow> zb_addr_globals
    \<Rightarrow> (zb_addr_globals \<times> zb_ret_t \<times> nat option) option" where
  "zb_address_by_short short_address create lock A = do {
     found \<leftarrow> short_search short_address A;
     res \<leftarrow> (case found of
         Some r \<Rightarrow> do {
           A2 \<leftarrow> upd_ent r (\<lambda>e. e\<lparr>am_clock := True\<rparr>) A;
           Some (A2, RET_OK, Some r) }
       | None \<Rightarrow> if create then addr_add None short_address A
           else Some (A, RET_NOT_FOUND, None));
     lock_if lock res }"

text \<open>
  \<open>resolve_conflict\<close> is the part of \<^verbatim>\<open>zb_address_update\<close> for an address found in two different
  entries; its result is the entry to use.
\<close>

definition resolve_conflict :: "nat \<Rightarrow> nat \<Rightarrow> zb_addr_globals \<Rightarrow> (zb_addr_globals \<times> nat) option" where
  "resolve_conflict ref ref_long A = do {
     e \<leftarrow> aget (addr_map A) ref;
     el \<leftarrow> aget (addr_map A) ref_long;
     if am_lock_cnt e = 0 then do {
       A1 \<leftarrow> zb_address_delete ref A;
       Some (A1, ref_long) }
     else if am_lock_cnt el = 0 then do {
       A1 \<leftarrow> zb_address_delete ref_long A;
       Some (A1, ref) }
     else None }"

definition zb_address_update :: "zb_ieee_addr_t \<Rightarrow> zb_uint16_t \<Rightarrow> bool \<Rightarrow> zb_addr_globals
    \<Rightarrow> (zb_addr_globals \<times> zb_ret_t \<times> nat option) option" where
  "zb_address_update ieee_address short_address lock A = do {
     (A1, c) \<leftarrow> zb_ieee_addr_compress ieee_address A;
     found_short \<leftarrow> short_search short_address A1;
     let found_long = ieee_search c A1;
     (A2, sel) \<leftarrow> (case (found_short, found_long) of
         (Some ref, Some ref_long) \<Rightarrow>
           if ref \<noteq> ref_long then map_option (\<lambda>(A', r). (A', Some r)) (resolve_conflict ref ref_long A1)
           else Some (A1, Some ref)
       | (None, Some ref_long) \<Rightarrow> Some (A1, Some ref_long)
       | (Some ref, None) \<Rightarrow> Some (A1, Some ref)
       | (None, None) \<Rightarrow> Some (A1, None));
     res \<leftarrow> (case sel of
         Some ref \<Rightarrow> do {
           A3 \<leftarrow> upd_ent ref (\<lambda>e. e\<lparr>am_ieee := c\<rparr>) A2;
           e \<leftarrow> aget (addr_map A3) ref;
           A4 \<leftarrow> (if am_addr e \<noteq> short_address then do {
               A' \<leftarrow> (if am_addr e \<noteq> ZB_UNKNOWN_SHORT_ADDR then del_short_sorted ref A3 else Some A3);
               A'' \<leftarrow> upd_ent ref (\<lambda>e. e\<lparr>am_addr := short_address\<rparr>) A';
               add_short_sorted ref short_address A'' }
             else Some A3);
           A5 \<leftarrow> upd_ent ref (\<lambda>e. e\<lparr>am_clock := True\<rparr>) A4;
           Some (A5, RET_OK, Some ref) }
       | None \<Rightarrow> addr_add (Some c) short_address A2);
     lock_if lock res }"

section \<open>Reads\<close>

definition zb_address_by_ref :: "nat \<Rightarrow> zb_addr_globals \<Rightarrow> (zb_ieee_addr_t \<times> zb_uint16_t) option" where
  "zb_address_by_ref ref A = do {
     e \<leftarrow> aget (addr_map A) ref;
     a \<leftarrow> zb_ieee_addr_decompress (am_ieee e) A;
     Some (a, am_addr e) }"

definition zb_address_ieee_by_ref :: "nat \<Rightarrow> zb_addr_globals \<Rightarrow> zb_ieee_addr_t option" where
  "zb_address_ieee_by_ref ref A = do {
     e \<leftarrow> aget (addr_map A) ref;
     zb_ieee_addr_decompress (am_ieee e) A }"

definition zb_address_short_by_ref :: "nat \<Rightarrow> zb_addr_globals \<Rightarrow> zb_uint16_t option" where
  "zb_address_short_by_ref ref A = map_option am_addr (aget (addr_map A) ref)"

definition zb_address_short_by_ieee :: "zb_ieee_addr_t \<Rightarrow> zb_addr_globals \<Rightarrow> (zb_addr_globals \<times> zb_uint16_t) option" where
  "zb_address_short_by_ieee ieee A = do {
     (A1, ret, ref) \<leftarrow> zb_address_by_ieee ieee False False A;
     if ret = RET_OK then do {
       r \<leftarrow> ref;
       e \<leftarrow> aget (addr_map A1) r;
       Some (A1, am_addr e) }
     else Some (A1, -1) }"

definition zb_address_ieee_by_short :: "zb_uint16_t \<Rightarrow> zb_addr_globals
    \<Rightarrow> (zb_addr_globals \<times> zb_ret_t \<times> zb_ieee_addr_t option) option" where
  "zb_address_ieee_by_short short_addr A = do {
     (A1, ret, ref) \<leftarrow> zb_address_by_short short_addr False False A;
     if ret = RET_OK then do {
       r \<leftarrow> ref;
       e \<leftarrow> aget (addr_map A1) r;
       a \<leftarrow> zb_ieee_addr_decompress (am_ieee e) A1;
       Some (A1, RET_OK, Some a) }
     else Some (A1, RET_NOT_FOUND, None) }"

text \<open>The zero-initialised tables.\<close>

definition zero_ent :: zb_address_map where
  "zero_ent = \<lparr>am_ieee = zero_compressed, am_addr = 0, am_dup_counter = 0, am_used = False,
     am_lock_cnt = 0, am_clock = False, am_dup_clock = 0\<rparr>"

definition addr_zero :: zb_addr_globals where
  "addr_zero = \<lparr>used_manufacturer = replicate 3 0, dev_manufacturer = replicate 16 [0, 0, 0],
     pan_map = replicate 8 \<lparr>pm_long_panid = replicate 8 0, pm_short_panid = 0\<rparr>,
     used_pan_addr = replicate 2 0, addr_map = replicate 101 zero_ent,
     short_sorted = replicate 101 0, n_elements = 0, n_sorted_elements = 0, clock_i = 0\<rparr>"

end
