(* ===== verification/Zb_Addr_Facts.thy ===== *)
theory Zb_Addr_Facts
  imports Zb_Addr
begin

text \<open>
  Facts on the address tables of \<open>Zb_Addr\<close>: the invariant \<open>addr_wf\<close> (the table of sorted
  references lists exactly the used entries with a known short address, in strictly
  ascending order of the addresses, and the element counter is exact), the binary searches, the
  open-addressing searches and the clock algorithm.
\<close>

section \<open>The invariant\<close>

definition ent_addr :: "zb_addr_globals \<Rightarrow> nat \<Rightarrow> zb_uint16_t" where
  "ent_addr A r = am_addr (addr_map A ! r)"

definition ent_used :: "zb_addr_globals \<Rightarrow> nat \<Rightarrow> bool" where
  "ent_used A r \<longleftrightarrow> r < 101 \<and> am_used (addr_map A ! r)"

definition sorted_refs :: "zb_addr_globals \<Rightarrow> nat list" where
  "sorted_refs A = take (n_sorted_elements A) (short_sorted A)"

definition shorts :: "zb_addr_globals \<Rightarrow> zb_uint16_t list" where
  "shorts A = map (ent_addr A) (sorted_refs A)"

definition manuf_wf :: "zb_addr_globals \<Rightarrow> bool" where
  "manuf_wf A \<longleftrightarrow> length (used_manufacturer A) = 3 \<and> length (dev_manufacturer A) = 16
     \<and> (\<forall>m\<in>set (dev_manufacturer A). length m = 3)"

definition sizes_ok :: "zb_addr_globals \<Rightarrow> bool" where
  "sizes_ok A \<longleftrightarrow> length (addr_map A) = 101 \<and> length (short_sorted A) = 101
     \<and> n_sorted_elements A \<le> 101 \<and> clock_i A \<le> 101 \<and> manuf_wf A"

definition addr_wf :: "zb_addr_globals \<Rightarrow> bool" where
  "addr_wf A \<longleftrightarrow> sizes_ok A \<and> n_elements A = card {r. ent_used A r}
     \<and> distinct (sorted_refs A) \<and> set (sorted_refs A) = {r. ent_used A r \<and> ent_addr A r \<noteq> -1}
     \<and> sorted_wrt (<) (shorts A)"

lemma length_sorted_refs: "sizes_ok A \<Longrightarrow> length (sorted_refs A) = n_sorted_elements A"
  by (simp add: sizes_ok_def sorted_refs_def)

lemma length_shorts: "sizes_ok A \<Longrightarrow> length (shorts A) = n_sorted_elements A"
  by (simp add: shorts_def length_sorted_refs)

lemma finite_used [simp]: "finite {r. ent_used A r}" "finite {r. ent_used A r \<and> P r}"
  by (simp_all add: ent_used_def)

lemma sorted_addr_nth:
  assumes "sizes_ok A" "\<forall>r\<in>set (sorted_refs A). r < 101" "k < n_sorted_elements A"
  shows "sorted_addr A k = Some (shorts A ! k)" "aget (short_sorted A) k = Some (sorted_refs A ! k)"
proof -
  have "sorted_refs A ! k \<in> set (sorted_refs A)"
    using assms length_sorted_refs [of A] by (intro nth_mem) simp
  moreover have "short_sorted A ! k = sorted_refs A ! k"
    using assms by (simp add: sorted_refs_def)
  ultimately show "sorted_addr A k = Some (shorts A ! k)"
    "aget (short_sorted A) k = Some (sorted_refs A ! k)"
    using assms length_sorted_refs [of A] by (simp_all add: sorted_addr_def shorts_def ent_addr_def sizes_ok_def)
qed

section \<open>Binary search\<close>

text \<open>
  Both loops bisect the sorted references for the end of the prefix on which a downward
  closed predicate holds: smaller addresses, or addresses not larger.
\<close>

lemma bisect_spec:
  assumes get: "\<forall>k<n. get k = Some (S ! k)"
    and down: "\<forall>i j. i \<le> j \<and> j < n \<and> P (S ! j) \<longrightarrow> P (S ! i)"
  shows "l \<le> r \<Longrightarrow> r \<le> n \<Longrightarrow> \<forall>k<l. P (S ! k) \<Longrightarrow> \<forall>k. r \<le> k \<and> k < n \<longrightarrow> \<not> P (S ! k) \<Longrightarrow>
    \<exists>m. bisect get P l r = Some m \<and> m \<le> n \<and> (\<forall>k<m. P (S ! k)) \<and> (\<forall>k. m \<le> k \<and> k < n \<longrightarrow> \<not> P (S ! k))"
proof (induction "r - l" arbitrary: l r rule: less_induct)
  case less
  show ?case
  proof (cases "l < r")
    case False
    with less.prems show ?thesis by (subst bisect.simps) auto
  next
    case True
    let ?i = "l + (r - l) div 2"
    have i: "l \<le> ?i" "?i < r" "?i < n" using True less.prems(2) by auto
    then have x: "get ?i = Some (S ! ?i)" using get by blast
    show ?thesis
    proof (cases "P (S ! ?i)")
      case True
      have "\<forall>k<?i + 1. P (S ! k)" using down i(3) True by (auto simp: less_Suc_eq_le)
      then have "\<exists>m. bisect get P (?i + 1) r = Some m \<and> m \<le> n \<and> (\<forall>k<m. P (S ! k)) \<and> (\<forall>k. m \<le> k \<and> k < n \<longrightarrow> \<not> P (S ! k))"
        using less.hyps [of r "?i + 1"] less.prems i by simp
      then show ?thesis using x True \<open>l < r\<close> by (subst bisect.simps) (simp add: Let_def)
    next
      case False
      have "\<forall>k. ?i \<le> k \<and> k < n \<longrightarrow> \<not> P (S ! k)" using down False by blast
      then have "\<exists>m. bisect get P l ?i = Some m \<and> m \<le> n \<and> (\<forall>k<m. P (S ! k)) \<and> (\<forall>k. m \<le> k \<and> k < n \<longrightarrow> \<not> P (S ! k))"
        using less.hyps [of ?i l] less.prems i by simp
      then show ?thesis using x False \<open>l < r\<close> by (subst bisect.simps) (simp add: Let_def)
    qed
  qed
qed

lemma bisect_all:
  assumes "\<forall>k<n. get k = Some (S ! k)" "\<forall>i j. i \<le> j \<and> j < n \<and> P (S ! j) \<longrightarrow> P (S ! i)"
  shows "\<exists>m. bisect get P 0 n = Some m \<and> m \<le> n \<and> (\<forall>k<m. P (S ! k)) \<and> (\<forall>k. m \<le> k \<and> k < n \<longrightarrow> \<not> P (S ! k))"
  by (rule bisect_spec [OF assms]) auto

lemma addr_wf_sizes [simp]: "addr_wf A \<Longrightarrow> sizes_ok A"
  by (simp add: addr_wf_def)

lemma addr_wf_refs: "addr_wf A \<Longrightarrow> r \<in> set (sorted_refs A) \<Longrightarrow> r < 101"
  by (simp add: addr_wf_def ent_used_def)

text \<open>A reference for a short address: the entry in the sorted table with this address.\<close>

definition has_short :: "zb_addr_globals \<Rightarrow> zb_uint16_t \<Rightarrow> nat \<Rightarrow> bool" where
  "has_short A a r \<longleftrightarrow> r \<in> set (sorted_refs A) \<and> ent_addr A r = a"

lemma strict_sorted_le:
  "sorted_wrt (<) (xs :: zb_uint16_t list) \<Longrightarrow> i \<le> j \<Longrightarrow> j < length xs \<Longrightarrow> xs ! i \<le> xs ! j"
  using sorted_wrt_nth_less [of "(<)" xs i j] by (cases "i = j") auto

lemma has_short_unique:
  assumes "addr_wf A" "has_short A a r" "has_short A a r'" shows "r = r'"
proof -
  obtain i j where i: "i < length (sorted_refs A)" "r = sorted_refs A ! i"
    and j: "j < length (sorted_refs A)" "r' = sorted_refs A ! j"
    using assms by (auto simp: has_short_def in_set_conv_nth)
  have "shorts A ! i = a" "shorts A ! j = a" using i j assms by (simp_all add: shorts_def has_short_def)
  moreover have "length (shorts A) = length (sorted_refs A)" by (simp add: shorts_def)
  ultimately have "\<not> i < j" "\<not> j < i"
    using i j assms(1) sorted_wrt_nth_less [of "(<)" "shorts A" i j] sorted_wrt_nth_less [of "(<)" "shorts A" j i]
    by (auto simp: addr_wf_def)
  then show ?thesis using i j by (simp add: linorder_neq_iff)
qed

text \<open>The binary search is complete and correct.\<close>

lemma short_search_spec:
  assumes wf: "addr_wf A"
  shows "(\<exists>r. short_search a A = Some (Some r) \<and> has_short A a r)
    \<or> (short_search a A = Some None \<and> (\<forall>r. \<not> has_short A a r))"
proof -
  let ?n = "n_sorted_elements A" and ?S = "shorts A"
  have nth: "sorted_addr A k = Some (?S ! k)" "aget (short_sorted A) k = Some (sorted_refs A ! k)"
    if "k < ?n" for k using sorted_addr_nth wf addr_wf_refs that by simp_all
  have len: "length ?S = ?n" "length (sorted_refs A) = ?n"
    using wf by (simp_all add: length_shorts length_sorted_refs)
  have mono: "?S ! i \<le> ?S ! j" if "i \<le> j" "j < ?n" for i j
    using wf that len strict_sorted_le by (auto simp: addr_wf_def)
  have hs: "has_short A a r \<longleftrightarrow> (\<exists>k<?n. ?S ! k = a \<and> sorted_refs A ! k = r)" for r
    using len by (auto simp: has_short_def in_set_conv_nth shorts_def)
  obtain l where l: "(if ?n > 1 then search_loop A a 0 ?n else Some 0) = Some l" "l \<le> ?n"
    "?n > 0 \<Longrightarrow> (\<exists>k<?n. ?S ! k = a) \<longleftrightarrow> l < ?n \<and> ?S ! l = a"
  proof (cases "?n > 1")
    case True
    obtain m where m: "search_loop A a 0 ?n = Some m" "m \<le> ?n" "\<forall>k<m. ?S ! k < a"
      "\<forall>k. m \<le> k \<and> k < ?n \<longrightarrow> a \<le> ?S ! k"
    proof -
      have "\<forall>i j. i \<le> j \<and> j < ?n \<and> ?S ! j < a \<longrightarrow> ?S ! i < a"
        using mono by (meson le_less_trans)
      from bisect_all [OF _ this, of "sorted_addr A"] nth(1) that show ?thesis
        by (auto simp: search_loop_def not_less)
    qed
    have "(\<exists>k<?n. ?S ! k = a) \<longleftrightarrow> m < ?n \<and> ?S ! m = a"
    proof
      assume "\<exists>k<?n. ?S ! k = a"
      then obtain k where k: "k < ?n" "?S ! k = a" by blast
      then have "m \<le> k" using m(3) by (metis leI less_irrefl)
      then have "?S ! m \<le> a" "a \<le> ?S ! m" using mono [of m k] k m by auto
      with \<open>m \<le> k\<close> k show "m < ?n \<and> ?S ! m = a" by auto
    qed blast
    with True m that show ?thesis by simp
  next
    case False
    then have "?n = 0 \<or> ?n = 1" by auto
    with that [of 0] show ?thesis by auto
  qed
  show ?thesis
  proof (cases "?n > 0 \<and> l < ?n \<and> ?S ! l = a")
    case True
    then have "short_search a A = Some (Some (sorted_refs A ! l))"
      using l(1) nth [of l] by (auto simp: short_search_def)
    with True hs show ?thesis by blast
  next
    case False
    then have "\<not> has_short A a r" for r using l(3) hs by auto
    moreover have "short_search a A = Some None"
      using False l(1) nth [of l] by (auto simp: short_search_def)
    ultimately show ?thesis by blast
  qed
qed

section \<open>Insertion into the sorted references\<close>

text \<open>\<open>add_short_sorted\<close> splits the sorted references at the new address and inserts there.\<close>

lemma add_short_sorted_spec:
  assumes sz: "sizes_ok A" and refs: "\<forall>r\<in>set (sorted_refs A). r < 101"
    and srt: "sorted_wrt (<) (shorts A)" and room: "n_sorted_elements A < 101"
    and ref: "ref < 101"
  shows "\<exists>A' xs ys. add_short_sorted ref a A = Some A' \<and> sorted_refs A = xs @ ys
    \<and> sorted_refs A' = xs @ ref # ys \<and> n_sorted_elements A' = Suc (n_sorted_elements A)
    \<and> A' = A\<lparr>short_sorted := short_sorted A', n_sorted_elements := n_sorted_elements A'\<rparr>
    \<and> length (short_sorted A') = 101
    \<and> (\<forall>r\<in>set xs. ent_addr A r \<le> a) \<and> (\<forall>r\<in>set ys. a \<le> ent_addr A r)"
proof -
  let ?n = "n_sorted_elements A" and ?S = "shorts A" and ?ss = "short_sorted A"
  have nth: "sorted_addr A k = Some (?S ! k)" if "k < ?n" for k
    using sorted_addr_nth [OF sz refs that] by blast
  have len: "length ?S = ?n" "length (sorted_refs A) = ?n" "length ?ss = 101"
    using sz by (simp_all add: length_shorts length_sorted_refs sizes_ok_def)
  have mono: "?S ! i \<le> ?S ! j" if "i \<le> j" "j < ?n" for i j
    using strict_sorted_le [OF srt] that len by simp
  obtain l0 l where l0: "(if ?n > 1 then place_loop A a 0 ?n else Some 0) = Some l0"
    and l: "(if ?n > 0 \<and> l0 < ?n then do { x \<leftarrow> sorted_addr A l0; Some (if a > x then l0 + 1 else l0) }
           else Some l0) = Some l" "l \<le> ?n" "\<forall>k<l. ?S ! k \<le> a" "\<forall>k. l \<le> k \<and> k < ?n \<longrightarrow> a \<le> ?S ! k"
  proof (cases "?n > 1")
    case True
    have "\<forall>i j. i \<le> j \<and> j < ?n \<and> ?S ! j \<le> a \<longrightarrow> ?S ! i \<le> a"
      using mono by (meson order_trans)
    from bisect_all [OF _ this, of "sorted_addr A"] nth obtain m where
      m: "place_loop A a 0 ?n = Some m" "m \<le> ?n" "\<forall>k<m. ?S ! k \<le> a"
        "\<forall>k. m \<le> k \<and> k < ?n \<longrightarrow> a < ?S ! k"
      by (auto simp: place_loop_def not_le)
    have "(if ?n > 0 \<and> m < ?n then do { x \<leftarrow> sorted_addr A m; Some (if a > x then m + 1 else m) }
           else Some m) = Some m"
      using m(4) nth [of m] by (auto dest: less_not_sym)
    with True m that [of m m] show ?thesis by (auto intro: less_imp_le)
  next
    case False
    then consider "?n = 0" | "?n = 1" by linarith
    then show ?thesis
    proof cases
      case 1
      with that [of 0 0] show ?thesis by simp
    next
      case 2
      then have s0: "sorted_addr A 0 = Some (?S ! 0)" using nth [of 0] by simp
      show ?thesis
      proof (cases "a > ?S ! 0")
        case True
        with 2 s0 show ?thesis by (intro that [of 0 1]) auto
      next
        case False
        with 2 s0 show ?thesis by (intro that [of 0 0]) auto
      qed
    qed
  qed
  define ss where "ss = (if l < ?n then take (l + 1) ?ss @ take (?n - l) (drop l ?ss) @ drop (?n + 1) ?ss else ?ss)"
  have mm: "(if l < ?n then memmove ?ss (l + 1) l (?n - l) else Some ?ss) = Some ss"
    using l(2) len room by (auto simp: memmove_def ss_def)
  have lss: "length ss = 101" using len room l(2) by (auto simp: ss_def)
  let ?A = "A\<lparr>short_sorted := ss[l := ref], n_sorted_elements := Suc ?n\<rparr>"
  have res: "add_short_sorted ref a A = Some ?A"
    unfolding add_short_sorted_def Let_def l0 using l(1,2) mm lss ref room len
    by (simp add: mod_less)
  have "take (Suc ?n) (ss[l := ref]) = take l ?ss @ ref # take (?n - l) (drop l ?ss)"
  proof (cases "l < ?n")
    case True
    have "ss[l := ref] = take l ?ss @ ref # take (?n - l) (drop l ?ss) @ drop (?n + 1) ?ss"
      using True len room by (simp add: ss_def list_update_append take_Suc_conv_app_nth)
    with True len room show ?thesis by (simp add: Suc_diff_le)
  next
    case False
    then have "l = ?n" using l(2) by simp
    then show ?thesis using len room by (simp add: ss_def take_Suc_conv_app_nth take_update_cancel)
  qed
  then have srefs: "sorted_refs ?A = take l (sorted_refs A) @ ref # drop l (sorted_refs A)"
    using l(2) by (simp add: sorted_refs_def min_def drop_take)
  have xs: "ent_addr A r \<le> a" if "r \<in> set (take l (sorted_refs A))" for r
    using that l(2,3) len by (auto simp: in_set_conv_nth shorts_def)
  have ys: "a \<le> ent_addr A r" if "r \<in> set (drop l (sorted_refs A))" for r
    using that l(2,4) len by (auto simp: in_set_conv_nth shorts_def)
  show ?thesis
    by (rule exI [of _ ?A], rule exI [of _ "take l (sorted_refs A)"], rule exI [of _ "drop l (sorted_refs A)"])
      (use res srefs xs ys lss in simp)
qed

section \<open>Deletion from the sorted references\<close>

text \<open>
  The loop of \<^verbatim>\<open>del_short_sorted\<close> moves one element too many: also the unused one behind the
  last. It is correct when the reference is the last one, or when that slot exists and does not
  hold the same reference by accident.
\<close>

lemma del_loop_skip:
  "\<lbrakk>\<forall>k. i \<le> k \<and> k < n \<longrightarrow> ss ! k \<noteq> ref; n \<le> length ss; n \<le> i + fuel\<rbrakk> \<Longrightarrow>
   del_loop fuel ref n i ss dec = Some (ss, dec)"
proof (induction fuel arbitrary: i)
  case (Suc fuel)
  then show ?case by (cases "i < n") auto
qed simp

lemma del_loop_at:
  "\<lbrakk>i \<le> p; p < n; n \<le> length ss; ss ! p = ref; \<forall>k<n. k \<noteq> p \<longrightarrow> ss ! k \<noteq> ref; n \<le> i + fuel;
    p \<noteq> n - 1 \<longrightarrow> n < length ss \<and> ss ! n \<noteq> ref\<rbrakk> \<Longrightarrow>
   \<exists>ss'. del_loop fuel ref n i ss dec = Some (ss', dec + 1) \<and> length ss' = length ss
     \<and> take (n - 1) ss' = take p ss @ take (n - 1 - p) (drop (p + 1) ss)"
proof (induction fuel arbitrary: i)
  case (Suc fuel)
  show ?case
  proof (cases "i = p")
    case False
    with Suc.prems have "ss ! i \<noteq> ref" "i < length ss" "i < n" by auto
    with Suc.IH [of "i + 1"] Suc.prems False show ?thesis by simp
  next
    case i: True
    show ?thesis
    proof (cases "p = n - 1")
      case True
      have "del_loop fuel ref n (i + 1) ss (dec + 1) = Some (ss, dec + 1)"
        using i True Suc.prems by (intro del_loop_skip) auto
      with i True Suc.prems show ?thesis by auto
    next
      case False
      define ss' where "ss' = take p ss @ take (n - p) (drop (p + 1) ss) @ drop n ss"
      have m: "memmove ss p (p + 1) (n - p) = Some ss'"
        using Suc.prems False by (auto simp: memmove_def ss'_def)
      have len: "length ss' = length ss" using memmove_length [OF m] .
      have nth: "ss' ! k = ss ! (k + 1)" if "p \<le> k" "k < n" for k
        using memmove_nth [OF m, of k] that Suc.prems by simp
      have ok: "ss' ! k \<noteq> ref" if "p \<le> k" "k < n" for k
        using nth [OF that] that Suc.prems False by (cases "k + 1 = n") auto
      have "del_loop fuel ref n (i + 1) ss' (dec + 1) = Some (ss', dec + 1)"
        using i Suc.prems len ok by (intro del_loop_skip) auto
      moreover have "take (n - 1) ss' = take p ss @ take (n - 1 - p) (drop (p + 1) ss)"
      proof -
        obtain m where "n = p + Suc m" using \<open>p < n\<close> less_iff_Suc_add by auto
        with Suc.prems show ?thesis by (simp add: ss'_def)
      qed
      ultimately show ?thesis using i False Suc.prems m len by simp
    qed
  qed
qed simp

lemma take_remove1:
  assumes "distinct (take n xs)" "p < n" "n \<le> length xs" "xs ! p = r"
  shows "take p xs @ take (n - 1 - p) (drop (p + 1) xs) = remove1 r (take n xs)"
proof -
  obtain m where n: "n = p + Suc m" using \<open>p < n\<close> less_iff_Suc_add by auto
  have "take n xs = take p xs @ r # take m (drop (p + 1) xs)"
    using id_take_nth_drop [of p "take n xs"] assms n by (simp add: min_def drop_take)
  moreover have "r \<notin> set (take p xs)"
    using assms(1) calculation by auto
  ultimately show ?thesis using n by (simp add: remove1_append)
qed

text \<open>\<open>del_safe\<close> is the condition under which the deletion is correct.\<close>

definition del_safe :: "zb_addr_globals \<Rightarrow> nat \<Rightarrow> bool" where
  "del_safe A ref \<longleftrightarrow> (ref \<in> set (sorted_refs A) \<and> ref \<noteq> last (sorted_refs A) \<longrightarrow>
     n_sorted_elements A < 101 \<and> short_sorted A ! n_sorted_elements A \<noteq> ref)"

lemma del_short_sorted_absent:
  assumes "sizes_ok A" "ref \<notin> set (sorted_refs A)"
  shows "del_short_sorted ref A = Some A"
proof -
  have "\<forall>k. 0 \<le> k \<and> k < n_sorted_elements A \<longrightarrow> short_sorted A ! k \<noteq> ref"
  proof (intro allI impI)
    fix k assume k: "0 \<le> k \<and> k < n_sorted_elements A"
    then have "sorted_refs A ! k \<in> set (sorted_refs A)"
      using length_sorted_refs [OF assms(1)] by (intro nth_mem) simp
    with k assms(2) show "short_sorted A ! k \<noteq> ref" by (auto simp: sorted_refs_def)
  qed
  moreover have "n_sorted_elements A \<le> 101" "length (short_sorted A) = 101"
    using assms by (simp_all add: sizes_ok_def)
  ultimately show ?thesis
    using del_loop_skip [of 0 "n_sorted_elements A" "short_sorted A" ref "n_sorted_elements A" 0]
    by (simp add: del_short_sorted_def)
qed

lemma del_short_sorted_spec:
  assumes sz: "sizes_ok A" and d: "distinct (sorted_refs A)" and safe: "del_safe A ref"
  shows "\<exists>A'. del_short_sorted ref A = Some A' \<and> sorted_refs A' = remove1 ref (sorted_refs A)
    \<and> A' = A\<lparr>short_sorted := short_sorted A', n_sorted_elements := n_sorted_elements A'\<rparr>
    \<and> length (short_sorted A') = 101 \<and> n_sorted_elements A' \<le> n_sorted_elements A"
proof (cases "ref \<in> set (sorted_refs A)")
  case False
  then show ?thesis using del_short_sorted_absent [OF sz] sz
    by (auto simp: remove1_idem sizes_ok_def)
next
  case True
  let ?n = "n_sorted_elements A" and ?ss = "short_sorted A"
  have len: "length (sorted_refs A) = ?n" "length ?ss = 101" "?n \<le> 101"
    using sz by (simp_all add: length_sorted_refs sizes_ok_def)
  then obtain p where p: "p < ?n" "sorted_refs A ! p = ref" using True by (auto simp: in_set_conv_nth)
  then have ssp: "?ss ! p = ref" by (simp add: sorted_refs_def)
  have only: "\<forall>k<?n. k \<noteq> p \<longrightarrow> ?ss ! k \<noteq> ref"
  proof (intro allI impI)
    fix k assume k: "k < ?n" "k \<noteq> p"
    then have "sorted_refs A ! k \<noteq> sorted_refs A ! p"
      using nth_eq_iff_index_eq [OF d, of k p] len p(1) by simp
    with k p show "?ss ! k \<noteq> ref" by (simp add: sorted_refs_def)
  qed
  have "p \<noteq> ?n - 1 \<longrightarrow> ref \<noteq> last (sorted_refs A)"
  proof -
    have "sorted_refs A \<noteq> []" using True by auto
    then have "last (sorted_refs A) = sorted_refs A ! (?n - 1)" using len by (simp add: last_conv_nth)
    then show ?thesis using nth_eq_iff_index_eq [OF d, of p "?n - 1"] len p by auto
  qed
  then have "p \<noteq> ?n - 1 \<longrightarrow> ?n < length ?ss \<and> ?ss ! ?n \<noteq> ref"
    using safe True len by (auto simp: del_safe_def)
  then obtain ss' where ss': "del_loop ?n ref ?n 0 ?ss 0 = Some (ss', 1)" "length ss' = 101"
    "take (?n - 1) ss' = take p ?ss @ take (?n - 1 - p) (drop (p + 1) ?ss)"
    using del_loop_at [of 0 p ?n ?ss ref ?n 0] p(1) ssp only len by auto
  let ?A = "A\<lparr>short_sorted := ss', n_sorted_elements := ?n - 1\<rparr>"
  have "(?n + 2 ^ 32 - 1) mod 2 ^ 32 = ?n - 1"
  proof -
    have "?n + 2 ^ 32 - 1 = (?n - 1) + 2 ^ 32" using p by simp
    then show ?thesis using len by (simp only: mod_add_self2) simp
  qed
  then have "del_short_sorted ref A = Some ?A"
    using ss' by (simp add: del_short_sorted_def)
  moreover have "sorted_refs ?A = remove1 ref (sorted_refs A)"
    using take_remove1 [of ?n ?ss p ref] d p(1) ssp len ss'(3) by (simp add: sorted_refs_def)
  ultimately show ?thesis using ss'(2) by (intro exI [of _ ?A]) simp
qed

section \<open>The clock\<close>

text \<open>\<open>clock_eq A B\<close>: the tables differ at most in the clock bits and the clock pointer.\<close>

definition clock_eq :: "zb_addr_globals \<Rightarrow> zb_addr_globals \<Rightarrow> bool" where
  "clock_eq A B \<longleftrightarrow> B = A\<lparr>addr_map := addr_map B, clock_i := clock_i B\<rparr>
     \<and> map (\<lambda>e. e\<lparr>am_clock := False\<rparr>) (addr_map B) = map (\<lambda>e. e\<lparr>am_clock := False\<rparr>) (addr_map A)"

lemma clock_eq_refl [simp]: "clock_eq A A"
  by (simp add: clock_eq_def)

lemma clock_eq_trans: "clock_eq A B \<Longrightarrow> clock_eq B C \<Longrightarrow> clock_eq A C"
  unfolding clock_eq_def by (cases A; cases B; cases C) simp

lemma clock_eq_step:
  "clock_eq A (A\<lparr>clock_i := i\<rparr>)"
  "k < length (addr_map A) \<Longrightarrow> e = addr_map A ! k \<Longrightarrow>
   clock_eq A (A\<lparr>clock_i := i, addr_map := (addr_map A)[k := e\<lparr>am_clock := c\<rparr>]\<rparr>)"
  by (simp_all add: clock_eq_def map_update list_update_same_conv) 

lemma clock_scan_spec:
  "bound \<le> length (addr_map A) \<Longrightarrow> clock_i A \<le> 101 \<Longrightarrow> bound \<le> 101 \<Longrightarrow>
   \<exists>A' cnt' f. clock_scan bound A cnt = Some (A', cnt', f) \<and> clock_eq A A' \<and> clock_i A' \<le> 101"
proof (induction "bound - clock_i A" arbitrary: A cnt rule: less_induct)
  case less
  show ?case
  proof (cases "clock_i A < bound \<and> cnt < n_elements A")
    case False
    with less.prems show ?thesis by (subst clock_scan.simps) auto
  next
    case True
    let ?i = "clock_i A" and ?A = "A\<lparr>clock_i := clock_i A + 1\<rparr>"
    have i: "?i < length (addr_map A)" using True less.prems by simp
    have rec: "\<exists>A' cnt' f. clock_scan bound ?A c = Some (A', cnt', f) \<and> clock_eq A A' \<and> clock_i A' \<le> 101" for c
    proof -
      have "\<exists>A' cnt' f. clock_scan bound ?A c = Some (A', cnt', f) \<and> clock_eq ?A A' \<and> clock_i A' \<le> 101"
        using True less.prems by (intro less.hyps) auto
      then show ?thesis using clock_eq_trans [OF clock_eq_step(1)] by blast
    qed
    have stop: "clock_eq A (A\<lparr>clock_i := ?i + 1, addr_map := (addr_map A)[?i := (addr_map A ! ?i)\<lparr>am_clock := False\<rparr>]\<rparr>)"
      using i by (rule clock_eq_step(2)) simp
    show ?thesis using True i rec less.prems stop
      by (subst clock_scan.simps) (auto simp: Let_def)
  qed
qed

lemma clock_tick_spec:
  assumes "sizes_ok A"
  shows "\<exists>A'. clock_tick A = Some A' \<and> clock_eq A A' \<and> clock_i A' \<le> 101"
proof -
  have len: "length (addr_map A) = 101" "clock_i A \<le> 101" using assms by (simp_all add: sizes_ok_def)
  obtain A1 cnt f where s1: "clock_scan 101 A 0 = Some (A1, cnt, f)" "clock_eq A A1" "clock_i A1 \<le> 101"
    using clock_scan_spec [of 101 A 0] len by auto
  have "length (addr_map A1) = 101" using s1(2) len
    by (auto simp: clock_eq_def dest: arg_cong [of _ _ length])
  then obtain A2 c2 f2 where s2: "clock_scan (clock_i A) (A1\<lparr>clock_i := 0\<rparr>) cnt = Some (A2, c2, f2)"
    "clock_eq (A1\<lparr>clock_i := 0\<rparr>) A2" "clock_i A2 \<le> 101"
    using clock_scan_spec [of "clock_i A" "A1\<lparr>clock_i := 0\<rparr>" cnt] len by auto
  have "clock_eq A A2" using clock_eq_trans [OF s1(2) clock_eq_trans [OF clock_eq_step(1) s2(2)]] .
  with s1 s2 show ?thesis
    by (auto simp: clock_tick_def Let_def ZB_IEEE_ADDR_TABLE_SIZE_def)
qed

section \<open>Open addressing\<close>

text \<open>
  The searches probe the slots in cyclic order from a hash value. A probe over as many steps as
  there are slots sees every slot.
\<close>

lemma probe_covers:
  assumes "i < m" shows "(\<exists>k<m. P ((i + k) mod m)) \<longleftrightarrow> (\<exists>j<m. P (j::nat))"
proof
  assume "\<exists>j<m. P j"
  then obtain j where j: "j < m" "P j" by blast
  show "\<exists>k<m. P ((i + k) mod m)"
  proof (cases "i \<le> j")
    case True
    with j show ?thesis by (intro exI [of _ "j - i"]) auto
  next
    case False
    then have "(i + (m - i + j)) mod m = j" "m - i + j < m" using assms j by auto
    with j show ?thesis by (intro exI [of _ "m - i + j"]) simp
  qed
next
  assume "\<exists>k<m. P ((i + k) mod m)"
  then show "\<exists>j<m. P j" using assms by (metis mod_less_divisor le_less_trans le0)
qed

lemma ieee_search_loop_spec:
  assumes "i < 101"
  shows "case ieee_search_loop n A c i of
      Some r \<Rightarrow> ent_used A r \<and> zb_address_compressed_cmp (am_ieee (addr_map A ! r)) c
    | None \<Rightarrow> \<forall>k<n. \<not> (ent_used A ((i + k) mod 101) \<and> zb_address_compressed_cmp (am_ieee (addr_map A ! ((i + k) mod 101))) c)"
  using assms
proof (induction n arbitrary: i)
  case (Suc n)
  let ?i' = "(i + 1) mod 101"
  have IH: "case ieee_search_loop n A c ?i' of
      Some r \<Rightarrow> ent_used A r \<and> zb_address_compressed_cmp (am_ieee (addr_map A ! r)) c
    | None \<Rightarrow> \<forall>k<n. \<not> (ent_used A ((?i' + k) mod 101) \<and> zb_address_compressed_cmp (am_ieee (addr_map A ! ((?i' + k) mod 101))) c)"
    by (rule Suc.IH) simp
  have sh: "(?i' + k) mod 101 = (i + Suc k) mod 101" for k by (simp add: mod_simps)
  show ?case
  proof (cases "am_used (addr_map A ! i) \<and> zb_address_compressed_cmp (am_ieee (addr_map A ! i)) c")
    case True
    then show ?thesis using Suc.prems by (simp add: ent_used_def)
  next
    case False
    then have now: "\<not> (ent_used A (i mod 101) \<and> zb_address_compressed_cmp (am_ieee (addr_map A ! (i mod 101))) c)"
      using Suc.prems by (simp add: ent_used_def)
    have step: "ieee_search_loop (Suc n) A c i = ieee_search_loop n A c ?i'"
      using False by (auto simp: ZB_IEEE_ADDR_TABLE_SIZE_def)
    show ?thesis
    proof (cases "ieee_search_loop n A c ?i'")
      case None
      have "\<not> (ent_used A ((i + k) mod 101) \<and> zb_address_compressed_cmp (am_ieee (addr_map A ! ((i + k) mod 101))) c)"
        if "k < Suc n" for k
        using that now IH None sh by (cases k) auto
      then show ?thesis using step None by simp
    next
      case (Some r)
      then show ?thesis using step IH by simp
    qed
  qed
qed simp

lemma hash_bound: "zb_address_compressed_ieee_hash c < 101"
  by (simp add: zb_address_compressed_ieee_hash_def ZB_IEEE_ADDR_TABLE_SIZE_def)

lemma ieee_search_spec:
  "case ieee_search c A of
     Some r \<Rightarrow> ent_used A r \<and> am_ieee (addr_map A ! r) = c
   | None \<Rightarrow> \<forall>r. ent_used A r \<longrightarrow> am_ieee (addr_map A ! r) \<noteq> c"
proof -
  have cmp: "zb_address_compressed_cmp x c \<longleftrightarrow> x = c" for x :: zb_ieee_addr_compressed
    by (auto simp: zb_address_compressed_cmp_def)
  have "ent_used A r \<Longrightarrow> r < 101" for r by (simp add: ent_used_def)
  then show ?thesis
    using ieee_search_loop_spec [OF hash_bound, of 101 A c c]
      probe_covers [OF hash_bound, of "\<lambda>r. ent_used A r \<and> am_ieee (addr_map A ! r) = c" c]
    by (auto simp: ieee_search_def ZB_IEEE_ADDR_TABLE_SIZE_def cmp split: option.splits)
qed

lemma free_search_loop_spec:
  assumes "e < 101" "j + n = 101" "0 < n"
  shows "case free_search n A ((e + j) mod 101) e of
      Some r \<Rightarrow> r < 101 \<and> \<not> am_used (addr_map A ! r)
    | None \<Rightarrow> \<forall>k. j \<le> k \<and> k < 101 \<longrightarrow> am_used (addr_map A ! ((e + k) mod 101))"
  using assms(2,3)
proof (induction n arbitrary: j)
  case (Suc n)
  let ?i = "(e + j) mod 101"
  show ?case
  proof (cases "am_used (addr_map A ! ?i)")
    case False
    then show ?thesis by simp
  next
    case True
    have nxt: "(?i + 1) mod 101 = (e + Suc j) mod 101" by (simp add: mod_simps)
    show ?thesis
    proof (cases "n = 0")
      case zero: True
      then have "Suc j = 101" using Suc.prems by simp
      then have "(e + Suc j) mod 101 = e" using assms(1) by simp
      moreover have "k = j" if "j \<le> k" "k < 101" for k using that \<open>Suc j = 101\<close> by simp
      ultimately show ?thesis using True nxt zero by (auto simp: ZB_IEEE_ADDR_TABLE_SIZE_def Let_def)
    next
      case False
      then have "(e + Suc j) mod 101 \<noteq> e"
        using Suc.prems assms(1) by (cases "e + Suc j < 101") (auto simp: mod_if)
      then have step: "free_search (Suc n) A ?i e = free_search n A ((e + Suc j) mod 101) e"
        using True nxt by (simp add: ZB_IEEE_ADDR_TABLE_SIZE_def Let_def)
      have IH: "case free_search n A ((e + Suc j) mod 101) e of
          Some r \<Rightarrow> r < 101 \<and> \<not> am_used (addr_map A ! r)
        | None \<Rightarrow> \<forall>k. Suc j \<le> k \<and> k < 101 \<longrightarrow> am_used (addr_map A ! ((e + k) mod 101))"
        using Suc.IH [of "Suc j"] Suc.prems False by simp
      show ?thesis
      proof (cases "free_search n A ((e + Suc j) mod 101) e")
        case None
        have "am_used (addr_map A ! ((e + k) mod 101))" if "j \<le> k" "k < 101" for k
          using that IH None True by (cases "k = j") auto
        then show ?thesis using step None by simp
      next
        case (Some r)
        then show ?thesis using step IH by simp
      qed
    qed
  qed
qed simp

lemma free_search_spec:
  assumes "e < 101"
  shows "case free_search ZB_IEEE_ADDR_TABLE_SIZE A e e of
      Some r \<Rightarrow> r < 101 \<and> \<not> am_used (addr_map A ! r)
    | None \<Rightarrow> \<forall>r<101. ent_used A r"
  using free_search_loop_spec [OF assms, of 0 101 A] assms
    probe_covers [OF assms, of "\<lambda>r. \<not> am_used (addr_map A ! r)"]
  by (auto simp: ZB_IEEE_ADDR_TABLE_SIZE_def ent_used_def split: option.splits)

end
