(* ===== verification/Zb_Addr_Props.thy ===== *)
theory Zb_Addr_Props
  imports Zb_Addr_Facts
begin

text \<open>
  What the address operations do: every operation that does not delete keeps the invariant
  \<open>addr_wf\<close> and behaves like a map from short addresses to references; a reference keeps its
  meaning until it is deleted. Deletion is correct under \<open>del_safe\<close>, and a run of three calls
  from the initial state shows what happens without it.
\<close>

section \<open>Entries that keep their contents\<close>

definition ent_same :: "zb_addr_globals \<Rightarrow> zb_addr_globals \<Rightarrow> nat \<Rightarrow> bool" where
  "ent_same A B r \<longleftrightarrow> (addr_map B ! r)\<lparr>am_clock := False\<rparr> = (addr_map A ! r)\<lparr>am_clock := False\<rparr>"

lemma ent_same_fields:
  "ent_same A B r \<Longrightarrow> am_used (addr_map B ! r) = am_used (addr_map A ! r) \<and>
    am_addr (addr_map B ! r) = am_addr (addr_map A ! r) \<and> am_ieee (addr_map B ! r) = am_ieee (addr_map A ! r)
    \<and> am_lock_cnt (addr_map B ! r) = am_lock_cnt (addr_map A ! r)
    \<and> am_dup_counter (addr_map B ! r) = am_dup_counter (addr_map A ! r)
    \<and> am_dup_clock (addr_map B ! r) = am_dup_clock (addr_map A ! r)"
  unfolding ent_same_def by (cases "addr_map B ! r"; cases "addr_map A ! r") simp

lemma ent_same_refl [simp]: "ent_same A A r"
  by (simp add: ent_same_def)

lemma ent_same_trans: "ent_same A B r \<Longrightarrow> ent_same B C r \<Longrightarrow> ent_same A C r"
  by (simp add: ent_same_def)

lemma clock_eq_same:
  assumes "clock_eq A B" "r < length (addr_map A)" shows "ent_same A B r"
proof -
  let ?f = "\<lambda>e. e\<lparr>am_clock := False\<rparr>"
  have m: "map ?f (addr_map B) = map ?f (addr_map A)" using assms(1) by (simp add: clock_eq_def)
  then have "length (addr_map B) = length (addr_map A)" by (rule map_eq_imp_length_eq)
  with m assms(2) show ?thesis
    unfolding ent_same_def by (metis nth_map)
qed

lemma clock_eq_other:
  "clock_eq A B \<Longrightarrow> used_manufacturer B = used_manufacturer A \<and> dev_manufacturer B = dev_manufacturer A
    \<and> short_sorted B = short_sorted A \<and> n_sorted_elements B = n_sorted_elements A
    \<and> n_elements B = n_elements A \<and> length (addr_map B) = length (addr_map A)"
  unfolding clock_eq_def by (cases A; cases B) (auto dest: map_eq_imp_length_eq)

lemma upd_ent_in [simp]:
  "r < length (addr_map A) \<Longrightarrow> upd_ent r f A = Some (A\<lparr>addr_map := (addr_map A)[r := f (addr_map A ! r)]\<rparr>)"
  by (simp add: upd_ent_def)

text \<open>The invariant only reads the sizes, the counters, and the used and address fields.\<close>

lemma used_cong:
  "\<forall>r<101. am_used (addr_map B ! r) = am_used (addr_map A ! r) \<Longrightarrow> ent_used B r = ent_used A r"
  by (auto simp: ent_used_def)

lemma addr_wf_cong:
  assumes wf: "addr_wf A" and s: "sizes_ok B"
    and e: "\<forall>r<101. am_used (addr_map B ! r) = am_used (addr_map A ! r) \<and> am_addr (addr_map B ! r) = am_addr (addr_map A ! r)"
    and f: "n_elements B = n_elements A" "sorted_refs B = sorted_refs A"
  shows "addr_wf B"
proof -
  have u: "ent_used B r = ent_used A r" for r using e used_cong by blast
  have a: "ent_used A r \<Longrightarrow> ent_addr B r = ent_addr A r" for r using e by (simp add: ent_used_def ent_addr_def)
  have "\<forall>r\<in>set (sorted_refs A). ent_used A r" using wf by (simp add: addr_wf_def)
  then have "shorts B = shorts A" using f a by (simp add: shorts_def)
  moreover have "{r. ent_used A r \<and> ent_addr B r \<noteq> -1} = {r. ent_used A r \<and> ent_addr A r \<noteq> -1}"
    using a by auto
  ultimately show ?thesis using wf s f u by (simp add: addr_wf_def)
qed

lemma addr_wf_upd:
  assumes wf: "addr_wf A" and r: "r < 101"
    and f: "\<And>e. am_used (f e) = am_used e" "\<And>e. am_addr (f e) = am_addr e"
  shows "addr_wf (A\<lparr>addr_map := (addr_map A)[r := f (addr_map A ! r)]\<rparr>)" (is "addr_wf ?B")
proof (rule addr_wf_cong [OF wf])
  show "sizes_ok ?B" using addr_wf_sizes [OF wf] by (simp add: sizes_ok_def manuf_wf_def)
  show "\<forall>s<101. am_used (addr_map ?B ! s) = am_used (addr_map A ! s) \<and> am_addr (addr_map ?B ! s) = am_addr (addr_map A ! s)"
  proof (intro allI impI)
    fix s :: nat assume "s < 101"
    then show "am_used (addr_map ?B ! s) = am_used (addr_map A ! s) \<and> am_addr (addr_map ?B ! s) = am_addr (addr_map A ! s)"
      using f addr_wf_sizes [OF wf] by (cases "s = r") (simp_all add: sizes_ok_def)
  qed
qed (simp_all add: sorted_refs_def)

lemma addr_wf_len [simp]: "addr_wf A \<Longrightarrow> length (addr_map A) = 101"
  using addr_wf_sizes [of A] by (simp add: sizes_ok_def)

lemma has_short_iff:
  assumes "addr_wf A" "a \<noteq> -1"
  shows "has_short A a r \<longleftrightarrow> ent_used A r \<and> ent_addr A r = a"
  using assms by (auto simp: addr_wf_def has_short_def)

lemma card_used_full:
  assumes "addr_wf A" shows "n_elements A \<le> 101" "n_elements A = 101 \<longleftrightarrow> (\<forall>r<101. ent_used A r)"
proof -
  have sub: "{r. ent_used A r} \<subseteq> {..<101}" by (auto simp: ent_used_def)
  then have "card {r. ent_used A r} \<le> 101" using card_mono [OF finite_lessThan sub] by simp
  then show "n_elements A \<le> 101" using assms by (simp add: addr_wf_def)
  have "card {r. ent_used A r} = 101 \<Longrightarrow> {r. ent_used A r} = {..<101}"
    using sub card_subset_eq [of "{..<101::nat}"] by simp
  moreover have "(\<forall>r<101. ent_used A r) \<Longrightarrow> {r. ent_used A r} = {..<101}" using sub by auto
  ultimately show "n_elements A = 101 \<longleftrightarrow> (\<forall>r<101. ent_used A r)"
    using assms by (auto simp: addr_wf_def)
qed

section \<open>Adding an entry\<close>

text \<open>What a new entry at \<open>i\<close> means for the tables, whatever way it got into the sorted ones.\<close>

lemma addr_wf_new:
  assumes wf: "addr_wf A" and i: "i < 101" "\<not> ent_used A i" and sz: "sizes_ok B"
    and ui: "am_used (addr_map B ! i)" "am_addr (addr_map B ! i) = a"
    and oth: "\<forall>r<101. r \<noteq> i \<longrightarrow> ent_same A B r" and ne: "n_elements B = Suc (n_elements A)"
    and refs: "if a = -1 then sorted_refs B = sorted_refs A
      else \<exists>xs ys. sorted_refs A = xs @ ys \<and> sorted_refs B = xs @ i # ys
        \<and> (\<forall>r\<in>set xs. ent_addr A r < a) \<and> (\<forall>r\<in>set ys. a < ent_addr A r)"
  shows "addr_wf B"
proof -
  have u: "ent_used B r \<longleftrightarrow> ent_used A r \<or> r = i" for r
    using oth ui i ent_same_fields [of A B r] by (cases "r = i") (auto simp: ent_used_def)
  have a': "ent_addr B r = ent_addr A r" if "ent_used A r" for r
    using oth i that ent_same_fields [of A B r] by (auto simp: ent_used_def ent_addr_def)
  have su: "\<forall>r\<in>set (sorted_refs A). ent_used A r" using wf by (simp add: addr_wf_def)
  have mapA: "map (ent_addr B) xs = map (ent_addr A) xs" if "set xs \<subseteq> set (sorted_refs A)" for xs
    using that su a' by auto
  have "{r. ent_used B r} = insert i {r. ent_used A r}" using u by auto
  then have card: "n_elements B = card {r. ent_used B r}"
    using ne wf i(2) by (simp add: addr_wf_def)
  have inot: "i \<notin> set (sorted_refs A)" using su i by auto
  show ?thesis
  proof (cases "a = -1")
    case True
    then have r: "sorted_refs B = sorted_refs A" using refs by simp
    have "{r. ent_used B r \<and> ent_addr B r \<noteq> -1} = {r. ent_used A r \<and> ent_addr A r \<noteq> -1}"
      using u a' True ui(2) i by (auto simp: ent_addr_def)
    moreover have "shorts B = shorts A" using mapA [of "sorted_refs A"] r by (simp only: shorts_def order_refl)
    ultimately show ?thesis using wf sz card r by (simp add: addr_wf_def)
  next
    case False
    then obtain xs ys where xy: "sorted_refs A = xs @ ys" "sorted_refs B = xs @ i # ys"
      "\<forall>r\<in>set xs. ent_addr A r < a" "\<forall>r\<in>set ys. a < ent_addr A r" using refs by auto
    have "set (sorted_refs B) = insert i (set (sorted_refs A))" using xy by auto
    also have "\<dots> = {r. ent_used B r \<and> ent_addr B r \<noteq> -1}"
      using wf u a' False ui(2) i by (auto simp: addr_wf_def ent_addr_def)
    finally have set: "set (sorted_refs B) = {r. ent_used B r \<and> ent_addr B r \<noteq> -1}" .
    have srt: "sorted_wrt (<) (map (ent_addr A) xs @ map (ent_addr A) ys)" and dis: "distinct (xs @ ys)"
      using wf xy by (simp_all add: addr_wf_def shorts_def)
    have "map (ent_addr B) xs = map (ent_addr A) xs" "map (ent_addr B) ys = map (ent_addr A) ys"
      using mapA xy by auto
    moreover have "ent_addr B i = a" using ui by (simp add: ent_addr_def)
    ultimately have "shorts B = map (ent_addr A) xs @ a # map (ent_addr A) ys"
      by (simp add: shorts_def xy(2))
    moreover have "sorted_wrt (<) (map (ent_addr A) xs @ a # map (ent_addr A) ys)"
      using srt xy(3,4) by (simp only: sorted_wrt_append sorted_wrt.simps set_map ball_simps list.set) blast
    moreover have "distinct (sorted_refs B)" using dis inot xy by auto
    ultimately have "sorted_wrt (<) (shorts B)" "distinct (sorted_refs B)" by simp_all
    with set card sz show ?thesis by (simp add: addr_wf_def)
  qed
qed

text \<open>
  \<open>addr_add\<close> uses a free slot. The lock counter and the duplicate detection fields of the slot
  keep the values they had: nothing resets them.
\<close>

definition added :: "zb_addr_globals \<Rightarrow> nat \<Rightarrow> zb_ieee_addr_compressed \<Rightarrow> zb_uint16_t \<Rightarrow> zb_addr_globals \<Rightarrow> bool" where
  "added A i c a B \<longleftrightarrow> i < 101 \<and> \<not> ent_used A i \<and> ent_used B i \<and> ent_addr B i = a
     \<and> am_ieee (addr_map B ! i) = c \<and> am_lock_cnt (addr_map B ! i) = am_lock_cnt (addr_map A ! i)
     \<and> am_dup_counter (addr_map B ! i) = am_dup_counter (addr_map A ! i)
     \<and> am_dup_clock (addr_map B ! i) = am_dup_clock (addr_map A ! i)
     \<and> (\<forall>r<101. r \<noteq> i \<longrightarrow> ent_same A B r) \<and> n_elements B = Suc (n_elements A)
     \<and> dev_manufacturer B = dev_manufacturer A \<and> used_manufacturer B = used_manufacturer A"

lemma addr_add_spec:
  fixes ieee :: "zb_ieee_addr_compressed option"
  assumes wf: "addr_wf A" and new: "a = -1 \<or> (\<forall>r. \<not> has_short A a r)"
  defines "c \<equiv> (case ieee of Some c \<Rightarrow> c | None \<Rightarrow> zero_compressed)"
  shows "if n_elements A = 101 then addr_add ieee a A = Some (A, RET_OVERFLOW, None)
    else \<exists>B i. addr_add ieee a A = Some (B, RET_OK, Some i) \<and> addr_wf B \<and> added A i c a B"
proof -
  define i0 where "i0 = (case ieee of Some c \<Rightarrow> zb_address_compressed_ieee_hash c | None \<Rightarrow> 0)"
  have "i0 < 101" by (simp add: i0_def hash_bound split: option.split)
  note fs = free_search_spec [OF this, of A]
  have sz: "sizes_ok A" using wf by simp
  show ?thesis
  proof (cases "free_search ZB_IEEE_ADDR_TABLE_SIZE A i0 i0")
    case None
    then have "n_elements A = 101" using fs card_used_full(2) [OF wf] by simp
    then show ?thesis using None by (simp add: addr_add_def flip: i0_def)
  next
    case (Some i)
    then have i: "i < 101" "\<not> am_used (addr_map A ! i)" using fs by simp_all
    then have iu: "\<not> ent_used A i" by (simp add: ent_used_def)
    have ne: "n_elements A < 101"
    proof -
      have "n_elements A \<noteq> 101" using card_used_full(2) [OF wf] i iu by blast
      then show ?thesis using card_used_full(1) [OF wf] by simp
    qed
    obtain A1 where A1: "clock_tick A = Some A1" "clock_eq A A1" "clock_i A1 \<le> 101"
      using clock_tick_spec [OF sz] by auto
    note eq = clock_eq_other [OF A1(2)]
    have same1: "ent_same A A1 r" if "r < 101" for r
      using clock_eq_same [OF A1(2)] that wf by simp
    let ?e = "(addr_map A1 ! i)\<lparr>am_addr := a, am_clock := True, am_ieee := c\<rparr>"
    let ?A2 = "A1\<lparr>addr_map := (addr_map A1)[i := ?e]\<rparr>"
    have len1: "length (addr_map A1) = 101" using eq wf by simp
    have u2: "\<not> am_used ?e" using ent_same_fields [OF same1 [OF i(1)]] i by simp
    have same2: "ent_same A ?A2 r" if "r < 101" "r \<noteq> i" for r
      using same1 [OF that(1)] that len1 by (simp add: ent_same_def)
    have refs2: "sorted_refs ?A2 = sorted_refs A" using eq by (simp add: sorted_refs_def)
    have addr2: "ent_addr ?A2 r = ent_addr A r" if "r \<in> set (sorted_refs A)" for r
    proof -
      have "ent_used A r" using that wf by (simp add: addr_wf_def)
      then have "r < 101" "r \<noteq> i" using iu by (auto simp: ent_used_def)
      from ent_same_fields [OF same2 [OF this]] show ?thesis by (simp add: ent_addr_def)
    qed
    have sh2: "shorts ?A2 = shorts A" using addr2 by (simp add: shorts_def refs2)
    have sz2: "sizes_ok ?A2" using sz eq A1(3) len1 by (simp add: sizes_ok_def manuf_wf_def)
    have r101: "\<forall>r\<in>set (sorted_refs ?A2). r < 101" using refs2 wf addr_wf_refs by simp
    have nse: "n_sorted_elements A < 101"
    proof -
      have "set (sorted_refs A) \<subseteq> {..<101} - {i}"
        using wf iu by (auto simp: addr_wf_def ent_used_def)
      then have "card (set (sorted_refs A)) \<le> 100" using i(1) card_mono [of "{..<101} - {i}"] by fastforce
      then show ?thesis using wf length_sorted_refs [OF sz] distinct_card [of "sorted_refs A"]
        by (simp add: addr_wf_def)
    qed
    obtain A3 where A3: "(if a \<noteq> ZB_UNKNOWN_SHORT_ADDR then add_short_sorted i a ?A2 else Some ?A2) = Some A3"
      "A3 = ?A2\<lparr>short_sorted := short_sorted A3, n_sorted_elements := n_sorted_elements A3\<rparr>"
      "sizes_ok A3" "if a = -1 then sorted_refs A3 = sorted_refs A
      else \<exists>xs ys. sorted_refs A = xs @ ys \<and> sorted_refs A3 = xs @ i # ys
        \<and> (\<forall>r\<in>set xs. ent_addr A r < a) \<and> (\<forall>r\<in>set ys. a < ent_addr A r)"
    proof (cases "a = -1")
      case True
      with sz2 refs2 that [of ?A2] show ?thesis by (simp add: ZB_UNKNOWN_SHORT_ADDR_def)
    next
      case False
      obtain A3 xs ys where s: "add_short_sorted i a ?A2 = Some A3" "sorted_refs A = xs @ ys"
        "sorted_refs A3 = xs @ i # ys" "n_sorted_elements A3 = Suc (n_sorted_elements A)"
        "A3 = ?A2\<lparr>short_sorted := short_sorted A3, n_sorted_elements := n_sorted_elements A3\<rparr>"
        "length (short_sorted A3) = 101"
        "\<forall>r\<in>set xs. ent_addr ?A2 r \<le> a" "\<forall>r\<in>set ys. a \<le> ent_addr ?A2 r"
        using add_short_sorted_spec [OF sz2 r101 _ _ i(1), of a] sh2 wf nse eq refs2
        by (auto simp: addr_wf_def)
      have nota: "ent_addr A r \<noteq> a" if "r \<in> set (sorted_refs A)" for r
        using new False that by (auto simp: has_short_def)
      have "\<forall>r\<in>set xs. ent_addr A r < a" "\<forall>r\<in>set ys. a < ent_addr A r"
        using s(2,7,8) addr2 nota by (auto simp: order.strict_iff_order)
      moreover have "sizes_ok A3"
      proof -
        have "clock_i A3 = clock_i A1" "addr_map A3 = addr_map ?A2" "manuf_wf A3 = manuf_wf ?A2"
          using arg_cong [OF s(5), of clock_i] arg_cong [OF s(5), of addr_map] 
            arg_cong [OF s(5), of manuf_wf] by (simp_all add: manuf_wf_def)
        then show ?thesis using sz2 s(4,6) nse by (simp add: sizes_ok_def)
      qed
      ultimately show ?thesis using False s that [of A3] by (auto simp: ZB_UNKNOWN_SHORT_ADDR_def)
    qed
    have am3: "addr_map A3 = addr_map ?A2" "n_elements A3 = n_elements A" "dev_manufacturer A3 = dev_manufacturer A"
        "used_manufacturer A3 = used_manufacturer A" "clock_i A3 = clock_i A1"
      using arg_cong [OF A3(2), of addr_map] arg_cong [OF A3(2), of n_elements]
        arg_cong [OF A3(2), of dev_manufacturer] arg_cong [OF A3(2), of used_manufacturer]
        arg_cong [OF A3(2), of clock_i] eq by simp_all
    let ?B = "A3\<lparr>n_elements := Suc (n_elements A3), addr_map := (addr_map A3)[i := ?e\<lparr>am_used := True\<rparr>]\<rparr>"
    have res: "addr_add ieee a A = Some (?B, RET_OK, Some i)"
    proof (cases "a = ZB_UNKNOWN_SHORT_ADDR")
      case True
      then have "A3 = ?A2" using A3(1) by simp
      with True Some A1(1) len1 i u2 eq ne show ?thesis
        by (simp add: addr_add_def Let_def c_def flip: i0_def)
    next
      case False
      then have "add_short_sorted i a ?A2 = Some A3" using A3(1) by simp
      with False Some A1(1) len1 i u2 am3 ne show ?thesis
        by (simp add: addr_add_def Let_def c_def flip: i0_def)
    qed
    have same: "ent_same A ?B r" if "r < 101" "r \<noteq> i" for r
      using same2 [OF that] that am3 len1 by (simp add: ent_same_def)
    have szB: "sizes_ok ?B" using A3(3) by (simp add: sizes_ok_def manuf_wf_def)
    have ui: "am_used (addr_map ?B ! i)" "am_addr (addr_map ?B ! i) = a" "am_ieee (addr_map ?B ! i) = c"
      using i(1) len1 am3 by simp_all
    have "addr_wf ?B"
    proof (rule addr_wf_new [OF wf i(1) iu szB ui(1,2)])
      show "n_elements ?B = Suc (n_elements A)" using am3 by simp
      have "sorted_refs ?B = sorted_refs A3" by (simp add: sorted_refs_def)
      then show "if a = -1 then sorted_refs ?B = sorted_refs A
        else \<exists>xs ys. sorted_refs A = xs @ ys \<and> sorted_refs ?B = xs @ i # ys
          \<and> (\<forall>r\<in>set xs. ent_addr A r < a) \<and> (\<forall>r\<in>set ys. a < ent_addr A r)"
        using A3(4) by (simp only:)
    qed (use same in auto)
    moreover have "added A i c a ?B"
      using i iu ui same am3 len1 ent_same_fields [OF same1 [OF i(1)]] by (simp add: added_def ent_used_def ent_addr_def)
    ultimately show ?thesis using res ne by auto
  qed
qed


section \<open>The reference of a short address\<close>

text \<open>
  The specification of the lookup: scan all 101 entries. The code keeps the sorted references
  to do the same with a binary search.
\<close>

definition ref_of_short :: "zb_addr_globals \<Rightarrow> zb_uint16_t \<Rightarrow> nat option" where
  "ref_of_short A a = find (\<lambda>r. ent_used A r \<and> ent_addr A r = a) [0..<101]"

lemma find_unique:
  assumes "\<And>r s. P r \<Longrightarrow> P s \<Longrightarrow> r = s" "\<And>r. P r \<Longrightarrow> r < n"
  shows "find P [0..<n] = Some r \<longleftrightarrow> P r"
proof -
  have *: "find P [0..<n] = Some s \<Longrightarrow> P s" for s by (auto simp: find_Some_iff)
  show ?thesis
  proof
    assume P: "P r"
    then have "find P [0..<n] \<noteq> None" using assms(2) [OF P] by (auto simp: find_None_iff)
    then obtain s where "find P [0..<n] = Some s" by blast
    with * P assms(1) show "find P [0..<n] = Some r" by blast
  qed (rule *)
qed

lemma ref_of_short_iff:
  assumes wf: "addr_wf A" and a: "a \<noteq> -1"
  shows "ref_of_short A a = Some r \<longleftrightarrow> ent_used A r \<and> ent_addr A r = a"
  unfolding ref_of_short_def
proof (rule find_unique)
  fix r s assume "ent_used A r \<and> ent_addr A r = a" "ent_used A s \<and> ent_addr A s = a"
  then show "r = s" using has_short_iff [OF wf a] has_short_unique [OF wf] by blast
qed (simp add: ent_used_def)

lemma ref_of_short_None:
  "ref_of_short A a = None \<longleftrightarrow> (\<forall>r. \<not> (ent_used A r \<and> ent_addr A r = a))"
  by (auto simp: ref_of_short_def find_None_iff ent_used_def)

lemma ref_of_short_cong:
  "\<forall>r. ent_used B r \<and> ent_addr B r = a \<longleftrightarrow> ent_used A r \<and> ent_addr A r = a \<Longrightarrow> ref_of_short B a = ref_of_short A a"
  by (simp add: ref_of_short_def)

lemma short_search_ref:
  assumes "addr_wf A" "a \<noteq> -1"
  shows "short_search a A = Some (ref_of_short A a)"
proof -
  have "has_short A a r \<longleftrightarrow> ref_of_short A a = Some r" for r
    using has_short_iff [OF assms] ref_of_short_iff [OF assms] by simp
  with short_search_spec [OF assms(1), of a] show ?thesis by (cases "ref_of_short A a") auto
qed

text \<open>What \<open>added\<close> says about used entries and lookups.\<close>

lemma added_used: "added A i c a B \<Longrightarrow> ent_used B r \<longleftrightarrow> ent_used A r \<or> r = i"
  using ent_same_fields [of A B r] by (cases "r = i") (auto simp: added_def ent_used_def)

lemma added_addr: "added A i c a B \<Longrightarrow> ent_used A r \<Longrightarrow> ent_addr B r = ent_addr A r"
  using ent_same_fields [of A B r] by (cases "r = i") (auto simp: added_def ent_used_def ent_addr_def)

lemma added_ref:
  assumes "addr_wf A" "addr_wf B" "added A i c a B" "b \<noteq> -1" "a = -1 \<or> ref_of_short A a = None"
  shows "ref_of_short B b = (if b = a then Some i else ref_of_short A b)"
proof (cases "b = a")
  case True
  then show ?thesis using assms ref_of_short_iff [of B b i] by (simp add: added_def)
next
  case False
  have "ent_addr B i = a" using assms(3) by (simp add: added_def)
  then have "ent_used B r \<and> ent_addr B r = b \<longleftrightarrow> ent_used A r \<and> ent_addr A r = b" for r
    using added_used [OF assms(3)] added_addr [OF assms(3)] False assms(3) by (cases "r = i") (auto simp: added_def)
  then show ?thesis using False ref_of_short_cong by simp
qed

lemma touch_facts:
  assumes wf: "addr_wf A" and r: "ent_used A r"
  shows "\<exists>B. upd_ent r (\<lambda>e. e\<lparr>am_clock := True\<rparr>) A = Some B \<and> addr_wf B \<and> (\<forall>s. ent_same A B s)
    \<and> ent_used B = ent_used A \<and> ref_of_short B = ref_of_short A
    \<and> n_elements B = n_elements A \<and> used_manufacturer B = used_manufacturer A \<and> dev_manufacturer B = dev_manufacturer A"
proof -
  have l: "r < 101" using r by (simp add: ent_used_def)
  let ?B = "A\<lparr>addr_map := (addr_map A)[r := (addr_map A ! r)\<lparr>am_clock := True\<rparr>]\<rparr>"
  have "addr_wf ?B" using addr_wf_upd [OF wf l, of "\<lambda>e. e\<lparr>am_clock := True\<rparr>"] by simp
  moreover have s: "ent_same A ?B s" for s using wf l by (cases "s = r") (simp_all add: ent_same_def)
  moreover have "ent_used ?B s = ent_used A s" "ent_addr ?B s = ent_addr A s" for s
    using ent_same_fields [OF s [of s]] by (simp_all add: ent_used_def ent_addr_def)
  then have "ref_of_short ?B = ref_of_short A" "ent_used ?B = ent_used A" by (auto simp: ref_of_short_def)
  ultimately show ?thesis using wf l by (intro exI [of _ ?B]) simp
qed

lemma by_short_new:
  assumes "addr_wf A" "a \<noteq> -1" "ref_of_short A a = None" "n_elements A \<noteq> 101"
  shows "\<exists>B i. zb_address_by_short a True False A = Some (B, RET_OK, Some i) \<and> addr_wf B
    \<and> added A i zero_compressed a B
    \<and> (\<forall>b. b \<noteq> -1 \<longrightarrow> ref_of_short B b = (if b = a then Some i else ref_of_short A b))"
proof -
  have "a = -1 \<or> (\<forall>r. \<not> has_short A a r)"
    using assms(3) has_short_iff [OF assms(1,2)] by (simp add: ref_of_short_None)
  from addr_add_spec [OF assms(1) this, of None] assms(4) obtain B i where
    B: "addr_add None a A = Some (B, RET_OK, Some i)" "addr_wf B" "added A i zero_compressed a B" by auto
  moreover have "zb_address_by_short a True False A = Some (B, RET_OK, Some i)"
    using assms(3) B(1) short_search_ref [OF assms(1,2)] by (simp add: zb_address_by_short_def lock_if_def)
  moreover have "\<forall>b. b \<noteq> -1 \<longrightarrow> ref_of_short B b = (if b = a then Some i else ref_of_short A b)"
    using added_ref [OF assms(1) B(2,3)] assms(3) by blast
  ultimately show ?thesis by blast
qed

lemma by_short_full:
  assumes "addr_wf A" "a \<noteq> -1" "ref_of_short A a = None" "n_elements A = 101"
  shows "zb_address_by_short a True False A = Some (A, RET_OVERFLOW, None)"
proof -
  have "a = -1 \<or> (\<forall>r. \<not> has_short A a r)"
    using assms(3) has_short_iff [OF assms(1,2)] by (simp add: ref_of_short_None)
  from addr_add_spec [OF assms(1) this, of None] assms(3,4) short_search_ref [OF assms(1,2)] show ?thesis
    by (simp add: zb_address_by_short_def lock_if_def)
qed

text \<open>
  C3: for a known address (anything but 0xFFFF) \<open>zb_address_by_short\<close> returns the entry a scan of
  the whole table finds, marking it recently used; otherwise, without \<open>create\<close>, it returns
  \<open>RET_NOT_FOUND\<close> and changes nothing; with \<open>create\<close> it returns \<open>RET_OVERFLOW\<close> exactly when all
  101 entries are in use, and else a new entry, after which the lookup of every other address
  gives what it gave before. The table's invariant is kept in all cases.
\<close>

theorem zb_address_by_short_refines:
  assumes "addr_wf A" "a \<noteq> -1"
  shows "case ref_of_short A a of
      Some r \<Rightarrow> \<exists>B. zb_address_by_short a create False A = Some (B, RET_OK, Some r) \<and> addr_wf B
        \<and> ref_of_short B = ref_of_short A
    | None \<Rightarrow>
        if \<not> create then zb_address_by_short a create False A = Some (A, RET_NOT_FOUND, None)
        else if n_elements A = 101 then zb_address_by_short a create False A = Some (A, RET_OVERFLOW, None)
        else \<exists>B i. zb_address_by_short a create False A = Some (B, RET_OK, Some i) \<and> addr_wf B
          \<and> \<not> ent_used A i \<and> (\<forall>b. b \<noteq> -1 \<longrightarrow> ref_of_short B b = (if b = a then Some i else ref_of_short A b))"
proof (cases "ref_of_short A a")
  case None
  show ?thesis
  proof (cases "create \<and> n_elements A \<noteq> 101")
    case True
    with by_short_new [OF assms None] None show ?thesis by (auto simp: added_def)
  next
    case False
    then show ?thesis using None by_short_full [OF assms None] short_search_ref [OF assms]
      by (auto simp: zb_address_by_short_def lock_if_def)
  qed
next
  case (Some r)
  then have "ent_used A r" using ref_of_short_iff [OF assms] by simp
  from touch_facts [OF assms(1) this] obtain B where
    B: "upd_ent r (\<lambda>e. e\<lparr>am_clock := True\<rparr>) A = Some B" "addr_wf B" "ref_of_short B = ref_of_short A" by blast
  then show ?thesis using Some short_search_ref [OF assms]
    by (auto simp: zb_address_by_short_def lock_if_def)
qed


lemma addr_wf_zero: "addr_wf addr_zero"
proof -
  have "\<not> ent_used addr_zero r" for r
    by (cases "r < 101") (simp_all add: ent_used_def addr_zero_def zero_ent_def)
  moreover have "sizes_ok addr_zero" by (simp add: sizes_ok_def manuf_wf_def addr_zero_def)
  moreover have "sorted_refs addr_zero = []" "n_elements addr_zero = 0"
    by (simp_all add: sorted_refs_def addr_zero_def)
  ultimately show ?thesis by (simp add: addr_wf_def shorts_def)
qed

section \<open>A run from the initial state\<close>

lemma free_search_first:
  "free_search 101 A i e = (if \<not> am_used (addr_map A ! i) then Some i
     else let i' = (i + 1) mod 101 in if i' \<noteq> e then free_search 100 A i' e else None)"
  using free_search.simps(2) [of 100 A i e] by (simp add: ZB_IEEE_ADDR_TABLE_SIZE_def)

lemma free_search_second:
  "free_search 100 A i e = (if \<not> am_used (addr_map A ! i) then Some i
     else let i' = (i + 1) mod 101 in if i' \<noteq> e then free_search 99 A i' e else None)"
  using free_search.simps(2) [of 99 A i e] by (simp add: ZB_IEEE_ADDR_TABLE_SIZE_def)

definition run_ent :: "zb_uint16_t \<Rightarrow> zb_address_map" where
  "run_ent a = zero_ent\<lparr>am_addr := a, am_clock := True, am_used := True\<rparr>"

text \<open>The tables after the first device, after the second, and after deleting the first.\<close>

definition run1 :: zb_addr_globals where
  "run1 = addr_zero\<lparr>addr_map := (addr_map addr_zero)[0 := run_ent 5],
     n_sorted_elements := 1, n_elements := 1\<rparr>"

definition run2 :: zb_addr_globals where
  "run2 = addr_zero\<lparr>addr_map := (addr_map addr_zero)[0 := (run_ent 5)\<lparr>am_clock := False\<rparr>, 1 := run_ent 7],
     short_sorted := (short_sorted addr_zero)[1 := 1], n_sorted_elements := 2, n_elements := 2, clock_i := 1\<rparr>"

definition run3 :: zb_addr_globals where
  "run3 = run2\<lparr>addr_map := (addr_map run2)[0 := (run_ent 5)\<lparr>am_clock := False, am_used := False\<rparr>],
     short_sorted := (short_sorted addr_zero)[0 := 1], n_sorted_elements := 0, n_elements := 1\<rparr>"

lemmas run_simps = zb_address_by_short_def short_search_def addr_zero_def addr_add_def addr_consts
  add_short_sorted_def zero_ent_def run_ent_def lock_if_def clock_tick_def clock_scan.simps [where cnt = 0]
  free_search_first free_search_second memmove_def sorted_addr_def

lemma run1_eq: "zb_address_by_short 5 True False addr_zero = Some (run1, RET_OK, Some 0)"
  by (simp add: run_simps run1_def list_update_same_conv)

lemma run2_eq: "zb_address_by_short 7 True False run1 = Some (run2, RET_OK, Some 1)"
  by (simp add: run_simps run1_def run2_def list_update_same_conv Let_def)

lemma del_loop_run:
  "del_loop 2 0 2 0 ((replicate 101 0)[1 := 1]) 0 = Some ((replicate 101 0)[0 := 1], 2)"
proof -
  have r: "replicate 101 (0::nat) = 0 # 0 # 0 # replicate 98 0"
    using replicate_add [of 3 98 "0::nat"] by (simp add: numeral_3_eq_3)
  have "del_loop (Suc (Suc 0)) 0 2 0 ((replicate 101 0)[1 := 1]) 0 = Some ((replicate 101 0)[0 := 1], 2)"
    unfolding r by (simp add: memmove_def)
  then show ?thesis by (simp only: numeral_2_eq_2)
qed

lemma run3_eq: "zb_address_delete 0 run2 = Some run3"
  using del_loop_run
  by (simp add: zb_address_delete_def del_short_sorted_def run2_def run3_def addr_zero_def)

lemma ref_of_short_zero: "ref_of_short addr_zero a = None"
  unfolding ref_of_short_None by (auto simp: ent_used_def addr_zero_def zero_ent_def)

lemma addr_wf_run1: "addr_wf run1" "ref_of_short run1 5 = Some 0" "ref_of_short run1 7 = None"
proof -
  have n: "n_elements addr_zero \<noteq> 101" by (simp add: addr_zero_def)
  have "addr_wf run1 \<and> (\<forall>b. b \<noteq> -1 \<longrightarrow> ref_of_short run1 b = (if b = 5 then Some 0 else None))"
    using by_short_new [OF addr_wf_zero _ ref_of_short_zero n, of 5] run1_eq by (simp add: ref_of_short_zero)
  then show "addr_wf run1" "ref_of_short run1 5 = Some 0" "ref_of_short run1 7 = None" by simp_all
qed

lemma addr_wf_run2: "addr_wf run2"
proof -
  have "n_elements run1 \<noteq> 101" by (simp add: run1_def)
  then show ?thesis using by_short_new [OF addr_wf_run1(1) _ addr_wf_run1(3)] run2_eq by simp
qed

theorem zb_address_by_short_refines_witness:
  "\<exists>B i. zb_address_by_short 7 True False run1 = Some (B, RET_OK, Some i) \<and> addr_wf B
     \<and> \<not> ent_used run1 i \<and> (\<forall>b. b \<noteq> -1 \<longrightarrow> ref_of_short B b = (if b = 7 then Some i else ref_of_short run1 b))"
  using zb_address_by_short_refines [of run1 7 True] addr_wf_run1 by (simp add: run1_def)

text \<open>
  \<open>zb_address_delete\<close> is not correct in general: after two devices have been added to the
  initial tables with \<open>zb_address_by_short\<close>, deleting the first one makes the second one
  unreachable by its short address, although its entry is still in use. \<open>del_short_sorted\<close>
  moves the unused slot behind the last element, which still holds reference 0, and counts it
  as a second deletion.
\<close>

theorem zb_address_delete_loses_entry:
  "do { (A, _, _) \<leftarrow> zb_address_by_short 5 True False addr_zero;
        (B, _, ref) \<leftarrow> zb_address_by_short 7 True False A;
        C \<leftarrow> zb_address_delete 0 B;
        (D, ret, _) \<leftarrow> zb_address_by_short 7 False False C;
        Some (ref, ret, am_used (addr_map D ! 1), am_addr (addr_map D ! 1), n_sorted_elements D) }
   = Some (Some 1, RET_NOT_FOUND, True, 7, 0)"
proof -
  have "zb_address_by_short 7 False False run3 = Some (run3, RET_NOT_FOUND, None)"
    by (simp add: zb_address_by_short_def short_search_def run3_def lock_if_def)
  then show ?thesis
    by (simp add: run1_eq run2_eq run3_eq) (simp add: run3_def run2_def run_ent_def addr_zero_def)
qed

section \<open>Deletion when it is safe\<close>

lemma sorted_wrt_remove1:
  "sorted_wrt (<) (map f xs) \<Longrightarrow> distinct xs \<Longrightarrow> sorted_wrt (<) (map f (remove1 x xs))"
  by (simp add: distinct_remove1_removeAll removeAll_filter_not_eq sorted_wrt_map sorted_wrt_filter)

text \<open>
  deleting a used entry for which \<open>del_safe\<close> holds (it has no short address, or is the last
  of the sorted references, or the slot behind the last one exists and does not hold its
  reference) keeps the invariant, frees exactly this entry, leaves all others alone, and every
  lookup by short address gives what it gave before, except that the address of the deleted
  entry is unknown.
\<close>

theorem zb_address_delete_removes:
  assumes wf: "addr_wf A" and u: "ent_used A r" and safe: "del_safe A r"
  shows "\<exists>B. zb_address_delete r A = Some B \<and> addr_wf B \<and> (\<forall>s. ent_used B s \<longleftrightarrow> ent_used A s \<and> s \<noteq> r)
    \<and> (\<forall>s. s \<noteq> r \<longrightarrow> addr_map B ! s = addr_map A ! s)
    \<and> (\<forall>a. a \<noteq> -1 \<longrightarrow> ref_of_short B a = (if ref_of_short A a = Some r then None else ref_of_short A a))"
proof -
  have r: "r < 101" using u by (simp add: ent_used_def)
  have d: "distinct (sorted_refs A)" using wf by (simp add: addr_wf_def)
  obtain A1 where A1: "del_short_sorted r A = Some A1" "sorted_refs A1 = remove1 r (sorted_refs A)"
    "A1 = A\<lparr>short_sorted := short_sorted A1, n_sorted_elements := n_sorted_elements A1\<rparr>"
    "length (short_sorted A1) = 101" "n_sorted_elements A1 \<le> n_sorted_elements A"
    using del_short_sorted_spec [OF addr_wf_sizes [OF wf] d safe] by blast
  have f: "addr_map A1 = addr_map A" "n_elements A1 = n_elements A" "clock_i A1 = clock_i A" "manuf_wf A1 = manuf_wf A"
    using arg_cong [OF A1(3), of addr_map] arg_cong [OF A1(3), of n_elements]
      arg_cong [OF A1(3), of clock_i] arg_cong [OF A1(3), of manuf_wf] by (simp_all add: manuf_wf_def)
  have ne: "0 < n_elements A"
    using wf u card_gt_0_iff [of "{r. ent_used A r}"] by (auto simp: addr_wf_def)
  define B where "B = A1\<lparr>addr_map := (addr_map A)[r := (addr_map A ! r)\<lparr>am_used := False\<rparr>], n_elements := n_elements A - 1\<rparr>"
  have res: "zb_address_delete r A = Some B"
    using A1(1) f r wf ne by (simp add: zb_address_delete_def B_def)
  have m: "addr_map B ! s = addr_map A ! s" if "s \<noteq> r" for s using that by (simp add: B_def)
  have ub: "ent_used B s \<longleftrightarrow> ent_used A s \<and> s \<noteq> r" for s
    using m r wf by (cases "s = r") (auto simp: ent_used_def B_def)
  have ab: "ent_addr B s = ent_addr A s" for s
    using m r wf by (cases "s = r") (auto simp: ent_addr_def B_def)
  have sr: "sorted_refs B = remove1 r (sorted_refs A)" using A1(2) by (simp add: B_def sorted_refs_def)
  have "{s. ent_used B s} = {s. ent_used A s} - {r}" using ub by auto
  then have "n_elements B = card {s. ent_used B s}"
    using wf u by (simp add: B_def addr_wf_def)
  moreover have "sizes_ok B" using wf A1(4,5) f by (simp add: sizes_ok_def B_def addr_wf_def manuf_wf_def)
  moreover have "set (sorted_refs B) = {s. ent_used B s \<and> ent_addr B s \<noteq> -1}"
  proof -
    have "set (sorted_refs A) = {s. ent_used A s \<and> ent_addr A s \<noteq> -1}" using wf by (simp add: addr_wf_def)
    moreover have "set (sorted_refs B) = set (sorted_refs A) - {r}" unfolding sr using d by simp
    ultimately show ?thesis using ub ab by auto
  qed
  moreover have "sorted_wrt (<) (shorts B)"
  proof -
    have e: "shorts B = map (ent_addr A) (remove1 r (sorted_refs A))" using ab sr by (simp add: shorts_def)
    have "sorted_wrt (<) (map (ent_addr A) (sorted_refs A))" using wf by (simp add: addr_wf_def shorts_def)
    from sorted_wrt_remove1 [OF this d] show ?thesis unfolding e .
  qed
  moreover have "distinct (sorted_refs B)" using d sr by simp
  ultimately have wfB: "addr_wf B" unfolding addr_wf_def by blast
  have "ref_of_short B a = (if ref_of_short A a = Some r then None else ref_of_short A a)" if a: "a \<noteq> -1" for a
  proof -
    have "ref_of_short B a = Some s \<longleftrightarrow> ref_of_short A a = Some s \<and> s \<noteq> r" for s
      using ref_of_short_iff [OF wfB a] ref_of_short_iff [OF wf a] ub ab by auto
    then show ?thesis by (metis option.exhaust)
  qed
  with res wfB ub m show ?thesis by blast
qed

theorem zb_address_delete_removes_witness:
  "\<exists>B. zb_address_delete 1 run2 = Some B \<and> addr_wf B \<and> (\<forall>s. ent_used B s \<longleftrightarrow> ent_used run2 s \<and> s \<noteq> 1)
    \<and> (\<forall>s. s \<noteq> 1 \<longrightarrow> addr_map B ! s = addr_map run2 ! s)
    \<and> (\<forall>a. a \<noteq> -1 \<longrightarrow> ref_of_short B a = (if ref_of_short run2 a = Some 1 then None else ref_of_short run2 a))"
proof (rule zb_address_delete_removes)
  show "addr_wf run2" by (rule addr_wf_run2)
  show "ent_used run2 1" by (simp add: ent_used_def run2_def run_ent_def addr_zero_def)
  have "sorted_refs run2 = [0, 1]"
    by (simp add: sorted_refs_def run2_def addr_zero_def list_eq_iff_nth_eq less_2_cases_iff)
  then show "del_safe run2 1" by (simp add: del_safe_def)
qed

end
