(* ===== verification/Zb_Addr_Ieee.thy ===== *)
theory Zb_Addr_Ieee
  imports Zb_Addr_Props
begin

text \<open>
  The contract of an address lookup as a locale, the compressed IEEE addresses with the table of
  manufacturer codes, the lock counters, and the table of PAN identifiers.
\<close>

section \<open>Stable references\<close>

text \<open>
  \<open>resolve\<close> returns the reference of a key, making one if there is none and there is room;
  \<open>lookup\<close> is what it stands for. Everything the stack stores as an address reference relies on
  resolving other addresses not changing it.
\<close>

locale addr_translation =
  fixes inv :: "'s \<Rightarrow> bool" and ok :: "'k \<Rightarrow> bool" and lookup :: "'s \<Rightarrow> 'k \<Rightarrow> nat option"
    and resolve :: "'k \<Rightarrow> 's \<Rightarrow> ('s \<times> zb_ret_t \<times> nat option) option"
  assumes resolve_known: "inv s \<Longrightarrow> ok k \<Longrightarrow> lookup s k = Some r \<Longrightarrow>
      \<exists>s'. resolve k s = Some (s', RET_OK, Some r) \<and> inv s' \<and> (\<forall>k'. ok k' \<longrightarrow> lookup s' k' = lookup s k')"
    and resolve_new: "inv s \<Longrightarrow> ok k \<Longrightarrow> lookup s k = None \<Longrightarrow>
      resolve k s = Some (s, RET_OVERFLOW, None)
      \<or> (\<exists>s' r. resolve k s = Some (s', RET_OK, Some r) \<and> inv s'
           \<and> (\<forall>k'. ok k' \<longrightarrow> lookup s' k' = (if k' = k then Some r else lookup s k')))"
begin

definition resolve1 :: "'k \<Rightarrow> 's \<Rightarrow> 's option" where
  "resolve1 k s = map_option fst (resolve k s)"

fun resolve_all :: "'k list \<Rightarrow> 's \<Rightarrow> 's option" where
  "resolve_all [] s = Some s"
| "resolve_all (k # ks) s = Option.bind (resolve1 k s) (resolve_all ks)"

lemma resolve1_keeps:
  assumes "inv s" "ok k"
  shows "\<exists>s'. resolve1 k s = Some s' \<and> inv s' \<and> (\<forall>k' r. ok k' \<and> lookup s k' = Some r \<longrightarrow> lookup s' k' = Some r)"
proof (cases "lookup s k")
  case None
  from resolve_new [OF assms None] assms show ?thesis
  proof (elim disjE exE conjE)
    fix s' r assume *: "resolve k s = Some (s', RET_OK, Some r)" "inv s'"
      "\<forall>k'. ok k' \<longrightarrow> lookup s' k' = (if k' = k then Some r else lookup s k')"
    then show ?thesis using None by (intro exI [of _ s']) (auto simp: resolve1_def)
  qed (simp add: resolve1_def)
next
  case (Some r)
  from resolve_known [OF assms Some] show ?thesis by (auto simp: resolve1_def)
qed

lemma resolve_all_keeps:
  "inv s \<Longrightarrow> \<forall>k\<in>set ks. ok k \<Longrightarrow>
   \<exists>s'. resolve_all ks s = Some s' \<and> inv s' \<and> (\<forall>k r. ok k \<and> lookup s k = Some r \<longrightarrow> lookup s' k = Some r)"
proof (induction ks arbitrary: s)
  case (Cons k ks)
  from resolve1_keeps [of s k] Cons.prems obtain s1 where
    s1: "resolve1 k s = Some s1" "inv s1" "\<forall>k' r. ok k' \<and> lookup s k' = Some r \<longrightarrow> lookup s1 k' = Some r" by auto
  with Cons.IH [of s1] Cons.prems show ?case by auto
qed simp

lemma resolve_again:
  assumes "inv s" "ok k" "resolve k s = Some (s1, RET_OK, Some r)" "\<forall>x\<in>set ks. ok x" "resolve_all ks s1 = Some s2"
  shows "\<exists>s3. resolve k s2 = Some (s3, RET_OK, Some r)"
proof -
  have "inv s1 \<and> lookup s1 k = Some r"
  proof (cases "lookup s k")
    case None
    with resolve_new [OF assms(1,2) None] assms(2,3) show ?thesis by auto
  next
    case (Some r')
    with resolve_known [OF assms(1,2) Some] assms(2,3) show ?thesis by auto
  qed
  with resolve_all_keeps [of s1 ks] assms(2,4,5) have "inv s2 \<and> lookup s2 k = Some r" by auto
  with resolve_known [of s2 k r] assms(2) show ?thesis by blast
qed

end

interpretation short: addr_translation addr_wf "\<lambda>a. a \<noteq> -1" ref_of_short "\<lambda>a. zb_address_by_short a True False"
proof unfold_locales
  fix A a r assume wf: "addr_wf A" and a: "(a :: zb_uint16_t) \<noteq> -1" and r: "ref_of_short A a = Some r"
  then have "ent_used A r" using ref_of_short_iff by simp
  from touch_facts [OF wf this] obtain B where
    "upd_ent r (\<lambda>e. e\<lparr>am_clock := True\<rparr>) A = Some B" "addr_wf B" "ref_of_short B = ref_of_short A" by blast
  then show "\<exists>B. zb_address_by_short a True False A = Some (B, RET_OK, Some r) \<and> addr_wf B
      \<and> (\<forall>k'. k' \<noteq> -1 \<longrightarrow> ref_of_short B k' = ref_of_short A k')"
    using short_search_ref [OF wf a] r by (auto simp: zb_address_by_short_def lock_if_def)
next
  fix A a assume "addr_wf A" "(a :: zb_uint16_t) \<noteq> -1" "ref_of_short A a = None"
  from by_short_full [OF this] by_short_new [OF this]
  show "zb_address_by_short a True False A = Some (A, RET_OVERFLOW, None) \<or>
      (\<exists>B r. zb_address_by_short a True False A = Some (B, RET_OK, Some r) \<and> addr_wf B
         \<and> (\<forall>k'. k' \<noteq> -1 \<longrightarrow> ref_of_short B k' = (if k' = a then Some r else ref_of_short A k')))"
    by blast
qed

text \<open>The addresses that a run of calls resolves, one after the other.\<close>

fun resolve_shorts :: "zb_uint16_t list \<Rightarrow> zb_addr_globals \<Rightarrow> zb_addr_globals option" where
  "resolve_shorts [] A = Some A"
| "resolve_shorts (a # as) A = do {
     (B, _, _) \<leftarrow> zb_address_by_short a True False A;
     resolve_shorts as B }"

lemma resolve_shorts_eq: "resolve_shorts as A = short.resolve_all as A"
  by (induction as arbitrary: A)
    (auto simp: short.resolve1_def map_option_case split: option.split Option.bind_split)

text \<open>
  C22: an address reference is stable: once \<open>zb_address_by_short\<close> has returned a reference, it
  returns the same one after any sequence of further calls for other short addresses (as long as
  nothing is deleted), even when the table overflows in between; none of these calls fails an
  assertion.
\<close>

theorem zb_address_by_short_stable:
  assumes "addr_wf A" "a \<noteq> -1" "zb_address_by_short a True False A = Some (B, RET_OK, Some r)"
    and "-1 \<notin> set as"
  shows "\<exists>C D. resolve_shorts as B = Some C \<and> zb_address_by_short a True False C = Some (D, RET_OK, Some r)"
proof -
  have as: "\<forall>x\<in>set as. x \<noteq> -1" using assms(4) by metis
  have "addr_wf B"
  proof (cases "ref_of_short A a")
    case None
    with short.resolve_new [OF assms(1,2) None] assms(3) show ?thesis by auto
  next
    case (Some s)
    with short.resolve_known [OF assms(1,2) Some] assms(3) show ?thesis by auto
  qed
  from short.resolve_all_keeps [OF this as] obtain C where "short.resolve_all as B = Some C" by blast
  with short.resolve_again [OF assms(1-3) as this] show ?thesis by (simp add: resolve_shorts_eq)
qed

theorem zb_address_by_short_stable_witness:
  "\<exists>C D. resolve_shorts [7, 9] run1 = Some C \<and> zb_address_by_short 5 True False C = Some (D, RET_OK, Some 0)"
  using zb_address_by_short_stable [OF addr_wf_zero _ run1_eq, of "[7, 9]"] by simp

section \<open>Manufacturer codes\<close>

abbreviation manuf_used :: "zb_addr_globals \<Rightarrow> nat \<Rightarrow> bool" where
  "manuf_used A i \<equiv> zb_check_bit_in_bit_vector (used_manufacturer A) i"

definition manuf_known :: "zb_addr_globals \<Rightarrow> zb_uint8_t list \<Rightarrow> bool" where
  "manuf_known A m \<longleftrightarrow> (\<exists>i<16. manuf_used A i \<and> dev_manufacturer A ! i = m)"

definition full_from :: "zb_addr_globals \<Rightarrow> nat \<Rightarrow> bool" where
  "full_from A i \<longleftrightarrow> (\<forall>j\<in>{i..<16}. manuf_used A j)"

definition none_from :: "zb_addr_globals \<Rightarrow> zb_uint8_t list \<Rightarrow> nat \<Rightarrow> bool" where
  "none_from A m i \<longleftrightarrow> (\<forall>j\<in>{i..<16}. manuf_used A j \<longrightarrow> dev_manufacturer A ! j \<noteq> m)"

lemma from_rec:
  assumes "i < 16"
  shows "full_from A i \<longleftrightarrow> manuf_used A i \<and> full_from A (i + 1)"
    "none_from A m i \<longleftrightarrow> (manuf_used A i \<longrightarrow> dev_manufacturer A ! i \<noteq> m) \<and> none_from A m (i + 1)"
  using assms by (simp_all add: full_from_def none_from_def atLeastLessThanSuc_atLeastAtMost
    ivl_disj_un_singleton(3) [symmetric, of i 16] flip: atLeastSucLessThan_greaterThanLessThan)

lemma manuf_scan_spec:
  "i + n = 16 \<Longrightarrow> case manuf_scan n A m i f of (k, f') \<Rightarrow>
     (k < 16 \<and> manuf_used A k \<and> dev_manufacturer A ! k = m)
   \<or> (k = 16 \<and> none_from A m i \<and> (if full_from A i then f' = f else f' < 16 \<and> \<not> manuf_used A f'))"
proof (induction n arbitrary: i f)
  case (Suc n)
  obtain k f' where kf: "manuf_scan n A m (i + 1) (if manuf_used A i then f else i) = (k, f')" by fastforce
  note IH = Suc.IH [of "i + 1" "if manuf_used A i then f else i"]
  show ?case
  proof (cases "manuf_used A i \<and> dev_manufacturer A ! i = m")
    case True
    with Suc.prems show ?thesis by simp
  next
    case False
    then have "manuf_scan (Suc n) A m i f = (k, f')" using kf by auto
    with IH kf False Suc.prems from_rec [of i] show ?thesis by (auto split: if_splits)
  qed
qed (simp add: full_from_def none_from_def)

lemma compress_roundtrip:
  assumes wf: "manuf_wf A" and l: "length addr = 8"
  shows "if manuf_known A (take 3 addr) \<or> (\<exists>i<16. \<not> manuf_used A i)
    then \<exists>B c. zb_ieee_addr_compress addr A = Some (B, c) \<and> zb_ieee_addr_decompress c B = Some addr
      \<and> manuf_wf B \<and> manuf_used B (ca_manufacturer c)
      \<and> (\<forall>c'. ca_manufacturer c' < 16 \<and> manuf_used A (ca_manufacturer c') \<longrightarrow>
            manuf_used B (ca_manufacturer c') \<and> zb_ieee_addr_decompress c' B = zb_ieee_addr_decompress c' A)
    else zb_ieee_addr_compress addr A = None"
proof -
  let ?m = "take 3 addr"
  obtain k f where kf: "manuf_scan 16 A ?m 0 16 = (k, f)" by fastforce
  define i where "i = (if k = 16 then f else k)"
  note sc = manuf_scan_spec [of 0 16 A ?m 16]
  have ok: "manuf_known A ?m \<or> (\<exists>i<16. \<not> manuf_used A i) \<longleftrightarrow> i \<noteq> 16"
    and i: "i \<noteq> 16 \<Longrightarrow> i < 16 \<and> (manuf_used A i \<longrightarrow> dev_manufacturer A ! i = ?m)"
    using sc kf by (auto simp: i_def manuf_known_def full_from_def none_from_def split: if_splits)
  have len: "length (used_manufacturer A) = 3" "length (dev_manufacturer A) = 16" "\<forall>m\<in>set (dev_manufacturer A). length m = 3"
    using wf by (simp_all add: manuf_wf_def)
  show ?thesis
  proof (cases "i = 16")
    case True
    then show ?thesis using ok kf
      by (simp add: zb_ieee_addr_compress_def ZB_DEV_MANUFACTORER_TABLE_SIZE_def i_def split: if_splits)
  next
    case False
    let ?B = "A\<lparr>used_manufacturer := zb_set_bit_in_bit_vector (used_manufacturer A) i,
             dev_manufacturer := (dev_manufacturer A)[i := ?m]\<rparr>"
    let ?c = "\<lparr>ca_manufacturer = i, ca_device_id = take 5 (drop 3 addr)\<rparr>"
    have res: "zb_ieee_addr_compress addr A = Some (?B, ?c)"
      using False kf by (simp add: zb_ieee_addr_compress_def ZB_DEV_MANUFACTORER_TABLE_SIZE_def i_def [symmetric])
    have "zb_ieee_addr_decompress ?c ?B = Some addr"
      using i [OF False] len l append_take_drop_id [of 3 addr] by (simp add: zb_ieee_addr_decompress_def)
    moreover have "manuf_wf ?B"
      using len l set_update_subset_insert [of "dev_manufacturer A" i ?m] by (auto simp: manuf_wf_def)
    moreover have bit: "manuf_used ?B j \<longleftrightarrow> i = j \<or> manuf_used A j" if "j < 16" for j
    proof -
      have "i div 8 < 3" "j div 8 < 3" using that i [OF False] by (simp_all add: div_less_iff_less_mult)
      then show ?thesis using check_set_bit [of i "used_manufacturer A" j] len by simp
    qed
    moreover have "zb_ieee_addr_decompress c' ?B = zb_ieee_addr_decompress c' A"
      if "ca_manufacturer c' < 16" "manuf_used A (ca_manufacturer c')" for c'
      using that i [OF False] len by (cases "ca_manufacturer c' = i") (simp_all add: zb_ieee_addr_decompress_def)
    ultimately show ?thesis using ok False res i by auto
  qed
qed

lemma manuf_wf_zero: "manuf_wf addr_zero"
  using addr_wf_sizes [OF addr_wf_zero] by (simp add: sizes_ok_def)

lemma manuf_free_zero: "\<exists>i<16. \<not> manuf_used addr_zero i"
  by (intro exI [of _ 0]) (simp add: check_bit_iff addr_zero_def)

lemma compress_zero:
  "length a = 8 \<Longrightarrow> \<exists>B c. zb_ieee_addr_compress a addr_zero = Some (B, c)"
  using compress_roundtrip [OF manuf_wf_zero, of a] manuf_free_zero by (auto split: if_splits)

text \<open>
  C23: \<open>zb_ieee_addr_compress\<close> and \<open>zb_ieee_addr_decompress\<close> are inverse to each other: when the
  manufacturer is known or one of the 16 manufacturer slots is free, compressing an 8-byte
  address and decompressing the result gives the address back, and every compressed address whose
  manufacturer slot was in use before still decompresses to the same address. Otherwise the
  function fails its assertion.
\<close>

theorem zb_ieee_addr_compress_roundtrip:
  assumes wf: "manuf_wf A" and l: "length addr = 8"
  shows "if manuf_known A (take 3 addr) \<or> (\<exists>i<16. \<not> manuf_used A i)
    then \<exists>B c. zb_ieee_addr_compress addr A = Some (B, c) \<and> zb_ieee_addr_decompress c B = Some addr
      \<and> manuf_wf B \<and> manuf_used B (ca_manufacturer c)
      \<and> (\<forall>c'. ca_manufacturer c' < 16 \<and> manuf_used A (ca_manufacturer c') \<longrightarrow>
            manuf_used B (ca_manufacturer c') \<and> zb_ieee_addr_decompress c' B = zb_ieee_addr_decompress c' A)
    else zb_ieee_addr_compress addr A = None"
  by (rule compress_roundtrip [OF assms])

theorem zb_ieee_addr_compress_roundtrip_witness:
  "\<exists>B c. zb_ieee_addr_compress [1, 2, 3, 4, 5, 6, 7, 8] addr_zero = Some (B, c)
     \<and> zb_ieee_addr_decompress c B = Some [1, 2, 3, 4, 5, 6, 7, 8]"
  using zb_ieee_addr_compress_roundtrip [OF manuf_wf_zero, of "[1, 2, 3, 4, 5, 6, 7, 8]"] manuf_free_zero
  by (simp only: if_P disj_comms list.size) auto

section \<open>Locks\<close>

text \<open>
  the lock counter of an entry has 4 bits: \<open>zb_address_lock\<close> fails its assertion exactly when
  the entry is already locked 15 times; otherwise it keeps the invariant and every lookup, counts
  one up and marks the entry recently used, and \<open>zb_address_unlock\<close> undoes it, up to that mark.
\<close>

theorem zb_address_lock_unlock:
  assumes wf: "addr_wf A" and r: "r < 101"
  shows "if am_lock_cnt (addr_map A ! r) = 15 then zb_address_lock r A = None
    else \<exists>B. zb_address_lock r A = Some B \<and> addr_wf B \<and> ref_of_short B = ref_of_short A
      \<and> unat (am_lock_cnt (addr_map B ! r)) = Suc (unat (am_lock_cnt (addr_map A ! r)))
      \<and> zb_address_unlock r B = Some (A\<lparr>addr_map := (addr_map A)[r := (addr_map A ! r)\<lparr>am_clock := True\<rparr>]\<rparr>)"
proof -
  let ?n = "am_lock_cnt (addr_map A ! r)"
  let ?f = "\<lambda>e. e\<lparr>am_lock_cnt := am_lock_cnt e + 1, am_clock := True\<rparr>"
  let ?B = "A\<lparr>addr_map := (addr_map A)[r := ?f (addr_map A ! r)]\<rparr>"
  have len: "length (addr_map A) = 101" using wf by simp
  have w: "?n + 1 = 0 \<longleftrightarrow> ?n = 15"
  proof -
    have "(15 :: 4 word) = -1" by simp
    then show ?thesis by (metis add_eq_0_iff2 add.commute)
  qed
  show ?thesis
  proof (cases "?n = 15")
    case True
    then show ?thesis using len r by (simp add: zb_address_lock_def)
  next
    case False
    then have n: "?n + 1 \<noteq> 0" using w by simp
    have "zb_address_lock r A = Some ?B" using n len r by (simp add: zb_address_lock_def)
    moreover have "addr_wf ?B" using addr_wf_upd [OF wf r, of ?f] by simp
    moreover have "ent_used ?B s = ent_used A s \<and> ent_addr ?B s = ent_addr A s" for s
      using r len by (cases "s = r") (simp_all add: ent_used_def ent_addr_def)
    then have "ref_of_short ?B = ref_of_short A" by (simp add: ref_of_short_def fun_eq_iff)
    moreover have "unat (?n + 1) = Suc (unat ?n)"
      using unatSuc [of ?n] n by (metis add.commute)
    moreover have "zb_address_unlock r ?B = Some (A\<lparr>addr_map := (addr_map A)[r := (addr_map A ! r)\<lparr>am_clock := True\<rparr>]\<rparr>)"
      using n len r by (simp add: zb_address_unlock_def)
    ultimately show ?thesis using False r len by auto
  qed
qed

theorem zb_address_lock_unlock_witness:
  "\<exists>B. zb_address_lock 0 run2 = Some B \<and> addr_wf B \<and> ref_of_short B = ref_of_short run2
     \<and> unat (am_lock_cnt (addr_map B ! 0)) = Suc (unat (am_lock_cnt (addr_map run2 ! 0)))"
proof -
  have "am_lock_cnt (addr_map run2 ! 0) \<noteq> 15"
    by (simp add: run2_def run_ent_def addr_zero_def zero_ent_def)
  then show ?thesis using zb_address_lock_unlock [OF addr_wf_run2, of 0] by auto
qed

section \<open>PAN identifiers\<close>

abbreviation pan_used :: "zb_addr_globals \<Rightarrow> nat \<Rightarrow> bool" where
  "pan_used A i \<equiv> zb_check_bit_in_bit_vector (used_pan_addr A) i"

definition pan_at :: "zb_addr_globals \<Rightarrow> zb_uint8_t list \<Rightarrow> nat \<Rightarrow> bool" where
  "pan_at A p i \<longleftrightarrow> i < 8 \<and> pan_used A i \<and> pm_long_panid (pan_map A ! i) = p"

definition pan_wf :: "zb_addr_globals \<Rightarrow> bool" where
  "pan_wf A \<longleftrightarrow> length (pan_map A) = 8 \<and> length (used_pan_addr A) = 2
     \<and> (\<forall>i j p. pan_at A p i \<and> pan_at A p j \<longrightarrow> i = j)"

lemma pan_next: "h < 8 \<Longrightarrow> j < 8 \<Longrightarrow> ((h + j) mod 8 + 1) mod 8 \<noteq> h \<longleftrightarrow> j \<noteq> (7::nat)"
  by (auto simp: mod_simps) (auto simp: mod_if split: if_splits)

lemma pan_set_loop_spec:
  "h < 8 \<Longrightarrow> j + n = 8 \<Longrightarrow> 0 < n \<Longrightarrow> case pan_set_loop n A p h ((h + j) mod 8) f of
      (Some i, _) \<Rightarrow> pan_at A p i
    | (None, f') \<Rightarrow> (\<forall>k. j \<le> k \<and> k < 8 \<longrightarrow> \<not> pan_at A p ((h + k) mod 8))
        \<and> ((f' = f \<and> (\<forall>k. j \<le> k \<and> k < 8 \<longrightarrow> pan_used A ((h + k) mod 8)))
           \<or> (\<exists>x. f' = Some x \<and> x < 8 \<and> \<not> pan_used A x))"
proof (induction n arbitrary: j f)
  case (Suc n)
  let ?i = "(h + j) mod 8" and ?f = "if pan_used A ((h + j) mod 8) then f else Some ((h + j) mod 8)"
  have nx: "(?i + 1) mod 8 = (h + Suc j) mod 8" by (simp add: mod_simps)
  have j8: "j < 8" using Suc.prems by simp
  have all: "(\<forall>k. j \<le> k \<and> k < 8 \<longrightarrow> P k) \<longleftrightarrow> P j \<and> (\<forall>k. Suc j \<le> k \<and> k < 8 \<longrightarrow> P k)" for P
    using j8 by (metis Suc_leD Suc_leI le_neq_implies_less order_refl)
  show ?case
  proof (cases "pan_at A p ?i")
    case True
    then show ?thesis by (simp add: pan_at_def)
  next
    case False
    then have nf: "\<not> (pan_used A ?i \<and> pm_long_panid (pan_map A ! ?i) = p)" by (simp add: pan_at_def)
    show ?thesis
    proof (cases "j = 7")
      case True
      then have e: "pan_set_loop (Suc n) A p h ?i f = (None, ?f)"
        using nf pan_next [OF Suc.prems(1) j8] by (auto simp: Let_def ZB_PANID_TABLE_SIZE_def)
      show ?thesis unfolding e all using \<open>\<not> pan_at A p ?i\<close> True by auto
    next
      case False
      then have step: "pan_set_loop (Suc n) A p h ?i f = pan_set_loop n A p h ((h + Suc j) mod 8) ?f"
        using nf pan_next [OF Suc.prems(1) j8] nx by (auto simp: Let_def ZB_PANID_TABLE_SIZE_def)
      have "0 < n" "Suc j + n = 8" using Suc.prems False by simp_all
      from Suc.IH [OF Suc.prems(1) this(2,1), of ?f] show ?thesis
        unfolding step all using \<open>\<not> pan_at A p ?i\<close>
        by (auto split: prod.splits option.splits if_splits)
    qed
  qed
qed simp

lemma pan_ref_loop_spec:
  "h < 8 \<Longrightarrow> j + n = 8 \<Longrightarrow> 0 < n \<Longrightarrow> case pan_ref_loop n A p h ((h + j) mod 8) of
      Some i \<Rightarrow> pan_at A p i
    | None \<Rightarrow> \<forall>k. j \<le> k \<and> k < 8 \<longrightarrow> \<not> pan_at A p ((h + k) mod 8)"
proof (induction n arbitrary: j)
  case (Suc n)
  let ?i = "(h + j) mod 8"
  have nx: "(?i + 1) mod 8 = (h + Suc j) mod 8" by (simp add: mod_simps)
  have j8: "j < 8" using Suc.prems by simp
  have all: "(\<forall>k. j \<le> k \<and> k < 8 \<longrightarrow> P k) \<longleftrightarrow> P j \<and> (\<forall>k. Suc j \<le> k \<and> k < 8 \<longrightarrow> P k)" for P
    using j8 by (metis Suc_leD Suc_leI le_neq_implies_less order_refl)
  show ?case
  proof (cases "pan_at A p ?i")
    case True
    then show ?thesis by (simp add: pan_at_def)
  next
    case False
    then have nf: "\<not> (pan_used A ?i \<and> pm_long_panid (pan_map A ! ?i) = p)" by (simp add: pan_at_def)
    show ?thesis
    proof (cases "j = 7")
      case True
      then have e: "pan_ref_loop (Suc n) A p h ?i = None"
        using nf pan_next [OF Suc.prems(1) j8] by (auto simp: Let_def ZB_PANID_TABLE_SIZE_def)
      show ?thesis unfolding e all using \<open>\<not> pan_at A p ?i\<close> True by auto
    next
      case False
      then have step: "pan_ref_loop (Suc n) A p h ?i = pan_ref_loop n A p h ((h + Suc j) mod 8)"
        using nf pan_next [OF Suc.prems(1) j8] nx by (auto simp: Let_def ZB_PANID_TABLE_SIZE_def)
      have "0 < n" "Suc j + n = 8" using Suc.prems False by simp_all
      from Suc.IH [OF Suc.prems(1) this(2,1)] show ?thesis
        unfolding step all using \<open>\<not> pan_at A p ?i\<close> by (auto split: option.splits)
    qed
  qed
qed simp

lemma pan_hash_bound: "ZB_ADDRESS_PAN_ID_HASH p < 8"
  by (simp add: ZB_ADDRESS_PAN_ID_HASH_def ZB_PANID_TABLE_SIZE_def)

lemma pan_all: "(\<forall>k<8. \<not> pan_at A p ((ZB_ADDRESS_PAN_ID_HASH p + k) mod 8)) \<longleftrightarrow> (\<forall>i. \<not> pan_at A p i)"
  using probe_covers [OF pan_hash_bound, of "pan_at A p" p] by (auto simp: pan_at_def)

lemma get_pan_id_ref_spec:
  assumes "pan_wf A"
  shows "zb_address_get_pan_id_ref p A = (RET_OK, Some i) \<longleftrightarrow> pan_at A p i"
    "(\<forall>i. \<not> pan_at A p i) \<Longrightarrow> zb_address_get_pan_id_ref p A = (RET_NOT_FOUND, None)"
proof -
  let ?l = "pan_ref_loop 8 A p (ZB_ADDRESS_PAN_ID_HASH p) (ZB_ADDRESS_PAN_ID_HASH p)"
  have "case ?l of Some i \<Rightarrow> pan_at A p i | None \<Rightarrow> \<forall>i. \<not> pan_at A p i"
    using pan_ref_loop_spec [OF pan_hash_bound, of 0 8 A p p] pan_hash_bound [of p] pan_all [of A p]
    by (auto split: option.splits)
  then show "zb_address_get_pan_id_ref p A = (RET_OK, Some i) \<longleftrightarrow> pan_at A p i"
    "(\<forall>i. \<not> pan_at A p i) \<Longrightarrow> zb_address_get_pan_id_ref p A = (RET_NOT_FOUND, None)"
    using assms by (auto simp: zb_address_get_pan_id_ref_def Let_def ZB_PANID_TABLE_SIZE_def pan_wf_def split: option.splits)
qed

text \<open>
  the table of 8 PAN identifiers behaves like a map. \<open>zb_address_set_pan_id\<close> reports
  \<open>RET_ALREADY_EXISTS\<close> with the slot of an extended PAN identifier that is in the table, or stores it in a
  free slot, keeping all others, or reports \<open>RET_OVERFLOW\<close> when all slots are in use. Afterwards
  \<open>zb_address_get_pan_id_ref\<close> finds the slot, and the slot gives back both identifiers.
\<close>

theorem zb_address_set_pan_id_roundtrip:
  assumes wf: "pan_wf A"
  shows "case zb_address_set_pan_id sp p A of (B, ret, ref) \<Rightarrow> pan_wf B
    \<and> (if \<exists>i. pan_at A p i then ret = RET_ALREADY_EXISTS \<and> B = A \<and> (\<exists>i. ref = Some i \<and> pan_at A p i)
       else if \<forall>i<8. pan_used A i then ret = RET_OVERFLOW \<and> B = A \<and> ref = None
       else ret = RET_OK \<and> (\<exists>i. ref = Some i \<and> \<not> pan_used A i \<and> zb_address_get_pan_id i B = Some p
         \<and> zb_address_get_short_pan_id i B = Some sp \<and> zb_address_get_pan_id_ref p B = (RET_OK, Some i)
         \<and> (\<forall>q j. q \<noteq> p \<longrightarrow> pan_at B q j = pan_at A q j)))"
proof -
  let ?h = "ZB_ADDRESS_PAN_ID_HASH p"
  let ?l = "pan_set_loop 8 A p ?h ?h None"
  note sp = pan_set_loop_spec [OF pan_hash_bound, of 0 8 A p p None]
  have h: "?h mod 8 = ?h" using pan_hash_bound by simp
  have cover: "(\<forall>k<8. pan_used A ((?h + k) mod 8)) \<longleftrightarrow> (\<forall>i<8. pan_used A i)"
    using probe_covers [OF pan_hash_bound, of "\<lambda>i. \<not> pan_used A i" p] by auto
  have len: "length (pan_map A) = 8" "length (used_pan_addr A) = 2" using wf by (simp_all add: pan_wf_def)
  consider (old) i f where "?l = (Some i, f)" "pan_at A p i"
    | (full) "?l = (None, None)" "\<forall>i. \<not> pan_at A p i" "\<forall>i<8. pan_used A i"
    | (new) x where "?l = (None, Some x)" "\<forall>i. \<not> pan_at A p i" "x < 8" "\<not> pan_used A x"
    using sp h pan_all [of A p] cover by (auto split: prod.splits option.splits)
  then show ?thesis
  proof cases
    case old
    then show ?thesis using wf by (auto simp: zb_address_set_pan_id_def Let_def ZB_PANID_TABLE_SIZE_def)
  next
    case full
    then show ?thesis using wf by (auto simp: zb_address_set_pan_id_def Let_def ZB_PANID_TABLE_SIZE_def)
  next
    case new
    let ?B = "A\<lparr>pan_map := (pan_map A)[x := \<lparr>pm_long_panid = p, pm_short_panid = sp\<rparr>],
             used_pan_addr := zb_set_bit_in_bit_vector (used_pan_addr A) x\<rparr>"
    have res: "zb_address_set_pan_id sp p A = (?B, RET_OK, Some x)"
      using new by (simp add: zb_address_set_pan_id_def Let_def ZB_PANID_TABLE_SIZE_def)
    have bit: "pan_used ?B j \<longleftrightarrow> x = j \<or> pan_used A j" if "j < 8" for j
      using check_set_bit [of x "used_pan_addr A" j] that new(3) len by simp
    have at: "pan_at ?B q j \<longleftrightarrow> (if j = x then q = p else pan_at A q j)" for q j
      using bit [of j] len new(3) by (cases "j = x") (auto simp: pan_at_def)
    have "pan_wf ?B" using wf len new(2) unfolding pan_wf_def at by (auto split: if_splits)
    moreover have "zb_address_get_pan_id_ref p ?B = (RET_OK, Some x)"
      using get_pan_id_ref_spec(1) [OF \<open>pan_wf ?B\<close>] at by simp
    moreover have "pan_ref_ok ?B x" using bit [OF new(3)] new(3) by (simp add: pan_ref_ok_def ZB_PANID_TABLE_SIZE_def)
    then have "zb_address_get_pan_id x ?B = Some p" "zb_address_get_short_pan_id x ?B = Some sp"
      using len new(3) by (simp_all add: zb_address_get_pan_id_def zb_address_get_short_pan_id_def)
    moreover have "\<forall>q j. q \<noteq> p \<longrightarrow> pan_at ?B q j = pan_at A q j"
      using at new(4) by (auto simp: pan_at_def)
    moreover have "\<not> (\<exists>i. pan_at A p i)" "\<not> (\<forall>i<8. pan_used A i)" using new by auto
    ultimately show ?thesis unfolding res using new(4) by auto
  qed
qed

theorem zb_address_set_pan_id_roundtrip_witness:
  "pan_wf addr_zero \<and> pan_wf (fst (zb_address_set_pan_id 7 [1, 2, 3, 4, 5, 6, 7, 8] addr_zero))"
proof -
  have w: "pan_wf addr_zero"
    by (auto simp: pan_wf_def pan_at_def addr_zero_def check_bit_iff less_Suc_eq_0_disj div_less_iff_less_mult)
  with zb_address_set_pan_id_roundtrip [OF w, where sp = 7 and p = "[1, 2, 3, 4, 5, 6, 7, 8]"] show ?thesis
    by (auto split: prod.splits)
qed

section \<open>Resolving a long address again\<close>

definition manuf_at :: "zb_addr_globals \<Rightarrow> zb_uint8_t list \<Rightarrow> nat \<Rightarrow> bool" where
  "manuf_at A m j \<longleftrightarrow> manuf_used A j \<and> dev_manufacturer A ! j = m"

text \<open>The scan finds the first slot of the manufacturer.\<close>

lemma manuf_scan_first:
  "i + n = 16 \<Longrightarrow> manuf_scan n A m i f = (k, f') \<Longrightarrow>
   (k < 16 \<and> manuf_at A m k \<and> (\<forall>j. i \<le> j \<and> j < k \<longrightarrow> \<not> manuf_at A m j))
   \<or> (k = 16 \<and> (\<forall>j. i \<le> j \<and> j < 16 \<longrightarrow> \<not> manuf_at A m j))"
proof (induction n arbitrary: i f)
  case (Suc n)
  show ?case
  proof (cases "manuf_at A m i")
    case True
    then show ?thesis using Suc.prems by (auto simp: manuf_at_def)
  next
    case False
    then obtain g where "manuf_scan n A m (i + 1) g = (k, f')"
      using Suc.prems(2) by (auto simp: manuf_at_def split: if_splits)
    with Suc.IH [of "i + 1" g] Suc.prems(1) have IH:
      "(k < 16 \<and> manuf_at A m k \<and> (\<forall>j. i + 1 \<le> j \<and> j < k \<longrightarrow> \<not> manuf_at A m j))
       \<or> (k = 16 \<and> (\<forall>j. i + 1 \<le> j \<and> j < 16 \<longrightarrow> \<not> manuf_at A m j))" by simp
    have "\<not> manuf_at A m j" if "i \<le> j" "\<not> i + 1 \<le> j" for j
      using that False by (cases "j = i") simp_all
    with IH show ?thesis by blast
  qed
qed auto

lemma manuf_scan_unique:
  assumes "k < 16" "manuf_at A m k" "\<forall>j<k. \<not> manuf_at A m j"
  shows "fst (manuf_scan 16 A m 0 f) = k"
proof -
  obtain k' f' where s: "manuf_scan 16 A m 0 f = (k', f')" by fastforce
  have "k' = k" using manuf_scan_first [OF _ s] assms by (cases k k' rule: linorder_cases) auto
  then show ?thesis using s by simp
qed

text \<open>Compressing an address again gives the same compressed address, and changes nothing.\<close>

lemma compress_cases:
  assumes l: "length a = 8" and wf: "manuf_wf A" and c: "zb_ieee_addr_compress a A = Some (B, c)"
  shows "ca_manufacturer c < 16 \<and> manuf_wf B \<and> manuf_at B (take 3 a) (ca_manufacturer c)
    \<and> (\<forall>j<ca_manufacturer c. \<not> manuf_at B (take 3 a) j) \<and> addr_map B = addr_map A
    \<and> ca_device_id c = take 5 (drop 3 a) \<and> short_sorted B = short_sorted A \<and> n_elements B = n_elements A
    \<and> n_sorted_elements B = n_sorted_elements A \<and> clock_i B = clock_i A"
proof -
  let ?m = "take 3 a"
  obtain k f where kf: "manuf_scan 16 A ?m 0 16 = (k, f)" by fastforce
  define i where "i = (if k = 16 then f else k)"
  have i16: "i \<noteq> 16" using c kf
    by (auto simp: zb_ieee_addr_compress_def ZB_DEV_MANUFACTORER_TABLE_SIZE_def i_def split: if_splits)
  have B: "B = A\<lparr>used_manufacturer := zb_set_bit_in_bit_vector (used_manufacturer A) i,
             dev_manufacturer := (dev_manufacturer A)[i := ?m]\<rparr>"
    "c = \<lparr>ca_manufacturer = i, ca_device_id = take 5 (drop 3 a)\<rparr>"
    using c kf i16 by (auto simp: zb_ieee_addr_compress_def ZB_DEV_MANUFACTORER_TABLE_SIZE_def i_def split: if_splits)
  have fst: "(k < 16 \<and> manuf_at A ?m k \<and> (\<forall>j<k. \<not> manuf_at A ?m j)) \<or> (k = 16 \<and> (\<forall>j<16. \<not> manuf_at A ?m j))"
    using manuf_scan_first [OF _ kf] by simp
  have i: "i < 16" "\<forall>j<i. \<not> manuf_at A ?m j"
    using manuf_scan_spec [of 0 16 A ?m 16] kf i16 fst by (auto simp: i_def split: if_splits)
  have len: "length (used_manufacturer A) = 3" "length (dev_manufacturer A) = 16" using wf by (simp_all add: manuf_wf_def)
  have bit: "manuf_used B j \<longleftrightarrow> i = j \<or> manuf_used A j" if "j < 16" for j
  proof -
    have "i div 8 < 3" "j div 8 < 3" using that i(1) by (simp_all add: div_less_iff_less_mult)
    then show ?thesis using check_set_bit [of i "used_manufacturer A" j] len by (simp add: B)
  qed
  have mw: "manuf_wf B"
    using compress_roundtrip [OF wf l] c by (auto split: if_splits)
  have "manuf_at B ?m j \<longleftrightarrow> j = i \<or> manuf_at A ?m j" if "j < 16" for j
    using bit [OF that] that len i(1) by (cases "j = i") (auto simp: manuf_at_def B)
  then have "manuf_at B ?m i" "\<forall>j<i. \<not> manuf_at B ?m j" using i by auto
  then show ?thesis using B(2) i(1) mw by (simp add: B(1))
qed

lemma ieee_search_loop_cong:
  assumes "\<forall>j<101. am_used (addr_map B ! j) = am_used (addr_map A ! j) \<and> am_ieee (addr_map B ! j) = am_ieee (addr_map A ! j)"
  shows "i < 101 \<Longrightarrow> ieee_search_loop n B c i = ieee_search_loop n A c i"
  by (induction n arbitrary: i) (use assms in \<open>auto simp: ZB_IEEE_ADDR_TABLE_SIZE_def\<close>)

lemma ieee_search_cong:
  assumes "\<forall>j<101. am_used (addr_map B ! j) = am_used (addr_map A ! j) \<and> am_ieee (addr_map B ! j) = am_ieee (addr_map A ! j)"
  shows "ieee_search c B = ieee_search c A"
  unfolding ieee_search_def by (rule ieee_search_loop_cong [OF assms hash_bound])

lemma compress_again:
  assumes l: "length a = 8" and c: "manuf_wf A" "zb_ieee_addr_compress a A = Some (B, c)"
    and B: "used_manufacturer C = used_manufacturer B" "dev_manufacturer C = dev_manufacturer B"
  shows "\<exists>D. zb_ieee_addr_compress a C = Some (D, c) \<and> addr_map D = addr_map C"
proof -
  note cc = compress_cases [OF l c]
  have "manuf_at C = manuf_at B" using B by (intro ext) (simp add: manuf_at_def)
  then have "fst (manuf_scan 16 C (take 3 a) 0 16) = ca_manufacturer c"
    using cc by (intro manuf_scan_unique) simp_all
  moreover have "c = \<lparr>ca_manufacturer = ca_manufacturer c, ca_device_id = take 5 (drop 3 a)\<rparr>" using cc by simp
  ultimately show ?thesis using cc
    by (auto simp: zb_ieee_addr_compress_def ZB_DEV_MANUFACTORER_TABLE_SIZE_def split: prod.splits)
qed

text \<open>Once an address has been resolved, resolving it again gives the same reference.\<close>

lemma by_ieee_again:
  assumes wf: "addr_wf A" and l: "length a = 8"
    and r: "zb_address_by_ieee a cr False A = Some (B, RET_OK, Some r)"
  shows "\<exists>C. zb_address_by_ieee a cr' False B = Some (C, RET_OK, Some r)"
proof -
  have mw: "manuf_wf A" using addr_wf_sizes [OF wf] by (simp add: sizes_ok_def)
  obtain A1 c where c: "zb_ieee_addr_compress a A = Some (A1, c)"
    using r by (auto simp: zb_address_by_ieee_def split: Option.bind_splits)
  note cc = compress_cases [OF l mw c]
  have s1: "sizes_ok A1" using addr_wf_sizes [OF wf] cc by (simp add: sizes_ok_def)
  have wf1: "addr_wf A1"
    by (rule addr_wf_cong [OF wf s1]) (use cc in \<open>simp_all add: sorted_refs_def\<close>)
  show ?thesis
  proof (cases "ieee_search c A1")
    case (Some r')
    have B: "upd_ent r' (\<lambda>e. e\<lparr>am_clock := True\<rparr>) A1 = Some B" "r' = r"
      using r c Some by (auto simp: zb_address_by_ieee_def lock_if_def split: Option.bind_splits)
    then have e: "addr_map B = (addr_map A1)[r := (addr_map A1 ! r)\<lparr>am_clock := True\<rparr>]"
      "used_manufacturer B = used_manufacturer A1" "dev_manufacturer B = dev_manufacturer A1" "r < length (addr_map A1)"
      by (auto simp: upd_ent_def aget_def split: if_splits)
    obtain D where D: "zb_ieee_addr_compress a B = Some (D, c)" "addr_map D = addr_map B"
      using compress_again [OF l mw c e(2,3)] by blast
    have "ieee_search c D = ieee_search c A1"
      by (rule ieee_search_cong) (use e in \<open>auto simp: D(2) nth_list_update\<close>)
    then have "ieee_search c D = Some r" using Some B(2) by simp
    then show ?thesis using D e(1,4) by (simp add: zb_address_by_ieee_def lock_if_def upd_ent_def)
  next
    case None
    then have add: "addr_add (Some c) ZB_UNKNOWN_SHORT_ADDR A1 = Some (B, RET_OK, Some r)"
      using r c by (auto simp: zb_address_by_ieee_def lock_if_def split: Option.bind_splits if_splits)
    from addr_add_spec [OF wf1, of "-1" "Some c"] add have ad: "added A1 r c (-1) B" "addr_wf B"
      by (auto simp: ZB_UNKNOWN_SHORT_ADDR_def split: if_splits)
    then have e: "used_manufacturer B = used_manufacturer A1" "dev_manufacturer B = dev_manufacturer A1"
      "ent_used B r" "am_ieee (addr_map B ! r) = c" "\<forall>s<101. s \<noteq> r \<longrightarrow> ent_same A1 B s" "r < 101"
      by (simp_all add: added_def)
    obtain D where D: "zb_ieee_addr_compress a B = Some (D, c)" "addr_map D = addr_map B"
      using compress_again [OF l mw c e(1,2)] by blast
    have uD: "ent_used D s = ent_used B s" for s by (simp add: ent_used_def D(2))
    have only: "s = r" if "ent_used B s" "am_ieee (addr_map B ! s) = c" for s
    proof (rule ccontr)
      assume "s \<noteq> r"
      then have "ent_same A1 B s" using e(5) that(1) by (simp add: ent_used_def)
      then have "ent_used A1 s" "am_ieee (addr_map A1 ! s) = c"
        using that ent_same_fields by (auto simp: ent_used_def)
      then show False using ieee_search_spec [where c = c and A = A1] None by simp
    qed
    have "ieee_search c D = Some r"
    proof (cases "ieee_search c D")
      case None
      then show ?thesis using ieee_search_spec [where c = c and A = D] e(3,4) by (simp add: uD D(2))
    next
      case (Some s)
      then have "ent_used B s" "am_ieee (addr_map B ! s) = c"
        using ieee_search_spec [where c = c and A = D] by (simp_all add: uD D(2))
      then show ?thesis using only Some by blast
    qed
    moreover have "length (addr_map D) = 101" using addr_wf_sizes [OF ad(2)] by (simp add: sizes_ok_def D(2))
    ultimately show ?thesis using D e(6) by (simp add: zb_address_by_ieee_def lock_if_def upd_ent_def)
  qed
qed

end
