(* ===== verification/Zb_Aps_Globals.thy ===== *)
theory Zb_Aps_Globals
  imports Zb_Bufpool Zb_Addr_Ieee
begin

text \<open>
  The state of the APS layer: \<^verbatim>\<open>include/zb_aps_globals.h\<close>, and the global context extended by it
  and by the address tables. The destination of a binding is a datatype: its constructor is the
  field \<^verbatim>\<open>dst_addr_mode\<close> and its arguments the member of the union that this mode selects.
\<close>

definition ZB_APS_SRC_BINDING_TABLE_SIZE :: nat where "ZB_APS_SRC_BINDING_TABLE_SIZE = 32"

definition ZB_APS_DST_BINDING_TABLE_SIZE :: nat where "ZB_APS_DST_BINDING_TABLE_SIZE = 32"

definition ZB_APS_GROUP_TABLE_SIZE :: nat where "ZB_APS_GROUP_TABLE_SIZE = 16"

definition ZB_APS_ENDPOINTS_IN_GROUP_TABLE :: nat where "ZB_APS_ENDPOINTS_IN_GROUP_TABLE = 8"

definition ZB_N_APS_RETRANS_ENTRIES :: nat where "ZB_N_APS_RETRANS_ENTRIES = 10"

definition ZB_N_APS_MAX_FRAME_ENTRIES :: nat where "ZB_N_APS_MAX_FRAME_ENTRIES = 3"

definition ZB_APS_DUP_CHECK_TIMEOUT :: zb_time_t where
  "ZB_APS_DUP_CHECK_TIMEOUT = of_nat (ZB_MILLISECONDS_TO_BEACON_INTERVAL 1000)"

lemmas aps_consts = ZB_APS_SRC_BINDING_TABLE_SIZE_def ZB_APS_DST_BINDING_TABLE_SIZE_def
  ZB_APS_GROUP_TABLE_SIZE_def ZB_APS_ENDPOINTS_IN_GROUP_TABLE_def ZB_N_APS_RETRANS_ENTRIES_def
  ZB_N_APS_MAX_FRAME_ENTRIES_def

record zb_aps_bind_src_table =
  bs_src_addr :: nat
  bs_src_end :: zb_uint8_t
  bs_cluster_id :: zb_uint16_t

datatype zb_aps_bind_dst =
    ZB_APS_BIND_DST_ADDR_GROUP zb_uint16_t
  | ZB_APS_BIND_DST_ADDR_LONG nat zb_uint8_t

record zb_aps_bind_dst_table =
  bd_dst :: zb_aps_bind_dst
  bd_src_table_index :: nat

record zb_aps_binding_table =
  src_table :: "zb_aps_bind_src_table list"
  dst_table :: "zb_aps_bind_dst_table list"
  src_n_elements :: nat
  dst_n_elements :: nat

record zb_aps_group_table_ent =
  ge_group_addr :: zb_uint16_t
  ge_endpoints :: "zb_uint8_t list"
  ge_n_endpoints :: nat

record zb_aps_group_table =
  groups :: "zb_aps_group_table_ent list"
  n_groups :: nat
  pass_up_q :: "nat zb_ring"
  local_dup_q :: "nat zb_ring"
  active_pass_up_buf :: "nat option"

datatype zb_aps_retrans_ent_state =
    ZB_APS_RETRANS_ENT_FREE
  | ZB_APS_RETRANS_ENT_SENT_MAC_NOT_CONFIRMED_ALRM_RUNNING
  | ZB_APS_RETRANS_ENT_SENT_MAC_NOT_CONFIRMED_APS_ACKED_ALRM_RUNNING
  | ZB_APS_RETRANS_ENT_SENT_MAC_CONFIRMED_ALRM_RUNNING

record zb_aps_retrans_ent =
  re_addr :: zb_uint16_t
  re_clusterid :: zb_uint16_t
  re_aps_counter :: zb_uint8_t
  re_src_endpoint :: zb_uint8_t
  re_dst_endpoint :: zb_uint8_t
  re_buf :: nat
  re_aps_retries :: "5 word"
  re_nwk_insecure :: bool
  re_state :: zb_aps_retrans_ent_state

record zb_aps_retrans =
  rt_hash :: "zb_aps_retrans_ent list"
  rt_ack_buf :: nat
  rt_ack_q :: "nat zb_ring"

record zb_apsib =
  aps_counter :: zb_uint8_t
  aps_designated_coordinator :: zb_uint8_t
  aps_insecure_join :: zb_uint8_t
  aps_channel_mask :: zb_uint32_t
  aps_use_extended_pan_id :: "zb_uint8_t list"
  trust_center_address :: "zb_uint8_t list"

record zb_aps_tmp =
  tmp_neighbor_table_iterator :: nat
  tmp_key_seq_number :: zb_uint8_t

record zb_aps_globals =
  aib :: zb_apsib
  binding :: zb_aps_binding_table
  retrans :: zb_aps_retrans
  aps_group :: zb_aps_group_table
  aps_tmp :: zb_aps_tmp
  aps_authenticated :: bool
  aps_flags :: zb_uint8_t
  dups_alarm_running :: bool

record zb_globals_a = zb_globals_b +
  addr :: zb_addr_globals
  aps :: zb_aps_globals

definition upd_aps :: "(zb_aps_globals \<Rightarrow> zb_aps_globals) \<Rightarrow> 'z zb_globals_a_scheme \<Rightarrow> 'z zb_globals_a_scheme" where
  "upd_aps f g = g\<lparr>aps := f (aps g)\<rparr>"

lemma upd_aps_fields [simp]:
  "sched (upd_aps f g) = sched g" "timer (upd_aps f g) = timer g" "addr (upd_aps f g) = addr g" "aps (upd_aps f g) = f (aps g)"
  by (simp_all add: upd_aps_def)

lemma more_fields:
  fixes g g' :: "'z zb_globals_a_scheme"
  assumes "zb_globals.more g' = zb_globals.more g"
  shows "addr g' = addr g \<and> aps g' = aps g \<and> bpool g' = bpool g \<and> rx_need_buf g' = rx_need_buf g"
  using assms by (cases g; cases g') simp

section \<open>The state after initialisation\<close>

definition demo_aps :: zb_aps_globals where
  "demo_aps = \<lparr>aib = \<lparr>aps_counter = 0, aps_designated_coordinator = 0, aps_insecure_join = 1,
       aps_channel_mask = 0, aps_use_extended_pan_id = replicate 8 0, trust_center_address = replicate 8 0\<rparr>,
     binding = \<lparr>src_table = replicate 32 \<lparr>bs_src_addr = 0, bs_src_end = 0, bs_cluster_id = 0\<rparr>,
       dst_table = replicate 32 \<lparr>bd_dst = ZB_APS_BIND_DST_ADDR_GROUP 0, bd_src_table_index = 0\<rparr>,
       src_n_elements = 0, dst_n_elements = 0\<rparr>,
     retrans = \<lparr>rt_hash = replicate 10 \<lparr>re_addr = 0, re_clusterid = 0, re_aps_counter = 0,
         re_src_endpoint = 0, re_dst_endpoint = 0, re_buf = 0, re_aps_retries = 0, re_nwk_insecure = False,
         re_state = ZB_APS_RETRANS_ENT_FREE\<rparr>,
       rt_ack_buf = 0, rt_ack_q = \<lparr>ring_buf = replicate 4 0, read_i = 0, write_i = 0, written = 0\<rparr>\<rparr>,
     aps_group = \<lparr>groups = replicate 16 \<lparr>ge_group_addr = 0, ge_endpoints = replicate 8 0, ge_n_endpoints = 0\<rparr>,
       n_groups = 0, pass_up_q = \<lparr>ring_buf = replicate 8 0, read_i = 0, write_i = 0, written = 0\<rparr>,
       local_dup_q = \<lparr>ring_buf = replicate 8 0, read_i = 0, write_i = 0, written = 0\<rparr>,
       active_pass_up_buf = None\<rparr>,
     aps_tmp = \<lparr>tmp_neighbor_table_iterator = 0, tmp_key_seq_number = 0\<rparr>,
     aps_authenticated = False, aps_flags = 0, dups_alarm_running = False\<rparr>"

definition demo_a :: zb_globals_a where
  "demo_a = \<lparr>sched = sched demo_base, timer = timer demo_base, bpool = bpool demo_base,
     rx_need_buf = False, addr = addr_zero, aps = demo_aps\<rparr>"

lemma demo_a_wf:
  "addr_wf (addr demo_a)" "sched_wf (sched demo_a)" "n_elements (addr demo_a) \<noteq> 101" "alarms (sched demo_a) = []"
proof -
  have "n_elements addr_zero = 0" by (simp add: addr_zero_def)
  then show "addr_wf (addr demo_a)" "sched_wf (sched demo_a)" "n_elements (addr demo_a) \<noteq> 101" "alarms (sched demo_a) = []"
    using addr_wf_zero demo_base_wf by (simp_all add: demo_a_def)
qed

end
