(* ===== verification/Zb_Dups.thy ===== *)
theory Zb_Dups
  imports Zb_Aps_Globals
begin

text \<open>
  Detection of duplicate APS packets: \<^verbatim>\<open>aps/aps_dups.c\<close>. The last APS counter of every sender is
  kept in its entry of the address table, with a clock that the alarm callback counts down.
\<close>

text \<open>\<^verbatim>\<open>ZB_SCHEDULE_ALARM(zb_aps_check_timer_cb, 0, ZB_APS_DUP_CHECK_TIMEOUT)\<close>, its result ignored.\<close>

definition schedule_dups_alarm :: "'z zb_globals_a_scheme \<Rightarrow> 'z zb_globals_a_scheme option" where
  "schedule_dups_alarm g =
     map_option fst (zb_schedule_alarm Cb_zb_aps_check_timer_cb 0 ZB_APS_DUP_CHECK_TIMEOUT g)"

definition aps_check_dups :: "zb_uint16_t \<Rightarrow> zb_uint8_t \<Rightarrow> 'z zb_globals_a_scheme
    \<Rightarrow> ('z zb_globals_a_scheme \<times> bool) option" where
  "aps_check_dups src_addr counter g = do {
     (A, ret, addr_ref) \<leftarrow> zb_address_by_short src_addr True False (addr g);
     if ret = RET_OK then do {
       r \<leftarrow> addr_ref;
       ent \<leftarrow> aget (addr_map A) r;
       let is_dup = (am_dup_clock ent \<noteq> 0 \<and> am_dup_counter ent = counter);
       A' \<leftarrow> upd_ent r (\<lambda>e. e\<lparr>am_dup_counter := counter, am_dup_clock := 3\<rparr>) A;
       let g1 = g\<lparr>addr := A'\<rparr>;
       g2 \<leftarrow> (if \<not> dups_alarm_running (aps g1)
         then schedule_dups_alarm (upd_aps (\<lambda>a. a\<lparr>dups_alarm_running := True\<rparr>) g1)
         else Some g1);
       Some (g2, is_dup) }
     else Some (g\<lparr>addr := A\<rparr>, False) }"

text \<open>The loop over the table, until \<open>n\<close> used entries have been seen.\<close>

function check_timer_loop :: "nat \<Rightarrow> nat \<Rightarrow> zb_addr_globals \<Rightarrow> bool \<Rightarrow> (zb_addr_globals \<times> bool) option" where
  "check_timer_loop i n A running =
     (if n < n_elements A then
        (if i < length (addr_map A) then
           let ent = addr_map A ! i in
           if am_used ent then
             (if am_dup_clock ent \<noteq> 0 then
                let ent' = ent\<lparr>am_dup_clock := am_dup_clock ent - 1\<rparr> in
                check_timer_loop (i + 1) (n + 1) (A\<lparr>addr_map := (addr_map A)[i := ent']\<rparr>)
                  (running \<or> am_dup_clock ent' \<noteq> 0)
              else check_timer_loop (i + 1) (n + 1) A running)
           else check_timer_loop (i + 1) n A running
         else None)
      else Some (A, running))"
  by pat_completeness auto
termination by (relation "measure (\<lambda>(i, n, A, running). length (addr_map A) - i)") auto

declare check_timer_loop.simps [simp del]

definition zb_aps_check_timer_cb :: "'z zb_globals_a_scheme \<Rightarrow> 'z zb_globals_a_scheme option" where
  "zb_aps_check_timer_cb g = do {
     (A, running) \<leftarrow> check_timer_loop 0 0 (addr g) False;
     let g1 = upd_aps (\<lambda>a. a\<lparr>dups_alarm_running := running\<rparr>) (g\<lparr>addr := A\<rparr>);
     if running then schedule_dups_alarm g1 else Some g1 }"

section \<open>The table\<close>

definition dup_tick :: "zb_address_map \<Rightarrow> zb_address_map" where
  "dup_tick e = (if am_used e \<and> am_dup_clock e \<noteq> 0 then e\<lparr>am_dup_clock := am_dup_clock e - 1\<rparr> else e)"

lemma dup_tick_fields [simp]:
  "am_used (dup_tick e) = am_used e" "am_addr (dup_tick e) = am_addr e" "am_ieee (dup_tick e) = am_ieee e"
  "am_dup_counter (dup_tick e) = am_dup_counter e" "am_lock_cnt (dup_tick e) = am_lock_cnt e"
  by (simp_all add: dup_tick_def)

lemma check_timer_loop_spec:
  "n + length (filter am_used (drop i (addr_map A))) = n_elements A \<Longrightarrow> i \<le> length (addr_map A) \<Longrightarrow>
   \<exists>run'. check_timer_loop i n A run
     = Some (A\<lparr>addr_map := take i (addr_map A) @ map dup_tick (drop i (addr_map A))\<rparr>, run')
     \<and> (run' \<longleftrightarrow> run \<or> (\<exists>e\<in>set (drop i (addr_map A)). am_used e \<and> am_dup_clock (dup_tick e) \<noteq> 0))"
proof (induction "length (addr_map A) - i" arbitrary: i n A run)
  case 0
  then show ?case by (subst check_timer_loop.simps) simp
next
  case (Suc k)
  then have i: "i < length (addr_map A)" by simp
  let ?m = "addr_map A" and ?e = "addr_map A ! i"
  have d: "drop i ?m = ?e # drop (Suc i) ?m" using i by (rule Cons_nth_drop_Suc [symmetric])
  show ?case
  proof (cases "n < n_elements A")
    case False
    then have "length (filter am_used (drop i ?m)) = 0" using Suc.prems by linarith
    then have nu: "\<forall>e\<in>set (drop i ?m). \<not> am_used e" by (simp add: filter_empty_conv)
    then have "map dup_tick (drop i ?m) = drop i ?m" by (intro map_idI) (simp add: dup_tick_def)
    then show ?thesis using False nu by (subst check_timer_loop.simps) auto
  next
    case True
    let ?B = "A\<lparr>addr_map := ?m[i := dup_tick ?e]\<rparr>"
    have B: "drop (Suc i) (addr_map ?B) = drop (Suc i) ?m" "take (Suc i) (addr_map ?B) = take i ?m @ [dup_tick ?e]"
      using i by (simp_all add: take_Suc_conv_app_nth)
    let ?n = "if am_used ?e then n + 1 else n" and ?run = "run \<or> (am_used ?e \<and> am_dup_clock (dup_tick ?e) \<noteq> 0)"
    have step: "check_timer_loop i n A run = check_timer_loop (Suc i) ?n ?B ?run"
      using True i by (subst check_timer_loop.simps) (auto simp: dup_tick_def Let_def)
    have "?n + length (filter am_used (drop (Suc i) (addr_map ?B))) = n_elements ?B"
      unfolding B using Suc.prems(1) d by (cases "am_used ?e") simp_all
    moreover have "k = length (addr_map ?B) - Suc i" "Suc i \<le> length (addr_map ?B)" using Suc.hyps(2) i by simp_all
    ultimately obtain run' where r: "check_timer_loop (Suc i) ?n ?B ?run
      = Some (?B\<lparr>addr_map := take (Suc i) (addr_map ?B) @ map dup_tick (drop (Suc i) (addr_map ?B))\<rparr>, run')"
      "run' \<longleftrightarrow> ?run \<or> (\<exists>e\<in>set (drop (Suc i) (addr_map ?B)). am_used e \<and> am_dup_clock (dup_tick e) \<noteq> 0)"
      using Suc.hyps(1) by blast
    have "take (Suc i) (addr_map ?B) @ map dup_tick (drop (Suc i) (addr_map ?B)) = take i ?m @ map dup_tick (drop i ?m)"
      unfolding B d by simp
    then have "check_timer_loop i n A run = Some (A\<lparr>addr_map := take i ?m @ map dup_tick (drop i ?m)\<rparr>, run')"
      unfolding step r(1) by simp
    moreover have "run' \<longleftrightarrow> run \<or> (\<exists>e\<in>set (drop i ?m). am_used e \<and> am_dup_clock (dup_tick e) \<noteq> 0)"
      unfolding r(2) B d by auto
    ultimately show ?thesis by blast
  qed
qed

lemma card_used_filter:
  "length (addr_map A) = 101 \<Longrightarrow> card {r. ent_used A r} = length (filter am_used (addr_map A))"
  by (simp add: length_filter_conv_card ent_used_def)

text \<open>One run of the loop over a well-formed table counts down every entry.\<close>

lemma check_timer_all:
  assumes "addr_wf A"
  shows "check_timer_loop 0 0 A False = Some (A\<lparr>addr_map := map dup_tick (addr_map A)\<rparr>,
    \<exists>e\<in>set (addr_map A). am_used e \<and> am_dup_clock (dup_tick e) \<noteq> 0)"
proof -
  have "0 + length (filter am_used (drop 0 (addr_map A))) = n_elements A"
  proof -
    have "n_elements A = card {r. ent_used A r}" using assms by (simp add: addr_wf_def)
    then show ?thesis using card_used_filter [OF addr_wf_len [OF assms]] by (simp only: drop_0 add_0)
  qed
  from check_timer_loop_spec [OF this le0, of False] show ?thesis by (simp only: drop_0 take_0 append_Nil simp_thms) blast
qed

section \<open>The operations\<close>

lemma schedule_dups_alarm_spec:
  assumes "sched_wf (sched g)"
  shows "\<exists>g'. schedule_dups_alarm g = Some g' \<and> sched_wf (sched g') \<and> addr g' = addr g \<and> aps g' = aps g
    \<and> (length (alarms (sched g)) = 16 \<longrightarrow> g' = g)"
proof -
  obtain g' ret where g': "zb_schedule_alarm Cb_zb_aps_check_timer_cb 0 ZB_APS_DUP_CHECK_TIMEOUT g = Some (g', ret)"
    "sched_wf (sched g')" "zb_globals.more g' = zb_globals.more g" "\<not> length (alarms (sched g)) < 16 \<longrightarrow> g' = g"
    using schedule_alarm_spec [OF assms, of Cb_zb_aps_check_timer_cb 0 ZB_APS_DUP_CHECK_TIMEOUT] by (auto split: if_splits)
  then show ?thesis using more_fields [OF g'(3)] by (auto simp: schedule_dups_alarm_def)
qed

text \<open>Looking up a sender that has an entry or can get one.\<close>

lemma by_short_resolves:
  assumes wf: "addr_wf A" and a: "a \<noteq> -1" and room: "ref_of_short A a \<noteq> None \<or> n_elements A \<noteq> 101"
  shows "\<exists>B r. zb_address_by_short a True False A = Some (B, RET_OK, Some r) \<and> addr_wf B
    \<and> ref_of_short B a = Some r
    \<and> am_dup_clock (addr_map B ! r) = am_dup_clock (addr_map A ! r)
    \<and> am_dup_counter (addr_map B ! r) = am_dup_counter (addr_map A ! r)
    \<and> (ref_of_short A a \<noteq> None \<longrightarrow> ref_of_short A a = Some r)"
proof (cases "ref_of_short A a")
  case None
  then have "n_elements A \<noteq> 101" using room by simp
  from by_short_new [OF wf a None this] show ?thesis using None a by (auto simp: added_def)
next
  case (Some r)
  then have "ent_used A r" using ref_of_short_iff [OF wf a] by simp
  from touch_facts [OF wf this] obtain B where
    B: "upd_ent r (\<lambda>e. e\<lparr>am_clock := True\<rparr>) A = Some B" "addr_wf B" "\<forall>s. ent_same A B s"
      "ref_of_short B = ref_of_short A" by blast
  have "zb_address_by_short a True False A = Some (B, RET_OK, Some r)"
    using short_search_ref [OF wf a] Some B(1) by (simp add: zb_address_by_short_def lock_if_def)
  then show ?thesis using B Some ent_same_fields [of A B r] by auto
qed

text \<open>\<open>dup_state A a c t\<close>: the last counter from \<open>a\<close> was \<open>c\<close>, and its clock stands at \<open>t\<close>.\<close>

definition dup_state :: "zb_addr_globals \<Rightarrow> zb_uint16_t \<Rightarrow> zb_uint8_t \<Rightarrow> nat \<Rightarrow> bool" where
  "dup_state A a c t \<longleftrightarrow> (\<exists>r. ref_of_short A a = Some r \<and> am_dup_counter (addr_map A ! r) = c
     \<and> unat (am_dup_clock (addr_map A ! r)) = t)"

lemma check_dups_spec:
  assumes wf: "addr_wf (addr g)" and sw: "sched_wf (sched g)" and a: "a \<noteq> -1"
    and room: "ref_of_short (addr g) a \<noteq> None \<or> n_elements (addr g) \<noteq> 101"
  shows "\<exists>g' r. aps_check_dups a c g = Some (g', am_dup_clock (addr_map (addr g) ! r) \<noteq> 0
        \<and> am_dup_counter (addr_map (addr g) ! r) = c)
    \<and> addr_wf (addr g') \<and> sched_wf (sched g') \<and> dup_state (addr g') a c 3 \<and> dups_alarm_running (aps g')
    \<and> (ref_of_short (addr g) a \<noteq> None \<longrightarrow> ref_of_short (addr g) a = Some r)
    \<and> (length (alarms (sched g)) = 16 \<longrightarrow> sched g' = sched g)"
proof -
  obtain B r where B: "zb_address_by_short a True False (addr g) = Some (B, RET_OK, Some r)" "addr_wf B"
    "ref_of_short B a = Some r"
    "am_dup_clock (addr_map B ! r) = am_dup_clock (addr_map (addr g) ! r)"
    "am_dup_counter (addr_map B ! r) = am_dup_counter (addr_map (addr g) ! r)"
    "ref_of_short (addr g) a \<noteq> None \<longrightarrow> ref_of_short (addr g) a = Some r"
    using by_short_resolves [OF wf a room] by blast
  have r: "r < 101" using ref_of_short_iff [OF B(2) a, of r] B(3) by (simp add: ent_used_def)
  let ?f = "\<lambda>e. e\<lparr>am_dup_counter := c, am_dup_clock := 3\<rparr>"
  let ?C = "B\<lparr>addr_map := (addr_map B)[r := ?f (addr_map B ! r)]\<rparr>"
  have C: "addr_wf ?C" using addr_wf_upd [OF B(2) r, of ?f] by simp
  have u: "upd_ent r ?f B = Some ?C" using r B(2) by simp
  have "ref_of_short ?C a = ref_of_short B a"
  proof (rule ref_of_short_cong, intro allI)
    fix s
    show "ent_used ?C s \<and> ent_addr ?C s = a \<longleftrightarrow> ent_used B s \<and> ent_addr B s = a"
      using r B(2) by (cases "s = r") (simp_all add: ent_used_def ent_addr_def)
  qed
  then have ds: "dup_state ?C a c 3" using B(2,3) r by (simp add: dup_state_def)
  let ?g = "g\<lparr>addr := ?C\<rparr>"
  obtain g' where g': "(if \<not> dups_alarm_running (aps ?g)
         then schedule_dups_alarm (upd_aps (\<lambda>a. a\<lparr>dups_alarm_running := True\<rparr>) ?g) else Some ?g) = Some g'"
    "sched_wf (sched g')" "addr g' = ?C" "dups_alarm_running (aps g')"
    "length (alarms (sched g)) = 16 \<longrightarrow> sched g' = sched g"
    using schedule_dups_alarm_spec [of "upd_aps (\<lambda>a. a\<lparr>dups_alarm_running := True\<rparr>) ?g"] sw
    by (cases "dups_alarm_running (aps g)") auto
  have "aps_check_dups a c g = Some (g', am_dup_clock (addr_map B ! r) \<noteq> 0 \<and> am_dup_counter (addr_map B ! r) = c)"
    using B(1,2) r g'(1) u by (simp add: aps_check_dups_def Let_def)
  with B(4-6) g' C ds show ?thesis by (intro exI [of _ g'] exI [of _ r]) simp
qed

lemma dup_clock_dec: "unat ((x :: 2 word) - 1) = unat x - 1 \<or> x = 0"
  by (metis unat_minus_one)

lemma addr_wf_tick:
  assumes wf: "addr_wf A"
  shows "addr_wf (A\<lparr>addr_map := map dup_tick (addr_map A)\<rparr>)" (is "addr_wf ?B")
proof (rule addr_wf_cong [OF wf])
  have len: "length (addr_map A) = 101" using wf by simp
  show "sizes_ok ?B" using addr_wf_sizes [OF wf] by (simp add: sizes_ok_def manuf_wf_def)
  show "sorted_refs ?B = sorted_refs A" by (simp add: sorted_refs_def)
qed (use wf in \<open>simp_all add: sorted_refs_def\<close>)

lemma timer_cb_spec:
  assumes wf: "addr_wf (addr g)" and sw: "sched_wf (sched g)"
  shows "\<exists>g'. zb_aps_check_timer_cb g = Some g' \<and> addr_wf (addr g') \<and> sched_wf (sched g')
    \<and> (a \<noteq> -1 \<longrightarrow> dup_state (addr g) a c t \<longrightarrow> dup_state (addr g') a c (t - 1))"
proof -
  let ?A = "addr g"
  let ?B = "?A\<lparr>addr_map := map dup_tick (addr_map ?A)\<rparr>"
  have len: "length (addr_map ?A) = 101" using wf by simp
  have B: "addr_wf ?B" by (rule addr_wf_tick [OF wf])
  have same: "ent_used ?B s = ent_used ?A s" "ent_used ?A s \<Longrightarrow> ent_addr ?B s = ent_addr ?A s" for s
    using len by (cases "s < 101"; simp add: ent_used_def ent_addr_def)+
  obtain run where l: "check_timer_loop 0 0 ?A False = Some (?B, run)" using check_timer_all [OF wf] by blast
  let ?g = "upd_aps (\<lambda>a. a\<lparr>dups_alarm_running := run\<rparr>) (g\<lparr>addr := ?B\<rparr>)"
  obtain g' where g': "(if run then schedule_dups_alarm ?g else Some ?g) = Some g'" "sched_wf (sched g')" "addr g' = ?B"
    using schedule_dups_alarm_spec [of ?g] sw by (cases run) auto
  have "dup_state ?B a c (t - 1)" if a: "a \<noteq> -1" and d: "dup_state ?A a c t"
  proof -
    obtain r where r: "ref_of_short ?A a = Some r" "am_dup_counter (addr_map ?A ! r) = c"
      "unat (am_dup_clock (addr_map ?A ! r)) = t" using d by (auto simp: dup_state_def)
    have u: "ent_used ?A r" "r < 101" "am_used (addr_map ?A ! r)"
      using ref_of_short_iff [OF wf a] r(1) by (auto simp: ent_used_def)
    have "ref_of_short ?B a = ref_of_short ?A a" by (rule ref_of_short_cong) (use same in auto)
    moreover have "unat (am_dup_clock (dup_tick (addr_map ?A ! r))) = t - 1"
      using u(3) r(3) dup_clock_dec [of "am_dup_clock (addr_map ?A ! r)"] by (auto simp: dup_tick_def)
    ultimately show ?thesis using r u len by (auto simp: dup_state_def)
  qed
  then show ?thesis using l g' B by (auto simp: zb_aps_check_timer_cb_def Let_def)
qed

fun timer_runs :: "nat \<Rightarrow> 'z zb_globals_a_scheme \<Rightarrow> 'z zb_globals_a_scheme option" where
  "timer_runs 0 g = Some g"
| "timer_runs (Suc k) g = Option.bind (zb_aps_check_timer_cb g) (timer_runs k)"

lemma timer_runs_spec:
  "addr_wf (addr g) \<Longrightarrow> sched_wf (sched g) \<Longrightarrow> a \<noteq> -1 \<Longrightarrow> dup_state (addr g) a c t \<Longrightarrow>
   \<exists>g'. timer_runs k g = Some g' \<and> addr_wf (addr g') \<and> sched_wf (sched g') \<and> dup_state (addr g') a c (t - k)"
proof (induction k arbitrary: g t)
  case (Suc k)
  from timer_cb_spec [OF Suc.prems(1,2), of a c t] Suc.prems obtain g1 where
    g1: "zb_aps_check_timer_cb g = Some g1" "addr_wf (addr g1)" "sched_wf (sched g1)" "dup_state (addr g1) a c (t - 1)" by auto
  from Suc.IH [OF g1(2,3) Suc.prems(3) g1(4)] g1(1) show ?case by simp
qed auto

text \<open>
  C33: the window of the duplicate detection: after a packet from a sender has been checked, the
  same APS counter from the same sender is a duplicate as long as the alarm callback has run at
  most twice since, and is none any more after it has run three times.
\<close>

theorem aps_check_dups_window:
  assumes "addr_wf (addr g)" "sched_wf (sched g)" "a \<noteq> -1"
    and "ref_of_short (addr g) a \<noteq> None \<or> n_elements (addr g) \<noteq> 101"
  shows "\<exists>g1 d g2 g3. aps_check_dups a c g = Some (g1, d) \<and> timer_runs k g1 = Some g2
    \<and> aps_check_dups a c g2 = Some (g3, k < 3)"
proof -
  from check_dups_spec [OF assms, of c] obtain g1 d where
    g1: "aps_check_dups a c g = Some (g1, d)" "addr_wf (addr g1)" "sched_wf (sched g1)" "dup_state (addr g1) a c 3" by blast
  from timer_runs_spec [OF g1(2,3) assms(3) g1(4), of k] obtain g2 where
    g2: "timer_runs k g1 = Some g2" "addr_wf (addr g2)" "sched_wf (sched g2)" "dup_state (addr g2) a c (3 - k)" by blast
  then obtain r where r: "ref_of_short (addr g2) a = Some r" "am_dup_counter (addr_map (addr g2) ! r) = c"
    "unat (am_dup_clock (addr_map (addr g2) ! r)) = 3 - k" by (auto simp: dup_state_def)
  from check_dups_spec [OF g2(2,3) assms(3), of c] r(1) obtain g3 where
    g3: "aps_check_dups a c g2 = Some (g3, am_dup_clock (addr_map (addr g2) ! r) \<noteq> 0
        \<and> am_dup_counter (addr_map (addr g2) ! r) = c)" by auto
  have "am_dup_clock (addr_map (addr g2) ! r) \<noteq> 0 \<longleftrightarrow> k < 3"
    using r(3) unat_eq_0 [of "am_dup_clock (addr_map (addr g2) ! r)"] by auto
  with g1(1) g2(1) g3 r(2) show ?thesis by auto
qed

lemma aps_check_dups_window_witness:
  "\<exists>g1 d g2 g3. aps_check_dups 0x1234 5 demo_a = Some (g1, d) \<and> timer_runs 2 g1 = Some g2
    \<and> aps_check_dups 0x1234 5 g2 = Some (g3, True)"
  using aps_check_dups_window [of demo_a "0x1234" 5 2] demo_a_wf by simp

section \<open>A lost alarm\<close>

lemma check_dups_running:
  assumes wf: "addr_wf (addr g)" and sw: "sched_wf (sched g)" and a: "a \<noteq> -1"
    and room: "ref_of_short (addr g) a \<noteq> None \<or> n_elements (addr g) \<noteq> 101"
    and run: "dups_alarm_running (aps g)"
  shows "\<exists>g' d. aps_check_dups a c g = Some (g', d) \<and> sched g' = sched g"
proof -
  obtain B r where B: "zb_address_by_short a True False (addr g) = Some (B, RET_OK, Some r)" "addr_wf B"
    "ref_of_short B a = Some r" using by_short_resolves [OF wf a room] by blast
  have "r < 101" using ref_of_short_iff [OF B(2) a, of r] B(3) by (simp add: ent_used_def)
  then show ?thesis using B(1,2) run by (simp add: aps_check_dups_def Let_def)
qed

text \<open>
  what the ignored result of \<^verbatim>\<open>ZB_SCHEDULE_ALARM\<close> costs. When the first packet is checked
  while the alarm table is full, the flag \<^verbatim>\<open>dups_alarm_running\<close> is set and no alarm is scheduled.
  From then on, whatever the scheduler holds, no check schedules it any more, so the clocks never
  run and the counter of that packet stays a duplicate.
\<close>

theorem aps_check_dups_alarm_lost:
  assumes "addr_wf (addr g)" "sched_wf (sched g)" "a \<noteq> -1"
    and "ref_of_short (addr g) a \<noteq> None \<or> n_elements (addr g) \<noteq> 101"
    and "length (alarms (sched g)) = 16"
  shows "\<exists>g1 d. aps_check_dups a c g = Some (g1, d) \<and> dups_alarm_running (aps g1) \<and> sched g1 = sched g
    \<and> (\<forall>s c'. sched_wf s \<longrightarrow> (\<exists>g2 d2. aps_check_dups a c' (g1\<lparr>sched := s\<rparr>) = Some (g2, d2) \<and> sched g2 = s))"
proof -
  from check_dups_spec [OF assms(1-4), of c] obtain g1 d where
    g1: "aps_check_dups a c g = Some (g1, d)" "addr_wf (addr g1)" "dup_state (addr g1) a c 3"
      "dups_alarm_running (aps g1)" "sched g1 = sched g" using assms(5) by blast
  have "\<exists>g2 d2. aps_check_dups a c' (g1\<lparr>sched := s\<rparr>) = Some (g2, d2) \<and> sched g2 = s" if "sched_wf s" for s c'
    using check_dups_running [of "g1\<lparr>sched := s\<rparr>" a c'] that g1 assms(3) by (auto simp: dup_state_def)
  then show ?thesis using g1 by blast
qed

fun add_alarms :: "nat \<Rightarrow> zb_globals_a \<Rightarrow> zb_globals_a" where
  "add_alarms 0 g = g"
| "add_alarms (Suc k) g = fst (the (zb_schedule_alarm (Cb_user 1) 0 100 (add_alarms k g)))"

lemma add_alarms_wf:
  "k \<le> 16 \<Longrightarrow> sched_wf (sched (add_alarms k demo_a)) \<and> length (alarms (sched (add_alarms k demo_a))) = k
     \<and> addr (add_alarms k demo_a) = addr demo_a"
proof (induction k)
  case 0
  show ?case using demo_a_wf by simp
next
  case (Suc k)
  let ?g = "add_alarms k demo_a"
  have len: "length (alarms (sched ?g)) < 16" using Suc by simp
  have wf: "sched_wf (sched ?g)" using Suc by simp
  from schedule_alarm_spec [OF wf, of "Cb_user 1" 0 100] len obtain g' ret where
    g': "zb_schedule_alarm (Cb_user 1) 0 100 ?g = Some (g', ret)" "sched_wf (sched g')"
      "zb_globals.more g' = zb_globals.more ?g"
      "alarms (sched g') = alarm_insert \<lparr>tm_func = Cb_user 1, tm_param = 0, run_time = tm_now (timer ?g) + 100\<rparr> (alarms (sched ?g))"
    by auto
  have "length (alarm_insert e q) = Suc (length q)" for e q
    by (cases q) (auto simp: alarm_insert_def Let_def le_add_diff_inverse [OF length_takeWhile_le])
  then show ?case using g' more_fields [OF g'(3)] Suc by simp
qed

lemma aps_check_dups_alarm_lost_witness:
  "\<exists>g1 d. aps_check_dups 0x1234 5 (add_alarms 16 demo_a) = Some (g1, d) \<and> dups_alarm_running (aps g1)
    \<and> sched g1 = sched (add_alarms 16 demo_a)"
proof -
  have w: "addr (add_alarms 16 demo_a) = addr demo_a" "sched_wf (sched (add_alarms 16 demo_a))"
    "length (alarms (sched (add_alarms 16 demo_a))) = 16" using add_alarms_wf [of 16] by simp_all
  have "addr_wf (addr (add_alarms 16 demo_a))" "n_elements (addr (add_alarms 16 demo_a)) \<noteq> 101"
    using demo_a_wf unfolding w by blast+
  then show ?thesis using aps_check_dups_alarm_lost [of "add_alarms 16 demo_a" "0x1234" 5] w by auto
qed

end
