(* ===== verification/Zb_Sched_Runs.thy ===== *)
theory Zb_Sched_Runs
  imports Zb_Dups "HOL-Library.Sublist"
begin

text \<open>
  One call of \<^verbatim>\<open>zb_sched_loop_iteration\<close> (\<^verbatim>\<open>common/zb_scheduler.c\<close> 88-194) with handlers that use the
  scheduler themselves: they queue callbacks, start alarms and cancel them, as the handlers of the
  stack do; with a MAC poll that queues callbacks for what it has received; and with interrupts of
  the transceiver, which break the loops. The loops end because the work decreases: every handler
  has a weight, and what a call adds to the callbacks and the due alarms weighs less than the call
  itself. An alarm in the future weighs nothing, so a periodic handler that starts its own alarm
  again is allowed.
\<close>

section \<open>Handlers that use the scheduler\<close>

text \<open>The scheduler's invariant with the entry of a running alarm detached from the queue.\<close>

definition sched_ok :: "nat list \<Rightarrow> zb_sched_globals \<Rightarrow> bool" where
  "sched_ok D s \<longleftrightarrow> ring_wf ZB_SCHEDULER_Q_SIZE (cb_q s) \<and> ring_wf ZB_MAC_QUEUE_SIZE (mac_tx_q s)
     \<and> (\<exists>q fl. tm_rep D s q fl) \<and> (\<exists>iq oq bf. bq_rep [] s iq oq bf)"

definition cb_weight :: "(zb_callback \<Rightarrow> zb_uint8_t \<Rightarrow> nat) \<Rightarrow> zb_cb_q_ent list \<Rightarrow> nat" where
  "cb_weight w cs = (\<Sum>c\<leftarrow>cs. w (cb_func c) (cb_param c))"

definition due_weight :: "(zb_callback \<Rightarrow> zb_uint8_t \<Rightarrow> nat) \<Rightarrow> zb_time_t \<Rightarrow> zb_tm_q_ent list \<Rightarrow> nat" where
  "due_weight w t as = (\<Sum>a\<leftarrow>filter (due t) as. w (tm_func a) (tm_param a))"

text \<open>
  What is to be done now: the queued callbacks, the alarms that are due, and what the rest of the
  globals holds in store (\<open>pot\<close>, for instance frames that wait in the MAC).
\<close>

definition work :: "(zb_callback \<Rightarrow> zb_uint8_t \<Rightarrow> nat) \<Rightarrow> ('z \<Rightarrow> nat) \<Rightarrow> 'z zb_globals_scheme \<Rightarrow> nat" where
  "work w pot g = cb_weight w (callbacks (sched g))
     + due_weight w (tm_now (timer g)) (alarms (sched g)) + pot (zb_globals.more g)"

text \<open>
  The states in which handlers run: the scheduler is well-formed, the rest of the globals
  satisfies \<open>I\<close>, and every queued callback and every alarm, due or not, is of the kind \<open>P\<close>.
\<close>

definition ready :: "(zb_callback \<Rightarrow> zb_uint8_t \<Rightarrow> bool) \<Rightarrow> ('z \<Rightarrow> bool) \<Rightarrow> nat list
    \<Rightarrow> 'z zb_globals_scheme \<Rightarrow> bool" where
  "ready P I D g \<longleftrightarrow> sched_ok D (sched g) \<and> I (zb_globals.more g)
     \<and> (\<forall>c\<in>set (callbacks (sched g)). P (cb_func c) (cb_param c))
     \<and> (\<forall>a\<in>set (alarms (sched g)). P (tm_func a) (tm_param a))"

definition well_behaved :: "(zb_callback \<Rightarrow> zb_uint8_t \<Rightarrow> nat) \<Rightarrow> ('z \<Rightarrow> nat)
    \<Rightarrow> (zb_callback \<Rightarrow> zb_uint8_t \<Rightarrow> bool) \<Rightarrow> ('z \<Rightarrow> bool) \<Rightarrow> 'z zb_globals_scheme zb_call \<Rightarrow> bool" where
  "well_behaved w pot P I call \<longleftrightarrow> (\<forall>f p g D. P f p \<and> ready P I D g \<longrightarrow>
     (\<exists>g' new. call f p g = Some g' \<and> ready P I D g' \<and> callbacks (sched g') = callbacks (sched g) @ new
        \<and> tm_now (timer g') = tm_now (timer g) \<and> work w pot g' < work w pot g + w f p))"

text \<open>
  The poll of a round: it may queue callbacks and move the clock, but adds no work that was not in
  store, and it works off some when the interrupt of the transceiver (\<open>i\<close>) is pending.
\<close>

definition served :: "(zb_callback \<Rightarrow> zb_uint8_t \<Rightarrow> nat) \<Rightarrow> ('z \<Rightarrow> nat) \<Rightarrow> (zb_callback \<Rightarrow> zb_uint8_t \<Rightarrow> bool)
    \<Rightarrow> ('z \<Rightarrow> bool) \<Rightarrow> ('z \<Rightarrow> bool) \<Rightarrow> ('z zb_globals_scheme \<Rightarrow> 'z zb_globals_scheme option) \<Rightarrow> bool" where
  "served w pot P I i mac \<longleftrightarrow> (\<forall>g. ready P I [] g \<longrightarrow> (\<exists>g' new. mac g = Some g' \<and> ready P I [] g'
     \<and> callbacks (sched g') = callbacks (sched g) @ new
     \<and> work w pot g' + (if i (zb_globals.more g) then 1 else 0) \<le> work w pot g))"

text \<open>A log of the calls, kept in the rest of the globals.\<close>

definition logged :: "('z \<Rightarrow> (zb_callback \<times> zb_uint8_t) list) \<Rightarrow> 'z zb_globals_scheme zb_call
    \<Rightarrow> ('z zb_globals_scheme \<Rightarrow> 'z zb_globals_scheme option) \<Rightarrow> bool" where
  "logged L call mac \<longleftrightarrow>
     (\<forall>f p g g'. call f p g = Some g' \<longrightarrow> L (zb_globals.more g') = L (zb_globals.more g) @ [(f, p)])
     \<and> (\<forall>g g'. mac g = Some g' \<longrightarrow> L (zb_globals.more g') = L (zb_globals.more g))"

definition call_of :: "zb_cb_q_ent \<Rightarrow> zb_callback \<times> zb_uint8_t" where
  "call_of c = (cb_func c, cb_param c)"

lemma sched_ok_wf: "sched_ok [] = sched_wf"
  by (simp add: fun_eq_iff sched_ok_def sched_wf_def)

lemma weight_simps [simp]:
  "cb_weight w [] = 0" "cb_weight w (c # cs) = w (cb_func c) (cb_param c) + cb_weight w cs"
  "cb_weight w (cs @ ds) = cb_weight w cs + cb_weight w ds"
  "due_weight w t [] = 0"
  "due_weight w t (a # as) = (if due t a then w (tm_func a) (tm_param a) else 0) + due_weight w t as"
  by (simp_all add: cb_weight_def due_weight_def)

text \<open>The log with the callbacks that are still queued behind it.\<close>

definition log_of :: "('z \<Rightarrow> (zb_callback \<times> zb_uint8_t) list) \<Rightarrow> 'z zb_globals_scheme \<Rightarrow> (zb_callback \<times> zb_uint8_t) list" where
  "log_of L g = L (zb_globals.more g) @ map call_of (callbacks (sched g))"

lemma well_behavedE:
  assumes "well_behaved w pot P I call" "P f p" "ready P I D g"
  obtains g' new where "call f p g = Some g'" "ready P I D g'" "callbacks (sched g') = callbacks (sched g) @ new"
    "tm_now (timer g') = tm_now (timer g)" "work w pot g' < work w pot g + w f p"
  using assms unfolding well_behaved_def by blast

lemma ready_ring: "ready P I D g \<Longrightarrow> ring_wf 16 (cb_q (sched g))"
  by (simp add: ready_def sched_ok_def sched_consts)

section \<open>The loop over the callbacks\<close>

text \<open>The running callback leaves the queue after its handler has returned.\<close>

lemma flush_running:
  assumes r: "ready P I D g" "callbacks (sched g) = c # cs"
  defines "g' \<equiv> g\<lparr>sched := (sched g)\<lparr>cb_q := ZB_RING_BUFFER_FLUSH_GET (cb_q (sched g))\<rparr>\<rparr>"
  shows "ready P I D g'" "callbacks (sched g') = cs" "work w pot g = w (cb_func c) (cb_param c) + work w pot g'"
    "tm_now (timer g') = tm_now (timer g)" "zb_globals.more g' = zb_globals.more g"
proof -
  have wf: "ring_wf 16 (cb_q (sched g))" using r by (simp add: ready_def sched_ok_def sched_consts)
  have "ring_list (cb_q (sched g)) \<noteq> []" using r(2) unfolding callbacks_def by (metis list.discI)
  note q = ring.pop_inv [OF wf this] ring.pop_contents [OF wf this]
  show cs: "callbacks (sched g') = cs" using q(2) r(2) by (simp add: g'_def callbacks_def)
  have al: "alarms (sched g') = alarms (sched g)" by (simp add: g'_def)
  show "ready P I D g'" using r q(1) cs al
    by (auto simp: ready_def sched_ok_def sched_consts g'_def)
  show "work w pot g = w (cb_func c) (cb_param c) + work w pot g'"
    using cs al r(2) by (simp add: work_def) (simp add: g'_def)
qed (simp_all add: g'_def)

lemma cb_loop_idle:
  "ready P I D g \<Longrightarrow> callbacks (sched g) = [] \<Longrightarrow> cb_loop fuel call intr g did = Some (g, did)"
  using ring.peek_hd [of 16 "cb_q (sched g)"]
  by (subst cb_loop.simps) (simp only: ready_def sched_ok_def sched_consts callbacks_def list.case option.case)

text \<open>No well-behaved call comes for free.\<close>

lemma call_costs:
  fixes g :: "'z zb_globals_scheme"
  assumes "well_behaved w pot P I call" "P f p" "ready P I D g" "work w pot g = 0"
  shows "0 < w f p"
proof -
  obtain g' :: "'z zb_globals_scheme" where "work w pot g' < work w pot g + w f p"
    using assms(1-3) unfolding well_behaved_def by blast
  then show ?thesis using assms(4) by simp
qed

lemma cb_loop_runs:
  assumes wb: "well_behaved w pot P I call" and "ready P I [] g" "work w pot g \<le> fuel"
  shows "\<exists>g'. cb_loop fuel call (\<lambda>g. i (zb_globals.more g)) g did = Some (g', did \<or> callbacks (sched g) \<noteq> [])
    \<and> ready P I [] g' \<and> (callbacks (sched g') = [] \<or> i (zb_globals.more g'))
    \<and> (g' = g \<or> work w pot g' < work w pot g)
    \<and> (\<forall>L mac. logged L call mac \<longrightarrow> prefix (log_of L g) (log_of L g')
        \<and> length (L (zb_globals.more g')) + work w pot g' \<le> length (L (zb_globals.more g)) + work w pot g)"
  using assms(2,3)
proof (induction fuel arbitrary: g did)
  case (0 g)
  have "callbacks (sched g) = []"
  proof (rule ccontr)
    assume "callbacks (sched g) \<noteq> []"
    then obtain c cs where c: "callbacks (sched g) = c # cs" by (cases "callbacks (sched g)") auto
    then have "0 < w (cb_func c) (cb_param c)"
      using call_costs [OF wb _ 0(1)] 0 by (simp add: ready_def)
    then show False using 0(2) c by (simp add: work_def)
  qed
  then show ?case using 0 cb_loop_idle [OF 0(1)] by auto
next
  case (Suc fuel g)
  show ?case
  proof (cases "callbacks (sched g)")
    case Nil
    then show ?thesis using Suc.prems cb_loop_idle [OF Suc.prems(1)] by auto
  next
    case (Cons c cs)
    have pk: "ZB_RING_BUFFER_PEEK (cb_q (sched g)) = Some c"
      using ring.peek_hd [OF ready_ring [OF Suc.prems(1)]] Cons by (simp add: callbacks_def)
    show ?thesis
    proof (cases "i (zb_globals.more g)")
      case True
      then have "cb_loop (Suc fuel) call (\<lambda>g. i (zb_globals.more g)) g did = Some (g, True)"
        using pk by (subst cb_loop.simps) simp
      then show ?thesis using True Cons Suc.prems by auto
    next
      case False
      have "P (cb_func c) (cb_param c)" using Suc.prems(1) Cons by (simp add: ready_def)
      then obtain g1 new where g1: "call (cb_func c) (cb_param c) g = Some g1" "ready P I [] g1"
        "callbacks (sched g1) = callbacks (sched g) @ new"
        "work w pot g1 < work w pot g + w (cb_func c) (cb_param c)"
        using well_behavedE [OF wb _ Suc.prems(1)] by blast
      define g2 where "g2 = g1\<lparr>sched := (sched g1)\<lparr>cb_q := ZB_RING_BUFFER_FLUSH_GET (cb_q (sched g1))\<rparr>\<rparr>"
      have "callbacks (sched g1) = c # cs @ new" using g1(3) Cons by simp
      note g2 = flush_running [OF g1(2) this, folded g2_def]
      have less: "work w pot g2 < work w pot g" using g2(3) [of w pot] g1(4) by simp
      have run: "cb_loop (Suc fuel) call (\<lambda>g. i (zb_globals.more g)) g did
          = cb_loop fuel call (\<lambda>g. i (zb_globals.more g)) g2 True"
        using g1(1) pk False by (subst cb_loop.simps) (simp add: g2_def)
      have le: "work w pot g2 \<le> fuel" using less Suc.prems(2) by simp
      have log: "prefix (log_of L g) (log_of L g2)
          \<and> length (L (zb_globals.more g2)) + work w pot g2 \<le> length (L (zb_globals.more g)) + work w pot g"
        if l: "logged L call mac" for L mac
      proof -
        have "L (zb_globals.more g2) = L (zb_globals.more g) @ [call_of c]"
          using l g1(1) g2(5) by (simp add: logged_def call_of_def)
        then show ?thesis using less g2(2) Cons by (simp add: log_of_def)
      qed
      show ?thesis
        unfolding run using Suc.IH [OF g2(1) le, of True] less log Cons
        by (fastforce intro: prefix_order.trans)
    qed
  qed
qed

section \<open>The loop over the due alarms\<close>

definition head_due :: "zb_time_t \<Rightarrow> zb_sched_globals \<Rightarrow> bool" where
  "head_due t s \<longleftrightarrow> takeWhile (due t) (alarms s) \<noteq> []"

lemma head_due_iff: "head_due t s \<longleftrightarrow> (case alarms s of [] \<Rightarrow> False | a # as \<Rightarrow> due t a)"
  by (auto simp: head_due_def split: list.splits)

lemma alarms_cut:
  assumes "tm_rep D s (e # q) fl" "tm_rep D' (s\<lparr>tm_links := L, tm_queue := h\<rparr>) q fl'"
  shows "alarms s = tm_buffer s ! e # alarms (s\<lparr>tm_links := L, tm_queue := h\<rparr>)"
  using alarms_rep [OF assms(1)] alarms_rep [OF assms(2)] by simp

text \<open>The running alarm is out of the queue before its handler is called; its entry is freed after.\<close>

lemma cut_due:
  assumes r: "ready P I [] g" and q: "tm_rep [] (sched g) (e # q) fl"
    and d: "due (tm_now (timer g)) (tm_buffer (sched g) ! e)"
  obtains L h where "ZB_LIST_CUT_HEAD (tm_links (sched g)) (tm_queue (sched g)) = (L, h, Some e)"
    "let g1 = g\<lparr>sched := (sched g)\<lparr>tm_links := L, tm_queue := h\<rparr>\<rparr>; a = tm_buffer (sched g) ! e in
      ready P I [e] g1 \<and> work w pot g = w (tm_func a) (tm_param a) + work w pot g1
      \<and> callbacks (sched g1) = callbacks (sched g) \<and> tm_now (timer g1) = tm_now (timer g)
      \<and> zb_globals.more g1 = zb_globals.more g \<and> P (tm_func a) (tm_param a)"
proof -
  obtain L h where c: "ZB_LIST_CUT_HEAD (tm_links (sched g)) (tm_queue (sched g)) = (L, h, Some e)"
    "tm_rep [e] ((sched g)\<lparr>tm_links := L, tm_queue := h\<rparr>) q fl" using tm_rep_cut [OF q] by blast
  let ?g = "g\<lparr>sched := (sched g)\<lparr>tm_links := L, tm_queue := h\<rparr>\<rparr>"
  have al: "alarms (sched g) = tm_buffer (sched g) ! e # alarms (sched ?g)" using alarms_cut [OF q c(2)] by simp
  have cb: "callbacks (sched ?g) = callbacks (sched g)" by (simp add: callbacks_def)
  have "sched_ok [e] (sched ?g)" using r c(2) by (auto simp: ready_def sched_ok_def)
  then have "ready P I [e] ?g" using r al cb by (simp add: ready_def)
  moreover have "work w pot g = w (tm_func (tm_buffer (sched g) ! e)) (tm_param (tm_buffer (sched g) ! e)) + work w pot ?g"
    using al cb d by (simp add: work_def)
  moreover have "P (tm_func (tm_buffer (sched g) ! e)) (tm_param (tm_buffer (sched g) ! e))"
    using r al by (simp add: ready_def)
  ultimately show ?thesis using c(1) cb by (intro that) (simp_all add: Let_def)
qed

lemma free_run:
  assumes r: "ready P I [e] g"
  obtains L f where "ZB_STK_PUSH (tm_links (sched g)) (tm_freelist (sched g)) e = (L, f)"
    "let g1 = g\<lparr>sched := (sched g)\<lparr>tm_links := L, tm_freelist := f\<rparr>\<rparr> in ready P I [] g1 \<and> work w pot g1 = work w pot g
      \<and> callbacks (sched g1) = callbacks (sched g) \<and> tm_now (timer g1) = tm_now (timer g)
      \<and> zb_globals.more g1 = zb_globals.more g"
proof -
  obtain q fl where q: "tm_rep [e] (sched g) q fl" using r by (auto simp: ready_def sched_ok_def)
  obtain L f where c: "ZB_STK_PUSH (tm_links (sched g)) (tm_freelist (sched g)) e = (L, f)"
    "tm_rep [] ((sched g)\<lparr>tm_links := L, tm_freelist := f\<rparr>) q (e # fl)" using tm_rep_push [OF q] by blast
  let ?g = "g\<lparr>sched := (sched g)\<lparr>tm_links := L, tm_freelist := f\<rparr>\<rparr>"
  have al: "alarms (sched ?g) = alarms (sched g)" using alarms_rep [OF q] alarms_rep [OF c(2)] by simp
  have cb: "callbacks (sched ?g) = callbacks (sched g)" by (simp add: callbacks_def)
  have "sched_ok [] (sched ?g)" using r c(2) by (auto simp: ready_def sched_ok_def)
  then have "ready P I [] ?g" using r al cb by (simp add: ready_def)
  moreover have "work w pot ?g = work w pot g" using al cb by (simp add: work_def)
  ultimately show ?thesis using c(1) cb by (intro that) (simp_all add: Let_def)
qed

lemma tm_loop_idle:
  assumes "ready P I [] g" "\<not> head_due t (sched g)"
  shows "tm_loop fuel call intr t g did = Some (g, did)"
proof -
  obtain q fl where q: "tm_rep [] (sched g) q fl" using assms(1) by (auto simp: ready_def sched_ok_def)
  show ?thesis using assms(2) alarms_rep [OF q] q
    by (cases q) (subst tm_loop.simps; auto simp: head_due_iff due_def tm_rep_def dest!: dll_head)+
qed

lemma head_due_queue:
  assumes "ready P I [] g" "head_due t (sched g)"
  obtains e q fl where "tm_rep [] (sched g) (e # q) fl" "due t (tm_buffer (sched g) ! e)"
    "tm_queue (sched g) = Some e"
proof -
  obtain q fl where q: "tm_rep [] (sched g) q fl" using assms(1) by (auto simp: ready_def sched_ok_def)
  then obtain e q' where e: "q = e # q'" "due t (tm_buffer (sched g) ! e)"
    using assms(2) alarms_rep [OF q] by (cases q) (auto simp: head_due_iff)
  moreover have "tm_queue (sched g) = Some e" using q e by (auto simp: tm_rep_def dest: dll_head)
  ultimately show ?thesis using q that by blast
qed

lemma tm_loop_runs:
  assumes wb: "well_behaved w pot P I call" and "ready P I [] g" "work w pot g \<le> fuel" "t = tm_now (timer g)"
  shows "\<exists>g'. tm_loop fuel call (\<lambda>g. i (zb_globals.more g)) t g did = Some (g', did \<or> head_due t (sched g))
    \<and> ready P I [] g' \<and> tm_now (timer g') = t \<and> (head_due t (sched g') \<longrightarrow> i (zb_globals.more g'))
    \<and> (g' = g \<or> \<not> i (zb_globals.more g) \<and> work w pot g' < work w pot g)
    \<and> (\<forall>L mac. logged L call mac \<longrightarrow> prefix (L (zb_globals.more g)) (L (zb_globals.more g'))
        \<and> length (L (zb_globals.more g')) + work w pot g' \<le> length (L (zb_globals.more g)) + work w pot g)"
  using assms(2-)
proof (induction fuel arbitrary: g did)
  case (0 g)
  have "\<not> head_due t (sched g)"
  proof
    assume "head_due t (sched g)"
    then obtain a as where a: "alarms (sched g) = a # as" "due t a" by (auto simp: head_due_iff split: list.splits)
    then have "0 < w (tm_func a) (tm_param a)"
      using call_costs [OF wb _ 0(1)] 0 by (simp add: ready_def)
    then show False using 0 a by (simp add: work_def)
  qed
  then show ?case using 0 tm_loop_idle [OF 0(1)] by auto
next
  case (Suc fuel g)
  show ?case
  proof (cases "head_due t (sched g)")
    case False
    then show ?thesis using Suc.prems tm_loop_idle [OF Suc.prems(1)] by auto
  next
    case True
    then obtain e q fl where q: "tm_rep [] (sched g) (e # q) fl" and d: "due t (tm_buffer (sched g) ! e)"
      and e: "tm_queue (sched g) = Some e" using head_due_queue [OF Suc.prems(1)] by blast
    let ?a = "tm_buffer (sched g) ! e"
    show ?thesis
    proof (cases "i (zb_globals.more g)")
      case int: True
      then have "tm_loop (Suc fuel) call (\<lambda>g. i (zb_globals.more g)) t g did = Some (g, True)"
        using d e by (subst tm_loop.simps) (simp add: due_def)
      then show ?thesis using True int Suc.prems by auto
    next
      case int: False
      obtain L h where c: "ZB_LIST_CUT_HEAD (tm_links (sched g)) (tm_queue (sched g)) = (L, h, Some e)"
        and c': "let g1 = g\<lparr>sched := (sched g)\<lparr>tm_links := L, tm_queue := h\<rparr>\<rparr>; a = ?a in
        ready P I [e] g1 \<and> work w pot g = w (tm_func a) (tm_param a) + work w pot g1
        \<and> callbacks (sched g1) = callbacks (sched g) \<and> tm_now (timer g1) = tm_now (timer g)
        \<and> zb_globals.more g1 = zb_globals.more g \<and> P (tm_func a) (tm_param a)"
        using cut_due [OF Suc.prems(1) q, of w pot] d Suc.prems(3) by blast
      define g1 where "g1 = g\<lparr>sched := (sched g)\<lparr>tm_links := L, tm_queue := h\<rparr>\<rparr>"
      note g1 = c' [unfolded Let_def, folded g1_def]
      obtain g2 where g2: "call (tm_func ?a) (tm_param ?a) g1 = Some g2" "ready P I [e] g2"
        "tm_now (timer g2) = tm_now (timer g1)" "work w pot g2 < work w pot g1 + w (tm_func ?a) (tm_param ?a)"
        using well_behavedE [OF wb _ conjunct1 [OF g1]] g1 by blast
      obtain L' f where p: "ZB_STK_PUSH (tm_links (sched g2)) (tm_freelist (sched g2)) e = (L', f)"
        and p': "let g1 = g2\<lparr>sched := (sched g2)\<lparr>tm_links := L', tm_freelist := f\<rparr>\<rparr> in
          ready P I [] g1 \<and> work w pot g1 = work w pot g2
        \<and> callbacks (sched g1) = callbacks (sched g2) \<and> tm_now (timer g1) = tm_now (timer g2)
        \<and> zb_globals.more g1 = zb_globals.more g2" using free_run [OF g2(2), of w pot] by blast
      define g3 where "g3 = g2\<lparr>sched := (sched g2)\<lparr>tm_links := L', tm_freelist := f\<rparr>\<rparr>"
      note g3 = p' [unfolded Let_def, folded g3_def]
      have less: "work w pot g3 < work w pot g" using g3 g2(4) g1 by simp
      have run: "tm_loop (Suc fuel) call (\<lambda>g. i (zb_globals.more g)) t g did
          = tm_loop fuel call (\<lambda>g. i (zb_globals.more g)) t g3 True"
        using d e c p g2(1) int by (subst tm_loop.simps) (simp add: due_def g1_def [symmetric] g3_def)
      have log: "prefix (L (zb_globals.more g)) (L (zb_globals.more g3))
          \<and> length (L (zb_globals.more g3)) + work w pot g3 \<le> length (L (zb_globals.more g)) + work w pot g"
        if l: "logged L call mac" for L mac
      proof -
        have "L (zb_globals.more g2) = L (zb_globals.more g1) @ [(tm_func ?a, tm_param ?a)]"
          using l g2(1) by (simp add: logged_def)
        then show ?thesis using less g1 g3 by simp
      qed
      have "work w pot g3 \<le> fuel" "t = tm_now (timer g3)" using less Suc.prems g1 g2(3) g3 by simp_all
      then show ?thesis
        unfolding run using Suc.IH [of g3 True] g3 less log True int
        by (fastforce intro: prefix_order.trans)
    qed
  qed
qed


section \<open>The rounds\<close>

text \<open>Starting or stopping the hardware timer changes nothing that the loops look at.\<close>

lemma timer_ready:
  assumes "ready P I [] g" "tm_now tm = tm_now (timer g)"
  shows "ready P I [] (g\<lparr>timer := tm\<rparr>)" "work w pot (g\<lparr>timer := tm\<rparr>) = work w pot g"
  using assms by (simp_all add: ready_def work_def)

text \<open>
  A round that does something brings the loop nearer to its end: it has done work, or it has
  been broken by an interrupt that the poll of the next round serves.
\<close>

definition rank :: "(zb_callback \<Rightarrow> zb_uint8_t \<Rightarrow> nat) \<Rightarrow> ('z \<Rightarrow> nat) \<Rightarrow> ('z \<Rightarrow> bool) \<Rightarrow> 'z zb_globals_scheme \<Rightarrow> nat" where
  "rank w pot i g = 2 * work w pot g + (if i (zb_globals.more g) then 0 else 1)"

lemma sched_round_runs:
  assumes wb: "well_behaved w pot P I call" and mac: "served w pot P I i mac"
    and r: "ready P I [] g" and fuel: "work w pot g \<le> fuel"
  shows "\<exists>g' did. sched_round fuel call (\<lambda>g. i (zb_globals.more g)) mac g = Some (g', did) \<and> ready P I [] g'
    \<and> (if did then rank w pot i g' < rank w pot i g else callbacks (sched g') = [] \<and> \<not> busy g')
    \<and> (\<forall>L. logged L call mac \<longrightarrow> prefix (log_of L g) (log_of L g')
        \<and> length (L (zb_globals.more g')) + work w pot g' \<le> length (L (zb_globals.more g)) + work w pot g)"
proof -
  let ?i = "\<lambda>g. i (zb_globals.more g)"
  obtain g1 new where g1: "mac g = Some g1" "ready P I [] g1" "callbacks (sched g1) = callbacks (sched g) @ new"
    "work w pot g1 + (if ?i g then 1 else 0) \<le> work w pot g" using mac r unfolding served_def by blast
  let ?did = "callbacks (sched g1) \<noteq> []"
  obtain g2 where g2: "cb_loop fuel call ?i g1 False = Some (g2, ?did)" "ready P I [] g2"
    "callbacks (sched g2) = [] \<or> ?i g2" "g2 = g1 \<or> work w pot g2 < work w pot g1"
    "\<forall>L mac. logged L call mac \<longrightarrow> prefix (log_of L g1) (log_of L g2)
      \<and> length (L (zb_globals.more g2)) + work w pot g2 \<le> length (L (zb_globals.more g1)) + work w pot g1"
    using cb_loop_runs [OF wb g1(2), of fuel i False] g1(4) fuel by auto
  let ?t = "tm_now (timer g2)"
  have le: "work w pot g2 \<le> fuel" using g1(4) g2(4) fuel by auto
  define did where "did = (?did \<or> head_due ?t (sched g2))"
  obtain g3 where g3: "tm_loop fuel call ?i ?t g2 ?did = Some (g3, did)" "ready P I [] g3" "tm_now (timer g3) = ?t"
    "head_due ?t (sched g3) \<longrightarrow> ?i g3" "g3 = g2 \<or> \<not> ?i g2 \<and> work w pot g3 < work w pot g2"
    "\<forall>L mac. logged L call mac \<longrightarrow> prefix (L (zb_globals.more g2)) (L (zb_globals.more g3))
      \<and> length (L (zb_globals.more g3)) + work w pot g3 \<le> length (L (zb_globals.more g2)) + work w pot g2"
    using tm_loop_runs [OF wb g2(2) le refl, of i ?did] unfolding did_def by auto
  have loop: "(if tm_queue (sched g2) \<noteq> None then tm_loop fuel call ?i ?t g2 ?did else Some (g2, ?did)) = Some (g3, did)"
    using g3(1) by (subst (asm) tm_loop.simps) (auto simp: tm_loop.simps)
  define g4 where "g4 = (case tm_queue (sched g3) of
      Some h \<Rightarrow> g3\<lparr>timer := zb_timer_start (ZB_TIME_SUBTRACT (run_time (tm_buffer (sched g3) ! h))
        (if tm_queue (sched g2) \<noteq> None then ZB_TIMER_GET (timer g2) else 0)) (timer g3)\<rparr>
    | None \<Rightarrow> g3\<lparr>timer := zb_timer_stop_async (timer g3)\<rparr>)"
  have "\<exists>tm. g4 = g3\<lparr>timer := tm\<rparr> \<and> tm_now tm = tm_now (timer g3)"
    by (auto simp: g4_def split: option.split)
  then have g4: "ready P I [] g4" "work w pot g4 = work w pot g3" "sched g4 = sched g3"
      "zb_globals.more g4 = zb_globals.more g3" "tm_now (timer g4) = ?t"
    using timer_ready [OF g3(2)] g3(3) by auto
  have "sched_round fuel call ?i mac g = Some (g4, did)"
    using g1(1) g2(1) loop
    by (cases "tm_queue (sched g2)") (simp_all add: sched_round_def g4_def ZB_TIMER_GET_def Let_def)
  moreover have "rank w pot i g4 < rank w pot i g" if did
  proof (cases "g3 = g1")
    case True
    then have "?i g3" using that g2(3,4) g3(3,4,5) by (auto simp: did_def)
    then show ?thesis using g1(4) g4(2,4) True by (auto simp: rank_def split: if_splits)
  next
    case False
    then have "work w pot g3 < work w pot g1" using g2(4) g3(5) by auto
    then show ?thesis using g1(4) g4(2,4) by (auto simp: rank_def split: if_splits)
  qed
  moreover have "callbacks (sched g4) = [] \<and> \<not> busy g4" if "\<not> did"
  proof -
    from that have "callbacks (sched g1) = []" "\<not> head_due ?t (sched g2)" by (simp_all add: did_def)
    moreover from this have "g2 = g1" using g2(1) cb_loop_idle [OF g1(2)] by simp
    moreover from calculation have "g3 = g2" using g3(1) tm_loop_idle [OF g2(2)] by simp
    ultimately show ?thesis using g4 by (simp add: busy_def head_due_def)
  qed
  moreover have "prefix (log_of L g) (log_of L g4)
      \<and> length (L (zb_globals.more g4)) + work w pot g4 \<le> length (L (zb_globals.more g)) + work w pot g"
    if l: "logged L call mac" for L
  proof -
    have 0: "L (zb_globals.more g1) = L (zb_globals.more g)" using l g1(1) by (simp add: logged_def)
    have "prefix (log_of L g) (log_of L g1)" using 0 g1(3) by (simp add: log_of_def)
    moreover have "prefix (log_of L g1) (log_of L g2)" using g2(5) l by blast
    moreover have "prefix (log_of L g2) (log_of L g3)"
    proof (cases "g3 = g2")
      case False
      then have "callbacks (sched g2) = []" using g2(3) g3(5) by blast
      then show ?thesis using g3(6) l by (auto simp: log_of_def intro: prefix_order.trans)
    qed simp
    moreover have "log_of L g4 = log_of L g3" using g4 by (simp add: log_of_def)
    moreover have "length (L (zb_globals.more g3)) + work w pot g3 \<le> length (L (zb_globals.more g1)) + work w pot g1"
      using g2(5) g3(6) l by fastforce
    ultimately show ?thesis using 0 g1(4) g4(2,4) by (auto intro: prefix_order.trans)
  qed
  ultimately show ?thesis using g4(1) by (intro exI [of _ g4] exI [of _ did]) auto
qed

lemma sched_rounds_run:
  assumes wb: "well_behaved w pot P I call" and mac: "served w pot P I i mac"
    and "ready P I [] g" "rank w pot i g < fuel"
  shows "\<exists>g'. sched_rounds fuel call (\<lambda>g. i (zb_globals.more g)) mac g = Some g' \<and> ready P I [] g'
    \<and> callbacks (sched g') = [] \<and> \<not> busy g'
    \<and> (\<forall>L. logged L call mac \<longrightarrow> prefix (log_of L g) (log_of L g')
        \<and> length (L (zb_globals.more g')) + work w pot g' \<le> length (L (zb_globals.more g)) + work w pot g)"
  using assms(3,4)
proof (induction fuel arbitrary: g)
  case (Suc fuel g)
  have "work w pot g \<le> Suc fuel" using Suc.prems(2) by (simp add: rank_def)
  then obtain g1 did where g1: "sched_round (Suc fuel) call (\<lambda>g. i (zb_globals.more g)) mac g = Some (g1, did)"
    "ready P I [] g1" "if did then rank w pot i g1 < rank w pot i g else callbacks (sched g1) = [] \<and> \<not> busy g1"
    "\<forall>L. logged L call mac \<longrightarrow> prefix (log_of L g) (log_of L g1)
      \<and> length (L (zb_globals.more g1)) + work w pot g1 \<le> length (L (zb_globals.more g)) + work w pot g"
    using sched_round_runs [OF wb mac Suc.prems(1), of "Suc fuel"] by auto
  show ?case
  proof (cases did)
    case False
    then show ?thesis using g1 by simp
  next
    case True
    then have "rank w pot i g1 < fuel" using g1(3) Suc.prems(2) by simp
    from Suc.IH [OF g1(2) this] show ?thesis
      using g1(1,4) True by (fastforce intro: prefix_order.trans)
  qed
qed simp

section \<open>The scheduler's operations, called by a handler\<close>

lemma due_weight_mset:
  "due_weight w t as = (\<Sum>a\<in>#filter_mset (due t) (mset as). w (tm_func a) (tm_param a))"
  by (induction as) simp_all

lemma schedule_callback_ready:
  assumes r: "ready P I D g" and p: "P f p" "unat p \<le> 16"
  shows "\<exists>g' new ret. zb_schedule_callback f p g = Some (g', ret) \<and> ready P I D g'
    \<and> callbacks (sched g') = callbacks (sched g) @ new \<and> timer g' = timer g
    \<and> work w pot g' \<le> work w pot g + w f p \<and> zb_globals.more g' = zb_globals.more g"
proof -
  have wf: "ring_wf 16 (cb_q (sched g))" using r by (simp add: ready_def sched_ok_def sched_consts)
  show ?thesis
  proof (cases "length (callbacks (sched g)) < 16")
    case False
    then show ?thesis using schedule_callback_ring [OF wf, of f p] r p by (intro exI [of _ g] exI [of _ "[]"]) simp
  next
    case True
    let ?e = "\<lparr>cb_func = f, cb_param = p\<rparr>"
    let ?g = "g\<lparr>sched := (sched g)\<lparr>cb_q := ZB_RING_BUFFER_PUT ?e (cb_q (sched g))\<rparr>\<rparr>"
    have q: "ring_wf 16 (ZB_RING_BUFFER_PUT ?e (cb_q (sched g)))"
      "ring_list (ZB_RING_BUFFER_PUT ?e (cb_q (sched g))) = ring_list (cb_q (sched g)) @ [?e]"
      using ring.put_inv [OF wf, of ?e] ring.put_contents [OF wf, of ?e] ring.full_iff [OF wf] True
      by (auto simp: callbacks_def)
    then have cb: "callbacks (sched ?g) = callbacks (sched g) @ [?e]" by (simp add: callbacks_def)
    have al: "alarms (sched ?g) = alarms (sched g)" by simp
    have "sched_ok D (sched ?g)" using r q(1) by (simp add: ready_def sched_ok_def sched_consts)
    then have "ready P I D ?g" unfolding ready_def cb al using r p(1) by (auto simp: ready_def)
    moreover have "work w pot ?g = work w pot g + w f p" unfolding work_def cb al by simp
    ultimately show ?thesis using schedule_callback_ring [OF wf, of f p] True p(2) cb
      by (intro exI [of _ ?g] exI [of _ "[?e]"] exI [of _ RET_OK]) simp
  qed
qed

lemma schedule_alarm_ready:
  assumes r: "ready P I D g" and p: "P f p" "\<not> ZB_TIME_GE (tm_now (timer g)) (tm_now (timer g) + d)"
  shows "\<exists>g' ret. zb_schedule_alarm f p d g = Some (g', ret) \<and> ready P I D g'
    \<and> callbacks (sched g') = callbacks (sched g) \<and> tm_now (timer g') = tm_now (timer g)
    \<and> work w pot g' = work w pot g \<and> zb_globals.more g' = zb_globals.more g"
proof -
  obtain q fl where q: "tm_rep D (sched g) q fl" using r by (auto simp: ready_def sched_ok_def)
  show ?thesis
  proof (cases fl)
    case Nil
    then show ?thesis using schedule_alarm_full [of D g q f p d] q r by auto
  next
    case (Cons n fl')
    let ?a = "\<lparr>tm_func = f, tm_param = p, run_time = tm_now (timer g) + d\<rparr>"
    obtain g' q' where g': "zb_schedule_alarm f p d g = Some (g', RET_OK)" "tm_rep D (sched g') q' fl'"
      "tm_only (sched g) (sched g')" "alarms (sched g') = alarm_insert ?a (alarms (sched g))"
      "tm_now (timer g') = tm_now (timer g)" "zb_globals.more g' = zb_globals.more g"
      using schedule_alarm_ok [OF q [unfolded Cons], of f p d] by (auto simp: Let_def split: if_splits)
    have m: "mset (alarms (sched g')) = add_mset ?a (mset (alarms (sched g)))" using g'(4) by (simp add: alarm_insert_mset)
    then have set: "set (alarms (sched g')) = insert ?a (set (alarms (sched g)))"
      by (metis set_mset_add_mset_insert set_mset_mset)
    note same = tm_only_fields [OF g'(3)]
    have cb: "callbacks (sched g') = callbacks (sched g)" using same by (simp add: callbacks_def)
    have "sched_ok D (sched g')" using r g'(2) same by (auto simp: ready_def sched_ok_def)
    then have "ready P I D g'" using r p(1) g'(6) cb set by (auto simp: ready_def)
    moreover have "work w pot g' = work w pot g"
      using p(2) by (simp add: work_def cb g'(5,6) due_weight_mset m due_def)
    ultimately show ?thesis using g' cb by blast
  qed
qed

section \<open>A run with a handler of the stack\<close>

text \<open>
  The alarm handler of the duplicate detection, an application whose callback queues the next one,
  and a MAC that has received frames: the poll takes one and queues a callback for it. The
  globals are extended by the log and the number of waiting frames.
\<close>

definition whole :: "'z zb_globals_a_ext zb_globals_b_ext \<Rightarrow> 'z zb_globals_a_scheme" where
  "whole m = \<lparr>sched = sched_zero, timer = \<lparr>timer_stop = 0, tm_now = 0, tm_started = False\<rparr>, \<dots> = m\<rparr>"

lemma whole_fields [simp]:
  "addr (whole (zb_globals.more g)) = addr g"
  "zb_globals_a.more (whole (zb_globals.more g)) = zb_globals_a.more g"
  by (cases g; simp add: whole_def)+

definition addr_ok :: "'z zb_globals_a_ext zb_globals_b_ext \<Rightarrow> bool" where
  "addr_ok m \<longleftrightarrow> addr_wf (addr (whole m))"

lemma work_pot: "work w pot g = work w (\<lambda>_. 0) g + pot (zb_globals.more g)"
  by (simp add: work_def)

lemma ready_sched:
  "sched g' = sched g \<Longrightarrow> ready P I D g \<Longrightarrow> I (zb_globals.more g') \<Longrightarrow> ready P I D g'"
  by (simp add: ready_def)

lemma check_timer_ready:
  fixes g :: "'z zb_globals_a_scheme"
  assumes r: "ready P addr_ok D g" and p: "P Cb_zb_aps_check_timer_cb 0"
  shows "\<exists>g'. zb_aps_check_timer_cb g = Some g' \<and> ready P addr_ok D g'
    \<and> callbacks (sched g') = callbacks (sched g) \<and> tm_now (timer g') = tm_now (timer g)
    \<and> work w (\<lambda>_. 0) g' = work w (\<lambda>_. 0) g \<and> zb_globals_a.more g' = zb_globals_a.more g"
proof -
  have wf: "addr_wf (addr g)" using r by (simp add: ready_def addr_ok_def)
  let ?B = "(addr g)\<lparr>addr_map := map dup_tick (addr_map (addr g))\<rparr>"
  obtain run where l: "check_timer_loop 0 0 (addr g) False = Some (?B, run)" using check_timer_all [OF wf] by blast
  let ?g = "upd_aps (\<lambda>a. a\<lparr>dups_alarm_running := run\<rparr>) (g\<lparr>addr := ?B\<rparr>)"
  have B: "addr_wf ?B" by (rule addr_wf_tick [OF wf])
  have g: "ready P addr_ok D ?g" using B by (intro ready_sched [OF _ r]) (simp_all add: addr_ok_def)
  have same: "work w (\<lambda>_. 0) ?g = work w (\<lambda>_. 0) g" "zb_globals_a.more ?g = zb_globals_a.more g"
    by (simp_all add: work_def) (simp add: upd_aps_def)
  show ?thesis
  proof (cases run)
    case False
    then show ?thesis using l g same by (simp add: zb_aps_check_timer_cb_def Let_def)
  next
    case True
    have "\<not> ZB_TIME_GE (tm_now (timer ?g)) (tm_now (timer ?g) + ZB_APS_DUP_CHECK_TIMEOUT)"
      by (simp add: ZB_TIME_GE_def ZB_HALF_MAX_TIME_VAL_def ZB_APS_DUP_CHECK_TIMEOUT_def
          ZB_MILLISECONDS_TO_BEACON_INTERVAL_def ZB_BEACON_INTERVAL_USEC_def)
    from schedule_alarm_ready [OF g p this, of w "\<lambda>_. 0"] obtain g' ret where
      g': "zb_schedule_alarm Cb_zb_aps_check_timer_cb 0 ZB_APS_DUP_CHECK_TIMEOUT ?g = Some (g', ret)"
        "ready P addr_ok D g'" "callbacks (sched g') = callbacks (sched ?g)" "tm_now (timer g') = tm_now (timer ?g)"
        "work w (\<lambda>_. 0) g' = work w (\<lambda>_. 0) ?g" "zb_globals.more g' = zb_globals.more ?g" by blast
    have "zb_globals_a.more g' = zb_globals_a.more ?g" using arg_cong [OF g'(6), of "\<lambda>m. zb_globals_a.more (whole m)"] by simp
    then show ?thesis using l g' same True by (simp add: zb_aps_check_timer_cb_def schedule_dups_alarm_def Let_def)
  qed
qed

definition app_handler :: "zb_callback \<Rightarrow> zb_uint8_t \<Rightarrow> 'z zb_globals_a_scheme \<Rightarrow> 'z zb_globals_a_scheme option" where
  "app_handler f p g = (case f of
     Cb_zb_aps_check_timer_cb \<Rightarrow> zb_aps_check_timer_cb g
   | Cb_user (Suc n) \<Rightarrow> map_option fst (zb_schedule_callback (Cb_user n) p g)
   | Cb_user 0 \<Rightarrow> Some g
   | _ \<Rightarrow> None)"

type_synonym demo_ext = "(zb_callback \<times> zb_uint8_t) list \<times> nat"

definition demo_call :: "demo_ext zb_globals_a_scheme zb_call" where
  "demo_call f p g = map_option (\<lambda>g'. zb_globals_a.more_update (\<lambda>(l, n). (l @ [(f, p)], n)) g') (app_handler f p g)"

definition demo_poll :: "demo_ext zb_globals_a_scheme \<Rightarrow> demo_ext zb_globals_a_scheme option" where
  "demo_poll g = (case zb_globals_a.more g of
     (l, Suc n) \<Rightarrow> map_option fst (zb_schedule_callback (Cb_user 0) 1 (zb_globals_a.more_update (\<lambda>_. (l, n)) g))
   | _ \<Rightarrow> Some g)"

definition demo_log :: "demo_ext zb_globals_a_ext zb_globals_b_ext \<Rightarrow> (zb_callback \<times> zb_uint8_t) list" where
  "demo_log m = fst (zb_globals_a.more (whole m))"

definition demo_frames :: "demo_ext zb_globals_a_ext zb_globals_b_ext \<Rightarrow> nat" where
  "demo_frames m = snd (zb_globals_a.more (whole m))"

definition demo_pot :: "demo_ext zb_globals_a_ext zb_globals_b_ext \<Rightarrow> nat" where
  "demo_pot m = 2 * demo_frames m"

definition demo_intr :: "demo_ext zb_globals_a_ext zb_globals_b_ext \<Rightarrow> bool" where
  "demo_intr m \<longleftrightarrow> demo_frames m \<noteq> 0"

definition demo_kind :: "zb_callback \<Rightarrow> zb_uint8_t \<Rightarrow> bool" where
  "demo_kind f p \<longleftrightarrow> unat p \<le> 16 \<and> (f = Cb_zb_aps_check_timer_cb \<or> (\<exists>n. f = Cb_user n))"

definition demo_weight :: "zb_callback \<Rightarrow> zb_uint8_t \<Rightarrow> nat" where
  "demo_weight f p = (case f of Cb_user n \<Rightarrow> Suc n | _ \<Rightarrow> 1)"

lemma more_update_fields [simp]:
  "sched (zb_globals_a.more_update h g) = sched g" "timer (zb_globals_a.more_update h g) = timer g"
  "addr (zb_globals_a.more_update h g) = addr g"
  "zb_globals_a.more (zb_globals_a.more_update h g) = h (zb_globals_a.more g)"
  by (cases g; simp)+

lemma same_rest:
  fixes g :: "'z zb_globals_a_scheme"
  assumes "zb_globals.more g' = zb_globals.more g"
  shows "addr g' = addr g" "zb_globals_a.more g' = zb_globals_a.more g"
  using arg_cong [OF assms, of "\<lambda>m. addr (whole m)"] arg_cong [OF assms, of "\<lambda>m. zb_globals_a.more (whole m)"] by simp_all

lemma app_handler_runs:
  fixes g :: "'z zb_globals_a_scheme"
  assumes r: "ready demo_kind addr_ok D g" and p: "demo_kind f p"
  shows "\<exists>g' new. app_handler f p g = Some g' \<and> ready demo_kind addr_ok D g'
    \<and> callbacks (sched g') = callbacks (sched g) @ new \<and> tm_now (timer g') = tm_now (timer g)
    \<and> work demo_weight (\<lambda>_. 0) g' < work demo_weight (\<lambda>_. 0) g + demo_weight f p
    \<and> zb_globals_a.more g' = zb_globals_a.more g"
proof -
  consider "f = Cb_zb_aps_check_timer_cb" | "f = Cb_user 0" | n where "f = Cb_user (Suc n)"
    using p by (auto simp: demo_kind_def) (metis old.nat.exhaust)
  then show ?thesis
  proof cases
    case 1
    from check_timer_ready [OF r, of demo_weight] show ?thesis
      using 1 by (auto simp: app_handler_def demo_kind_def demo_weight_def)
  next
    case 2
    then show ?thesis using r by (intro exI [of _ g] exI [of _ "[]"]) (simp add: app_handler_def demo_weight_def)
  next
    case (3 n)
    have "demo_kind (Cb_user n) p" "unat p \<le> 16" using p by (simp_all add: demo_kind_def)
    from schedule_callback_ready [OF r this, of demo_weight "\<lambda>_. 0"] obtain g' new ret where
      g': "zb_schedule_callback (Cb_user n) p g = Some (g', ret)" "ready demo_kind addr_ok D g'"
        "callbacks (sched g') = callbacks (sched g) @ new" "timer g' = timer g"
        "work demo_weight (\<lambda>_. 0) g' \<le> work demo_weight (\<lambda>_. 0) g + demo_weight (Cb_user n) p"
        "zb_globals.more g' = zb_globals.more g" by blast
    then show ?thesis using 3 same_rest [OF g'(6)]
      by (intro exI [of _ g'] exI [of _ new]) (simp add: app_handler_def demo_weight_def)
  qed
qed

lemma demo_call_well_behaved: "well_behaved demo_weight demo_pot demo_kind addr_ok demo_call"
  unfolding well_behaved_def
proof (intro allI impI, elim conjE)
  fix f p D and g :: "demo_ext zb_globals_a_scheme"
  assume p: "demo_kind f p" and r: "ready demo_kind addr_ok D g"
  from app_handler_runs [OF r p] obtain g' new where g': "app_handler f p g = Some g'" "ready demo_kind addr_ok D g'"
    "callbacks (sched g') = callbacks (sched g) @ new" "tm_now (timer g') = tm_now (timer g)"
    "work demo_weight (\<lambda>_. 0) g' < work demo_weight (\<lambda>_. 0) g + demo_weight f p"
    "zb_globals_a.more g' = zb_globals_a.more g" by blast
  let ?g = "zb_globals_a.more_update (\<lambda>(l, n). (l @ [(f, p)], n)) g'"
  have "ready demo_kind addr_ok D ?g" using g'(2) by (simp add: ready_def addr_ok_def)
  moreover have "work demo_weight demo_pot ?g < work demo_weight demo_pot g + demo_weight f p"
    using g'(4-6) by (simp add: work_def demo_pot_def demo_frames_def split: prod.split)
  ultimately show "\<exists>g' new. demo_call f p g = Some g' \<and> ready demo_kind addr_ok D g'
      \<and> callbacks (sched g') = callbacks (sched g) @ new \<and> tm_now (timer g') = tm_now (timer g)
      \<and> work demo_weight demo_pot g' < work demo_weight demo_pot g + demo_weight f p"
    using g'(1,3,4) by (intro exI [of _ ?g] exI [of _ new]) (simp add: demo_call_def)
qed

lemma demo_poll_served: "served demo_weight demo_pot demo_kind addr_ok demo_intr demo_poll"
  unfolding served_def
proof (intro allI impI)
  fix g :: "demo_ext zb_globals_a_scheme"
  assume r: "ready demo_kind addr_ok [] g"
  obtain l k where m: "zb_globals_a.more g = (l, k)" by fastforce
  show "\<exists>g' new. demo_poll g = Some g' \<and> ready demo_kind addr_ok [] g' \<and> callbacks (sched g') = callbacks (sched g) @ new
      \<and> work demo_weight demo_pot g' + (if demo_intr (zb_globals.more g) then 1 else 0) \<le> work demo_weight demo_pot g"
  proof (cases k)
    case 0
    then show ?thesis using r m by (simp add: demo_poll_def demo_intr_def demo_frames_def)
  next
    case (Suc n)
    let ?g = "zb_globals_a.more_update (\<lambda>_. (l, n)) g"
    have "ready demo_kind addr_ok [] ?g" using r by (simp add: ready_def addr_ok_def)
    then obtain g' new ret where g': "zb_schedule_callback (Cb_user 0) 1 ?g = Some (g', ret)" "ready demo_kind addr_ok [] g'"
      "callbacks (sched g') = callbacks (sched ?g) @ new"
      "work demo_weight demo_pot g' \<le> work demo_weight demo_pot ?g + demo_weight (Cb_user 0) 1"
      using schedule_callback_ready [of demo_kind addr_ok "[]" ?g "Cb_user 0" 1 demo_weight demo_pot]
      by (auto simp: demo_kind_def)
    then show ?thesis using m Suc
      by (intro exI [of _ g'] exI [of _ new])
        (simp add: demo_poll_def work_def demo_pot_def demo_frames_def demo_intr_def demo_weight_def)
  qed
qed

text \<open>The log grows by exactly the call, whatever the handler does.\<close>

lemma schedule_more:
  "zb_schedule_alarm f p d g = Some (g', ret) \<Longrightarrow> zb_globals.more g' = zb_globals.more g"
  "zb_schedule_callback f p g = Some (g', ret) \<Longrightarrow> zb_globals.more g' = zb_globals.more g"
  by (auto simp: zb_schedule_alarm_def zb_schedule_callback_def Let_def
      split: prod.splits option.splits Option.bind_splits)

lemma app_handler_more:
  fixes g :: "'z zb_globals_a_scheme"
  assumes "app_handler f p g = Some g'"
  shows "zb_globals_a.more g' = zb_globals_a.more g"
proof -
  have cb: "zb_globals_a.more h' = zb_globals_a.more h"
    if "map_option fst (zb_schedule_callback f p h) = Some h'" for f p and h h' :: "'z zb_globals_a_scheme"
    using that same_rest(2) schedule_more(2) by fastforce
  have al: "zb_globals_a.more h' = zb_globals_a.more h"
    if "schedule_dups_alarm h = Some h'" for h h' :: "'z zb_globals_a_scheme"
    using that same_rest(2) schedule_more(1) unfolding schedule_dups_alarm_def by fastforce
  have "zb_globals_a.more (upd_aps u h) = zb_globals_a.more h" for u and h :: "'z zb_globals_a_scheme"
    by (simp add: upd_aps_def)
  then show ?thesis using assms cb al
    by (fastforce simp: app_handler_def zb_aps_check_timer_cb_def Let_def
        split: zb_callback.splits nat.splits Option.bind_splits prod.splits if_splits)
qed

lemma demo_logged: "logged demo_log demo_call demo_poll"
  unfolding logged_def
proof (intro conjI allI impI)
  fix f p and g g' :: "demo_ext zb_globals_a_scheme"
  assume "demo_call f p g = Some g'"
  then show "demo_log (zb_globals.more g') = demo_log (zb_globals.more g) @ [(f, p)]"
    using app_handler_more [of f p g] by (auto simp: demo_call_def demo_log_def split: prod.split)
next
  fix g g' :: "demo_ext zb_globals_a_scheme"
  assume "demo_poll g = Some g'"
  then show "demo_log (zb_globals.more g') = demo_log (zb_globals.more g)"
    using same_rest(2) [OF schedule_more(2)]
    by (fastforce simp: demo_poll_def demo_log_def split: prod.splits nat.splits)
qed

text \<open>The start: one callback is queued, the alarm is due, and one frame waits in the MAC.\<close>

definition demo_run :: "demo_ext zb_globals_a_scheme" where
  "demo_run = fst (the (zb_schedule_callback (Cb_user 2) 3
     (fst (the (zb_schedule_alarm Cb_zb_aps_check_timer_cb 0 0 (zb_globals_a.extend demo_a ([], 1)))))))"

lemma demo_run_start:
  "ready demo_kind addr_ok [] demo_run" "callbacks (sched demo_run) = [\<lparr>cb_func = Cb_user 2, cb_param = 3\<rparr>]"
  "work demo_weight demo_pot demo_run = 6" "zb_globals_a.more demo_run = ([], 1)"
proof -
  define g0 :: "demo_ext zb_globals_a_scheme" where "g0 = zb_globals_a.extend demo_a ([], 1)"
  have f0: "sched g0 = sched demo_base" "timer g0 = timer demo_base" "addr g0 = addr demo_a" "zb_globals_a.more g0 = ([], 1)"
    by (simp_all add: g0_def zb_globals_a.defs demo_a_def)
  let ?a = "\<lparr>tm_func = Cb_zb_aps_check_timer_cb, tm_param = 0, run_time = tm_now (timer demo_base)\<rparr>"
  obtain g1 where g1: "zb_schedule_alarm Cb_zb_aps_check_timer_cb 0 0 g0 = Some (g1, RET_OK)" "sched_wf (sched g1)"
    "tm_only (sched demo_base) (sched g1)" "tm_now (timer g1) = tm_now (timer demo_base)"
    "zb_globals.more g1 = zb_globals.more g0" "alarms (sched g1) = [?a]"
    using schedule_alarm_spec [of g0 Cb_zb_aps_check_timer_cb 0 0] demo_base_wf
    by (auto simp: f0 alarm_insert_def)
  note rest = same_rest [OF g1(5)]
  have cb: "callbacks (sched g1) = []"
    using tm_only_fields [OF g1(3)] demo_base_wf(5) by (simp add: callbacks_def)
  define g2 where "g2 = g1\<lparr>sched := (sched g1)\<lparr>cb_q := ZB_RING_BUFFER_PUT \<lparr>cb_func = Cb_user 2, cb_param = 3\<rparr> (cb_q (sched g1))\<rparr>\<rparr>"
  have g2: "sched_wf (sched g2)" "callbacks (sched g2) = [\<lparr>cb_func = Cb_user 2, cb_param = 3\<rparr>]"
    "alarms (sched g2) = [?a]" "tm_now (timer g2) = tm_now (timer demo_base)"
    using schedule_callback_wf [OF g1(2)] cb g1 by (simp_all add: g2_def)
  have d: "demo_run = g2"
    using g1(1) schedule_callback_spec [OF g1(2), of "Cb_user 2" 3] cb
    unfolding demo_run_def g2_def g0_def [symmetric] by simp
  have more: "zb_globals.more g2 = zb_globals.more g1" by (simp add: g2_def)
  have m: "addr g2 = addr demo_a" "zb_globals_a.more g2 = ([], 1)" using same_rest [OF more] rest f0 by simp_all
  show "ready demo_kind addr_ok [] demo_run" "callbacks (sched demo_run) = [\<lparr>cb_func = Cb_user 2, cb_param = 3\<rparr>]"
    "work demo_weight demo_pot demo_run = 6" "zb_globals_a.more demo_run = ([], 1)"
    unfolding d using g2 m demo_a_wf(1)
    by (simp_all add: ready_def sched_ok_wf addr_ok_def demo_kind_def work_def demo_weight_def demo_pot_def
        demo_frames_def due_def ZB_TIME_GE_def ZB_HALF_MAX_TIME_VAL_def)
qed

section \<open>The property\<close>

text \<open>
  C19: One call of \<^verbatim>\<open>zb_sched_loop_iteration\<close> ends, with no callback queued and with no due
  alarm at the head of the queue, although the handlers use the scheduler: provided that every
  handler, called with the clock standing, returns with a well-formed scheduler, only appends to
  the callbacks, and adds less work than its own weight (an alarm in the future is no work), that
  the poll of a round only queues callbacks for work that was in store, and that it serves a
  pending interrupt. The interrupts, which break the loops, may come from the poll and from the
  handlers. A log of the calls shows that the callbacks queued at the start are called
  first, in the order of the queue, and that there are no more calls than there was work.
\<close>

theorem zb_sched_loop_iteration_runs_pending:
  assumes "well_behaved w pot P I call" "served w pot P I i mac"
    and "ready P I [] g" "2 * work w pot g + 1 < fuel"
  shows "\<exists>g'. zb_sched_loop_iteration fuel call (\<lambda>g. i (zb_globals.more g)) mac try_io g = Some (try_io g')
    \<and> ready P I [] g' \<and> callbacks (sched g') = [] \<and> \<not> busy g'
    \<and> (\<forall>L. logged L call mac \<longrightarrow> (\<exists>later. L (zb_globals.more g') =
          L (zb_globals.more g) @ map call_of (callbacks (sched g)) @ later
        \<and> length (callbacks (sched g)) + length later \<le> work w pot g))"
proof -
  have "rank w pot i g < fuel" using assms(4) by (simp add: rank_def)
  from sched_rounds_run [OF assms(1-3) this] obtain g' where
    g': "sched_rounds fuel call (\<lambda>g. i (zb_globals.more g)) mac g = Some g'" "ready P I [] g'"
      "callbacks (sched g') = []" "\<not> busy g'"
      "\<forall>L. logged L call mac \<longrightarrow> prefix (log_of L g) (log_of L g')
        \<and> length (L (zb_globals.more g')) + work w pot g' \<le> length (L (zb_globals.more g)) + work w pot g" by blast
  have "\<exists>later. L (zb_globals.more g') = L (zb_globals.more g) @ map call_of (callbacks (sched g)) @ later
      \<and> length (callbacks (sched g)) + length later \<le> work w pot g" if "logged L call mac" for L
  proof -
    have "prefix (log_of L g) (log_of L g')" and len: "length (L (zb_globals.more g')) + work w pot g'
        \<le> length (L (zb_globals.more g)) + work w pot g" using g'(5) that by blast+
    then obtain later where "log_of L g' = log_of L g @ later" by (auto simp: prefix_def)
    then show ?thesis using len g'(3) by (intro exI [of _ later]) (simp add: log_of_def)
  qed
  moreover have "zb_sched_loop_iteration fuel call (\<lambda>g. i (zb_globals.more g)) mac try_io g = Some (try_io g')"
    using g'(1) by (simp add: zb_sched_loop_iteration_def)
  ultimately show ?thesis using g'(2-4) by (intro exI [of _ g'] conjI allI impI)
qed

lemma zb_sched_loop_iteration_runs_pending_witness:
  "\<exists>g' later. zb_sched_loop_iteration 14 demo_call (\<lambda>g. demo_intr (zb_globals.more g)) demo_poll id demo_run = Some g'
    \<and> callbacks (sched g') = [] \<and> \<not> busy g'
    \<and> demo_log (zb_globals.more g') = (Cb_user 2, 3) # later \<and> length later \<le> 5"
proof -
  have start: "demo_log (zb_globals.more demo_run) = []" using demo_run_start(4) by (simp add: demo_log_def)
  have "2 * work demo_weight demo_pot demo_run + 1 < 14" using demo_run_start(3) by simp
  from zb_sched_loop_iteration_runs_pending [OF demo_call_well_behaved demo_poll_served demo_run_start(1) this, of id]
  obtain g' where g': "zb_sched_loop_iteration 14 demo_call (\<lambda>g. demo_intr (zb_globals.more g)) demo_poll id demo_run = Some g'"
    "callbacks (sched g') = []" "\<not> busy g'"
    and "\<forall>L. logged L demo_call demo_poll \<longrightarrow> (\<exists>later. L (zb_globals.more g') =
          L (zb_globals.more demo_run) @ map call_of (callbacks (sched demo_run)) @ later
        \<and> length (callbacks (sched demo_run)) + length later \<le> work demo_weight demo_pot demo_run)" by auto
  from this(4) demo_logged obtain later where "demo_log (zb_globals.more g') =
      demo_log (zb_globals.more demo_run) @ map call_of (callbacks (sched demo_run)) @ later"
    "length (callbacks (sched demo_run)) + length later \<le> work demo_weight demo_pot demo_run" by blast
  then show ?thesis using g' start demo_run_start(2,3) by (simp add: call_of_def)
qed

end
