(* ===== verification/Zb_Bind.thy ===== *)
theory Zb_Bind
  imports Zb_Aps_Globals
begin

text \<open>
  The APS binding and group tables: \<^verbatim>\<open>aps/aps_bind.c\<close>. The parameter of a request is the record of its
  fields, and the result is the new state with the status that the code stores in the
  buffer. \<^verbatim>\<open>zb_apsme_bind_confirm\<close> and \<^verbatim>\<open>zb_apsme_unbind_confirm\<close> only trace a status. The binding
  tables hold 32 entries each, so an 8-bit index into them is read as a number; the element counters
  wrap around as \<^verbatim>\<open>zb_uint8_t\<close> does.
\<close>

section \<open>Requests\<close>

definition ZB_APS_ADDR_MODE_16_GROUP_ENDP_NOT_PRESENT :: zb_uint8_t where
  "ZB_APS_ADDR_MODE_16_GROUP_ENDP_NOT_PRESENT = 1"

definition ZB_APS_ADDR_MODE_64_ENDP_PRESENT :: zb_uint8_t where
  "ZB_APS_ADDR_MODE_64_ENDP_PRESENT = 3"

definition ZB_ZDP_STATUS_TABLE_FULL :: zb_ret_t where "ZB_ZDP_STATUS_TABLE_FULL = 0x8c"

definition ZB_APS_STATUS_TABLE_FULL :: zb_uint8_t where "ZB_APS_STATUS_TABLE_FULL = 0xae"

lemmas bind_consts = ZB_APS_ADDR_MODE_16_GROUP_ENDP_NOT_PRESENT_def ZB_APS_ADDR_MODE_64_ENDP_PRESENT_def
  ZB_ZDP_STATUS_TABLE_FULL_def ZB_APS_STATUS_TABLE_FULL_def

lemma table_full_neq [simp]: "ZB_ZDP_STATUS_TABLE_FULL \<noteq> RET_OK"
  by (simp add: bind_consts zb_ret_defs)

text \<open>The union of a short and a long address: the long one, or the first two bytes of it.\<close>

type_synonym zb_addr_u = "zb_uint8_t list"

definition addr_short :: "zb_addr_u \<Rightarrow> zb_uint16_t" where
  "addr_short u = ucast (u ! 0) OR push_bit 8 (ucast (u ! 1))"

record zb_apsme_binding_req =
  br_src_addr :: zb_ieee_addr_t
  br_src_endpoint :: zb_uint8_t
  br_clusterid :: zb_uint16_t
  br_addr_mode :: zb_uint8_t
  br_dst_addr :: zb_addr_u
  br_dst_endpoint :: zb_uint8_t

section \<open>Bind\<close>

definition upd_binding :: "(zb_aps_binding_table \<Rightarrow> zb_aps_binding_table) \<Rightarrow> 'z zb_globals_a_scheme \<Rightarrow> 'z zb_globals_a_scheme" where
  "upd_binding f = upd_aps (\<lambda>a. a\<lparr>binding := f (binding a)\<rparr>)"

text \<open>
  The loop is a \<^verbatim>\<open>do\<close> loop: it reads slot 0 of an empty table too. The result 255 is
  \<^verbatim>\<open>(zb_uint8_t)-1\<close>.
\<close>

definition src_matches :: "nat \<Rightarrow> zb_uint8_t \<Rightarrow> zb_uint16_t \<Rightarrow> zb_aps_bind_src_table \<Rightarrow> bool" where
  "src_matches ref ep cl e \<longleftrightarrow> bs_src_addr e = ref \<and> bs_src_end e = ep \<and> bs_cluster_id e = cl"

function find_src_loop :: "nat \<Rightarrow> zb_aps_binding_table \<Rightarrow> nat \<Rightarrow> zb_uint8_t \<Rightarrow> zb_uint16_t \<Rightarrow> nat option" where
  "find_src_loop l B ref ep cl =
     (if l < length (src_table B) then
        if src_matches ref ep cl (src_table B ! l) then Some l
        else if l + 1 < src_n_elements B then find_src_loop (l + 1) B ref ep cl
        else Some 255
      else None)"
  by pat_completeness auto
termination by (relation "measure (\<lambda>(l, B, _). length (src_table B) - l)") auto

declare find_src_loop.simps [simp del]

definition aps_find_src_ref :: "nat \<Rightarrow> zb_uint8_t \<Rightarrow> zb_uint16_t \<Rightarrow> zb_aps_binding_table \<Rightarrow> nat option" where
  "aps_find_src_ref ref ep cl B = find_src_loop 0 B ref ep cl"

text \<open>The destination of a request: the address to resolve for mode 3, nothing for mode 1.\<close>

definition resolve_dst :: "zb_apsme_binding_req \<Rightarrow> zb_addr_globals
    \<Rightarrow> (zb_addr_globals \<times> zb_ret_t \<times> zb_aps_bind_dst option) option" where
  "resolve_dst req A =
     (if br_addr_mode req = ZB_APS_ADDR_MODE_64_ENDP_PRESENT then do {
        (A', st, ref) \<leftarrow> zb_address_by_ieee (br_dst_addr req) True False A;
        if st = RET_OK then do {
          r \<leftarrow> ref;
          Some (A', RET_OK, Some (ZB_APS_BIND_DST_ADDR_LONG r (br_dst_endpoint req))) }
        else Some (A', st, None) }
      else if br_addr_mode req = ZB_APS_ADDR_MODE_16_GROUP_ENDP_NOT_PRESENT
      then Some (A, RET_OK, Some (ZB_APS_BIND_DST_ADDR_GROUP (addr_short (br_dst_addr req))))
      else Some (A, RET_INVALID_BINDING, None))"

definition bind_add :: "nat \<Rightarrow> nat \<Rightarrow> zb_apsme_binding_req \<Rightarrow> zb_aps_bind_dst \<Rightarrow> zb_aps_binding_table \<Rightarrow> zb_aps_binding_table" where
  "bind_add s ref req dst B =
     (let B1 = (if s = src_n_elements B then
            B\<lparr>src_table := (src_table B)[s := \<lparr>bs_src_addr = ref, bs_src_end = br_src_endpoint req,
                bs_cluster_id = br_clusterid req\<rparr>], src_n_elements := inc8 (src_n_elements B)\<rparr>
          else B);
          d = dst_n_elements B1
      in B1\<lparr>dst_table := (dst_table B1)[d := \<lparr>bd_dst = dst, bd_src_table_index = s\<rparr>],
            dst_n_elements := inc8 d\<rparr>)"

definition zb_apsme_bind_request :: "zb_apsme_binding_req \<Rightarrow> 'z zb_globals_a_scheme
    \<Rightarrow> ('z zb_globals_a_scheme \<times> zb_ret_t) option" where
  "zb_apsme_bind_request req g = do {
     (A1, st, src_ref) \<leftarrow> zb_address_by_ieee (br_src_addr req) True False (addr g);
     let g1 = g\<lparr>addr := A1\<rparr>;
     let B = binding (aps g1);
     if st = RET_OK then do {
       ref \<leftarrow> src_ref;
       s0 \<leftarrow> aps_find_src_ref ref (br_src_endpoint req) (br_clusterid req) B;
       let s = (if s0 = 255 then src_n_elements B else s0);
       if s < ZB_APS_SRC_BINDING_TABLE_SIZE \<and> dst_n_elements B < ZB_APS_DST_BINDING_TABLE_SIZE then do {
         (A2, st2, dst) \<leftarrow> resolve_dst req A1;
         let g2 = g1\<lparr>addr := A2\<rparr>;
         if st2 = RET_OK then do {
           e \<leftarrow> dst;
           Some (upd_binding (bind_add s ref req e) g2, RET_OK) }
         else Some (g2, st2) }
       else Some (g1, ZB_ZDP_STATUS_TABLE_FULL) }
     else Some (g1, st) }"

section \<open>Unbind\<close>

text \<open>
  One pass of the loop that removes the bindings of source \<open>s\<close> to \<open>dst\<close>, at slot \<open>d\<close>, and the \<^verbatim>\<open>do\<close>
  loop around it. Every pass removes an entry or moves on to the next slot, so \<open>unbind_fuel\<close>
  passes are more than the loop can make; \<open>None\<close> also stands for the end of the fuel.
\<close>

definition unbind_step :: "nat \<Rightarrow> zb_aps_bind_dst \<Rightarrow> nat \<Rightarrow> bool \<Rightarrow> zb_aps_binding_table
    \<Rightarrow> (nat \<times> bool \<times> zb_aps_binding_table) option" where
  "unbind_step s dst d found B = do {
     e \<leftarrow> aget (dst_table B) d;
     if bd_src_table_index e = s \<and> bd_dst e = dst then do {
       let n = dec8 (dst_n_elements B);
       t \<leftarrow> memmove (dst_table B) d (d + 1) (n - d);
       Some (d, found, B\<lparr>dst_table := t, dst_n_elements := n\<rparr>) }
     else Some (d + 1, found \<or> bd_src_table_index e = s, B) }"

fun unbind_loop :: "nat \<Rightarrow> nat \<Rightarrow> zb_aps_bind_dst \<Rightarrow> nat \<Rightarrow> bool \<Rightarrow> zb_aps_binding_table
    \<Rightarrow> (bool \<times> zb_aps_binding_table) option" where
  "unbind_loop 0 s dst d found B = None"
| "unbind_loop (Suc fuel) s dst d found B = do {
     (d', found', B') \<leftarrow> unbind_step s dst d found B;
     if d' < dst_n_elements B' then unbind_loop fuel s dst d' found' B' else Some (found', B') }"

definition unbind_fuel :: nat where "unbind_fuel = 256"

text \<open>The loop that corrects the source indexes, over at least one slot.\<close>

function correct_loop :: "nat \<Rightarrow> nat \<Rightarrow> nat \<Rightarrow> zb_aps_bind_dst_table list \<Rightarrow> zb_aps_bind_dst_table list option" where
  "correct_loop d n s t =
     (if d < length t then
        let e = t ! d;
            t' = (if bd_src_table_index e > s then t[d := e\<lparr>bd_src_table_index := dec8 (bd_src_table_index e)\<rparr>] else t)
        in if d + 1 < n then correct_loop (d + 1) n s t' else Some t'
      else None)"
  by pat_completeness auto
termination by (relation "measure (\<lambda>(d, n, s, t). length t - d)") (auto simp: Let_def)

declare correct_loop.simps [simp del]

definition unbind_src :: "nat \<Rightarrow> zb_aps_binding_table \<Rightarrow> zb_aps_binding_table option" where
  "unbind_src s B = do {
     let n = dec8 (src_n_elements B);
     t \<leftarrow> memmove (src_table B) s (s + 1) (n - s);
     u \<leftarrow> correct_loop 0 (dst_n_elements B) s (dst_table B);
     Some (B\<lparr>src_table := t, src_n_elements := n, dst_table := u\<rparr>) }"

definition unbind_tables :: "nat \<Rightarrow> zb_aps_bind_dst \<Rightarrow> zb_aps_binding_table \<Rightarrow> zb_aps_binding_table option" where
  "unbind_tables s dst B = do {
     (found, B1) \<leftarrow> unbind_loop unbind_fuel s dst 0 False B;
     if found then Some B1 else unbind_src s B1 }"

definition zb_apsme_unbind_request :: "zb_apsme_binding_req \<Rightarrow> 'z zb_globals_a_scheme
    \<Rightarrow> ('z zb_globals_a_scheme \<times> zb_ret_t) option" where
  "zb_apsme_unbind_request req g = do {
     (A1, st, src_ref) \<leftarrow> zb_address_by_ieee (br_src_addr req) False False (addr g);
     let g1 = g\<lparr>addr := A1\<rparr>;
     let B = binding (aps g1);
     if st = RET_OK then do {
       ref \<leftarrow> src_ref;
       s \<leftarrow> aps_find_src_ref ref (br_src_endpoint req) (br_clusterid req) B;
       if s = 255 then Some (g1, RET_INVALID_BINDING)
       else do {
         (A2, st2, dst) \<leftarrow> resolve_dst req A1;
         let g2 = g1\<lparr>addr := A2\<rparr>;
         if st2 = RET_OK then do {
           e \<leftarrow> dst;
           B' \<leftarrow> unbind_tables s e B;
           Some (upd_binding (\<lambda>_. B') g2, RET_OK) }
         else Some (g2, st2) } }
     else Some (g1, RET_ILLEGAL_REQUEST) }"

section \<open>Groups\<close>

record zb_apsme_add_group_req =
  gr_group_address :: zb_uint16_t
  gr_endpoint :: zb_uint8_t

text \<open>The loop over the groups in use: the index of the group of this address.\<close>

function find_group :: "nat \<Rightarrow> zb_aps_group_table \<Rightarrow> zb_uint16_t \<Rightarrow> nat option option" where
  "find_group i G a =
     (if i < n_groups G then
        if i < length (groups G) then
          if ge_group_addr (groups G ! i) = a then Some (Some i) else find_group (i + 1) G a
        else None
      else Some None)"
  by pat_completeness auto
termination by (relation "measure (\<lambda>(i, G, a). length (groups G) - i)") auto

declare find_group.simps [simp del]

definition add_endpoint :: "zb_uint8_t \<Rightarrow> zb_aps_group_table_ent \<Rightarrow> (zb_aps_group_table_ent \<times> zb_uint8_t) option" where
  "add_endpoint ep e = do {
     zb_assert (ge_n_endpoints e \<le> length (ge_endpoints e));
     if ep \<in> set (take (ge_n_endpoints e) (ge_endpoints e)) then Some (e, 0)
     else if ge_n_endpoints e < ZB_APS_ENDPOINTS_IN_GROUP_TABLE then
       Some (e\<lparr>ge_endpoints := (ge_endpoints e)[ge_n_endpoints e := ep],
               ge_n_endpoints := inc32 (ge_n_endpoints e)\<rparr>, 0)
     else Some (e, ZB_APS_STATUS_TABLE_FULL) }"

definition group_table_add :: "zb_apsme_add_group_req \<Rightarrow> zb_aps_group_table \<Rightarrow> (zb_aps_group_table \<times> zb_uint8_t) option" where
  "group_table_add req G = do {
     found \<leftarrow> find_group 0 G (gr_group_address req);
     case found of
       Some i \<Rightarrow> do {
         (e, st) \<leftarrow> add_endpoint (gr_endpoint req) (groups G ! i);
         Some (G\<lparr>groups := (groups G)[i := e]\<rparr>, st) }
     | None \<Rightarrow>
         let i = n_groups G in
         if i < ZB_APS_GROUP_TABLE_SIZE then do {
           e \<leftarrow> aget (groups G) i;
           Some (G\<lparr>groups := (groups G)[i := e\<lparr>ge_group_addr := gr_group_address req,
                   ge_endpoints := (ge_endpoints e)[0 := gr_endpoint req], ge_n_endpoints := 1\<rparr>],
                 n_groups := inc32 (n_groups G)\<rparr>, 0) }
         else Some (G, ZB_APS_STATUS_TABLE_FULL) }"

definition zb_apsme_add_group_request :: "zb_apsme_add_group_req \<Rightarrow> 'z zb_globals_a_scheme
    \<Rightarrow> ('z zb_globals_a_scheme \<times> zb_uint8_t) option" where
  "zb_apsme_add_group_request req g = do {
     (G, st) \<leftarrow> group_table_add req (aps_group (aps g));
     Some (upd_aps (\<lambda>a. a\<lparr>aps_group := G\<rparr>) g, st) }"

end
