(* ===== verification/Zb_Bind_Props.thy ===== *)
theory Zb_Bind_Props
  imports Zb_Bind
begin

text \<open>
  The APS binding tables of \<open>Zb_Bind\<close> as a list of pairs of a source and a destination: the
  invariant \<open>bind_wf\<close>, the loops of the unbind code, and what the two requests do to the list.
\<close>

section \<open>The binding table as a list of bindings\<close>

definition srcs :: "zb_aps_binding_table \<Rightarrow> zb_aps_bind_src_table list" where
  "srcs B = take (src_n_elements B) (src_table B)"

definition dsts :: "zb_aps_binding_table \<Rightarrow> zb_aps_bind_dst_table list" where
  "dsts B = take (dst_n_elements B) (dst_table B)"

definition bind_sizes :: "zb_aps_binding_table \<Rightarrow> bool" where
  "bind_sizes B \<longleftrightarrow> length (src_table B) = 32 \<and> length (dst_table B) = 32
     \<and> src_n_elements B \<le> 32 \<and> dst_n_elements B \<le> 32"

definition bind_wf :: "zb_aps_binding_table \<Rightarrow> bool" where
  "bind_wf B \<longleftrightarrow> bind_sizes B \<and> distinct (srcs B)
     \<and> bd_src_table_index ` set (dsts B) = {..<src_n_elements B}"

definition bindings :: "zb_aps_binding_table \<Rightarrow> (zb_aps_bind_src_table \<times> zb_aps_bind_dst) list" where
  "bindings B = map (\<lambda>e. (src_table B ! bd_src_table_index e, bd_dst e)) (dsts B)"

definition req_src :: "nat \<Rightarrow> zb_apsme_binding_req \<Rightarrow> zb_aps_bind_src_table" where
  "req_src ref req = \<lparr>bs_src_addr = ref, bs_src_end = br_src_endpoint req, bs_cluster_id = br_clusterid req\<rparr>"

lemma src_matches_iff: "src_matches ref (br_src_endpoint req) (br_clusterid req) e \<longleftrightarrow> e = req_src ref req"
  by (auto simp: src_matches_def req_src_def)

lemma bind_sizesD:
  assumes "bind_sizes B"
  shows "length (src_table B) = 32" "length (dst_table B) = 32" "src_n_elements B \<le> 32" "dst_n_elements B \<le> 32"
    "length (srcs B) = src_n_elements B" "length (dsts B) = dst_n_elements B"
  using assms by (simp_all add: bind_sizes_def srcs_def dsts_def)

lemma bind_wf_sizes [simp]: "bind_wf B \<Longrightarrow> bind_sizes B"
  by (simp add: bind_wf_def)

lemma bind_wf_index: "bind_wf B \<Longrightarrow> e \<in> set (dsts B) \<Longrightarrow> bd_src_table_index e < src_n_elements B"
  unfolding bind_wf_def by blast

lemma srcs_nth: "bind_sizes B \<Longrightarrow> i < src_n_elements B \<Longrightarrow> srcs B ! i = src_table B ! i"
  by (simp add: srcs_def)

text \<open>Every source has a destination, so the table of the sources never fills up first.\<close>

lemma bind_wf_le: "bind_wf B \<Longrightarrow> src_n_elements B \<le> dst_n_elements B"
proof -
  assume wf: "bind_wf B"
  have "src_n_elements B = card (bd_src_table_index ` set (dsts B))" using wf by (simp add: bind_wf_def)
  also have "\<dots> \<le> card (set (dsts B))" by (simp add: card_image_le)
  also have "\<dots> \<le> length (dsts B)" by (rule card_length)
  finally show ?thesis using bind_sizesD [OF bind_wf_sizes [OF wf]] by simp
qed

lemma find_src_loop_spec:
  assumes "length (src_table B) = 32" "src_n_elements B \<le> 32" "l < 32"
  shows "\<exists>s. find_src_loop l B ref ep cl = Some s
    \<and> (if s = 255 then \<forall>i. l \<le> i \<and> i < max (l + 1) (src_n_elements B) \<longrightarrow> \<not> src_matches ref ep cl (src_table B ! i)
       else l \<le> s \<and> s < max (l + 1) (src_n_elements B) \<and> src_matches ref ep cl (src_table B ! s))"
  using assms(3)
proof (induction "32 - l" arbitrary: l)
  case (Suc k)
  show ?case
  proof (cases "src_matches ref ep cl (src_table B ! l) \<or> \<not> l + 1 < src_n_elements B")
    case True
    have one: "i = l" if "\<not> l + 1 < src_n_elements B" "l \<le> i" "i < max (l + 1) (src_n_elements B)" for i
      using that by linarith
    show ?thesis
    proof (cases "src_matches ref ep cl (src_table B ! l)")
      case True
      then show ?thesis using Suc.prems assms(1) by (subst find_src_loop.simps) auto
    next
      case False
      then have "find_src_loop l B ref ep cl = Some 255"
        using \<open>_ \<or> _\<close> Suc.prems assms(1) by (subst find_src_loop.simps) simp
      moreover have "\<not> src_matches ref ep cl (src_table B ! i)" if "l \<le> i" "i < max (l + 1) (src_n_elements B)" for i
        using one [OF _ that] False True by auto
      ultimately show ?thesis by auto
    qed
  next
    case False
    then have "l + 1 < 32" using assms(2) by linarith
    moreover have "k = 32 - (l + 1)" using Suc.hyps(2) by simp
    ultimately obtain s where s: "find_src_loop (l + 1) B ref ep cl = Some s"
      "if s = 255 then \<forall>i. l + 1 \<le> i \<and> i < max (l + 1 + 1) (src_n_elements B) \<longrightarrow> \<not> src_matches ref ep cl (src_table B ! i)
       else l + 1 \<le> s \<and> s < max (l + 1 + 1) (src_n_elements B) \<and> src_matches ref ep cl (src_table B ! s)"
      using Suc.hyps(1) by blast
    have step: "find_src_loop l B ref ep cl = Some s"
      using s(1) False Suc.prems assms(1) by (subst find_src_loop.simps) simp
    show ?thesis
    proof (cases "s = 255")
      case True
      have "\<not> src_matches ref ep cl (src_table B ! i)" if "l \<le> i" "i < max (l + 1) (src_n_elements B)" for i
        using that s(2) True False by (cases "i = l") auto
      then show ?thesis using step True by auto
    next
      case False
      then show ?thesis using step s(2) \<open>\<not> (_ \<or> _)\<close> by auto
    qed
  qed
qed auto

lemma find_src_spec:
  assumes wf: "bind_wf B"
  obtains s where "aps_find_src_ref ref (br_src_endpoint req) (br_clusterid req) B = Some s"
    "req_src ref req \<in> set (srcs B) \<Longrightarrow> s < src_n_elements B \<and> src_table B ! s = req_src ref req"
    "req_src ref req \<notin> set (srcs B) \<Longrightarrow> s = 255 \<or> (src_n_elements B = 0 \<and> s = 0 \<and> src_table B ! 0 = req_src ref req)"
proof -
  note sz = bind_sizesD [OF bind_wf_sizes [OF wf]]
  have "(0::nat) < 32" by simp
  from find_src_loop_spec [OF sz(1,3) this] obtain s where
    s0: "find_src_loop 0 B ref (br_src_endpoint req) (br_clusterid req) = Some s"
    "if s = 255 then \<forall>i. 0 \<le> i \<and> i < max (0 + 1) (src_n_elements B)
         \<longrightarrow> \<not> src_matches ref (br_src_endpoint req) (br_clusterid req) (src_table B ! i)
     else 0 \<le> s \<and> s < max (0 + 1) (src_n_elements B)
       \<and> src_matches ref (br_src_endpoint req) (br_clusterid req) (src_table B ! s)" by blast
  have s: "if s = 255 then (\<forall>i. i < max 1 (src_n_elements B) \<longrightarrow> src_table B ! i \<noteq> req_src ref req)
     else (s < max 1 (src_n_elements B) \<and> src_table B ! s = req_src ref req)"
    using s0(2) by (simp only: src_matches_iff le0 add_0 simp_thms)
  have mem: "req_src ref req \<in> set (srcs B) \<longleftrightarrow> (\<exists>i. i < src_n_elements B \<and> src_table B ! i = req_src ref req)"
    using sz srcs_nth [OF bind_wf_sizes [OF wf]] by (auto simp: in_set_conv_nth)
  show ?thesis
  proof (rule that [of s])
    show "aps_find_src_ref ref (br_src_endpoint req) (br_clusterid req) B = Some s"
      using s0(1) by (simp add: aps_find_src_ref_def)
    show "s < src_n_elements B \<and> src_table B ! s = req_src ref req" if "req_src ref req \<in> set (srcs B)"
      using that s mem by (auto simp: max_def split: if_splits)
    show "s = 255 \<or> (src_n_elements B = 0 \<and> s = 0 \<and> src_table B ! 0 = req_src ref req)"
      if "req_src ref req \<notin> set (srcs B)"
      using that s mem by (auto simp: max_def split: if_splits)
  qed
qed

lemma bind_add_spec:
  assumes wf: "bind_wf B" and n: "dst_n_elements B < 32"
    and s: "(s < src_n_elements B \<and> src_table B ! s = req_src ref req)
      \<or> (s = src_n_elements B \<and> req_src ref req \<notin> set (srcs B))"
  shows "bind_wf (bind_add s ref req dst B)"
    and "bindings (bind_add s ref req dst B) = bindings B @ [(req_src ref req, dst)]"
proof -
  note sz = bind_sizesD [OF bind_wf_sizes [OF wf]]
  have sn: "src_n_elements B < 32" using bind_wf_le [OF wf] n by linarith
  let ?new = "s = src_n_elements B"
  let ?S = "if ?new then (src_table B)[s := req_src ref req] else src_table B"
  let ?m = "if ?new then Suc (src_n_elements B) else src_n_elements B"
  let ?B = "bind_add s ref req dst B"
  have B: "src_table ?B = ?S" "src_n_elements ?B = ?m" "dst_n_elements ?B = Suc (dst_n_elements B)"
    "dst_table ?B = (dst_table B)[dst_n_elements B := \<lparr>bd_dst = dst, bd_src_table_index = s\<rparr>]"
    using sn n by (simp_all add: bind_add_def Let_def req_src_def)
  have d: "dsts ?B = dsts B @ [\<lparr>bd_dst = dst, bd_src_table_index = s\<rparr>]"
    using n sz by (simp add: dsts_def B take_snoc_update)
  have src: "srcs ?B = (if ?new then srcs B @ [req_src ref req] else srcs B)"
    using sn sz by (simp add: srcs_def B take_snoc_update)
  have "distinct (srcs ?B)" using wf s by (auto simp: src bind_wf_def)
  moreover have "bd_src_table_index ` set (dsts ?B) = {..<src_n_elements ?B}"
  proof -
    have "bd_src_table_index ` set (dsts ?B) = insert s {..<src_n_elements B}"
      using wf by (simp add: d bind_wf_def)
    then show ?thesis using s by (auto simp: B(2))
  qed
  moreover have "bind_sizes ?B" unfolding bind_sizes_def B using sz(1-4) sn n by auto
  ultimately show "bind_wf ?B" by (simp add: bind_wf_def)
  have "src_table ?B ! bd_src_table_index e = src_table B ! bd_src_table_index e" if "e \<in> set (dsts B)" for e
    using bind_wf_index [OF wf that] by (simp add: B)
  moreover have "src_table ?B ! s = req_src ref req" using s sn sz by (auto simp: B)
  ultimately show "bindings ?B = bindings B @ [(req_src ref req, dst)]" by (simp add: bindings_def d)
qed

section \<open>Unbind\<close>

abbreviation hit :: "nat \<Rightarrow> zb_aps_bind_dst \<Rightarrow> zb_aps_bind_dst_table \<Rightarrow> bool" where
  "hit s dst e \<equiv> bd_src_table_index e = s \<and> bd_dst e = dst"

lemma unbind_step_spec:
  assumes sz: "bind_sizes B" and d: "d < dst_n_elements B"
  shows "\<exists>t. length t = 32 \<and> unbind_step s dst d found B =
    (if hit s dst (dsts B ! d) then Some (d, found, B\<lparr>dst_table := t, dst_n_elements := dst_n_elements B - 1\<rparr>)
     else Some (d + 1, found \<or> bd_src_table_index (dsts B ! d) = s, B))
    \<and> (hit s dst (dsts B ! d) \<longrightarrow> take (dst_n_elements B - 1) t = take d (dsts B) @ drop (d + 1) (dsts B))"
proof -
  let ?n = "dst_n_elements B" and ?T = "dst_table B"
  note z = bind_sizesD [OF sz]
  have nth: "dsts B ! d = ?T ! d" using d by (simp add: dsts_def)
  let ?t = "take d ?T @ take (?n - 1 - d) (drop (d + 1) ?T) @ drop (?n - 1) ?T"
  have mm: "memmove ?T d (d + 1) (?n - 1 - d) = Some ?t" using z d by (simp add: memmove_def)
  have tk: "take (?n - 1) ?t = take d (dsts B) @ drop (d + 1) (dsts B)"
  proof -
    have "length (take d ?T @ take (?n - 1 - d) (drop (d + 1) ?T)) = ?n - 1" using z d by simp
    then have "take (?n - 1) ?t = take d ?T @ take (?n - 1 - d) (drop (d + 1) ?T)"
      by (metis append.assoc append_eq_conv_conj)
    moreover have "take d (dsts B) = take d ?T" using d by (simp add: dsts_def)
    ultimately show ?thesis by (simp add: dsts_def drop_take)
  qed
  have "length ?t = 32" using z d by simp
  moreover have "unbind_step s dst d found B =
    (if hit s dst (dsts B ! d) then Some (d, found, B\<lparr>dst_table := ?t, dst_n_elements := ?n - 1\<rparr>)
     else Some (d + 1, found \<or> bd_src_table_index (dsts B ! d) = s, B))"
    using d z(2,4) mm unfolding nth unbind_step_def Let_def by simp
  ultimately show ?thesis using tk by blast
qed

lemma unbind_loop_spec:
  "bind_sizes B \<Longrightarrow> d < dst_n_elements B \<Longrightarrow> dst_n_elements B - d \<le> fuel \<Longrightarrow>
   \<exists>t n. unbind_loop fuel s dst d found B = Some (found \<or> (\<exists>e\<in>set (drop d (dsts B)). bd_src_table_index e = s \<and> bd_dst e \<noteq> dst),
       B\<lparr>dst_table := t, dst_n_elements := n\<rparr>)
     \<and> length t = 32 \<and> n \<le> 32 \<and> take n t = take d (dsts B) @ filter (\<lambda>e. \<not> hit s dst e) (drop d (dsts B))"
proof (induction fuel arbitrary: d found B)
  case (Suc fuel)
  let ?n = "dst_n_elements B" and ?x = "dsts B ! d"
  note z = bind_sizesD [OF Suc.prems(1)]
  obtain t where t: "length t = 32" "unbind_step s dst d found B =
    (if hit s dst ?x then Some (d, found, B\<lparr>dst_table := t, dst_n_elements := ?n - 1\<rparr>)
     else Some (d + 1, found \<or> bd_src_table_index ?x = s, B))"
    "hit s dst ?x \<longrightarrow> take (?n - 1) t = take d (dsts B) @ drop (d + 1) (dsts B)"
    using unbind_step_spec [OF Suc.prems(1,2)] by blast
  have dr: "drop d (dsts B) = ?x # drop (d + 1) (dsts B)"
    using Cons_nth_drop_Suc [of d "dsts B"] Suc.prems(2) z by simp
  show ?case
  proof (cases "hit s dst ?x")
    case True
    let ?C = "B\<lparr>dst_table := t, dst_n_elements := ?n - 1\<rparr>"
    have "dsts ?C = take (?n - 1) t" by (simp add: dsts_def)
    also have "\<dots> = take d (dsts B) @ drop (d + 1) (dsts B)" using t(3) True by blast
    finally have dC: "dsts ?C = take d (dsts B) @ drop (d + 1) (dsts B)" .
    have "bind_sizes ?C" using z(1,3,4) t(1) by (simp add: bind_sizes_def)
    note C = this dC
    then have C2: "take d (dsts ?C) = take d (dsts B)" "drop d (dsts ?C) = drop (d + 1) (dsts B)"
      using z Suc.prems(2) by simp_all
    show ?thesis
    proof (cases "d < ?n - 1")
      case True
      then show ?thesis using Suc.IH [OF C(1), of d found] Suc.prems t(2) C2 dr \<open>hit s dst ?x\<close> by simp
    next
      case False
      then have "drop (d + 1) (dsts B) = []" using z by simp
      moreover have "unbind_loop (Suc fuel) s dst d found B = Some (found, ?C)" using t(2) True False by simp
      ultimately show ?thesis using t C dr True z
        by (intro exI [of _ t] exI [of _ "?n - 1"]) (simp add: dsts_def)
    qed
  next
    case False
    let ?f = "found \<or> bd_src_table_index ?x = s"
    have tk: "take (Suc d) (dsts B) = take d (dsts B) @ [?x]" using z Suc.prems(2) by (simp add: take_Suc_conv_app_nth)
    show ?thesis
    proof (cases "d + 1 < ?n")
      case True
      have "?n - (d + 1) \<le> fuel" using Suc.prems(3) by simp
      from Suc.IH [OF Suc.prems(1) True this, of ?f] obtain t' n where
        r: "unbind_loop fuel s dst (d + 1) ?f B = Some (?f \<or> (\<exists>e\<in>set (drop (d + 1) (dsts B)). bd_src_table_index e = s \<and> bd_dst e \<noteq> dst),
           B\<lparr>dst_table := t', dst_n_elements := n\<rparr>)"
        "length t' = 32" "n \<le> 32" "take n t' = take (d + 1) (dsts B) @ filter (\<lambda>e. \<not> hit s dst e) (drop (d + 1) (dsts B))"
        by blast
      have "unbind_loop (Suc fuel) s dst d found B = unbind_loop fuel s dst (d + 1) ?f B"
        using t(2) False True by simp
      moreover have "?f \<or> (\<exists>e\<in>set (drop (d + 1) (dsts B)). bd_src_table_index e = s \<and> bd_dst e \<noteq> dst)
          \<longleftrightarrow> found \<or> (\<exists>e\<in>set (drop d (dsts B)). bd_src_table_index e = s \<and> bd_dst e \<noteq> dst)"
        using False by (auto simp: dr)
      moreover have "take (d + 1) (dsts B) @ filter (\<lambda>e. \<not> hit s dst e) (drop (d + 1) (dsts B))
          = take d (dsts B) @ filter (\<lambda>e. \<not> hit s dst e) (drop d (dsts B))"
        using False tk by (simp add: dr)
      ultimately show ?thesis using r by (intro exI [of _ t'] exI [of _ n]) simp
    next
      case False
      then have "drop (d + 1) (dsts B) = []" "d + 1 = ?n" using z Suc.prems(2) by simp_all
      moreover have "unbind_loop (Suc fuel) s dst d found B = Some (?f, B)" using t(2) \<open>\<not> hit s dst ?x\<close> False by simp
      moreover have "take ?n (dst_table B) = take d (dsts B) @ [?x]"
        unfolding dsts_def [symmetric] using tk \<open>d + 1 = ?n\<close> z(6) by (metis Suc_eq_plus1 order_refl take_all)
      ultimately show ?thesis using dr z \<open>\<not> hit s dst ?x\<close>
        by (intro exI [of _ "dst_table B"] exI [of _ ?n]) auto
    qed
  qed
qed simp

definition fix_index :: "nat \<Rightarrow> zb_aps_bind_dst_table \<Rightarrow> zb_aps_bind_dst_table" where
  "fix_index s e = (if bd_src_table_index e > s then e\<lparr>bd_src_table_index := bd_src_table_index e - 1\<rparr> else e)"

lemma correct_loop_spec:
  "d < length t \<Longrightarrow> n \<le> length t \<Longrightarrow> \<exists>u. correct_loop d n s t = Some u \<and> length u = length t
     \<and> take n u = take d (take n t) @ map (fix_index s) (drop d (take n t))"
proof (induction "length t - d" arbitrary: d t)
  case (Suc k)
  let ?t = "t[d := fix_index s (t ! d)]"
  have fx: "(if bd_src_table_index (t ! d) > s then t[d := (t ! d)\<lparr>bd_src_table_index := dec8 (bd_src_table_index (t ! d))\<rparr>] else t) = ?t"
    by (simp add: fix_index_def)
  show ?case
  proof (cases "d + 1 < n")
    case True
    then have "d + 1 < length ?t" "n \<le> length ?t" "k = length ?t - (d + 1)" using Suc.prems Suc.hyps(2) by simp_all
    from Suc.hyps(1) [OF this(3,1,2)] obtain u where u: "correct_loop (d + 1) n s ?t = Some u" "length u = length t"
      "take n u = take (d + 1) (take n ?t) @ map (fix_index s) (drop (d + 1) (take n ?t))" by auto
    have "correct_loop d n s t = Some u"
      using u(1) True Suc.prems(1) fx by (subst correct_loop.simps) (simp add: Let_def)
    moreover have "take (d + 1) (take n ?t) = take d (take n t) @ [fix_index s (t ! d)]"
      using True Suc.prems by (simp add: take_Suc_conv_app_nth)
    moreover have "drop d (take n t) = t ! d # drop (d + 1) (take n t)"
      using Cons_nth_drop_Suc [of d "take n t"] True Suc.prems by simp
    moreover have "drop (d + 1) (take n ?t) = drop (d + 1) (take n t)"
      by (simp add: drop_take)
    ultimately show ?thesis using u by simp
  next
    case False
    then have res: "correct_loop d n s t = Some ?t" using Suc.prems(1) fx by (subst correct_loop.simps) (simp add: Let_def)
    have "take n ?t = take d (take n t) @ map (fix_index s) (drop d (take n t))"
    proof (cases "d < n")
      case True
      then have "n = Suc d" using False by simp
      then show ?thesis using Suc.prems by (simp add: take_Suc_conv_app_nth)
    next
      case False
      then show ?thesis by (simp add: take_update_cancel)
    qed
    then show ?thesis using res by simp
  qed
qed simp

lemma fix_index_fields [simp]:
  "bd_dst (fix_index s e) = bd_dst e"
  "bd_src_table_index (fix_index s e) = (if bd_src_table_index e > s then bd_src_table_index e - 1 else bd_src_table_index e)"
  by (simp_all add: fix_index_def)

lemma unbind_src_spec:
  assumes sz: "bind_sizes B" and s: "s < src_n_elements B" and dist: "distinct (srcs B)"
    and idx: "bd_src_table_index ` set (dsts B) = {..<src_n_elements B} - {s}"
  shows "\<exists>C. unbind_src s B = Some C \<and> bind_wf C \<and> bindings C = bindings B"
proof -
  let ?n = "src_n_elements B" and ?S = "src_table B"
  note z = bind_sizesD [OF sz]
  let ?t = "take s ?S @ take (?n - 1 - s) (drop (s + 1) ?S) @ drop (?n - 1) ?S"
  have mm: "memmove ?S s (s + 1) (?n - 1 - s) = Some ?t" using z(1,3) s by (simp add: memmove_def)
  have lt: "length ?t = 32" using z(1,3) s by simp
  have tk: "take (?n - 1) ?t = take s (srcs B) @ drop (s + 1) (srcs B)"
  proof -
    have "length (take s ?S @ take (?n - 1 - s) (drop (s + 1) ?S)) = ?n - 1" using z(1,3) s by simp
    then have "take (?n - 1) ?t = take s ?S @ take (?n - 1 - s) (drop (s + 1) ?S)"
      by (metis append.assoc append_eq_conv_conj)
    moreover have "take s (srcs B) = take s ?S" using s by (simp add: srcs_def)
    ultimately show ?thesis by (simp add: srcs_def drop_take)
  qed
  have "0 < length (dst_table B)" using z(2) by simp
  from correct_loop_spec [OF this, of "dst_n_elements B" s] z obtain u where
    u: "correct_loop 0 (dst_n_elements B) s (dst_table B) = Some u" "length u = 32"
    "take (dst_n_elements B) u = map (fix_index s) (dsts B)" by (auto simp: dsts_def)
  let ?C = "B\<lparr>src_table := ?t, src_n_elements := ?n - 1, dst_table := u\<rparr>"
  have C: "srcs ?C = take s (srcs B) @ drop (s + 1) (srcs B)" "dsts ?C = map (fix_index s) (dsts B)"
    using tk u(3) by (simp_all add: srcs_def dsts_def)
  have "unbind_src s B = Some ?C" using s mm u(1) by (simp add: unbind_src_def Let_def)
  moreover have "bind_sizes ?C" using z(1,3,4) s u(2) unfolding bind_sizes_def by auto
  moreover have "distinct (srcs ?C)"
  proof -
    have "distinct (take s (srcs B) @ srcs B ! s # drop (s + 1) (srcs B))"
      using dist id_take_nth_drop [of s "srcs B"] s z(5) by simp
    then show ?thesis unfolding C by simp
  qed
  moreover have "bd_src_table_index ` set (dsts ?C) = {..<?n - 1}"
  proof -
    have "bd_src_table_index ` set (dsts ?C) = (\<lambda>i. if i > s then i - 1 else i) ` ({..<?n} - {s})"
      unfolding C idx [symmetric] by (simp only: set_map image_image fix_index_fields)
    also have "\<dots> = {..<?n - 1}"
    proof (rule set_eqI)
      fix i
      have "i \<in> (\<lambda>i. if i > s then i - 1 else i) ` ({..<?n} - {s})" if "i < ?n - 1"
        using that by (intro image_eqI [of _ _ "if i < s then i else Suc i"]) auto
      then show "i \<in> (\<lambda>i. if i > s then i - 1 else i) ` ({..<?n} - {s}) \<longleftrightarrow> i \<in> {..<?n - 1}"
        using s by (auto split: if_splits)
    qed
    finally show ?thesis .
  qed
  moreover have "bindings ?C = bindings B"
  proof -
    have nth: "?t ! (if i > s then i - 1 else i) = ?S ! i" if "i < ?n" "i \<noteq> s" for i
      using that s z(1,3) by (auto simp: nth_append min_def)
    have "?t ! bd_src_table_index (fix_index s e) = ?S ! bd_src_table_index e" if "e \<in> set (dsts B)" for e
    proof -
      have "bd_src_table_index e < ?n" "bd_src_table_index e \<noteq> s" using idx that by blast+
      then show ?thesis unfolding fix_index_fields by (rule nth)
    qed
    then have "map (\<lambda>e. (?t ! bd_src_table_index (fix_index s e), bd_dst (fix_index s e))) (dsts B)
        = map (\<lambda>e. (?S ! bd_src_table_index e, bd_dst e)) (dsts B)"
      by (simp only: fix_index_fields(1) cong: map_cong)
    moreover have "src_table ?C = ?t" by simp
    ultimately show ?thesis unfolding bindings_def C map_map o_def by (simp only:)
  qed
  ultimately show ?thesis by (auto simp: bind_wf_def)
qed

lemma unbind_tables_spec:
  assumes wf: "bind_wf B" and s: "s < src_n_elements B"
  shows "\<exists>C. unbind_tables s dst B = Some C \<and> bind_wf C
    \<and> bindings C = filter (\<lambda>b. b \<noteq> (src_table B ! s, dst)) (bindings B)"
proof -
  let ?n = "dst_n_elements B" and ?f = "\<exists>e\<in>set (dsts B). bd_src_table_index e = s \<and> bd_dst e \<noteq> dst"
  note sz = bind_wf_sizes [OF wf]
  note z = bind_sizesD [OF sz]
  have "0 < ?n" using bind_wf_le [OF wf] s by linarith
  moreover have "?n - 0 \<le> unbind_fuel" using z(4) by (simp add: unbind_fuel_def)
  ultimately obtain t n where t: "unbind_loop unbind_fuel s dst 0 False B = Some (?f, B\<lparr>dst_table := t, dst_n_elements := n\<rparr>)"
    "length t = 32" "n \<le> 32" "take n t = filter (\<lambda>e. \<not> hit s dst e) (dsts B)"
    using unbind_loop_spec [OF sz, of 0 unbind_fuel s dst False] by (auto simp only: drop_0 take_0 append_Nil simp_thms)
  let ?B = "B\<lparr>dst_table := t, dst_n_elements := n\<rparr>"
  have B: "dsts ?B = filter (\<lambda>e. \<not> hit s dst e) (dsts B)" "srcs ?B = srcs B"
    using t(4) by (simp_all add: dsts_def srcs_def)
  have szB: "bind_sizes ?B" using z(1,3) t(2,3) unfolding bind_sizes_def by simp
  have inj: "src_table B ! i = src_table B ! s \<longleftrightarrow> i = s" if "i < src_n_elements B" for i
    using that s wf z(5) nth_eq_iff_index_eq [of "srcs B" i s] srcs_nth [OF sz] by (auto simp: bind_wf_def)
  have bs: "bindings ?B = filter (\<lambda>b. b \<noteq> (src_table B ! s, dst)) (bindings B)"
  proof -
    have "filter (\<lambda>e. \<not> hit s dst e) (dsts B)
      = filter (\<lambda>e. (src_table B ! bd_src_table_index e, bd_dst e) \<noteq> (src_table B ! s, dst)) (dsts B)"
      using inj bind_wf_index [OF wf] by (intro filter_cong) auto
    then show ?thesis by (simp add: bindings_def B filter_map o_def)
  qed
  have idx: "bd_src_table_index ` set (dsts B) = {..<src_n_elements B}" using wf by (simp add: bind_wf_def)
  show ?thesis
  proof (cases ?f)
    case True
    have "bd_src_table_index ` set (dsts ?B) = bd_src_table_index ` set (dsts B)"
      using True by (auto simp: B image_iff)
    then have "bind_wf ?B" using szB wf by (simp add: bind_wf_def B)
    moreover have "unbind_tables s dst B = Some ?B" using t(1) True by (simp add: unbind_tables_def)
    ultimately show ?thesis using bs by blast
  next
    case False
    have "bd_src_table_index ` set (dsts ?B) = bd_src_table_index ` set (dsts B) - {s}"
      using False by (auto simp: B)
    then have "bd_src_table_index ` set (dsts ?B) = {..<src_n_elements ?B} - {s}" unfolding idx by simp
    from unbind_src_spec [OF szB _ _ this] s wf B obtain C where
      C: "unbind_src s ?B = Some C" "bind_wf C" "bindings C = bindings ?B" by (auto simp: bind_wf_def)
    moreover have "unbind_tables s dst B = unbind_src s ?B" using t(1) False by (simp add: unbind_tables_def)
    ultimately show ?thesis using bs by auto
  qed
qed

section \<open>The requests\<close>

text \<open>
  C31: \<open>zb_apsme_bind_request\<close> implements adding a binding to a list of at most 32 bindings: once its
  addresses are resolved, it appends the pair of the source and the destination, or stores
  \<open>ZB_ZDP_STATUS_TABLE_FULL\<close> and leaves the tables alone when 32 bindings exist, and it keeps the
  invariant of the two tables (the sources are distinct, and each has a binding).
\<close>

theorem zb_apsme_bind_request_refines:
  assumes wf: "bind_wf (binding (aps g))"
    and src: "zb_address_by_ieee (br_src_addr req) True False (addr g) = Some (A1, RET_OK, Some ref)"
    and dst: "resolve_dst req A1 = Some (A2, RET_OK, Some dst)"
  shows "if length (bindings (binding (aps g))) < 32
    then \<exists>g'. zb_apsme_bind_request req g = Some (g', RET_OK) \<and> addr g' = A2 \<and> bind_wf (binding (aps g'))
      \<and> bindings (binding (aps g')) = bindings (binding (aps g)) @ [(req_src ref req, dst)]
    else zb_apsme_bind_request req g = Some (g\<lparr>addr := A1\<rparr>, ZB_ZDP_STATUS_TABLE_FULL)"
proof -
  let ?B = "binding (aps g)"
  note z = bind_sizesD [OF bind_wf_sizes [OF wf]]
  have len: "length (bindings ?B) = dst_n_elements ?B" using z(6) by (simp add: bindings_def)
  obtain s0 where s0: "aps_find_src_ref ref (br_src_endpoint req) (br_clusterid req) ?B = Some s0"
    "req_src ref req \<in> set (srcs ?B) \<Longrightarrow> s0 < src_n_elements ?B \<and> src_table ?B ! s0 = req_src ref req"
    "req_src ref req \<notin> set (srcs ?B) \<Longrightarrow> s0 = 255 \<or> (src_n_elements ?B = 0 \<and> s0 = 0 \<and> src_table ?B ! 0 = req_src ref req)"
    using find_src_spec [OF wf] by blast
  define s where "s = (if s0 = 255 then src_n_elements ?B else s0)"
  have s: "(s < src_n_elements ?B \<and> src_table ?B ! s = req_src ref req)
      \<or> (s = src_n_elements ?B \<and> req_src ref req \<notin> set (srcs ?B))"
    using s0(2,3) z(3) by (cases "req_src ref req \<in> set (srcs ?B)") (auto simp: s_def)
  have run: "zb_apsme_bind_request req g =
      (if s < 32 \<and> dst_n_elements ?B < 32 then Some (upd_binding (bind_add s ref req dst) (g\<lparr>addr := A2\<rparr>), RET_OK)
       else Some (g\<lparr>addr := A1\<rparr>, ZB_ZDP_STATUS_TABLE_FULL))"
    using src dst s0(1) by (simp add: zb_apsme_bind_request_def aps_consts s_def Let_def)
  show ?thesis
  proof (cases "dst_n_elements ?B < 32")
    case True
    then have "s < 32" using s bind_wf_le [OF wf] by linarith
    then show ?thesis using True run len bind_add_spec [OF wf True s, of dst] by (simp add: upd_binding_def)
  next
    case False
    then show ?thesis using run len by simp
  qed
qed

text \<open>
  \<open>zb_apsme_unbind_request\<close> implements removing a binding from that list: when the source has
  bindings, every binding of it to this destination is removed and the others keep their order;
  a source that has none is refused with \<open>RET_INVALID_BINDING\<close>. The loops end, and the invariant of
  the tables is kept, sources without bindings being dropped.
\<close>

theorem zb_apsme_unbind_request_refines:
  assumes wf: "bind_wf (binding (aps g))" and ne: "bindings (binding (aps g)) \<noteq> []"
    and src: "zb_address_by_ieee (br_src_addr req) False False (addr g) = Some (A1, RET_OK, Some ref)"
    and dst: "resolve_dst req A1 = Some (A2, RET_OK, Some dst)"
  shows "if req_src ref req \<in> fst ` set (bindings (binding (aps g)))
    then \<exists>g'. zb_apsme_unbind_request req g = Some (g', RET_OK) \<and> addr g' = A2 \<and> bind_wf (binding (aps g'))
      \<and> bindings (binding (aps g')) = filter (\<lambda>b. b \<noteq> (req_src ref req, dst)) (bindings (binding (aps g)))
    else zb_apsme_unbind_request req g = Some (g\<lparr>addr := A1\<rparr>, RET_INVALID_BINDING)"
proof -
  let ?B = "binding (aps g)"
  note z = bind_sizesD [OF bind_wf_sizes [OF wf]]
  have "fst ` set (bindings ?B) = (!) (src_table ?B) ` bd_src_table_index ` set (dsts ?B)"
    by (auto simp: bindings_def image_iff)
  also have "\<dots> = set (srcs ?B)"
    using wf z(1,3) by (simp add: bind_wf_def srcs_def lessThan_atLeast0 nth_image)
  finally have key: "fst ` set (bindings ?B) = set (srcs ?B)" .
  then have n: "0 < src_n_elements ?B" using ne z(5) by (cases "srcs ?B") auto
  obtain s where s: "aps_find_src_ref ref (br_src_endpoint req) (br_clusterid req) ?B = Some s"
    "req_src ref req \<in> set (srcs ?B) \<Longrightarrow> s < src_n_elements ?B \<and> src_table ?B ! s = req_src ref req"
    "req_src ref req \<notin> set (srcs ?B) \<Longrightarrow> s = 255 \<or> (src_n_elements ?B = 0 \<and> s = 0 \<and> src_table ?B ! 0 = req_src ref req)"
    using find_src_spec [OF wf] by blast
  show ?thesis
  proof (cases "req_src ref req \<in> set (srcs ?B)")
    case True
    then have "s < src_n_elements ?B" "src_table ?B ! s = req_src ref req" using s(2) by simp_all
    moreover from this obtain C where "unbind_tables s dst ?B = Some C" "bind_wf C"
      "bindings C = filter (\<lambda>b. b \<noteq> (req_src ref req, dst)) (bindings ?B)"
      using unbind_tables_spec [OF wf, of s dst] by auto
    moreover have "s \<noteq> 255" using z(3) calculation(1) by linarith
    ultimately show ?thesis using True key src dst s(1)
      by (simp add: zb_apsme_unbind_request_def upd_binding_def)
  next
    case False
    then have "s = 255" using s(3) n by simp
    then show ?thesis using False key src s(1) by (simp add: zb_apsme_unbind_request_def)
  qed
qed

section \<open>Unbinding twice\<close>

lemma bindings_one:
  assumes wf: "bind_wf B" and b: "bindings B = [(req_src ref req, dst)]"
  shows "src_n_elements B = 1" "dst_n_elements B = 1" "src_table B ! 0 = req_src ref req" "hit 0 dst (dst_table B ! 0)"
proof -
  note z = bind_sizesD [OF bind_wf_sizes [OF wf]]
  have d: "dst_n_elements B = 1" using arg_cong [OF b, of length] z(6) by (simp add: bindings_def)
  then have ds: "dsts B = [dst_table B ! 0]" using z(2) by (simp add: dsts_def take_Suc_conv_app_nth)
  moreover have "bd_src_table_index ` set (dsts B) = {..<src_n_elements B}" using wf by (simp add: bind_wf_def)
  ultimately have i: "{bd_src_table_index (dst_table B ! 0)} = {..<src_n_elements B}" by simp
  from arg_cong [OF i, of card] show n: "src_n_elements B = 1" by simp
  have "bd_src_table_index (dst_table B ! 0) \<in> {..<src_n_elements B}" using i by blast
  then have "bd_src_table_index (dst_table B ! 0) = 0" unfolding n by simp
  then show "src_table B ! 0 = req_src ref req" "hit 0 dst (dst_table B ! 0)" using b ds by (simp_all add: bindings_def)
  show "dst_n_elements B = 1" by (rule d)
qed

text \<open>
  the \<^verbatim>\<open>do\<close> loops of the unbind code look at slot 0 of empty tables. When the only binding, of
  a source to a group, has been removed and the same request comes again, the code finds
  the stale slots, counts 0 down to 255, and moves 255 entries inside the array of 32: the
  second request writes far beyond the binding table.
\<close>

theorem zb_apsme_unbind_twice_overruns:
  assumes wf: "bind_wf (binding (aps g))" "addr_wf (addr g)" and l: "length (br_src_addr req) = 8"
    and mode: "br_addr_mode req = ZB_APS_ADDR_MODE_16_GROUP_ENDP_NOT_PRESENT"
    and src: "zb_address_by_ieee (br_src_addr req) False False (addr g) = Some (A1, RET_OK, Some ref)"
    and b: "bindings (binding (aps g)) = [(req_src ref req, ZB_APS_BIND_DST_ADDR_GROUP (addr_short (br_dst_addr req)))]"
  shows "\<exists>g1. zb_apsme_unbind_request req g = Some (g1, RET_OK) \<and> bindings (binding (aps g1)) = []
    \<and> zb_apsme_unbind_request req g1 = None"
proof -
  let ?B = "binding (aps g)" and ?dst = "ZB_APS_BIND_DST_ADDR_GROUP (addr_short (br_dst_addr req))"
  note z = bind_sizesD [OF bind_wf_sizes [OF wf(1)]]
  note one = bindings_one [OF wf(1) b]
  have rd: "resolve_dst req A = Some (A, RET_OK, Some ?dst)" for A
    using mode by (simp add: resolve_dst_def bind_consts)
  have find: "aps_find_src_ref ref (br_src_endpoint req) (br_clusterid req) C = Some 0"
    if "src_table C = src_table ?B" for C
    using one(3) z(1) that unfolding aps_find_src_ref_def by (subst find_src_loop.simps) (simp add: src_matches_iff)
  have "memmove (dst_table ?B) 0 1 0 = Some (dst_table ?B)" "memmove (src_table ?B) 0 1 0 = Some (src_table ?B)"
    using z(1,2) by (simp_all add: memmove_def)
  moreover have "correct_loop 0 0 0 (dst_table ?B) = Some (dst_table ?B)"
    using z(2) one(4) by (subst correct_loop.simps) simp
  moreover have ul: "unbind_loop unbind_fuel s dst d f C = do {
      (d', f', C') \<leftarrow> unbind_step s dst d f C;
      if d' < dst_n_elements C' then unbind_loop 255 s dst d' f' C' else Some (f', C') }" for s dst d f C
  proof -
    have f: "unbind_fuel = Suc 255" by (simp add: unbind_fuel_def)
    show ?thesis unfolding f unbind_loop.simps ..
  qed
  ultimately have "unbind_tables 0 ?dst ?B = Some (?B\<lparr>src_n_elements := 0, dst_n_elements := 0\<rparr>)"
    using one z(1,2) by (simp add: unbind_tables_def unbind_step_def unbind_src_def Let_def)
  then have r1: "zb_apsme_unbind_request req g
      = Some (upd_binding (\<lambda>_. ?B\<lparr>src_n_elements := 0, dst_n_elements := 0\<rparr>) (g\<lparr>addr := A1\<rparr>), RET_OK)"
    using src rd find by (simp add: zb_apsme_unbind_request_def)
  let ?g1 = "upd_binding (\<lambda>_. ?B\<lparr>src_n_elements := 0, dst_n_elements := 0\<rparr>) (g\<lparr>addr := A1\<rparr>)"
  let ?B1 = "?B\<lparr>src_n_elements := 0, dst_n_elements := 0\<rparr>"
  have g1: "binding (aps ?g1) = ?B1" "addr ?g1 = A1" by (simp_all add: upd_binding_def)
  obtain A2 where src2: "zb_address_by_ieee (br_src_addr req) False False A1 = Some (A2, RET_OK, Some ref)"
    using by_ieee_again [OF wf(2) l src, of False] by blast
  have "memmove (dst_table ?B) 0 1 255 = None" using z(2) by (simp add: memmove_def)
  then have "unbind_tables 0 ?dst ?B1 = None"
    using one z(2) ul by (simp add: unbind_tables_def unbind_step_def)
  then have "zb_apsme_unbind_request req ?g1 = None"
    using src2 rd find [of ?B1] by (simp add: zb_apsme_unbind_request_def upd_binding_def)
  moreover have "bindings (binding (aps ?g1)) = []" by (simp add: g1 bindings_def dsts_def)
  ultimately show ?thesis using r1 by blast
qed

definition demo_req :: zb_apsme_binding_req where
  "demo_req = \<lparr>br_src_addr = [1, 2, 3, 4, 5, 6, 7, 8], br_src_endpoint = 1, br_clusterid = 6,
     br_addr_mode = 1, br_dst_addr = [5, 0, 0, 0, 0, 0, 0, 0], br_dst_endpoint = 0\<rparr>"

lemma demo_req_src:
  "\<exists>A1 ref. zb_address_by_ieee (br_src_addr demo_req) True False (addr demo_a) = Some (A1, RET_OK, Some ref) \<and> addr_wf A1"
proof -
  let ?a = "[1, 2, 3, 4, 5, 6, 7, 8] :: zb_uint8_t list"
  have w: "manuf_wf addr_zero" using addr_wf_sizes [OF addr_wf_zero] by (simp add: sizes_ok_def)
  obtain A c where c: "zb_ieee_addr_compress ?a addr_zero = Some (A, c)"
    using compress_zero [of ?a] by auto
  have l: "length ?a = 8" by simp
  note cc = compress_cases [OF l w c]
  have s: "sizes_ok A" using addr_wf_sizes [OF addr_wf_zero] cc by (simp add: sizes_ok_def)
  have wf: "addr_wf A" by (rule addr_wf_cong [OF addr_wf_zero s]) (use cc in \<open>simp_all add: sorted_refs_def\<close>)
  have "\<not> ent_used A r" for r using cc by (cases "r < 101") (simp_all add: ent_used_def addr_zero_def zero_ent_def)
  then have "ieee_search c A = None" using ieee_search_spec [where c = c and A = A] by (cases "ieee_search c A") auto
  moreover have "n_elements A \<noteq> 101" using cc by (simp add: addr_zero_def)
  then obtain B i where "addr_add (Some c) (-1) A = Some (B, RET_OK, Some i)" "addr_wf B"
    using addr_add_spec [OF wf, of "-1" "Some c"] by auto
  ultimately show ?thesis using c
    by (simp add: demo_req_def demo_a_def zb_address_by_ieee_def lock_if_def ZB_UNKNOWN_SHORT_ADDR_def)
qed

lemma demo_bind_wf: "bind_wf (binding (aps demo_a))" "bindings (binding (aps demo_a)) = []"
  by (simp_all add: bind_wf_def bind_sizes_def bindings_def srcs_def dsts_def demo_a_def demo_aps_def)

lemma demo_dst: "resolve_dst demo_req A = Some (A, RET_OK, Some (ZB_APS_BIND_DST_ADDR_GROUP 5))"
  by (simp add: resolve_dst_def demo_req_def bind_consts addr_short_def)

lemma zb_apsme_bind_request_refines_witness:
  "\<exists>g' ref. zb_apsme_bind_request demo_req demo_a = Some (g', RET_OK)
     \<and> bindings (binding (aps g')) = [(req_src ref demo_req, ZB_APS_BIND_DST_ADDR_GROUP 5)]"
proof -
  obtain A1 ref where r: "zb_address_by_ieee (br_src_addr demo_req) True False (addr demo_a) = Some (A1, RET_OK, Some ref)"
    using demo_req_src by blast
  show ?thesis using zb_apsme_bind_request_refines [OF demo_bind_wf(1) r demo_dst] demo_bind_wf(2) by auto
qed

definition demo_ref :: nat where
  "demo_ref = the (snd (snd (the (zb_address_by_ieee (br_src_addr demo_req) True False (addr demo_a)))))"

definition demo_bound :: zb_globals_a where
  "demo_bound = upd_binding (\<lambda>B. B\<lparr>src_table := (src_table B)[0 := req_src demo_ref demo_req], src_n_elements := 1,
       dst_table := (dst_table B)[0 := \<lparr>bd_dst = ZB_APS_BIND_DST_ADDR_GROUP 5, bd_src_table_index = 0\<rparr>],
       dst_n_elements := 1\<rparr>)
     (demo_a\<lparr>addr := fst (the (zb_address_by_ieee (br_src_addr demo_req) True False (addr demo_a)))\<rparr>)"

lemma demo_bound_facts:
  "bind_wf (binding (aps demo_bound))"
  "bindings (binding (aps demo_bound)) = [(req_src demo_ref demo_req, ZB_APS_BIND_DST_ADDR_GROUP 5)]"
  "addr_wf (addr demo_bound)"
  "\<exists>A. zb_address_by_ieee (br_src_addr demo_req) False False (addr demo_bound) = Some (A, RET_OK, Some demo_ref)"
proof -
  have tab: "take (Suc 0) ((replicate 32 x)[0 := y]) = [y]" "(replicate 32 x)[0 := y] ! 0 = y" for x y :: "'x" by (simp_all add: numeral_eq_Suc)
  show "bind_wf (binding (aps demo_bound))"
    "bindings (binding (aps demo_bound)) = [(req_src demo_ref demo_req, ZB_APS_BIND_DST_ADDR_GROUP 5)]"
    by (auto simp: bind_wf_def bind_sizes_def bindings_def srcs_def dsts_def demo_bound_def upd_binding_def demo_a_def demo_aps_def tab)
  obtain A1 ref where r: "zb_address_by_ieee (br_src_addr demo_req) True False (addr demo_a) = Some (A1, RET_OK, Some ref)"
    "addr_wf A1" using demo_req_src by blast
  then have e: "addr demo_bound = A1" "demo_ref = ref" by (simp_all add: demo_bound_def upd_binding_def demo_ref_def)
  show "addr_wf (addr demo_bound)" using e r(2) by simp
  have "length (br_src_addr demo_req) = 8" by (simp add: demo_req_def)
  from by_ieee_again [OF demo_a_wf(1) this r(1), of False]
  show "\<exists>A. zb_address_by_ieee (br_src_addr demo_req) False False (addr demo_bound) = Some (A, RET_OK, Some demo_ref)"
    unfolding e .
qed

lemma zb_apsme_unbind_request_refines_witness:
  "\<exists>g'. zb_apsme_unbind_request demo_req demo_bound = Some (g', RET_OK) \<and> bindings (binding (aps g')) = []"
proof -
  obtain A where A: "zb_address_by_ieee (br_src_addr demo_req) False False (addr demo_bound) = Some (A, RET_OK, Some demo_ref)"
    using demo_bound_facts(4) by blast
  show ?thesis using zb_apsme_unbind_request_refines [OF demo_bound_facts(1) _ A demo_dst] demo_bound_facts(2) by auto
qed

lemma zb_apsme_unbind_twice_overruns_witness:
  "\<exists>g1. zb_apsme_unbind_request demo_req demo_bound = Some (g1, RET_OK) \<and> zb_apsme_unbind_request demo_req g1 = None"
proof -
  obtain A where A: "zb_address_by_ieee (br_src_addr demo_req) False False (addr demo_bound) = Some (A, RET_OK, Some demo_ref)"
    using demo_bound_facts(4) by blast
  have d: "length (br_src_addr demo_req) = 8" "br_addr_mode demo_req = ZB_APS_ADDR_MODE_16_GROUP_ENDP_NOT_PRESENT"
    "addr_short (br_dst_addr demo_req) = 5" by (simp_all add: demo_req_def bind_consts addr_short_def)
  show ?thesis using zb_apsme_unbind_twice_overruns [OF demo_bound_facts(1,3) d(1,2) A] demo_bound_facts(2) d(3) by auto
qed

end
