(* ===== verification/Zb_Group.thy ===== *)
theory Zb_Group
  imports Zb_Bind
begin

text \<open>
  The APS group table of \<open>Zb_Bind\<close> as a map from group addresses to lists of endpoints.
\<close>

section \<open>The group table as a map\<close>

definition group_wf :: "zb_aps_group_table \<Rightarrow> bool" where
  "group_wf G \<longleftrightarrow> length (groups G) = 16 \<and> n_groups G \<le> 16
     \<and> (\<forall>e\<in>set (groups G). length (ge_endpoints e) = 8 \<and> ge_n_endpoints e \<le> 8)"

definition eps_of :: "zb_aps_group_table_ent \<Rightarrow> zb_uint8_t list" where
  "eps_of e = take (ge_n_endpoints e) (ge_endpoints e)"

definition group_ents :: "zb_aps_group_table \<Rightarrow> (zb_uint16_t \<times> zb_uint8_t list) list" where
  "group_ents G = map (\<lambda>e. (ge_group_addr e, eps_of e)) (take (n_groups G) (groups G))"

definition group_eps :: "zb_aps_group_table \<Rightarrow> zb_uint16_t \<Rightarrow> zb_uint8_t list option" where
  "group_eps G = map_of (group_ents G)"

lemma map_of_list_update:
  "i < length xs \<Longrightarrow> fst (xs ! i) = a \<Longrightarrow> \<forall>j<i. fst (xs ! j) \<noteq> a \<Longrightarrow> map_of (xs[i := (a, y)]) = (map_of xs)(a \<mapsto> y)"
proof (induction xs arbitrary: i)
  case (Cons x xs)
  show ?case
  proof (cases i)
    case 0
    then show ?thesis using Cons.prems by (cases x) auto
  next
    case (Suc k)
    then have "fst x \<noteq> a" "\<forall>j<k. fst (xs ! j) \<noteq> a" using Cons.prems(3) by auto
    then show ?thesis using Cons.IH [of k] Cons.prems Suc by (cases x) (auto simp: fun_upd_twist)
  qed
qed simp

lemma map_of_first:
  "i < length xs \<Longrightarrow> \<forall>j<i. fst (xs ! j) \<noteq> fst (xs ! i) \<Longrightarrow> map_of xs (fst (xs ! i)) = Some (snd (xs ! i))"
proof (induction xs arbitrary: i)
  case (Cons x xs)
  show ?case
  proof (cases i)
    case (Suc k)
    then have "fst x \<noteq> fst (xs ! k)" "\<forall>j<k. fst (xs ! j) \<noteq> fst (xs ! k)" using Cons.prems(2) by auto
    then show ?thesis using Cons.IH [of k] Cons.prems(1) Suc by (cases x) auto
  qed (cases x, simp)
qed simp

lemma find_group_spec:
  assumes len: "length (groups G) = 16" "n_groups G \<le> 16"
  shows "i \<le> n_groups G \<Longrightarrow> \<exists>r. find_group i G a = Some r \<and> (case r of
      Some k \<Rightarrow> i \<le> k \<and> k < n_groups G \<and> ge_group_addr (groups G ! k) = a
        \<and> (\<forall>j. i \<le> j \<and> j < k \<longrightarrow> ge_group_addr (groups G ! j) \<noteq> a)
    | None \<Rightarrow> \<forall>j. i \<le> j \<and> j < n_groups G \<longrightarrow> ge_group_addr (groups G ! j) \<noteq> a)"
proof (induction "n_groups G - i" arbitrary: i)
  case (Suc k)
  show ?case
  proof (cases "ge_group_addr (groups G ! i) = a")
    case True
    then show ?thesis using Suc.hyps(2) len by (subst find_group.simps) auto
  next
    case False
    have "k = n_groups G - (i + 1)" "i + 1 \<le> n_groups G" using Suc.hyps(2) by simp_all
    from Suc.hyps(1) [OF this] obtain r where r: "find_group (i + 1) G a = Some r" "case r of
      Some k \<Rightarrow> i + 1 \<le> k \<and> k < n_groups G \<and> ge_group_addr (groups G ! k) = a
        \<and> (\<forall>j. i + 1 \<le> j \<and> j < k \<longrightarrow> ge_group_addr (groups G ! j) \<noteq> a)
    | None \<Rightarrow> \<forall>j. i + 1 \<le> j \<and> j < n_groups G \<longrightarrow> ge_group_addr (groups G ! j) \<noteq> a" by blast
    have "i < n_groups G" using Suc.hyps(2) by simp
    then have "find_group i G a = Some r" using r(1) False len by (subst find_group.simps) simp
    moreover have "ge_group_addr (groups G ! j) \<noteq> a" if "i \<le> j" "\<not> i + 1 \<le> j" for j
      using that False by (cases "j = i") simp_all
    ultimately show ?thesis using r(2) by (intro exI [of _ r]) (auto split: option.splits; meson Suc_leD not_less_eq_eq)
  qed
qed (subst find_group.simps; auto)

lemma group_ent_nth:
  assumes "length (groups G) = 16" "n_groups G \<le> 16" "j < n_groups G"
  shows "fst (group_ents G ! j) = ge_group_addr (groups G ! j)" "snd (group_ents G ! j) = eps_of (groups G ! j)"
  using assms by (simp_all add: group_ents_def)

lemma add_endpoint_spec:
  assumes "length (ge_endpoints e) = 8" "ge_n_endpoints e \<le> 8"
  shows "if ep \<in> set (eps_of e) then add_endpoint ep e = Some (e, 0)
    else if length (eps_of e) < 8 then \<exists>e'. add_endpoint ep e = Some (e', 0) \<and> eps_of e' = eps_of e @ [ep]
      \<and> ge_group_addr e' = ge_group_addr e \<and> length (ge_endpoints e') = 8 \<and> ge_n_endpoints e' \<le> 8
    else add_endpoint ep e = Some (e, ZB_APS_STATUS_TABLE_FULL)"
  using assms by (auto simp: add_endpoint_def eps_of_def aps_consts take_snoc_update)

lemma group_wf_upd:
  assumes "group_wf G" "length (ge_endpoints e) = 8" "ge_n_endpoints e \<le> 8" "n \<le> 16"
  shows "group_wf (G\<lparr>groups := (groups G)[k := e], n_groups := n\<rparr>)"
  using assms set_update_subset_insert [of "groups G" k e] unfolding group_wf_def by auto

lemma group_table_add_known:
  assumes wf: "group_wf G" and f: "find_group 0 G (gr_group_address req) = Some (Some k)"
    and k: "k < n_groups G" "ge_group_addr (groups G ! k) = gr_group_address req"
      "\<forall>j<k. ge_group_addr (groups G ! j) \<noteq> gr_group_address req"
  shows "\<exists>G' st eps. group_table_add req G = Some (G', st) \<and> group_wf G' \<and> group_eps G (gr_group_address req) = Some eps
    \<and> (if gr_endpoint req \<in> set eps then st = 0 \<and> G' = G
       else if length eps < 8 then st = 0 \<and> group_eps G' = (group_eps G)(gr_group_address req \<mapsto> eps @ [gr_endpoint req])
       else st = ZB_APS_STATUS_TABLE_FULL \<and> G' = G)"
proof -
  let ?a = "gr_group_address req" and ?ep = "gr_endpoint req" and ?e = "groups G ! k"
  have len: "length (groups G) = 16" "n_groups G \<le> 16" using wf by (simp_all add: group_wf_def)
  have ents: "k < length (group_ents G)" using k(1) len by (simp add: group_ents_def)
  have first: "fst (group_ents G ! k) = ?a" "\<forall>j<k. fst (group_ents G ! j) \<noteq> ?a"
    using k group_ent_nth [OF len] by auto
  have e8: "length (ge_endpoints ?e) = 8" "ge_n_endpoints ?e \<le> 8" using wf k(1) len by (auto simp: group_wf_def)
  have eps: "group_eps G ?a = Some (eps_of ?e)"
    using map_of_first [OF ents] first group_ent_nth(2) [OF len k(1)] by (simp add: group_eps_def)
  have run: "group_table_add req G = map_option (\<lambda>(e, st). (G\<lparr>groups := (groups G)[k := e]\<rparr>, st)) (add_endpoint ?ep ?e)"
    using f by (simp add: group_table_add_def map_option_case split: option.split)
  note ae = add_endpoint_spec [OF e8, of ?ep]
  show ?thesis
  proof (cases "?ep \<in> set (eps_of ?e) \<or> \<not> length (eps_of ?e) < 8")
    case True
    then show ?thesis using ae run wf eps by (auto split: if_splits)
  next
    case False
    then obtain e' where e': "add_endpoint ?ep ?e = Some (e', 0)" "eps_of e' = eps_of ?e @ [?ep]"
      "ge_group_addr e' = ?a" "length (ge_endpoints e') = 8" "ge_n_endpoints e' \<le> 8" using ae k(2) by auto
    let ?G' = "G\<lparr>groups := (groups G)[k := e']\<rparr>"
    have "group_ents ?G' = (group_ents G)[k := (?a, eps_of ?e @ [?ep])]"
      using e'(2,3) k(1) by (simp add: group_ents_def take_update_swap map_update)
    then have "group_eps ?G' = (group_eps G)(?a \<mapsto> eps_of ?e @ [?ep])"
      using map_of_list_update [OF ents first] by (simp add: group_eps_def)
    moreover have "group_wf ?G'" using group_wf_upd [OF wf e'(4,5) len(2), of k] by simp
    moreover have "group_table_add req G = Some (?G', 0)" using run e'(1) by simp
    ultimately show ?thesis using False eps by (intro exI [of _ ?G'] exI [of _ 0] exI [of _ "eps_of ?e"]) auto
  qed
qed

lemma group_table_add_new:
  assumes wf: "group_wf G" and f: "find_group 0 G (gr_group_address req) = Some None"
    and no: "\<forall>j. j < n_groups G \<longrightarrow> ge_group_addr (groups G ! j) \<noteq> gr_group_address req"
  shows "group_eps G (gr_group_address req) = None
    \<and> (if n_groups G < 16 then \<exists>G'. group_table_add req G = Some (G', 0) \<and> group_wf G'
          \<and> group_eps G' = (group_eps G)(gr_group_address req \<mapsto> [gr_endpoint req])
       else group_table_add req G = Some (G, ZB_APS_STATUS_TABLE_FULL))"
proof -
  let ?a = "gr_group_address req" and ?ep = "gr_endpoint req" and ?n = "n_groups G"
  have len: "length (groups G) = 16" "n_groups G \<le> 16" using wf by (simp_all add: group_wf_def)
  have ne: "ge_group_addr e \<noteq> ?a" if e: "e \<in> set (take ?n (groups G))" for e
  proof -
    obtain i where i: "i < length (take ?n (groups G))" "take ?n (groups G) ! i = e"
      using e by (auto simp: in_set_conv_nth)
    then have ie: "i < ?n" "groups G ! i = e" by simp_all
    show ?thesis using spec [OF no, of i] ie(1) unfolding ie(2) by (rule mp)
  qed
  have "?a \<notin> ge_group_addr ` set (take ?n (groups G))"
  proof
    assume "?a \<in> ge_group_addr ` set (take ?n (groups G))"
    then obtain e where e: "?a = ge_group_addr e" "e \<in> set (take ?n (groups G))" by (rule imageE)
    show False using ne [OF e(2)] unfolding e(1) by (rule notE) (rule refl)
  qed
  then have "?a \<notin> fst ` set (group_ents G)" by (simp add: group_ents_def image_image)
  then have eps: "group_eps G ?a = None" by (simp add: group_eps_def map_of_eq_None_iff)
  show ?thesis
  proof (cases "?n < 16")
    case True
    let ?e = "groups G ! ?n"
    have e8: "length (ge_endpoints ?e) = 8" using wf True len by (auto simp: group_wf_def)
    let ?e' = "?e\<lparr>ge_group_addr := ?a, ge_endpoints := (ge_endpoints ?e)[0 := ?ep], ge_n_endpoints := 1\<rparr>"
    let ?G' = "G\<lparr>groups := (groups G)[?n := ?e'], n_groups := Suc ?n\<rparr>"
    have "group_table_add req G = Some (?G', 0)"
      using True f len by (simp add: group_table_add_def aps_consts Let_def)
    moreover have "eps_of ?e' = [?ep]" using e8 by (cases "ge_endpoints ?e") (simp_all add: eps_of_def)
    then have "group_ents ?G' = group_ents G @ [(?a, [?ep])]"
      using True len by (simp add: group_ents_def take_snoc_update)
    then have "group_eps ?G' = (group_eps G)(?a \<mapsto> [?ep])"
      using eps by (auto simp: group_eps_def map_add_def fun_eq_iff split: option.split)
    moreover have "group_wf ?G'" by (rule group_wf_upd [OF wf]) (use e8 True in auto)
    ultimately show ?thesis using True eps by auto
  next
    case False
    then show ?thesis using f eps by (simp add: group_table_add_def aps_consts Let_def)
  qed
qed

text \<open>
  C32: \<open>zb_apsme_add_group_request\<close> implements adding an endpoint to a map from group addresses to lists
  of endpoints, of at most 16 groups with at most 8 endpoints: an endpoint that is a member already
  changes nothing, a new one is appended, a new group gets its first endpoint, and
  \<open>ZB_APS_STATUS_TABLE_FULL\<close> is the answer exactly when the group or the table has no room, which leaves
  the state alone.
\<close>

theorem zb_apsme_add_group_request_refines:
  assumes wf: "group_wf (aps_group (aps g))"
  shows "\<exists>g' st. zb_apsme_add_group_request req g = Some (g', st) \<and> group_wf (aps_group (aps g'))
    \<and> (case group_eps (aps_group (aps g)) (gr_group_address req) of
        Some eps \<Rightarrow>
          if gr_endpoint req \<in> set eps then st = 0 \<and> g' = g
          else if length eps < 8 then st = 0 \<and> group_eps (aps_group (aps g'))
            = (group_eps (aps_group (aps g)))(gr_group_address req \<mapsto> eps @ [gr_endpoint req])
          else st = ZB_APS_STATUS_TABLE_FULL \<and> g' = g
      | None \<Rightarrow>
          if n_groups (aps_group (aps g)) < 16 then st = 0 \<and> group_eps (aps_group (aps g'))
            = (group_eps (aps_group (aps g)))(gr_group_address req \<mapsto> [gr_endpoint req])
          else st = ZB_APS_STATUS_TABLE_FULL \<and> g' = g)"
proof -
  let ?G = "aps_group (aps g)" and ?a = "gr_group_address req"
  have len: "length (groups ?G) = 16" "n_groups ?G \<le> 16" using wf by (simp_all add: group_wf_def)
  have same: "upd_aps (\<lambda>a. a\<lparr>aps_group := ?G\<rparr>) g = g" by (simp add: upd_aps_def)
  have run: "zb_apsme_add_group_request req g = map_option (\<lambda>(G, st). (upd_aps (\<lambda>a. a\<lparr>aps_group := G\<rparr>) g, st)) (group_table_add req ?G)"
    by (simp add: zb_apsme_add_group_request_def map_option_case split: option.split)
  obtain r where r: "find_group 0 ?G ?a = Some r" "case r of
      Some k \<Rightarrow> k < n_groups ?G \<and> ge_group_addr (groups ?G ! k) = ?a \<and> (\<forall>j<k. ge_group_addr (groups ?G ! j) \<noteq> ?a)
    | None \<Rightarrow> \<forall>j. j < n_groups ?G \<longrightarrow> ge_group_addr (groups ?G ! j) \<noteq> ?a"
    using find_group_spec [OF len le0, of ?a] by (simp only: le0 simp_thms) blast
  show ?thesis
  proof (cases r)
    case (Some k)
    with r(2) group_table_add_known [OF wf, of req k] r(1) obtain G' st eps where
      "group_table_add req ?G = Some (G', st)" "group_wf G'" "group_eps ?G ?a = Some eps"
      "if gr_endpoint req \<in> set eps then st = 0 \<and> G' = ?G
       else if length eps < 8 then st = 0 \<and> group_eps G' = (group_eps ?G)(?a \<mapsto> eps @ [gr_endpoint req])
       else st = ZB_APS_STATUS_TABLE_FULL \<and> G' = ?G" by auto
    then show ?thesis using run same by (auto split: if_splits)
  next
    case None
    with r group_table_add_new [OF wf, of req] show ?thesis using run same wf by (auto split: if_splits)
  qed
qed

lemma zb_apsme_add_group_request_refines_witness:
  "\<exists>g' st. zb_apsme_add_group_request \<lparr>gr_group_address = 7, gr_endpoint = 2\<rparr> demo_a = Some (g', st)
     \<and> st = 0 \<and> group_eps (aps_group (aps g')) 7 = Some [2]"
proof -
  have w: "group_wf (aps_group (aps demo_a))" "group_eps (aps_group (aps demo_a)) = Map.empty"
    "n_groups (aps_group (aps demo_a)) < 16"
    by (simp_all add: demo_a_def demo_aps_def group_wf_def group_eps_def group_ents_def)
  show ?thesis
    using zb_apsme_add_group_request_refines [OF w(1), of "\<lparr>gr_group_address = 7, gr_endpoint = 2\<rparr>"] w(2,3) by auto
qed

end
