(* ===== verification/Zb_Fcs.thy ===== *)
theory Zb_Fcs
  imports Zb_Buf
begin

text \<open>
  The frame check sequence of the MAC layer: \<^verbatim>\<open>mac/mac_fcs.c\<close> (used in the Linux and ns-3
  builds, where no transceiver computes it). The table-driven loop is the CRC-16 of IEEE
  802.15.4; the lemmas compare it with the bitwise definition and show what the check detects.
\<close>

section \<open>The code\<close>

definition fcs_table :: "zb_uint16_t list" where
  "fcs_table = [
     0x0000, 0x1189, 0x2312, 0x329B, 0x4624, 0x57AD, 0x6536, 0x74BF,
     0x8C48, 0x9DC1, 0xAF5A, 0xBED3, 0xCA6C, 0xDBE5, 0xE97E, 0xF8F7,
     0x1081, 0x0108, 0x3393, 0x221A, 0x56A5, 0x472C, 0x75B7, 0x643E,
     0x9CC9, 0x8D40, 0xBFDB, 0xAE52, 0xDAED, 0xCB64, 0xF9FF, 0xE876,
     0x2102, 0x308B, 0x0210, 0x1399, 0x6726, 0x76AF, 0x4434, 0x55BD,
     0xAD4A, 0xBCC3, 0x8E58, 0x9FD1, 0xEB6E, 0xFAE7, 0xC87C, 0xD9F5,
     0x3183, 0x200A, 0x1291, 0x0318, 0x77A7, 0x662E, 0x54B5, 0x453C,
     0xBDCB, 0xAC42, 0x9ED9, 0x8F50, 0xFBEF, 0xEA66, 0xD8FD, 0xC974,
     0x4204, 0x538D, 0x6116, 0x709F, 0x0420, 0x15A9, 0x2732, 0x36BB,
     0xCE4C, 0xDFC5, 0xED5E, 0xFCD7, 0x8868, 0x99E1, 0xAB7A, 0xBAF3,
     0x5285, 0x430C, 0x7197, 0x601E, 0x14A1, 0x0528, 0x37B3, 0x263A,
     0xDECD, 0xCF44, 0xFDDF, 0xEC56, 0x98E9, 0x8960, 0xBBFB, 0xAA72,
     0x6306, 0x728F, 0x4014, 0x519D, 0x2522, 0x34AB, 0x0630, 0x17B9,
     0xEF4E, 0xFEC7, 0xCC5C, 0xDDD5, 0xA96A, 0xB8E3, 0x8A78, 0x9BF1,
     0x7387, 0x620E, 0x5095, 0x411C, 0x35A3, 0x242A, 0x16B1, 0x0738,
     0xFFCF, 0xEE46, 0xDCDD, 0xCD54, 0xB9EB, 0xA862, 0x9AF9, 0x8B70,
     0x8408, 0x9581, 0xA71A, 0xB693, 0xC22C, 0xD3A5, 0xE13E, 0xF0B7,
     0x0840, 0x19C9, 0x2B52, 0x3ADB, 0x4E64, 0x5FED, 0x6D76, 0x7CFF,
     0x9489, 0x8500, 0xB79B, 0xA612, 0xD2AD, 0xC324, 0xF1BF, 0xE036,
     0x18C1, 0x0948, 0x3BD3, 0x2A5A, 0x5EE5, 0x4F6C, 0x7DF7, 0x6C7E,
     0xA50A, 0xB483, 0x8618, 0x9791, 0xE32E, 0xF2A7, 0xC03C, 0xD1B5,
     0x2942, 0x38CB, 0x0A50, 0x1BD9, 0x6F66, 0x7EEF, 0x4C74, 0x5DFD,
     0xB58B, 0xA402, 0x9699, 0x8710, 0xF3AF, 0xE226, 0xD0BD, 0xC134,
     0x39C3, 0x284A, 0x1AD1, 0x0B58, 0x7FE7, 0x6E6E, 0x5CF5, 0x4D7C,
     0xC60C, 0xD785, 0xE51E, 0xF497, 0x8028, 0x91A1, 0xA33A, 0xB2B3,
     0x4A44, 0x5BCD, 0x6956, 0x78DF, 0x0C60, 0x1DE9, 0x2F72, 0x3EFB,
     0xD68D, 0xC704, 0xF59F, 0xE416, 0x90A9, 0x8120, 0xB3BB, 0xA232,
     0x5AC5, 0x4B4C, 0x79D7, 0x685E, 0x1CE1, 0x0D68, 0x3FF3, 0x2E7A,
     0xE70E, 0xF687, 0xC41C, 0xD595, 0xA12A, 0xB0A3, 0x8238, 0x93B1,
     0x6B46, 0x7ACF, 0x4854, 0x59DD, 0x2D62, 0x3CEB, 0x0E70, 0x1FF9,
     0xF78F, 0xE606, 0xD49D, 0xC514, 0xB1AB, 0xA022, 0x92B9, 0x8330,
     0x7BC7, 0x6A4E, 0x58D5, 0x495C, 0x3DE3, 0x2C6A, 0x1EF1, 0x0F78]"

definition fcs_step :: "zb_uint16_t \<Rightarrow> zb_uint8_t \<Rightarrow> zb_uint16_t" where
  "fcs_step crc b = fcs_table ! unat ((crc XOR ucast b) AND 0xff) XOR drop_bit 8 crc"

definition fcs_of :: "zb_uint8_t list \<Rightarrow> zb_uint16_t" where
  "fcs_of bs = foldl fcs_step 0 bs"

text \<open>\<^verbatim>\<open>ZB_HTOLE16\<close> on the little-endian target copies both bytes.\<close>

definition le16 :: "zb_uint16_t \<Rightarrow> zb_uint8_t list" where
  "le16 w = [ucast w, ucast (drop_bit 8 w)]"

definition zb_mac_fcs_add :: "zb_buf \<Rightarrow> zb_buf option" where
  "zb_mac_fcs_add b = do {
     zb_assert (ZB_BUF_BEGIN b + ZB_BUF_LEN b \<le> length (b_buf b));
     let crc = fcs_of (take (ZB_BUF_LEN b) (drop (ZB_BUF_BEGIN b) (b_buf b)));
     (b1, p) \<leftarrow> zb_buf_smart_alloc_right 2 b;
     m \<leftarrow> blit (b_buf b1) p (le16 crc);
     Some (b1\<lparr>b_buf := m\<rparr>) }"

section \<open>The bitwise definition\<close>

definition bit_step :: "zb_uint16_t \<Rightarrow> zb_uint16_t" where
  "bit_step c = (if bit c 0 then drop_bit 1 c XOR 0x8408 else drop_bit 1 c)"

definition bit_steps8 :: "zb_uint16_t \<Rightarrow> zb_uint16_t" where
  "bit_steps8 c = bit_step (bit_step (bit_step (bit_step (bit_step (bit_step (bit_step (bit_step c)))))))"

definition crc16 :: "zb_uint8_t list \<Rightarrow> zb_uint16_t" where
  "crc16 bs = foldl (\<lambda>c b. bit_steps8 (c XOR ucast b)) 0 bs"

text \<open>The table, entry by entry.\<close>

definition fcs_entry_ok :: "zb_uint16_t \<Rightarrow> zb_uint16_t \<Rightarrow> bool" where
  "fcs_entry_ok i x \<longleftrightarrow> bit_steps8 i = x"

lemma fcs_table_ok: "tab_all fcs_entry_ok fcs_table 0"
  unfolding fcs_table_def by (simp add: fcs_entry_ok_def bit_steps8_def bit_step_def)

lemma fcs_table_length: "length fcs_table = 256"
  unfolding fcs_table_def by simp

lemma fcs_table_nth: "k < 256 \<Longrightarrow> fcs_table ! k = bit_steps8 (word_of_nat k)"
  using tab_all_nth [OF fcs_table_ok] by (simp add: fcs_table_length fcs_entry_ok_def)

section \<open>Linearity\<close>

lemma bit_step_xor: "bit_step (a XOR b) = bit_step a XOR bit_step b"
  by (auto simp: bit_step_def bit_simps intro!: bit_word_eqI)

lemma bit_steps8_xor: "bit_steps8 (a XOR b) = bit_steps8 a XOR bit_steps8 b"
  by (simp add: bit_steps8_def bit_step_xor)

lemma bit_step_inj: "bit_step a = bit_step b \<longleftrightarrow> a = b"
proof
  assume e: "bit_step a = bit_step b"
  define d where "d = a XOR b"
  have d: "bit_step d = 0" using e bit_step_xor [of a b] by (simp add: d_def)
  have hi: "bit (drop_bit 1 d) 15 = False" using bit_imp_le_length [of d 16] by (auto simp: bit_drop_bit_eq)
  have "\<not> bit d 0"
  proof
    assume "bit d 0"
    with d have "drop_bit 1 d = 0x8408" by (simp add: bit_step_def)
    then have "bit (drop_bit 1 d) 15" by simp
    with hi show False by simp
  qed
  then have "drop_bit 1 d = 0" using d by (simp add: bit_step_def)
  have "d = 0"
  proof (rule bit_word_eqI)
    fix n assume "n < LENGTH(16)"
    show "bit d n = bit (0 :: zb_uint16_t) n"
    proof (cases n)
      case 0
      with \<open>\<not> bit d 0\<close> show ?thesis by simp
    next
      case (Suc m)
      have "bit (drop_bit 1 d) m = False" using \<open>drop_bit 1 d = 0\<close> by simp
      then show ?thesis using Suc by (simp add: bit_drop_bit_eq)
    qed
  qed
  then show "a = b" by (simp add: d_def)
qed simp

lemma bit_steps8_inj: "bit_steps8 a = bit_steps8 b \<longleftrightarrow> a = b"
  by (simp add: bit_steps8_def bit_step_inj)

lemma ff_mask: "(0xff :: zb_uint16_t) = mask 8"
  by (simp add: mask_eq_exp_minus_1)

lemma bit_steps8_high:
  assumes "a AND 0xff = 0" shows "bit_steps8 a = drop_bit 8 a"
proof -
  have low: "\<not> bit a n" if "n < 8" for n
  proof -
    have "bit (0xff :: zb_uint16_t) n" using that by (simp add: ff_mask bit_mask_iff)
    moreover have "\<not> bit (a AND 0xff) n" using assms by simp
    ultimately show ?thesis by (simp add: bit_and_iff)
  qed
  have "bit_step (drop_bit n a) = drop_bit (Suc n) a" if "n < 8" for n
    using low [OF that] by (simp add: bit_step_def bit_drop_bit_eq)
  from this [of 0] this [of 1] this [of 2] this [of 3] this [of 4] this [of 5] this [of 6] this [of 7]
  show ?thesis by (simp add: bit_steps8_def numeral_eq_Suc)
qed

text \<open>A table step is the same as 8 bit steps.\<close>

lemma fcs_step_bits: "fcs_step c b = bit_steps8 (c XOR ucast b)"
proof -
  let ?x = "c XOR ucast b :: zb_uint16_t"
  have split: "?x = (?x AND 0xff) XOR (?x AND NOT 0xff)"
    by (rule bit_word_eqI) (auto simp: bit_simps)
  have "unat (?x AND 0xff) < 256"
    using word_and_le1 [of "?x" "0xff"] by (simp add: word_le_nat_alt and.commute)
  then have t: "fcs_table ! unat (?x AND 0xff) = bit_steps8 (?x AND 0xff)"
    by (simp add: fcs_table_nth)
  have "bit_steps8 (?x AND NOT 0xff) = drop_bit 8 (?x AND NOT 0xff)"
    by (rule bit_steps8_high) (rule bit_word_eqI, simp add: bit_simps)
  also have "\<dots> = drop_bit 8 c"
  proof (rule bit_word_eqI)
    fix n assume "n < LENGTH(16)"
    have "\<not> bit (0xff :: zb_uint16_t) (8 + n)" by (simp add: ff_mask bit_mask_iff)
    then show "bit (drop_bit 8 (?x AND NOT 0xff)) n = bit (drop_bit 8 c) n"
      using bit_imp_le_length [of c "8 + n"] bit_imp_le_length [of b "8 + n"]
      by (auto simp: bit_simps ff_mask)
  qed
  finally show ?thesis
    unfolding fcs_step_def t by (subst split) (simp add: bit_steps8_xor)
qed

section \<open>What the check promises\<close>

text \<open>C34: the table-driven checksum is the bitwise CRC-16 with the reflected polynomial 0x8408.\<close>

theorem fcs_of_is_crc16: "fcs_of bs = crc16 bs"
proof -
  have "foldl fcs_step c bs = foldl (\<lambda>c b. bit_steps8 (c XOR ucast b)) c bs" for c
    by (induction bs arbitrary: c) (simp_all add: fcs_step_bits)
  then show ?thesis by (simp add: fcs_of_def crc16_def)
qed

lemma fcs_step_own:
  "fcs_step c (ucast c) = drop_bit 8 c"
proof -
  have "c XOR ucast (ucast c :: zb_uint8_t) = c AND NOT 0xff"
    by (rule bit_word_eqI) (auto simp: bit_simps ff_mask)
  then have "fcs_step c (ucast c) = bit_steps8 (c AND NOT 0xff)" by (simp add: fcs_step_bits)
  also have "\<dots> = drop_bit 8 (c AND NOT 0xff)"
    by (rule bit_steps8_high) (rule bit_word_eqI, simp add: bit_simps)
  also have "\<dots> = drop_bit 8 c"
  proof (rule bit_word_eqI)
    fix n
    show "bit (drop_bit 8 (c AND NOT 0xff)) n = bit (drop_bit 8 c) n"
      using bit_imp_le_length [of c "8 + n"] by (auto simp: bit_simps ff_mask)
  qed
  finally show ?thesis .
qed

lemma fcs_residue: "fcs_of (bs @ le16 (fcs_of bs)) = 0"
proof -
  let ?c = "fcs_of bs"
  have "drop_bit 8 (drop_bit 8 ?c) = 0"
    by (rule bit_word_eqI) (auto simp: bit_simps dest: bit_imp_le_length)
  then show ?thesis using fcs_step_own [of ?c] fcs_step_own [of "drop_bit 8 ?c"]
    by (simp add: fcs_of_def le16_def)
qed

lemma foldl_step_inj: "foldl fcs_step c bs = foldl fcs_step d bs \<longleftrightarrow> c = d"
  by (induction bs arbitrary: c d) (simp_all add: fcs_step_bits bit_steps8_inj)

lemma ucast_8_16_inj: "(ucast a :: zb_uint16_t) = ucast b \<longleftrightarrow> a = (b :: zb_uint8_t)"
proof
  assume e: "(ucast a :: zb_uint16_t) = ucast b"
  show "a = b"
  proof (rule bit_word_eqI)
    fix n assume "n < LENGTH(8)"
    then have n: "n < 16" by simp
    have "bit (ucast a :: zb_uint16_t) n = bit (ucast b :: zb_uint16_t) n" using e by simp
    then show "bit a n = bit b n" using n by (simp add: bit_ucast_iff)
  qed
qed simp

lemma fcs_step_inj_byte: "fcs_step c a = fcs_step c b \<longleftrightarrow> a = b"
  by (simp add: fcs_step_bits bit_steps8_inj ucast_8_16_inj)

text \<open>
  the checksum detects every error that changes one byte of the frame, whatever the
  change, and wherever it is.
\<close>

theorem fcs_detects_byte_error: "fcs_of (xs @ a # ys) = fcs_of (xs @ b # ys) \<longleftrightarrow> a = b"
  by (simp add: fcs_of_def foldl_step_inj fcs_step_inj_byte)

text \<open>
  \<open>zb_mac_fcs_add\<close> on a buffer with room behind its payload appends two bytes to the
  payload, leaving it otherwise unchanged, so that the checksum over the whole new payload is 0,
  which is what a receiver checks.
\<close>

theorem zb_mac_fcs_add_residue:
  assumes wf: "buf_wf b" and room: "unat (b_data_offset b) + unat (b_len b) + 2 \<le> 148"
    and len: "unat (b_len b) < 146"
  shows "\<exists>b'. zb_mac_fcs_add b = Some b' \<and> buf_wf b' \<and> b_data_offset b' = b_data_offset b
    \<and> buf_data b' = buf_data b @ le16 (fcs_of (buf_data b)) \<and> fcs_of (buf_data b') = 0"
proof -
  let ?o = "unat (b_data_offset b)" and ?n = "unat (b_len b)"
  define crc where "crc = fcs_of (buf_data b)"
  have l: "length (b_buf b) = 148" using wf by (simp add: buf_wf_def ZB_IO_BUF_SIZE_def)
  have n: "unat (b_len b + 2) = ?n + 2" using len unat8_add [of "b_len b" 2] by simp
  define m where "m = take (?o + ?n) (b_buf b) @ le16 crc @ drop (?o + ?n + 2) (b_buf b)"
  let ?b = "b\<lparr>b_len := b_len b + 2, b_buf := m\<rparr>"
  have "blit (b_buf b) (?o + ?n) (le16 crc) = Some m"
    using room l by (simp add: blit_def m_def le16_def)
  then have "zb_mac_fcs_add b = Some ?b"
    using room l len by (simp add: zb_mac_fcs_add_def zb_buf_smart_alloc_right_def buf_defs crc_def buf_data_def Let_def)
  moreover have "length m = 148" using room l by (simp add: m_def le16_def)
  then have "buf_wf ?b" using n room by (simp add: buf_wf_def ZB_IO_BUF_SIZE_def)
  moreover have "buf_data ?b = buf_data b @ le16 crc"
    using room l by (simp add: buf_data_def n m_def le16_def drop_take)
  ultimately show ?thesis using fcs_residue [of "buf_data b"] by (auto simp: crc_def)
qed

definition fcs_demo :: zb_buf where
  "fcs_demo = demo_buf\<lparr>b_len := 3, b_data_offset := 10\<rparr>"

theorem zb_mac_fcs_add_residue_witness:
  "\<exists>b'. zb_mac_fcs_add fcs_demo = Some b' \<and> buf_wf b' \<and> fcs_of (buf_data b') = 0"
proof -
  have "buf_wf fcs_demo" by (simp add: fcs_demo_def demo_buf_def buf_wf_def ZB_IO_BUF_SIZE_def)
  from zb_mac_fcs_add_residue [OF this] show ?thesis by (auto simp: fcs_demo_def)
qed

end
