(* ===== verification/Zb_Ccm.thy ===== *)
theory Zb_Ccm
  imports Zb_Buf
begin

text \<open>
  CCM* of the security sublayer, the software version of the Linux and ns-3 builds:
  \<^verbatim>\<open>secur/secur_ccm.c\<close>, with the AES-128 block cipher it contains. Byte arrays are lists. A write of
  16 bytes at the end of an output (\<^verbatim>\<open>xor16\<close> into the ciphertext) is modelled with all its 16
  bytes, so the output of \<open>encrypt_trans\<close> is 16 bytes longer than the message, of which the
  callers use the first \<open>ZB_CCM_M\<close>.
\<close>

section \<open>AES-128\<close>

definition shift_rows_table :: "nat list" where
  "shift_rows_table = [0, 5, 10, 15, 4, 9, 14, 3, 8, 13, 2, 7, 12, 1, 6, 11]"

definition lookup_rcon :: "zb_uint8_t list" where
  "lookup_rcon =
    [0x8d, 0x01, 0x02, 0x04, 0x08, 0x10, 0x20, 0x40, 0x80, 0x1b, 0x36, 0x6c, 0xd8, 0xab, 0x4d, 0x9a]"

definition lookup_sbox :: "zb_uint8_t list" where
  "lookup_sbox =
    [0x63, 0x7c, 0x77, 0x7b, 0xf2, 0x6b, 0x6f, 0xc5, 0x30, 0x01, 0x67, 0x2b, 0xfe, 0xd7, 0xab, 0x76,
     0xca, 0x82, 0xc9, 0x7d, 0xfa, 0x59, 0x47, 0xf0, 0xad, 0xd4, 0xa2, 0xaf, 0x9c, 0xa4, 0x72, 0xc0,
     0xb7, 0xfd, 0x93, 0x26, 0x36, 0x3f, 0xf7, 0xcc, 0x34, 0xa5, 0xe5, 0xf1, 0x71, 0xd8, 0x31, 0x15,
     0x04, 0xc7, 0x23, 0xc3, 0x18, 0x96, 0x05, 0x9a, 0x07, 0x12, 0x80, 0xe2, 0xeb, 0x27, 0xb2, 0x75,
     0x09, 0x83, 0x2c, 0x1a, 0x1b, 0x6e, 0x5a, 0xa0, 0x52, 0x3b, 0xd6, 0xb3, 0x29, 0xe3, 0x2f, 0x84,
     0x53, 0xd1, 0x00, 0xed, 0x20, 0xfc, 0xb1, 0x5b, 0x6a, 0xcb, 0xbe, 0x39, 0x4a, 0x4c, 0x58, 0xcf,
     0xd0, 0xef, 0xaa, 0xfb, 0x43, 0x4d, 0x33, 0x85, 0x45, 0xf9, 0x02, 0x7f, 0x50, 0x3c, 0x9f, 0xa8,
     0x51, 0xa3, 0x40, 0x8f, 0x92, 0x9d, 0x38, 0xf5, 0xbc, 0xb6, 0xda, 0x21, 0x10, 0xff, 0xf3, 0xd2,
     0xcd, 0x0c, 0x13, 0xec, 0x5f, 0x97, 0x44, 0x17, 0xc4, 0xa7, 0x7e, 0x3d, 0x64, 0x5d, 0x19, 0x73,
     0x60, 0x81, 0x4f, 0xdc, 0x22, 0x2a, 0x90, 0x88, 0x46, 0xee, 0xb8, 0x14, 0xde, 0x5e, 0x0b, 0xdb,
     0xe0, 0x32, 0x3a, 0x0a, 0x49, 0x06, 0x24, 0x5c, 0xc2, 0xd3, 0xac, 0x62, 0x91, 0x95, 0xe4, 0x79,
     0xe7, 0xc8, 0x37, 0x6d, 0x8d, 0xd5, 0x4e, 0xa9, 0x6c, 0x56, 0xf4, 0xea, 0x65, 0x7a, 0xae, 0x08,
     0xba, 0x78, 0x25, 0x2e, 0x1c, 0xa6, 0xb4, 0xc6, 0xe8, 0xdd, 0x74, 0x1f, 0x4b, 0xbd, 0x8b, 0x8a,
     0x70, 0x3e, 0xb5, 0x66, 0x48, 0x03, 0xf6, 0x0e, 0x61, 0x35, 0x57, 0xb9, 0x86, 0xc1, 0x1d, 0x9e,
     0xe1, 0xf8, 0x98, 0x11, 0x69, 0xd9, 0x8e, 0x94, 0x9b, 0x1e, 0x87, 0xe9, 0xce, 0x55, 0x28, 0xdf,
     0x8c, 0xa1, 0x89, 0x0d, 0xbf, 0xe6, 0x42, 0x68, 0x41, 0x99, 0x2d, 0x0f, 0xb0, 0x54, 0xbb, 0x16]"

definition lookup_g2 :: "zb_uint8_t list" where
  "lookup_g2 =
    [0x00, 0x02, 0x04, 0x06, 0x08, 0x0a, 0x0c, 0x0e, 0x10, 0x12, 0x14, 0x16, 0x18, 0x1a, 0x1c, 0x1e,
     0x20, 0x22, 0x24, 0x26, 0x28, 0x2a, 0x2c, 0x2e, 0x30, 0x32, 0x34, 0x36, 0x38, 0x3a, 0x3c, 0x3e,
     0x40, 0x42, 0x44, 0x46, 0x48, 0x4a, 0x4c, 0x4e, 0x50, 0x52, 0x54, 0x56, 0x58, 0x5a, 0x5c, 0x5e,
     0x60, 0x62, 0x64, 0x66, 0x68, 0x6a, 0x6c, 0x6e, 0x70, 0x72, 0x74, 0x76, 0x78, 0x7a, 0x7c, 0x7e,
     0x80, 0x82, 0x84, 0x86, 0x88, 0x8a, 0x8c, 0x8e, 0x90, 0x92, 0x94, 0x96, 0x98, 0x9a, 0x9c, 0x9e,
     0xa0, 0xa2, 0xa4, 0xa6, 0xa8, 0xaa, 0xac, 0xae, 0xb0, 0xb2, 0xb4, 0xb6, 0xb8, 0xba, 0xbc, 0xbe,
     0xc0, 0xc2, 0xc4, 0xc6, 0xc8, 0xca, 0xcc, 0xce, 0xd0, 0xd2, 0xd4, 0xd6, 0xd8, 0xda, 0xdc, 0xde,
     0xe0, 0xe2, 0xe4, 0xe6, 0xe8, 0xea, 0xec, 0xee, 0xf0, 0xf2, 0xf4, 0xf6, 0xf8, 0xfa, 0xfc, 0xfe,
     0x1b, 0x19, 0x1f, 0x1d, 0x13, 0x11, 0x17, 0x15, 0x0b, 0x09, 0x0f, 0x0d, 0x03, 0x01, 0x07, 0x05,
     0x3b, 0x39, 0x3f, 0x3d, 0x33, 0x31, 0x37, 0x35, 0x2b, 0x29, 0x2f, 0x2d, 0x23, 0x21, 0x27, 0x25,
     0x5b, 0x59, 0x5f, 0x5d, 0x53, 0x51, 0x57, 0x55, 0x4b, 0x49, 0x4f, 0x4d, 0x43, 0x41, 0x47, 0x45,
     0x7b, 0x79, 0x7f, 0x7d, 0x73, 0x71, 0x77, 0x75, 0x6b, 0x69, 0x6f, 0x6d, 0x63, 0x61, 0x67, 0x65,
     0x9b, 0x99, 0x9f, 0x9d, 0x93, 0x91, 0x97, 0x95, 0x8b, 0x89, 0x8f, 0x8d, 0x83, 0x81, 0x87, 0x85,
     0xbb, 0xb9, 0xbf, 0xbd, 0xb3, 0xb1, 0xb7, 0xb5, 0xab, 0xa9, 0xaf, 0xad, 0xa3, 0xa1, 0xa7, 0xa5,
     0xdb, 0xd9, 0xdf, 0xdd, 0xd3, 0xd1, 0xd7, 0xd5, 0xcb, 0xc9, 0xcf, 0xcd, 0xc3, 0xc1, 0xc7, 0xc5,
     0xfb, 0xf9, 0xff, 0xfd, 0xf3, 0xf1, 0xf7, 0xf5, 0xeb, 0xe9, 0xef, 0xed, 0xe3, 0xe1, 0xe7, 0xe5]"

definition lookup_g3 :: "zb_uint8_t list" where
  "lookup_g3 =
    [0x00, 0x03, 0x06, 0x05, 0x0c, 0x0f, 0x0a, 0x09, 0x18, 0x1b, 0x1e, 0x1d, 0x14, 0x17, 0x12, 0x11,
     0x30, 0x33, 0x36, 0x35, 0x3c, 0x3f, 0x3a, 0x39, 0x28, 0x2b, 0x2e, 0x2d, 0x24, 0x27, 0x22, 0x21,
     0x60, 0x63, 0x66, 0x65, 0x6c, 0x6f, 0x6a, 0x69, 0x78, 0x7b, 0x7e, 0x7d, 0x74, 0x77, 0x72, 0x71,
     0x50, 0x53, 0x56, 0x55, 0x5c, 0x5f, 0x5a, 0x59, 0x48, 0x4b, 0x4e, 0x4d, 0x44, 0x47, 0x42, 0x41,
     0xc0, 0xc3, 0xc6, 0xc5, 0xcc, 0xcf, 0xca, 0xc9, 0xd8, 0xdb, 0xde, 0xdd, 0xd4, 0xd7, 0xd2, 0xd1,
     0xf0, 0xf3, 0xf6, 0xf5, 0xfc, 0xff, 0xfa, 0xf9, 0xe8, 0xeb, 0xee, 0xed, 0xe4, 0xe7, 0xe2, 0xe1,
     0xa0, 0xa3, 0xa6, 0xa5, 0xac, 0xaf, 0xaa, 0xa9, 0xb8, 0xbb, 0xbe, 0xbd, 0xb4, 0xb7, 0xb2, 0xb1,
     0x90, 0x93, 0x96, 0x95, 0x9c, 0x9f, 0x9a, 0x99, 0x88, 0x8b, 0x8e, 0x8d, 0x84, 0x87, 0x82, 0x81,
     0x9b, 0x98, 0x9d, 0x9e, 0x97, 0x94, 0x91, 0x92, 0x83, 0x80, 0x85, 0x86, 0x8f, 0x8c, 0x89, 0x8a,
     0xab, 0xa8, 0xad, 0xae, 0xa7, 0xa4, 0xa1, 0xa2, 0xb3, 0xb0, 0xb5, 0xb6, 0xbf, 0xbc, 0xb9, 0xba,
     0xfb, 0xf8, 0xfd, 0xfe, 0xf7, 0xf4, 0xf1, 0xf2, 0xe3, 0xe0, 0xe5, 0xe6, 0xef, 0xec, 0xe9, 0xea,
     0xcb, 0xc8, 0xcd, 0xce, 0xc7, 0xc4, 0xc1, 0xc2, 0xd3, 0xd0, 0xd5, 0xd6, 0xdf, 0xdc, 0xd9, 0xda,
     0x5b, 0x58, 0x5d, 0x5e, 0x57, 0x54, 0x51, 0x52, 0x43, 0x40, 0x45, 0x46, 0x4f, 0x4c, 0x49, 0x4a,
     0x6b, 0x68, 0x6d, 0x6e, 0x67, 0x64, 0x61, 0x62, 0x73, 0x70, 0x75, 0x76, 0x7f, 0x7c, 0x79, 0x7a,
     0x3b, 0x38, 0x3d, 0x3e, 0x37, 0x34, 0x31, 0x32, 0x23, 0x20, 0x25, 0x26, 0x2f, 0x2c, 0x29, 0x2a,
     0x0b, 0x08, 0x0d, 0x0e, 0x07, 0x04, 0x01, 0x02, 0x13, 0x10, 0x15, 0x16, 0x1f, 0x1c, 0x19, 0x1a]"

definition xor_bytes :: "zb_uint8_t list \<Rightarrow> zb_uint8_t list \<Rightarrow> zb_uint8_t list" where
  "xor_bytes a b = map2 (XOR) a b"

definition xor16 :: "zb_uint8_t list \<Rightarrow> zb_uint8_t list \<Rightarrow> zb_uint8_t list" where
  "xor16 v1 v2 = xor_bytes (take 16 v1) (take 16 v2)"

definition xor_round_key :: "zb_uint8_t list \<Rightarrow> zb_uint8_t list \<Rightarrow> nat \<Rightarrow> zb_uint8_t list" where
  "xor_round_key state keys round = xor_bytes state (take 16 (drop (round * 16) keys))"

definition sub_bytes :: "zb_uint8_t list \<Rightarrow> zb_uint8_t list" where
  "sub_bytes a = map (\<lambda>v. lookup_sbox ! unat v) a"

definition key_schedule_core :: "zb_uint8_t list \<Rightarrow> nat \<Rightarrow> zb_uint8_t list" where
  "key_schedule_core a i =
     (let s = sub_bytes [a ! 1, a ! 2, a ! 3, a ! 0] in s[0 := s ! 0 XOR lookup_rcon ! i])"

text \<open>
  \<open>expand_word\<close> appends 4 bytes to the expanded key: \<open>t\<close> combined with the 4 bytes 16 places
  before; one round of the loop appends 16 bytes, and 10 rounds make the 176 bytes.
\<close>

definition expand_word :: "zb_uint8_t list \<Rightarrow> zb_uint8_t list \<Rightarrow> zb_uint8_t list" where
  "expand_word keys t = keys @ xor_bytes t (take 4 (drop (length keys - 16) keys))"

definition last4 :: "zb_uint8_t list \<Rightarrow> zb_uint8_t list" where
  "last4 keys = drop (length keys - 4) keys"

definition expand_round :: "zb_uint8_t list \<Rightarrow> nat \<Rightarrow> zb_uint8_t list" where
  "expand_round keys i =
     (let k1 = expand_word keys (key_schedule_core (last4 keys) i);
          k2 = expand_word k1 (last4 k1);
          k3 = expand_word k2 (last4 k2)
      in expand_word k3 (last4 k3))"

definition expand_key :: "zb_uint8_t list \<Rightarrow> zb_uint8_t list" where
  "expand_key key = foldl expand_round (take 16 key) [1, 2, 3, 4, 5, 6, 7, 8, 9, 10]"

definition shift_rows :: "zb_uint8_t list \<Rightarrow> zb_uint8_t list" where
  "shift_rows state = map (\<lambda>i. state ! i) shift_rows_table"

definition mix_col :: "zb_uint8_t list \<Rightarrow> zb_uint8_t list" where
  "mix_col s =
     (let a0 = s ! 0; a1 = s ! 1; a2 = s ! 2; a3 = s ! 3 in
      [lookup_g2 ! unat a0 XOR lookup_g3 ! unat a1 XOR a2 XOR a3,
       lookup_g2 ! unat a1 XOR lookup_g3 ! unat a2 XOR a3 XOR a0,
       lookup_g2 ! unat a2 XOR lookup_g3 ! unat a3 XOR a0 XOR a1,
       lookup_g2 ! unat a3 XOR lookup_g3 ! unat a0 XOR a1 XOR a2])"

definition mix_cols :: "zb_uint8_t list \<Rightarrow> zb_uint8_t list" where
  "mix_cols s = mix_col s @ mix_col (drop 4 s) @ mix_col (drop 8 s) @ mix_col (drop 12 s)"

definition aes_round :: "zb_uint8_t list \<Rightarrow> zb_uint8_t list \<Rightarrow> nat \<Rightarrow> zb_uint8_t list" where
  "aes_round keys c i = xor_round_key (mix_cols (shift_rows (sub_bytes c))) keys (i + 1)"

definition aes128 :: "zb_uint8_t list \<Rightarrow> zb_uint8_t list \<Rightarrow> zb_uint8_t list" where
  "aes128 key msg =
     (let keys = expand_key key;
          c = xor_round_key (take 16 msg) keys 0;
          c9 = foldl (aes_round keys) c [0, 1, 2, 3, 4, 5, 6, 7, 8]
      in xor_round_key (shift_rows (sub_bytes c9)) keys 10)"

section \<open>CCM*\<close>

definition ZB_CCM_L :: nat where "ZB_CCM_L = 2"

definition ZB_CCM_NONCE_LEN :: nat where "ZB_CCM_NONCE_LEN = 13"

definition ZB_CCM_M :: nat where "ZB_CCM_M = 4"

lemmas ccm_consts = ZB_CCM_L_def ZB_CCM_NONCE_LEN_def ZB_CCM_M_def

text \<open>\<^verbatim>\<open>ZB_HTOBE16\<close> on the little-endian target: the high byte first.\<close>

definition be16 :: "zb_uint16_t \<Rightarrow> zb_uint8_t list" where
  "be16 w = [ucast (drop_bit 8 w), ucast w]"

text \<open>\<^verbatim>\<open>ZB_MEMSET(tmp, 0, 16); ZB_MEMCPY(tmp, p, len)\<close> with \<open>len\<close> below 16.\<close>

definition pad16 :: "zb_uint8_t list \<Rightarrow> zb_uint8_t list" where
  "pad16 p = p @ replicate (16 - length p) 0"

text \<open>
  The loop of \<open>auth_trans\<close> over a string: full blocks, then the rest with zero padding. \<open>E\<close> is
  \<^verbatim>\<open>aes128\<close> with the key.
\<close>

function cbc_loop :: "(zb_uint8_t list \<Rightarrow> zb_uint8_t list) \<Rightarrow> zb_uint8_t list \<Rightarrow> zb_uint8_t list \<Rightarrow> zb_uint8_t list" where
  "cbc_loop E t p =
     (if length p \<ge> 16 then cbc_loop E (E (xor16 t p)) (drop 16 p)
      else if p \<noteq> [] then E (xor16 t (pad16 p)) else t)"
  by pat_completeness auto
termination by (relation "measure (\<lambda>(E, t, p). length p)") auto

declare cbc_loop.simps [simp del]

definition ccm_flags :: "nat \<Rightarrow> zb_uint8_t" where
  "ccm_flags ccm_m = push_bit 6 1 OR of_nat (ZB_CCM_L - 1) OR push_bit 3 (of_nat ((ccm_m - 2) div 2))"

definition ccm_b0 :: "nat \<Rightarrow> zb_uint8_t list \<Rightarrow> nat \<Rightarrow> zb_uint8_t list" where
  "ccm_b0 ccm_m nonce n = ccm_flags ccm_m # take ZB_CCM_NONCE_LEN nonce @ be16 (of_nat n)"

definition auth_trans :: "(zb_uint8_t list \<Rightarrow> zb_uint8_t list) \<Rightarrow> nat \<Rightarrow> zb_uint8_t list \<Rightarrow> zb_uint8_t list
    \<Rightarrow> zb_uint8_t list \<Rightarrow> zb_uint8_t list" where
  "auth_trans E ccm_m nonce string_a string_m =
     (let t0 = E (ccm_b0 ccm_m nonce (length string_m));
          tmp = be16 (of_nat (length string_a)) @
            (if length string_a \<le> 16 - 2 then string_a @ replicate (14 - length string_a) 0
             else take 14 string_a);
          t1 = E (xor16 t0 tmp);
          t2 = cbc_loop E t1 (drop 14 string_a)
      in cbc_loop E t2 string_m)"

definition ccm_ai :: "zb_uint8_t list \<Rightarrow> zb_uint16_t \<Rightarrow> zb_uint8_t list" where
  "ccm_ai nonce i = of_nat (ZB_CCM_L - 1) # take ZB_CCM_NONCE_LEN nonce @ be16 i"

text \<open>
  The encryption loop. The last \<open>xor16\<close> writes 16 bytes behind the encrypted message.
\<close>

function ctr_loop :: "(zb_uint8_t list \<Rightarrow> zb_uint8_t list) \<Rightarrow> zb_uint8_t list \<Rightarrow> zb_uint16_t
    \<Rightarrow> zb_uint8_t list \<Rightarrow> zb_uint8_t list" where
  "ctr_loop E nonce i p =
     (if length p \<ge> 16 then xor16 (E (ccm_ai nonce i)) p @ ctr_loop E nonce (i + 1) (drop 16 p)
      else if p \<noteq> [] then take (length p) (xor16 (E (ccm_ai nonce i)) (pad16 p)) else [])"
  by pat_completeness auto
termination by (relation "measure (\<lambda>(E, nonce, i, p). length p)") auto

declare ctr_loop.simps [simp del]

definition encrypt_trans :: "(zb_uint8_t list \<Rightarrow> zb_uint8_t list) \<Rightarrow> nat \<Rightarrow> zb_uint8_t list \<Rightarrow> zb_uint8_t list
    \<Rightarrow> zb_uint8_t list \<Rightarrow> zb_uint8_t list" where
  "encrypt_trans E ccm_m nonce string_m t =
     ctr_loop E nonce 1 string_m @ xor16 (E (ccm_ai nonce 0)) (pad16 (take ccm_m t))"

text \<open>
  The size is passed as a byte. The ciphertext is written before the authenticated string is
  copied in front of it.
\<close>

definition zb_ccm_encrypt_n_auth :: "zb_uint8_t list \<Rightarrow> zb_uint8_t list \<Rightarrow> zb_uint8_t list \<Rightarrow> zb_uint8_t list
    \<Rightarrow> zb_buf \<Rightarrow> (zb_buf \<times> zb_ret_t) option" where
  "zb_ccm_encrypt_n_auth key nonce string_a string_m crypted_text = do {
     let t = auth_trans (aes128 key) ZB_CCM_M nonce string_a string_m;
     (b, c_text) \<leftarrow> zb_buf_initial_alloc (of_nat (length string_a + length string_m + ZB_CCM_M)) crypted_text;
     m \<leftarrow> blit (b_buf b) (c_text + length string_a) (encrypt_trans (aes128 key) ZB_CCM_M nonce string_m t);
     m' \<leftarrow> blit m (ZB_BUF_BEGIN b) string_a;
     Some (b\<lparr>b_buf := m'\<rparr>, RET_OK) }"

text \<open>A block of bytes read from an array.\<close>

definition aslice :: "'a list \<Rightarrow> nat \<Rightarrow> nat \<Rightarrow> 'a list option" where
  "aslice xs i n = (if i + n \<le> length xs then Some (take n (drop i xs)) else None)"

definition zb_ccm_decrypt_n_auth :: "zb_uint8_t list \<Rightarrow> zb_uint8_t list \<Rightarrow> zb_buf \<Rightarrow> nat \<Rightarrow> nat
    \<Rightarrow> (zb_buf \<times> zb_ret_t) option" where
  "zb_ccm_decrypt_n_auth key nonce b string_a_len string_c_len = do {
     zb_assert (ZB_CCM_M \<le> string_c_len);
     let n = string_c_len - ZB_CCM_M;
     c \<leftarrow> aslice (b_buf b) (ZB_BUF_BEGIN b + string_a_len) n;
     u \<leftarrow> aslice (b_buf b) (ZB_BUF_BEGIN b + string_a_len + n) ZB_CCM_M;
     let decrypted = encrypt_trans (aes128 key) ZB_CCM_M nonce c u;
     zb_assert (length decrypted \<le> ZB_IO_BUF_SIZE);
     a \<leftarrow> aslice (b_buf b) (ZB_BUF_BEGIN b) string_a_len;
     let t = auth_trans (aes128 key) ZB_CCM_M nonce a (take n decrypted);
     let b1 = b\<lparr>b_len := b_len b - of_nat ZB_CCM_M\<rparr>;
     if take ZB_CCM_M (drop n decrypted) = take ZB_CCM_M t then do {
       m \<leftarrow> blit (b_buf b1) (ZB_BUF_BEGIN b1 + string_a_len) (take n decrypted);
       Some (b1\<lparr>b_buf := m\<rparr>, RET_OK) }
     else do {
       m \<leftarrow> blit (b_buf b1) (ZB_BUF_BEGIN b1 + string_a_len) (replicate n 0xeb);
       Some (b1\<lparr>b_buf := m\<rparr>, RET_ERROR) } }"

definition zb_ccm_decrypt_n_auth_stdsecur :: "zb_uint8_t list \<Rightarrow> zb_uint8_t list \<Rightarrow> zb_buf \<Rightarrow> nat \<Rightarrow> nat
    \<Rightarrow> (zb_buf \<times> zb_ret_t) option" where
  "zb_ccm_decrypt_n_auth_stdsecur key nonce b string_a_len string_m_len =
     zb_ccm_decrypt_n_auth key nonce b string_a_len string_m_len"

end
