(* ===== verification/Zb_Aes.thy ===== *)
theory Zb_Aes
  imports Zb_Ccm
begin

text \<open>
  The lookup tables of the AES-128 in \<^verbatim>\<open>secur/secur_ccm.c\<close> against the definitions of FIPS 197:
  multiplication in GF(2^8) modulo x^8 + x^4 + x^3 + x + 1, and the S-box as the multiplicative
  inverse followed by an affine map.
\<close>

definition xtime :: "zb_uint8_t \<Rightarrow> zb_uint8_t" where
  "xtime x = push_bit 1 x XOR (if bit x 7 then 0x1b else 0)"

definition gf_step :: "zb_uint8_t \<Rightarrow> zb_uint8_t \<Rightarrow> nat \<Rightarrow> zb_uint8_t \<Rightarrow> zb_uint8_t" where
  "gf_step x y i acc = (if bit y i then xtime acc XOR x else xtime acc)"

definition gf_mul :: "zb_uint8_t \<Rightarrow> zb_uint8_t \<Rightarrow> zb_uint8_t" where
  "gf_mul x y = gf_step x y 0 (gf_step x y 1 (gf_step x y 2 (gf_step x y 3
     (gf_step x y 4 (gf_step x y 5 (gf_step x y 6 (gf_step x y 7 0)))))))"

definition rotl :: "nat \<Rightarrow> zb_uint8_t \<Rightarrow> zb_uint8_t" where
  "rotl k s = push_bit k s OR drop_bit (8 - k) s"

text \<open>The inverse of the affine map of the S-box.\<close>

definition inv_affine :: "zb_uint8_t \<Rightarrow> zb_uint8_t" where
  "inv_affine s = rotl 1 s XOR rotl 3 s XOR rotl 6 s XOR 0x05"

definition g2_ok :: "zb_uint8_t \<Rightarrow> zb_uint8_t \<Rightarrow> bool" where
  "g2_ok i x \<longleftrightarrow> xtime i = x"

definition g3_ok :: "zb_uint8_t \<Rightarrow> zb_uint8_t \<Rightarrow> bool" where
  "g3_ok i x \<longleftrightarrow> xtime i XOR i = x"

definition sbox_ok :: "zb_uint8_t \<Rightarrow> zb_uint8_t \<Rightarrow> bool" where
  "sbox_ok i x \<longleftrightarrow> (if i = 0 then inv_affine x = 0 else gf_mul i (inv_affine x) = 1)"

lemma tab_all_split:
  "n \<le> length xs \<Longrightarrow> tab_all P xs i \<longleftrightarrow> tab_all P (take n xs) i \<and> tab_all P (drop n xs) (i + word_of_nat n)"
proof (induction xs arbitrary: n i)
  case (Cons x xs)
  show ?case
  proof (cases n)
    case (Suc k)
    have e: "i + word_of_nat (Suc k) = i + 1 + word_of_nat k" by simp
    show ?thesis using Cons.IH [of k "i + 1"] Cons.prems Suc unfolding Suc e by simp
  qed simp
qed simp

lemma g2_all: "tab_all g2_ok lookup_g2 0"
  unfolding lookup_g2_def by (simp add: g2_ok_def xtime_def)

lemma g3_all: "tab_all g3_ok lookup_g3 0"
  unfolding lookup_g3_def by (simp add: g3_ok_def xtime_def)

lemmas sbox_eval = sbox_ok_def xtime_def gf_mul_def gf_step_def inv_affine_def rotl_def

lemma sbox_q1: "tab_all sbox_ok (take 64 lookup_sbox) 0"
  unfolding lookup_sbox_def by (simp add: sbox_eval)

lemma sbox_q2: "tab_all sbox_ok (take 64 (drop 64 lookup_sbox)) 64"
  unfolding lookup_sbox_def by (simp add: sbox_eval)

lemma sbox_q3: "tab_all sbox_ok (take 64 (drop 128 lookup_sbox)) 128"
  unfolding lookup_sbox_def by (simp add: sbox_eval)

lemma sbox_q4: "tab_all sbox_ok (drop 192 lookup_sbox) 192"
  unfolding lookup_sbox_def by (simp add: sbox_eval)

lemma table_lengths: "length lookup_sbox = 256" "length lookup_g2 = 256" "length lookup_g3 = 256"
  by (simp_all add: lookup_sbox_def lookup_g2_def lookup_g3_def)

lemma sbox_all: "tab_all sbox_ok lookup_sbox 0"
proof -
  have "tab_all sbox_ok (drop 128 lookup_sbox) 128"
    using tab_all_split [of 64 "drop 128 lookup_sbox" sbox_ok 128] sbox_q3 sbox_q4 table_lengths by simp
  then have "tab_all sbox_ok (drop 64 lookup_sbox) 64"
    using tab_all_split [of 64 "drop 64 lookup_sbox" sbox_ok 64] sbox_q2 table_lengths by simp
  then show ?thesis
    using tab_all_split [of 64 lookup_sbox sbox_ok 0] sbox_q1 table_lengths by simp
qed

text \<open>
  C25: the tables of the block cipher are the ones of FIPS 197 for every byte: \<open>lookup_g2\<close> and
  \<open>lookup_g3\<close> multiply by 2 and by 3 in GF(2^8), and \<open>lookup_sbox\<close> is the affine map applied to the
  multiplicative inverse (to 0 for 0).
\<close>

theorem aes_tables_correct:
  "lookup_g2 ! unat x = gf_mul x 2 \<and> lookup_g3 ! unat x = gf_mul x 3
   \<and> (if x = 0 then inv_affine (lookup_sbox ! unat x) = 0 else gf_mul x (inv_affine (lookup_sbox ! unat x)) = 1)"
proof -
  have z: "xtime 0 = 0" by (simp add: xtime_def)
  have "gf_mul x 2 = xtime x" "gf_mul x 3 = xtime x XOR x"
    by (simp_all add: gf_mul_def gf_step_def z)
  then show ?thesis
    using tab_all_byte [OF g2_all table_lengths(2), of x] tab_all_byte [OF g3_all table_lengths(3), of x]
      tab_all_byte [OF sbox_all table_lengths(1), of x]
    unfolding g2_ok_def g3_ok_def sbox_ok_def by metis
qed

end
