(* ===== verification/Zb_Ccm_Props.thy ===== *)
theory Zb_Ccm_Props
  imports Zb_Ccm
begin

text \<open>
  What CCM* promises: decryption inverts encryption, a message is accepted exactly when its tag is
  the one of the decrypted text, the authentication loop is CBC-MAC over the formatted data, and
  the lookup tables of AES are the functions of GF(2^8) they stand for. The modes of operation only use that the block cipher
  gives 16 bytes; the locale \<open>block_cipher\<close> says so, and AES-128 is its instance.
\<close>

section \<open>Exclusive or of blocks\<close>

lemma length_xor_bytes [simp]: "length (xor_bytes a b) = min (length a) (length b)"
  by (simp add: xor_bytes_def)

lemma nth_xor_bytes [simp]: "i < length a \<Longrightarrow> i < length b \<Longrightarrow> xor_bytes a b ! i = a ! i XOR b ! i"
  by (simp add: xor_bytes_def)

lemma length_xor16 [simp]: "length a = 16 \<Longrightarrow> 16 \<le> length b \<Longrightarrow> length (xor16 a b) = 16"
  by (simp add: xor16_def)

lemma nth_xor16 [simp]: "length a = 16 \<Longrightarrow> 16 \<le> length b \<Longrightarrow> i < 16 \<Longrightarrow> xor16 a b ! i = a ! i XOR b ! i"
  by (simp add: xor16_def)

lemma xor16_append [simp]: "length b = 16 \<Longrightarrow> xor16 a (b @ c) = xor16 a b"
  by (simp add: xor16_def)

lemma xor16_twice: "length a = 16 \<Longrightarrow> 16 \<le> length b \<Longrightarrow> xor16 a (xor16 a b) = take 16 b"
  by (rule nth_equalityI) simp_all

lemma length_pad16 [simp]: "length p \<le> 16 \<Longrightarrow> length (pad16 p) = 16"
  by (simp add: pad16_def)

lemma pad16_nth [simp]: "i < length p \<Longrightarrow> pad16 p ! i = p ! i"
  by (simp add: pad16_def nth_append)

lemma xor16_pad_twice:
  "length a = 16 \<Longrightarrow> length p \<le> 16 \<Longrightarrow> n \<le> length p \<Longrightarrow>
   take n (xor16 a (pad16 (take n (xor16 a (pad16 p))))) = take n p"
  by (rule nth_equalityI) simp_all

section \<open>The modes of operation\<close>

locale block_cipher =
  fixes E :: "zb_uint8_t list \<Rightarrow> zb_uint8_t list \<Rightarrow> zb_uint8_t list" and key_ok :: "zb_uint8_t list \<Rightarrow> bool"
  assumes length_E: "key_ok k \<Longrightarrow> length (E k x) = 16"
begin

lemma length_ctr: "key_ok k \<Longrightarrow> length (ctr_loop (E k) nonce i p) = length p"
proof (induction p arbitrary: i rule: length_induct)
  case (1 p)
  show ?case
  proof (cases "16 \<le> length p")
    case True
    moreover have "length (drop 16 p) < length p" using True by simp
    ultimately show ?thesis using 1 length_E by (subst ctr_loop.simps) simp
  next
    case False
    then show ?thesis using 1 length_E by (subst ctr_loop.simps) simp
  qed
qed

lemma ctr_twice: "key_ok k \<Longrightarrow> ctr_loop (E k) nonce i (ctr_loop (E k) nonce i p) = p"
proof (induction p arbitrary: i rule: length_induct)
  case (1 p)
  show ?case
  proof (cases "16 \<le> length p")
    case True
    then have "length (drop 16 p) < length p" by simp
    then have "ctr_loop (E k) nonce (i + 1) (ctr_loop (E k) nonce (i + 1) (drop 16 p)) = drop 16 p" using 1 by blast
    moreover have "ctr_loop (E k) nonce i p
        = xor16 (E k (ccm_ai nonce i)) p @ ctr_loop (E k) nonce (i + 1) (drop 16 p)"
      using True by (subst ctr_loop.simps) simp
    ultimately show ?thesis using True 1(2) length_E
      by (simp add: ctr_loop.simps [of _ _ _ "xor16 _ _ @ _"] xor16_twice)
  next
    case False
    define q where "q = take (length p) (xor16 (E k (ccm_ai nonce i)) (pad16 p))"
    have c: "ctr_loop (E k) nonce i p = q" using False by (subst ctr_loop.simps) (auto simp: q_def)
    have "length q = length p" using False 1(2) length_E by (simp add: q_def)
    then have "ctr_loop (E k) nonce i q = take (length p) (xor16 (E k (ccm_ai nonce i)) (pad16 q))"
      using False by (subst ctr_loop.simps) auto
    also have "\<dots> = p" unfolding q_def using False 1(2) length_E by (subst xor16_pad_twice) simp_all
    finally show ?thesis using c by simp
  qed
qed

lemma length_encrypt: "key_ok k \<Longrightarrow> m \<le> 16 \<Longrightarrow> length (encrypt_trans (E k) m nonce p t) = length p + 16"
  by (simp add: encrypt_trans_def length_ctr length_E)

text \<open>Encrypting the ciphertext and the encrypted tag gives the message and the tag back.\<close>

lemma encrypt_twice:
  assumes "key_ok k" "length t = 16" "m \<le> 16"
  shows "\<exists>r. encrypt_trans (E k) m nonce (take (length p) (encrypt_trans (E k) m nonce p t))
      (take m (drop (length p) (encrypt_trans (E k) m nonce p t))) = p @ r \<and> take m r = take m t"
proof -
  let ?s = "E k (ccm_ai nonce 0)"
  have "length ?s = 16" using assms length_E by blast
  then show ?thesis using assms xor16_pad_twice [of ?s "take m t" m]
    by (simp add: encrypt_trans_def length_ctr ctr_twice)
qed

end

lemma length_foldl_expand:
  "16 \<le> length keys \<Longrightarrow> length (foldl expand_round keys is) = length keys + 16 * length is"
proof (induction "is" arbitrary: keys)
  case (Cons i "is")
  have w: "length (expand_word ks t) = length ks + 4" if "16 \<le> length ks" "length t = 4" for ks t
    using that by (simp add: expand_word_def)
  have l: "length (last4 ks) = 4" if "16 \<le> length ks" for ks using that by (simp add: last4_def)
  have "length (expand_round keys i) = length keys + 16"
    using Cons.prems by (simp add: expand_round_def Let_def w l key_schedule_core_def sub_bytes_def)
  with Cons show ?case by simp
qed simp

lemma length_aes128:
  assumes "length key = 16" shows "length (aes128 key x) = 16"
proof -
  have "length (foldl expand_round key [1, 2, 3, 4, 5, 6, 7, 8, 9, 10]) = 16 + 16 * length [1, 2, 3, 4, 5, 6, 7, 8, 9, 10::nat]"
    using length_foldl_expand [of key "[1, 2, 3, 4, 5, 6, 7, 8, 9, 10]"] assms by (simp only: order_refl)
  then have "length (expand_key key) = 176" unfolding expand_key_def using assms by (simp only: take_all order_refl) simp
  then show ?thesis by (simp add: aes128_def Let_def xor_round_key_def shift_rows_def shift_rows_table_def)
qed

interpretation aes: block_cipher aes128 "\<lambda>k. length k = 16"
  by unfold_locales (rule length_aes128)

lemma length_cbc:
  assumes "length key = 16" "length t = 16" shows "length (cbc_loop (aes128 key) t q) = 16"
  using assms(2)
proof (induction q arbitrary: t rule: length_induct)
  case (1 q)
  then show ?case using length_aes128 [OF assms(1)] by (subst cbc_loop.simps) auto
qed

section \<open>Decryption\<close>

text \<open>The data of a buffer as the bytes at a place of its array.\<close>

lemma aslice_data:
  assumes "buf_wf b" "buf_data b = xs @ ys @ zs"
  shows "aslice (b_buf b) (ZB_BUF_BEGIN b + length xs) (length ys) = Some ys"
proof -
  have l: "length (xs @ ys @ zs) = unat (b_len b)" using length_buf_data [OF assms(1)] assms(2) by simp
  have r: "take (length ys) (drop (length xs) (buf_data b)) = ys" using assms(2) by simp
  have h: "length xs + length ys \<le> unat (b_len b)" using l by simp
  then have "min (length ys) (unat (b_len b) - length xs) = length ys" by simp
  with r assms(1) h show ?thesis
    by (simp add: aslice_def buf_data_def buf_wf_def ZB_BUF_BEGIN_def drop_take add.commute)
qed

lemma blit_data:
  assumes "buf_wf b" "buf_data b = xs @ ys @ zs" "length ys' = length ys" "length zs = unat k"
  shows "\<exists>m. blit (b_buf b) (ZB_BUF_BEGIN b + length xs) ys' = Some m
    \<and> buf_wf (b\<lparr>b_len := b_len b - k, b_buf := m\<rparr>) \<and> buf_data (b\<lparr>b_len := b_len b - k, b_buf := m\<rparr>) = xs @ ys'"
proof -
  let ?o = "unat (b_data_offset b)"
  have l: "length (xs @ ys @ zs) = unat (b_len b)" using length_buf_data [OF assms(1)] assms(2) by simp
  have w: "length (b_buf b) = 148" "?o + unat (b_len b) \<le> 148"
    using assms(1) by (simp_all add: buf_wf_def ZB_IO_BUF_SIZE_def)
  have n: "unat (b_len b - k) = length xs + length ys" using l assms(4) by (simp add: unat8_sub)
  define m where "m = take (?o + length xs) (b_buf b) @ ys' @ drop (?o + length xs + length ys') (b_buf b)"
  have b: "blit (b_buf b) (ZB_BUF_BEGIN b + length xs) ys' = Some m"
    using w l assms(3) by (simp add: blit_def m_def ZB_BUF_BEGIN_def)
  have xs: "take (length xs) (drop ?o (b_buf b)) = xs"
  proof -
    have "take (length xs) (buf_data b) = xs" using assms(2) by simp
    then show ?thesis using l by (simp add: buf_data_def min_def)
  qed
  have "take (length xs + length ys) (drop ?o m) = xs @ ys'"
    using w l assms(3) xs by (simp add: m_def drop_take min_def)
  moreover have "length m = 148" using blit_length [OF b] w by simp
  ultimately show ?thesis using b n w l by (simp add: buf_wf_def buf_data_def ZB_IO_BUF_SIZE_def)
qed

text \<open>The decrypted text, and the condition to accept it.\<close>

definition ccm_plain :: "zb_uint8_t list \<Rightarrow> zb_uint8_t list \<Rightarrow> zb_uint8_t list \<Rightarrow> zb_uint8_t list" where
  "ccm_plain key nonce c = ctr_loop (aes128 key) nonce 1 c"

definition ccm_tag_ok :: "zb_uint8_t list \<Rightarrow> zb_uint8_t list \<Rightarrow> zb_uint8_t list \<Rightarrow> zb_uint8_t list
    \<Rightarrow> zb_uint8_t list \<Rightarrow> bool" where
  "ccm_tag_ok key nonce a c u \<longleftrightarrow> take 4 (xor16 (aes128 key (ccm_ai nonce 0)) (pad16 u))
     = take 4 (auth_trans (aes128 key) 4 nonce a (ccm_plain key nonce c))"

lemma aes_decrypt:
  assumes wf: "buf_wf b" and d: "buf_data b = a @ c @ u" and u: "length u = 4" and key: "length key = 16"
    and n: "length c \<le> 132"
  shows "\<exists>b'. zb_ccm_decrypt_n_auth key nonce b (length a) (length c + 4)
      = Some (b', if ccm_tag_ok key nonce a c u then RET_OK else RET_ERROR) \<and> buf_wf b'
    \<and> buf_data b' = a @ (if ccm_tag_ok key nonce a c u then ccm_plain key nonce c
        else replicate (length c) 0xeb)"
proof -
  define plain where "plain = ccm_plain key nonce c"
  define ok where "ok = ccm_tag_ok key nonce a c u"
  have lp: "length plain = length c" using key by (simp add: plain_def ccm_plain_def aes.length_ctr)
  define x where "x = xor16 (aes128 key (ccm_ai nonce 0)) (pad16 u)"
  have enc: "encrypt_trans (aes128 key) 4 nonce c u = plain @ x" using u by (simp add: encrypt_trans_def plain_def ccm_plain_def x_def)
  have lx: "length x = 16" using u key by (simp add: x_def length_aes128)
  have ra: "aslice (b_buf b) (ZB_BUF_BEGIN b) (length a) = Some a"
    using aslice_data [OF wf, of "[]" a "c @ u"] d by simp
  have rc: "aslice (b_buf b) (ZB_BUF_BEGIN b + length a) (length c) = Some c" using aslice_data [OF wf d] .
  have ru: "aslice (b_buf b) (ZB_BUF_BEGIN b + length a + length c) 4 = Some u"
    using aslice_data [OF wf, of "a @ c" u "[]"] d u by (simp add: add.assoc)
  have u': "length u = unat (4 :: 8 word)" using u by simp
  obtain m1 m2 where m: "blit (b_buf b) (ZB_BUF_BEGIN b + length a) plain = Some m1"
      "buf_wf (b\<lparr>b_len := b_len b - 4, b_buf := m1\<rparr>)" "buf_data (b\<lparr>b_len := b_len b - 4, b_buf := m1\<rparr>) = a @ plain"
      "blit (b_buf b) (ZB_BUF_BEGIN b + length a) (replicate (length c) 0xeb) = Some m2"
      "buf_wf (b\<lparr>b_len := b_len b - 4, b_buf := m2\<rparr>)"
      "buf_data (b\<lparr>b_len := b_len b - 4, b_buf := m2\<rparr>) = a @ replicate (length c) 0xeb"
    using blit_data [OF wf d lp u'] blit_data [OF wf d _ u', of "replicate (length c) 0xeb"] by auto
  have t: "take 4 (drop (length c) (plain @ x)) = take 4 x" "take (length c) (plain @ x) = plain" using lp by simp_all
  have beg: "ZB_BUF_BEGIN (b\<lparr>b_len := l\<rparr>) = ZB_BUF_BEGIN b" for l by (simp add: ZB_BUF_BEGIN_def)
  have okx: "ok \<longleftrightarrow> take 4 x = take 4 (auth_trans (aes128 key) 4 nonce a plain)" by (simp add: ok_def ccm_tag_ok_def plain_def x_def)
  have "zb_ccm_decrypt_n_auth key nonce b (length a) (length c + 4)
      = (if ok then Some (b\<lparr>b_len := b_len b - 4, b_buf := m1\<rparr>, RET_OK)
         else Some (b\<lparr>b_len := b_len b - 4, b_buf := m2\<rparr>, RET_ERROR))"
    using n lp lx m(1,4) ra rc ru
    by (simp add: zb_ccm_decrypt_n_auth_def Let_def enc beg okx ZB_CCM_M_def ZB_IO_BUF_SIZE_def del: append_take_drop_id)
  then show ?thesis using m by (auto simp: ok_def plain_def)
qed

text \<open>
  C20: \<open>zb_ccm_decrypt_n_auth\<close> on a buffer that holds the authenticated string, the ciphertext and
  the 4-byte encrypted tag accepts exactly when the decrypted tag is the first 4 bytes of the tag
  computed over the authenticated string and the decrypted text; then the payload becomes the
  string and the decrypted text. Otherwise it returns \<open>RET_ERROR\<close> and the text is overwritten with
  0xeb, so that nothing of it is visible. In both cases the tag is cut off.
\<close>

theorem zb_ccm_decrypt_n_auth_accepts:
  assumes wf: "buf_wf b" and d: "buf_data b = a @ c @ u" and u: "length u = 4" and key: "length key = 16"
    and n: "length c \<le> 132"
  shows "\<exists>b'. zb_ccm_decrypt_n_auth key nonce b (length a) (length c + 4)
      = Some (b', if ccm_tag_ok key nonce a c u then RET_OK else RET_ERROR) \<and> buf_wf b'
    \<and> buf_data b' = a @ (if ccm_tag_ok key nonce a c u then ccm_plain key nonce c
        else replicate (length c) 0xeb)"
  by (rule aes_decrypt [OF assms])

section \<open>Encryption\<close>

lemma zb_ccm_encrypt_spec:
  assumes l: "length (b_buf b) = 148" and key: "length key = 16" and n: "length a + length m \<le> 121"
  shows "\<exists>b'. zb_ccm_encrypt_n_auth key nonce a m b = Some (b', RET_OK) \<and> buf_wf b'
    \<and> buf_data b' = a @ take (length m + 4) (encrypt_trans (aes128 key) 4 nonce m (auth_trans (aes128 key) 4 nonce a m))"
proof -
  define e where "e = encrypt_trans (aes128 key) 4 nonce m (auth_trans (aes128 key) 4 nonce a m)"
  have le: "length e = length m + 16" using key by (simp add: e_def aes.length_encrypt)
  let ?sz = "of_nat (length a + length m + 4) :: 8 word"
  have sz: "unat ?sz = length a + length m + 4" using n by (intro unat8_of_nat) simp
  define o1 where "o1 = (148 - (length a + length m + 4)) div 2"
  define b1 where "b1 = (buf_bzero_hdr b)\<lparr>b_is_in_buf := b_is_in_buf b, b_len := ?sz, b_data_offset := of_nat o1\<rparr>"
  have o: "unat (of_nat o1 :: 8 word) = o1" "o1 + length a + length m + 16 \<le> 148"
    using n by (auto simp: o1_def intro!: unat8_of_nat)
  have beg: "ZB_BUF_BEGIN b1 = o1" using o by (simp add: b1_def ZB_BUF_BEGIN_def)
  have al: "zb_buf_initial_alloc ?sz b = Some (b1, o1)"
    using n sz beg by (simp add: zb_buf_initial_alloc_def Let_def ZB_IO_BUF_SIZE_def b1_def o1_def)
  have bb: "b_buf b1 = b_buf b" by (simp add: b1_def buf_bzero_hdr_def)
  define m1 where "m1 = take (o1 + length a) (b_buf b) @ e @ drop (o1 + length a + length e) (b_buf b)"
  define m2 where "m2 = take o1 m1 @ a @ drop (o1 + length a) m1"
  have w1: "blit (b_buf b1) (o1 + length a) e = Some m1" using l le o bb by (simp add: blit_def m1_def)
  have l1: "length m1 = 148" using blit_length [OF w1] bb l by simp
  have w2: "blit m1 o1 a = Some m2" using l1 o by (simp add: blit_def m2_def)
  have l2: "length m2 = 148" using blit_length [OF w2] l1 by simp
  have "drop (o1 + length a) m1 = e @ drop (o1 + length a + length e) (b_buf b)"
    using l o by (simp add: m1_def)
  then have "take (length a + length m + 4) (drop o1 m2) = a @ take (length m + 4) e"
    using l1 o le by (simp add: m2_def)
  then have "buf_data (b1\<lparr>b_buf := m2\<rparr>) = a @ take (length m + 4) e"
    using sz o by (simp add: buf_data_def b1_def)
  moreover have "buf_wf (b1\<lparr>b_buf := m2\<rparr>)"
    using l2 sz o by (simp add: buf_wf_def b1_def ZB_IO_BUF_SIZE_def)
  moreover have "zb_ccm_encrypt_n_auth key nonce a m b = Some (b1\<lparr>b_buf := m2\<rparr>, RET_OK)"
    using al w1 w2 beg by (simp add: zb_ccm_encrypt_n_auth_def ZB_CCM_M_def e_def Let_def)
  ultimately show ?thesis by (auto simp: e_def)
qed

text \<open>The ciphertext and the encrypted tag; what encryption makes, decryption of any buffer that holds it opens.\<close>

definition ccm_cipher :: "zb_uint8_t list \<Rightarrow> zb_uint8_t list \<Rightarrow> zb_uint8_t list \<Rightarrow> zb_uint8_t list" where
  "ccm_cipher key nonce m = ctr_loop (aes128 key) nonce 1 m"

definition ccm_mic :: "zb_uint8_t list \<Rightarrow> zb_uint8_t list \<Rightarrow> zb_uint8_t list \<Rightarrow> zb_uint8_t list \<Rightarrow> zb_uint8_t list" where
  "ccm_mic key nonce a m =
     take 4 (xor16 (aes128 key (ccm_ai nonce 0)) (pad16 (take 4 (auth_trans (aes128 key) 4 nonce a m))))"

lemma length_ccm_cipher [simp]: "length key = 16 \<Longrightarrow> length (ccm_cipher key nonce m) = length m"
  by (simp add: ccm_cipher_def aes.length_ctr)

lemma length_ccm_mic [simp]: "length key = 16 \<Longrightarrow> length (ccm_mic key nonce a m) = 4"
  by (simp add: ccm_mic_def length_aes128)

lemma ccm_seal:
  assumes "length (b_buf b) = 148" "length key = 16" "length a + length m \<le> 121"
  shows "\<exists>b1. zb_ccm_encrypt_n_auth key nonce a m b = Some (b1, RET_OK) \<and> buf_wf b1
    \<and> buf_data b1 = a @ ccm_cipher key nonce m @ ccm_mic key nonce a m"
proof -
  have "take (length m + 4) (encrypt_trans (aes128 key) 4 nonce m (auth_trans (aes128 key) 4 nonce a m))
      = ccm_cipher key nonce m @ ccm_mic key nonce a m"
    using length_ccm_cipher [OF assms(2), of nonce m] by (simp add: encrypt_trans_def ccm_cipher_def ccm_mic_def)
  then show ?thesis using zb_ccm_encrypt_spec [OF assms, of nonce] by simp
qed

lemma ccm_open:
  assumes wf: "buf_wf b" and d: "buf_data b = a @ ccm_cipher key nonce m @ ccm_mic key nonce a m"
    and key: "length key = 16" and n: "length m \<le> 132"
  shows "\<exists>b2. zb_ccm_decrypt_n_auth key nonce b (length a) (length m + 4) = Some (b2, RET_OK) \<and> buf_wf b2
    \<and> buf_data b2 = a @ m"
proof -
  let ?t = "auth_trans (aes128 key) 4 nonce a m" and ?s = "aes128 key (ccm_ai nonce 0)"
  have p: "ccm_plain key nonce (ccm_cipher key nonce m) = m"
    using key by (simp add: ccm_plain_def ccm_cipher_def aes.ctr_twice)
  have lt: "length ?t = 16"
    using length_aes128 [OF key] length_cbc [OF key] by (simp add: auth_trans_def Let_def)
  have "take 4 (xor16 ?s (pad16 (ccm_mic key nonce a m))) = take 4 ?t"
    using xor16_pad_twice [of ?s "take 4 ?t" 4] lt length_aes128 [OF key] by (simp add: ccm_mic_def)
  then have "ccm_tag_ok key nonce a (ccm_cipher key nonce m) (ccm_mic key nonce a m)" by (simp add: ccm_tag_ok_def p)
  then show ?thesis using aes_decrypt [OF wf d _ key, of nonce] n key p by auto
qed

text \<open>
  C24: CCM* decryption inverts encryption: for every key of 16 bytes, nonce, string to be
  authenticated and message that fit in a buffer together (121 bytes: the code writes 12 bytes
  more than the tag needs), the buffer that \<open>zb_ccm_encrypt_n_auth\<close> makes is accepted by
  \<open>zb_ccm_decrypt_n_auth\<close>, and the payload is the string followed by the message.
\<close>

theorem zb_ccm_roundtrip:
  assumes l: "length (b_buf b) = 148" and key: "length key = 16" and n: "length a + length m \<le> 121"
  shows "\<exists>b1 b2. zb_ccm_encrypt_n_auth key nonce a m b = Some (b1, RET_OK)
    \<and> zb_ccm_decrypt_n_auth_stdsecur key nonce b1 (length a) (length m + 4) = Some (b2, RET_OK)
    \<and> buf_data b2 = a @ m"
proof -
  obtain b1 where b1: "zb_ccm_encrypt_n_auth key nonce a m b = Some (b1, RET_OK)" "buf_wf b1"
    "buf_data b1 = a @ ccm_cipher key nonce m @ ccm_mic key nonce a m" using ccm_seal [OF assms] by blast
  from ccm_open [OF this(2,3) key] n show ?thesis
    using b1(1) by (auto simp: zb_ccm_decrypt_n_auth_stdsecur_def)
qed

definition ccm_demo_key :: "zb_uint8_t list" where
  "ccm_demo_key = replicate 16 0"

theorem zb_ccm_roundtrip_witness:
  "\<exists>b1 b2. zb_ccm_encrypt_n_auth ccm_demo_key [] [1, 2] [3, 4, 5] demo_buf = Some (b1, RET_OK)
    \<and> zb_ccm_decrypt_n_auth_stdsecur ccm_demo_key [] b1 2 7 = Some (b2, RET_OK)
    \<and> buf_data b2 = [1, 2, 3, 4, 5]"
  using zb_ccm_roundtrip [of demo_buf ccm_demo_key "[1, 2]" "[3, 4, 5]" "[]"]
  by (simp add: demo_buf_def ccm_demo_key_def numeral_2_eq_2)

theorem zb_ccm_decrypt_n_auth_accepts_witness:
  "\<exists>b' ret. zb_ccm_decrypt_n_auth ccm_demo_key [] demo_buf 0 5 = Some (b', ret) \<and> buf_wf b'"
proof -
  have "buf_data demo_buf = [] @ [7] @ [7, 7, 7, 7]" using demo_buf_facts(3) by (simp add: numeral_eq_Suc)
  from zb_ccm_decrypt_n_auth_accepts [OF demo_buf_facts(1) this, of ccm_demo_key "[]"]
  show ?thesis by (auto simp: ccm_demo_key_def)
qed

section \<open>CBC-MAC\<close>

text \<open>The authentication transformation as the standard writes it (A.2.1 and A.2.2).\<close>

definition pad_zero :: "zb_uint8_t list \<Rightarrow> zb_uint8_t list" where
  "pad_zero p = p @ replicate ((16 - length p mod 16) mod 16) 0"

function blocks :: "'a list \<Rightarrow> 'a list list" where
  "blocks xs = (if xs = [] then [] else take 16 xs # blocks (drop 16 xs))"
  by pat_completeness auto
termination by (relation "measure length") auto

declare blocks.simps [simp del]

definition cbc_mac :: "(zb_uint8_t list \<Rightarrow> zb_uint8_t list) \<Rightarrow> zb_uint8_t list \<Rightarrow> zb_uint8_t list" where
  "cbc_mac E xs = foldl (\<lambda>t b. E (xor_bytes t b)) (replicate 16 0) (blocks xs)"

definition auth_data :: "nat \<Rightarrow> zb_uint8_t list \<Rightarrow> zb_uint8_t list \<Rightarrow> zb_uint8_t list \<Rightarrow> zb_uint8_t list" where
  "auth_data ccm_m nonce a m = ccm_b0 ccm_m nonce (length m)
     @ (if a = [] then [] else pad_zero (be16 (of_nat (length a)) @ a)) @ pad_zero m"

lemma blocks_step: "length b = 16 \<Longrightarrow> blocks (b @ xs) = b # blocks xs"
  by (subst blocks.simps) auto

lemma blocks_append: "length xs mod 16 = 0 \<Longrightarrow> blocks (xs @ ys) = blocks xs @ blocks ys"
proof (induction xs rule: blocks.induct)
  case (1 xs)
  show ?case
  proof (cases "xs = []")
    case True
    then show ?thesis by (simp add: blocks.simps [of "[]"])
  next
    case False
    then have l: "16 \<le> length xs" using 1(2) by (cases "length xs < 16") auto
    then have IH: "blocks (drop 16 xs @ ys) = blocks (drop 16 xs) @ blocks ys"
      using 1 False le_mod_geq [OF l] by simp
    obtain b zs where xs: "xs = b @ zs" "length b = 16" "drop 16 xs = zs"
      using l that [of "take 16 xs" "drop 16 xs"] by simp
    have "blocks (b @ zs @ ys) = b # blocks (zs @ ys)" "blocks (b @ zs) = b # blocks zs"
      using blocks_step [OF xs(2)] by blast+
    then show ?thesis using IH xs by simp
  qed
qed

lemma pad_zero_ge:
  assumes "16 \<le> length p" shows "pad_zero p = take 16 p @ pad_zero (drop 16 p)"
  using le_mod_geq [OF assms] unfolding pad_zero_def append_assoc [symmetric] by simp

lemma pad_zero_lt: "0 < length p \<Longrightarrow> length p < 16 \<Longrightarrow> pad_zero p = pad16 p"
  by (simp add: pad_zero_def pad16_def)

lemma length_pad_zero: "length (pad_zero p) mod 16 = 0"
proof -
  have "(n + (16 - n mod 16) mod 16) mod 16 = 0" for n :: nat
  proof -
    have "n mod 16 \<le> 16" using mod_less_divisor [of 16 n] by linarith
    then have "n mod 16 + (16 - n mod 16) = 16" by (rule le_add_diff_inverse)
    then have "(n mod 16 + (16 - n mod 16)) mod 16 = 0" by (simp only: mod_self)
    then show ?thesis by (simp only: mod_add_left_eq mod_add_right_eq)
  qed
  then show ?thesis unfolding pad_zero_def by (simp only: length_append length_replicate)
qed

context block_cipher
begin

lemma cbc_loop_blocks:
  assumes "key_ok k" "length t = 16"
  shows "cbc_loop (E k) t p = foldl (\<lambda>t b. E k (xor_bytes t b)) t (blocks (pad_zero p))"
  using assms(2)
proof (induction p arbitrary: t rule: length_induct)
  case (1 p)
  show ?case
  proof (cases "16 \<le> length p")
    case True
    then have "length (drop 16 p) < length p" by simp
    then have "cbc_loop (E k) (E k (xor16 t p)) (drop 16 p)
        = foldl (\<lambda>t b. E k (xor_bytes t b)) (E k (xor16 t p)) (blocks (pad_zero (drop 16 p)))"
      using 1(1) length_E [OF assms(1)] by blast
    moreover have "blocks (pad_zero p) = take 16 p # blocks (pad_zero (drop 16 p))"
      using True by (simp add: pad_zero_ge blocks_step)
    ultimately show ?thesis using True 1(2) by (subst cbc_loop.simps) (simp add: xor16_def)
  next
    case False
    show ?thesis
    proof (cases "p = []")
      case True
      then show ?thesis by (subst cbc_loop.simps) (simp add: pad_zero_def blocks.simps [of "[]"])
    next
      case nonempty: False
      then have "blocks (pad_zero p) = [pad16 p]"
        using False blocks_step [of "pad16 p" "[]"] by (simp add: pad_zero_lt blocks.simps [of "[]"])
      then show ?thesis using False nonempty 1(2) by (subst cbc_loop.simps) (simp add: xor16_def)
    qed
  qed
qed

end

text \<open>
  the authentication loop of the code, which never builds the padded string, computes the
  CBC-MAC of the formatted authentication data: the flags, nonce and message length, the length of
  the authenticated string and the string, padded, and the message, padded.
\<close>

theorem auth_trans_is_cbc_mac:
  assumes key: "length key = 16" and nonce: "length nonce = 13" and a: "a \<noteq> []"
  shows "auth_trans (aes128 key) 4 nonce a m = cbc_mac (aes128 key) (auth_data 4 nonce a m)"
proof -
  let ?E = "aes128 key" and ?b0 = "ccm_b0 4 nonce (length m)"
  let ?q = "be16 (of_nat (length a)) @ a"
  define t0 where "t0 = ?E ?b0"
  have lE: "length (?E x) = 16" for x by (rule length_aes128 [OF key])
  have lb: "length ?b0 = 16" using nonce by (simp add: ccm_b0_def ZB_CCM_NONCE_LEN_def be16_def)
  have z: "xor_bytes (replicate 16 0) ?b0 = ?b0" using lb by (intro nth_equalityI) simp_all
  have bl: "blocks (auth_data 4 nonce a m) = ?b0 # blocks (pad_zero ?q) @ blocks (pad_zero m)"
    using a blocks_step [OF lb] blocks_append [OF length_pad_zero] by (simp add: auth_data_def)
  let ?tmp = "be16 (of_nat (length a)) @
      (if length a \<le> 16 - 2 then a @ replicate (14 - length a) 0 else take 14 a)"
  have q: "cbc_loop ?E t0 ?q = cbc_loop ?E (?E (xor16 t0 ?tmp)) (drop 14 a)"
  proof (cases "length a < 14")
    case True
    then have "cbc_loop ?E t0 ?q = ?E (xor16 t0 (pad16 ?q))" by (subst cbc_loop.simps) (simp add: be16_def)
    moreover have "pad16 ?q = ?tmp" using True by (simp add: pad16_def be16_def)
    moreover have "cbc_loop ?E t (drop 14 a) = t" for t using True by (subst cbc_loop.simps) simp
    ultimately show ?thesis by simp
  next
    case False
    then have "cbc_loop ?E t0 ?q = cbc_loop ?E (?E (xor16 t0 ?q)) (drop 14 a)"
      by (subst cbc_loop.simps) (simp add: be16_def)
    moreover have "xor16 t0 ?q = xor16 t0 ?tmp" using False by (simp add: xor16_def be16_def)
    ultimately show ?thesis by simp
  qed
  have "cbc_mac ?E (auth_data 4 nonce a m)
      = foldl (\<lambda>t b. ?E (xor_bytes t b)) (foldl (\<lambda>t b. ?E (xor_bytes t b)) t0 (blocks (pad_zero ?q))) (blocks (pad_zero m))"
    unfolding cbc_mac_def bl t0_def using z by simp
  also have "foldl (\<lambda>t b. ?E (xor_bytes t b)) t0 (blocks (pad_zero ?q)) = cbc_loop ?E t0 ?q"
    using aes.cbc_loop_blocks [OF key] lE by (simp add: t0_def)
  also have "\<dots> = cbc_loop ?E (?E (xor16 t0 ?tmp)) (drop 14 a)" by (rule q)
  also have "foldl (\<lambda>t b. ?E (xor_bytes t b)) \<dots> (blocks (pad_zero m)) = cbc_loop ?E \<dots> m"
  proof -
    have "length (cbc_loop ?E (?E (xor16 t0 ?tmp)) (drop 14 a)) = 16"
      by (rule length_cbc [OF key]) (rule lE)
    from aes.cbc_loop_blocks [OF key this] show ?thesis by simp
  qed
  finally show ?thesis by (simp add: auth_trans_def Let_def t0_def)
qed

theorem auth_trans_is_cbc_mac_witness:
  "auth_trans (aes128 ccm_demo_key) 4 (replicate 13 1) [1, 2] [3]
   = cbc_mac (aes128 ccm_demo_key) (auth_data 4 (replicate 13 1) [1, 2] [3])"
  by (rule auth_trans_is_cbc_mac) (simp_all add: ccm_demo_key_def)

end
