(* ===== verification/Zb_Bytes.thy ===== *)
theory Zb_Bytes
  imports Zb_Prelude
begin

text \<open>
  Packets as lists of bytes: the little-endian conversions of \<^verbatim>\<open>include/zb_types.h\<close> on the
  little-endian host, and checked reads at an offset, \<open>None\<close> being a read behind the end.
\<close>

section \<open>Little endian\<close>

definition htole16 :: "zb_uint16_t \<Rightarrow> zb_uint8_t list" where
  "htole16 v = [ucast v, ucast (drop_bit 8 v)]"

definition letoh16 :: "zb_uint8_t \<Rightarrow> zb_uint8_t \<Rightarrow> zb_uint16_t" where
  "letoh16 a b = ucast a OR push_bit 8 (ucast b)"

definition htole32 :: "zb_uint32_t \<Rightarrow> zb_uint8_t list" where
  "htole32 v = [ucast v, ucast (drop_bit 8 v), ucast (drop_bit 16 v), ucast (drop_bit 24 v)]"

definition letoh32 :: "zb_uint8_t \<Rightarrow> zb_uint8_t \<Rightarrow> zb_uint8_t \<Rightarrow> zb_uint8_t \<Rightarrow> zb_uint32_t" where
  "letoh32 a b c d = ucast a OR push_bit 8 (ucast b) OR push_bit 16 (ucast c) OR push_bit 24 (ucast d)"

lemma letoh16_bytes [simp]: "letoh16 (ucast v) (ucast (drop_bit 8 v)) = v"
  by (rule bit_word_eqI) (auto simp: letoh16_def bit_simps)

lemma letoh16_low [simp]: "ucast (letoh16 a b) = a"
  by (rule bit_word_eqI) (auto simp: letoh16_def bit_simps)

lemma letoh16_high [simp]: "ucast (drop_bit 8 (letoh16 a b)) = b"
  by (rule bit_word_eqI) (auto simp: letoh16_def bit_simps dest: bit_imp_le_length)

lemma htole16_letoh16 [simp]: "htole16 (letoh16 a b) = [a, b]"
  by (simp add: htole16_def)

lemma length_htole16 [simp]: "length (htole16 v) = 2"
  by (simp add: htole16_def)

lemma length_htole32 [simp]: "length (htole32 v) = 4"
  by (simp add: htole32_def)

lemma letoh32_bytes [simp]:
  "letoh32 (ucast v) (ucast (drop_bit 8 v)) (ucast (drop_bit 16 v)) (ucast (drop_bit 24 v)) = v"
proof (rule bit_word_eqI)
  fix n assume "n < LENGTH(32)"
  then consider "n < 8" | "8 \<le> n" "n < 16" | "16 \<le> n" "n < 24" | "24 \<le> n" "n < 32" by fastforce
  then show "bit (letoh32 (ucast v) (ucast (drop_bit 8 v)) (ucast (drop_bit 16 v)) (ucast (drop_bit 24 v))) n = bit v n"
    by cases (auto simp: letoh32_def bit_simps)
qed

section \<open>Reading at an offset\<close>

definition rd8 :: "zb_uint8_t list \<Rightarrow> nat \<Rightarrow> zb_uint8_t option" where
  "rd8 p i = aget p i"

definition rd16 :: "zb_uint8_t list \<Rightarrow> nat \<Rightarrow> zb_uint16_t option" where
  "rd16 p i = do { a \<leftarrow> aget p i; b \<leftarrow> aget p (i + 1); Some (letoh16 a b) }"

definition rd32 :: "zb_uint8_t list \<Rightarrow> nat \<Rightarrow> zb_uint32_t option" where
  "rd32 p i = do {
     a \<leftarrow> aget p i; b \<leftarrow> aget p (i + 1); c \<leftarrow> aget p (i + 2); d \<leftarrow> aget p (i + 3);
     Some (letoh32 a b c d) }"

definition rdn :: "nat \<Rightarrow> zb_uint8_t list \<Rightarrow> nat \<Rightarrow> zb_uint8_t list option" where
  "rdn n p i = (if i + n \<le> length p then Some (take n (drop i p)) else None)"

text \<open>Reading what stands behind a prefix.\<close>

lemma aget_append: "aget (xs @ ys) (length xs + k) = aget ys k"
  by (simp add: aget_def nth_append)

lemma rd8_append: "rd8 (xs @ y # ys) (length xs) = Some y"
  by (simp add: rd8_def)

lemma rd16_append: "rd16 (xs @ htole16 v @ ys) (length xs) = Some v"
  by (simp add: rd16_def htole16_def aget_def nth_append)

lemma rd32_append: "rd32 (xs @ htole32 v @ ys) (length xs) = Some v"
proof -
  have "aget (xs @ htole32 v @ ys) (length xs) = aget (htole32 v @ ys) 0" using aget_append [of xs _ 0] by simp
  then show ?thesis unfolding rd32_def aget_append by (simp add: htole32_def aget_def)
qed

lemma rdn_append: "length zs = n \<Longrightarrow> rdn n (xs @ zs @ ys) (length xs) = Some zs"
  by (simp add: rdn_def)

lemma rdn_length: "rdn n p i = Some x \<Longrightarrow> length x = n"
  by (auto simp: rdn_def split: if_splits)

end
