(* ===== verification/Zb_Mac_Mhr.thy ===== *)
theory Zb_Mac_Mhr
  imports Zb_Bytes
begin

text \<open>
  The MAC header: the frame control field macros and \<^verbatim>\<open>zb_mac_mhr_t\<close> of \<^verbatim>\<open>include/zb_mac.h\<close>,
  \<^verbatim>\<open>zb_parse_mhr\<close> of \<^verbatim>\<open>mac/mac_common.c\<close>, and \<^verbatim>\<open>zb_mac_calculate_mhr_length\<close> and
  \<^verbatim>\<open>zb_mac_fill_mhr\<close> of \<^verbatim>\<open>mac/mac.c\<close>, without MAC security (\<^verbatim>\<open>ZB_MAC_SECURITY\<close> is for
  certification tests only). The two bytes of the field are a pair; the union of a short and a long
  address is its 8 bytes. The theorem says that parsing inverts filling.
\<close>

section \<open>Addressing modes and frame types\<close>

definition ZB_ADDR_NO_ADDR :: zb_uint8_t where "ZB_ADDR_NO_ADDR = 0"

definition ZB_ADDR_16BIT_DEV_OR_BROADCAST :: zb_uint8_t where "ZB_ADDR_16BIT_DEV_OR_BROADCAST = 2"

definition ZB_ADDR_64BIT_DEV :: zb_uint8_t where "ZB_ADDR_64BIT_DEV = 3"

definition MAC_FRAME_RESERVED1 :: zb_uint8_t where "MAC_FRAME_RESERVED1 = 4"

definition ZB_MAC_DST_PANID_OFFSET :: nat where "ZB_MAC_DST_PANID_OFFSET = 3"

definition PAN_ID_LENGTH :: nat where "PAN_ID_LENGTH = 2"

lemmas mac_consts = ZB_ADDR_NO_ADDR_def ZB_ADDR_16BIT_DEV_OR_BROADCAST_def ZB_ADDR_64BIT_DEV_def
  MAC_FRAME_RESERVED1_def ZB_MAC_DST_PANID_OFFSET_def PAN_ID_LENGTH_def

section \<open>The frame control field\<close>

type_synonym zb_fcf = "zb_uint8_t \<times> zb_uint8_t"

definition ZB_FCF_SET_FRAME_TYPE :: "zb_uint8_t \<Rightarrow> zb_fcf \<Rightarrow> zb_fcf option" where
  "ZB_FCF_SET_FRAME_TYPE t f = do {
     zb_assert (t < MAC_FRAME_RESERVED1);
     Some ((fst f AND 0xf8) OR t, snd f) }"

definition ZB_FCF_GET_FRAME_TYPE :: "zb_fcf \<Rightarrow> zb_uint8_t" where
  "ZB_FCF_GET_FRAME_TYPE f = fst f AND 0x07"

definition ZB_FCF_GET_SECURITY_BIT :: "zb_fcf \<Rightarrow> zb_uint8_t" where
  "ZB_FCF_GET_SECURITY_BIT f = fst f AND 0x08"

definition ZB_FCF_SET_SECURITY_BIT :: "zb_uint8_t \<Rightarrow> zb_fcf \<Rightarrow> zb_fcf option" where
  "ZB_FCF_SET_SECURITY_BIT v f = do {
     zb_assert (v = 0 \<or> v = 1);
     Some ((fst f AND 0xF7) OR push_bit 3 v, snd f) }"

definition ZB_FCF_GET_FRAME_PENDING_BIT :: "zb_fcf \<Rightarrow> zb_uint8_t" where
  "ZB_FCF_GET_FRAME_PENDING_BIT f = fst f AND 0x10"

definition ZB_FCF_SET_FRAME_PENDING_BIT :: "zb_uint8_t \<Rightarrow> zb_fcf \<Rightarrow> zb_fcf option" where
  "ZB_FCF_SET_FRAME_PENDING_BIT v f = do {
     zb_assert (v = 0 \<or> v = 1);
     Some ((fst f AND 0xEF) OR push_bit 4 v, snd f) }"

definition ZB_FCF_GET_ACK_REQUEST_BIT :: "zb_fcf \<Rightarrow> zb_uint8_t" where
  "ZB_FCF_GET_ACK_REQUEST_BIT f = fst f AND 0x20"

definition ZB_FCF_SET_ACK_REQUEST_BIT :: "zb_uint8_t \<Rightarrow> zb_fcf \<Rightarrow> zb_fcf option" where
  "ZB_FCF_SET_ACK_REQUEST_BIT v f = do {
     zb_assert (v = 0 \<or> v = 1);
     Some ((fst f AND 0xDF) OR push_bit 5 v, snd f) }"

definition ZB_FCF_GET_PANID_COMPRESSION_BIT :: "zb_fcf \<Rightarrow> zb_uint8_t" where
  "ZB_FCF_GET_PANID_COMPRESSION_BIT f = fst f AND 0x40"

definition ZB_FCF_SET_PANID_COMPRESSION_BIT :: "zb_uint8_t \<Rightarrow> zb_fcf \<Rightarrow> zb_fcf option" where
  "ZB_FCF_SET_PANID_COMPRESSION_BIT v f = do {
     zb_assert (v = 0 \<or> v = 1);
     Some ((fst f AND 0xBF) OR push_bit 6 v, snd f) }"

definition ZB_FCF_GET_FRAME_VERSION :: "zb_fcf \<Rightarrow> zb_uint8_t" where
  "ZB_FCF_GET_FRAME_VERSION f = drop_bit 4 (snd f AND 0x30)"

definition ZB_FCF_SET_FRAME_VERSION :: "zb_uint8_t \<Rightarrow> zb_fcf \<Rightarrow> zb_fcf option" where
  "ZB_FCF_SET_FRAME_VERSION v f = do {
     zb_assert (v = 0 \<or> v = 1);
     Some (fst f, (snd f AND 0xCF) OR push_bit 4 v) }"

definition ZB_FCF_GET_SRC_ADDRESSING_MODE :: "zb_fcf \<Rightarrow> zb_uint8_t" where
  "ZB_FCF_GET_SRC_ADDRESSING_MODE f = drop_bit 6 (snd f AND 0xC0)"

definition zb_fcf_set_src_addressing_mode :: "zb_uint8_t \<Rightarrow> zb_fcf \<Rightarrow> zb_fcf option" where
  "zb_fcf_set_src_addressing_mode m f = do {
     zb_assert (m = 0 \<or> m = 1 \<or> m = 2 \<or> m = 3);
     Some (fst f, (snd f AND 0x3F) OR push_bit 6 m) }"

definition ZB_FCF_GET_DST_ADDRESSING_MODE :: "zb_fcf \<Rightarrow> zb_uint8_t" where
  "ZB_FCF_GET_DST_ADDRESSING_MODE f = drop_bit 2 (snd f AND 0x0C)"

definition zb_fcf_set_dst_addressing_mode :: "zb_uint8_t \<Rightarrow> zb_fcf \<Rightarrow> zb_fcf option" where
  "zb_fcf_set_dst_addressing_mode m f = do {
     zb_assert (m = 0 \<or> m = 1 \<or> m = 2 \<or> m = 3);
     Some (fst f, (snd f AND 0xF3) OR push_bit 2 m) }"

section \<open>Headers\<close>

type_synonym zb_addr_u = "zb_uint8_t list"

definition addr_short :: "zb_addr_u \<Rightarrow> zb_uint16_t" where
  "addr_short u = letoh16 (u ! 0) (u ! 1)"

record zb_mac_mhr =
  mh_frame_control :: zb_fcf
  mh_seq_number :: zb_uint8_t
  mh_dst_pan_id :: zb_uint16_t
  mh_dst_addr :: zb_addr_u
  mh_src_pan_id :: zb_uint16_t
  mh_src_addr :: zb_addr_u

text \<open>An address of the given mode, read into a union that has been zeroed.\<close>

definition parse_addr :: "zb_uint8_t \<Rightarrow> zb_uint8_t list \<Rightarrow> nat \<Rightarrow> (zb_addr_u \<times> nat) option" where
  "parse_addr val p i =
     (if val = ZB_ADDR_16BIT_DEV_OR_BROADCAST
      then do { v \<leftarrow> rd16 p i; Some (htole16 v @ replicate 6 0, i + 2) }
      else do { a \<leftarrow> rdn 8 p i; Some (a, i + 8) })"

definition parse_dst :: "zb_fcf \<Rightarrow> zb_uint8_t list \<Rightarrow> nat \<Rightarrow> (zb_uint16_t \<times> zb_addr_u \<times> nat) option" where
  "parse_dst f p i =
     (let val = ZB_FCF_GET_DST_ADDRESSING_MODE f in
      if val \<noteq> 0 then do {
        pan \<leftarrow> rd16 p i;
        (a, j) \<leftarrow> parse_addr val p (i + 2);
        Some (pan, a, j) }
      else Some (0, replicate 8 0, i))"

definition parse_src :: "zb_fcf \<Rightarrow> zb_uint16_t \<Rightarrow> zb_uint8_t list \<Rightarrow> nat \<Rightarrow> (zb_uint16_t \<times> zb_addr_u \<times> nat) option" where
  "parse_src f dst_pan p i =
     (let val = ZB_FCF_GET_SRC_ADDRESSING_MODE f in
      if val \<noteq> 0 then do {
        (pan, j) \<leftarrow> (if ZB_FCF_GET_PANID_COMPRESSION_BIT f = 0 then do { v \<leftarrow> rd16 p i; Some (v, i + 2) }
          else Some (dst_pan, i));
        (a, k) \<leftarrow> parse_addr val p j;
        Some (pan, a, k) }
      else Some (0, replicate 8 0, i))"

definition zb_parse_mhr :: "zb_uint8_t list \<Rightarrow> nat \<Rightarrow> (zb_mac_mhr \<times> nat) option" where
  "zb_parse_mhr p i = do {
     f0 \<leftarrow> rd8 p i;
     f1 \<leftarrow> rd8 p (i + 1);
     seq \<leftarrow> rd8 p (i + 2);
     (dpan, daddr, j) \<leftarrow> parse_dst (f0, f1) p (i + 3);
     (span, saddr, k) \<leftarrow> parse_src (f0, f1) dpan p j;
     Some (\<lparr>mh_frame_control = (f0, f1), mh_seq_number = seq, mh_dst_pan_id = dpan, mh_dst_addr = daddr,
       mh_src_pan_id = span, mh_src_addr = saddr\<rparr>, (k - i) mod 256) }"

definition zb_mac_calculate_mhr_length :: "zb_uint8_t \<Rightarrow> zb_uint8_t \<Rightarrow> zb_uint8_t \<Rightarrow> nat option" where
  "zb_mac_calculate_mhr_length src_addr_mode dst_addr_mode panid_compression = do {
     l1 \<leftarrow> (if src_addr_mode \<noteq> ZB_ADDR_NO_ADDR then do {
         zb_assert (src_addr_mode = ZB_ADDR_16BIT_DEV_OR_BROADCAST \<or> src_addr_mode = ZB_ADDR_64BIT_DEV);
         Some (ZB_MAC_DST_PANID_OFFSET + (if panid_compression = 0 then PAN_ID_LENGTH else 0) + 2
           + (if src_addr_mode = ZB_ADDR_64BIT_DEV then 6 else 0)) }
       else Some ZB_MAC_DST_PANID_OFFSET);
     if dst_addr_mode \<noteq> ZB_ADDR_NO_ADDR then do {
       zb_assert (dst_addr_mode = ZB_ADDR_16BIT_DEV_OR_BROADCAST \<or> dst_addr_mode = ZB_ADDR_64BIT_DEV);
       Some (l1 + (PAN_ID_LENGTH + 2) + (if dst_addr_mode = ZB_ADDR_64BIT_DEV then 6 else 0)) }
     else Some l1 }"

text \<open>The bytes that \<^verbatim>\<open>zb_mac_fill_mhr\<close> writes, and the write itself.\<close>

definition addr_bytes :: "zb_uint8_t \<Rightarrow> zb_addr_u \<Rightarrow> zb_uint8_t list" where
  "addr_bytes val a = (if val = ZB_ADDR_16BIT_DEV_OR_BROADCAST then htole16 (addr_short a) else take 8 a)"

definition mhr_bytes :: "zb_mac_mhr \<Rightarrow> zb_uint8_t list" where
  "mhr_bytes m =
     (let f = mh_frame_control m; dst = ZB_FCF_GET_DST_ADDRESSING_MODE f; src = ZB_FCF_GET_SRC_ADDRESSING_MODE f
      in [fst f, snd f, mh_seq_number m]
         @ (if dst \<noteq> 0 then htole16 (mh_dst_pan_id m) @ addr_bytes dst (mh_dst_addr m) else [])
         @ (if src \<noteq> 0 then
              (if ZB_FCF_GET_PANID_COMPRESSION_BIT f = 0 then htole16 (mh_src_pan_id m) else [])
              @ addr_bytes src (mh_src_addr m)
            else []))"

definition zb_mac_fill_mhr :: "zb_uint8_t list \<Rightarrow> nat \<Rightarrow> zb_mac_mhr \<Rightarrow> zb_uint8_t list option" where
  "zb_mac_fill_mhr p i m = blit p i (mhr_bytes m)"

section \<open>The frame control fields do not disturb each other\<close>

lemma word8_eq_iff:
  "(x :: 8 word) = y \<longleftrightarrow> (bit x 0 = bit y 0) \<and> (bit x 1 = bit y 1) \<and> (bit x 2 = bit y 2) \<and> (bit x 3 = bit y 3)
     \<and> (bit x 4 = bit y 4) \<and> (bit x 5 = bit y 5) \<and> (bit x 6 = bit y 6) \<and> (bit x 7 = bit y 7)"
proof -
  have "x = y" if b: "bit x 0 = bit y 0" "bit x 1 = bit y 1" "bit x 2 = bit y 2" "bit x 3 = bit y 3"
     "bit x 4 = bit y 4" "bit x 5 = bit y 5" "bit x 6 = bit y 6" "bit x 7 = bit y 7"
  proof (rule bit_word_eqI)
    fix n assume "n < LENGTH(8)"
    then have "n = 0 \<or> n = 1 \<or> n = 2 \<or> n = 3 \<or> n = 4 \<or> n = 5 \<or> n = 6 \<or> n = 7" by simp presburger
    then show "bit x n = bit y n" using b by (elim disjE) (simp_all only:)
  qed
  then show ?thesis by blast
qed

lemma fcf_set_modes:
  assumes "zb_fcf_set_dst_addressing_mode d f = Some g" "zb_fcf_set_src_addressing_mode s g = Some h"
  shows "ZB_FCF_GET_DST_ADDRESSING_MODE h = d" "ZB_FCF_GET_SRC_ADDRESSING_MODE h = s"
    "ZB_FCF_GET_FRAME_VERSION h = ZB_FCF_GET_FRAME_VERSION f" "fst h = fst f"
proof -
  have "d = 0 \<or> d = 1 \<or> d = 2 \<or> d = 3" and "s = 0 \<or> s = 1 \<or> s = 2 \<or> s = 3"
    and g: "g = (fst f, (snd f AND 0xF3) OR push_bit 2 d)" and h: "h = (fst g, (snd g AND 0x3F) OR push_bit 6 s)"
    using assms by (auto simp: zb_fcf_set_dst_addressing_mode_def zb_fcf_set_src_addressing_mode_def split: Option.bind_splits)
  then show "ZB_FCF_GET_DST_ADDRESSING_MODE h = d" "ZB_FCF_GET_SRC_ADDRESSING_MODE h = s"
    "ZB_FCF_GET_FRAME_VERSION h = ZB_FCF_GET_FRAME_VERSION f"
    unfolding ZB_FCF_GET_DST_ADDRESSING_MODE_def ZB_FCF_GET_SRC_ADDRESSING_MODE_def ZB_FCF_GET_FRAME_VERSION_def g h word8_eq_iff
    by (elim disjE; simp add: bit_simps)+
  show "fst h = fst f" by (simp add: g h)
qed

section \<open>Parsing inverts filling\<close>

text \<open>A header without leftovers in the fields that are not transmitted.\<close>

definition mhr_normal :: "zb_mac_mhr \<Rightarrow> bool" where
  "mhr_normal m \<longleftrightarrow>
     (let f = mh_frame_control m; dst = ZB_FCF_GET_DST_ADDRESSING_MODE f; src = ZB_FCF_GET_SRC_ADDRESSING_MODE f
      in length (mh_dst_addr m) = 8 \<and> length (mh_src_addr m) = 8
         \<and> (dst = 0 \<longrightarrow> mh_dst_pan_id m = 0 \<and> mh_dst_addr m = replicate 8 0)
         \<and> (src = 0 \<longrightarrow> mh_src_pan_id m = 0 \<and> mh_src_addr m = replicate 8 0)
         \<and> (dst = ZB_ADDR_16BIT_DEV_OR_BROADCAST \<longrightarrow> drop 2 (mh_dst_addr m) = replicate 6 0)
         \<and> (src = ZB_ADDR_16BIT_DEV_OR_BROADCAST \<longrightarrow> drop 2 (mh_src_addr m) = replicate 6 0)
         \<and> (src \<noteq> 0 \<and> ZB_FCF_GET_PANID_COMPRESSION_BIT f \<noteq> 0 \<longrightarrow> mh_src_pan_id m = mh_dst_pan_id m))"

lemma htole16_addr_short: "length a = 8 \<Longrightarrow> htole16 (addr_short a) @ drop 2 a = a"
proof -
  assume "length a = 8"
  then obtain x y zs where "a = x # y # zs" by (cases a; cases "tl a"; simp)
  then show ?thesis by (simp add: addr_short_def)
qed

lemma parse_addr_bytes:
  assumes "length a = 8" "val = ZB_ADDR_16BIT_DEV_OR_BROADCAST \<longrightarrow> drop 2 a = replicate 6 0"
  shows "parse_addr val (xs @ addr_bytes val a @ ys) (length xs) = Some (a, length xs + length (addr_bytes val a))"
proof (cases "val = ZB_ADDR_16BIT_DEV_OR_BROADCAST")
  case True
  have "htole16 (addr_short a) @ replicate 6 0 = a" using htole16_addr_short [OF assms(1)] assms(2) True by simp
  then show ?thesis unfolding parse_addr_def addr_bytes_def using True rd16_append [of xs "addr_short a" ys] by simp
next
  case False
  then show ?thesis using rdn_append [OF assms(1), of xs ys] assms(1) by (simp add: parse_addr_def addr_bytes_def)
qed

lemma parse_dst_bytes:
  assumes "length a = 8" "ZB_FCF_GET_DST_ADDRESSING_MODE f = 0 \<longrightarrow> pan = 0 \<and> a = replicate 8 0"
    "ZB_FCF_GET_DST_ADDRESSING_MODE f = ZB_ADDR_16BIT_DEV_OR_BROADCAST \<longrightarrow> drop 2 a = replicate 6 0"
    and b: "b = (if ZB_FCF_GET_DST_ADDRESSING_MODE f \<noteq> 0 then htole16 pan @ addr_bytes (ZB_FCF_GET_DST_ADDRESSING_MODE f) a else [])"
  shows "parse_dst f (xs @ b @ ys) (length xs) = Some (pan, a, length xs + length b)"
proof (cases "ZB_FCF_GET_DST_ADDRESSING_MODE f = 0")
  case False
  let ?v = "ZB_FCF_GET_DST_ADDRESSING_MODE f"
  have "parse_addr ?v ((xs @ htole16 pan) @ addr_bytes ?v a @ ys) (length (xs @ htole16 pan))
      = Some (a, length (xs @ htole16 pan) + length (addr_bytes ?v a))"
    using assms by (intro parse_addr_bytes) simp_all
  then show ?thesis using False rd16_append [of xs pan "addr_bytes ?v a @ ys"] by (simp add: parse_dst_def b)
qed (use assms in \<open>simp add: parse_dst_def b\<close>)

lemma parse_src_bytes:
  assumes "length a = 8" "ZB_FCF_GET_SRC_ADDRESSING_MODE f = 0 \<longrightarrow> pan = 0 \<and> a = replicate 8 0"
    "ZB_FCF_GET_SRC_ADDRESSING_MODE f = ZB_ADDR_16BIT_DEV_OR_BROADCAST \<longrightarrow> drop 2 a = replicate 6 0"
    "ZB_FCF_GET_SRC_ADDRESSING_MODE f \<noteq> 0 \<and> ZB_FCF_GET_PANID_COMPRESSION_BIT f \<noteq> 0 \<longrightarrow> pan = dpan"
    and b: "b = (if ZB_FCF_GET_SRC_ADDRESSING_MODE f \<noteq> 0 then
              (if ZB_FCF_GET_PANID_COMPRESSION_BIT f = 0 then htole16 pan else [])
              @ addr_bytes (ZB_FCF_GET_SRC_ADDRESSING_MODE f) a else [])"
  shows "parse_src f dpan (xs @ b @ ys) (length xs) = Some (pan, a, length xs + length b)"
proof (cases "ZB_FCF_GET_SRC_ADDRESSING_MODE f = 0")
  case False
  let ?v = "ZB_FCF_GET_SRC_ADDRESSING_MODE f"
  have "parse_addr ?v (zs @ addr_bytes ?v a @ ys) (length zs) = Some (a, length zs + length (addr_bytes ?v a))" for zs
    using assms by (intro parse_addr_bytes) simp_all
  from this [of "xs @ htole16 pan"] this [of xs] show ?thesis
    using False assms(4) rd16_append [of xs pan "addr_bytes ?v a @ ys"] by (simp add: parse_src_def b)
qed (use assms in \<open>simp add: parse_src_def b\<close>)

lemma mhr_length:
  assumes "length (mh_dst_addr m) = 8" "length (mh_src_addr m) = 8"
    "zb_mac_calculate_mhr_length (ZB_FCF_GET_SRC_ADDRESSING_MODE (mh_frame_control m))
       (ZB_FCF_GET_DST_ADDRESSING_MODE (mh_frame_control m)) (ZB_FCF_GET_PANID_COMPRESSION_BIT (mh_frame_control m)) = Some n"
  shows "length (mhr_bytes m) = n"
  using assms
  by (auto simp: zb_mac_calculate_mhr_length_def mhr_bytes_def addr_bytes_def mac_consts Let_def
      split: if_splits Option.bind_splits)

text \<open>
  C35: parsing inverts filling: a MAC header that \<open>zb_mac_fill_mhr\<close> writes anywhere in a packet is read back
  by \<open>zb_parse_mhr\<close> with every field, whatever its addressing modes and PAN id compression, and the
  length that \<open>zb_parse_mhr\<close> returns and that \<open>zb_mac_calculate_mhr_length\<close> computes is the number of bytes written.
\<close>

theorem zb_parse_mhr_fill:
  assumes "mhr_normal m" "zb_mac_fill_mhr p i m = Some q"
  shows "zb_parse_mhr q i = Some (m, length (mhr_bytes m))
    \<and> (\<forall>n. zb_mac_calculate_mhr_length (ZB_FCF_GET_SRC_ADDRESSING_MODE (mh_frame_control m))
       (ZB_FCF_GET_DST_ADDRESSING_MODE (mh_frame_control m)) (ZB_FCF_GET_PANID_COMPRESSION_BIT (mh_frame_control m))
       = Some n \<longrightarrow> n = length (mhr_bytes m))"
proof -
  let ?f = "mh_frame_control m"
  let ?dst = "ZB_FCF_GET_DST_ADDRESSING_MODE ?f" and ?src = "ZB_FCF_GET_SRC_ADDRESSING_MODE ?f"
  have n: "length (mh_dst_addr m) = 8" "length (mh_src_addr m) = 8"
    "?dst = 0 \<longrightarrow> mh_dst_pan_id m = 0 \<and> mh_dst_addr m = replicate 8 0"
    "?src = 0 \<longrightarrow> mh_src_pan_id m = 0 \<and> mh_src_addr m = replicate 8 0"
    "?dst = ZB_ADDR_16BIT_DEV_OR_BROADCAST \<longrightarrow> drop 2 (mh_dst_addr m) = replicate 6 0"
    "?src = ZB_ADDR_16BIT_DEV_OR_BROADCAST \<longrightarrow> drop 2 (mh_src_addr m) = replicate 6 0"
    "?src \<noteq> 0 \<and> ZB_FCF_GET_PANID_COMPRESSION_BIT ?f \<noteq> 0 \<longrightarrow> mh_src_pan_id m = mh_dst_pan_id m"
    using assms(1) by (simp_all add: mhr_normal_def Let_def)
  define d where "d = (if ?dst \<noteq> 0 then htole16 (mh_dst_pan_id m) @ addr_bytes ?dst (mh_dst_addr m) else [])"
  define s where "s = (if ?src \<noteq> 0 then (if ZB_FCF_GET_PANID_COMPRESSION_BIT ?f = 0 then htole16 (mh_src_pan_id m) else [])
              @ addr_bytes ?src (mh_src_addr m) else [])"
  define h where "h = [fst ?f, snd ?f, mh_seq_number m]"
  have mb: "mhr_bytes m = h @ d @ s" by (simp add: mhr_bytes_def Let_def d_def s_def h_def)
  have small: "length d \<le> 10" "length s \<le> 10" using n(1,2) by (auto simp: d_def s_def addr_bytes_def)
  obtain xs ys where q: "q = xs @ h @ d @ s @ ys" "length xs = i"
    using assms(2) by (auto simp: zb_mac_fill_mhr_def blit_def mb split: if_splits)
  have hd: "rd8 q i = Some (fst ?f)" "rd8 q (i + 1) = Some (snd ?f)" "rd8 q (i + 2) = Some (mh_seq_number m)"
    using q(2) by (simp_all add: rd8_def q(1) aget_def nth_append h_def)
  have "parse_dst ?f q (i + 3) = Some (mh_dst_pan_id m, mh_dst_addr m, i + 3 + length d)"
    using parse_dst_bytes [OF n(1,3,5) d_def, of "xs @ h" "s @ ys"] q by (simp add: h_def numeral_3_eq_3)
  moreover have "parse_src ?f (mh_dst_pan_id m) q (i + 3 + length d)
      = Some (mh_src_pan_id m, mh_src_addr m, i + 3 + length d + length s)"
    using parse_src_bytes [OF n(2,4,6,7) s_def, of "xs @ h @ d" ys] q by (simp add: h_def numeral_3_eq_3)
  moreover have "(i + 3 + length d + length s - i) mod 256 = length (mhr_bytes m)" using small by (simp add: mb h_def)
  ultimately have "zb_parse_mhr q i = Some (m, length (mhr_bytes m))"
    unfolding zb_parse_mhr_def hd by simp
  then show ?thesis using mhr_length [OF n(1,2)] by blast
qed

definition demo_mhr :: zb_mac_mhr where
  "demo_mhr = \<lparr>mh_frame_control = (0x41, 0x88), mh_seq_number = 7, mh_dst_pan_id = 0x1aaa,
     mh_dst_addr = htole16 0x1234 @ replicate 6 0, mh_src_pan_id = 0x1aaa, mh_src_addr = htole16 0x5678 @ replicate 6 0\<rparr>"

lemma zb_parse_mhr_fill_witness:
  "\<exists>q. zb_mac_fill_mhr (replicate 20 0) 3 demo_mhr = Some q \<and> zb_parse_mhr q 3 = Some (demo_mhr, 9)
    \<and> zb_mac_calculate_mhr_length 2 2 0x40 = Some 9"
proof -
  have n: "mhr_normal demo_mhr" and l: "length (mhr_bytes demo_mhr) = 9"
    by (simp_all add: mhr_normal_def mhr_bytes_def addr_bytes_def demo_mhr_def Let_def mac_consts htole16_def
        ZB_FCF_GET_DST_ADDRESSING_MODE_def ZB_FCF_GET_SRC_ADDRESSING_MODE_def ZB_FCF_GET_PANID_COMPRESSION_BIT_def)
  then obtain q where q: "zb_mac_fill_mhr (replicate 20 0) 3 demo_mhr = Some q"
    by (simp add: zb_mac_fill_mhr_def blit_def)
  from zb_parse_mhr_fill [OF n q] l have "zb_parse_mhr q 3 = Some (demo_mhr, 9)" by simp
  then show ?thesis using q by (simp add: zb_mac_calculate_mhr_length_def mac_consts)
qed

end
