(* ===== verification/Zb_Nwk_Globals.thy ===== *)
theory Zb_Nwk_Globals
  imports Zb_Aps_Globals
begin

text \<open>
  The state of the network layer: the neighbor tables of \<^verbatim>\<open>include/zb_nwk_neighbor.h\<close>, the network
  information base and the routing tables of \<^verbatim>\<open>include/zb_nwk_globals.h\<close>, for a router or coordinator
  with security, and the global context extended by them. Of \<^verbatim>\<open>zb_nwk_handle_t\<close> and of the MAC
  information base the records hold the fields that the modelled code uses.
\<close>

section \<open>Configuration\<close>

definition ZB_NEIGHBOR_TABLE_SIZE :: nat where "ZB_NEIGHBOR_TABLE_SIZE = 32"

definition ZB_NWK_ROUTING_TABLE_SIZE :: nat where "ZB_NWK_ROUTING_TABLE_SIZE = 5"

definition ZB_NWK_ROUTE_DISCOVERY_TABLE_SIZE :: nat where "ZB_NWK_ROUTE_DISCOVERY_TABLE_SIZE = 5"

definition ZB_NWK_PENDING_TABLE_SIZE :: nat where "ZB_NWK_PENDING_TABLE_SIZE = 5"

definition ZB_SECUR_N_SECUR_MATERIAL :: nat where "ZB_SECUR_N_SECUR_MATERIAL = 3"

lemmas nwk_consts = ZB_NEIGHBOR_TABLE_SIZE_def ZB_NWK_ROUTING_TABLE_SIZE_def
  ZB_NWK_ROUTE_DISCOVERY_TABLE_SIZE_def ZB_NWK_PENDING_TABLE_SIZE_def ZB_SECUR_N_SECUR_MATERIAL_def

text \<open>The sizes of the packed structures in bytes.\<close>

definition NB_BYTES :: nat where "NB_BYTES = 10"

definition EXT_BYTES :: nat where "EXT_BYTES = 14"

section \<open>Neighbors\<close>

definition ZB_NWK_DEVICE_TYPE_ED :: "2 word" where "ZB_NWK_DEVICE_TYPE_ED = 0"

definition ZB_NWK_DEVICE_TYPE_ROUTER :: "2 word" where "ZB_NWK_DEVICE_TYPE_ROUTER = 1"

definition ZB_NWK_DEVICE_TYPE_COORDINATOR :: "2 word" where "ZB_NWK_DEVICE_TYPE_COORDINATOR = 2"

definition ZB_NWK_DEVICE_TYPE_NONE :: "2 word" where "ZB_NWK_DEVICE_TYPE_NONE = 3"

definition ZB_NWK_RELATIONSHIP_CHILD :: "3 word" where "ZB_NWK_RELATIONSHIP_CHILD = 1"

definition ZB_NWK_RELATIONSHIP_NONE_OF_THE_ABOVE :: "3 word" where "ZB_NWK_RELATIONSHIP_NONE_OF_THE_ABOVE = 3"

definition ZB_NWK_RELATIONSHIP_UNAUTHENTICATED_CHILD :: "3 word" where
  "ZB_NWK_RELATIONSHIP_UNAUTHENTICATED_CHILD = 5"

definition ZB_NWK_BROADCAST_ALL_DEVICES :: zb_uint16_t where "ZB_NWK_BROADCAST_ALL_DEVICES = 0xffff"

definition ZB_NWK_BROADCAST_RX_ON_WHEN_IDLE :: zb_uint16_t where "ZB_NWK_BROADCAST_RX_ON_WHEN_IDLE = 0xfffd"

lemmas nb_consts = ZB_NWK_DEVICE_TYPE_ED_def ZB_NWK_DEVICE_TYPE_ROUTER_def ZB_NWK_DEVICE_TYPE_COORDINATOR_def
  ZB_NWK_DEVICE_TYPE_NONE_def ZB_NWK_RELATIONSHIP_CHILD_def ZB_NWK_RELATIONSHIP_NONE_OF_THE_ABOVE_def
  ZB_NWK_RELATIONSHIP_UNAUTHENTICATED_CHILD_def ZB_NWK_BROADCAST_ALL_DEVICES_def ZB_NWK_BROADCAST_RX_ON_WHEN_IDLE_def

record zb_ext_neighbor_tbl_ent =
  xe_short_addr :: zb_uint16_t
  xe_long_addr :: zb_ieee_addr_compressed
  xe_lqi :: zb_uint8_t
  xe_update_id :: zb_uint8_t
  xe_logical_channel :: "5 word"
  xe_panid_ref :: "3 word"
  xe_beacon_order :: "4 word"
  xe_depth :: "4 word"
  xe_stack_profile :: "4 word"
  xe_superframe_order :: "4 word"
  xe_permit_joining :: "1 word"
  xe_device_type :: "2 word"
  xe_router_capacity :: bool
  xe_end_device_capacity :: bool
  xe_potential_parent :: bool

record zb_neighbor_tbl_ent =
  ne_addr_ref :: nat
  ne_permit_joining :: "2 word"
  ne_device_type :: "2 word"
  ne_depth :: "4 word"
  ne_used :: bool
  ne_rx_on_when_idle :: bool
  ne_relationship :: "3 word"
  ne_transmit_failure :: zb_uint8_t
  ne_lqi :: zb_uint8_t
  ne_incoming_frame_counter :: zb_uint32_t
  ne_key_seq_number :: zb_uint8_t

text \<open>
  The extended table lives in the memory of the base table: \<open>ext_neighbor\<close> is \<open>None\<close> for \<^verbatim>\<open>NULL\<close> and
  else the byte offset of the extended table in the array \<open>base_neighbor\<close>. An entry of either table
  is \<open>None\<close> when a write to the other one has overwritten bytes of it, or nothing has been written
  to it yet.
\<close>

record zb_neighbor_tbl =
  base_neighbor :: "zb_neighbor_tbl_ent option list"
  addr_to_neighbor :: "nat list"
  base_neighbor_size :: nat
  base_neighbor_used :: nat
  ext_neighbor :: "nat option"
  ext_ents :: "zb_ext_neighbor_tbl_ent option list"
  ext_neighbor_size :: nat
  ext_neighbor_used :: nat
  incoming_frame_counter_clock :: nat

definition zero_nb :: zb_neighbor_tbl_ent where
  "zero_nb = \<lparr>ne_addr_ref = 0, ne_permit_joining = 0, ne_device_type = 0, ne_depth = 0, ne_used = False,
     ne_rx_on_when_idle = False, ne_relationship = 0, ne_transmit_failure = 0, ne_lqi = 0,
     ne_incoming_frame_counter = 0, ne_key_seq_number = 0\<rparr>"

definition zero_ext :: zb_ext_neighbor_tbl_ent where
  "zero_ext = \<lparr>xe_short_addr = 0, xe_long_addr = zero_compressed, xe_lqi = 0, xe_update_id = 0,
     xe_logical_channel = 0, xe_panid_ref = 0, xe_beacon_order = 0, xe_depth = 0, xe_stack_profile = 0,
     xe_superframe_order = 0, xe_permit_joining = 0, xe_device_type = 0, xe_router_capacity = False,
     xe_end_device_capacity = False, xe_potential_parent = False\<rparr>"

definition zero_nbt :: zb_neighbor_tbl where
  "zero_nbt = \<lparr>base_neighbor = replicate 32 (Some zero_nb), addr_to_neighbor = replicate 101 0,
     base_neighbor_size = 0, base_neighbor_used = 0, ext_neighbor = None, ext_ents = [],
     ext_neighbor_size = 0, ext_neighbor_used = 0, incoming_frame_counter_clock = 0\<rparr>"

section \<open>Routing\<close>

datatype zb_nwk_route_state =
    ZB_NWK_ROUTE_STATE_ACTIVE
  | ZB_NWK_ROUTE_STATE_DISCOVERY_UNDERWAY
  | ZB_NWK_ROUTE_STATE_DISCOVERY_FAILED
  | ZB_NWK_ROUTE_STATE_DISCOVERY_INACTIVE
  | ZB_NWK_ROUTE_STATE_VALIDATION_UNDERWAY

record zb_nwk_routing =
  rt_used :: bool
  rt_status :: zb_nwk_route_state
  rt_no_route_cache :: bool
  rt_many_to_one :: bool
  rt_route_record_required :: bool
  rt_group_id_flag :: bool
  rt_dest_addr :: zb_uint16_t
  rt_next_hop_addr :: zb_uint16_t

record zb_nwk_route_discovery =
  rd_used :: bool
  rd_request_id :: zb_uint8_t
  rd_source_addr :: zb_uint16_t
  rd_sender_addr :: zb_uint16_t
  rd_dest_addr :: zb_uint16_t
  rd_forward_cost :: zb_uint8_t
  rd_residual_cost :: zb_uint8_t
  rd_expiration_time :: zb_uint16_t

record zb_nwk_pend =
  pe_used :: bool
  pe_buf :: nat
  pe_handle :: zb_uint8_t
  pe_dest_addr :: zb_uint16_t
  pe_expiry :: "6 word"
  pe_waiting_buf :: bool

record zb_secur_material_set =
  sm_key :: "zb_uint8_t list"
  sm_key_seq_number :: zb_uint8_t

record zb_nib =
  nib_sequence_number :: zb_uint8_t
  nib_passive_ack_timeout :: zb_uint16_t
  nib_max_broadcast_retries :: zb_uint8_t
  nib_extended_pan_id :: "zb_uint8_t list"
  nib_short_pan_id :: zb_uint16_t
  nib_device_type :: zb_uint8_t
  nib_update_id :: zb_uint8_t
  nib_routing_table :: "zb_nwk_routing list"
  nib_routing_table_cnt :: nat
  nib_route_disc_table :: "zb_nwk_route_discovery list"
  nib_route_disc_table_cnt :: nat
  nib_rreq_id :: zb_uint8_t
  nib_pending_table :: "zb_nwk_pend list"
  nib_pending_table_cnt :: nat
  nib_aps_rreq_addr :: zb_uint16_t
  nib_max_depth :: zb_uint8_t
  nib_max_children :: zb_uint8_t
  nib_router_child_num :: zb_uint8_t
  nib_ed_child_num :: zb_uint8_t
  nib_max_routers :: zb_uint8_t
  nib_cskip :: zb_uint16_t
  nib_depth :: zb_uint8_t
  nib_use_tree_routing :: bool
  nib_addr_alloc :: "3 word"
  nib_security_level :: "4 word"
  nib_secure_all_frames :: bool
  nib_active_secur_material_i :: "2 word"
  nib_secur_material_set :: "zb_secur_material_set list"
  nib_active_key_seq_number :: zb_uint8_t
  nib_outgoing_frame_counter :: zb_uint32_t
  nib_prev_outgoing_frame_counter :: zb_uint32_t
  nib_nwk_manager_addr :: zb_uint16_t
  nib_nwk_tx_total :: zb_uint16_t
  nib_nwk_tx_fail :: zb_uint16_t
  nib_nwk_report_constant_cost :: bool

datatype zb_nlme_state =
    ZB_NLME_STATE_IDLE
  | ZB_NLME_STATE_DISC
  | ZB_NLME_STATE_FORMATION_ED_SCAN
  | ZB_NLME_STATE_FORMATION_ACTIVE_SCAN
  | ZB_NLME_STATE_FORMATION
  | ZB_NLME_STATE_ROUTER
  | ZB_NLME_STATE_ED_SCAN
  | ZB_NLME_STATE_REJOIN
  | ZB_NLME_STATE_ORPHAN_SCAN
  | ZB_NLME_STATE_RESET
  | ZB_NLME_STATE_PANID_CONFLICT_RESOLUTION

record zb_nwk_handle =
  hd_state :: zb_nlme_state
  hd_parent :: nat
  hd_joined :: bool
  hd_status_ind_addr :: zb_uint16_t

record zb_nwk_globals =
  nib :: zb_nib
  nwk_handle :: zb_nwk_handle
  neighbor :: zb_neighbor_tbl

record zb_mac_beacon_payload =
  bp_protocol_id :: zb_uint8_t
  bp_stack_profile :: "4 word"
  bp_protocol_version :: "4 word"
  bp_router_capacity :: bool
  bp_device_depth :: "4 word"
  bp_end_device_capacity :: bool
  bp_extended_panid :: "zb_uint8_t list"
  bp_txoffset :: "zb_uint8_t list"
  bp_nwk_update_id :: zb_uint8_t

record zb_mac_pib =
  mac_short_address :: zb_uint16_t
  mac_pan_id :: zb_uint16_t
  mac_association_permit :: bool
  mac_beacon_payload :: zb_mac_beacon_payload
  mac_beacon_payload_length :: zb_uint8_t

record zb_globals_n = zb_globals_a +
  nwk :: zb_nwk_globals
  pib :: zb_mac_pib

definition upd_nib :: "(zb_nib \<Rightarrow> zb_nib) \<Rightarrow> 'z zb_globals_n_scheme \<Rightarrow> 'z zb_globals_n_scheme" where
  "upd_nib f g = g\<lparr>nwk := (nwk g)\<lparr>nib := f (nib (nwk g))\<rparr>\<rparr>"

definition upd_nbt :: "(zb_neighbor_tbl \<Rightarrow> zb_neighbor_tbl) \<Rightarrow> 'z zb_globals_n_scheme \<Rightarrow> 'z zb_globals_n_scheme" where
  "upd_nbt f g = g\<lparr>nwk := (nwk g)\<lparr>neighbor := f (neighbor (nwk g))\<rparr>\<rparr>"

lemma upd_nbt_fields [simp]:
  "sched (upd_nbt f g) = sched g" "addr (upd_nbt f g) = addr g" "aps (upd_nbt f g) = aps g"
  "nib (nwk (upd_nbt f g)) = nib (nwk g)" "nwk_handle (nwk (upd_nbt f g)) = nwk_handle (nwk g)"
  "neighbor (nwk (upd_nbt f g)) = f (neighbor (nwk g))" "pib (upd_nbt f g) = pib g"
  by (simp_all add: upd_nbt_def)

section \<open>The state after initialisation\<close>

definition demo_nib :: zb_nib where
  "demo_nib = \<lparr>nib_sequence_number = 0, nib_passive_ack_timeout = 500, nib_max_broadcast_retries = 2,
     nib_extended_pan_id = replicate 8 0, nib_short_pan_id = 0x1aaa,
     nib_device_type = ucast ZB_NWK_DEVICE_TYPE_ROUTER, nib_update_id = 0,
     nib_routing_table = replicate 5 \<lparr>rt_used = False, rt_status = ZB_NWK_ROUTE_STATE_ACTIVE, rt_no_route_cache = False,
       rt_many_to_one = False, rt_route_record_required = False, rt_group_id_flag = False, rt_dest_addr = 0,
       rt_next_hop_addr = 0\<rparr>,
     nib_routing_table_cnt = 0,
     nib_route_disc_table = replicate 5 \<lparr>rd_used = False, rd_request_id = 0, rd_source_addr = 0, rd_sender_addr = 0,
       rd_dest_addr = 0, rd_forward_cost = 0, rd_residual_cost = 0, rd_expiration_time = 0\<rparr>,
     nib_route_disc_table_cnt = 0, nib_rreq_id = 0,
     nib_pending_table = replicate 5 \<lparr>pe_used = False, pe_buf = 0, pe_handle = 0, pe_dest_addr = 0, pe_expiry = 0,
       pe_waiting_buf = False\<rparr>,
     nib_pending_table_cnt = 0, nib_aps_rreq_addr = 0, nib_max_depth = 5, nib_max_children = 4, nib_router_child_num = 0,
     nib_ed_child_num = 0, nib_max_routers = 4, nib_cskip = 0, nib_depth = 0, nib_use_tree_routing = True,
     nib_addr_alloc = 0, nib_security_level = 0, nib_secure_all_frames = False, nib_active_secur_material_i = 0,
     nib_secur_material_set = replicate 3 \<lparr>sm_key = replicate 16 0, sm_key_seq_number = 0\<rparr>,
     nib_active_key_seq_number = 0, nib_outgoing_frame_counter = 0, nib_prev_outgoing_frame_counter = 0,
     nib_nwk_manager_addr = 0, nib_nwk_tx_total = 0, nib_nwk_tx_fail = 0, nib_nwk_report_constant_cost = True\<rparr>"

definition demo_n :: zb_globals_n where
  "demo_n = \<lparr>sched = sched demo_a, timer = timer demo_a, bpool = bpool demo_a, rx_need_buf = False, addr = addr demo_a,
     aps = aps demo_a, nwk = \<lparr>nib = demo_nib, nwk_handle = \<lparr>hd_state = ZB_NLME_STATE_IDLE, hd_parent = 0, hd_joined = True, hd_status_ind_addr = 0\<rparr>,
       neighbor = zero_nbt\<rparr>,
     pib = \<lparr>mac_short_address = 0, mac_pan_id = 0x1aaa, mac_association_permit = True,
       mac_beacon_payload = \<lparr>bp_protocol_id = 0, bp_stack_profile = 1, bp_protocol_version = 2, bp_router_capacity = True,
         bp_device_depth = 0, bp_end_device_capacity = True, bp_extended_panid = replicate 8 0,
         bp_txoffset = [0xff, 0xff, 0xff], bp_nwk_update_id = 0\<rparr>,
       mac_beacon_payload_length = 15\<rparr>\<rparr>"

end
