(* ===== verification/Zb_Neighbor.thy ===== *)
theory Zb_Neighbor
  imports Zb_Nwk_Globals
begin

text \<open>
  The neighbor tables: \<^verbatim>\<open>nwk/nwk_neighbor.c\<close> for a router or coordinator with security. A pointer to
  a table entry is its index; an output parameter is an \<open>option\<close>. This theory holds the operations.

  The extended table of a network discovery is laid over the end of the base table's array, so the
  model keeps the byte positions: \<open>nb_put\<close> writes a base entry and destroys the extended entries
  whose bytes it touches, \<open>ext_put\<close> does the converse, and reading a destroyed entry has no result.
\<close>

section \<open>The shared memory\<close>

definition overlaps :: "nat \<Rightarrow> nat \<Rightarrow> nat \<Rightarrow> nat \<Rightarrow> bool" where
  "overlaps a la b lb \<longleftrightarrow> a < b + lb \<and> b < a + la"

definition clobber :: "(nat \<Rightarrow> bool) \<Rightarrow> 'a option list \<Rightarrow> 'a option list" where
  "clobber P xs = map (\<lambda>i. if P i then None else xs ! i) [0..<length xs]"

lemma clobber_length [simp]: "length (clobber P xs) = length xs"
  by (simp add: clobber_def)

lemma clobber_nth [simp]: "i < length xs \<Longrightarrow> clobber P xs ! i = (if P i then None else xs ! i)"
  by (simp add: clobber_def)

lemma clobber_none: "\<forall>i<length xs. \<not> P i \<Longrightarrow> clobber P xs = xs"
  by (simp add: list_eq_iff_nth_eq)

text \<open>The byte ranges of base entry \<open>i\<close> and of extended entry \<open>k\<close> of a table at offset \<open>off\<close>.\<close>

definition nb_ext_overlap :: "nat \<Rightarrow> nat \<Rightarrow> nat \<Rightarrow> bool" where
  "nb_ext_overlap off i k = overlaps (NB_BYTES * i) NB_BYTES (off + EXT_BYTES * k) EXT_BYTES"

definition nb_get :: "zb_neighbor_tbl \<Rightarrow> nat \<Rightarrow> zb_neighbor_tbl_ent option" where
  "nb_get N i = Option.bind (aget (base_neighbor N) i) (\<lambda>e. e)"

definition nb_put :: "nat \<Rightarrow> zb_neighbor_tbl_ent \<Rightarrow> zb_neighbor_tbl \<Rightarrow> zb_neighbor_tbl option" where
  "nb_put i e N =
     (if i < length (base_neighbor N) then
        Some (N\<lparr>base_neighbor := (base_neighbor N)[i := Some e],
          ext_ents := (case ext_neighbor N of None \<Rightarrow> ext_ents N
            | Some off \<Rightarrow> clobber (nb_ext_overlap off i) (ext_ents N))\<rparr>)
      else None)"

definition nb_upd :: "nat \<Rightarrow> (zb_neighbor_tbl_ent \<Rightarrow> zb_neighbor_tbl_ent) \<Rightarrow> zb_neighbor_tbl \<Rightarrow> zb_neighbor_tbl option" where
  "nb_upd i f N = do { e \<leftarrow> nb_get N i; nb_put i (f e) N }"

definition ext_get :: "zb_neighbor_tbl \<Rightarrow> nat \<Rightarrow> zb_ext_neighbor_tbl_ent option" where
  "ext_get N k = Option.bind (aget (ext_ents N) k) (\<lambda>e. e)"

definition ext_put :: "nat \<Rightarrow> zb_ext_neighbor_tbl_ent \<Rightarrow> zb_neighbor_tbl \<Rightarrow> zb_neighbor_tbl option" where
  "ext_put k e N = do {
     off \<leftarrow> ext_neighbor N;
     if k < length (ext_ents N) \<and> off + EXT_BYTES * k + EXT_BYTES \<le> NB_BYTES * length (base_neighbor N) then
       Some (N\<lparr>ext_ents := (ext_ents N)[k := Some e],
         base_neighbor := clobber (\<lambda>i. nb_ext_overlap off i k) (base_neighbor N)\<rparr>)
     else None }"

definition a2n_get :: "zb_neighbor_tbl \<Rightarrow> nat \<Rightarrow> nat option" where
  "a2n_get N r = aget (addr_to_neighbor N) r"

text \<open>\<^verbatim>\<open>ZG->nwk.neighbor.addr_to_neighbor[r] = n\<close>, the element being 8 bits wide.\<close>

definition a2n_put :: "nat \<Rightarrow> nat \<Rightarrow> zb_neighbor_tbl \<Rightarrow> zb_neighbor_tbl option" where
  "a2n_put r n N =
     (if r < length (addr_to_neighbor N) then Some (N\<lparr>addr_to_neighbor := (addr_to_neighbor N)[r := n mod 256]\<rparr>)
      else None)"

lemma nb_put_size: "nb_put i e N = Some N' \<Longrightarrow> base_neighbor_size N' = base_neighbor_size N"
  by (auto simp: nb_put_def split: if_splits)

lemma nb_upd_size: "nb_upd i f N = Some N' \<Longrightarrow> base_neighbor_size N' = base_neighbor_size N"
  by (auto simp: nb_upd_def dest!: nb_put_size split: Option.bind_splits)

lemma a2n_put_size: "a2n_put r n N = Some N' \<Longrightarrow> base_neighbor_size N' = base_neighbor_size N"
  by (auto simp: a2n_put_def split: if_splits)

section \<open>Initialisation\<close>

definition zb_nwk_neighbor_init :: "zb_neighbor_tbl \<Rightarrow> zb_neighbor_tbl" where
  "zb_nwk_neighbor_init N = N\<lparr>addr_to_neighbor := replicate (length (addr_to_neighbor N)) 255,
     base_neighbor_size := ZB_NEIGHBOR_TABLE_SIZE\<rparr>"

definition zb_nwk_neighbor_clear :: "zb_neighbor_tbl \<Rightarrow> zb_neighbor_tbl" where
  "zb_nwk_neighbor_clear N = zb_nwk_neighbor_init zero_nbt"

section \<open>Making room for the extended table\<close>

definition pack_move :: "nat \<Rightarrow> nat \<Rightarrow> zb_neighbor_tbl_ent \<Rightarrow> zb_neighbor_tbl \<Rightarrow> zb_neighbor_tbl option" where
  "pack_move i hole e N = do {
     N1 \<leftarrow> nb_put (i - hole) e N;
     N2 \<leftarrow> a2n_put (ne_addr_ref e) (i - hole) N1;
     nb_upd i (\<lambda>e. e\<lparr>ne_used := False\<rparr>) N2 }"

lemma pack_move_size: "pack_move i hole e N = Some N' \<Longrightarrow> base_neighbor_size N' = base_neighbor_size N"
  by (auto simp: pack_move_def dest!: nb_upd_size nb_put_size a2n_put_size split: Option.bind_split_asm)

text \<open>
  The loop that moves used entries to the left, from slot \<open>i\<close> on; \<^verbatim>\<open>hole\<close> goes down with every move,
  as in the code.
\<close>

function pack_loop :: "nat \<Rightarrow> nat \<Rightarrow> nat \<Rightarrow> zb_neighbor_tbl \<Rightarrow> zb_neighbor_tbl option" where
  "pack_loop i used hole N =
     (if i < base_neighbor_size N \<and> used < base_neighbor_used N then
        case nb_get N i of None \<Rightarrow> None
        | Some e \<Rightarrow>
          (if ne_used e then
             if hole \<noteq> 0 then
               case pack_move i hole e N of
                 None \<Rightarrow> None
               | Some N' \<Rightarrow> pack_loop (i + 1) (used + 1) (hole - 1) N'
             else pack_loop (i + 1) (used + 1) hole N
           else pack_loop (i + 1) used (hole + 1) N)
      else Some N)"
  by pat_completeness auto
termination
  by (relation "measure (\<lambda>(i, used, hole, N). base_neighbor_size N - i)")
    (auto dest!: pack_move_size)

declare pack_loop.simps [simp del]

definition MAGIC_ROUND_TO_4 :: "nat \<Rightarrow> nat" where
  "MAGIC_ROUND_TO_4 a = (a + 3) div 4 * 4"

text \<open>
  The cut: \<^verbatim>\<open>cut\<close> and \<^verbatim>\<open>off\<close> have 8 bits; \<^verbatim>\<open>base_neighbor_cleanup\<close> does nothing. The bytes of the new
  extended table are whatever the base table left there.
\<close>

definition cut_size :: "zb_neighbor_tbl \<Rightarrow> nat" where
  "cut_size N =
     (let slots = base_neighbor_size N div 2 mod 256
      in if base_neighbor_used N > base_neighbor_size N - slots
         then nat ((int (base_neighbor_size N) - int (base_neighbor_used N)) mod 256) else slots)"

definition ext_offset :: "nat \<Rightarrow> nat" where
  "ext_offset n = MAGIC_ROUND_TO_4 (n * NB_BYTES) mod 256"

definition ext_count :: "nat \<Rightarrow> nat \<Rightarrow> nat" where
  "ext_count n slots =
     nat ((int (slots * NB_BYTES) - (int (ext_offset n) - int (n * NB_BYTES))) mod 256) div EXT_BYTES"

definition zb_nwk_exneighbor_start :: "zb_neighbor_tbl \<Rightarrow> zb_neighbor_tbl option" where
  "zb_nwk_exneighbor_start N =
     (if ext_neighbor_size N \<noteq> 0 then Some N
      else do {
        N1 \<leftarrow> (if base_neighbor_used N \<noteq> 0 then pack_loop 0 0 0 N else Some N);
        let slots = cut_size N1;
        let n = nat ((int (base_neighbor_size N1) - int slots) mod 2 ^ 32);
        let m = ext_count n slots;
        zb_assert (m > 0);
        Some (N1\<lparr>base_neighbor_size := n, ext_neighbor := Some (ext_offset n),
                 ext_ents := replicate m None, ext_neighbor_size := m\<rparr>) })"

section \<open>The extended table\<close>

definition alloc_new_extneiboard :: "nat \<Rightarrow> zb_uint16_t \<Rightarrow> zb_neighbor_tbl \<Rightarrow> (zb_neighbor_tbl \<times> zb_ret_t \<times> nat option) option" where
  "alloc_new_extneiboard panid_ref short_addr N =
     (if ext_neighbor_used N = ext_neighbor_size N then Some (N, RET_NO_MEMORY, None)
      else do {
        let k = ext_neighbor_used N;
        N1 \<leftarrow> ext_put k (zero_ext\<lparr>xe_short_addr := short_addr, xe_panid_ref := word_of_nat panid_ref\<rparr>)
          (N\<lparr>ext_neighbor_used := inc32 k\<rparr>);
        Some (N1, RET_OK, Some k) })"

function find_ext :: "nat \<Rightarrow> (zb_ext_neighbor_tbl_ent \<Rightarrow> bool) \<Rightarrow> zb_neighbor_tbl \<Rightarrow> nat option option" where
  "find_ext i P N =
     (if i < ext_neighbor_used N then
        (if i < length (ext_ents N) then
           (case ext_ents N ! i of None \<Rightarrow> None
            | Some e \<Rightarrow> if P e then Some (Some i) else find_ext (i + 1) P N)
         else None)
      else Some None)"
  by pat_completeness auto
termination by (relation "measure (\<lambda>(i, P, N). length (ext_ents N) - i)") auto

declare find_ext.simps [simp del]

definition zb_nwk_exneighbor_by_short :: "nat \<Rightarrow> zb_uint16_t \<Rightarrow> zb_neighbor_tbl
    \<Rightarrow> (zb_neighbor_tbl \<times> zb_ret_t \<times> nat option) option" where
  "zb_nwk_exneighbor_by_short panid_ref short_addr N = do {
     found \<leftarrow> find_ext 0 (\<lambda>e. xe_short_addr e = short_addr \<and> unat (xe_panid_ref e) = panid_ref) N;
     case found of
       Some i \<Rightarrow> Some (N, RET_OK, Some i)
     | None \<Rightarrow> alloc_new_extneiboard panid_ref short_addr N }"

text \<open>The search by long address does not stop at a hit: the last matching entry counts.\<close>

function find_ext_last :: "nat \<Rightarrow> (zb_ext_neighbor_tbl_ent \<Rightarrow> bool) \<Rightarrow> zb_neighbor_tbl \<Rightarrow> nat option \<Rightarrow> nat option option" where
  "find_ext_last i P N r =
     (if i < ext_neighbor_used N then
        (if i < length (ext_ents N) then
           (case ext_ents N ! i of None \<Rightarrow> None
            | Some e \<Rightarrow> find_ext_last (i + 1) P N (if P e then Some i else r))
         else None)
      else Some r)"
  by pat_completeness auto
termination by (relation "measure (\<lambda>(i, P, N, r). length (ext_ents N) - i)") auto

declare find_ext_last.simps [simp del]

definition zb_nwk_exneighbor_by_ieee :: "nat \<Rightarrow> zb_ieee_addr_t \<Rightarrow> 'z zb_globals_n_scheme
    \<Rightarrow> ('z zb_globals_n_scheme \<times> zb_ret_t \<times> nat option) option" where
  "zb_nwk_exneighbor_by_ieee panid_ref long_addr g = do {
     (A1, c) \<leftarrow> zb_ieee_addr_compress long_addr (addr g);
     let g1 = g\<lparr>addr := A1\<rparr>;
     found \<leftarrow> find_ext_last 0 (\<lambda>e. unat (xe_panid_ref e) = panid_ref \<and> zb_address_compressed_cmp (xe_long_addr e) c)
       (neighbor (nwk g1)) None;
     case found of
       Some i \<Rightarrow> Some (g1, RET_OK, Some i)
     | None \<Rightarrow> do {
         (N1, ret, ref) \<leftarrow> alloc_new_extneiboard panid_ref (-1) (neighbor (nwk g1));
         if ret = RET_OK then do {
           k \<leftarrow> ref;
           (A2, c2) \<leftarrow> zb_ieee_addr_compress long_addr A1;
           e \<leftarrow> ext_get N1 k;
           N2 \<leftarrow> ext_put k (e\<lparr>xe_long_addr := c2\<rparr>) N1;
           Some (upd_nbt (\<lambda>_. N2) (g\<lparr>addr := A2\<rparr>), RET_OK, Some k) }
         else Some (upd_nbt (\<lambda>_. N1) g1, ret, None) } }"

section \<open>The base table\<close>

definition zb_nwk_neighbor_delete :: "nat \<Rightarrow> zb_neighbor_tbl \<Rightarrow> (zb_neighbor_tbl \<times> zb_ret_t) option" where
  "zb_nwk_neighbor_delete ieee_ref N = do {
     n \<leftarrow> a2n_get N ieee_ref;
     if n \<noteq> 255 then do {
       N1 \<leftarrow> a2n_put ieee_ref 255 N;
       N2 \<leftarrow> nb_upd n (\<lambda>e. e\<lparr>ne_used := False\<rparr>) N1;
       Some (N2, RET_OK) }
     else Some (N, RET_NOT_FOUND) }"

definition zb_nwk_neighbor_get :: "nat \<Rightarrow> bool \<Rightarrow> 'z zb_globals_n_scheme
    \<Rightarrow> ('z zb_globals_n_scheme \<times> zb_ret_t \<times> nat option) option" where
  "zb_nwk_neighbor_get r create_if_absent g = do {
     let N = neighbor (nwk g);
     n \<leftarrow> a2n_get N r;
     if n = 255 then
       if create_if_absent then
         if base_neighbor_used N = dec32 (base_neighbor_size N) then Some (g, RET_NO_MEMORY, None)
         else do {
           A \<leftarrow> zb_address_lock r (addr g);
           let n = base_neighbor_used N mod 256;
           N1 \<leftarrow> a2n_put r n N;
           N2 \<leftarrow> nb_put n (zero_nb\<lparr>ne_used := True, ne_addr_ref := r,
               ne_relationship := ZB_NWK_RELATIONSHIP_NONE_OF_THE_ABOVE, ne_permit_joining := 2,
               ne_depth := ucast (nib_depth (nib (nwk g)))\<rparr>)
             (N1\<lparr>base_neighbor_used := inc32 (base_neighbor_used N1)\<rparr>);
           Some (upd_nbt (\<lambda>_. N2) (g\<lparr>addr := A\<rparr>), RET_OK, Some n) }
       else Some (g, RET_NOT_FOUND, None)
     else Some (g, RET_OK, Some n) }"

definition zb_nwk_neighbor_get_by_short :: "zb_uint16_t \<Rightarrow> 'z zb_globals_n_scheme
    \<Rightarrow> ('z zb_globals_n_scheme \<times> zb_ret_t \<times> nat option) option" where
  "zb_nwk_neighbor_get_by_short short_addr g = do {
     (A, ret, ref) \<leftarrow> zb_address_by_short short_addr False False (addr g);
     let g1 = g\<lparr>addr := A\<rparr>;
     if ret = RET_OK then do {
       r \<leftarrow> ref;
       (g2, ret2, nbt) \<leftarrow> zb_nwk_neighbor_get r False g1;
       Some (g2, if ret2 = RET_OK then RET_OK else RET_NOT_FOUND, nbt) }
     else Some (g1, RET_NOT_FOUND, None) }"

definition zb_nwk_neighbor_get_by_ieee :: "zb_ieee_addr_t \<Rightarrow> 'z zb_globals_n_scheme
    \<Rightarrow> ('z zb_globals_n_scheme \<times> zb_ret_t \<times> nat option) option" where
  "zb_nwk_neighbor_get_by_ieee long_addr g = do {
     (A, ret, ref) \<leftarrow> zb_address_by_ieee long_addr False False (addr g);
     let g1 = g\<lparr>addr := A\<rparr>;
     if ret = RET_OK then do {
       r \<leftarrow> ref;
       (g2, ret2, nbt) \<leftarrow> zb_nwk_neighbor_get r False g1;
       Some (g2, if ret2 = RET_OK then RET_OK else RET_NOT_FOUND, nbt) }
     else Some (g1, RET_NOT_FOUND, None) }"

section \<open>Leaving the extended table\<close>

text \<open>The address reference of an extended entry, from the addresses that are known of it.\<close>

definition ext_addr_ref :: "zb_ext_neighbor_tbl_ent \<Rightarrow> zb_addr_globals
    \<Rightarrow> (zb_addr_globals \<times> zb_ret_t \<times> nat option) option" where
  "ext_addr_ref x A =
     (if xe_short_addr x \<noteq> -1 then
        if xe_long_addr x \<noteq> zero_compressed then do {
          long_address \<leftarrow> zb_ieee_addr_decompress (xe_long_addr x) A;
          zb_address_update long_address (xe_short_addr x) False A }
        else zb_address_by_short (xe_short_addr x) True False A
      else do {
        long_address \<leftarrow> zb_ieee_addr_decompress (xe_long_addr x) A;
        zb_address_by_ieee long_address True False A })"

text \<open>
  The base entry of one extended entry of the own network: the existing one, or a new one if there is
  room. The result is its index.
\<close>

definition ext_to_base :: "nat \<Rightarrow> zb_ext_neighbor_tbl_ent \<Rightarrow> zb_neighbor_tbl \<Rightarrow> (zb_neighbor_tbl \<times> nat option) option" where
  "ext_to_base r x N = do {
     n \<leftarrow> a2n_get N r;
     if n \<noteq> 255 then do {
       e \<leftarrow> nb_get N n;
       zb_assert (ne_used e);
       N1 \<leftarrow> nb_upd n (\<lambda>e. if ne_device_type e = ZB_NWK_DEVICE_TYPE_NONE
           then e\<lparr>ne_device_type := xe_device_type x\<rparr> else e) N;
       Some (N1, Some n) }
     else if base_neighbor_used N < base_neighbor_size N then do {
       let n = base_neighbor_used N;
       N1 \<leftarrow> a2n_put r n N;
       N2 \<leftarrow> nb_put n (zero_nb\<lparr>ne_device_type := xe_device_type x,
           ne_rx_on_when_idle := (xe_device_type x \<noteq> ZB_NWK_DEVICE_TYPE_ED), ne_depth := xe_depth x,
           ne_permit_joining := ucast (xe_permit_joining x),
           ne_relationship := ZB_NWK_RELATIONSHIP_NONE_OF_THE_ABOVE\<rparr>)
         (N1\<lparr>base_neighbor_used := inc32 (base_neighbor_used N1)\<rparr>);
       Some (N2, Some n) }
     else Some (N, None) }"

text \<open>
  One pass of the loop: entry \<open>i\<close>, if it belongs to the own network, and the slots of the base table that
  the consumed entry gives back. \<open>my_panid\<close> is \<open>None\<close> when the code uses it uninitialised.
\<close>

definition stop_step :: "nat option \<Rightarrow> nat \<Rightarrow> nat \<Rightarrow> 'z zb_globals_n_scheme \<Rightarrow> (nat \<times> 'z zb_globals_n_scheme) option" where
  "stop_step my_panid i free_size g = do {
     x \<leftarrow> ext_get (neighbor (nwk g)) i;
     p \<leftarrow> my_panid;
     g1 \<leftarrow> (if unat (xe_panid_ref x) = p then do {
         (A, ret, ref) \<leftarrow> ext_addr_ref x (addr g);
         if ret = RET_OK then do {
           r \<leftarrow> ref;
           (N1, ent) \<leftarrow> ext_to_base r x (neighbor (nwk g));
           case ent of
             None \<Rightarrow> Some (upd_nbt (\<lambda>_. N1) (g\<lparr>addr := A\<rparr>))
           | Some n \<Rightarrow> do {
               x' \<leftarrow> ext_get N1 i;
               N2 \<leftarrow> nb_upd n (\<lambda>e. e\<lparr>ne_used := True, ne_addr_ref := r, ne_lqi := xe_lqi x'\<rparr>) N1;
               Some (upd_nbt (\<lambda>_. N2) (g\<lparr>addr := A\<rparr>)) } }
         else Some (g\<lparr>addr := A\<rparr>) }
       else Some g);
     let free = free_size + EXT_BYTES;
     let size' = base_neighbor_size (neighbor (nwk g1)) + free div NB_BYTES;
     zb_assert (size' \<le> ZB_NEIGHBOR_TABLE_SIZE);
     Some (free mod NB_BYTES, upd_nbt (\<lambda>N. N\<lparr>base_neighbor_size := size'\<rparr>) g1) }"

text \<open>The loop runs over the entries in use, \<open>n\<close> of them from \<open>i\<close> on.\<close>

fun stop_loop :: "nat \<Rightarrow> nat option \<Rightarrow> nat \<Rightarrow> nat \<Rightarrow> 'z zb_globals_n_scheme \<Rightarrow> 'z zb_globals_n_scheme option" where
  "stop_loop 0 my_panid i free_size g = Some g"
| "stop_loop (Suc n) my_panid i free_size g = do {
     (free_size', g') \<leftarrow> stop_step my_panid i free_size g;
     stop_loop n my_panid (i + 1) free_size' g' }"

definition zb_nwk_exneighbor_stop :: "'z zb_globals_n_scheme \<Rightarrow> 'z zb_globals_n_scheme option" where
  "zb_nwk_exneighbor_stop g = do {
     g1 \<leftarrow> (if hd_joined (nwk_handle (nwk g)) then
         let my_panid = snd (zb_address_get_pan_id_ref (nib_extended_pan_id (nib (nwk g))) (addr g))
         in stop_loop (ext_neighbor_used (neighbor (nwk g))) my_panid 0 0 g
       else Some g);
     Some (upd_nbt (\<lambda>N. N\<lparr>base_neighbor_size := ZB_NEIGHBOR_TABLE_SIZE, ext_neighbor_used := 0,
       ext_neighbor_size := 0, ext_neighbor := None, ext_ents := []\<rparr>) g1) }"

text \<open>The result of \<^verbatim>\<open>zb_address_by_ieee\<close> is ignored: without a reference the code goes on with garbage.\<close>

definition zb_nwk_neighbor_ext_to_base_tmp :: "nat \<Rightarrow> 'z zb_globals_n_scheme \<Rightarrow> ('z zb_globals_n_scheme \<times> zb_ret_t) option" where
  "zb_nwk_neighbor_ext_to_base_tmp k g = do {
     let N = neighbor (nwk g);
     if base_neighbor_used N \<ge> base_neighbor_size N then Some (g, RET_NO_MEMORY)
     else do {
       x \<leftarrow> ext_get N k;
       long_address \<leftarrow> zb_ieee_addr_decompress (xe_long_addr x) (addr g);
       (A, _, ref) \<leftarrow> zb_address_by_ieee long_address True False (addr g);
       r \<leftarrow> ref;
       let n = base_neighbor_used N;
       N1 \<leftarrow> a2n_put r n N;
       N2 \<leftarrow> nb_put n zero_nb (N1\<lparr>base_neighbor_used := inc32 n\<rparr>);
       x' \<leftarrow> ext_get N2 k;
       N3 \<leftarrow> nb_put n (zero_nb\<lparr>ne_device_type := xe_device_type x',
         ne_rx_on_when_idle := (xe_device_type x' \<noteq> ZB_NWK_DEVICE_TYPE_ED),
         ne_relationship := ZB_NWK_RELATIONSHIP_NONE_OF_THE_ABOVE, ne_used := True, ne_addr_ref := r,
         ne_lqi := xe_lqi x'\<rparr>) N2;
       Some (upd_nbt (\<lambda>_. N3) (g\<lparr>addr := A\<rparr>), RET_OK) } }"

section \<open>Frame counters\<close>

definition zb_nwk_neighbor_incoming_frame_counter_clock :: "zb_uint8_t \<Rightarrow> zb_neighbor_tbl \<Rightarrow> zb_neighbor_tbl option" where
  "zb_nwk_neighbor_incoming_frame_counter_clock key_seq_number N =
     (if base_neighbor_size N \<noteq> 0 then do {
        let i = inc32 (incoming_frame_counter_clock N) mod base_neighbor_size N;
        let N1 = N\<lparr>incoming_frame_counter_clock := i\<rparr>;
        e \<leftarrow> nb_get N1 i;
        let diff0 = uint key_seq_number - uint (ne_key_seq_number e);
        let diff = (if diff0 < 0 then 256 + diff0 else diff0);
        if diff > 3 then nb_put i (e\<lparr>ne_incoming_frame_counter := 0, ne_key_seq_number := key_seq_number\<rparr>) N1
        else Some N1 }
      else Some N)"

section \<open>Iterators\<close>

text \<open>The next entry in use from \<open>i\<close> on that satisfies \<open>P\<close>, or \<^verbatim>\<open>~0\<close>.\<close>

function next_nb :: "(zb_neighbor_tbl_ent \<Rightarrow> bool) \<Rightarrow> nat \<Rightarrow> zb_neighbor_tbl \<Rightarrow> nat option" where
  "next_nb P i N =
     (if i < base_neighbor_used N then
        case nb_get N i of None \<Rightarrow> None
        | Some e \<Rightarrow> if ne_used e \<and> P e then Some i else next_nb P (i + 1) N
      else Some (2 ^ 32 - 1))"
  by pat_completeness auto
termination by (relation "measure (\<lambda>(P, i, N). base_neighbor_used N - i)") auto

declare next_nb.simps [simp del]

definition zb_nwk_neighbor_next_rx_on_i :: "nat \<Rightarrow> zb_neighbor_tbl \<Rightarrow> nat option" where
  "zb_nwk_neighbor_next_rx_on_i i N = next_nb ne_rx_on_when_idle i N"

definition is_child :: "zb_neighbor_tbl_ent \<Rightarrow> bool" where
  "is_child e \<longleftrightarrow> ne_relationship e = ZB_NWK_RELATIONSHIP_CHILD
     \<or> ne_relationship e = ZB_NWK_RELATIONSHIP_UNAUTHENTICATED_CHILD"

definition zb_nwk_neighbor_next_ze_children_i :: "zb_uint16_t \<Rightarrow> nat \<Rightarrow> zb_neighbor_tbl \<Rightarrow> nat option" where
  "zb_nwk_neighbor_next_ze_children_i a i N =
     next_nb (\<lambda>e. is_child e \<and> ne_device_type e = ZB_NWK_DEVICE_TYPE_ED
       \<and> (a = ZB_NWK_BROADCAST_ALL_DEVICES \<or> (a = ZB_NWK_BROADCAST_RX_ON_WHEN_IDLE \<and> ne_rx_on_when_idle e))) i N"

definition zb_nwk_neighbor_next_ze_children_rx_off_i :: "nat \<Rightarrow> zb_neighbor_tbl \<Rightarrow> nat option" where
  "zb_nwk_neighbor_next_ze_children_rx_off_i i N = next_nb (\<lambda>e. is_child e \<and> \<not> ne_rx_on_when_idle e) i N"

text \<open>\<^verbatim>\<open>ZB_NWK_GET_PASSIVE_ACK_DEV_NUM\<close>, over the first \<open>n\<close> slots; the counter has 8 bits.\<close>

fun passive_ack_dev_num :: "nat \<Rightarrow> zb_neighbor_tbl \<Rightarrow> nat option" where
  "passive_ack_dev_num 0 N = Some 0"
| "passive_ack_dev_num (Suc n) N = do {
     c \<leftarrow> passive_ack_dev_num n N;
     e \<leftarrow> nb_get N n;
     Some (if ne_used e \<and> (ne_device_type e = ZB_NWK_DEVICE_TYPE_ROUTER \<or> ne_device_type e = ZB_NWK_DEVICE_TYPE_COORDINATOR)
       then inc8 c else c) }"

definition ZB_NWK_GET_PASSIVE_ACK_DEV_NUM :: "zb_neighbor_tbl \<Rightarrow> nat option" where
  "ZB_NWK_GET_PASSIVE_ACK_DEV_NUM N = passive_ack_dev_num (base_neighbor_size N) N"

end
