(* ===== verification/Zb_Neighbor_Props.thy ===== *)
theory Zb_Neighbor_Props
  imports Zb_Neighbor
begin

text \<open>
  The neighbor tables of \<open>Zb_Neighbor\<close> as a map from address references to entries: the invariant
  \<open>nb_wf\<close>, what the operations do to the map, the layout of the extended table in the memory of the
  base table, and where the code breaks it.
\<close>

section \<open>The invariant\<close>

definition nb_sizes :: "zb_neighbor_tbl \<Rightarrow> bool" where
  "nb_sizes N \<longleftrightarrow> length (base_neighbor N) = 32 \<and> length (addr_to_neighbor N) = 101"

definition mapped :: "zb_neighbor_tbl \<Rightarrow> nat \<Rightarrow> zb_neighbor_tbl_ent \<Rightarrow> nat \<Rightarrow> bool" where
  "mapped N r e n \<longleftrightarrow> n \<noteq> 255 \<and> n < base_neighbor_used N \<and> nb_get N n = Some e \<and> ne_used e \<and> ne_addr_ref e = r"

definition nb_wf :: "zb_neighbor_tbl \<Rightarrow> bool" where
  "nb_wf N \<longleftrightarrow> nb_sizes N
     \<and> (\<forall>r<101. addr_to_neighbor N ! r = 255 \<or> (\<exists>e. mapped N r e (addr_to_neighbor N ! r)))
     \<and> (\<forall>i e. nb_get N i = Some e \<and> ne_used e \<longrightarrow> ne_addr_ref e < 101 \<and> addr_to_neighbor N ! ne_addr_ref e = i)"

definition nb_abs :: "zb_neighbor_tbl \<Rightarrow> nat \<Rightarrow> zb_neighbor_tbl_ent option" where
  "nb_abs N r = (if r < 101 \<and> addr_to_neighbor N ! r \<noteq> 255 then nb_get N (addr_to_neighbor N ! r) else None)"

definition nb_known :: "zb_neighbor_tbl \<Rightarrow> bool" where
  "nb_known N \<longleftrightarrow> (\<forall>i<32. nb_get N i \<noteq> None)"

text \<open>The extended table, if there is one, starts behind the base entries that may be used.\<close>

definition layout_ok :: "zb_neighbor_tbl \<Rightarrow> bool" where
  "layout_ok N \<longleftrightarrow> (case ext_neighbor N of None \<Rightarrow> True | Some off \<Rightarrow> NB_BYTES * base_neighbor_size N \<le> off)"

lemma nb_wf_sizes: "nb_wf N \<Longrightarrow> length (base_neighbor N) = 32 \<and> length (addr_to_neighbor N) = 101"
  by (simp add: nb_wf_def nb_sizes_def)

lemma nb_wf_mapped: "nb_wf N \<Longrightarrow> r < 101 \<Longrightarrow> addr_to_neighbor N ! r \<noteq> 255 \<Longrightarrow> \<exists>e. mapped N r e (addr_to_neighbor N ! r)"
  unfolding nb_wf_def by blast

lemma nb_wf_used: "nb_wf N \<Longrightarrow> nb_get N i = Some e \<Longrightarrow> ne_used e \<Longrightarrow> ne_addr_ref e < 101 \<and> addr_to_neighbor N ! ne_addr_ref e = i"
  unfolding nb_wf_def by blast

lemma nb_wf_abs: "nb_wf N \<Longrightarrow> nb_abs N r = Some e \<longleftrightarrow> r < 101 \<and> mapped N r e (addr_to_neighbor N ! r)"
  using nb_wf_mapped [of N r] by (auto simp: nb_abs_def mapped_def)

text \<open>The abstract map holds exactly the used entries.\<close>

lemma nb_abs_iff:
  assumes "nb_wf N" "r < 101"
  shows "nb_abs N r = Some e \<longleftrightarrow> (\<exists>i. nb_get N i = Some e \<and> ne_used e \<and> ne_addr_ref e = r)"
proof
  assume "nb_abs N r = Some e"
  then show "\<exists>i. nb_get N i = Some e \<and> ne_used e \<and> ne_addr_ref e = r" using nb_wf_abs [OF assms(1)] by (auto simp: mapped_def)
next
  assume "\<exists>i. nb_get N i = Some e \<and> ne_used e \<and> ne_addr_ref e = r"
  then obtain i where i: "nb_get N i = Some e" "ne_used e" "ne_addr_ref e = r" by blast
  then have a: "addr_to_neighbor N ! r = i" using nb_wf_used [OF assms(1) i(1,2)] by simp
  have "i < 32" using i(1) nb_wf_sizes [OF assms(1)] by (auto simp: nb_get_def aget_def split: if_splits)
  then show "nb_abs N r = Some e" using assms(2) a i(1) by (simp add: nb_abs_def)
qed

lemma nb_get_nth: "length (base_neighbor N) = 32 \<Longrightarrow> i < 32 \<Longrightarrow> nb_get N i = base_neighbor N ! i"
  by (simp add: nb_get_def)

lemma nb_get_32: "length (base_neighbor N) = 32 \<Longrightarrow> nb_get N i = Some e \<Longrightarrow> i < 32"
  by (auto simp: nb_get_def aget_def split: if_splits)

text \<open>A write to a base entry inside the bounds.\<close>

lemma nb_put_ok:
  assumes "length (base_neighbor N) = 32" "i < 32"
  shows "\<exists>N'. nb_put i e N = Some N' \<and> base_neighbor N' = (base_neighbor N)[i := Some e]
    \<and> addr_to_neighbor N' = addr_to_neighbor N \<and> base_neighbor_size N' = base_neighbor_size N
    \<and> base_neighbor_used N' = base_neighbor_used N \<and> ext_neighbor N' = ext_neighbor N
    \<and> ext_neighbor_size N' = ext_neighbor_size N \<and> ext_neighbor_used N' = ext_neighbor_used N
    \<and> incoming_frame_counter_clock N' = incoming_frame_counter_clock N
    \<and> ext_ents N' = (case ext_neighbor N of None \<Rightarrow> ext_ents N | Some off \<Rightarrow> clobber (nb_ext_overlap off i) (ext_ents N))"
  using assms by (simp add: nb_put_def)

lemma nb_ext_apart: "NB_BYTES * n \<le> off \<Longrightarrow> i < n \<Longrightarrow> \<not> nb_ext_overlap off i k"
proof -
  assume a: "NB_BYTES * n \<le> off" "i < n"
  then have "NB_BYTES * i + NB_BYTES \<le> NB_BYTES * n" using mult_le_mono2 [of "Suc i" n NB_BYTES] by simp
  with a show ?thesis by (simp add: nb_ext_overlap_def overlaps_def)
qed

lemma nb_put_layout:
  assumes "length (base_neighbor N) = 32" "i < base_neighbor_size N" "base_neighbor_size N \<le> 32" "layout_ok N"
  shows "nb_put i e N = Some (N\<lparr>base_neighbor := (base_neighbor N)[i := Some e]\<rparr>)"
proof -
  have "clobber (nb_ext_overlap off i) (ext_ents N) = ext_ents N" if "ext_neighbor N = Some off" for off
  proof (rule clobber_none)
    have "NB_BYTES * base_neighbor_size N \<le> off" using assms(4) that by (simp add: layout_ok_def)
    then show "\<forall>k<length (ext_ents N). \<not> nb_ext_overlap off i k" using nb_ext_apart assms(2) by blast
  qed
  then show ?thesis using assms(1-3) by (auto simp: nb_put_def split: option.split)
qed

section \<open>Packing\<close>

definition free_slots :: "zb_neighbor_tbl \<Rightarrow> nat \<Rightarrow> nat \<Rightarrow> bool" where
  "free_slots N a b \<longleftrightarrow> (\<forall>j. a \<le> j \<and> j < b \<longrightarrow> (\<exists>e. nb_get N j = Some e \<and> \<not> ne_used e))"

lemma nb_get_update:
  "length (base_neighbor N) = 32 \<Longrightarrow> base_neighbor N' = (base_neighbor N)[i := Some e] \<Longrightarrow> i < 32 \<Longrightarrow>
   nb_get N' j = (if j = i then Some e else nb_get N j)"
  by (auto simp: nb_get_def aget_def)

lemma pack_move_spec:
  assumes wf: "nb_wf N" and i: "i < 32" and e: "nb_get N i = Some e" "ne_used e" and h: "0 < hole" "hole \<le> i"
    and free: "free_slots N (i - hole) i" and nx: "ext_neighbor N = None"
  shows "\<exists>N'. pack_move i hole e N = Some N' \<and> nb_wf N' \<and> nb_abs N' = nb_abs N
    \<and> (\<forall>j. nb_get N' j = (if j = i then Some (e\<lparr>ne_used := False\<rparr>) else if j = i - hole then Some e else nb_get N j))
    \<and> N' = N\<lparr>base_neighbor := base_neighbor N', addr_to_neighbor := addr_to_neighbor N'\<rparr>"
proof -
  let ?d = "i - hole" and ?r = "ne_addr_ref e" and ?f = "e\<lparr>ne_used := False\<rparr>"
  note sz = nb_wf_sizes [OF wf]
  have d: "?d < i" "?d < 32" using h i by simp_all
  have r: "?r < 101" "addr_to_neighbor N ! ?r = i" using nb_wf_used [OF wf e] by simp_all
  define P where "P = N\<lparr>base_neighbor := (base_neighbor N)[?d := Some e, i := Some ?f],
    addr_to_neighbor := (addr_to_neighbor N)[?r := ?d]\<rparr>"
  have "nb_get N i = base_neighbor N ! i" by (rule nb_get_nth) (use sz i in auto)
  then have run: "pack_move i hole e N = Some P"
    using sz d i r(1) e(1) nx by (simp add: pack_move_def nb_put_def a2n_put_def nb_upd_def nb_get_def P_def)
  have get: "nb_get P j = (if j = i then Some ?f else if j = ?d then Some e else nb_get N j)" for j
    using sz d i by (auto simp: nb_get_def aget_def P_def)
  have a2n: "addr_to_neighbor P ! s = (if s = ?r then ?d else addr_to_neighbor N ! s)" if "s < 101" for s
    using sz that by (simp add: P_def)
  have szP: "nb_sizes P" "base_neighbor_used P = base_neighbor_used N" using sz by (simp_all add: nb_sizes_def P_def)
  obtain e0 where e0: "nb_get N ?d = Some e0" "\<not> ne_used e0" using free d(1) by (auto simp: free_slots_def)
  have iu: "i < base_neighbor_used N" using nb_wf_mapped [OF wf r(1)] r(2) i by (auto simp: mapped_def)
  have m: "mapped P s x (addr_to_neighbor P ! s)" if "s < 101" "mapped N s x (addr_to_neighbor N ! s)" for s x
  proof (cases "s = ?r")
    case True
    then have "nb_get N i = Some x" using that(2) unfolding mapped_def True r(2) by blast
    then have "x = e" using e(1) by simp
    moreover have "addr_to_neighbor P ! s = ?d" using a2n [OF that(1)] True by simp
    ultimately show ?thesis using get [of ?d] e(2) d iu True szP(2) unfolding mapped_def by simp
  next
    case False
    have "addr_to_neighbor N ! s \<noteq> i"
    proof
      assume "addr_to_neighbor N ! s = i"
      then have "nb_get N i = Some x" "ne_addr_ref x = s" using that(2) unfolding mapped_def by blast+
      then show False using False e(1) by simp
    qed
    moreover have "addr_to_neighbor N ! s \<noteq> ?d"
    proof
      assume "addr_to_neighbor N ! s = ?d"
      then have "nb_get N ?d = Some x" "ne_used x" using that(2) unfolding mapped_def by (metis, blast)
      then show False using e0 by simp
    qed
    moreover have "addr_to_neighbor P ! s = addr_to_neighbor N ! s" using a2n [OF that(1)] False by simp
    ultimately show ?thesis using that(2) get [of "addr_to_neighbor N ! s"] szP(2) unfolding mapped_def by simp
  qed
  have wfN: "nb_wf P"
  proof -
    have "addr_to_neighbor P ! s = 255 \<or> (\<exists>x. mapped P s x (addr_to_neighbor P ! s))" if s: "s < 101" for s
    proof (cases "addr_to_neighbor N ! s = 255")
      case True
      then have "s \<noteq> ?r" using r(2) i by auto
      then show ?thesis using True a2n [OF s] by simp
    next
      case False
      then show ?thesis using nb_wf_mapped [OF wf s] m [OF s] by blast
    qed
    moreover have "ne_addr_ref x < 101 \<and> addr_to_neighbor P ! ne_addr_ref x = j" if "nb_get P j = Some x" "ne_used x" for j x
    proof -
      have "j \<noteq> i" using that get [of j] by auto
      show ?thesis
      proof (cases "j = ?d")
        case True
        then have "x = e" using that(1) get [of j] \<open>j \<noteq> i\<close> by simp
        then show ?thesis using r(1) a2n [OF r(1)] True by simp
      next
        case False
        then have "nb_get N j = Some x" using that(1) get [of j] \<open>j \<noteq> i\<close> by simp
        from nb_wf_used [OF wf this that(2)] have x: "ne_addr_ref x < 101" "addr_to_neighbor N ! ne_addr_ref x = j" by simp_all
        then have "ne_addr_ref x \<noteq> ?r" using r(2) \<open>j \<noteq> i\<close> by auto
        then show ?thesis using x a2n by simp
      qed
    qed
    ultimately show ?thesis using szP(1) unfolding nb_wf_def by blast
  qed
  have "nb_abs P s = nb_abs N s" for s
  proof (cases "s < 101 \<and> addr_to_neighbor N ! s \<noteq> 255")
    case True
    then obtain x where x: "mapped N s x (addr_to_neighbor N ! s)" using nb_wf_mapped [OF wf] by blast
    then show ?thesis using nb_wf_abs [OF wf, of s x] nb_wf_abs [OF wfN, of s x] m [of s x] True by simp
  next
    case False
    then have "s < 101 \<Longrightarrow> s \<noteq> ?r" using r(2) i by auto
    then show ?thesis using False a2n by (auto simp: nb_abs_def)
  qed
  then have "nb_abs P = nb_abs N" by (rule ext)
  moreover have "P = N\<lparr>base_neighbor := base_neighbor P, addr_to_neighbor := addr_to_neighbor P\<rparr>" by (simp add: P_def)
  ultimately show ?thesis using run wfN get by blast
qed

lemma pack_loop_spec:
  "nb_wf N \<Longrightarrow> nb_known N \<Longrightarrow> base_neighbor_size N = 32 \<Longrightarrow> ext_neighbor N = None \<Longrightarrow> hole \<le> i \<Longrightarrow> i \<le> 32 \<Longrightarrow>
   free_slots N (i - hole) i \<Longrightarrow>
   \<exists>N'. pack_loop i used hole N = Some N' \<and> nb_wf N' \<and> nb_known N' \<and> nb_abs N' = nb_abs N
     \<and> N' = N\<lparr>base_neighbor := base_neighbor N', addr_to_neighbor := addr_to_neighbor N'\<rparr>"
proof (induction "32 - i" arbitrary: i used hole N)
  case 0
  then show ?case by (subst pack_loop.simps) simp
next
  case (Suc k)
  then have i: "i < 32" and k: "k = 32 - (i + 1)" by simp_all
  show ?case
  proof (cases "used < base_neighbor_used N")
    case False
    then show ?thesis using Suc.prems by (subst pack_loop.simps) simp
  next
    case True
    obtain e where e: "nb_get N i = Some e" using Suc.prems(2) i by (auto simp: nb_known_def)
    consider (keep) "ne_used e" "hole = 0" | (move) "ne_used e" "hole \<noteq> 0" | (hole) "\<not> ne_used e" by blast
    then show ?thesis
    proof cases
      case keep
      have "pack_loop i used hole N = pack_loop (i + 1) (used + 1) hole N"
        using keep e True i Suc.prems(3) by (subst pack_loop.simps) simp
      moreover have "free_slots N (i + 1 - hole) (i + 1)" using keep(2) unfolding free_slots_def by auto
      ultimately show ?thesis using Suc.hyps(1) [OF k Suc.prems(1-4), of hole "used + 1"] keep i by simp
    next
      case hole
      have "pack_loop i used hole N = pack_loop (i + 1) used (hole + 1) N"
        using hole e True i Suc.prems(3) by (subst pack_loop.simps) simp
      moreover have "free_slots N (i - hole) (i + 1)"
        using Suc.prems(7) hole e by (auto simp: free_slots_def less_Suc_eq)
      ultimately show ?thesis using Suc.hyps(1) [OF k Suc.prems(1-4), of "hole + 1" used] Suc.prems(5) i by simp
    next
      case move
      from pack_move_spec [OF Suc.prems(1) i e move(1) _ Suc.prems(5,7,4)] move(2) obtain M where
        M: "pack_move i hole e N = Some M" "nb_wf M" "nb_abs M = nb_abs N"
        "\<forall>j. nb_get M j = (if j = i then Some (e\<lparr>ne_used := False\<rparr>) else if j = i - hole then Some e else nb_get N j)"
        "M = N\<lparr>base_neighbor := base_neighbor M, addr_to_neighbor := addr_to_neighbor M\<rparr>" by auto
      have run: "pack_loop i used hole N = pack_loop (i + 1) (used + 1) (hole - 1) M"
        using move e True i Suc.prems(3) M(1) by (subst pack_loop.simps) simp
      have kn: "nb_known M" using Suc.prems(2) M(4) by (auto simp: nb_known_def)
      have same: "base_neighbor_size M = 32" "ext_neighbor M = None" using M(5) Suc.prems(3,4)
        by (metis zb_neighbor_tbl.surjective zb_neighbor_tbl.select_convs zb_neighbor_tbl.update_convs)+
      have "free_slots M (i + 1 - (hole - 1)) (i + 1)"
        unfolding free_slots_def
      proof (intro allI impI)
        fix j assume j: "i + 1 - (hole - 1) \<le> j \<and> j < i + 1"
        show "\<exists>e. nb_get M j = Some e \<and> \<not> ne_used e"
        proof (cases "j = i")
          case True
          then show ?thesis using M(4) by simp
        next
          case False
          then have "j \<noteq> i - hole" "i - hole \<le> j" "j < i" using j move(2) Suc.prems(5) by linarith+
          then show ?thesis using M(4) False Suc.prems(7) by (simp add: free_slots_def)
        qed
      qed
      moreover have "hole - 1 \<le> i + 1" "i + 1 \<le> 32" using Suc.prems(5) i by simp_all
      ultimately obtain N' where N': "pack_loop (i + 1) (used + 1) (hole - 1) M = Some N'" "nb_wf N'" "nb_known N'"
        "nb_abs N' = nb_abs M" "N' = M\<lparr>base_neighbor := base_neighbor N', addr_to_neighbor := addr_to_neighbor N'\<rparr>"
        using Suc.hyps(1) [OF k M(2) kn same] by blast
      have "N' = N\<lparr>base_neighbor := base_neighbor N', addr_to_neighbor := addr_to_neighbor N'\<rparr>"
        using N'(5) M(5) by (cases N; cases M; cases N') simp
      then show ?thesis using N' M(3) run by simp
    qed
  qed
qed

section \<open>The cut\<close>

lemma ext_offset_small: "16 \<le> n \<Longrightarrow> n \<le> 25 \<Longrightarrow>
  NB_BYTES * n \<le> ext_offset n \<and> ext_offset n + EXT_BYTES * ext_count n (32 - n) \<le> 320 \<and> 0 < ext_count n (32 - n)"
proof -
  assume "16 \<le> n" "n \<le> 25"
  then have "n = 16 \<or> n = 17 \<or> n = 18 \<or> n = 19 \<or> n = 20 \<or> n = 21 \<or> n = 22 \<or> n = 23 \<or> n = 24 \<or> n = 25" by presburger
  then show ?thesis by (elim disjE; simp add: ext_offset_def ext_count_def NB_BYTES_def EXT_BYTES_def MAGIC_ROUND_TO_4_def)
qed

lemma ext_offset_wraps: "26 \<le> n \<Longrightarrow> n \<le> 30 \<Longrightarrow>
  ext_offset n < 50 \<and> ext_offset n + EXT_BYTES * ext_count n (32 - n) \<le> NB_BYTES * n \<and> 0 < ext_count n (32 - n)"
proof -
  assume "26 \<le> n" "n \<le> 30"
  then have "n = 26 \<or> n = 27 \<or> n = 28 \<or> n = 29 \<or> n = 30" by presburger
  then show ?thesis by (elim disjE; simp add: ext_offset_def ext_count_def NB_BYTES_def EXT_BYTES_def MAGIC_ROUND_TO_4_def)
qed

lemma ext_count_zero: "31 \<le> n \<Longrightarrow> n \<le> 32 \<Longrightarrow> ext_count n (32 - n) = 0"
proof -
  assume "31 \<le> n" "n \<le> 32"
  then have "n = 31 \<or> n = 32" by presburger
  then show ?thesis by (elim disjE; simp add: ext_offset_def ext_count_def NB_BYTES_def EXT_BYTES_def MAGIC_ROUND_TO_4_def)
qed

definition start_ready :: "zb_neighbor_tbl \<Rightarrow> bool" where
  "start_ready N \<longleftrightarrow> nb_wf N \<and> nb_known N \<and> base_neighbor_size N = 32 \<and> base_neighbor_used N \<le> 32
     \<and> ext_neighbor N = None \<and> ext_neighbor_size N = 0 \<and> ext_neighbor_used N = 0"

lemma nb_wf_cong:
  assumes "nb_wf N" "base_neighbor N' = base_neighbor N" "addr_to_neighbor N' = addr_to_neighbor N"
    "base_neighbor_used N' = base_neighbor_used N"
  shows "nb_wf N' \<and> nb_abs N' = nb_abs N \<and> (\<forall>i. nb_get N' i = nb_get N i)"
proof -
  have g: "nb_get N' = nb_get N" using assms(2) by (intro ext) (simp add: nb_get_def)
  then have m: "mapped N' = mapped N" using assms(4) by (intro ext) (simp add: mapped_def)
  have "nb_wf N' = nb_wf N" unfolding nb_wf_def nb_sizes_def g m assms(2,3) ..
  moreover have "nb_abs N' = nb_abs N" unfolding nb_abs_def g assms(3) ..
  ultimately show ?thesis using assms(1) g by simp
qed

lemma start_run:
  assumes "start_ready N"
  shows "\<exists>N1. nb_wf N1 \<and> nb_known N1 \<and> nb_abs N1 = nb_abs N \<and> base_neighbor_used N1 = base_neighbor_used N
    \<and> ext_neighbor_used N1 = 0
    \<and> (let n = max 16 (base_neighbor_used N); m = ext_count n (32 - n) in zb_nwk_exneighbor_start N =
      (if m = 0 then None else Some (N1\<lparr>base_neighbor_size := n, ext_neighbor := Some (ext_offset n),
         ext_ents := replicate m None, ext_neighbor_size := m\<rparr>)))"
proof -
  have N: "nb_wf N" "nb_known N" "base_neighbor_size N = 32" "base_neighbor_used N \<le> 32" "ext_neighbor N = None"
    "ext_neighbor_size N = 0" "ext_neighbor_used N = 0" using assms by (simp_all add: start_ready_def)
  obtain N1 where N1: "pack_loop 0 0 0 N = Some N1" "nb_wf N1" "nb_known N1" "nb_abs N1 = nb_abs N"
    "N1 = N\<lparr>base_neighbor := base_neighbor N1, addr_to_neighbor := addr_to_neighbor N1\<rparr>"
    using pack_loop_spec [OF N(1,2,3,5), of 0 0 0] by (auto simp: free_slots_def)
  have f: "base_neighbor_used N1 = base_neighbor_used N" "base_neighbor_size N1 = 32" "ext_neighbor_used N1 = 0"
    using N1(5) N(3,7) by (cases N; cases N1; simp)+
  define M where "M = (if base_neighbor_used N \<noteq> 0 then N1 else N)"
  have M: "(if base_neighbor_used N \<noteq> 0 then pack_loop 0 0 0 N else Some N) = Some M" "nb_wf M" "nb_known M"
    "nb_abs M = nb_abs N" "base_neighbor_used M = base_neighbor_used N" "base_neighbor_size M = 32" "ext_neighbor_used M = 0"
    using N N1 f by (simp_all add: M_def)
  have c: "cut_size M = 32 - max 16 (base_neighbor_used N)"
    using M(5,6) N(4) by (auto simp: cut_size_def max_def)
  have n: "nat ((int (base_neighbor_size M) - int (cut_size M)) mod 2 ^ 32) = max 16 (base_neighbor_used N)"
    unfolding c using M(6) N(4) by auto
  show ?thesis
    using M N(6) n by (intro exI [of _ M]) (simp add: zb_nwk_exneighbor_start_def Let_def zb_assert_def c)
qed

text \<open>
  cutting the extended table out of the base table keeps every neighbor: with at most 25 slots in
  use, \<open>zb_nwk_exneighbor_start\<close> packs the table without losing or changing the entry of any address,
  and the bytes of the extended table lie behind the base slots that stay and inside the array.
\<close>

theorem zb_nwk_exneighbor_start_keeps:
  assumes "start_ready N" "base_neighbor_used N \<le> 25"
  shows "\<exists>N'. zb_nwk_exneighbor_start N = Some N' \<and> nb_wf N' \<and> nb_abs N' = nb_abs N \<and> layout_ok N'
    \<and> base_neighbor_used N' \<le> base_neighbor_size N' \<and> 0 < ext_neighbor_size N'
    \<and> (\<exists>off. ext_neighbor N' = Some off \<and> NB_BYTES * base_neighbor_size N' \<le> off
         \<and> off + EXT_BYTES * ext_neighbor_size N' \<le> NB_BYTES * ZB_NEIGHBOR_TABLE_SIZE)"
proof -
  let ?n = "max 16 (base_neighbor_used N)"
  have n: "16 \<le> ?n" "?n \<le> 25" using assms(2) by simp_all
  note eo = ext_offset_small [OF n]
  obtain N1 where N1: "nb_wf N1" "nb_abs N1 = nb_abs N" "base_neighbor_used N1 = base_neighbor_used N"
    "zb_nwk_exneighbor_start N = (if ext_count ?n (32 - ?n) = 0 then None
      else Some (N1\<lparr>base_neighbor_size := ?n, ext_neighbor := Some (ext_offset ?n),
         ext_ents := replicate (ext_count ?n (32 - ?n)) None, ext_neighbor_size := ext_count ?n (32 - ?n)\<rparr>))"
    using start_run [OF assms(1)] unfolding Let_def by blast
  define N' where "N' = N1\<lparr>base_neighbor_size := ?n, ext_neighbor := Some (ext_offset ?n),
         ext_ents := replicate (ext_count ?n (32 - ?n)) None, ext_neighbor_size := ext_count ?n (32 - ?n)\<rparr>"
  have "nb_wf N' \<and> nb_abs N' = nb_abs N1 \<and> (\<forall>i. nb_get N' i = nb_get N1 i)"
    by (rule nb_wf_cong [OF N1(1)]) (simp_all add: N'_def)
  moreover have "zb_nwk_exneighbor_start N = Some N'" using N1(4) eo by (simp add: N'_def)
  moreover have "base_neighbor_size N' = ?n" "ext_neighbor N' = Some (ext_offset ?n)"
    "ext_neighbor_size N' = ext_count ?n (32 - ?n)" "base_neighbor_used N' = base_neighbor_used N"
    using N1(3) by (simp_all add: N'_def)
  moreover have "NB_BYTES * ZB_NEIGHBOR_TABLE_SIZE = 320" by (simp add: NB_BYTES_def nwk_consts)
  ultimately show ?thesis using N1(2) eo by (simp add: layout_ok_def)
qed

text \<open>
  the byte offset of the extended table is kept in 8 bits. With 26 to 30 slots in use it wraps
  around: the extended table is laid over the first base entries, and allocating the first
  extended entry overwrites a base slot below the ones in use. With 31 or 32 the assertion fails.
\<close>

theorem zb_nwk_exneighbor_start_overlays:
  assumes "start_ready N" "26 \<le> base_neighbor_used N"
  shows "if base_neighbor_used N \<le> 30
    then \<exists>N1 i. zb_nwk_exneighbor_start N = Some N1 \<and> i < base_neighbor_used N \<and> nb_get N1 i \<noteq> None
      \<and> (\<exists>N2. alloc_new_extneiboard p a N1 = Some (N2, RET_OK, Some 0) \<and> nb_get N2 i = None)
    else zb_nwk_exneighbor_start N = None"
proof -
  let ?n = "base_neighbor_used N"
  let ?m = "ext_count ?n (32 - ?n)"
  have n: "max 16 ?n = ?n" using assms(2) by simp
  obtain N1 where N1: "nb_wf N1" "nb_known N1" "base_neighbor_used N1 = ?n" "ext_neighbor_used N1 = 0"
    "zb_nwk_exneighbor_start N = (if ?m = 0 then None else Some (N1\<lparr>base_neighbor_size := ?n,
       ext_neighbor := Some (ext_offset ?n), ext_ents := replicate ?m None, ext_neighbor_size := ?m\<rparr>))"
    using start_run [OF assms(1)] unfolding Let_def n by blast
  show ?thesis
  proof (cases "?n \<le> 30")
    case True
    note eo = ext_offset_wraps [OF assms(2) True]
    let ?N = "N1\<lparr>base_neighbor_size := ?n, ext_neighbor := Some (ext_offset ?n), ext_ents := replicate ?m None, ext_neighbor_size := ?m\<rparr>"
    let ?i = "ext_offset ?n div 10"
    have i: "?i < ?n" "?i < 32" using eo assms(2) by (simp_all add: div_less_iff_less_mult)
    have len: "length (base_neighbor N1) = 32" using nb_wf_sizes [OF N1(1)] by simp
    let ?e = "zero_ext\<lparr>xe_short_addr := a, xe_panid_ref := word_of_nat p\<rparr>"
    let ?N2 = "?N\<lparr>ext_neighbor_used := 1, ext_ents := (replicate ?m None)[0 := Some ?e],
      base_neighbor := clobber (\<lambda>i. nb_ext_overlap (ext_offset ?n) i 0) (base_neighbor N1)\<rparr>"
    have "ext_put 0 ?e (?N\<lparr>ext_neighbor_used := 1\<rparr>) = Some ?N2"
      using eo len by (simp add: ext_put_def NB_BYTES_def EXT_BYTES_def)
    then have "alloc_new_extneiboard p a ?N = Some (?N2, RET_OK, Some 0)"
      using N1(4) eo by (simp add: alloc_new_extneiboard_def)
    moreover have "nb_ext_overlap (ext_offset ?n) ?i 0"
      by (simp add: nb_ext_overlap_def overlaps_def NB_BYTES_def EXT_BYTES_def) linarith
    then have "nb_get ?N2 ?i = None" using i len by (simp add: nb_get_def)
    moreover have "nb_get ?N ?i \<noteq> None" using N1(2) i by (auto simp: nb_known_def nb_get_def)
    moreover have "zb_nwk_exneighbor_start N = Some ?N" using N1(5) eo by simp
    ultimately show ?thesis using True i by auto
  next
    case False
    have "?n \<le> 32" using assms(1) by (simp add: start_ready_def)
    then have "?m = 0" using ext_count_zero [of ?n] False by simp
    then show ?thesis using False N1(5) by simp
  qed
qed

section \<open>The map of the neighbors\<close>

lemma nb_add:
  assumes wf: "nb_wf N" and r: "r < 101" "addr_to_neighbor N ! r = 255" and n: "base_neighbor_used N < 32"
    and e: "ne_used e" "ne_addr_ref e = r"
    and N': "base_neighbor N' = (base_neighbor N)[base_neighbor_used N := Some e]"
      "addr_to_neighbor N' = (addr_to_neighbor N)[r := base_neighbor_used N]" "base_neighbor_used N' = Suc (base_neighbor_used N)"
  shows "nb_wf N'" and "nb_abs N' = (nb_abs N)(r \<mapsto> e)"
proof -
  let ?n = "base_neighbor_used N"
  note sz = nb_wf_sizes [OF wf]
  have get: "nb_get N' j = (if j = ?n then Some e else nb_get N j)" for j
    using nb_get_update [OF _ N'(1)] sz n by simp
  have a2n: "addr_to_neighbor N' ! s = (if s = r then ?n else addr_to_neighbor N ! s)" if "s < 101" for s
    using sz that by (simp add: N'(2))
  have szN: "nb_sizes N'" using sz by (simp add: nb_sizes_def N')
  have m: "mapped N' s x (addr_to_neighbor N' ! s)" if "s < 101" "s \<noteq> r" "mapped N s x (addr_to_neighbor N ! s)" for s x
    using that a2n [OF that(1)] get [of "addr_to_neighbor N ! s"] N'(3) unfolding mapped_def by simp
  have mr: "mapped N' r e (addr_to_neighbor N' ! r)"
    using a2n [OF r(1)] get [of ?n] n e N'(3) unfolding mapped_def by simp
  have "ne_addr_ref x < 101 \<and> addr_to_neighbor N' ! ne_addr_ref x = j" if j: "nb_get N' j = Some x" "ne_used x" for j x
  proof (cases "j = ?n")
    case True
    then have "x = e" using j(1) get [of j] by simp
    then show ?thesis using e(2) r(1) a2n [OF r(1)] True by simp
  next
    case False
    then have jx: "nb_get N j = Some x" using j(1) get [of j] by simp
    from nb_wf_used [OF wf this j(2)] have x: "ne_addr_ref x < 101" "addr_to_neighbor N ! ne_addr_ref x = j" by simp_all
    have "j < 32" using nb_get_32 [OF _ jx] sz by simp
    then have "ne_addr_ref x \<noteq> r" using x(2) r(2) by auto
    then show ?thesis using x a2n by simp
  qed
  moreover have "addr_to_neighbor N' ! s = 255 \<or> (\<exists>x. mapped N' s x (addr_to_neighbor N' ! s))" if s: "s < 101" for s
    using nb_wf_mapped [OF wf s] m [OF s] mr a2n [OF s] by (cases "s = r") auto
  ultimately show wfN: "nb_wf N'" using szN unfolding nb_wf_def by blast
  show "nb_abs N' = (nb_abs N)(r \<mapsto> e)"
  proof (rule ext)
    fix s
    show "nb_abs N' s = ((nb_abs N)(r \<mapsto> e)) s"
    proof (cases "s = r")
      case True
      then show ?thesis using nb_wf_abs [OF wfN, of r e] mr r(1) by simp
    next
      case False
      show ?thesis
      proof (cases "nb_abs N s")
        case None
        then have "s < 101 \<Longrightarrow> addr_to_neighbor N ! s = 255"
          using nb_wf_mapped [OF wf, of s] by (auto simp: nb_abs_def mapped_def split: if_splits)
        then show ?thesis using None False a2n by (auto simp: nb_abs_def)
      next
        case (Some x)
        then show ?thesis using nb_wf_abs [OF wf, of s x] nb_wf_abs [OF wfN, of s x] m [of s x] False by simp
      qed
    qed
  qed
qed

lemma nb_remove:
  assumes wf: "nb_wf N" and r: "r < 101" "mapped N r e n" "addr_to_neighbor N ! r = n"
    and N': "base_neighbor N' = (base_neighbor N)[n := Some (e\<lparr>ne_used := False\<rparr>)]"
      "addr_to_neighbor N' = (addr_to_neighbor N)[r := 255]" "base_neighbor_used N' = base_neighbor_used N"
  shows "nb_wf N'" and "nb_abs N' = (nb_abs N)(r := None)"
proof -
  note sz = nb_wf_sizes [OF wf]
  have n: "n < 32" using r(2) nb_get_32 sz unfolding mapped_def by blast
  have get: "nb_get N' j = (if j = n then Some (e\<lparr>ne_used := False\<rparr>) else nb_get N j)" for j
    using nb_get_update [OF _ N'(1)] sz n by simp
  have a2n: "addr_to_neighbor N' ! s = (if s = r then 255 else addr_to_neighbor N ! s)" if "s < 101" for s
    using sz that by (simp add: N'(2))
  have szN: "nb_sizes N'" using sz by (simp add: nb_sizes_def N')
  have m: "mapped N' s x (addr_to_neighbor N' ! s)" if "s < 101" "s \<noteq> r" "mapped N s x (addr_to_neighbor N ! s)" for s x
  proof -
    have "addr_to_neighbor N ! s \<noteq> n"
    proof
      assume "addr_to_neighbor N ! s = n"
      then have "nb_get N n = Some x" "ne_addr_ref x = s" using that(3) unfolding mapped_def by blast+
      then show False using r(2) that(2) unfolding mapped_def by simp
    qed
    then show ?thesis using that a2n [OF that(1)] get [of "addr_to_neighbor N ! s"] N'(3) unfolding mapped_def by simp
  qed
  have "ne_addr_ref x < 101 \<and> addr_to_neighbor N' ! ne_addr_ref x = j" if j: "nb_get N' j = Some x" "ne_used x" for j x
  proof -
    have jn: "j \<noteq> n" using j get [of j] by auto
    then have "nb_get N j = Some x" using j(1) get [of j] by simp
    from nb_wf_used [OF wf this j(2)] have x: "ne_addr_ref x < 101" "addr_to_neighbor N ! ne_addr_ref x = j" by simp_all
    then have "ne_addr_ref x \<noteq> r" using r(3) jn by auto
    then show ?thesis using x a2n by simp
  qed
  moreover have "addr_to_neighbor N' ! s = 255 \<or> (\<exists>x. mapped N' s x (addr_to_neighbor N' ! s))" if s: "s < 101" for s
    using nb_wf_mapped [OF wf s] m [OF s] a2n [OF s] by (cases "s = r") auto
  ultimately show wfN: "nb_wf N'" using szN unfolding nb_wf_def by blast
  show "nb_abs N' = (nb_abs N)(r := None)"
  proof (rule ext)
    fix s
    show "nb_abs N' s = ((nb_abs N)(r := None)) s"
    proof (cases "s = r")
      case True
      then show ?thesis using a2n [OF r(1)] by (simp add: nb_abs_def)
    next
      case False
      show ?thesis
      proof (cases "nb_abs N s")
        case None
        then have "s < 101 \<Longrightarrow> addr_to_neighbor N ! s = 255"
          using nb_wf_mapped [OF wf, of s] by (auto simp: nb_abs_def mapped_def split: if_splits)
        then show ?thesis using None False a2n by (auto simp: nb_abs_def)
      next
        case (Some x)
        then show ?thesis using nb_wf_abs [OF wf, of s x] nb_wf_abs [OF wfN, of s x] m [of s x] False by simp
      qed
    qed
  qed
qed

lemma nb_abs_None: "nb_wf N \<Longrightarrow> r < 101 \<Longrightarrow> nb_abs N r = None \<Longrightarrow> addr_to_neighbor N ! r = 255"
  using nb_wf_mapped [of N r] by (auto simp: nb_abs_def mapped_def split: if_splits)

lemma delete_spec:
  assumes wf: "nb_wf N" and r: "r < 101"
  shows "case nb_abs N r of
      None \<Rightarrow> zb_nwk_neighbor_delete r N = Some (N, RET_NOT_FOUND)
    | Some e \<Rightarrow> \<exists>N'. zb_nwk_neighbor_delete r N = Some (N', RET_OK) \<and> nb_wf N' \<and> nb_abs N' = (nb_abs N)(r := None)
        \<and> base_neighbor_used N' = base_neighbor_used N \<and> base_neighbor_size N' = base_neighbor_size N
        \<and> ext_neighbor N' = ext_neighbor N"
proof (cases "nb_abs N r")
  case None
  then show ?thesis using nb_abs_None [OF wf r] nb_wf_sizes [OF wf] r by (simp add: zb_nwk_neighbor_delete_def a2n_get_def)
next
  case (Some e)
  note sz = nb_wf_sizes [OF wf]
  let ?n = "addr_to_neighbor N ! r"
  have m: "mapped N r e ?n" using Some nb_wf_abs [OF wf] by blast
  then have n: "?n < 32" "?n \<noteq> 255" "nb_get N ?n = Some e" using nb_get_32 sz unfolding mapped_def by blast+
  let ?M = "N\<lparr>addr_to_neighbor := (addr_to_neighbor N)[r := 255]\<rparr>"
  have "a2n_put r 255 N = Some ?M" using sz r by (simp add: a2n_put_def)
  moreover obtain N' where N': "nb_put ?n (e\<lparr>ne_used := False\<rparr>) ?M = Some N'"
    "base_neighbor N' = (base_neighbor N)[?n := Some (e\<lparr>ne_used := False\<rparr>)]" "addr_to_neighbor N' = (addr_to_neighbor N)[r := 255]"
    "base_neighbor_used N' = base_neighbor_used N" "base_neighbor_size N' = base_neighbor_size N" "ext_neighbor N' = ext_neighbor N"
    using nb_put_ok [of ?M ?n "e\<lparr>ne_used := False\<rparr>"] sz n(1) by auto
  moreover have "nb_get ?M ?n = Some e" using n(3) by (simp add: nb_get_def)
  ultimately have "zb_nwk_neighbor_delete r N = Some (N', RET_OK)"
    using sz r n by (simp add: zb_nwk_neighbor_delete_def a2n_get_def nb_upd_def)
  then show ?thesis using Some nb_remove [OF wf r m refl N'(2-4)] N'(4-6) by auto
qed

text \<open>The entry of a neighbor that has just been created.\<close>

definition new_nb :: "nat \<Rightarrow> 'z zb_globals_n_scheme \<Rightarrow> zb_neighbor_tbl_ent" where
  "new_nb r g = zero_nb\<lparr>ne_used := True, ne_addr_ref := r, ne_relationship := ZB_NWK_RELATIONSHIP_NONE_OF_THE_ABOVE,
     ne_permit_joining := 2, ne_depth := ucast (nib_depth (nib (nwk g)))\<rparr>"

lemma get_create:
  assumes wf: "nb_wf (neighbor (nwk g))" and r: "r < 101" "nb_abs (neighbor (nwk g)) r = None"
    and n: "base_neighbor_used (neighbor (nwk g)) < 32"
      "base_neighbor_used (neighbor (nwk g)) \<noteq> dec32 (base_neighbor_size (neighbor (nwk g)))"
    and lock: "zb_address_lock r (addr g) = Some A"
  shows "\<exists>N'. zb_nwk_neighbor_get r True g = Some (upd_nbt (\<lambda>_. N') (g\<lparr>addr := A\<rparr>), RET_OK, Some (base_neighbor_used (neighbor (nwk g))))
    \<and> nb_wf N' \<and> nb_abs N' = (nb_abs (neighbor (nwk g)))(r \<mapsto> new_nb r g)
    \<and> base_neighbor_used N' = Suc (base_neighbor_used (neighbor (nwk g)))
    \<and> base_neighbor_size N' = base_neighbor_size (neighbor (nwk g)) \<and> ext_neighbor N' = ext_neighbor (neighbor (nwk g))
    \<and> ext_ents N' = (case ext_neighbor (neighbor (nwk g)) of None \<Rightarrow> ext_ents (neighbor (nwk g))
        | Some off \<Rightarrow> clobber (nb_ext_overlap off (base_neighbor_used (neighbor (nwk g)))) (ext_ents (neighbor (nwk g))))"
proof -
  let ?N = "neighbor (nwk g)"
  let ?n = "base_neighbor_used ?N" and ?e = "new_nb r g"
  note sz = nb_wf_sizes [OF wf]
  have a: "addr_to_neighbor ?N ! r = 255" using nb_abs_None [OF wf r] .
  let ?M = "?N\<lparr>addr_to_neighbor := (addr_to_neighbor ?N)[r := ?n], base_neighbor_used := Suc ?n\<rparr>"
  obtain N' where N': "nb_put ?n ?e ?M = Some N'"
    "base_neighbor N' = (base_neighbor ?N)[?n := Some ?e]" "addr_to_neighbor N' = (addr_to_neighbor ?N)[r := ?n]"
    "base_neighbor_used N' = Suc ?n" "base_neighbor_size N' = base_neighbor_size ?N" "ext_neighbor N' = ext_neighbor ?N"
    "ext_ents N' = (case ext_neighbor ?N of None \<Rightarrow> ext_ents ?N | Some off \<Rightarrow> clobber (nb_ext_overlap off ?n) (ext_ents ?N))"
    using nb_put_ok [of ?M ?n ?e] sz n(1) by (auto cong: option.case_cong)
  have "zb_nwk_neighbor_get r True g = Some (upd_nbt (\<lambda>_. N') (g\<lparr>addr := A\<rparr>), RET_OK, Some ?n)"
    using sz r(1) a n lock N'(1) by (simp add: zb_nwk_neighbor_get_def a2n_get_def a2n_put_def new_nb_def)
  moreover have "ne_used ?e" "ne_addr_ref ?e = r" by (simp_all add: new_nb_def)
  ultimately show ?thesis using nb_add [OF wf r(1) a n(1) _ _ N'(2-4)] N'(4-7) by auto
qed

text \<open>
  C29: \<open>zb_nwk_neighbor_get\<close> implements a lookup in a map with creation on demand: a known neighbor is
  returned as it is; an unknown one is created, with its address locked and only its own entry of the map
  changed, or refused with \<open>RET_NO_MEMORY\<close> when all slots but the last are taken, or with
  \<open>RET_NOT_FOUND\<close> when creation is not asked for; the lock's assertion is the only way to fail, and
  the extended table is not touched.
\<close>

theorem zb_nwk_neighbor_get_refines:
  fixes g :: "'z zb_globals_n_scheme"
  assumes wf: "nb_wf (neighbor (nwk g))" "layout_ok (neighbor (nwk g))" and r: "r < 101"
    and n: "base_neighbor_used (neighbor (nwk g)) < base_neighbor_size (neighbor (nwk g))"
      "base_neighbor_size (neighbor (nwk g)) \<le> 32"
  shows "case nb_abs (neighbor (nwk g)) r of
      Some e \<Rightarrow> \<exists>i. zb_nwk_neighbor_get r create g = Some (g, RET_OK, Some i) \<and> nb_get (neighbor (nwk g)) i = Some e
    | None \<Rightarrow>
        if \<not> create then zb_nwk_neighbor_get r create g = Some (g, RET_NOT_FOUND, None)
        else if base_neighbor_used (neighbor (nwk g)) = base_neighbor_size (neighbor (nwk g)) - 1
        then zb_nwk_neighbor_get r create g = Some (g, RET_NO_MEMORY, None)
        else case zb_address_lock r (addr g) of None \<Rightarrow> zb_nwk_neighbor_get r create g = None
          | Some A \<Rightarrow> \<exists>N'. zb_nwk_neighbor_get r create g = Some (upd_nbt (\<lambda>_. N') (g\<lparr>addr := A\<rparr>), RET_OK,
                Some (base_neighbor_used (neighbor (nwk g))))
              \<and> nb_wf N' \<and> nb_abs N' = (nb_abs (neighbor (nwk g)))(r \<mapsto> new_nb r g)
              \<and> ext_ents N' = ext_ents (neighbor (nwk g))"
proof -
  let ?N = "neighbor (nwk g)"
  note sz = nb_wf_sizes [OF wf(1)]
  have d: "dec32 (base_neighbor_size ?N) = base_neighbor_size ?N - 1" using n(1) by simp
  show ?thesis
  proof (cases "nb_abs ?N r")
    case (Some e)
    then have "mapped ?N r e (addr_to_neighbor ?N ! r)" using nb_wf_abs [OF wf(1)] by blast
    then show ?thesis using Some sz r by (simp add: zb_nwk_neighbor_get_def a2n_get_def mapped_def)
  next
    case None
    note a = nb_abs_None [OF wf(1) r None]
    show ?thesis
    proof (cases "create \<and> base_neighbor_used ?N \<noteq> base_neighbor_size ?N - 1")
      case False
      then show ?thesis using None a sz r d by (auto simp: zb_nwk_neighbor_get_def a2n_get_def)
    next
      case True
      show ?thesis
      proof (cases "zb_address_lock r (addr g)")
        case None
        then show ?thesis using True a sz r d \<open>nb_abs ?N r = None\<close>
          by (simp add: zb_nwk_neighbor_get_def a2n_get_def)
      next
        case (Some A)
        have "base_neighbor_used ?N < 32" "base_neighbor_used ?N \<noteq> dec32 (base_neighbor_size ?N)" using n d True by simp_all
        from get_create [OF wf(1) r None this Some] obtain N' where
          N': "zb_nwk_neighbor_get r True g = Some (upd_nbt (\<lambda>_. N') (g\<lparr>addr := A\<rparr>), RET_OK, Some (base_neighbor_used ?N))"
          "nb_wf N'" "nb_abs N' = (nb_abs ?N)(r \<mapsto> new_nb r g)"
          "ext_ents N' = (case ext_neighbor ?N of None \<Rightarrow> ext_ents ?N
             | Some off \<Rightarrow> clobber (nb_ext_overlap off (base_neighbor_used ?N)) (ext_ents ?N))" by blast
        have "ext_ents N' = ext_ents ?N"
        proof (cases "ext_neighbor ?N")
          case (Some off)
          then have "NB_BYTES * base_neighbor_size ?N \<le> off" using wf(2) by (simp add: layout_ok_def)
          then show ?thesis using N'(4) Some nb_ext_apart n(1) by (simp add: clobber_none)
        qed (use N'(4) in simp)
        then show ?thesis using N'(1-3) True Some \<open>nb_abs ?N r = None\<close> by auto
      qed
    qed
  qed
qed

section \<open>Slots that are never given back\<close>

text \<open>Neighbors that come and go, one after the other.\<close>

fun churn :: "nat list \<Rightarrow> 'z zb_globals_n_scheme \<Rightarrow> 'z zb_globals_n_scheme option" where
  "churn [] g = Some g"
| "churn (r # rs) g = do {
     (g1, _, _) \<leftarrow> zb_nwk_neighbor_get r True g;
     (N, _) \<leftarrow> zb_nwk_neighbor_delete r (neighbor (nwk g1));
     churn rs (upd_nbt (\<lambda>_. N) g1) }"

lemma lock_spec:
  assumes "length (addr_map A) = 101" "r < 101" "am_lock_cnt (addr_map A ! r) + 1 \<noteq> 0"
  shows "\<exists>B. zb_address_lock r A = Some B \<and> length (addr_map B) = 101
    \<and> (\<forall>s. am_lock_cnt (addr_map B ! s) = (if s = r then am_lock_cnt (addr_map A ! s) + 1 else am_lock_cnt (addr_map A ! s)))"
  using assms by (simp add: zb_address_lock_def upd_ent_def nth_list_update)

lemma churn_spec:
  "nb_wf (neighbor (nwk g)) \<Longrightarrow> base_neighbor_size (neighbor (nwk g)) = 32 \<Longrightarrow>
   base_neighbor_used (neighbor (nwk g)) + length rs \<le> 31 \<Longrightarrow> distinct rs \<Longrightarrow> length (addr_map (addr g)) = 101 \<Longrightarrow>
   \<forall>r\<in>set rs. r < 101 \<and> nb_abs (neighbor (nwk g)) r = None \<and> am_lock_cnt (addr_map (addr g) ! r) + 1 \<noteq> 0 \<Longrightarrow>
   \<exists>g'. churn rs g = Some g' \<and> nb_wf (neighbor (nwk g')) \<and> nb_abs (neighbor (nwk g')) = nb_abs (neighbor (nwk g))
     \<and> base_neighbor_size (neighbor (nwk g')) = 32
     \<and> base_neighbor_used (neighbor (nwk g')) = base_neighbor_used (neighbor (nwk g)) + length rs
     \<and> (\<forall>s. am_lock_cnt (addr_map (addr g') ! s) = (if s \<in> set rs then am_lock_cnt (addr_map (addr g) ! s) + 1
          else am_lock_cnt (addr_map (addr g) ! s)))"
proof (induction rs arbitrary: g)
  case (Cons r rs)
  let ?N = "neighbor (nwk g)"
  have r: "r < 101" "nb_abs ?N r = None" "am_lock_cnt (addr_map (addr g) ! r) + 1 \<noteq> 0" using Cons.prems(6) by simp_all
  obtain A where A: "zb_address_lock r (addr g) = Some A" "length (addr_map A) = 101"
    "\<forall>s. am_lock_cnt (addr_map A ! s) = (if s = r then am_lock_cnt (addr_map (addr g) ! s) + 1 else am_lock_cnt (addr_map (addr g) ! s))"
    using lock_spec [OF Cons.prems(5) r(1,3)] by blast
  have "base_neighbor_used ?N < 32" "base_neighbor_used ?N \<noteq> dec32 (base_neighbor_size ?N)" using Cons.prems(2,3) by simp_all
  from get_create [OF Cons.prems(1) r(1,2) this A(1)] obtain N1 where
    N1: "zb_nwk_neighbor_get r True g = Some (upd_nbt (\<lambda>_. N1) (g\<lparr>addr := A\<rparr>), RET_OK, Some (base_neighbor_used ?N))"
    "nb_wf N1" "nb_abs N1 = (nb_abs ?N)(r \<mapsto> new_nb r g)" "base_neighbor_used N1 = Suc (base_neighbor_used ?N)"
    "base_neighbor_size N1 = base_neighbor_size ?N" by blast
  from delete_spec [OF N1(2) r(1)] N1(3) obtain N2 where
    N2: "zb_nwk_neighbor_delete r N1 = Some (N2, RET_OK)" "nb_wf N2" "nb_abs N2 = (nb_abs N1)(r := None)"
    "base_neighbor_used N2 = base_neighbor_used N1" "base_neighbor_size N2 = base_neighbor_size N1" by auto
  have abs: "nb_abs N2 = nb_abs ?N" using N2(3) N1(3) r(2) by (simp add: fun_upd_idem)
  let ?g = "upd_nbt (\<lambda>_. N2) (g\<lparr>addr := A\<rparr>)"
  have step: "churn (r # rs) g = churn rs ?g" using N1(1) N2(1) by (simp add: upd_nbt_def)
  have ga: "addr ?g = A" "neighbor (nwk ?g) = N2" by simp_all
  have p: "base_neighbor_size N2 = 32" "base_neighbor_used N2 + length rs \<le> 31" "distinct rs"
    "\<forall>s\<in>set rs. s < 101 \<and> nb_abs N2 s = None \<and> am_lock_cnt (addr_map A ! s) + 1 \<noteq> 0"
    using Cons.prems(2,3,4,6) N2(4,5) N1(4,5) A(3) abs by auto
  from Cons.IH [of ?g, unfolded ga, OF N2(2) p(1-3) A(2) p(4)] obtain g' where
    "churn rs ?g = Some g'" "nb_wf (neighbor (nwk g'))" "nb_abs (neighbor (nwk g')) = nb_abs N2"
    "base_neighbor_size (neighbor (nwk g')) = 32"
    "base_neighbor_used (neighbor (nwk g')) = base_neighbor_used N2 + length rs"
    "\<forall>s. am_lock_cnt (addr_map (addr g') ! s) = (if s \<in> set rs then am_lock_cnt (addr_map A ! s) + 1 else am_lock_cnt (addr_map A ! s))"
    by blast
  then show ?case using step abs N2(4) N1(4) A(3) Cons.prems(4) by auto
qed auto

text \<open>
  \<open>zb_nwk_neighbor_delete\<close> frees neither the slot nor the lock that \<open>zb_nwk_neighbor_get\<close> took. When
  as many neighbors have come and gone as there were slots left (31 in an empty table),
  the map of the neighbors is what it was, but every further neighbor is refused with
  \<open>RET_NO_MEMORY\<close>, and the addresses of those that are gone stay locked.
\<close>

theorem zb_nwk_neighbor_delete_leaks:
  fixes g :: "'z zb_globals_n_scheme"
  assumes "nb_wf (neighbor (nwk g))" "base_neighbor_size (neighbor (nwk g)) = 32" "length (addr_map (addr g)) = 101"
    and "distinct rs" "base_neighbor_used (neighbor (nwk g)) + length rs = 31"
    and "\<forall>r\<in>set rs. r < 101 \<and> nb_abs (neighbor (nwk g)) r = None \<and> am_lock_cnt (addr_map (addr g) ! r) + 1 \<noteq> 0"
  shows "\<exists>g'. churn rs g = Some g' \<and> nb_abs (neighbor (nwk g')) = nb_abs (neighbor (nwk g))
    \<and> (\<forall>r. r < 101 \<and> nb_abs (neighbor (nwk g)) r = None \<longrightarrow> zb_nwk_neighbor_get r True g' = Some (g', RET_NO_MEMORY, None))
    \<and> (\<forall>r\<in>set rs. am_lock_cnt (addr_map (addr g') ! r) = am_lock_cnt (addr_map (addr g) ! r) + 1)"
proof -
  from churn_spec [OF assms(1,2) _ assms(4,3,6)] assms(5) obtain g' where
    g': "churn rs g = Some g'" "nb_wf (neighbor (nwk g'))" "nb_abs (neighbor (nwk g')) = nb_abs (neighbor (nwk g))"
    "base_neighbor_size (neighbor (nwk g')) = 32" "base_neighbor_used (neighbor (nwk g')) = 31"
    "\<forall>s. am_lock_cnt (addr_map (addr g') ! s) = (if s \<in> set rs then am_lock_cnt (addr_map (addr g) ! s) + 1
          else am_lock_cnt (addr_map (addr g) ! s))" by auto
  have "zb_nwk_neighbor_get r True g' = Some (g', RET_NO_MEMORY, None)" if "r < 101" "nb_abs (neighbor (nwk g)) r = None" for r
  proof -
    have "addr_to_neighbor (neighbor (nwk g')) ! r = 255" using nb_abs_None [OF g'(2) that(1)] g'(3) that(2) by simp
    then show ?thesis using that(1) g'(4,5) nb_wf_sizes [OF g'(2)] by (simp add: zb_nwk_neighbor_get_def a2n_get_def)
  qed
  then show ?thesis using g' by auto
qed

section \<open>A full table\<close>

text \<open>
  the check for a full table misses a base table that the cut has made exactly full: with 17 to 25
  neighbors, all slots that the cut leaves are in use, and the next new neighbor is written
  behind them, over the extended table, whose first entry it destroys.
\<close>

theorem zb_nwk_neighbor_get_overruns:
  fixes g :: "'z zb_globals_n_scheme"
  assumes "start_ready (neighbor (nwk g))" "17 \<le> base_neighbor_used (neighbor (nwk g))"
    "base_neighbor_used (neighbor (nwk g)) \<le> 25"
    and r: "r < 101" "nb_abs (neighbor (nwk g)) r = None" and lock: "zb_address_lock r (addr g) = Some A"
  shows "\<exists>N1 N2 g' n. zb_nwk_exneighbor_start (neighbor (nwk g)) = Some N1
    \<and> alloc_new_extneiboard p a N1 = Some (N2, RET_OK, Some 0) \<and> ext_get N2 0 \<noteq> None
    \<and> zb_nwk_neighbor_get r True (upd_nbt (\<lambda>_. N2) g) = Some (g', RET_OK, Some n)
    \<and> ext_get (neighbor (nwk g')) 0 = None"
proof -
  let ?N = "neighbor (nwk g)"
  let ?n = "base_neighbor_used ?N"
  let ?m = "ext_count ?n (32 - ?n)"
  have n: "max 16 ?n = ?n" using assms(2) by simp
  have "16 \<le> ?n" using assms(2) by simp
  note eo = ext_offset_small [OF this assms(3)]
  obtain M where M: "nb_wf M" "nb_abs M = nb_abs ?N" "base_neighbor_used M = ?n" "ext_neighbor_used M = 0"
    "zb_nwk_exneighbor_start ?N = (if ?m = 0 then None else Some (M\<lparr>base_neighbor_size := ?n,
       ext_neighbor := Some (ext_offset ?n), ext_ents := replicate ?m None, ext_neighbor_size := ?m\<rparr>))"
    using start_run [OF assms(1)] unfolding Let_def n by blast
  let ?N1 = "M\<lparr>base_neighbor_size := ?n, ext_neighbor := Some (ext_offset ?n), ext_ents := replicate ?m None, ext_neighbor_size := ?m\<rparr>"
  let ?e = "zero_ext\<lparr>xe_short_addr := a, xe_panid_ref := word_of_nat p\<rparr>"
  have len: "length (base_neighbor M) = 32" using nb_wf_sizes [OF M(1)] by simp
  define N2 where "N2 = ?N1\<lparr>ext_neighbor_used := 1, ext_ents := (replicate ?m None)[0 := Some ?e],
      base_neighbor := clobber (\<lambda>i. nb_ext_overlap (ext_offset ?n) i 0) (base_neighbor M)\<rparr>"
  have "ext_put 0 ?e (?N1\<lparr>ext_neighbor_used := 1\<rparr>) = Some N2"
    using eo len by (simp add: ext_put_def NB_BYTES_def EXT_BYTES_def N2_def)
  then have al: "alloc_new_extneiboard p a ?N1 = Some (N2, RET_OK, Some 0)"
    using M(4) eo by (simp add: alloc_new_extneiboard_def)
  have x: "ext_get N2 0 \<noteq> None" using eo by (simp add: ext_get_def N2_def)
  have keep: "nb_get N2 i = nb_get M i" if "i < ?n" for i
    using that len nb_ext_apart [OF conjunct1 [OF eo] that, of 0] assms(3) by (simp add: nb_get_def N2_def)
  have none: "nb_get N2 i = None \<or> nb_get N2 i = nb_get M i" for i
    using len by (cases "i < 32") (simp_all add: nb_get_def N2_def)
  have f: "addr_to_neighbor N2 = addr_to_neighbor M" "base_neighbor_used N2 = ?n" "base_neighbor_size N2 = ?n"
    "ext_neighbor N2 = Some (ext_offset ?n)" "ext_ents N2 = (replicate ?m None)[0 := Some ?e]"
    using M(3) by (simp_all add: N2_def)
  have mp: "mapped N2 s z i" if "mapped M s z i" for s z i
    using that keep [of i] M(3) f(2) unfolding mapped_def by simp
  have wf2: "nb_wf N2"
  proof -
    have "nb_sizes N2" using nb_wf_sizes [OF M(1)] by (simp add: nb_sizes_def N2_def)
    moreover have "addr_to_neighbor N2 ! s = 255 \<or> (\<exists>z. mapped N2 s z (addr_to_neighbor N2 ! s))" if "s < 101" for s
      using nb_wf_mapped [OF M(1) that] mp unfolding f(1) by blast
    moreover have "ne_addr_ref z < 101 \<and> addr_to_neighbor N2 ! ne_addr_ref z = i" if "nb_get N2 i = Some z" "ne_used z" for i z
      using nb_wf_used [OF M(1) _ that(2), of i] none [of i] that(1) unfolding f(1) by simp
    ultimately show ?thesis unfolding nb_wf_def by blast
  qed
  have ar: "addr_to_neighbor M ! r = 255" using nb_abs_None [OF M(1) r(1)] M(2) r(2) by simp
  have abs2: "nb_abs N2 r = None" unfolding nb_abs_def f(1) using ar by simp
  let ?g = "upd_nbt (\<lambda>_. N2) g"
  have nb: "neighbor (nwk ?g) = N2" by simp
  have "zb_address_lock r (addr ?g) = Some A" using lock by simp
  moreover have "?n < 32" "?n \<noteq> dec32 ?n" using assms(2,3) by simp_all
  ultimately obtain N' where N': "zb_nwk_neighbor_get r True ?g = Some (upd_nbt (\<lambda>_. N') (?g\<lparr>addr := A\<rparr>), RET_OK, Some ?n)"
    "ext_ents N' = clobber (nb_ext_overlap (ext_offset ?n) ?n) (ext_ents N2)"
    using get_create [of ?g r A] wf2 r(1) abs2 unfolding nb f by auto
  have "?n = 17 \<or> ?n = 18 \<or> ?n = 19 \<or> ?n = 20 \<or> ?n = 21 \<or> ?n = 22 \<or> ?n = 23 \<or> ?n = 24 \<or> ?n = 25"
    using assms(2,3) by presburger
  then have "nb_ext_overlap (ext_offset ?n) ?n 0"
    by (elim disjE; simp add: nb_ext_overlap_def overlaps_def ext_offset_def NB_BYTES_def EXT_BYTES_def MAGIC_ROUND_TO_4_def)
  then have "ext_get N' 0 = None" using N'(2) f(5) eo by (simp add: ext_get_def)
  moreover have "zb_nwk_exneighbor_start ?N = Some ?N1" using M(5) eo by simp
  ultimately show ?thesis using al x N'(1) by auto
qed

end
