(* ===== verification/Zb_Addr_Update.thy ===== *)
theory Zb_Addr_Update
  imports Zb_Addr_Ieee
begin

text \<open>
  \<^verbatim>\<open>zb_address_update\<close> for a device of which neither address is known: it makes one entry that both
  addresses resolve to.
\<close>

lemma compress_again_new:
  assumes "length a = 8" "manuf_wf A" "zb_ieee_addr_compress a A = Some (A1, c)" "added A1 i c s B"
    "addr_wf B" "ieee_search c A1 = None"
  shows "\<exists>D. zb_ieee_addr_compress a B = Some (D, c) \<and> addr_map D = addr_map B \<and> ieee_search c D = Some i"
proof -
  have e: "used_manufacturer B = used_manufacturer A1" "dev_manufacturer B = dev_manufacturer A1"
      "ent_used B i" "am_ieee (addr_map B ! i) = c" "\<forall>s<101. s \<noteq> i \<longrightarrow> ent_same A1 B s" "i < 101"
    using assms(4) by (simp_all add: added_def)
  obtain D where D: "zb_ieee_addr_compress a B = Some (D, c)" "addr_map D = addr_map B"
    using compress_again [OF assms(1,2,3) e(1,2)] by blast
  have uD: "ent_used D s = ent_used B s" for s by (simp add: ent_used_def D(2))
  have only: "s = i" if "ent_used B s" "am_ieee (addr_map B ! s) = c" for s
  proof (rule ccontr)
    assume "s \<noteq> i"
    then have "ent_same A1 B s" using e(5) that(1) by (simp add: ent_used_def)
    then have "ent_used A1 s" "am_ieee (addr_map A1 ! s) = c"
      using that ent_same_fields by (auto simp: ent_used_def)
    then show False using ieee_search_spec [where c = c and A = A1] assms(6) by simp
  qed
  have "ieee_search c D = Some i"
  proof (cases "ieee_search c D")
    case None
    then show ?thesis using ieee_search_spec [where c = c and A = D] e(3,4) by (simp add: uD D(2))
  next
    case (Some s)
    then have "ent_used B s" "am_ieee (addr_map B ! s) = c"
      using ieee_search_spec [where c = c and A = D] by (simp_all add: uD D(2))
    then show ?thesis using only Some by blast
  qed
  then show ?thesis using D by blast
qed

lemma update_new:
  assumes wf: "addr_wf A" and l: "length a = 8" and c: "zb_ieee_addr_compress a A = Some (A1, c)"
    and new: "\<forall>r. \<not> has_short A s r" "ieee_search c A1 = None" and n: "n_elements A \<noteq> 101"
  shows "addr_wf A1 \<and> (\<exists>B i. zb_address_update a s False A = Some (B, RET_OK, Some i) \<and> addr_wf B \<and> added A1 i c s B)"
proof -
  have mw: "manuf_wf A" using addr_wf_sizes [OF wf] by (simp add: sizes_ok_def)
  note cc = compress_cases [OF l mw c]
  have s1: "sizes_ok A1" using addr_wf_sizes [OF wf] cc by (simp add: sizes_ok_def)
  have wf1: "addr_wf A1"
    by (rule addr_wf_cong [OF wf s1]) (use cc in \<open>simp_all add: sorted_refs_def\<close>)
  have hs: "\<forall>r. \<not> has_short A1 s r"
  proof -
    have m: "addr_map A1 = addr_map A" "sorted_refs A1 = sorted_refs A" using cc by (simp_all add: sorted_refs_def)
    show ?thesis using new(1) by (simp add: has_short_def ent_addr_def m)
  qed
  have n1: "n_elements A1 \<noteq> 101" using cc n by simp
  obtain B i where B: "addr_add (Some c) s A1 = Some (B, RET_OK, Some i)" "addr_wf B" "added A1 i c s B"
    using addr_add_spec [OF wf1, of s "Some c"] hs n1 by auto
  have "short_search s A1 = Some None" using short_search_spec [OF wf1, of s] hs by blast
  then have "zb_address_update a s False A = Some (B, RET_OK, Some i)"
    using c new(2) B(1) by (simp add: zb_address_update_def lock_if_def)
  then show ?thesis using wf1 B(2,3) by blast
qed

text \<open>
  an update joins the two addresses of a device: when neither the short nor the long address is in the
  table, a manufacturer slot is found and the table is not full, \<open>zb_address_update\<close> makes one entry, keeps the
  table's invariant, and looking up either address afterwards gives that entry, which holds both.
\<close>

theorem zb_address_update_joins:
  assumes "addr_wf A" "length a = 8" "zb_ieee_addr_compress a A = Some (A1, c)"
    "\<forall>r. \<not> has_short A s r" "ieee_search c A1 = None" "n_elements A \<noteq> 101" "s \<noteq> -1"
  shows "\<exists>B i. zb_address_update a s False A = Some (B, RET_OK, Some i) \<and> addr_wf B
    \<and> zb_address_by_ref i B = Some (a, s)
    \<and> (\<exists>C. zb_address_by_short s False False B = Some (C, RET_OK, Some i))
    \<and> (\<exists>C. zb_address_by_ieee a False False B = Some (C, RET_OK, Some i))"
proof -
  have mw: "manuf_wf A" using addr_wf_sizes [OF assms(1)] by (simp add: sizes_ok_def)
  obtain B i where B: "zb_address_update a s False A = Some (B, RET_OK, Some i)" "addr_wf B" "added A1 i c s B"
    using update_new [OF assms(1-6)] by blast
  have e: "used_manufacturer B = used_manufacturer A1" "dev_manufacturer B = dev_manufacturer A1"
    "ent_used B i" "ent_addr B i = s" "am_ieee (addr_map B ! i) = c" "i < 101"
    using B(3) by (simp_all add: added_def)
  have len: "length (addr_map B) = 101" using B(2) by simp
  have "zb_ieee_addr_decompress c A1 = Some a" using compress_roundtrip [OF mw assms(2)] assms(3) by (auto split: if_splits)
  moreover have "zb_ieee_addr_decompress c B = zb_ieee_addr_decompress c A1"
    using e(1,2) by (simp add: zb_ieee_addr_decompress_def)
  ultimately have ref: "zb_address_by_ref i B = Some (a, s)"
    using e(4,5,6) len by (simp add: zb_address_by_ref_def ent_addr_def)
  have "has_short B s i" using e(3,4,6) by (simp add: has_short_iff [OF B(2) assms(7)])
  then have "short_search s B = Some (Some i)"
    using short_search_spec [OF B(2), of s] has_short_unique [OF B(2)] by blast
  then have sh: "\<exists>C. zb_address_by_short s False False B = Some (C, RET_OK, Some i)"
    using e(6) len by (simp add: zb_address_by_short_def lock_if_def)
  obtain D where "zb_ieee_addr_compress a B = Some (D, c)" "addr_map D = addr_map B" "ieee_search c D = Some i"
    using compress_again_new [OF assms(2) mw assms(3) B(3,2) assms(5)] by blast
  then have "\<exists>C. zb_address_by_ieee a False False B = Some (C, RET_OK, Some i)"
    using e(6) len by (simp add: zb_address_by_ieee_def lock_if_def)
  then show ?thesis using B(1,2) ref sh by blast
qed

lemma zero_no_entries:
  "\<not> ent_used addr_zero r" "\<not> has_short addr_zero s r" "n_elements addr_zero \<noteq> 101"
proof -
  show "\<not> ent_used addr_zero r" by (cases "r < 101") (simp_all add: ent_used_def addr_zero_def zero_ent_def)
  show "\<not> has_short addr_zero s r" by (simp add: has_short_def sorted_refs_def addr_zero_def)
qed (simp add: addr_zero_def)

lemma zero_search:
  assumes "length a = 8" "zb_ieee_addr_compress a addr_zero = Some (A1, c)"
  shows "ieee_search c A1 = None"
proof -
  have "addr_map A1 = addr_map addr_zero" using compress_cases [OF assms(1) manuf_wf_zero assms(2)] by simp
  then have "\<not> ent_used A1 r" for r using zero_no_entries(1) [of r] by (simp add: ent_used_def)
  then show ?thesis using ieee_search_spec [where c = c and A = A1] by (cases "ieee_search c A1") auto
qed

lemma zb_address_update_joins_witness:
  "\<exists>B i. zb_address_update [1, 2, 3, 4, 5, 6, 7, 8] 5 False addr_zero = Some (B, RET_OK, Some i)
    \<and> zb_address_by_ref i B = Some ([1, 2, 3, 4, 5, 6, 7, 8], 5)"
proof -
  let ?a = "[1, 2, 3, 4, 5, 6, 7, 8] :: zb_uint8_t list"
  have l: "length ?a = 8" by simp
  obtain A1 c where c: "zb_ieee_addr_compress ?a addr_zero = Some (A1, c)" using compress_zero [OF l] by blast
  show ?thesis
    using zb_address_update_joins [OF addr_wf_zero l c _ zero_search [OF l c] zero_no_entries(3), of 5] zero_no_entries(2)
    by auto
qed

end
