(* ===== verification/Zb_Nwk_Tree.thy ===== *)
theory Zb_Nwk_Tree
  imports Zb_Neighbor_Props Zb_Addr_Update "HOL-Library.Signed_Division"
begin

text \<open>
  Distributed addresses and tree routing: \<^verbatim>\<open>nwk/nwk_address_assign.c\<close>,
  \<^verbatim>\<open>nwk/nwk_cr_tree_routing.c\<close>, the address macros of \<^verbatim>\<open>nwk/nwk_internal.h\<close>, and the admission of a
  child, \<^verbatim>\<open>zb_nwk_accept_child\<close> of \<^verbatim>\<open>nwk/nwk_cr_join.c\<close>, with \<^verbatim>\<open>zb_nwk_update_beacon_payload\<close> of
  \<^verbatim>\<open>nwk/nwk_cr_formation.c\<close>. Intermediate C values of type \<^verbatim>\<open>int\<close> are Isabelle integers: their
  bounds are far below \<open>2 ^ 31\<close>. A neighbor table entry is named by its index.
\<close>

section \<open>The size of address blocks\<close>

fun cskip_pow :: "nat \<Rightarrow> zb_uint16_t \<Rightarrow> zb_uint16_t \<Rightarrow> zb_uint16_t" where
  "cskip_pow 0 rm tmp = tmp"
| "cskip_pow (Suc i) rm tmp = cskip_pow i rm (tmp * rm)"

definition zb_nwk_daa_calc_cskip :: "zb_uint8_t \<Rightarrow> zb_nib \<Rightarrow> zb_uint16_t" where
  "zb_nwk_daa_calc_cskip d N =
     (let cm = uint (nib_max_children N); rm = uint (nib_max_routers N);
          k = uint (nib_max_depth N) - uint d - 1
      in if nib_max_routers N = 1 then word_of_int (1 + cm * k)
      else let tmp = cskip_pow (nat k) (ucast (nib_max_routers N)) 1;
               num = 1 + cm - rm - cm * uint tmp;
               den = 1 - rm
           in word_of_int (num sdiv den))"

definition ZB_NWK_ROUTER_ADDRESS_ASSIGN :: "zb_uint16_t \<Rightarrow> zb_nib \<Rightarrow> zb_uint16_t" where
  "ZB_NWK_ROUTER_ADDRESS_ASSIGN short_address N = short_address + ucast (nib_router_child_num N) * nib_cskip N + 1"

definition ZB_NWK_ED_ADDRESS_ASSIGN :: "zb_uint16_t \<Rightarrow> zb_nib \<Rightarrow> zb_uint16_t" where
  "ZB_NWK_ED_ADDRESS_ASSIGN short_address N =
     short_address + ucast (nib_max_routers N) * nib_cskip N + ucast (nib_ed_child_num N) + 1"

section \<open>Routing along the tree\<close>

definition zb_nwk_tree_routing_init :: "zb_nib \<Rightarrow> zb_nib" where
  "zb_nwk_tree_routing_init N = N\<lparr>nib_cskip := 0xFFFF\<rparr>"

text \<open>The neighbor with a short address, if the address and the neighbor are known.\<close>

definition neighbor_of_short :: "zb_uint16_t \<Rightarrow> 'z zb_globals_n_scheme
    \<Rightarrow> ('z zb_globals_n_scheme \<times> nat option) option" where
  "neighbor_of_short a g = do {
     (A, r, ref) \<leftarrow> zb_address_by_short a False False (addr g);
     let g1 = g\<lparr>addr := A\<rparr>;
     if r = RET_OK then do {
       x \<leftarrow> ref;
       n \<leftarrow> a2n_get (neighbor (nwk g1)) x;
       Some (g1, if n \<noteq> 255 then Some n else None) }
     else Some (g1, None) }"

text \<open>The loop over the blocks of the child routers: the first address of the block that holds \<open>dest\<close>.\<close>

fun block_search :: "zb_uint16_t \<Rightarrow> zb_uint16_t \<Rightarrow> nat list \<Rightarrow> zb_uint16_t option" where
  "block_search cskip dest [] = None"
| "block_search cskip dest (i # is) =
     (let lower_address = of_nat (unat cskip * i + 1); upper_address = lower_address + cskip
      in if dest > lower_address \<and> dest < upper_address then Some lower_address
      else block_search cskip dest is)"

definition zb_nwk_tree_routing_find_router :: "zb_uint16_t \<Rightarrow> 'z zb_globals_n_scheme
    \<Rightarrow> ('z zb_globals_n_scheme \<times> nat option) option" where
  "zb_nwk_tree_routing_find_router dest_address g = do {
     (g1, n) \<leftarrow> neighbor_of_short dest_address g;
     if n \<noteq> None then Some (g1, n)
     else case block_search (nib_cskip (nib (nwk g1))) dest_address [0..<unat (nib_max_routers (nib (nwk g1)))] of
         None \<Rightarrow> Some (g1, None)
       | Some lower_address \<Rightarrow> neighbor_of_short lower_address g1 }"

definition zb_nwk_tree_routing_route :: "zb_uint16_t \<Rightarrow> 'z zb_globals_n_scheme
    \<Rightarrow> ('z zb_globals_n_scheme \<times> nat option) option" where
  "zb_nwk_tree_routing_route dest_address g = do {
     let N = nib (nwk g);
     let cskip_parent = (if nib_depth N \<noteq> 0 then zb_nwk_daa_calc_cskip (nib_depth N - 1) N else 0);
     let my = mac_short_address (pib g);
     let route_down = (dest_address > my \<and> unat dest_address < unat my + unat cskip_parent);
     if my = 0 \<or> route_down then zb_nwk_tree_routing_find_router dest_address g
     else do {
       (g1, _, n) \<leftarrow> zb_nwk_neighbor_get (hd_parent (nwk_handle (nwk g))) False g;
       Some (g1, n) } }"

section \<open>Admitting children\<close>

definition MAC_SUCCESS :: zb_uint8_t where "MAC_SUCCESS = 0"

definition MAC_OUT_OF_CAP :: zb_uint8_t where "MAC_OUT_OF_CAP = 0xed"

definition ZB_MAC_CAP_GET_DEVICE_TYPE :: "zb_uint8_t \<Rightarrow> zb_uint8_t" where
  "ZB_MAC_CAP_GET_DEVICE_TYPE cap = drop_bit 1 cap AND 1"

definition ZB_MAC_CAP_GET_RX_ON_WHEN_IDLE :: "zb_uint8_t \<Rightarrow> zb_uint8_t" where
  "ZB_MAC_CAP_GET_RX_ON_WHEN_IDLE cap = drop_bit 3 cap AND 1"

definition ZB_MAC_CAP_GET_ALLOCATE_ADDRESS :: "zb_uint8_t \<Rightarrow> zb_uint8_t" where
  "ZB_MAC_CAP_GET_ALLOCATE_ADDRESS cap = drop_bit 7 cap AND 1"

definition ZB_NWK_MAX_DEPTH :: zb_uint8_t where "ZB_NWK_MAX_DEPTH = 5"

definition upd_pib :: "(zb_mac_pib \<Rightarrow> zb_mac_pib) \<Rightarrow> 'z zb_globals_n_scheme \<Rightarrow> 'z zb_globals_n_scheme" where
  "upd_pib f g = g\<lparr>pib := f (pib g)\<rparr>"

definition zb_nwk_update_beacon_payload :: "'z zb_globals_n_scheme \<Rightarrow> 'z zb_globals_n_scheme" where
  "zb_nwk_update_beacon_payload g =
     (let N = nib (nwk g);
          room = nib_depth N < ZB_NWK_MAX_DEPTH;
          permit = (room \<and> mac_association_permit (pib g))
      in upd_pib (\<lambda>p. p\<lparr>mac_association_permit := permit,
           mac_beacon_payload := \<lparr>bp_protocol_id = 0, bp_stack_profile = 1, bp_protocol_version = 2,
             bp_router_capacity = permit, bp_device_depth = ucast (nib_depth N), bp_end_device_capacity = permit,
             bp_extended_panid = nib_extended_pan_id N, bp_txoffset = [0xff, 0xff, 0xff],
             bp_nwk_update_id = nib_update_id N\<rparr>,
           mac_beacon_payload_length := 15\<rparr>) g)"

text \<open>
  A known device that comes with the same capabilities keeps its entry; with others the entry is
  deleted. The result is the entry to keep and its short address.
\<close>

definition known_child :: "zb_ieee_addr_t \<Rightarrow> zb_uint8_t \<Rightarrow> 'z zb_globals_n_scheme
    \<Rightarrow> ('z zb_globals_n_scheme \<times> (nat \<times> zb_uint16_t) option) option" where
  "known_child device_address capability g = do {
     (g1, r, n) \<leftarrow> zb_nwk_neighbor_get_by_ieee device_address g;
     if r = RET_OK then do {
       n \<leftarrow> n;
       e \<leftarrow> nb_get (neighbor (nwk g1)) n;
       if of_bool (ne_device_type e = ZB_NWK_DEVICE_TYPE_ROUTER) = ZB_MAC_CAP_GET_DEVICE_TYPE capability
         \<and> ZB_MAC_CAP_GET_RX_ON_WHEN_IDLE capability = of_bool (ne_rx_on_when_idle e) then do {
         a \<leftarrow> zb_address_short_by_ref (ne_addr_ref e) (addr g1);
         Some (g1, Some (n, a)) }
       else do {
         (N, _) \<leftarrow> zb_nwk_neighbor_delete (ne_addr_ref e) (neighbor (nwk g1));
         Some (upd_nbt (\<lambda>_. N) g1, None) } }
     else Some (g1, None) }"

text \<open>The address for a new child, or \<open>None\<close> for no room: the counters count the children that were admitted.\<close>

definition assign_child_address :: "zb_uint8_t \<Rightarrow> zb_uint16_t \<Rightarrow> zb_nib \<Rightarrow> (zb_uint16_t \<times> zb_nib) option" where
  "assign_child_address capability my N =
     (if unat (nib_max_children N) > unat (nib_ed_child_num N) + unat (nib_router_child_num N)
        \<and> nib_depth N < nib_max_depth N then
        if ZB_MAC_CAP_GET_DEVICE_TYPE capability \<noteq> 0 then
          if nib_router_child_num N < nib_max_routers N then
            Some (if ZB_MAC_CAP_GET_ALLOCATE_ADDRESS capability \<noteq> 0 then ZB_NWK_ROUTER_ADDRESS_ASSIGN my N else 0xfffe,
              N\<lparr>nib_router_child_num := nib_router_child_num N + 1\<rparr>)
          else None
        else Some (if ZB_MAC_CAP_GET_ALLOCATE_ADDRESS capability \<noteq> 0 then ZB_NWK_ED_ADDRESS_ASSIGN my N else 0xfffe,
          N\<lparr>nib_ed_child_num := nib_ed_child_num N + 1\<rparr>)
      else None)"

text \<open>The table entries for a new child: the status and the neighbor entry.\<close>

definition enter_child :: "zb_ieee_addr_t \<Rightarrow> zb_uint16_t \<Rightarrow> 'z zb_globals_n_scheme
    \<Rightarrow> ('z zb_globals_n_scheme \<times> zb_uint8_t \<times> nat option) option" where
  "enter_child device_address a g = do {
     (A, r, ref) \<leftarrow> zb_address_update device_address a True (addr g);
     let g1 = g\<lparr>addr := A\<rparr>;
     if r = RET_OK then do {
       x \<leftarrow> ref;
       (g2, r2, n) \<leftarrow> zb_nwk_neighbor_get x True g1;
       if r2 \<noteq> RET_OK then do {
         A2 \<leftarrow> zb_address_unlock x (addr g2);
         Some (g2\<lparr>addr := A2\<rparr>, MAC_OUT_OF_CAP, None) }
       else Some (g2, MAC_SUCCESS, n) }
     else Some (g1, MAC_OUT_OF_CAP, None) }"

definition child_entry :: "zb_uint8_t \<Rightarrow> zb_uint8_t \<Rightarrow> zb_nib \<Rightarrow> zb_neighbor_tbl_ent \<Rightarrow> zb_neighbor_tbl_ent" where
  "child_entry capability lqi N e =
     (let t = ZB_NWK_DEVICE_TYPE_ED + ucast (ZB_MAC_CAP_GET_DEVICE_TYPE capability)
      in e\<lparr>ne_device_type := t,
         ne_rx_on_when_idle := ZB_MAC_CAP_GET_RX_ON_WHEN_IDLE capability \<noteq> 0,
         ne_relationship := (if nib_security_level N \<noteq> 0 then ZB_NWK_RELATIONSHIP_UNAUTHENTICATED_CHILD
           else ZB_NWK_RELATIONSHIP_CHILD),
         ne_depth := ucast (nib_depth N + of_bool (nib_depth N < nib_max_depth N)),
         ne_permit_joining := (if t = ZB_NWK_DEVICE_TYPE_ED then 0 else ne_permit_joining e),
         ne_lqi := lqi\<rparr>)"

definition stop_permit :: "'z zb_globals_n_scheme \<Rightarrow> 'z zb_globals_n_scheme" where
  "stop_permit g =
     (let N = nib (nwk g)
      in if mac_association_permit (pib g)
        \<and> unat (nib_router_child_num N) + unat (nib_ed_child_num N) \<ge> unat (nib_max_children N)
      then zb_nwk_update_beacon_payload (upd_pib (\<lambda>p. p\<lparr>mac_association_permit := False\<rparr>) g) else g)"

text \<open>The result is the MAC status and, for a device that is accepted, its address.\<close>

definition zb_nwk_accept_child :: "zb_ieee_addr_t \<Rightarrow> zb_uint8_t \<Rightarrow> zb_uint8_t \<Rightarrow> 'z zb_globals_n_scheme
    \<Rightarrow> ('z zb_globals_n_scheme \<times> zb_uint8_t \<times> zb_uint16_t option) option" where
  "zb_nwk_accept_child device_address capability lqi g = do {
     (g1, known) \<leftarrow> known_child device_address capability g;
     (g2, status, n, a) \<leftarrow> (case known of
         Some (n, a) \<Rightarrow> Some (g1, MAC_SUCCESS, Some n, a)
       | None \<Rightarrow>
           case assign_child_address capability (mac_short_address (pib g1)) (nib (nwk g1)) of
             None \<Rightarrow> Some (g1, MAC_OUT_OF_CAP, None, 0xfffe)
           | Some (a, N) \<Rightarrow> do {
               (g2, st, n) \<leftarrow> enter_child device_address a (upd_nib (\<lambda>_. N) g1);
               Some (g2, st, n, a) });
     let g3 = stop_permit g2;
     if status = MAC_SUCCESS then do {
       n \<leftarrow> n;
       B \<leftarrow> nb_upd n (child_entry capability lqi (nib (nwk g3))) (neighbor (nwk g3));
       Some (upd_nbt (\<lambda>_. B) g3, status, Some a) }
     else Some (g3, status, None) }"

end
