(* ===== verification/Zb_Nwk_Tree_Props.thy ===== *)
theory Zb_Nwk_Tree_Props
  imports Zb_Nwk_Tree
begin

text \<open>
  The address blocks of the tree have the size that the children need, so the addresses of a tree are unique
  as long as every device admits the children it has addresses for; the coordinator routes down to the
  right child. And two errors: a router admits more end devices than it has addresses for, and a
  router other than the coordinator does not find the child to route down to.
\<close>

section \<open>The size of address blocks\<close>

text \<open>A block for \<open>k\<close> levels below a router: its own address, a block per child router and one per end device.\<close>

fun block_size :: "nat \<Rightarrow> nat \<Rightarrow> nat \<Rightarrow> nat" where
  "block_size ed rm 0 = 1"
| "block_size ed rm (Suc k) = 1 + rm * block_size ed rm k + ed"

lemma block_size_pos: "0 < block_size ed rm k"
  by (cases k) simp_all

lemma block_size_ge_pow: "rm ^ k \<le> block_size ed rm k"
proof (induction k)
  case (Suc k)
  then have "rm * rm ^ k \<le> rm * block_size ed rm k" by (rule mult_le_mono2)
  then show ?case unfolding power_Suc block_size.simps by linarith
qed simp

lemma block_size_one: "block_size ed 1 k = 1 + (ed + 1) * k"
  by (induction k) simp_all

lemma block_size_closed: "(int rm - 1) * int (block_size ed rm k) = int (rm + ed) * int rm ^ k - 1 - int ed"
  by (induction k) (simp_all add: algebra_simps)

lemma cskip_pow_eq: "cskip_pow k rm tmp = tmp * rm ^ k"
  by (induction k arbitrary: tmp) (simp_all add: mult.assoc)

lemma sdiv_exact:
  fixes b c :: int
  assumes "b \<noteq> 0" shows "(b * c) sdiv b = c"
proof -
  have "\<bar>b * c\<bar> div \<bar>b\<bar> = \<bar>c\<bar>" using assms by (simp add: abs_mult)
  moreover have "sgn (b * c) * sgn b = sgn c"
  proof -
    have "sgn b * sgn b = 1" using assms by (simp add: sgn_if)
    then show ?thesis by (simp add: sgn_mult ac_simps)
  qed
  ultimately show ?thesis by (simp add: signed_divide_int_def sgn_mult_abs)
qed

definition levels_below :: "zb_uint8_t \<Rightarrow> zb_nib \<Rightarrow> nat" where
  "levels_below d N = unat (nib_max_depth N) - unat d - 1"

definition ed_room :: "zb_nib \<Rightarrow> nat" where
  "ed_room N = unat (nib_max_children N) - unat (nib_max_routers N)"

lemma calc_cskip_block_size:
  assumes "nib_max_routers N \<le> nib_max_children N" "d < nib_max_depth N"
    "block_size (ed_room N) (unat (nib_max_routers N)) (levels_below d N) < 2 ^ 16"
  shows "unat (zb_nwk_daa_calc_cskip d N) = block_size (ed_room N) (unat (nib_max_routers N)) (levels_below d N)"
proof -
  define cm rm k where "cm = unat (nib_max_children N)" and "rm = unat (nib_max_routers N)" and "k = levels_below d N"
  define c where "c = block_size (ed_room N) rm k"
  have le: "rm \<le> cm" using assms(1) by (simp add: word_le_nat_alt cm_def rm_def)
  have ed: "ed_room N = cm - rm" by (simp add: ed_room_def cm_def rm_def)
  have kk: "uint (nib_max_depth N) - uint d - 1 = int k"
    using assms(2) unfolding k_def levels_below_def word_less_nat_alt uint_nat by linarith
  have u: "uint (nib_max_children N) = int cm" "uint (nib_max_routers N) = int rm" by (simp_all add: cm_def rm_def)
  have c16: "c < 2 ^ 16" using assms(3) by (simp add: c_def k_def rm_def)
  then have "unat (of_nat c :: zb_uint16_t) = c" by (simp add: unat_of_nat take_bit_nat_eq_self)
  then have res: "unat (word_of_int (int c) :: zb_uint16_t) = c" by simp
  show ?thesis
  proof (cases "nib_max_routers N = 1")
    case True
    then have "rm = 1" by (simp add: rm_def)
    moreover have "ed_room N + 1 = cm" using le \<open>rm = 1\<close> ed by simp
    ultimately have "c = 1 + cm * k" using block_size_one [of "ed_room N" k] by (simp add: c_def)
    then have "int c = 1 + int cm * int k" by simp
    then have "zb_nwk_daa_calc_cskip d N = word_of_int (int c)"
      using True kk u by (simp add: zb_nwk_daa_calc_cskip_def Let_def)
    then show ?thesis using res by (simp add: c_def k_def rm_def)
  next
    case False
    then have r1: "int rm - 1 \<noteq> 0" unfolding rm_def by (metis eq_iff_diff_eq_0 of_nat_1 of_nat_eq_iff unat_1 unsigned_word_eqI)
    have "rm ^ k \<le> c" by (simp add: c_def block_size_ge_pow)
    then have "rm ^ k < 2 ^ 16" using c16 by simp
    moreover have "(ucast (nib_max_routers N) :: zb_uint16_t) = of_nat rm" by (simp add: rm_def)
    ultimately have tmp: "uint (cskip_pow k (ucast (nib_max_routers N)) 1) = int (rm ^ k)"
      by (simp add: cskip_pow_eq uint_nat unat_of_nat flip: of_nat_power)
    have "1 + int cm - int rm - int cm * int (rm ^ k) = (1 - int rm) * int c"
      using block_size_closed [of rm "ed_room N" k] le ed by (simp add: c_def algebra_simps of_nat_diff)
    moreover have "(1 - int rm) * int c sdiv (1 - int rm) = int c" using r1 by (intro sdiv_exact) simp
    ultimately have "zb_nwk_daa_calc_cskip d N = word_of_int (int c)"
      using False kk u tmp by (simp add: zb_nwk_daa_calc_cskip_def Let_def)
    then show ?thesis using res by (simp add: c_def k_def rm_def)
  qed
qed

text \<open>
  the closed formula of \<open>zb_nwk_daa_calc_cskip\<close>, computed with wrapping 16-bit powers and a truncated
  division, is the recursive size of an address block, whenever that size fits in 16 bits.
\<close>

theorem zb_nwk_daa_calc_cskip_is_block_size:
  assumes "nib_max_routers N \<le> nib_max_children N" "d < nib_max_depth N"
    "block_size (ed_room N) (unat (nib_max_routers N)) (levels_below d N) < 2 ^ 16"
  shows "unat (zb_nwk_daa_calc_cskip d N) = block_size (ed_room N) (unat (nib_max_routers N)) (levels_below d N)"
  using assms by (rule calc_cskip_block_size)

section \<open>Addresses in the tree\<close>

text \<open>The way from the coordinator to a device: at each step the number of the child, in the order of joining.\<close>

datatype tree_child = Child_router nat | Child_ed nat

fun tree_path :: "zb_nib \<Rightarrow> nat \<Rightarrow> tree_child list \<Rightarrow> bool" where
  "tree_path N d [] = True"
| "tree_path N d (Child_router i # cs) \<longleftrightarrow> d < unat (nib_max_depth N) \<and> i < unat (nib_max_routers N) \<and> tree_path N (d + 1) cs"
| "tree_path N d (Child_ed j # cs) \<longleftrightarrow> d < unat (nib_max_depth N) \<and> j < ed_room N \<and> cs = []"

definition router_path :: "tree_child list \<Rightarrow> bool" where
  "router_path p \<longleftrightarrow> (\<forall>c\<in>set p. \<exists>i. c = Child_router i)"

text \<open>The NIB of a device at depth \<open>d\<close> that has admitted some routers and end devices.\<close>

definition node_nib :: "zb_nib \<Rightarrow> nat \<Rightarrow> nat \<Rightarrow> nat \<Rightarrow> zb_nib" where
  "node_nib N d routers eds = N\<lparr>nib_depth := of_nat d, nib_cskip := zb_nwk_daa_calc_cskip (of_nat d) N,
     nib_router_child_num := of_nat routers, nib_ed_child_num := of_nat eds\<rparr>"

text \<open>The address a device gets when it joins, from the address \<open>a\<close> of a device at depth \<open>d\<close> above it.\<close>

fun tree_addr_from :: "zb_nib \<Rightarrow> zb_uint16_t \<Rightarrow> nat \<Rightarrow> tree_child list \<Rightarrow> zb_uint16_t" where
  "tree_addr_from N a d [] = a"
| "tree_addr_from N a d (Child_router i # cs) =
     tree_addr_from N (ZB_NWK_ROUTER_ADDRESS_ASSIGN a (node_nib N d i 0)) (d + 1) cs"
| "tree_addr_from N a d (Child_ed j # cs) =
     tree_addr_from N (ZB_NWK_ED_ADDRESS_ASSIGN a (node_nib N d 0 j)) (d + 1) cs"

definition tree_addr :: "zb_nib \<Rightarrow> tree_child list \<Rightarrow> zb_uint16_t" where
  "tree_addr N p = tree_addr_from N 0 0 p"

text \<open>The size of the block of a device at depth \<open>d\<close>, and addresses relative to its start.\<close>

definition block_at :: "zb_nib \<Rightarrow> nat \<Rightarrow> nat" where
  "block_at N d = block_size (ed_room N) (unat (nib_max_routers N)) (unat (nib_max_depth N) - d)"

fun rel_addr :: "zb_nib \<Rightarrow> nat \<Rightarrow> tree_child list \<Rightarrow> nat" where
  "rel_addr N d [] = 0"
| "rel_addr N d (Child_router i # cs) = i * block_at N (d + 1) + 1 + rel_addr N (d + 1) cs"
| "rel_addr N d (Child_ed j # cs) = unat (nib_max_routers N) * block_at N (d + 1) + j + 1 + rel_addr N (d + 1) cs"

lemma block_at_split:
  "d < unat (nib_max_depth N) \<Longrightarrow> block_at N d = 1 + unat (nib_max_routers N) * block_at N (d + 1) + ed_room N"
  by (simp add: block_at_def flip: Suc_diff_Suc)

lemma rel_addr_bound: "tree_path N d p \<Longrightarrow> rel_addr N d p < block_at N d"
proof (induction p arbitrary: d)
  case Nil
  then show ?case by (simp add: block_at_def block_size_pos)
next
  case (Cons c cs)
  let ?rm = "unat (nib_max_routers N)" and ?B = "block_at N (d + 1)"
  show ?case
  proof (cases c)
    case (Child_router i)
    then have "rel_addr N (d + 1) cs < ?B" "i < ?rm" "block_at N d = 1 + ?rm * ?B + ed_room N"
      using Cons block_at_split by auto
    moreover have "(i + 1) * ?B \<le> ?rm * ?B" using \<open>i < ?rm\<close> by (intro mult_le_mono1) simp
    ultimately show ?thesis using Child_router by (simp add: algebra_simps)
  next
    case (Child_ed j)
    then show ?thesis using Cons.prems block_at_split [of d N] by auto
  qed
qed

text \<open>Two paths diverge into different blocks.\<close>

lemma block_digits:
  fixes B :: nat
  assumes "i * B + x = j * B + y" "x < B" "y < B" shows "i = j \<and> x = y"
proof -
  have "(i * B + x) div B = i" "(j * B + y) div B = j" using assms(2,3) by simp_all
  then show ?thesis using assms(1) by auto
qed

lemma rel_addr_ed_beyond:
  assumes "tree_path N d (Child_router i # cs)"
  shows "rel_addr N d (Child_router i # cs) < rel_addr N d (Child_ed j # ds)"
proof -
  let ?B = "block_at N (d + 1)"
  have "rel_addr N (d + 1) cs < ?B" "(i + 1) * ?B \<le> unat (nib_max_routers N) * ?B"
    using assms rel_addr_bound by auto (metis Suc_leI mult_le_mono1 mult_Suc)
  then show ?thesis by (simp add: algebra_simps)
qed

lemma rel_addr_inj: "tree_path N d p \<Longrightarrow> tree_path N d q \<Longrightarrow> rel_addr N d p = rel_addr N d q \<Longrightarrow> p = q"
proof (induction p arbitrary: d q)
  case Nil
  then show ?case by (cases "(N, d, q)" rule: tree_path.cases) auto
next
  case (Cons c cs)
  obtain c' cs' where q: "q = c' # cs'"
  proof (cases q)
    case Nil
    then show ?thesis using Cons.prems(3) by (cases c) auto
  qed auto
  show ?case
  proof (cases c; cases c')
    fix i i' assume c: "c = Child_router i" "c' = Child_router i'"
    then have "rel_addr N (d + 1) cs < block_at N (d + 1)" "rel_addr N (d + 1) cs' < block_at N (d + 1)"
      using Cons.prems q rel_addr_bound by auto
    then have "i = i' \<and> rel_addr N (d + 1) cs = rel_addr N (d + 1) cs'"
      using Cons.prems(3) c q block_digits [of i "block_at N (d + 1)" "rel_addr N (d + 1) cs" i'] by simp
    then show ?thesis using Cons.IH [of "d + 1" cs'] Cons.prems c q by simp
  next
    fix i j assume "c = Child_router i" "c' = Child_ed j"
    then show ?thesis using Cons.prems q rel_addr_ed_beyond [of N d i cs j cs'] by simp
  next
    fix i j assume "c = Child_ed j" "c' = Child_router i"
    then show ?thesis using Cons.prems q rel_addr_ed_beyond [of N d i cs' j cs] by simp
  next
    fix j j' assume "c = Child_ed j" "c' = Child_ed j'"
    then show ?thesis using Cons.prems q by auto
  qed
qed

text \<open>The parameters of a network whose addresses fit in 16 bits.\<close>

definition tree_wf :: "zb_nib \<Rightarrow> bool" where
  "tree_wf N \<longleftrightarrow> nib_max_routers N \<le> nib_max_children N \<and> block_at N 0 < 2 ^ 16"

lemma unat8_less: "unat (x :: 8 word) < 256"
  using unsigned_less [of x] by simp

lemma block_size_mono: "block_size ed rm k \<le> block_size ed rm (Suc k)"
proof (induction k)
  case (Suc k)
  then have "rm * block_size ed rm k \<le> rm * block_size ed rm (Suc k)" by (rule mult_le_mono2)
  then show ?case unfolding block_size.simps(2) by linarith
qed simp

lemma block_at_mono: "block_at N (d + 1) \<le> block_at N d"
  by (cases "d < unat (nib_max_depth N)") (simp_all add: block_at_def block_size_mono del: block_size.simps flip: Suc_diff_Suc)

lemma block_at_small: "tree_wf N \<Longrightarrow> block_at N d < 2 ^ 16"
proof (induction d)
  case (Suc d)
  then show ?case using block_at_mono [of N d] by simp
qed (simp add: tree_wf_def)

lemma cskip_block_at:
  assumes "tree_wf N" "d < unat (nib_max_depth N)"
  shows "unat (zb_nwk_daa_calc_cskip (of_nat d) N) = block_at N (d + 1)"
proof -
  have "d < 256" using assms(2) unat8_less [of "nib_max_depth N"] by simp
  then have u: "unat (of_nat d :: zb_uint8_t) = d" by (rule unat8_of_nat)
  have "levels_below (of_nat d) N = unat (nib_max_depth N) - (d + 1)" by (simp add: levels_below_def u)
  then show ?thesis
    using calc_cskip_block_size [of N "of_nat d"] assms block_at_small [OF assms(1), of "d + 1"]
    by (simp add: tree_wf_def block_at_def word_less_nat_alt u)
qed

lemma cskip_of_nat:
  assumes "tree_wf N" "d < unat (nib_max_depth N)"
  shows "zb_nwk_daa_calc_cskip (of_nat d) N = of_nat (block_at N (d + 1))"
  unfolding cskip_block_at [OF assms, symmetric] by simp

lemma ucast8_of_nat: "i < 256 \<Longrightarrow> (ucast (of_nat i :: 8 word) :: 16 word) = of_nat i"
  by (simp add: unsigned_of_nat take_bit_nat_eq_self)

lemma unat16_add3:
  "unat (a :: 16 word) + n + 1 < 2 ^ 16 \<Longrightarrow> unat (a + of_nat n + 1) = unat a + n + 1"
  by (simp add: unat_word_ariths unat_of_nat)

lemma router_address_step:
  assumes "tree_wf N" "d < unat (nib_max_depth N)" "i < unat (nib_max_routers N)" "unat a + block_at N d < 2 ^ 16"
  shows "unat (ZB_NWK_ROUTER_ADDRESS_ASSIGN a (node_nib N d i j)) = unat a + i * block_at N (d + 1) + 1"
    "i * block_at N (d + 1) + 1 + block_at N (d + 1) \<le> block_at N d"
proof -
  let ?B = "block_at N (d + 1)"
  have "(i + 1) * ?B \<le> unat (nib_max_routers N) * ?B" using assms(3) by (intro mult_le_mono1) simp
  then show le: "i * ?B + 1 + ?B \<le> block_at N d" using block_at_split [OF assms(2)] by simp
  have i: "i < 256" using assms(3) unat8_less [of "nib_max_routers N"] by simp
  have "ucast (of_nat i :: zb_uint8_t) * zb_nwk_daa_calc_cskip (of_nat d) N = (of_nat (i * ?B) :: zb_uint16_t)"
    using ucast8_of_nat [OF i] cskip_of_nat [OF assms(1,2)] by simp
  then show "unat (ZB_NWK_ROUTER_ADDRESS_ASSIGN a (node_nib N d i j)) = unat a + i * ?B + 1"
    using assms(4) le unat16_add3 [of a "i * ?B"] by (simp add: ZB_NWK_ROUTER_ADDRESS_ASSIGN_def node_nib_def)
qed

lemma ed_address_step:
  assumes "tree_wf N" "d < unat (nib_max_depth N)" "j < 256"
    "unat a + unat (nib_max_routers N) * block_at N (d + 1) + j + 1 < 2 ^ 16"
  shows "unat (ZB_NWK_ED_ADDRESS_ASSIGN a (node_nib N d i j)) = unat a + unat (nib_max_routers N) * block_at N (d + 1) + j + 1"
proof -
  let ?n = "unat (nib_max_routers N) * block_at N (d + 1) + j"
  have "(ucast (nib_max_routers N) :: zb_uint16_t) = of_nat (unat (nib_max_routers N))" by simp
  then have "ZB_NWK_ED_ADDRESS_ASSIGN a (node_nib N d i j) = a + of_nat ?n + 1"
    using ucast8_of_nat [OF assms(3)] cskip_of_nat [OF assms(1,2)] by (simp add: ZB_NWK_ED_ADDRESS_ASSIGN_def node_nib_def)
  then show ?thesis using assms(4) unat16_add3 [of a ?n] by (simp add: add.assoc)
qed

lemma tree_addr_from_rel:
  assumes "tree_wf N" "tree_path N d p" "unat a + block_at N d < 2 ^ 16"
  shows "unat (tree_addr_from N a d p) = unat a + rel_addr N d p"
  using assms(2,3)
proof (induction p arbitrary: a d)
  case (Cons c cs)
  show ?case
  proof (cases c)
    case (Child_router i)
    let ?a = "ZB_NWK_ROUTER_ADDRESS_ASSIGN a (node_nib N d i 0)"
    have d: "d < unat (nib_max_depth N)" "i < unat (nib_max_routers N)" using Cons.prems(1) Child_router by auto
    note st = router_address_step(1) [OF assms(1) d Cons.prems(2), of 0] router_address_step(2) [OF assms(1) d Cons.prems(2)]
    have "unat (tree_addr_from N ?a (d + 1) cs) = unat ?a + rel_addr N (d + 1) cs"
      using Cons.prems st Child_router by (intro Cons.IH) auto
    then show ?thesis using st(1) Child_router by simp
  next
    case (Child_ed j)
    have d: "d < unat (nib_max_depth N)" "j < ed_room N" "cs = []" using Cons.prems(1) Child_ed by auto
    have "j < 256" using d(2) unat8_less [of "nib_max_children N"] by (simp add: ed_room_def)
    moreover have "unat a + unat (nib_max_routers N) * block_at N (d + 1) + j + 1 < 2 ^ 16"
      using block_at_split [OF d(1)] d(2) Cons.prems(2) by simp
    ultimately show ?thesis using ed_address_step [OF assms(1) d(1)] Child_ed d(3) by simp
  qed
qed simp

lemma tree_addr_rel: "tree_wf N \<Longrightarrow> tree_path N 0 p \<Longrightarrow> unat (tree_addr N p) = rel_addr N 0 p"
  using tree_addr_from_rel [of N 0 p 0] by (simp add: tree_addr_def tree_wf_def)

text \<open>
  C18: the addresses that a tree of devices hands out are unique: two devices at different places of the tree, each
  admitted in its place among at most \<open>nib_max_routers\<close> routers and the remaining number of end devices, get
  different short addresses, and never the broadcast address 0xFFFF, when the block of the coordinator
  fits in 16 bits.
\<close>

theorem tree_addr_unique:
  assumes "tree_wf N" "tree_path N 0 p" "tree_path N 0 q"
  shows "tree_addr N p \<noteq> 0xFFFF \<and> (tree_addr N p = tree_addr N q \<longleftrightarrow> p = q)"
proof -
  have "unat (tree_addr N p) < 2 ^ 16 - 1"
    using tree_addr_rel [OF assms(1,2)] rel_addr_bound [OF assms(2)] assms(1) by (simp add: tree_wf_def)
  then have "tree_addr N p \<noteq> 0xFFFF" by auto
  then show ?thesis using rel_addr_inj [OF assms(2,3)] tree_addr_rel [OF assms(1)] assms by metis
qed

section \<open>Down or up\<close>

text \<open>A device is in the block of a router exactly when it is below it.\<close>

lemma rel_addr_append:
  "router_path p \<Longrightarrow> rel_addr N d (p @ q) = rel_addr N d p + rel_addr N (d + length p) q"
  by (induction p arbitrary: d) (auto simp: router_path_def)

lemma tree_path_append:
  "router_path p \<Longrightarrow> tree_path N d (p @ q) \<longleftrightarrow> tree_path N d p \<and> tree_path N (d + length p) q"
  by (induction p arbitrary: d) (auto simp: router_path_def)

lemma rel_addr_zero: "rel_addr N d q = 0 \<longleftrightarrow> q = []"
  by (cases "(N, d, q)" rule: rel_addr.cases) auto

lemma router_path_Cons: "router_path (c # p) \<longleftrightarrow> (\<exists>i. c = Child_router i) \<and> router_path p"
  by (simp add: router_path_def)

lemma block_end:
  "router_path p \<Longrightarrow> tree_path N d p \<Longrightarrow> rel_addr N d p + block_at N (d + length p) \<le> block_at N d"
proof (induction p arbitrary: d)
  case (Cons c p)
  obtain i where c: "c = Child_router i" using Cons.prems(1) by (auto simp: router_path_Cons)
  have "rel_addr N (d + 1) p + block_at N (d + 1 + length p) \<le> block_at N (d + 1)"
    using Cons.prems c by (intro Cons.IH) (simp_all add: router_path_Cons)
  moreover have "(i + 1) * block_at N (d + 1) \<le> unat (nib_max_routers N) * block_at N (d + 1)"
    using Cons.prems(2) c by (intro mult_le_mono1) simp
  ultimately show ?case using Cons.prems(2) c block_at_split [of d N] by simp
qed simp

lemma in_block_below:
  assumes "router_path p" "tree_path N d p" "tree_path N d q"
    "rel_addr N d p < rel_addr N d q" "rel_addr N d q < rel_addr N d p + block_at N (d + length p)"
  shows "\<exists>r. q = p @ r \<and> r \<noteq> []"
  using assms
proof (induction p arbitrary: d q)
  case Nil
  then show ?case by (auto simp: rel_addr_zero)
next
  case (Cons c p)
  let ?B = "block_at N (d + 1)"
  obtain i where c: "c = Child_router i" using Cons.prems(1) by (auto simp: router_path_Cons)
  then have p: "router_path p" "tree_path N (d + 1) p" using Cons.prems by (simp_all add: router_path_Cons)
  have e: "rel_addr N (d + 1) p + block_at N (d + 1 + length p) \<le> ?B" using block_end [OF p] .
  obtain c' q' where q: "q = c' # q'" using Cons.prems(4) by (cases q) auto
  show ?case
  proof (cases c')
    case (Child_router i')
    then have q': "rel_addr N (d + 1) q' < ?B" "tree_path N (d + 1) q'" using Cons.prems(3) q rel_addr_bound by auto
    have "i' = i"
    proof (rule ccontr)
      assume "i' \<noteq> i"
      then have "(i' + 1) * ?B \<le> i * ?B \<or> (i + 1) * ?B \<le> i' * ?B" by (metis Suc_eq_plus1 Suc_leI linorder_neqE_nat mult_le_mono1)
      then show False using Cons.prems(4,5) c q Child_router q'(1) e by auto
    qed
    then have "\<exists>r. q' = p @ r \<and> r \<noteq> []"
      using Cons.prems(4,5) c q Child_router p q'(2) by (intro Cons.IH) auto
    then show ?thesis using q c Child_router \<open>i' = i\<close> by simp
  next
    case (Child_ed j)
    have "(i + 1) * ?B \<le> unat (nib_max_routers N) * ?B" using Cons.prems(2) c by (intro mult_le_mono1) simp
    then show ?thesis using Cons.prems(5) c q Child_ed e by simp
  qed
qed

section \<open>Routing\<close>

text \<open>The neighbor with a short address, by a scan of the address table.\<close>

definition nbr_at :: "'z zb_globals_n_scheme \<Rightarrow> zb_uint16_t \<Rightarrow> nat option" where
  "nbr_at g a = (case ref_of_short (addr g) a of None \<Rightarrow> None
     | Some r \<Rightarrow> let n = addr_to_neighbor (neighbor (nwk g)) ! r in if n = 255 then None else Some n)"

lemma neighbor_of_short_spec:
  assumes "addr_wf (addr g)" "length (addr_to_neighbor (neighbor (nwk g))) = 101" "a \<noteq> -1"
  shows "\<exists>A. neighbor_of_short a g = Some (g\<lparr>addr := A\<rparr>, nbr_at g a) \<and> addr_wf A \<and> ref_of_short A = ref_of_short (addr g)"
proof (cases "ref_of_short (addr g) a")
  case None
  then show ?thesis using assms short_search_ref [OF assms(1,3)]
    by (intro exI [of _ "addr g"]) (simp add: neighbor_of_short_def zb_address_by_short_def lock_if_def nbr_at_def)
next
  case (Some r)
  then have u: "ent_used (addr g) r" using ref_of_short_iff [OF assms(1,3)] by simp
  from touch_facts [OF assms(1) this] obtain B where
    B: "upd_ent r (\<lambda>e. e\<lparr>am_clock := True\<rparr>) (addr g) = Some B" "addr_wf B" "ref_of_short B = ref_of_short (addr g)" by blast
  have "r < 101" using u by (simp add: ent_used_def)
  then show ?thesis using Some B assms(2) short_search_ref [OF assms(1,3)]
    by (auto simp: neighbor_of_short_def zb_address_by_short_def lock_if_def nbr_at_def a2n_get_def aget_def Let_def)
qed

text \<open>A router at its place in the tree, with consistent tables.\<close>

definition router_at :: "tree_child list \<Rightarrow> 'z zb_globals_n_scheme \<Rightarrow> bool" where
  "router_at p g \<longleftrightarrow> (let N = nib (nwk g) in
     tree_wf N \<and> router_path p \<and> tree_path N 0 p \<and> mac_short_address (pib g) = tree_addr N p
     \<and> nib_depth N = of_nat (length p) \<and> nib_cskip N = zb_nwk_daa_calc_cskip (of_nat (length p)) N
     \<and> addr_wf (addr g) \<and> length (addr_to_neighbor (neighbor (nwk g))) = 101)"

lemma tree_path_depth: "tree_path N d p \<Longrightarrow> p \<noteq> [] \<Longrightarrow> d + length p \<le> unat (nib_max_depth N)"
proof (induction p arbitrary: d)
  case (Cons c cs)
  then show ?case by (cases c; cases "cs = []") fastforce+
qed simp

lemma below_iff:
  assumes "tree_wf N" "router_path p" "tree_path N 0 p" "tree_path N 0 q"
  shows "unat (tree_addr N p) < unat (tree_addr N q) \<and> unat (tree_addr N q) < unat (tree_addr N p) + block_at N (length p)
    \<longleftrightarrow> (\<exists>r. q = p @ r \<and> r \<noteq> [])"
proof -
  note rel = tree_addr_rel [OF assms(1,3)] tree_addr_rel [OF assms(1,4)]
  have "\<exists>r. q = p @ r \<and> r \<noteq> []" if "unat (tree_addr N p) < unat (tree_addr N q)"
      "unat (tree_addr N q) < unat (tree_addr N p) + block_at N (length p)"
    using in_block_below [OF assms(2-4)] that rel by simp
  moreover have "rel_addr N 0 p < rel_addr N 0 q \<and> rel_addr N 0 q < rel_addr N 0 p + block_at N (length p)"
    if "q = p @ r" "r \<noteq> []" for r
    using that rel_addr_append [OF assms(2), of N 0 r] rel_addr_bound [of N "length p" r] rel_addr_zero [of N "length p" r]
      tree_path_append [OF assms(2), of N 0 r] assms(4) by simp
  ultimately show ?thesis using rel by auto
qed

lemma cskip_parent:
  assumes "router_at p g" "p \<noteq> []"
  shows "nib_depth (nib (nwk g)) \<noteq> 0"
    "unat (zb_nwk_daa_calc_cskip (nib_depth (nib (nwk g)) - 1) (nib (nwk g))) = block_at (nib (nwk g)) (length p)"
proof -
  let ?N = "nib (nwk g)"
  have w: "tree_wf ?N" "nib_depth ?N = of_nat (length p)" "tree_path ?N 0 p" using assms(1) by (simp_all add: router_at_def Let_def)
  have l: "length p \<le> unat (nib_max_depth ?N)" using tree_path_depth [OF w(3) assms(2)] by simp
  then have "length p < 256" using unat8_less [of "nib_max_depth ?N"] by simp
  then have u: "unat (nib_depth ?N) = length p" unfolding w(2) by (rule unat8_of_nat)
  then show "nib_depth ?N \<noteq> 0" using assms(2) by auto
  have "nib_depth ?N - 1 = of_nat (length p - 1)" using w(2) assms(2) by (cases p) simp_all
  then show "unat (zb_nwk_daa_calc_cskip (nib_depth ?N - 1) ?N) = block_at ?N (length p)"
    using cskip_block_at [OF w(1), of "length p - 1"] l assms(2) by (cases p) simp_all
qed

lemma route_direction:
  assumes "router_at p g" "tree_path (nib (nwk g)) 0 q"
  shows "zb_nwk_tree_routing_route (tree_addr (nib (nwk g)) q) g =
    (if p = [] \<or> (\<exists>r. q = p @ r \<and> r \<noteq> []) then zb_nwk_tree_routing_find_router (tree_addr (nib (nwk g)) q) g
     else map_option (\<lambda>(g1, _, n). (g1, n)) (zb_nwk_neighbor_get (hd_parent (nwk_handle (nwk g))) False g))"
proof -
  let ?N = "nib (nwk g)" and ?a = "mac_short_address (pib g)"
  have w: "tree_wf ?N" "router_path p" "tree_path ?N 0 p" "?a = tree_addr ?N p" using assms(1) by (simp_all add: router_at_def Let_def)
  show ?thesis
  proof (cases "p = []")
    case True
    then have "?a = 0" by (simp add: w(4) tree_addr_def)
    then show ?thesis using True by (simp add: zb_nwk_tree_routing_route_def)
  next
    case False
    note c = cskip_parent [OF assms(1) False]
    have "unat ?a \<noteq> 0" using tree_addr_rel [OF w(1,3)] w(4) False rel_addr_zero by simp
    then have a: "?a \<noteq> 0" by auto
    define below where "below \<longleftrightarrow> (\<exists>r. q = p @ r \<and> r \<noteq> [])"
    have "tree_addr ?N q > ?a \<and> unat (tree_addr ?N q) < unat ?a + block_at ?N (length p) \<longleftrightarrow> below"
      using below_iff [OF w(1-3) assms(2)] by (simp add: w(4) word_less_nat_alt below_def)
    then show ?thesis using False a c unfolding below_def [symmetric]
      by (simp add: zb_nwk_tree_routing_route_def map_conv_bind_option o_def case_prod_unfold)
  qed
qed

text \<open>
  C28: a router decides correctly whether a device is below it: for a destination in the tree
  \<open>zb_nwk_tree_routing_route\<close> looks for a child router exactly when the destination is below this router
  (or this router is the coordinator), and hands the packet to its parent in every other case.
\<close>

theorem zb_nwk_tree_routing_route_direction:
  assumes "router_at p g" "tree_path (nib (nwk g)) 0 q"
  shows "zb_nwk_tree_routing_route (tree_addr (nib (nwk g)) q) g =
    (if p = [] \<or> (\<exists>r. q = p @ r \<and> r \<noteq> []) then zb_nwk_tree_routing_find_router (tree_addr (nib (nwk g)) q) g
     else map_option (\<lambda>(g1, _, n). (g1, n)) (zb_nwk_neighbor_get (hd_parent (nwk_handle (nwk g))) False g))"
  using assms by (rule route_direction)

text \<open>What the loop over the blocks finds.\<close>

definition in_child_block :: "zb_uint16_t \<Rightarrow> zb_uint16_t \<Rightarrow> nat \<Rightarrow> bool" where
  "in_child_block cskip dest j \<longleftrightarrow> dest > of_nat (unat cskip * j + 1) \<and> dest < of_nat (unat cskip * j + 1) + cskip"

lemma block_search_find:
  "block_search cskip dest is = map_option (\<lambda>j. of_nat (unat cskip * j + 1)) (find (in_child_block cskip dest) is)"
  by (induction "is") (simp_all add: in_child_block_def Let_def)

lemma unat16_of_nat: "n < 2 ^ 16 \<Longrightarrow> unat (of_nat n :: 16 word) = n"
  by (simp add: unat_of_nat take_bit_nat_eq_self)

lemma in_child_block_iff:
  assumes "j < rm" "rm * unat cskip + 1 < 2 ^ 16"
  shows "in_child_block cskip dest j \<longleftrightarrow> j * unat cskip + 1 < unat dest \<and> unat dest < j * unat cskip + 1 + unat cskip"
proof -
  have "(j + 1) * unat cskip \<le> rm * unat cskip" using assms(1) by (intro mult_le_mono1) simp
  then have s: "j * unat cskip + 1 + unat cskip < 2 ^ 16" using assms(2) by simp
  define l :: zb_uint16_t where "l = of_nat (unat cskip * j + 1)"
  have l: "unat l = j * unat cskip + 1"
    unfolding l_def using s unat16_of_nat [of "unat cskip * j + 1"] by (simp only: mult.commute) 
  then have "unat l + unat cskip < 2 ^ LENGTH(16)" using s by simp
  then have "unat (l + cskip) = unat l + unat cskip" by (rule unat_add_lem [THEN iffD1])
  then show ?thesis unfolding in_child_block_def l_def [symmetric] word_less_nat_alt l by simp
qed

lemma block_search_hit:
  assumes "i < rm" "rm * unat cskip + 1 < 2 ^ 16" "unat dest = i * unat cskip + 1 + x" "0 < x" "x < unat cskip"
  shows "block_search cskip dest [0..<rm] = Some (of_nat (unat cskip * i + 1))"
proof -
  have "in_child_block cskip dest j \<longleftrightarrow> j = i" if "j < rm" for j
  proof -
    have "j * unat cskip + unat cskip \<le> i * unat cskip" if "j < i"
      using that by (metis Suc_leI mult_Suc mult_le_mono1 add.commute)
    moreover have "i * unat cskip + unat cskip \<le> j * unat cskip" if "i < j"
      using that by (metis Suc_leI mult_Suc mult_le_mono1 add.commute)
    ultimately show ?thesis
      using in_child_block_iff [OF \<open>j < rm\<close> assms(2), of dest] assms(3-5) by (cases i j rule: linorder_cases) auto
  qed
  then have "find (in_child_block cskip dest) [0..<rm] = Some i"
    using assms(1) by (auto simp: find_Some_iff)
  then show ?thesis by (simp add: block_search_find)
qed

lemma block_search_miss:
  assumes "rm * unat cskip + 1 < 2 ^ 16" "rm * unat cskip + 1 \<le> unat dest"
  shows "block_search cskip dest [0..<rm] = None"
proof -
  have "\<not> in_child_block cskip dest j" if "j < rm" for j
  proof -
    have "(j + 1) * unat cskip \<le> rm * unat cskip" using that by (intro mult_le_mono1) simp
    then show ?thesis using in_child_block_iff [OF that assms(1), of dest] assms(2) by simp
  qed
  then show ?thesis by (auto simp: block_search_find find_None_iff)
qed

lemma find_router_spec:
  assumes "addr_wf (addr g)" "length (addr_to_neighbor (neighbor (nwk g))) = 101" "dest \<noteq> -1"
    "block_search (nib_cskip (nib (nwk g))) dest [0..<unat (nib_max_routers (nib (nwk g)))] = b" "b \<noteq> Some (-1)"
  shows "\<exists>g'. zb_nwk_tree_routing_find_router dest g = Some (g', case nbr_at g dest of Some n \<Rightarrow> Some n
     | None \<Rightarrow> (case b of None \<Rightarrow> None | Some a \<Rightarrow> nbr_at g a))"
proof -
  obtain A where A: "neighbor_of_short dest g = Some (g\<lparr>addr := A\<rparr>, nbr_at g dest)" "addr_wf A"
      "ref_of_short A = ref_of_short (addr g)" using neighbor_of_short_spec [OF assms(1-3)] by blast
  have n: "nbr_at (g\<lparr>addr := A\<rparr>) a = nbr_at g a" for a by (simp add: nbr_at_def A(3) cong: option.case_cong)
  show ?thesis
  proof (cases "nbr_at g dest"; cases b)
    fix a assume s: "nbr_at g dest = None" "b = Some a"
    then obtain B where "neighbor_of_short a (g\<lparr>addr := A\<rparr>) = Some (g\<lparr>addr := A, addr := B\<rparr>, nbr_at (g\<lparr>addr := A\<rparr>) a)"
      using neighbor_of_short_spec [of "g\<lparr>addr := A\<rparr>" a] A(2) assms(2,5) by auto
    then show ?thesis using A(1) s assms(4) n by (simp add: zb_nwk_tree_routing_find_router_def)
  qed (use A(1) assms(4) in \<open>simp_all add: zb_nwk_tree_routing_find_router_def\<close>)
qed

lemma tree_addr_known:
  assumes "tree_wf N" "tree_path N 0 q" shows "tree_addr N q \<noteq> -1"
proof -
  have "unat (tree_addr N q) < 2 ^ 16 - 1"
    using tree_addr_rel [OF assms] rel_addr_bound [OF assms(2)] assms(1) by (simp add: tree_wf_def)
  moreover have "unat (-1 :: zb_uint16_t) = 2 ^ 16 - 1" by (simp add: unsigned_minus_1_eq_mask mask_eq_exp_minus_1)
  ultimately show ?thesis by force
qed

lemma router_path_single [simp]: "router_path [Child_router i]"
  by (simp add: router_path_def)

lemma child_split:
  assumes "tree_path N 0 (Child_router i # r)" "r \<noteq> []"
  shows "rel_addr N 0 (Child_router i # r) = i * block_at N 1 + 1 + rel_addr N 1 r" "0 < rel_addr N 1 r"
    "rel_addr N 1 r < block_at N 1" "i < unat (nib_max_routers N)" "0 < unat (nib_max_depth N)"
  using assms rel_addr_bound [of N 1 r] rel_addr_zero [of N 1 r] by auto

lemma coordinator_blocks:
  assumes "router_at [] g" "0 < unat (nib_max_depth (nib (nwk g)))"
  shows "unat (nib_cskip (nib (nwk g))) = block_at (nib (nwk g)) 1"
    "unat (nib_max_routers (nib (nwk g))) * unat (nib_cskip (nib (nwk g))) + 1 < 2 ^ 16"
proof -
  let ?N = "nib (nwk g)"
  have w: "tree_wf ?N" "nib_cskip ?N = zb_nwk_daa_calc_cskip (of_nat 0) ?N" using assms(1) by (simp_all add: router_at_def Let_def)
  show c: "unat (nib_cskip ?N) = block_at ?N 1" unfolding w(2) using cskip_block_at [OF w(1) assms(2)] by simp
  have "block_at ?N 0 = 1 + unat (nib_max_routers ?N) * block_at ?N 1 + ed_room ?N" using block_at_split [OF assms(2)] by simp
  then show "unat (nib_max_routers ?N) * unat (nib_cskip ?N) + 1 < 2 ^ 16" using w(1) c by (simp add: tree_wf_def)
qed

text \<open>
  the coordinator routes down the right branch: for a destination below its child router \<open>i\<close> it
  chooses the destination itself when that is a neighbor, and the neighbor with the address of that child
  router when it is not.
\<close>

theorem zb_nwk_tree_routing_coordinator:
  assumes "router_at [] g" "tree_path (nib (nwk g)) 0 (Child_router i # r)" "r \<noteq> []"
  shows "\<exists>g'. zb_nwk_tree_routing_route (tree_addr (nib (nwk g)) (Child_router i # r)) g
    = Some (g', case nbr_at g (tree_addr (nib (nwk g)) (Child_router i # r)) of Some n \<Rightarrow> Some n
        | None \<Rightarrow> nbr_at g (tree_addr (nib (nwk g)) [Child_router i]))"
proof -
  let ?N = "nib (nwk g)" and ?q = "Child_router i # r"
  have w: "tree_wf ?N" "addr_wf (addr g)" "length (addr_to_neighbor (neighbor (nwk g))) = 101" "mac_short_address (pib g) = 0"
    using assms(1) by (simp_all add: router_at_def Let_def tree_addr_def)
  note s = child_split [OF assms(2,3)]
  note c = coordinator_blocks [OF assms(1) s(5)]
  have "unat (tree_addr ?N ?q) = i * unat (nib_cskip ?N) + 1 + rel_addr ?N 1 r"
    unfolding c(1) using tree_addr_rel [OF w(1) assms(2)] s(1) by simp
  from block_search_hit [OF s(4) c(2) this s(2)] s(3)
  have b: "block_search (nib_cskip ?N) (tree_addr ?N ?q) [0..<unat (nib_max_routers ?N)] = Some (of_nat (unat (nib_cskip ?N) * i + 1))"
    unfolding c(1) by simp
  have one: "tree_path ?N 0 [Child_router i]" using assms(2) by simp
  have "unat (tree_addr ?N [Child_router i]) = unat (nib_cskip ?N) * i + 1"
    using tree_addr_rel [OF w(1) one] by (simp add: c(1) mult.commute)
  then have e: "of_nat (unat (nib_cskip ?N) * i + 1) = tree_addr ?N [Child_router i]" by (metis of_nat_unat ucast_id)
  have "Some (tree_addr ?N [Child_router i]) \<noteq> Some (-1)" using tree_addr_known [OF w(1) one] by simp
  from find_router_spec [OF w(2,3) tree_addr_known [OF w(1) assms(2)] b [unfolded e] this] w(4)
  show ?thesis by (simp only: zb_nwk_tree_routing_route_def Let_def simp_thms if_True option.case)
qed

text \<open>
  a router other than the coordinator cannot route down: \<open>zb_nwk_tree_routing_find_router\<close> starts the blocks
  at address 1 and not after the router's own address, so a router after the first of its parent finds
  no child router for a destination below it that is not its neighbor, and the packet has no next hop.
\<close>

theorem zb_nwk_tree_routing_loses_descendants:
  assumes "router_at (Child_router (Suc i) # p) g" "tree_path (nib (nwk g)) 0 (Child_router (Suc i) # p @ r)" "r \<noteq> []"
    "nbr_at g (tree_addr (nib (nwk g)) (Child_router (Suc i) # p @ r)) = None"
  shows "\<exists>g'. zb_nwk_tree_routing_route (tree_addr (nib (nwk g)) (Child_router (Suc i) # p @ r)) g = Some (g', None)"
proof -
  let ?N = "nib (nwk g)" and ?p = "Child_router (Suc i) # p" and ?q = "Child_router (Suc i) # p @ r"
  have w: "tree_wf ?N" "addr_wf (addr g)" "length (addr_to_neighbor (neighbor (nwk g))) = 101" "router_path ?p" "tree_path ?N 0 ?p"
      "nib_cskip ?N = zb_nwk_daa_calc_cskip (of_nat (length ?p)) ?N"
    using assms(1) by (simp_all add: router_at_def Let_def)
  have q: "tree_path ?N (length ?p) r" using tree_path_append [OF w(4), of ?N 0 r] assms(2) by simp
  then have d: "length ?p < unat (nib_max_depth ?N)" using assms(3) by (cases "(?N, length ?p, r)" rule: tree_path.cases) auto
  let ?c = "unat (nib_cskip ?N)" and ?rm = "unat (nib_max_routers ?N)"
  have c: "?c = block_at ?N (length ?p + 1)" unfolding w(6) using cskip_block_at [OF w(1) d] .
  have "block_at ?N (length ?p) = 1 + ?rm * ?c + ed_room ?N" unfolding c using block_at_split [OF d] .
  then have le: "?rm * ?c + 1 \<le> block_at ?N (length ?p)" by simp
  then have fit: "?rm * ?c + 1 < 2 ^ 16" using block_at_small [OF w(1), of "length ?p"] by linarith
  have "block_at ?N (length ?p) \<le> block_at ?N 1"
    by (induction p) (use block_at_mono [of ?N] in \<open>auto intro: order_trans\<close>)
  moreover have "unat (tree_addr ?N ?q) \<ge> block_at ?N 1" using tree_addr_rel [OF w(1) assms(2)] by simp
  ultimately have "block_search (nib_cskip ?N) (tree_addr ?N ?q) [0..<?rm] = None"
    using block_search_miss [OF fit] le by simp
  from find_router_spec [OF w(2,3) tree_addr_known [OF w(1) assms(2)] this] assms(4)
  obtain g' where "zb_nwk_tree_routing_find_router (tree_addr ?N ?q) g = Some (g', None)" by auto
  then show ?thesis using route_direction [OF assms(1,2)] assms(3) by simp
qed

section \<open>Admission\<close>

text \<open>How many children a device has admitted.\<close>

definition children_ok :: "zb_nib \<Rightarrow> bool" where
  "children_ok N \<longleftrightarrow> nib_router_child_num N \<le> nib_max_routers N
     \<and> unat (nib_router_child_num N) + unat (nib_ed_child_num N) \<le> unat (nib_max_children N)"

lemma nib_upd_nbt [simp]: "nib (nwk (upd_nbt f g)) = nib (nwk g)"
  by (simp add: upd_nbt_def)

lemma neighbor_get_nib: "zb_nwk_neighbor_get r c g = Some (g', k) \<Longrightarrow> nib (nwk g') = nib (nwk g)"
  by (auto simp: zb_nwk_neighbor_get_def Let_def bind_eq_Some_conv split: if_splits)

lemma known_child_nib: "known_child i c g = Some (g', k) \<Longrightarrow> nib (nwk g') = nib (nwk g)"
  by (auto simp: known_child_def zb_nwk_neighbor_get_by_ieee_def Let_def bind_eq_Some_conv
      dest!: neighbor_get_nib split: if_splits)

lemma enter_child_nib: "enter_child i a g = Some (g', k) \<Longrightarrow> nib (nwk g') = nib (nwk g)"
  by (auto simp: enter_child_def Let_def bind_eq_Some_conv dest!: neighbor_get_nib split: if_splits)

lemma stop_permit_nib [simp]: "nib (nwk (stop_permit g)) = nib (nwk g)"
  by (simp add: stop_permit_def zb_nwk_update_beacon_payload_def upd_pib_def Let_def)

lemma unat8_Suc: "unat (x :: 8 word) < 255 \<Longrightarrow> unat (x + 1) = unat x + 1"
  by (simp add: unat_word_ariths)

lemma assign_child_ok:
  assumes "assign_child_address c my N = Some (a, N')" "children_ok N"
  shows "children_ok N'"
proof -
  have l: "unat (nib_max_children N) < 256" "unat (nib_max_routers N) < 256" by (rule unat8_less)+
  then show ?thesis using assms unat8_Suc [of "nib_router_child_num N"] unat8_Suc [of "nib_ed_child_num N"]
    by (auto simp: assign_child_address_def children_ok_def word_less_nat_alt word_le_nat_alt split: if_splits)
qed

lemma accept_child_ok:
  assumes "children_ok (nib (nwk g))" "zb_nwk_accept_child device_address capability lqi g = Some (g', status, a)"
  shows "children_ok (nib (nwk g'))"
proof -
  have u: "nib (nwk (upd_nib f h)) = f (nib (nwk h))" for f and h :: "'a zb_globals_n_scheme"
    by (simp add: upd_nib_def)
  obtain g1 known where k: "known_child device_address capability g = Some (g1, known)"
    using assms(2) by (auto simp: zb_nwk_accept_child_def bind_eq_Some_conv)
  then have 1: "children_ok (nib (nwk g1))" using assms(1) known_child_nib [OF k] by simp
  have keep: "children_ok (nib (nwk g'))"
    if "(if st = MAC_SUCCESS then do { n \<leftarrow> n;
        B \<leftarrow> nb_upd n (child_entry capability lqi (nib (nwk (stop_permit g2)))) (neighbor (nwk (stop_permit g2)));
        Some (upd_nbt (\<lambda>_. B) (stop_permit g2), st, Some b) } else Some (stop_permit g2, st, None)) = Some (g', status, a)"
      "children_ok (nib (nwk g2))" for st n b and g2 :: "'a zb_globals_n_scheme"
    using that by (auto simp: bind_eq_Some_conv split: if_splits)
  show ?thesis
  proof (cases known)
    case (Some x)
    then show ?thesis using assms(2) k 1 by (cases x) (auto simp: zb_nwk_accept_child_def Let_def bind_eq_Some_conv)
  next
    case None
    show ?thesis
    proof (cases "assign_child_address capability (mac_short_address (pib g1)) (nib (nwk g1))")
      case None
      then show ?thesis using assms(2) k 1 \<open>known = None\<close> by (intro keep) (auto simp: zb_nwk_accept_child_def Let_def)
    next
      case (Some y)
      obtain b N where y: "y = (b, N)" by (cases y)
      obtain g2 st n where e: "enter_child device_address b (upd_nib (\<lambda>_. N) g1) = Some (g2, st, n)"
        using assms(2) k Some \<open>known = None\<close> y by (auto simp: zb_nwk_accept_child_def Let_def bind_eq_Some_conv)
      then have "children_ok (nib (nwk g2))"
        using enter_child_nib [OF e] assign_child_ok [of capability "mac_short_address (pib g1)"] 1 Some y by (simp add: u)
      then show ?thesis using assms(2) k Some \<open>known = None\<close> y e
        by (intro keep) (auto simp: zb_nwk_accept_child_def Let_def)
    qed
  qed
qed

text \<open>
  admitting children keeps the counters within the limits of the network: whatever device joins,
  and with whatever capabilities, a device has at most \<open>nib_max_routers\<close> router children and at most
  \<open>nib_max_children\<close> children in all.
\<close>

theorem zb_nwk_accept_child_limits:
  assumes "children_ok (nib (nwk g))" "zb_nwk_accept_child device_address capability lqi g = Some (g', status, a)"
  shows "children_ok (nib (nwk g'))"
  using assms by (rule accept_child_ok)

text \<open>
  the limit on end devices is the number of all children, not of the addresses for end devices: a router that
  has given out all its end-device addresses but has room for routers gives the next end device an
  address beyond its block, and it is the address of its parent's next child router.
\<close>

theorem extra_end_device_gets_sibling_address:
  assumes "tree_wf N" "router_path p" "tree_path N 0 (p @ [Child_router (Suc i)])"
    "length p + 1 < unat (nib_max_depth N)" "k < unat (nib_max_routers N)"
    "ZB_MAC_CAP_GET_DEVICE_TYPE capability = 0" "ZB_MAC_CAP_GET_ALLOCATE_ADDRESS capability \<noteq> 0"
  shows "map_option fst (assign_child_address capability (tree_addr N (p @ [Child_router i]))
      (node_nib N (length p + 1) k (ed_room N))) = Some (tree_addr N (p @ [Child_router (Suc i)]))"
proof -
  let ?d = "length p + 1" and ?a = "tree_addr N (p @ [Child_router i])" and ?b = "tree_addr N (p @ [Child_router (Suc i)])"
  let ?B = "block_at N ?d"
  have p: "tree_path N 0 p" "Suc i < unat (nib_max_routers N)" using assms(3) tree_path_append [OF assms(2)] by auto
  then have q: "tree_path N 0 (p @ [Child_router i])" using assms(3) tree_path_append [OF assms(2)] by auto
  have a: "unat ?a = rel_addr N 0 p + i * ?B + 1" "unat ?b = rel_addr N 0 p + Suc i * ?B + 1"
    using tree_addr_rel [OF assms(1) q] tree_addr_rel [OF assms(1,3)] by (simp_all add: rel_addr_append [OF assms(2)])
  have l: "unat (nib_max_children N) < 256" "unat (nib_max_routers N) < 256" "unat (nib_max_depth N) < 256" by (rule unat8_less)+
  have n: "ed_room N < 256" "k < 256" "?d < 256" using l assms(4,5) by (simp_all add: ed_room_def)
  have B: "?B = 1 + unat (nib_max_routers N) * block_at N (?d + 1) + ed_room N" using block_at_split [OF assms(4)] .
  then have e: "unat ?a + unat (nib_max_routers N) * block_at N (?d + 1) + ed_room N + 1 = unat ?b" using a by simp
  have b: "unat ?b < 2 ^ 16" using unsigned_less [of ?b] by simp
  have "unat (ZB_NWK_ED_ADDRESS_ASSIGN ?a (node_nib N ?d k (ed_room N))) = unat ?b"
    using ed_address_step [OF assms(1,4) n(1), of ?a k] e b by simp
  then have addr: "ZB_NWK_ED_ADDRESS_ASSIGN ?a (node_nib N ?d k (ed_room N)) = ?b" by (rule unsigned_word_eqI)
  have "ed_room N + k < unat (nib_max_children N)"
    using assms(1,5) unfolding ed_room_def tree_wf_def word_le_nat_alt by linarith
  then have "unat (nib_max_children (node_nib N ?d k (ed_room N))) > unat (nib_ed_child_num (node_nib N ?d k (ed_room N)))
      + unat (nib_router_child_num (node_nib N ?d k (ed_room N)))"
    unfolding node_nib_def using unat8_of_nat [OF n(1)] unat8_of_nat [OF n(2)] by simp
  moreover have "nib_depth (node_nib N ?d k (ed_room N)) < nib_max_depth (node_nib N ?d k (ed_room N))"
    unfolding node_nib_def word_less_nat_alt using unat8_of_nat [OF n(3)] assms(4) by simp
  ultimately show ?thesis using assms(6,7) addr by (simp add: assign_child_address_def)
qed

section \<open>Concrete networks\<close>

text \<open>A network with given limits, and a device in it at a given place that knows one other device, with address 5.\<close>

definition net :: "zb_uint8_t \<Rightarrow> zb_uint8_t \<Rightarrow> zb_uint8_t \<Rightarrow> zb_nib" where
  "net cm rm d = demo_nib\<lparr>nib_max_children := cm, nib_max_routers := rm, nib_max_depth := d\<rparr>"

definition net_dev :: "zb_nib \<Rightarrow> tree_child list \<Rightarrow> zb_globals_n" where
  "net_dev N p = demo_n\<lparr>addr := run1, nwk := (nwk demo_n)\<lparr>nib := node_nib N (length p) 0 0,
       neighbor := zero_nbt\<lparr>addr_to_neighbor := 3 # replicate 100 255\<rparr>\<rparr>,
     pib := (pib demo_n)\<lparr>mac_short_address := tree_addr N p\<rparr>\<rparr>"

lemma net_fields [simp]:
  "nib_max_children (net cm rm d) = cm" "nib_max_routers (net cm rm d) = rm" "nib_max_depth (net cm rm d) = d"
  by (simp_all add: net_def)

lemma tree_limits_cong:
  assumes "nib_max_children M = nib_max_children N" "nib_max_routers M = nib_max_routers N" "nib_max_depth M = nib_max_depth N"
  shows "tree_wf M = tree_wf N" "tree_path M = tree_path N" "tree_addr_from M = tree_addr_from N"
    "tree_addr M = tree_addr N" "zb_nwk_daa_calc_cskip x M = zb_nwk_daa_calc_cskip x N"
proof -
  have c: "zb_nwk_daa_calc_cskip y M = zb_nwk_daa_calc_cskip y N" for y
    by (simp add: zb_nwk_daa_calc_cskip_def assms Let_def)
  then show "zb_nwk_daa_calc_cskip x M = zb_nwk_daa_calc_cskip x N" .
  have e: "ed_room M = ed_room N" using assms by (simp add: ed_room_def)
  then show "tree_wf M = tree_wf N" using assms by (simp add: tree_wf_def block_at_def)
  show "tree_path M = tree_path N"
  proof (intro ext)
    fix d p show "tree_path M d p = tree_path N d p"
    proof (induction p arbitrary: d)
      case (Cons c cs)
      then show ?case by (cases c) (simp_all add: assms e)
    qed simp
  qed
  show "tree_addr_from M = tree_addr_from N"
  proof (intro ext)
    fix a d p show "tree_addr_from M a d p = tree_addr_from N a d p"
    proof (induction p arbitrary: a d)
      case (Cons c cs)
      then show ?case
        by (cases c) (simp_all add: assms c ZB_NWK_ROUTER_ADDRESS_ASSIGN_def ZB_NWK_ED_ADDRESS_ASSIGN_def node_nib_def)
    qed simp
  qed
  then show "tree_addr M = tree_addr N" by (intro ext) (simp add: tree_addr_def)
qed

lemma node_nib_limits [simp]:
  "tree_wf (node_nib N d r e) = tree_wf N" "tree_path (node_nib N d r e) = tree_path N"
  "tree_addr (node_nib N d r e) = tree_addr N" "zb_nwk_daa_calc_cskip x (node_nib N d r e) = zb_nwk_daa_calc_cskip x N"
  by (rule tree_limits_cong; simp add: node_nib_def)+

lemma net_dev_at:
  assumes "tree_wf N" "router_path p" "tree_path N 0 p"
  shows "router_at p (net_dev N p)"
  using assms addr_wf_run1(1) by (simp add: router_at_def Let_def net_dev_def) (simp add: node_nib_def)

lemma block_size_numeral: "block_size ed rm (numeral k) = 1 + rm * block_size ed rm (pred_numeral k) + ed"
  by (simp add: numeral_eq_Suc)

lemma net_wf: "tree_wf (net 20 6 5)" "tree_wf (net 3 3 2)"
  by (simp_all add: tree_wf_def block_at_def ed_room_def block_size_numeral)

lemma zb_nwk_daa_calc_cskip_is_block_size_witness:
  "unat (zb_nwk_daa_calc_cskip 0 (net 20 6 5)) = 5181"
  using zb_nwk_daa_calc_cskip_is_block_size [of "net 20 6 5" 0]
  by (simp add: ed_room_def levels_below_def block_size_numeral)

lemma tree_addr_unique_witness:
  "tree_addr (net 20 6 5) [Child_router 1, Child_ed 3] \<noteq> tree_addr (net 20 6 5) [Child_router 2]"
  using tree_addr_unique [of "net 20 6 5" "[Child_router 1, Child_ed 3]" "[Child_router 2]"] net_wf
  by (simp add: ed_room_def)

lemma zb_nwk_tree_routing_route_direction_witness:
  "zb_nwk_tree_routing_route (tree_addr (net 20 6 5) [Child_router 2, Child_ed 7]) (net_dev (net 20 6 5) [Child_router 2])
    = zb_nwk_tree_routing_find_router (tree_addr (net 20 6 5) [Child_router 2, Child_ed 7]) (net_dev (net 20 6 5) [Child_router 2])"
  using zb_nwk_tree_routing_route_direction [of "[Child_router 2]" "net_dev (net 20 6 5) [Child_router 2]" "[Child_router 2, Child_ed 7]"]
    net_dev_at [of "net 20 6 5" "[Child_router 2]"] net_wf
  by (simp add: net_dev_def ed_room_def)

lemma known_five: "tree_addr (net 3 3 2) [Child_router 1] = 5" "tree_addr (net 3 3 2) [Child_router 1, Child_router 1] = 7"
proof -
  have "unat (tree_addr (net 3 3 2) [Child_router 1]) = 5" "unat (tree_addr (net 3 3 2) [Child_router 1, Child_router 1]) = 7"
    using tree_addr_rel [OF net_wf(2), of "[Child_router 1]"] tree_addr_rel [OF net_wf(2), of "[Child_router 1, Child_router 1]"]
    by (simp_all add: block_at_def ed_room_def)
  then show "tree_addr (net 3 3 2) [Child_router 1] = 5" "tree_addr (net 3 3 2) [Child_router 1, Child_router 1] = 7"
    by (simp_all add: word_unat_eq_iff)
qed

lemma net_dev_knows: "nbr_at (net_dev N p) 5 = Some 3" "nbr_at (net_dev N p) 7 = None"
  using addr_wf_run1 by (simp_all add: nbr_at_def net_dev_def)

lemma zb_nwk_tree_routing_coordinator_witness:
  "\<exists>g'. zb_nwk_tree_routing_route 7 (net_dev (net 3 3 2) []) = Some (g', Some 3)"
  using zb_nwk_tree_routing_coordinator [of "net_dev (net 3 3 2) []" 1 "[Child_router 1]"]
    net_dev_at [of "net 3 3 2" "[]"] net_wf(2) known_five net_dev_knows [of "net 3 3 2" "[]"]
  by (simp add: net_dev_def router_path_def)

lemma zb_nwk_tree_routing_loses_descendants_witness:
  "\<exists>g'. zb_nwk_tree_routing_route 7 (net_dev (net 3 3 2) [Child_router 1]) = Some (g', None)"
  using zb_nwk_tree_routing_loses_descendants [of 0 "[]" "net_dev (net 3 3 2) [Child_router 1]" "[Child_router 1]"]
    net_dev_at [of "net 3 3 2" "[Child_router 1]"] net_wf(2) known_five net_dev_knows [of "net 3 3 2" "[Child_router 1]"]
  by (simp add: net_dev_def)

lemma extra_end_device_gets_sibling_address_witness:
  "map_option fst (assign_child_address 0x80 (tree_addr (net 20 6 5) [Child_router 0]) (node_nib (net 20 6 5) 1 2 14))
    = Some (tree_addr (net 20 6 5) [Child_router 1])"
  using extra_end_device_gets_sibling_address [of "net 20 6 5" "[]" 0 2 "0x80"] net_wf(1)
  by (simp add: ed_room_def router_path_def ZB_MAC_CAP_GET_DEVICE_TYPE_def ZB_MAC_CAP_GET_ALLOCATE_ADDRESS_def)

end
