(* ===== verification/Zb_Neighbor_Runs.thy ===== *)
theory Zb_Neighbor_Runs
  imports Zb_Neighbor_Props
begin

text \<open>
  Runs over the neighbor table: the clock that expires frame counters, the iterators over
  children, and concrete tables at which the properties of \<open>Zb_Neighbor_Props\<close> are used.
\<close>

section \<open>Frame counters\<close>

text \<open>What the clock does to an entry it visits: a key that lags more than 3 behind is replaced.\<close>

definition expire_nb :: "zb_uint8_t \<Rightarrow> zb_neighbor_tbl_ent \<Rightarrow> zb_neighbor_tbl_ent" where
  "expire_nb k e = (if (uint k - uint (ne_key_seq_number e)) mod 256 > 3
     then e\<lparr>ne_incoming_frame_counter := 0, ne_key_seq_number := k\<rparr> else e)"

lemma expire_nb_idem: "expire_nb k (expire_nb k e) = expire_nb k e"
  by (simp add: expire_nb_def)

fun clock_runs :: "nat \<Rightarrow> zb_uint8_t \<Rightarrow> zb_neighbor_tbl \<Rightarrow> zb_neighbor_tbl option" where
  "clock_runs 0 k N = Some N"
| "clock_runs (Suc n) k N = do {
     N1 \<leftarrow> clock_runs n k N;
     zb_nwk_neighbor_incoming_frame_counter_clock k N1 }"

lemma key_diff: "(if d < 0 then 256 + d else d) = d mod 256" if "- 256 < d" "d < (256 :: int)"
  using that mod_pos_pos_trivial [of "256 + d" 256] by (cases "d < 0") simp_all

lemma len_8: "(2 :: int) ^ LENGTH(8) = 256"
  by simp

lemma layout_ok_cong:
  "layout_ok N \<Longrightarrow> ext_neighbor N' = ext_neighbor N \<Longrightarrow> base_neighbor_size N' = base_neighbor_size N \<Longrightarrow> layout_ok N'"
  unfolding layout_ok_def by (simp cong: option.case_cong)

lemma clock_step:
  assumes len: "length (base_neighbor N) = 32" and sz: "0 < base_neighbor_size N" "base_neighbor_size N \<le> 32"
    and lay: "layout_ok N" and c: "incoming_frame_counter_clock N < 32"
    and e: "nb_get N (Suc (incoming_frame_counter_clock N) mod base_neighbor_size N) = Some e"
  shows "zb_nwk_neighbor_incoming_frame_counter_clock k N = Some (N\<lparr>
     base_neighbor := (base_neighbor N)[Suc (incoming_frame_counter_clock N) mod base_neighbor_size N := Some (expire_nb k e)],
     incoming_frame_counter_clock := Suc (incoming_frame_counter_clock N) mod base_neighbor_size N\<rparr>)"
proof -
  let ?i = "Suc (incoming_frame_counter_clock N) mod base_neighbor_size N"
  let ?N = "N\<lparr>incoming_frame_counter_clock := ?i\<rparr>"
  have i: "?i < base_neighbor_size N" using sz(1) by simp
  have inc: "inc32 (incoming_frame_counter_clock N) = Suc (incoming_frame_counter_clock N)" using c by simp
  have get: "nb_get ?N ?i = Some e" using e by (simp add: nb_get_def)
  have "layout_ok ?N" using lay by (rule layout_ok_cong) simp_all
  from nb_put_layout [OF _ _ _ this, of ?i] have put:
    "nb_put ?i x ?N = Some (?N\<lparr>base_neighbor := (base_neighbor N)[?i := Some x]\<rparr>)" for x
    using len i sz(2) by simp
  have same: "(base_neighbor N)[?i := Some e] = base_neighbor N"
    using e len i sz(2) by (simp add: nb_get_def list_update_same_conv)
  have "- 256 < uint k - uint (ne_key_seq_number e)" "uint k - uint (ne_key_seq_number e) < 256"
    using uint_lt2p [of k] uint_lt2p [of "ne_key_seq_number e"] uint_nonnegative [of k]
      uint_nonnegative [of "ne_key_seq_number e"] unfolding len_8 by linarith+
  note d = key_diff [OF this]
  define D where "D = (let d = uint k - uint (ne_key_seq_number e) in if d < 0 then 256 + d else d)"
  have "zb_nwk_neighbor_incoming_frame_counter_clock k N
    = (if D > 3 then nb_put ?i (e\<lparr>ne_incoming_frame_counter := 0, ne_key_seq_number := k\<rparr>) ?N else Some ?N)"
    using sz(1) by (simp add: zb_nwk_neighbor_incoming_frame_counter_clock_def inc Let_def get D_def)
  moreover have D: "D = (uint k - uint (ne_key_seq_number e)) mod 256" using d by (simp add: D_def Let_def)
  ultimately have run: "zb_nwk_neighbor_incoming_frame_counter_clock k N = (if D > 3
    then Some (?N\<lparr>base_neighbor := (base_neighbor N)[?i := Some (e\<lparr>ne_incoming_frame_counter := 0, ne_key_seq_number := k\<rparr>)]\<rparr>)
    else Some ?N)" unfolding put by blast
  show ?thesis
  proof (cases "D > 3")
    case True
    then have "expire_nb k e = e\<lparr>ne_incoming_frame_counter := 0, ne_key_seq_number := k\<rparr>" unfolding expire_nb_def D by (rule if_P)
    then show ?thesis unfolding run using True by simp
  next
    case False
    then have "expire_nb k e = e" unfolding expire_nb_def D by (rule if_not_P)
    then show ?thesis unfolding run using False same by simp
  qed
qed

lemma clock_runs_spec:
  assumes len: "length (base_neighbor N) = 32" and sz: "0 < base_neighbor_size N" "base_neighbor_size N \<le> 32"
    and lay: "layout_ok N" and c: "incoming_frame_counter_clock N < base_neighbor_size N"
    and known: "\<forall>i<base_neighbor_size N. nb_get N i \<noteq> None"
  shows "\<exists>bs. clock_runs n k N = Some (N\<lparr>base_neighbor := bs,
        incoming_frame_counter_clock := (incoming_frame_counter_clock N + n) mod base_neighbor_size N\<rparr>)
     \<and> length bs = 32
     \<and> (\<forall>i<32. bs ! i = (if \<exists>t. 1 \<le> t \<and> t \<le> n \<and> i = (incoming_frame_counter_clock N + t) mod base_neighbor_size N
          then map_option (expire_nb k) (base_neighbor N ! i) else base_neighbor N ! i))"
proof (induction n)
  case 0
  then show ?case using len c by (intro exI [of _ "base_neighbor N"]) (simp add: ex_in_conv)
next
  case (Suc n)
  let ?s = "base_neighbor_size N" and ?c = "incoming_frame_counter_clock N"
  define v where "v n i \<longleftrightarrow> (\<exists>t. 1 \<le> t \<and> t \<le> n \<and> i = (?c + t) mod ?s)" for n i
  from Suc obtain bs where bs: "clock_runs n k N = Some (N\<lparr>base_neighbor := bs, incoming_frame_counter_clock := (?c + n) mod ?s\<rparr>)"
    "length bs = 32" "\<forall>i<32. bs ! i = (if v n i then map_option (expire_nb k) (base_neighbor N ! i) else base_neighbor N ! i)"
    unfolding v_def by blast
  let ?M = "N\<lparr>base_neighbor := bs, incoming_frame_counter_clock := (?c + n) mod ?s\<rparr>"
  let ?i = "(?c + Suc n) mod ?s"
  have i: "Suc ((?c + n) mod ?s) mod ?s = ?i" by (simp add: mod_Suc_eq)
  have i32: "?i < ?s" "?i < 32" using sz mod_less_divisor [OF sz(1), of "?c + Suc n"] by linarith+
  have "nb_get N ?i \<noteq> None" using known i32(1) by blast
  then obtain e0 where e0: "base_neighbor N ! ?i = Some e0" using len i32 by (auto simp: nb_get_def)
  define e where "e = (if v n ?i then expire_nb k e0 else e0)"
  have e: "bs ! ?i = Some e" using bs(3) i32(2) e0 by (simp add: e_def)
  have "layout_ok ?M" using lay by (rule layout_ok_cong) simp_all
  moreover have "nb_get ?M (Suc (incoming_frame_counter_clock ?M) mod base_neighbor_size ?M) = Some e"
    using e i bs(2) i32 by (simp add: nb_get_def)
  moreover have "(?c + n) mod ?s < 32" using sz mod_less_divisor [OF sz(1), of "?c + n"] by linarith
  ultimately have "zb_nwk_neighbor_incoming_frame_counter_clock k ?M = Some (?M\<lparr>base_neighbor := bs[?i := Some (expire_nb k e)],
       incoming_frame_counter_clock := ?i\<rparr>)"
    using clock_step [of ?M e k] bs(2) sz i by simp
  then have run: "clock_runs (Suc n) k N = Some (N\<lparr>base_neighbor := bs[?i := Some (expire_nb k e)], incoming_frame_counter_clock := ?i\<rparr>)"
    using bs(1) by simp
  have vS: "v (Suc n) j \<longleftrightarrow> v n j \<or> j = ?i" for j unfolding v_def by (metis le_Suc_eq le_add1 plus_1_eq_Suc)
  have "expire_nb k e = expire_nb k e0" by (simp add: e_def expire_nb_idem)
  then have "\<forall>j<32. bs[?i := Some (expire_nb k e)] ! j
      = (if v (Suc n) j then map_option (expire_nb k) (base_neighbor N ! j) else base_neighbor N ! j)"
    using bs(2,3) e0 by (intro allI impI, case_tac "j = ?i") (simp_all add: vS)
  then show ?case using run bs(2) unfolding v_def by (intro exI [of _ "bs[?i := Some (expire_nb k e)]"]) simp
qed

text \<open>
  the frame counter clock reaches every neighbor: after as many runs as the base table has slots,
  every slot whose key sequence number lags more than 3 behind the given one (modulo 256) has
  its incoming frame counter reset to 0 under the new number, and nothing else has changed.
\<close>

theorem zb_nwk_neighbor_frame_counters_expire:
  assumes "length (base_neighbor N) = 32" "0 < base_neighbor_size N" "base_neighbor_size N \<le> 32"
    and "layout_ok N" "incoming_frame_counter_clock N < base_neighbor_size N"
    and "\<forall>i<base_neighbor_size N. nb_get N i \<noteq> None"
  shows "\<exists>bs. clock_runs (base_neighbor_size N) k N = Some (N\<lparr>base_neighbor := bs\<rparr>) \<and> length bs = 32
    \<and> (\<forall>i<32. bs ! i = (if i < base_neighbor_size N then map_option (expire_nb k) (base_neighbor N ! i) else base_neighbor N ! i))"
proof -
  let ?s = "base_neighbor_size N" and ?c = "incoming_frame_counter_clock N"
  obtain bs where bs: "clock_runs ?s k N = Some (N\<lparr>base_neighbor := bs, incoming_frame_counter_clock := (?c + ?s) mod ?s\<rparr>)"
    "length bs = 32" "\<forall>i<32. bs ! i = (if \<exists>t. 1 \<le> t \<and> t \<le> ?s \<and> i = (?c + t) mod ?s
          then map_option (expire_nb k) (base_neighbor N ! i) else base_neighbor N ! i)"
    using clock_runs_spec [OF assms, of ?s k] by blast
  have "(\<exists>t. 1 \<le> t \<and> t \<le> ?s \<and> i = (?c + t) mod ?s) \<longleftrightarrow> i < ?s" for i
  proof
    assume "\<exists>t. 1 \<le> t \<and> t \<le> ?s \<and> i = (?c + t) mod ?s"
    then show "i < ?s" using mod_less_divisor [OF assms(2)] by blast
  next
    assume i: "i < ?s"
    show "\<exists>t. 1 \<le> t \<and> t \<le> ?s \<and> i = (?c + t) mod ?s"
    proof (cases "?c < i")
      case True
      then show ?thesis using i by (intro exI [of _ "i - ?c"]) auto
    next
      case False
      then show ?thesis using i assms(5) by (intro exI [of _ "?s + i - ?c"]) auto
    qed
  qed
  then show ?thesis using bs assms(5) by (intro exI [of _ bs]) simp
qed

section \<open>Iterators\<close>

text \<open>The caller's loop: ask for the next slot until \<^verbatim>\<open>~0\<close>; the fuel counts the calls.\<close>

fun visit :: "(nat \<Rightarrow> zb_neighbor_tbl \<Rightarrow> nat option) \<Rightarrow> nat \<Rightarrow> nat \<Rightarrow> zb_neighbor_tbl \<Rightarrow> nat list option" where
  "visit nxt 0 i N = None"
| "visit nxt (Suc n) i N = do {
     j \<leftarrow> nxt i N;
     if j = 2 ^ 32 - 1 then Some []
     else do { js \<leftarrow> visit nxt n (j + 1) N; Some (j # js) } }"

definition nb_hit :: "(zb_neighbor_tbl_ent \<Rightarrow> bool) \<Rightarrow> zb_neighbor_tbl \<Rightarrow> nat \<Rightarrow> bool" where
  "nb_hit P N i \<longleftrightarrow> (case nb_get N i of None \<Rightarrow> False | Some e \<Rightarrow> ne_used e \<and> P e)"

lemma next_nb_spec:
  assumes "\<forall>j<base_neighbor_used N. nb_get N j \<noteq> None"
  shows "i \<le> base_neighbor_used N \<Longrightarrow> \<exists>r. next_nb P i N = Some r
     \<and> (r = 2 ^ 32 - 1 \<and> filter (nb_hit P N) [i..<base_neighbor_used N] = []
        \<or> i \<le> r \<and> r < base_neighbor_used N
          \<and> filter (nb_hit P N) [i..<base_neighbor_used N] = r # filter (nb_hit P N) [r + 1..<base_neighbor_used N])"
proof (induction "base_neighbor_used N - i" arbitrary: i)
  case 0
  then show ?case by (subst next_nb.simps) simp
next
  case (Suc k)
  then have i: "i < base_neighbor_used N" and k: "k = base_neighbor_used N - (i + 1)" by simp_all
  have up: "[i..<base_neighbor_used N] = i # [i + 1..<base_neighbor_used N]" using i upt_conv_Cons by simp
  obtain e where e: "nb_get N i = Some e" using assms i by blast
  show ?case
  proof (cases "ne_used e \<and> P e")
    case True
    then have "nb_hit P N i" using e by (simp add: nb_hit_def)
    then show ?thesis using True e i up by (subst next_nb.simps) simp
  next
    case False
    then have "\<not> nb_hit P N i" using e by (simp add: nb_hit_def)
    moreover have "next_nb P i N = next_nb P (i + 1) N" using False e i by (subst next_nb.simps) auto
    moreover have "\<exists>r. next_nb P (i + 1) N = Some r
       \<and> (r = 2 ^ 32 - 1 \<and> filter (nb_hit P N) [i + 1..<base_neighbor_used N] = []
        \<or> i + 1 \<le> r \<and> r < base_neighbor_used N
          \<and> filter (nb_hit P N) [i + 1..<base_neighbor_used N] = r # filter (nb_hit P N) [r + 1..<base_neighbor_used N])"
      using Suc.hyps(1) [OF k] i by simp
    ultimately show ?thesis using up by auto
  qed
qed

lemma visit_spec:
  assumes "\<forall>j<base_neighbor_used N. nb_get N j \<noteq> None" "base_neighbor_used N \<le> 32"
  shows "i \<le> base_neighbor_used N \<Longrightarrow> base_neighbor_used N - i < n \<Longrightarrow>
    visit (next_nb P) n i N = Some (filter (nb_hit P N) [i..<base_neighbor_used N])"
proof (induction n arbitrary: i)
  case (Suc n)
  from next_nb_spec [OF assms(1) Suc.prems(1), of P] obtain r where r: "next_nb P i N = Some r"
    "r = 2 ^ 32 - 1 \<and> filter (nb_hit P N) [i..<base_neighbor_used N] = []
     \<or> i \<le> r \<and> r < base_neighbor_used N
       \<and> filter (nb_hit P N) [i..<base_neighbor_used N] = r # filter (nb_hit P N) [r + 1..<base_neighbor_used N]" by blast
  from r(2) show ?case
  proof (elim disjE conjE)
    assume "i \<le> r" "r < base_neighbor_used N"
      "filter (nb_hit P N) [i..<base_neighbor_used N] = r # filter (nb_hit P N) [r + 1..<base_neighbor_used N]"
    then show ?case using r(1) Suc.IH [of "r + 1"] Suc.prems(2) assms(2) by simp
  qed (use r(1) in simp)
qed simp

text \<open>
  C30: a loop over the sleeping and non-sleeping children ends and visits each of them once:
  starting at 0 and asking for the next child behind the last one, at most one call more than slots
  are in use returns, in the order of the table, exactly the used slots that hold an end device
  child (authenticated or not) that the broadcast address covers.
\<close>

theorem zb_nwk_neighbor_next_ze_children_visits:
  assumes "\<forall>j<base_neighbor_used N. nb_get N j \<noteq> None" "base_neighbor_used N \<le> 32"
  shows "visit (zb_nwk_neighbor_next_ze_children_i a) (base_neighbor_used N + 1) 0 N
    = Some (filter (\<lambda>i. case nb_get N i of None \<Rightarrow> False | Some e \<Rightarrow> ne_used e
        \<and> (ne_relationship e = 1 \<or> ne_relationship e = 5) \<and> ne_device_type e = 0
        \<and> (a = 0xffff \<or> a = 0xfffd \<and> ne_rx_on_when_idle e)) [0..<base_neighbor_used N])"
proof -
  let ?P = "\<lambda>e. is_child e \<and> ne_device_type e = ZB_NWK_DEVICE_TYPE_ED
       \<and> (a = ZB_NWK_BROADCAST_ALL_DEVICES \<or> (a = ZB_NWK_BROADCAST_RX_ON_WHEN_IDLE \<and> ne_rx_on_when_idle e))"
  have "zb_nwk_neighbor_next_ze_children_i a = next_nb ?P"
    by (intro ext) (simp add: zb_nwk_neighbor_next_ze_children_i_def)
  moreover have "nb_hit ?P N = (\<lambda>i. case nb_get N i of None \<Rightarrow> False | Some e \<Rightarrow> ne_used e
        \<and> (ne_relationship e = 1 \<or> ne_relationship e = 5) \<and> ne_device_type e = 0
        \<and> (a = 0xffff \<or> a = 0xfffd \<and> ne_rx_on_when_idle e))"
    by (intro ext) (simp add: nb_hit_def is_child_def nb_consts)
  ultimately show ?thesis using visit_spec [OF assms, of 0 "base_neighbor_used N + 1" ?P] by simp
qed

section \<open>Concrete tables\<close>

text \<open>A table in which the devices \<open>0, \<dots>, k - 1\<close> occupy the first slots, and a context that holds it.\<close>

definition demo_nbt :: "nat \<Rightarrow> zb_neighbor_tbl" where
  "demo_nbt k = (zb_nwk_neighbor_clear zero_nbt)\<lparr>
     base_neighbor := map (\<lambda>i. Some (zero_nb\<lparr>ne_used := True, ne_addr_ref := i\<rparr>)) [0..<k] @ replicate (32 - k) (Some zero_nb),
     addr_to_neighbor := [0..<k] @ replicate (101 - k) 255, base_neighbor_used := k\<rparr>"

definition demo_k :: "nat \<Rightarrow> zb_globals_n" where
  "demo_k k = upd_nbt (\<lambda>_. demo_nbt k) demo_n"

lemma demo_k_fields [simp]: "neighbor (nwk (demo_k k)) = demo_nbt k" "addr (demo_k k) = addr demo_a"
  by (simp_all add: demo_k_def demo_n_def)

lemma demo_nbt_fields [simp]: "base_neighbor_used (demo_nbt k) = k" "base_neighbor_size (demo_nbt k) = 32"
  "ext_neighbor (demo_nbt k) = None" "ext_neighbor_size (demo_nbt k) = 0" "ext_neighbor_used (demo_nbt k) = 0"
  "incoming_frame_counter_clock (demo_nbt k) = 0"
  by (simp_all add: demo_nbt_def zb_nwk_neighbor_clear_def zb_nwk_neighbor_init_def zero_nbt_def nwk_consts)

lemma demo_nbt_arrays:
  assumes "k \<le> 32"
  shows "length (base_neighbor (demo_nbt k)) = 32" "length (addr_to_neighbor (demo_nbt k)) = 101"
    and "i < 32 \<Longrightarrow> base_neighbor (demo_nbt k) ! i = Some (if i < k then zero_nb\<lparr>ne_used := True, ne_addr_ref := i\<rparr> else zero_nb)"
    and "r < 101 \<Longrightarrow> addr_to_neighbor (demo_nbt k) ! r = (if r < k then r else 255)"
  using assms by (simp_all add: demo_nbt_def nth_append)

lemma demo_nbt_get:
  assumes "k \<le> 32"
  shows "nb_get (demo_nbt k) i = (if i < 32 then Some (if i < k then zero_nb\<lparr>ne_used := True, ne_addr_ref := i\<rparr> else zero_nb) else None)"
  using demo_nbt_arrays [OF assms] by (simp add: nb_get_def aget_def)

lemma demo_nbt_ready:
  assumes "k \<le> 32"
  shows "start_ready (demo_nbt k)"
proof -
  note d = demo_nbt_arrays [OF assms] demo_nbt_get [OF assms]
  have "nb_wf (demo_nbt k)"
    unfolding nb_wf_def nb_sizes_def mapped_def using assms by (auto simp: d zero_nb_def split: if_splits)
  then show ?thesis using assms d by (simp add: start_ready_def nb_known_def)
qed

lemma demo_nbt_abs: "k \<le> 32 \<Longrightarrow> nb_abs (demo_nbt k) r = (if r < k then Some (zero_nb\<lparr>ne_used := True, ne_addr_ref := r\<rparr>) else None)"
  using demo_nbt_arrays [of k] demo_nbt_get [of k] by (auto simp: nb_abs_def)

lemma demo_addr: "length (addr_map (addr demo_a)) = 101" "r < 101 \<Longrightarrow> am_lock_cnt (addr_map (addr demo_a) ! r) = 0"
  by (simp_all add: demo_a_def addr_zero_def zero_ent_def)

lemma zb_nwk_exneighbor_start_keeps_witness: "\<exists>N'. zb_nwk_exneighbor_start (demo_nbt 20) = Some N' \<and> nb_abs N' = nb_abs (demo_nbt 20)"
  using zb_nwk_exneighbor_start_keeps [of "demo_nbt 20"] demo_nbt_ready [of 20] by auto

lemma zb_nwk_exneighbor_start_overlays_witness:
  "\<exists>N1 i. zb_nwk_exneighbor_start (demo_nbt 26) = Some N1 \<and> i < 26 \<and> nb_get N1 i \<noteq> None
      \<and> (\<exists>N2. alloc_new_extneiboard 1 0x1234 N1 = Some (N2, RET_OK, Some 0) \<and> nb_get N2 i = None)"
  using zb_nwk_exneighbor_start_overlays [of "demo_nbt 26" 1 "0x1234"] demo_nbt_ready [of 26] by simp

lemma demo_lock: "r < 101 \<Longrightarrow> \<exists>A. zb_address_lock r (addr demo_a) = Some A"
  using lock_spec [OF demo_addr(1), of r] demo_addr(2) [of r] by auto

lemma zb_nwk_neighbor_get_refines_witness:
  "\<exists>A N'. zb_address_lock 50 (addr demo_a) = Some A
    \<and> zb_nwk_neighbor_get 50 True (demo_k 20) = Some (upd_nbt (\<lambda>_. N') ((demo_k 20)\<lparr>addr := A\<rparr>), RET_OK, Some 20)
    \<and> nb_abs N' = (nb_abs (demo_nbt 20))(50 \<mapsto> new_nb 50 (demo_k 20))"
proof -
  obtain A where A: "zb_address_lock 50 (addr demo_a) = Some A" using demo_lock [of 50] by auto
  have "nb_wf (demo_nbt 20)" "layout_ok (demo_nbt 20)"
    using demo_nbt_ready [of 20] by (simp_all add: start_ready_def layout_ok_def)
  then show ?thesis using zb_nwk_neighbor_get_refines [of "demo_k 20" 50 True] demo_nbt_abs [of 20 50] A by auto
qed

lemma zb_nwk_neighbor_delete_leaks_witness:
  "\<exists>g'. churn [0..<31] (demo_k 0) = Some g' \<and> zb_nwk_neighbor_get 40 True g' = Some (g', RET_NO_MEMORY, None)"
proof -
  have "nb_wf (demo_nbt 0)" using demo_nbt_ready [of 0] by (simp add: start_ready_def)
  then show ?thesis using zb_nwk_neighbor_delete_leaks [of "demo_k 0" "[0..<31]"] demo_nbt_abs [of 0] demo_addr by auto
qed

lemma zb_nwk_neighbor_get_overruns_witness:
  "\<exists>N1 N2 g' n. zb_nwk_exneighbor_start (demo_nbt 20) = Some N1
    \<and> alloc_new_extneiboard 1 0x1234 N1 = Some (N2, RET_OK, Some 0) \<and> ext_get N2 0 \<noteq> None
    \<and> zb_nwk_neighbor_get 50 True (upd_nbt (\<lambda>_. N2) (demo_k 20)) = Some (g', RET_OK, Some n)
    \<and> ext_get (neighbor (nwk g')) 0 = None"
proof -
  obtain A where "zb_address_lock 50 (addr demo_a) = Some A" using demo_lock [of 50] by auto
  then show ?thesis
    using zb_nwk_neighbor_get_overruns [where g = "demo_k 20" and r = 50 and A = A and p = 1 and a = "0x1234"] demo_nbt_ready [of 20] demo_nbt_abs [of 20 50] by simp
qed

lemma zb_nwk_neighbor_frame_counters_expire_witness:
  "\<exists>bs. clock_runs 32 7 (demo_nbt 20) = Some ((demo_nbt 20)\<lparr>base_neighbor := bs\<rparr>)
    \<and> bs ! 0 = Some (zero_nb\<lparr>ne_used := True, ne_addr_ref := 0, ne_incoming_frame_counter := 0, ne_key_seq_number := 7\<rparr>)"
proof -
  have "layout_ok (demo_nbt 20)" by (simp add: layout_ok_def)
  from zb_nwk_neighbor_frame_counters_expire [OF demo_nbt_arrays(1) _ _ this, of 7] obtain bs where
    "clock_runs 32 7 (demo_nbt 20) = Some ((demo_nbt 20)\<lparr>base_neighbor := bs\<rparr>)"
    "bs ! 0 = map_option (expire_nb 7) (base_neighbor (demo_nbt 20) ! 0)"
    using demo_nbt_get [of 20] by auto
  then show ?thesis using demo_nbt_arrays(3) [of 20 0] by (intro exI [of _ bs]) (simp add: expire_nb_def zero_nb_def)
qed

lemma zb_nwk_neighbor_next_ze_children_visits_witness:
  "visit (zb_nwk_neighbor_next_ze_children_i 0xffff) 21 0 (demo_nbt 20) = Some []"
  using zb_nwk_neighbor_next_ze_children_visits [of "demo_nbt 20" "0xffff"] demo_nbt_get [of 20]
  by (simp add: zero_nb_def)

end
