(* ===== verification/Zb_Nwk_Join.thy ===== *)
theory Zb_Nwk_Join
  imports Zb_Nwk_Tree_Props Zb_Neighbor_Runs
begin

text \<open>
  A new device joins: \<^verbatim>\<open>zb_nwk_accept_child\<close> of \<^verbatim>\<open>nwk/nwk_cr_join.c\<close> from the address tables to the neighbor
  table. The address it gives is the device's address in the tree of \<^theory_text>\<open>Zb_Nwk_Tree_Props\<close>.
\<close>

section \<open>The address tables\<close>

lemma lock_cnt_spec:
  assumes "i < length (addr_map A)" "am_lock_cnt (addr_map A ! i) + 1 \<noteq> 0"
  shows "zb_address_lock i A = Some (A\<lparr>addr_map := (addr_map A)[i := (addr_map A ! i)\<lparr>
     am_lock_cnt := am_lock_cnt (addr_map A ! i) + 1, am_clock := True\<rparr>]\<rparr>)"
  using assms by (simp add: zb_address_lock_def upd_ent_def aget_def zb_assert_def)

lemma update_lock: "zb_address_update a s lock A = Option.bind (zb_address_update a s False A) (lock_if lock)"
proof -
  have "lock_if False = Some" by (intro ext) (simp add: lock_if_def split_beta)
  then show ?thesis by (simp add: zb_address_update_def Let_def cong: option.case_cong) (simp add: split_def)
qed

text \<open>The entry of a device that was in no table, once it is locked.\<close>

lemma update_locked:
  assumes wf: "addr_wf A" and l: "length a = 8" and c: "zb_ieee_addr_compress a A = Some (A1, c)"
    and new: "\<forall>r. \<not> has_short A s r" "ieee_search c A1 = None" and n: "n_elements A \<noteq> 101"
    and unlocked: "\<forall>r<101. \<not> ent_used A r \<longrightarrow> am_lock_cnt (addr_map A ! r) = 0"
  shows "\<exists>B i. zb_address_update a s True A = Some (B, RET_OK, Some i) \<and> i < 101 \<and> \<not> ent_used A i
    \<and> length (addr_map B) = 101 \<and> am_lock_cnt (addr_map B ! i) = 1 \<and> zb_address_by_ref i B = Some (a, s)"
proof -
  have mw: "manuf_wf A" using addr_wf_sizes [OF wf] by (simp add: sizes_ok_def)
  note cc = compress_cases [OF l mw c]
  obtain B i where B: "zb_address_update a s False A = Some (B, RET_OK, Some i)" "addr_wf B" "added A1 i c s B"
    using update_new [OF assms(1-6)] by blast
  have e: "i < 101" "\<not> ent_used A1 i" "am_lock_cnt (addr_map B ! i) = am_lock_cnt (addr_map A1 ! i)"
      "used_manufacturer B = used_manufacturer A1" "dev_manufacturer B = dev_manufacturer A1"
      "ent_addr B i = s" "am_ieee (addr_map B ! i) = c" "length (addr_map B) = 101"
    using B(2,3) by (simp_all add: added_def)
  have u: "\<not> ent_used A i" "addr_map A1 = addr_map A" using e(2) cc by (simp_all add: ent_used_def)
  have z: "am_lock_cnt (addr_map B ! i) = 0" using unlocked e(1,3) u by simp
  have "zb_address_lock i B = Some (B\<lparr>addr_map := (addr_map B)[i := (addr_map B ! i)\<lparr>am_lock_cnt := 1, am_clock := True\<rparr>]\<rparr>)"
    using lock_cnt_spec [of i B] e(1,8) z by simp
  then have up: "zb_address_update a s True A = Some (B\<lparr>addr_map := (addr_map B)[i := (addr_map B ! i)\<lparr>am_lock_cnt := 1, am_clock := True\<rparr>]\<rparr>, RET_OK, Some i)"
    using B(1) by (simp add: update_lock [of a s True]) (simp add: lock_if_def)
  have "zb_ieee_addr_decompress c A1 = Some a" using compress_roundtrip [OF mw l] c by (auto split: if_splits)
  then have "zb_ieee_addr_decompress c B = Some a" using e(4,5) by (simp add: zb_ieee_addr_decompress_def)
  then have "zb_ieee_addr_decompress c (B\<lparr>addr_map := M\<rparr>) = Some a" for M by (simp add: zb_ieee_addr_decompress_def)
  then show ?thesis using up e u(1) by (auto simp: zb_address_by_ref_def ent_addr_def)
qed


section \<open>The neighbor table\<close>

lemma nb_upd_abs:
  assumes wf: "nb_wf N" and r: "r < 101" "nb_abs N r = Some e" "addr_to_neighbor N ! r = n"
    and f: "ne_used (f e)" "ne_addr_ref (f e) = ne_addr_ref e"
  shows "\<exists>N'. nb_upd n f N = Some N' \<and> nb_wf N' \<and> nb_abs N' = (nb_abs N)(r \<mapsto> f e)"
proof -
  note sz = nb_wf_sizes [OF wf]
  have m: "mapped N r e n" using r nb_wf_abs [OF wf] by blast
  then have n: "n < 32" "nb_get N n = Some e" using nb_get_32 sz unfolding mapped_def by blast+
  obtain N' where N': "nb_put n (f e) N = Some N'" "base_neighbor N' = (base_neighbor N)[n := Some (f e)]"
    "addr_to_neighbor N' = addr_to_neighbor N" "base_neighbor_used N' = base_neighbor_used N"
    using nb_put_ok [of N n "f e"] sz n(1) by auto
  have get: "nb_get N' j = (if j = n then Some (f e) else nb_get N j)" for j
    using nb_get_update [OF _ N'(2)] sz n by simp
  have sz': "nb_sizes N'" using sz by (simp add: nb_sizes_def N')
  have uniq: "s = r" if "s < 101" "addr_to_neighbor N ! s = n" for s
    using nb_wf_mapped [OF wf that(1)] that(2) m n by (auto simp: mapped_def)
  have r': "ne_addr_ref (f e) = r" "n \<noteq> 255" "n < base_neighbor_used N" using m f by (simp_all add: mapped_def)
  have keep: "\<exists>x. mapped N' s x (addr_to_neighbor N ! s)" if s: "s < 101" "addr_to_neighbor N ! s \<noteq> 255" for s
  proof (cases "addr_to_neighbor N ! s = n")
    case True
    then have "mapped N' s (f e) n" using uniq [OF s(1)] r' f(1) get [of n] N'(4) by (simp add: mapped_def)
    then show ?thesis using True by blast
  next
    case False
    obtain x where "mapped N s x (addr_to_neighbor N ! s)" using nb_wf_mapped [OF wf s] by blast
    then have "mapped N' s x (addr_to_neighbor N ! s)" using False get [of "addr_to_neighbor N ! s"] N'(4) by (simp add: mapped_def)
    then show ?thesis by blast
  qed
  have "ne_addr_ref x < 101 \<and> addr_to_neighbor N ! ne_addr_ref x = j" if "nb_get N' j = Some x" "ne_used x" for j x
  proof (cases "j = n")
    case True
    then have "x = f e" using that(1) get [of j] by simp
    then show ?thesis using True r' r(1,3) by simp
  next
    case False
    then show ?thesis using that get [of j] nb_wf_used [OF wf] by simp
  qed
  then have "nb_wf N'" using keep sz' unfolding nb_wf_def N'(3) by blast
  moreover have "nb_abs N' = (nb_abs N)(r \<mapsto> f e)"
  proof (rule ext)
    fix s show "nb_abs N' s = ((nb_abs N)(r \<mapsto> f e)) s"
      using uniq [of s] r(1,3) r'(2) get [of "addr_to_neighbor N ! s"] by (cases "s = r") (auto simp: nb_abs_def N'(3))
  qed
  ultimately show ?thesis using N'(1) n(2) by (auto simp: nb_upd_def)
qed

section \<open>A new device joins\<close>

lemma lock_by_ref: "zb_address_lock i A = Some B \<Longrightarrow> zb_address_by_ref i B = zb_address_by_ref i A"
  by (auto simp: zb_address_lock_def zb_address_by_ref_def zb_ieee_addr_decompress_def upd_ent_def aget_def zb_assert_def
      split: if_splits)

text \<open>A device that is in no table, neither by its long address nor by the short address it is to get.\<close>

definition new_device :: "zb_ieee_addr_t \<Rightarrow> zb_uint16_t \<Rightarrow> 'z zb_globals_n_scheme \<Rightarrow> bool" where
  "new_device a s g \<longleftrightarrow> addr_wf (addr g) \<and> length a = 8
     \<and> (\<exists>A c. zb_ieee_addr_compress a (addr g) = Some (A, c) \<and> ieee_search c A = None)
     \<and> (\<forall>r. \<not> has_short (addr g) s r) \<and> n_elements (addr g) \<noteq> 101
     \<and> (\<forall>r<101. \<not> ent_used (addr g) r \<longrightarrow> am_lock_cnt (addr_map (addr g) ! r) = 0 \<and> nb_abs (neighbor (nwk g)) r = None)"

definition neighbor_room :: "zb_neighbor_tbl \<Rightarrow> bool" where
  "neighbor_room N \<longleftrightarrow> nb_wf N \<and> base_neighbor_used N < 32 \<and> base_neighbor_used N \<noteq> dec32 (base_neighbor_size N)"

lemma new_device_compressed:
  assumes "new_device a s g"
  obtains A c where "zb_ieee_addr_compress a (addr g) = Some (A, c)" "ieee_search c A = None" "new_device a s (g\<lparr>addr := A\<rparr>)"
    "addr_map A = addr_map (addr g)"
proof -
  obtain A c where c: "zb_ieee_addr_compress a (addr g) = Some (A, c)" "ieee_search c A = None"
    and w: "addr_wf (addr g)" "length a = 8" using assms by (auto simp: new_device_def)
  have mw: "manuf_wf (addr g)" using addr_wf_sizes [OF w(1)] by (simp add: sizes_ok_def)
  note cc = compress_cases [OF w(2) mw c(1)]
  have s1: "sizes_ok A" using addr_wf_sizes [OF w(1)] cc by (simp add: sizes_ok_def)
  have wf1: "addr_wf A" by (rule addr_wf_cong [OF w(1) s1]) (use cc in \<open>simp_all add: sorted_refs_def\<close>)
  have m: "addr_map A = addr_map (addr g)" "sorted_refs A = sorted_refs (addr g)" "n_elements A = n_elements (addr g)"
    using cc by (simp_all add: sorted_refs_def)
  obtain D where D: "zb_ieee_addr_compress a A = Some (D, c)" "addr_map D = addr_map A"
    using compress_again [OF w(2) mw c(1)] by blast
  have "ieee_search c D = None" using ieee_search_cong [of D A c] D(2) c(2) by simp
  then have "new_device a s (g\<lparr>addr := A\<rparr>)"
    using assms wf1 D(1) by (auto simp: new_device_def has_short_def ent_used_def ent_addr_def m)
  then show ?thesis using that c m(1) by blast
qed

lemma enter_child_new:
  assumes "new_device a s g" "neighbor_room (neighbor (nwk g))"
  shows "\<exists>A N i. enter_child a s g = Some (upd_nbt (\<lambda>_. N) (g\<lparr>addr := A\<rparr>), MAC_SUCCESS, Some (base_neighbor_used (neighbor (nwk g))))
    \<and> zb_address_by_ref i A = Some (a, s) \<and> i < 101 \<and> \<not> ent_used (addr g) i \<and> nb_wf N
    \<and> nb_abs N = (nb_abs (neighbor (nwk g)))(i \<mapsto> new_nb i g)
    \<and> addr_to_neighbor N ! i = base_neighbor_used (neighbor (nwk g))"
proof -
  let ?n = "base_neighbor_used (neighbor (nwk g))"
  obtain A c where c: "zb_ieee_addr_compress a (addr g) = Some (A, c)" "ieee_search c A = None" 
    and d: "addr_wf (addr g)" "length a = 8" "\<forall>r. \<not> has_short (addr g) s r" "n_elements (addr g) \<noteq> 101"
      "\<forall>r<101. \<not> ent_used (addr g) r \<longrightarrow> am_lock_cnt (addr_map (addr g) ! r) = 0"
      "\<forall>r<101. \<not> ent_used (addr g) r \<longrightarrow> nb_abs (neighbor (nwk g)) r = None"
    using assms(1) by (auto simp: new_device_def)
  obtain B i where B: "zb_address_update a s True (addr g) = Some (B, RET_OK, Some i)" "i < 101" "\<not> ent_used (addr g) i"
      "length (addr_map B) = 101" "am_lock_cnt (addr_map B ! i) = 1" "zb_address_by_ref i B = Some (a, s)"
    using update_locked [OF d(1,2) c(1) d(3) c(2) d(4,5)] by blast
  obtain C where C: "zb_address_lock i B = Some C" using lock_cnt_spec [of i B] B(2,4,5) by auto
  let ?g = "g\<lparr>addr := B\<rparr>"
  have w: "nb_wf (neighbor (nwk ?g))" "nb_abs (neighbor (nwk ?g)) i = None" "base_neighbor_used (neighbor (nwk ?g)) < 32"
      "base_neighbor_used (neighbor (nwk ?g)) \<noteq> dec32 (base_neighbor_size (neighbor (nwk ?g)))" "zb_address_lock i (addr ?g) = Some C"
    using assms(2) d(6) B(2,3) C by (simp_all add: neighbor_room_def)
  from get_create [OF w(1) B(2) w(2-5)]
  obtain N where N: "zb_nwk_neighbor_get i True ?g = Some (upd_nbt (\<lambda>_. N) (?g\<lparr>addr := C\<rparr>), RET_OK, Some ?n)" "nb_wf N"
      "nb_abs N = (nb_abs (neighbor (nwk ?g)))(i \<mapsto> new_nb i ?g)" by auto
  have e: "enter_child a s g = Some (upd_nbt (\<lambda>_. N) (g\<lparr>addr := C\<rparr>), MAC_SUCCESS, Some ?n)"
    using B(1) N(1) by (simp add: enter_child_def)
  have "addr_to_neighbor (neighbor (nwk g)) ! i = 255" using nb_abs_None [OF w(1) B(2) w(2)] by simp
  then have "addr_to_neighbor N ! i = ?n"
    using N(1) nb_wf_sizes [OF w(1)] B(2)
    by (auto simp: zb_nwk_neighbor_get_def a2n_get_def a2n_put_def nb_put_def Let_def bind_eq_Some_conv upd_nbt_def split: if_splits
        dest!: arg_cong [where f = "\<lambda>h. neighbor (nwk h)"])
  moreover have "new_nb i ?g = new_nb i g" by (simp add: new_nb_def)
  ultimately show ?thesis using e N B(2,3,6) lock_by_ref [OF C] by auto
qed


lemma accept_child_new:
  assumes "new_device a s g" "neighbor_room (neighbor (nwk g))"
    "assign_child_address capability (mac_short_address (pib g)) (nib (nwk g)) = Some (s, N)"
  shows "\<exists>g' i. zb_nwk_accept_child a capability lqi g = Some (g', MAC_SUCCESS, Some s) \<and> nib (nwk g') = N
    \<and> \<not> ent_used (addr g) i \<and> zb_address_by_ref i (addr g') = Some (a, s)
    \<and> nb_abs (neighbor (nwk g')) = (nb_abs (neighbor (nwk g)))(i \<mapsto> child_entry capability lqi N (new_nb i g))"
proof -
  obtain A c where c: "zb_ieee_addr_compress a (addr g) = Some (A, c)" "ieee_search c A = None"
    "new_device a s (g\<lparr>addr := A\<rparr>)" "addr_map A = addr_map (addr g)"
    using new_device_compressed [OF assms(1)] by blast
  let ?g1 = "g\<lparr>addr := A\<rparr>"
  let ?g2 = "upd_nib (\<lambda>_. N) ?g1"
  have "zb_address_by_ieee a False False (addr g) = Some (A, RET_NOT_FOUND, None)"
    using c(1,2) by (simp add: zb_address_by_ieee_def lock_if_def)
  then have k: "known_child a capability g = Some (?g1, None)" by (simp add: known_child_def zb_nwk_neighbor_get_by_ieee_def)
  have g2: "new_device a s ?g2" "neighbor_room (neighbor (nwk ?g2))" "addr ?g2 = A" "neighbor (nwk ?g2) = neighbor (nwk g)"
    using c(3) assms(2) by (simp_all add: new_device_def upd_nib_def)
  obtain C M i where e: "enter_child a s ?g2 = Some (upd_nbt (\<lambda>_. M) (?g2\<lparr>addr := C\<rparr>), MAC_SUCCESS, Some (base_neighbor_used (neighbor (nwk g))))"
    "zb_address_by_ref i C = Some (a, s)" "i < 101" "\<not> ent_used A i" "nb_wf M"
    "nb_abs M = (nb_abs (neighbor (nwk g)))(i \<mapsto> new_nb i ?g2)" "addr_to_neighbor M ! i = base_neighbor_used (neighbor (nwk g))"
    using enter_child_new [OF g2(1,2)] unfolding g2(3,4) by blast
  let ?g3 = "stop_permit (upd_nbt (\<lambda>_. M) (?g2\<lparr>addr := C\<rparr>))"
  have g3: "nib (nwk ?g3) = N" "neighbor (nwk ?g3) = M" "addr ?g3 = C"
    by (simp_all add: stop_permit_def zb_nwk_update_beacon_payload_def upd_pib_def upd_nib_def Let_def)
  have "nb_abs M i = Some (new_nb i ?g2)" "ne_used (child_entry capability lqi N (new_nb i ?g2))"
    "ne_addr_ref (child_entry capability lqi N (new_nb i ?g2)) = ne_addr_ref (new_nb i ?g2)"
    using e(6) by (simp_all add: child_entry_def Let_def new_nb_def)
  from nb_upd_abs [where f = "child_entry capability lqi N", OF e(5,3) this(1) e(7) this(2,3)]
  obtain B where B: "nb_upd (base_neighbor_used (neighbor (nwk g))) (child_entry capability lqi N) M = Some B"
    "nb_abs B = (nb_abs M)(i \<mapsto> child_entry capability lqi N (new_nb i ?g2))" by blast
  have "zb_nwk_accept_child a capability lqi g = Some (upd_nbt (\<lambda>_. B) ?g3, MAC_SUCCESS, Some s)"
    using k assms(3) e(1) B(1) g3 by (simp add: zb_nwk_accept_child_def Let_def)
  moreover have "child_entry capability lqi N (new_nb i ?g2) = child_entry capability lqi N (new_nb i g)"
    by (simp add: child_entry_def new_nb_def Let_def)
  moreover have "\<not> ent_used (addr g) i" using e(4) c(4) by (simp add: ent_used_def)
  ultimately show ?thesis using B(2) e(2,6) g3
    by (intro exI [of _ "upd_nbt (\<lambda>_. B) ?g3"] exI [of _ i]) simp
qed

text \<open>The place in the tree of the next child.\<close>

definition next_child :: "zb_uint8_t \<Rightarrow> zb_nib \<Rightarrow> tree_child" where
  "next_child capability N = (if ZB_MAC_CAP_GET_DEVICE_TYPE capability \<noteq> 0 then Child_router (unat (nib_router_child_num N))
     else Child_ed (unat (nib_ed_child_num N)))"

lemma tree_addr_from_append:
  "router_path p \<Longrightarrow> tree_addr_from N a d (p @ q) = tree_addr_from N (tree_addr_from N a d p) (d + length p) q"
  by (induction p arbitrary: a d) (auto simp: router_path_def)

lemma assign_next_child:
  assumes "router_path p" "tree_path N 0 (p @ [next_child capability N])" "nib_depth N = of_nat (length p)"
    "nib_cskip N = zb_nwk_daa_calc_cskip (of_nat (length p)) N"
    "unat (nib_router_child_num N) + unat (nib_ed_child_num N) < unat (nib_max_children N)"
    "ZB_MAC_CAP_GET_ALLOCATE_ADDRESS capability \<noteq> 0"
  shows "\<exists>M. assign_child_address capability (tree_addr N p) N = Some (tree_addr N (p @ [next_child capability N]), M)
    \<and> unat (nib_router_child_num M) + unat (nib_ed_child_num M) = unat (nib_router_child_num N) + unat (nib_ed_child_num N) + 1"
proof -
  have d: "length p < unat (nib_max_depth N)" "\<And>i. next_child capability N = Child_router i \<Longrightarrow> i < unat (nib_max_routers N)"
    using assms(2) tree_path_append [OF assms(1)] by (auto simp: next_child_def split: if_splits)
  have l: "unat (nib_max_depth N) < 256" "unat (nib_max_children N) < 256" by (rule unat8_less)+
  then have "length p < 256" using d(1) by simp
  then have "nib_depth N < nib_max_depth N" using d(1) unat8_of_nat [of "length p"] by (simp add: assms(3) word_less_nat_alt)
  then show ?thesis
    using assms(5,6) d(2) l(2) unat8_Suc [of "nib_router_child_num N"] unat8_Suc [of "nib_ed_child_num N"]
    by (auto simp: assign_child_address_def next_child_def tree_addr_def tree_addr_from_append [OF assms(1)] node_nib_def assms(4)
        ZB_NWK_ROUTER_ADDRESS_ASSIGN_def ZB_NWK_ED_ADDRESS_ASSIGN_def word_less_nat_alt)
qed

text \<open>
  C16: a device that joins a router gets its address in the tree, and both tables get to know it: when the
  device is in no table, there is room for a neighbor, and the limits of the tree have a place for the next
  child, \<open>zb_nwk_accept_child\<close> succeeds with the address of that place, the address table resolves the new reference to
  the device's two addresses, the map of neighbors gains one entry, with the type and the capabilities
  of the device, and one more child is counted.
\<close>

theorem zb_nwk_accept_child_gives_tree_address:
  assumes "router_at p g" "tree_path (nib (nwk g)) 0 (p @ [next_child capability (nib (nwk g))])"
    "unat (nib_router_child_num (nib (nwk g))) + unat (nib_ed_child_num (nib (nwk g))) < unat (nib_max_children (nib (nwk g)))"
    "ZB_MAC_CAP_GET_ALLOCATE_ADDRESS capability \<noteq> 0" "neighbor_room (neighbor (nwk g))"
    "new_device a (tree_addr (nib (nwk g)) (p @ [next_child capability (nib (nwk g))])) g"
  shows "\<exists>g' i. zb_nwk_accept_child a capability lqi g
      = Some (g', MAC_SUCCESS, Some (tree_addr (nib (nwk g)) (p @ [next_child capability (nib (nwk g))])))
    \<and> \<not> ent_used (addr g) i
    \<and> zb_address_by_ref i (addr g') = Some (a, tree_addr (nib (nwk g)) (p @ [next_child capability (nib (nwk g))]))
    \<and> nb_abs (neighbor (nwk g')) = (nb_abs (neighbor (nwk g)))(i \<mapsto> child_entry capability lqi (nib (nwk g')) (new_nb i g))
    \<and> unat (nib_router_child_num (nib (nwk g'))) + unat (nib_ed_child_num (nib (nwk g')))
      = unat (nib_router_child_num (nib (nwk g))) + unat (nib_ed_child_num (nib (nwk g))) + 1"
proof -
  have w: "router_path p" "nib_depth (nib (nwk g)) = of_nat (length p)" "mac_short_address (pib g) = tree_addr (nib (nwk g)) p"
    "nib_cskip (nib (nwk g)) = zb_nwk_daa_calc_cskip (of_nat (length p)) (nib (nwk g))"
    using assms(1) by (simp_all add: router_at_def Let_def)
  from assign_next_child [OF w(1) assms(2) w(2,4) assms(3,4)] accept_child_new [OF assms(6,5)] w(3)
  show ?thesis by (metis (no_types, lifting))
qed

section \<open>A concrete joining\<close>

text \<open>The second router below the coordinator, with an empty address table and no neighbors.\<close>

definition join_dev :: zb_globals_n where
  "join_dev = (net_dev (net 20 6 5) [Child_router 1])\<lparr>addr := addr_zero,
     nwk := (nwk (net_dev (net 20 6 5) [Child_router 1]))\<lparr>neighbor := demo_nbt 0\<rparr>\<rparr>"

definition join_ieee :: zb_ieee_addr_t where "join_ieee = [1, 2, 3, 4, 5, 6, 7, 8]"

lemma join_dev_fields [simp]: "addr join_dev = addr_zero" "neighbor (nwk join_dev) = demo_nbt 0"
  "nib (nwk join_dev) = node_nib (net 20 6 5) 1 0 0"
  by (simp_all add: join_dev_def net_dev_def)

lemma join_dev_new: "new_device join_ieee s join_dev"
proof -
  have l: "length join_ieee = 8" by (simp add: join_ieee_def)
  obtain A c where "zb_ieee_addr_compress join_ieee addr_zero = Some (A, c)" using compress_zero [OF l] by blast
  then show ?thesis
    using l zero_search [OF l] addr_wf_zero zero_no_entries demo_nbt_abs [of 0] by (auto simp: new_device_def addr_zero_def zero_ent_def)
qed

lemma join_dev_room: "neighbor_room (neighbor (nwk join_dev))"
  using demo_nbt_ready [of 0] by (simp add: neighbor_room_def start_ready_def dec32_def)

lemma join_dev_at: "router_at [Child_router 1] join_dev"
  using net_dev_at [of "net 20 6 5" "[Child_router 1]"] net_wf(1) addr_wf_zero demo_nbt_arrays(2) [of 0]
  by (simp add: router_at_def Let_def join_dev_def net_dev_def)

lemma join_dev_counts: "nib_router_child_num (nib (nwk join_dev)) = 0" "nib_ed_child_num (nib (nwk join_dev)) = 0"
  "nib_max_children (nib (nwk join_dev)) = 20" "nib_max_routers (nib (nwk join_dev)) = 6"
  unfolding join_dev_fields by (simp_all add: node_nib_def)

lemma join_next: "next_child 0x82 (nib (nwk join_dev)) = Child_router 0" "ZB_MAC_CAP_GET_ALLOCATE_ADDRESS 0x82 \<noteq> 0"
  "tree_path (nib (nwk join_dev)) 0 ([Child_router 1] @ [Child_router 0])"
  unfolding next_child_def join_dev_counts ZB_MAC_CAP_GET_DEVICE_TYPE_def ZB_MAC_CAP_GET_ALLOCATE_ADDRESS_def by simp_all

lemma zb_nwk_accept_child_gives_tree_address_witness:
  "\<exists>g'. zb_nwk_accept_child join_ieee 0x82 200 join_dev
    = Some (g', MAC_SUCCESS, Some (tree_addr (net 20 6 5) [Child_router 1, Child_router 0]))"
proof -
  have t: "tree_addr (nib (nwk join_dev)) = tree_addr (net 20 6 5)" by simp
  show ?thesis
    using zb_nwk_accept_child_gives_tree_address [OF join_dev_at, of "0x82" join_ieee 200] join_next join_dev_new join_dev_room
    unfolding join_dev_counts join_next(1) t by auto
qed

lemma zb_nwk_accept_child_limits_witness:
  "\<exists>g' st a. zb_nwk_accept_child join_ieee 0x82 200 join_dev = Some (g', st, a) \<and> children_ok (nib (nwk g'))"
proof -
  have w: "router_path [Child_router 1]" "nib_depth (nib (nwk join_dev)) = of_nat (length [Child_router 1])"
    "nib_cskip (nib (nwk join_dev)) = zb_nwk_daa_calc_cskip (of_nat (length [Child_router 1])) (nib (nwk join_dev))"
    "mac_short_address (pib join_dev) = tree_addr (nib (nwk join_dev)) [Child_router 1]"
    using join_dev_at by (simp_all only: router_at_def Let_def)
  obtain M where "assign_child_address 0x82 (mac_short_address (pib join_dev)) (nib (nwk join_dev))
      = Some (tree_addr (nib (nwk join_dev)) [Child_router 1, Child_router 0], M)"
    using assign_next_child [OF w(1) _ w(2,3), of "0x82"] join_next unfolding join_dev_counts join_next(1) w(4) by auto
  then obtain g' st a where "zb_nwk_accept_child join_ieee 0x82 200 join_dev = Some (g', st, a)"
    using accept_child_new [OF join_dev_new join_dev_room] by blast
  moreover have "children_ok (nib (nwk join_dev))" unfolding children_ok_def join_dev_counts by simp
  ultimately show ?thesis using zb_nwk_accept_child_limits by blast
qed

end
