(* ===== verification/Zb_Secur_Keys.thy ===== *)
theory Zb_Secur_Keys
  imports Zb_Neighbor
begin

text \<open>
  The network keys and the trust center: \<^verbatim>\<open>secur/zdo_secur.c\<close> and \<^verbatim>\<open>zb_random\<close> of
  \<^verbatim>\<open>common/zb_random.c\<close>, for the coordinator and router build whose trust center is the
  coordinator and generates the keys (\<^verbatim>\<open>ZB_TC_AT_ZC\<close>, \<^verbatim>\<open>ZB_TC_GENERATES_KEYS\<close>), with
  \<^verbatim>\<open>ZB_DISABLE_REJOIN_AFTER_SEC_FAIL\<close>.

  The parameter of a primitive lies in the tail of its packet buffer (\<^verbatim>\<open>ZB_GET_BUF_PARAM\<close>). The model
  keeps it beside the bytes as a value of \<open>zb_buf_param\<close>, one constructor for each C structure; reading a
  structure that was not written is \<open>None\<close>. Where a structure holds an address and its mode, or a flag and
  the address it guards, they are one field. The announcement of the device (\<^verbatim>\<open>zdo_send_device_annce\<close>)
  is an argument.
\<close>

section \<open>Parameters of the primitives\<close>

definition ZB_STANDARD_NETWORK_KEY :: zb_uint8_t where "ZB_STANDARD_NETWORK_KEY = 1"

definition ZB_STD_SEQ_SECURED_REJOIN :: zb_uint8_t where "ZB_STD_SEQ_SECURED_REJOIN = 0"

definition ZB_STD_SEQ_UNSECURED_JOIN :: zb_uint8_t where "ZB_STD_SEQ_UNSECURED_JOIN = 1"

definition ZB_DEVICE_LEFT :: zb_uint8_t where "ZB_DEVICE_LEFT = 2"

definition ZB_STD_SEQ_UNSECURED_REJOIN :: zb_uint8_t where "ZB_STD_SEQ_UNSECURED_REJOIN = 3"

definition ZB_CCM_KEY_SIZE :: nat where "ZB_CCM_KEY_SIZE = 16"

definition ZB_NWK_RELATIONSHIP_PREVIOUS_CHILD :: "3 word" where "ZB_NWK_RELATIONSHIP_PREVIOUS_CHILD = 4"

lemmas secur_consts = ZB_STANDARD_NETWORK_KEY_def ZB_STD_SEQ_SECURED_REJOIN_def ZB_STD_SEQ_UNSECURED_JOIN_def
  ZB_DEVICE_LEFT_def ZB_STD_SEQ_UNSECURED_REJOIN_def ZB_CCM_KEY_SIZE_def ZB_SECUR_N_SECUR_MATERIAL_def

datatype zb_dest_address = Dest_short zb_uint16_t | Dest_long zb_ieee_addr_t

record zb_apsme_transport_key_req =
  tkr_key_type :: zb_uint8_t
  tkr_dest_address :: zb_dest_address
  tkr_key :: "zb_uint8_t list"
  tkr_key_seq_number :: zb_uint8_t
  tkr_use_parent :: "zb_ieee_addr_t option"

record zb_apsme_transport_key_indication_t =
  tki_key_type :: zb_uint8_t
  tki_src_address :: zb_ieee_addr_t
  tki_key :: "zb_uint8_t list"
  tki_key_seq_number :: zb_uint8_t

record zb_apsme_update_device =
  ud_address :: zb_ieee_addr_t
  ud_device_address :: zb_ieee_addr_t
  ud_device_short_address :: zb_uint16_t
  ud_status :: zb_uint8_t

record zb_apsme_switch_key_req =
  skr_dest_address :: zb_dest_address
  skr_key_seq_number :: zb_uint8_t

record zb_apsme_switch_key_ind =
  ski_src_address :: zb_ieee_addr_t
  ski_key_seq_number :: zb_uint8_t

record zb_apsme_remove_device_req =
  rd_parent_address :: zb_ieee_addr_t
  rd_child_address :: zb_ieee_addr_t

record zb_apsme_request_key_ind =
  rki_src_address :: zb_ieee_addr_t
  rki_key_type :: zb_uint8_t
  rki_partner_address :: "zb_ieee_addr_t option"

record zb_nlme_join_indication =
  ji_network_address :: zb_uint16_t
  ji_extended_address :: zb_ieee_addr_t
  ji_capability_information :: zb_uint8_t
  ji_rejoin_network :: zb_uint8_t
  ji_secure_rejoin :: zb_uint8_t

record zb_nlme_leave_request =
  lr_device_address :: zb_ieee_addr_t
  lr_remove_children :: zb_uint8_t
  lr_rejoin :: zb_uint8_t

record zb_nlme_status_indication =
  si_status :: zb_uint8_t
  si_network_addr :: zb_uint16_t

record zb_nlme_route_discovery_request =
  rdr_address_mode :: zb_uint8_t
  rdr_network_addr :: zb_uint16_t
  rdr_radius :: zb_uint8_t

record zb_nlde_data_req =
  ndr_dst_addr :: zb_uint16_t
  ndr_radius :: zb_uint8_t
  ndr_addr_mode :: zb_uint8_t
  ndr_nonmember_radius :: zb_uint8_t
  ndr_discovery_route :: zb_uint8_t
  ndr_security_enable :: zb_uint8_t
  ndr_ndsu_handle :: zb_uint8_t

text \<open>
  The request to the MAC has 8 bytes at the end of the buffer; the last one, which is padding, is that of a
  handle of one byte set before (\<open>mdr_tail\<close>).
\<close>

record zb_mcps_data_req_params =
  mdr_src_addr :: zb_uint16_t
  mdr_dst_addr :: zb_uint16_t
  mdr_tx_options :: zb_uint8_t
  mdr_msdu_handle :: zb_uint8_t
  mdr_tail :: zb_uint8_t

record zb_nlme_leave_confirm =
  lc_status :: zb_uint8_t
  lc_device_address :: "zb_ieee_addr_t option"

record zb_nlme_leave_indication =
  li_device_address :: zb_ieee_addr_t
  li_rejoin :: zb_uint8_t

record zb_nlme_join_request =
  jr_extended_pan_id :: "zb_uint8_t list"
  jr_scan_channels :: zb_uint32_t
  jr_capability_information :: zb_uint8_t
  jr_rejoin_network :: zb_uint8_t
  jr_scan_duration :: zb_uint8_t
  jr_security_enabled :: zb_uint8_t

record zb_apsme_request_key_req =
  rkr_dest_address :: zb_ieee_addr_t
  rkr_key_type :: zb_uint8_t
  rkr_partner_address :: zb_ieee_addr_t

record zb_apsde_data_req =
  adr_dst_addr :: "zb_uint8_t list"
  adr_profileid :: zb_uint16_t
  adr_clusterid :: zb_uint16_t
  adr_dst_endpoint :: zb_uint8_t
  adr_src_endpoint :: zb_uint8_t
  adr_radius :: zb_uint8_t
  adr_addr_mode :: zb_uint8_t
  adr_tx_options :: zb_uint8_t

text \<open>The parsed header of an APS frame; a field that the parser does not set has no value.\<close>

record zb_aps_hdr =
  ah_fc :: zb_uint8_t
  ah_src_addr :: zb_uint16_t
  ah_dst_addr :: zb_uint16_t
  ah_group_addr :: "zb_uint16_t option"
  ah_dst_endpoint :: "zb_uint8_t option"
  ah_src_endpoint :: zb_uint8_t
  ah_clusterid :: "zb_uint16_t option"
  ah_profileid :: "zb_uint16_t option"
  ah_aps_counter :: zb_uint8_t

datatype zb_buf_param =
    Param_none
  | Param_uint16 zb_uint16_t
  | Transport_key_req zb_apsme_transport_key_req
  | Transport_key_ind zb_apsme_transport_key_indication_t
  | Update_device_req zb_apsme_update_device
  | Update_device_ind zb_apsme_update_device
  | Switch_key_req zb_apsme_switch_key_req
  | Switch_key_ind zb_apsme_switch_key_ind
  | Remove_device_req zb_apsme_remove_device_req
  | Remove_device_ind zb_apsme_remove_device_req
  | Request_key_ind zb_apsme_request_key_ind
  | Join_ind zb_nlme_join_indication
  | Leave_req zb_nlme_leave_request
  | Status_ind zb_nlme_status_indication
  | Nsdu_handle zb_uint8_t
  | Route_discovery_req zb_nlme_route_discovery_request
  | Nlde_data_req zb_nlde_data_req
  | Mcps_data_req zb_mcps_data_req_params
  | Leave_conf zb_nlme_leave_confirm
  | Leave_ind zb_nlme_leave_indication
  | Join_req zb_nlme_join_request
  | Request_key_req zb_apsme_request_key_req
  | Apsde_data_req zb_apsde_data_req
  | Aps_hdr zb_aps_hdr

text \<open>
  The global context with what security adds: fields of \<^verbatim>\<open>ZG->nwk.handle\<close> and \<^verbatim>\<open>ZG->zdo.handle\<close>, the
  device's own address in the PIB, the parameters of the buffers and the base of the random
  numbers, \<^verbatim>\<open>(zb_uint32_t)&g_izb\<close>.
\<close>

record zb_globals_s = zb_globals_n +
  is_tc :: bool
  key_sw :: nat
  allow_auth :: bool
  extended_address :: zb_ieee_addr_t
  buf_param :: "nat \<Rightarrow> zb_buf_param"
  rnd_base :: zb_uint32_t

definition put_param :: "nat \<Rightarrow> zb_buf_param \<Rightarrow> 'z zb_globals_s_scheme \<Rightarrow> 'z zb_globals_s_scheme" where
  "put_param b v g = g\<lparr>buf_param := (buf_param g)(b := v)\<rparr>"

text \<open>A handler that schedules a callback on a buffer does not look at the result.\<close>

definition schedule_buf :: "zb_callback \<Rightarrow> nat \<Rightarrow> 'z zb_globals_scheme \<Rightarrow> 'z zb_globals_scheme option" where
  "schedule_buf f b g = map_option fst (zb_schedule_callback f (of_nat b) g)"

section \<open>Keys\<close>

definition zb_random :: "zb_uint32_t \<Rightarrow> zb_uint16_t" where
  "zb_random base = ucast (1103515245 * base + 12345)"

definition secur_nwk_key_is_empty :: "zb_uint8_t list \<Rightarrow> bool" where
  "secur_nwk_key_is_empty key = list_all (\<lambda>b. b = 0) (take ZB_CCM_KEY_SIZE key)"

definition secur_has_preconfigured_key :: "zb_nib \<Rightarrow> bool" where
  "secur_has_preconfigured_key N = (\<not> secur_nwk_key_is_empty (sm_key (nib_secur_material_set N ! 0)))"

definition set_key :: "nat \<Rightarrow> zb_uint8_t list \<Rightarrow> zb_uint8_t \<Rightarrow> zb_nib \<Rightarrow> zb_nib option" where
  "set_key i key seq N =
     (if i < length (nib_secur_material_set N) then
        Some (N\<lparr>nib_secur_material_set := (nib_secur_material_set N)[i := \<lparr>sm_key = key, sm_key_seq_number = seq\<rparr>]\<rparr>)
      else None)"

definition zb_secur_setup_preconfigured_key :: "zb_uint8_t list \<Rightarrow> nat \<Rightarrow> zb_nib \<Rightarrow> zb_nib option" where
  "zb_secur_setup_preconfigured_key key i N =
     (if i \<ge> ZB_SECUR_N_SECUR_MATERIAL then Some N else set_key i key (of_nat i) N)"

definition secur_clear_preconfigured_key :: "zb_nib \<Rightarrow> zb_nib" where
  "secur_clear_preconfigured_key N = N\<lparr>nib_secur_material_set :=
     (nib_secur_material_set N)[0 := (nib_secur_material_set N ! 0)\<lparr>sm_key := replicate ZB_CCM_KEY_SIZE 0\<rparr>]\<rparr>"

definition secur_generate_key :: "zb_uint32_t \<Rightarrow> nat \<Rightarrow> zb_uint8_t \<Rightarrow> zb_nib \<Rightarrow> zb_nib option" where
  "secur_generate_key base i key_seq N =
     set_key i (map (\<lambda>j. ucast (drop_bit 4 (zb_random base))) [0..<ZB_CCM_KEY_SIZE]) key_seq N"

fun generate_keys :: "zb_uint32_t \<Rightarrow> nat list \<Rightarrow> zb_nib \<Rightarrow> zb_nib option" where
  "generate_keys base [] N = Some N"
| "generate_keys base (i # is) N = do {
     N1 \<leftarrow> secur_generate_key base i (of_nat i) N;
     generate_keys base is N1 }"

definition secur_generate_keys :: "zb_uint32_t \<Rightarrow> zb_nib \<Rightarrow> zb_nib option" where
  "secur_generate_keys base N = generate_keys base [0..<ZB_SECUR_N_SECUR_MATERIAL] N"

text \<open>The search from the active slot on: the slot, or \<open>None\<close> behind the last of the \<open>n\<close> slots to try.\<close>

fun key_search :: "nat \<Rightarrow> nat \<Rightarrow> zb_uint8_t \<Rightarrow> zb_secur_material_set list \<Rightarrow> nat option option" where
  "key_search 0 i seq S = Some None"
| "key_search (Suc n) i seq S = do {
     e \<leftarrow> aget S i;
     if sm_key_seq_number e = seq then Some (Some i)
     else key_search n ((i + 1) mod ZB_SECUR_N_SECUR_MATERIAL) seq S }"

definition secur_nwk_key_by_seq :: "zb_uint8_t \<Rightarrow> zb_nib \<Rightarrow> zb_uint8_t list option option" where
  "secur_nwk_key_by_seq seq N = do {
     r \<leftarrow> key_search ZB_SECUR_N_SECUR_MATERIAL (unat (nib_active_secur_material_i N)) seq (nib_secur_material_set N);
     Some (map_option (\<lambda>i. sm_key (nib_secur_material_set N ! i)) r) }"

text \<open>The loop of \<^verbatim>\<open>secur_nwk_key_switch\<close>: it goes on while the slots hold the number.\<close>

fun switch_scan :: "nat \<Rightarrow> nat \<Rightarrow> nat \<Rightarrow> zb_uint8_t \<Rightarrow> zb_secur_material_set list \<Rightarrow> nat option" where
  "switch_scan 0 i shift k S = Some i"
| "switch_scan (Suc n) i shift k S = do {
     e \<leftarrow> aget S ((i + shift) mod ZB_SECUR_N_SECUR_MATERIAL);
     if sm_key_seq_number e = k then switch_scan n (i + 1) shift k S else Some i }"

definition secur_nwk_key_switch :: "zb_uint8_t \<Rightarrow> 'z zb_globals_s_scheme \<Rightarrow> 'z zb_globals_s_scheme option" where
  "secur_nwk_key_switch key_number g = do {
     let N = nib (nwk g);
     let shift = (unat (nib_active_secur_material_i N) + 1) mod ZB_SECUR_N_SECUR_MATERIAL;
     i \<leftarrow> switch_scan ZB_SECUR_N_SECUR_MATERIAL 0 shift key_number (nib_secur_material_set N);
     (N1, i1) \<leftarrow> (if i = ZB_SECUR_N_SECUR_MATERIAL \<and> is_tc g then do {
         N1 \<leftarrow> secur_generate_key (rnd_base g) shift key_number N;
         Some (N1, shift) }
       else Some (N, i));
     Some (if i1 \<noteq> ZB_SECUR_N_SECUR_MATERIAL then
         upd_nib (\<lambda>_. N1\<lparr>nib_active_secur_material_i := of_nat i1, nib_active_key_seq_number := key_number,
           nib_prev_outgoing_frame_counter := nib_outgoing_frame_counter N1, nib_outgoing_frame_counter := 0\<rparr>) g
       else g) }"

section \<open>Receiving keys\<close>

definition upd_aib :: "(zb_apsib \<Rightarrow> zb_apsib) \<Rightarrow> 'z zb_globals_a_scheme \<Rightarrow> 'z zb_globals_a_scheme" where
  "upd_aib f = upd_aps (\<lambda>a. a\<lparr>aib := f (aib a)\<rparr>)"

text \<open>The first key tells the address of the trust center, whose short address is taken to be 0.\<close>

definition learn_tc :: "zb_ieee_addr_t \<Rightarrow> 'z zb_globals_s_scheme \<Rightarrow> 'z zb_globals_s_scheme option" where
  "learn_tc src g =
     (if trust_center_address (aib (aps g)) = replicate 8 0 then do {
        let g1 = upd_aib (\<lambda>a. a\<lparr>trust_center_address := src\<rparr>) g;
        (A, _, _) \<leftarrow> zb_address_update src 0 False (addr g1);
        Some (g1\<lparr>addr := A\<rparr>) }
      else Some g)"

text \<open>Storing a network key: the slot and the new NIB.\<close>

definition store_key :: "zb_uint8_t list \<Rightarrow> zb_uint8_t \<Rightarrow> zb_nib \<Rightarrow> (nat \<times> zb_nib) option" where
  "store_key key seq N =
     (if secur_nwk_key_is_empty key \<and> seq = 0 then Some (0, N)
      else do {
        let active = unat (nib_active_secur_material_i N);
        let i = (active + unat (seq - nib_active_key_seq_number N)) mod ZB_SECUR_N_SECUR_MATERIAL;
        N1 \<leftarrow> set_key i (take ZB_CCM_KEY_SIZE key) seq N;
        Some (i, if i = active \<and> seq \<noteq> nib_active_key_seq_number N
          then N1\<lparr>nib_active_key_seq_number := seq, nib_outgoing_frame_counter := 0\<rparr> else N1) })"

definition zb_apsme_transport_key_indication ::
    "(nat \<Rightarrow> 'z zb_globals_s_scheme \<Rightarrow> 'z zb_globals_s_scheme option) \<Rightarrow> nat
     \<Rightarrow> 'z zb_globals_s_scheme \<Rightarrow> 'z zb_globals_s_scheme option" where
  "zb_apsme_transport_key_indication zdo_send_device_annce param g =
     (case buf_param g param of
        Transport_key_ind ind \<Rightarrow>
          if tki_key_type ind = ZB_STANDARD_NETWORK_KEY then do {
            g1 \<leftarrow> learn_tc (tki_src_address ind) g;
            (i, N) \<leftarrow> store_key (tki_key ind) (tki_key_seq_number ind) (nib (nwk g1));
            let g2 = upd_nib (\<lambda>_. N) g1;
            if \<not> aps_authenticated (aps g2) then
              zdo_send_device_annce param
                (upd_nib (\<lambda>n. n\<lparr>nib_active_key_seq_number := tki_key_seq_number ind, nib_outgoing_frame_counter := 0,
                     nib_active_secur_material_i := of_nat i\<rparr>)
                  (upd_aps (\<lambda>a. a\<lparr>aps_authenticated := True\<rparr>) g2))
            else zb_free_buf param g2 }
          else zb_free_buf param g
      | _ \<Rightarrow> None)"

definition zb_apsme_switch_key_indication :: "nat \<Rightarrow> 'z zb_globals_s_scheme \<Rightarrow> 'z zb_globals_s_scheme option" where
  "zb_apsme_switch_key_indication param g =
     (case buf_param g param of
        Switch_key_ind ind \<Rightarrow> do {
          g1 \<leftarrow> secur_nwk_key_switch (ski_key_seq_number ind) g;
          zb_free_buf param g1 }
      | _ \<Rightarrow> None)"

section \<open>The trust center\<close>

definition secur_tc_init :: "'z zb_globals_s_scheme \<Rightarrow> 'z zb_globals_s_scheme" where
  "secur_tc_init g = upd_aps (\<lambda>a. a\<lparr>aps_authenticated := True\<rparr>)
     (upd_aib (\<lambda>a. a\<lparr>trust_center_address := extended_address g\<rparr>) (g\<lparr>is_tc := True\<rparr>))"

text \<open>The last case is \<open>-1\<close>, which the callers store in a byte.\<close>

definition zb_secur_gen_upd_dev_status :: "zb_uint8_t \<Rightarrow> zb_uint8_t \<Rightarrow> zb_uint8_t" where
  "zb_secur_gen_upd_dev_status rejoin_network secure_rejoin =
     (let v = push_bit 1 (of_bool (rejoin_network \<noteq> 0)) OR secure_rejoin in
      if v = 0 then ZB_STD_SEQ_UNSECURED_JOIN
      else if v = 2 then ZB_STD_SEQ_SECURED_REJOIN
      else if v = 3 then ZB_STD_SEQ_UNSECURED_REJOIN
      else 0xff)"

definition active_key :: "zb_nib \<Rightarrow> zb_uint8_t list option" where
  "active_key N = map_option sm_key (aget (nib_secur_material_set N) (unat (nib_active_secur_material_i N)))"

definition secur_authenticate_child :: "nat \<Rightarrow> 'z zb_globals_s_scheme \<Rightarrow> 'z zb_globals_s_scheme option" where
  "secur_authenticate_child param g =
     (case buf_param g param of
        Join_ind ind \<Rightarrow> do {
          let st = zb_secur_gen_upd_dev_status (ji_rejoin_network ind) (ji_secure_rejoin ind);
          let N = nib (nwk g);
          if nib_device_type N = ucast ZB_NWK_DEVICE_TYPE_COORDINATOR \<and> is_tc g then do {
            (key, seq) \<leftarrow> (if st = ZB_STD_SEQ_SECURED_REJOIN then Some (replicate ZB_CCM_KEY_SIZE 0, 0)
              else do { k \<leftarrow> active_key N; Some (k, nib_active_key_seq_number N) });
            schedule_buf Cb_zb_apsme_transport_key_request param
              (put_param param (Transport_key_req \<lparr>tkr_key_type = ZB_STANDARD_NETWORK_KEY,
                 tkr_dest_address = Dest_long (ji_extended_address ind), tkr_key = key, tkr_key_seq_number = seq,
                 tkr_use_parent = None\<rparr>) g) }
          else schedule_buf Cb_zb_apsme_update_device_request param
            (put_param param (Update_device_req \<lparr>ud_address = trust_center_address (aib (aps g)),
               ud_device_address = ji_extended_address ind, ud_device_short_address = ji_network_address ind,
               ud_status = st\<rparr>) g) }
      | _ \<Rightarrow> None)"

text \<open>Without the next key the function returns and keeps the buffer.\<close>

definition zb_secur_send_nwk_key_update_br :: "nat \<Rightarrow> 'z zb_globals_s_scheme \<Rightarrow> 'z zb_globals_s_scheme option" where
  "zb_secur_send_nwk_key_update_br param g =
     (case buf_param g param of
        Param_uint16 dest_br \<Rightarrow> do {
          let seq = nib_active_key_seq_number (nib (nwk g)) + 1;
          k \<leftarrow> secur_nwk_key_by_seq seq (nib (nwk g));
          case k of
            None \<Rightarrow> Some (put_param param Param_none g)
          | Some key \<Rightarrow> schedule_buf Cb_zb_apsme_transport_key_request param
              (put_param param (Transport_key_req \<lparr>tkr_key_type = ZB_STANDARD_NETWORK_KEY,
                 tkr_dest_address = Dest_short dest_br, tkr_key = key, tkr_key_seq_number = seq,
                 tkr_use_parent = None\<rparr>) g) }
      | _ \<Rightarrow> None)"

definition upd_tmp :: "(zb_aps_tmp \<Rightarrow> zb_aps_tmp) \<Rightarrow> 'z zb_globals_a_scheme \<Rightarrow> 'z zb_globals_a_scheme" where
  "upd_tmp f = upd_aps (\<lambda>a. a\<lparr>aps_tmp := f (aps_tmp a)\<rparr>)"

definition secur_send_key_sw_next :: "nat \<Rightarrow> 'z zb_globals_s_scheme \<Rightarrow> 'z zb_globals_s_scheme option" where
  "secur_send_key_sw_next param g = do {
     let it = tmp_neighbor_table_iterator (aps_tmp (aps g));
     e \<leftarrow> nb_get (neighbor (nwk g)) it;
     a \<leftarrow> zb_address_ieee_by_ref (ne_addr_ref e) (addr g);
     g1 \<leftarrow> schedule_buf Cb_zb_apsme_switch_key_request param
       (put_param param (Switch_key_req \<lparr>skr_dest_address = Dest_long a,
          skr_key_seq_number = nib_active_key_seq_number (nib (nwk g))\<rparr>) g);
     it' \<leftarrow> zb_nwk_neighbor_next_rx_on_i (inc32 it) (neighbor (nwk g1));
     let g2 = upd_tmp (\<lambda>t. t\<lparr>tmp_neighbor_table_iterator := it'\<rparr>) g1;
     if it' \<noteq> 2 ^ 32 - 1 then map_option fst (zb_get_out_buf_delayed Cb_secur_send_key_sw_next g2)
     else Some g2 }"

definition zb_secur_send_nwk_key_switch :: "nat \<Rightarrow> 'z zb_globals_s_scheme \<Rightarrow> 'z zb_globals_s_scheme option" where
  "zb_secur_send_nwk_key_switch param g =
     (case buf_param g param of
        Param_uint16 dest_br \<Rightarrow>
          if dest_br = 0 then do {
            g1 \<leftarrow> secur_nwk_key_switch (nib_active_key_seq_number (nib (nwk g)) + 1) g;
            it \<leftarrow> zb_nwk_neighbor_next_rx_on_i 0 (neighbor (nwk g1));
            let g2 = upd_tmp (\<lambda>t. t\<lparr>tmp_neighbor_table_iterator := it\<rparr>) g1;
            if it \<noteq> 2 ^ 32 - 1 then secur_send_key_sw_next param g2 else zb_free_buf param g2 }
          else schedule_buf Cb_zb_apsme_switch_key_request param
            (put_param param (Switch_key_req \<lparr>skr_dest_address = Dest_short dest_br,
               skr_key_seq_number = nib_active_key_seq_number (nib (nwk g)) + 1\<rparr>) (g\<lparr>key_sw := param\<rparr>))
      | _ \<Rightarrow> None)"

definition zb_secur_switch_nwk_key_br :: "nat \<Rightarrow> 'z zb_globals_s_scheme \<Rightarrow> 'z zb_globals_s_scheme option" where
  "zb_secur_switch_nwk_key_br param g = schedule_buf Cb_zb_secur_send_nwk_key_switch param
     (put_param param (Param_uint16 ZB_NWK_BROADCAST_RX_ON_WHEN_IDLE) g)"

text \<open>
  The trust center's answer to \<^verbatim>\<open>UPDATE-DEVICE\<close>. For a status of none of the listed kinds the code sends the
  bytes that the buffer happens to hold: \<open>None\<close>. A device that left and is unknown keeps the buffer.
\<close>

definition forget_device :: "zb_apsme_update_device \<Rightarrow> nat \<Rightarrow> 'z zb_globals_s_scheme \<Rightarrow> 'z zb_globals_s_scheme option" where
  "forget_device ind param g = do {
     (A1, r1, ref1) \<leftarrow> zb_address_by_short (ud_device_short_address ind) False False (addr g);
     (A2, r2, ref2) \<leftarrow> (if r1 = RET_OK then Some (A1, r1, ref1) else zb_address_by_ieee (ud_device_address ind) False False A1);
     let g1 = g\<lparr>addr := A2\<rparr>;
     if r2 = RET_OK then do {
       ref \<leftarrow> ref2;
       (N, _) \<leftarrow> zb_nwk_neighbor_delete ref (neighbor (nwk g1));
       A3 \<leftarrow> zb_address_delete ref (addr g1);
       zb_free_buf param ((upd_nbt (\<lambda>_. N) g1)\<lparr>addr := A3\<rparr>) }
     else Some g1 }"

definition zb_apsme_update_device_indication :: "nat \<Rightarrow> 'z zb_globals_s_scheme \<Rightarrow> 'z zb_globals_s_scheme option" where
  "zb_apsme_update_device_indication param g =
     (case buf_param g param of
        Update_device_ind ind \<Rightarrow>
          if ud_status ind = ZB_DEVICE_LEFT then forget_device ind param g
          else if allow_auth g then do {
            (key, seq) \<leftarrow> (if ud_status ind = ZB_STD_SEQ_SECURED_REJOIN then Some (replicate ZB_CCM_KEY_SIZE 0, 0)
              else if ud_status ind = ZB_STD_SEQ_UNSECURED_JOIN \<or> ud_status ind = ZB_STD_SEQ_UNSECURED_REJOIN
              then do { k \<leftarrow> active_key (nib (nwk g)); Some (k, nib_active_key_seq_number (nib (nwk g))) }
              else None);
            schedule_buf Cb_zb_apsme_transport_key_request param
              (put_param param (Transport_key_req \<lparr>tkr_key_type = ZB_STANDARD_NETWORK_KEY,
                 tkr_dest_address = Dest_long (ud_device_address ind), tkr_key = key, tkr_key_seq_number = seq,
                 tkr_use_parent = Some (ud_address ind)\<rparr>) g) }
          else schedule_buf Cb_zb_secur_apsme_remove_device param
            (put_param param (Remove_device_req \<lparr>rd_parent_address = ud_address ind,
               rd_child_address = ud_device_address ind\<rparr>) g)
      | _ \<Rightarrow> None)"

definition zb_apsme_remove_device_indication :: "nat \<Rightarrow> 'z zb_globals_s_scheme \<Rightarrow> 'z zb_globals_s_scheme option" where
  "zb_apsme_remove_device_indication param g =
     (case buf_param g param of
        Remove_device_ind ind \<Rightarrow>
          if rd_parent_address ind = trust_center_address (aib (aps g)) then
            schedule_buf Cb_zb_nlme_leave_request param
              (put_param param (Leave_req \<lparr>lr_device_address = rd_child_address ind, lr_remove_children = 1, lr_rejoin = 0\<rparr>) g)
          else zb_free_buf param g
      | _ \<Rightarrow> None)"

text \<open>A key is sent to a known neighbor that is not an unauthenticated, previous or unrelated device.\<close>

definition may_have_key :: "zb_ieee_addr_t \<Rightarrow> 'z zb_globals_s_scheme \<Rightarrow> ('z zb_globals_s_scheme \<times> bool) option" where
  "may_have_key a g = do {
     (A, r, ref) \<leftarrow> zb_address_by_ieee a False False (addr g);
     let g1 = g\<lparr>addr := A\<rparr>;
     if r = RET_OK then do {
       ref \<leftarrow> ref;
       (g2, r2, n) \<leftarrow> zb_nwk_neighbor_get ref False g1;
       if r2 = RET_OK then do {
         n \<leftarrow> n;
         e \<leftarrow> nb_get (neighbor (nwk g2)) n;
         Some (g2, ne_relationship e \<noteq> ZB_NWK_RELATIONSHIP_UNAUTHENTICATED_CHILD
           \<and> ne_relationship e \<noteq> ZB_NWK_RELATIONSHIP_PREVIOUS_CHILD
           \<and> ne_relationship e \<noteq> ZB_NWK_RELATIONSHIP_NONE_OF_THE_ABOVE) }
       else Some (g2, False) }
     else Some (g1, False) }"

definition zb_apsme_request_key_indication :: "nat \<Rightarrow> 'z zb_globals_s_scheme \<Rightarrow> 'z zb_globals_s_scheme option" where
  "zb_apsme_request_key_indication param g =
     (case buf_param g param of
        Request_key_ind ind \<Rightarrow>
          if rki_key_type ind = ZB_STANDARD_NETWORK_KEY then do {
            (g1, ok) \<leftarrow> may_have_key (rki_src_address ind) g;
            if \<not> ok then zb_free_buf param g1
            else do {
              k \<leftarrow> active_key (nib (nwk g1));
              schedule_buf Cb_zb_apsme_transport_key_request param
                (put_param param (Transport_key_req \<lparr>tkr_key_type = ZB_STANDARD_NETWORK_KEY,
                   tkr_dest_address = Dest_long (rki_src_address ind), tkr_key = k,
                   tkr_key_seq_number = nib_active_key_seq_number (nib (nwk g1)), tkr_use_parent = None\<rparr>) g1) } }
          else zb_free_buf param g
      | _ \<Rightarrow> None)"

end
