(* ===== verification/Zb_Buf_Window.thy ===== *)
theory Zb_Buf_Window
  imports Zb_Buf Zb_Bytes
begin

text \<open>
  Reading and writing inside the payload of a packet buffer: the accesses of the code are at offsets
  of the buffer's array, the lemmas speak of the payload \<open>buf_data\<close>.
\<close>

lemma buf_split:
  assumes "buf_wf b"
  obtains pre post where "b_buf b = pre @ buf_data b @ post" "length pre = ZB_BUF_BEGIN b"
proof -
  let ?o = "unat (b_data_offset b)"
  have w: "length (b_buf b) = 148" "?o + unat (b_len b) \<le> 148"
    using assms by (simp_all add: buf_wf_def ZB_IO_BUF_SIZE_def)
  have "b_buf b = take ?o (b_buf b) @ buf_data b @ drop (?o + unat (b_len b)) (b_buf b)"
  proof -
    have "drop (?o + unat (b_len b)) (b_buf b) = drop (unat (b_len b)) (drop ?o (b_buf b))" by (simp add: add.commute)
    then show ?thesis unfolding buf_data_def by (simp only: append_take_drop_id)
  qed
  moreover have "length (take ?o (b_buf b)) = ZB_BUF_BEGIN b" using w by (simp add: ZB_BUF_BEGIN_def)
  ultimately show thesis using that by blast
qed

lemma buf_data_len: "buf_wf b \<Longrightarrow> unat (b_len b) = length (buf_data b)"
  by (simp add: length_buf_data)

lemma buf_data_update:
  assumes "buf_wf b" "b_buf b = pre @ buf_data b @ post" "length pre = ZB_BUF_BEGIN b" "length d = length (buf_data b)"
  shows "buf_wf (b\<lparr>b_buf := pre @ d @ post\<rparr>) \<and> buf_data (b\<lparr>b_buf := pre @ d @ post\<rparr>) = d"
proof -
  have "length (b_buf b) = length (pre @ d @ post)" by (subst assms(2)) (simp add: assms(4))
  then have "buf_wf (b\<lparr>b_buf := pre @ d @ post\<rparr>)" using assms(1) unfolding buf_wf_def by simp
  moreover have "unat (b_len b) = length d" "unat (b_data_offset b) = length pre"
    using assms(3,4) buf_data_len [OF assms(1)] by (simp_all add: ZB_BUF_BEGIN_def)
  then have "buf_data (b\<lparr>b_buf := pre @ d @ post\<rparr>) = d" unfolding buf_data_def by simp
  ultimately show ?thesis by blast
qed

lemma blit_window:
  assumes "buf_wf b" "buf_data b = xs @ ys @ zs" "length ys' = length ys" "p = ZB_BUF_BEGIN b + length xs"
  shows "\<exists>m. blit (b_buf b) p ys' = Some m \<and> length m = length (b_buf b)
    \<and> buf_wf (b\<lparr>b_buf := m\<rparr>) \<and> buf_data (b\<lparr>b_buf := m\<rparr>) = xs @ ys' @ zs"
proof -
  obtain pre post where s: "b_buf b = pre @ buf_data b @ post" "length pre = ZB_BUF_BEGIN b"
    using buf_split [OF assms(1)] .
  have "blit (b_buf b) p ys' = Some (pre @ (xs @ ys' @ zs) @ post)"
    by (subst s(1)) (simp add: blit_def assms(2,3,4) s(2) [symmetric])
  moreover have "length (pre @ (xs @ ys' @ zs) @ post) = length (b_buf b)"
    by (subst s(1)) (simp add: assms(2,3))
  ultimately show ?thesis using buf_data_update [OF assms(1) s, of "xs @ ys' @ zs"] assms(2,3) by simp
qed

lemma aget_window:
  assumes "buf_wf b" "k < length (buf_data b)"
  shows "aget (b_buf b) (ZB_BUF_BEGIN b + k) = Some (buf_data b ! k)"
proof -
  obtain pre post where s: "b_buf b = pre @ buf_data b @ post" "length pre = ZB_BUF_BEGIN b"
    using buf_split [OF assms(1)] .
  show ?thesis using assms(2) by (subst s(1)) (simp add: s(2) [symmetric] aget_def nth_append)
qed

lemma aget_window2:
  assumes "buf_wf b" "buf_data b = xs @ ys" "k < length ys" "p = ZB_BUF_BEGIN b + length xs"
  shows "aget (b_buf b) (p + k) = Some (ys ! k)"
proof -
  have "aget (b_buf b) (ZB_BUF_BEGIN b + (length xs + k)) = Some ((xs @ ys) ! (length xs + k))"
    using aget_window [OF assms(1), of "length xs + k"] assms(2,3) by simp
  then show ?thesis by (simp add: assms(4) add.assoc)
qed

lemma rd8_window:
  assumes "buf_wf b" "buf_data b = xs @ y # ys" "p = ZB_BUF_BEGIN b + length xs"
  shows "rd8 (b_buf b) p = Some y"
  using aget_window2 [OF assms(1,2) _ assms(3), of 0] by (simp add: rd8_def)

lemma rd16_window:
  assumes "buf_wf b" "buf_data b = xs @ htole16 v @ ys" "p = ZB_BUF_BEGIN b + length xs"
  shows "rd16 (b_buf b) p = Some v"
  using aget_window2 [OF assms(1,2) _ assms(3), of 0] aget_window2 [OF assms(1,2) _ assms(3), of 1]
  by (simp add: rd16_def htole16_def)

lemma rd32_window:
  assumes "buf_wf b" "buf_data b = xs @ htole32 v @ ys" "p = ZB_BUF_BEGIN b + length xs"
  shows "rd32 (b_buf b) p = Some v"
proof -
  have "aget (b_buf b) (p + k) = Some ((htole32 v @ ys) ! k)" if "k < 4" for k
    using aget_window2 [OF assms(1,2) _ assms(3), of k] that by simp
  from this [of 0] this [of 1] this [of 2] this [of 3] show ?thesis
    unfolding rd32_def by (simp add: htole32_def)
qed

lemma rdn_window:
  assumes "buf_wf b" "buf_data b = xs @ zs @ ys" "p = ZB_BUF_BEGIN b + length xs" "length zs = n"
  shows "rdn n (b_buf b) p = Some zs"
proof -
  obtain pre post where s: "b_buf b = pre @ buf_data b @ post" "length pre = ZB_BUF_BEGIN b"
    using buf_split [OF assms(1)] .
  have "b_buf b = (pre @ xs) @ zs @ (ys @ post)" by (subst s(1)) (simp add: assms(2))
  then show ?thesis using rdn_append [OF assms(4), of "pre @ xs" "ys @ post"] s(2) assms(3) by simp
qed

end
