(* ===== verification/Zb_Nwk_Hdr.thy ===== *)
theory Zb_Nwk_Hdr
  imports Zb_Buf_Window Zb_Nwk_Globals
begin

text \<open>
  The network header: the frame control macros and header sizes of \<^verbatim>\<open>include/zb_nwk.h\<close>, and
  \<^verbatim>\<open>zb_nwk_hdr_size\<close>, \<^verbatim>\<open>nwk_alloc_and_fill_hdr\<close> and \<^verbatim>\<open>nwk_alloc_and_fill_cmd\<close> of \<^verbatim>\<open>nwk/nwk_main.c\<close>.
  \<^verbatim>\<open>zb_nwk_hdr_t\<close> is packed: its fields are at the offsets 0 (frame control), 2 (destination), 4 (source),
  6 (radius), 7 (sequence number), 8 and 16 (long addresses) and 24 (multicast control) of the header. The
  theorem says that the header that is allocated has the size that its own frame control field announces.
\<close>

section \<open>Frame control\<close>

type_synonym zb_fctl = "zb_uint8_t \<times> zb_uint8_t"

definition ZB_NWK_FRAME_TYPE_DATA :: zb_uint8_t where "ZB_NWK_FRAME_TYPE_DATA = 0"

definition ZB_NWK_FRAME_TYPE_COMMAND :: zb_uint8_t where "ZB_NWK_FRAME_TYPE_COMMAND = 1"

definition ZB_PROTOCOL_VERSION :: zb_uint8_t where "ZB_PROTOCOL_VERSION = 2"

definition ZB_SECUR_NO_ENCR :: "2 word" where "ZB_SECUR_NO_ENCR = 0"

definition ZB_SECUR_NWK_ENCR :: "2 word" where "ZB_SECUR_NWK_ENCR = 1"

definition ZB_NWK_FRAMECTL_GET_FRAME_TYPE :: "zb_fctl \<Rightarrow> zb_uint8_t" where
  "ZB_NWK_FRAMECTL_GET_FRAME_TYPE f = fst f AND 3"

definition ZB_NWK_FRAMECTL_SET_FRAME_TYPE :: "zb_uint8_t \<Rightarrow> zb_fctl \<Rightarrow> zb_fctl" where
  "ZB_NWK_FRAMECTL_SET_FRAME_TYPE t f = (fst f OR t, snd f)"

definition ZB_NWK_FRAMECTL_GET_PROTOCOL_VERSION :: "zb_fctl \<Rightarrow> zb_uint8_t" where
  "ZB_NWK_FRAMECTL_GET_PROTOCOL_VERSION f = drop_bit 2 (fst f) AND 0xf"

definition ZB_NWK_FRAMECTL_SET_PROTOCOL_VERSION :: "zb_uint8_t \<Rightarrow> zb_fctl \<Rightarrow> zb_fctl" where
  "ZB_NWK_FRAMECTL_SET_PROTOCOL_VERSION v f = (fst f OR push_bit 2 v, snd f)"

definition ZB_NWK_FRAMECTL_SET_FRAME_TYPE_N_PROTO_VER :: "zb_uint8_t \<Rightarrow> zb_uint8_t \<Rightarrow> zb_fctl \<Rightarrow> zb_fctl" where
  "ZB_NWK_FRAMECTL_SET_FRAME_TYPE_N_PROTO_VER t v f = (fst f OR (t OR push_bit 2 v), snd f)"

definition ZB_NWK_FRAMECTL_GET_DISCOVER_ROUTE :: "zb_fctl \<Rightarrow> zb_uint8_t" where
  "ZB_NWK_FRAMECTL_GET_DISCOVER_ROUTE f = drop_bit 5 (fst f) AND 3"

definition ZB_NWK_FRAMECTL_SET_DISCOVER_ROUTE :: "zb_uint8_t \<Rightarrow> zb_fctl \<Rightarrow> zb_fctl" where
  "ZB_NWK_FRAMECTL_SET_DISCOVER_ROUTE r f = (fst f OR push_bit 6 r, snd f)"

definition ZB_NWK_FRAMECTL_GET_MULTICAST_FLAG :: "zb_fctl \<Rightarrow> zb_uint8_t" where
  "ZB_NWK_FRAMECTL_GET_MULTICAST_FLAG f = snd f AND 1"

definition ZB_NWK_FRAMECTL_SET_MULTICAST_FLAG :: "zb_uint8_t \<Rightarrow> zb_fctl \<Rightarrow> zb_fctl" where
  "ZB_NWK_FRAMECTL_SET_MULTICAST_FLAG m f = (fst f, snd f OR m)"

definition ZB_NWK_FRAMECTL_GET_SECURITY :: "zb_fctl \<Rightarrow> zb_uint8_t" where
  "ZB_NWK_FRAMECTL_GET_SECURITY f = drop_bit 1 (snd f) AND 1"

definition ZB_NWK_FRAMECTL_SET_SECURITY :: "zb_uint8_t \<Rightarrow> zb_fctl \<Rightarrow> zb_fctl" where
  "ZB_NWK_FRAMECTL_SET_SECURITY s f = (fst f, snd f OR push_bit 1 s)"

definition ZB_NWK_FRAMECTL_GET_SOURCE_ROUTE :: "zb_fctl \<Rightarrow> zb_uint8_t" where
  "ZB_NWK_FRAMECTL_GET_SOURCE_ROUTE f = drop_bit 2 (snd f) AND 1"

definition ZB_NWK_FRAMECTL_SET_SOURCE_ROUTE :: "zb_uint8_t \<Rightarrow> zb_fctl \<Rightarrow> zb_fctl" where
  "ZB_NWK_FRAMECTL_SET_SOURCE_ROUTE s f = (fst f, snd f OR push_bit 2 s)"

definition ZB_NWK_FRAMECTL_GET_DESTINATION_IEEE :: "zb_fctl \<Rightarrow> zb_uint8_t" where
  "ZB_NWK_FRAMECTL_GET_DESTINATION_IEEE f = drop_bit 3 (snd f) AND 1"

definition ZB_NWK_FRAMECTL_SET_DESTINATION_IEEE :: "zb_uint8_t \<Rightarrow> zb_fctl \<Rightarrow> zb_fctl" where
  "ZB_NWK_FRAMECTL_SET_DESTINATION_IEEE d f = (fst f, snd f OR push_bit 3 d)"

definition ZB_NWK_FRAMECTL_GET_SOURCE_IEEE :: "zb_fctl \<Rightarrow> zb_uint8_t" where
  "ZB_NWK_FRAMECTL_GET_SOURCE_IEEE f = drop_bit 4 (snd f) AND 1"

definition ZB_NWK_FRAMECTL_SET_SOURCE_IEEE :: "zb_uint8_t \<Rightarrow> zb_fctl \<Rightarrow> zb_fctl" where
  "ZB_NWK_FRAMECTL_SET_SOURCE_IEEE s f = (fst f, snd f OR push_bit 4 s)"

definition ZB_NWK_FRAMECTL_SET_SRC_DEST_IEEE :: "zb_uint8_t \<Rightarrow> zb_uint8_t \<Rightarrow> zb_fctl \<Rightarrow> zb_fctl" where
  "ZB_NWK_FRAMECTL_SET_SRC_DEST_IEEE s d f = (fst f, snd f OR (push_bit 3 d OR push_bit 4 s))"

lemmas fctl_get_defs = ZB_NWK_FRAMECTL_GET_FRAME_TYPE_def ZB_NWK_FRAMECTL_GET_PROTOCOL_VERSION_def
  ZB_NWK_FRAMECTL_GET_DISCOVER_ROUTE_def ZB_NWK_FRAMECTL_GET_MULTICAST_FLAG_def ZB_NWK_FRAMECTL_GET_SECURITY_def
  ZB_NWK_FRAMECTL_GET_SOURCE_ROUTE_def ZB_NWK_FRAMECTL_GET_DESTINATION_IEEE_def ZB_NWK_FRAMECTL_GET_SOURCE_IEEE_def

lemmas fctl_set_defs = ZB_NWK_FRAMECTL_SET_FRAME_TYPE_N_PROTO_VER_def ZB_NWK_FRAMECTL_SET_SRC_DEST_IEEE_def
  ZB_NWK_FRAMECTL_SET_SECURITY_def

section \<open>Sizes\<close>

definition ZB_NWK_SHORT_HDR_SIZE :: "bool \<Rightarrow> nat" where
  "ZB_NWK_SHORT_HDR_SIZE is_multicast = 8 + of_bool is_multicast"

definition ZB_NWK_HALF_HDR_SIZE :: "bool \<Rightarrow> nat" where
  "ZB_NWK_HALF_HDR_SIZE is_multicast = 16 + of_bool is_multicast"

definition ZB_NWK_FULL_HDR_SIZE :: "bool \<Rightarrow> nat" where
  "ZB_NWK_FULL_HDR_SIZE is_multicast = 24 + of_bool is_multicast"

text \<open>The size of \<^verbatim>\<open>zb_nwk_aux_frame_hdr_t\<close>: control, frame counter, long address, key number.\<close>

definition AUX_HDR_SIZE :: nat where "AUX_HDR_SIZE = 14"

definition zb_nwk_hdr_size :: "zb_fctl \<Rightarrow> nat" where
  "zb_nwk_hdr_size f = ZB_NWK_SHORT_HDR_SIZE (ZB_NWK_FRAMECTL_GET_MULTICAST_FLAG f \<noteq> 0)
     + (if ZB_NWK_FRAMECTL_GET_SECURITY f \<noteq> 0 then AUX_HDR_SIZE else 0)
     + unat (ZB_NWK_FRAMECTL_GET_DESTINATION_IEEE f + ZB_NWK_FRAMECTL_GET_SOURCE_IEEE f) * 8"

section \<open>Building a header\<close>

definition hdr_fctl :: "bool \<Rightarrow> bool \<Rightarrow> bool \<Rightarrow> bool \<Rightarrow> zb_fctl" where
  "hdr_fctl is_cmd src dst is_secured =
     (let f1 = ZB_NWK_FRAMECTL_SET_FRAME_TYPE_N_PROTO_VER
            (if is_cmd then ZB_NWK_FRAME_TYPE_COMMAND else ZB_NWK_FRAME_TYPE_DATA) ZB_PROTOCOL_VERSION (0, 0);
          f2 = ZB_NWK_FRAMECTL_SET_SRC_DEST_IEEE (of_bool src) (of_bool dst) f1
      in if is_secured then ZB_NWK_FRAMECTL_SET_SECURITY 1 f2 else f2)"

definition alloc_hdr_size :: "bool \<Rightarrow> bool \<Rightarrow> bool \<Rightarrow> bool \<Rightarrow> nat" where
  "alloc_hdr_size src dst is_multicast is_secured =
     (if src \<and> dst then ZB_NWK_FULL_HDR_SIZE is_multicast
      else if src \<or> dst then ZB_NWK_HALF_HDR_SIZE is_multicast
      else ZB_NWK_SHORT_HDR_SIZE is_multicast)
     + (if is_secured then AUX_HDR_SIZE else 0)"

text \<open>
  The result is the buffer, the NIB with the next sequence number and the offset of the header.
  The multicast control byte and the auxiliary header keep the bytes that the array holds.
\<close>

definition nwk_alloc_and_fill_hdr :: "zb_buf \<Rightarrow> zb_uint16_t \<Rightarrow> zb_ieee_addr_t option \<Rightarrow> zb_ieee_addr_t option
    \<Rightarrow> bool \<Rightarrow> bool \<Rightarrow> bool \<Rightarrow> zb_uint16_t \<Rightarrow> zb_nib \<Rightarrow> (zb_buf \<times> zb_nib \<times> nat) option" where
  "nwk_alloc_and_fill_hdr buf dst_addr src_ieee_addr dst_ieee_addr is_multicast is_secured is_cmd_frame nwk_addr N = do {
     let src = (src_ieee_addr \<noteq> None);
     let dst = (dst_ieee_addr \<noteq> None);
     let hdr_size = alloc_hdr_size src dst is_multicast is_secured;
     let f = hdr_fctl is_cmd_frame src dst is_secured;
     (b1, p) \<leftarrow> (if is_cmd_frame then zb_buf_initial_alloc (of_nat hdr_size) buf
       else zb_buf_smart_alloc_left (of_nat hdr_size) buf);
     let b2 = b1\<lparr>b_encrypt_type := (if is_secured then ZB_SECUR_NWK_ENCR else ZB_SECUR_NO_ENCR)\<rparr>;
     m1 \<leftarrow> blit (b_buf b2) p ([fst f, snd f] @ htole16 dst_addr @ htole16 nwk_addr @ [1, nib_sequence_number N]);
     m2 \<leftarrow> (case (src_ieee_addr, dst_ieee_addr) of
         (Some s, Some d) \<Rightarrow> do { m \<leftarrow> blit m1 (p + 8) d; blit m (p + 16) s }
       | (None, Some d) \<Rightarrow> blit m1 (p + 8) d
       | (Some s, None) \<Rightarrow> blit m1 (p + 8) s
       | (None, None) \<Rightarrow> Some m1);
     Some (b2\<lparr>b_buf := m2\<rparr>, N\<lparr>nib_sequence_number := nib_sequence_number N + 1\<rparr>, p) }"

text \<open>The command identifier behind the payload, and the offset of the command's own payload.\<close>

definition nwk_alloc_and_fill_cmd :: "zb_buf \<Rightarrow> zb_uint8_t \<Rightarrow> zb_uint8_t \<Rightarrow> (zb_buf \<times> nat) option" where
  "nwk_alloc_and_fill_cmd buf cmd cmd_size = do {
     (b1, p) \<leftarrow> zb_buf_smart_alloc_right (1 + cmd_size) buf;
     m \<leftarrow> blit (b_buf b1) p [cmd];
     Some (b1\<lparr>b_buf := m\<rparr>, p + 1) }"

section \<open>The header is the one it announces\<close>

lemma hdr_fctl_fields:
  "zb_nwk_hdr_size (hdr_fctl c s d e) = alloc_hdr_size s d False e"
  "ZB_NWK_FRAMECTL_GET_FRAME_TYPE (hdr_fctl c s d e) = of_bool c"
  "ZB_NWK_FRAMECTL_GET_PROTOCOL_VERSION (hdr_fctl c s d e) = 2"
  "ZB_NWK_FRAMECTL_GET_SECURITY (hdr_fctl c s d e) = of_bool e"
  "ZB_NWK_FRAMECTL_GET_DESTINATION_IEEE (hdr_fctl c s d e) = of_bool d"
  "ZB_NWK_FRAMECTL_GET_SOURCE_IEEE (hdr_fctl c s d e) = of_bool s"
  by (cases c; cases s; cases d; cases e;
      simp add: hdr_fctl_def fctl_set_defs fctl_get_defs zb_nwk_hdr_size_def alloc_hdr_size_def
        ZB_NWK_SHORT_HDR_SIZE_def ZB_NWK_HALF_HDR_SIZE_def ZB_NWK_FULL_HDR_SIZE_def AUX_HDR_SIZE_def
        ZB_NWK_FRAME_TYPE_COMMAND_def ZB_NWK_FRAME_TYPE_DATA_def ZB_PROTOCOL_VERSION_def Let_def)+

lemma alloc_hdr_size_le: "alloc_hdr_size s d mc e \<le> 39"
  by (auto simp: alloc_hdr_size_def ZB_NWK_SHORT_HDR_SIZE_def ZB_NWK_HALF_HDR_SIZE_def ZB_NWK_FULL_HDR_SIZE_def
      AUX_HDR_SIZE_def)

definition ieee_part :: "zb_ieee_addr_t option \<Rightarrow> zb_ieee_addr_t option \<Rightarrow> zb_uint8_t list" where
  "ieee_part s d = (case d of Some a \<Rightarrow> a | None \<Rightarrow> []) @ (case s of Some a \<Rightarrow> a | None \<Rightarrow> [])"

lemma alloc_window:
  assumes wf: "buf_wf b" and n: "n < 148" and r: "\<not> cmd \<longrightarrow> n + unat (b_len b) < 148"
  shows "\<exists>b1 gap. (if cmd then zb_buf_initial_alloc (of_nat n) b else zb_buf_smart_alloc_left (of_nat n) b)
      = Some (b1, ZB_BUF_BEGIN b1) \<and> buf_wf b1 \<and> length gap = n
      \<and> buf_data b1 = gap @ (if cmd then [] else buf_data b)"
proof (cases cmd)
  case True
  have u: "unat (of_nat n :: 8 word) = n" using n by (intro unat8_of_nat) simp
  have l: "length (b_buf b) = 148" using wf by (simp add: buf_wf_def ZB_IO_BUF_SIZE_def)
  obtain b1 where "zb_buf_initial_alloc (of_nat n) b = Some (b1, unat (b_data_offset b1))" "buf_wf b1" "b_len b1 = of_nat n"
    using initial_alloc_spec [of "of_nat n" b] n u l by auto
  then show ?thesis using True u length_buf_data [of b1] by (simp add: ZB_BUF_BEGIN_def)
next
  case False
  then have r: "n + unat (b_len b) < 148" using r by simp
  have u: "unat (of_nat n :: 8 word) = n" using n by (intro unat8_of_nat) simp
  obtain b1 where b1: "zb_buf_smart_alloc_left (of_nat n) b = Some (b1, unat (b_data_offset b1))" "buf_wf b1"
      "unat (b_len b1) = unat (b_len b) + n" "drop n (buf_data b1) = buf_data b"
    using alloc_left_spec [OF wf, of "of_nat n"] r u by auto
  have "buf_data b1 = take n (buf_data b1) @ buf_data b" using b1(4) append_take_drop_id by metis
  moreover have "length (take n (buf_data b1)) = n" using length_buf_data [OF b1(2)] b1(3) by simp
  ultimately show ?thesis using False b1(1,2) unfolding ZB_BUF_BEGIN_def
    by (intro exI [of _ b1] exI [of _ "take n (buf_data b1)"]) auto
qed

text \<open>
  a network header is the one it announces: for every combination of long addresses, security and frame
  type, \<open>nwk_alloc_and_fill_hdr\<close> puts in front of the payload (or, for a command, into the emptied buffer) exactly
  the header whose size \<open>zb_nwk_hdr_size\<close> computes from the frame control field written, with the destination,
  the own address, radius 1, the sequence number and the long addresses at their places, and room for
  the auxiliary header exactly when the frame is secured.
\<close>

theorem nwk_alloc_and_fill_hdr_layout:
  assumes wf: "buf_wf b" and s: "\<forall>a. sa = Some a \<or> da = Some a \<longrightarrow> length a = 8"
    and r: "\<not> cmd \<longrightarrow> unat (b_len b) \<le> 108"
  shows "\<exists>b' p f aux. nwk_alloc_and_fill_hdr b dst sa da False sec cmd own N
      = Some (b', N\<lparr>nib_sequence_number := nib_sequence_number N + 1\<rparr>, p)
    \<and> p = ZB_BUF_BEGIN b' \<and> buf_wf b'
    \<and> buf_data b' = [fst f, snd f] @ htole16 dst @ htole16 own @ [1, nib_sequence_number N] @ ieee_part sa da
        @ aux @ (if cmd then [] else buf_data b)
    \<and> length aux = (if sec then 14 else 0)
    \<and> zb_nwk_hdr_size f = 8 + length (ieee_part sa da) + length aux
    \<and> ZB_NWK_FRAMECTL_GET_FRAME_TYPE f = of_bool cmd \<and> ZB_NWK_FRAMECTL_GET_SECURITY f = of_bool sec"
proof -
  define src where "src = (sa \<noteq> None)"
  define ds where "ds = (da \<noteq> None)"
  define n where "n = alloc_hdr_size src ds False sec"
  define f where "f = hdr_fctl cmd src ds sec"
  define h where "h = [fst f, snd f] @ htole16 dst @ htole16 own @ [1, nib_sequence_number N]"
  have lh: "length h = 8" by (simp add: h_def)
  have n148: "n < 148" "n \<le> 39" using alloc_hdr_size_le [of src ds False sec] by (simp_all add: n_def)
  then have "\<not> cmd \<longrightarrow> n + unat (b_len b) < 148" using r by (cases cmd) auto
  from alloc_window [OF wf n148(1) this] obtain b1 gap where
    b1: "(if cmd then zb_buf_initial_alloc (of_nat n) b else zb_buf_smart_alloc_left (of_nat n) b)
      = Some (b1, ZB_BUF_BEGIN b1)" "buf_wf b1" "length gap = n" "buf_data b1 = gap @ (if cmd then [] else buf_data b)"
    by blast
  define pay where "pay = (if cmd then [] else buf_data b)"
  define b2 where "b2 = b1\<lparr>b_encrypt_type := (if sec then ZB_SECUR_NWK_ENCR else ZB_SECUR_NO_ENCR)\<rparr>"
  define ax where "ax = (if sec then 14::nat else 0)"
  define ie where "ie = length (ieee_part sa da)"
  have nie: "n = 8 + ie + ax"
    using s by (auto simp: n_def alloc_hdr_size_def src_def ds_def ie_def ieee_part_def ax_def AUX_HDR_SIZE_def
        ZB_NWK_SHORT_HDR_SIZE_def ZB_NWK_HALF_HDR_SIZE_def ZB_NWK_FULL_HDR_SIZE_def split: option.split)
  define g0 where "g0 = take 8 gap"
  define gi where "gi = take ie (drop 8 gap)"
  define ga where "ga = drop (8 + ie) gap"
  have lg: "length g0 = 8" "length gi = ie" "length ga = ax" using b1(3) nie by (simp_all add: g0_def gi_def ga_def)
  have "drop 8 gap = gi @ ga" by (simp add: gi_def ga_def add.commute flip: drop_drop)
  then have gap: "gap = g0 @ gi @ ga" by (metis append_take_drop_id g0_def)
  have b2: "buf_wf b2" "buf_data b2 = [] @ g0 @ (gi @ ga @ pay)" "ZB_BUF_BEGIN b2 = ZB_BUF_BEGIN b1"
    using b1(2,4) by (simp_all add: b2_def buf_wf_def buf_data_def ZB_BUF_BEGIN_def gap pay_def)
  obtain m1 where m1: "blit (b_buf b2) (ZB_BUF_BEGIN b1) h = Some m1" "buf_wf (b2\<lparr>b_buf := m1\<rparr>)"
      "buf_data (b2\<lparr>b_buf := m1\<rparr>) = h @ gi @ ga @ pay"
    using blit_window [OF b2(1,2), of h "ZB_BUF_BEGIN b1"] lh lg b2(3) by auto
  have step: "\<exists>m. blit (b_buf c) (ZB_BUF_BEGIN b1 + length xs) w = Some m \<and> buf_wf (c\<lparr>b_buf := m\<rparr>)
      \<and> buf_data (c\<lparr>b_buf := m\<rparr>) = xs @ w @ zs"
    if "buf_wf c" "buf_data c = xs @ ys @ zs" "length w = length ys" "ZB_BUF_BEGIN c = ZB_BUF_BEGIN b1" for c xs ys zs w
    using blit_window [OF that(1,2,3), of "ZB_BUF_BEGIN b1 + length xs"] that(4) by auto
  have beg: "ZB_BUF_BEGIN (b2\<lparr>b_buf := m\<rparr>) = ZB_BUF_BEGIN b1" for m by (simp add: b2_def ZB_BUF_BEGIN_def)
  have "\<exists>m2. (case (sa, da) of
         (Some s, Some d) \<Rightarrow> do { m \<leftarrow> blit m1 (ZB_BUF_BEGIN b1 + 8) d; blit m (ZB_BUF_BEGIN b1 + 16) s }
       | (None, Some d) \<Rightarrow> blit m1 (ZB_BUF_BEGIN b1 + 8) d
       | (Some s, None) \<Rightarrow> blit m1 (ZB_BUF_BEGIN b1 + 8) s
       | (None, None) \<Rightarrow> Some m1) = Some m2
      \<and> buf_wf (b2\<lparr>b_buf := m2\<rparr>) \<and> buf_data (b2\<lparr>b_buf := m2\<rparr>) = h @ ieee_part sa da @ ga @ pay"
  proof (cases sa; cases da)
    assume "sa = None" "da = None"
    then show ?thesis using m1 lg by (simp add: ie_def ieee_part_def)
  next
    fix d assume c: "sa = None" "da = Some d"
    then have "length d = length gi" using lg by (simp add: ie_def ieee_part_def)
    from step [OF m1(2,3) this beg] show ?thesis using c lh by (simp add: ieee_part_def)
  next
    fix d assume c: "sa = Some d" "da = None"
    then have "length d = length gi" using lg by (simp add: ie_def ieee_part_def)
    from step [OF m1(2,3) this beg] show ?thesis using c lh by (simp add: ieee_part_def)
  next
    fix t d assume c: "sa = Some t" "da = Some d"
    then have ld: "length t = 8" "length d = 8" using s by simp_all
    then have li: "length gi = 16" using c lg by (simp add: ie_def ieee_part_def)
    have e: "buf_data (b2\<lparr>b_buf := m1\<rparr>) = h @ take 8 gi @ (drop 8 gi @ ga @ pay)" by (simp add: m1(3))
    have l8: "length d = length (take 8 gi)" using ld li by simp
    from step [OF m1(2) e l8 beg] lh obtain m where m: "blit m1 (ZB_BUF_BEGIN b1 + 8) d = Some m"
      "buf_wf (b2\<lparr>b_buf := m\<rparr>)" "buf_data (b2\<lparr>b_buf := m\<rparr>) = (h @ d) @ drop 8 gi @ (ga @ pay)" by auto
    have "length t = length (drop 8 gi)" using ld li by simp
    from step [OF m(2,3) this beg] obtain m2 where m2: "blit m (ZB_BUF_BEGIN b1 + 16) t = Some m2"
      "buf_wf (b2\<lparr>b_buf := m2\<rparr>)" "buf_data (b2\<lparr>b_buf := m2\<rparr>) = (h @ d) @ t @ (ga @ pay)" using lh ld by auto
    then show ?thesis using c m(1) by (simp add: ieee_part_def)
  qed
  then obtain m2 where m2: "(case (sa, da) of
         (Some s, Some d) \<Rightarrow> do { m \<leftarrow> blit m1 (ZB_BUF_BEGIN b1 + 8) d; blit m (ZB_BUF_BEGIN b1 + 16) s }
       | (None, Some d) \<Rightarrow> blit m1 (ZB_BUF_BEGIN b1 + 8) d
       | (Some s, None) \<Rightarrow> blit m1 (ZB_BUF_BEGIN b1 + 8) s
       | (None, None) \<Rightarrow> Some m1) = Some m2"
      "buf_wf (b2\<lparr>b_buf := m2\<rparr>)" "buf_data (b2\<lparr>b_buf := m2\<rparr>) = h @ ieee_part sa da @ ga @ pay" by blast
  have "nwk_alloc_and_fill_hdr b dst sa da False sec cmd own N
      = Some (b2\<lparr>b_buf := m2\<rparr>, N\<lparr>nib_sequence_number := nib_sequence_number N + 1\<rparr>, ZB_BUF_BEGIN b1)"
    using b1(1) m1(1) m2(1)
    unfolding nwk_alloc_and_fill_hdr_def Let_def src_def [symmetric] ds_def [symmetric] n_def [symmetric] f_def [symmetric]
      h_def [symmetric]
    by (simp add: b2_def)
  moreover have "zb_nwk_hdr_size f = 8 + length (ieee_part sa da) + length ga"
    using hdr_fctl_fields(1) [of cmd src ds sec] nie lg by (simp add: f_def n_def ie_def)
  moreover have "ZB_NWK_FRAMECTL_GET_FRAME_TYPE f = of_bool cmd" "ZB_NWK_FRAMECTL_GET_SECURITY f = of_bool sec"
    by (simp_all add: f_def hdr_fctl_fields)
  moreover have "length ga = (if sec then 14 else 0)" using lg by (simp add: ax_def)
  ultimately show ?thesis using m2(2,3) beg [of m2] unfolding h_def pay_def
    by (intro exI [of _ "b2\<lparr>b_buf := m2\<rparr>"] exI [of _ "ZB_BUF_BEGIN b1"] exI [of _ f] exI [of _ ga]) simp
qed

text \<open>
  With multicast the header has one byte more than its frame control announces: the function does not set
  the multicast flag. And the discover route field is not read where it is written: the setter
  shifts by 6 bits, the getter by 5.
\<close>

lemma multicast_header_longer:
  "alloc_hdr_size s d True e = zb_nwk_hdr_size (hdr_fctl c s d e) + 1"
  by (simp add: hdr_fctl_fields)
    (simp add: alloc_hdr_size_def ZB_NWK_SHORT_HDR_SIZE_def ZB_NWK_HALF_HDR_SIZE_def ZB_NWK_FULL_HDR_SIZE_def)

lemma discover_route_getter_shifted:
  "map (\<lambda>r. ZB_NWK_FRAMECTL_GET_DISCOVER_ROUTE (ZB_NWK_FRAMECTL_SET_DISCOVER_ROUTE r (hdr_fctl c s d e))) [0, 1, 2, 3]
     = [0, 2, 0, 2]"
  by (cases c; cases s; cases d; cases e;
      simp add: hdr_fctl_def fctl_set_defs ZB_NWK_FRAMECTL_GET_DISCOVER_ROUTE_def ZB_NWK_FRAMECTL_SET_DISCOVER_ROUTE_def
        ZB_NWK_FRAME_TYPE_COMMAND_def ZB_NWK_FRAME_TYPE_DATA_def ZB_PROTOCOL_VERSION_def Let_def)

lemma nwk_alloc_and_fill_hdr_layout_witness:
  "\<exists>b' p. nwk_alloc_and_fill_hdr demo_buf 0x1234 (Some [1, 2, 3, 4, 5, 6, 7, 8]) None False True False 0x5678 demo_nib
      = Some (b', demo_nib\<lparr>nib_sequence_number := 1\<rparr>, p) \<and> drop 30 (buf_data b') = replicate 5 7"
proof -
  from nwk_alloc_and_fill_hdr_layout [OF demo_buf_facts(1), of "Some [1, 2, 3, 4, 5, 6, 7, 8]" None False "0x1234" True
      "0x5678" demo_nib]
  obtain b' p f aux where
    b: "nwk_alloc_and_fill_hdr demo_buf 0x1234 (Some [1, 2, 3, 4, 5, 6, 7, 8]) None False True False 0x5678 demo_nib
      = Some (b', demo_nib\<lparr>nib_sequence_number := nib_sequence_number demo_nib + 1\<rparr>, p)"
    and d: "buf_data b' = [fst f, snd f] @ htole16 0x1234 @ htole16 0x5678 @ [1, nib_sequence_number demo_nib]
        @ ieee_part (Some [1, 2, 3, 4, 5, 6, 7, 8]) None @ aux @ buf_data demo_buf" and l: "length aux = 14"
    by (auto simp: demo_buf_facts(2))
  have n: "nib_sequence_number demo_nib = 0" by (simp add: demo_nib_def)
  have "buf_data b' = ([fst f, snd f] @ htole16 0x1234 @ htole16 0x5678 @ [1, nib_sequence_number demo_nib]
        @ ieee_part (Some [1, 2, 3, 4, 5, 6, 7, 8]) None @ aux) @ replicate 5 7" using d demo_buf_facts(3) by simp
  moreover have "length ([fst f, snd f] @ htole16 0x1234 @ htole16 0x5678 @ [1, nib_sequence_number demo_nib]
        @ ieee_part (Some [1, 2, 3, 4, 5, 6, 7, 8]) None @ aux) = 30" by (simp add: l ieee_part_def)
  ultimately have "drop 30 (buf_data b') = replicate 5 7" by (metis append_eq_conv_conj)
  then show ?thesis using b n by auto
qed

end
