(* ===== verification/Zb_Nwk_Secur.thy ===== *)
theory Zb_Nwk_Secur
  imports Zb_Secur_Keys Zb_Nwk_Hdr Zb_Mac_Mhr Zb_Ccm_Props
begin

text \<open>
  Security of network frames: \<^verbatim>\<open>secur/nwk_secur.c\<close>, with the auxiliary header and the nonce of
  \<^verbatim>\<open>include/zb_secur.h\<close>. Buffers are slots of the pool and pointers into a packet are offsets of its array,
  as in the code: where allocating space moves the data, a pointer from before keeps its place. The auxiliary
  header has its control byte at offset 0, the frame counter at 1, the long address at 5 and the key
  number at 13. An \<^verbatim>\<open>addr_ref\<close> that was not assigned has no value.
\<close>

section \<open>Constants and parts of a frame\<close>

definition ZB_NWK_STD_SECUR_CONTROL :: zb_uint8_t where
  "ZB_NWK_STD_SECUR_CONTROL = 5 OR push_bit 3 1 OR push_bit 5 1"

definition ZB_NWK_STD_SECUR_CONTROL_ZEROED_LEVEL :: zb_uint8_t where
  "ZB_NWK_STD_SECUR_CONTROL_ZEROED_LEVEL = 0 OR push_bit 3 1 OR push_bit 5 1"

definition ZB_SECUR_NWK_COUNTER_LIMIT :: zb_uint32_t where
  "ZB_SECUR_NWK_COUNTER_LIMIT = - 1 - 128"

definition ZB_NWK_COMMAND_STATUS_BAD_FRAME_COUNTER :: zb_uint8_t where
  "ZB_NWK_COMMAND_STATUS_BAD_FRAME_COUNTER = 0x11"

definition ZB_NWK_COMMAND_STATUS_BAD_KEY_SEQUENCE_NUMBER :: zb_uint8_t where
  "ZB_NWK_COMMAND_STATUS_BAD_KEY_SEQUENCE_NUMBER = 0x12"

definition ZB_NWK_COMMAND_STATUS_FRAME_SECURITY_FAILED :: zb_uint8_t where
  "ZB_NWK_COMMAND_STATUS_FRAME_SECURITY_FAILED = ZB_NWK_COMMAND_STATUS_BAD_KEY_SEQUENCE_NUMBER"

definition nwk_nonce :: "zb_ieee_addr_t \<Rightarrow> zb_uint8_t list \<Rightarrow> zb_uint8_t \<Rightarrow> zb_uint8_t list" where
  "nwk_nonce source_address frame_counter secur_control = source_address @ frame_counter @ [secur_control]"

definition put_buf :: "nat \<Rightarrow> zb_buf \<Rightarrow> 'z zb_globals_b_scheme \<Rightarrow> 'z zb_globals_b_scheme" where
  "put_buf i b g = g\<lparr>bpool := (bpool g)\<lparr>bp_pool := (bp_pool (bpool g))[i := b]\<rparr>\<rparr>"

text \<open>The header size and the offset of the auxiliary header, for a network header at \<open>nw\<close>.\<close>

definition nwk_hdr_at :: "zb_uint8_t list \<Rightarrow> nat \<Rightarrow> (nat \<times> nat) option" where
  "nwk_hdr_at p nw = do {
     f0 \<leftarrow> rd8 p nw;
     f1 \<leftarrow> rd8 p (nw + 1);
     let hs = zb_nwk_hdr_size (f0, f1);
     zb_assert (AUX_HDR_SIZE \<le> nw + hs);
     Some (hs, nw + hs - AUX_HDR_SIZE) }"

section \<open>Securing a frame\<close>

text \<open>The frame counter and key number to use, and the NIB with the next counter.\<close>

definition out_counter :: "bool \<Rightarrow> zb_uint8_t \<Rightarrow> zb_nib \<Rightarrow> zb_uint32_t \<times> zb_uint8_t \<times> zb_nib" where
  "out_counter use_same_key key_seq N =
     (if use_same_key \<and> key_seq \<noteq> nib_active_key_seq_number N
      then (nib_prev_outgoing_frame_counter N, key_seq,
        N\<lparr>nib_prev_outgoing_frame_counter := nib_prev_outgoing_frame_counter N + 1\<rparr>)
      else (nib_outgoing_frame_counter N, nib_active_key_seq_number N,
        N\<lparr>nib_outgoing_frame_counter := nib_outgoing_frame_counter N + 1\<rparr>))"

text \<open>The trust center switches the key when its counter has reached the limit.\<close>

definition check_counter_limit :: "'z zb_globals_s_scheme \<Rightarrow> 'z zb_globals_s_scheme option" where
  "check_counter_limit g =
     (if is_tc g \<and> nib_outgoing_frame_counter (nib (nwk g)) = ZB_SECUR_NWK_COUNTER_LIMIT
      then map_option fst (zb_get_out_buf_delayed Cb_zb_secur_switch_nwk_key_br g) else Some g)"

definition zb_nwk_secure_frame ::
    "nat \<Rightarrow> nat \<Rightarrow> nat \<Rightarrow> 'z zb_globals_s_scheme \<Rightarrow> ('z zb_globals_s_scheme \<times> zb_ret_t) option" where
  "zb_nwk_secure_frame s mac_hdr_size d g = do {
     src \<leftarrow> aget (bp_pool (bpool g)) s;
     let nw = ZB_BUF_BEGIN src + mac_hdr_size;
     (hdr_size, aux) \<leftarrow> nwk_hdr_at (b_buf src) nw;
     old_seq \<leftarrow> rd8 (b_buf src) (aux + 13);
     let (cnt, seq, N) = out_counter (b_use_same_key src) old_seq (nib (nwk g));
     let src_addr = take 8 (extended_address g);
     m1 \<leftarrow> blit (b_buf src) aux ([ZB_NWK_STD_SECUR_CONTROL] @ htole32 cnt @ src_addr @ [seq]);
     let g1 = put_buf s (src\<lparr>b_buf := m1\<rparr>) (upd_nib (\<lambda>_. N) g);
     let nonce = nwk_nonce src_addr (htole32 cnt) ZB_NWK_STD_SECUR_CONTROL;
     k \<leftarrow> secur_nwk_key_by_seq seq N;
     case k of
       None \<Rightarrow> Some (g1, RET_ERROR)
     | Some key \<Rightarrow> do {
         zb_assert (hdr_size + mac_hdr_size \<le> ZB_BUF_LEN src);
         a \<leftarrow> aslice m1 nw hdr_size;
         m \<leftarrow> aslice m1 (nw + hdr_size) (ZB_BUF_LEN src - hdr_size - mac_hdr_size);
         dst \<leftarrow> aget (bp_pool (bpool g1)) d;
         (dst1, ret) \<leftarrow> zb_ccm_encrypt_n_auth key nonce a m dst;
         if ret = RET_OK then do {
           (dst2, dp) \<leftarrow> zb_buf_smart_alloc_left (of_nat mac_hdr_size) dst1;
           mh \<leftarrow> aslice m1 (ZB_BUF_BEGIN src) mac_hdr_size;
           m2 \<leftarrow> blit (b_buf dst2) dp mh;
           m3 \<leftarrow> blit m2 (ZB_BUF_BEGIN dst2 + (aux - ZB_BUF_BEGIN src)) [ZB_NWK_STD_SECUR_CONTROL_ZEROED_LEVEL];
           g2 \<leftarrow> check_counter_limit (put_buf d (dst2\<lparr>b_buf := m3\<rparr>) g1);
           Some (g2, RET_OK) }
         else Some (put_buf d dst1 g1, ret) } }"

section \<open>Checking a frame\<close>

definition zb_secur_nwk_status :: "nat \<Rightarrow> zb_mac_mhr \<Rightarrow> zb_uint8_t \<Rightarrow> 'z zb_globals_s_scheme
    \<Rightarrow> 'z zb_globals_s_scheme option" where
  "zb_secur_nwk_status param mhr status g = schedule_buf Cb_zb_nlme_status_indication param
     (put_param param (Status_ind \<lparr>si_status = status, si_network_addr = addr_short (mh_src_addr mhr)\<rparr>) g)"

text \<open>The neighbor that the frame comes from, entered into the table when it is the originator.\<close>

definition frame_neighbor :: "zb_mac_mhr \<Rightarrow> zb_ieee_addr_t \<Rightarrow> zb_uint16_t \<Rightarrow> 'z zb_globals_s_scheme
    \<Rightarrow> ('z zb_globals_s_scheme \<times> zb_ret_t \<times> nat option) option" where
  "frame_neighbor mhr long_addr nwk_src g = do {
     (g1, ret, ref) \<leftarrow> (if ZB_FCF_GET_SRC_ADDRESSING_MODE (mh_frame_control mhr) = ZB_ADDR_16BIT_DEV_OR_BROADCAST
       then do {
         (A, r, ref) \<leftarrow> zb_address_update long_addr (addr_short (mh_src_addr mhr)) False (addr g);
         Some (g\<lparr>addr := A\<rparr>, r, ref) }
       else Some (g, RET_OK, None));
     if ret = RET_OK then do {
       r \<leftarrow> ref;
       zb_nwk_neighbor_get r (nwk_src = addr_short (mh_src_addr mhr)) g1 }
     else Some (g1, ret, None) }"

text \<open>A child is not authenticated until the frame is; a new key number restarts the frame counter.\<close>

definition note_key :: "zb_uint8_t \<Rightarrow> zb_neighbor_tbl_ent \<Rightarrow> zb_neighbor_tbl_ent" where
  "note_key seq e =
     (let e1 = (if ne_relationship e = ZB_NWK_RELATIONSHIP_CHILD
         then e\<lparr>ne_relationship := ZB_NWK_RELATIONSHIP_UNAUTHENTICATED_CHILD\<rparr> else e)
      in if ne_key_seq_number e1 \<noteq> seq then e1\<lparr>ne_incoming_frame_counter := 0, ne_key_seq_number := seq\<rparr> else e1)"

definition note_authenticated :: "zb_neighbor_tbl_ent \<Rightarrow> zb_neighbor_tbl_ent" where
  "note_authenticated e = (if ne_relationship e = ZB_NWK_RELATIONSHIP_UNAUTHENTICATED_CHILD
     then e\<lparr>ne_relationship := ZB_NWK_RELATIONSHIP_CHILD\<rparr> else e)"

definition upd_neighbor :: "nat \<Rightarrow> (zb_neighbor_tbl_ent \<Rightarrow> zb_neighbor_tbl_ent) \<Rightarrow> 'z zb_globals_n_scheme
    \<Rightarrow> 'z zb_globals_n_scheme option" where
  "upd_neighbor n f g = do { N \<leftarrow> nb_upd n f (neighbor (nwk g)); Some (upd_nbt (\<lambda>_. N) g) }"

definition counter_bad :: "zb_neighbor_tbl_ent \<Rightarrow> zb_uint32_t \<Rightarrow> bool" where
  "counter_bad e cnt \<longleftrightarrow> ne_incoming_frame_counter e > cnt \<or> ne_incoming_frame_counter e = -1"

text \<open>The key to decrypt with, or an error that has been reported.\<close>

definition check_counter :: "nat \<Rightarrow> zb_mac_mhr \<Rightarrow> nat \<Rightarrow> zb_uint8_t \<Rightarrow> zb_uint32_t \<Rightarrow> 'z zb_globals_s_scheme
    \<Rightarrow> ('z zb_globals_s_scheme \<times> zb_uint8_t list option) option" where
  "check_counter param mhr n seq cnt g = do {
     k \<leftarrow> secur_nwk_key_by_seq seq (nib (nwk g));
     g1 \<leftarrow> upd_neighbor n (note_key seq) g;
     e \<leftarrow> nb_get (neighbor (nwk g1)) n;
     case k of
       None \<Rightarrow> do {
         g2 \<leftarrow> zb_secur_nwk_status param mhr ZB_NWK_COMMAND_STATUS_BAD_KEY_SEQUENCE_NUMBER g1;
         Some (g2, None) }
     | Some key \<Rightarrow>
         if counter_bad e cnt then do {
           g2 \<leftarrow> zb_secur_nwk_status param mhr ZB_NWK_COMMAND_STATUS_BAD_FRAME_COUNTER g1;
           Some (g2, None) }
         else do {
           g2 \<leftarrow> upd_neighbor n (\<lambda>e. e\<lparr>ne_incoming_frame_counter := cnt\<rparr>) g1;
           Some (g2, Some key) } }"

text \<open>Decryption in place; \<open>aux\<close> is the offset of the auxiliary header.\<close>

definition nsdu_payload_size :: "nat \<Rightarrow> zb_buf \<Rightarrow> nat" where
  "nsdu_payload_size hdr_size b = (ZB_BUF_LEN b + 2 ^ 32 - hdr_size) mod 2 ^ 32"

definition unsecure_payload :: "zb_uint8_t list \<Rightarrow> nat \<Rightarrow> nat \<Rightarrow> zb_buf \<Rightarrow> (zb_buf \<times> zb_ret_t) option" where
  "unsecure_payload key hdr_size aux b = do {
     let payload_size = nsdu_payload_size hdr_size b;
     if payload_size < ZB_CCM_M then Some (b, RET_ERROR)
     else do {
       m \<leftarrow> blit (b_buf b) aux [ZB_NWK_STD_SECUR_CONTROL];
       source_address \<leftarrow> rdn 8 m (aux + 5);
       frame_counter \<leftarrow> rdn 4 m (aux + 1);
       zb_ccm_decrypt_n_auth_stdsecur key (nwk_nonce source_address frame_counter ZB_NWK_STD_SECUR_CONTROL)
         (b\<lparr>b_buf := m\<rparr>) hdr_size payload_size } }"

text \<open>A payload without room for the integrity code is reported here, and as a failure once more.\<close>

definition report_short :: "nat \<Rightarrow> zb_mac_mhr \<Rightarrow> nat \<Rightarrow> zb_buf \<Rightarrow> 'z zb_globals_s_scheme \<Rightarrow> 'z zb_globals_s_scheme option" where
  "report_short param mhr hdr_size b g =
     (if nsdu_payload_size hdr_size b < ZB_CCM_M
      then zb_secur_nwk_status param mhr ZB_NWK_COMMAND_STATUS_FRAME_SECURITY_FAILED g else Some g)"

text \<open>The MAC header is written in front of the network header again, behind one spare byte, and cut.\<close>

definition reinsert_mhr :: "zb_mac_mhr \<Rightarrow> zb_uint8_t \<Rightarrow> zb_buf \<Rightarrow> zb_buf option" where
  "reinsert_mhr mhr mhr_len b = do {
     (b1, p) \<leftarrow> zb_buf_smart_alloc_left (mhr_len + 1) b;
     m \<leftarrow> zb_mac_fill_mhr (b_buf b1) (p + 1) mhr;
     let b2 = b1\<lparr>b_buf := m, b_mac_hdr_offset := b_data_offset b1 + 1\<rparr>;
     (b3, _) \<leftarrow> zb_buf_cut_left (mhr_len + 1) b2;
     Some b3 }"

text \<open>The implicit switch to a newer key; the key number is read where the auxiliary header was.\<close>

definition implicit_switch :: "nat \<Rightarrow> nat \<Rightarrow> 'z zb_globals_s_scheme \<Rightarrow> 'z zb_globals_s_scheme option" where
  "implicit_switch param aux g = do {
     b \<leftarrow> aget (bp_pool (bpool g)) param;
     seq \<leftarrow> rd8 (b_buf b) (aux + 13);
     let diff = seq - nib_active_key_seq_number (nib (nwk g));
     if diff \<noteq> 0 \<and> diff < 127 then secur_nwk_key_switch seq g else Some g }"

definition zb_nwk_unsecure_frame :: "nat \<Rightarrow> zb_mac_mhr \<Rightarrow> zb_uint8_t \<Rightarrow> 'z zb_globals_s_scheme
    \<Rightarrow> ('z zb_globals_s_scheme \<times> zb_ret_t) option" where
  "zb_nwk_unsecure_frame param mhr mhr_len g =
     (if \<not> aps_authenticated (aps g) then do { g1 \<leftarrow> zb_free_buf param g; Some (g1, RET_ERROR) }
      else do {
        b \<leftarrow> aget (bp_pool (bpool g)) param;
        let nw = ZB_BUF_BEGIN b;
        (hdr_size, aux) \<leftarrow> nwk_hdr_at (b_buf b) nw;
        long_addr \<leftarrow> rdn 8 (b_buf b) (aux + 5);
        nwk_src \<leftarrow> rd16 (b_buf b) (nw + 4);
        (g1, ret, nbe) \<leftarrow> frame_neighbor mhr long_addr nwk_src g;
        if ret \<noteq> RET_OK then do {
          g2 \<leftarrow> zb_secur_nwk_status param mhr ZB_NWK_COMMAND_STATUS_FRAME_SECURITY_FAILED g1;
          Some (g2, ret) }
        else do {
          n \<leftarrow> nbe;
          seq \<leftarrow> rd8 (b_buf b) (aux + 13);
          cnt \<leftarrow> rd32 (b_buf b) (aux + 1);
          (g2, k) \<leftarrow> check_counter param mhr n seq cnt g1;
          case k of
            None \<Rightarrow> Some (g2, RET_ERROR)
          | Some key \<Rightarrow> do {
              gs \<leftarrow> report_short param mhr hdr_size b g2;
              (b1, ret1) \<leftarrow> unsecure_payload key hdr_size aux b;
              if ret1 \<noteq> RET_OK then do {
                g3 \<leftarrow> zb_secur_nwk_status param mhr ZB_NWK_COMMAND_STATUS_FRAME_SECURITY_FAILED (put_buf param b1 gs);
                Some (g3, ret1) }
              else do {
                b2 \<leftarrow> reinsert_mhr mhr mhr_len b1;
                g3 \<leftarrow> upd_neighbor n note_authenticated (put_buf param b2 gs);
                g4 \<leftarrow> implicit_switch param aux g3;
                Some (g4, RET_OK) } } } })"

end
