(* ===== verification/Zb_Nwk_Mesh.thy ===== *)
theory Zb_Nwk_Mesh
  imports Zb_Nwk_Secur Zb_Nwk_Tree
begin

text \<open>
  Mesh routing: \<^verbatim>\<open>nwk/nwk_cr_mesh_routing.c\<close> with the table macros of \<^verbatim>\<open>nwk/nwk_internal.h\<close>,
  \<^verbatim>\<open>zb_nlme_route_discovery_request\<close> of \<^verbatim>\<open>nwk/nwk_cr_route_discovery.c\<close> and \<^verbatim>\<open>nwk_calc_destination\<close> of
  \<^verbatim>\<open>nwk/nwk_main.c\<close>. Buffers are slots of the pool. A handler gets the network header and the command as the
  values of their fields: the code reads them before the functions it calls write to the buffer.
\<close>

section \<open>Tables of used and free entries\<close>

definition NWK_ARRAY_GET_ENT :: "('a \<Rightarrow> bool) \<Rightarrow> ('a \<Rightarrow> 'a) \<Rightarrow> 'a list \<Rightarrow> nat \<Rightarrow> (nat \<times> 'a list \<times> nat) option" where
  "NWK_ARRAY_GET_ENT used mark xs cnt =
     map_option (\<lambda>i. (i, xs[i := mark (xs ! i)], inc8 cnt)) (find (\<lambda>i. \<not> used (xs ! i)) [0..<length xs])"

definition NWK_ARRAY_PUT_ENT :: "('a \<Rightarrow> 'a) \<Rightarrow> nat \<Rightarrow> 'a list \<Rightarrow> nat \<Rightarrow> 'a list \<times> nat" where
  "NWK_ARRAY_PUT_ENT unmark i xs cnt = (xs[i := unmark (xs ! i)], dec8 cnt)"

definition NWK_ARRAY_FIND_ENT :: "('a \<Rightarrow> bool) \<Rightarrow> ('a \<Rightarrow> bool) \<Rightarrow> 'a list \<Rightarrow> nat option" where
  "NWK_ARRAY_FIND_ENT used P xs = find (\<lambda>i. used (xs ! i) \<and> P (xs ! i)) [0..<length xs]"

text \<open>The three tables of the NIB.\<close>

definition get_route :: "zb_nib \<Rightarrow> (nat \<times> zb_nib) option" where
  "get_route N = map_option (\<lambda>(i, xs, c). (i, N\<lparr>nib_routing_table := xs, nib_routing_table_cnt := c\<rparr>))
     (NWK_ARRAY_GET_ENT rt_used (\<lambda>e. e\<lparr>rt_used := True\<rparr>) (nib_routing_table N) (nib_routing_table_cnt N))"

definition put_route :: "nat \<Rightarrow> zb_nib \<Rightarrow> zb_nib" where
  "put_route i N = (case NWK_ARRAY_PUT_ENT (\<lambda>e. e\<lparr>rt_used := False\<rparr>) i (nib_routing_table N) (nib_routing_table_cnt N)
     of (xs, c) \<Rightarrow> N\<lparr>nib_routing_table := xs, nib_routing_table_cnt := c\<rparr>)"

definition find_route :: "(zb_nwk_routing \<Rightarrow> bool) \<Rightarrow> zb_nib \<Rightarrow> nat option" where
  "find_route P N = NWK_ARRAY_FIND_ENT rt_used P (nib_routing_table N)"

definition upd_route :: "nat \<Rightarrow> (zb_nwk_routing \<Rightarrow> zb_nwk_routing) \<Rightarrow> zb_nib \<Rightarrow> zb_nib" where
  "upd_route i f N = N\<lparr>nib_routing_table := (nib_routing_table N)[i := f (nib_routing_table N ! i)]\<rparr>"

definition get_disc :: "zb_nib \<Rightarrow> (nat \<times> zb_nib) option" where
  "get_disc N = map_option (\<lambda>(i, xs, c). (i, N\<lparr>nib_route_disc_table := xs, nib_route_disc_table_cnt := c\<rparr>))
     (NWK_ARRAY_GET_ENT rd_used (\<lambda>e. e\<lparr>rd_used := True\<rparr>) (nib_route_disc_table N) (nib_route_disc_table_cnt N))"

definition put_disc :: "nat \<Rightarrow> zb_nib \<Rightarrow> zb_nib" where
  "put_disc i N = (case NWK_ARRAY_PUT_ENT (\<lambda>e. e\<lparr>rd_used := False\<rparr>) i (nib_route_disc_table N) (nib_route_disc_table_cnt N)
     of (xs, c) \<Rightarrow> N\<lparr>nib_route_disc_table := xs, nib_route_disc_table_cnt := c\<rparr>)"

definition find_disc :: "(zb_nwk_route_discovery \<Rightarrow> bool) \<Rightarrow> zb_nib \<Rightarrow> nat option" where
  "find_disc P N = NWK_ARRAY_FIND_ENT rd_used P (nib_route_disc_table N)"

definition upd_disc :: "nat \<Rightarrow> (zb_nwk_route_discovery \<Rightarrow> zb_nwk_route_discovery) \<Rightarrow> zb_nib \<Rightarrow> zb_nib" where
  "upd_disc i f N = N\<lparr>nib_route_disc_table := (nib_route_disc_table N)[i := f (nib_route_disc_table N ! i)]\<rparr>"

definition get_pend :: "zb_nib \<Rightarrow> (nat \<times> zb_nib) option" where
  "get_pend N = map_option (\<lambda>(i, xs, c). (i, N\<lparr>nib_pending_table := xs, nib_pending_table_cnt := c\<rparr>))
     (NWK_ARRAY_GET_ENT pe_used (\<lambda>e. e\<lparr>pe_used := True\<rparr>) (nib_pending_table N) (nib_pending_table_cnt N))"

definition put_pend :: "nat \<Rightarrow> zb_nib \<Rightarrow> zb_nib" where
  "put_pend i N = (case NWK_ARRAY_PUT_ENT (\<lambda>e. e\<lparr>pe_used := False\<rparr>) i (nib_pending_table N) (nib_pending_table_cnt N)
     of (xs, c) \<Rightarrow> N\<lparr>nib_pending_table := xs, nib_pending_table_cnt := c\<rparr>)"

definition find_pend :: "(zb_nwk_pend \<Rightarrow> bool) \<Rightarrow> zb_nib \<Rightarrow> nat option" where
  "find_pend P N = NWK_ARRAY_FIND_ENT pe_used P (nib_pending_table N)"

definition upd_pend :: "nat \<Rightarrow> (zb_nwk_pend \<Rightarrow> zb_nwk_pend) \<Rightarrow> zb_nib \<Rightarrow> zb_nib" where
  "upd_pend i f N = N\<lparr>nib_pending_table := (nib_pending_table N)[i := f (nib_pending_table N ! i)]\<rparr>"

section \<open>Commands\<close>

definition ZB_NWK_BROADCAST_ROUTER_COORDINATOR :: zb_uint16_t where "ZB_NWK_BROADCAST_ROUTER_COORDINATOR = 0xFFFC"

definition ZB_NWK_IS_ADDRESS_BROADCAST :: "zb_uint16_t \<Rightarrow> bool" where
  "ZB_NWK_IS_ADDRESS_BROADCAST a \<longleftrightarrow> a AND 0xFFF0 = 0xFFF0"

definition ZB_NWK_CMD_ROUTE_REQUEST :: zb_uint8_t where "ZB_NWK_CMD_ROUTE_REQUEST = 1"

definition ZB_NWK_CMD_ROUTE_REPLY :: zb_uint8_t where "ZB_NWK_CMD_ROUTE_REPLY = 2"

definition ZB_NWK_INTERNAL_NSDU_HANDLE :: zb_uint8_t where "ZB_NWK_INTERNAL_NSDU_HANDLE = 0xFF"

definition ZB_NWK_STATUS_SUCCESS :: zb_uint16_t where "ZB_NWK_STATUS_SUCCESS = 0"

definition ZB_NWK_STATUS_INVALID_REQUEST :: zb_uint16_t where "ZB_NWK_STATUS_INVALID_REQUEST = 0xC2"

definition ZB_NWK_STATUS_ROUTE_ERROR :: zb_uint16_t where "ZB_NWK_STATUS_ROUTE_ERROR = 0xD1"

definition ZB_NWK_COMMAND_STATUS_NO_ROUTE_AVAILABLE :: zb_uint8_t where "ZB_NWK_COMMAND_STATUS_NO_ROUTE_AVAILABLE = 0"

definition ZB_NWK_COMMAND_STATUS_TREE_LINK_FAILURE :: zb_uint8_t where "ZB_NWK_COMMAND_STATUS_TREE_LINK_FAILURE = 1"

definition ZB_NWK_COMMAND_STATUS_NO_ROUTING_CAPACITY :: zb_uint8_t where "ZB_NWK_COMMAND_STATUS_NO_ROUTING_CAPACITY = 4"

definition ZB_NWK_STATIC_PATH_COST :: zb_uint8_t where "ZB_NWK_STATIC_PATH_COST = 7"

definition ZB_NWK_ROUTE_DISCOVERY_EXPIRY :: zb_uint16_t where "ZB_NWK_ROUTE_DISCOVERY_EXPIRY = 10"

definition ZB_NWK_PENDING_ENTRY_EXPIRY :: "6 word" where "ZB_NWK_PENDING_ENTRY_EXPIRY = 20"

record zb_nwk_hdr =
  nh_src_addr :: zb_uint16_t
  nh_radius :: zb_uint8_t
  nh_seq_num :: zb_uint8_t

record zb_nwk_cmd_rreq =
  rq_rreq_id :: zb_uint8_t
  rq_dest_addr :: zb_uint16_t
  rq_path_cost :: zb_uint8_t

record zb_nwk_cmd_rrep =
  rp_rreq_id :: zb_uint8_t
  rp_originator :: zb_uint16_t
  rp_responder :: zb_uint16_t
  rp_path_cost :: zb_uint8_t

definition get_buf :: "nat \<Rightarrow> 'z zb_globals_b_scheme \<Rightarrow> zb_buf option" where
  "get_buf i g = aget (bp_pool (bpool g)) i"

text \<open>The short address of the MAC source; without a MAC header the device is the source.\<close>

definition nwk_get_mac_source_addr :: "nat \<Rightarrow> 'z zb_globals_n_scheme \<Rightarrow> zb_uint16_t option" where
  "nwk_get_mac_source_addr b g = do {
     p \<leftarrow> get_buf b g;
     if b_mac_hdr_offset p \<noteq> 0 then do {
       (mhr, _) \<leftarrow> zb_parse_mhr (b_buf p) (unat (b_mac_hdr_offset p));
       Some (addr_short (mh_src_addr mhr)) }
     else Some (mac_short_address (pib g)) }"

definition frame_secure :: "'z zb_globals_n_scheme \<Rightarrow> bool" where
  "frame_secure g \<longleftrightarrow> aps_authenticated (aps g) \<and> nib_secure_all_frames (nib (nwk g)) \<and> nib_security_level (nib (nwk g)) \<noteq> 0"

text \<open>
  A route command with its payload, in an emptied buffer: the header's source, radius and sequence number are
  written at the place where the header was before the command was added.
\<close>

definition put_route_cmd :: "nat \<Rightarrow> zb_uint16_t \<Rightarrow> zb_uint8_t \<Rightarrow> zb_uint8_t list \<Rightarrow> zb_uint8_t \<Rightarrow> (zb_uint16_t \<times> zb_uint8_t option) option
    \<Rightarrow> 'z zb_globals_s_scheme \<Rightarrow> 'z zb_globals_s_scheme option" where
  "put_route_cmd b dst cmd payload radius src g = do {
     buf \<leftarrow> get_buf b g;
     (b1, N, p) \<leftarrow> nwk_alloc_and_fill_hdr buf dst None None False (frame_secure g) True (mac_short_address (pib g)) (nib (nwk g));
     (b2, q) \<leftarrow> nwk_alloc_and_fill_cmd b1 cmd (of_nat (length payload));
     m1 \<leftarrow> blit (b_buf b2) q payload;
     m2 \<leftarrow> blit m1 (p + 6) [radius];
     m3 \<leftarrow> (case src of
         None \<Rightarrow> Some m2
       | Some (a, seq) \<Rightarrow> do {
           m \<leftarrow> blit m2 (p + 4) (htole16 a);
           case seq of None \<Rightarrow> Some m | Some s \<Rightarrow> blit m (p + 7) [s] });
     Some (put_buf b (b2\<lparr>b_buf := m3\<rparr>) (upd_nib (\<lambda>_. N) g)) }"

definition forward_buf :: "nat \<Rightarrow> zb_uint8_t \<Rightarrow> 'z zb_globals_s_scheme \<Rightarrow> 'z zb_globals_s_scheme option" where
  "forward_buf b handle g = schedule_buf Cb_zb_nwk_forward b (put_param b (Nsdu_handle handle) g)"

definition zb_nwk_mesh_send_rreq :: "nat \<Rightarrow> zb_nwk_cmd_rreq \<Rightarrow> zb_uint16_t \<Rightarrow> zb_uint8_t \<Rightarrow> zb_uint8_t \<Rightarrow> zb_uint8_t
    \<Rightarrow> 'z zb_globals_s_scheme \<Rightarrow> 'z zb_globals_s_scheme option" where
  "zb_nwk_mesh_send_rreq cbuf rreq src_addr seq_num path_cost radius g = do {
     g1 \<leftarrow> put_route_cmd cbuf ZB_NWK_BROADCAST_ROUTER_COORDINATOR ZB_NWK_CMD_ROUTE_REQUEST
       ([0, rq_rreq_id rreq] @ htole16 (rq_dest_addr rreq) @ [path_cost]) radius
       (Some (src_addr, if src_addr \<noteq> mac_short_address (pib g) then Some seq_num else None)) g;
     forward_buf cbuf ZB_NWK_INTERNAL_NSDU_HANDLE g1 }"

definition zb_nwk_mesh_send_rrep :: "nat \<Rightarrow> zb_uint8_t \<Rightarrow> zb_uint16_t \<Rightarrow> zb_uint16_t \<Rightarrow> zb_uint8_t \<Rightarrow> zb_uint16_t
    \<Rightarrow> 'z zb_globals_s_scheme \<Rightarrow> 'z zb_globals_s_scheme option" where
  "zb_nwk_mesh_send_rrep cbuf rreq_id originator responder path_cost sender_addr g = do {
     g1 \<leftarrow> put_route_cmd cbuf sender_addr ZB_NWK_CMD_ROUTE_REPLY
       ([0, rreq_id] @ htole16 originator @ htole16 responder @ [path_cost])
       (push_bit 1 (nib_max_depth (nib (nwk g)))) None g;
     forward_buf cbuf ZB_NWK_INTERNAL_NSDU_HANDLE g1 }"

definition NWK_ROUTE_DISCOVERY_CONFIRM :: "nat \<Rightarrow> zb_uint16_t \<Rightarrow> zb_uint8_t \<Rightarrow> 'z zb_globals_b_scheme
    \<Rightarrow> 'z zb_globals_b_scheme option" where
  "NWK_ROUTE_DISCOVERY_CONFIRM b s ns g = do {
     buf \<leftarrow> get_buf b g;
     (b1, p) \<leftarrow> zb_buf_initial_alloc 1 buf;
     m \<leftarrow> blit (b_buf b1) p [ns];
     schedule_buf Cb_zb_nlme_route_discovery_confirm b (put_buf b (b1\<lparr>b_status := s, b_buf := m\<rparr>) g) }"

section \<open>Path cost\<close>

text \<open>The loop \<^verbatim>\<open>while ( 32*(i+1) < nbt->lqi )\<close>: it ends before \<open>i = 8\<close>.\<close>

fun lqi_steps :: "nat \<Rightarrow> nat \<Rightarrow> nat \<Rightarrow> nat" where
  "lqi_steps 0 i lqi = i"
| "lqi_steps (Suc n) i lqi = (if 32 * (i + 1) < lqi then lqi_steps n (i + 1) lqi else i)"

definition lqi_cost :: "zb_uint8_t \<Rightarrow> zb_uint8_t" where
  "lqi_cost lqi = (let i = lqi_steps 8 0 (unat lqi) in if 7 - int i \<noteq> 0 then word_of_int (7 - int i) else 1)"

definition NWK_CALC_PATH_COST :: "zb_uint16_t \<Rightarrow> 'z zb_globals_n_scheme \<Rightarrow> ('z zb_globals_n_scheme \<times> zb_uint8_t) option" where
  "NWK_CALC_PATH_COST src_addr g =
     (if \<not> nib_nwk_report_constant_cost (nib (nwk g)) then do {
        (g1, r, n) \<leftarrow> zb_nwk_neighbor_get_by_short src_addr g;
        if r = RET_OK then do {
          n \<leftarrow> n;
          e \<leftarrow> nb_get (neighbor (nwk g1)) n;
          Some (g1, lqi_cost (ne_lqi e)) }
        else if src_addr = mac_short_address (pib g1) then Some (g1, 0)
        else Some (g1, ZB_NWK_STATIC_PATH_COST) }
      else Some (g, ZB_NWK_STATIC_PATH_COST))"

section \<open>Route requests\<close>

text \<open>The routing entry for the destination, a new one if there is room.\<close>

definition rreq_route :: "zb_uint16_t \<Rightarrow> zb_nib \<Rightarrow> (nat \<times> zb_nib) option" where
  "rreq_route dest N =
     (case find_route (\<lambda>e. rt_dest_addr e = dest) N of
        Some i \<Rightarrow> Some (i, upd_route i (\<lambda>e. if rt_status e \<noteq> ZB_NWK_ROUTE_STATE_ACTIVE
            \<and> rt_status e \<noteq> ZB_NWK_ROUTE_STATE_VALIDATION_UNDERWAY
          then e\<lparr>rt_status := ZB_NWK_ROUTE_STATE_DISCOVERY_UNDERWAY\<rparr> else e) N)
      | None \<Rightarrow> map_option (\<lambda>(i, M). (i, upd_route i (\<lambda>e. e\<lparr>rt_dest_addr := dest,
          rt_status := ZB_NWK_ROUTE_STATE_DISCOVERY_UNDERWAY\<rparr>) M)) (get_route N))"

text \<open>What the request does to the discovery table.\<close>

datatype rreq_result = Rreq_taken | Rreq_not_better | Rreq_no_memory

definition rreq_disc :: "nat \<Rightarrow> zb_nwk_hdr \<Rightarrow> zb_nwk_cmd_rreq \<Rightarrow> zb_uint8_t \<Rightarrow> 'z zb_globals_n_scheme
    \<Rightarrow> (rreq_result \<times> 'z zb_globals_n_scheme) option" where
  "rreq_disc b hdr rreq path_cost g =
     (case find_disc (\<lambda>e. rd_request_id e = rq_rreq_id rreq \<and> rd_source_addr e = nh_src_addr hdr) (nib (nwk g)) of
        Some i \<Rightarrow>
          if path_cost < rd_forward_cost (nib_route_disc_table (nib (nwk g)) ! i) then do {
            a \<leftarrow> nwk_get_mac_source_addr b g;
            Some (Rreq_taken, upd_nib (upd_disc i (\<lambda>e. e\<lparr>rd_sender_addr := a, rd_forward_cost := path_cost\<rparr>)) g) }
          else Some (Rreq_not_better, g)
      | None \<Rightarrow>
          case get_disc (nib (nwk g)) of
            None \<Rightarrow> Some (Rreq_no_memory, g)
          | Some (i, N) \<Rightarrow> do {
              a \<leftarrow> nwk_get_mac_source_addr b g;
              Some (Rreq_taken, upd_nib (\<lambda>_. upd_disc i (\<lambda>e. e\<lparr>rd_request_id := rq_rreq_id rreq,
                rd_source_addr := nh_src_addr hdr, rd_sender_addr := a, rd_dest_addr := rq_dest_addr rreq,
                rd_forward_cost := path_cost, rd_residual_cost := 0xff,
                rd_expiration_time := ZB_NWK_ROUTE_DISCOVERY_EXPIRY\<rparr>) N) g) })"

text \<open>A reply if the request is for this device or a neighbor, else the request is passed on.\<close>

definition rreq_answer :: "nat \<Rightarrow> zb_nwk_hdr \<Rightarrow> zb_nwk_cmd_rreq \<Rightarrow> zb_uint8_t \<Rightarrow> 'z zb_globals_s_scheme
    \<Rightarrow> 'z zb_globals_s_scheme option" where
  "rreq_answer b hdr rreq path_cost g = do {
     (g1, found) \<leftarrow> (if rq_dest_addr rreq = mac_short_address (pib g) then Some (g, True)
       else map_option (\<lambda>(g1, r, _). (g1, r = RET_OK)) (zb_nwk_neighbor_get_by_short (rq_dest_addr rreq) g));
     if found then do {
       a \<leftarrow> nwk_get_mac_source_addr b g1;
       zb_nwk_mesh_send_rrep b (rq_rreq_id rreq) (nh_src_addr hdr) (rq_dest_addr rreq) path_cost a g1 }
     else zb_nwk_mesh_send_rreq b rreq (nh_src_addr hdr) (nh_seq_num hdr) path_cost (nh_radius hdr) g1 }"

text \<open>No room: the entries found or made so far are given back, and a request of the APS is confirmed.\<close>

definition rreq_error :: "nat \<Rightarrow> nat option \<Rightarrow> nat option \<Rightarrow> zb_uint16_t \<Rightarrow> 'z zb_globals_n_scheme
    \<Rightarrow> 'z zb_globals_n_scheme option" where
  "rreq_error b disc_ent routing_ent dest g = do {
     let g1 = (case disc_ent of Some i \<Rightarrow> upd_nib (put_disc i) g | None \<Rightarrow> g);
     let g2 = (case routing_ent of Some i \<Rightarrow> upd_nib (put_route i) g1 | None \<Rightarrow> g1);
     if nib_aps_rreq_addr (nib (nwk g2)) \<noteq> 0 \<and> nib_aps_rreq_addr (nib (nwk g2)) = dest
     then NWK_ROUTE_DISCOVERY_CONFIRM b ZB_NWK_STATUS_ROUTE_ERROR ZB_NWK_COMMAND_STATUS_NO_ROUTE_AVAILABLE g2
     else zb_free_buf b g2 }"

definition zb_nwk_mesh_rreq_handler :: "nat \<Rightarrow> zb_nwk_hdr \<Rightarrow> zb_nwk_cmd_rreq \<Rightarrow> 'z zb_globals_s_scheme
    \<Rightarrow> 'z zb_globals_s_scheme option" where
  "zb_nwk_mesh_rreq_handler b hdr rreq g = do {
     (g1, c) \<leftarrow> NWK_CALC_PATH_COST (nh_src_addr hdr) g;
     let path_cost = c + rq_path_cost rreq;
     case rreq_route (rq_dest_addr rreq) (nib (nwk g1)) of
       None \<Rightarrow> rreq_error b None None (rq_dest_addr rreq) g1
     | Some (i, N) \<Rightarrow> do {
         (res, g2) \<leftarrow> rreq_disc b hdr rreq path_cost (upd_nib (\<lambda>_. N) g1);
         case res of
           Rreq_taken \<Rightarrow> rreq_answer b hdr rreq path_cost g2
         | Rreq_not_better \<Rightarrow> zb_free_buf b g2
         | Rreq_no_memory \<Rightarrow> rreq_error b None (Some i) (rq_dest_addr rreq) g2 } }"

definition zb_nwk_mesh_route_discovery :: "nat option \<Rightarrow> zb_uint16_t \<Rightarrow> zb_uint8_t \<Rightarrow> 'z zb_globals_s_scheme
    \<Rightarrow> 'z zb_globals_s_scheme option" where
  "zb_nwk_mesh_route_discovery cbuf dest_addr radius g =
     (case cbuf of
        Some b \<Rightarrow> do {
          buf \<leftarrow> get_buf b g;
          (b1, p) \<leftarrow> zb_buf_initial_alloc 8 buf;
          (b2, q) \<leftarrow> zb_buf_smart_alloc_right 5 b1;
          let N = (nib (nwk g))\<lparr>nib_rreq_id := nib_rreq_id (nib (nwk g)) + 1\<rparr>;
          let r = (if radius \<noteq> 0 then radius else push_bit 1 (nib_max_depth N));
          let own = mac_short_address (pib g);
          m1 \<leftarrow> blit (b_buf b2) q ([0, nib_rreq_id N] @ htole16 dest_addr @ [0]);
          m2 \<leftarrow> blit m1 (p + 4) (htole16 own @ [r]);
          seq \<leftarrow> rd8 m2 (p + 7);
          zb_nwk_mesh_rreq_handler b \<lparr>nh_src_addr = own, nh_radius = r, nh_seq_num = seq\<rparr>
            \<lparr>rq_rreq_id = nib_rreq_id N, rq_dest_addr = dest_addr, rq_path_cost = 0\<rparr>
            (put_buf b (b2\<lparr>b_buf := m2\<rparr>) (upd_nib (\<lambda>_. N) g)) }
      | None \<Rightarrow> map_option fst (zb_get_out_buf_delayed Cb_zb_nwk_mesh_initiate_route_discovery g))"

definition zb_nwk_mesh_initiate_route_discovery :: "nat \<Rightarrow> 'z zb_globals_s_scheme \<Rightarrow> 'z zb_globals_s_scheme option" where
  "zb_nwk_mesh_initiate_route_discovery b g =
     (case find_pend pe_waiting_buf (nib (nwk g)) of
        Some i \<Rightarrow> do {
          p \<leftarrow> get_buf (pe_buf (nib_pending_table (nib (nwk g)) ! i)) g;
          dst \<leftarrow> rd16 (b_buf p) (ZB_BUF_BEGIN p + 2);
          g1 \<leftarrow> zb_nwk_mesh_route_discovery (Some b) dst 0 g;
          Some (upd_nib (upd_pend i (\<lambda>e. e\<lparr>pe_waiting_buf := False\<rparr>)) g1) }
      | None \<Rightarrow> None)"

definition zb_nlme_route_discovery_request :: "nat \<Rightarrow> 'z zb_globals_s_scheme \<Rightarrow> 'z zb_globals_s_scheme option" where
  "zb_nlme_route_discovery_request b g =
     (case buf_param g b of
        Route_discovery_req req \<Rightarrow>
          if \<not> (nib_device_type (nib (nwk g)) = ucast ZB_NWK_DEVICE_TYPE_COORDINATOR
              \<or> nib_device_type (nib (nwk g)) = ucast ZB_NWK_DEVICE_TYPE_ROUTER) then
            NWK_ROUTE_DISCOVERY_CONFIRM b ZB_NWK_STATUS_INVALID_REQUEST ZB_NWK_COMMAND_STATUS_NO_ROUTE_AVAILABLE g
          else if rdr_address_mode req \<noteq> ZB_ADDR_NO_ADDR \<and> ZB_NWK_IS_ADDRESS_BROADCAST (rdr_network_addr req) then
            NWK_ROUTE_DISCOVERY_CONFIRM b ZB_NWK_STATUS_INVALID_REQUEST ZB_NWK_COMMAND_STATUS_NO_ROUTE_AVAILABLE g
          else if rdr_address_mode req = ZB_ADDR_16BIT_DEV_OR_BROADCAST
              \<and> rdr_network_addr req = mac_short_address (pib g) then
            NWK_ROUTE_DISCOVERY_CONFIRM b ZB_NWK_STATUS_SUCCESS 0xff g
          else do {
            (g1, r, _) \<leftarrow> zb_nwk_neighbor_get_by_short (rdr_network_addr req) g;
            if r = RET_OK then NWK_ROUTE_DISCOVERY_CONFIRM b ZB_NWK_STATUS_SUCCESS 0xff g1
            else if rdr_address_mode req = ZB_ADDR_16BIT_DEV_OR_BROADCAST then
              zb_nwk_mesh_route_discovery (Some b) (rdr_network_addr req) (rdr_radius req)
                (upd_nib (\<lambda>N. N\<lparr>nib_aps_rreq_addr := rdr_network_addr req\<rparr>) g1)
            else NWK_ROUTE_DISCOVERY_CONFIRM b ZB_NWK_STATUS_INVALID_REQUEST ZB_NWK_COMMAND_STATUS_NO_ROUTE_AVAILABLE g1 }
      | _ \<Rightarrow> None)"

section \<open>Route replies\<close>

text \<open>The waiting packets for a destination are forwarded.\<close>

fun send_pending :: "nat list \<Rightarrow> zb_uint16_t \<Rightarrow> 'z zb_globals_s_scheme \<Rightarrow> 'z zb_globals_s_scheme option" where
  "send_pending [] dest g = Some g"
| "send_pending (i # is) dest g =
     (let e = nib_pending_table (nib (nwk g)) ! i
      in if pe_used e \<and> pe_dest_addr e = dest then do {
           g1 \<leftarrow> forward_buf (pe_buf e) (pe_handle e) g;
           send_pending is dest (upd_nib (put_pend i) g1) }
         else send_pending is dest g)"

definition rrep_arrived :: "nat \<Rightarrow> zb_uint16_t \<Rightarrow> 'z zb_globals_s_scheme \<Rightarrow> 'z zb_globals_s_scheme option" where
  "rrep_arrived b dest g = do {
     g1 \<leftarrow> send_pending [0..<ZB_NWK_PENDING_TABLE_SIZE] dest g;
     if nib_aps_rreq_addr (nib (nwk g1)) = dest then do {
       g2 \<leftarrow> NWK_ROUTE_DISCOVERY_CONFIRM b ZB_NWK_STATUS_SUCCESS 0xff g1;
       Some (upd_nib (\<lambda>N. N\<lparr>nib_aps_rreq_addr := -1\<rparr>) g2) }
     else Some g1 }"

definition rrep_entries :: "zb_nwk_cmd_rrep \<Rightarrow> zb_nib \<Rightarrow> nat option \<times> nat option" where
  "rrep_entries rrep N =
     (find_disc (\<lambda>e. rd_request_id e = rp_rreq_id rrep \<and> rd_source_addr e = rp_originator rrep) N,
      find_route (\<lambda>e. rt_dest_addr e = rp_responder rrep) N)"

definition accept_reply :: "zb_uint8_t \<Rightarrow> zb_uint16_t \<Rightarrow> nat \<Rightarrow> nat \<Rightarrow> zb_nib \<Rightarrow> zb_nib" where
  "accept_reply path_cost src_addr d r N =
     upd_route r (\<lambda>e. e\<lparr>rt_next_hop_addr := src_addr,
         rt_status := (if rt_status e = ZB_NWK_ROUTE_STATE_DISCOVERY_UNDERWAY
           then ZB_NWK_ROUTE_STATE_VALIDATION_UNDERWAY else rt_status e)\<rparr>)
       (upd_disc d (\<lambda>e. e\<lparr>rd_residual_cost := path_cost, rd_expiration_time := ZB_NWK_ROUTE_DISCOVERY_EXPIRY\<rparr>) N)"

definition zb_nwk_mesh_rrep_handler :: "nat \<Rightarrow> zb_nwk_hdr \<Rightarrow> zb_nwk_cmd_rrep \<Rightarrow> 'z zb_globals_s_scheme
    \<Rightarrow> 'z zb_globals_s_scheme option" where
  "zb_nwk_mesh_rrep_handler b hdr rrep g = do {
     src_addr \<leftarrow> nwk_get_mac_source_addr b g;
     (g1, c) \<leftarrow> NWK_CALC_PATH_COST (nh_src_addr hdr) g;
     let path_cost = c + rp_path_cost rrep;
     case rrep_entries rrep (nib (nwk g1)) of
       (Some d, Some r) \<Rightarrow>
         if path_cost > rd_residual_cost (nib_route_disc_table (nib (nwk g1)) ! d) then zb_free_buf b g1
         else do {
           let g2 = upd_nib (accept_reply path_cost src_addr d r) g1;
           if rp_originator rrep = mac_short_address (pib g2) then do {
             g3 \<leftarrow> rrep_arrived b (rp_responder rrep) g2;
             zb_free_buf b g3 }
           else zb_nwk_mesh_send_rrep b (rp_rreq_id rrep) (rp_originator rrep) (rp_responder rrep) path_cost
             (rd_sender_addr (nib_route_disc_table (nib (nwk g2)) ! d)) g2 }
     | (Some d, None) \<Rightarrow> zb_free_buf b (upd_nib (put_disc d) g1)
     | (None, Some r) \<Rightarrow> zb_free_buf b (upd_nib (put_route r) g1)
     | (None, None) \<Rightarrow> zb_free_buf b g1 }"

section \<open>Expiry\<close>

definition ZB_NWK_EXPIRY_ROUTE_DISCOVERY :: zb_time_t where
  "ZB_NWK_EXPIRY_ROUTE_DISCOVERY = of_nat (2 * ZB_TIME_ONE_SECOND)"

definition ZB_NWK_EXPIRY_PENDING :: zb_time_t where
  "ZB_NWK_EXPIRY_PENDING = of_nat (5 * ZB_TIME_ONE_SECOND)"

definition schedule_expiry_route_disc :: "'z zb_globals_scheme \<Rightarrow> 'z zb_globals_scheme option" where
  "schedule_expiry_route_disc g =
     map_option fst (zb_schedule_alarm Cb_zb_nwk_mesh_expiry_route_disc 0 ZB_NWK_EXPIRY_ROUTE_DISCOVERY g)"

definition schedule_expiry_pending :: "'z zb_globals_scheme \<Rightarrow> 'z zb_globals_scheme option" where
  "schedule_expiry_pending g =
     map_option fst (zb_schedule_alarm Cb_zb_nwk_mesh_expiry_pending 0 ZB_NWK_EXPIRY_PENDING g)"

definition zb_nwk_mesh_routing_init :: "'z zb_globals_scheme \<Rightarrow> 'z zb_globals_scheme option" where
  "zb_nwk_mesh_routing_init g = do { g1 \<leftarrow> schedule_expiry_route_disc g; schedule_expiry_pending g1 }"

definition zb_nwk_mesh_routing_deinit :: "'z zb_globals_scheme \<Rightarrow> 'z zb_globals_scheme option" where
  "zb_nwk_mesh_routing_deinit g = do {
     (g1, _) \<leftarrow> zb_schedule_alarm_cancel Cb_zb_nwk_mesh_expiry_pending ZB_ALARM_ANY_PARAM g;
     map_option fst (zb_schedule_alarm_cancel Cb_zb_nwk_mesh_expiry_route_disc ZB_ALARM_ANY_PARAM g1) }"

definition nwk_route_disc_failed :: "nat \<Rightarrow> 'z zb_globals_s_scheme \<Rightarrow> 'z zb_globals_s_scheme option" where
  "nwk_route_disc_failed b g = do {
     g1 \<leftarrow> schedule_buf Cb_zb_nlme_status_indication b
       (put_param b (Status_ind \<lparr>si_status = ZB_NWK_COMMAND_STATUS_NO_ROUTE_AVAILABLE,
          si_network_addr = hd_status_ind_addr (nwk_handle (nwk g))\<rparr>) g);
     (g2, _) \<leftarrow> zb_schedule_alarm_cancel Cb_zb_nwk_mesh_expiry_route_disc 0 g1;
     schedule_expiry_route_disc g2 }"

text \<open>
  The routing entry to free with an expired discovery entry. The index in its condition is that of
  the search, as the macro \<^verbatim>\<open>NWK_ARRAY_FIND_ENT\<close> declares an \<^verbatim>\<open>i\<close> of its own: a routing entry is compared with the
  discovery entry in the same slot, whichever slot has expired.
\<close>

definition expired_route :: "zb_nib \<Rightarrow> nat option" where
  "expired_route N = find (\<lambda>i. rt_used (nib_routing_table N ! i)
       \<and> rt_dest_addr (nib_routing_table N ! i) = rd_dest_addr (nib_route_disc_table N ! i)
       \<and> rt_status (nib_routing_table N ! i) \<noteq> ZB_NWK_ROUTE_STATE_ACTIVE) [0..<length (nib_routing_table N)]"

text \<open>
  The loop over the discovery table. It stops behind the first expired entry with a routing entry that is not
  active; then the alarm is left to \<^verbatim>\<open>nwk_route_disc_failed\<close>. The flag tells whether it ran to the end.
\<close>

fun expire_disc :: "nat list \<Rightarrow> 'z zb_globals_n_scheme \<Rightarrow> ('z zb_globals_n_scheme \<times> bool) option" where
  "expire_disc [] g = Some (g, True)"
| "expire_disc (i # is) g =
     (let e = nib_route_disc_table (nib (nwk g)) ! i
      in if \<not> rd_used e then expire_disc is g
         else if rd_expiration_time e \<noteq> 0 then
           expire_disc is (upd_nib (upd_disc i (\<lambda>e. e\<lparr>rd_expiration_time := rd_expiration_time e - 1\<rparr>)) g)
         else
           (case expired_route (nib (nwk g)) of
              None \<Rightarrow> expire_disc is (upd_nib (put_disc i) g)
            | Some r \<Rightarrow> do {
                let g1 = upd_nib (put_disc i) g;
                let g2 = g1\<lparr>nwk := (nwk g1)\<lparr>nwk_handle := (nwk_handle (nwk g1))\<lparr>hd_status_ind_addr :=
                    rt_dest_addr (nib_routing_table (nib (nwk g1)) ! r)\<rparr>\<rparr>\<rparr>;
                (g3, _) \<leftarrow> zb_get_out_buf_delayed Cb_nwk_route_disc_failed g2;
                Some (upd_nib (put_route r) g3, False) }))"

definition zb_nwk_mesh_expiry_route_disc :: "'z zb_globals_n_scheme \<Rightarrow> 'z zb_globals_n_scheme option" where
  "zb_nwk_mesh_expiry_route_disc g =
     (if nib_route_disc_table_cnt (nib (nwk g)) \<noteq> 0 then do {
        (g1, all) \<leftarrow> expire_disc [0..<ZB_NWK_ROUTE_DISCOVERY_TABLE_SIZE] g;
        if all then schedule_expiry_route_disc g1 else Some g1 }
      else schedule_expiry_route_disc g)"

fun expire_pending :: "nat list \<Rightarrow> 'z zb_globals_n_scheme \<Rightarrow> 'z zb_globals_n_scheme option" where
  "expire_pending [] g = Some g"
| "expire_pending (i # is) g =
     (let e = nib_pending_table (nib (nwk g)) ! i
      in if \<not> pe_used e then expire_pending is g
         else if pe_expiry e = 0 then do {
           g1 \<leftarrow> zb_free_buf (pe_buf e) g;
           expire_pending is (upd_nib (put_pend i) g1) }
         else expire_pending is (upd_nib (upd_pend i (\<lambda>e. e\<lparr>pe_expiry := pe_expiry e - 1\<rparr>)) g))"

definition zb_nwk_mesh_expiry_pending :: "'z zb_globals_n_scheme \<Rightarrow> 'z zb_globals_n_scheme option" where
  "zb_nwk_mesh_expiry_pending g = do {
     g1 \<leftarrow> (if nib_pending_table_cnt (nib (nwk g)) \<noteq> 0
       then expire_pending [0..<ZB_NWK_PENDING_TABLE_SIZE] g else Some g);
     schedule_expiry_pending g1 }"

section \<open>Packets that wait for a route\<close>

definition zb_nwk_mesh_find_route :: "zb_uint16_t \<Rightarrow> zb_nib \<Rightarrow> nat option" where
  "zb_nwk_mesh_find_route dest_addr N = find_route (\<lambda>e. rt_dest_addr e = dest_addr) N"

definition zb_nwk_mesh_find_route_discovery_entry :: "zb_uint16_t \<Rightarrow> zb_nib \<Rightarrow> nat option" where
  "zb_nwk_mesh_find_route_discovery_entry dest_addr N = find_disc (\<lambda>e. rd_dest_addr e = dest_addr) N"

definition zb_nwk_mesh_add_buf_to_pending :: "nat \<Rightarrow> zb_uint8_t \<Rightarrow> 'z zb_globals_n_scheme
    \<Rightarrow> ('z zb_globals_n_scheme \<times> zb_ret_t) option" where
  "zb_nwk_mesh_add_buf_to_pending b handle g =
     (case get_pend (nib (nwk g)) of
        None \<Rightarrow> Some (g, RET_NO_MEMORY)
      | Some (i, N) \<Rightarrow> do {
          p \<leftarrow> get_buf b g;
          dst \<leftarrow> rd16 (b_buf p) (ZB_BUF_BEGIN p + 2);
          Some (upd_nib (\<lambda>_. upd_pend i (\<lambda>e. e\<lparr>pe_buf := b, pe_handle := handle, pe_dest_addr := dst,
            pe_expiry := ZB_NWK_PENDING_ENTRY_EXPIRY, pe_waiting_buf := True\<rparr>) N) g, RET_OK) })"

section \<open>The next hop\<close>

definition RET_BUSY :: zb_ret_t where "RET_BUSY = ERROR_CODE 0 4"

text \<open>A packet that has to wait for the discovery of its route; \<open>start\<close>: whether a discovery is to be started.\<close>

definition wait_for_route :: "nat \<Rightarrow> zb_uint8_t \<Rightarrow> zb_uint16_t \<Rightarrow> (zb_nib \<Rightarrow> bool) \<Rightarrow> 'z zb_globals_s_scheme
    \<Rightarrow> ('z zb_globals_s_scheme \<times> zb_ret_t \<times> zb_uint16_t \<times> bool \<times> zb_uint8_t option) option" where
  "wait_for_route nsdu handle dst start g = do {
     (g1, ret) \<leftarrow> zb_nwk_mesh_add_buf_to_pending nsdu handle g;
     if ret = RET_OK then do {
       g2 \<leftarrow> (if start (nib (nwk g1)) then zb_nwk_mesh_route_discovery None dst 0 g1 else Some g1);
       Some (g2, RET_BUSY, dst, False, None) }
     else Some (g1, ret, dst, False, Some ZB_NWK_COMMAND_STATUS_NO_ROUTE_AVAILABLE) }"

text \<open>The neighbor entry of the destination, by its long address when the header holds one.\<close>

definition dest_neighbor :: "zb_uint8_t list \<Rightarrow> nat \<Rightarrow> zb_uint16_t \<Rightarrow> 'z zb_globals_n_scheme
    \<Rightarrow> ('z zb_globals_n_scheme \<times> nat option) option" where
  "dest_neighbor p nw dst g = do {
     f0 \<leftarrow> rd8 p nw;
     f1 \<leftarrow> rd8 p (nw + 1);
     (A, r, ref) \<leftarrow> (if ZB_NWK_FRAMECTL_GET_DESTINATION_IEEE (f0, f1) = 0
       then zb_address_by_short dst False False (addr g)
       else do { a \<leftarrow> rdn 8 p (nw + 8); zb_address_by_ieee a False False (addr g) });
     let g1 = g\<lparr>addr := A\<rparr>;
     if r = RET_OK then do {
       x \<leftarrow> ref;
       (g2, r2, n) \<leftarrow> zb_nwk_neighbor_get x False g1;
       Some (g2, if r2 = RET_OK then n else None) }
     else Some (g1, None) }"

text \<open>
  The result: the return code, the MAC destination, whether to send indirectly, and the status of the network
  layer where the code sets one. The branches of the mesh, then of the tree, for a destination that is
  not a neighbor; \<open>disc\<close> is the discover route field of the header.
\<close>

definition route_destination :: "nat \<Rightarrow> zb_uint8_t \<Rightarrow> zb_uint16_t \<Rightarrow> bool \<Rightarrow> 'z zb_globals_s_scheme
    \<Rightarrow> ('z zb_globals_s_scheme \<times> zb_ret_t \<times> zb_uint16_t \<times> bool \<times> zb_uint8_t option) option" where
  "route_destination nsdu handle dst disc g =
     (let N = nib (nwk g); route = (if disc then zb_nwk_mesh_find_route dst N else None);
          status = map_option (\<lambda>i. rt_status (nib_routing_table N ! i)) route
      in if disc \<and> (status = Some ZB_NWK_ROUTE_STATE_ACTIVE \<or> status = Some ZB_NWK_ROUTE_STATE_VALIDATION_UNDERWAY) then
           Some (upd_nib (upd_route (the route) (\<lambda>e. e\<lparr>rt_status := ZB_NWK_ROUTE_STATE_ACTIVE\<rparr>)) g, RET_OK,
             rt_next_hop_addr (nib_routing_table N ! the route), False, None)
         else if disc \<and> status = Some ZB_NWK_ROUTE_STATE_DISCOVERY_UNDERWAY then
           wait_for_route nsdu handle dst (\<lambda>M. case zb_nwk_mesh_find_route_discovery_entry dst M of None \<Rightarrow> True
             | Some d \<Rightarrow> rd_source_addr (nib_route_disc_table M ! d) \<noteq> mac_short_address (pib g)) g
         else if disc \<and> route = None then wait_for_route nsdu handle dst (\<lambda>_. True) g
         else if disc \<and> nib_use_tree_routing N then do {
           (g1, n) \<leftarrow> zb_nwk_tree_routing_route dst g;
           case n of
             Some n \<Rightarrow> do {
               e \<leftarrow> nb_get (neighbor (nwk g1)) n;
               a \<leftarrow> zb_address_short_by_ref (ne_addr_ref e) (addr g1);
               Some (g1, RET_OK, a, False, None) }
           | None \<Rightarrow> Some (g1, RET_ERROR, dst, False, Some ZB_NWK_COMMAND_STATUS_TREE_LINK_FAILURE) }
         else Some (g, RET_ERROR, dst, False, Some ZB_NWK_COMMAND_STATUS_NO_ROUTING_CAPACITY))"

definition nwk_calc_destination :: "nat \<Rightarrow> zb_uint8_t \<Rightarrow> 'z zb_globals_s_scheme
    \<Rightarrow> ('z zb_globals_s_scheme \<times> zb_ret_t \<times> zb_uint16_t \<times> bool \<times> zb_uint8_t option) option" where
  "nwk_calc_destination nsdu handle g = do {
     p \<leftarrow> get_buf nsdu g;
     let nw = ZB_BUF_BEGIN p;
     dst \<leftarrow> rd16 (b_buf p) (nw + 2);
     if nib_device_type (nib (nwk g)) = ucast ZB_NWK_DEVICE_TYPE_ED then
       if hd_state (nwk_handle (nwk g)) \<noteq> ZB_NLME_STATE_REJOIN then do {
         a \<leftarrow> zb_address_short_by_ref (hd_parent (nwk_handle (nwk g))) (addr g);
         Some (g, RET_OK, a, False, None) }
       else Some (g, RET_OK, dst, False, None)
     else if ZB_NWK_IS_ADDRESS_BROADCAST dst then Some (g, RET_OK, ZB_NWK_BROADCAST_ALL_DEVICES, False, None)
     else do {
       (g1, n) \<leftarrow> dest_neighbor (b_buf p) nw dst g;
       case n of
         Some n \<Rightarrow> do {
           e \<leftarrow> nb_get (neighbor (nwk g1)) n;
           Some (g1, RET_OK, dst, \<not> ne_rx_on_when_idle e, None) }
       | None \<Rightarrow> do {
           f0 \<leftarrow> rd8 (b_buf p) nw;
           f1 \<leftarrow> rd8 (b_buf p) (nw + 1);
           route_destination nsdu handle dst (ZB_NWK_FRAMECTL_GET_DISCOVER_ROUTE (f0, f1) \<noteq> 0) g1 } } }"

end
