(* ===== verification/Zb_Nwk_Main.thy ===== *)
theory Zb_Nwk_Main
  imports Zb_Nwk_Mesh
begin

text \<open>
  The way of a packet through the network layer: \<^verbatim>\<open>nwk/nwk_main.c\<close>, from the request of the layer above
  (\<^verbatim>\<open>zb_nlde_data_request\<close>) or the indication of the MAC (\<^verbatim>\<open>zb_mcps_data_indication\<close>) to the MAC's request, the
  retransmission of broadcasts, and the confirms. The tables of \<^verbatim>\<open>zb_nwk_handle_t\<close> that only this file uses are a
  record of their own, beside the global context. The handlers of the leave, rejoin, report and update
  commands, which are in other files, are arguments.
\<close>

section \<open>Tables\<close>

definition ZB_NWK_BTR_TABLE_SIZE :: nat where "ZB_NWK_BTR_TABLE_SIZE = 16"

definition ZB_NWK_BRR_TABLE_SIZE :: nat where "ZB_NWK_BRR_TABLE_SIZE = 8"

definition ZB_NWK_WAIT_ALLOC_TABLE_SIZE :: nat where "ZB_NWK_WAIT_ALLOC_TABLE_SIZE = 5"

text \<open>
  The size in bytes of the bit vector of acknowledgements; the conditional operator binds weaker than the sum
  to its left.
\<close>

definition ZB_NWK_BRCST_PASSIVE_ACK_ARRAY_SIZE :: nat where
  "ZB_NWK_BRCST_PASSIVE_ACK_ARRAY_SIZE = (if ZB_NEIGHBOR_TABLE_SIZE div 8 + ZB_NEIGHBOR_TABLE_SIZE mod 8 \<noteq> 0 then 1 else 0)"

definition ZB_NWK_BROADCAST_DELIVERY_TIME :: "7 word" where "ZB_NWK_BROADCAST_DELIVERY_TIME = 9"

definition ZB_NWK_MAX_BROADCAST_RETRIES :: "6 word" where "ZB_NWK_MAX_BROADCAST_RETRIES = 2"

definition ZB_NWK_RREQ_RETRY_INTERVAL :: zb_time_t where
  "ZB_NWK_RREQ_RETRY_INTERVAL = of_nat (ZB_MILLISECONDS_TO_BEACON_INTERVAL 0xFE)"

definition ZB_NWK_MAX_BROADCAST_JITTER_INTERVAL :: zb_time_t where
  "ZB_NWK_MAX_BROADCAST_JITTER_INTERVAL = of_nat (ZB_MILLISECONDS_TO_BEACON_INTERVAL 0x40)"

definition ZB_NWK_BROADCAST_LOW_POWER_ROUTER :: zb_uint16_t where "ZB_NWK_BROADCAST_LOW_POWER_ROUTER = 0xFFFB"

record zb_nwk_btr =
  bt_used :: bool
  bt_expiration_time :: "7 word"
  bt_source_addr :: zb_uint16_t
  bt_sequence_number :: zb_uint8_t

datatype zb_nwk_wait_reason = ZB_NWK_WAIT_REASON_IND_AND_RETRANSMIT | ZB_NWK_WAIT_NUM

record zb_nwk_buf_alloc_wait =
  wa_used :: bool
  wa_wait :: zb_nwk_wait_reason
  wa_buf :: nat

text \<open>\<open>NO_CHILD\<close> is the \<^verbatim>\<open>~0\<close> of an iterator that has passed the last child.\<close>

definition NO_CHILD :: nat where "NO_CHILD = 2 ^ 32 - 1"

record zb_nwk_broadcast_retransmit =
  br_used :: bool
  br_wait_conf :: bool
  br_retries :: "6 word"
  br_buf :: nat
  br_neighbor_table_iterator :: nat
  br_next_retransmit :: zb_time_t
  br_src_addr :: zb_uint16_t
  br_dst_addr :: zb_uint16_t
  br_seq_num :: zb_uint8_t
  br_passive_ack :: "zb_uint8_t list"

record zb_nwk_bcast =
  btt :: "zb_nwk_btr list"
  btt_cnt :: nat
  brrt :: "zb_nwk_broadcast_retransmit list"
  brrt_cnt :: nat
  wait_alloc :: "zb_nwk_buf_alloc_wait list"
  wait_alloc_cnt :: nat
  joined_pro :: bool
  mac_rx_on_when_idle :: bool
  status_ind :: zb_uint8_t
  status_addr :: zb_uint16_t

type_synonym 'z nwk_st = "'z zb_globals_s_scheme \<times> zb_nwk_bcast"

text \<open>A handler that does not touch the tables, on the whole state.\<close>

definition on_g :: "('z zb_globals_s_scheme \<Rightarrow> 'z zb_globals_s_scheme option) \<Rightarrow> 'z nwk_st \<Rightarrow> 'z nwk_st option" where
  "on_g f s = map_option (\<lambda>g. (g, snd s)) (f (fst s))"

section \<open>Broadcast transactions\<close>

definition find_btr :: "zb_uint16_t \<Rightarrow> zb_uint8_t \<Rightarrow> zb_nwk_bcast \<Rightarrow> nat option" where
  "find_btr src seq t =
     NWK_ARRAY_FIND_ENT bt_used (\<lambda>e. bt_source_addr e = src \<and> bt_sequence_number e = seq) (btt t)"

definition add_btr :: "zb_uint16_t \<Rightarrow> zb_uint8_t \<Rightarrow> zb_nwk_bcast \<Rightarrow> zb_nwk_bcast option" where
  "add_btr src seq t = map_option (\<lambda>(i, xs, c). t\<lparr>btt := xs[i := (xs ! i)\<lparr>bt_source_addr := src,
         bt_sequence_number := seq, bt_expiration_time := ZB_NWK_BROADCAST_DELIVERY_TIME\<rparr>], btt_cnt := c\<rparr>)
     (NWK_ARRAY_GET_ENT bt_used (\<lambda>e. e\<lparr>bt_used := True\<rparr>) (btt t) (btt_cnt t))"

definition schedule_btr_expiry :: "'z zb_globals_scheme \<Rightarrow> 'z zb_globals_scheme option" where
  "schedule_btr_expiry g = map_option fst (zb_schedule_alarm Cb_zb_nwk_btr_expiry 0 (of_nat ZB_TIME_ONE_SECOND) g)"

definition ZB_NWK_START_BTR_EXPIRY :: "nat \<Rightarrow> 'z zb_globals_scheme \<Rightarrow> 'z zb_globals_scheme option" where
  "ZB_NWK_START_BTR_EXPIRY cnt g =
     (if cnt = 1 then do {
        (g1, _) \<leftarrow> zb_schedule_alarm_cancel Cb_zb_nwk_btr_expiry ZB_ALARM_ANY_PARAM g;
        schedule_btr_expiry g1 }
      else Some g)"

text \<open>A broadcast that was seen before, one that has been recorded now, and one without room for a record.\<close>

datatype btr_result = Btr_known | Btr_new | Btr_full

definition note_btr :: "zb_uint16_t \<Rightarrow> zb_uint8_t \<Rightarrow> 'z nwk_st \<Rightarrow> (btr_result \<times> 'z nwk_st) option" where
  "note_btr src seq s =
     (case find_btr src seq (snd s) of
        Some _ \<Rightarrow> Some (Btr_known, s)
      | None \<Rightarrow>
          (case add_btr src seq (snd s) of
             None \<Rightarrow> Some (Btr_full, s)
           | Some t \<Rightarrow> do {
               g \<leftarrow> ZB_NWK_START_BTR_EXPIRY (btt_cnt t) (fst s);
               Some (Btr_new, g, t) }))"

text \<open>The loop over the table: an entry gets older, or is freed.\<close>

definition expire_btr :: "nat \<Rightarrow> zb_nwk_bcast \<Rightarrow> zb_nwk_bcast" where
  "expire_btr i t =
     (let e = btt t ! i
      in if \<not> bt_used e then t
         else if bt_expiration_time e \<noteq> 0 then
           t\<lparr>btt := (btt t)[i := e\<lparr>bt_expiration_time := bt_expiration_time e - 1\<rparr>]\<rparr>
         else (case NWK_ARRAY_PUT_ENT (\<lambda>e. e\<lparr>bt_used := False\<rparr>) i (btt t) (btt_cnt t) of
           (xs, c) \<Rightarrow> t\<lparr>btt := xs, btt_cnt := c\<rparr>))"

definition expire_btt :: "zb_nwk_bcast \<Rightarrow> zb_nwk_bcast" where
  "expire_btt t = fold expire_btr [0..<ZB_NWK_BTR_TABLE_SIZE] t"

definition zb_nwk_btr_expiry :: "'z nwk_st \<Rightarrow> 'z nwk_st option" where
  "zb_nwk_btr_expiry s =
     (if btt_cnt (snd s) \<noteq> 0 then do {
        g \<leftarrow> schedule_btr_expiry (fst s);
        Some (g, expire_btt (snd s)) }
      else Some s)"

section \<open>The request of the layer above\<close>

definition NWK_CONFIRM_STATUS :: "nat \<Rightarrow> zb_uint16_t \<Rightarrow> zb_callback \<Rightarrow> 'z zb_globals_b_scheme \<Rightarrow> 'z zb_globals_b_scheme option" where
  "NWK_CONFIRM_STATUS b st func g = do {
     buf \<leftarrow> get_buf b g;
     schedule_buf func b (put_buf b (buf\<lparr>b_status := st\<rparr>) g) }"

definition ZB_ADDR_16BIT_MULTICAST :: zb_uint8_t where "ZB_ADDR_16BIT_MULTICAST = 1"

definition zb_nlde_data_request :: "nat \<Rightarrow> 'z zb_globals_s_scheme \<Rightarrow> 'z zb_globals_s_scheme option" where
  "zb_nlde_data_request b g =
     (case buf_param g b of
        Nlde_data_req req \<Rightarrow>
          if \<not> hd_joined (nwk_handle (nwk g)) then
            NWK_CONFIRM_STATUS b ZB_NWK_STATUS_INVALID_REQUEST Cb_zb_nlde_data_confirm g
          else do {
            buf \<leftarrow> get_buf b g;
            (b1, N, p) \<leftarrow> nwk_alloc_and_fill_hdr buf (ndr_dst_addr req) None None
              (ndr_addr_mode req = ZB_ADDR_16BIT_MULTICAST) (ndr_security_enable req \<noteq> 0 \<and> frame_secure g) False
              (mac_short_address (pib g)) (nib (nwk g));
            m1 \<leftarrow> blit (b_buf b1) (p + 6)
              [if ndr_radius req \<noteq> 0 then ndr_radius req else nib_max_depth N * 2];
            f0 \<leftarrow> rd8 m1 p;
            f1 \<leftarrow> rd8 m1 (p + 1);
            let f = (if ndr_discovery_route req \<noteq> 0 then ZB_NWK_FRAMECTL_SET_DISCOVER_ROUTE 1 (f0, f1) else (f0, f1));
            m2 \<leftarrow> blit m1 p [fst f, snd f];
            forward_buf b (ndr_ndsu_handle req) (put_buf b (b1\<lparr>b_buf := m2\<rparr>) (upd_nib (\<lambda>_. N) g)) }
      | _ \<Rightarrow> None)"

section \<open>Forwarding\<close>

definition MAC_TX_OPTION_ACKNOWLEDGED_BIT :: zb_uint8_t where "MAC_TX_OPTION_ACKNOWLEDGED_BIT = 1"

definition MAC_TX_OPTION_INDIRECT_TRANSMISSION_BIT :: zb_uint8_t where "MAC_TX_OPTION_INDIRECT_TRANSMISSION_BIT = 4"

text \<open>The request to the MAC; its last byte is the handle that was set for \<^verbatim>\<open>zb_nwk_forward\<close>.\<close>

definition ZB_MCPS_BUILD_DATA_REQUEST :: "nat \<Rightarrow> zb_uint16_t \<Rightarrow> zb_uint16_t \<Rightarrow> zb_uint8_t \<Rightarrow> zb_uint8_t
    \<Rightarrow> 'z zb_globals_s_scheme \<Rightarrow> 'z zb_globals_s_scheme" where
  "ZB_MCPS_BUILD_DATA_REQUEST b src dst tx_options handle g =
     put_param b (Mcps_data_req \<lparr>mdr_src_addr = src, mdr_dst_addr = dst, mdr_tx_options = tx_options,
       mdr_msdu_handle = handle, mdr_tail = handle\<rparr>) g"

text \<open>The fields of the header at the start of a buffer.\<close>

definition hdr_dst :: "nat \<Rightarrow> 'z zb_globals_b_scheme \<Rightarrow> zb_uint16_t option" where
  "hdr_dst b g = do { p \<leftarrow> get_buf b g; rd16 (b_buf p) (ZB_BUF_BEGIN p + 2) }"

definition hdr_src :: "nat \<Rightarrow> 'z zb_globals_b_scheme \<Rightarrow> zb_uint16_t option" where
  "hdr_src b g = do { p \<leftarrow> get_buf b g; rd16 (b_buf p) (ZB_BUF_BEGIN p + 4) }"

definition hdr_radius :: "nat \<Rightarrow> 'z zb_globals_b_scheme \<Rightarrow> zb_uint8_t option" where
  "hdr_radius b g = do { p \<leftarrow> get_buf b g; rd8 (b_buf p) (ZB_BUF_BEGIN p + 6) }"

definition hdr_seq :: "nat \<Rightarrow> 'z zb_globals_b_scheme \<Rightarrow> zb_uint8_t option" where
  "hdr_seq b g = do { p \<leftarrow> get_buf b g; rd8 (b_buf p) (ZB_BUF_BEGIN p + 7) }"

definition hdr_control :: "nat \<Rightarrow> 'z zb_globals_b_scheme \<Rightarrow> zb_fctl option" where
  "hdr_control b g = do {
     p \<leftarrow> get_buf b g;
     f0 \<leftarrow> rd8 (b_buf p) (ZB_BUF_BEGIN p);
     f1 \<leftarrow> rd8 (b_buf p) (ZB_BUF_BEGIN p + 1);
     Some (f0, f1) }"

definition find_brr :: "(zb_nwk_broadcast_retransmit \<Rightarrow> bool) \<Rightarrow> zb_nwk_bcast \<Rightarrow> nat option" where
  "find_brr P t = NWK_ARRAY_FIND_ENT br_used P (brrt t)"

definition upd_brr :: "nat \<Rightarrow> (zb_nwk_broadcast_retransmit \<Rightarrow> zb_nwk_broadcast_retransmit) \<Rightarrow> zb_nwk_bcast \<Rightarrow> zb_nwk_bcast" where
  "upd_brr i f t = t\<lparr>brrt := (brrt t)[i := f (brrt t ! i)]\<rparr>"

definition put_brr :: "nat \<Rightarrow> zb_nwk_bcast \<Rightarrow> zb_nwk_bcast" where
  "put_brr i t = (case NWK_ARRAY_PUT_ENT (\<lambda>e. e\<lparr>br_used := False\<rparr>) i (brrt t) (brrt_cnt t)
     of (xs, c) \<Rightarrow> t\<lparr>brrt := xs, brrt_cnt := c\<rparr>)"

text \<open>The entry for the retransmission of a broadcast; \<open>n\<close> is the first child to send it to.\<close>

definition add_brr :: "nat \<Rightarrow> zb_uint16_t \<Rightarrow> zb_uint16_t \<Rightarrow> zb_uint8_t \<Rightarrow> nat \<Rightarrow> zb_nwk_bcast \<Rightarrow> zb_nwk_bcast option" where
  "add_brr b src dst seq n t =
     map_option (\<lambda>(i, xs, c). t\<lparr>brrt := xs[i := (xs ! i)\<lparr>br_buf := b, br_retries := 0, br_src_addr := src,
         br_dst_addr := dst, br_seq_num := seq, br_neighbor_table_iterator := n,
         br_passive_ack := replicate ZB_NWK_BRCST_PASSIVE_ACK_ARRAY_SIZE 0\<rparr>], brrt_cnt := c\<rparr>)
       (NWK_ARRAY_GET_ENT br_used (\<lambda>e. e\<lparr>br_used := True\<rparr>) (brrt t) (brrt_cnt t))"

text \<open>The end of \<^verbatim>\<open>zb_nwk_forward\<close> for a packet that cannot be sent: a child's is reported.\<close>

definition forward_failed :: "nat \<Rightarrow> zb_uint16_t \<Rightarrow> zb_uint8_t \<Rightarrow> 'z zb_globals_s_scheme \<Rightarrow> 'z zb_globals_s_scheme option" where
  "forward_failed b mac_dst cmd_status g = do {
     (g1, r, n) \<leftarrow> zb_nwk_neighbor_get_by_short mac_dst g;
     child \<leftarrow> (if r = RET_OK then do { n \<leftarrow> n; e \<leftarrow> nb_get (neighbor (nwk g1)) n; Some (is_child e) } else Some False);
     if child then
       schedule_buf Cb_zb_nlme_status_indication b
         (put_param b (Status_ind \<lparr>si_status = cmd_status, si_network_addr = mac_dst\<rparr>) g1)
     else zb_free_buf b g1 }"

text \<open>The start of the retransmission of a broadcast, if there is room for an entry.\<close>

definition start_brr :: "nat \<Rightarrow> zb_uint16_t \<Rightarrow> 'z nwk_st \<Rightarrow> ('z nwk_st \<times> bool) option" where
  "start_brr b dst s =
     (if brrt_cnt (snd s) < ZB_NWK_BRR_TABLE_SIZE then do {
        src \<leftarrow> hdr_src b (fst s);
        seq \<leftarrow> hdr_seq b (fst s);
        n \<leftarrow> zb_nwk_neighbor_next_ze_children_i dst 0 (neighbor (nwk (fst s)));
        t \<leftarrow> add_brr b src dst seq n (snd s);
        (g1, _) \<leftarrow> zb_schedule_alarm_cancel Cb_nwk_broadcast_transmition 0 (fst s);
        (g2, _) \<leftarrow> zb_get_out_buf_delayed Cb_nwk_broadcast_transmition g1;
        Some ((g2, t), True) }
      else Some (s, False))"

text \<open>A packet with a known next hop; the flag tells whether it has been taken care of.\<close>

definition tx_options :: "bool \<Rightarrow> zb_uint16_t \<Rightarrow> zb_uint8_t" where
  "tx_options indirect mac_dst = (if indirect then MAC_TX_OPTION_INDIRECT_TRANSMISSION_BIT else 0)
     OR (if mac_dst \<noteq> 0xffff then MAC_TX_OPTION_ACKNOWLEDGED_BIT else 0)"

definition note_own_broadcast :: "nat \<Rightarrow> zb_uint16_t \<Rightarrow> 'z nwk_st \<Rightarrow> (btr_result \<times> 'z nwk_st) option" where
  "note_own_broadcast b dst s =
     (if ZB_NWK_IS_ADDRESS_BROADCAST dst then do {
        src \<leftarrow> hdr_src b (fst s);
        seq \<leftarrow> hdr_seq b (fst s);
        note_btr src seq s }
      else Some (Btr_known, s))"

definition forward_found :: "nat \<Rightarrow> zb_uint8_t \<Rightarrow> zb_uint16_t \<Rightarrow> bool \<Rightarrow> 'z nwk_st \<Rightarrow> ('z nwk_st \<times> bool) option" where
  "forward_found b handle mac_dst indirect s = do {
     dst \<leftarrow> hdr_dst b (fst s);
     (res, s1) \<leftarrow> note_own_broadcast b dst s;
     if res = Btr_full then Some (s1, False)
     else do {
       let g = ZB_MCPS_BUILD_DATA_REQUEST b (mac_short_address (pib (fst s1))) mac_dst (tx_options indirect mac_dst)
         handle (fst s1);
       if ZB_NWK_IS_ADDRESS_BROADCAST dst \<and> nib_device_type (nib (nwk g)) \<noteq> ucast ZB_NWK_DEVICE_TYPE_ED
       then start_brr b dst (g, snd s1)
       else do {
         g1 \<leftarrow> schedule_buf Cb_zb_mcps_data_request b g;
         Some ((g1, snd s1), True) } } }"

definition zb_nwk_forward :: "nat \<Rightarrow> 'z nwk_st \<Rightarrow> 'z nwk_st option" where
  "zb_nwk_forward b s =
     (case buf_param (fst s) b of
        Nsdu_handle handle \<Rightarrow> do {
          (g, ret, mac_dst, indirect, st) \<leftarrow> nwk_calc_destination b handle (fst s);
          let cmd_status = (case st of Some c \<Rightarrow> c | None \<Rightarrow> ZB_NWK_COMMAND_STATUS_NO_ROUTE_AVAILABLE);
          if ret = RET_OK then do {
            (s1, ok) \<leftarrow> forward_found b handle mac_dst indirect (g, snd s);
            if ok then Some s1 else on_g (forward_failed b mac_dst cmd_status) s1 }
          else if ret \<noteq> RET_BUSY then on_g (forward_failed b mac_dst cmd_status) (g, snd s)
          else Some (g, snd s) }
      | _ \<Rightarrow> None)"

section \<open>Retransmission of broadcasts\<close>

text \<open>\<^verbatim>\<open>ZB_SET_BIT_IN_BIT_VECTOR\<close> on a vector of acknowledgements, and the number of bits set.\<close>

definition set_ack :: "nat \<Rightarrow> zb_uint8_t list \<Rightarrow> zb_uint8_t list option" where
  "set_ack n v = (if n div 8 < length v then Some (zb_set_bit_in_bit_vector v n) else None)"

definition ZB_CALC_NONE_ZERO_BITS_IN_BIT_VECTOR :: "zb_uint8_t list \<Rightarrow> zb_uint8_t" where
  "ZB_CALC_NONE_ZERO_BITS_IN_BIT_VECTOR v = fold (\<lambda>b n. n + magic_bitcount8 b) v 0"

text \<open>
  The second of the three searches of \<^verbatim>\<open>nwk_broadcast_transmition\<close>: the first broadcast with a child left to
  send it to. A child that is its originator is passed over, and the search goes on with the next broadcast.
\<close>

fun find_unicast :: "nat list \<Rightarrow> 'z zb_globals_n_scheme \<Rightarrow> zb_nwk_bcast \<Rightarrow> (zb_nwk_bcast \<times> nat option) option" where
  "find_unicast [] g t = Some (t, None)"
| "find_unicast (i # is) g t =
     (let e = brrt t ! i; n = br_neighbor_table_iterator e
      in if br_used e \<and> n \<noteq> NO_CHILD then do {
           nent \<leftarrow> nb_get (neighbor (nwk g)) n;
           a \<leftarrow> zb_address_short_by_ref (ne_addr_ref nent) (addr g);
           src \<leftarrow> hdr_src (br_buf e) g;
           if a = src then do {
             m \<leftarrow> zb_nwk_neighbor_next_ze_children_i (br_dst_addr e) (inc32 n) (neighbor (nwk g));
             find_unicast is g (upd_brr i (\<lambda>e. e\<lparr>br_neighbor_table_iterator := m\<rparr>) t) }
           else Some (t, Some i) }
         else find_unicast is g t)"

text \<open>
  The three searches: the entry, the child's place in the neighbor table when it is to be sent to a child, and the
  value of the loop variable \<^verbatim>\<open>i\<close> behind them.
\<close>

definition find_transmition :: "'z nwk_st \<Rightarrow> (zb_nwk_bcast \<times> (nat \<times> nat option \<times> nat) option) option" where
  "find_transmition s =
     (case find (\<lambda>i. br_used (brrt (snd s) ! i) \<and> br_retries (brrt (snd s) ! i) = 0) [0..<ZB_NWK_BRR_TABLE_SIZE] of
        Some i \<Rightarrow> Some (snd s, Some (i, None, 0))
      | None \<Rightarrow> do {
          (t, u) \<leftarrow> find_unicast [0..<ZB_NWK_BRR_TABLE_SIZE] (fst s) (snd s);
          Some (t, case u of
              Some i \<Rightarrow> Some (i, Some (br_neighbor_table_iterator (brrt t ! i)), 0)
            | None \<Rightarrow> map_option (\<lambda>i. (i, None, i + 1))
                (find (\<lambda>i. br_used (brrt t ! i)
                    \<and> ZB_TIME_GE (ZB_TIMER_GET (timer (fst s))) (br_next_retransmit (brrt t ! i)))
                  [0..<ZB_NWK_BRR_TABLE_SIZE])) })"

text \<open>The entry gets on: to the next child, or to the next transmission to all.\<close>

definition advance_brr :: "nat \<Rightarrow> nat option \<Rightarrow> 'z nwk_st \<Rightarrow> zb_nwk_bcast option" where
  "advance_brr i nent s =
     (let t = snd s; e = brrt t ! i
      in case nent of
           Some n \<Rightarrow> do {
             v \<leftarrow> set_ack n (br_passive_ack e);
             m \<leftarrow> zb_nwk_neighbor_next_ze_children_i (br_dst_addr e) (inc32 n) (neighbor (nwk (fst s)));
             Some (upd_brr i (\<lambda>e. e\<lparr>br_passive_ack := v, br_neighbor_table_iterator := m\<rparr>) t) }
         | None \<Rightarrow> Some (upd_brr i (\<lambda>e. e\<lparr>br_next_retransmit := ZB_TIMER_GET (timer (fst s)) + ZB_NWK_RREQ_RETRY_INTERVAL,
             br_retries := br_retries e + 1\<rparr>) t))"

text \<open>
  The last transmission of an entry. The macro that counts the acknowledgements declares its own \<^verbatim>\<open>i\<close>, so the
  number \<open>i\<close> that is compared is what the searches left in the outer one.
\<close>

definition last_transmition :: "zb_nwk_broadcast_retransmit \<Rightarrow> nat \<Rightarrow> nat \<Rightarrow> zb_uint16_t \<Rightarrow> bool" where
  "last_transmition e i dev_num own \<longleftrightarrow> br_neighbor_table_iterator e = NO_CHILD
     \<and> (br_retries e \<ge> ZB_NWK_MAX_BROADCAST_RETRIES
        \<or> i = dev_num \<and> br_src_addr e = own
        \<or> dev_num \<noteq> 0 \<and> int i = int dev_num - 1 \<and> br_src_addr e \<noteq> own)"

text \<open>A copy of the packet for a transmission that is not the last one: it is dropped when it is confirmed.\<close>

definition copy_packet :: "nat \<Rightarrow> nat \<Rightarrow> 'z zb_globals_s_scheme \<Rightarrow> 'z zb_globals_s_scheme option" where
  "copy_packet d s g = do {
     dst \<leftarrow> get_buf d g;
     src \<leftarrow> get_buf s g;
     Some (put_param d (buf_param g s) (put_buf d (ZB_BUF_COPY dst src) g)) }"

definition upd_mcps_req :: "nat \<Rightarrow> (zb_mcps_data_req_params \<Rightarrow> zb_mcps_data_req_params) \<Rightarrow> 'z zb_globals_s_scheme
    \<Rightarrow> 'z zb_globals_s_scheme option" where
  "upd_mcps_req b f g = (case buf_param g b of Mcps_data_req r \<Rightarrow> Some (put_param b (Mcps_data_req (f r)) g) | _ \<Rightarrow> None)"

definition send_brr :: "nat \<Rightarrow> nat \<Rightarrow> nat option \<Rightarrow> nat \<Rightarrow> 'z nwk_st \<Rightarrow> 'z nwk_st option" where
  "send_brr param i nent k s = do {
     t \<leftarrow> advance_brr i nent s;
     dev_num \<leftarrow> ZB_NWK_GET_PASSIVE_ACK_DEV_NUM (neighbor (nwk (fst s)));
     let e = brrt t ! i;
     let lst = last_transmition e k dev_num (mac_short_address (pib (fst s)));
     g1 \<leftarrow> (if lst then zb_free_buf param (fst s) else Some (fst s));
     let t1 = (if lst then put_brr i t else t);
     let b = (if lst then br_buf e else param);
     g2 \<leftarrow> (if b \<noteq> br_buf e then do {
         g2 \<leftarrow> copy_packet b (br_buf e) g1;
         upd_mcps_req b (\<lambda>r. r\<lparr>mdr_msdu_handle := ZB_NWK_INTERNAL_NSDU_HANDLE\<rparr>) g2 }
       else Some g1);
     g3 \<leftarrow> (case nent of
         Some n \<Rightarrow> do {
           ne \<leftarrow> nb_get (neighbor (nwk g2)) n;
           a \<leftarrow> zb_address_short_by_ref (ne_addr_ref ne) (addr g2);
           upd_mcps_req b (\<lambda>r. r\<lparr>mdr_dst_addr := a, mdr_tx_options := mdr_tx_options r
             OR (MAC_TX_OPTION_INDIRECT_TRANSMISSION_BIT OR MAC_TX_OPTION_ACKNOWLEDGED_BIT)\<rparr>) g2 }
       | None \<Rightarrow> Some g2);
     g4 \<leftarrow> schedule_buf Cb_zb_mcps_data_request b g3;
     Some (g4, t1) }"

definition next_execution :: "zb_time_t \<Rightarrow> zb_nwk_bcast \<Rightarrow> zb_time_t" where
  "next_execution now t = fold (\<lambda>i x.
       if br_used (brrt t ! i) \<and> br_retries (brrt t ! i) < ZB_NWK_MAX_BROADCAST_RETRIES
           \<and> br_next_retransmit (brrt t ! i) < x
       then br_next_retransmit (brrt t ! i) else x)
     [0..<ZB_NWK_BRR_TABLE_SIZE] (now + ZB_NWK_MAX_BROADCAST_JITTER_INTERVAL)"

text \<open>Schedule the next execution; \<open>found\<close>: whether there was something to send in this one.\<close>

definition schedule_transmition :: "bool \<Rightarrow> 'z nwk_st \<Rightarrow> 'z nwk_st option" where
  "schedule_transmition found s =
     (if brrt_cnt (snd s) = 0 then Some s
      else if found then on_g (schedule_buf Cb_nwk_broadcast_transmition 0) s
      else do {
        let now = ZB_TIMER_GET (timer (fst s));
        let nx = next_execution now (snd s);
        (g1, _) \<leftarrow> zb_schedule_alarm_cancel Cb_nwk_broadcast_transmition 0 (fst s);
        (g2, _) \<leftarrow> zb_schedule_alarm Cb_nwk_broadcast_transmition 0 (nx - now) g1;
        Some (g2, snd s) })"

definition nwk_broadcast_transmition :: "nat \<Rightarrow> 'z nwk_st \<Rightarrow> 'z nwk_st option" where
  "nwk_broadcast_transmition param s = do {
     (t, found) \<leftarrow> find_transmition s;
     case found of
       Some (i, nent, k) \<Rightarrow>
         if param = 0 then on_g (\<lambda>g. map_option fst (zb_get_out_buf_delayed Cb_nwk_broadcast_transmition g)) (fst s, t)
         else do {
           s1 \<leftarrow> send_brr param i nent k (fst s, t);
           schedule_transmition True s1 }
     | None \<Rightarrow> do {
         s1 \<leftarrow> (if param \<noteq> 0 then on_g (zb_free_buf param) (fst s, t) else Some (fst s, t));
         schedule_transmition False s1 } }"

section \<open>Confirms\<close>

text \<open>The handlers in other files, by the buffer they get.\<close>

record 'g nwk_handlers =
  h_leave :: "nat \<Rightarrow> 'g \<Rightarrow> 'g option"
  h_rejoin_request :: "nat \<Rightarrow> 'g \<Rightarrow> 'g option"
  h_rejoin_response :: "nat \<Rightarrow> 'g \<Rightarrow> 'g option"
  h_network_report :: "nat \<Rightarrow> 'g \<Rightarrow> 'g option"
  h_network_update :: "nat \<Rightarrow> 'g \<Rightarrow> 'g option"
  h_rejoin_resp_sent :: "nat \<Rightarrow> 'g \<Rightarrow> 'g option"
  h_leave_ind :: "nat \<Rightarrow> 'g \<Rightarrow> 'g option"

definition ZB_NWK_INTERNAL_REJOIN_CMD_HANDLE :: zb_uint8_t where "ZB_NWK_INTERNAL_REJOIN_CMD_HANDLE = 0xFE"

definition ZB_NWK_INTERNAL_REJOIN_CMD_RESPONSE :: zb_uint8_t where "ZB_NWK_INTERNAL_REJOIN_CMD_RESPONSE = 0xFD"

definition ZB_NWK_INTERNAL_LEAVE_IND_AT_DATA_CONFIRM_HANDLE :: zb_uint8_t where
  "ZB_NWK_INTERNAL_LEAVE_IND_AT_DATA_CONFIRM_HANDLE = 0xFC"

definition ZB_NWK_INTERNAL_LEAVE_CONFIRM_AT_DATA_CONFIRM_HANDLE :: zb_uint8_t where
  "ZB_NWK_INTERNAL_LEAVE_CONFIRM_AT_DATA_CONFIRM_HANDLE = 0xFB"

definition MAC_CHANNEL_ACCESS_FAILURE :: zb_uint8_t where "MAC_CHANNEL_ACCESS_FAILURE = 0xe1"

definition MAC_NO_ACK :: zb_uint8_t where "MAC_NO_ACK = 0xe9"

definition MAC_TRANSACTION_EXPIRED :: zb_uint8_t where "MAC_TRANSACTION_EXPIRED = 0xf0"

definition ZB_NWK_COMMAND_STATUS_INDIRECT_TRANSACTION_EXPIRY :: zb_uint8_t where
  "ZB_NWK_COMMAND_STATUS_INDIRECT_TRANSACTION_EXPIRY = 6"

definition ZB_NWK_COMMAND_STATUS_PARENT_LINK_FAILURE :: zb_uint8_t where
  "ZB_NWK_COMMAND_STATUS_PARENT_LINK_FAILURE = 9"

definition MAC_STATUS_2_NWK_COMMAND_STATUS :: "zb_uint8_t \<Rightarrow> zb_uint8_t" where
  "MAC_STATUS_2_NWK_COMMAND_STATUS s =
     (if s = MAC_NO_ACK \<or> s = MAC_CHANNEL_ACCESS_FAILURE then ZB_NWK_COMMAND_STATUS_PARENT_LINK_FAILURE
      else if s = MAC_TRANSACTION_EXPIRED then ZB_NWK_COMMAND_STATUS_INDIRECT_TRANSACTION_EXPIRY
      else s)"

definition call_status_indication :: "nat \<Rightarrow> 'z nwk_st \<Rightarrow> 'z nwk_st option" where
  "call_status_indication b s = on_g (\<lambda>g. schedule_buf Cb_zb_nlme_status_indication b
     (put_param b (Status_ind \<lparr>si_status = MAC_STATUS_2_NWK_COMMAND_STATUS (status_ind (snd s)),
       si_network_addr = status_addr (snd s)\<rparr>) g)) s"

text \<open>The handle of the confirmed packet, in the last byte of the buffer.\<close>

definition confirm_handle :: "zb_buf_param \<Rightarrow> zb_uint8_t option" where
  "confirm_handle p = (case p of Nsdu_handle h \<Rightarrow> Some h | Mcps_data_req r \<Rightarrow> Some (mdr_tail r) | _ \<Rightarrow> None)"

text \<open>
  The confirm of a leave. \<^verbatim>\<open>ZB_BUF_REUSE\<close> has cleared the status in the buffer before it is read; the address stays
  unset when it is not known.
\<close>

definition leave_confirm :: "nat \<Rightarrow> zb_uint16_t \<Rightarrow> 'z zb_globals_s_scheme \<Rightarrow> 'z zb_globals_s_scheme option" where
  "leave_confirm b dest_addr g = do {
     buf \<leftarrow> get_buf b g;
     let buf1 = zb_buf_reuse buf;
     (A, a) \<leftarrow> (if dest_addr \<noteq> 0xffff
       then map_option (\<lambda>(A, _, a). (A, a)) (zb_address_ieee_by_short dest_addr (addr g))
       else Some (addr g, Some (replicate 8 0)));
     schedule_buf Cb_zb_nlme_leave_confirm b
       (put_param b (Leave_conf \<lparr>lc_status = ucast (b_status buf1), lc_device_address = a\<rparr>)
         (put_buf b buf1 (g\<lparr>addr := A\<rparr>))) }"

definition note_status :: "zb_uint8_t \<Rightarrow> zb_uint16_t \<Rightarrow> zb_nwk_bcast \<Rightarrow> zb_nwk_bcast" where
  "note_status st a t = t\<lparr>status_ind := st, status_addr := a\<rparr>"

text \<open>\<open>timeout\<close> is \<^verbatim>\<open>ZB_NWK_REJOIN_TIMEOUT\<close>, which depends on the MAC.\<close>

definition zb_mcps_data_confirm :: "'z zb_globals_s_scheme nwk_handlers \<Rightarrow> zb_time_t \<Rightarrow> nat \<Rightarrow> 'z nwk_st \<Rightarrow> 'z nwk_st option" where
  "zb_mcps_data_confirm H timeout b s = do {
     h \<leftarrow> confirm_handle (buf_param (fst s) b);
     if h = ZB_NWK_INTERNAL_REJOIN_CMD_HANDLE \<and> hd_state (nwk_handle (nwk (fst s))) = ZB_NLME_STATE_REJOIN then do {
       (g1, _) \<leftarrow> zb_schedule_alarm_cancel Cb_zb_nlme_rejoin_response_timeout ZB_ALARM_ANY_PARAM (fst s);
       (g2, _) \<leftarrow> zb_schedule_alarm Cb_zb_nlme_rejoin_response_timeout (of_nat b) timeout g1;
       Some (g2, snd s) }
     else if h = ZB_NWK_INTERNAL_REJOIN_CMD_RESPONSE then on_g (h_rejoin_resp_sent H b) s
     else if h = ZB_NWK_INTERNAL_LEAVE_IND_AT_DATA_CONFIRM_HANDLE then on_g (h_leave_ind H b) s
     else do {
       p \<leftarrow> get_buf b (fst s);
       (mhr, _) \<leftarrow> zb_parse_mhr (b_buf p) (ZB_BUF_BEGIN p);
       let dest_addr = addr_short (mh_dst_addr mhr);
       if h = ZB_NWK_INTERNAL_LEAVE_CONFIRM_AT_DATA_CONFIRM_HANDLE then on_g (leave_confirm b dest_addr) s
       else if h = ZB_NWK_INTERNAL_NSDU_HANDLE then
         if b_status p \<noteq> ucast MAC_SUCCESS then
           call_status_indication b (fst s, note_status (ucast (b_status p)) dest_addr (snd s))
         else on_g (zb_free_buf b) s
       else do {
         g1 \<leftarrow> schedule_buf Cb_zb_nlde_data_confirm b (fst s);
         if b_status p \<noteq> ucast MAC_SUCCESS then
           on_g (\<lambda>g. map_option fst (zb_get_in_buf_delayed Cb_call_status_indication g))
             (g1, note_status (ucast (b_status p)) dest_addr (snd s))
         else Some (g1, snd s) } } }"

text \<open>The confirm of a broadcast that all neighbors have acknowledged, with a MAC header made up for it.\<close>

definition zb_nwk_call_br_confirm :: "'z zb_globals_s_scheme nwk_handlers \<Rightarrow> zb_time_t \<Rightarrow> nat \<Rightarrow> 'z nwk_st \<Rightarrow> 'z nwk_st option" where
  "zb_nwk_call_br_confirm H timeout b s = do {
     buf \<leftarrow> get_buf b (fst s);
     (b1, _) \<leftarrow> zb_buf_smart_alloc_right 2 buf;
     f1 \<leftarrow> zb_fcf_set_dst_addressing_mode ZB_ADDR_16BIT_DEV_OR_BROADCAST (0, 0);
     f2 \<leftarrow> zb_fcf_set_src_addressing_mode ZB_ADDR_16BIT_DEV_OR_BROADCAST f1;
     f3 \<leftarrow> ZB_FCF_SET_PANID_COMPRESSION_BIT 1 f2;
     let mhr = \<lparr>mh_frame_control = f3, mh_seq_number = 0, mh_dst_pan_id = 0,
       mh_dst_addr = htole16 ZB_NWK_BROADCAST_ALL_DEVICES @ replicate 6 0, mh_src_pan_id = 0,
       mh_src_addr = htole16 (mac_short_address (pib (fst s))) @ replicate 6 0\<rparr>;
     hlen \<leftarrow> zb_mac_calculate_mhr_length ZB_ADDR_16BIT_DEV_OR_BROADCAST ZB_ADDR_16BIT_DEV_OR_BROADCAST 1;
     (b2, p) \<leftarrow> zb_buf_smart_alloc_left (of_nat hlen) b1;
     m \<leftarrow> zb_mac_fill_mhr (b_buf b2) p mhr;
     zb_mcps_data_confirm H timeout b (put_buf b (b2\<lparr>b_buf := m\<rparr>) (fst s), snd s) }"

section \<open>Packets from the network\<close>

definition ZB_MAC_EXTRA_DATA_SIZE :: nat where "ZB_MAC_EXTRA_DATA_SIZE = 9"

definition ZB_TAIL_SIZE_FOR_RECEIVED_MAC_FRAME :: nat where
  "ZB_TAIL_SIZE_FOR_RECEIVED_MAC_FRAME = 2 + ZB_MAC_EXTRA_DATA_SIZE"

definition ZB_MAC_GET_LQI :: "zb_buf \<Rightarrow> zb_uint8_t option" where
  "ZB_MAC_GET_LQI p = do {
     zb_assert (ZB_MAC_EXTRA_DATA_SIZE \<le> ZB_BUF_BEGIN p + ZB_BUF_LEN p);
     rd8 (b_buf p) (ZB_BUF_BEGIN p + ZB_BUF_LEN p - ZB_MAC_EXTRA_DATA_SIZE) }"

definition ZB_MAC_CUT_HDR :: "nat \<Rightarrow> zb_buf \<Rightarrow> zb_buf option" where
  "ZB_MAC_CUT_HDR hlen p = do {
     p1 \<leftarrow> zb_buf_cut_right (of_nat ZB_TAIL_SIZE_FOR_RECEIVED_MAC_FRAME) (p\<lparr>b_mac_hdr_offset := b_data_offset p\<rparr>);
     (p2, _) \<leftarrow> zb_buf_cut_left (of_nat hlen) p1;
     Some p2 }"

text \<open>A broadcast to a group of devices that this one belongs to.\<close>

definition broadcast_supported :: "zb_uint16_t \<Rightarrow> zb_nwk_bcast \<Rightarrow> bool" where
  "broadcast_supported dst t \<longleftrightarrow> dst = ZB_NWK_BROADCAST_ALL_DEVICES
     \<or> dst = ZB_NWK_BROADCAST_RX_ON_WHEN_IDLE \<and> mac_rx_on_when_idle t
     \<or> dst = ZB_NWK_BROADCAST_ROUTER_COORDINATOR \<and> \<not> joined_pro t
     \<or> dst = ZB_NWK_BROADCAST_LOW_POWER_ROUTER \<and> \<not> joined_pro t"

text \<open>The acknowledgement by neighbor \<open>n\<close> of the broadcast of entry \<open>i\<close>; with the last one the entry is freed.\<close>

definition all_acked :: "zb_uint8_t \<Rightarrow> nat \<Rightarrow> zb_uint16_t \<Rightarrow> zb_uint16_t \<Rightarrow> bool" where
  "all_acked n dev_num src own \<longleftrightarrow> unat n = dev_num \<and> src = own \<or> int (unat n) = int dev_num - 1 \<and> src \<noteq> own"

definition note_ack :: "nat \<Rightarrow> nat \<Rightarrow> 'z nwk_st \<Rightarrow> 'z nwk_st option" where
  "note_ack i n s = do {
     v \<leftarrow> set_ack n (br_passive_ack (brrt (snd s) ! i));
     dev_num \<leftarrow> ZB_NWK_GET_PASSIVE_ACK_DEV_NUM (neighbor (nwk (fst s)));
     let t = upd_brr i (\<lambda>e. e\<lparr>br_passive_ack := v\<rparr>) (snd s);
     if all_acked (ZB_CALC_NONE_ZERO_BITS_IN_BIT_VECTOR v) dev_num (br_src_addr (brrt t ! i)) (mac_short_address (pib (fst s)))
     then do {
       g \<leftarrow> schedule_buf Cb_zb_nwk_call_br_confirm (br_buf (brrt t ! i)) (fst s);
       Some (g, put_brr i t) }
     else Some (fst s, t) }"

definition note_passive_ack :: "zb_mac_mhr \<Rightarrow> zb_uint16_t \<Rightarrow> zb_uint8_t \<Rightarrow> 'z nwk_st \<Rightarrow> 'z nwk_st option" where
  "note_passive_ack mhr src seq s =
     (if joined_pro (snd s) then Some s
      else case find_brr (\<lambda>e. br_src_addr e = src \<and> br_seq_num e = seq) (snd s) of
        None \<Rightarrow> Some s
      | Some i \<Rightarrow>
          if ZB_FCF_GET_SRC_ADDRESSING_MODE (mh_frame_control mhr) = ZB_ADDR_16BIT_DEV_OR_BROADCAST then do {
            (g, r, n) \<leftarrow> zb_nwk_neighbor_get_by_short (addr_short (mh_src_addr mhr)) (fst s);
            if r = RET_OK then do { n \<leftarrow> n; note_ack i n (g, snd s) } else Some (g, snd s) }
          else Some s)"

text \<open>What is done with a broadcast before it is decrypted; the flag tells whether to go on with it.\<close>

definition receive_broadcast :: "zb_mac_mhr \<Rightarrow> nat \<Rightarrow> zb_uint16_t \<Rightarrow> zb_uint16_t \<Rightarrow> zb_uint8_t \<Rightarrow> 'z nwk_st
    \<Rightarrow> ('z nwk_st \<times> bool) option" where
  "receive_broadcast mhr b dst src seq s =
     (if \<not> broadcast_supported dst (snd s) then do { s1 \<leftarrow> on_g (zb_free_buf b) s; Some (s1, False) }
      else do {
        s1 \<leftarrow> note_passive_ack mhr src seq s;
        (res, s2) \<leftarrow> note_btr src seq s1;
        if res = Btr_new then Some (s2, True)
        else do { s3 \<leftarrow> on_g (zb_free_buf b) s2; Some (s3, False) } })"

definition unsecure :: "nat \<Rightarrow> zb_mac_mhr \<Rightarrow> nat \<Rightarrow> zb_fctl \<Rightarrow> zb_uint8_t \<Rightarrow> 'z zb_globals_s_scheme
    \<Rightarrow> ('z zb_globals_s_scheme \<times> bool) option" where
  "unsecure b mhr mhr_size f frame_type g =
     (if ZB_NWK_FRAMECTL_GET_SECURITY f \<noteq> 0
         \<and> (frame_type = ZB_NWK_FRAME_TYPE_DATA \<or> frame_type = ZB_NWK_FRAME_TYPE_COMMAND) then do {
        (g1, ret) \<leftarrow> zb_nwk_unsecure_frame b mhr (of_nat mhr_size) g;
        if ret \<noteq> RET_OK then Some (g1, False)
        else do {
          p \<leftarrow> get_buf b g1;
          Some (put_buf b (p\<lparr>b_encrypt_type := ZB_SECUR_NWK_ENCR\<rparr>) g1, True) } }
      else Some (g, True))"

text \<open>The addresses in host order and the radius, written to the header.\<close>

definition update_hdr :: "nat \<Rightarrow> zb_uint16_t \<Rightarrow> zb_uint16_t \<Rightarrow> 'z zb_globals_b_scheme \<Rightarrow> 'z zb_globals_b_scheme option" where
  "update_hdr b dst src g = do {
     p \<leftarrow> get_buf b g;
     m1 \<leftarrow> blit (b_buf p) (ZB_BUF_BEGIN p + 2) (htole16 dst @ htole16 src);
     r \<leftarrow> rd8 m1 (ZB_BUF_BEGIN p + 6);
     m2 \<leftarrow> blit m1 (ZB_BUF_BEGIN p + 6) [r - 1];
     Some (put_buf b (p\<lparr>b_buf := m2\<rparr>) g) }"

definition ZB_NWK_CMD_NETWORK_STATUS :: zb_uint8_t where "ZB_NWK_CMD_NETWORK_STATUS = 3"

definition ZB_NWK_CMD_LEAVE :: zb_uint8_t where "ZB_NWK_CMD_LEAVE = 4"

definition ZB_NWK_CMD_REJOIN_REQUEST :: zb_uint8_t where "ZB_NWK_CMD_REJOIN_REQUEST = 6"

definition ZB_NWK_CMD_REJOIN_RESPONSE :: zb_uint8_t where "ZB_NWK_CMD_REJOIN_RESPONSE = 7"

definition ZB_NWK_CMD_NETWORK_REPORT :: zb_uint8_t where "ZB_NWK_CMD_NETWORK_REPORT = 9"

definition ZB_NWK_CMD_NETWORK_UPDATE :: zb_uint8_t where "ZB_NWK_CMD_NETWORK_UPDATE = 10"

definition ZB_NWK_CMD_FRAME_GET_CMD_ID :: "nat \<Rightarrow> nat \<Rightarrow> 'z zb_globals_b_scheme \<Rightarrow> zb_uint8_t option" where
  "ZB_NWK_CMD_FRAME_GET_CMD_ID b hdr_size g = do {
     p \<leftarrow> get_buf b g;
     rd8 (b_buf p) (ZB_BUF_BEGIN p + hdr_size) }"

text \<open>Whether to pass a frame up, and whether to send it on.\<close>

definition is_router :: "'z zb_globals_n_scheme \<Rightarrow> bool" where
  "is_router g \<longleftrightarrow> nib_device_type (nib (nwk g)) = ucast ZB_NWK_DEVICE_TYPE_COORDINATOR
     \<or> nib_device_type (nib (nwk g)) = ucast ZB_NWK_DEVICE_TYPE_ROUTER"

definition frame_decision :: "nat \<Rightarrow> nat \<Rightarrow> zb_uint8_t \<Rightarrow> zb_uint16_t \<Rightarrow> 'z zb_globals_s_scheme \<Rightarrow> (bool \<times> bool) option" where
  "frame_decision b hdr_size frame_type dst g =
     (if is_router g then
        if ZB_NWK_IS_ADDRESS_BROADCAST dst then do {
          command_id \<leftarrow> ZB_NWK_CMD_FRAME_GET_CMD_ID b hdr_size g;
          radius \<leftarrow> hdr_radius b g;
          Some (True, radius \<noteq> 0 \<and> (frame_type = ZB_NWK_FRAME_TYPE_DATA
            \<or> frame_type = ZB_NWK_FRAME_TYPE_COMMAND \<and> command_id \<in> {ZB_NWK_CMD_NETWORK_REPORT,
                ZB_NWK_CMD_NETWORK_STATUS, ZB_NWK_CMD_NETWORK_UPDATE})) }
        else if dst = mac_short_address (pib g) then Some (True, False)
        else do { radius \<leftarrow> hdr_radius b g; Some (False, radius \<noteq> 0) }
      else Some (dst = mac_short_address (pib g) \<or> ZB_NWK_IS_ADDRESS_BROADCAST dst, False))"

text \<open>In the simulator build the link quality is made up from the source address.\<close>

definition test_lqi :: "zb_uint16_t \<Rightarrow> zb_uint8_t" where
  "test_lqi src = (if unat src * 10 > 255 then 255 else of_nat (unat src * 10))"

definition update_lqi :: "zb_uint16_t \<Rightarrow> 'z zb_globals_s_scheme \<Rightarrow> 'z zb_globals_s_scheme option" where
  "update_lqi src g = do {
     (g1, r, n) \<leftarrow> zb_nwk_neighbor_get_by_short src g;
     if r = RET_OK then do { n \<leftarrow> n; upd_neighbor n (\<lambda>e. e\<lparr>ne_lqi := test_lqi src\<rparr>) g1 } else Some g1 }"

definition add_wait_alloc :: "nat \<Rightarrow> zb_nwk_bcast \<Rightarrow> zb_nwk_bcast option" where
  "add_wait_alloc b t = map_option (\<lambda>(i, xs, c). t\<lparr>wait_alloc := xs[i := (xs ! i)\<lparr>wa_buf := b,
         wa_wait := ZB_NWK_WAIT_REASON_IND_AND_RETRANSMIT\<rparr>], wait_alloc_cnt := c\<rparr>)
     (NWK_ARRAY_GET_ENT wa_used (\<lambda>e. e\<lparr>wa_used := True\<rparr>) (wait_alloc t) (wait_alloc_cnt t))"

definition deliver_frame :: "nat \<Rightarrow> bool \<Rightarrow> bool \<Rightarrow> 'z nwk_st \<Rightarrow> 'z nwk_st option" where
  "deliver_frame b indicate retransmit s =
     (if retransmit \<and> indicate then
        (case add_wait_alloc b (snd s) of
           Some t \<Rightarrow> on_g (\<lambda>g. map_option fst (zb_get_in_buf_delayed Cb_new_buffer_allocated g)) (fst s, t)
         | None \<Rightarrow> on_g (schedule_buf Cb_nwk_frame_indication b) s)
      else if retransmit then on_g (forward_buf b ZB_NWK_INTERNAL_NSDU_HANDLE) s
      else if indicate then on_g (schedule_buf Cb_nwk_frame_indication b) s
      else on_g (zb_free_buf b) s)"

text \<open>The frame behind its MAC header: decryption, then what is to be done with it.\<close>

definition receive_frame :: "zb_mac_mhr \<Rightarrow> nat \<Rightarrow> nat \<Rightarrow> zb_fctl \<Rightarrow> zb_uint16_t \<Rightarrow> zb_uint16_t \<Rightarrow> 'z nwk_st \<Rightarrow> 'z nwk_st option" where
  "receive_frame mhr mhr_size b f dst src s = do {
     (g1, ok) \<leftarrow> unsecure b mhr mhr_size f (ZB_NWK_FRAMECTL_GET_FRAME_TYPE f) (fst s);
     if \<not> ok then Some (g1, snd s)
     else do {
       g2 \<leftarrow> update_hdr b dst src g1;
       (indicate, retransmit) \<leftarrow> frame_decision b (zb_nwk_hdr_size f) (ZB_NWK_FRAMECTL_GET_FRAME_TYPE f) dst g2;
       g3 \<leftarrow> update_lqi src g2;
       deliver_frame b indicate retransmit (g3, snd s) } }"

text \<open>The MAC header is parsed and, with the trailer, cut off.\<close>

definition cut_mac :: "nat \<Rightarrow> 'z zb_globals_b_scheme \<Rightarrow> (zb_mac_mhr \<times> nat \<times> 'z zb_globals_b_scheme) option" where
  "cut_mac b g = do {
     p \<leftarrow> get_buf b g;
     _ \<leftarrow> ZB_MAC_GET_LQI p;
     (mhr, mhr_size) \<leftarrow> zb_parse_mhr (b_buf p) (ZB_BUF_BEGIN p);
     p1 \<leftarrow> ZB_MAC_CUT_HDR mhr_size p;
     Some (mhr, mhr_size, put_buf b p1 g) }"

definition frame_ok :: "zb_fctl \<Rightarrow> zb_uint8_t \<Rightarrow> bool" where
  "frame_ok f radius \<longleftrightarrow> radius \<noteq> 0
     \<and> ZB_NWK_FRAMECTL_GET_FRAME_TYPE f \<in> {ZB_NWK_FRAME_TYPE_COMMAND, ZB_NWK_FRAME_TYPE_DATA}"

definition zb_mcps_data_indication :: "nat \<Rightarrow> 'z nwk_st \<Rightarrow> 'z nwk_st option" where
  "zb_mcps_data_indication b s = do {
     (mhr, mhr_size, g) \<leftarrow> cut_mac b (fst s);
     f \<leftarrow> hdr_control b g;
     radius \<leftarrow> hdr_radius b g;
     if \<not> frame_ok f radius then on_g (zb_free_buf b) (g, snd s)
     else do {
       dst \<leftarrow> hdr_dst b g;
       src \<leftarrow> hdr_src b g;
       seq \<leftarrow> hdr_seq b g;
       (s1, go_on) \<leftarrow> (if ZB_NWK_IS_ADDRESS_BROADCAST dst then receive_broadcast mhr b dst src seq (g, snd s)
         else Some ((g, snd s), True));
       if go_on then receive_frame mhr mhr_size b f dst src s1 else Some s1 } }"

text \<open>
  The buffer for the copy of a broadcast that is passed up and sent on: the copy is passed up, the frame itself is
  forwarded. The callback is called with reference 0 when that is the free buffer, which it takes for none.
\<close>

definition new_buffer_allocated :: "nat \<Rightarrow> 'z nwk_st \<Rightarrow> 'z nwk_st option" where
  "new_buffer_allocated param s =
     (if param \<noteq> 0 \<and> wait_alloc_cnt (snd s) \<noteq> 0 then do {
        let i = wait_alloc_cnt (snd s) - 1;
        e \<leftarrow> aget (wait_alloc (snd s)) i;
        zb_assert (wa_wait e = ZB_NWK_WAIT_REASON_IND_AND_RETRANSMIT);
        g1 \<leftarrow> copy_packet param (wa_buf e) (fst s);
        q \<leftarrow> get_buf (wa_buf e) g1;
        let g2 = put_buf (wa_buf e) (q\<lparr>b_use_same_key := True\<rparr>) g1;
        g3 \<leftarrow> schedule_buf Cb_nwk_frame_indication param g2;
        g4 \<leftarrow> forward_buf (wa_buf e) ZB_NWK_INTERNAL_NSDU_HANDLE g3;
        let (xs, c) = NWK_ARRAY_PUT_ENT (\<lambda>e. e\<lparr>wa_used := False\<rparr>) i (wait_alloc (snd s)) (wait_alloc_cnt (snd s));
        let t = (snd s)\<lparr>wait_alloc := xs, wait_alloc_cnt := c\<rparr>;
        if c \<noteq> 0 then on_g (\<lambda>g. map_option fst (zb_get_in_buf_delayed Cb_new_buffer_allocated g)) (g4, t)
        else Some (g4, t) }
      else Some s)"

section \<open>Commands\<close>

definition ZB_NWK_REPORT_IS_PANID_CONFLICT :: "zb_uint8_t \<Rightarrow> bool" where
  "ZB_NWK_REPORT_IS_PANID_CONFLICT options \<longleftrightarrow> drop_bit 4 options AND 0xf = 0"

text \<open>A report or an update of this network about a conflict of network identifiers.\<close>

definition panid_conflict_cmd :: "zb_uint8_t list \<Rightarrow> nat \<Rightarrow> 'z zb_globals_n_scheme \<Rightarrow> bool option" where
  "panid_conflict_cmd p q g = do {
     options \<leftarrow> rd8 p q;
     if \<not> ZB_NWK_REPORT_IS_PANID_CONFLICT options then Some False
     else do { epid \<leftarrow> rdn 8 p (q + 1); Some (epid = nib_extended_pan_id (nib (nwk g))) } }"

definition read_rreq :: "zb_uint8_t list \<Rightarrow> nat \<Rightarrow> zb_nwk_cmd_rreq option" where
  "read_rreq p q = do {
     i \<leftarrow> rd8 p (q + 1);
     d \<leftarrow> rd16 p (q + 2);
     c \<leftarrow> rd8 p (q + 4);
     Some \<lparr>rq_rreq_id = i, rq_dest_addr = d, rq_path_cost = c\<rparr> }"

definition read_rrep :: "zb_uint8_t list \<Rightarrow> nat \<Rightarrow> zb_nwk_cmd_rrep option" where
  "read_rrep p q = do {
     i \<leftarrow> rd8 p (q + 1);
     orig \<leftarrow> rd16 p (q + 2);
     resp \<leftarrow> rd16 p (q + 4);
     c \<leftarrow> rd8 p (q + 6);
     Some \<lparr>rp_rreq_id = i, rp_originator = orig, rp_responder = resp, rp_path_cost = c\<rparr> }"

definition read_nwk_hdr :: "nat \<Rightarrow> 'z zb_globals_b_scheme \<Rightarrow> zb_nwk_hdr option" where
  "read_nwk_hdr b g = do {
     a \<leftarrow> hdr_src b g;
     r \<leftarrow> hdr_radius b g;
     q \<leftarrow> hdr_seq b g;
     Some \<lparr>nh_src_addr = a, nh_radius = r, nh_seq_num = q\<rparr> }"

definition handle_command :: "'z zb_globals_s_scheme nwk_handlers \<Rightarrow> nat \<Rightarrow> zb_uint8_t \<Rightarrow> zb_uint8_t list \<Rightarrow> nat \<Rightarrow> bool
    \<Rightarrow> 'z zb_globals_s_scheme \<Rightarrow> 'z zb_globals_s_scheme option" where
  "handle_command H b command_id p q pro g =
     (if command_id = ZB_NWK_CMD_LEAVE then h_leave H b g
      else if command_id = ZB_NWK_CMD_ROUTE_REQUEST \<and> \<not> pro then do {
        hdr \<leftarrow> read_nwk_hdr b g;
        rreq \<leftarrow> read_rreq p q;
        zb_nwk_mesh_rreq_handler b hdr rreq g }
      else if command_id = ZB_NWK_CMD_ROUTE_REPLY \<and> \<not> pro then do {
        hdr \<leftarrow> read_nwk_hdr b g;
        rrep \<leftarrow> read_rrep p q;
        zb_nwk_mesh_rrep_handler b hdr rrep g }
      else if command_id = ZB_NWK_CMD_REJOIN_REQUEST \<and> \<not> pro then h_rejoin_request H b g
      else if command_id = ZB_NWK_CMD_NETWORK_REPORT then do {
        c \<leftarrow> panid_conflict_cmd p q g;
        if c then h_network_report H b g else zb_free_buf b g }
      else if command_id = ZB_NWK_CMD_NETWORK_STATUS then do {
        st \<leftarrow> rd8 p q;
        a \<leftarrow> rd16 p (q + 1);
        schedule_buf Cb_zb_nlme_status_indication b
          (put_param b (Status_ind \<lparr>si_status = st, si_network_addr = a\<rparr>) g) }
      else if command_id = ZB_NWK_CMD_REJOIN_RESPONSE then h_rejoin_response H b g
      else if command_id = ZB_NWK_CMD_NETWORK_UPDATE then do {
        c \<leftarrow> panid_conflict_cmd p q g;
        if c then h_network_update H b g else zb_free_buf b g }
      else zb_free_buf b g)"

definition nwk_frame_indication :: "'z zb_globals_s_scheme nwk_handlers \<Rightarrow> nat \<Rightarrow> 'z nwk_st \<Rightarrow> 'z nwk_st option" where
  "nwk_frame_indication H b s = do {
     p \<leftarrow> get_buf b (fst s);
     f \<leftarrow> hdr_control b (fst s);
     let frame_type = ZB_NWK_FRAMECTL_GET_FRAME_TYPE f;
     if frame_type = ZB_NWK_FRAME_TYPE_DATA then on_g (schedule_buf Cb_zb_nlde_data_indication b) s
     else if frame_type = ZB_NWK_FRAME_TYPE_COMMAND then do {
       command_id \<leftarrow> ZB_NWK_CMD_FRAME_GET_CMD_ID b (zb_nwk_hdr_size f) (fst s);
       on_g (handle_command H b command_id (b_buf p) (ZB_BUF_BEGIN p + zb_nwk_hdr_size f + 1) (joined_pro (snd s))) s }
     else Some s }"

end
