(* ===== verification/Zb_Secur_Keys_Props.thy ===== *)
theory Zb_Secur_Keys_Props
  imports Zb_Secur_Keys
begin

text \<open>
  What the key functions of \<^verbatim>\<open>secur/zdo_secur.c\<close> do: the search for a key is the first match in
  the table rotated to the active slot; the first key authenticates a device. The rest are errors of
  the code: the random keys are all the same, a switch to a key that nobody has succeeds, and the third
  key update overwrites the active key.
\<close>

definition keys_wf :: "zb_nib \<Rightarrow> bool" where
  "keys_wf N \<longleftrightarrow> length (nib_secur_material_set N) = 3 \<and> unat (nib_active_secur_material_i N) < 3"

lemma keys_wf_cases:
  assumes "keys_wf N"
  obtains a b c where "nib_secur_material_set N = [a, b, c]" "unat (nib_active_secur_material_i N) = 0"
  | a b c where "nib_secur_material_set N = [a, b, c]" "unat (nib_active_secur_material_i N) = 1"
  | a b c where "nib_secur_material_set N = [a, b, c]" "unat (nib_active_secur_material_i N) = 2"
proof -
  obtain a b c where "nib_secur_material_set N = [a, b, c]"
    using assms by (auto simp: keys_wf_def numeral_3_eq_3 length_Suc_conv)
  moreover have "unat (nib_active_secur_material_i N) = 0 \<or> unat (nib_active_secur_material_i N) = 1
      \<or> unat (nib_active_secur_material_i N) = 2"
    using assms by (auto simp: keys_wf_def)
  ultimately show thesis using that by blast
qed

section \<open>Finding a key\<close>

lemma key_search_abc:
  "key_search ZB_SECUR_N_SECUR_MATERIAL 0 q [a, b, c] = Some (if sm_key_seq_number a = q then Some 0
     else if sm_key_seq_number b = q then Some 1 else if sm_key_seq_number c = q then Some 2 else None)"
  "key_search ZB_SECUR_N_SECUR_MATERIAL 1 q [a, b, c] = Some (if sm_key_seq_number b = q then Some 1
     else if sm_key_seq_number c = q then Some 2 else if sm_key_seq_number a = q then Some 0 else None)"
  "key_search ZB_SECUR_N_SECUR_MATERIAL 2 q [a, b, c] = Some (if sm_key_seq_number c = q then Some 2
     else if sm_key_seq_number a = q then Some 0 else if sm_key_seq_number b = q then Some 1 else None)"
proof -
  have f: "key_search ZB_SECUR_N_SECUR_MATERIAL = key_search (Suc (Suc (Suc 0)))"
    by (simp add: ZB_SECUR_N_SECUR_MATERIAL_def numeral_3_eq_3)
  show "key_search ZB_SECUR_N_SECUR_MATERIAL 0 q [a, b, c] = Some (if sm_key_seq_number a = q then Some 0
     else if sm_key_seq_number b = q then Some 1 else if sm_key_seq_number c = q then Some 2 else None)"
  "key_search ZB_SECUR_N_SECUR_MATERIAL 1 q [a, b, c] = Some (if sm_key_seq_number b = q then Some 1
     else if sm_key_seq_number c = q then Some 2 else if sm_key_seq_number a = q then Some 0 else None)"
  "key_search ZB_SECUR_N_SECUR_MATERIAL 2 q [a, b, c] = Some (if sm_key_seq_number c = q then Some 2
     else if sm_key_seq_number a = q then Some 0 else if sm_key_seq_number b = q then Some 1 else None)"
    unfolding f by (simp_all add: ZB_SECUR_N_SECUR_MATERIAL_def aget_def)
qed

lemma switch_scan_abc:
  "switch_scan ZB_SECUR_N_SECUR_MATERIAL 0 1 k [a, b, c] = Some (if sm_key_seq_number b \<noteq> k then 0
     else if sm_key_seq_number c \<noteq> k then 1 else if sm_key_seq_number a \<noteq> k then 2 else 3)"
  "switch_scan ZB_SECUR_N_SECUR_MATERIAL 0 2 k [a, b, c] = Some (if sm_key_seq_number c \<noteq> k then 0
     else if sm_key_seq_number a \<noteq> k then 1 else if sm_key_seq_number b \<noteq> k then 2 else 3)"
proof -
  have f: "switch_scan ZB_SECUR_N_SECUR_MATERIAL = switch_scan (Suc (Suc (Suc 0)))"
    by (simp add: ZB_SECUR_N_SECUR_MATERIAL_def numeral_3_eq_3)
  show "switch_scan ZB_SECUR_N_SECUR_MATERIAL 0 1 k [a, b, c] = Some (if sm_key_seq_number b \<noteq> k then 0
     else if sm_key_seq_number c \<noteq> k then 1 else if sm_key_seq_number a \<noteq> k then 2 else 3)"
  "switch_scan ZB_SECUR_N_SECUR_MATERIAL 0 2 k [a, b, c] = Some (if sm_key_seq_number c \<noteq> k then 0
     else if sm_key_seq_number a \<noteq> k then 1 else if sm_key_seq_number b \<noteq> k then 2 else 3)"
    unfolding f by (simp_all add: ZB_SECUR_N_SECUR_MATERIAL_def aget_def)
qed

lemmas key_scans0 = key_search_abc key_search_abc [simplified] switch_scan_abc switch_scan_abc [simplified]
  switch_scan_abc(2) [unfolded numeral_2_eq_2]

lemmas key_scans = key_scans0 key_scans0 [unfolded ZB_SECUR_N_SECUR_MATERIAL_def]

lemma find_rotate_abc:
  "find P (rotate 1 [a, b, c]) = find P [b, c, a]" "find P (rotate 2 [a, b, c]) = find P [c, a, b]"
  by (simp_all add: rotate_def numeral_2_eq_2)

text \<open>
  the search for a network key by its sequence number ends and is a lookup in the material set: it
  returns the first entry with that number in the table rotated so that the active slot is first, and
  nothing exactly when no slot has the number.
\<close>

theorem secur_nwk_key_by_seq_is_find:
  assumes "keys_wf N"
  shows "secur_nwk_key_by_seq seq N = Some (map_option sm_key
    (find (\<lambda>e. sm_key_seq_number e = seq) (rotate (unat (nib_active_secur_material_i N)) (nib_secur_material_set N))))"
  using assms
  by (rule keys_wf_cases) (simp_all add: secur_nwk_key_by_seq_def key_scans find_rotate_abc [simplified] find_rotate_abc)

lemma key_by_seq_None:
  assumes "keys_wf N"
  shows "secur_nwk_key_by_seq seq N = Some None \<longleftrightarrow> seq \<notin> sm_key_seq_number ` set (nib_secur_material_set N)"
  using assms
  by (rule keys_wf_cases) (auto simp: secur_nwk_key_by_seq_def key_scans)

lemma key_by_seq_active:
  assumes "keys_wf N" "nib_secur_material_set N ! unat (nib_active_secur_material_i N) = \<lparr>sm_key = k, sm_key_seq_number = seq\<rparr>"
  shows "secur_nwk_key_by_seq seq N = Some (Some k)"
  by (rule keys_wf_cases [OF assms(1)]; insert assms(2)) (simp_all add: secur_nwk_key_by_seq_def key_scans)

section \<open>Random keys\<close>

text \<open>
  the keys that the trust center generates are not random: whatever the base of the random numbers, the
  three keys of \<open>secur_generate_keys\<close> are equal and consist of one byte repeated 16 times, so that a key
  switch never changes the key.
\<close>

theorem secur_generate_keys_all_equal:
  assumes "length (nib_secur_material_set N) = 3"
  shows "\<exists>c. secur_generate_keys base N = Some (N\<lparr>nib_secur_material_set :=
    map (\<lambda>i. \<lparr>sm_key = replicate 16 c, sm_key_seq_number = of_nat i\<rparr>) [0, 1, 2]\<rparr>)"
proof -
  obtain a b c where "nib_secur_material_set N = [a, b, c]"
    using assms by (auto simp: numeral_3_eq_3 length_Suc_conv)
  moreover have "map (\<lambda>j. v) [0..<16] = replicate 16 v" for v :: zb_uint8_t
    by (simp add: map_replicate_const)
  moreover have "[0..<3] = [0, 1, 2]" by (simp add: numeral_3_eq_3 numeral_2_eq_2)
  ultimately show ?thesis
    by (auto simp: secur_generate_keys_def secur_generate_key_def set_key_def secur_consts numeral_2_eq_2)
qed

section \<open>Switching keys\<close>

lemma switch_scan_result:
  assumes "keys_wf N" "k \<notin> sm_key_seq_number ` set (nib_secur_material_set N)"
  shows "switch_scan ZB_SECUR_N_SECUR_MATERIAL 0 s k (nib_secur_material_set N) = Some 0"
proof -
  have "s mod 3 < length (nib_secur_material_set N)" using assms(1) by (simp add: keys_wf_def)
  then have "sm_key_seq_number (nib_secur_material_set N ! (s mod 3)) \<noteq> k" using assms(2) by (metis image_eqI nth_mem)
  moreover have "switch_scan ZB_SECUR_N_SECUR_MATERIAL = switch_scan (Suc (Suc (Suc 0)))"
    by (simp add: ZB_SECUR_N_SECUR_MATERIAL_def numeral_3_eq_3)
  ultimately show ?thesis using assms(1) by (simp add: ZB_SECUR_N_SECUR_MATERIAL_def aget_def keys_wf_def)
qed

text \<open>
  a switch to a key that the device does not have succeeds: for a number that no slot holds,
  \<open>secur_nwk_key_switch\<close> makes it the active number, resets the frame counter and makes slot 0 the active one,
  on the trust center too, which is meant to generate the key; from then on the search for the active key fails.
\<close>

theorem secur_nwk_key_switch_unknown:
  assumes "keys_wf (nib (nwk g))" "k \<notin> sm_key_seq_number ` set (nib_secur_material_set (nib (nwk g)))"
  shows "\<exists>g'. secur_nwk_key_switch k g = Some g' \<and> nib_active_key_seq_number (nib (nwk g')) = k
    \<and> nib_active_secur_material_i (nib (nwk g')) = 0 \<and> nib_outgoing_frame_counter (nib (nwk g')) = 0
    \<and> secur_nwk_key_by_seq k (nib (nwk g')) = Some None"
proof -
  define N where "N = (nib (nwk g))\<lparr>nib_active_secur_material_i := 0, nib_active_key_seq_number := k,
      nib_prev_outgoing_frame_counter := nib_outgoing_frame_counter (nib (nwk g)), nib_outgoing_frame_counter := 0\<rparr>"
  have "keys_wf N" "k \<notin> sm_key_seq_number ` set (nib_secur_material_set N)"
    using assms by (auto simp: N_def keys_wf_def)
  then have n: "secur_nwk_key_by_seq k N = Some None" by (simp add: key_by_seq_None)
  have "secur_nwk_key_switch k g = Some (upd_nib (\<lambda>_. N) g)"
    using switch_scan_result [OF assms]
    by (simp add: secur_nwk_key_switch_def Let_def N_def) (simp add: ZB_SECUR_N_SECUR_MATERIAL_def)
  then show ?thesis using n by (simp add: upd_nib_def) (simp add: N_def)
qed

text \<open>A key update: the key is stored, then the device switches to it.\<close>

definition update_then_switch :: "zb_uint8_t list \<Rightarrow> zb_uint8_t \<Rightarrow> 'z zb_globals_s_scheme \<Rightarrow> 'z zb_globals_s_scheme option" where
  "update_then_switch key seq g = do {
     (_, N) \<leftarrow> store_key key seq (nib (nwk g));
     secur_nwk_key_switch seq (upd_nib (\<lambda>_. N) g) }"

lemma update_first:
  assumes "nib_secur_material_set (nib (nwk g)) = [m0, m1, m2]" "nib_active_secur_material_i (nib (nwk g)) = 0"
    "nib_active_key_seq_number (nib (nwk g)) = s" "sm_key_seq_number m2 \<noteq> s + 1" "\<not> secur_nwk_key_is_empty k" "length k = 16"
  shows "\<exists>g'. update_then_switch k (s + 1) g = Some g'
    \<and> nib_secur_material_set (nib (nwk g')) = [m0, \<lparr>sm_key = k, sm_key_seq_number = s + 1\<rparr>, m2]
    \<and> nib_active_secur_material_i (nib (nwk g')) = 1 \<and> nib_active_key_seq_number (nib (nwk g')) = s + 1"
  using assms
  by (simp add: update_then_switch_def store_key_def set_key_def secur_nwk_key_switch_def Let_def upd_nib_def
      key_scans secur_consts numeral_2_eq_2)

lemma update_second:
  assumes "nib_secur_material_set (nib (nwk g)) = [m0, m1, m2]" "nib_active_secur_material_i (nib (nwk g)) = 1"
    "nib_active_key_seq_number (nib (nwk g)) = s" "sm_key_seq_number m0 \<noteq> s + 1" "\<not> secur_nwk_key_is_empty k" "length k = 16"
  shows "\<exists>g'. update_then_switch k (s + 1) g = Some g'
    \<and> nib_secur_material_set (nib (nwk g')) = [m0, m1, \<lparr>sm_key = k, sm_key_seq_number = s + 1\<rparr>]
    \<and> nib_active_secur_material_i (nib (nwk g')) = 1 \<and> nib_active_key_seq_number (nib (nwk g')) = s + 1"
  using assms
  by (simp add: update_then_switch_def store_key_def set_key_def secur_nwk_key_switch_def Let_def upd_nib_def
      key_scans secur_consts numeral_2_eq_2)

lemma store_third:
  assumes "nib_secur_material_set N = [m0, m1, m2]" "nib_active_secur_material_i N = 1"
    "nib_active_key_seq_number N = s" "sm_key_seq_number m0 \<noteq> s" "sm_key_seq_number m1 \<noteq> s"
    "\<not> secur_nwk_key_is_empty k" "length k = 16"
  shows "\<exists>i N'. store_key k (s + 1) N = Some (i, N') \<and> nib_active_key_seq_number N' = s
    \<and> secur_nwk_key_by_seq s N' = Some None"
  using assms
  by (simp add: store_key_def set_key_def secur_nwk_key_by_seq_def Let_def key_scans secur_consts numeral_2_eq_2)

text \<open>
  the third key update destroys the active key: a device in slot 0 with key number \<open>s\<close> that receives and
  switches to the keys \<open>s + 1\<close> and \<open>s + 2\<close> uses them, but keeps slot 1 as the active one; storing the key
  \<open>s + 3\<close> then overwrites the slot of the active key \<open>s + 2\<close>, which is not found any more.
\<close>

theorem third_key_update_loses_active:
  assumes "nib_secur_material_set (nib (nwk g)) = [m0, m1, m2]" "nib_active_secur_material_i (nib (nwk g)) = 0"
    "nib_active_key_seq_number (nib (nwk g)) = s" "sm_key_seq_number m0 = s" "sm_key_seq_number m2 \<noteq> s + 1"
    "\<forall>k\<in>{k1, k2, k3}. length k = 16 \<and> \<not> secur_nwk_key_is_empty k"
  shows "\<exists>g1 g2 i N. update_then_switch k1 (s + 1) g = Some g1 \<and> update_then_switch k2 (s + 2) g1 = Some g2
    \<and> nib_active_key_seq_number (nib (nwk g2)) = s + 2 \<and> secur_nwk_key_by_seq (s + 2) (nib (nwk g2)) = Some (Some k2)
    \<and> store_key k3 (s + 3) (nib (nwk g2)) = Some (i, N) \<and> nib_active_key_seq_number N = s + 2
    \<and> secur_nwk_key_by_seq (s + 2) N = Some None"
proof -
  have k: "length k1 = 16" "\<not> secur_nwk_key_is_empty k1" "length k2 = 16" "\<not> secur_nwk_key_is_empty k2"
    "length k3 = 16" "\<not> secur_nwk_key_is_empty k3" using assms(6) by simp_all
  have arith: "s + 1 + 1 = s + 2" "s + 2 + 1 = s + 3" "s \<noteq> s + 2" "s + 1 \<noteq> s + 2" by simp_all
  obtain g1 where g1: "update_then_switch k1 (s + 1) g = Some g1"
    "nib_secur_material_set (nib (nwk g1)) = [m0, \<lparr>sm_key = k1, sm_key_seq_number = s + 1\<rparr>, m2]"
    "nib_active_secur_material_i (nib (nwk g1)) = 1" "nib_active_key_seq_number (nib (nwk g1)) = s + 1"
    using update_first [OF assms(1,2,3,5) k(2,1)] by blast
  have "sm_key_seq_number m0 \<noteq> s + 1 + 1" using assms(4) arith by simp
  from update_second [OF g1(2,3,4) this k(4,3)] obtain g2 where g2: "update_then_switch k2 (s + 2) g1 = Some g2"
    "nib_secur_material_set (nib (nwk g2)) = [m0, \<lparr>sm_key = k1, sm_key_seq_number = s + 1\<rparr>, \<lparr>sm_key = k2, sm_key_seq_number = s + 2\<rparr>]"
    "nib_active_secur_material_i (nib (nwk g2)) = 1" "nib_active_key_seq_number (nib (nwk g2)) = s + 2"
    unfolding arith by blast
  have "sm_key_seq_number m0 \<noteq> s + 2" "sm_key_seq_number \<lparr>sm_key = k1, sm_key_seq_number = s + 1\<rparr> \<noteq> s + 2"
    using assms(4) arith by simp_all
  from store_third [OF g2(2,3,4) this k(6,5)] obtain i N where "store_key k3 (s + 3) (nib (nwk g2)) = Some (i, N)"
    "nib_active_key_seq_number N = s + 2" "secur_nwk_key_by_seq (s + 2) N = Some None"
    unfolding arith by blast
  moreover have "secur_nwk_key_by_seq (s + 2) (nib (nwk g2)) = Some (Some k2)"
    using g2(2,3) by (simp add: secur_nwk_key_by_seq_def key_scans)
  ultimately show ?thesis using g1(1) g2(1,4) by blast
qed

section \<open>Authentication\<close>

text \<open>
  C27: the first network key authenticates a device: when a transport-key indication with a key that is not all
  zero arrives at a device that is not authenticated, the device becomes authenticated, knows the trust
  center, has the key as its active one, restarts its frame counter and announces itself on the same buffer.
\<close>

theorem zb_apsme_transport_key_indication_authenticates:
  assumes "buf_param g param = Transport_key_ind ind" "tki_key_type ind = ZB_STANDARD_NETWORK_KEY"
    "\<not> secur_nwk_key_is_empty (tki_key ind)" "length (tki_key ind) = 16"
    "\<not> aps_authenticated (aps g)" "keys_wf (nib (nwk g))"
    "trust_center_address (aib (aps g)) = replicate 8 0"
    "zb_address_update (tki_src_address ind) 0 False (addr g) = Some (A, r, ref)"
  shows "\<exists>g'. zb_apsme_transport_key_indication annce param g = annce param g'
    \<and> aps_authenticated (aps g') \<and> trust_center_address (aib (aps g')) = tki_src_address ind \<and> addr g' = A
    \<and> nib_active_key_seq_number (nib (nwk g')) = tki_key_seq_number ind \<and> nib_outgoing_frame_counter (nib (nwk g')) = 0
    \<and> secur_nwk_key_by_seq (tki_key_seq_number ind) (nib (nwk g')) = Some (Some (tki_key ind))"
proof -
  let ?N = "nib (nwk g)" and ?seq = "tki_key_seq_number ind"
  define i where "i = (unat (nib_active_secur_material_i ?N) + unat (?seq - nib_active_key_seq_number ?N)) mod 3"
  have i: "i < 3" by (simp add: i_def)
  have len: "length (nib_secur_material_set ?N) = 3" using assms(6) by (simp add: keys_wf_def)
  obtain N where N: "store_key (tki_key ind) ?seq ?N = Some (i, N)"
    "nib_secur_material_set N = (nib_secur_material_set ?N)[i := \<lparr>sm_key = tki_key ind, sm_key_seq_number = ?seq\<rparr>]"
    using assms(3,4) len i by (auto simp: store_key_def set_key_def Let_def secur_consts i_def)
  define N' where "N' = N\<lparr>nib_active_key_seq_number := ?seq, nib_outgoing_frame_counter := 0, nib_active_secur_material_i := of_nat i\<rparr>"
  have "i = 0 \<or> i = 1 \<or> i = 2" using i by linarith
  then have ui: "unat (of_nat i :: 2 word) = i" by (elim disjE) simp_all
  have k: "secur_nwk_key_by_seq ?seq N' = Some (Some (tki_key ind))"
    using N(2) len i by (intro key_by_seq_active) (simp_all add: keys_wf_def N'_def ui)
  define g1 where "g1 = (upd_aib (\<lambda>a. a\<lparr>trust_center_address := tki_src_address ind\<rparr>) g)\<lparr>addr := A\<rparr>"
  have g1: "learn_tc (tki_src_address ind) g = Some g1" "nib (nwk g1) = ?N" "aps_authenticated (aps g1) = False"
    "trust_center_address (aib (aps g1)) = tki_src_address ind" "addr g1 = A"
    using assms(5,7,8) by (simp_all add: learn_tc_def g1_def upd_aib_def upd_aps_def Let_def)
  define g' where "g' = upd_nib (\<lambda>_. N') (upd_aps (\<lambda>a. a\<lparr>aps_authenticated := True\<rparr>) g1)"
  have "zb_apsme_transport_key_indication annce param g = annce param g'"
    using assms(1,2) g1 N(1)
    by (simp add: zb_apsme_transport_key_indication_def Let_def g'_def upd_nib_def upd_aps_def N'_def)
  moreover have "aps_authenticated (aps g')" "trust_center_address (aib (aps g')) = tki_src_address ind" "addr g' = A"
    "nib (nwk g') = N'" using g1 by (simp_all add: g'_def upd_nib_def upd_aps_def)
  ultimately show ?thesis using k by (auto simp: N'_def)
qed

section \<open>Who gets a key\<close>

lemma schedule_callback_sched:
  "zb_schedule_callback f p g = Some (g', r) \<Longrightarrow> \<exists>s. g' = g\<lparr>sched := s\<rparr>"
  by (cases g) (auto simp: zb_schedule_callback_def Let_def split: option.splits Option.bind_splits)

lemma schedule_buf_sched: "schedule_buf f p g = Some g' \<Longrightarrow> \<exists>s. g' = g\<lparr>sched := s\<rparr>"
  unfolding schedule_buf_def using schedule_callback_sched by fastforce

lemma free_buf_fields:
  assumes "zb_free_buf b g = Some g'"
  shows "\<exists>s p. g' = g\<lparr>sched := s, bpool := p\<rparr>"
proof -
  have upd: "\<exists>s p. (g::'a zb_globals_b_scheme)\<lparr>bpool := bp, sched := s0\<rparr> = g\<lparr>sched := s, bpool := p\<rparr>" for bp s0
    by (metis bpool_commute(1))
  have step: "\<exists>s p. h\<lparr>sched := t\<rparr> = g\<lparr>sched := s, bpool := p\<rparr>"
    if "zb_schedule_callback f n (g\<lparr>bpool := bp, sched := s0, bpool := bp2\<rparr>) = Some (h, r)" for f n bp s0 bp2 h r t
  proof -
    from schedule_callback_sched [OF that] obtain s1 where "h = g\<lparr>bpool := bp, sched := s0, bpool := bp2\<rparr>\<lparr>sched := s1\<rparr>" by blast
    then have "h\<lparr>sched := t\<rparr> = g\<lparr>sched := t, bpool := bp2\<rparr>" by simp
    then show ?thesis by blast
  qed
  show ?thesis
    using assms upd step
    by (auto simp: zb_free_buf_def Let_def split: option.splits Option.bind_splits prod.splits)
qed

lemma free_buf_param: "zb_free_buf b g = Some g' \<Longrightarrow> buf_param g' = buf_param g"
  using free_buf_fields by fastforce

lemma neighbor_get_known:
  "zb_nwk_neighbor_get r False g = Some (g', s, n) \<Longrightarrow> g' = g"
  by (auto simp: zb_nwk_neighbor_get_def Let_def split: if_splits Option.bind_splits)

lemma may_have_key_state:
  assumes "may_have_key a g = Some (g1, ok)"
  shows "g1 = g\<lparr>addr := addr g1\<rparr>"
  using assms
  by (auto simp: may_have_key_def Let_def split: if_splits Option.bind_splits dest!: neighbor_get_known)

lemma may_have_key_result:
  assumes "may_have_key a g = Some (g1, True)"
  shows "\<exists>A ref n e. zb_address_by_ieee a False False (addr g) = Some (A, RET_OK, Some ref)
    \<and> zb_nwk_neighbor_get ref False (g\<lparr>addr := A\<rparr>) = Some (g1, RET_OK, Some n) \<and> nb_get (neighbor (nwk g1)) n = Some e
    \<and> ne_relationship e \<notin> {ZB_NWK_RELATIONSHIP_UNAUTHENTICATED_CHILD, ZB_NWK_RELATIONSHIP_PREVIOUS_CHILD,
        ZB_NWK_RELATIONSHIP_NONE_OF_THE_ABOVE}"
  using assms
  by (simp add: may_have_key_def Let_def split: if_splits Option.bind_splits prod.splits; blast)

text \<open>
  A key is given only to a neighbor that may have it: when \<open>zb_apsme_request_key_indication\<close> turns a request
  into a transport-key request, the requester is in the address table and the neighbor table, not
  as an unauthenticated or previous child nor as an unrelated device, and what is sent to it is the active key.
\<close>

lemma zb_apsme_request_key_indication_only_neighbors:
  assumes "zb_apsme_request_key_indication param g = Some g'" "buf_param g param = Request_key_ind ind"
    "buf_param g' param = Transport_key_req req"
  shows "\<exists>A ref g1 n e. zb_address_by_ieee (rki_src_address ind) False False (addr g) = Some (A, RET_OK, Some ref)
    \<and> zb_nwk_neighbor_get ref False (g\<lparr>addr := A\<rparr>) = Some (g1, RET_OK, Some n) \<and> nb_get (neighbor (nwk g1)) n = Some e
    \<and> ne_relationship e \<notin> {ZB_NWK_RELATIONSHIP_UNAUTHENTICATED_CHILD, ZB_NWK_RELATIONSHIP_PREVIOUS_CHILD,
        ZB_NWK_RELATIONSHIP_NONE_OF_THE_ABOVE}
    \<and> tkr_dest_address req = Dest_long (rki_src_address ind) \<and> Some (tkr_key req) = active_key (nib (nwk g1))"
proof (cases "rki_key_type ind = ZB_STANDARD_NETWORK_KEY")
  case False
  then have "zb_free_buf param g = Some g'" using assms(1,2) by (simp add: zb_apsme_request_key_indication_def)
  then show ?thesis using free_buf_param [of param g g'] assms(2,3) by simp
next
  case True
  then obtain g1 ok where m: "may_have_key (rki_src_address ind) g = Some (g1, ok)"
    using assms(1,2) by (auto simp: zb_apsme_request_key_indication_def split: Option.bind_splits)
  from may_have_key_state [OF this] obtain A where A: "g1 = g\<lparr>addr := A\<rparr>" by blast
  have ok: ok
  proof (rule ccontr)
    assume "\<not> ok"
    then have "zb_free_buf param g1 = Some g'" using assms(1,2) True m by (simp add: zb_apsme_request_key_indication_def)
    then show False using free_buf_param [of param g1 g'] assms(2,3) A by simp
  qed
  obtain k where k: "active_key (nib (nwk g1)) = Some k"
    and s: "schedule_buf Cb_zb_apsme_transport_key_request param
        (put_param param (Transport_key_req \<lparr>tkr_key_type = ZB_STANDARD_NETWORK_KEY,
           tkr_dest_address = Dest_long (rki_src_address ind), tkr_key = k,
           tkr_key_seq_number = nib_active_key_seq_number (nib (nwk g1)), tkr_use_parent = None\<rparr>) g1) = Some g'"
    using assms(1,2) True m ok by (auto simp: zb_apsme_request_key_indication_def split: Option.bind_splits)
  have "tkr_dest_address req = Dest_long (rki_src_address ind)" "tkr_key req = k"
    using schedule_buf_sched [OF s] assms(3) by (auto simp: put_param_def)
  then show ?thesis using may_have_key_result [of "rki_src_address ind" g g1] m ok k by fastforce
qed

end
