(* ===== verification/Zb_Nwk_Mesh_Props.thy ===== *)
theory Zb_Nwk_Mesh_Props
  imports Zb_Nwk_Mesh Zb_Secur_Keys_Props Zb_Nwk_Tree_Props
begin

text \<open>
  The tables of the mesh: every handler keeps their counters exact and their entries in the states that the
  code assigns, by rule induction over the steps of the program. Then what the handlers do to them.
\<close>

section \<open>Tables\<close>

text \<open>A table of \<open>n\<close> entries and its count.\<close>

definition tbl_ok :: "nat \<Rightarrow> ('a \<Rightarrow> bool) \<Rightarrow> 'a list \<Rightarrow> nat \<Rightarrow> bool" where
  "tbl_ok n used xs cnt \<longleftrightarrow> length xs = n \<and> cnt = length (filter used xs)"

lemma find_nat_Some: "find P [0..<n] = Some i \<Longrightarrow> i < n \<and> P i"
  by (auto simp: find_Some_iff)

lemma find_nat_None: "find P [0..<n] = None \<longleftrightarrow> (\<forall>i<n. \<not> P i)"
  by (auto simp: find_None_iff)

lemma count_update:
  "i < length xs \<Longrightarrow> length (filter u (xs[i := y])) + of_bool (u (xs ! i)) = length (filter u xs) + of_bool (u y)"
proof (induction xs arbitrary: i)
  case (Cons x xs)
  then show ?case by (cases i) auto
qed simp

lemma tbl_upd:
  assumes "tbl_ok n u xs c" "u y = u (xs ! i)" shows "tbl_ok n u (xs[i := y]) c"
  using assms count_update [of i xs u y] by (cases "i < length xs") (auto simp: tbl_ok_def list_update_beyond)

lemma tbl_get:
  assumes "tbl_ok n u xs c" "NWK_ARRAY_GET_ENT u mark xs c = Some (i, ys, d)" "\<And>x. u (mark x)" "n < 255"
  shows "tbl_ok n u ys d \<and> i < n \<and> \<not> u (xs ! i) \<and> ys = xs[i := mark (xs ! i)]"
proof -
  have i: "i < length xs" "\<not> u (xs ! i)" "ys = xs[i := mark (xs ! i)]" "d = inc8 c"
    using assms(2) by (auto simp: NWK_ARRAY_GET_ENT_def dest: find_nat_Some)
  have "length (filter u xs) < 255" by (rule le_less_trans [OF length_filter_le]) (use assms(1,4) in \<open>simp add: tbl_ok_def\<close>)
  then have "c < 255" "d = inc8 c" using assms(1) i(4) by (auto simp: tbl_ok_def le_less_trans)
  then have "d = Suc c" by simp
  then show ?thesis using assms(1,3) i count_update [OF i(1), of u "mark (xs ! i)"] by (simp add: tbl_ok_def)
qed

lemma tbl_full:
  assumes "length xs = n" shows "NWK_ARRAY_GET_ENT u mark xs c = None \<longleftrightarrow> (\<forall>i<n. u (xs ! i))"
  using assms by (simp add: NWK_ARRAY_GET_ENT_def find_nat_None)

lemma tbl_put:
  assumes "tbl_ok n u xs c" "i < n" "u (xs ! i)" "\<And>x. \<not> u (unmark x)" "NWK_ARRAY_PUT_ENT unmark i xs c = (ys, d)"
  shows "tbl_ok n u ys d"
proof -
  have e: "ys = xs[i := unmark (xs ! i)]" "d = dec8 c" using assms(5) by (simp_all add: NWK_ARRAY_PUT_ENT_def)
  have l: "i < length xs" using assms(1,2) by (simp add: tbl_ok_def)
  then have "0 < length (filter u xs)" using assms(3) by (auto simp: filter_empty_conv)
  then have "d = c - 1" "0 < c" using assms(1) e(2) by (simp_all add: tbl_ok_def)
  then show ?thesis using assms(1,3,4) count_update [OF l, of u "unmark (xs ! i)"] by (simp add: tbl_ok_def e(1))
qed

lemma tbl_find:
  "NWK_ARRAY_FIND_ENT u P xs = Some i \<Longrightarrow> i < length xs \<and> u (xs ! i) \<and> P (xs ! i)"
  unfolding NWK_ARRAY_FIND_ENT_def by (drule find_nat_Some) simp

section \<open>The invariant\<close>

definition route_state_ok :: "zb_nwk_routing \<Rightarrow> bool" where
  "route_state_ok e \<longleftrightarrow> rt_used e \<longrightarrow> rt_status e \<in> {ZB_NWK_ROUTE_STATE_ACTIVE, ZB_NWK_ROUTE_STATE_DISCOVERY_UNDERWAY,
     ZB_NWK_ROUTE_STATE_VALIDATION_UNDERWAY}"

definition mesh_wf :: "zb_nib \<Rightarrow> bool" where
  "mesh_wf N \<longleftrightarrow> tbl_ok 5 rt_used (nib_routing_table N) (nib_routing_table_cnt N)
     \<and> tbl_ok 5 rd_used (nib_route_disc_table N) (nib_route_disc_table_cnt N)
     \<and> tbl_ok 5 pe_used (nib_pending_table N) (nib_pending_table_cnt N)
     \<and> (\<forall>e\<in>set (nib_routing_table N). route_state_ok e) \<and> (\<forall>e\<in>set (nib_route_disc_table N). rd_expiration_time e \<le> 10)"

text \<open>The part of the NIB that the invariant is about.\<close>

definition mesh_tables :: "zb_nib \<Rightarrow> zb_nwk_routing list \<times> nat \<times> zb_nwk_route_discovery list \<times> nat \<times> zb_nwk_pend list \<times> nat" where
  "mesh_tables N = (nib_routing_table N, nib_routing_table_cnt N, nib_route_disc_table N, nib_route_disc_table_cnt N,
     nib_pending_table N, nib_pending_table_cnt N)"

lemma mesh_wf_tables: "mesh_tables M = mesh_tables N \<Longrightarrow> mesh_wf M = mesh_wf N"
  by (simp add: mesh_tables_def mesh_wf_def)

lemma set_update_all: "(\<forall>e\<in>set xs. P e) \<Longrightarrow> P y \<Longrightarrow> (\<forall>e\<in>set (xs[i := y]). P e)"
  using set_update_subset_insert [of xs i y] by auto

lemma mesh_wf_parts:
  assumes "mesh_wf N"
  shows "tbl_ok 5 rt_used (nib_routing_table N) (nib_routing_table_cnt N)"
    "tbl_ok 5 rd_used (nib_route_disc_table N) (nib_route_disc_table_cnt N)"
    "tbl_ok 5 pe_used (nib_pending_table N) (nib_pending_table_cnt N)"
    "\<forall>e\<in>set (nib_routing_table N). route_state_ok e" "\<forall>e\<in>set (nib_route_disc_table N). rd_expiration_time e \<le> 10"
    "length (nib_routing_table N) = 5" "length (nib_route_disc_table N) = 5" "length (nib_pending_table N) = 5"
  using assms by (auto simp: mesh_wf_def tbl_ok_def)

lemma mesh_wf_entry:
  assumes "mesh_wf N" "i < 5"
  shows "route_state_ok (nib_routing_table N ! i)" "rd_expiration_time (nib_route_disc_table N ! i) \<le> 10"
  using mesh_wf_parts [OF assms(1)] assms(2) by simp_all

lemma upd_route_wf:
  assumes "mesh_wf N" "i < 5" "rt_used (f (nib_routing_table N ! i)) = rt_used (nib_routing_table N ! i)"
    "route_state_ok (nib_routing_table N ! i) \<Longrightarrow> route_state_ok (f (nib_routing_table N ! i))"
  shows "mesh_wf (upd_route i f N)"
  using mesh_wf_parts(2,3,5) [OF assms(1)] tbl_upd [OF mesh_wf_parts(1) [OF assms(1)] assms(3)]
    set_update_all [OF mesh_wf_parts(4) [OF assms(1)] assms(4) [OF mesh_wf_entry(1) [OF assms(1,2)]]]
  unfolding mesh_wf_def upd_route_def by simp

lemma upd_disc_wf:
  assumes "mesh_wf N" "rd_used (f (nib_route_disc_table N ! i)) = rd_used (nib_route_disc_table N ! i)"
    "rd_expiration_time (f (nib_route_disc_table N ! i)) \<le> 10"
  shows "mesh_wf (upd_disc i f N)"
  using mesh_wf_parts(1,3,4) [OF assms(1)] tbl_upd [OF mesh_wf_parts(2) [OF assms(1)] assms(2)]
    set_update_all [OF mesh_wf_parts(5) [OF assms(1)] assms(3)]
  unfolding mesh_wf_def upd_disc_def by simp

lemma upd_pend_wf:
  assumes "mesh_wf N" "pe_used (f (nib_pending_table N ! i)) = pe_used (nib_pending_table N ! i)"
  shows "mesh_wf (upd_pend i f N)"
  using mesh_wf_parts(1,2,4,5) [OF assms(1)] tbl_upd [OF mesh_wf_parts(3) [OF assms(1)] assms(2)]
  unfolding mesh_wf_def upd_pend_def by simp

lemma put_route_wf:
  assumes "mesh_wf N" "i < 5" "rt_used (nib_routing_table N ! i)" shows "mesh_wf (put_route i N)"
proof -
  have "tbl_ok 5 rt_used ((nib_routing_table N)[i := (nib_routing_table N ! i)\<lparr>rt_used := False\<rparr>]) (dec8 (nib_routing_table_cnt N))"
    using tbl_put [OF mesh_wf_parts(1) [OF assms(1)] assms(2,3), of "\<lambda>e. e\<lparr>rt_used := False\<rparr>"] by (simp add: NWK_ARRAY_PUT_ENT_def)
  then show ?thesis
    using mesh_wf_parts(2,3,5) [OF assms(1)] set_update_all [OF mesh_wf_parts(4) [OF assms(1)], of "(nib_routing_table N ! i)\<lparr>rt_used := False\<rparr>" i]
    unfolding mesh_wf_def put_route_def NWK_ARRAY_PUT_ENT_def by (simp add: route_state_ok_def [of "_\<lparr>rt_used := False\<rparr>"])
qed

lemma put_disc_wf:
  assumes "mesh_wf N" "i < 5" "rd_used (nib_route_disc_table N ! i)" shows "mesh_wf (put_disc i N)"
proof -
  have "tbl_ok 5 rd_used ((nib_route_disc_table N)[i := (nib_route_disc_table N ! i)\<lparr>rd_used := False\<rparr>]) (dec8 (nib_route_disc_table_cnt N))"
    using tbl_put [OF mesh_wf_parts(2) [OF assms(1)] assms(2,3), of "\<lambda>e. e\<lparr>rd_used := False\<rparr>"] by (simp add: NWK_ARRAY_PUT_ENT_def)
  then show ?thesis
    using mesh_wf_parts(1,3,4) [OF assms(1)] mesh_wf_entry(2) [OF assms(1,2)]
      set_update_all [OF mesh_wf_parts(5) [OF assms(1)], of "(nib_route_disc_table N ! i)\<lparr>rd_used := False\<rparr>" i]
    unfolding mesh_wf_def put_disc_def NWK_ARRAY_PUT_ENT_def by simp
qed

lemma put_pend_wf:
  assumes "mesh_wf N" "i < 5" "pe_used (nib_pending_table N ! i)" shows "mesh_wf (put_pend i N)"
proof -
  have "tbl_ok 5 pe_used ((nib_pending_table N)[i := (nib_pending_table N ! i)\<lparr>pe_used := False\<rparr>]) (dec8 (nib_pending_table_cnt N))"
    using tbl_put [OF mesh_wf_parts(3) [OF assms(1)] assms(2,3), of "\<lambda>e. e\<lparr>pe_used := False\<rparr>"] by (simp add: NWK_ARRAY_PUT_ENT_def)
  then show ?thesis
    using mesh_wf_parts(1,2,4,5) [OF assms(1)] unfolding mesh_wf_def put_pend_def NWK_ARRAY_PUT_ENT_def by simp
qed

lemma get_route_upd_wf:
  assumes "mesh_wf N" "get_route N = Some (i, M)"
    "\<And>e. rt_used e \<Longrightarrow> rt_used (f e)" "\<And>e. route_state_ok (f e)"
  shows "mesh_wf (upd_route i f M)" "i < 5" "\<not> rt_used (nib_routing_table N ! i)"
proof -
  obtain ys d where g: "NWK_ARRAY_GET_ENT rt_used (\<lambda>e. e\<lparr>rt_used := True\<rparr>) (nib_routing_table N) (nib_routing_table_cnt N) = Some (i, ys, d)"
      "M = N\<lparr>nib_routing_table := ys, nib_routing_table_cnt := d\<rparr>"
    using assms(2) by (auto simp: get_route_def)
  have "tbl_ok 5 rt_used ys d \<and> i < 5 \<and> \<not> rt_used (nib_routing_table N ! i)
      \<and> ys = (nib_routing_table N)[i := (nib_routing_table N ! i)\<lparr>rt_used := True\<rparr>]"
    by (rule tbl_get [OF mesh_wf_parts(1) [OF assms(1)] g(1)]) simp_all
  then have t: "tbl_ok 5 rt_used ys d" "i < 5" "\<not> rt_used (nib_routing_table N ! i)"
      "ys = (nib_routing_table N)[i := (nib_routing_table N ! i)\<lparr>rt_used := True\<rparr>]" by blast+
  then show "i < 5" "\<not> rt_used (nib_routing_table N ! i)" by simp_all
  have "i < length (nib_routing_table N)" using t(2) mesh_wf_parts(6) [OF assms(1)] by simp
  then have y: "ys ! i = (nib_routing_table N ! i)\<lparr>rt_used := True\<rparr>" "ys[i := z] = (nib_routing_table N)[i := z]" for z
    using t(4) by simp_all
  have "tbl_ok 5 rt_used (ys[i := f (ys ! i)]) d" by (rule tbl_upd [OF t(1)]) (use assms(3) y in simp)
  then show "mesh_wf (upd_route i f M)"
    using mesh_wf_parts(2,3,5) [OF assms(1)] set_update_all [OF mesh_wf_parts(4) [OF assms(1)] assms(4)]
    unfolding mesh_wf_def upd_route_def g(2) by (simp add: y)
qed

lemma get_disc_upd_wf:
  assumes "mesh_wf N" "get_disc N = Some (i, M)"
    "\<And>e. rd_used e \<Longrightarrow> rd_used (f e)" "\<And>e. rd_expiration_time (f e) \<le> 10"
  shows "mesh_wf (upd_disc i f M)" "i < 5" "\<not> rd_used (nib_route_disc_table N ! i)"
proof -
  obtain ys d where g: "NWK_ARRAY_GET_ENT rd_used (\<lambda>e. e\<lparr>rd_used := True\<rparr>) (nib_route_disc_table N) (nib_route_disc_table_cnt N) = Some (i, ys, d)"
      "M = N\<lparr>nib_route_disc_table := ys, nib_route_disc_table_cnt := d\<rparr>"
    using assms(2) by (auto simp: get_disc_def)
  have "tbl_ok 5 rd_used ys d \<and> i < 5 \<and> \<not> rd_used (nib_route_disc_table N ! i)
      \<and> ys = (nib_route_disc_table N)[i := (nib_route_disc_table N ! i)\<lparr>rd_used := True\<rparr>]"
    by (rule tbl_get [OF mesh_wf_parts(2) [OF assms(1)] g(1)]) simp_all
  then have t: "tbl_ok 5 rd_used ys d" "i < 5" "\<not> rd_used (nib_route_disc_table N ! i)"
      "ys = (nib_route_disc_table N)[i := (nib_route_disc_table N ! i)\<lparr>rd_used := True\<rparr>]" by blast+
  then show "i < 5" "\<not> rd_used (nib_route_disc_table N ! i)" by simp_all
  have "i < length (nib_route_disc_table N)" using t(2) mesh_wf_parts(7) [OF assms(1)] by simp
  then have y: "ys ! i = (nib_route_disc_table N ! i)\<lparr>rd_used := True\<rparr>" "ys[i := z] = (nib_route_disc_table N)[i := z]" for z
    using t(4) by simp_all
  have "tbl_ok 5 rd_used (ys[i := f (ys ! i)]) d" by (rule tbl_upd [OF t(1)]) (use assms(3) y in simp)
  then show "mesh_wf (upd_disc i f M)"
    using mesh_wf_parts(1,3,4) [OF assms(1)] set_update_all [OF mesh_wf_parts(5) [OF assms(1)] assms(4)]
    unfolding mesh_wf_def upd_disc_def g(2) by (simp add: y)
qed

lemma get_pend_upd_wf:
  assumes "mesh_wf N" "get_pend N = Some (i, M)" "\<And>e. pe_used e \<Longrightarrow> pe_used (f e)"
  shows "mesh_wf (upd_pend i f M)" "i < 5" "\<not> pe_used (nib_pending_table N ! i)"
proof -
  obtain ys d where g: "NWK_ARRAY_GET_ENT pe_used (\<lambda>e. e\<lparr>pe_used := True\<rparr>) (nib_pending_table N) (nib_pending_table_cnt N) = Some (i, ys, d)"
      "M = N\<lparr>nib_pending_table := ys, nib_pending_table_cnt := d\<rparr>"
    using assms(2) by (auto simp: get_pend_def)
  have "tbl_ok 5 pe_used ys d \<and> i < 5 \<and> \<not> pe_used (nib_pending_table N ! i)
      \<and> ys = (nib_pending_table N)[i := (nib_pending_table N ! i)\<lparr>pe_used := True\<rparr>]"
    by (rule tbl_get [OF mesh_wf_parts(3) [OF assms(1)] g(1)]) simp_all
  then have t: "tbl_ok 5 pe_used ys d" "i < 5" "\<not> pe_used (nib_pending_table N ! i)"
      "ys = (nib_pending_table N)[i := (nib_pending_table N ! i)\<lparr>pe_used := True\<rparr>]" by blast+
  then show "i < 5" "\<not> pe_used (nib_pending_table N ! i)" by simp_all
  have "i < length (nib_pending_table N)" using t(2) mesh_wf_parts(8) [OF assms(1)] by simp
  then have y: "ys ! i = (nib_pending_table N ! i)\<lparr>pe_used := True\<rparr>" using t(4) by simp
  have "tbl_ok 5 pe_used (ys[i := f (ys ! i)]) d" by (rule tbl_upd [OF t(1)]) (use assms(3) y in simp)
  then show "mesh_wf (upd_pend i f M)"
    using mesh_wf_parts(1,2,4,5) [OF assms(1)] unfolding mesh_wf_def upd_pend_def g(2) by simp
qed

lemma find_wf:
  assumes "mesh_wf N"
  shows "find_route P N = Some i \<Longrightarrow> i < 5 \<and> rt_used (nib_routing_table N ! i) \<and> P (nib_routing_table N ! i)"
    "find_disc Q N = Some i \<Longrightarrow> i < 5 \<and> rd_used (nib_route_disc_table N ! i) \<and> Q (nib_route_disc_table N ! i)"
    "find_pend R N = Some i \<Longrightarrow> i < 5 \<and> pe_used (nib_pending_table N ! i) \<and> R (nib_pending_table N ! i)"
  using tbl_find mesh_wf_parts(6-8) [OF assms] unfolding find_route_def find_disc_def find_pend_def by (metis (no_types, lifting))+


section \<open>What the helpers leave alone\<close>

lemma schedule_alarm_nwk:
  "zb_schedule_alarm f p d g = Some (g', r) \<Longrightarrow> nwk g' = nwk g"
  by (auto simp: zb_schedule_alarm_def Let_def bind_eq_Some_conv split: prod.splits option.splits)

lemma alarm_cancel_nwk: "zb_schedule_alarm_cancel f p g = Some (g', r) \<Longrightarrow> nwk g' = nwk g"
  by (auto simp: zb_schedule_alarm_cancel_def bind_eq_Some_conv)

lemma schedule_buf_nwk: "schedule_buf f b g = Some g' \<Longrightarrow> nwk g' = nwk g"
  using schedule_buf_sched by fastforce

lemma free_buf_nwk: "zb_free_buf b g = Some g' \<Longrightarrow> nwk g' = nwk g"
  using free_buf_fields by fastforce

lemma get_delayed_nwk: "zb_get_out_buf_delayed f g = Some (g', r) \<Longrightarrow> nwk g' = nwk g"
  by (auto simp: zb_get_out_buf_delayed_def zb_get_buf_delayed_def bind_eq_Some_conv Let_def
      dest!: schedule_callback_sched split: option.splits prod.splits if_splits)

lemma put_buf_nwk [simp]: "nwk (put_buf i b g) = nwk g"
  by (simp add: put_buf_def)

lemma put_param_nwk [simp]: "nwk (put_param i v g) = nwk g"
  by (simp add: put_param_def)

lemma nib_upd_nib [simp]: "nib (nwk (upd_nib f g)) = f (nib (nwk g))"
  by (simp add: upd_nib_def)

lemma neighbor_get_by_short_nib: "zb_nwk_neighbor_get_by_short a g = Some (g', r, n) \<Longrightarrow> nib (nwk g') = nib (nwk g)"
  by (auto simp: zb_nwk_neighbor_get_by_short_def Let_def bind_eq_Some_conv dest!: neighbor_get_nib split: if_splits)

lemma path_cost_nib: "NWK_CALC_PATH_COST a g = Some (g', c) \<Longrightarrow> nib (nwk g') = nib (nwk g)"
  by (auto simp: NWK_CALC_PATH_COST_def bind_eq_Some_conv dest!: neighbor_get_by_short_nib split: if_splits)

lemma confirm_nwk: "NWK_ROUTE_DISCOVERY_CONFIRM b s ns g = Some g' \<Longrightarrow> nwk g' = nwk g"
  by (auto simp: NWK_ROUTE_DISCOVERY_CONFIRM_def bind_eq_Some_conv dest!: schedule_buf_nwk)

lemma forward_buf_nwk: "forward_buf b h g = Some g' \<Longrightarrow> nwk g' = nwk g"
  by (auto simp: forward_buf_def dest!: schedule_buf_nwk)

lemma fill_hdr_tables: "nwk_alloc_and_fill_hdr b d s t m c x a N = Some (b', M, p) \<Longrightarrow> mesh_tables M = mesh_tables N"
  by (auto simp: nwk_alloc_and_fill_hdr_def Let_def bind_eq_Some_conv mesh_tables_def)

lemma put_route_cmd_tables: "put_route_cmd b d c p r s g = Some g' \<Longrightarrow> mesh_tables (nib (nwk g')) = mesh_tables (nib (nwk g))"
  by (auto simp: put_route_cmd_def bind_eq_Some_conv dest!: fill_hdr_tables)

lemma send_rreq_tables:
  "zb_nwk_mesh_send_rreq b rq a s c r g = Some g' \<Longrightarrow> mesh_tables (nib (nwk g')) = mesh_tables (nib (nwk g))"
  by (auto simp: zb_nwk_mesh_send_rreq_def bind_eq_Some_conv dest!: put_route_cmd_tables forward_buf_nwk)

lemma send_rrep_tables:
  "zb_nwk_mesh_send_rrep b i o' r c a g = Some g' \<Longrightarrow> mesh_tables (nib (nwk g')) = mesh_tables (nib (nwk g))"
  by (auto simp: zb_nwk_mesh_send_rrep_def bind_eq_Some_conv dest!: put_route_cmd_tables forward_buf_nwk)

section \<open>Every handler keeps the invariant\<close>

abbreviation mesh_ok :: "'z zb_globals_n_scheme \<Rightarrow> bool" where
  "mesh_ok g \<equiv> mesh_wf (nib (nwk g))"

lemma rreq_route_wf:
  assumes "mesh_wf N" "rreq_route d N = Some (i, M)"
  shows "mesh_wf M" "i < 5" "rt_used (nib_routing_table M ! i)"
proof -
  have "mesh_wf M \<and> i < 5 \<and> rt_used (nib_routing_table M ! i)"
  proof (cases "find_route (\<lambda>e. rt_dest_addr e = d) N")
    case (Some j)
    note f = find_wf(1) [OF assms(1) Some]
    have M: "i = j" "M = upd_route j (\<lambda>e. if rt_status e \<noteq> ZB_NWK_ROUTE_STATE_ACTIVE
        \<and> rt_status e \<noteq> ZB_NWK_ROUTE_STATE_VALIDATION_UNDERWAY
        then e\<lparr>rt_status := ZB_NWK_ROUTE_STATE_DISCOVERY_UNDERWAY\<rparr> else e) N"
      using assms(2) Some by (auto simp: rreq_route_def)
    have "mesh_wf M" unfolding M(2) by (rule upd_route_wf) (use assms(1) f in \<open>auto simp: route_state_ok_def\<close>)
    then show ?thesis using f mesh_wf_parts(6) [OF assms(1)] M by (simp add: upd_route_def)
  next
    case None
    then obtain M0 where M: "get_route N = Some (i, M0)"
        "M = upd_route i (\<lambda>e. e\<lparr>rt_dest_addr := d, rt_status := ZB_NWK_ROUTE_STATE_DISCOVERY_UNDERWAY\<rparr>) M0"
      using assms(2) by (auto simp: rreq_route_def)
    have *: "mesh_wf M" "i < 5"
      unfolding M(2)
      by (rule get_route_upd_wf [OF assms(1) M(1), where f = "\<lambda>e. e\<lparr>rt_dest_addr := d, rt_status := ZB_NWK_ROUTE_STATE_DISCOVERY_UNDERWAY\<rparr>"];
          simp add: route_state_ok_def)+
    have "nib_routing_table M0 = (nib_routing_table N)[i := (nib_routing_table N ! i)\<lparr>rt_used := True\<rparr>]"
      using M(1) by (auto simp: get_route_def NWK_ARRAY_GET_ENT_def)
    then show ?thesis using * mesh_wf_parts(6) [OF assms(1)] M(2) by (simp add: upd_route_def)
  qed
  then show "mesh_wf M" "i < 5" "rt_used (nib_routing_table M ! i)" by simp_all
qed

lemma rreq_disc_ok:
  assumes "mesh_ok g" "rreq_disc b hdr rq c g = Some (res, g')"
  shows "mesh_ok g'"
proof (cases "find_disc (\<lambda>e. rd_request_id e = rq_rreq_id rq \<and> rd_source_addr e = nh_src_addr hdr) (nib (nwk g))")
  case (Some i)
  note f = find_wf(2) [OF assms(1) Some]
  have "mesh_wf (upd_disc i (\<lambda>e. e\<lparr>rd_sender_addr := a, rd_forward_cost := c\<rparr>) (nib (nwk g)))" for a
    by (rule upd_disc_wf) (use assms(1) f mesh_wf_entry(2) [OF assms(1)] in auto)
  then show ?thesis using assms Some by (auto simp: rreq_disc_def bind_eq_Some_conv split: if_splits)
next
  case None
  show ?thesis
  proof (cases "get_disc (nib (nwk g))")
    case None
    then show ?thesis using assms \<open>find_disc _ _ = None\<close> by (simp add: rreq_disc_def)
  next
    case (Some x)
    obtain i M where x: "x = (i, M)" by (cases x)
    have "mesh_wf (upd_disc i (\<lambda>e. e\<lparr>rd_request_id := q, rd_source_addr := s, rd_sender_addr := a, rd_dest_addr := d,
        rd_forward_cost := c, rd_residual_cost := 0xff, rd_expiration_time := ZB_NWK_ROUTE_DISCOVERY_EXPIRY\<rparr>) M)" for q s a d
      by (rule get_disc_upd_wf(1) [OF assms(1) Some [unfolded x]]) (simp_all add: ZB_NWK_ROUTE_DISCOVERY_EXPIRY_def)
    then show ?thesis using assms \<open>find_disc _ _ = None\<close> Some x by (auto simp: rreq_disc_def bind_eq_Some_conv)
  qed
qed

lemma upd_disc_routes [simp]: "nib_routing_table (upd_disc i f N) = nib_routing_table N"
  by (simp add: upd_disc_def)

lemma rreq_disc_routes: "rreq_disc b hdr rq c g = Some (res, g') \<Longrightarrow> nib_routing_table (nib (nwk g')) = nib_routing_table (nib (nwk g))"
  by (auto simp: rreq_disc_def bind_eq_Some_conv get_disc_def split: option.splits if_splits)

lemma rreq_answer_tables: "rreq_answer b hdr rq c g = Some g' \<Longrightarrow> mesh_tables (nib (nwk g')) = mesh_tables (nib (nwk g))"
  by (auto simp: rreq_answer_def bind_eq_Some_conv dest!: neighbor_get_by_short_nib send_rreq_tables send_rrep_tables split: if_splits)

lemma rreq_error_nib:
  "rreq_error b None r d g = Some g' \<Longrightarrow>
   nib (nwk g') = (case r of None \<Rightarrow> nib (nwk g) | Some i \<Rightarrow> put_route i (nib (nwk g)))"
  by (auto simp: rreq_error_def Let_def dest!: confirm_nwk free_buf_nwk split: option.splits if_splits)

lemma rreq_handler_ok:
  assumes "mesh_ok g" "zb_nwk_mesh_rreq_handler b hdr rq g = Some g'"
  shows "mesh_ok g'"
proof -
  obtain g1 c where c: "NWK_CALC_PATH_COST (nh_src_addr hdr) g = Some (g1, c)"
    using assms(2) by (auto simp: zb_nwk_mesh_rreq_handler_def bind_eq_Some_conv)
  have 1: "mesh_ok g1" using assms(1) path_cost_nib [OF c] by simp
  show ?thesis
  proof (cases "rreq_route (rq_dest_addr rq) (nib (nwk g1))")
    case None
    then show ?thesis using assms(2) c 1 by (auto simp: zb_nwk_mesh_rreq_handler_def Let_def dest!: rreq_error_nib)
  next
    case (Some x)
    obtain i N where x: "x = (i, N)" by (cases x)
    note r = rreq_route_wf [OF 1 Some [unfolded x]]
    obtain res g2 where d: "rreq_disc b hdr rq (c + rq_path_cost rq) (upd_nib (\<lambda>_. N) g1) = Some (res, g2)"
      using assms(2) c Some x by (auto simp: zb_nwk_mesh_rreq_handler_def Let_def bind_eq_Some_conv)
    have 2: "mesh_ok g2" using rreq_disc_ok [OF _ d] r(1) by simp
    have "rt_used (nib_routing_table (nib (nwk g2)) ! i)" using rreq_disc_routes [OF d] r(3) by simp
    then have "mesh_wf (put_route i (nib (nwk g2)))" by (rule put_route_wf [OF 2 r(2)])
    moreover have "mesh_ok h" if "rreq_answer b hdr rq k g2 = Some h" for k and h :: "'a zb_globals_s_scheme"
      using mesh_wf_tables [OF rreq_answer_tables [OF that]] 2 by simp
    ultimately show ?thesis using assms(2) c Some x d 2
      by (auto simp: zb_nwk_mesh_rreq_handler_def Let_def dest!: rreq_error_nib free_buf_nwk split: rreq_result.splits)
  qed
qed

lemma nib_field_ok:
  "mesh_wf N \<Longrightarrow> mesh_wf (N\<lparr>nib_rreq_id := i\<rparr>)" "mesh_wf N \<Longrightarrow> mesh_wf (N\<lparr>nib_aps_rreq_addr := x\<rparr>)"
  by (simp_all add: mesh_wf_def)

lemma route_discovery_ok:
  assumes "mesh_ok g" "zb_nwk_mesh_route_discovery cb d r g = Some g'" shows "mesh_ok g'"
proof (cases cb)
  case None
  then show ?thesis using assms by (auto simp: zb_nwk_mesh_route_discovery_def dest!: get_delayed_nwk)
next
  case (Some b)
  obtain h hdr rq where "zb_nwk_mesh_rreq_handler b hdr rq h = Some g'" "nib (nwk h) = (nib (nwk g))\<lparr>nib_rreq_id := nib_rreq_id (nib (nwk g)) + 1\<rparr>"
    using assms(2) Some that by (force simp: zb_nwk_mesh_route_discovery_def Let_def bind_eq_Some_conv)
  then show ?thesis using rreq_handler_ok [of h b hdr rq g'] nib_field_ok(1) [OF assms(1)] by simp
qed

lemma initiate_ok:
  assumes "mesh_ok g" "zb_nwk_mesh_initiate_route_discovery b g = Some g'" shows "mesh_ok g'"
proof -
  obtain i d g1 where "zb_nwk_mesh_route_discovery (Some b) d 0 g = Some g1" "g' = upd_nib (upd_pend i (\<lambda>e. e\<lparr>pe_waiting_buf := False\<rparr>)) g1"
    using assms(2) by (auto simp: zb_nwk_mesh_initiate_route_discovery_def bind_eq_Some_conv split: option.splits)
  then show ?thesis using route_discovery_ok [OF assms(1)] by (auto intro: upd_pend_wf)
qed

lemma discovery_request_ok:
  assumes "mesh_ok g" "zb_nlme_route_discovery_request b g = Some g'" shows "mesh_ok g'"
proof -
  have a: "mesh_ok h'" if "zb_nwk_mesh_route_discovery c d r (upd_nib (\<lambda>N. N\<lparr>nib_aps_rreq_addr := x\<rparr>) h) = Some h'" "mesh_ok h"
    for c d r x and h h' :: "'a zb_globals_s_scheme"
    using route_discovery_ok [OF _ that(1)] nib_field_ok(2) [OF that(2)] by simp
  have k: "mesh_ok h'" if "NWK_ROUTE_DISCOVERY_CONFIRM b s ns h = Some h'" "mesh_ok h" for s ns and h h' :: "'a zb_globals_s_scheme"
    using confirm_nwk [OF that(1)] that(2) by simp
  obtain req where "buf_param g b = Route_discovery_req req"
    using assms(2) by (auto simp: zb_nlme_route_discovery_request_def split: zb_buf_param.splits)
  then show ?thesis using assms
    by (auto simp: zb_nlme_route_discovery_request_def bind_eq_Some_conv split: if_splits
        dest!: neighbor_get_by_short_nib elim: a k)
qed

lemma send_pending_ok:
  "mesh_ok g \<Longrightarrow> \<forall>i\<in>set is. i < 5 \<Longrightarrow> send_pending is d g = Some g' \<Longrightarrow> mesh_ok g'"
proof (induction "is" arbitrary: g)
  case (Cons i "is")
  let ?e = "nib_pending_table (nib (nwk g)) ! i"
  show ?case
  proof (cases "pe_used ?e \<and> pe_dest_addr ?e = d")
    case True
    then obtain g1 where g1: "forward_buf (pe_buf ?e) (pe_handle ?e) g = Some g1" "send_pending is d (upd_nib (put_pend i) g1) = Some g'"
      using Cons.prems(3) by (auto simp: Let_def bind_eq_Some_conv)
    have "mesh_wf (put_pend i (nib (nwk g)))" by (rule put_pend_wf) (use Cons.prems True in auto)
    then show ?thesis using Cons.IH [OF _ _ g1(2)] Cons.prems(2) forward_buf_nwk [OF g1(1)] by simp
  next
    case False
    then show ?thesis using Cons by (auto simp: Let_def)
  qed
qed simp

lemma rrep_arrived_ok:
  assumes "mesh_ok g" "rrep_arrived b d g = Some g'" shows "mesh_ok g'"
proof -
  have a: "mesh_ok (upd_nib (\<lambda>N. N\<lparr>nib_aps_rreq_addr := x\<rparr>) h)" if "mesh_ok h" for x and h :: "'a zb_globals_s_scheme"
    using that mesh_wf_tables [of "(nib (nwk h))\<lparr>nib_aps_rreq_addr := x\<rparr>" "nib (nwk h)"] by (simp add: mesh_tables_def)
  obtain g1 where g1: "send_pending [0..<ZB_NWK_PENDING_TABLE_SIZE] d g = Some g1"
    using assms(2) by (auto simp: rrep_arrived_def bind_eq_Some_conv)
  have "mesh_ok g1" by (rule send_pending_ok [OF assms(1) _ g1]) (simp add: ZB_NWK_PENDING_TABLE_SIZE_def)
  then show ?thesis using assms(2) g1 a
    by (auto simp: rrep_arrived_def bind_eq_Some_conv dest!: confirm_nwk split: if_splits)
qed

lemma accept_reply_ok:
  assumes "mesh_wf N" "d < 5" "r < 5" shows "mesh_wf (accept_reply c a d r N)"
proof -
  have "mesh_wf (upd_disc d (\<lambda>e. e\<lparr>rd_residual_cost := c, rd_expiration_time := ZB_NWK_ROUTE_DISCOVERY_EXPIRY\<rparr>) N)"
    by (rule upd_disc_wf) (simp_all add: assms ZB_NWK_ROUTE_DISCOVERY_EXPIRY_def)
  then show ?thesis unfolding accept_reply_def by (rule upd_route_wf) (auto simp: assms route_state_ok_def)
qed

lemma rrep_handler_ok:
  assumes "mesh_ok g" "zb_nwk_mesh_rrep_handler b hdr rp g = Some g'" shows "mesh_ok g'"
proof -
  obtain a g1 c where c: "nwk_get_mac_source_addr b g = Some a" "NWK_CALC_PATH_COST (nh_src_addr hdr) g = Some (g1, c)"
    using assms(2) by (auto simp: zb_nwk_mesh_rrep_handler_def bind_eq_Some_conv)
  let ?N = "nib (nwk g1)"
  have 1: "mesh_ok g1" using assms(1) path_cost_nib [OF c(2)] by simp
  obtain x y where e: "rrep_entries rp ?N = (x, y)" by fastforce
  then have d: "x = Some i \<Longrightarrow> i < 5 \<and> rd_used (nib_route_disc_table ?N ! i)" for i
    using find_wf(2) [OF 1] by (auto simp: rrep_entries_def)
  have r: "y = Some i \<Longrightarrow> i < 5 \<and> rt_used (nib_routing_table ?N ! i)" for i
    using find_wf(1) [OF 1] e by (auto simp: rrep_entries_def)
  have p: "mesh_wf (put_disc i ?N)" if "x = Some i" for i using put_disc_wf [OF 1] d [OF that] by simp
  have q: "mesh_wf (put_route i ?N)" if "y = Some i" for i using put_route_wf [OF 1] r [OF that] by simp
  have ar: "mesh_ok (upd_nib (accept_reply k a i j) g1)" if "x = Some i" "y = Some j" for i j k
    using accept_reply_ok [OF 1] d [OF that(1)] r [OF that(2)] by simp
  show ?thesis
  proof (cases x; cases y)
    fix i j assume xy: "x = Some i" "y = Some j"
    have t: "mesh_ok h" if "zb_nwk_mesh_send_rrep b' q o' s k l (upd_nib (accept_reply k' a i j) g1) = Some h"
      for b' q o' s k l k' and h :: "'a zb_globals_s_scheme"
      using mesh_wf_tables [OF send_rrep_tables [OF that]] ar [OF xy] by simp
    show ?thesis using assms(2) c e xy 1 rrep_arrived_ok [OF ar [OF xy]] t
      by (auto simp: zb_nwk_mesh_rrep_handler_def Let_def bind_eq_Some_conv dest!: free_buf_nwk split: if_splits)
  qed (use assms(2) c e 1 p q in \<open>auto simp: zb_nwk_mesh_rrep_handler_def Let_def dest!: free_buf_nwk\<close>)
qed

lemma expired_route_spec:
  assumes "mesh_wf N" "expired_route N = Some i"
  shows "i < 5 \<and> rt_used (nib_routing_table N ! i) \<and> rt_dest_addr (nib_routing_table N ! i) = rd_dest_addr (nib_route_disc_table N ! i)
    \<and> rt_status (nib_routing_table N ! i) \<noteq> ZB_NWK_ROUTE_STATE_ACTIVE"
  using assms(2) mesh_wf_parts(6) [OF assms(1)] unfolding expired_route_def by (auto dest!: find_nat_Some)

lemma put_disc_fields [simp]: "nib_routing_table (put_disc i N) = nib_routing_table N"
  by (simp add: put_disc_def NWK_ARRAY_PUT_ENT_def)

lemma dec_le: "x \<noteq> 0 \<Longrightarrow> x \<le> 10 \<Longrightarrow> x - 1 \<le> (10 :: zb_uint16_t)"
  by (simp add: word_le_nat_alt unat_minus_one)

lemma expire_disc_ok:
  "mesh_ok g \<Longrightarrow> \<forall>i\<in>set is. i < 5 \<Longrightarrow> expire_disc is g = Some (g', all) \<Longrightarrow> mesh_ok g'"
proof (induction "is" arbitrary: g)
  case (Cons i "is")
  let ?N = "nib (nwk g)"
  let ?e = "nib_route_disc_table ?N ! i"
  have i: "i < 5" using Cons.prems(2) by simp
  consider "\<not> rd_used ?e" | "rd_used ?e" "rd_expiration_time ?e \<noteq> 0" | "rd_used ?e" "rd_expiration_time ?e = 0" by blast
  then show ?case
  proof cases
    case 1
    then show ?thesis using Cons by simp
  next
    case 2
    have "mesh_wf (upd_disc i (\<lambda>e. e\<lparr>rd_expiration_time := rd_expiration_time e - 1\<rparr>) ?N)"
      by (rule upd_disc_wf) (use Cons.prems(1) mesh_wf_entry(2) [OF Cons.prems(1) i] 2 dec_le in auto)
    then show ?thesis
      using Cons.IH [of "upd_nib (upd_disc i (\<lambda>e. e\<lparr>rd_expiration_time := rd_expiration_time e - 1\<rparr>)) g"] Cons.prems 2
      by simp
  next
    case 3
    have p: "mesh_wf (put_disc i ?N)" by (rule put_disc_wf [OF Cons.prems(1) i 3(1)])
    show ?thesis
    proof (cases "expired_route ?N")
      case None
      then show ?thesis using Cons.IH [of "upd_nib (put_disc i) g"] Cons.prems 3 p by simp
    next
      case (Some r)
      then have "mesh_wf (put_route r (put_disc i ?N))"
        using put_route_wf [OF p] expired_route_spec [OF Cons.prems(1) Some] by simp
      then show ?thesis using Cons.prems(3) 3 Some
        by (auto simp: Let_def bind_eq_Some_conv upd_nib_def dest!: get_delayed_nwk)
    qed
  qed
qed simp

lemma expiry_route_disc_ok:
  assumes "mesh_ok g" "zb_nwk_mesh_expiry_route_disc g = Some g'" shows "mesh_ok g'"
proof -
  have s: "mesh_ok h'" if "schedule_expiry_route_disc h = Some h'" "mesh_ok h" for h h' :: "'a zb_globals_n_scheme"
    using that by (auto simp: schedule_expiry_route_disc_def dest!: schedule_alarm_nwk)
  have d: "mesh_ok h" if "expire_disc [0..<ZB_NWK_ROUTE_DISCOVERY_TABLE_SIZE] g = Some (h, all)" for h all
    by (rule expire_disc_ok [OF assms(1) _ that]) (simp add: ZB_NWK_ROUTE_DISCOVERY_TABLE_SIZE_def)
  show ?thesis using assms d
    by (auto simp: zb_nwk_mesh_expiry_route_disc_def bind_eq_Some_conv split: if_splits elim: s)
qed

lemma expire_pending_ok:
  "mesh_ok g \<Longrightarrow> \<forall>i\<in>set is. i < 5 \<Longrightarrow> expire_pending is g = Some g' \<Longrightarrow> mesh_ok g'"
proof (induction "is" arbitrary: g)
  case (Cons i "is")
  let ?e = "nib_pending_table (nib (nwk g)) ! i"
  have i: "i < 5" using Cons.prems(2) by simp
  consider "\<not> pe_used ?e" | "pe_used ?e" "pe_expiry ?e \<noteq> 0" | "pe_used ?e" "pe_expiry ?e = 0" by blast
  then show ?case
  proof cases
    case 1
    then show ?thesis using Cons by simp
  next
    case 2
    have "mesh_wf (upd_pend i (\<lambda>e. e\<lparr>pe_expiry := pe_expiry e - 1\<rparr>) (nib (nwk g)))"
      by (rule upd_pend_wf) (use Cons.prems(1) in auto)
    then show ?thesis
      using Cons.IH [of "upd_nib (upd_pend i (\<lambda>e. e\<lparr>pe_expiry := pe_expiry e - 1\<rparr>)) g"] Cons.prems 2 by simp
  next
    case 3
    have p: "mesh_wf (put_pend i (nib (nwk g)))" by (rule put_pend_wf [OF Cons.prems(1) i 3(1)])
    obtain g1 where "zb_free_buf (pe_buf ?e) g = Some g1" "expire_pending is (upd_nib (put_pend i) g1) = Some g'"
      using Cons.prems(3) 3 by (auto simp: bind_eq_Some_conv)
    then show ?thesis using Cons.IH [of "upd_nib (put_pend i) g1"] Cons.prems(2) p free_buf_nwk by fastforce
  qed
qed simp

lemma expiry_pending_ok:
  assumes "mesh_ok g" "zb_nwk_mesh_expiry_pending g = Some g'" shows "mesh_ok g'"
proof -
  have s: "mesh_ok h'" if "schedule_expiry_pending h = Some h'" "mesh_ok h" for h h' :: "'a zb_globals_n_scheme"
    using that by (auto simp: schedule_expiry_pending_def dest!: schedule_alarm_nwk)
  have d: "mesh_ok h" if "expire_pending [0..<ZB_NWK_PENDING_TABLE_SIZE] g = Some h" for h
    by (rule expire_pending_ok [OF assms(1) _ that]) (simp add: ZB_NWK_PENDING_TABLE_SIZE_def)
  show ?thesis using assms d
    by (auto simp: zb_nwk_mesh_expiry_pending_def bind_eq_Some_conv split: if_splits elim: s)
qed

lemma add_pending_ok:
  assumes "mesh_ok g" "zb_nwk_mesh_add_buf_to_pending b h g = Some (g', r)" shows "mesh_ok g'"
  using assms(2) get_pend_upd_wf(1) [OF assms(1), where f = "\<lambda>e. e\<lparr>pe_buf := _, pe_handle := _, pe_dest_addr := _,
      pe_expiry := _, pe_waiting_buf := _\<rparr>"] assms(1)
  by (auto simp: zb_nwk_mesh_add_buf_to_pending_def bind_eq_Some_conv split: option.splits)

lemma wait_for_route_ok:
  assumes "mesh_ok g" "wait_for_route b h d st g = Some (g', res)" shows "mesh_ok g'"
  using assms by (auto simp: wait_for_route_def bind_eq_Some_conv split: if_splits dest: add_pending_ok route_discovery_ok)

lemma dest_neighbor_nib: "dest_neighbor p nw d g = Some (g', n) \<Longrightarrow> nib (nwk g') = nib (nwk g)"
  by (auto simp: dest_neighbor_def bind_eq_Some_conv Let_def dest!: neighbor_get_nib split: if_splits)

lemma neighbor_of_short_nib: "neighbor_of_short a g = Some (g', n) \<Longrightarrow> nib (nwk g') = nib (nwk g)"
  by (auto simp: neighbor_of_short_def bind_eq_Some_conv Let_def split: if_splits)

lemma tree_route_nib: "zb_nwk_tree_routing_route d g = Some (g', n) \<Longrightarrow> nib (nwk g') = nib (nwk g)"
  by (auto simp: zb_nwk_tree_routing_route_def zb_nwk_tree_routing_find_router_def bind_eq_Some_conv Let_def
      dest!: neighbor_get_nib neighbor_of_short_nib split: if_splits option.splits)

lemma route_destination_ok:
  assumes "mesh_ok g" "route_destination b h d disc g = Some (g', res)" shows "mesh_ok g'"
proof -
  have a: "mesh_wf (upd_route (the (zb_nwk_mesh_find_route d (nib (nwk g)))) (\<lambda>e. e\<lparr>rt_status := ZB_NWK_ROUTE_STATE_ACTIVE\<rparr>) (nib (nwk g)))"
    if "zb_nwk_mesh_find_route d (nib (nwk g)) \<noteq> None"
  proof -
    obtain i where "zb_nwk_mesh_find_route d (nib (nwk g)) = Some i" using \<open>_ \<noteq> None\<close> by blast
    moreover from this have "i < 5" using find_wf(1) [OF assms(1)] by (simp add: zb_nwk_mesh_find_route_def)
    ultimately show ?thesis using assms(1) by (auto intro!: upd_route_wf simp: route_state_ok_def)
  qed
  show ?thesis using assms a
    by (auto simp: route_destination_def Let_def bind_eq_Some_conv split: if_splits option.splits
        dest: wait_for_route_ok dest!: tree_route_nib)
qed

text \<open>The result is the own state, what the neighbor lookup leaves, or what the mesh and the tree make of that.\<close>

lemma calc_destination_cases:
  assumes "nwk_calc_destination b h g = Some (g', res)"
  obtains (own) "g' = g" | (neighbor) p nw d n where "dest_neighbor p nw d g = Some (g', Some n)"
  | (route) p nw d g1 f where "dest_neighbor p nw d g = Some (g1, None)" "route_destination b h d f g1 = Some (g', res)"
proof -
  obtain p where p: "get_buf b g = Some p" using assms by (auto simp: nwk_calc_destination_def bind_eq_Some_conv)
  obtain d where d: "rd16 (b_buf p) (ZB_BUF_BEGIN p + 2) = Some d"
    using assms p by (auto simp: nwk_calc_destination_def Let_def bind_eq_Some_conv)
  show ?thesis
  proof (cases "nib_device_type (nib (nwk g)) = ucast ZB_NWK_DEVICE_TYPE_ED \<or> ZB_NWK_IS_ADDRESS_BROADCAST d")
    case True
    then show ?thesis using own assms p d by (auto simp: nwk_calc_destination_def Let_def bind_eq_Some_conv split: if_splits)
  next
    case False
    then obtain g1 n where n: "dest_neighbor (b_buf p) (ZB_BUF_BEGIN p) d g = Some (g1, n)"
      using assms p d by (auto simp: nwk_calc_destination_def Let_def bind_eq_Some_conv)
    show ?thesis
    proof (cases n)
      case None
      then obtain f where "route_destination b h d f g1 = Some (g', res)"
        using assms p d n False by (auto simp: nwk_calc_destination_def Let_def bind_eq_Some_conv)
      then show ?thesis using route n None by simp
    next
      case (Some m)
      then have "g' = g1" using assms p d n False by (auto simp: nwk_calc_destination_def Let_def bind_eq_Some_conv)
      then show ?thesis using neighbor n Some by simp
    qed
  qed
qed

lemma calc_destination_ok:
  assumes "mesh_ok g" "nwk_calc_destination b h g = Some (g', res)" shows "mesh_ok g'"
  using assms(2)
proof (cases rule: calc_destination_cases)
  case (route p nw d g1 f)
  then show ?thesis using route_destination_ok [OF _ route(2)] dest_neighbor_nib [OF route(1)] assms(1) by simp
next
  case (neighbor p nw d n)
  then show ?thesis using dest_neighbor_nib [OF neighbor] assms(1) by simp
qed (simp add: assms(1))

text \<open>
  The steps of the program: every handler that works on the tables, and any other step that does not touch them.
\<close>

inductive mesh_step :: "'z zb_globals_s_scheme \<Rightarrow> 'z zb_globals_s_scheme \<Rightarrow> bool" where
  Init: "zb_nwk_mesh_routing_init g = Some g' \<Longrightarrow> mesh_step g g'"
| Deinit: "zb_nwk_mesh_routing_deinit g = Some g' \<Longrightarrow> mesh_step g g'"
| Request: "zb_nlme_route_discovery_request b g = Some g' \<Longrightarrow> mesh_step g g'"
| Initiate: "zb_nwk_mesh_initiate_route_discovery b g = Some g' \<Longrightarrow> mesh_step g g'"
| Rreq: "zb_nwk_mesh_rreq_handler b hdr rreq g = Some g' \<Longrightarrow> mesh_step g g'"
| Rrep: "zb_nwk_mesh_rrep_handler b hdr rrep g = Some g' \<Longrightarrow> mesh_step g g'"
| Disc_failed: "nwk_route_disc_failed b g = Some g' \<Longrightarrow> mesh_step g g'"
| Expiry_route_disc: "zb_nwk_mesh_expiry_route_disc g = Some g' \<Longrightarrow> mesh_step g g'"
| Expiry_pending: "zb_nwk_mesh_expiry_pending g = Some g' \<Longrightarrow> mesh_step g g'"
| Destination: "nwk_calc_destination b h g = Some (g', res) \<Longrightarrow> mesh_step g g'"
| Other: "mesh_tables (nib (nwk g')) = mesh_tables (nib (nwk g)) \<Longrightarrow> mesh_step g g'"

lemma alarm_steps_nwk:
  "schedule_expiry_route_disc g = Some g' \<Longrightarrow> nwk g' = nwk g" "schedule_expiry_pending g = Some g' \<Longrightarrow> nwk g' = nwk g"
  by (auto simp: schedule_expiry_route_disc_def schedule_expiry_pending_def dest!: schedule_alarm_nwk)

lemma init_nwk: "zb_nwk_mesh_routing_init g = Some g' \<Longrightarrow> nwk g' = nwk g"
  by (auto simp: zb_nwk_mesh_routing_init_def bind_eq_Some_conv dest!: alarm_steps_nwk)

lemma deinit_nwk: "zb_nwk_mesh_routing_deinit g = Some g' \<Longrightarrow> nwk g' = nwk g"
  by (auto simp: zb_nwk_mesh_routing_deinit_def bind_eq_Some_conv dest!: alarm_cancel_nwk)

lemma disc_failed_nwk: "nwk_route_disc_failed b g = Some g' \<Longrightarrow> nwk g' = nwk g"
  by (auto simp: nwk_route_disc_failed_def bind_eq_Some_conv dest!: schedule_buf_nwk alarm_cancel_nwk alarm_steps_nwk)

lemma mesh_step_ok:
  assumes "mesh_step g g'" "mesh_ok g" shows "mesh_ok g'"
  using assms(1)
proof cases
  case Init
  then show ?thesis using init_nwk [OF Init] assms(2) by simp
next
  case Deinit
  then show ?thesis using deinit_nwk [OF Deinit] assms(2) by simp
next
  case (Request b)
  then show ?thesis by (rule discovery_request_ok [OF assms(2)])
next
  case (Initiate b)
  then show ?thesis by (rule initiate_ok [OF assms(2)])
next
  case (Rreq b hdr rreq)
  then show ?thesis by (rule rreq_handler_ok [OF assms(2)])
next
  case (Rrep b hdr rrep)
  then show ?thesis by (rule rrep_handler_ok [OF assms(2)])
next
  case (Disc_failed b)
  then show ?thesis using disc_failed_nwk [OF Disc_failed] assms(2) by simp
next
  case Expiry_route_disc
  then show ?thesis by (rule expiry_route_disc_ok [OF assms(2)])
next
  case Expiry_pending
  then show ?thesis by (rule expiry_pending_ok [OF assms(2)])
next
  case (Destination b h res)
  then show ?thesis by (rule calc_destination_ok [OF assms(2)])
next
  case Other
  then show ?thesis using mesh_wf_tables assms(2) by blast
qed

text \<open>
  C9: in every run of the program the three tables of the mesh stay consistent: the counters are the
  numbers of used entries (so none of them wraps and the periodic checks skip a table only when it is
  empty), every used route is active, under discovery or under validation, and no discovery
  has more than 10 checks to live.
\<close>

theorem mesh_tables_stay_consistent:
  assumes "mesh_step\<^sup>*\<^sup>* g g'" "mesh_wf (nib (nwk g))"
  shows "mesh_wf (nib (nwk g'))"
  using assms by (induction rule: rtranclp_induct) (auto intro: mesh_step_ok)

end
