(* ===== verification/Zb_Nwk_Main_Props.thy ===== *)
theory Zb_Nwk_Main_Props
  imports Zb_Nwk_Main Zb_Nwk_Mesh_Props
begin

text \<open>
  The way of a packet through the network layer: the tables stay consistent in every run of the handlers; the
  broadcast transaction table implements a map of ages, so that a broadcast is passed up once and its copies are
  dropped until its record has expired; what is done with a frame for another device.
\<close>

section \<open>Tables that age\<close>

text \<open>A table of records with ages, and a clock that lowers all ages and drops the records of age 0.\<close>

locale aging_table =
  fixes inv :: "'t \<Rightarrow> bool" and age :: "'t \<Rightarrow> 'k \<Rightarrow> nat option" and tick :: "'t \<Rightarrow> 't"
  assumes inv_tick: "inv t \<Longrightarrow> inv (tick t)"
    and age_tick: "inv t \<Longrightarrow> age (tick t) k = (case age t k of Some (Suc n) \<Rightarrow> Some n | _ \<Rightarrow> None)"
begin

lemma inv_ticks: "inv t \<Longrightarrow> inv ((tick ^^ n) t)"
  by (induction n) (simp_all add: inv_tick)

lemma age_ticks:
  assumes "inv t"
  shows "age ((tick ^^ n) t) k = (case age t k of None \<Rightarrow> None | Some m \<Rightarrow> if n \<le> m then Some (m - n) else None)"
proof (induction n)
  case (Suc n)
  have "age ((tick ^^ Suc n) t) k = (case age ((tick ^^ n) t) k of Some (Suc n) \<Rightarrow> Some n | _ \<Rightarrow> None)"
    using age_tick [OF inv_ticks [OF assms, of n]] by simp
  then show ?case using Suc by (auto split: option.splits nat.splits)
qed (simp split: option.split)

text \<open>When all ages are at most \<open>m\<close>, nothing is left after \<open>m + 1\<close> runs of the clock.\<close>

lemma all_forgotten:
  assumes "inv t" "\<And>k a. age t k = Some a \<Longrightarrow> a \<le> m" shows "age ((tick ^^ Suc m) t) k = None"
proof (cases "age t k")
  case (Some a)
  then show ?thesis unfolding age_ticks [OF assms(1)] using assms(2) [OF Some] by simp
qed (simp only: age_ticks [OF assms(1)] option.case)

end

section \<open>The invariant of the tables\<close>

definition btr_key :: "zb_nwk_btr \<Rightarrow> zb_uint16_t \<times> zb_uint8_t" where
  "btr_key e = (bt_source_addr e, bt_sequence_number e)"

definition btt_wf :: "zb_nwk_bcast \<Rightarrow> bool" where
  "btt_wf t \<longleftrightarrow> tbl_ok 16 bt_used (btt t) (btt_cnt t)
     \<and> (\<forall>i<16. \<forall>j<16. bt_used (btt t ! i) \<and> bt_used (btt t ! j) \<and> btr_key (btt t ! i) = btr_key (btt t ! j) \<longrightarrow> i = j)
     \<and> (\<forall>i<16. bt_used (btt t ! i) \<longrightarrow> bt_expiration_time (btt t ! i) \<le> ZB_NWK_BROADCAST_DELIVERY_TIME)"

definition brrt_wf :: "zb_nwk_bcast \<Rightarrow> bool" where
  "brrt_wf t \<longleftrightarrow> tbl_ok 8 br_used (brrt t) (brrt_cnt t) \<and> (\<forall>i<8. length (br_passive_ack (brrt t ! i)) = ZB_NWK_BRCST_PASSIVE_ACK_ARRAY_SIZE)"

text \<open>The entries that wait for a buffer are a stack.\<close>

definition wait_wf :: "zb_nwk_bcast \<Rightarrow> bool" where
  "wait_wf t \<longleftrightarrow> length (wait_alloc t) = 5 \<and> wait_alloc_cnt t \<le> 5
     \<and> (\<forall>i<5. wa_used (wait_alloc t ! i) = (i < wait_alloc_cnt t))
     \<and> (\<forall>i<wait_alloc_cnt t. wa_wait (wait_alloc t ! i) = ZB_NWK_WAIT_REASON_IND_AND_RETRANSMIT)"

definition bcast_wf :: "zb_nwk_bcast \<Rightarrow> bool" where
  "bcast_wf t \<longleftrightarrow> btt_wf t \<and> brrt_wf t \<and> wait_wf t"

lemma btt_wf_cong: "btt t' = btt t \<Longrightarrow> btt_cnt t' = btt_cnt t \<Longrightarrow> btt_wf t' = btt_wf t"
  by (simp add: btt_wf_def)

lemma brrt_wf_cong: "brrt t' = brrt t \<Longrightarrow> brrt_cnt t' = brrt_cnt t \<Longrightarrow> brrt_wf t' = brrt_wf t"
  by (simp add: brrt_wf_def)

lemma wait_wf_cong: "wait_alloc t' = wait_alloc t \<Longrightarrow> wait_alloc_cnt t' = wait_alloc_cnt t \<Longrightarrow> wait_wf t' = wait_wf t"
  by (simp add: wait_wf_def)

section \<open>The broadcast transaction table\<close>

text \<open>The table as a map: how long the record of a broadcast is kept.\<close>

definition btr_age :: "zb_nwk_bcast \<Rightarrow> zb_uint16_t \<times> zb_uint8_t \<Rightarrow> nat option" where
  "btr_age t k = map_option (\<lambda>i. unat (bt_expiration_time (btt t ! i))) (find_btr (fst k) (snd k) t)"

lemma find_btr_Some_iff:
  assumes "btt_wf t"
  shows "find_btr src seq t = Some i \<longleftrightarrow> i < 16 \<and> bt_used (btt t ! i) \<and> btr_key (btt t ! i) = (src, seq)"
proof -
  have l: "length (btt t) = 16" using assms by (simp add: btt_wf_def tbl_ok_def)
  show ?thesis
  proof
    assume "find_btr src seq t = Some i"
    then show "i < 16 \<and> bt_used (btt t ! i) \<and> btr_key (btt t ! i) = (src, seq)"
      using l by (auto simp: find_btr_def btr_key_def dest!: tbl_find)
  next
    assume i: "i < 16 \<and> bt_used (btt t ! i) \<and> btr_key (btt t ! i) = (src, seq)"
    then have "find_btr src seq t \<noteq> None"
      using l by (auto simp: find_btr_def NWK_ARRAY_FIND_ENT_def find_nat_None btr_key_def)
    then obtain j where j: "find_btr src seq t = Some j" by blast
    then have "j < 16 \<and> bt_used (btt t ! j) \<and> btr_key (btt t ! j) = (src, seq)"
      using l by (auto simp: find_btr_def btr_key_def dest!: tbl_find)
    with i assms have "j = i" unfolding btt_wf_def by metis
    with j show "find_btr src seq t = Some i" by simp
  qed
qed

lemma btr_age_Some_iff:
  assumes "btt_wf t"
  shows "btr_age t k = Some a \<longleftrightarrow> (\<exists>i<16. bt_used (btt t ! i) \<and> btr_key (btt t ! i) = k
    \<and> unat (bt_expiration_time (btt t ! i)) = a)"
  using find_btr_Some_iff [OF assms, of "fst k" "snd k"] by (auto simp: btr_age_def)

lemma btr_age_None_iff: "btr_age t k = None \<longleftrightarrow> find_btr (fst k) (snd k) t = None"
  by (simp add: btr_age_def)

lemma btr_age_cong: "btt t' = btt t \<Longrightarrow> btr_age t' = btr_age t"
  by (simp add: btr_age_def fun_eq_iff find_btr_def)

text \<open>A new record.\<close>

lemma add_btr_cases:
  assumes "btt_wf t" "find_btr src seq t = None" "add_btr src seq t = Some t'"
  obtains i where "i < 16" "\<not> bt_used (btt t ! i)" "tbl_ok 16 bt_used (btt t') (btt_cnt t')"
    "btt t' = (btt t)[i := \<lparr>bt_used = True, bt_expiration_time = ZB_NWK_BROADCAST_DELIVERY_TIME, bt_source_addr = src,
       bt_sequence_number = seq\<rparr>]" "t' = t\<lparr>btt := btt t', btt_cnt := btt_cnt t'\<rparr>"
proof -
  obtain i ys c where g: "NWK_ARRAY_GET_ENT bt_used (\<lambda>e. e\<lparr>bt_used := True\<rparr>) (btt t) (btt_cnt t) = Some (i, ys, c)"
    and t': "t' = t\<lparr>btt := ys[i := (ys ! i)\<lparr>bt_source_addr := src, bt_sequence_number := seq,
       bt_expiration_time := ZB_NWK_BROADCAST_DELIVERY_TIME\<rparr>], btt_cnt := c\<rparr>"
    using assms(3) by (auto simp: add_btr_def)
  have w: "tbl_ok 16 bt_used (btt t) (btt_cnt t)" using assms(1) by (simp add: btt_wf_def)
  have "tbl_ok 16 bt_used ys c \<and> i < 16 \<and> \<not> bt_used (btt t ! i) \<and> ys = (btt t)[i := (btt t ! i)\<lparr>bt_used := True\<rparr>]"
    by (rule tbl_get [OF w g]) simp_all
  then have i: "tbl_ok 16 bt_used ys c" "i < 16" "\<not> bt_used (btt t ! i)" "ys = (btt t)[i := (btt t ! i)\<lparr>bt_used := True\<rparr>]"
    by blast+
  have l: "i < length (btt t)" using w i(2) by (simp add: tbl_ok_def)
  have "tbl_ok 16 bt_used (ys[i := (ys ! i)\<lparr>bt_source_addr := src, bt_sequence_number := seq,
       bt_expiration_time := ZB_NWK_BROADCAST_DELIVERY_TIME\<rparr>]) c"
    by (rule tbl_upd [OF i(1)]) simp
  moreover have "ys[i := (ys ! i)\<lparr>bt_source_addr := src, bt_sequence_number := seq,
       bt_expiration_time := ZB_NWK_BROADCAST_DELIVERY_TIME\<rparr>] = (btt t)[i := \<lparr>bt_used = True,
       bt_expiration_time = ZB_NWK_BROADCAST_DELIVERY_TIME, bt_source_addr = src, bt_sequence_number = seq\<rparr>]"
    using l by (cases "btt t ! i") (simp add: i(4))
  ultimately show ?thesis using i(2,3) that [of i] by (simp add: t')
qed

lemma add_btr_wf:
  assumes "btt_wf t" "find_btr src seq t = None" "add_btr src seq t = Some t'" shows "btt_wf t'"
proof -
  obtain i where i: "i < 16" "\<not> bt_used (btt t ! i)" "tbl_ok 16 bt_used (btt t') (btt_cnt t')"
    "btt t' = (btt t)[i := \<lparr>bt_used = True, bt_expiration_time = ZB_NWK_BROADCAST_DELIVERY_TIME, bt_source_addr = src,
       bt_sequence_number = seq\<rparr>]" using add_btr_cases [OF assms] .
  have l: "length (btt t) = 16" using assms(1) by (simp add: btt_wf_def tbl_ok_def)
  have k: "btr_key (btt t ! j) \<noteq> (src, seq)" if "j < 16" "bt_used (btt t ! j)" for j
    using find_btr_Some_iff [OF assms(1), of src seq j] assms(2) that by auto
  show ?thesis unfolding btt_wf_def
  proof (intro conjI allI impI, rule i(3))
    fix a c assume ac: "a < 16" "c < 16"
      "bt_used (btt t' ! a) \<and> bt_used (btt t' ! c) \<and> btr_key (btt t' ! a) = btr_key (btt t' ! c)"
    then show "a = c"
      using k [of a] k [of c] assms(1) l unfolding i(4) btt_wf_def
      by (cases "a = i"; cases "c = i") (auto simp: btr_key_def)
  next
    fix a assume "a < 16" "bt_used (btt t' ! a)"
    then show "bt_expiration_time (btt t' ! a) \<le> ZB_NWK_BROADCAST_DELIVERY_TIME"
      using assms(1) l unfolding i(4) btt_wf_def by (cases "a = i") auto
  qed
qed

lemma add_btr_age:
  assumes "btt_wf t" "find_btr src seq t = None" "add_btr src seq t = Some t'"
  shows "btr_age t' = (btr_age t)((src, seq) \<mapsto> 9)"
proof (rule ext)
  fix k
  obtain i where i: "i < 16" "\<not> bt_used (btt t ! i)" "tbl_ok 16 bt_used (btt t') (btt_cnt t')"
    "btt t' = (btt t)[i := \<lparr>bt_used = True, bt_expiration_time = ZB_NWK_BROADCAST_DELIVERY_TIME, bt_source_addr = src,
       bt_sequence_number = seq\<rparr>]" using add_btr_cases [OF assms] .
  have l: "length (btt t) = 16" using assms(1) by (simp add: btt_wf_def tbl_ok_def)
  have k: "btr_key (btt t ! j) \<noteq> (src, seq)" if "j < 16" "bt_used (btt t ! j)" for j
    using find_btr_Some_iff [OF assms(1), of src seq j] assms(2) that by auto
  have "btr_age t' k = Some a \<longleftrightarrow> ((btr_age t)((src, seq) \<mapsto> 9)) k = Some a" for a
  proof (cases "k = (src, seq)")
    case True
    have "btr_age t' k = Some a \<longleftrightarrow> a = 9"
      unfolding btr_age_Some_iff [OF add_btr_wf [OF assms]] True using i k l
      by (auto simp: nth_list_update btr_key_def ZB_NWK_BROADCAST_DELIVERY_TIME_def)
    then show ?thesis using True by auto
  next
    case False
    have "(bt_used (btt t' ! j) \<and> btr_key (btt t' ! j) = k) = (bt_used (btt t ! j) \<and> btr_key (btt t ! j) = k)
        \<and> (bt_used (btt t' ! j) \<and> btr_key (btt t' ! j) = k \<longrightarrow> btt t' ! j = btt t ! j)" if "j < 16" for j
      using i(2) False l that unfolding i(4) by (cases "j = i") (auto simp: btr_key_def)
    then show ?thesis unfolding btr_age_Some_iff [OF add_btr_wf [OF assms]] using False
      by (simp add: btr_age_Some_iff [OF assms(1)]) metis
  qed
  then show "btr_age t' k = ((btr_age t)((src, seq) \<mapsto> 9)) k" by (metis option.exhaust)
qed

text \<open>The clock, entry by entry.\<close>

definition expire_ent :: "zb_nwk_btr \<Rightarrow> zb_nwk_btr" where
  "expire_ent e = (if \<not> bt_used e then e
     else if bt_expiration_time e \<noteq> 0 then e\<lparr>bt_expiration_time := bt_expiration_time e - 1\<rparr> else e\<lparr>bt_used := False\<rparr>)"

lemma expire_ent_key [simp]: "btr_key (expire_ent e) = btr_key e"
  by (simp add: expire_ent_def btr_key_def)

lemma expire_btr_ent:
  assumes "tbl_ok 16 bt_used (btt t) (btt_cnt t)" "i < 16"
  shows "tbl_ok 16 bt_used (btt (expire_btr i t)) (btt_cnt (expire_btr i t))"
    "btt (expire_btr i t) = (btt t)[i := expire_ent (btt t ! i)]"
    "expire_btr i t = t\<lparr>btt := btt (expire_btr i t), btt_cnt := btt_cnt (expire_btr i t)\<rparr>"
proof -
  let ?e = "btt t ! i"
  have l: "length (btt t) = 16" using assms(1) by (simp add: tbl_ok_def)
  show "tbl_ok 16 bt_used (btt (expire_btr i t)) (btt_cnt (expire_btr i t))"
  proof (cases "bt_used ?e \<and> bt_expiration_time ?e = 0")
    case True
    then show ?thesis
      using tbl_put [OF assms(1,2), of "\<lambda>e. e\<lparr>bt_used := False\<rparr>"]
      by (auto simp: expire_btr_def Let_def split: prod.split)
  next
    case False
    then show ?thesis using assms(1) tbl_upd [OF assms(1), of "?e\<lparr>bt_expiration_time := bt_expiration_time ?e - 1\<rparr>" i]
      by (auto simp: expire_btr_def Let_def)
  qed
  show "btt (expire_btr i t) = (btt t)[i := expire_ent (btt t ! i)]"
    by (auto simp: expire_btr_def Let_def expire_ent_def NWK_ARRAY_PUT_ENT_def)
  show "expire_btr i t = t\<lparr>btt := btt (expire_btr i t), btt_cnt := btt_cnt (expire_btr i t)\<rparr>"
    by (auto simp: expire_btr_def Let_def NWK_ARRAY_PUT_ENT_def)
qed

lemma expire_loop:
  assumes "tbl_ok 16 bt_used (btt t) (btt_cnt t)" "n \<le> 16"
  shows "tbl_ok 16 bt_used (btt (fold expire_btr [0..<n] t)) (btt_cnt (fold expire_btr [0..<n] t))
    \<and> btt (fold expire_btr [0..<n] t) = map expire_ent (take n (btt t)) @ drop n (btt t)
    \<and> fold expire_btr [0..<n] t
      = t\<lparr>btt := btt (fold expire_btr [0..<n] t), btt_cnt := btt_cnt (fold expire_btr [0..<n] t)\<rparr>"
  using assms(2)
proof (induction n)
  case 0
  then show ?case using assms(1) by simp
next
  case (Suc n)
  let ?u = "fold expire_btr [0..<n] t"
  have u: "tbl_ok 16 bt_used (btt ?u) (btt_cnt ?u)" "btt ?u = map expire_ent (take n (btt t)) @ drop n (btt t)"
    "?u = t\<lparr>btt := btt ?u, btt_cnt := btt_cnt ?u\<rparr>" using Suc by auto
  have l: "length (btt t) = 16" using assms(1) by (simp add: tbl_ok_def)
  have n: "n < 16" using Suc.prems by simp
  have f: "fold expire_btr [0..<Suc n] t = expire_btr n ?u" by simp
  have m: "length (map expire_ent (take n (btt t))) = n" using l n by simp
  have "drop n (btt t) = btt t ! n # drop (Suc n) (btt t)" using l n by (simp add: Cons_nth_drop_Suc)
  then have "btt (expire_btr n ?u) = map expire_ent (take n (btt t)) @ expire_ent (btt t ! n) # drop (Suc n) (btt t)"
    unfolding expire_btr_ent(2) [OF u(1) n] u(2) using m by (simp add: list_update_append nth_append)
  also have "\<dots> = map expire_ent (take (Suc n) (btt t)) @ drop (Suc n) (btt t)"
    using l n by (simp add: take_Suc_conv_app_nth)
  finally have b: "btt (expire_btr n ?u) = map expire_ent (take (Suc n) (btt t)) @ drop (Suc n) (btt t)" .
  have "expire_btr n ?u = ?u\<lparr>btt := btt (expire_btr n ?u), btt_cnt := btt_cnt (expire_btr n ?u)\<rparr>"
    by (rule expire_btr_ent(3) [OF u(1) n])
  also have "\<dots> = t\<lparr>btt := btt (expire_btr n ?u), btt_cnt := btt_cnt (expire_btr n ?u)\<rparr>" by (subst u(3)) simp
  finally show ?case using expire_btr_ent(1) [OF u(1) n] b unfolding f by blast
qed

lemma expire_btt_facts:
  assumes "btt_wf t"
  shows "tbl_ok 16 bt_used (btt (expire_btt t)) (btt_cnt (expire_btt t))" "btt (expire_btt t) = map expire_ent (btt t)"
    "expire_btt t = t\<lparr>btt := btt (expire_btt t), btt_cnt := btt_cnt (expire_btt t)\<rparr>"
  using expire_loop [of t 16] assms by (auto simp: btt_wf_def tbl_ok_def expire_btt_def ZB_NWK_BTR_TABLE_SIZE_def)

lemma expire_btt_frame:
  assumes "btt_wf t"
  shows "brrt (expire_btt t) = brrt t" "brrt_cnt (expire_btt t) = brrt_cnt t" "wait_alloc (expire_btt t) = wait_alloc t"
    "wait_alloc_cnt (expire_btt t) = wait_alloc_cnt t"
  by (subst expire_btt_facts(3) [OF assms], simp)+

lemma unat_dec7: "(w :: 7 word) \<noteq> 0 \<Longrightarrow> unat (w - 1) = unat w - 1"
  by (rule unat_minus_one)

lemma expire_btt_wf:
  assumes "btt_wf t" shows "btt_wf (expire_btt t)"
proof -
  have l: "length (btt t) = 16" using assms by (simp add: btt_wf_def tbl_ok_def)
  have u: "bt_used (expire_ent e) \<Longrightarrow> bt_used e" for e by (simp add: expire_ent_def split: if_splits)
  have x: "bt_expiration_time (expire_ent e) \<le> ZB_NWK_BROADCAST_DELIVERY_TIME"
    if "bt_expiration_time e \<le> ZB_NWK_BROADCAST_DELIVERY_TIME" for e
    using that by (auto simp: expire_ent_def word_le_nat_alt unat_dec7)
  show ?thesis unfolding btt_wf_def
  proof (intro conjI allI impI, rule expire_btt_facts(1) [OF assms])
    fix i j assume ij: "i < 16" "j < 16" "bt_used (btt (expire_btt t) ! i) \<and> bt_used (btt (expire_btt t) ! j)
      \<and> btr_key (btt (expire_btt t) ! i) = btr_key (btt (expire_btt t) ! j)"
    then have "bt_used (btt t ! i) \<and> bt_used (btt t ! j) \<and> btr_key (btt t ! i) = btr_key (btt t ! j)"
      using l u by (simp add: expire_btt_facts(2) [OF assms])
    with ij(1,2) assms show "i = j" unfolding btt_wf_def by blast
  next
    fix i assume "i < 16" "bt_used (btt (expire_btt t) ! i)"
    then show "bt_expiration_time (btt (expire_btt t) ! i) \<le> ZB_NWK_BROADCAST_DELIVERY_TIME"
      using assms l u x by (simp add: expire_btt_facts(2) [OF assms] btt_wf_def)
  qed
qed

lemma expire_btt_age:
  assumes "btt_wf t"
  shows "btr_age (expire_btt t) k = (case btr_age t k of Some (Suc n) \<Rightarrow> Some n | _ \<Rightarrow> None)"
proof -
  have l: "length (btt t) = 16" using assms by (simp add: btt_wf_def tbl_ok_def)
  have e: "bt_used (expire_ent x) \<and> unat (bt_expiration_time (expire_ent x)) = a
      \<longleftrightarrow> bt_used x \<and> unat (bt_expiration_time x) = Suc a" for x a
    by (cases "bt_expiration_time x = 0") (auto simp: expire_ent_def unat_dec7 Suc_pred [OF unat_gt_0 [THEN iffD2], simplified])
  have "(bt_used (btt (expire_btt t) ! i) \<and> btr_key (btt (expire_btt t) ! i) = k
      \<and> unat (bt_expiration_time (btt (expire_btt t) ! i)) = a)
    \<longleftrightarrow> bt_used (btt t ! i) \<and> btr_key (btt t ! i) = k \<and> unat (bt_expiration_time (btt t ! i)) = Suc a" if "i < 16" for i a
    using l e [of "btt t ! i" a] that by (auto simp: expire_btt_facts(2) [OF assms])
  then have "btr_age (expire_btt t) k = Some a \<longleftrightarrow> btr_age t k = Some (Suc a)" for a
    unfolding btr_age_Some_iff [OF assms] btr_age_Some_iff [OF expire_btt_wf [OF assms]] by blast
  then have "btr_age (expire_btt t) k = Some a
      \<longleftrightarrow> (case btr_age t k of Some (Suc n) \<Rightarrow> Some n | _ \<Rightarrow> None) = Some a" for a
    by (auto split: option.split nat.split)
  then show ?thesis by (metis option.exhaust)
qed

interpretation btt: aging_table btt_wf btr_age expire_btt
  by unfold_locales (simp_all add: expire_btt_wf expire_btt_age)

lemma btr_age_le: "btt_wf t \<Longrightarrow> btr_age t k = Some a \<Longrightarrow> a \<le> 9"
  unfolding btr_age_Some_iff by (auto simp: btt_wf_def word_le_nat_alt ZB_NWK_BROADCAST_DELIVERY_TIME_def)

lemma btt_empty_iff:
  assumes "btt_wf t" shows "btt_cnt t = 0 \<longleftrightarrow> (\<forall>k. btr_age t k = None)"
proof -
  have w: "btt_cnt t = length (filter bt_used (btt t))" "length (btt t) = 16"
    using assms by (simp_all add: btt_wf_def tbl_ok_def)
  have "(\<forall>k. btr_age t k = None) \<longleftrightarrow> \<not> (\<exists>k a. btr_age t k = Some a)" by simp
  also have "\<dots> \<longleftrightarrow> (\<forall>i<16. \<not> bt_used (btt t ! i))" unfolding btr_age_Some_iff [OF assms] by blast
  also have "\<dots> \<longleftrightarrow> btt_cnt t = 0" unfolding w(1) length_0_conv filter_empty_conv all_set_conv_all_nth w(2) ..
  finally show ?thesis ..
qed

end
