(* ===== verification/Zb_Nwk_Secur_Props.thy ===== *)
theory Zb_Nwk_Secur_Props
  imports Zb_Nwk_Secur Zb_Secur_Keys_Props
begin

text \<open>
  What securing and checking network frames do together: a frame that one device secures is accepted and
  restored by a device with the same key; only authentic frames are accepted. And two errors: a
  frame can be replayed, and a forged frame moves the frame counter of the device it pretends to come from.
\<close>

section \<open>The neighbor's entry\<close>

lemma upd_nbt_twice [simp]: "upd_nbt f (upd_nbt h g) = upd_nbt (\<lambda>N. f (h N)) g"
  by (simp add: upd_nbt_def)

lemma upd_nbt_more [simp]:
  "bpool (upd_nbt f g) = bpool g" "timer (upd_nbt f g) = timer g" "zb_globals_n.more (upd_nbt f g) = zb_globals_n.more g"
  by (simp_all add: upd_nbt_def)

lemma upd_neighbor_get:
  assumes "nb_get (neighbor (nwk g)) n = Some e"
  shows "\<exists>N. upd_neighbor n f g = Some (upd_nbt (\<lambda>_. N) g) \<and> nb_get N n = Some (f e)"
proof -
  have n: "n < length (base_neighbor (neighbor (nwk g)))" using assms by (auto simp: nb_get_def aget_def split: if_splits)
  then obtain N where "nb_upd n f (neighbor (nwk g)) = Some N" "base_neighbor N = (base_neighbor (neighbor (nwk g)))[n := Some (f e)]"
    using assms by (simp add: nb_upd_def nb_put_def)
  then show ?thesis using n by (auto simp: upd_neighbor_def nb_get_def)
qed

lemma check_counter_accept:
  assumes "nb_get (neighbor (nwk g)) n = Some e" "secur_nwk_key_by_seq seq (nib (nwk g)) = Some (Some key)"
    "\<not> counter_bad (note_key seq e) cnt"
  shows "\<exists>N. check_counter param mhr n seq cnt g = Some (upd_nbt (\<lambda>_. N) g, Some key)
    \<and> nb_get N n = Some ((note_key seq e)\<lparr>ne_incoming_frame_counter := cnt\<rparr>)"
proof -
  obtain N1 where N1: "upd_neighbor n (note_key seq) g = Some (upd_nbt (\<lambda>_. N1) g)" "nb_get N1 n = Some (note_key seq e)"
    using upd_neighbor_get [OF assms(1), of "note_key seq"] by blast
  then obtain N2 where N2: "upd_neighbor n (\<lambda>e. e\<lparr>ne_incoming_frame_counter := cnt\<rparr>) (upd_nbt (\<lambda>_. N1) g)
      = Some (upd_nbt (\<lambda>_. N2) (upd_nbt (\<lambda>_. N1) g))"
    "nb_get N2 n = Some ((note_key seq e)\<lparr>ne_incoming_frame_counter := cnt\<rparr>)"
    using upd_neighbor_get [of "upd_nbt (\<lambda>_. N1) g" n "note_key seq e" "\<lambda>e. e\<lparr>ne_incoming_frame_counter := cnt\<rparr>"] by auto
  show ?thesis using assms(2,3) N1 N2 by (auto simp: check_counter_def)
qed

lemma check_counter_result:
  assumes "check_counter param mhr n seq cnt g = Some (g2, Some key)"
  shows "\<exists>e N. nb_get (neighbor (nwk g)) n = Some e \<and> secur_nwk_key_by_seq seq (nib (nwk g)) = Some (Some key)
    \<and> \<not> counter_bad (note_key seq e) cnt \<and> g2 = upd_nbt (\<lambda>_. N) g
    \<and> nb_get N n = Some ((note_key seq e)\<lparr>ne_incoming_frame_counter := cnt\<rparr>)"
proof -
  obtain k where k: "secur_nwk_key_by_seq seq (nib (nwk g)) = Some k"
    using assms by (auto simp: check_counter_def split: Option.bind_splits)
  obtain g1 where g1: "upd_neighbor n (note_key seq) g = Some g1"
    using assms k by (auto simp: check_counter_def split: Option.bind_splits)
  then obtain e where e: "nb_get (neighbor (nwk g)) n = Some e"
    by (auto simp: upd_neighbor_def nb_upd_def split: Option.bind_splits)
  obtain N1 where N1: "g1 = upd_nbt (\<lambda>_. N1) g" "nb_get N1 n = Some (note_key seq e)"
    using upd_neighbor_get [OF e, of "note_key seq"] g1 by auto
  have "k = Some key" "\<not> counter_bad (note_key seq e) cnt"
    using assms k g1 N1 by (auto simp: check_counter_def split: option.splits if_splits Option.bind_splits)
  then show ?thesis using check_counter_accept [OF e, of seq key cnt param mhr] assms k e by auto
qed

lemma note_key_again:
  "ne_key_seq_number e = seq \<Longrightarrow> ne_key_seq_number (note_key seq e) = seq
     \<and> ne_incoming_frame_counter (note_key seq e) = ne_incoming_frame_counter e"
  by (simp add: note_key_def Let_def)

lemma note_key_seq [simp]: "ne_key_seq_number (note_key seq e) = seq"
  by (simp add: note_key_def Let_def)

text \<open>
  a network frame can be replayed: whenever the counter check lets a frame with counter \<open>cnt\<close> pass (and
  \<open>cnt\<close> is not the largest value), it lets a frame with the same counter and key number pass again, because
  \<open>zb_nwk_unsecure_frame\<close> rejects only counters that are smaller than the stored one.
\<close>

theorem check_counter_replay:
  assumes "check_counter param mhr n seq cnt g = Some (g2, Some key)" "cnt \<noteq> -1"
  shows "\<exists>g3. check_counter param' mhr n seq cnt g2 = Some (g3, Some key)"
proof -
  obtain e N where e: "secur_nwk_key_by_seq seq (nib (nwk g)) = Some (Some key)" "g2 = upd_nbt (\<lambda>_. N) g"
    "nb_get N n = Some ((note_key seq e)\<lparr>ne_incoming_frame_counter := cnt\<rparr>)"
    using check_counter_result [OF assms(1)] by blast
  let ?e = "(note_key seq e)\<lparr>ne_incoming_frame_counter := cnt\<rparr>"
  have "\<not> counter_bad (note_key seq ?e) cnt" using note_key_again [of ?e seq] assms(2) by (simp add: counter_bad_def)
  then show ?thesis using check_counter_accept [of g2 n ?e seq key cnt param' mhr] e by auto
qed

section \<open>The parts of the check\<close>

lemma neighbor_get_state:
  assumes "zb_nwk_neighbor_get q c g = Some (g1, t, m)"
  shows "\<exists>A N. g1 = upd_nbt (\<lambda>_. N) (g\<lparr>addr := A\<rparr>)"
proof -
  have "g1 = g \<or> (\<exists>A N. g1 = upd_nbt (\<lambda>_. N) (g\<lparr>addr := A\<rparr>))"
    using assms by (auto simp: zb_nwk_neighbor_get_def Let_def split: if_splits Option.bind_splits)
  moreover have "g = upd_nbt (\<lambda>_. neighbor (nwk g)) (g\<lparr>addr := addr g\<rparr>)" by (simp add: upd_nbt_def)
  ultimately show ?thesis by metis
qed

lemma frame_neighbor_state:
  assumes "frame_neighbor mhr a s g = Some (g1, r, nb)"
  shows "\<exists>A N. g1 = upd_nbt (\<lambda>_. N) (g\<lparr>addr := A\<rparr>)"
proof (cases "ZB_FCF_GET_SRC_ADDRESSING_MODE (mh_frame_control mhr) = ZB_ADDR_16BIT_DEV_OR_BROADCAST")
  case mode: True
  obtain A t ref where u: "zb_address_update a (addr_short (mh_src_addr mhr)) False (addr g) = Some (A, t, ref)"
    using assms mode by (auto simp: frame_neighbor_def split: Option.bind_splits)
  show ?thesis
  proof (cases "t = RET_OK")
    case True
    then obtain x where "zb_nwk_neighbor_get x (s = addr_short (mh_src_addr mhr)) (g\<lparr>addr := A\<rparr>) = Some (g1, r, nb)"
      using assms u mode by (auto simp: frame_neighbor_def split: Option.bind_splits)
    from neighbor_get_state [OF this] show ?thesis by simp
  next
    case False
    then have "g1 = g\<lparr>addr := A\<rparr>" using assms u mode by (simp add: frame_neighbor_def)
    moreover have "g\<lparr>addr := A\<rparr> = upd_nbt (\<lambda>_. neighbor (nwk g)) (g\<lparr>addr := A\<rparr>)" by (simp add: upd_nbt_def)
    ultimately show ?thesis by blast
  qed
next
  case False
  then show ?thesis using assms by (simp add: frame_neighbor_def)
qed

lemma decrypt_offset:
  "zb_ccm_decrypt_n_auth key nonce b x y = Some (b', r) \<Longrightarrow> b_data_offset b' = b_data_offset b"
  by (auto simp: zb_ccm_decrypt_n_auth_def Let_def split: if_splits Option.bind_splits)

definition aux_bytes :: "zb_uint8_t \<Rightarrow> zb_uint32_t \<Rightarrow> zb_ieee_addr_t \<Rightarrow> zb_uint8_t \<Rightarrow> zb_uint8_t list" where
  "aux_bytes ctrl cnt src seq = [ctrl] @ htole32 cnt @ src @ [seq]"

lemma length_aux_bytes: "length src = 8 \<Longrightarrow> length (aux_bytes ctrl cnt src seq) = 14"
  by (simp add: aux_bytes_def)

lemma unsecure_payload_open:
  assumes wf: "buf_wf b" and l: "length src = 8" "length key = 16"
    and d: "buf_data b = h @ aux_bytes c cnt src seq @ ccm_cipher key nonce m @ ccm_mic key nonce a m"
    and a: "a = h @ aux_bytes ZB_NWK_STD_SECUR_CONTROL cnt src seq"
    and n: "nonce = nwk_nonce src (htole32 cnt) ZB_NWK_STD_SECUR_CONTROL"
  shows "\<exists>b1. unsecure_payload key (length h + 14) (ZB_BUF_BEGIN b + length h) b = Some (b1, RET_OK)
    \<and> buf_wf b1 \<and> buf_data b1 = a @ m \<and> b_data_offset b1 = b_data_offset b
    \<and> report_short param mhr (length h + 14) b g = Some g"
proof -
  let ?p = "ZB_BUF_BEGIN b + length h" and ?C = "ZB_NWK_STD_SECUR_CONTROL"
  let ?cm = "ccm_cipher key nonce m @ ccm_mic key nonce a m"
  have len: "ZB_BUF_LEN b = length h + 14 + length m + 4"
    using buf_data_len [OF wf] l by (simp add: d ZB_BUF_LEN_def length_aux_bytes)
  then have lm: "length m \<le> 132" using wf by (simp add: buf_wf_def ZB_IO_BUF_SIZE_def ZB_BUF_LEN_def)
  have psz: "nsdu_payload_size (length h + 14) b = length m + 4"
  proof -
    have "ZB_BUF_LEN b + 2 ^ 32 - (length h + 14) = length m + 4 + 2 ^ 32" by (simp add: len)
    moreover have "(length m + 4 + 2 ^ 32) mod 2 ^ 32 = length m + 4" using lm unfolding mod_add_self2 by (intro mod_less) simp
    ultimately show ?thesis by (simp add: nsdu_payload_size_def)
  qed
  have "buf_data b = h @ [c] @ ((htole32 cnt @ src @ [seq]) @ ?cm)" by (simp add: d aux_bytes_def)
  from blit_window [OF wf this, of "[?C]" ?p] obtain mm where
    mm: "blit (b_buf b) ?p [?C] = Some mm" "buf_wf (b\<lparr>b_buf := mm\<rparr>)"
      "buf_data (b\<lparr>b_buf := mm\<rparr>) = h @ [?C] @ ((htole32 cnt @ src @ [seq]) @ ?cm)" by auto
  let ?b = "b\<lparr>b_buf := mm\<rparr>"
  have beg: "ZB_BUF_BEGIN ?b = ZB_BUF_BEGIN b" by (simp add: ZB_BUF_BEGIN_def)
  have "buf_data ?b = (h @ [?C] @ htole32 cnt) @ src @ ([seq] @ ?cm)" by (simp add: mm(3))
  from rdn_window [OF mm(2) this _ l(1)] have r1: "rdn 8 mm (?p + 5) = Some src" by (simp add: beg add.assoc)
  have "buf_data ?b = (h @ [?C]) @ htole32 cnt @ (src @ [seq] @ ?cm)" by (simp add: mm(3))
  from rdn_window [OF mm(2) this _ length_htole32] have r2: "rdn 4 mm (?p + 1) = Some (htole32 cnt)" by (simp add: beg add.assoc)
  have da: "buf_data ?b = a @ ?cm" by (simp add: mm(3) a aux_bytes_def)
  have la: "length a = length h + 14" using l by (simp add: a length_aux_bytes)
  obtain b2 where b2: "zb_ccm_decrypt_n_auth key nonce ?b (length h + 14) (length m + 4) = Some (b2, RET_OK)"
    "buf_wf b2" "buf_data b2 = a @ m"
    using ccm_open [OF mm(2) da l(2) lm] la by auto
  have "unsecure_payload key (length h + 14) ?p b = Some (b2, RET_OK)"
    unfolding unsecure_payload_def Let_def psz
    using mm(1) r1 r2 b2(1) by (simp add: ZB_CCM_M_def zb_ccm_decrypt_n_auth_stdsecur_def n)
  moreover have "report_short param mhr (length h + 14) b g = Some g" by (simp add: report_short_def psz ZB_CCM_M_def)
  ultimately show ?thesis using b2 decrypt_offset [OF b2(1)] by auto
qed

lemma reinsert_keeps:
  assumes wf: "buf_wf b" and o: "unat ml + 1 \<le> unat (b_data_offset b)" and l: "unat (b_len b) + unat ml + 1 < 148"
    and m: "length (mhr_bytes mhr) = unat ml"
  shows "\<exists>b'. reinsert_mhr mhr ml b = Some b' \<and> buf_wf b' \<and> buf_data b' = buf_data b \<and> b_data_offset b' = b_data_offset b
    \<and> (\<forall>i\<ge>unat (b_data_offset b). b_buf b' ! i = b_buf b ! i) \<and> length (b_buf b') = length (b_buf b)"
proof -
  let ?o = "unat (b_data_offset b)" and ?n = "unat ml + 1"
  have w: "length (b_buf b) = 148" "?o + unat (b_len b) \<le> 148"
    using wf by (simp_all add: buf_wf_def ZB_IO_BUF_SIZE_def)
  have u: "unat (ml + 1) = ?n" using o w by (simp add: unat8_add)
  define b1 where "b1 = b\<lparr>b_len := b_len b + (ml + 1), b_data_offset := b_data_offset b - (ml + 1)\<rparr>"
  have o1: "unat (b_data_offset b1) = ?o - ?n" "unat (b_len b1) = unat (b_len b) + ?n"
    using o l u by (simp_all add: b1_def unat8_sub unat8_add)
  have al: "zb_buf_smart_alloc_left (ml + 1) b = Some (b1, ?o - ?n)"
    using o l u o1 by (simp add: zb_buf_smart_alloc_left_def b1_def ZB_BUF_LEN_def ZB_BUF_BEGIN_def ZB_IO_BUF_SIZE_def)
  have p: "?o - ?n + 1 + unat ml = ?o" using o by simp
  then obtain m' where m': "zb_mac_fill_mhr (b_buf b) (?o - ?n + 1) mhr = Some m'"
    "m' = take (?o - ?n + 1) (b_buf b) @ mhr_bytes mhr @ drop ?o (b_buf b)"
    using w by (simp add: zb_mac_fill_mhr_def blit_def m)
  have lm: "length m' = 148" using w p by (simp add: m'(2) m)
  define A where "A = take (?o - ?n + 1) (b_buf b) @ mhr_bytes mhr"
  have A: "m' = A @ drop ?o (b_buf b)" "length A = ?o" using w p by (simp_all add: A_def m'(2) m)
  have same: "m' ! i = b_buf b ! i" if "?o \<le> i" for i
    using that w by (simp add: A nth_append)
  have dd: "drop ?o m' = drop ?o (b_buf b)"
  proof (rule nth_equalityI)
    show "length (drop ?o m') = length (drop ?o (b_buf b))" using lm w by simp
    show "drop ?o m' ! i = drop ?o (b_buf b) ! i" if "i < length (drop ?o m')" for i
      using that same [of "?o + i"] lm w by simp
  qed
  define b3 where "b3 = b\<lparr>b_buf := m', b_mac_hdr_offset := b_data_offset b1 + 1\<rparr>"
  have "reinsert_mhr mhr ml b = Some b3"
    using al m'(1) o1 u l
    by (simp add: reinsert_mhr_def zb_buf_cut_left_def ZB_BUF_LEN_def b3_def Let_def) (simp add: b1_def)
  moreover have "buf_wf b3" using wf lm w by (simp add: b3_def buf_wf_def ZB_IO_BUF_SIZE_def)
  moreover have "buf_data b3 = buf_data b" using dd by (simp add: b3_def buf_data_def)
  ultimately show ?thesis using same lm w by (auto simp: b3_def)
qed

section \<open>Securing\<close>

lemma nwk_hdr_at_window:
  assumes "buf_wf b" "buf_data b = xs @ [f0, f1] @ ys" "nw = ZB_BUF_BEGIN b + length xs" "14 \<le> zb_nwk_hdr_size (f0, f1)"
  shows "nwk_hdr_at (b_buf b) nw = Some (zb_nwk_hdr_size (f0, f1), nw + (zb_nwk_hdr_size (f0, f1) - 14))"
proof -
  have "buf_data b = (xs @ [f0]) @ f1 # ys" using assms(2) by simp
  from rd8_window [OF assms(1) this, of "nw + 1"] have r1: "rd8 (b_buf b) (nw + 1) = Some f1" by (simp add: assms(3))
  have r0: "rd8 (b_buf b) nw = Some f0" using rd8_window [OF assms(1), of xs f0 "f1 # ys" nw] assms(2,3) by simp
  show ?thesis unfolding nwk_hdr_at_def r0 r1 using assms(4) by (simp add: AUX_HDR_SIZE_def Let_def)
qed

text \<open>
  A frame ready to be secured: MAC header, network header with room for the auxiliary header, payload.
\<close>

definition secur_ready :: "zb_buf \<Rightarrow> zb_uint8_t list \<Rightarrow> zb_uint8_t list \<Rightarrow> zb_uint8_t list \<Rightarrow> bool" where
  "secur_ready src mh hdr pay \<longleftrightarrow> buf_wf src \<and> \<not> b_use_same_key src
     \<and> (\<exists>gap. length gap = 14 \<and> buf_data src = mh @ hdr @ gap @ pay)
     \<and> (\<exists>f0 f1 rest. hdr = [f0, f1] @ rest \<and> zb_nwk_hdr_size (f0, f1) = length hdr + 14)
     \<and> length mh + length hdr + 14 + length pay \<le> 121"

lemma secure_frame_spec:
  assumes r: "secur_ready src mh hdr pay" and g: "aget (bp_pool (bpool g)) s = Some src" "aget (bp_pool (bpool g)) d = Some dst"
      "s \<noteq> d" "length (b_buf dst) = 148"
    and k: "secur_nwk_key_by_seq (nib_active_key_seq_number (nib (nwk g)))
        ((nib (nwk g))\<lparr>nib_outgoing_frame_counter := nib_outgoing_frame_counter (nib (nwk g)) + 1\<rparr>) = Some (Some key)" "length key = 16"
    and e: "length (extended_address g) = 8" and t: "\<not> is_tc g"
  defines "cnt \<equiv> nib_outgoing_frame_counter (nib (nwk g))" and "seq \<equiv> nib_active_key_seq_number (nib (nwk g))"
    and "ext \<equiv> extended_address g"
  defines "a \<equiv> hdr @ aux_bytes ZB_NWK_STD_SECUR_CONTROL cnt ext seq"
    and "nonce \<equiv> nwk_nonce ext (htole32 cnt) ZB_NWK_STD_SECUR_CONTROL"
  shows "\<exists>g' dst'. zb_nwk_secure_frame s (length mh) d g = Some (g', RET_OK)
    \<and> aget (bp_pool (bpool g')) d = Some dst' \<and> buf_wf dst'
    \<and> nib (nwk g') = (nib (nwk g))\<lparr>nib_outgoing_frame_counter := cnt + 1\<rparr>
    \<and> buf_data dst' = mh @ hdr @ aux_bytes ZB_NWK_STD_SECUR_CONTROL_ZEROED_LEVEL cnt ext seq
        @ ccm_cipher key nonce pay @ ccm_mic key nonce a pay"
proof -
  let ?B = "ZB_BUF_BEGIN src" and ?C = "ZB_NWK_STD_SECUR_CONTROL"
  define N where "N = (nib (nwk g))\<lparr>nib_outgoing_frame_counter := cnt + 1\<rparr>"
  obtain gap where sd: "buf_wf src" "\<not> b_use_same_key src" "length gap = 14" "buf_data src = mh @ hdr @ gap @ pay"
    and sz: "length mh + length hdr + 14 + length pay \<le> 121" using r by (auto simp: secur_ready_def)
  obtain f0 f1 rest where h: "hdr = [f0, f1] @ rest" "zb_nwk_hdr_size (f0, f1) = length hdr + 14"
    using r by (auto simp: secur_ready_def)
  define nw where "nw = ?B + length mh"
  define ax where "ax = nw + length hdr"
  have le: "take 8 (extended_address g) = ext" using e by (simp add: ext_def)
  have d1: "buf_data src = mh @ [f0, f1] @ (rest @ gap @ pay)" using sd(4) h(1) by simp
  have ha: "nwk_hdr_at (b_buf src) nw = Some (length hdr + 14, ax)"
    using nwk_hdr_at_window [OF sd(1) d1, of nw] h(2) by (simp add: nw_def ax_def)
  have "buf_data src = (mh @ hdr @ take 13 gap) @ gap ! 13 # pay"
  proof -
    have "gap = take 13 gap @ [gap ! 13]" using sd(3) by (metis Suc_numeral lessI semiring_norm(5) semiring_norm(8) take_Suc_conv_app_nth take_all_iff order_refl numeral_plus_one)
    then show ?thesis using sd(4) by (metis append.assoc append_Cons append_Nil)
  qed
  from rd8_window [OF sd(1) this, of "ax + 13"] have os: "rd8 (b_buf src) (ax + 13) = Some (gap ! 13)"
    using sd(3) by (simp add: ax_def nw_def add.assoc)
  have le8: "length ext = 8" using e by (simp add: ext_def)
  have lab: "length (aux_bytes c cnt ext seq) = 14" for c using le8 by (rule length_aux_bytes)
  have d2: "buf_data src = (mh @ hdr) @ gap @ pay" using sd(4) by simp
  obtain m1 where m1: "blit (b_buf src) ax (aux_bytes ?C cnt ext seq) = Some m1" "length m1 = length (b_buf src)"
      "buf_wf (src\<lparr>b_buf := m1\<rparr>)" "buf_data (src\<lparr>b_buf := m1\<rparr>) = (mh @ hdr) @ aux_bytes ?C cnt ext seq @ pay"
    using blit_window [OF sd(1) d2, of "aux_bytes ?C cnt ext seq" ax] sd(3) lab by (auto simp: ax_def nw_def)
  let ?s1 = "src\<lparr>b_buf := m1\<rparr>"
  have B1: "ZB_BUF_BEGIN ?s1 = ?B" by (simp add: ZB_BUF_BEGIN_def)
  have la: "length a = length hdr + 14" by (simp add: a_def lab)
  have dd: "buf_data ?s1 = mh @ a @ pay" "buf_data ?s1 = (mh @ a) @ pay @ []" "buf_data ?s1 = [] @ mh @ (a @ pay)"
    using m1(4) by (simp_all add: a_def)
  have sa: "aslice m1 nw (length hdr + 14) = Some a"
    using aslice_data [OF m1(3) dd(1)] la B1 by (simp add: nw_def)
  have slen: "ZB_BUF_LEN src = length mh + (length hdr + 14) + length pay"
    using buf_data_len [OF sd(1)] sd(3,4) by (simp add: ZB_BUF_LEN_def)
  have sm: "aslice m1 (nw + (length hdr + 14)) (ZB_BUF_LEN src - (length hdr + 14) - length mh) = Some pay"
    using aslice_data [OF m1(3) dd(2)] la B1 slen by (simp add: nw_def add.assoc)
  have smh: "aslice m1 ?B (length mh) = Some mh"
    using aslice_data [OF m1(3) dd(3)] B1 by simp
  define g1 where "g1 = put_buf s ?s1 (upd_nib (\<lambda>_. N) g)"
  have bp: "bp_pool (bpool g1) = (bp_pool (bpool g))[s := ?s1]" by (simp add: g1_def put_buf_def upd_nib_def)
  have gd: "aget (bp_pool (bpool g1)) d = Some dst" using g(2,3) by (simp add: bp aget_def split: if_splits)
  obtain dst1 where dst1: "zb_ccm_encrypt_n_auth key nonce a pay dst = Some (dst1, RET_OK)" "buf_wf dst1"
      "buf_data dst1 = a @ ccm_cipher key nonce pay @ ccm_mic key nonce a pay"
    using ccm_seal [OF g(4) k(2), of a pay nonce] sz la by auto
  define sealed where "sealed = ccm_cipher key nonce pay @ ccm_mic key nonce a pay"
  have ls: "length sealed = length pay + 4" using k(2) by (simp add: sealed_def)
  have l1: "unat (b_len dst1) = length hdr + 14 + length pay + 4"
    using buf_data_len [OF dst1(2)] dst1(3) la ls by (simp add: sealed_def)
  obtain dst2 g2 where dst2: "zb_buf_smart_alloc_left (of_nat (length mh)) dst1 = Some (dst2, ZB_BUF_BEGIN dst2)"
      "buf_wf dst2" "length g2 = length mh" "buf_data dst2 = g2 @ buf_data dst1"
    using alloc_window [OF dst1(2), of "length mh" False] sz l1 by auto
  have dg: "buf_data dst2 = [] @ g2 @ (a @ sealed)" using dst2(4) dst1(3) by (simp add: sealed_def)
  obtain m2 where m2: "blit (b_buf dst2) (ZB_BUF_BEGIN dst2) mh = Some m2" "buf_wf (dst2\<lparr>b_buf := m2\<rparr>)"
      "buf_data (dst2\<lparr>b_buf := m2\<rparr>) = mh @ a @ sealed"
    using blit_window [OF dst2(2) dg, of mh "ZB_BUF_BEGIN dst2"] dst2(3) by auto
  have B2: "ZB_BUF_BEGIN (dst2\<lparr>b_buf := m2\<rparr>) = ZB_BUF_BEGIN dst2" by (simp add: ZB_BUF_BEGIN_def)
  have dm: "buf_data (dst2\<lparr>b_buf := m2\<rparr>) = (mh @ hdr) @ [?C] @ ((htole32 cnt @ ext @ [seq]) @ sealed)"
    using m2(3) by (simp add: a_def aux_bytes_def)
  obtain m3 where m3: "blit m2 (ZB_BUF_BEGIN dst2 + length (mh @ hdr)) [ZB_NWK_STD_SECUR_CONTROL_ZEROED_LEVEL] = Some m3"
      "buf_wf (dst2\<lparr>b_buf := m3\<rparr>)"
      "buf_data (dst2\<lparr>b_buf := m3\<rparr>) = (mh @ hdr) @ [ZB_NWK_STD_SECUR_CONTROL_ZEROED_LEVEL] @ ((htole32 cnt @ ext @ [seq]) @ sealed)"
    using blit_window [OF m2(2) dm, of "[ZB_NWK_STD_SECUR_CONTROL_ZEROED_LEVEL]"
        "ZB_BUF_BEGIN dst2 + length (mh @ hdr)"] B2 by auto
  let ?g' = "put_buf d (dst2\<lparr>b_buf := m3\<rparr>) g1"
  have lim: "check_counter_limit ?g' = Some ?g'"
    using t by (simp add: check_counter_limit_def put_buf_def g1_def upd_nib_def)
  have oc: "out_counter (b_use_same_key src) (gap ! 13) (nib (nwk g)) = (cnt, seq, N)"
    using sd(2) by (simp add: out_counter_def cnt_def seq_def N_def)
  have kk: "secur_nwk_key_by_seq seq N = Some (Some key)" using k(1) by (simp add: seq_def N_def cnt_def)
  have offs: "ax - ?B = length (mh @ hdr)" by (simp add: ax_def nw_def)
  have "zb_nwk_secure_frame s (length mh) d g = Some (?g', RET_OK)"
    unfolding zb_nwk_secure_frame_def g(1) bind.bind_lunit Let_def nw_def [symmetric] ha prod.case os oc le
      aux_bytes_def [symmetric] m1(1) kk option.case nonce_def [symmetric] sa g1_def [symmetric] gd dst1(1) sm smh dst2(1) m2(1)
      offs m3(1) lim
    using slen by (simp add: lim dst2(1) smh m2(1) m3(1) [simplified])
  moreover have "aget (bp_pool (bpool ?g')) d = Some (dst2\<lparr>b_buf := m3\<rparr>)"
    using gd by (simp add: put_buf_def aget_def split: if_splits)
  moreover have "nib (nwk ?g') = N" by (simp add: put_buf_def g1_def upd_nib_def)
  ultimately show ?thesis using m3(2,3) by (auto simp: N_def aux_bytes_def sealed_def)
qed

section \<open>Checking what was secured\<close>

text \<open>
  The receiver of a frame: an authenticated device with the frame in buffer \<open>param\<close>, the key of the frame
  as its active one, a neighbor entry for the sender whose counter is not ahead, and room for the MAC header.
\<close>

definition can_receive :: "nat \<Rightarrow> zb_buf \<Rightarrow> zb_mac_mhr \<Rightarrow> zb_uint8_t \<Rightarrow> zb_ieee_addr_t \<Rightarrow> zb_uint16_t \<Rightarrow> zb_uint32_t \<Rightarrow> zb_uint8_t
    \<Rightarrow> zb_uint8_t list \<Rightarrow> nat \<Rightarrow> 'z zb_globals_s_scheme \<Rightarrow> bool" where
  "can_receive param b mhr ml ext ns cnt seq key n g \<longleftrightarrow>
     aps_authenticated (aps g) \<and> aget (bp_pool (bpool g)) param = Some b \<and> buf_wf b
     \<and> secur_nwk_key_by_seq seq (nib (nwk g)) = Some (Some key) \<and> nib_active_key_seq_number (nib (nwk g)) = seq
     \<and> (\<exists>g1 e. frame_neighbor mhr ext ns g = Some (g1, RET_OK, Some n) \<and> nb_get (neighbor (nwk g1)) n = Some e
          \<and> \<not> counter_bad (note_key seq e) cnt)
     \<and> length (mhr_bytes mhr) = unat ml \<and> unat ml + 1 \<le> unat (b_data_offset b) \<and> unat (b_len b) + unat ml + 1 < 148"

lemma put_buf_fields [simp]:
  "nwk (put_buf i b g) = nwk g" "aps (put_buf i b g) = aps g" "addr (put_buf i b g) = addr g"
  "upd_nbt f (put_buf i b g) = put_buf i b (upd_nbt f g)"
  by (simp_all add: put_buf_def upd_nbt_def)

lemma put_buf_get: "aget (bp_pool (bpool g)) i = Some b \<Longrightarrow> aget (bp_pool (bpool (put_buf i c g))) i = Some c"
  by (simp add: put_buf_def aget_def split: if_splits)

text \<open>The frame up to the counter check, and what the counter check leaves.\<close>

lemma unsecure_frame_steps:
  assumes r: "can_receive param b mhr ml ext ns cnt seq key n g"
    and d: "buf_data b = hdr @ aux_bytes c cnt ext seq @ body"
    and h: "hdr = [f0, f1, x, y] @ htole16 ns @ rest" "zb_nwk_hdr_size (f0, f1) = length hdr + 14"
    and l: "length ext = 8"
  shows "\<exists>g2 e. zb_nwk_unsecure_frame param mhr ml g = do {
        gs \<leftarrow> report_short param mhr (length hdr + 14) b g2;
        (b1, ret1) \<leftarrow> unsecure_payload key (length hdr + 14) (ZB_BUF_BEGIN b + length hdr) b;
        if ret1 \<noteq> RET_OK then do {
          g3 \<leftarrow> zb_secur_nwk_status param mhr ZB_NWK_COMMAND_STATUS_FRAME_SECURITY_FAILED (put_buf param b1 gs);
          Some (g3, ret1) }
        else do {
          b2 \<leftarrow> reinsert_mhr mhr ml b1;
          g3 \<leftarrow> upd_neighbor n note_authenticated (put_buf param b2 gs);
          g4 \<leftarrow> implicit_switch param (ZB_BUF_BEGIN b + length hdr) g3;
          Some (g4, RET_OK) } }
    \<and> nib (nwk g2) = nib (nwk g) \<and> bpool g2 = bpool g \<and> sched g2 = sched g
    \<and> nb_get (neighbor (nwk g2)) n = Some e \<and> ne_incoming_frame_counter e = cnt \<and> ne_key_seq_number e = seq"
proof -
  let ?B = "ZB_BUF_BEGIN b"
  obtain g1 e where au: "aps_authenticated (aps g)" and gb: "aget (bp_pool (bpool g)) param = Some b" and wf: "buf_wf b"
    and k: "secur_nwk_key_by_seq seq (nib (nwk g)) = Some (Some key)"
    and fn: "frame_neighbor mhr ext ns g = Some (g1, RET_OK, Some n)" "nb_get (neighbor (nwk g1)) n = Some e"
      "\<not> counter_bad (note_key seq e) cnt"
    using r unfolding can_receive_def by blast
  define ax where "ax = ?B + length hdr"
  have "buf_data b = [] @ [f0, f1] @ ([x, y] @ htole16 ns @ rest @ aux_bytes c cnt ext seq @ body)"
    using d h(1) by simp
  from nwk_hdr_at_window [OF wf this, of ?B] h(2) have ha: "nwk_hdr_at (b_buf b) ?B = Some (length hdr + 14, ax)"
    by (simp add: ax_def)
  have "buf_data b = (hdr @ [c] @ htole32 cnt) @ ext @ ([seq] @ body)" using d by (simp add: aux_bytes_def)
  from rdn_window [OF wf this _ l, of "ax + 5"] have re: "rdn 8 (b_buf b) (ax + 5) = Some ext" by (simp add: ax_def)
  have "buf_data b = [f0, f1, x, y] @ htole16 ns @ (rest @ aux_bytes c cnt ext seq @ body)"
    using d h(1) by simp
  from rd16_window [OF wf this, of "?B + 4"] have rs: "rd16 (b_buf b) (?B + 4) = Some ns" by simp
  have "buf_data b = (hdr @ [c] @ htole32 cnt @ ext) @ seq # body" using d by (simp add: aux_bytes_def)
  from rd8_window [OF wf this, of "ax + 13"] l have rq: "rd8 (b_buf b) (ax + 13) = Some seq" by (simp add: ax_def)
  have "buf_data b = (hdr @ [c]) @ htole32 cnt @ (ext @ [seq] @ body)" using d by (simp add: aux_bytes_def)
  from rd32_window [OF wf this, of "ax + 1"] have rc: "rd32 (b_buf b) (ax + 1) = Some cnt" by (simp add: ax_def)
  obtain A N0 where g1: "g1 = upd_nbt (\<lambda>_. N0) (g\<lparr>addr := A\<rparr>)" using frame_neighbor_state [OF fn(1)] by blast
  have n1: "nib (nwk g1) = nib (nwk g)" "bpool g1 = bpool g" "sched g1 = sched g" by (simp_all add: g1)
  obtain N where cc: "check_counter param mhr n seq cnt g1 = Some (upd_nbt (\<lambda>_. N) g1, Some key)"
      "nb_get N n = Some ((note_key seq e)\<lparr>ne_incoming_frame_counter := cnt\<rparr>)"
    using check_counter_accept [of g1, OF fn(2) _ fn(3), of key param mhr] k n1 by auto
  have "nib (nwk (upd_nbt (\<lambda>_. N) g1)) = nib (nwk g)" "bpool (upd_nbt (\<lambda>_. N) g1) = bpool g"
    "sched (upd_nbt (\<lambda>_. N) g1) = sched g" using n1 by simp_all
  then show ?thesis
    using au cc(2)
    unfolding zb_nwk_unsecure_frame_def gb bind.bind_lunit Let_def ha prod.case re rs fn(1) ax_def [symmetric]
    by (intro exI [of _ "upd_nbt (\<lambda>_. N) g1"] exI [of _ "(note_key seq e)\<lparr>ne_incoming_frame_counter := cnt\<rparr>"])
      (simp add: rq rc [simplified] cc(1))
qed

lemma unsecure_frame_spec:
  assumes r: "can_receive param b mhr ml ext ns cnt seq key n g"
    and d: "buf_data b = hdr @ aux_bytes c cnt ext seq @ ccm_cipher key nonce pay @ ccm_mic key nonce a pay"
    and h: "hdr = [f0, f1, x, y] @ htole16 ns @ rest" "zb_nwk_hdr_size (f0, f1) = length hdr + 14"
    and l: "length ext = 8" "length key = 16"
    and a: "a = hdr @ aux_bytes ZB_NWK_STD_SECUR_CONTROL cnt ext seq"
    and nn: "nonce = nwk_nonce ext (htole32 cnt) ZB_NWK_STD_SECUR_CONTROL"
  shows "\<exists>g' b' e'. zb_nwk_unsecure_frame param mhr ml g = Some (g', RET_OK)
    \<and> aget (bp_pool (bpool g')) param = Some b' \<and> buf_wf b' \<and> buf_data b' = a @ pay
    \<and> nb_get (neighbor (nwk g')) n = Some e' \<and> ne_incoming_frame_counter e' = cnt \<and> ne_key_seq_number e' = seq"
proof -
  have gb: "aget (bp_pool (bpool g)) param = Some b" and wf: "buf_wf b"
    and k: "nib_active_key_seq_number (nib (nwk g)) = seq"
    and ml: "length (mhr_bytes mhr) = unat ml" "unat ml + 1 \<le> unat (b_data_offset b)" "unat (b_len b) + unat ml + 1 < 148"
    using r unfolding can_receive_def by blast+
  define ax where "ax = ZB_BUF_BEGIN b + length hdr"
  obtain g2 e where g2: "zb_nwk_unsecure_frame param mhr ml g = do {
        gs \<leftarrow> report_short param mhr (length hdr + 14) b g2;
        (b1, ret1) \<leftarrow> unsecure_payload key (length hdr + 14) ax b;
        if ret1 \<noteq> RET_OK then do {
          g3 \<leftarrow> zb_secur_nwk_status param mhr ZB_NWK_COMMAND_STATUS_FRAME_SECURITY_FAILED (put_buf param b1 gs);
          Some (g3, ret1) }
        else do {
          b2 \<leftarrow> reinsert_mhr mhr ml b1;
          g3 \<leftarrow> upd_neighbor n note_authenticated (put_buf param b2 gs);
          g4 \<leftarrow> implicit_switch param ax g3;
          Some (g4, RET_OK) } }"
      "nib (nwk g2) = nib (nwk g)" "bpool g2 = bpool g"
      "nb_get (neighbor (nwk g2)) n = Some e" "ne_incoming_frame_counter e = cnt" "ne_key_seq_number e = seq"
    using unsecure_frame_steps [OF r d h l(1)] unfolding ax_def by blast
  obtain b1 where b1: "unsecure_payload key (length hdr + 14) ax b = Some (b1, RET_OK)" "buf_wf b1" "buf_data b1 = a @ pay"
      "b_data_offset b1 = b_data_offset b" "report_short param mhr (length hdr + 14) b g2 = Some g2"
    using unsecure_payload_open [OF wf l d a nn, of param mhr g2] by (auto simp: ax_def)
  have lens: "length (buf_data b1) + 4 = length (buf_data b)"
    using b1(3) d l by (simp add: a length_aux_bytes)
  then have l1: "unat (b_len b1) + unat ml + 1 < 148" using ml(3) buf_data_len [OF wf] buf_data_len [OF b1(2)] by linarith
  obtain b2 where b2: "reinsert_mhr mhr ml b1 = Some b2" "buf_wf b2" "buf_data b2 = a @ pay" "b_data_offset b2 = b_data_offset b"
    using reinsert_keeps [OF b1(2) _ l1 ml(1)] b1(3,4) ml(2) by auto
  obtain N2 where N2: "upd_neighbor n note_authenticated (put_buf param b2 g2) = Some (upd_nbt (\<lambda>_. N2) (put_buf param b2 g2))"
      "nb_get N2 n = Some (note_authenticated e)"
    using upd_neighbor_get [of "put_buf param b2 g2" n e note_authenticated] g2(4) by auto
  let ?g3 = "upd_nbt (\<lambda>_. N2) (put_buf param b2 g2)"
  have gp: "aget (bp_pool (bpool ?g3)) param = Some b2"
    using put_buf_get [of g2 param b] gb g2(3) by (simp del: put_buf_fields)
  have "buf_data b2 = (hdr @ [ZB_NWK_STD_SECUR_CONTROL] @ htole32 cnt @ ext) @ seq # pay"
    using b2(3) by (simp add: a aux_bytes_def)
  from rd8_window [OF b2(2) this, of "ax + 13"] l(1) b2(4) have rq2: "rd8 (b_buf b2) (ax + 13) = Some seq"
    by (simp add: ax_def ZB_BUF_BEGIN_def)
  have "nib (nwk ?g3) = nib (nwk g)" using g2(2) by simp
  then have sw: "implicit_switch param ax ?g3 = Some ?g3"
    using gp rq2 k by (simp add: implicit_switch_def Let_def del: put_buf_fields)
  have "zb_nwk_unsecure_frame param mhr ml g = Some (?g3, RET_OK)"
    unfolding g2(1) by (simp add: b1(1,5) b2(1) N2(1) sw del: put_buf_fields)
  moreover have "ne_incoming_frame_counter (note_authenticated e) = cnt" "ne_key_seq_number (note_authenticated e) = seq"
    using g2(5,6) by (simp_all add: note_authenticated_def)
  ultimately show ?thesis using gp b2(2,3) N2(2) by auto
qed

text \<open>
  C1: a secured frame is accepted and restored: when a device secures a frame with its active key, and a device that
  has the same key and whose stored counter for the sender is not ahead gets the bytes behind the MAC header, then
  \<open>zb_nwk_unsecure_frame\<close> returns \<open>RET_OK\<close>, the payload of the receiver's buffer is the network header, the
  auxiliary header and the sender's payload in plain text, and the receiver has stored the frame counter.
\<close>

theorem zb_nwk_secure_unsecure:
  assumes "secur_ready src mh hdr pay" "aget (bp_pool (bpool g)) s = Some src" "aget (bp_pool (bpool g)) d = Some dst"
    "s \<noteq> d" "length (b_buf dst) = 148" "\<not> is_tc g" "length (extended_address g) = 8" "length key = 16"
    "secur_nwk_key_by_seq (nib_active_key_seq_number (nib (nwk g)))
       ((nib (nwk g))\<lparr>nib_outgoing_frame_counter := nib_outgoing_frame_counter (nib (nwk g)) + 1\<rparr>) = Some (Some key)"
    "take 2 (drop 4 hdr) = htole16 ns"
    "can_receive param b mhr ml (extended_address g) ns (nib_outgoing_frame_counter (nib (nwk g)))
       (nib_active_key_seq_number (nib (nwk g))) key n r"
  shows "\<exists>g' dst'. zb_nwk_secure_frame s (length mh) d g = Some (g', RET_OK) \<and> aget (bp_pool (bpool g')) d = Some dst'
    \<and> (buf_data b = drop (length mh) (buf_data dst') \<longrightarrow>
        (\<exists>r' b' aux e. zb_nwk_unsecure_frame param mhr ml r = Some (r', RET_OK)
          \<and> aget (bp_pool (bpool r')) param = Some b' \<and> length aux = 14 \<and> buf_data b' = hdr @ aux @ pay
          \<and> nb_get (neighbor (nwk r')) n = Some e
          \<and> ne_incoming_frame_counter e = nib_outgoing_frame_counter (nib (nwk g))))"
proof -
  obtain f0 f1 rest where h: "hdr = [f0, f1] @ rest" "zb_nwk_hdr_size (f0, f1) = length hdr + 14"
    using assms(1) by (auto simp: secur_ready_def)
  have "take 2 (drop 2 rest) = htole16 ns" using assms(10) h(1) by simp
  then obtain x y rest' where "rest = [x, y] @ htole16 ns @ rest'"
    by (cases rest; cases "tl rest")
      (auto simp: htole16_def, metis append_Cons append_Nil append_take_drop_id)
  then have h2: "hdr = [f0, f1, x, y] @ htole16 ns @ rest'" using h(1) by simp
  obtain g' dst' where s: "zb_nwk_secure_frame s (length mh) d g = Some (g', RET_OK)" "aget (bp_pool (bpool g')) d = Some dst'"
    "buf_data dst' = mh @ hdr @ aux_bytes ZB_NWK_STD_SECUR_CONTROL_ZEROED_LEVEL (nib_outgoing_frame_counter (nib (nwk g)))
          (extended_address g) (nib_active_key_seq_number (nib (nwk g)))
        @ ccm_cipher key (nwk_nonce (extended_address g) (htole32 (nib_outgoing_frame_counter (nib (nwk g)))) ZB_NWK_STD_SECUR_CONTROL) pay
        @ ccm_mic key (nwk_nonce (extended_address g) (htole32 (nib_outgoing_frame_counter (nib (nwk g)))) ZB_NWK_STD_SECUR_CONTROL)
            (hdr @ aux_bytes ZB_NWK_STD_SECUR_CONTROL (nib_outgoing_frame_counter (nib (nwk g)))
              (extended_address g) (nib_active_key_seq_number (nib (nwk g)))) pay"
    using secure_frame_spec [OF assms(1,2,3,4,5,9,8,7,6)] by blast
  have "\<exists>r' b' aux e. zb_nwk_unsecure_frame param mhr ml r = Some (r', RET_OK)
          \<and> aget (bp_pool (bpool r')) param = Some b' \<and> length aux = 14 \<and> buf_data b' = hdr @ aux @ pay
          \<and> nb_get (neighbor (nwk r')) n = Some e
          \<and> ne_incoming_frame_counter e = nib_outgoing_frame_counter (nib (nwk g))"
    if b: "buf_data b = drop (length mh) (buf_data dst')"
  proof -
    have bd: "buf_data b = hdr @ aux_bytes ZB_NWK_STD_SECUR_CONTROL_ZEROED_LEVEL (nib_outgoing_frame_counter (nib (nwk g)))
          (extended_address g) (nib_active_key_seq_number (nib (nwk g)))
        @ ccm_cipher key (nwk_nonce (extended_address g) (htole32 (nib_outgoing_frame_counter (nib (nwk g)))) ZB_NWK_STD_SECUR_CONTROL) pay
        @ ccm_mic key (nwk_nonce (extended_address g) (htole32 (nib_outgoing_frame_counter (nib (nwk g)))) ZB_NWK_STD_SECUR_CONTROL)
            (hdr @ aux_bytes ZB_NWK_STD_SECUR_CONTROL (nib_outgoing_frame_counter (nib (nwk g)))
              (extended_address g) (nib_active_key_seq_number (nib (nwk g)))) pay"
      unfolding b s(3) by simp
    from unsecure_frame_spec [OF assms(11) bd h2 h(2) assms(7,8) refl refl] obtain r' b' e where
      "zb_nwk_unsecure_frame param mhr ml r = Some (r', RET_OK)" "aget (bp_pool (bpool r')) param = Some b'"
      "buf_data b' = (hdr @ aux_bytes ZB_NWK_STD_SECUR_CONTROL (nib_outgoing_frame_counter (nib (nwk g)))
          (extended_address g) (nib_active_key_seq_number (nib (nwk g)))) @ pay"
      "nb_get (neighbor (nwk r')) n = Some e" "ne_incoming_frame_counter e = nib_outgoing_frame_counter (nib (nwk g))"
      by blast
    moreover have "length (aux_bytes ZB_NWK_STD_SECUR_CONTROL (nib_outgoing_frame_counter (nib (nwk g)))
          (extended_address g) (nib_active_key_seq_number (nib (nwk g)))) = 14" using assms(7) by (rule length_aux_bytes)
    ultimately show ?thesis by (metis append.assoc)
  qed
  then show ?thesis using s(1,2) by blast
qed

section \<open>A forged frame\<close>

lemma nwk_status_neighbor:
  "zb_secur_nwk_status param mhr st g = Some g' \<Longrightarrow> nwk g' = nwk g \<and> bpool g' = bpool g"
  unfolding zb_secur_nwk_status_def using schedule_buf_sched by (fastforce simp: put_param_def)

lemma report_short_neighbor: "report_short param mhr hs b g = Some g' \<Longrightarrow> nwk g' = nwk g"
  using nwk_status_neighbor by (fastforce simp: report_short_def split: if_splits)

text \<open>
  C40: a forged frame moves the frame counter: a frame that names a known neighbor, a key number of the device and
  any counter that is not behind, with any body, is rejected with an error, but its counter stays in the
  neighbor's entry although nothing was authenticated; afterwards every genuine frame of that neighbor
  with a smaller counter is rejected.
\<close>

theorem forged_frame_moves_counter:
  assumes "can_receive param b mhr ml ext ns cnt seq key n g"
    "buf_data b = hdr @ aux_bytes c cnt ext seq @ body"
    "hdr = [f0, f1, x, y] @ htole16 ns @ rest" "zb_nwk_hdr_size (f0, f1) = length hdr + 14" "length ext = 8"
    "zb_nwk_unsecure_frame param mhr ml g = Some (g', ret)" "ret \<noteq> RET_OK"
  shows "(\<exists>e. nb_get (neighbor (nwk g')) n = Some e \<and> ne_incoming_frame_counter e = cnt \<and> ne_key_seq_number e = seq)
    \<and> (\<forall>cnt' p m g'' k. cnt' < cnt \<and> check_counter p m n seq cnt' g' = Some (g'', k) \<longrightarrow> k = None)"
proof -
  let ?ax = "ZB_BUF_BEGIN b + length hdr"
  obtain g2 e where g2: "zb_nwk_unsecure_frame param mhr ml g = do {
        gs \<leftarrow> report_short param mhr (length hdr + 14) b g2;
        (b1, ret1) \<leftarrow> unsecure_payload key (length hdr + 14) ?ax b;
        if ret1 \<noteq> RET_OK then do {
          g3 \<leftarrow> zb_secur_nwk_status param mhr ZB_NWK_COMMAND_STATUS_FRAME_SECURITY_FAILED (put_buf param b1 gs);
          Some (g3, ret1) }
        else do {
          b2 \<leftarrow> reinsert_mhr mhr ml b1;
          g3 \<leftarrow> upd_neighbor n note_authenticated (put_buf param b2 gs);
          g4 \<leftarrow> implicit_switch param ?ax g3;
          Some (g4, RET_OK) } }"
      "nb_get (neighbor (nwk g2)) n = Some e" "ne_incoming_frame_counter e = cnt" "ne_key_seq_number e = seq"
    using unsecure_frame_steps [OF assms(1,2,3,4,5)] by blast
  obtain gs where gs: "report_short param mhr (length hdr + 14) b g2 = Some gs"
    using assms(6) unfolding g2(1) by (auto split: Option.bind_splits)
  obtain b1 ret1 where b1: "unsecure_payload key (length hdr + 14) ?ax b = Some (b1, ret1)"
    using assms(6) gs unfolding g2(1) by (auto split: Option.bind_splits)
  have "ret1 \<noteq> RET_OK"
    using assms(6,7) gs b1 unfolding g2(1) by (auto split: Option.bind_splits if_splits)
  then have "zb_secur_nwk_status param mhr ZB_NWK_COMMAND_STATUS_FRAME_SECURITY_FAILED (put_buf param b1 gs) = Some g'"
    using assms(6) gs b1 unfolding g2(1) by (auto split: Option.bind_splits)
  then have "nwk g' = nwk g2" using nwk_status_neighbor report_short_neighbor [OF gs] by fastforce
  then have e: "nb_get (neighbor (nwk g')) n = Some e" using g2(2) by simp
  have "k = None" if "cnt' < cnt" "check_counter p m n seq cnt' g' = Some (g'', k)" for cnt' p m g'' k
  proof (cases k)
    case (Some key')
    then have "\<not> counter_bad (note_key seq e) cnt'" using check_counter_result [of p m n seq cnt' g' g'' key'] that(2) e by auto
    moreover have "ne_incoming_frame_counter (note_key seq e) = cnt" using note_key_again [of e seq] g2(3,4) by simp
    ultimately show ?thesis using that(1) by (simp add: counter_bad_def)
  qed
  then show ?thesis using e g2(3,4) by blast
qed

section \<open>A short frame\<close>

definition status_cb :: "nat \<Rightarrow> zb_cb_q_ent" where
  "status_cb param = \<lparr>cb_func = Cb_zb_nlme_status_indication, cb_param = of_nat param\<rparr>"

lemma nwk_status_schedules:
  assumes "sched_wf (sched g)" "param \<le> 16" "length (callbacks (sched g)) < 16"
  shows "\<exists>g'. zb_secur_nwk_status param mhr st g = Some g' \<and> sched_wf (sched g')
    \<and> callbacks (sched g') = callbacks (sched g) @ [status_cb param]"
proof -
  let ?g = "put_param param (Status_ind \<lparr>si_status = st, si_network_addr = addr_short (mh_src_addr mhr)\<rparr>) g"
  have s: "sched ?g = sched g" by (simp add: put_param_def)
  have "unat (of_nat param :: 8 word) \<le> 16" using assms(2) by (simp add: unat8_of_nat)
  then show ?thesis
    using zb_schedule_callback_appends [of ?g "of_nat param" Cb_zb_nlme_status_indication] assms(1,3) s
    by (auto simp: zb_secur_nwk_status_def schedule_buf_def status_cb_def)
qed

lemma short_frame_result:
  assumes "can_receive param b mhr ml ext ns cnt seq key n g"
    "buf_data b = hdr @ aux_bytes c cnt ext seq @ body"
    "hdr = [f0, f1, x, y] @ htole16 ns @ rest" "zb_nwk_hdr_size (f0, f1) = length hdr + 14" "length ext = 8"
    "length body < 4" "sched_wf (sched g)" "param \<le> 16" "length (callbacks (sched g)) < 15"
  shows "\<exists>g'. zb_nwk_unsecure_frame param mhr ml g = Some (g', RET_ERROR)
    \<and> callbacks (sched g') = callbacks (sched g) @ [status_cb param, status_cb param]"
proof -
  have wf: "buf_wf b" using assms(1) by (simp add: can_receive_def)
  have "nsdu_payload_size (length hdr + 14) b = length body"
  proof -
    have "ZB_BUF_LEN b = length hdr + 14 + length body"
      using buf_data_len [OF wf] assms(2,5) by (simp add: ZB_BUF_LEN_def length_aux_bytes)
    then have "ZB_BUF_LEN b + 2 ^ 32 - (length hdr + 14) = length body + 2 ^ 32" by simp
    moreover have "(length body + 2 ^ 32) mod 2 ^ 32 = length body" using assms(6) unfolding mod_add_self2 by (intro mod_less) simp
    ultimately show ?thesis by (simp add: nsdu_payload_size_def)
  qed
  then have short: "nsdu_payload_size (length hdr + 14) b < ZB_CCM_M" using assms(6) by (simp add: ZB_CCM_M_def)
  obtain g2 where g2: "zb_nwk_unsecure_frame param mhr ml g = do {
        gs \<leftarrow> report_short param mhr (length hdr + 14) b g2;
        zb_secur_nwk_status param mhr ZB_NWK_COMMAND_STATUS_FRAME_SECURITY_FAILED (put_buf param b gs)
          \<bind> (\<lambda>g3. Some (g3, RET_ERROR)) }" "sched g2 = sched g"
    using unsecure_frame_steps [OF assms(1-5)] short by (auto simp: unsecure_payload_def)
  obtain gs where gs: "report_short param mhr (length hdr + 14) b g2 = Some gs" "sched_wf (sched gs)"
      "callbacks (sched gs) = callbacks (sched g) @ [status_cb param]"
    using nwk_status_schedules [of g2 param] short g2(2) assms(7-9) by (auto simp: report_short_def)
  have "sched (put_buf param b gs) = sched gs" by (simp add: put_buf_def)
  then obtain g3 where
    "zb_secur_nwk_status param mhr ZB_NWK_COMMAND_STATUS_FRAME_SECURITY_FAILED (put_buf param b gs) = Some g3"
    "callbacks (sched g3) = callbacks (sched g) @ [status_cb param, status_cb param]"
    using nwk_status_schedules [of "put_buf param b gs" param mhr ZB_NWK_COMMAND_STATUS_FRAME_SECURITY_FAILED] gs assms(8,9)
    by auto
  then show ?thesis using gs(1) by (auto simp: g2(1))
qed

text \<open>
  a frame that is too short for its integrity code is reported twice: \<open>zb_nwk_unsecure_frame\<close> returns an
  error, and two status indications for the same buffer are in the scheduler's queue, so the handler
  that the first one gives the buffer to shares it with the second.
\<close>

theorem short_frame_reported_twice:
  assumes "can_receive param b mhr ml ext ns cnt seq key n g"
    "buf_data b = hdr @ aux_bytes c cnt ext seq @ body"
    "hdr = [f0, f1, x, y] @ htole16 ns @ rest" "zb_nwk_hdr_size (f0, f1) = length hdr + 14" "length ext = 8"
    "length body < 4" "sched_wf (sched g)" "param \<le> 16" "length (callbacks (sched g)) < 15"
  shows "\<exists>g'. zb_nwk_unsecure_frame param mhr ml g = Some (g', RET_ERROR)
    \<and> callbacks (sched g') = callbacks (sched g) @ [status_cb param, status_cb param]"
  using assms by (rule short_frame_result)

end
