(* ===== verification/Zb_Nwk_Unsecured.thy ===== *)
theory Zb_Nwk_Unsecured
  imports Zb_Nwk_Main Zb_Nwk_Secur_Props
begin

text \<open>
  What a frame that passes the security check looks like: \<open>zb_nwk_unsecure_frame\<close> leaves the first eight bytes of
  the network header, the identity of the device and its role as they were, whatever frame it accepts.
\<close>

section \<open>The MAC header\<close>

lemma parse_addr_length: "parse_addr v p i = Some (a, j) \<Longrightarrow> j = i + length (addr_bytes v a) \<and> length (addr_bytes v a) \<le> 8"
  by (auto simp: parse_addr_def addr_bytes_def bind_eq_Some_conv dest: rdn_length split: if_splits)

lemma parse_mhr_length:
  assumes "zb_parse_mhr p i = Some (mhr, n)"
  shows "n = length (mhr_bytes mhr)" "n \<le> 23"
proof -
  obtain f0 f1 q dp da j sp sa k where d: "parse_dst (f0, f1) p (i + 3) = Some (dp, da, j)"
      "parse_src (f0, f1) dp p j = Some (sp, sa, k)" "n = (k - i) mod 256"
    and m: "mhr = \<lparr>mh_frame_control = (f0, f1), mh_seq_number = q, mh_dst_pan_id = dp, mh_dst_addr = da,
       mh_src_pan_id = sp, mh_src_addr = sa\<rparr>"
    using assms by (auto simp: zb_parse_mhr_def bind_eq_Some_conv)
  define D where "D = (if ZB_FCF_GET_DST_ADDRESSING_MODE (f0, f1) \<noteq> 0
    then htole16 dp @ addr_bytes (ZB_FCF_GET_DST_ADDRESSING_MODE (f0, f1)) da else [])"
  define S where "S = (if ZB_FCF_GET_SRC_ADDRESSING_MODE (f0, f1) \<noteq> 0
    then (if ZB_FCF_GET_PANID_COMPRESSION_BIT (f0, f1) = 0 then htole16 sp else [])
      @ addr_bytes (ZB_FCF_GET_SRC_ADDRESSING_MODE (f0, f1)) sa else [])"
  have j: "j = i + 3 + length D \<and> length D \<le> 10"
    using d(1) by (auto simp: parse_dst_def Let_def D_def bind_eq_Some_conv dest!: parse_addr_length split: if_splits)
  have k: "k = j + length S \<and> length S \<le> 10"
    using d(2) by (auto simp: parse_src_def Let_def S_def bind_eq_Some_conv dest!: parse_addr_length split: if_splits)
  have "mhr_bytes mhr = [f0, f1, q] @ D @ S" by (simp add: m mhr_bytes_def Let_def D_def S_def)
  then show "n = length (mhr_bytes mhr)" "n \<le> 23" using d(3) j k by simp_all
qed

text \<open>The buffer behind the MAC header.\<close>

lemma cut_mac_wf:
  assumes "cut_mac b g = Some (mhr, n, g1)" "get_buf b g = Some q" "buf_wf q"
  obtains p where "get_buf b g1 = Some p" "buf_wf p" "unat (b_len p) + n + 2 \<le> 148" "length (mhr_bytes mhr) = n" "n \<le> 23"
    "g1 = put_buf b p g"
proof -
  obtain p where m: "zb_parse_mhr (b_buf q) (ZB_BUF_BEGIN q) = Some (mhr, n)" and p: "ZB_MAC_CUT_HDR n q = Some p"
    and g1: "g1 = put_buf b p g"
    using assms(1,2) by (auto simp: cut_mac_def bind_eq_Some_conv)
  note l = parse_mhr_length [OF m]
  have u: "unat (of_nat n :: 8 word) = n" using l(2) by (intro unat8_of_nat) simp
  have t: "2 \<le> unat (of_nat ZB_TAIL_SIZE_FOR_RECEIVED_MAC_FRAME :: 8 word)"
    by (simp add: ZB_TAIL_SIZE_FOR_RECEIVED_MAC_FRAME_def ZB_MAC_EXTRA_DATA_SIZE_def)
  let ?q = "q\<lparr>b_mac_hdr_offset := b_data_offset q\<rparr>" and ?t = "of_nat ZB_TAIL_SIZE_FOR_RECEIVED_MAC_FRAME :: 8 word"
  have q: "buf_wf ?q" using assms(3) by (simp add: buf_wf_def)
  obtain p1 o2 where p1: "zb_buf_cut_right ?t ?q = Some p1" "zb_buf_cut_left (of_nat n) p1 = Some (p, o2)"
    using p by (auto simp: ZB_MAC_CUT_HDR_def bind_eq_Some_conv)
  have t1: "unat ?t \<le> unat (b_len ?q)" using p1(1) by (simp add: zb_buf_cut_right_def ZB_BUF_LEN_def split: Option.bind_splits)
  then have "buf_wf p1 \<and> buf_data p1 = take (unat (b_len ?q) - unat ?t) (buf_data ?q)"
    using cut_right_spec [OF q t1] p1(1) by auto
  then have w1: "buf_wf p1" "unat (b_len p1) = unat (b_len q) - unat ?t"
    using buf_data_len [of p1] buf_data_len [OF q] by simp_all
  have n1: "n \<le> unat (b_len p1)" using p1(2) u by (simp add: zb_buf_cut_left_def ZB_BUF_LEN_def split: Option.bind_splits)
  then have "buf_wf p \<and> buf_data p = drop n (buf_data p1)"
    using cut_left_spec [OF w1(1), of "of_nat n"] p1(2) u by auto
  then have w: "buf_wf p" "unat (b_len p) = unat (b_len p1) - n"
    using buf_data_len [of p] buf_data_len [OF w1(1)] by simp_all
  have "unat (b_len q) \<le> 148" using assms(3) by (simp add: buf_wf_def ZB_IO_BUF_SIZE_def)
  then have "unat (b_len p) + n + 2 \<le> 148" using w(2) w1(2) n1 t1 t by simp
  moreover have "get_buf b g1 = Some p"
    using assms(2) by (auto simp: g1 get_buf_def put_buf_def aget_Some_iff)
  ultimately show ?thesis by (intro that [OF _ w(1) _ l(1) [symmetric] l(2) g1])
qed

section \<open>The payload\<close>

definition same_hdr :: "zb_buf \<Rightarrow> zb_buf \<Rightarrow> bool" where
  "same_hdr p p' \<longleftrightarrow> buf_wf p' \<and> 8 \<le> unat (b_len p')
     \<and> (\<forall>k<8. aget (b_buf p') (ZB_BUF_BEGIN p' + k) = aget (b_buf p) (ZB_BUF_BEGIN p + k))"

lemma same_hdr_trans: "same_hdr p q \<Longrightarrow> same_hdr q r \<Longrightarrow> same_hdr p r"
  by (simp add: same_hdr_def)

lemma blit_before: "blit p i xs = Some m \<Longrightarrow> length m = length p \<and> (\<forall>j<i. aget m j = aget p j)"
  by (auto simp: blit_def aget_def nth_append split: if_splits)

lemma unsecure_payload_hdr:
  assumes wf: "buf_wf p" and hs: "22 \<le> hs" and u: "unsecure_payload key hs (ZB_BUF_BEGIN p + hs - 14) p = Some (p1, RET_OK)"
  shows "same_hdr p p1" "unat (b_len p1) \<le> unat (b_len p)"
proof -
  define n where "n = nsdu_payload_size hs p"
  obtain m0 nonce where m0: "blit (b_buf p) (ZB_BUF_BEGIN p + hs - 14) [ZB_NWK_STD_SECUR_CONTROL] = Some m0"
      "zb_ccm_decrypt_n_auth key nonce (p\<lparr>b_buf := m0\<rparr>) hs n = Some (p1, RET_OK)"
    using u by (auto simp: unsecure_payload_def Let_def bind_eq_Some_conv n_def zb_ccm_decrypt_n_auth_stdsecur_def
        split: if_splits)
  note b0 = blit_before [OF m0(1)]
  obtain c m1 where c: "aslice m0 (ZB_BUF_BEGIN p + hs) (n - 4) = Some c" "4 \<le> n"
    and m1: "blit m0 (ZB_BUF_BEGIN p + hs) m1 = Some (b_buf p1)" "b_len p1 = b_len p - 4"
      "b_data_offset p1 = b_data_offset p"
    using m0(2) by (auto simp: zb_ccm_decrypt_n_auth_def Let_def bind_eq_Some_conv ZB_CCM_M_def ZB_BUF_BEGIN_def split: if_splits)
  note b1 = blit_before [OF m1(1)]
  have w: "length (b_buf p) = 148" "unat (b_data_offset p) + unat (b_len p) \<le> 148"
    using wf by (simp_all add: buf_wf_def ZB_IO_BUF_SIZE_def)
  have lm: "length m0 = 148" "length (b_buf p1) = 148" using b0 b1 w by simp_all
  have "n - 4 \<le> 148" using c(1) lm by (simp add: aslice_def split: if_splits)
  moreover have "hs \<le> 148" using c(1) lm by (simp add: aslice_def split: if_splits)
  ultimately have n: "n + hs = unat (b_len p)"
    using c(2) w(2) by (cases "hs \<le> unat (b_len p)") (simp_all add: n_def nsdu_payload_size_def ZB_BUF_LEN_def le_mod_geq)
  then have l: "unat (b_len p1) = unat (b_len p) - 4" using c(2) by (simp add: m1(2) unat8_sub)
  have "aget (b_buf p1) (ZB_BUF_BEGIN p1 + k) = aget (b_buf p) (ZB_BUF_BEGIN p + k)" if "k < 8" for k
    using b0 b1 that hs m1(3) by (simp add: ZB_BUF_BEGIN_def)
  moreover have "8 \<le> unat (b_len p1)" "unat (b_data_offset p1) + unat (b_len p1) \<le> 148"
    using w(2) l n hs c(2) unfolding m1(3) by linarith+
  ultimately show "same_hdr p p1" using lm by (simp add: same_hdr_def buf_wf_def ZB_IO_BUF_SIZE_def)
  show "unat (b_len p1) \<le> unat (b_len p)" using l by simp
qed

lemma reinsert_hdr:
  assumes wf: "buf_wf p" "8 \<le> unat (b_len p)" and m: "length (mhr_bytes mhr) = n" "n \<le> 23"
    and l: "unat (b_len p) + n + 2 \<le> 148" and r: "reinsert_mhr mhr (of_nat n) p = Some p'"
  shows "same_hdr p p'"
proof -
  have u: "unat (of_nat (n + 1) :: 8 word) = n + 1" using m(2) by (intro unat8_of_nat) simp
  have e: "(of_nat n :: 8 word) + 1 = of_nat (n + 1)" by simp
  obtain p1 gap where p1: "zb_buf_smart_alloc_left (of_nat (n + 1)) p = Some (p1, ZB_BUF_BEGIN p1)" "buf_wf p1"
      "length gap = n + 1" "buf_data p1 = gap @ buf_data p"
    using alloc_window [OF wf(1), of "n + 1" False] m(2) l by auto
  obtain x gap' where g: "gap = [x] @ gap'" "length gap' = n" using p1(3) by (cases gap) auto
  obtain m2 where m2: "blit (b_buf p1) (ZB_BUF_BEGIN p1 + 1) (mhr_bytes mhr) = Some m2" "buf_wf (p1\<lparr>b_buf := m2\<rparr>)"
      "buf_data (p1\<lparr>b_buf := m2\<rparr>) = [x] @ mhr_bytes mhr @ buf_data p"
    using blit_window [OF p1(2), of "[x]" gap' "buf_data p" "mhr_bytes mhr"] p1(4) g m(1) by auto
  let ?p2 = "p1\<lparr>b_buf := m2, b_mac_hdr_offset := b_data_offset p1 + 1\<rparr>"
  have w2: "buf_wf ?p2" "buf_data ?p2 = [x] @ mhr_bytes mhr @ buf_data p"
    using m2(2,3) by (simp_all add: buf_wf_def buf_data_def)
  have "n + 1 \<le> unat (b_len ?p2)" using buf_data_len [OF w2(1)] w2(2) m(1) by simp
  then obtain p3 where p3: "zb_buf_cut_left (of_nat (n + 1)) ?p2 = Some (p3, unat (b_data_offset p3))" "buf_wf p3"
      "buf_data p3 = drop (n + 1) (buf_data ?p2)"
    using cut_left_spec [OF w2(1), of "of_nat (n + 1)"] u by auto
  have "p' = p3"
    using r p1(1) m2(1) p3(1) by (simp add: reinsert_mhr_def e zb_mac_fill_mhr_def Let_def del: of_nat_add)
  then have d: "buf_wf p'" "buf_data p' = buf_data p" using p3(2,3) w2(2) m(1) by simp_all
  then have l': "8 \<le> length (buf_data p')" using buf_data_len [OF wf(1)] wf(2) by simp
  then show ?thesis using d buf_data_len [OF d(1)] by (simp add: same_hdr_def aget_window [OF d(1)] aget_window [OF wf(1)])
qed

section \<open>The device\<close>

definition same_device :: "'z zb_globals_s_scheme \<Rightarrow> 'z zb_globals_s_scheme \<Rightarrow> bool" where
  "same_device g h \<longleftrightarrow> pib h = pib g \<and> nib_device_type (nib (nwk h)) = nib_device_type (nib (nwk g))"

lemma set_key_device: "set_key i k s N = Some M \<Longrightarrow> nib_device_type M = nib_device_type N"
  by (auto simp: set_key_def split: if_splits)

lemma generate_key_device: "secur_generate_key base i s N = Some M \<Longrightarrow> nib_device_type M = nib_device_type N"
  by (auto simp: secur_generate_key_def dest: set_key_device)

lemma key_switch_device:
  assumes "secur_nwk_key_switch k g = Some g'" shows "same_device g g' \<and> bpool g' = bpool g"
  using assms
  by (auto simp: secur_nwk_key_switch_def Let_def bind_eq_Some_conv same_device_def upd_nib_def
      dest: generate_key_device split: if_splits)

lemma implicit_switch_device: "implicit_switch b aux g = Some g' \<Longrightarrow> same_device g g' \<and> bpool g' = bpool g"
  using key_switch_device by (auto simp: implicit_switch_def Let_def bind_eq_Some_conv same_device_def split: if_splits)

lemma upd_neighbor_device:
  assumes "upd_neighbor n f g = Some g'" shows "same_device g g' \<and> bpool g' = bpool g"
  using assms by (auto simp: upd_neighbor_def bind_eq_Some_conv same_device_def upd_nbt_def)

lemma same_device_trans: "same_device g h \<Longrightarrow> same_device h k \<Longrightarrow> same_device g k"
  by (simp add: same_device_def)

lemma put_buf_device [simp]: "same_device g (put_buf b p g)"
  by (simp add: same_device_def) (simp add: put_buf_def)

lemma upd_nbt_device: "same_device g (upd_nbt f (g\<lparr>addr := A\<rparr>)) \<and> bpool (upd_nbt f (g\<lparr>addr := A\<rparr>)) = bpool g"
  by (simp add: same_device_def upd_nbt_def)

section \<open>The accepted frame\<close>

lemma unsecure_frame_accepted:
  assumes u: "zb_nwk_unsecure_frame b mhr (of_nat n) g = Some (g', RET_OK)" and p: "get_buf b g = Some p" "buf_wf p"
    and f: "hdr_control b g = Some f" "ZB_NWK_FRAMECTL_GET_SECURITY f \<noteq> 0"
    and m: "length (mhr_bytes mhr) = n" "n \<le> 23" "unat (b_len p) + n + 2 \<le> 148"
  obtains p' where "same_device g g'" "get_buf b g' = Some p'" "same_hdr p p'"
proof -
  have au: "aps_authenticated (aps g)"
    using u by (auto simp: zb_nwk_unsecure_frame_def bind_eq_Some_conv split: if_splits)
  have gb: "aget (bp_pool (bpool g)) b = Some p" using p(1) by (simp add: get_buf_def)
  obtain hs aux a s g1 nbe where h: "nwk_hdr_at (b_buf p) (ZB_BUF_BEGIN p) = Some (hs, aux)"
    "rdn 8 (b_buf p) (aux + 5) = Some a" "rd16 (b_buf p) (ZB_BUF_BEGIN p + 4) = Some s"
    "frame_neighbor mhr a s g = Some (g1, RET_OK, Some nbe)"
    using u au gb by (auto simp: zb_nwk_unsecure_frame_def Let_def bind_eq_Some_conv split: if_splits)
  have hs: "hs = zb_nwk_hdr_size f" "aux = ZB_BUF_BEGIN p + hs - 14"
    using h(1) f(1) p(1) by (auto simp: nwk_hdr_at_def Let_def bind_eq_Some_conv hdr_control_def AUX_HDR_SIZE_def)
  have "22 \<le> hs" using f(2) by (simp add: hs(1) zb_nwk_hdr_size_def AUX_HDR_SIZE_def ZB_NWK_SHORT_HDR_SIZE_def)
  obtain q cnt g2 key where c: "check_counter b mhr nbe q cnt g1 = Some (g2, Some key)"
    "rd8 (b_buf p) (aux + 13) = Some q" "rd32 (b_buf p) (aux + 1) = Some cnt"
    using u au gb h by (auto simp: zb_nwk_unsecure_frame_def Let_def bind_eq_Some_conv split: option.splits)
  obtain gs p1 r1 where r: "report_short b mhr hs p g2 = Some gs" "unsecure_payload key hs aux p = Some (p1, r1)"
    using u au gb h c by (auto simp: zb_nwk_unsecure_frame_def Let_def bind_eq_Some_conv)
  then have r1: "r1 = RET_OK"
    using u au gb h c by (auto simp: zb_nwk_unsecure_frame_def Let_def bind_eq_Some_conv split: if_splits)
  then have gs: "gs = g2" using r by (auto simp: report_short_def unsecure_payload_def Let_def split: if_splits)
  obtain p2 g3 where e: "reinsert_mhr mhr (of_nat n) p1 = Some p2"
    "upd_neighbor nbe note_authenticated (put_buf b p2 g2) = Some g3" "implicit_switch b aux g3 = Some g'"
    using u au gb h c r r1 gs by (auto simp: zb_nwk_unsecure_frame_def Let_def bind_eq_Some_conv)
  obtain A N where g1: "g1 = upd_nbt (\<lambda>_. N) (g\<lparr>addr := A\<rparr>)" using frame_neighbor_state [OF h(4)] by blast
  have s1: "same_device g g1 \<and> bpool g1 = bpool g" unfolding g1 by (rule upd_nbt_device)
  obtain M where g2: "g2 = upd_nbt (\<lambda>_. M) g1" using check_counter_result [OF c(1)] by blast
  have s2: "same_device g1 g2 \<and> bpool g2 = bpool g1"
    using upd_nbt_device [of g1 "\<lambda>_. M" "addr g1"] by (simp add: g2)
  note s3 = upd_neighbor_device [OF e(2)] and s4 = implicit_switch_device [OF e(3)]
  have "same_device g g'" using s1 s2 s3 s4 same_device_trans put_buf_device by metis
  moreover have "get_buf b g' = Some p2"
    using s1 s2 s3 s4 gb by (auto simp: get_buf_def put_buf_def aget_Some_iff)
  moreover have "same_hdr p p2"
  proof (rule same_hdr_trans)
    show "same_hdr p p1" using unsecure_payload_hdr(1) [OF p(2) \<open>22 \<le> hs\<close>, of key p1] r(2) r1 hs(2) by simp
    then show "same_hdr p1 p2"
      using reinsert_hdr [OF _ _ m(1,2) _ e(1)] m(3) unsecure_payload_hdr(2) [OF p(2) \<open>22 \<le> hs\<close>, of key p1] r(2) r1 hs(2)
      by (simp add: same_hdr_def)
  qed
  ultimately show ?thesis using that by blast
qed

end
