(* ===== verification/Zb_Nwk_Main_Runs.thy ===== *)
theory Zb_Nwk_Main_Runs
  imports Zb_Nwk_Main_Props Zb_Nwk_Unsecured
begin

text \<open>
  Runs of the handlers of \<^verbatim>\<open>nwk/nwk_main.c\<close>: each keeps the tables consistent, and no record of a broadcast gets
  older or is lost but by the clock. From this follow what becomes of the copies of a broadcast and of frames for
  other devices.
\<close>

section \<open>What a handler may do to the tables\<close>

definition keeps :: "zb_nwk_bcast \<Rightarrow> zb_nwk_bcast \<Rightarrow> bool" where
  "keeps t t' \<longleftrightarrow> (bcast_wf t \<longrightarrow> bcast_wf t' \<and> btr_age t \<subseteq>\<^sub>m btr_age t')"

lemma keeps_refl [simp, intro]: "keeps t t"
  by (simp add: keeps_def)

lemma keeps_trans: "keeps t u \<Longrightarrow> keeps u v \<Longrightarrow> keeps t v"
  by (auto simp: keeps_def intro: map_le_trans)

lemma keepsI:
  assumes "btt t' = btt t" "btt_cnt t' = btt_cnt t" "bcast_wf t \<Longrightarrow> brrt_wf t'" "bcast_wf t \<Longrightarrow> wait_wf t'"
  shows "keeps t t'"
  using assms btt_wf_cong [OF assms(1,2)] btr_age_cong [OF assms(1)] by (auto simp: keeps_def bcast_wf_def)

lemma on_g_snd: "on_g f s = Some s' \<Longrightarrow> snd s' = snd s"
  by (auto simp: on_g_def)

lemma note_btr_keeps:
  assumes "note_btr src seq s = Some (r, s')"
  shows "keeps (snd s) (snd s')" "bcast_wf (snd s) \<Longrightarrow> r = Btr_new \<Longrightarrow> btr_age (snd s') (src, seq) = Some 9"
    "bcast_wf (snd s) \<Longrightarrow> r = Btr_known \<longleftrightarrow> btr_age (snd s) (src, seq) \<noteq> None"
    "r \<noteq> Btr_new \<Longrightarrow> s' = s"
proof -
  have ext: "keeps t t' \<and> (bcast_wf t \<longrightarrow> btr_age t' (src, seq) = Some 9)"
    if new: "add_btr src seq t = Some t'" "find_btr src seq t = None" for t t'
  proof (cases "bcast_wf t")
    case True
    then have w: "btt_wf t" "brrt_wf t" "wait_wf t" by (simp_all add: bcast_wf_def)
    note a = add_btr_wf [OF w(1) new(2,1)] add_btr_age [OF w(1) new(2,1)]
    obtain i where "t' = t\<lparr>btt := btt t', btt_cnt := btt_cnt t'\<rparr>" using add_btr_cases [OF w(1) new(2,1)] by metis
    then have "brrt t' = brrt t" "brrt_cnt t' = brrt_cnt t" "wait_alloc t' = wait_alloc t" "wait_alloc_cnt t' = wait_alloc_cnt t"
      by (metis zb_nwk_bcast.select_convs zb_nwk_bcast.surjective zb_nwk_bcast.update_convs(1,2))+
    then have "bcast_wf t'" using a(1) w(2,3) brrt_wf_cong [of t' t] wait_wf_cong [of t' t] by (simp add: bcast_wf_def)
    moreover have "btr_age t \<subseteq>\<^sub>m btr_age t'" using new(2) by (auto simp: a(2) map_le_def btr_age_def)
    ultimately show ?thesis using a(2) by (simp add: keeps_def)
  qed (simp add: keeps_def)
  show "keeps (snd s) (snd s')" "bcast_wf (snd s) \<Longrightarrow> r = Btr_new \<Longrightarrow> btr_age (snd s') (src, seq) = Some 9"
    "bcast_wf (snd s) \<Longrightarrow> r = Btr_known \<longleftrightarrow> btr_age (snd s) (src, seq) \<noteq> None" "r \<noteq> Btr_new \<Longrightarrow> s' = s"
    using assms ext by (auto simp: note_btr_def btr_age_None_iff bind_eq_Some_conv split: option.splits)
qed

text \<open>The table of retransmissions.\<close>

lemma brrt_wf_length: "brrt_wf t \<Longrightarrow> length (brrt t) = 8"
  by (simp add: brrt_wf_def tbl_ok_def)

lemma upd_brr_keeps:
  assumes "br_used (f (brrt t ! i)) = br_used (brrt t ! i)"
    "length (br_passive_ack (f (brrt t ! i))) = length (br_passive_ack (brrt t ! i))"
  shows "keeps t (upd_brr i f t)"
proof (rule keepsI)
  assume "bcast_wf t"
  then have b: "brrt_wf t" and w: "wait_wf t" by (simp_all add: bcast_wf_def)
  have "tbl_ok 8 br_used (brrt (upd_brr i f t)) (brrt_cnt (upd_brr i f t))"
    using b tbl_upd [of 8 br_used "brrt t" "brrt_cnt t" "f (brrt t ! i)" i] assms(1) by (simp add: brrt_wf_def upd_brr_def)
  moreover have "length (br_passive_ack (brrt (upd_brr i f t) ! j)) = ZB_NWK_BRCST_PASSIVE_ACK_ARRAY_SIZE" if "j < 8" for j
    using b brrt_wf_length [OF b] assms(2) that by (cases "i = j") (auto simp: brrt_wf_def upd_brr_def)
  ultimately show "brrt_wf (upd_brr i f t)" by (simp add: brrt_wf_def)
  show "wait_wf (upd_brr i f t)" using w wait_wf_cong [of "upd_brr i f t" t] by (simp add: upd_brr_def)
qed (simp_all add: upd_brr_def)

lemma put_brr_keeps:
  assumes "i < 8" "br_used (brrt t ! i)" shows "keeps t (put_brr i t)"
proof (rule keepsI)
  assume "bcast_wf t"
  then have b: "brrt_wf t" and w: "wait_wf t" by (simp_all add: bcast_wf_def)
  have "tbl_ok 8 br_used (brrt (put_brr i t)) (brrt_cnt (put_brr i t))"
    using b tbl_put [of 8 br_used "brrt t" "brrt_cnt t" i "\<lambda>e. e\<lparr>br_used := False\<rparr>"] assms
    by (simp add: brrt_wf_def put_brr_def NWK_ARRAY_PUT_ENT_def)
  moreover have "length (br_passive_ack (brrt (put_brr i t) ! j)) = ZB_NWK_BRCST_PASSIVE_ACK_ARRAY_SIZE" if "j < 8" for j
    using b brrt_wf_length [OF b] that by (cases "i = j") (auto simp: brrt_wf_def put_brr_def NWK_ARRAY_PUT_ENT_def)
  ultimately show "brrt_wf (put_brr i t)" by (simp add: brrt_wf_def)
  show "wait_wf (put_brr i t)"
    using w wait_wf_cong [of "put_brr i t" t] by (simp add: put_brr_def NWK_ARRAY_PUT_ENT_def)
qed (simp_all add: put_brr_def NWK_ARRAY_PUT_ENT_def)

lemma add_brr_keeps:
  assumes "add_brr b src dst seq n t = Some t'" shows "keeps t t'"
proof -
  obtain i ys c where g: "NWK_ARRAY_GET_ENT br_used (\<lambda>e. e\<lparr>br_used := True\<rparr>) (brrt t) (brrt_cnt t) = Some (i, ys, c)"
    and t': "t' = t\<lparr>brrt := ys[i := (ys ! i)\<lparr>br_buf := b, br_retries := 0, br_src_addr := src,
         br_dst_addr := dst, br_seq_num := seq, br_neighbor_table_iterator := n,
         br_passive_ack := replicate ZB_NWK_BRCST_PASSIVE_ACK_ARRAY_SIZE 0\<rparr>], brrt_cnt := c\<rparr>"
    using assms by (auto simp: add_brr_def)
  show ?thesis
  proof (rule keepsI)
    assume "bcast_wf t"
    then have b: "brrt_wf t" and w: "wait_wf t" by (simp_all add: bcast_wf_def)
    have "tbl_ok 8 br_used ys c \<and> i < 8 \<and> \<not> br_used (brrt t ! i) \<and> ys = (brrt t)[i := (brrt t ! i)\<lparr>br_used := True\<rparr>]"
      by (rule tbl_get [OF _ g]) (use b in \<open>simp_all add: brrt_wf_def\<close>)
    then have i: "tbl_ok 8 br_used ys c" "i < 8" "ys = (brrt t)[i := (brrt t ! i)\<lparr>br_used := True\<rparr>]" by blast+
    have "tbl_ok 8 br_used (brrt t') (brrt_cnt t')" using tbl_upd [OF i(1)] by (simp add: t')
    moreover have "length (br_passive_ack (brrt t' ! j)) = ZB_NWK_BRCST_PASSIVE_ACK_ARRAY_SIZE" if "j < 8" for j
      using b brrt_wf_length [OF b] i(2) that
      by (cases "i = j") (auto simp: t' i(3) brrt_wf_def)
    ultimately show "brrt_wf t'" by (simp add: brrt_wf_def)
    show "wait_wf t'" using w wait_wf_cong [of t' t] by (simp add: t')
  qed (simp_all add: t')
qed

lemma find_brr_in:
  assumes "bcast_wf t" "find_brr P t = Some i" shows "i < 8" "br_used (brrt t ! i)"
  using tbl_find [OF assms(2) [unfolded find_brr_def]] assms(1) brrt_wf_length [of t] by (simp_all add: bcast_wf_def)

text \<open>The entries that wait for a buffer.\<close>

lemma add_wait_alloc_keeps:
  assumes "add_wait_alloc b t = Some t'" shows "keeps t t'"
proof -
  obtain i ys c where g: "NWK_ARRAY_GET_ENT wa_used (\<lambda>e. e\<lparr>wa_used := True\<rparr>) (wait_alloc t) (wait_alloc_cnt t) = Some (i, ys, c)"
    and t': "t' = t\<lparr>wait_alloc := ys[i := (ys ! i)\<lparr>wa_buf := b, wa_wait := ZB_NWK_WAIT_REASON_IND_AND_RETRANSMIT\<rparr>],
       wait_alloc_cnt := c\<rparr>"
    using assms by (auto simp: add_wait_alloc_def)
  show ?thesis
  proof (rule keepsI)
    assume "bcast_wf t"
    then have b: "brrt_wf t" and w: "wait_wf t" by (simp_all add: bcast_wf_def)
    have l: "length (wait_alloc t) = 5" using w by (simp add: wait_wf_def)
    have f: "find (\<lambda>i. \<not> wa_used (wait_alloc t ! i)) [0..<5] = Some i" "ys = (wait_alloc t)[i := (wait_alloc t ! i)\<lparr>wa_used := True\<rparr>]"
      "c = inc8 (wait_alloc_cnt t)" using g l by (auto simp: NWK_ARRAY_GET_ENT_def)
    have "i < 5 \<and> \<not> wa_used (wait_alloc t ! i) \<and> (\<forall>j<i. wa_used (wait_alloc t ! j))"
      using f(1) by (auto simp: find_Some_iff)
    then have i: "i < 5" "\<not> wa_used (wait_alloc t ! i)" "\<And>j. j < i \<Longrightarrow> wa_used (wait_alloc t ! j)" by blast+
    have u: "wa_used (wait_alloc t ! j) = (j < wait_alloc_cnt t)" if "j < 5" for j using w that by (simp add: wait_wf_def)
    have "\<not> wait_alloc_cnt t < i" using i(1) i(3) [of "wait_alloc_cnt t"] u [of "wait_alloc_cnt t"] by auto
    then have e: "wait_alloc_cnt t = i" using i(1,2) u [of i] by simp
    then have c: "c = Suc i" using f(3) i(1) by simp
    have j: "(ys[i := (ys ! i)\<lparr>wa_buf := b, wa_wait := ZB_NWK_WAIT_REASON_IND_AND_RETRANSMIT\<rparr>]) ! j =
        (if j = i then (wait_alloc t ! i)\<lparr>wa_used := True, wa_buf := b, wa_wait := ZB_NWK_WAIT_REASON_IND_AND_RETRANSMIT\<rparr>
         else wait_alloc t ! j)" for j using l i(1) by (simp add: f(2))
    show "wait_wf t'" unfolding wait_wf_def
    proof (intro conjI allI impI)
      show "length (wait_alloc t') = 5" "wait_alloc_cnt t' \<le> 5" using l i(1) by (simp_all add: t' f(2) c)
      show "wa_used (wait_alloc t' ! k) = (k < wait_alloc_cnt t')" if "k < 5" for k
        using u [OF that] e by (auto simp: t' j c)
      show "wa_wait (wait_alloc t' ! k) = ZB_NWK_WAIT_REASON_IND_AND_RETRANSMIT" if "k < wait_alloc_cnt t'" for k
        using that w e by (auto simp: t' j c wait_wf_def)
    qed
    show "brrt_wf t'" using b brrt_wf_cong [of t' t] by (simp add: t')
  qed (simp_all add: t')
qed

lemma deliver_frame_keeps: "deliver_frame b x y s = Some s' \<Longrightarrow> keeps (snd s) (snd s')"
  by (auto simp: deliver_frame_def dest!: on_g_snd intro: add_wait_alloc_keeps split: if_splits option.splits)

lemma new_buffer_allocated_keeps:
  assumes "new_buffer_allocated b s = Some s'" shows "keeps (snd s) (snd s')"
proof (cases "b \<noteq> 0 \<and> wait_alloc_cnt (snd s) \<noteq> 0")
  case True
  let ?t = "snd s"
  let ?i = "wait_alloc_cnt ?t - 1"
  have s': "snd s' = ?t\<lparr>wait_alloc := (wait_alloc ?t)[?i := (wait_alloc ?t ! ?i)\<lparr>wa_used := False\<rparr>],
      wait_alloc_cnt := ?i\<rparr>"
    using assms True
    by (auto simp: new_buffer_allocated_def Let_def NWK_ARRAY_PUT_ENT_def bind_eq_Some_conv dest!: on_g_snd split: if_splits)
  show ?thesis
  proof (rule keepsI)
    assume wf: "bcast_wf ?t"
    then have w: "wait_wf ?t" by (simp add: bcast_wf_def)
    have l: "length (wait_alloc ?t) = 5" using w by (simp add: wait_wf_def)
    show "wait_wf (snd s')" unfolding wait_wf_def
    proof (intro conjI allI impI)
      show "length (wait_alloc (snd s')) = 5" "wait_alloc_cnt (snd s') \<le> 5" using w by (auto simp: s' wait_wf_def)
      show "wa_used (wait_alloc (snd s') ! k) = (k < wait_alloc_cnt (snd s'))" if "k < 5" for k
        using that w l True by (cases "k = ?i") (auto simp: s' wait_wf_def)
      show "wa_wait (wait_alloc (snd s') ! k) = ZB_NWK_WAIT_REASON_IND_AND_RETRANSMIT" if "k < wait_alloc_cnt (snd s')" for k
        using that w by (simp add: s' wait_wf_def)
    qed
    show "brrt_wf (snd s')" using wf brrt_wf_cong [of "snd s'" ?t] by (simp add: s' bcast_wf_def)
  qed (simp_all add: s')
next
  case False
  then show ?thesis using assms by (auto simp: new_buffer_allocated_def split: if_splits)
qed

section \<open>The handlers\<close>

lemma note_ack_keeps:
  assumes "note_ack i n s = Some s'" "i < 8" "br_used (brrt (snd s) ! i)" shows "keeps (snd s) (snd s')"
proof -
  obtain v d where v: "set_ack n (br_passive_ack (brrt (snd s) ! i)) = Some v"
    and s': "snd s' = upd_brr i (\<lambda>e. e\<lparr>br_passive_ack := v\<rparr>) (snd s)
        \<or> snd s' = put_brr i (upd_brr i (\<lambda>e. e\<lparr>br_passive_ack := v\<rparr>) (snd s))"
    using assms(1) by (auto simp: note_ack_def Let_def bind_eq_Some_conv split: if_splits)
  have u: "keeps (snd s) (upd_brr i (\<lambda>e. e\<lparr>br_passive_ack := v\<rparr>) (snd s))"
    by (rule upd_brr_keeps) (use v in \<open>auto simp: set_ack_def split: if_splits\<close>)
  have "br_used (brrt (upd_brr i (\<lambda>e. e\<lparr>br_passive_ack := v\<rparr>) (snd s)) ! i)"
    using assms(3) by (cases "i < length (brrt (snd s))") (simp_all add: upd_brr_def list_update_beyond)
  then show ?thesis using s' u keeps_trans [OF u put_brr_keeps [OF assms(2)]] by auto
qed

lemma note_passive_ack_keeps:
  assumes "note_passive_ack mhr src seq s = Some s'" shows "keeps (snd s) (snd s')" "btt (snd s') = btt (snd s)"
proof -
  have "keeps (snd s) (snd s') \<and> btt (snd s') = btt (snd s)" if wf: "bcast_wf (snd s)"
  proof (cases "snd s' = snd s")
    case False
    then obtain i g n where i: "find_brr (\<lambda>e. br_src_addr e = src \<and> br_seq_num e = seq) (snd s) = Some i"
      "note_ack i n (g, snd s) = Some s'"
      using assms by (auto simp: note_passive_ack_def bind_eq_Some_conv split: if_splits option.splits)
    have "btt (snd s') = btt (snd s)"
      using i(2) by (auto simp: note_ack_def Let_def bind_eq_Some_conv put_brr_def upd_brr_def NWK_ARRAY_PUT_ENT_def split: if_splits)
    then show ?thesis using note_ack_keeps [OF i(2)] find_brr_in [OF wf i(1)] by simp
  qed simp
  moreover have "btt (snd s') = btt (snd s)"
    using assms by (auto simp: note_passive_ack_def note_ack_def Let_def bind_eq_Some_conv put_brr_def upd_brr_def
        NWK_ARRAY_PUT_ENT_def split: if_splits option.splits)
  ultimately show "keeps (snd s) (snd s')" "btt (snd s') = btt (snd s)" by (auto simp: keeps_def)
qed

lemma receive_broadcast_parts:
  assumes "receive_broadcast mhr b dst src seq s = Some (s1, c)" "broadcast_supported dst (snd s)"
  obtains u res v where "note_passive_ack mhr src seq s = Some u" "note_btr src seq u = Some (res, v)"
    "(if res = Btr_new then Some (v, True) else do { w \<leftarrow> on_g (zb_free_buf b) v; Some (w, False) }) = Some (s1, c)"
proof -
  obtain u where u: "note_passive_ack mhr src seq s = Some u"
    using assms by (auto simp: receive_broadcast_def bind_eq_Some_conv)
  moreover obtain res v where "note_btr src seq u = Some (res, v)"
    using assms u by (auto simp: receive_broadcast_def bind_eq_Some_conv)
  ultimately show ?thesis using assms that by (simp add: receive_broadcast_def)
qed

lemma receive_broadcast_keeps:
  assumes "receive_broadcast mhr b dst src seq s = Some (s', c)" shows "keeps (snd s) (snd s')"
proof (cases "broadcast_supported dst (snd s)")
  case True
  obtain s1 r s2 where s: "note_passive_ack mhr src seq s = Some s1" "note_btr src seq s1 = Some (r, s2)"
    and e: "(if r = Btr_new then Some (s2, True) else do { w \<leftarrow> on_g (zb_free_buf b) s2; Some (w, False) }) = Some (s', c)"
    using receive_broadcast_parts [OF assms True] .
  have s'2: "snd s' = snd s2" using e by (auto simp: bind_eq_Some_conv dest!: on_g_snd split: if_splits)
  show ?thesis using keeps_trans [OF note_passive_ack_keeps(1) [OF s(1)] note_btr_keeps(1) [OF s(2)]] by (simp add: s'2)
next
  case False
  then show ?thesis using assms by (auto simp: receive_broadcast_def bind_eq_Some_conv dest!: on_g_snd)
qed

lemma receive_frame_keeps:
  assumes "receive_frame mhr sz b f dst src s = Some s'" shows "keeps (snd s) (snd s')"
proof -
  have "snd s' = snd s \<or> (\<exists>x y g. deliver_frame b x y (g, snd s) = Some s')"
    using assms by (auto simp: receive_frame_def bind_eq_Some_conv split: if_splits)
  then show ?thesis using deliver_frame_keeps by fastforce
qed

lemma data_indication_keeps:
  assumes "zb_mcps_data_indication b s = Some s'" shows "keeps (snd s) (snd s')"
proof -
  obtain mhr sz g f radius where p: "cut_mac b (fst s) = Some (mhr, sz, g)" "hdr_control b g = Some f" "hdr_radius b g = Some radius"
    using assms by (auto simp: zb_mcps_data_indication_def bind_eq_Some_conv)
  show ?thesis
  proof (cases "frame_ok f radius")
    case True
    then obtain dst src seq s1 c where q: "(if ZB_NWK_IS_ADDRESS_BROADCAST dst then receive_broadcast mhr b dst src seq (g, snd s)
         else Some ((g, snd s), True)) = Some (s1, c)"
       "(if c then receive_frame mhr sz b f dst src s1 else Some s1) = Some s'"
      using assms p by (auto simp: zb_mcps_data_indication_def bind_eq_Some_conv)
    have "keeps (snd s) (snd s1)"
      using q(1) receive_broadcast_keeps [of mhr b dst src seq "(g, snd s)"] by (auto split: if_splits)
    moreover have "keeps (snd s1) (snd s')" using q(2) receive_frame_keeps [of mhr sz b f dst src s1 s'] by (auto split: if_splits)
    ultimately show ?thesis by (rule keeps_trans)
  next
    case False
    then show ?thesis using assms p by (auto simp: zb_mcps_data_indication_def dest!: on_g_snd)
  qed
qed

lemma start_brr_keeps: "start_brr b dst s = Some (s', ok) \<Longrightarrow> keeps (snd s) (snd s')"
  by (auto simp: start_brr_def bind_eq_Some_conv intro: add_brr_keeps split: if_splits)

lemma note_own_broadcast_keeps: "note_own_broadcast b dst s = Some (r, s') \<Longrightarrow> keeps (snd s) (snd s')"
  by (auto simp: note_own_broadcast_def bind_eq_Some_conv dest: note_btr_keeps(1) split: if_splits)

lemma forward_found_keeps:
  assumes "forward_found b h dst i s = Some (s', ok)" shows "keeps (snd s) (snd s')"
proof -
  obtain d r s1 where o: "note_own_broadcast b d s = Some (r, s1)"
    and d: "(if r = Btr_full then Some (s1, False)
      else do {
        let g = ZB_MCPS_BUILD_DATA_REQUEST b (mac_short_address (pib (fst s1))) dst (tx_options i dst) h (fst s1);
        if ZB_NWK_IS_ADDRESS_BROADCAST d \<and> nib_device_type (nib (nwk g)) \<noteq> ucast ZB_NWK_DEVICE_TYPE_ED
        then start_brr b d (g, snd s1)
        else do { g1 \<leftarrow> schedule_buf Cb_zb_mcps_data_request b g; Some ((g1, snd s1), True) } }) = Some (s', ok)"
    using assms by (auto simp: forward_found_def bind_eq_Some_conv)
  then have s': "snd s' = snd s1 \<or> (\<exists>g. start_brr b d (g, snd s1) = Some (s', ok))"
    by (auto simp: Let_def bind_eq_Some_conv split: if_splits)
  have "keeps (snd s1) (snd s')" using s' start_brr_keeps by fastforce
  then show ?thesis by (rule keeps_trans [OF note_own_broadcast_keeps [OF o]])
qed

lemma forward_keeps:
  assumes "zb_nwk_forward b s = Some s'" shows "keeps (snd s) (snd s')"
proof -
  obtain h where h: "buf_param (fst s) b = Nsdu_handle h"
    using assms by (auto simp: zb_nwk_forward_def split: zb_buf_param.splits)
  obtain g ret d i st where c: "nwk_calc_destination b h (fst s) = Some (g, ret, d, i, st)"
    using assms h by (auto simp: zb_nwk_forward_def bind_eq_Some_conv)
  show ?thesis
  proof (cases "ret = RET_OK")
    case True
    then obtain s1 ok where f: "forward_found b h d i (g, snd s) = Some (s1, ok)"
      using assms h c by (auto simp: zb_nwk_forward_def Let_def bind_eq_Some_conv)
    have "snd s' = snd s1"
      using assms h c True f by (auto simp: zb_nwk_forward_def Let_def dest!: on_g_snd split: if_splits)
    then show ?thesis using forward_found_keeps [OF f] by simp
  next
    case False
    then show ?thesis
      using assms h c by (auto simp: zb_nwk_forward_def Let_def dest!: on_g_snd split: if_splits)
  qed
qed

lemma find_unicast_ok:
  "find_unicast is g t = Some (t', r) \<Longrightarrow> keeps t t' \<and> (\<forall>i. r = Some i \<longrightarrow> i \<in> set is \<and> br_used (brrt t' ! i))"
proof (induction "is" arbitrary: t)
  case (Cons i js)
  show ?case
  proof (cases "find_unicast js g t = Some (t', r)")
    case True
    then show ?thesis using Cons.IH by fastforce
  next
    case False
    let ?e = "brrt t ! i"
    have u: "br_used ?e" using Cons.prems False by (auto simp: Let_def split: if_splits)
    from Cons.prems False consider (found) "t' = t" "r = Some i"
      | (skip) m where "find_unicast js g (upd_brr i (\<lambda>e. e\<lparr>br_neighbor_table_iterator := m\<rparr>) t) = Some (t', r)"
      by (auto simp: Let_def bind_eq_Some_conv split: if_splits)
    then show ?thesis
    proof cases
      case found
      then show ?thesis using u by simp
    next
      case skip
      have "keeps t (upd_brr i (\<lambda>e. e\<lparr>br_neighbor_table_iterator := m\<rparr>) t)" by (rule upd_brr_keeps) simp_all
      then show ?thesis using Cons.IH [OF skip] keeps_trans by fastforce
    qed
  qed
qed simp

lemma find_transmition_ok:
  assumes "find_transmition s = Some (t, r)"
  shows "keeps (snd s) t" "r = Some (i, x, k) \<Longrightarrow> i < 8 \<and> br_used (brrt t ! i)"
  using assms find_unicast_ok [of "[0..<8]" "fst s" "snd s"]
  by (auto simp: find_transmition_def ZB_NWK_BRR_TABLE_SIZE_def bind_eq_Some_conv dest!: find_nat_Some split: option.splits)

lemma advance_brr_ok:
  assumes "advance_brr i nent s = Some t" "i < 8" "br_used (brrt (snd s) ! i)"
  shows "keeps (snd s) t" "br_used (brrt t ! i)"
proof -
  obtain f where t: "t = upd_brr i f (snd s)" and f: "br_used (f (brrt (snd s) ! i)) = br_used (brrt (snd s) ! i)"
      "length (br_passive_ack (f (brrt (snd s) ! i))) = length (br_passive_ack (brrt (snd s) ! i))"
  proof (cases nent)
    case None
    show ?thesis
      by (rule that [of "\<lambda>e. e\<lparr>br_next_retransmit := ZB_TIMER_GET (timer (fst s)) + ZB_NWK_RREQ_RETRY_INTERVAL,
             br_retries := br_retries e + 1\<rparr>"]) (use assms(1) None in \<open>simp_all add: advance_brr_def Let_def\<close>)
  next
    case (Some n)
    then obtain v m where "t = upd_brr i (\<lambda>e. e\<lparr>br_passive_ack := v, br_neighbor_table_iterator := m\<rparr>) (snd s)"
      "set_ack n (br_passive_ack (brrt (snd s) ! i)) = Some v"
      using assms(1) by (auto simp: advance_brr_def Let_def bind_eq_Some_conv)
    then show ?thesis
      by (intro that [of "\<lambda>e. e\<lparr>br_passive_ack := v, br_neighbor_table_iterator := m\<rparr>"]) (auto simp: set_ack_def split: if_splits)
  qed
  show "keeps (snd s) t" unfolding t by (rule upd_brr_keeps) (rule f)+
  show "br_used (brrt t ! i)" using assms(3) f(1) unfolding t
    by (cases "i < length (brrt (snd s))") (simp_all add: upd_brr_def list_update_beyond)
qed

lemma send_brr_keeps:
  assumes "send_brr param i nent k s = Some s'" "i < 8" "br_used (brrt (snd s) ! i)" shows "keeps (snd s) (snd s')"
proof -
  obtain t where t: "advance_brr i nent s = Some t" and s': "snd s' = t \<or> snd s' = put_brr i t"
    using assms(1) by (auto simp: send_brr_def Let_def bind_eq_Some_conv split: if_splits)
  note a = advance_brr_ok [OF t assms(2,3)]
  show ?thesis using s' a(1) keeps_trans [OF a(1) put_brr_keeps [OF assms(2) a(2)]] by auto
qed

lemma schedule_transmition_snd: "schedule_transmition x s = Some s' \<Longrightarrow> snd s' = snd s"
  by (auto simp: schedule_transmition_def Let_def bind_eq_Some_conv dest!: on_g_snd split: if_splits)

lemma broadcast_transmition_keeps:
  assumes "nwk_broadcast_transmition b s = Some s'" shows "keeps (snd s) (snd s')"
proof -
  obtain t r where f: "find_transmition s = Some (t, r)" using assms by (auto simp: nwk_broadcast_transmition_def bind_eq_Some_conv)
  have "keeps t (snd s')"
  proof (cases "r = None \<or> b = 0")
    case True
    then have "snd s' = t" using assms f
      by (auto simp: nwk_broadcast_transmition_def dest!: on_g_snd schedule_transmition_snd
          simp: bind_eq_Some_conv split: if_splits option.splits)
    then show ?thesis by simp
  next
    case False
    then obtain i x k s1 where "r = Some (i, x, k)" "send_brr b i x k (fst s, t) = Some s1" "snd s' = snd s1"
      using assms f by (auto simp: nwk_broadcast_transmition_def bind_eq_Some_conv dest!: schedule_transmition_snd)
    then show ?thesis using send_brr_keeps [of b i x k "(fst s, t)"] find_transmition_ok(2) [OF f] by fastforce
  qed
  then show ?thesis by (rule keeps_trans [OF find_transmition_ok(1) [OF f]])
qed

lemma call_status_indication_snd: "call_status_indication b s = Some s' \<Longrightarrow> snd s' = snd s"
  by (auto simp: call_status_indication_def dest!: on_g_snd)

lemma note_status_keeps [simp]: "keeps t (note_status x a t)"
  by (rule keepsI) (simp_all add: note_status_def bcast_wf_def brrt_wf_def wait_wf_def)

lemma data_confirm_keeps: "zb_mcps_data_confirm H d b s = Some s' \<Longrightarrow> keeps (snd s) (snd s')"
  by (auto simp: zb_mcps_data_confirm_def Let_def bind_eq_Some_conv
      dest!: on_g_snd call_status_indication_snd split: if_splits)

lemma br_confirm_keeps: "zb_nwk_call_br_confirm H d b s = Some s' \<Longrightarrow> keeps (snd s) (snd s')"
  by (auto simp: zb_nwk_call_br_confirm_def Let_def bind_eq_Some_conv dest!: data_confirm_keeps)

lemma frame_indication_keeps: "nwk_frame_indication H b s = Some s' \<Longrightarrow> keeps (snd s) (snd s')"
  by (auto simp: nwk_frame_indication_def Let_def bind_eq_Some_conv dest!: on_g_snd split: if_splits)

section \<open>Runs\<close>

text \<open>
  A step is one handler of \<^verbatim>\<open>nwk_main.c\<close>, or anything else, which does not touch these tables. A run counts
  the executions of \<^verbatim>\<open>zb_nwk_btr_expiry\<close>, which happens once in a second.
\<close>

inductive nwk_main_step :: "'z zb_globals_s_scheme nwk_handlers \<Rightarrow> zb_time_t \<Rightarrow> 'z nwk_st \<Rightarrow> 'z nwk_st \<Rightarrow> bool"
  for H timeout where
  Data_indication: "zb_mcps_data_indication b s = Some s' \<Longrightarrow> nwk_main_step H timeout s s'"
| Forward: "zb_nwk_forward b s = Some s' \<Longrightarrow> nwk_main_step H timeout s s'"
| Transmition: "nwk_broadcast_transmition b s = Some s' \<Longrightarrow> nwk_main_step H timeout s s'"
| Buffer_allocated: "new_buffer_allocated b s = Some s' \<Longrightarrow> nwk_main_step H timeout s s'"
| Frame_indication: "nwk_frame_indication H b s = Some s' \<Longrightarrow> nwk_main_step H timeout s s'"
| Confirm: "zb_mcps_data_confirm H timeout b s = Some s' \<Longrightarrow> nwk_main_step H timeout s s'"
| Br_confirm: "zb_nwk_call_br_confirm H timeout b s = Some s' \<Longrightarrow> nwk_main_step H timeout s s'"
| Status: "call_status_indication b s = Some s' \<Longrightarrow> nwk_main_step H timeout s s'"
| Other: "snd s' = snd s \<Longrightarrow> nwk_main_step H timeout s s'"

inductive nwk_main_run :: "'z zb_globals_s_scheme nwk_handlers \<Rightarrow> zb_time_t \<Rightarrow> nat \<Rightarrow> 'z nwk_st \<Rightarrow> 'z nwk_st \<Rightarrow> bool"
  for H timeout where
  Start: "nwk_main_run H timeout 0 s s"
| Step: "nwk_main_run H timeout n s u \<Longrightarrow> nwk_main_step H timeout u v \<Longrightarrow> nwk_main_run H timeout n s v"
| Clock: "nwk_main_run H timeout n s u \<Longrightarrow> zb_nwk_btr_expiry u = Some v \<Longrightarrow> nwk_main_run H timeout (Suc n) s v"

lemma map_le_SomeD: "m \<subseteq>\<^sub>m n \<Longrightarrow> m k = Some a \<Longrightarrow> n k = Some a"
  by (simp add: map_le_def) (metis domI)

lemma step_keeps: "nwk_main_step H d s s' \<Longrightarrow> keeps (snd s) (snd s')"
  by (induction rule: nwk_main_step.induct)
    (auto intro: data_indication_keeps forward_keeps broadcast_transmition_keeps new_buffer_allocated_keeps
      frame_indication_keeps data_confirm_keeps br_confirm_keeps dest: call_status_indication_snd)

lemma expire_unused:
  assumes "btt_wf t" "btt_cnt t = 0" shows "expire_btt t = t"
proof -
  have w: "length (btt t) = 16" "filter bt_used (btt t) = []" using assms by (simp_all add: btt_wf_def tbl_ok_def)
  then have "map expire_ent (btt t) = btt t" by (intro map_idI) (auto simp: expire_ent_def filter_empty_conv)
  then have "btt (expire_btt t) = btt t" by (simp add: expire_btt_facts(2) [OF assms(1)])
  moreover from this have "btt_cnt (expire_btt t) = btt_cnt t"
    using expire_btt_facts(1) [OF assms(1)] assms(1) by (simp add: btt_wf_def tbl_ok_def)
  ultimately show ?thesis using expire_btt_facts(3) [OF assms(1)] by simp
qed

lemma btr_expiry_table:
  assumes "zb_nwk_btr_expiry s = Some s'" "btt_wf (snd s)" shows "snd s' = expire_btt (snd s)"
  using assms expire_unused [OF assms(2)] by (auto simp: zb_nwk_btr_expiry_def bind_eq_Some_conv split: if_splits)

lemma expire_btt_bcast_wf:
  assumes "bcast_wf t" shows "bcast_wf (expire_btt t)"
proof -
  have w: "btt_wf t" "brrt_wf t" "wait_wf t" using assms by (simp_all add: bcast_wf_def)
  note f = expire_btt_frame [OF w(1)]
  show ?thesis using expire_btt_wf [OF w(1)] w(2,3) brrt_wf_cong [OF f(1,2)] wait_wf_cong [OF f(3,4)]
    by (simp add: bcast_wf_def)
qed

lemma run_ok:
  assumes "nwk_main_run H d n s s'" "bcast_wf (snd s)"
  shows "bcast_wf (snd s') \<and> (\<forall>k m. btr_age (snd s) k = Some m \<and> n \<le> m \<longrightarrow> btr_age (snd s') k = Some (m - n))"
  using assms
proof induction
  case (Step n s u v)
  then have u: "bcast_wf (snd u)" "\<And>k m. btr_age (snd s) k = Some m \<Longrightarrow> n \<le> m \<Longrightarrow> btr_age (snd u) k = Some (m - n)"
    by blast+
  have "bcast_wf (snd v)" "btr_age (snd u) \<subseteq>\<^sub>m btr_age (snd v)"
    using step_keeps [OF Step.hyps(2)] u(1) by (simp_all add: keeps_def)
  moreover from this(2) have "btr_age (snd v) k = Some a" if "btr_age (snd u) k = Some a" for k a
    using that by (rule map_le_SomeD)
  ultimately show ?case using u(2) by blast
next
  case (Clock n s u v)
  then have u: "bcast_wf (snd u)" "\<And>k m. btr_age (snd s) k = Some m \<Longrightarrow> n \<le> m \<Longrightarrow> btr_age (snd u) k = Some (m - n)"
    by blast+
  have w: "btt_wf (snd u)" using u(1) by (simp add: bcast_wf_def)
  note v = btr_expiry_table [OF Clock.hyps(2) w]
  have "btr_age (snd v) k = Some (m - Suc n)" if "btr_age (snd s) k = Some m" "Suc n \<le> m" for k m
  proof -
    have "btr_age (snd u) k = Some (Suc (m - Suc n))" using u(2) [OF that(1)] that(2) by (simp add: Suc_diff_Suc)
    then show ?thesis by (simp add: v expire_btt_age [OF w])
  qed
  then show ?case using expire_btt_bcast_wf [OF u(1)] by (simp add: v)
qed simp

section \<open>Broadcasts\<close>

text \<open>The broadcast \<open>(src, seq)\<close> has arrived in buffer \<open>b\<close>.\<close>

definition bcast_arrives :: "nat \<Rightarrow> zb_uint16_t \<Rightarrow> zb_uint8_t \<Rightarrow> 'z zb_globals_s_scheme \<Rightarrow> bool" where
  "bcast_arrives b src seq g = (case cut_mac b g of
     Some (mhr, sz, g1) \<Rightarrow> hdr_src b g1 = Some src \<and> hdr_seq b g1 = Some seq
       \<and> (case hdr_dst b g1 of Some dst \<Rightarrow> ZB_NWK_IS_ADDRESS_BROADCAST dst | None \<Rightarrow> False)
   | None \<Rightarrow> False)"

text \<open>It is for this device, and it may travel on.\<close>

definition bcast_accepted :: "nat \<Rightarrow> 'z nwk_st \<Rightarrow> bool" where
  "bcast_accepted b s = (case cut_mac b (fst s) of
     Some (mhr, sz, g1) \<Rightarrow>
       (case hdr_dst b g1 of Some dst \<Rightarrow> broadcast_supported dst (snd s) | None \<Rightarrow> False)
       \<and> (case hdr_control b g1 of Some f \<Rightarrow> (case hdr_radius b g1 of Some r \<Rightarrow> frame_ok f r | None \<Rightarrow> False)
         | None \<Rightarrow> False)
   | None \<Rightarrow> False)"

lemma add_btr_room:
  assumes "btt_wf t" "btt_cnt t < 16" shows "add_btr src seq t \<noteq> None"
proof -
  have l: "length (btt t) = 16" "length (filter bt_used (btt t)) < length (btt t)"
    using assms by (simp_all add: btt_wf_def tbl_ok_def)
  have "filter bt_used (btt t) \<noteq> btt t" using l(2) by force
  then obtain i where "i < 16" "\<not> bt_used (btt t ! i)" using l(1) by (metis filter_id_conv in_set_conv_nth)
  then show ?thesis using tbl_full [OF l(1), of bt_used "\<lambda>e. e\<lparr>bt_used := True\<rparr>" "btt_cnt t"]
    by (auto simp: add_btr_def)
qed

lemma bcast_recorded:
  assumes "bcast_wf (snd s)" "bcast_arrives b src seq (fst s)" "bcast_accepted b s" "btr_age (snd s) (src, seq) = None"
    "btt_cnt (snd s) < 16" "zb_mcps_data_indication b s = Some s'"
  shows "btr_age (snd s') (src, seq) = Some 9"
proof -
  obtain mhr sz g dst where a: "cut_mac b (fst s) = Some (mhr, sz, g)" "hdr_src b g = Some src" "hdr_seq b g = Some seq"
    "hdr_dst b g = Some dst" "ZB_NWK_IS_ADDRESS_BROADCAST dst"
    using assms(2) by (auto simp: bcast_arrives_def split: option.splits)
  obtain f r where p: "cut_mac b (fst s) = Some (mhr, sz, g)" "hdr_src b g = Some src" "hdr_seq b g = Some seq"
    "hdr_dst b g = Some dst" "ZB_NWK_IS_ADDRESS_BROADCAST dst" "broadcast_supported dst (snd s)"
    "hdr_control b g = Some f" "hdr_radius b g = Some r" "frame_ok f r"
    using assms(3) a by (cases "hdr_control b g"; cases "hdr_radius b g") (simp_all add: bcast_accepted_def)
  obtain s1 c where q: "receive_broadcast mhr b dst src seq (g, snd s) = Some (s1, c)"
    "(if c then receive_frame mhr sz b f dst src s1 else Some s1) = Some s'"
    using assms(6) p by (auto simp: zb_mcps_data_indication_def bind_eq_Some_conv)
  have sup: "broadcast_supported dst (snd (g, snd s))" using p(6) by simp
  obtain u res v where uv: "note_passive_ack mhr src seq (g, snd s) = Some u" "note_btr src seq u = Some (res, v)"
    and e: "(if res = Btr_new then Some (v, True) else do { w \<leftarrow> on_g (zb_free_buf b) v; Some (w, False) }) = Some (s1, c)"
    using receive_broadcast_parts [OF q(1) sup] .
  have n: "keeps (snd s) (snd u)" "btt (snd u) = btt (snd s)" using note_passive_ack_keeps [OF uv(1)] by simp_all
  have wu: "bcast_wf (snd u)" using n(1) assms(1) by (simp add: keeps_def)
  then have w: "btt_wf (snd u)" by (simp add: bcast_wf_def)
  have "btr_age (snd u) (src, seq) = None" using assms(4) btr_age_cong [OF n(2)] by simp
  then have "find_btr src seq (snd u) = None" by (simp add: btr_age_None_iff)
  moreover have "btt_cnt (snd u) < 16"
    using assms(1,5) w n(2) by (simp add: bcast_wf_def btt_wf_def tbl_ok_def)
  ultimately have "res = Btr_new" using uv(2) add_btr_room [OF w, of src seq]
    by (auto simp: note_btr_def bind_eq_Some_conv split: option.splits)
  moreover have "bcast_wf (snd v)" using note_btr_keeps(1) [OF uv(2)] wu by (simp add: keeps_def)
  ultimately show ?thesis
    using note_btr_keeps(2) [OF uv(2) wu] e q(2) receive_frame_keeps [of mhr sz b f dst src s1 s']
    by (auto simp: keeps_def dest: map_le_SomeD)
qed

text \<open>The acknowledgement is noted, if it is one, and the frame is freed.\<close>

lemma copy_dropped:
  assumes "bcast_wf (snd s)" "bcast_arrives b src seq (fst s)" "btr_age (snd s) (src, seq) \<noteq> None"
    "zb_mcps_data_indication b s = Some s'"
  shows "\<exists>mhr sz g u. cut_mac b (fst s) = Some (mhr, sz, g)
    \<and> (u = (g, snd s) \<or> note_passive_ack mhr src seq (g, snd s) = Some u)
    \<and> zb_free_buf b (fst u) = Some (fst s') \<and> snd s' = snd u"
proof -
  obtain mhr sz g dst where p: "cut_mac b (fst s) = Some (mhr, sz, g)" "hdr_src b g = Some src" "hdr_seq b g = Some seq"
    "hdr_dst b g = Some dst" "ZB_NWK_IS_ADDRESS_BROADCAST dst"
    using assms(2) by (auto simp: bcast_arrives_def split: option.splits)
  obtain f r where fr: "hdr_control b g = Some f" "hdr_radius b g = Some r"
    using assms(4) p by (auto simp: zb_mcps_data_indication_def bind_eq_Some_conv)
  have "\<exists>u. (u = (g, snd s) \<or> note_passive_ack mhr src seq (g, snd s) = Some u) \<and> on_g (zb_free_buf b) u = Some s'"
  proof (cases "frame_ok f r")
    case False
    then show ?thesis using assms(4) p fr by (auto simp: zb_mcps_data_indication_def)
  next
    case True
    then obtain s1 c where q: "receive_broadcast mhr b dst src seq (g, snd s) = Some (s1, c)"
      "(if c then receive_frame mhr sz b f dst src s1 else Some s1) = Some s'"
      using assms(4) p fr by (auto simp: zb_mcps_data_indication_def bind_eq_Some_conv)
    show ?thesis
    proof (cases "broadcast_supported dst (snd s)")
      case False
      then show ?thesis using q
        by (intro exI [of _ "(g, snd s)"]) (auto simp: receive_broadcast_def bind_eq_Some_conv)
    next
      case True
      then have sup: "broadcast_supported dst (snd (g, snd s))" by simp
      obtain u res v where uv: "note_passive_ack mhr src seq (g, snd s) = Some u" "note_btr src seq u = Some (res, v)"
        "(if res = Btr_new then Some (v, True) else do { w \<leftarrow> on_g (zb_free_buf b) v; Some (w, False) }) = Some (s1, c)"
        using receive_broadcast_parts [OF q(1) sup] .
      have n: "keeps (snd s) (snd u)" "btt (snd u) = btt (snd s)" using note_passive_ack_keeps [OF uv(1)] by simp_all
      have wu: "bcast_wf (snd u)" using n(1) assms(1) by (simp add: keeps_def)
      have "res = Btr_known" using note_btr_keeps(3) [OF uv(2) wu] assms(3) btr_age_cong [OF n(2)] by simp
      then show ?thesis using uv q(2) note_btr_keeps(4) [OF uv(2)]
        by (intro exI [of _ u]) (auto simp: bind_eq_Some_conv)
    qed
  qed
  then show ?thesis using p(1) by (auto simp: on_g_def)
qed

section \<open>The header of a frame\<close>

lemma blit_same: "i + n \<le> length p \<Longrightarrow> blit p i (take n (drop i p)) = Some p"
  by (simp add: blit_def) (metis add.commute append_take_drop_id drop_drop)

lemma blit_one: "i < length p \<Longrightarrow> blit p i [x] = Some (p[i := x])"
  by (simp add: blit_def upd_conv_take_nth_drop)

lemma rd16_bytes: "rd16 p i = Some v \<Longrightarrow> i + 2 \<le> length p \<and> htole16 v = take 2 (drop i p)"
  by (auto simp: rd16_def aget_Some_iff bind_eq_Some_conv take_Suc_conv_app_nth numeral_2_eq_2)

text \<open>Writing the addresses back changes nothing; only the radius is a new one.\<close>

lemma update_hdr_eq:
  assumes "get_buf b g = Some p" "hdr_dst b g = Some dst" "hdr_src b g = Some src" "hdr_radius b g = Some r"
  shows "update_hdr b dst src g = Some (put_buf b (p\<lparr>b_buf := (b_buf p)[ZB_BUF_BEGIN p + 6 := r - 1]\<rparr>) g)"
proof -
  let ?q = "ZB_BUF_BEGIN p"
  have d: "?q + 2 + 2 \<le> length (b_buf p)" "htole16 dst = take 2 (drop (?q + 2) (b_buf p))"
    and s: "?q + 4 + 2 \<le> length (b_buf p)" "htole16 src = take 2 (drop (?q + 4) (b_buf p))"
    using assms by (auto simp: hdr_dst_def hdr_src_def dest!: rd16_bytes)
  have r: "?q + 6 < length (b_buf p)" "r = b_buf p ! (?q + 6)"
    using assms(1,4) by (auto simp: hdr_radius_def rd8_def aget_Some_iff)
  have e: "2 + (?q + 2) = ?q + 4" by simp
  have "htole16 dst @ htole16 src = take (2 + 2) (drop (?q + 2) (b_buf p))"
    unfolding d(2) s(2) take_add drop_drop e ..
  then have "blit (b_buf p) (?q + 2) (htole16 dst @ htole16 src) = Some (b_buf p)"
    using blit_same [of "?q + 2" "2 + 2" "b_buf p"] s(1) by simp
  then show ?thesis using assms(1) r by (simp add: update_hdr_def rd8_def blit_one)
qed

lemma get_put_buf: "get_buf b g = Some p \<Longrightarrow> get_buf b (put_buf b q g) = Some q"
  by (auto simp: get_buf_def put_buf_def aget_Some_iff)

lemma update_hdr_fields:
  assumes "hdr_dst b g = Some dst" "hdr_src b g = Some src" "hdr_radius b g = Some r" "update_hdr b dst src g = Some g'"
  shows "hdr_dst b g' = Some dst \<and> hdr_src b g' = Some src \<and> hdr_radius b g' = Some (r - 1)"
proof -
  obtain p where p: "get_buf b g = Some p" using assms(1) by (auto simp: hdr_dst_def bind_eq_Some_conv)
  have g': "get_buf b g' = Some (p\<lparr>b_buf := (b_buf p)[ZB_BUF_BEGIN p + 6 := r - 1]\<rparr>)"
    using update_hdr_eq [OF p assms(1-3)] assms(4) get_put_buf [OF p] by simp
  show ?thesis using assms(1-3) p g'
    by (auto simp: hdr_dst_def hdr_src_def hdr_radius_def rd16_def rd8_def aget_Some_iff bind_eq_Some_conv ZB_BUF_BEGIN_def)
qed

lemma update_lqi_frame:
  assumes "update_lqi src g = Some g'" shows "bpool g' = bpool g" "pib g' = pib g"
proof -
  obtain g1 r n where l: "zb_nwk_neighbor_get_by_short src g = Some (g1, r, n)"
    using assms by (auto simp: update_lqi_def bind_eq_Some_conv)
  have u: "bpool (upd_nbt f h) = bpool h" for f and h :: "'a zb_globals_s_scheme" by (simp add: upd_nbt_def)
  have "bpool g1 = bpool g \<and> pib g1 = pib g"
    using l by (auto simp: zb_nwk_neighbor_get_by_short_def Let_def bind_eq_Some_conv u dest!: neighbor_get_state split: if_splits)
  then show "bpool g' = bpool g" "pib g' = pib g"
    using assms l by (auto simp: update_lqi_def upd_neighbor_def bind_eq_Some_conv u split: if_splits)
qed

lemma hdr_cong:
  assumes "bpool g' = bpool g"
  shows "hdr_dst b g' = hdr_dst b g" "hdr_src b g' = hdr_src b g" "hdr_radius b g' = hdr_radius b g"
  using assms by (simp_all add: hdr_dst_def hdr_src_def hdr_radius_def get_buf_def)

lemma update_hdr_frame:
  fixes g :: "'a zb_globals_s_scheme"
  assumes "update_hdr b dst src g = Some g'"
  shows "nwk g' = nwk g" "pib g' = pib g"
  using assms by (auto simp: update_hdr_def bind_eq_Some_conv put_buf_def)

section \<open>Properties\<close>

text \<open>C8: the tables of broadcasts and of waiting packets stay consistent in every run of the network layer: their
  counts are exact, no two records are about the same broadcast, no record is kept longer than the delivery time, the
  bit vectors keep their size, and the packets that wait for a buffer are a stack. A record made before the run is
  still there after it, older by the runs of the clock and by nothing else.\<close>

theorem nwk_main_tables_stay_consistent:
  assumes "nwk_main_run H d n s s'" "bcast_wf (snd s)"
  shows "bcast_wf (snd s') \<and> (\<forall>k m. btr_age (snd s) k = Some m \<and> n \<le> m \<longrightarrow> btr_age (snd s') k = Some (m - n))"
  by (rule run_ok [OF assms])

text \<open>C6: a broadcast is accepted once. After a broadcast that is new has been received, whether or not it then passes
  the security check, and however the network layer goes on, for the next 9 runs of the clock (9 seconds) every frame with
  the same source and sequence number is dropped: at most it is noted as an acknowledgement of a broadcast
  that is being retransmitted, its buffer is freed, and nothing is passed up or forwarded.\<close>

theorem broadcast_accepted_once:
  assumes wf: "bcast_wf (snd s0)" "btt_cnt (snd s0) < 16" "btr_age (snd s0) (src, seq) = None"
    and first: "bcast_arrives b0 src seq (fst s0)" "bcast_accepted b0 s0" "zb_mcps_data_indication b0 s0 = Some s1"
    and run: "nwk_main_run H d n s1 s2" "n \<le> 9"
    and copy: "bcast_arrives b src seq (fst s2)" "zb_mcps_data_indication b s2 = Some s3"
  shows "\<exists>mhr sz g u. cut_mac b (fst s2) = Some (mhr, sz, g)
    \<and> (u = (g, snd s2) \<or> note_passive_ack mhr src seq (g, snd s2) = Some u)
    \<and> zb_free_buf b (fst u) = Some (fst s3) \<and> snd s3 = snd u"
proof (rule copy_dropped [OF _ copy(1) _ copy(2)])
  have w: "bcast_wf (snd s1)" using data_indication_keeps [OF first(3)] wf(1) by (simp add: keeps_def)
  show "bcast_wf (snd s2)" "btr_age (snd s2) (src, seq) \<noteq> None"
    using run_ok [OF run(1) w] bcast_recorded [OF wf(1) first(1,2) wf(3,2) first(3)] run(2) by blast+
qed

lemma btr_expiry_total:
  assumes "sched_wf (sched (fst s))" "btt_wf (snd s)"
  shows "\<exists>g. zb_nwk_btr_expiry s = Some (g, expire_btt (snd s)) \<and> sched_wf (sched g)"
proof (cases "btt_cnt (snd s) = 0")
  case True
  then show ?thesis using assms by (cases s) (simp add: zb_nwk_btr_expiry_def expire_unused)
next
  case False
  then show ?thesis
    using schedule_alarm_spec [OF assms(1), of Cb_zb_nwk_btr_expiry 0 "of_nat ZB_TIME_ONE_SECOND"]
    by (auto simp: zb_nwk_btr_expiry_def schedule_btr_expiry_def)
qed

text \<open>C14: the records of broadcasts expire: whatever the table of transactions holds, ten runs of its clock succeed and
  empty it, and then the clock does not start itself again.\<close>

theorem broadcast_table_empties:
  assumes "sched_wf (sched (fst s))" "bcast_wf (snd s)"
  shows "\<exists>s'. ((\<lambda>x. x \<bind> zb_nwk_btr_expiry) ^^ 10) (Some s) = Some s' \<and> btt_cnt (snd s') = 0
    \<and> zb_nwk_btr_expiry s' = Some s'"
proof -
  have w: "btt_wf (snd s)" using assms(2) by (simp add: bcast_wf_def)
  have "\<exists>g. ((\<lambda>x. x \<bind> zb_nwk_btr_expiry) ^^ n) (Some s) = Some (g, (expire_btt ^^ n) (snd s)) \<and> sched_wf (sched g)" for n
  proof (induction n)
    case (Suc n)
    then obtain g where g: "((\<lambda>x. x \<bind> zb_nwk_btr_expiry) ^^ n) (Some s) = Some (g, (expire_btt ^^ n) (snd s))"
      "sched_wf (sched g)" by blast
    from btr_expiry_total [of "(g, (expire_btt ^^ n) (snd s))"] g(2) btt.inv_ticks [OF w, of n]
    show ?case by (auto simp: g(1))
  qed (use assms(1) in \<open>simp, metis prod.collapse\<close>)
  from this [of 10] obtain g where
    g: "((\<lambda>x. x \<bind> zb_nwk_btr_expiry) ^^ 10) (Some s) = Some (g, (expire_btt ^^ 10) (snd s))" by blast
  have "btr_age ((expire_btt ^^ Suc 9) (snd s)) k = None" for k
    by (rule btt.all_forgotten [OF w]) (rule btr_age_le [OF w])
  then have "btr_age ((expire_btt ^^ 10) (snd s)) k = None" for k by (simp add: eval_nat_numeral)
  then have "btt_cnt ((expire_btt ^^ 10) (snd s)) = 0" using btt_empty_iff [OF btt.inv_ticks [OF w, of 10]] by blast
  then show ?thesis using g by (auto simp: zb_nwk_btr_expiry_def)
qed

lemma data_indication_parts:
  assumes "cut_mac b (fst s) = Some (mhr, sz, g)" "hdr_control b g = Some f" "hdr_radius b g = Some r" "frame_ok f r"
    "hdr_dst b g = Some dst" "hdr_src b g = Some src" "hdr_seq b g = Some seq"
  shows "zb_mcps_data_indication b s = do {
    (s1, go_on) \<leftarrow> (if ZB_NWK_IS_ADDRESS_BROADCAST dst then receive_broadcast mhr b dst src seq (g, snd s)
         else Some ((g, snd s), True));
    if go_on then receive_frame mhr sz b f dst src s1 else Some s1 }"
  using assms by (simp add: zb_mcps_data_indication_def)

lemma set_ack_range:
  assumes "length v = 1"
  shows "if n < 8 then \<exists>u. set_ack n v = Some u \<and> length u = 1 \<and> (\<forall>m<8. zb_check_bit_in_bit_vector u m
      \<longleftrightarrow> m = n \<or> zb_check_bit_in_bit_vector v m) else set_ack n v = None"
  using assms check_set_bit [of n v] by (auto simp: set_ack_def)


text \<open>the confirm of a leave always reports success, because the buffer is cleared for reuse before its
  status is copied.\<close>

theorem leave_confirm_always_success:
  assumes "leave_confirm b dest_addr g = Some g'"
  shows "\<exists>a. buf_param g' b = Leave_conf \<lparr>lc_status = 0, lc_device_address = a\<rparr>"
  using assms by (auto simp: leave_confirm_def Let_def bind_eq_Some_conv schedule_buf_def zb_schedule_callback_def
      zb_buf_reuse_def buf_bzero_hdr_def put_param_def split: option.splits)

text \<open>The security check in the receiving function: the frame type needs no test, since others are dropped before.\<close>

lemma unsecure_cases:
  assumes "frame_ok f r" "unsecure b mhr sz f (ZB_NWK_FRAMECTL_GET_FRAME_TYPE f) g = Some (g1, ok)"
  shows "(ZB_NWK_FRAMECTL_GET_SECURITY f = 0 \<and> ok \<and> g1 = g)
    \<or> (ZB_NWK_FRAMECTL_GET_SECURITY f \<noteq> 0 \<and> ok \<and> (\<exists>u p. zb_nwk_unsecure_frame b mhr (of_nat sz) g = Some (u, RET_OK)
         \<and> get_buf b u = Some p \<and> g1 = put_buf b (p\<lparr>b_encrypt_type := ZB_SECUR_NWK_ENCR\<rparr>) u))
    \<or> (ZB_NWK_FRAMECTL_GET_SECURITY f \<noteq> 0 \<and> \<not> ok \<and> (\<exists>ret. ret \<noteq> RET_OK
         \<and> zb_nwk_unsecure_frame b mhr (of_nat sz) g = Some (g1, ret)))"
  using assms by (auto simp: unsecure_def frame_ok_def bind_eq_Some_conv split: if_splits)

text \<open>What passes the check has the same destination, source and radius, on the same device.\<close>

lemma accepted_hdr:
  fixes g :: "'z zb_globals_s_scheme"
  assumes c: "cut_mac b g0 = Some (mhr, sz, g)" "get_buf b g0 = Some q" "buf_wf q" and f: "hdr_control b g = Some f" "frame_ok f r"
    and u: "unsecure b mhr sz f (ZB_NWK_FRAMECTL_GET_FRAME_TYPE f) g = Some (g1, True)"
  shows "same_device g g1" "hdr_dst b g1 = hdr_dst b g" "hdr_src b g1 = hdr_src b g" "hdr_radius b g1 = hdr_radius b g"
proof -
  have "same_device g g1 \<and> hdr_dst b g1 = hdr_dst b g \<and> hdr_src b g1 = hdr_src b g \<and> hdr_radius b g1 = hdr_radius b g"
  proof (cases "ZB_NWK_FRAMECTL_GET_SECURITY f = 0")
    case True
    then show ?thesis using unsecure_cases [OF f(2) u] by (auto simp: same_device_def)
  next
    case False
    then obtain h p where h: "zb_nwk_unsecure_frame b mhr (of_nat sz) g = Some (h, RET_OK)" "get_buf b h = Some p"
        "g1 = put_buf b (p\<lparr>b_encrypt_type := ZB_SECUR_NWK_ENCR\<rparr>) h" using unsecure_cases [OF f(2) u] by auto
    obtain p0 where p0: "get_buf b g = Some p0" "buf_wf p0" "unat (b_len p0) + sz + 2 \<le> 148" "length (mhr_bytes mhr) = sz"
        "sz \<le> 23" by (rule cut_mac_wf [OF c])
    obtain p' where p': "same_device g h" "get_buf b h = Some p'" "same_hdr p0 p'"
      by (rule unsecure_frame_accepted [OF h(1) p0(1,2) f(1) False p0(4,5,3)])
    have g1: "get_buf b g1 = Some (p'\<lparr>b_encrypt_type := ZB_SECUR_NWK_ENCR\<rparr>)"
      using h(2,3) p'(2) get_put_buf [OF p'(2)] by simp
    have "same_device g g1" using same_device_trans [OF p'(1)] put_buf_device h(3) by simp
    moreover have a: "aget (b_buf p') (ZB_BUF_BEGIN p' + k) = aget (b_buf p0) (ZB_BUF_BEGIN p0 + k)" if "k < 8" for k
      using p'(3) that by (simp add: same_hdr_def)
    have "rd16 (b_buf p') (ZB_BUF_BEGIN p' + k) = rd16 (b_buf p0) (ZB_BUF_BEGIN p0 + k)" if "k < 7" for k
      using a [of k] a [of "k + 1"] that by (simp add: rd16_def)
    from this [of 2] this [of 4] a [of 6]
    have "hdr_dst b g1 = hdr_dst b g \<and> hdr_src b g1 = hdr_src b g \<and> hdr_radius b g1 = hdr_radius b g"
      using g1 p0(1) by (simp add: hdr_dst_def hdr_src_def hdr_radius_def rd8_def ZB_BUF_BEGIN_def)
    ultimately show ?thesis by blast
  qed
  then show "same_device g g1" "hdr_dst b g1 = hdr_dst b g" "hdr_src b g1 = hdr_src b g" "hdr_radius b g1 = hdr_radius b g"
    by simp_all
qed

text \<open>C11: what a router does with a frame that is not a broadcast. A secured frame that does not pass
  \<^verbatim>\<open>zb_nwk_unsecure_frame\<close> is left to the error handling of that function, and nothing more is done. Of any other frame,
  unsecured or accepted by it, the radius is lowered by one and the addresses stay; if it is for this device it is
  passed up, else if its radius is used up it is dropped, else it is given to \<^verbatim>\<open>zb_nwk_forward\<close>. The tables of
  broadcasts are not touched in either case.\<close>

theorem unicast_frame_decision:
  assumes "get_buf b (fst s) = Some q" "buf_wf q"
    "cut_mac b (fst s) = Some (mhr, sz, g)" "hdr_control b g = Some f" "hdr_radius b g = Some r" "frame_ok f r"
    "hdr_dst b g = Some dst" "\<not> ZB_NWK_IS_ADDRESS_BROADCAST dst" "hdr_src b g = Some src" "hdr_seq b g = Some seq"
    "is_router g" "zb_mcps_data_indication b s = Some s'"
  shows "snd s' = snd s
    \<and> (if ZB_NWK_FRAMECTL_GET_SECURITY f = 0 \<or> (\<exists>u. zb_nwk_unsecure_frame b mhr (of_nat sz) g = Some (u, RET_OK)) then
         \<exists>h. hdr_dst b h = Some dst \<and> hdr_src b h = Some src \<and> hdr_radius b h = Some (r - 1)
           \<and> (if dst = mac_short_address (pib g) then schedule_buf Cb_nwk_frame_indication b h
              else if r = 1 then zb_free_buf b h else forward_buf b ZB_NWK_INTERNAL_NSDU_HANDLE h) = Some (fst s')
       else \<exists>ret. ret \<noteq> RET_OK \<and> zb_nwk_unsecure_frame b mhr (of_nat sz) g = Some (fst s', ret))"
proof -
  have rf: "receive_frame mhr sz b f dst src (g, snd s) = Some s'"
    using assms by (simp add: data_indication_parts)
  then obtain g1 ok where un: "unsecure b mhr sz f (ZB_NWK_FRAMECTL_GET_FRAME_TYPE f) g = Some (g1, ok)"
    by (auto simp: receive_frame_def bind_eq_Some_conv)
  note uc = unsecure_cases [OF assms(6) un]
  show ?thesis
  proof (cases ok)
    case False
    then have "s' = (g1, snd s)" using rf un by (simp add: receive_frame_def)
    then show ?thesis using uc False by auto
  next
    case True
    have "unsecure b mhr sz f (ZB_NWK_FRAMECTL_GET_FRAME_TYPE f) g = Some (g1, True)" using un True by simp
    note k = accepted_hdr [OF assms(3,1,2,4,6) this]
    obtain g2 i t h where
      u: "update_hdr b dst src g1 = Some g2" and d: "frame_decision b (zb_nwk_hdr_size f) (ZB_NWK_FRAMECTL_GET_FRAME_TYPE f) dst g2 = Some (i, t)"
      and l: "update_lqi src g2 = Some h" and e: "deliver_frame b i t (h, snd s) = Some s'"
      using rf un True by (auto simp: receive_frame_def bind_eq_Some_conv)
    note hf = update_hdr_fields [OF k(2) [unfolded assms(7)] k(3) [unfolded assms(9)] k(4) [unfolded assms(5)] u]
      update_hdr_frame [OF u] update_lqi_frame [OF l]
    have h: "hdr_dst b h = Some dst \<and> hdr_src b h = Some src \<and> hdr_radius b h = Some (r - 1)"
      using hf(1) hdr_cong [OF hf(4)] by simp
    have rt: "is_router g2" "pib g2 = pib g" using assms(11) k(1) hf(2,3) by (simp_all add: is_router_def same_device_def)
    have "(i, t) = (dst = mac_short_address (pib g), dst \<noteq> mac_short_address (pib g) \<and> r \<noteq> 1)"
      using d assms(8) hf(1) rt by (auto simp: frame_decision_def bind_eq_Some_conv split: if_splits)
    then have "snd s' = snd s \<and> (if dst = mac_short_address (pib g) then schedule_buf Cb_nwk_frame_indication b h
         else if r = 1 then zb_free_buf b h else forward_buf b ZB_NWK_INTERNAL_NSDU_HANDLE h) = Some (fst s')"
      using e by (auto simp: deliver_frame_def on_g_def split: if_splits)
    moreover have "ZB_NWK_FRAMECTL_GET_SECURITY f = 0 \<or> (\<exists>u. zb_nwk_unsecure_frame b mhr (of_nat sz) g = Some (u, RET_OK))"
      using uc True by blast
    ultimately show ?thesis using h by (simp only: if_True simp_thms) blast
  qed
qed

end
