(* ===== verification/Zb_Nwk_Mesh_Runs.thy ===== *)
theory Zb_Nwk_Mesh_Runs
  imports Zb_Nwk_Mesh_Props
begin

text \<open>
  What the mesh does with consistent tables: the path cost of a neighbor, the packets that wait for a
  route, the next hop of a packet, the end of a discovery; and errors: a full discovery table costs a
  working route, an expired discovery costs another one its route, and the buffer of a route reply is freed
  after it has been handed on.
\<close>

section \<open>Path cost\<close>

lemma lqi_steps_eq: "i \<le> (l - 1) div 32 \<Longrightarrow> (l - 1) div 32 \<le> i + n \<Longrightarrow> lqi_steps n i l = (l - 1) div 32"
proof (induction n arbitrary: i)
  case (Suc n)
  have "32 * (i + 1) < l \<longleftrightarrow> i + 1 \<le> (l - 1) div 32"
    by (auto simp: less_eq_div_iff_mult_less_eq)
  then show ?case using Suc by auto
qed simp

lemma lqi_cost_eq: "unat (lqi_cost lqi) = max 1 (7 - (unat lqi - 1) div 32)"
proof -
  define k where "k = (unat lqi - 1) div 32"
  have k: "k \<le> 7" unfolding k_def using unat8_less [of lqi] by (intro less_eq_div_iff_mult_less_eq [THEN iffD2] div_le_mono [of _ 255 32, simplified]) simp
  then have s: "lqi_steps 8 0 (unat lqi) = k" unfolding k_def by (intro lqi_steps_eq) simp_all
  have c: "lqi_cost lqi = (if k = 7 then 1 else word_of_int (7 - int k))" unfolding lqi_cost_def s by (simp add: Let_def)
  show ?thesis
  proof (cases "k = 7")
    case True
    then show ?thesis using c unfolding k_def [symmetric] by simp
  next
    case False
    then have "7 - int k = int (7 - k)" "7 - k < 256" "1 \<le> 7 - k" using k by simp_all
    then have "unat (lqi_cost lqi) = 7 - k" using False c unat8_of_nat [of "7 - k"] by simp
    then show ?thesis using \<open>1 \<le> 7 - k\<close> unfolding k_def [symmetric] by simp
  qed
qed

text \<open>
  the cost of a hop is between 0 and 7 and falls by one for every 32 steps of link quality: unless the
  device reports a constant cost, a neighbor with link quality \<open>lqi\<close> costs \<open>7 - (lqi - 1) div 32\<close> but at least
  1, so the loop over the quality ends within 8 steps; in every other case the cost is 0, for the
  device itself, or 7.
\<close>

theorem NWK_CALC_PATH_COST_bounds:
  assumes "NWK_CALC_PATH_COST a g = Some (g', c)"
  shows "unat c \<le> 7 \<and> (if nib_nwk_report_constant_cost (nib (nwk g)) then c = 7
    else \<exists>h r n. zb_nwk_neighbor_get_by_short a g = Some (h, r, n)
      \<and> (if r = RET_OK then \<exists>i e. n = Some i \<and> nb_get (neighbor (nwk h)) i = Some e
            \<and> unat c = max 1 (7 - (unat (ne_lqi e) - 1) div 32)
          else c = (if a = mac_short_address (pib h) then 0 else 7)))"
proof (cases "nib_nwk_report_constant_cost (nib (nwk g))")
  case True
  then show ?thesis using assms by (simp add: NWK_CALC_PATH_COST_def ZB_NWK_STATIC_PATH_COST_def)
next
  case False
  then obtain h r n where h: "zb_nwk_neighbor_get_by_short a g = Some (h, r, n)"
    using assms by (auto simp: NWK_CALC_PATH_COST_def bind_eq_Some_conv)
  show ?thesis
  proof (cases "r = RET_OK")
    case True
    then obtain i e where "n = Some i" "nb_get (neighbor (nwk h)) i = Some e" "c = lqi_cost (ne_lqi e)"
      using assms False h by (auto simp: NWK_CALC_PATH_COST_def bind_eq_Some_conv)
    then show ?thesis using False h True lqi_cost_eq [of "ne_lqi e"] by simp
  next
    case no: False
    then have "c = (if a = mac_short_address (pib h) then 0 else 7)"
      using assms False h by (simp add: NWK_CALC_PATH_COST_def ZB_NWK_STATIC_PATH_COST_def split: if_splits)
    then show ?thesis using False h no by simp
  qed
qed

section \<open>Waiting packets\<close>

text \<open>The packets that wait for a destination, and the table without them.\<close>

definition waits_for :: "zb_uint16_t \<Rightarrow> zb_nwk_pend \<Rightarrow> bool" where
  "waits_for d e \<longleftrightarrow> pe_used e \<and> pe_dest_addr e = d"

definition drop_pend :: "zb_uint16_t \<Rightarrow> zb_nwk_pend \<Rightarrow> zb_nwk_pend" where
  "drop_pend d e = (if waits_for d e then e\<lparr>pe_used := False\<rparr> else e)"

definition forward_cb :: "nat \<Rightarrow> zb_cb_q_ent" where
  "forward_cb b = \<lparr>cb_func = Cb_zb_nwk_forward, cb_param = of_nat b\<rparr>"

lemma schedule_buf_room:
  assumes "sched_wf (sched g)" "length (callbacks (sched g)) < 16" "b < 16"
  shows "\<exists>q. schedule_buf f b g = Some (g\<lparr>sched := (sched g)\<lparr>cb_q := q\<rparr>\<rparr>) \<and> sched_wf ((sched g)\<lparr>cb_q := q\<rparr>)
    \<and> callbacks ((sched g)\<lparr>cb_q := q\<rparr>) = callbacks (sched g) @ [\<lparr>cb_func = f, cb_param = of_nat b\<rparr>]"
  using schedule_callback_spec [OF assms(1), of f "of_nat b"] schedule_callback_wf [OF assms(1,2)] assms(2,3) unat8_ref [OF assms(3)]
  by (intro exI [of _ "ZB_RING_BUFFER_PUT \<lparr>cb_func = f, cb_param = of_nat b\<rparr> (cb_q (sched g))"])
    (simp add: schedule_buf_def)

lemma send_pending_spec:
  assumes "sched_wf (sched g)" "length (callbacks (sched g)) + length is \<le> 16" "distinct is"
    "\<forall>i\<in>set is. i < length (nib_pending_table (nib (nwk g))) \<and> pe_buf (nib_pending_table (nib (nwk g)) ! i) < 16"
  shows "\<exists>g'. send_pending is d g = Some g' \<and> sched_wf (sched g') \<and> bpool g' = bpool g \<and> rx_need_buf g' = rx_need_buf g
    \<and> (\<forall>d. dir_waiters d (sched g') = dir_waiters d (sched g)) \<and> nib_aps_rreq_addr (nib (nwk g')) = nib_aps_rreq_addr (nib (nwk g))
    \<and> nib_routing_table (nib (nwk g')) = nib_routing_table (nib (nwk g))
    \<and> callbacks (sched g') = callbacks (sched g)
        @ map (\<lambda>i. forward_cb (pe_buf (nib_pending_table (nib (nwk g)) ! i)))
            (filter (\<lambda>i. waits_for d (nib_pending_table (nib (nwk g)) ! i)) is)
    \<and> length (nib_pending_table (nib (nwk g'))) = length (nib_pending_table (nib (nwk g)))
    \<and> (\<forall>i. nib_pending_table (nib (nwk g')) ! i = (if i \<in> set is then drop_pend d (nib_pending_table (nib (nwk g)) ! i)
         else nib_pending_table (nib (nwk g)) ! i))"
  using assms
proof (induction "is" arbitrary: g)
  case (Cons i "is")
  let ?T = "nib_pending_table (nib (nwk g))"
  show ?case
  proof (cases "waits_for d (?T ! i)")
    case False
    then show ?thesis using Cons.IH [of g] Cons.prems by (auto simp: waits_for_def drop_pend_def)
  next
    case True
    let ?p = "put_param (pe_buf (?T ! i)) (Nsdu_handle (pe_handle (?T ! i))) g"
    have room: "sched_wf (sched ?p)" "length (callbacks (sched ?p)) < 16" using Cons.prems by (simp_all add: put_param_def)
    obtain s where s: "schedule_buf Cb_zb_nwk_forward (pe_buf (?T ! i)) ?p = Some (?p\<lparr>sched := s\<rparr>)" "sched_wf s"
      "callbacks s = callbacks (sched g) @ [forward_cb (pe_buf (?T ! i))]"
      "\<And>d. dir_waiters d s = dir_waiters d (sched g)"
      using schedule_buf_room [OF room, of "pe_buf (?T ! i)" Cb_zb_nwk_forward] Cons.prems(4) unfolding forward_cb_def
      by (auto simp: put_param_def)
    let ?g1 = "upd_nib (put_pend i) (?p\<lparr>sched := s\<rparr>)"
    have g1: "sched ?g1 = s" "bpool ?g1 = bpool g" "rx_need_buf ?g1 = rx_need_buf g"
      "nib_aps_rreq_addr (nib (nwk ?g1)) = nib_aps_rreq_addr (nib (nwk g))"
      "nib_routing_table (nib (nwk ?g1)) = nib_routing_table (nib (nwk g))"
      "nib_pending_table (nib (nwk ?g1)) = ?T[i := (?T ! i)\<lparr>pe_used := False\<rparr>]"
      by (simp_all add: put_param_def upd_nib_def put_pend_def NWK_ARRAY_PUT_ENT_def)
    then have len: "length (nib_pending_table (nib (nwk ?g1))) = length ?T" by simp
    have other: "nib_pending_table (nib (nwk ?g1)) ! j = ?T ! j" if "j \<in> set is" for j
    proof -
      have "i \<noteq> j" using that Cons.prems(3) by auto
      then show ?thesis unfolding g1(6) by simp
    qed
    have "\<exists>g'. send_pending is d ?g1 = Some g' \<and> sched_wf (sched g') \<and> bpool g' = bpool ?g1 \<and> rx_need_buf g' = rx_need_buf ?g1
      \<and> (\<forall>d. dir_waiters d (sched g') = dir_waiters d (sched ?g1)) \<and> nib_aps_rreq_addr (nib (nwk g')) = nib_aps_rreq_addr (nib (nwk ?g1))
      \<and> nib_routing_table (nib (nwk g')) = nib_routing_table (nib (nwk ?g1))
      \<and> callbacks (sched g') = callbacks (sched ?g1)
        @ map (\<lambda>i. forward_cb (pe_buf (nib_pending_table (nib (nwk ?g1)) ! i)))
            (filter (\<lambda>i. waits_for d (nib_pending_table (nib (nwk ?g1)) ! i)) is)
      \<and> length (nib_pending_table (nib (nwk g'))) = length (nib_pending_table (nib (nwk ?g1)))
      \<and> (\<forall>i. nib_pending_table (nib (nwk g')) ! i = (if i \<in> set is then drop_pend d (nib_pending_table (nib (nwk ?g1)) ! i)
         else nib_pending_table (nib (nwk ?g1)) ! i))"
      by (rule Cons.IH) (use Cons.prems s other len in \<open>auto simp: g1(1)\<close>)
    then obtain g' where g': "send_pending is d ?g1 = Some g'" "sched_wf (sched g')" "bpool g' = bpool g"
      "rx_need_buf g' = rx_need_buf g" "\<forall>d. dir_waiters d (sched g') = dir_waiters d (sched g)"
      "nib_aps_rreq_addr (nib (nwk g')) = nib_aps_rreq_addr (nib (nwk g))"
      "nib_routing_table (nib (nwk g')) = nib_routing_table (nib (nwk g))"
      "callbacks (sched g') = callbacks s
        @ map (\<lambda>i. forward_cb (pe_buf (nib_pending_table (nib (nwk ?g1)) ! i)))
            (filter (\<lambda>i. waits_for d (nib_pending_table (nib (nwk ?g1)) ! i)) is)"
      "length (nib_pending_table (nib (nwk g'))) = length ?T"
      "\<forall>i. nib_pending_table (nib (nwk g')) ! i = (if i \<in> set is then drop_pend d (nib_pending_table (nib (nwk ?g1)) ! i)
         else nib_pending_table (nib (nwk ?g1)) ! i)"
      unfolding g1(1-5) g1(6) using s(4) by auto
    have cb: "map (\<lambda>i. forward_cb (pe_buf (nib_pending_table (nib (nwk ?g1)) ! i)))
        (filter (\<lambda>i. waits_for d (nib_pending_table (nib (nwk ?g1)) ! i)) is)
      = map (\<lambda>i. forward_cb (pe_buf (?T ! i))) (filter (\<lambda>i. waits_for d (?T ! i)) is)"
      using other by (auto intro!: map_cong filter_cong)
    have tb: "nib_pending_table (nib (nwk g')) ! j = (if j \<in> set (i # is) then drop_pend d (?T ! j) else ?T ! j)" for j
      using g'(10) Cons.prems(3,4) True unfolding g1(6) by (cases "j = i") (auto simp: drop_pend_def)
    have "send_pending (i # is) d g = Some g'"
      using True g'(1) s(1) by (simp add: waits_for_def forward_buf_def Let_def)
    moreover have "callbacks (sched g') = callbacks (sched g)
        @ map (\<lambda>i. forward_cb (pe_buf (?T ! i))) (filter (\<lambda>i. waits_for d (?T ! i)) (i # is))"
      using g'(8) s(3) True unfolding cb by simp
    ultimately show ?thesis using g'(2-7,9) tb by (intro exI [of _ g']) blast
  qed
qed (auto intro!: exI [of _ g])

section \<open>A route reply arrives\<close>

lemma put_buf_wf:
  assumes "base_wf g" "i < 16" "b_is_in_buf x = b_is_in_buf (bp_pool (bpool g) ! i)"
  shows "base_wf (put_buf i x g)" "buf_in_use j (bpool (put_buf i x g)) = buf_in_use j (bpool g)"
    "b_is_in_buf (bp_pool (bpool (put_buf i x g)) ! i) = b_is_in_buf (bp_pool (bpool g) ! i)" "sched (put_buf i x g) = sched g"
proof -
  let ?bp = "bpool g" and ?bp' = "(bpool g)\<lparr>bp_pool := (bp_pool (bpool g))[i := x]\<rparr>"
  have r: "pool_rep ?bp (free_bufs ?bp)" using assms(1) by (simp add: base_wf_def pool_wf_def)
  have l: "length (bp_pool ?bp) = 16" using r by (simp add: pool_rep_def)
  have d: "dir_bufs ?bp' F d = dir_bufs ?bp F d" for F d
    using assms(2,3) l by (auto simp: dir_bufs_def nth_list_update)
  have "pool_rep ?bp' (free_bufs ?bp) = pool_rep ?bp (free_bufs ?bp)" unfolding pool_rep_def d by simp
  with r have r': "pool_rep ?bp' (free_bufs ?bp)" by simp
  have f: "free_bufs ?bp' = free_bufs ?bp" by (rule pool_rep_free [OF r'])
  have e: "bpool (put_buf i x g) = ?bp'" "sched (put_buf i x g) = sched g" by (simp_all add: put_buf_def)
  show "base_wf (put_buf i x g)" using assms(1) pool_wfI [OF r'] unfolding base_wf_def e by simp
  show "buf_in_use j (bpool (put_buf i x g)) = buf_in_use j (bpool g)" unfolding e buf_in_use_def f by simp
  show "b_is_in_buf (bp_pool (bpool (put_buf i x g)) ! i) = b_is_in_buf (bp_pool (bpool g) ! i)"
    using assms(2,3) l unfolding e by simp
qed (simp add: put_buf_def)

lemma confirm_spec:
  assumes "base_wf g" "b < 16" "length (b_buf (bp_pool (bpool g) ! b)) = 148" "length (callbacks (sched g)) < 16"
  shows "\<exists>g'. NWK_ROUTE_DISCOVERY_CONFIRM b s ns g = Some g' \<and> base_wf g' \<and> nwk g' = nwk g
    \<and> (\<forall>j. buf_in_use j (bpool g') = buf_in_use j (bpool g))
    \<and> b_is_in_buf (bp_pool (bpool g') ! b) = b_is_in_buf (bp_pool (bpool g) ! b)
    \<and> (\<forall>d. dir_waiters d (sched g') = dir_waiters d (sched g)) \<and> rx_need_buf g' = rx_need_buf g
    \<and> callbacks (sched g') = callbacks (sched g) @ [\<lparr>cb_func = Cb_zb_nlme_route_discovery_confirm, cb_param = of_nat b\<rparr>]"
proof -
  let ?b = "bp_pool (bpool g) ! b"
  have r: "pool_rep (bpool g) (free_bufs (bpool g))" "sched_wf (sched g)" using assms(1) by (simp_all add: base_wf_def pool_wf_def)
  have gb: "get_buf b g = Some ?b" using r(1) assms(2) by (simp add: get_buf_def pool_rep_def)
  obtain b1 where b1: "zb_buf_initial_alloc 1 ?b = Some (b1, 73)" "b_is_in_buf b1 = b_is_in_buf ?b" "b_buf b1 = b_buf ?b"
    by (simp add: zb_buf_initial_alloc_def ZB_IO_BUF_SIZE_def zb_assert_def buf_bzero_hdr_def ZB_BUF_BEGIN_def Let_def)
  obtain m where m: "blit (b_buf b1) 73 [ns] = Some m" using assms(3) b1(3) by (simp add: blit_def)
  let ?x = "b1\<lparr>b_status := s, b_buf := m\<rparr>"
  have x: "b_is_in_buf ?x = b_is_in_buf ?b" using b1(2) by simp
  note p = put_buf_wf [OF assms(1,2) x]
  have w: "sched_wf (sched (put_buf b ?x g))" using p(1) by (simp add: base_wf_def)
  obtain t where t: "schedule_buf Cb_zb_nlme_route_discovery_confirm b (put_buf b ?x g) = Some ((put_buf b ?x g)\<lparr>sched := t\<rparr>)" "sched_wf t"
      "callbacks t = callbacks (sched g) @ [\<lparr>cb_func = Cb_zb_nlme_route_discovery_confirm, cb_param = of_nat b\<rparr>]"
      "\<exists>q. t = (sched g)\<lparr>cb_q := q\<rparr>"
    using schedule_buf_room [OF w _ assms(2), of Cb_zb_nlme_route_discovery_confirm] assms(4) unfolding p(4) by blast
  have "NWK_ROUTE_DISCOVERY_CONFIRM b s ns g = Some ((put_buf b ?x g)\<lparr>sched := t\<rparr>)"
    using gb b1(1) m t(1) by (simp add: NWK_ROUTE_DISCOVERY_CONFIRM_def)
  moreover have "base_wf ((put_buf b ?x g)\<lparr>sched := t\<rparr>)" using p(1) t(2) by (simp add: base_wf_def)
  moreover have "\<forall>d. dir_waiters d t = dir_waiters d (sched g)" using t(4) by auto
  ultimately show ?thesis using p t(3)
    by (intro exI [of _ "(put_buf b ?x g)\<lparr>sched := t\<rparr>"]) (simp add: put_buf_def)
qed

lemma path_cost_addr:
  assumes "NWK_CALC_PATH_COST a g = Some (g', c)" shows "\<exists>A. g' = g\<lparr>addr := A\<rparr>"
proof -
  have s: "\<exists>A. g = g\<lparr>addr := A\<rparr>" by (intro exI [of _ "addr g"]) simp
  show ?thesis using assms s
    by (auto simp: NWK_CALC_PATH_COST_def zb_nwk_neighbor_get_by_short_def Let_def bind_eq_Some_conv
        dest!: neighbor_get_known split: if_splits)
qed

text \<open>The state in which a reply is taken: its entries are there and its path is not longer than the one known.\<close>

definition reply_taken :: "nat \<Rightarrow> zb_nwk_hdr \<Rightarrow> zb_nwk_cmd_rrep \<Rightarrow> nat \<Rightarrow> zb_uint16_t \<Rightarrow> 'z zb_globals_s_scheme \<Rightarrow> bool" where
  "reply_taken b hdr rrep r a g \<longleftrightarrow> nwk_get_mac_source_addr b g = Some a \<and>
     (\<exists>g1 c d. NWK_CALC_PATH_COST (nh_src_addr hdr) g = Some (g1, c) \<and> rrep_entries rrep (nib (nwk g)) = (Some d, Some r)
       \<and> c + rp_path_cost rrep \<le> rd_residual_cost (nib_route_disc_table (nib (nwk g)) ! d))"

text \<open>There is room to schedule what waits, and a confirmation.\<close>

definition reply_room :: "nat \<Rightarrow> 'z zb_globals_s_scheme \<Rightarrow> bool" where
  "reply_room b g \<longleftrightarrow> mesh_ok g \<and> base_wf g \<and> buf_in_use b (bpool g) \<and> length (b_buf (bp_pool (bpool g) ! b)) = 148
     \<and> length (callbacks (sched g)) \<le> 10 \<and> (\<forall>e\<in>set (nib_pending_table (nib (nwk g))). pe_buf e < 16)"

text \<open>What the handler does with a reply to this device, up to the point where it frees the buffer.\<close>

lemma reply_arrives:
  assumes "reply_taken b hdr rrep r a g" "reply_room b g" "rp_originator rrep = mac_short_address (pib g)"
  defines "T \<equiv> nib_pending_table (nib (nwk g))" and "own \<equiv> nib_aps_rreq_addr (nib (nwk g)) = rp_responder rrep"
  shows "\<exists>g'. zb_nwk_mesh_rrep_handler b hdr rrep g = zb_free_buf b g' \<and> base_wf g' \<and> buf_in_use b (bpool g')
    \<and> b_is_in_buf (bp_pool (bpool g') ! b) = b_is_in_buf (bp_pool (bpool g) ! b)
    \<and> (\<forall>d. dir_waiters d (sched g') = dir_waiters d (sched g)) \<and> rx_need_buf g' = rx_need_buf g
    \<and> callbacks (sched g') = callbacks (sched g)
      @ map (\<lambda>i. forward_cb (pe_buf (T ! i))) (filter (\<lambda>i. waits_for (rp_responder rrep) (T ! i)) [0..<5])
      @ (if own then [\<lparr>cb_func = Cb_zb_nlme_route_discovery_confirm, cb_param = of_nat b\<rparr>] else [])
    \<and> nib_pending_table (nib (nwk g')) = map (drop_pend (rp_responder rrep)) T
    \<and> rt_next_hop_addr (nib_routing_table (nib (nwk g')) ! r) = a"
proof -
  obtain g1 c d where t: "nwk_get_mac_source_addr b g = Some a" "NWK_CALC_PATH_COST (nh_src_addr hdr) g = Some (g1, c)"
    "rrep_entries rrep (nib (nwk g)) = (Some d, Some r)"
    "c + rp_path_cost rrep \<le> rd_residual_cost (nib_route_disc_table (nib (nwk g)) ! d)"
    using assms(1) by (auto simp: reply_taken_def)
  obtain A where g1: "g1 = g\<lparr>addr := A\<rparr>" using path_cost_addr [OF t(2)] by blast
  have ok: "mesh_ok g" "base_wf g" "buf_in_use b (bpool g)" "length (b_buf (bp_pool (bpool g) ! b)) = 148"
    "length (callbacks (sched g)) \<le> 10" "\<forall>e\<in>set T. pe_buf e < 16" using assms(2) by (simp_all add: reply_room_def T_def)
  have lT: "length T = 5" using mesh_wf_parts(8) [OF ok(1)] by (simp add: T_def)
  have r5: "r < 5" using find_wf(1) [OF ok(1), of "\<lambda>e. rt_dest_addr e = rp_responder rrep" r] t(3) by (simp add: rrep_entries_def)
  have b16: "b < 16" using ok(3) by (simp add: buf_in_use_def)
  let ?k = "c + rp_path_cost rrep"
  let ?g2 = "upd_nib (accept_reply ?k a d r) g1"
  have g2: "sched ?g2 = sched g" "bpool ?g2 = bpool g" "rx_need_buf ?g2 = rx_need_buf g"
    "nib_pending_table (nib (nwk ?g2)) = T" "nib_aps_rreq_addr (nib (nwk ?g2)) = nib_aps_rreq_addr (nib (nwk g))"
    "rt_next_hop_addr (nib_routing_table (nib (nwk ?g2)) ! r) = a"
    using r5 mesh_wf_parts(6) [OF ok(1)]
    by (simp_all add: g1 upd_nib_def accept_reply_def upd_route_def upd_disc_def T_def)
  have "\<exists>g3. send_pending [0..<5] (rp_responder rrep) ?g2 = Some g3 \<and> sched_wf (sched g3) \<and> bpool g3 = bpool g
    \<and> rx_need_buf g3 = rx_need_buf g \<and> (\<forall>d. dir_waiters d (sched g3) = dir_waiters d (sched g))
    \<and> nib_aps_rreq_addr (nib (nwk g3)) = nib_aps_rreq_addr (nib (nwk g))
    \<and> nib_routing_table (nib (nwk g3)) = nib_routing_table (nib (nwk ?g2))
    \<and> callbacks (sched g3) = callbacks (sched g)
        @ map (\<lambda>i. forward_cb (pe_buf (T ! i))) (filter (\<lambda>i. waits_for (rp_responder rrep) (T ! i)) [0..<5])
    \<and> length (nib_pending_table (nib (nwk g3))) = length T
    \<and> (\<forall>i. nib_pending_table (nib (nwk g3)) ! i = (if i \<in> set [0..<5] then drop_pend (rp_responder rrep) (T ! i) else T ! i))"
    using send_pending_spec [of ?g2 "[0..<5]" "rp_responder rrep"] ok(2,5,6) lT unfolding g2(1-5)
    by (simp add: base_wf_def)
  then obtain g3 where g3: "send_pending [0..<5] (rp_responder rrep) ?g2 = Some g3" "sched_wf (sched g3)" "bpool g3 = bpool g"
    "rx_need_buf g3 = rx_need_buf g" "\<forall>d. dir_waiters d (sched g3) = dir_waiters d (sched g)"
    "nib_aps_rreq_addr (nib (nwk g3)) = nib_aps_rreq_addr (nib (nwk g))"
    "nib_routing_table (nib (nwk g3)) = nib_routing_table (nib (nwk ?g2))"
    "callbacks (sched g3) = callbacks (sched g)
        @ map (\<lambda>i. forward_cb (pe_buf (T ! i))) (filter (\<lambda>i. waits_for (rp_responder rrep) (T ! i)) [0..<5])"
    "length (nib_pending_table (nib (nwk g3))) = length T"
    "\<forall>i. nib_pending_table (nib (nwk g3)) ! i = (if i \<in> set [0..<5] then drop_pend (rp_responder rrep) (T ! i) else T ! i)"
    by blast
  have T3: "nib_pending_table (nib (nwk g3)) = map (drop_pend (rp_responder rrep)) T"
    using g3(9,10) lT by (intro nth_equalityI) simp_all
  have wf3: "base_wf g3" using ok(2) g3(2,3) by (simp add: base_wf_def)
  have h: "zb_nwk_mesh_rrep_handler b hdr rrep g = Option.bind (rrep_arrived b (rp_responder rrep) ?g2) (zb_free_buf b)"
    using t g1 assms(3) by (simp add: zb_nwk_mesh_rrep_handler_def upd_nib_def Let_def not_less [symmetric])
  show ?thesis
  proof (cases own)
    case False
    then have "rrep_arrived b (rp_responder rrep) ?g2 = Some g3"
      using g3(1,6) by (simp add: rrep_arrived_def own_def ZB_NWK_PENDING_TABLE_SIZE_def)
    then show ?thesis using h False wf3 g3 g2(6) ok(3) T3 by (intro exI [of _ g3]) simp
  next
    case True
    have "length (filter (\<lambda>i. waits_for (rp_responder rrep) (T ! i)) [0..<5]) \<le> length [0..<5]" by (rule length_filter_le)
    then have "length (callbacks (sched g3)) < 16" using g3(8) ok(5) by simp
    then obtain g4 where g4: "NWK_ROUTE_DISCOVERY_CONFIRM b ZB_NWK_STATUS_SUCCESS 0xff g3 = Some g4" "base_wf g4" "nwk g4 = nwk g3"
      "\<forall>j. buf_in_use j (bpool g4) = buf_in_use j (bpool g3)" "b_is_in_buf (bp_pool (bpool g4) ! b) = b_is_in_buf (bp_pool (bpool g3) ! b)"
      "\<forall>d. dir_waiters d (sched g4) = dir_waiters d (sched g3)" "rx_need_buf g4 = rx_need_buf g3"
      "callbacks (sched g4) = callbacks (sched g3) @ [\<lparr>cb_func = Cb_zb_nlme_route_discovery_confirm, cb_param = of_nat b\<rparr>]"
      using confirm_spec [OF wf3 b16, of ZB_NWK_STATUS_SUCCESS "0xff"] ok(4) g3(3) by auto
    let ?g5 = "upd_nib (\<lambda>N. N\<lparr>nib_aps_rreq_addr := -1\<rparr>) g4"
    have g5: "sched ?g5 = sched g4" "bpool ?g5 = bpool g4" "rx_need_buf ?g5 = rx_need_buf g4"
      "nib_pending_table (nib (nwk ?g5)) = nib_pending_table (nib (nwk g3))"
      "nib_routing_table (nib (nwk ?g5)) = nib_routing_table (nib (nwk g3))" using g4(3) by (simp_all add: upd_nib_def)
    have "rrep_arrived b (rp_responder rrep) ?g2 = Some ?g5"
      using g3(1,6) True g4(1) by (simp add: rrep_arrived_def own_def ZB_NWK_PENDING_TABLE_SIZE_def)
    moreover have "base_wf ?g5" using g4(2) unfolding base_wf_def g5 by simp
    ultimately show ?thesis using h True g4 g3 g2(6) g5 ok(3) T3 by (intro exI [of _ ?g5]) simp
  qed
qed

lemma waiting_list:
  assumes "length T = 5"
  shows "map (\<lambda>i. f (T ! i)) (filter (\<lambda>i. P (T ! i)) [0..<5]) = map f (filter P T)"
proof -
  have T: "map ((!) T) [0..<5] = T" using map_nth [of T] unfolding assms .
  have "map f (filter P (map ((!) T) [0..<5])) = map (\<lambda>i. f (T ! i)) (filter (\<lambda>i. P (T ! i)) [0..<5])"
    by (simp add: filter_map comp_def del: upt_Suc)
  then show ?thesis unfolding T by (rule sym)
qed

text \<open>
  C10: a reply for a discovery of this device, over a path not longer than the one known, sets the
  next hop of the route to the neighbor that sent the reply, and releases the packets that wait for the
  destination: each of them, and no other, is scheduled to be forwarded once, in the order of the table,
  after the callbacks scheduled before, and none of them waits any longer.
\<close>

theorem route_reply_releases_packets:
  assumes "reply_taken b hdr rrep r a g" "reply_room b g" "rp_originator rrep = mac_short_address (pib g)"
  shows "\<exists>g' rest. zb_nwk_mesh_rrep_handler b hdr rrep g = Some g' \<and> base_wf g'
    \<and> callbacks (sched g') = callbacks (sched g)
      @ map (\<lambda>e. forward_cb (pe_buf e)) (filter (waits_for (rp_responder rrep)) (nib_pending_table (nib (nwk g)))) @ rest
    \<and> nib_pending_table (nib (nwk g')) = map (drop_pend (rp_responder rrep)) (nib_pending_table (nib (nwk g)))
    \<and> rt_next_hop_addr (nib_routing_table (nib (nwk g')) ! r) = a"
proof -
  have "length (nib_pending_table (nib (nwk g))) = 5" using assms(2) mesh_wf_parts(8) by (simp add: reply_room_def)
  note w = waiting_list [OF this, of "\<lambda>e. forward_cb (pe_buf e)" "waits_for (rp_responder rrep)"]
  obtain h rest where h: "zb_nwk_mesh_rrep_handler b hdr rrep g = zb_free_buf b h" "base_wf h" "buf_in_use b (bpool h)"
    "callbacks (sched h) = callbacks (sched g)
      @ map (\<lambda>e. forward_cb (pe_buf e)) (filter (waits_for (rp_responder rrep)) (nib_pending_table (nib (nwk g)))) @ rest"
    "nib_pending_table (nib (nwk h)) = map (drop_pend (rp_responder rrep)) (nib_pending_table (nib (nwk g)))"
    "rt_next_hop_addr (nib_routing_table (nib (nwk h)) ! r) = a"
    using reply_arrives [OF assms] unfolding w by blast
  obtain g' where g': "zb_free_buf b h = Some g'" "base_wf g'" "\<exists>more. callbacks (sched g') = callbacks (sched h) @ more"
    using free_buf_spec [OF h(2,3) refl] by (auto split: if_splits)
  then show ?thesis using h free_buf_nwk [OF g'(1)] by auto
qed

text \<open>
  C39: the buffer of a reply that answers a request of the APS is used after it has been freed: its
  confirmation is scheduled with the buffer, then the handler frees the buffer all the same, so that the
  confirmation will read a buffer that is free or that belongs to somebody else.
\<close>

theorem route_reply_confirm_in_freed_buffer:
  assumes "reply_taken b hdr rrep r a g" "reply_room b g" "rp_originator rrep = mac_short_address (pib g)"
    "nib_aps_rreq_addr (nib (nwk g)) = rp_responder rrep" "dir_waiters (b_is_in_buf (bp_pool (bpool g) ! b)) (sched g) = []"
  shows "\<exists>g'. zb_nwk_mesh_rrep_handler b hdr rrep g = Some g' \<and> \<not> buf_in_use b (bpool g')
    \<and> \<lparr>cb_func = Cb_zb_nlme_route_discovery_confirm, cb_param = of_nat b\<rparr> \<in> set (callbacks (sched g'))"
proof -
  obtain h where h: "zb_nwk_mesh_rrep_handler b hdr rrep g = zb_free_buf b h" "base_wf h" "buf_in_use b (bpool h)"
    "dir_waiters (b_is_in_buf (bp_pool (bpool h) ! b)) (sched h) = []"
    "\<lparr>cb_func = Cb_zb_nlme_route_discovery_confirm, cb_param = of_nat b\<rparr> \<in> set (callbacks (sched h))"
    using reply_arrives [OF assms(1-3)] assms(4,5) by auto
  then show ?thesis using free_buf_spec [OF h(2,3) refl] by auto
qed

section \<open>A request when the tables are full\<close>

text \<open>
  a route request for a new discovery that arrives when the discovery table is full costs a working route:
  the handler gives back the routing entry it has found for the destination, although it did not make it, and
  although it is active.
\<close>

theorem full_discovery_table_frees_active_route:
  assumes "mesh_ok g" "base_wf g" "buf_in_use b (bpool g)"
    "NWK_CALC_PATH_COST (nh_src_addr hdr) g = Some (g1, c)"
    "find_disc (\<lambda>e. rd_request_id e = rq_rreq_id rreq \<and> rd_source_addr e = nh_src_addr hdr) (nib (nwk g)) = None"
    "\<forall>i<5. rd_used (nib_route_disc_table (nib (nwk g)) ! i)"
    "zb_nwk_mesh_find_route (rq_dest_addr rreq) (nib (nwk g)) = Some i"
    "rt_status (nib_routing_table (nib (nwk g)) ! i) = ZB_NWK_ROUTE_STATE_ACTIVE"
    "nib_aps_rreq_addr (nib (nwk g)) \<noteq> rq_dest_addr rreq"
  shows "\<exists>g'. zb_nwk_mesh_rreq_handler b hdr rreq g = Some g' \<and> \<not> rt_used (nib_routing_table (nib (nwk g')) ! i)"
proof -
  let ?N = "nib (nwk g)"
  let ?M = "upd_route i (\<lambda>e. e) ?N"
  have i: "i < length (nib_routing_table ?N)"
    using find_wf(1) [OF assms(1), of "\<lambda>e. rt_dest_addr e = rq_dest_addr rreq" i] assms(7) mesh_wf_parts(6) [OF assms(1)]
    by (simp add: zb_nwk_mesh_find_route_def)
  obtain A where g1: "g1 = g\<lparr>addr := A\<rparr>" using path_cost_addr [OF assms(4)] by blast
  have M: "?M = ?N" by (simp add: upd_route_def)
  have R: "rreq_route (rq_dest_addr rreq) ?N = Some (i, ?N)"
    using assms(7,8) by (simp add: rreq_route_def zb_nwk_mesh_find_route_def upd_route_def)
  have F: "get_disc ?N = None"
    using tbl_full [OF mesh_wf_parts(7) [OF assms(1)], of rd_used "\<lambda>e. e\<lparr>rd_used := True\<rparr>" "nib_route_disc_table_cnt ?N"] assms(6)
    by (simp add: get_disc_def)
  let ?h = "upd_nib (put_route i) (upd_nib (\<lambda>_. ?N) g1)"
  have "rreq_disc b hdr rreq (c + rq_path_cost rreq) (upd_nib (\<lambda>_. ?N) g1) = Some (Rreq_no_memory, upd_nib (\<lambda>_. ?N) g1)"
    using assms(5) F by (simp add: rreq_disc_def)
  then have e: "zb_nwk_mesh_rreq_handler b hdr rreq g = zb_free_buf b ?h"
    using assms(4,9) R by (simp add: zb_nwk_mesh_rreq_handler_def rreq_error_def Let_def g1 put_route_def NWK_ARRAY_PUT_ENT_def)
  have "base_wf ?h" "bpool ?h = bpool g" using assms(2) by (simp_all add: base_wf_def g1 upd_nib_def)
  then obtain g' where g': "zb_free_buf b ?h = Some g'" using free_buf_spec [of ?h b, OF _ _ refl] assms(3) by auto
  have "\<not> rt_used (nib_routing_table (nib (nwk ?h)) ! i)" using i by (simp add: put_route_def NWK_ARRAY_PUT_ENT_def)
  then show ?thesis using e g' free_buf_nwk [OF g'] by auto
qed

section \<open>Expiry\<close>

lemma expire_disc_skip:
  "\<forall>i\<in>set is. \<not> rd_used (nib_route_disc_table (nib (nwk g)) ! i) \<Longrightarrow> expire_disc (is @ js) g = expire_disc js g"
  by (induction "is") (simp_all add: Let_def)

lemma upt5_split: "d < 5 \<Longrightarrow> [0..<5] = [0..<d] @ d # [Suc d..<5]"
  by (metis le0 less_imp_le_nat upt_add_eq_append upt_conv_Cons le_add_diff_inverse)

text \<open>
  an expired discovery takes a route that is still being discovered. The check frees, with the first
  discovery that has expired, the first routing entry that is not active and has the same destination as the
  discovery entry in its own slot; when this is another destination, whose discovery has not expired, that
  discovery has lost its routing entry, and the entries of the expired one stay as they are.
\<close>

theorem expired_discovery_frees_another_route:
  assumes "mesh_ok g" "base_wf g" "d < 5" "\<forall>i<d. \<not> rd_used (nib_route_disc_table (nib (nwk g)) ! i)"
    "rd_used (nib_route_disc_table (nib (nwk g)) ! d)" "rd_expiration_time (nib_route_disc_table (nib (nwk g)) ! d) = 0"
    "expired_route (nib (nwk g)) = Some r" "rd_dest_addr (nib_route_disc_table (nib (nwk g)) ! r) \<noteq>
      rd_dest_addr (nib_route_disc_table (nib (nwk g)) ! d)"
  shows "\<exists>g'. zb_nwk_mesh_expiry_route_disc g = Some g'
    \<and> \<not> rt_used (nib_routing_table (nib (nwk g')) ! r)
    \<and> nib_route_disc_table (nib (nwk g')) ! r = nib_route_disc_table (nib (nwk g)) ! r
    \<and> (\<forall>i. rt_dest_addr (nib_routing_table (nib (nwk g)) ! i) = rd_dest_addr (nib_route_disc_table (nib (nwk g)) ! d)
        \<longrightarrow> nib_routing_table (nib (nwk g')) ! i = nib_routing_table (nib (nwk g)) ! i)"
proof -
  let ?N = "nib (nwk g)"
  note r = expired_route_spec [OF assms(1,7)]
  have rd: "r \<noteq> d" using assms(8) by auto
  have "d < length (nib_route_disc_table ?N)" using assms(3) mesh_wf_parts(7) [OF assms(1)] by simp
  then have "nib_route_disc_table ?N ! d \<in> set (filter rd_used (nib_route_disc_table ?N))" using assms(5) by simp
  then have "0 < length (filter rd_used (nib_route_disc_table ?N))" by (metis length_pos_if_in_set)
  then have cnt: "nib_route_disc_table_cnt ?N \<noteq> 0" using mesh_wf_parts(2) [OF assms(1)] by (simp add: tbl_ok_def)
  let ?g1 = "upd_nib (put_disc d) g"
  let ?g2 = "?g1\<lparr>nwk := (nwk ?g1)\<lparr>nwk_handle := (nwk_handle (nwk ?g1))\<lparr>hd_status_ind_addr :=
      rt_dest_addr (nib_routing_table (nib (nwk ?g1)) ! r)\<rparr>\<rparr>\<rparr>"
  have "base_wf ?g2" using assms(2) by (simp add: base_wf_def upd_nib_def)
  then obtain g3 ret where g3: "zb_get_out_buf_delayed Cb_nwk_route_disc_failed ?g2 = Some (g3, ret)"
    using zb_get_buf_delayed_spec [of ?g2 Cb_nwk_route_disc_failed False] by (auto simp: zb_get_out_buf_delayed_def)
  have N3: "nib (nwk g3) = put_disc d ?N" using get_delayed_nwk [OF g3] by (simp add: upd_nib_def)
  have "expire_disc [0..<5] g = expire_disc (d # [Suc d..<5]) g"
    unfolding upt5_split [OF assms(3)] by (rule expire_disc_skip) (use assms(4) in simp)
  also have "\<dots> = Some (upd_nib (put_route r) g3, False)"
    using assms(5-7) g3 by (simp add: Let_def)
  finally have e: "zb_nwk_mesh_expiry_route_disc g = Some (upd_nib (put_route r) g3)"
    using cnt by (simp add: zb_nwk_mesh_expiry_route_disc_def ZB_NWK_ROUTE_DISCOVERY_TABLE_SIZE_def)
  have l: "r < length (nib_routing_table ?N)" using r mesh_wf_parts(6) [OF assms(1)] by simp
  have t: "nib_routing_table (nib (nwk (upd_nib (put_route r) g3))) = (nib_routing_table ?N)[r := (nib_routing_table ?N ! r)\<lparr>rt_used := False\<rparr>]"
    "nib_route_disc_table (nib (nwk (upd_nib (put_route r) g3))) = (nib_route_disc_table ?N)[d := (nib_route_disc_table ?N ! d)\<lparr>rd_used := False\<rparr>]"
    by (simp_all add: N3 put_route_def put_disc_def NWK_ARRAY_PUT_ENT_def)
  have "nib_routing_table ?N ! i = (nib_routing_table ?N)[r := (nib_routing_table ?N ! r)\<lparr>rt_used := False\<rparr>] ! i"
    if "rt_dest_addr (nib_routing_table ?N ! i) = rd_dest_addr (nib_route_disc_table ?N ! d)" for i
  proof -
    have "i \<noteq> r" using that r assms(8) by auto
    then show ?thesis by simp
  qed
  then show ?thesis using e rd l unfolding t(1) [symmetric]
    by (intro exI [of _ "upd_nib (put_route r) g3"] conjI allI impI) (simp_all add: t del: nib_upd_nib)
qed

section \<open>The next hop\<close>

lemma wait_status: "wait_for_route b h d st g = Some (g', ret, a, ind, s) \<Longrightarrow> s = None \<or> s = Some ZB_NWK_COMMAND_STATUS_NO_ROUTE_AVAILABLE"
  by (auto simp: wait_for_route_def bind_eq_Some_conv split: if_splits)

lemma route_destination_status:
  assumes "mesh_ok g" "route_destination b h d disc g = Some (g', ret, a, ind, s)"
  shows "s = None \<or> s = Some ZB_NWK_COMMAND_STATUS_NO_ROUTE_AVAILABLE \<or> s = Some ZB_NWK_COMMAND_STATUS_NO_ROUTING_CAPACITY"
proof (cases "zb_nwk_mesh_find_route d (nib (nwk g))")
  case None
  then show ?thesis using assms(2) by (auto simp: route_destination_def Let_def split: if_splits dest: wait_status)
next
  case (Some i)
  then have i: "i < 5 \<and> rt_used (nib_routing_table (nib (nwk g)) ! i)"
    using find_wf(1) [OF assms(1), of "\<lambda>e. rt_dest_addr e = d" i] by (simp add: zb_nwk_mesh_find_route_def)
  then have "rt_status (nib_routing_table (nib (nwk g)) ! i) \<in> {ZB_NWK_ROUTE_STATE_ACTIVE, ZB_NWK_ROUTE_STATE_DISCOVERY_UNDERWAY,
     ZB_NWK_ROUTE_STATE_VALIDATION_UNDERWAY}" using mesh_wf_entry(1) [OF assms(1), of i] by (simp add: route_state_ok_def)
  then show ?thesis using assms(2) Some by (auto simp: route_destination_def Let_def split: if_splits dest: wait_status)
qed

lemma calc_destination_status:
  assumes "nwk_calc_destination b h g = Some (g', ret, a, ind, s)" "s \<noteq> None"
  shows "\<exists>p nw d g1 f. dest_neighbor p nw d g = Some (g1, None) \<and> route_destination b h d f g1 = Some (g', ret, a, ind, s)"
proof -
  obtain p where p: "get_buf b g = Some p" using assms by (auto simp: nwk_calc_destination_def bind_eq_Some_conv)
  obtain d where d: "rd16 (b_buf p) (ZB_BUF_BEGIN p + 2) = Some d"
    using assms p by (auto simp: nwk_calc_destination_def Let_def bind_eq_Some_conv)
  have no: "\<not> (nib_device_type (nib (nwk g)) = ucast ZB_NWK_DEVICE_TYPE_ED \<or> ZB_NWK_IS_ADDRESS_BROADCAST d)"
    using assms p d by (auto simp: nwk_calc_destination_def Let_def bind_eq_Some_conv split: if_splits)
  then obtain g1 n where n: "dest_neighbor (b_buf p) (ZB_BUF_BEGIN p) d g = Some (g1, n)"
    using assms p d by (auto simp: nwk_calc_destination_def Let_def bind_eq_Some_conv)
  have "n = None" using assms p d n no by (auto simp: nwk_calc_destination_def Let_def bind_eq_Some_conv split: option.splits)
  moreover obtain f where "route_destination b h d f g1 = Some (g', ret, a, ind, s)"
    using assms p d n no \<open>n = None\<close> by (auto simp: nwk_calc_destination_def Let_def bind_eq_Some_conv)
  ultimately show ?thesis using n by blast
qed

text \<open>
  a router never falls back on tree routing when it calculates the next hop of a packet: with
  consistent tables a known route is active, under discovery or under validation, and for an unknown one a discovery
  is started or the packet is refused, so the branch for tree routing is not reached and the status
  "tree link failure" is never reported, whatever \<^verbatim>\<open>nwkUseTreeRouting\<close> says.
\<close>

theorem nwk_calc_destination_never_tree:
  assumes "mesh_ok g" "nwk_calc_destination b h g = Some (g', ret, a, ind, s)"
  shows "s \<noteq> Some ZB_NWK_COMMAND_STATUS_TREE_LINK_FAILURE"
proof (cases s)
  case (Some x)
  then obtain p nw d g1 f where "dest_neighbor p nw d g = Some (g1, None)" "route_destination b h d f g1 = Some (g', ret, a, ind, s)"
    using calc_destination_status [OF assms(2)] by blast
  then show ?thesis using route_destination_status [of g1 b h d f g' ret a ind s] dest_neighbor_nib [of p nw d g g1 None] assms(1)
    by (auto simp: ZB_NWK_COMMAND_STATUS_TREE_LINK_FAILURE_def ZB_NWK_COMMAND_STATUS_NO_ROUTE_AVAILABLE_def
        ZB_NWK_COMMAND_STATUS_NO_ROUTING_CAPACITY_def)
qed simp

end
