(* ===== verification/Zb_Secur_Demo.thy ===== *)
theory Zb_Secur_Demo
  imports Zb_Nwk_Secur_Props Zb_Addr_Update
begin

text \<open>
  Concrete devices for the security properties: a sender with a frame to secure, a receiver that has not
  heard of the sender, and a device that gets its first key.
\<close>

section \<open>Devices\<close>

definition demo_ext :: zb_ieee_addr_t where "demo_ext = [1, 2, 3, 4, 5, 6, 7, 8]"

definition demo_s :: zb_globals_s where
  "demo_s = zb_globals_n.extend demo_n (zb_globals_s.fields False 0 True demo_ext (\<lambda>_. Param_none) 4096)"

lemma demo_s_fields [simp]:
  "nwk demo_s = nwk demo_n" "aps demo_s = demo_aps" "addr demo_s = addr_zero" "sched demo_s = sched demo_base"
  "bpool demo_s = bpool demo_base" "is_tc demo_s = False" "extended_address demo_s = demo_ext"
  "buf_param demo_s p = Param_none"
  by (simp_all add: demo_s_def zb_globals_n.extend_def zb_globals_s.fields_def demo_n_def demo_a_def)

lemma demo_nib_of [simp]: "nib (nwk demo_n) = demo_nib"
  by (simp add: demo_n_def)

lemma demo_nib_keys [simp]:
  "nib_secur_material_set demo_nib = [\<lparr>sm_key = replicate 16 0, sm_key_seq_number = 0\<rparr>,
     \<lparr>sm_key = replicate 16 0, sm_key_seq_number = 0\<rparr>, \<lparr>sm_key = replicate 16 0, sm_key_seq_number = 0\<rparr>]"
  "nib_active_secur_material_i demo_nib = 0" "nib_active_key_seq_number demo_nib = 0"
  "nib_outgoing_frame_counter demo_nib = 0"
  by (simp_all add: demo_nib_def numeral_3_eq_3)

lemma demo_keys_wf: "keys_wf demo_nib"
  by (simp add: keys_wf_def)

section \<open>Keys\<close>

lemma secur_nwk_key_by_seq_is_find_witness:
  "secur_nwk_key_by_seq 0 demo_nib = Some (Some (replicate 16 0)) \<and> secur_nwk_key_by_seq 5 demo_nib = Some None"
  using secur_nwk_key_by_seq_is_find [OF demo_keys_wf, of 0] secur_nwk_key_by_seq_is_find [OF demo_keys_wf, of 5] by simp

lemma secur_generate_keys_all_equal_witness:
  "\<exists>c. secur_generate_keys 4096 demo_nib = Some (demo_nib\<lparr>nib_secur_material_set :=
    map (\<lambda>i. \<lparr>sm_key = replicate 16 c, sm_key_seq_number = of_nat i\<rparr>) [0, 1, 2]\<rparr>)"
  using secur_generate_keys_all_equal [of demo_nib 4096] by simp

lemma secur_nwk_key_switch_unknown_witness:
  "\<exists>g'. secur_nwk_key_switch 9 demo_s = Some g' \<and> secur_nwk_key_by_seq 9 (nib (nwk g')) = Some None"
  using secur_nwk_key_switch_unknown [of demo_s 9] demo_keys_wf by auto

lemma demo_key_not_empty: "v \<noteq> 0 \<Longrightarrow> \<not> secur_nwk_key_is_empty (replicate 16 v)"
  unfolding secur_nwk_key_is_empty_def ZB_CCM_KEY_SIZE_def by (simp add: list_all_iff)

lemma third_key_update_loses_active_witness:
  "\<exists>g1 g2 i N. update_then_switch (replicate 16 1) 1 demo_s = Some g1 \<and> update_then_switch (replicate 16 2) 2 g1 = Some g2
    \<and> secur_nwk_key_by_seq 2 (nib (nwk g2)) = Some (Some (replicate 16 2))
    \<and> store_key (replicate 16 3) 3 (nib (nwk g2)) = Some (i, N) \<and> secur_nwk_key_by_seq 2 N = Some None"
proof -
  have "\<forall>k\<in>{replicate 16 1, replicate 16 2, replicate 16 3 :: 8 word list}. length k = 16 \<and> \<not> secur_nwk_key_is_empty k"
    using demo_key_not_empty [of 1] demo_key_not_empty [of 2] demo_key_not_empty [of 3]
    by (simp)
  from third_key_update_loses_active [of demo_s _ _ _ 0, OF _ _ _ _ _ this] show ?thesis by auto
qed

definition demo_ind :: zb_apsme_transport_key_indication_t where
  "demo_ind = \<lparr>tki_key_type = ZB_STANDARD_NETWORK_KEY, tki_src_address = demo_ext, tki_key = replicate 16 7, tki_key_seq_number = 4\<rparr>"

lemma zb_apsme_transport_key_indication_authenticates_witness:
  "\<exists>g'. zb_apsme_transport_key_indication (\<lambda>_ g. Some g) 0 (put_param 0 (Transport_key_ind demo_ind) demo_s) = Some g'
    \<and> aps_authenticated (aps g') \<and> secur_nwk_key_by_seq 4 (nib (nwk g')) = Some (Some (replicate 16 7))"
proof -
  let ?g = "put_param 0 (Transport_key_ind demo_ind) demo_s"
  have l: "length demo_ext = 8" by (simp add: demo_ext_def)
  obtain A1 c where "zb_ieee_addr_compress demo_ext addr_zero = Some (A1, c)" using compress_zero [OF l] by blast
  from update_new [OF addr_wf_zero l this _ zero_search [OF l this] zero_no_entries(3), of 0] zero_no_entries(2)
  obtain B i where u: "zb_address_update (tki_src_address demo_ind) 0 False (addr ?g) = Some (B, RET_OK, Some i)"
    by (auto simp: put_param_def demo_ind_def)
  have "\<not> aps_authenticated (aps ?g)" "keys_wf (nib (nwk ?g))" "trust_center_address (aib (aps ?g)) = replicate 8 0"
    "buf_param ?g 0 = Transport_key_ind demo_ind"
    using demo_keys_wf by (simp_all add: put_param_def demo_aps_def)
  from zb_apsme_transport_key_indication_authenticates [OF this(4) _ _ _ this(1,2,3) u, of "\<lambda>_ g. Some g"]
  show ?thesis using demo_key_not_empty [of 7] by (auto simp: demo_ind_def)
qed

section \<open>Frames\<close>

definition demo_hdr :: "zb_uint8_t list" where
  "demo_hdr = [0x08, 0x02, 0x34, 0x12] @ htole16 0x5678 @ [1, 0]"

definition demo_tx_buf :: zb_buf where
  "demo_tx_buf = demo_buf\<lparr>b_len := 34, b_data_offset := 60,
     b_buf := replicate 60 0 @ replicate 9 5 @ demo_hdr @ replicate 14 0 @ [1, 2, 3] @ replicate 54 0\<rparr>"

definition demo_sender :: zb_globals_s where
  "demo_sender = demo_s\<lparr>bpool := (bpool demo_s)\<lparr>bp_pool := [demo_tx_buf, demo_buf]\<rparr>\<rparr>"

definition demo_rx_buf :: "zb_uint8_t list \<Rightarrow> zb_buf" where
  "demo_rx_buf x = demo_buf\<lparr>b_len := of_nat (length x), b_data_offset := 60,
     b_buf := replicate 60 0 @ x @ replicate (88 - length x) 0\<rparr>"

definition demo_rx_nbt :: zb_neighbor_tbl where
  "demo_rx_nbt = zero_nbt\<lparr>addr_to_neighbor := replicate 101 255, base_neighbor_size := 32\<rparr>"

definition demo_receiver :: "zb_uint8_t list \<Rightarrow> zb_globals_s" where
  "demo_receiver x = upd_nbt (\<lambda>_. demo_rx_nbt) (upd_aps (\<lambda>a. a\<lparr>aps_authenticated := True\<rparr>)
     (demo_s\<lparr>bpool := (bpool demo_s)\<lparr>bp_pool := [demo_rx_buf x]\<rparr>\<rparr>))"

lemma demo_rx_buf_data:
  assumes "length x \<le> 88" shows "buf_wf (demo_rx_buf x)" "buf_data (demo_rx_buf x) = x" "unat (b_len (demo_rx_buf x)) = length x"
    "unat (b_data_offset (demo_rx_buf x)) = 60"
proof -
  have u: "unat (of_nat (length x) :: 8 word) = length x" using assms by (intro unat8_of_nat) simp
  then show "buf_wf (demo_rx_buf x)" "buf_data (demo_rx_buf x) = x" "unat (b_len (demo_rx_buf x)) = length x"
    "unat (b_data_offset (demo_rx_buf x)) = 60"
    using assms by (simp_all add: demo_rx_buf_def buf_wf_def buf_data_def ZB_IO_BUF_SIZE_def)
qed

lemma demo_hdr_facts:
  "length demo_hdr = 8" "demo_hdr = [0x08, 0x02, 0x34, 0x12] @ htole16 0x5678 @ [1, 0]"
  "zb_nwk_hdr_size (0x08, 0x02) = length demo_hdr + 14" "take 2 (drop 4 demo_hdr) = htole16 0x5678"
  by (simp_all add: demo_hdr_def zb_nwk_hdr_size_def fctl_get_defs ZB_NWK_SHORT_HDR_SIZE_def AUX_HDR_SIZE_def)

lemma demo_ready: "secur_ready demo_tx_buf (replicate 9 5) demo_hdr [1, 2, 3]"
proof -
  have "buf_wf demo_tx_buf" "\<not> b_use_same_key demo_tx_buf"
    by (simp_all add: demo_tx_buf_def demo_buf_def buf_wf_def ZB_IO_BUF_SIZE_def demo_hdr_facts(1))
  moreover have "buf_data demo_tx_buf = replicate 9 5 @ demo_hdr @ replicate 14 0 @ [1, 2, 3]"
    by (simp add: demo_tx_buf_def buf_data_def demo_hdr_facts(1) take_Cons')
  moreover have "demo_hdr = [0x08, 0x02] @ ([0x34, 0x12] @ htole16 0x5678 @ [1, 0])" by (simp add: demo_hdr_def)
  moreover have "length (replicate 14 (0 :: 8 word)) = 14" by (rule length_replicate)
  moreover have "length (replicate 9 (5 :: 8 word)) + length demo_hdr + 14 + length [1, 2, 3 :: 8 word] \<le> 121"
    by (simp add: demo_hdr_facts(1))
  ultimately show ?thesis unfolding secur_ready_def using demo_hdr_facts(3) by blast
qed

lemma demo_frame_neighbor:
  "\<exists>g1 n e. frame_neighbor demo_mhr demo_ext 0x5678 (demo_receiver x) = Some (g1, RET_OK, Some n)
    \<and> nb_get (neighbor (nwk g1)) n = Some e \<and> ne_incoming_frame_counter e = 0 \<and> ne_key_seq_number e = 0"
proof -
  let ?r = "demo_receiver x"
  have l: "length demo_ext = 8" by (simp add: demo_ext_def)
  obtain A1 c where c: "zb_ieee_addr_compress demo_ext addr_zero = Some (A1, c)" using compress_zero [OF l] by blast
  from update_new [OF addr_wf_zero l c _ zero_search [OF l c] zero_no_entries(3), of "0x5678"] zero_no_entries(2)
  obtain B i where u: "zb_address_update demo_ext 0x5678 False addr_zero = Some (B, RET_OK, Some i)" "added A1 i c 0x5678 B"
      "addr_wf B" by auto
  have a: "addr ?r = addr_zero" "neighbor (nwk ?r) = demo_rx_nbt" "addr_short (mh_src_addr demo_mhr) = 0x5678"
    "ZB_FCF_GET_SRC_ADDRESSING_MODE (mh_frame_control demo_mhr) = ZB_ADDR_16BIT_DEV_OR_BROADCAST"
    by (simp_all add: demo_receiver_def demo_mhr_def addr_short_def htole16_def letoh16_def
        ZB_FCF_GET_SRC_ADDRESSING_MODE_def mac_consts)
  have i: "i < 101" using u(2) by (simp add: added_def)
  have "am_lock_cnt (addr_map A1 ! i) = am_lock_cnt (addr_map addr_zero ! i)"
    using compress_cases [OF l manuf_wf_zero c] by simp
  also have "\<dots> = 0" using i by (simp add: addr_zero_def zero_ent_def)
  finally have lk: "am_lock_cnt (addr_map B ! i) = 0" using u(2) by (simp add: added_def)
  have len: "length (addr_map B) = 101" using u(3) by simp
  obtain C where C: "zb_address_lock i B = Some C"
    using lk i len by (simp add: zb_address_lock_def)
  have "a2n_get demo_rx_nbt i = Some 255" using i by (simp add: a2n_get_def demo_rx_nbt_def)
  moreover have "base_neighbor_used demo_rx_nbt = 0" "base_neighbor_size demo_rx_nbt = 32"
    by (simp_all add: demo_rx_nbt_def zero_nbt_def)
  moreover obtain N1 where N1: "a2n_put i 0 demo_rx_nbt = Some N1" "base_neighbor N1 = replicate 32 (Some zero_nb)" "ext_neighbor N1 = None"
      "base_neighbor_used N1 = 0"
    using i by (simp add: a2n_put_def demo_rx_nbt_def zero_nbt_def)
  ultimately have "frame_neighbor demo_mhr demo_ext 0x5678 ?r
      = Some (upd_nbt (\<lambda>_. N1\<lparr>base_neighbor_used := 1, base_neighbor := (base_neighbor N1)[0 :=
            Some (zero_nb\<lparr>ne_used := True, ne_addr_ref := i, ne_relationship := ZB_NWK_RELATIONSHIP_NONE_OF_THE_ABOVE,
              ne_permit_joining := 2, ne_depth := ucast (nib_depth (nib (nwk ?r)))\<rparr>)], ext_ents := ext_ents N1\<rparr>)
          (?r\<lparr>addr := C\<rparr>), RET_OK, Some 0)"
    using u(1) C a by (simp add: frame_neighbor_def zb_nwk_neighbor_get_def Let_def nb_put_def)
  then show ?thesis by (auto simp: nb_get_def N1(2) zero_nb_def)
qed

lemma demo_receiver_fields:
  "aps_authenticated (aps (demo_receiver x))" "nib (nwk (demo_receiver x)) = demo_nib"
  "aget (bp_pool (bpool (demo_receiver x))) 0 = Some (demo_rx_buf x)" "sched (demo_receiver x) = sched demo_base"
  by (simp_all add: demo_receiver_def upd_aps_def)

lemma demo_mhr_length: "length (mhr_bytes demo_mhr) = unat (9 :: 8 word)"
  by (simp add: mhr_bytes_def addr_bytes_def demo_mhr_def Let_def mac_consts htole16_def
      ZB_FCF_GET_DST_ADDRESSING_MODE_def ZB_FCF_GET_SRC_ADDRESSING_MODE_def ZB_FCF_GET_PANID_COMPRESSION_BIT_def)

lemma demo_can_receive:
  assumes "length x \<le> 60"
  shows "\<exists>n. can_receive 0 (demo_rx_buf x) demo_mhr 9 demo_ext 0x5678 cnt 0 (replicate 16 0) n (demo_receiver x)"
proof -
  obtain g1 n e where f: "frame_neighbor demo_mhr demo_ext 0x5678 (demo_receiver x) = Some (g1, RET_OK, Some n)"
    "nb_get (neighbor (nwk g1)) n = Some e" "ne_incoming_frame_counter e = 0" "ne_key_seq_number e = 0"
    using demo_frame_neighbor by blast
  have "\<not> counter_bad (note_key 0 e) cnt" using note_key_again [of e 0] f(3,4) by (simp add: counter_bad_def)
  moreover have "secur_nwk_key_by_seq 0 demo_nib = Some (Some (replicate 16 0))"
    by (rule key_by_seq_active [OF demo_keys_wf]) simp
  moreover have "length x \<le> 88" using assms by simp
  ultimately show ?thesis
    unfolding can_receive_def using f(1,2) demo_receiver_fields demo_rx_buf_data [of x] demo_mhr_length assms
    by (intro exI [of _ n]) auto
qed

lemma demo_sender_key:
  "secur_nwk_key_by_seq 0 (demo_nib\<lparr>nib_outgoing_frame_counter := 1\<rparr>) = Some (Some (replicate 16 0))"
  by (rule key_by_seq_active) (simp_all add: keys_wf_def)

lemma demo_sender_fields:
  "aget (bp_pool (bpool demo_sender)) 0 = Some demo_tx_buf" "aget (bp_pool (bpool demo_sender)) 1 = Some demo_buf"
  "nib (nwk demo_sender) = demo_nib" "extended_address demo_sender = demo_ext" "\<not> is_tc demo_sender"
  "length (b_buf demo_buf) = 148" "length demo_ext = 8"
  by (simp_all add: demo_sender_def demo_buf_def demo_ext_def)

lemma zb_nwk_secure_unsecure_witness:
  "\<exists>g' dst' r' b' aux. zb_nwk_secure_frame 0 9 1 demo_sender = Some (g', RET_OK)
    \<and> aget (bp_pool (bpool g')) 1 = Some dst'
    \<and> zb_nwk_unsecure_frame 0 demo_mhr 9 (demo_receiver (drop 9 (buf_data dst'))) = Some (r', RET_OK)
    \<and> aget (bp_pool (bpool r')) 0 = Some b' \<and> length aux = 14 \<and> buf_data b' = demo_hdr @ aux @ [1, 2, 3]"
proof -
  note g = demo_sender_fields
  have k16: "length (replicate 16 (0 :: 8 word)) = 16" by (rule length_replicate)
  have ns: "(0 :: nat) \<noteq> 1" by simp
  have key: "secur_nwk_key_by_seq (nib_active_key_seq_number (nib (nwk demo_sender))) ((nib (nwk demo_sender))
      \<lparr>nib_outgoing_frame_counter := nib_outgoing_frame_counter (nib (nwk demo_sender)) + 1\<rparr>) = Some (Some (replicate 16 0))"
    using demo_sender_key by (simp add: g(3))
  have e: "length (extended_address demo_sender) = 8" using g(4,7) by simp
  obtain g' dst' where s: "zb_nwk_secure_frame 0 9 1 demo_sender = Some (g', RET_OK)" "aget (bp_pool (bpool g')) 1 = Some dst'"
      "length (buf_data dst') = 38"
    using secure_frame_spec [OF demo_ready g(1,2) ns g(6) key k16 e g(5)] g(7) demo_hdr_facts(1)
    by (auto simp: length_aux_bytes g(4))
  let ?x = "drop 9 (buf_data dst')"
  have lx: "length ?x \<le> 60" "length ?x \<le> 88" using s(3) by simp_all
  obtain n where c: "can_receive 0 (demo_rx_buf ?x) demo_mhr 9 demo_ext 0x5678 0 0 (replicate 16 0) n (demo_receiver ?x)"
    using demo_can_receive [OF lx(1)] by blast
  have c': "can_receive 0 (demo_rx_buf ?x) demo_mhr 9 (extended_address demo_sender) 0x5678
      (nib_outgoing_frame_counter (nib (nwk demo_sender))) (nib_active_key_seq_number (nib (nwk demo_sender)))
      (replicate 16 0) n (demo_receiver ?x)"
    using c by (simp add: g(3,4))
  from zb_nwk_secure_unsecure [OF demo_ready g(1,2) ns g(6,5) e k16 key demo_hdr_facts(4) c']
    s demo_rx_buf_data(2) [OF lx(2)]
  show ?thesis by auto
qed

definition demo_forged :: "zb_uint8_t list" where
  "demo_forged = demo_hdr @ aux_bytes 0 0xFFFF demo_ext 0 @ []"

lemma demo_forged_facts:
  "length demo_forged \<le> 60" "length demo_forged \<le> 88" "length demo_forged = 22"
  by (simp_all add: demo_forged_def demo_hdr_facts(1) length_aux_bytes demo_sender_fields(7))

lemma demo_forged_rejected:
  "\<exists>g'. zb_nwk_unsecure_frame 0 demo_mhr 9 (demo_receiver demo_forged) = Some (g', RET_ERROR)
    \<and> callbacks (sched g') = [status_cb 0, status_cb 0]"
proof -
  let ?b = "demo_rx_buf demo_forged"
  obtain n where c: "can_receive 0 ?b demo_mhr 9 demo_ext 0x5678 0xFFFF 0 (replicate 16 0) n (demo_receiver demo_forged)"
    using demo_can_receive [OF demo_forged_facts(1)] by blast
  have d: "buf_data ?b = demo_hdr @ aux_bytes 0 0xFFFF demo_ext 0 @ []"
    using demo_rx_buf_data(2) [OF demo_forged_facts(2)] by (simp add: demo_forged_def)
  have "sched_wf (sched (demo_receiver demo_forged))" "callbacks (sched (demo_receiver demo_forged)) = []"
    using demo_receiver_fields(4) by simp_all
  then show ?thesis
    using short_frame_result [OF c d demo_hdr_facts(2,3) demo_sender_fields(7)] by auto
qed

lemma short_frame_reported_twice_witness:
  "\<exists>g'. zb_nwk_unsecure_frame 0 demo_mhr 9 (demo_receiver demo_forged) = Some (g', RET_ERROR)
    \<and> callbacks (sched g') = [status_cb 0, status_cb 0]"
proof -
  let ?b = "demo_rx_buf demo_forged"
  obtain n where c: "can_receive 0 ?b demo_mhr 9 demo_ext 0x5678 0xFFFF 0 (replicate 16 0) n (demo_receiver demo_forged)"
    using demo_can_receive [OF demo_forged_facts(1)] by blast
  have d: "buf_data ?b = demo_hdr @ aux_bytes 0 0xFFFF demo_ext 0 @ []"
    using demo_rx_buf_data(2) [OF demo_forged_facts(2)] by (simp add: demo_forged_def)
  have "sched_wf (sched (demo_receiver demo_forged))" "callbacks (sched (demo_receiver demo_forged)) = []"
    using demo_receiver_fields(4) by simp_all
  then show ?thesis
    using short_frame_reported_twice [OF c d demo_hdr_facts(2,3) demo_sender_fields(7)] by auto
qed

lemma forged_frame_moves_counter_witness:
  "\<exists>g' n e. zb_nwk_unsecure_frame 0 demo_mhr 9 (demo_receiver demo_forged) = Some (g', RET_ERROR)
    \<and> nb_get (neighbor (nwk g')) n = Some e \<and> ne_incoming_frame_counter e = 0xFFFF
    \<and> (\<nexists>g'' key. check_counter 0 demo_mhr n 0 5 g' = Some (g'', Some key))"
proof -
  let ?b = "demo_rx_buf demo_forged"
  obtain n where c: "can_receive 0 ?b demo_mhr 9 demo_ext 0x5678 0xFFFF 0 (replicate 16 0) n (demo_receiver demo_forged)"
    using demo_can_receive [OF demo_forged_facts(1)] by blast
  have d: "buf_data ?b = demo_hdr @ aux_bytes 0 0xFFFF demo_ext 0 @ []"
    using demo_rx_buf_data(2) [OF demo_forged_facts(2)] by (simp add: demo_forged_def)
  obtain g' where g': "zb_nwk_unsecure_frame 0 demo_mhr 9 (demo_receiver demo_forged) = Some (g', RET_ERROR)"
    using demo_forged_rejected by blast
  have "RET_ERROR \<noteq> RET_OK" by simp
  from forged_frame_moves_counter [OF c d demo_hdr_facts(2,3) demo_sender_fields(7) g' this]
  have f: "(\<exists>e. nb_get (neighbor (nwk g')) n = Some e \<and> ne_incoming_frame_counter e = 0xFFFF)"
    "\<And>g'' k. (5 :: zb_uint32_t) < 0xFFFF \<and> check_counter 0 demo_mhr n 0 5 g' = Some (g'', k) \<Longrightarrow> k = None" by blast+
  have "(5 :: zb_uint32_t) < 0xFFFF" by simp
  then show ?thesis using g' f by blast
qed

lemma check_counter_replay_witness:
  "\<exists>g1 n g2 g3 key. frame_neighbor demo_mhr demo_ext 0x5678 (demo_receiver []) = Some (g1, RET_OK, Some n)
    \<and> check_counter 0 demo_mhr n 0 7 g1 = Some (g2, Some key) \<and> check_counter 3 demo_mhr n 0 7 g2 = Some (g3, Some key)"
proof -
  obtain g1 n e where f: "frame_neighbor demo_mhr demo_ext 0x5678 (demo_receiver []) = Some (g1, RET_OK, Some n)"
    "nb_get (neighbor (nwk g1)) n = Some e" "ne_incoming_frame_counter e = 0" "ne_key_seq_number e = 0"
    using demo_frame_neighbor by blast
  have n: "nib (nwk g1) = demo_nib" using frame_neighbor_state [OF f(1)] demo_receiver_fields(2) [of "[]"] by auto
  have b: "\<not> counter_bad (note_key 0 e) 7" using note_key_again [of e 0] f(3,4) by (simp add: counter_bad_def)
  have "secur_nwk_key_by_seq 0 (nib (nwk g1)) = Some (Some (replicate 16 0))"
    unfolding n by (rule key_by_seq_active [OF demo_keys_wf]) simp
  from check_counter_accept [OF f(2) this b] obtain g2 where
    g2: "check_counter 0 demo_mhr n 0 7 g1 = Some (g2, Some (replicate 16 0))" by blast
  have "(7 :: zb_uint32_t) \<noteq> -1" by simp
  from check_counter_replay [OF g2 this, of 3] show ?thesis using f(1) g2 by blast
qed

end
