(* ===== verification/Zb_Nwk_Mesh_Demo.thy ===== *)
theory Zb_Nwk_Mesh_Demo
  imports Zb_Nwk_Mesh_Runs Zb_Secur_Demo
begin

text \<open>
  Concrete devices for the properties of the mesh: a device with a link cost that is constant, one used
  buffer, and tables with given routes, discoveries and waiting packets.
\<close>

section \<open>Devices\<close>

definition demo_rt :: "zb_uint16_t \<Rightarrow> zb_nwk_route_state \<Rightarrow> zb_nwk_routing" where
  "demo_rt d s = \<lparr>rt_used = True, rt_status = s, rt_no_route_cache = False, rt_many_to_one = False,
     rt_route_record_required = False, rt_group_id_flag = False, rt_dest_addr = d, rt_next_hop_addr = 0\<rparr>"

definition demo_disc :: "zb_uint8_t \<Rightarrow> zb_uint16_t \<Rightarrow> zb_uint16_t \<Rightarrow> zb_nwk_route_discovery" where
  "demo_disc i d t = \<lparr>rd_used = True, rd_request_id = i, rd_source_addr = 0, rd_sender_addr = 0, rd_dest_addr = d,
     rd_forward_cost = 0, rd_residual_cost = 0xff, rd_expiration_time = t\<rparr>"

definition demo_pend :: "zb_uint16_t \<Rightarrow> zb_nwk_pend" where
  "demo_pend d = \<lparr>pe_used = True, pe_buf = 3, pe_handle = 9, pe_dest_addr = d, pe_expiry = 20, pe_waiting_buf = False\<rparr>"

definition free_rt :: zb_nwk_routing where "free_rt = (demo_rt 0 ZB_NWK_ROUTE_STATE_ACTIVE)\<lparr>rt_used := False\<rparr>"

definition free_disc :: zb_nwk_route_discovery where "free_disc = (demo_disc 0 0 0)\<lparr>rd_used := False\<rparr>"

definition free_pend :: zb_nwk_pend where "free_pend = (demo_pend 0)\<lparr>pe_used := False\<rparr>"

definition fill5 :: "'a \<Rightarrow> 'a list \<Rightarrow> 'a list" where
  "fill5 e xs = xs @ replicate (5 - length xs) e"

definition mesh_nib :: "zb_nwk_routing list \<Rightarrow> zb_nwk_route_discovery list \<Rightarrow> zb_nwk_pend list \<Rightarrow> zb_uint16_t \<Rightarrow> zb_nib" where
  "mesh_nib rts ds ps a = demo_nib\<lparr>nib_routing_table := fill5 free_rt rts, nib_routing_table_cnt := length rts,
     nib_route_disc_table := fill5 free_disc ds, nib_route_disc_table_cnt := length ds,
     nib_pending_table := fill5 free_pend ps, nib_pending_table_cnt := length ps,
     nib_nwk_report_constant_cost := True, nib_aps_rreq_addr := a\<rparr>"

definition mesh_dev :: "zb_nwk_routing list \<Rightarrow> zb_nwk_route_discovery list \<Rightarrow> zb_nwk_pend list \<Rightarrow> zb_uint16_t \<Rightarrow> zb_globals_s" where
  "mesh_dev rts ds ps a = (upd_nib (\<lambda>_. mesh_nib rts ds ps a) demo_s)\<lparr>bpool := bpool demo_used\<rparr>"

lemma mesh_dev_fields [simp]:
  "nib (nwk (mesh_dev rts ds ps a)) = mesh_nib rts ds ps a" "sched (mesh_dev rts ds ps a) = sched demo_base"
  "bpool (mesh_dev rts ds ps a) = bpool demo_used" "pib (mesh_dev rts ds ps a) = pib demo_n"
  "neighbor (nwk (mesh_dev rts ds ps a)) = zero_nbt"
  by (simp_all add: mesh_dev_def upd_nib_def demo_n_def demo_a_def demo_s_def zb_globals_n.extend_def zb_globals_s.fields_def)

lemma mesh_nib_fields [simp]:
  "nib_routing_table (mesh_nib rts ds ps a) = fill5 free_rt rts" "nib_routing_table_cnt (mesh_nib rts ds ps a) = length rts"
  "nib_route_disc_table (mesh_nib rts ds ps a) = fill5 free_disc ds" "nib_route_disc_table_cnt (mesh_nib rts ds ps a) = length ds"
  "nib_pending_table (mesh_nib rts ds ps a) = fill5 free_pend ps" "nib_pending_table_cnt (mesh_nib rts ds ps a) = length ps"
  "nib_nwk_report_constant_cost (mesh_nib rts ds ps a)" "nib_aps_rreq_addr (mesh_nib rts ds ps a) = a"
  by (simp_all add: mesh_nib_def)

lemma fill5_facts:
  "length xs \<le> 5 \<Longrightarrow> length (fill5 e xs) = 5" "\<not> u e \<Longrightarrow> filter u (fill5 e xs) = filter u xs"
  "(\<forall>x\<in>set (fill5 e xs). P x) \<longleftrightarrow> (\<forall>x\<in>set xs. P x) \<and> (length xs < 5 \<longrightarrow> P e)"
  by (auto simp: fill5_def)

lemma mesh_dev_ok:
  assumes "length rts \<le> 5" "length ds \<le> 5" "length ps \<le> 5" "\<forall>e\<in>set rts. rt_used e \<and> route_state_ok e"
    "\<forall>e\<in>set ds. rd_used e \<and> rd_expiration_time e \<le> 10" "\<forall>e\<in>set ps. pe_used e"
  shows "mesh_wf (mesh_nib rts ds ps a)"
proof -
  have "\<not> rt_used free_rt" "\<not> rd_used free_disc" "\<not> pe_used free_pend" "rd_expiration_time free_disc = 0"
    by (simp_all add: free_rt_def free_disc_def free_pend_def demo_disc_def)
  moreover have "filter rt_used rts = rts" "filter rd_used ds = ds" "filter pe_used ps = ps" using assms(4-6) by (simp_all add: filter_id_conv)
  ultimately show ?thesis
    using assms by (simp add: mesh_wf_def tbl_ok_def fill5_facts route_state_ok_def)
qed

lemma mesh_dev_pool:
  "base_wf (mesh_dev rts ds ps a)" "buf_in_use 0 (bpool demo_used)" "b_is_in_buf (bp_pool (bpool demo_used) ! 0) = False"
  "dir_waiters d (sched demo_base) = []"
  using demo_used_wf by (simp_all add: base_wf_def)

lemma mesh_dev_buf: "get_buf 0 (mesh_dev rts ds ps a) = Some ((buf_bzero_hdr zero_buf)\<lparr>b_is_in_buf := False\<rparr>)"
proof -
  have r: "pool_rep (bpool demo_base) [0..<16]" using init_buffers_rep by (simp add: demo_base_def)
  have p: "bp_pool (bpool demo_base) = replicate 16 zero_buf" by (simp add: demo_base_def zb_init_buffers_def pool_zero_def)
  have "bufs_allocated (bpool demo_base) ! of_bool False < 8" by simp
  from get_buf_ok [OF r this] obtain bp' where
    "zb_get_buf False (bpool demo_base) = Some (bp', Some 0)"
    "bp_pool bp' = (bp_pool (bpool demo_base))[0 := (buf_bzero_hdr (bp_pool (bpool demo_base) ! 0))\<lparr>b_is_in_buf := False\<rparr>]"
    by (metis list.sel(1) list.sel(3) upt_rec zero_less_numeral)
  then show ?thesis unfolding get_buf_def mesh_dev_fields by (simp add: demo_used_def p aget_def)
qed

lemma mesh_dev_source: "nwk_get_mac_source_addr 0 (mesh_dev rts ds ps a) = Some 0"
  by (simp add: nwk_get_mac_source_addr_def mesh_dev_buf buf_bzero_hdr_def zero_buf_def) (simp add: demo_n_def)

lemma mesh_dev_cost: "NWK_CALC_PATH_COST s (mesh_dev rts ds ps a) = Some (mesh_dev rts ds ps a, 7)"
  by (simp add: NWK_CALC_PATH_COST_def ZB_NWK_STATIC_PATH_COST_def)

lemma NWK_CALC_PATH_COST_bounds_witness:
  "\<exists>g' c. NWK_CALC_PATH_COST 5 (mesh_dev [] [] [] 0) = Some (g', c) \<and> c = 7"
  using NWK_CALC_PATH_COST_bounds [OF mesh_dev_cost [of 5 "[]" "[]" "[]" 0]] mesh_dev_cost by simp

section \<open>A reply\<close>

definition demo_reply :: zb_nwk_cmd_rrep where
  "demo_reply = \<lparr>rp_rreq_id = 1, rp_originator = 0, rp_responder = 5, rp_path_cost = 2\<rparr>"

text \<open>A reply without a route: the discovery is given up.\<close>

lemma mesh_tables_stay_consistent_witness:
  "\<exists>g'. zb_nwk_mesh_rrep_handler 0 \<lparr>nh_src_addr = 5, nh_radius = 3, nh_seq_num = 1\<rparr> demo_reply (mesh_dev [] [demo_disc 1 5 3] [] 0) = Some g'
    \<and> mesh_wf (nib (nwk g'))"
proof -
  let ?g = "mesh_dev [] [demo_disc 1 5 3] [] 0" and ?hdr = "\<lparr>nh_src_addr = 5, nh_radius = 3, nh_seq_num = 1\<rparr>"
  have w: "mesh_wf (nib (nwk ?g))" using mesh_dev_ok [of "[]" "[demo_disc 1 5 3]" "[]" 0] by (simp add: demo_disc_def)
  have e: "rrep_entries demo_reply (nib (nwk ?g)) = (Some 0, None)"
    by (simp add: rrep_entries_def demo_reply_def find_disc_def find_route_def NWK_ARRAY_FIND_ENT_def fill5_def
      demo_disc_def free_rt_def upt_conv_Cons)
  have "base_wf (upd_nib (put_disc 0) ?g)" using mesh_dev_pool(1) by (simp add: base_wf_def upd_nib_def)
  then obtain g' where "zb_free_buf 0 (upd_nib (put_disc 0) ?g) = Some g'"
    using free_buf_spec [OF _ _ refl, of "upd_nib (put_disc 0) ?g" 0] mesh_dev_pool(2) by (auto simp: upd_nib_def)
  then have r: "zb_nwk_mesh_rrep_handler 0 ?hdr demo_reply ?g = Some g'"
    using e by (simp add: zb_nwk_mesh_rrep_handler_def mesh_dev_source mesh_dev_cost Let_def)
  then have "mesh_step ?g g'" by (rule mesh_step.Rrep)
  then show ?thesis using mesh_tables_stay_consistent [OF r_into_rtranclp w] r by blast
qed

definition waiting_dev :: zb_globals_s where
  "waiting_dev = mesh_dev [demo_rt 5 ZB_NWK_ROUTE_STATE_DISCOVERY_UNDERWAY] [demo_disc 1 5 3] [demo_pend 7, demo_pend 5] 5"

lemma waiting_dev_facts:
  "reply_taken 0 \<lparr>nh_src_addr = 5, nh_radius = 3, nh_seq_num = 1\<rparr> demo_reply 0 0 waiting_dev" "reply_room 0 waiting_dev"
  "rp_originator demo_reply = mac_short_address (pib waiting_dev)" "callbacks (sched waiting_dev) = []"
  "filter (waits_for 5) (nib_pending_table (nib (nwk waiting_dev))) = [demo_pend 5]"
  "nib_aps_rreq_addr (nib (nwk waiting_dev)) = rp_responder demo_reply"
  "dir_waiters (b_is_in_buf (bp_pool (bpool waiting_dev) ! 0)) (sched waiting_dev) = []"
proof -
  have w: "mesh_wf (nib (nwk waiting_dev))"
    unfolding waiting_dev_def mesh_dev_fields by (rule mesh_dev_ok) (simp_all add: demo_rt_def demo_disc_def demo_pend_def route_state_ok_def)
  have e: "rrep_entries demo_reply (nib (nwk waiting_dev)) = (Some 0, Some 0)"
    by (simp add: rrep_entries_def demo_reply_def waiting_dev_def find_disc_def find_route_def NWK_ARRAY_FIND_ENT_def fill5_def
      demo_disc_def demo_rt_def upt_conv_Cons)
  show "reply_taken 0 \<lparr>nh_src_addr = 5, nh_radius = 3, nh_seq_num = 1\<rparr> demo_reply 0 0 waiting_dev"
    using e by (simp add: reply_taken_def waiting_dev_def mesh_dev_source mesh_dev_cost) (simp add: fill5_def demo_disc_def demo_reply_def)
  have "get_buf 0 waiting_dev = Some ((buf_bzero_hdr zero_buf)\<lparr>b_is_in_buf := False\<rparr>)" by (simp add: waiting_dev_def mesh_dev_buf)
  then have "length (b_buf (bp_pool (bpool waiting_dev) ! 0)) = 148"
    by (auto simp: get_buf_def aget_def buf_bzero_hdr_def zero_buf_def ZB_IO_BUF_SIZE_def split: if_splits)
  then show "reply_room 0 waiting_dev"
    using w mesh_dev_pool unfolding reply_room_def waiting_dev_def
    by (simp add: fill5_facts) (simp add: demo_pend_def free_pend_def)
qed (simp_all add: waiting_dev_def demo_reply_def demo_n_def fill5_def waits_for_def demo_pend_def free_pend_def mesh_dev_pool)

lemma route_reply_releases_packets_witness:
  "\<exists>g' rest. zb_nwk_mesh_rrep_handler 0 \<lparr>nh_src_addr = 5, nh_radius = 3, nh_seq_num = 1\<rparr> demo_reply waiting_dev = Some g'
    \<and> callbacks (sched g') = forward_cb 3 # rest"
  using route_reply_releases_packets [OF waiting_dev_facts(1-3)] waiting_dev_facts(4,5)
  by (auto simp: demo_reply_def demo_pend_def)

lemma route_reply_confirm_in_freed_buffer_witness:
  "\<exists>g'. zb_nwk_mesh_rrep_handler 0 \<lparr>nh_src_addr = 5, nh_radius = 3, nh_seq_num = 1\<rparr> demo_reply waiting_dev = Some g'
    \<and> \<not> buf_in_use 0 (bpool g') \<and> \<lparr>cb_func = Cb_zb_nlme_route_discovery_confirm, cb_param = 0\<rparr> \<in> set (callbacks (sched g'))"
  using route_reply_confirm_in_freed_buffer [OF waiting_dev_facts(1-3,6,7)] by simp

section \<open>Full tables and expired entries\<close>

lemma full_discovery_table_frees_active_route_witness:
  "\<exists>g'. zb_nwk_mesh_rreq_handler 0 \<lparr>nh_src_addr = 9, nh_radius = 3, nh_seq_num = 1\<rparr>
      \<lparr>rq_rreq_id = 4, rq_dest_addr = 5, rq_path_cost = 0\<rparr>
      (mesh_dev [demo_rt 5 ZB_NWK_ROUTE_STATE_ACTIVE] (replicate 5 (demo_disc 1 6 3)) [] 0) = Some g'
    \<and> \<not> rt_used (nib_routing_table (nib (nwk g')) ! 0)"
proof (rule full_discovery_table_frees_active_route)
  let ?g = "mesh_dev [demo_rt 5 ZB_NWK_ROUTE_STATE_ACTIVE] (replicate 5 (demo_disc 1 6 3)) [] 0"
  show "mesh_ok ?g" unfolding mesh_dev_fields by (rule mesh_dev_ok) (simp_all add: demo_rt_def demo_disc_def route_state_ok_def)
  show "NWK_CALC_PATH_COST (nh_src_addr \<lparr>nh_src_addr = 9, nh_radius = 3, nh_seq_num = 1\<rparr>) ?g = Some (?g, 7)" by (rule mesh_dev_cost)
qed (simp_all add: mesh_dev_pool zb_nwk_mesh_find_route_def find_disc_def find_route_def NWK_ARRAY_FIND_ENT_def fill5_def
    demo_disc_def demo_rt_def upt_conv_Cons)

lemma expired_discovery_frees_another_route_witness:
  "\<exists>g'. zb_nwk_mesh_expiry_route_disc (mesh_dev [demo_rt 9 ZB_NWK_ROUTE_STATE_ACTIVE, demo_rt 6 ZB_NWK_ROUTE_STATE_DISCOVERY_UNDERWAY,
      demo_rt 5 ZB_NWK_ROUTE_STATE_DISCOVERY_UNDERWAY] [demo_disc 1 5 0, demo_disc 2 6 8] [] 0) = Some g'
    \<and> \<not> rt_used (nib_routing_table (nib (nwk g')) ! 1) \<and> rt_used (nib_routing_table (nib (nwk g')) ! 2)"
proof -
  let ?g = "mesh_dev [demo_rt 9 ZB_NWK_ROUTE_STATE_ACTIVE, demo_rt 6 ZB_NWK_ROUTE_STATE_DISCOVERY_UNDERWAY,
      demo_rt 5 ZB_NWK_ROUTE_STATE_DISCOVERY_UNDERWAY] [demo_disc 1 5 0, demo_disc 2 6 8] [] 0"
  have w: "mesh_ok ?g" unfolding mesh_dev_fields by (rule mesh_dev_ok) (simp_all add: demo_rt_def demo_disc_def route_state_ok_def)
  have r: "expired_route (nib (nwk ?g)) = Some 1"
    by (simp add: expired_route_def fill5_def demo_disc_def demo_rt_def upt_conv_Cons)
  have "\<exists>g'. zb_nwk_mesh_expiry_route_disc ?g = Some g' \<and> \<not> rt_used (nib_routing_table (nib (nwk g')) ! 1)
    \<and> nib_route_disc_table (nib (nwk g')) ! 1 = nib_route_disc_table (nib (nwk ?g)) ! 1
    \<and> (\<forall>i. rt_dest_addr (nib_routing_table (nib (nwk ?g)) ! i) = rd_dest_addr (nib_route_disc_table (nib (nwk ?g)) ! 0)
        \<longrightarrow> nib_routing_table (nib (nwk g')) ! i = nib_routing_table (nib (nwk ?g)) ! i)"
    by (rule expired_discovery_frees_another_route [OF w mesh_dev_pool(1) _ _ _ _ r]) (simp_all add: fill5_def demo_disc_def)
  moreover have "rt_dest_addr (nib_routing_table (nib (nwk ?g)) ! 2) = rd_dest_addr (nib_route_disc_table (nib (nwk ?g)) ! 0)"
    "rt_used (nib_routing_table (nib (nwk ?g)) ! 2)" by (simp_all add: fill5_def demo_disc_def demo_rt_def)
  ultimately show ?thesis by metis
qed

section \<open>The next hop\<close>

text \<open>A zeroed packet, which asks for no discovery, to an unknown device.\<close>

lemma nwk_calc_destination_never_tree_witness:
  "\<exists>g' ret a ind. nwk_calc_destination 0 1 (mesh_dev [] [] [] 0) = Some (g', ret, a, ind, Some ZB_NWK_COMMAND_STATUS_NO_ROUTING_CAPACITY)
    \<and> Some ZB_NWK_COMMAND_STATUS_NO_ROUTING_CAPACITY \<noteq> Some ZB_NWK_COMMAND_STATUS_TREE_LINK_FAILURE"
proof -
  let ?g = "mesh_dev [] [] [] 0"
  have w: "mesh_ok ?g" unfolding mesh_dev_fields by (rule mesh_dev_ok) simp_all
  have A: "addr ?g = addr_zero" by (simp add: mesh_dev_def upd_nib_def)
  obtain b where b: "get_buf 0 ?g = Some b" "rd8 (b_buf b) 0 = Some 0" "rd8 (b_buf b) (Suc 0) = Some 0"
    "rd16 (b_buf b) (Suc (Suc 0)) = Some 0" "ZB_BUF_BEGIN b = 0"
    by (simp add: mesh_dev_buf buf_bzero_hdr_def zero_buf_def ZB_IO_BUF_SIZE_def rd8_def rd16_def aget_def ZB_BUF_BEGIN_def letoh16_def)
  have f: "short_search 0 addr_zero = Some None"
    using short_search_ref [OF addr_wf_zero, of 0] zero_no_entries(1) by (simp add: ref_of_short_def find_None_iff)
  have n: "dest_neighbor (b_buf b) 0 0 ?g = Some (?g, None)"
    using b f A by (simp add: dest_neighbor_def zb_address_by_short_def lock_if_def fctl_get_defs)
  have t: "nib_device_type (nib (nwk ?g)) = ucast ZB_NWK_DEVICE_TYPE_ROUTER" by (simp add: mesh_nib_def demo_nib_def)
  have "nwk_calc_destination 0 1 ?g = Some (?g, RET_ERROR, 0, False, Some ZB_NWK_COMMAND_STATUS_NO_ROUTING_CAPACITY)"
    using n b t by (simp add: nwk_calc_destination_def route_destination_def fctl_get_defs ZB_NWK_IS_ADDRESS_BROADCAST_def Let_def
      ZB_NWK_DEVICE_TYPE_ROUTER_def ZB_NWK_DEVICE_TYPE_ED_def)
  then show ?thesis using nwk_calc_destination_never_tree [OF w] by blast
qed

end
