(* ===== verification/Zb_Nwk_Main_Demo.thy ===== *)
theory Zb_Nwk_Main_Demo
  imports Zb_Nwk_Main_Runs Zb_Nwk_Mesh_Demo
begin

text \<open>
  A router with empty tables that has received a frame in buffer 0, for the properties of the way of a packet.
\<close>

section \<open>A frame from device 5 with sequence number 33\<close>

definition demo_frame :: "zb_uint16_t \<Rightarrow> zb_uint8_t list" where
  "demo_frame dst = [0x41, 0x88, 7, 0xaa, 0x1a, 0xff, 0xff, 5, 0]
     @ [0x08, 0] @ htole16 dst @ htole16 5 @ [1, 33] @ [0x55] @ replicate 11 0"

definition demo_rx :: "zb_uint16_t \<Rightarrow> zb_buf" where
  "demo_rx dst = (buf_bzero_hdr zero_buf)\<lparr>b_len := 29, b_buf := demo_frame dst @ replicate 119 0\<rparr>"

definition rx_mhr :: zb_mac_mhr where
  "rx_mhr = fst (the (zb_parse_mhr (demo_frame 0) 0))"

definition demo_pkt :: "zb_uint16_t \<Rightarrow> zb_buf" where
  "demo_pkt dst = (demo_rx dst)\<lparr>b_len := 9, b_data_offset := 9\<rparr>"

lemma demo_rx_cut:
  "ZB_MAC_GET_LQI (demo_rx 0xffff) = Some 0" "ZB_MAC_GET_LQI (demo_rx 0) = Some 0"
  "zb_parse_mhr (b_buf (demo_rx 0xffff)) (ZB_BUF_BEGIN (demo_rx 0xffff)) = Some (rx_mhr, 9)"
  "zb_parse_mhr (b_buf (demo_rx 0)) (ZB_BUF_BEGIN (demo_rx 0)) = Some (rx_mhr, 9)"
  "ZB_MAC_CUT_HDR 9 (demo_rx 0xffff) = Some (demo_pkt 0xffff)" "ZB_MAC_CUT_HDR 9 (demo_rx 0) = Some (demo_pkt 0)"
  by code_simp+

lemma rx_mhr_facts:
  "ZB_FCF_GET_SRC_ADDRESSING_MODE (mh_frame_control rx_mhr) = ZB_ADDR_16BIT_DEV_OR_BROADCAST"
  "addr_short (mh_src_addr rx_mhr) = 5"
  by code_simp+

definition pkt_fields :: "zb_buf \<Rightarrow> zb_uint16_t option \<times> zb_uint16_t option \<times> zb_uint8_t option \<times> zb_uint8_t option
    \<times> zb_uint8_t option \<times> zb_uint8_t option" where
  "pkt_fields p = (let q = ZB_BUF_BEGIN p in (rd16 (b_buf p) (q + 2), rd16 (b_buf p) (q + 4), rd8 (b_buf p) (q + 6),
     rd8 (b_buf p) (q + 7), rd8 (b_buf p) q, rd8 (b_buf p) (q + 1)))"

lemma demo_pkt_fields:
  "pkt_fields (demo_pkt 0xffff) = (Some 0xffff, Some 5, Some 1, Some 33, Some 8, Some 0)"
  "pkt_fields (demo_pkt 0) = (Some 0, Some 5, Some 1, Some 33, Some 8, Some 0)"
  by code_simp+

text \<open>The frame in buffer 0 of a device.\<close>

definition demo_rxd :: "zb_uint16_t \<Rightarrow> zb_globals_s \<Rightarrow> zb_globals_s" where
  "demo_rxd dst g = put_buf 0 (demo_rx dst) g"

lemma get_demo [simp]: "get_buf 0 g \<noteq> None \<Longrightarrow> get_buf 0 (put_buf 0 p g) = Some p"
  by (auto simp: get_put_buf)

lemma put_put_buf [simp]: "put_buf b p (put_buf b q g) = put_buf b p g"
  by (simp add: put_buf_def)

lemma demo_arrived:
  assumes "get_buf 0 g \<noteq> None" "d = 0xffff \<or> d = 0"
  shows "cut_mac 0 (demo_rxd d g) = Some (rx_mhr, 9, put_buf 0 (demo_pkt d) g)"
    "hdr_control 0 (put_buf 0 (demo_pkt d) g) = Some (8, 0)" "hdr_radius 0 (put_buf 0 (demo_pkt d) g) = Some 1"
    "hdr_dst 0 (put_buf 0 (demo_pkt d) g) = Some d" "hdr_src 0 (put_buf 0 (demo_pkt d) g) = Some 5"
    "hdr_seq 0 (put_buf 0 (demo_pkt d) g) = Some 33"
  using assms demo_rx_cut demo_pkt_fields
  by (auto simp: cut_mac_def demo_rxd_def hdr_control_def hdr_radius_def hdr_dst_def hdr_src_def hdr_seq_def pkt_fields_def Let_def)

lemma demo_frame_ok: "frame_ok (8, 0) 1" "ZB_NWK_IS_ADDRESS_BROADCAST 0xffff" "\<not> ZB_NWK_IS_ADDRESS_BROADCAST 0"
  "ZB_NWK_FRAMECTL_GET_SECURITY (8, 0) = 0"
  by code_simp+

section \<open>Tables\<close>

definition btr_of :: "bool \<Rightarrow> zb_nwk_btr" where
  "btr_of u = \<lparr>bt_used = u, bt_expiration_time = 3, bt_source_addr = 0, bt_sequence_number = 0\<rparr>"

definition brr_of :: "bool \<Rightarrow> zb_nwk_broadcast_retransmit" where
  "brr_of u = \<lparr>br_used = u, br_wait_conf = False, br_retries = 0, br_buf = 0, br_neighbor_table_iterator = 0,
     br_next_retransmit = 0, br_src_addr = 5, br_dst_addr = 0xffff, br_seq_num = 33, 
     br_passive_ack = replicate ZB_NWK_BRCST_PASSIVE_ACK_ARRAY_SIZE 0\<rparr>"

text \<open>A table with one record of another broadcast and, if \<open>u\<close>, with one retransmission of the frame above.\<close>

definition demo_tbl :: "bool \<Rightarrow> zb_nwk_bcast" where
  "demo_tbl u = \<lparr>btt = btr_of True # replicate 15 (btr_of False), btt_cnt = 1, brrt = brr_of u # replicate 7 (brr_of False),
     brrt_cnt = of_bool u,
     wait_alloc = replicate 5 \<lparr>wa_used = False, wa_wait = ZB_NWK_WAIT_REASON_IND_AND_RETRANSMIT, wa_buf = 0\<rparr>,
     wait_alloc_cnt = 0, joined_pro = False, mac_rx_on_when_idle = True, status_ind = 0, status_addr = 0\<rparr>"

lemma less_split: "(\<forall>i<16. P i) \<longleftrightarrow> P 0 \<and> (\<forall>i<15. P (Suc i))" for P :: "nat \<Rightarrow> bool"
  by (simp add: eval_nat_numeral All_less_Suc2)

lemma demo_tbl_wf: "bcast_wf (demo_tbl u)"
proof -
  have "btt_wf (demo_tbl u)" by (simp add: btt_wf_def tbl_ok_def demo_tbl_def btr_of_def less_split ZB_NWK_BROADCAST_DELIVERY_TIME_def)
  moreover have "brrt_wf (demo_tbl u)" by (cases u) (auto simp: brrt_wf_def tbl_ok_def demo_tbl_def brr_of_def nth_Cons')
  moreover have "wait_wf (demo_tbl u)" by (simp add: wait_wf_def demo_tbl_def)
  ultimately show ?thesis by (simp add: bcast_wf_def)
qed

definition demo_tbl1 :: zb_nwk_bcast where "demo_tbl1 = the (add_btr 5 33 (demo_tbl False))"

lemma demo_tbl_facts:
  "find_btr 5 33 (demo_tbl u) = None" "add_btr 5 33 (demo_tbl False) = Some demo_tbl1" "btt_cnt demo_tbl1 = 2"
  "find_btr 5 33 demo_tbl1 \<noteq> None" "\<not> joined_pro (demo_tbl u)" "\<not> joined_pro demo_tbl1"
  "find_brr (\<lambda>e. br_src_addr e = 5 \<and> br_seq_num e = 33) (demo_tbl False) = None"
  "find_brr (\<lambda>e. br_src_addr e = 5 \<and> br_seq_num e = 33) demo_tbl1 = None"
  "find_brr (\<lambda>e. br_src_addr e = 5 \<and> br_seq_num e = 33) (demo_tbl True) = Some 0"
  "broadcast_supported 0xffff (demo_tbl u)" "broadcast_supported 0xffff demo_tbl1" "btt_cnt (demo_tbl u) = 1"
  by (cases u; code_simp)+

lemma demo_tbl_new: "btr_age (demo_tbl u) (5, 33) = None"
  using demo_tbl_facts(1) by (simp add: btr_age_None_iff)

section \<open>The frame is received\<close>

abbreviation router :: zb_globals_s where "router \<equiv> mesh_dev [] [] [] 0"

lemma router_buf: "get_buf 0 router \<noteq> None"
  by (simp add: mesh_dev_buf)

lemma router_short_search: "zb_nwk_neighbor_get_by_short 5 (g\<lparr>addr := addr_zero\<rparr>) = Some (g\<lparr>addr := addr_zero\<rparr>, RET_NOT_FOUND, None)"
proof -
  have "short_search 5 addr_zero = Some None" by (simp add: short_search_def addr_zero_def)
  then show ?thesis by (simp add: zb_nwk_neighbor_get_by_short_def zb_address_by_short_def lock_if_def Let_def ret_neq)
qed

lemma router_addr: "put_buf 0 p router = (put_buf 0 p router)\<lparr>addr := addr_zero\<rparr>"
  by (simp add: put_buf_def mesh_dev_def upd_nib_def demo_s_def zb_globals_n.extend_def zb_globals_s.fields_def demo_n_def demo_a_def)

lemma put_buf_pib [simp]: "pib (put_buf i p g) = pib g" "sched (put_buf i p g) = sched g"
  for g :: "'a zb_globals_s_scheme"
  by (simp_all add: put_buf_def)

text \<open>The packet with its radius lowered.\<close>

definition demo_low :: "zb_uint16_t \<Rightarrow> zb_buf" where
  "demo_low d = (demo_pkt d)\<lparr>b_buf := (b_buf (demo_pkt d))[ZB_BUF_BEGIN (demo_pkt d) + 6 := 0]\<rparr>"

lemma demo_low_fields:
  "rd8 (b_buf (demo_low 0xffff)) (ZB_BUF_BEGIN (demo_low 0xffff) + zb_nwk_hdr_size (8, 0)) = Some 0x55"
  "rd8 (b_buf (demo_low 0)) (ZB_BUF_BEGIN (demo_low 0) + zb_nwk_hdr_size (8, 0)) = Some 0x55"
  "rd8 (b_buf (demo_low 0xffff)) (ZB_BUF_BEGIN (demo_low 0xffff) + 6) = Some 0"
  "rd8 (b_buf (demo_low 0)) (ZB_BUF_BEGIN (demo_low 0) + 6) = Some 0"
  by code_simp+

lemma demo_receive:
  assumes d: "d = 0xffff \<or> d = 0"
  shows "\<exists>g'. receive_frame rx_mhr 9 0 (8, 0) d 5 (put_buf 0 (demo_pkt d) router, t) = Some (g', t)"
proof -
  let ?g = "put_buf 0 (demo_pkt d) router"
  let ?p = "demo_low d"
  note a = demo_arrived [OF router_buf d]
  have u: "update_hdr 0 d 5 ?g = Some (put_buf 0 ?p router)"
    using update_hdr_eq [OF get_demo [OF router_buf] a(4,5,3)] by (simp add: demo_low_def)
  have p: "get_buf 0 (put_buf 0 ?p router) = Some ?p" using router_buf by (rule get_demo)
  have c: "ZB_NWK_CMD_FRAME_GET_CMD_ID 0 (zb_nwk_hdr_size (8, 0)) (put_buf 0 ?p router) = Some 0x55"
    and r: "hdr_radius 0 (put_buf 0 ?p router) = Some 0"
    using d p demo_low_fields by (auto simp: ZB_NWK_CMD_FRAME_GET_CMD_ID_def hdr_radius_def)
  have "is_router (put_buf 0 ?p router)" by (simp add: is_router_def mesh_nib_def demo_nib_def)
  then have f: "frame_decision 0 (zb_nwk_hdr_size (8, 0)) (ZB_NWK_FRAMECTL_GET_FRAME_TYPE (8, 0)) d (put_buf 0 ?p router) = Some (True, False)"
    using d c r demo_frame_ok(2,3) by (auto simp: frame_decision_def demo_n_def)
  have l: "update_lqi 5 (put_buf 0 ?p router) = Some (put_buf 0 ?p router)"
    by (subst (2) router_addr, subst router_addr) (simp only: update_lqi_def router_short_search, simp add: ret_neq)
  have w: "sched_wf (sched (put_buf 0 ?p router))" "length (callbacks (sched (put_buf 0 ?p router))) < 16" by simp_all
  obtain g' where "schedule_buf Cb_nwk_frame_indication 0 (put_buf 0 ?p router) = Some g'"
    using schedule_buf_room [OF w, of 0] by auto
  then show ?thesis
    using u f l demo_frame_ok(4) by (simp add: receive_frame_def unsecure_def deliver_frame_def on_g_def)
qed

lemma demo_first: "\<exists>g'. zb_mcps_data_indication 0 (demo_rxd 0xffff router, demo_tbl False) = Some (g', demo_tbl1)"
proof -
  let ?g = "put_buf 0 (demo_pkt 0xffff) router"
  note a = demo_arrived [OF router_buf disjI1 [OF refl]]
  have "receive_broadcast rx_mhr 0 0xffff 5 33 (?g, demo_tbl False) = Some ((?g, demo_tbl1), True)"
    by (simp add: receive_broadcast_def demo_tbl_facts note_passive_ack_def note_btr_def ZB_NWK_START_BTR_EXPIRY_def)
  moreover obtain g' where "receive_frame rx_mhr 9 0 (8, 0) 0xffff 5 (?g, demo_tbl1) = Some (g', demo_tbl1)"
    using demo_receive [of "0xffff" demo_tbl1] by auto
  ultimately show ?thesis
    using data_indication_parts [where b = 0 and s = "(demo_rxd 0xffff router, demo_tbl False)", OF _ a(2,3) demo_frame_ok(1) a(4-6)] a(1)
      demo_frame_ok(2) by simp
qed

text \<open>A copy of it is dropped.\<close>

lemma demo_copy: "zb_mcps_data_indication 0 (demo_rxd 0xffff router, demo_tbl1) \<noteq> None"
proof -
  let ?g = "put_buf 0 (demo_pkt 0xffff) router"
  note a = demo_arrived [OF router_buf disjI1 [OF refl]]
  have f: "b_is_in_buf (demo_pkt 0xffff) = False" by (simp add: demo_pkt_def demo_rx_def buf_bzero_hdr_def)
  have "base_wf ?g" "buf_in_use 0 (bpool ?g)"
    using put_buf_wf [OF mesh_dev_pool(1), of 0 "demo_pkt 0xffff"] mesh_dev_pool f by simp_all
  then obtain g' where "zb_free_buf 0 ?g = Some g'" using free_buf_spec [OF _ _ refl] by blast
  moreover obtain i where "find_btr 5 33 demo_tbl1 = Some i" using demo_tbl_facts(4) by blast
  ultimately have "receive_broadcast rx_mhr 0 0xffff 5 33 (?g, demo_tbl1) = Some ((g', demo_tbl1), False)"
    by (simp add: receive_broadcast_def demo_tbl_facts note_passive_ack_def note_btr_def on_g_def)
  then show ?thesis
    using data_indication_parts [where b = 0 and s = "(demo_rxd 0xffff router, demo_tbl1)", OF _ a(2,3) demo_frame_ok(1) a(4-6)] a(1)
      demo_frame_ok(2) by simp
qed

lemma demo_arrives: "bcast_arrives 0 5 33 (demo_rxd 0xffff router)" "bcast_accepted 0 (demo_rxd 0xffff router, demo_tbl u)"
  using demo_arrived [OF router_buf disjI1 [OF refl]] demo_frame_ok
  by (simp_all add: bcast_arrives_def bcast_accepted_def demo_tbl_facts)

section \<open>Witnesses\<close>

definition no_handlers :: "zb_globals_s nwk_handlers" where
  "no_handlers = \<lparr>h_leave = zb_free_buf, h_rejoin_request = zb_free_buf, h_rejoin_response = zb_free_buf,
     h_network_report = zb_free_buf, h_network_update = zb_free_buf, h_rejoin_resp_sent = zb_free_buf, h_leave_ind = zb_free_buf\<rparr>"

lemma demo_run:
  assumes "zb_mcps_data_indication b s = Some s1" shows "nwk_main_run no_handlers d 0 s1 (g, snd s1)"
  by (rule nwk_main_run.Step [OF nwk_main_run.Start nwk_main_step.Other]) simp

lemma nwk_main_tables_stay_consistent_witness:
  "\<exists>s'. zb_mcps_data_indication 0 (demo_rxd 0xffff router, demo_tbl False) = Some s' \<and> bcast_wf (snd s')
    \<and> btr_age (snd s') (0, 0) = Some 3"
proof -
  let ?s = "(demo_rxd 0xffff router, demo_tbl False)"
  obtain g' where g: "zb_mcps_data_indication 0 ?s = Some (g', demo_tbl1)" using demo_first by blast
  have r: "nwk_main_run no_handlers 0 0 ?s (g', demo_tbl1)"
    by (rule nwk_main_run.Step [OF nwk_main_run.Start nwk_main_step.Data_indication [OF g]])
  have "btr_age (demo_tbl False) (0, 0) = Some 3" by code_simp
  then show ?thesis using nwk_main_tables_stay_consistent [OF r] demo_tbl_wf g by auto
qed

lemma broadcast_accepted_once_witness:
  "\<exists>s1 s3 g u. zb_mcps_data_indication 0 (demo_rxd 0xffff router, demo_tbl False) = Some s1
    \<and> zb_mcps_data_indication 0 (demo_rxd 0xffff router, snd s1) = Some s3
    \<and> zb_free_buf 0 (fst u) = Some (fst s3) \<and> snd s3 = snd u
    \<and> (u = (g, snd s1) \<or> note_passive_ack rx_mhr 5 33 (g, snd s1) = Some u)"
proof -
  obtain g' where g: "zb_mcps_data_indication 0 (demo_rxd 0xffff router, demo_tbl False) = Some (g', demo_tbl1)"
    using demo_first by blast
  obtain s3 where c: "zb_mcps_data_indication 0 (demo_rxd 0xffff router, demo_tbl1) = Some s3" using demo_copy by blast
  have r: "nwk_main_run no_handlers 0 0 (g', demo_tbl1) (demo_rxd 0xffff router, demo_tbl1)" using demo_run [OF g] by simp
  have cut: "cut_mac 0 (demo_rxd 0xffff router) = Some (rx_mhr, 9, put_buf 0 (demo_pkt 0xffff) router)"
    using demo_arrived(1) [OF router_buf] by simp
  have "\<exists>mhr sz h u. cut_mac 0 (demo_rxd 0xffff router) = Some (mhr, sz, h)
    \<and> (u = (h, demo_tbl1) \<or> note_passive_ack mhr 5 33 (h, demo_tbl1) = Some u)
    \<and> zb_free_buf 0 (fst u) = Some (fst s3) \<and> snd s3 = snd u"
    using broadcast_accepted_once [OF _ _ _ _ demo_arrives(2) g r _ _ c] demo_tbl_wf demo_tbl_facts(12) demo_tbl_new demo_arrives(1)
    by simp
  then show ?thesis using g c cut by fastforce
qed

lemma broadcast_table_empties_witness:
  "\<exists>s'. ((\<lambda>x. x \<bind> zb_nwk_btr_expiry) ^^ 10) (Some (router, demo_tbl False)) = Some s' \<and> btt_cnt (snd s') = 0"
  using broadcast_table_empties [of "(router, demo_tbl False)"] demo_tbl_wf by auto

text \<open>A device whose neighbor 5 is in slot 8.\<close>

definition far_nbt :: zb_neighbor_tbl where "far_nbt = zero_nbt\<lparr>addr_to_neighbor := replicate 101 8\<rparr>"

definition far_router :: zb_globals_s where
  "far_router = upd_nbt (\<lambda>_. far_nbt) (router\<lparr>addr := run1\<rparr>)"

lemma far_router_neighbor: "\<exists>g'. zb_nwk_neighbor_get_by_short 5 (put_buf 0 p far_router) = Some (g', RET_OK, Some 8)"
proof -
  have "\<exists>A. zb_address_by_short 5 False False run1 = Some (A, RET_OK, Some 0)"
    by (simp add: zb_address_by_short_def short_search_def run1_def addr_zero_def sorted_addr_def run_ent_def
        lock_if_def upd_ent_def zero_ent_def)
  then obtain A where "zb_address_by_short 5 False False run1 = Some (A, RET_OK, Some 0)" ..
  then show ?thesis
    by (simp add: zb_nwk_neighbor_get_by_short_def zb_nwk_neighbor_get_def a2n_get_def far_router_def far_nbt_def Let_def)
qed


lemma router_schedule: "sched g = sched demo_base \<Longrightarrow> \<exists>g'. schedule_buf f 0 g = Some g'" for g :: zb_globals_s
  using schedule_buf_room [of g 0 f] by auto

lemma leave_confirm_always_success_witness:
  "\<exists>g' a. leave_confirm 0 0xffff (put_buf 0 ((demo_pkt 0)\<lparr>b_status := 5\<rparr>) router) = Some g'
    \<and> buf_param g' 0 = Leave_conf \<lparr>lc_status = 0, lc_device_address = a\<rparr>"
proof -
  let ?g = "put_buf 0 ((demo_pkt 0)\<lparr>b_status := 5\<rparr>) router"
  have "\<exists>g'. leave_confirm 0 0xffff ?g = Some g'"
    using router_buf by (simp add: leave_confirm_def Let_def router_schedule put_param_def)
  then show ?thesis using leave_confirm_always_success by blast
qed

text \<open>A frame for this device is passed up.\<close>

lemma unicast_frame_decision_witness:
  "\<exists>h s'. zb_mcps_data_indication 0 (demo_rxd 0 router, demo_tbl False) = Some s' \<and> hdr_radius 0 h = Some 0
    \<and> schedule_buf Cb_nwk_frame_indication 0 h = Some (fst s')"
proof -
  let ?s = "(demo_rxd 0 router, demo_tbl False)"
  note a = demo_arrived [OF router_buf disjI2 [OF refl]]
  have r: "is_router (put_buf 0 (demo_pkt 0) router)" "mac_short_address (pib (put_buf 0 (demo_pkt 0) router)) = 0"
    by (simp_all add: is_router_def mesh_nib_def demo_nib_def demo_n_def)
  have q: "get_buf 0 (fst ?s) = Some (demo_rx 0)" "buf_wf (demo_rx 0)"
    using router_buf by (simp_all add: demo_rxd_def) (simp add: demo_rx_def demo_frame_def buf_bzero_hdr_def buf_wf_def ZB_IO_BUF_SIZE_def)
  have s: "cut_mac 0 (fst ?s) = Some (rx_mhr, 9, put_buf 0 (demo_pkt 0) router)" using a(1) by simp
  obtain g' where "zb_mcps_data_indication 0 ?s = Some (g', demo_tbl False)"
    using data_indication_parts [OF s a(2,3) demo_frame_ok(1) a(4-6)] demo_receive [of 0 "demo_tbl False"] demo_frame_ok(3) by auto
  then show ?thesis
    using unicast_frame_decision [OF q s a(2,3) demo_frame_ok(1) a(4) demo_frame_ok(3) a(5,6) r(1)] r(2) demo_frame_ok(4)
    by fastforce
qed

end
