(* ===== verification/Zb_Nwk_Nlme.thy ===== *)
theory Zb_Nwk_Nlme
  imports Zb_Nwk_Mesh
begin

text \<open>
  The information base of the network layer from outside: \<^verbatim>\<open>zb_nlme_get_request\<close> and
  \<^verbatim>\<open>zb_nlme_set_request\<close> of \<^verbatim>\<open>nwk/nwk_nlme.c\<close> and their confirms. The packed structures have four bytes
  for an attribute identifier and for a status, and two for a length.
\<close>

section \<open>The attributes\<close>

definition ZB_NIB_ATTRIBUTE_SEQUENCE_NUMBER :: zb_uint32_t where "ZB_NIB_ATTRIBUTE_SEQUENCE_NUMBER = 0x81"

definition ZB_NIB_ATTRIBUTE_PASSIVE_ASK_TIMEOUT :: zb_uint32_t where "ZB_NIB_ATTRIBUTE_PASSIVE_ASK_TIMEOUT = 0x82"

definition ZB_NIB_ATTRIBUTE_MAX_BROADCAST_RETRIES :: zb_uint32_t where "ZB_NIB_ATTRIBUTE_MAX_BROADCAST_RETRIES = 0x83"

definition ZB_NIB_ATTRIBUTE_MAX_CHILDREN :: zb_uint32_t where "ZB_NIB_ATTRIBUTE_MAX_CHILDREN = 0x84"

definition ZB_NIB_ATTRIBUTE_MAX_DEPTH :: zb_uint32_t where "ZB_NIB_ATTRIBUTE_MAX_DEPTH = 0x85"

definition ZB_NIB_ATTRIBUTE_MAX_ROUTERS :: zb_uint32_t where "ZB_NIB_ATTRIBUTE_MAX_ROUTERS = 0x86"

definition ZB_NIB_ATTRIBUTE_ADDR_ALLOC :: zb_uint32_t where "ZB_NIB_ATTRIBUTE_ADDR_ALLOC = 0x90"

definition ZB_NIB_ATTRIBUTE_USE_TREE_ROUTING :: zb_uint32_t where "ZB_NIB_ATTRIBUTE_USE_TREE_ROUTING = 0x91"

definition ZB_NIB_ATTRIBUTE_MANAGER_ADDR :: zb_uint32_t where "ZB_NIB_ATTRIBUTE_MANAGER_ADDR = 0x92"

definition ZB_NIB_ATTRIBUTE_UPDATE_ID :: zb_uint32_t where "ZB_NIB_ATTRIBUTE_UPDATE_ID = 0x94"

definition ZB_NIB_ATTRIBUTE_EXTENDED_PANID :: zb_uint32_t where "ZB_NIB_ATTRIBUTE_EXTENDED_PANID = 0x9a"

definition ZB_NIB_ATTRIBUTE_SECURITY_LEVEL :: zb_uint32_t where "ZB_NIB_ATTRIBUTE_SECURITY_LEVEL = 0xa0"

definition ZB_NIB_ATTRIBUTE_SECURITY_MATERIAL_SET :: zb_uint32_t where "ZB_NIB_ATTRIBUTE_SECURITY_MATERIAL_SET = 0xa1"

definition ZB_NIB_ATTRIBUTE_ACTIVE_KEY_SEQ_NUMBER :: zb_uint32_t where "ZB_NIB_ATTRIBUTE_ACTIVE_KEY_SEQ_NUMBER = 0xa2"

definition ZB_NIB_ATTRIBUTE_SECURE_ALL_FRAMES :: zb_uint32_t where "ZB_NIB_ATTRIBUTE_SECURE_ALL_FRAMES = 0xa5"

lemmas nib_attr_defs =
  ZB_NIB_ATTRIBUTE_SEQUENCE_NUMBER_def
  ZB_NIB_ATTRIBUTE_PASSIVE_ASK_TIMEOUT_def
  ZB_NIB_ATTRIBUTE_MAX_BROADCAST_RETRIES_def
  ZB_NIB_ATTRIBUTE_MAX_CHILDREN_def
  ZB_NIB_ATTRIBUTE_MAX_DEPTH_def
  ZB_NIB_ATTRIBUTE_MAX_ROUTERS_def
  ZB_NIB_ATTRIBUTE_ADDR_ALLOC_def
  ZB_NIB_ATTRIBUTE_USE_TREE_ROUTING_def
  ZB_NIB_ATTRIBUTE_MANAGER_ADDR_def
  ZB_NIB_ATTRIBUTE_UPDATE_ID_def
  ZB_NIB_ATTRIBUTE_EXTENDED_PANID_def
  ZB_NIB_ATTRIBUTE_SECURITY_LEVEL_def
  ZB_NIB_ATTRIBUTE_SECURITY_MATERIAL_SET_def
  ZB_NIB_ATTRIBUTE_ACTIVE_KEY_SEQ_NUMBER_def
  ZB_NIB_ATTRIBUTE_SECURE_ALL_FRAMES_def

text \<open>\<^verbatim>\<open>ZB_NWK_STATUS_SUCCESS\<close>, in the four bytes that the structures have for it.\<close>

definition ZB_NLME_STATUS_SUCCESS :: zb_uint32_t where "ZB_NLME_STATUS_SUCCESS = 0"

definition ZB_NWK_STATUS_UNSUPPORTED_ATTRIBUTE :: zb_uint32_t where "ZB_NWK_STATUS_UNSUPPORTED_ATTRIBUTE = 0xc9"

section \<open>Reading\<close>

text \<open>
  The length of the value, the bytes of it that are written and the status. Of a value of two bytes only the lower
  one is written; the other is what the buffer held.
\<close>

definition nib_value :: "zb_uint32_t \<Rightarrow> zb_nib \<Rightarrow> nat \<times> zb_uint8_t list \<times> zb_uint32_t" where
  "nib_value attr N =
     (if attr = ZB_NIB_ATTRIBUTE_SEQUENCE_NUMBER then (1, [nib_sequence_number N], ZB_NLME_STATUS_SUCCESS)
      else if attr = ZB_NIB_ATTRIBUTE_PASSIVE_ASK_TIMEOUT then (2, [ucast (nib_passive_ack_timeout N)], ZB_NLME_STATUS_SUCCESS)
      else if attr = ZB_NIB_ATTRIBUTE_MAX_BROADCAST_RETRIES then (1, [nib_max_broadcast_retries N], ZB_NLME_STATUS_SUCCESS)
      else if attr = ZB_NIB_ATTRIBUTE_MAX_CHILDREN then (1, [nib_max_children N], ZB_NLME_STATUS_SUCCESS)
      else if attr = ZB_NIB_ATTRIBUTE_MAX_DEPTH then (1, [nib_max_depth N], ZB_NLME_STATUS_SUCCESS)
      else if attr = ZB_NIB_ATTRIBUTE_MAX_ROUTERS then (1, [nib_max_routers N], ZB_NLME_STATUS_SUCCESS)
      else if attr = ZB_NIB_ATTRIBUTE_ADDR_ALLOC then (1, [ucast (nib_addr_alloc N)], ZB_NLME_STATUS_SUCCESS)
      else if attr = ZB_NIB_ATTRIBUTE_USE_TREE_ROUTING then (1, [of_bool (nib_use_tree_routing N)], ZB_NLME_STATUS_SUCCESS)
      else if attr = ZB_NIB_ATTRIBUTE_MANAGER_ADDR then (2, [ucast (nib_nwk_manager_addr N)], ZB_NLME_STATUS_SUCCESS)
      else if attr = ZB_NIB_ATTRIBUTE_UPDATE_ID then (1, [nib_update_id N], ZB_NLME_STATUS_SUCCESS)
      else if attr = ZB_NIB_ATTRIBUTE_EXTENDED_PANID then (8, nib_extended_pan_id N, ZB_NLME_STATUS_SUCCESS)
      else if attr = ZB_NIB_ATTRIBUTE_SECURITY_LEVEL then (1, [ucast (nib_security_level N)], ZB_NLME_STATUS_SUCCESS)
      else if attr = ZB_NIB_ATTRIBUTE_SECURITY_MATERIAL_SET then (1, [ucast (nib_active_secur_material_i N)], ZB_NLME_STATUS_SUCCESS)
      else if attr = ZB_NIB_ATTRIBUTE_ACTIVE_KEY_SEQ_NUMBER then (1, [nib_active_key_seq_number N], ZB_NLME_STATUS_SUCCESS)
      else if attr = ZB_NIB_ATTRIBUTE_SECURE_ALL_FRAMES then (1, [of_bool (nib_secure_all_frames N)], ZB_NLME_STATUS_SUCCESS)
      else (0, [], ZB_NWK_STATUS_UNSUPPORTED_ATTRIBUTE))"

definition zb_nlme_get_request :: "nat \<Rightarrow> 'z zb_globals_s_scheme \<Rightarrow> 'z zb_globals_s_scheme option" where
  "zb_nlme_get_request param g = do {
     p \<leftarrow> get_buf param g;
     attr \<leftarrow> rd32 (b_buf p) (ZB_BUF_BEGIN p);
     let (n, bytes, status) = nib_value attr (nib (nwk g));
     (p1, c) \<leftarrow> zb_buf_initial_alloc (of_nat (10 + n)) p;
     m \<leftarrow> blit (b_buf p1) c (htole32 status @ htole32 attr @ htole16 (of_nat n) @ bytes);
     schedule_buf Cb_zb_nlme_get_confirm param (put_buf param (p1\<lparr>b_buf := m\<rparr>) g) }"

definition zb_nlme_get_confirm :: "nat \<Rightarrow> 'z zb_globals_s_scheme \<Rightarrow> 'z zb_globals_s_scheme option" where
  "zb_nlme_get_confirm param g = zb_free_buf param g"

section \<open>Writing\<close>

text \<open>The new information base and the status. Any value is taken; a bit field keeps the bits that it has room for.\<close>

definition set_nib :: "zb_uint32_t \<Rightarrow> zb_uint8_t list \<Rightarrow> nat \<Rightarrow> zb_nib \<Rightarrow> (zb_nib \<times> zb_uint32_t) option" where
  "set_nib attr m p N =
     (if attr = ZB_NIB_ATTRIBUTE_SEQUENCE_NUMBER then do {
        v \<leftarrow> rd8 m p; Some (N\<lparr>nib_sequence_number := v\<rparr>, ZB_NLME_STATUS_SUCCESS) }
      else if attr = ZB_NIB_ATTRIBUTE_PASSIVE_ASK_TIMEOUT then do {
        v \<leftarrow> rd8 m p; Some (N\<lparr>nib_passive_ack_timeout := ucast v\<rparr>, ZB_NLME_STATUS_SUCCESS) }
      else if attr = ZB_NIB_ATTRIBUTE_MAX_BROADCAST_RETRIES then do {
        v \<leftarrow> rd8 m p; Some (N\<lparr>nib_max_broadcast_retries := v\<rparr>, ZB_NLME_STATUS_SUCCESS) }
      else if attr = ZB_NIB_ATTRIBUTE_MAX_CHILDREN then do {
        v \<leftarrow> rd8 m p; Some (N\<lparr>nib_max_children := v\<rparr>, ZB_NLME_STATUS_SUCCESS) }
      else if attr = ZB_NIB_ATTRIBUTE_MAX_DEPTH then do {
        v \<leftarrow> rd8 m p; Some (N\<lparr>nib_max_depth := v\<rparr>, ZB_NLME_STATUS_SUCCESS) }
      else if attr = ZB_NIB_ATTRIBUTE_MAX_ROUTERS then do {
        v \<leftarrow> rd8 m p; Some (N\<lparr>nib_max_routers := v\<rparr>, ZB_NLME_STATUS_SUCCESS) }
      else if attr = ZB_NIB_ATTRIBUTE_ADDR_ALLOC then do {
        v \<leftarrow> rd8 m p; Some (N\<lparr>nib_addr_alloc := ucast v\<rparr>, ZB_NLME_STATUS_SUCCESS) }
      else if attr = ZB_NIB_ATTRIBUTE_USE_TREE_ROUTING then do {
        v \<leftarrow> rd8 m p; Some (N\<lparr>nib_use_tree_routing := bit v 0\<rparr>, ZB_NLME_STATUS_SUCCESS) }
      else if attr = ZB_NIB_ATTRIBUTE_MANAGER_ADDR then do {
        v \<leftarrow> rd8 m p; Some (N\<lparr>nib_nwk_manager_addr := ucast v\<rparr>, ZB_NLME_STATUS_SUCCESS) }
      else if attr = ZB_NIB_ATTRIBUTE_UPDATE_ID then do {
        v \<leftarrow> rd8 m p; Some (N\<lparr>nib_update_id := v\<rparr>, ZB_NLME_STATUS_SUCCESS) }
      else if attr = ZB_NIB_ATTRIBUTE_EXTENDED_PANID then do {
        v \<leftarrow> rdn 8 m p; Some (N\<lparr>nib_extended_pan_id := v\<rparr>, ZB_NLME_STATUS_SUCCESS) }
      else if attr = ZB_NIB_ATTRIBUTE_SECURITY_LEVEL then do {
        v \<leftarrow> rd8 m p; Some (N\<lparr>nib_security_level := ucast v\<rparr>, ZB_NLME_STATUS_SUCCESS) }
      else if attr = ZB_NIB_ATTRIBUTE_SECURITY_MATERIAL_SET then do {
        v \<leftarrow> rd8 m p; Some (N\<lparr>nib_active_secur_material_i := ucast v\<rparr>, ZB_NLME_STATUS_SUCCESS) }
      else if attr = ZB_NIB_ATTRIBUTE_ACTIVE_KEY_SEQ_NUMBER then do {
        v \<leftarrow> rd8 m p; Some (N\<lparr>nib_active_key_seq_number := v\<rparr>, ZB_NLME_STATUS_SUCCESS) }
      else if attr = ZB_NIB_ATTRIBUTE_SECURE_ALL_FRAMES then do {
        v \<leftarrow> rd8 m p; Some (N\<lparr>nib_secure_all_frames := bit v 0\<rparr>, ZB_NLME_STATUS_SUCCESS) }
      else Some (N, ZB_NWK_STATUS_UNSUPPORTED_ATTRIBUTE))"

definition zb_nlme_set_request :: "nat \<Rightarrow> 'z zb_globals_s_scheme \<Rightarrow> 'z zb_globals_s_scheme option" where
  "zb_nlme_set_request param g = do {
     p \<leftarrow> get_buf param g;
     attr \<leftarrow> rd32 (b_buf p) (ZB_BUF_BEGIN p);
     (N, status) \<leftarrow> set_nib attr (b_buf p) (ZB_BUF_BEGIN p + 6) (nib (nwk g));
     (p1, c) \<leftarrow> zb_buf_initial_alloc 8 p;
     m \<leftarrow> blit (b_buf p1) c (htole32 status @ htole32 attr);
     schedule_buf Cb_zb_nlme_set_confirm param (put_buf param (p1\<lparr>b_buf := m\<rparr>) (upd_nib (\<lambda>_. N) g)) }"

definition zb_nlme_set_confirm :: "nat \<Rightarrow> 'z zb_globals_s_scheme \<Rightarrow> 'z zb_globals_s_scheme option" where
  "zb_nlme_set_confirm param g = zb_free_buf param g"

end
