(* ===== verification/Zb_Secur_Steps.thy ===== *)
theory Zb_Secur_Steps
  imports Zb_Nwk_Secur_Props Zb_Nwk_Mesh_Props Zb_Secur_Demo Zb_Nwk_Nlme
begin

text \<open>
  The key material in runs of the program: every function of \<^verbatim>\<open>secur/zdo_secur.c\<close> and
  \<^verbatim>\<open>secur/nwk_secur.c\<close> that works on keys keeps the array of keys well formed, by rule induction over the steps.
  The information base can also be written by \<^verbatim>\<open>zb_nlme_set_request\<close> of \<^verbatim>\<open>nwk/nwk_nlme.c\<close>, which does not check
  the index of the active key: one value of it breaks the invariant.
\<close>

section \<open>The invariant\<close>

definition keys_typed :: "zb_nib \<Rightarrow> bool" where
  "keys_typed N \<longleftrightarrow> keys_wf N \<and> (\<forall>e\<in>set (nib_secur_material_set N). length (sm_key e) = 16)"

text \<open>The part of the NIB that it is about.\<close>

definition key_part :: "zb_nib \<Rightarrow> zb_secur_material_set list \<times> nat" where
  "key_part N = (nib_secur_material_set N, unat (nib_active_secur_material_i N))"

lemma keys_typed_part: "key_part M = key_part N \<Longrightarrow> keys_typed M = keys_typed N"
  by (simp add: key_part_def keys_typed_def keys_wf_def)

lemma keys_typed_I:
  "length (nib_secur_material_set N) = 3 \<Longrightarrow> unat (nib_active_secur_material_i N) < 3
    \<Longrightarrow> \<forall>e\<in>set (nib_secur_material_set N). length (sm_key e) = 16 \<Longrightarrow> keys_typed N"
  by (simp add: keys_typed_def keys_wf_def)

lemma set_key_typed:
  assumes "keys_typed N" "set_key i k seq N = Some M" "length k = 16" shows "keys_typed M" "nib_active_secur_material_i M = nib_active_secur_material_i N"
    "nib_secur_material_set M = (nib_secur_material_set N)[i := \<lparr>sm_key = k, sm_key_seq_number = seq\<rparr>]"
proof -
  have M: "M = N\<lparr>nib_secur_material_set := (nib_secur_material_set N)[i := \<lparr>sm_key = k, sm_key_seq_number = seq\<rparr>]\<rparr>"
    using assms(2) by (auto simp: set_key_def split: if_splits)
  show "nib_active_secur_material_i M = nib_active_secur_material_i N"
    "nib_secur_material_set M = (nib_secur_material_set N)[i := \<lparr>sm_key = k, sm_key_seq_number = seq\<rparr>]" by (simp_all add: M)
  show "keys_typed M"
    using assms(1,3) set_update_all [of "nib_secur_material_set N" "\<lambda>e. length (sm_key e) = 16" "\<lparr>sm_key = k, sm_key_seq_number = seq\<rparr>" i]
    by (simp add: M keys_typed_def keys_wf_def)
qed

lemma generate_key_typed: "keys_typed N \<Longrightarrow> secur_generate_key base i seq N = Some M \<Longrightarrow> keys_typed M"
  unfolding secur_generate_key_def
  by (rule set_key_typed(1), assumption, assumption) (simp only: length_map length_upt ZB_CCM_KEY_SIZE_def diff_zero)

lemma generate_keys_typed: "keys_typed N \<Longrightarrow> generate_keys base is N = Some M \<Longrightarrow> keys_typed M"
  by (induction "is" arbitrary: N) (auto simp: bind_eq_Some_conv dest: generate_key_typed)

lemma preconfigured_typed:
  "keys_typed N \<Longrightarrow> zb_secur_setup_preconfigured_key k i N = Some M \<Longrightarrow> length k = 16 \<Longrightarrow> keys_typed M"
  by (auto simp: zb_secur_setup_preconfigured_key_def split: if_splits dest: set_key_typed(1))

lemma clear_typed: "keys_typed N \<Longrightarrow> keys_typed (secur_clear_preconfigured_key N)"
  using set_update_all [of "nib_secur_material_set N" "\<lambda>e. length (sm_key e) = 16"
    "(nib_secur_material_set N ! 0)\<lparr>sm_key := replicate 16 0\<rparr>" 0]
  by (simp add: secur_clear_preconfigured_key_def keys_typed_def keys_wf_def ZB_CCM_KEY_SIZE_def)

lemma switch_scan_le: "switch_scan n i s k S = Some j \<Longrightarrow> j \<le> i + n"
  by (induction n arbitrary: i) (fastforce simp: bind_eq_Some_conv split: if_splits)+

lemma active_index: "j < 3 \<Longrightarrow> unat (of_nat j :: 2 word) < 3"
  by (simp add: unat_of_nat)

lemma switch_typed:
  assumes "keys_typed (nib (nwk g))" "secur_nwk_key_switch k g = Some g'" shows "keys_typed (nib (nwk g'))"
proof -
  let ?N = "nib (nwk g)"
  let ?s = "(unat (nib_active_secur_material_i ?N) + 1) mod 3"
  obtain i where i: "switch_scan 3 0 ?s k (nib_secur_material_set ?N) = Some i"
    using assms(2) by (auto simp: secur_nwk_key_switch_def Let_def bind_eq_Some_conv ZB_SECUR_N_SECUR_MATERIAL_def)
  have le: "i \<le> 3" using switch_scan_le [OF i] by simp
  have new: "keys_typed (M\<lparr>nib_active_secur_material_i := of_nat j, nib_active_key_seq_number := k,
      nib_prev_outgoing_frame_counter := c, nib_outgoing_frame_counter := 0\<rparr>)" if "keys_typed M" "j < 3" for M j c
    using that active_index [OF that(2)] by (simp add: keys_typed_def keys_wf_def)
  show ?thesis
  proof (cases "i = 3 \<and> is_tc g")
    case True
    then obtain M where "secur_generate_key (rnd_base g) ?s k ?N = Some M"
      and g': "g' = upd_nib (\<lambda>_. M\<lparr>nib_active_secur_material_i := of_nat ?s, nib_active_key_seq_number := k,
        nib_prev_outgoing_frame_counter := nib_outgoing_frame_counter M, nib_outgoing_frame_counter := 0\<rparr>) g"
      using assms(2) i by (auto simp: secur_nwk_key_switch_def Let_def bind_eq_Some_conv ZB_SECUR_N_SECUR_MATERIAL_def)
    then have "keys_typed M" using generate_key_typed [OF assms(1)] by blast
    then show ?thesis using new [of M ?s] g' by simp
  next
    case False
    then have "g' = (if i \<noteq> 3 then upd_nib (\<lambda>_. ?N\<lparr>nib_active_secur_material_i := of_nat i, nib_active_key_seq_number := k,
        nib_prev_outgoing_frame_counter := nib_outgoing_frame_counter ?N, nib_outgoing_frame_counter := 0\<rparr>) g else g)"
      using assms(2) i by (auto simp: secur_nwk_key_switch_def Let_def bind_eq_Some_conv ZB_SECUR_N_SECUR_MATERIAL_def)
    then show ?thesis using new [OF assms(1), of i] assms(1) le by (cases "i = 3") simp_all
  qed
qed

lemma store_key_typed:
  assumes "keys_typed N" "store_key k seq N = Some (i, M)" "length k = 16"
  shows "keys_typed M" "i < 3"
proof -
  have "keys_typed M \<and> i < 3"
  proof (cases "secur_nwk_key_is_empty k \<and> seq = 0")
    case True
    then show ?thesis using assms by (simp add: store_key_def)
  next
    case False
    define j where "j = (unat (nib_active_secur_material_i N) + unat (seq - nib_active_key_seq_number N)) mod 3"
    obtain N1 where N1: "set_key j (take 16 k) seq N = Some N1"
      "Some (i, M) = Some (j, if j = unat (nib_active_secur_material_i N) \<and> seq \<noteq> nib_active_key_seq_number N
          then N1\<lparr>nib_active_key_seq_number := seq, nib_outgoing_frame_counter := 0\<rparr> else N1)"
      using assms(2) False unfolding store_key_def if_not_P [OF False] Let_def bind_eq_Some_conv ZB_CCM_KEY_SIZE_def
        ZB_SECUR_N_SECUR_MATERIAL_def j_def by metis
    have "j < 3" by (simp add: j_def)
    have "keys_typed N1" by (rule set_key_typed(1) [OF assms(1) N1(1)]) (simp add: assms(3))
    moreover from this have "keys_typed (N1\<lparr>nib_active_key_seq_number := seq, nib_outgoing_frame_counter := 0\<rparr>)"
      by (simp add: keys_typed_def keys_wf_def)
    ultimately show ?thesis using N1(2) \<open>j < 3\<close> by (simp split: if_splits)
  qed
  then show "keys_typed M" "i < 3" by simp_all
qed

section \<open>Every handler keeps it\<close>

abbreviation keys_ok :: "'z zb_globals_n_scheme \<Rightarrow> bool" where
  "keys_ok g \<equiv> keys_typed (nib (nwk g))"

lemma upd_nbt_nib [simp]: "nib (nwk (upd_nbt f g)) = nib (nwk g)"
  by (simp add: upd_nbt_def)

lemma upd_neighbor_nib: "upd_neighbor n f g = Some g' \<Longrightarrow> nib (nwk g') = nib (nwk g)"
  by (auto simp: upd_neighbor_def bind_eq_Some_conv)

lemma status_nwk: "zb_secur_nwk_status p m st g = Some g' \<Longrightarrow> nwk g' = nwk g"
  by (auto simp: zb_secur_nwk_status_def dest!: schedule_buf_nwk)

lemma learn_tc_nwk: "learn_tc src g = Some g' \<Longrightarrow> nwk g' = nwk g"
  by (auto simp: learn_tc_def upd_aib_def upd_aps_def Let_def bind_eq_Some_conv split: if_splits)

lemma upd_aps_nwk [simp]: "nwk (upd_aps f g) = nwk g"
  by (simp add: upd_aps_def)

lemma upd_tmp_nwk [simp]: "nwk (upd_tmp f g) = nwk g"
  by (simp add: upd_tmp_def)

lemma transport_key_typed:
  assumes "keys_ok g" "zb_apsme_transport_key_indication annce p g = Some g'" "\<And>ind. buf_param g p = Transport_key_ind ind \<Longrightarrow> length (tki_key ind) = 16"
    "\<And>h h'. annce p h = Some h' \<Longrightarrow> key_part (nib (nwk h')) = key_part (nib (nwk h))"
  shows "keys_ok g'"
proof -
  obtain ind where ind: "buf_param g p = Transport_key_ind ind"
    using assms(2) by (auto simp: zb_apsme_transport_key_indication_def split: zb_buf_param.splits)
  show ?thesis
  proof (cases "tki_key_type ind = ZB_STANDARD_NETWORK_KEY")
    case False
    then have "zb_free_buf p g = Some g'" using assms(2) ind by (simp add: zb_apsme_transport_key_indication_def)
    then show ?thesis using free_buf_nwk assms(1) by metis
  next
    case True
    then obtain g1 i N where g1: "learn_tc (tki_src_address ind) g = Some g1"
      "store_key (tki_key ind) (tki_key_seq_number ind) (nib (nwk g1)) = Some (i, N)"
      using assms(2) ind by (auto simp: zb_apsme_transport_key_indication_def bind_eq_Some_conv)
    have N: "keys_typed N" "i < 3"
      using store_key_typed [OF _ g1(2) assms(3) [OF ind]] learn_tc_nwk [OF g1(1)] assms(1) by simp_all
    let ?g2 = "upd_nib (\<lambda>_. N) g1"
    let ?g3 = "upd_nib (\<lambda>n. n\<lparr>nib_active_key_seq_number := tki_key_seq_number ind, nib_outgoing_frame_counter := 0,
                     nib_active_secur_material_i := of_nat i\<rparr>) (upd_aps (\<lambda>a. a\<lparr>aps_authenticated := True\<rparr>) ?g2)"
    have 3: "keys_ok ?g3" using N active_index [OF N(2)] by (simp add: keys_typed_def keys_wf_def)
    have "(\<not> aps_authenticated (aps ?g2) \<and> annce p ?g3 = Some g') \<or> zb_free_buf p ?g2 = Some g'"
      using assms(2) ind True g1 by (auto simp: zb_apsme_transport_key_indication_def Let_def split: if_splits)
    then show ?thesis
    proof
      assume "\<not> aps_authenticated (aps ?g2) \<and> annce p ?g3 = Some g'"
      then show ?thesis using keys_typed_part [OF assms(4)] 3 by blast
    next
      assume "zb_free_buf p ?g2 = Some g'"
      then show ?thesis using free_buf_nwk N(1) by fastforce
    qed
  qed
qed

lemma switch_indication_typed:
  assumes "keys_ok g" "zb_apsme_switch_key_indication p g = Some g'" shows "keys_ok g'"
  using assms by (auto simp: zb_apsme_switch_key_indication_def bind_eq_Some_conv split: zb_buf_param.splits
      dest: switch_typed dest!: free_buf_nwk)

lemma send_key_sw_next_nwk: "secur_send_key_sw_next p g = Some g' \<Longrightarrow> nwk g' = nwk g"
  by (auto simp: secur_send_key_sw_next_def Let_def bind_eq_Some_conv split: if_splits
      dest!: schedule_buf_nwk get_delayed_nwk)

lemma send_key_switch_typed:
  assumes "keys_ok g" "zb_secur_send_nwk_key_switch p g = Some g'" shows "keys_ok g'"
proof -
  have k: "keys_ok h'" if "secur_send_key_sw_next p (upd_tmp f h) = Some h' \<or> zb_free_buf p (upd_tmp f h) = Some h'" "keys_ok h"
    for f and h h' :: "'a zb_globals_s_scheme"
    using that send_key_sw_next_nwk [of p "upd_tmp f h" h'] free_buf_nwk [of p "upd_tmp f h" h'] by auto
  obtain d where d: "buf_param g p = Param_uint16 d"
    using assms(2) by (auto simp: zb_secur_send_nwk_key_switch_def split: zb_buf_param.splits)
  show ?thesis
  proof (cases "d = 0")
    case True
    then obtain g1 it where "secur_nwk_key_switch (nib_active_key_seq_number (nib (nwk g)) + 1) g = Some g1"
      "secur_send_key_sw_next p (upd_tmp (\<lambda>t. t\<lparr>tmp_neighbor_table_iterator := it\<rparr>) g1) = Some g'
        \<or> zb_free_buf p (upd_tmp (\<lambda>t. t\<lparr>tmp_neighbor_table_iterator := it\<rparr>) g1) = Some g'"
      using assms(2) d by (auto simp: zb_secur_send_nwk_key_switch_def Let_def bind_eq_Some_conv split: if_splits)
    then show ?thesis using k switch_typed [OF assms(1)] by blast
  next
    case False
    then show ?thesis using assms d by (auto simp: zb_secur_send_nwk_key_switch_def dest!: schedule_buf_nwk)
  qed
qed

lemma secure_frame_typed:
  assumes "keys_ok g" "zb_nwk_secure_frame s mh d g = Some (g', r)" shows "keys_ok g'"
proof -
  have "key_part (snd (snd (out_counter u q N))) = key_part N" for u q N by (simp add: out_counter_def key_part_def)
  then have c: "keys_typed N'" if "out_counter u q N = (c, q', N')" "keys_typed N" for u q N c q' N'
    using keys_typed_part that by (metis snd_conv)
  have l: "nwk h' = nwk h" if "check_counter_limit h = Some h'" for h h' :: "'a zb_globals_s_scheme"
    using that by (auto simp: check_counter_limit_def split: if_splits dest!: get_delayed_nwk)
  obtain b hs aux q where b: "aget (bp_pool (bpool g)) s = Some b" "nwk_hdr_at (b_buf b) (ZB_BUF_BEGIN b + mh) = Some (hs, aux)"
      "rd8 (b_buf b) (aux + 13) = Some q"
    using assms(2) by (auto simp: zb_nwk_secure_frame_def Let_def bind_eq_Some_conv)
  obtain cnt q' N where o: "out_counter (b_use_same_key b) q (nib (nwk g)) = (cnt, q', N)" by (rule prod_cases3)
  have N: "keys_typed N" by (rule c [OF o assms(1)])
  show ?thesis using assms(2) b o N
    by (auto simp: zb_nwk_secure_frame_def Let_def bind_eq_Some_conv split: option.splits if_splits dest!: l)
qed

lemma frame_neighbor_nib: "frame_neighbor m a s g = Some (g', r, n) \<Longrightarrow> nib (nwk g') = nib (nwk g)"
  by (auto simp: frame_neighbor_def bind_eq_Some_conv dest!: neighbor_get_nib split: if_splits)

lemma check_counter_nib:
  assumes "check_counter p m n q c g = Some (g', k)" shows "nib (nwk g') = nib (nwk g)"
proof -
  obtain k0 g1 e where 1: "secur_nwk_key_by_seq q (nib (nwk g)) = Some k0" "upd_neighbor n (note_key q) g = Some g1"
      "nb_get (neighbor (nwk g1)) n = Some e"
    using assms by (auto simp: check_counter_def bind_eq_Some_conv)
  have "zb_secur_nwk_status p m ZB_NWK_COMMAND_STATUS_BAD_KEY_SEQUENCE_NUMBER g1 = Some g'
      \<or> zb_secur_nwk_status p m ZB_NWK_COMMAND_STATUS_BAD_FRAME_COUNTER g1 = Some g'
      \<or> upd_neighbor n (\<lambda>e. e\<lparr>ne_incoming_frame_counter := c\<rparr>) g1 = Some g'"
    using assms 1 by (cases k0) (auto simp: check_counter_def bind_eq_Some_conv split: if_splits)
  then have "nib (nwk g') = nib (nwk g1)" using status_nwk upd_neighbor_nib by metis
  then show ?thesis using upd_neighbor_nib [OF 1(2)] by simp
qed

lemma report_short_nwk: "report_short p m h b g = Some g' \<Longrightarrow> nwk g' = nwk g"
  by (auto simp: report_short_def dest!: status_nwk split: if_splits)

lemma implicit_switch_typed: "keys_ok g \<Longrightarrow> implicit_switch p x g = Some g' \<Longrightarrow> keys_ok g'"
  using switch_typed [of g _ g'] by (auto simp: implicit_switch_def Let_def bind_eq_Some_conv split: if_splits)

lemma unsecure_frame_typed:
  assumes "keys_ok g" "zb_nwk_unsecure_frame p m l g = Some (g', r)" shows "keys_ok g'"
proof (cases "aps_authenticated (aps g)")
  case False
  then have "zb_free_buf p g = Some g'" using assms(2) by (auto simp: zb_nwk_unsecure_frame_def bind_eq_Some_conv)
  then show ?thesis using free_buf_nwk assms(1) by metis
next
  case True
  then obtain b hs aux a s g1 ret nbe where f: "aget (bp_pool (bpool g)) p = Some b"
    "nwk_hdr_at (b_buf b) (ZB_BUF_BEGIN b) = Some (hs, aux)" "rdn 8 (b_buf b) (aux + 5) = Some a" "rd16 (b_buf b) (ZB_BUF_BEGIN b + 4) = Some s"
    "frame_neighbor m a s g = Some (g1, ret, nbe)"
    using assms(2) by (auto simp: zb_nwk_unsecure_frame_def Let_def bind_eq_Some_conv)
  have 1: "keys_ok g1" using frame_neighbor_nib [OF f(5)] assms(1) by simp
  have st: "keys_ok h'" if "zb_secur_nwk_status p m st h = Some h'" "keys_ok h" for st and h h' :: "'a zb_globals_s_scheme"
    using status_nwk [OF that(1)] that(2) by simp
  show ?thesis
  proof (cases "ret = RET_OK")
    case False
    then show ?thesis using assms(2) True f 1 by (auto simp: zb_nwk_unsecure_frame_def Let_def bind_eq_Some_conv elim: st)
  next
    case ok: True
    then obtain n q cnt g2 k where c: "nbe = Some n" "rd8 (b_buf b) (aux + 13) = Some q" "rd32 (b_buf b) (aux + 1) = Some cnt"
        "check_counter p m n q cnt g1 = Some (g2, k)"
      using assms(2) True f by (auto simp: zb_nwk_unsecure_frame_def Let_def bind_eq_Some_conv)
    have 2: "keys_ok g2" using check_counter_nib [OF c(4)] 1 by simp
    show ?thesis
    proof (cases k)
      case None
      then show ?thesis using assms(2) True f ok c 2 by (simp add: zb_nwk_unsecure_frame_def Let_def)
    next
      case (Some key)
      then obtain gs b1 r1 where u: "report_short p m hs b g2 = Some gs" "unsecure_payload key hs aux b = Some (b1, r1)"
        using assms(2) True f ok c by (auto simp: zb_nwk_unsecure_frame_def Let_def bind_eq_Some_conv)
      have s: "keys_ok gs" using report_short_nwk [OF u(1)] 2 by simp
      show ?thesis
      proof (cases "r1 = RET_OK")
        case False
        then show ?thesis using assms(2) True f ok c Some u s by (auto simp: zb_nwk_unsecure_frame_def Let_def bind_eq_Some_conv elim: st)
      next
        case r1: True
        then obtain b2 g3 where "upd_neighbor n note_authenticated (put_buf p b2 gs) = Some g3" "implicit_switch p aux g3 = Some g'"
          using assms(2) True f ok c Some u by (auto simp: zb_nwk_unsecure_frame_def Let_def bind_eq_Some_conv)
        moreover from this have "keys_ok g3" using upd_neighbor_nib [of n note_authenticated "put_buf p b2 gs" g3] s by simp
        ultimately show ?thesis using implicit_switch_typed by blast
      qed
    qed
  qed
qed

section \<open>The request to set an attribute\<close>

text \<open>A request that sets the active key: the two lower bits of the value. The fourth slot does not exist.\<close>

definition requested_slot :: "nat \<Rightarrow> 'z zb_globals_s_scheme \<Rightarrow> 2 word option" where
  "requested_slot p g = do {
     b \<leftarrow> get_buf p g;
     attr \<leftarrow> rd32 (b_buf b) (ZB_BUF_BEGIN b);
     v \<leftarrow> rd8 (b_buf b) (ZB_BUF_BEGIN b + 6);
     if attr = ZB_NIB_ATTRIBUTE_SECURITY_MATERIAL_SET then Some (ucast v) else None }"

lemma set_nib_keys:
  assumes "set_nib attr m q N = Some (M, st)"
  shows "nib_secur_material_set M = nib_secur_material_set N
    \<and> (if attr = ZB_NIB_ATTRIBUTE_SECURITY_MATERIAL_SET
       then \<exists>v. rd8 m q = Some v \<and> nib_active_secur_material_i M = ucast v
       else nib_active_secur_material_i M = nib_active_secur_material_i N)"
  using assms by (auto simp: set_nib_def nib_attr_defs bind_eq_Some_conv split: if_splits)

lemma set_request_nib:
  assumes "zb_nlme_set_request p g = Some g'"
  shows "nib_secur_material_set (nib (nwk g')) = nib_secur_material_set (nib (nwk g))
    \<and> nib_active_secur_material_i (nib (nwk g'))
        = (case requested_slot p g of Some i \<Rightarrow> i | None \<Rightarrow> nib_active_secur_material_i (nib (nwk g)))"
proof -
  obtain b attr N st m b1 where r: "get_buf p g = Some b" "rd32 (b_buf b) (ZB_BUF_BEGIN b) = Some attr"
      "set_nib attr (b_buf b) (ZB_BUF_BEGIN b + 6) (nib (nwk g)) = Some (N, st)"
    and s: "schedule_buf Cb_zb_nlme_set_confirm p (put_buf p (b1\<lparr>b_buf := m\<rparr>) (upd_nib (\<lambda>_. N) g)) = Some g'"
    using assms by (auto simp: zb_nlme_set_request_def bind_eq_Some_conv)
  have "nib (nwk g') = N" using schedule_buf_nwk [OF s] by simp
  then show ?thesis using set_nib_keys [OF r(3)] r(1,2)
    by (auto simp: requested_slot_def bind_eq_Some_conv split: if_splits option.splits)
qed

lemma slot_cases: "(i :: 2 word) \<noteq> 3 \<longleftrightarrow> unat i < 3"
proof -
  have "unat i < 4" using unsigned_less [of i] by simp
  moreover have "i = 3 \<longleftrightarrow> unat i = 3" by (simp add: word_unat_eq_iff)
  ultimately show ?thesis by linarith
qed

lemma set_request_typed:
  assumes "keys_ok g" "zb_nlme_set_request p g = Some g'" "requested_slot p g \<noteq> Some 3"
  shows "keys_ok g'"
proof -
  have "unat (nib_active_secur_material_i (nib (nwk g'))) < 3"
    using set_request_nib [OF assms(2)] assms(1,3) slot_cases
    by (cases "requested_slot p g") (auto simp: keys_typed_def keys_wf_def)
  then show ?thesis using set_request_nib [OF assms(2)] assms(1) by (simp add: keys_typed_def keys_wf_def)
qed

lemma set_request_breaks:
  assumes "keys_ok g" "zb_nlme_set_request p g = Some g'" "requested_slot p g = Some 3"
  shows "active_key (nib (nwk g')) = None"
  using set_request_nib [OF assms(2)] assms(1,3) by (simp add: active_key_def keys_typed_def keys_wf_def)

section \<open>Runs\<close>

text \<open>
  A step: the functions that write keys with a key of 16 bytes, as the C arrays have, the handlers of
  \<^verbatim>\<open>secur/zdo_secur.c\<close> and \<^verbatim>\<open>secur/nwk_secur.c\<close> that can change the keys, the request to set an attribute of the
  information base unless it asks for the slot that does not exist, and anything else that leaves the keys alone.
\<close>

inductive key_step :: "'z zb_globals_s_scheme \<Rightarrow> 'z zb_globals_s_scheme \<Rightarrow> bool" where
  Setup: "zb_secur_setup_preconfigured_key k i (nib (nwk g)) = Some N \<Longrightarrow> length k = 16 \<Longrightarrow> key_step g (upd_nib (\<lambda>_. N) g)"
| Clear: "key_step g (upd_nib secur_clear_preconfigured_key g)"
| Generate: "secur_generate_keys base (nib (nwk g)) = Some N \<Longrightarrow> key_step g (upd_nib (\<lambda>_. N) g)"
| Switch: "secur_nwk_key_switch k g = Some g' \<Longrightarrow> key_step g g'"
| Transport_key: "zb_apsme_transport_key_indication annce p g = Some g'
    \<Longrightarrow> (\<And>ind. buf_param g p = Transport_key_ind ind \<Longrightarrow> length (tki_key ind) = 16)
    \<Longrightarrow> (\<And>h h'. annce p h = Some h' \<Longrightarrow> key_part (nib (nwk h')) = key_part (nib (nwk h))) \<Longrightarrow> key_step g g'"
| Switch_indication: "zb_apsme_switch_key_indication p g = Some g' \<Longrightarrow> key_step g g'"
| Send_switch: "zb_secur_send_nwk_key_switch p g = Some g' \<Longrightarrow> key_step g g'"
| Secure_frame: "zb_nwk_secure_frame s mh d g = Some (g', r) \<Longrightarrow> key_step g g'"
| Unsecure_frame: "zb_nwk_unsecure_frame p m l g = Some (g', r) \<Longrightarrow> key_step g g'"
| Set_request: "zb_nlme_set_request p g = Some g' \<Longrightarrow> requested_slot p g \<noteq> Some 3 \<Longrightarrow> key_step g g'"
| Other: "key_part (nib (nwk g')) = key_part (nib (nwk g)) \<Longrightarrow> key_step g g'"

lemma key_step_typed:
  assumes "key_step g g'" "keys_ok g" shows "keys_ok g'"
  using assms(1)
proof cases
  case (Setup k i N)
  then show ?thesis using preconfigured_typed [OF assms(2)] by simp
next
  case Clear
  then show ?thesis using clear_typed [OF assms(2)] by simp
next
  case (Generate base N)
  then show ?thesis using generate_keys_typed [OF assms(2)] by (simp add: secur_generate_keys_def)
next
  case (Transport_key annce p)
  then show ?thesis using transport_key_typed [OF assms(2)] by blast
next
  case Other
  then show ?thesis using keys_typed_part assms(2) by blast
next
  case (Set_request p)
  then show ?thesis using set_request_typed [OF assms(2)] by blast
next
  case (Switch k)
  then show ?thesis by (rule switch_typed [OF assms(2)])
next
  case (Switch_indication p)
  then show ?thesis by (rule switch_indication_typed [OF assms(2)])
next
  case (Send_switch p)
  then show ?thesis by (rule send_key_switch_typed [OF assms(2)])
next
  case (Secure_frame s mh d r)
  then show ?thesis by (rule secure_frame_typed [OF assms(2)])
next
  case (Unsecure_frame p m l r)
  then show ?thesis by (rule unsecure_frame_typed [OF assms(2)])
qed

lemma keys_typed_active: "keys_typed N \<Longrightarrow> \<exists>k. active_key N = Some k \<and> length k = 16"
  by (simp add: keys_typed_def keys_wf_def active_key_def aget_def)

lemma keys_typed_search: "keys_wf N \<Longrightarrow> \<exists>k. secur_nwk_key_by_seq seq N = Some k"
  by (rule keys_wf_cases) (auto simp: secur_nwk_key_by_seq_def key_scans)

text \<open>
  C26: the key material is well typed in every run in which no request to set an attribute writes the value 3 to the
  index of the active key: whatever keys are configured, generated, received, switched to or used for frames, there
  are three slots with keys of 16 bytes and the active slot is one of them. Hence no lookup of a key and no read of
  the active key runs over the array of keys. The exception is one: after such a run, \<^verbatim>\<open>zb_nlme_set_request\<close> makes
  the next read of the active key run over the array exactly when it sets that index to 3, which nothing checks.
\<close>

theorem key_material_stays_typed:
  assumes "key_step\<^sup>*\<^sup>* g g'" "keys_typed (nib (nwk g))"
  shows "keys_typed (nib (nwk g')) \<and> (\<exists>k. secur_nwk_key_by_seq seq (nib (nwk g')) = Some k)
    \<and> (\<exists>k. active_key (nib (nwk g')) = Some k \<and> length k = 16)
    \<and> (\<forall>p h. zb_nlme_set_request p g' = Some h \<longrightarrow> (active_key (nib (nwk h)) = None \<longleftrightarrow> requested_slot p g' = Some 3))"
proof -
  have t: "keys_typed (nib (nwk g'))" using assms by (induction rule: rtranclp_induct) (auto intro: key_step_typed)
  moreover have "active_key (nib (nwk h)) = None \<longleftrightarrow> requested_slot p g' = Some 3" if "zb_nlme_set_request p g' = Some h" for p h
    using set_request_breaks [OF t that] keys_typed_active [OF set_request_typed [OF t that]]
    by (cases "requested_slot p g' = Some 3") auto
  ultimately show ?thesis using keys_typed_active [OF t] keys_typed_search by (simp add: keys_typed_def)
qed

text \<open>A request for the fourth slot, and what becomes of it.\<close>

definition slot_request :: zb_buf where
  "slot_request = zero_buf\<lparr>b_len := 7, b_buf := [0xa1, 0, 0, 0, 1, 0, 3] @ replicate 141 0\<rparr>"

lemma slot_request:
  "rd32 (b_buf slot_request) (ZB_BUF_BEGIN slot_request) = Some ZB_NIB_ATTRIBUTE_SECURITY_MATERIAL_SET"
  "rd8 (b_buf slot_request) (ZB_BUF_BEGIN slot_request + 6) = Some 3"
  "\<exists>b c m. zb_buf_initial_alloc 8 slot_request = Some (b, c)
    \<and> blit (b_buf b) c (htole32 ZB_NLME_STATUS_SUCCESS @ htole32 ZB_NIB_ATTRIBUTE_SECURITY_MATERIAL_SET) = Some m"
  by (code_simp, code_simp, (simp add: zb_buf_initial_alloc_def slot_request_def blit_def ZB_IO_BUF_SIZE_def ZB_BUF_BEGIN_def
      Let_def buf_bzero_hdr_def zero_buf_def))

lemma schedule_buf_0: "\<exists>h. schedule_buf f 0 g = Some h" for g :: "'z zb_globals_s_scheme"
  by (auto simp: schedule_buf_def zb_schedule_callback_def Let_def split: option.splits)

lemma slot_request_runs:
  fixes g :: "'z zb_globals_s_scheme"
  assumes "get_buf 0 g \<noteq> None"
  shows "\<exists>h. zb_nlme_set_request 0 (put_buf 0 slot_request g) = Some h" "requested_slot 0 (put_buf 0 slot_request g) = Some 3"
proof -
  have b: "get_buf 0 (put_buf 0 slot_request g) = Some slot_request"
    using assms(1) by (auto simp: get_buf_def put_buf_def aget_Some_iff)
  then show "requested_slot 0 (put_buf 0 slot_request g) = Some 3"
    using slot_request by (simp add: requested_slot_def)
  obtain p c m where p: "zb_buf_initial_alloc 8 slot_request = Some (p, c)"
      "blit (b_buf p) c (htole32 ZB_NLME_STATUS_SUCCESS @ htole32 ZB_NIB_ATTRIBUTE_SECURITY_MATERIAL_SET) = Some m"
    using slot_request(3) by blast
  obtain N where N: "set_nib ZB_NIB_ATTRIBUTE_SECURITY_MATERIAL_SET (b_buf slot_request) (ZB_BUF_BEGIN slot_request + 6)
      (nib (nwk (put_buf 0 slot_request g))) = Some (N, ZB_NLME_STATUS_SUCCESS)"
    using slot_request(2) by (simp add: set_nib_def nib_attr_defs)
  obtain h where "schedule_buf Cb_zb_nlme_set_confirm 0 (put_buf 0 (p\<lparr>b_buf := m\<rparr>) (upd_nib (\<lambda>_. N) (put_buf 0 slot_request g))) = Some h"
    using schedule_buf_0 by blast
  then show "\<exists>h. zb_nlme_set_request 0 (put_buf 0 slot_request g) = Some h"
    using b slot_request(1) p N unfolding zb_nlme_set_request_def by (simp del: put_buf_fields)
qed

lemma key_material_stays_typed_witness:
  "\<exists>g' h. secur_nwk_key_switch 9 demo_s = Some g' \<and> (\<exists>k. active_key (nib (nwk g')) = Some k \<and> length k = 16)
    \<and> zb_nlme_set_request 0 (put_buf 0 slot_request g') = Some h \<and> active_key (nib (nwk h)) = None"
proof -
  have w: "keys_typed (nib (nwk demo_s))" using demo_keys_wf by (simp add: keys_typed_def)
  obtain g' where g': "secur_nwk_key_switch 9 demo_s = Some g'"
    using switch_scan_result [OF demo_keys_wf, of 9 1] by (simp add: secur_nwk_key_switch_def Let_def ZB_SECUR_N_SECUR_MATERIAL_def)
  have "key_step demo_s g'" using g' by (rule key_step.Switch)
  then have r: "key_step\<^sup>*\<^sup>* demo_s g'" by (rule r_into_rtranclp)
  have "key_step g' (put_buf 0 slot_request g')" by (rule key_step.Other) simp
  with r have r': "key_step\<^sup>*\<^sup>* demo_s (put_buf 0 slot_request g')" by (rule rtranclp.rtrancl_into_rtrancl)
  have "bpool g' = bpool demo_s"
    using g' by (auto simp: secur_nwk_key_switch_def Let_def bind_eq_Some_conv upd_nib_def split: if_splits)
  then have "get_buf 0 g' \<noteq> None" by (simp add: get_buf_def demo_base_def zb_init_buffers_def pool_zero_def)
  from slot_request_runs [OF this] obtain h where h: "zb_nlme_set_request 0 (put_buf 0 slot_request g') = Some h"
      "requested_slot 0 (put_buf 0 slot_request g') = Some 3" by blast
  have "active_key (nib (nwk h)) = None" using key_material_stays_typed [OF r' w] h by blast
  moreover have "\<exists>k. active_key (nib (nwk g')) = Some k \<and> length k = 16" using key_material_stays_typed [OF r w] by blast
  ultimately show ?thesis using g' h(1) by blast
qed

end
