(* ===== verification/Zb_Aps_Retrans.thy ===== *)
theory Zb_Aps_Retrans
  imports Zb_Aps_Hdr
begin

text \<open>
  The sending side of \<^verbatim>\<open>aps/aps_main.c\<close>: the data request, APS commands, and the retransmission of frames that
  are to be acknowledged. An entry of the table \<^verbatim>\<open>ZG->aps.retrans.hash\<close> is made when the frame is given to the
  network layer; the confirm of the network layer, the acknowledgement and an alarm move it on. The parameter
  of the alarm is the entry's index. The ZDO's \<^verbatim>\<open>zb_start_get_peer_short_addr\<close> and
  \<^verbatim>\<open>zb_zdo_reschedule_poll_parent\<close> are arguments.
\<close>

section \<open>The table\<close>

definition ZB_N_APS_ACK_WAIT_DURATION :: zb_time_t where
  "ZB_N_APS_ACK_WAIT_DURATION = of_nat (2 * (5 * ZB_TIME_ONE_SECOND))"

definition ZB_APS_COMMAND_RADIUS :: zb_uint8_t where "ZB_APS_COMMAND_RADIUS = 5"

definition upd_retrans :: "(zb_aps_retrans \<Rightarrow> zb_aps_retrans) \<Rightarrow> 'z zb_globals_a_scheme \<Rightarrow> 'z zb_globals_a_scheme" where
  "upd_retrans f = upd_aps (\<lambda>a. a\<lparr>retrans := f (retrans a)\<rparr>)"

abbreviation re_tab :: "'z zb_globals_a_scheme \<Rightarrow> zb_aps_retrans_ent list" where
  "re_tab g \<equiv> rt_hash (retrans (aps g))"

definition re_upd :: "nat \<Rightarrow> (zb_aps_retrans_ent \<Rightarrow> zb_aps_retrans_ent) \<Rightarrow> 'z zb_globals_a_scheme \<Rightarrow> 'z zb_globals_a_scheme" where
  "re_upd i f = upd_retrans (\<lambda>r. r\<lparr>rt_hash := (rt_hash r)[i := f (rt_hash r ! i)]\<rparr>)"

definition zb_aps_init :: "'z zb_globals_s_scheme \<Rightarrow> 'z zb_globals_s_scheme" where
  "zb_aps_init g = upd_retrans (\<lambda>r. r\<lparr>rt_hash := map (\<lambda>e. e\<lparr>re_addr := -1, re_buf := 255\<rparr>) (rt_hash r), rt_ack_buf := 255\<rparr>)
     (upd_aib (\<lambda>a. a\<lparr>aps_counter := ucast (zb_random (rnd_base g))\<rparr>) g)"

definition find_free_re :: "'z zb_globals_a_scheme \<Rightarrow> nat option" where
  "find_free_re g = find (\<lambda>i. re_state (re_tab g ! i) = ZB_APS_RETRANS_ENT_FREE) [0..<ZB_N_APS_RETRANS_ENTRIES]"

section \<open>Requests to the network layer\<close>

definition fill_nldereq :: "nat \<Rightarrow> zb_uint16_t \<Rightarrow> bool \<Rightarrow> 'z zb_globals_s_scheme \<Rightarrow> 'z zb_globals_s_scheme" where
  "fill_nldereq param a secure = put_param param (Nlde_data_req \<lparr>ndr_dst_addr = a, ndr_radius = ZB_APS_COMMAND_RADIUS,
     ndr_addr_mode = ZB_ADDR_16BIT_DEV_OR_BROADCAST, ndr_nonmember_radius = 0, ndr_discovery_route = 1,
     ndr_security_enable = of_bool secure, ndr_ndsu_handle = 0\<rparr>)"

section \<open>The data request\<close>

definition ZB_APS_ADDR_MODE_DST_ADDR_ENDP_NOT_PRESENT :: zb_uint8_t where
  "ZB_APS_ADDR_MODE_DST_ADDR_ENDP_NOT_PRESENT = 0"

definition ZB_APS_ADDR_MODE_16_ENDP_PRESENT :: zb_uint8_t where "ZB_APS_ADDR_MODE_16_ENDP_PRESENT = 2"

definition ZB_APSDE_TX_OPT_ACK_TX :: zb_uint8_t where "ZB_APSDE_TX_OPT_ACK_TX = 4"

record 'g aps_env =
  env_get_peer :: "nat \<Rightarrow> nat \<Rightarrow> 'g \<Rightarrow> 'g option"
  env_poll :: "zb_time_t \<Rightarrow> 'g \<Rightarrow> 'g option"

definition ZB_APS_POLL_AFTER_REQ_TMO :: zb_time_t where
  "ZB_APS_POLL_AFTER_REQ_TMO = of_nat (ZB_MILLISECONDS_TO_BEACON_INTERVAL 200)"

text \<open>
  The first destination of a binding source, if it is a device; the loop is a \<^verbatim>\<open>do\<close> loop, which looks at the first
  destination of an empty table too.
\<close>

function first_dst :: "nat \<Rightarrow> nat \<Rightarrow> zb_aps_binding_table \<Rightarrow> zb_aps_bind_dst option option" where
  "first_dst i src B =
     (if i < length (dst_table B) then
        if bd_src_table_index (dst_table B ! i) = src then Some (Some (bd_dst (dst_table B ! i)))
        else if i + 1 < dst_n_elements B then first_dst (i + 1) src B
        else Some None
      else None)"
  by pat_completeness auto
termination by (relation "measure (\<lambda>(i, src, B). length (dst_table B) - i)") auto

declare first_dst.simps [simp del]

definition zb_search_dst_in_binding_table :: "zb_apsde_data_req \<Rightarrow> 'z zb_globals_n_scheme
    \<Rightarrow> ('z zb_globals_n_scheme \<times> (nat \<times> zb_uint8_t) option) option" where
  "zb_search_dst_in_binding_table req g = do {
     (A, ret, ref) \<leftarrow> zb_address_by_short (mac_short_address (pib g)) False False (addr g);
     let g1 = g\<lparr>addr := A\<rparr>;
     if ret = RET_OK then do {
       r \<leftarrow> ref;
       src \<leftarrow> aps_find_src_ref r (adr_src_endpoint req) (adr_clusterid req) (binding (aps g1));
       if src \<noteq> 255 then do {
         d \<leftarrow> first_dst 0 src (binding (aps g1));
         Some (g1, case d of Some (ZB_APS_BIND_DST_ADDR_LONG a ep) \<Rightarrow> Some (a, ep) | _ \<Rightarrow> None) }
       else Some (g1, None) }
     else Some (g1, None) }"

text \<open>\<open>addr_short\<close> is set in the union of addresses.\<close>

definition set_short :: "zb_uint16_t \<Rightarrow> zb_apsde_data_req \<Rightarrow> zb_apsde_data_req" where
  "set_short a req = req\<lparr>adr_dst_addr := htole16 a @ drop 2 (adr_dst_addr req)\<rparr>"

abbreviation req_short :: "zb_apsde_data_req \<Rightarrow> zb_uint16_t" where
  "req_short req \<equiv> Zb_Mac_Mhr.addr_short (adr_dst_addr req)"

text \<open>
  The switch on the addressing mode: the frame control, the network address and the request as it is then;
  a bound device without a short address; no bound device. For any other mode the network address is not set.
\<close>

datatype aps_dest =
    Dest_known zb_uint8_t zb_uint16_t zb_apsde_data_req
  | Dest_unknown nat zb_apsde_data_req
  | Dest_unbound

definition aps_destination :: "zb_apsde_data_req \<Rightarrow> 'z zb_globals_n_scheme \<Rightarrow> ('z zb_globals_n_scheme \<times> aps_dest) option" where
  "aps_destination req g =
     (if adr_addr_mode req = ZB_APS_ADDR_MODE_DST_ADDR_ENDP_NOT_PRESENT then do {
        (g1, d) \<leftarrow> zb_search_dst_in_binding_table req g;
        case d of
          None \<Rightarrow> Some (g1, Dest_unbound)
        | Some (ref, ep) \<Rightarrow> do {
            a \<leftarrow> zb_address_short_by_ref ref (addr g1);
            let req1 = req\<lparr>adr_dst_endpoint := ep\<rparr>;
            if a = ZB_UNKNOWN_SHORT_ADDR then Some (g1, Dest_unknown ref req1)
            else Some (g1, Dest_known (ZB_APS_FC_SET_DELIVERY_MODE ZB_APS_DELIVERY_UNICAST 0) a (set_short a req1)) } }
      else if adr_addr_mode req = ZB_APS_ADDR_MODE_16_GROUP_ENDP_NOT_PRESENT then
        Some (g, Dest_known (ZB_APS_FC_SET_DELIVERY_MODE ZB_APS_DELIVERY_GROUP 0) ZB_NWK_BROADCAST_RX_ON_WHEN_IDLE
          (req\<lparr>adr_tx_options := adr_tx_options req AND NOT ZB_APSDE_TX_OPT_ACK_TX\<rparr>))
      else if adr_addr_mode req = ZB_APS_ADDR_MODE_16_ENDP_PRESENT then
        Some (g, Dest_known (ZB_APS_FC_SET_DELIVERY_MODE
          (if req_short req \<in> {ZB_NWK_BROADCAST_ALL_DEVICES, ZB_NWK_BROADCAST_RX_ON_WHEN_IDLE,
             ZB_NWK_BROADCAST_ROUTER_COORDINATOR, ZB_NWK_BROADCAST_LOW_POWER_ROUTER}
           then ZB_APS_DELIVERY_BROADCAST else ZB_APS_DELIVERY_UNICAST) 0) (req_short req) req)
      else if adr_addr_mode req = ZB_APS_ADDR_MODE_64_ENDP_PRESENT then do {
        (A, a) \<leftarrow> zb_address_short_by_ieee (adr_dst_addr req) (addr g);
        Some (g\<lparr>addr := A\<rparr>, Dest_known (ZB_APS_FC_SET_DELIVERY_MODE ZB_APS_DELIVERY_UNICAST 0) a (set_short a req)) }
      else None)"

text \<open>
  The entry for a frame: the status byte and the alarm's parameter. A full table is not told apart from success;
  the test for it is true when the last entry has been taken.
\<close>

definition save_ack_data :: "nat \<Rightarrow> zb_apsde_data_req \<Rightarrow> 'z zb_globals_a_scheme \<Rightarrow> 'z zb_globals_a_scheme \<times> zb_uint8_t \<times> nat" where
  "save_ack_data param req g =
     (case find_free_re g of
        Some i \<Rightarrow> (re_upd i (\<lambda>e. e\<lparr>
            re_addr := (if adr_addr_mode req \<in> {ZB_APS_ADDR_MODE_DST_ADDR_ENDP_NOT_PRESENT,
                ZB_APS_ADDR_MODE_16_ENDP_PRESENT, ZB_APS_ADDR_MODE_64_ENDP_PRESENT} then req_short req else re_addr e),
            re_clusterid := adr_clusterid req, re_aps_counter := aps_counter (aib (aps g)) - 1,
            re_src_endpoint := adr_src_endpoint req, re_dst_endpoint := adr_dst_endpoint req,
            re_buf := param, re_nwk_insecure := False, re_aps_retries := of_nat ZB_N_APS_MAX_FRAME_ENTRIES,
            re_state := ZB_APS_RETRANS_ENT_SENT_MAC_NOT_CONFIRMED_ALRM_RUNNING\<rparr>) g,
          if i = ZB_N_APS_RETRANS_ENTRIES - 1 then ZB_APS_STATUS_TABLE_FULL else 0, i)
      | None \<Rightarrow> (g, 0, 0))"

definition fill_datareq :: "nat \<Rightarrow> zb_uint8_t \<Rightarrow> zb_apsde_data_req \<Rightarrow> 'z zb_globals_s_scheme \<Rightarrow> 'z zb_globals_s_scheme option" where
  "fill_datareq param fc req g = do {
     p \<leftarrow> get_buf param g;
     p1 \<leftarrow> aps_data_hdr_fill_datareq fc req (aps_counter (aib (aps g))) p;
     Some (upd_aib (\<lambda>a. a\<lparr>aps_counter := aps_counter a + 1\<rparr>) (put_buf param p1 g)) }"

text \<open>The frame is given to the network layer; a copy of a group frame first goes up in this device.\<close>

definition local_dup :: "zb_uint8_t \<Rightarrow> 'z zb_globals_a_scheme \<Rightarrow> bool" where
  "local_dup fc g \<longleftrightarrow> is_group fc \<and> n_groups (aps_group (aps g)) > 0
     \<and> \<not> ZB_RING_BUFFER_IS_FULL (local_dup_q (aps_group (aps g))) \<and> \<not> ZB_RING_BUFFER_IS_FULL (pass_up_q (aps_group (aps g)))"

definition upd_group :: "(zb_aps_group_table \<Rightarrow> zb_aps_group_table) \<Rightarrow> 'z zb_globals_a_scheme \<Rightarrow> 'z zb_globals_a_scheme" where
  "upd_group f = upd_aps (\<lambda>a. a\<lparr>aps_group := f (aps_group a)\<rparr>)"

definition send_datareq :: "nat \<Rightarrow> zb_uint8_t \<Rightarrow> zb_uint16_t \<Rightarrow> zb_apsde_data_req \<Rightarrow> 'z zb_globals_s_scheme \<Rightarrow> 'z zb_globals_s_scheme option" where
  "send_datareq param fc dst req g = do {
     p \<leftarrow> get_buf param g;
     let g1 = put_param param (Nlde_data_req \<lparr>ndr_dst_addr = dst, ndr_radius = adr_radius req,
       ndr_addr_mode = ZB_ADDR_16BIT_DEV_OR_BROADCAST, ndr_nonmember_radius = 0, ndr_discovery_route = 1,
       ndr_security_enable = of_bool (b_encrypt_type p = 0), ndr_ndsu_handle = 0\<rparr>) g;
     if local_dup fc g1 then
       map_option fst (zb_get_in_buf_delayed Cb_zb_aps_pass_local_group_pkt_up
         (upd_group (\<lambda>t. t\<lparr>local_dup_q := ZB_RING_BUFFER_PUT param (local_dup_q t)\<rparr>) g1))
     else schedule_buf Cb_zb_nlde_data_request param g1 }"

definition start_ack_timer :: "nat \<Rightarrow> 'z zb_globals_scheme \<Rightarrow> 'z zb_globals_scheme option" where
  "start_ack_timer i g = map_option fst (zb_schedule_alarm Cb_zb_aps_ack_timer_cb (of_nat i) ZB_N_APS_ACK_WAIT_DURATION g)"

definition send_acked :: "'z zb_globals_s_scheme aps_env \<Rightarrow> nat \<Rightarrow> zb_uint8_t \<Rightarrow> zb_uint16_t \<Rightarrow> zb_apsde_data_req
    \<Rightarrow> 'z zb_globals_s_scheme \<Rightarrow> 'z zb_globals_s_scheme option" where
  "send_acked E param fc dst req g = do {
     g1 \<leftarrow> fill_datareq param fc req g;
     let (g2, ret, i) = save_ack_data param req g1;
     if ret \<noteq> 0 then do {
       p \<leftarrow> get_buf param g2;
       schedule_buf Cb_zb_apsde_data_confirm param (put_buf param (p\<lparr>b_status := ucast ret\<rparr>) g2) }
     else do {
       g3 \<leftarrow> env_poll E ZB_APS_POLL_AFTER_REQ_TMO g2;
       g4 \<leftarrow> start_ack_timer i g3;
       send_datareq param fc dst req g4 } }"

definition zb_apsde_data_request :: "'z zb_globals_s_scheme aps_env \<Rightarrow> nat \<Rightarrow> 'z zb_globals_s_scheme \<Rightarrow> 'z zb_globals_s_scheme option" where
  "zb_apsde_data_request E param g =
     (case buf_param g param of
        Apsde_data_req req \<Rightarrow> do {
          (g1, d) \<leftarrow> aps_destination req g;
          case d of
            Dest_unbound \<Rightarrow> schedule_buf Cb_zb_apsde_data_confirm param g1
          | Dest_unknown ref req1 \<Rightarrow> env_get_peer E ref param (put_param param (Apsde_data_req req1) g1)
          | Dest_known fc dst req1 \<Rightarrow> do {
              let g2 = put_param param (Apsde_data_req req1) g1;
              if adr_tx_options req1 AND ZB_APSDE_TX_OPT_ACK_TX \<noteq> 0 then
                send_acked E param (ZB_APS_FC_SET_ACK_REQUEST 1 (ZB_APS_FC_SET_ACK_FORMAT 0 fc)) dst req1 g2
              else do {
                g3 \<leftarrow> fill_datareq param (ZB_APS_FC_SET_ACK_FORMAT 0 fc) req1 g2;
                send_datareq param (ZB_APS_FC_SET_ACK_FORMAT 0 fc) dst req1 g3 } } }
      | _ \<Rightarrow> None)"

section \<open>Commands\<close>

definition APS_CMD_TRANSPORT_KEY :: zb_uint8_t where "APS_CMD_TRANSPORT_KEY = 5"

text \<open>The entry of a command: its cluster and endpoints are those of the frame that had the entry before.\<close>

definition command_entry :: "nat \<Rightarrow> zb_uint16_t \<Rightarrow> zb_uint8_t \<Rightarrow> bool \<Rightarrow> zb_aps_retrans_ent \<Rightarrow> zb_aps_retrans_ent" where
  "command_entry param dest cnt secure e = e\<lparr>re_addr := dest, re_aps_counter := cnt, re_buf := param,
     re_nwk_insecure := \<not> secure, re_aps_retries := of_nat ZB_N_APS_MAX_FRAME_ENTRIES,
     re_state := ZB_APS_RETRANS_ENT_SENT_MAC_NOT_CONFIRMED_ALRM_RUNNING\<rparr>"

definition zb_aps_send_command :: "nat \<Rightarrow> zb_uint16_t \<Rightarrow> zb_uint8_t \<Rightarrow> bool \<Rightarrow> 'z zb_globals_s_scheme \<Rightarrow> 'z zb_globals_s_scheme option" where
  "zb_aps_send_command param dest_addr command secure g = do {
     let need_ack = (\<not> ZB_NWK_IS_ADDRESS_BROADCAST dest_addr \<and> command \<noteq> APS_CMD_TRANSPORT_KEY);
     let cnt = aps_counter (aib (aps g));
     g1 \<leftarrow> (case (if need_ack then find_free_re g else None) of
         Some i \<Rightarrow> start_ack_timer i (re_upd i (command_entry param dest_addr cnt secure) g)
       | None \<Rightarrow> Some g);
     p \<leftarrow> get_buf param g1;
     (p1, o1) \<leftarrow> zb_buf_smart_alloc_left 3 p;
     m \<leftarrow> blit (b_buf p1) o1 [ZB_APS_FC_SET_COMMAND need_ack 0, cnt, command];
     let g2 = upd_aib (\<lambda>a. a\<lparr>aps_counter := cnt + 1\<rparr>) (put_buf param (p1\<lparr>b_buf := m\<rparr>) g1);
     schedule_buf Cb_zb_nlde_data_request param (fill_nldereq param dest_addr secure g2) }"

section \<open>Acknowledgements\<close>

definition aps_ack_send_handle :: "nat \<Rightarrow> zb_aps_hdr \<Rightarrow> 'z zb_globals_s_scheme \<Rightarrow> 'z zb_globals_s_scheme option" where
  "aps_ack_send_handle param h g = do {
     p \<leftarrow> get_buf param g;
     p1 \<leftarrow> ack_fill h p;
     schedule_buf Cb_zb_nlde_data_request param (fill_nldereq param (ah_src_addr h) True (put_buf param p1 g)) }"

text \<open>The end of an entry: a command's buffer is freed, a data frame is confirmed.\<close>

definition done_with_this_ack :: "nat \<Rightarrow> zb_uint8_t \<Rightarrow> zb_uint8_t \<Rightarrow> 'z zb_globals_s_scheme \<Rightarrow> 'z zb_globals_s_scheme option" where
  "done_with_this_ack i fc status g = do {
     e \<leftarrow> aget (re_tab g) i;
     p \<leftarrow> get_buf (re_buf e) g;
     let g1 = put_buf (re_buf e) (p\<lparr>b_status := ucast status\<rparr>) g;
     g2 \<leftarrow> (if ZB_APS_FC_GET_ACK_FORMAT fc \<noteq> 0 then zb_free_buf (re_buf e) g1
       else schedule_buf Cb_zb_apsde_data_confirm (re_buf e) g1);
     let g3 = re_upd i (\<lambda>e. e\<lparr>re_state := ZB_APS_RETRANS_ENT_FREE, re_addr := -1, re_buf := 255\<rparr>) g2;
     map_option fst (zb_schedule_alarm_cancel Cb_zb_aps_ack_timer_cb (of_nat i) g3) }"

definition ack_matches :: "zb_aps_hdr \<Rightarrow> zb_aps_retrans_ent \<Rightarrow> bool option" where
  "ack_matches h e =
     (if re_addr e = ah_src_addr h \<and> re_aps_counter e = ah_aps_counter h then
        if ZB_APS_FC_GET_ACK_FORMAT (ah_fc h) \<noteq> 0 then Some True
        else do {
          cl \<leftarrow> ah_clusterid h;
          if re_clusterid e = cl then do {
            ep \<leftarrow> ah_dst_endpoint h;
            Some (re_src_endpoint e = ep \<and> re_dst_endpoint e = ah_src_endpoint h) }
          else Some False }
      else Some False)"

fun find_acked :: "zb_aps_hdr \<Rightarrow> nat \<Rightarrow> zb_aps_retrans_ent list \<Rightarrow> nat option option" where
  "find_acked h i [] = Some None"
| "find_acked h i (e # es) = do {
     b \<leftarrow> ack_matches h e;
     if b then Some (Some i) else find_acked h (i + 1) es }"

definition aps_ack_frame_handle :: "zb_aps_hdr \<Rightarrow> 'z zb_globals_s_scheme \<Rightarrow> 'z zb_globals_s_scheme option" where
  "aps_ack_frame_handle h g = do {
     r \<leftarrow> find_acked h 0 (re_tab g);
     case r of
       None \<Rightarrow> Some g
     | Some i \<Rightarrow>
         if re_state (re_tab g ! i) = ZB_APS_RETRANS_ENT_SENT_MAC_NOT_CONFIRMED_ALRM_RUNNING then
           Some (re_upd i (\<lambda>e. e\<lparr>re_state := ZB_APS_RETRANS_ENT_SENT_MAC_NOT_CONFIRMED_APS_ACKED_ALRM_RUNNING\<rparr>) g)
         else done_with_this_ack i (ah_fc h) 0 g }"

section \<open>The alarm and the confirm\<close>

definition zb_aps_ack_timer_cb :: "nat \<Rightarrow> 'z zb_globals_s_scheme \<Rightarrow> 'z zb_globals_s_scheme option" where
  "zb_aps_ack_timer_cb i g = do {
     e \<leftarrow> aget (re_tab g) i;
     p \<leftarrow> get_buf (re_buf e) g;
     fc \<leftarrow> rd8 (b_buf p) (ZB_BUF_BEGIN p);
     let n = (if re_aps_retries e \<noteq> 0 then re_aps_retries e - 1 else re_aps_retries e);
     let g1 = re_upd i (\<lambda>e. e\<lparr>re_aps_retries := n\<rparr>) g;
     if n = 0 \<and> re_state e = ZB_APS_RETRANS_ENT_SENT_MAC_CONFIRMED_ALRM_RUNNING then
       done_with_this_ack i fc (word_of_int RET_NO_ACK) g1
     else do {
       g2 \<leftarrow> start_ack_timer i g1;
       if re_state e = ZB_APS_RETRANS_ENT_SENT_MAC_CONFIRMED_ALRM_RUNNING then
         schedule_buf Cb_zb_nlde_data_request (re_buf e)
           (re_upd i (\<lambda>e. e\<lparr>re_state := ZB_APS_RETRANS_ENT_SENT_MAC_NOT_CONFIRMED_ALRM_RUNNING\<rparr>)
             (fill_nldereq (re_buf e) (re_addr e) (\<not> (re_nwk_insecure e \<or> ZB_APS_FC_GET_SECURITY fc \<noteq> 0)) g2))
       else Some g2 } }"

definition ZB_MAC_CUT_HDR_WITHOUT_TRAILER :: "zb_buf \<Rightarrow> (zb_buf \<times> nat) option" where
  "ZB_MAC_CUT_HDR_WITHOUT_TRAILER p = do {
     let p1 = p\<lparr>b_mac_hdr_offset := b_data_offset p\<rparr>;
     p2 \<leftarrow> zb_buf_cut_right 2 p1;
     f0 \<leftarrow> rd8 (b_buf p2) (ZB_BUF_BEGIN p);
     f1 \<leftarrow> rd8 (b_buf p2) (ZB_BUF_BEGIN p + 1);
     hlen \<leftarrow> zb_mac_calculate_mhr_length (ZB_FCF_GET_SRC_ADDRESSING_MODE (f0, f1))
       (ZB_FCF_GET_DST_ADDRESSING_MODE (f0, f1)) (ZB_FCF_GET_PANID_COMPRESSION_BIT (f0, f1));
     zb_buf_cut_left (of_nat hlen) p2 }"

text \<open>The part of the confirm that moves an entry on.\<close>

definition confirm_retrans :: "nat \<Rightarrow> zb_uint8_t \<Rightarrow> 'z zb_globals_s_scheme \<Rightarrow> 'z zb_globals_s_scheme option" where
  "confirm_retrans param fc g =
     (case find (\<lambda>i. re_buf (re_tab g ! i) = param) [0..<ZB_N_APS_RETRANS_ENTRIES] of
        Some i \<Rightarrow>
          if re_state (re_tab g ! i) = ZB_APS_RETRANS_ENT_SENT_MAC_NOT_CONFIRMED_APS_ACKED_ALRM_RUNNING then
            done_with_this_ack i fc 0 g
          else do {
            zb_assert (re_state (re_tab g ! i) = ZB_APS_RETRANS_ENT_SENT_MAC_NOT_CONFIRMED_ALRM_RUNNING);
            Some (re_upd i (\<lambda>e. e\<lparr>re_state := ZB_APS_RETRANS_ENT_SENT_MAC_CONFIRMED_ALRM_RUNNING\<rparr>) g) }
      | None \<Rightarrow> zb_free_buf param g)"

definition zb_nlde_data_confirm :: "nat \<Rightarrow> 'z zb_globals_s_scheme \<Rightarrow> 'z zb_globals_s_scheme option" where
  "zb_nlde_data_confirm param g = do {
     p \<leftarrow> get_buf param g;
     (p1, _) \<leftarrow> ZB_MAC_CUT_HDR_WITHOUT_TRAILER p;
     (p2, o2) \<leftarrow> ZB_NWK_HDR_CUT p1;
     fc \<leftarrow> rd8 (b_buf p2) o2;
     let g1 = put_buf param p2 g;
     if ZB_APS_FC_GET_FRAME_TYPE fc = ZB_APS_FRAME_ACK then zb_free_buf param g1
     else if ZB_APS_FC_GET_ACK_REQUEST fc = 0 then schedule_buf Cb_zb_apsde_data_confirm param g1
     else confirm_retrans param fc g1 }"

end
