(* ===== verification/Zb_Apsme.thy ===== *)
theory Zb_Apsme
  imports Zb_Aps_Retrans
begin

text \<open>
  The commands of the APS layer for keys and devices: \<^verbatim>\<open>secur/apsme_secur.c\<close> and \<^verbatim>\<open>aps/aps_commands.c\<close> of a
  router. A request puts the body of a command into its buffer and sends it; an incoming command becomes an
  indication to the layer above. \<open>joined_pro\<close> of the handle is an argument. The packets are the packed structures
  of \<^verbatim>\<open>include/zb_secur.h\<close>.
\<close>

section \<open>Requests\<close>

definition APS_CMD_UPDATE_DEVICE :: zb_uint8_t where "APS_CMD_UPDATE_DEVICE = 6"

definition APS_CMD_REMOVE_DEVICE :: zb_uint8_t where "APS_CMD_REMOVE_DEVICE = 7"

definition APS_CMD_REQUEST_KEY :: zb_uint8_t where "APS_CMD_REQUEST_KEY = 8"

definition APS_CMD_SWITCH_KEY :: zb_uint8_t where "APS_CMD_SWITCH_KEY = 9"

lemmas aps_cmd_defs = APS_CMD_TRANSPORT_KEY_def APS_CMD_UPDATE_DEVICE_def APS_CMD_REMOVE_DEVICE_def
  APS_CMD_REQUEST_KEY_def APS_CMD_SWITCH_KEY_def

definition ZB_SECUR_NWK_KEY :: zb_uint8_t where "ZB_SECUR_NWK_KEY = 1"

definition fill_command :: "zb_uint8_t list \<Rightarrow> nat \<Rightarrow> 'z zb_globals_s_scheme \<Rightarrow> 'z zb_globals_s_scheme option" where
  "fill_command bytes param g = do {
     p \<leftarrow> get_buf param g;
     p1 \<leftarrow> fill_packet bytes p;
     Some (put_buf param p1 g) }"

definition send_to_ieee :: "nat \<Rightarrow> zb_ieee_addr_t \<Rightarrow> zb_uint8_t \<Rightarrow> 'z zb_globals_s_scheme \<Rightarrow> 'z zb_globals_s_scheme option" where
  "send_to_ieee param dest command g = do {
     (A, a) \<leftarrow> zb_address_short_by_ieee dest (addr g);
     zb_aps_send_command param a command True (g\<lparr>addr := A\<rparr>) }"

text \<open>The body of a network key, and where it goes: to the parent of the device and secured, or to the device itself.\<close>

definition transport_key_bytes :: "zb_apsme_transport_key_req \<Rightarrow> zb_ieee_addr_t \<Rightarrow> zb_uint8_t list" where
  "transport_key_bytes req src = [tkr_key_type req] @ take ZB_CCM_KEY_SIZE (tkr_key req) @ [tkr_key_seq_number req]
     @ (case tkr_dest_address req of Dest_short a \<Rightarrow> replicate 8 0 | Dest_long l \<Rightarrow> l) @ src"

definition transport_key_dest :: "zb_apsme_transport_key_req \<Rightarrow> 'z zb_globals_s_scheme
    \<Rightarrow> ('z zb_globals_s_scheme \<times> zb_uint16_t \<times> bool) option" where
  "transport_key_dest req g =
     (case tkr_use_parent req of
        Some parent \<Rightarrow> do {
          (A, a) \<leftarrow> zb_address_short_by_ieee parent (addr g);
          Some (g\<lparr>addr := A\<rparr>, a, True) }
      | None \<Rightarrow>
          (case tkr_dest_address req of
             Dest_short a \<Rightarrow> Some (g, a, ZB_NWK_IS_ADDRESS_BROADCAST a)
           | Dest_long l \<Rightarrow> do {
               (A, a) \<leftarrow> zb_address_short_by_ieee l (addr g);
               Some (g\<lparr>addr := A\<rparr>, a, False) }))"

definition zb_apsme_transport_key_request :: "nat \<Rightarrow> 'z zb_globals_s_scheme \<Rightarrow> 'z zb_globals_s_scheme option" where
  "zb_apsme_transport_key_request param g =
     (case buf_param g param of
        Transport_key_req req \<Rightarrow>
          if tkr_key_type req = ZB_STANDARD_NETWORK_KEY then do {
            g1 \<leftarrow> fill_command (transport_key_bytes req (extended_address g)) param g;
            (g2, dest, secure) \<leftarrow> transport_key_dest req g1;
            zb_aps_send_command param dest APS_CMD_TRANSPORT_KEY secure g2 }
          else zb_aps_send_command param 0 APS_CMD_TRANSPORT_KEY False g
      | _ \<Rightarrow> None)"

definition zb_apsme_update_device_request :: "nat \<Rightarrow> 'z zb_globals_s_scheme \<Rightarrow> 'z zb_globals_s_scheme option" where
  "zb_apsme_update_device_request param g =
     (case buf_param g param of
        Update_device_req req \<Rightarrow> do {
          g1 \<leftarrow> fill_command (ud_device_address req @ htole16 (ud_device_short_address req) @ [ud_status req]) param g;
          send_to_ieee param (ud_address req) APS_CMD_UPDATE_DEVICE g1 }
      | _ \<Rightarrow> None)"

definition zb_apsme_switch_key_request :: "nat \<Rightarrow> 'z zb_globals_s_scheme \<Rightarrow> 'z zb_globals_s_scheme option" where
  "zb_apsme_switch_key_request param g =
     (case buf_param g param of
        Switch_key_req req \<Rightarrow> do {
          g1 \<leftarrow> fill_command [skr_key_seq_number req] param g;
          case skr_dest_address req of
            Dest_short a \<Rightarrow> do {
              zb_assert (ZB_NWK_IS_ADDRESS_BROADCAST a);
              zb_aps_send_command param a APS_CMD_SWITCH_KEY True g1 }
          | Dest_long l \<Rightarrow> send_to_ieee param l APS_CMD_SWITCH_KEY g1 }
      | _ \<Rightarrow> None)"

definition zb_secur_apsme_remove_device :: "nat \<Rightarrow> 'z zb_globals_s_scheme \<Rightarrow> 'z zb_globals_s_scheme option" where
  "zb_secur_apsme_remove_device param g =
     (case buf_param g param of
        Remove_device_req req \<Rightarrow> do {
          g1 \<leftarrow> fill_command (rd_child_address req) param g;
          send_to_ieee param (rd_parent_address req) APS_CMD_REMOVE_DEVICE g1 }
      | _ \<Rightarrow> None)"

text \<open>For another kind of key the buffer is sent as it is.\<close>

definition zb_secur_apsme_request_key :: "nat \<Rightarrow> 'z zb_globals_s_scheme \<Rightarrow> 'z zb_globals_s_scheme option" where
  "zb_secur_apsme_request_key param g =
     (case buf_param g param of
        Request_key_req req \<Rightarrow> do {
          g1 \<leftarrow> (if rkr_key_type req = ZB_SECUR_NWK_KEY then fill_command [rkr_key_type req] param g else Some g);
          send_to_ieee param (rkr_dest_address req) APS_CMD_REQUEST_KEY g1 }
      | _ \<Rightarrow> None)"

section \<open>Keys for the children\<close>

text \<open>A key that is for another device is passed on if that is a child; a child that is new gets it in plain text.\<close>

definition pass_key_to_child :: "zb_ieee_addr_t \<Rightarrow> nat \<Rightarrow> 'z zb_globals_s_scheme \<Rightarrow> 'z zb_globals_s_scheme option" where
  "pass_key_to_child dest param g = do {
     (A, r, ref) \<leftarrow> zb_address_by_ieee dest False False (addr g);
     let g1 = g\<lparr>addr := A\<rparr>;
     if r = RET_OK then do {
       ref \<leftarrow> ref;
       (g2, r2, n) \<leftarrow> zb_nwk_neighbor_get ref False g1;
       if r2 = RET_OK then do {
         n \<leftarrow> n;
         e \<leftarrow> nb_get (neighbor (nwk g2)) n;
         if ne_relationship e \<in> {ZB_NWK_RELATIONSHIP_UNAUTHENTICATED_CHILD, ZB_NWK_RELATIONSHIP_CHILD} then do {
           a \<leftarrow> zb_address_short_by_ref ref (addr g2);
           g3 \<leftarrow> zb_aps_send_command param a APS_CMD_TRANSPORT_KEY
             (ne_relationship e \<noteq> ZB_NWK_RELATIONSHIP_UNAUTHENTICATED_CHILD) g2;
           N \<leftarrow> nb_upd n (\<lambda>e. e\<lparr>ne_relationship := ZB_NWK_RELATIONSHIP_CHILD\<rparr>) (neighbor (nwk g3));
           Some (upd_nbt (\<lambda>_. N) g3) }
         else zb_free_buf param g2 }
       else zb_free_buf param g2 }
     else zb_free_buf param g1 }"

text \<open>The next child that sleeps gets the key; the function asks for a buffer for the one behind it.\<close>

definition zb_aps_pass_nwk_key_to_children :: "nat \<Rightarrow> 'z zb_globals_s_scheme \<Rightarrow> 'z zb_globals_s_scheme option" where
  "zb_aps_pass_nwk_key_to_children param g = do {
     let it = tmp_neighbor_table_iterator (aps_tmp (aps g));
     let seq = tmp_key_seq_number (aps_tmp (aps g));
     k \<leftarrow> secur_nwk_key_by_seq seq (nib (nwk g));
     key \<leftarrow> k;
     e \<leftarrow> nb_get (neighbor (nwk g)) it;
     (l, a) \<leftarrow> zb_address_by_ref (ne_addr_ref e) (addr g);
     g1 \<leftarrow> fill_command ([ZB_STANDARD_NETWORK_KEY] @ take ZB_CCM_KEY_SIZE key @ [seq] @ l
       @ trust_center_address (aib (aps g))) param g;
     N \<leftarrow> nb_upd it (\<lambda>e. e\<lparr>ne_relationship := ZB_NWK_RELATIONSHIP_CHILD\<rparr>) (neighbor (nwk g1));
     g2 \<leftarrow> zb_aps_send_command param a APS_CMD_TRANSPORT_KEY False (upd_nbt (\<lambda>_. N) g1);
     it' \<leftarrow> zb_nwk_neighbor_next_ze_children_rx_off_i (inc32 it) (neighbor (nwk g2));
     let g3 = upd_tmp (\<lambda>t. t\<lparr>tmp_neighbor_table_iterator := it'\<rparr>) g2;
     if it' \<noteq> 2 ^ 32 - 1 then map_option fst (zb_get_out_buf_delayed Cb_zb_aps_pass_nwk_key_to_children g3)
     else Some g3 }"

section \<open>Incoming commands\<close>

text \<open>For any other kind of key nothing happens, and the buffer is kept.\<close>

definition zb_aps_in_transport_key :: "nat \<Rightarrow> 'z zb_globals_s_scheme \<Rightarrow> 'z zb_globals_s_scheme option" where
  "zb_aps_in_transport_key param g = do {
     p \<leftarrow> get_buf param g;
     let (m, o1) = (b_buf p, ZB_BUF_BEGIN p);
     ty \<leftarrow> rd8 m o1;
     if ty = ZB_STANDARD_NETWORK_KEY then do {
       dest \<leftarrow> rdn 8 m (o1 + 18);
       if dest = extended_address g \<or> dest = replicate 8 0 then do {
         src \<leftarrow> rdn 8 m (o1 + 26);
         seq \<leftarrow> rd8 m (o1 + 17);
         key \<leftarrow> rdn ZB_CCM_KEY_SIZE m (o1 + 1);
         schedule_buf Cb_zb_apsme_transport_key_indication param
           (put_param param (Transport_key_ind \<lparr>tki_key_type = ty, tki_src_address = src, tki_key = key,
              tki_key_seq_number = seq\<rparr>) g) }
       else pass_key_to_child dest param g }
     else Some g }"

text \<open>The long address of the sender; without one the field of the indication is not set.\<close>

definition command_source :: "nat \<Rightarrow> 'z zb_globals_s_scheme \<Rightarrow> ('z zb_globals_s_scheme \<times> zb_ieee_addr_t) option" where
  "command_source param g =
     (case buf_param g param of
        Aps_hdr h \<Rightarrow> do {
          (A, _, l) \<leftarrow> zb_address_ieee_by_short (ah_src_addr h) (addr g);
          src \<leftarrow> l;
          Some (g\<lparr>addr := A\<rparr>, src) }
      | _ \<Rightarrow> None)"

definition zb_aps_in_update_device :: "nat \<Rightarrow> 'z zb_globals_s_scheme \<Rightarrow> 'z zb_globals_s_scheme option" where
  "zb_aps_in_update_device param g = do {
     p \<leftarrow> get_buf param g;
     let (m, o1) = (b_buf p, ZB_BUF_BEGIN p);
     (g1, src) \<leftarrow> command_source param g;
     dev \<leftarrow> rdn 8 m o1;
     short \<leftarrow> rd16 m (o1 + 8);
     (A, _, _) \<leftarrow> zb_address_update dev short False (addr g1);
     status \<leftarrow> rd8 m (o1 + 10);
     schedule_buf Cb_zb_apsme_update_device_indication param
       (put_param param (Update_device_ind \<lparr>ud_address = src, ud_device_address = dev,
          ud_device_short_address = short, ud_status = status\<rparr>) (g1\<lparr>addr := A\<rparr>)) }"

definition zb_aps_in_remove_device :: "nat \<Rightarrow> 'z zb_globals_s_scheme \<Rightarrow> 'z zb_globals_s_scheme option" where
  "zb_aps_in_remove_device param g = do {
     p \<leftarrow> get_buf param g;
     (g1, src) \<leftarrow> command_source param g;
     child \<leftarrow> rdn 8 (b_buf p) (ZB_BUF_BEGIN p);
     schedule_buf Cb_zb_apsme_remove_device_indication param
       (put_param param (Remove_device_ind \<lparr>rd_parent_address = src, rd_child_address = child\<rparr>) g1) }"

definition zb_aps_in_request_key :: "nat \<Rightarrow> 'z zb_globals_s_scheme \<Rightarrow> 'z zb_globals_s_scheme option" where
  "zb_aps_in_request_key param g = do {
     p \<leftarrow> get_buf param g;
     (g1, src) \<leftarrow> command_source param g;
     ty \<leftarrow> rd8 (b_buf p) (ZB_BUF_BEGIN p);
     schedule_buf Cb_zb_apsme_request_key_indication param
       (put_param param (Request_key_ind \<lparr>rki_src_address = src, rki_key_type = ty, rki_partner_address = None\<rparr>) g1) }"

definition zb_aps_in_switch_key :: "nat \<Rightarrow> 'z zb_globals_s_scheme \<Rightarrow> 'z zb_globals_s_scheme option" where
  "zb_aps_in_switch_key param g = do {
     p \<leftarrow> get_buf param g;
     (g1, src) \<leftarrow> command_source param g;
     seq \<leftarrow> rd8 (b_buf p) (ZB_BUF_BEGIN p);
     schedule_buf Cb_zb_apsme_switch_key_indication param
       (put_param param (Switch_key_ind \<lparr>ski_src_address = src, ski_key_seq_number = seq\<rparr>) g1) }"

text \<open>
  The dispatch of a router: a command to switch keys is unknown. With \<open>joined_pro\<close> the other commands are not
  handled and their buffers are kept.
\<close>

definition zb_aps_in_command_handle :: "bool \<Rightarrow> nat \<Rightarrow> 'z zb_globals_s_scheme \<Rightarrow> 'z zb_globals_s_scheme option" where
  "zb_aps_in_command_handle pro param g = do {
     p \<leftarrow> get_buf param g;
     (p1, q) \<leftarrow> zb_buf_cut_left 3 p;
     zb_assert (q > 0);
     c \<leftarrow> rd8 (b_buf p1) (q - 1);
     let g1 = put_buf param p1 g;
     if c = APS_CMD_TRANSPORT_KEY then if pro then Some g1 else zb_aps_in_transport_key param g1
     else if c = APS_CMD_UPDATE_DEVICE then if pro then Some g1 else zb_aps_in_update_device param g1
     else if c = APS_CMD_REMOVE_DEVICE then if pro then Some g1 else zb_aps_in_remove_device param g1
     else if c = APS_CMD_REQUEST_KEY then if pro then Some g1 else zb_aps_in_request_key param g1
     else zb_free_buf param g1 }"

end
