(* ===== verification/Zb_Aps_Main.thy ===== *)
theory Zb_Aps_Main
  imports Zb_Apsme
begin

text \<open>
  The receiving side of \<^verbatim>\<open>aps/aps_main.c\<close>: indications of the network layer, with the acknowledgement, the
  duplicates and the commands; group frames, which every endpoint of a group gets in a buffer of its own; and the
  requests that read and write the information base. \<open>pro\<close> is \<^verbatim>\<open>joined_pro\<close> of the network layer.
\<close>

section \<open>Group frames\<close>

text \<open>A copy of the bytes is a copy of the parameter in the tail, too.\<close>

definition copy_buf :: "nat \<Rightarrow> nat \<Rightarrow> 'z zb_globals_s_scheme \<Rightarrow> 'z zb_globals_s_scheme option" where
  "copy_buf dst src g = do {
     d \<leftarrow> get_buf dst g;
     s \<leftarrow> get_buf src g;
     Some (put_param dst (buf_param g src) (put_buf dst (ZB_BUF_COPY d s) g)) }"

definition zb_aps_pass_local_group_pkt_up :: "nat \<Rightarrow> 'z zb_globals_s_scheme \<Rightarrow> 'z zb_globals_s_scheme option" where
  "zb_aps_pass_local_group_pkt_up param g = do {
     let q = local_dup_q (aps_group (aps g));
     zb_assert (\<not> ZB_RING_BUFFER_IS_EMPTY q);
     let out_param = ZB_RING_BUFFER_GET q;
     g1 \<leftarrow> copy_buf param out_param (upd_group (\<lambda>t. t\<lparr>local_dup_q := ZB_RING_BUFFER_FLUSH_GET q\<rparr>) g);
     g2 \<leftarrow> schedule_buf Cb_zb_nlde_data_request out_param g1;
     p \<leftarrow> get_buf param g2;
     (h, p1) \<leftarrow> zb_aps_hdr_parse False p;
     schedule_buf Cb_zb_aps_pass_up_group_buf param (put_param param
       (Aps_hdr (h\<lparr>ah_src_addr := mac_short_address (pib g2)\<rparr>)) (put_buf param p1 g2)) }"

definition zb_aps_pass_up_group_buf :: "nat \<Rightarrow> 'z zb_globals_s_scheme \<Rightarrow> 'z zb_globals_s_scheme option" where
  "zb_aps_pass_up_group_buf param g =
     (if ZB_RING_BUFFER_IS_FULL (pass_up_q (aps_group (aps g))) then zb_free_buf param g
      else do {
        p \<leftarrow> get_buf param g;
        let g1 = put_buf param (p\<lparr>b_handle := 0\<rparr>) g;
        case active_pass_up_buf (aps_group (aps g1)) of
          None \<Rightarrow> map_option fst (zb_get_in_buf_delayed Cb_zb_aps_pass_group_msg_up
            (upd_group (\<lambda>t. t\<lparr>active_pass_up_buf := Some param\<rparr>) g1))
        | Some _ \<Rightarrow> Some (upd_group (\<lambda>t. t\<lparr>pass_up_q := ZB_RING_BUFFER_PUT param (pass_up_q t)\<rparr>) g1) })"

text \<open>
  The endpoint whose turn it is, counted in the \<^verbatim>\<open>handle\<close> of the frame; \<open>None\<close> when there is no such group or none is
  left.
\<close>

definition next_endpoint :: "zb_uint8_t \<Rightarrow> zb_uint16_t \<Rightarrow> zb_aps_group_table \<Rightarrow> zb_uint8_t option option" where
  "next_endpoint handle a G = do {
     r \<leftarrow> find_group 0 G a;
     case r of
       None \<Rightarrow> Some None
     | Some i \<Rightarrow>
         if unat handle \<ge> ge_n_endpoints (groups G ! i) then Some None
         else map_option Some (aget (ge_endpoints (groups G ! i)) (unat handle)) }"

text \<open>The frame is done: the next one gets the buffer \<open>param\<close>.\<close>

definition group_msg_done :: "nat \<Rightarrow> nat \<Rightarrow> 'z zb_globals_s_scheme \<Rightarrow> 'z zb_globals_s_scheme option" where
  "group_msg_done active param g = do {
     g1 \<leftarrow> zb_free_buf active g;
     let q = pass_up_q (aps_group (aps g1));
     if \<not> ZB_RING_BUFFER_IS_EMPTY q then
       schedule_buf Cb_zb_aps_pass_group_msg_up param (upd_group (\<lambda>t. t\<lparr>
         active_pass_up_buf := Some (ZB_RING_BUFFER_GET q), pass_up_q := ZB_RING_BUFFER_FLUSH_GET q\<rparr>) g1)
     else zb_free_buf param (upd_group (\<lambda>t. t\<lparr>active_pass_up_buf := None\<rparr>) g1) }"

definition group_msg_copy :: "nat \<Rightarrow> nat \<Rightarrow> zb_uint8_t \<Rightarrow> 'z zb_globals_s_scheme \<Rightarrow> 'z zb_globals_s_scheme option" where
  "group_msg_copy active param ep g = do {
     g1 \<leftarrow> copy_buf param active g;
     p \<leftarrow> get_buf param g1;
     let g2 = put_buf param (p\<lparr>b_handle := 0\<rparr>) g1;
     g3 \<leftarrow> (case buf_param g2 param of
         Aps_hdr h \<Rightarrow> Some (put_param param (Aps_hdr (h\<lparr>ah_dst_endpoint := Some ep\<rparr>)) g2) | _ \<Rightarrow> None);
     a \<leftarrow> get_buf active g3;
     g4 \<leftarrow> schedule_buf Cb_zb_apsde_data_indication param (put_buf active (a\<lparr>b_handle := b_handle a + 1\<rparr>) g3);
     map_option fst (zb_get_in_buf_delayed Cb_zb_aps_pass_group_msg_up g4) }"

definition zb_aps_pass_group_msg_up :: "nat \<Rightarrow> 'z zb_globals_s_scheme \<Rightarrow> 'z zb_globals_s_scheme option" where
  "zb_aps_pass_group_msg_up param g = do {
     active \<leftarrow> active_pass_up_buf (aps_group (aps g));
     a \<leftarrow> get_buf active g;
     ga \<leftarrow> (case buf_param g active of Aps_hdr h \<Rightarrow> ah_group_addr h | _ \<Rightarrow> None);
     r \<leftarrow> next_endpoint (b_handle a) ga (aps_group (aps g));
     case r of
       None \<Rightarrow> group_msg_done active param g
     | Some ep \<Rightarrow> group_msg_copy active param ep g }"

section \<open>Indications\<close>

text \<open>The parsed header goes to the tail of the buffer; its values are the typed parameter.\<close>

definition ZB_APS_HDR_T_SIZE :: nat where "ZB_APS_HDR_T_SIZE = 15"

definition assign_hdr :: "nat \<Rightarrow> zb_aps_hdr \<Rightarrow> 'z zb_globals_s_scheme \<Rightarrow> 'z zb_globals_s_scheme option" where
  "assign_hdr param h g = do {
     p \<leftarrow> get_buf param g;
     p1 \<leftarrow> zb_buf_assign_param (replicate ZB_APS_HDR_T_SIZE 0) (of_nat ZB_APS_HDR_T_SIZE) p;
     Some (put_param param (Aps_hdr h) (put_buf param p1 g)) }"

text \<open>A duplicate is freed; a new frame goes to the commands, to the application or to the endpoints of a group.\<close>

definition deliver_frame_up :: "bool \<Rightarrow> nat \<Rightarrow> zb_aps_hdr \<Rightarrow> 'z zb_globals_s_scheme \<Rightarrow> 'z zb_globals_s_scheme option" where
  "deliver_frame_up pro param h g = do {
     (g1, dup) \<leftarrow> aps_check_dups (ah_src_addr h) (ah_aps_counter h) g;
     if dup then zb_free_buf param g1
     else do {
       g2 \<leftarrow> assign_hdr param h g1;
       if ZB_APS_FC_GET_FRAME_TYPE (ah_fc h) = ZB_APS_FRAME_COMMAND then zb_aps_in_command_handle pro param g2
       else if \<not> (ZB_APS_FC_GET_FRAME_TYPE (ah_fc h) = ZB_APS_FRAME_DATA \<and> is_group (ah_fc h)) then
         schedule_buf Cb_zb_apsde_data_indication param g2
       else schedule_buf Cb_zb_aps_pass_up_group_buf param g2 } }"

definition zb_nlde_data_indication_continue :: "bool \<Rightarrow> nat \<Rightarrow> 'z zb_globals_s_scheme \<Rightarrow> 'z zb_globals_s_scheme option" where
  "zb_nlde_data_indication_continue pro param g = do {
     p \<leftarrow> get_buf param g;
     (h, p1) \<leftarrow> zb_aps_hdr_parse True p;
     let g1 = put_buf param p1 g;
     g2 \<leftarrow> (if rt_ack_buf (retrans (aps g1)) \<noteq> 255 then do {
         g' \<leftarrow> aps_ack_send_handle (rt_ack_buf (retrans (aps g1))) h g1;
         Some (upd_retrans (\<lambda>r. r\<lparr>rt_ack_buf := 255\<rparr>) g') }
       else Some g1);
     deliver_frame_up pro param h g2 }"

text \<open>The frame control, read behind a network header that is still there.\<close>

definition peek_aps_fc :: "zb_buf \<Rightarrow> zb_uint8_t option" where
  "peek_aps_fc p = do {
     f0 \<leftarrow> rd8 (b_buf p) (ZB_BUF_BEGIN p);
     f1 \<leftarrow> rd8 (b_buf p) (ZB_BUF_BEGIN p + 1);
     rd8 (b_buf p) (ZB_BUF_BEGIN p + zb_nwk_hdr_size (f0, f1)) }"

definition zb_nlde_data_indication :: "bool \<Rightarrow> nat \<Rightarrow> 'z zb_globals_s_scheme \<Rightarrow> 'z zb_globals_s_scheme option" where
  "zb_nlde_data_indication pro param g = do {
     p \<leftarrow> get_buf param g;
     fc \<leftarrow> peek_aps_fc p;
     if ZB_APS_FC_GET_FRAME_TYPE fc = ZB_APS_FRAME_ACK then do {
       (h, p1) \<leftarrow> zb_aps_hdr_parse True p;
       g1 \<leftarrow> aps_ack_frame_handle h (put_buf param p1 g);
       zb_free_buf param g1 }
     else if ZB_APS_FC_GET_ACK_REQUEST fc \<noteq> 0 \<and> \<not> ZB_RING_BUFFER_IS_FULL (rt_ack_q (retrans (aps g))) then
       map_option fst (zb_get_out_buf_delayed Cb_zb_aps_send_ack_and_continue
         (upd_retrans (\<lambda>r. r\<lparr>rt_ack_q := ZB_RING_BUFFER_PUT param (rt_ack_q r)\<rparr>) g))
     else zb_nlde_data_indication_continue pro param g }"

definition zb_aps_send_ack_and_continue :: "bool \<Rightarrow> nat \<Rightarrow> 'z zb_globals_s_scheme \<Rightarrow> 'z zb_globals_s_scheme option" where
  "zb_aps_send_ack_and_continue pro param g = do {
     let in_pkt = ZB_RING_BUFFER_GET (rt_ack_q (retrans (aps g)));
     zb_nlde_data_indication_continue pro in_pkt
       (upd_retrans (\<lambda>r. r\<lparr>rt_ack_q := ZB_RING_BUFFER_FLUSH_GET (rt_ack_q r), rt_ack_buf := param\<rparr>) g) }"

section \<open>The information base\<close>

text \<open>An attribute identifier and a status have four bytes.\<close>

definition ZB_APS_AIB_DESIGNATED_COORD :: zb_uint32_t where "ZB_APS_AIB_DESIGNATED_COORD = 0xc2"

definition ZB_APS_AIB_CHANNEL_MASK :: zb_uint32_t where "ZB_APS_AIB_CHANNEL_MASK = 0xc3"

definition ZB_APS_AIB_USE_EXT_PANID :: zb_uint32_t where "ZB_APS_AIB_USE_EXT_PANID = 0xc4"

definition ZB_APS_AIB_NONMEMBER_RADIUS :: zb_uint32_t where "ZB_APS_AIB_NONMEMBER_RADIUS = 0xc6"

definition ZB_APS_AIB_USE_INSECURE_JOIN :: zb_uint32_t where "ZB_APS_AIB_USE_INSECURE_JOIN = 0xc8"

definition ZB_APS_STATUS_UNSUPPORTED_ATTRIBUTE :: zb_uint32_t where "ZB_APS_STATUS_UNSUPPORTED_ATTRIBUTE = 0xb0"

lemmas aib_attr_defs = ZB_APS_AIB_DESIGNATED_COORD_def ZB_APS_AIB_CHANNEL_MASK_def ZB_APS_AIB_USE_EXT_PANID_def
  ZB_APS_AIB_NONMEMBER_RADIUS_def ZB_APS_AIB_USE_INSECURE_JOIN_def

text \<open>
  The length of a value, the bytes of it that are written and the status. Of the channel mask only the first of
  four bytes is written; the others are what the buffer held.
\<close>

definition aib_value :: "zb_uint32_t \<Rightarrow> zb_apsib \<Rightarrow> nat \<times> zb_uint8_t list \<times> zb_uint32_t" where
  "aib_value attr a =
     (if attr = ZB_APS_AIB_DESIGNATED_COORD then (1, [aps_designated_coordinator a], 0)
      else if attr = ZB_APS_AIB_USE_INSECURE_JOIN then (1, [aps_insecure_join a], 0)
      else if attr = ZB_APS_AIB_CHANNEL_MASK then (4, [ucast (aps_channel_mask a)], 0)
      else if attr = ZB_APS_AIB_USE_EXT_PANID then (8, aps_use_extended_pan_id a, 0)
      else if attr = ZB_APS_AIB_NONMEMBER_RADIUS then (1, [2], 0)
      else (0, [], ZB_APS_STATUS_UNSUPPORTED_ATTRIBUTE))"

definition zb_apsme_get_request :: "nat \<Rightarrow> 'z zb_globals_s_scheme \<Rightarrow> 'z zb_globals_s_scheme option" where
  "zb_apsme_get_request param g = do {
     p \<leftarrow> get_buf param g;
     attr \<leftarrow> rd32 (b_buf p) (ZB_BUF_BEGIN p);
     let (n, bytes, status) = aib_value attr (aib (aps g));
     (p1, c) \<leftarrow> zb_buf_initial_alloc (of_nat (9 + n)) p;
     m \<leftarrow> blit (b_buf p1) c (htole32 status @ htole32 attr @ [of_nat n] @ bytes);
     schedule_buf Cb_zb_apsme_get_confirm param (put_buf param (p1\<lparr>b_buf := m\<rparr>) g) }"

definition zb_apsme_get_confirm :: "nat \<Rightarrow> 'z zb_globals_s_scheme \<Rightarrow> 'z zb_globals_s_scheme option" where
  "zb_apsme_get_confirm param g = zb_free_buf param g"

text \<open>The new information base and the status; a byte is the new channel mask.\<close>

definition set_aib :: "zb_uint32_t \<Rightarrow> zb_uint8_t list \<Rightarrow> nat \<Rightarrow> zb_apsib \<Rightarrow> (zb_apsib \<times> zb_uint32_t) option" where
  "set_aib attr m p a =
     (if attr = ZB_APS_AIB_DESIGNATED_COORD then do { v \<leftarrow> rd8 m p; Some (a\<lparr>aps_designated_coordinator := v\<rparr>, 0) }
      else if attr = ZB_APS_AIB_USE_INSECURE_JOIN then do { v \<leftarrow> rd8 m p; Some (a\<lparr>aps_insecure_join := v\<rparr>, 0) }
      else if attr = ZB_APS_AIB_CHANNEL_MASK then do { v \<leftarrow> rd8 m p; Some (a\<lparr>aps_channel_mask := ucast v\<rparr>, 0) }
      else if attr = ZB_APS_AIB_USE_EXT_PANID then do { v \<leftarrow> rdn 8 m p; Some (a\<lparr>aps_use_extended_pan_id := v\<rparr>, 0) }
      else Some (a, ZB_APS_STATUS_UNSUPPORTED_ATTRIBUTE))"

definition zb_apsme_set_request :: "nat \<Rightarrow> 'z zb_globals_s_scheme \<Rightarrow> 'z zb_globals_s_scheme option" where
  "zb_apsme_set_request param g = do {
     p \<leftarrow> get_buf param g;
     attr \<leftarrow> rd32 (b_buf p) (ZB_BUF_BEGIN p);
     (a, status) \<leftarrow> set_aib attr (b_buf p) (ZB_BUF_BEGIN p + 5) (aib (aps g));
     p1 \<leftarrow> fill_packet (htole32 status @ htole32 attr) p;
     schedule_buf Cb_zb_apsme_set_confirm param (put_buf param p1 (upd_aib (\<lambda>_. a) g)) }"

definition zb_apsme_set_confirm :: "nat \<Rightarrow> 'z zb_globals_s_scheme \<Rightarrow> 'z zb_globals_s_scheme option" where
  "zb_apsme_set_confirm param g = zb_free_buf param g"

end
