(* ===== verification/Zb_Aps_Arq.thy ===== *)
theory Zb_Aps_Arq
  imports Zb_Aps_Retrans Zb_Nwk_Mesh_Runs
begin

text \<open>
  The retransmission of APS frames as a protocol: an abstract machine for one frame, which is sent, waits for its
  acknowledgement, is sent again when the time is up, and is confirmed to the layer above. The handlers of
  \<^theory_text>\<open>Zb_Aps_Retrans\<close> refine it on the entry that they find. Over any run of the handlers that touch an entry,
  whatever the rest of the stack does in between, a data frame is given to the network layer at most three times
  and confirmed at most once, and exactly when its entry has become free.
\<close>

section \<open>The abstract machine\<close>

text \<open>
  A frame that the network layer has not confirmed yet, with a flag for an acknowledgement that came before the
  confirm; a frame that waits for its acknowledgement. The number is that of the alarms that are left.
\<close>

datatype arq = Arq_idle | Arq_sending bool nat | Arq_waiting nat

datatype arq_event = Arq_confirmed | Arq_acked | Arq_timeout

datatype arq_output = Arq_transmit | Arq_success | Arq_failure

fun arq_step :: "arq_event \<Rightarrow> arq \<Rightarrow> arq \<times> arq_output list" where
  "arq_step Arq_confirmed (Arq_sending False n) = (Arq_waiting n, [])"
| "arq_step Arq_confirmed (Arq_sending True n) = (Arq_idle, [Arq_success])"
| "arq_step Arq_acked (Arq_sending False n) = (Arq_sending True n, [])"
| "arq_step Arq_acked (Arq_sending True n) = (Arq_idle, [Arq_success])"
| "arq_step Arq_acked (Arq_waiting n) = (Arq_idle, [Arq_success])"
| "arq_step Arq_timeout (Arq_sending a n) = (Arq_sending a (n - 1), [])"
| "arq_step Arq_timeout (Arq_waiting n) =
     (if n \<le> 1 then (Arq_idle, [Arq_failure]) else (Arq_sending False (n - 1), [Arq_transmit]))"
| "arq_step _ s = (s, [])"

text \<open>The steps that are left, alarms during a transmission not counted.\<close>

fun arq_rank :: "arq \<Rightarrow> nat" where
  "arq_rank Arq_idle = 0"
| "arq_rank (Arq_sending False n) = 2 * max 1 n"
| "arq_rank (Arq_sending True n) = 1"
| "arq_rank (Arq_waiting n) = 2 * max 1 n - 1"

text \<open>The transmissions that are left.\<close>

fun arq_left :: "arq \<Rightarrow> nat" where
  "arq_left Arq_idle = 0"
| "arq_left (Arq_sending _ n) = n - 1"
| "arq_left (Arq_waiting n) = n - 1"

definition arq_sent :: "arq_output list \<Rightarrow> nat" where
  "arq_sent os = length (filter (\<lambda>x. x = Arq_transmit) os)"

definition arq_ended :: "arq_output list \<Rightarrow> nat" where
  "arq_ended os = length (filter (\<lambda>x. x \<noteq> Arq_transmit) os)"

definition arq_live :: "arq \<Rightarrow> nat" where "arq_live s = of_bool (s \<noteq> Arq_idle)"

definition arq_stalled :: "arq_event \<Rightarrow> arq \<Rightarrow> bool" where
  "arq_stalled ev s \<longleftrightarrow> ev = Arq_timeout \<and> (\<exists>a n. s = Arq_sending a n)"

lemma arq_cases:
  obtains "s = Arq_idle" | n where "s = Arq_sending False n" | n where "s = Arq_sending True n" | n where "s = Arq_waiting n"
  by (metis (full_types) arq.exhaust)

lemmas arq_counts = arq_sent_def arq_ended_def arq_live_def

lemma arq_step_bounds:
  "arq_sent (snd (arq_step ev s)) + arq_left (fst (arq_step ev s)) \<le> arq_left s" (is ?sent)
  "arq_ended (snd (arq_step ev s)) + arq_live (fst (arq_step ev s)) = arq_live s" (is ?ended)
  "arq_rank (fst (arq_step ev s)) \<le> arq_rank s" (is ?rank)
proof -
  show ?sent by (rule arq_cases [of s]; cases ev; auto simp: arq_counts)
  show ?ended by (rule arq_cases [of s]; cases ev; simp add: arq_counts)
  show ?rank by (rule arq_cases [of s]; cases ev; auto simp: max_def)
qed

lemma arq_step_rank:
  assumes "s \<noteq> Arq_idle" "\<not> arq_stalled ev s" "ev = Arq_confirmed \<longrightarrow> (\<forall>n. s \<noteq> Arq_waiting n)"
  shows "arq_rank (fst (arq_step ev s)) < arq_rank s"
  using assms by (rule_tac arq_cases [of s]; cases ev; simp add: arq_stalled_def) (auto simp: max_def)

section \<open>Entries\<close>

definition arq_of :: "zb_aps_retrans_ent \<Rightarrow> arq" where
  "arq_of e = (case re_state e of
       ZB_APS_RETRANS_ENT_FREE \<Rightarrow> Arq_idle
     | ZB_APS_RETRANS_ENT_SENT_MAC_NOT_CONFIRMED_ALRM_RUNNING \<Rightarrow> Arq_sending False (unat (re_aps_retries e))
     | ZB_APS_RETRANS_ENT_SENT_MAC_NOT_CONFIRMED_APS_ACKED_ALRM_RUNNING \<Rightarrow> Arq_sending True (unat (re_aps_retries e))
     | ZB_APS_RETRANS_ENT_SENT_MAC_CONFIRMED_ALRM_RUNNING \<Rightarrow> Arq_waiting (unat (re_aps_retries e)))"

text \<open>The handlers: the alarm of an entry, an acknowledgement, the confirm of a buffer with the frame control \<open>fc\<close>.\<close>

datatype retrans_event = Re_timer nat | Re_ack zb_aps_hdr | Re_confirm nat zb_uint8_t

fun retrans_step :: "retrans_event \<Rightarrow> 'z zb_globals_s_scheme \<Rightarrow> 'z zb_globals_s_scheme option" where
  "retrans_step (Re_timer i) g = zb_aps_ack_timer_cb i g"
| "retrans_step (Re_ack h) g = aps_ack_frame_handle h g"
| "retrans_step (Re_confirm b fc) g = confirm_retrans b fc g"

fun arq_event_of :: "retrans_event \<Rightarrow> arq_event" where
  "arq_event_of (Re_timer i) = Arq_timeout"
| "arq_event_of (Re_ack h) = Arq_acked"
| "arq_event_of (Re_confirm b fc) = Arq_confirmed"

text \<open>
  An event of the entry \<open>i\<close> of a data frame: its buffer starts with an APS header when the alarm reads it; the
  acknowledgement is the first to match there; the buffer confirmed is that of the entry, and is being sent.
\<close>

fun event_at :: "nat \<Rightarrow> retrans_event \<Rightarrow> 'z zb_globals_s_scheme \<Rightarrow> bool" where
  "event_at i (Re_timer j) g \<longleftrightarrow> j = i \<and> (\<exists>p fc. get_buf (re_buf (re_tab g ! i)) g = Some p
     \<and> rd8 (b_buf p) (ZB_BUF_BEGIN p) = Some fc \<and> ZB_APS_FC_GET_ACK_FORMAT fc = 0)"
| "event_at i (Re_ack h) g \<longleftrightarrow> find_acked h 0 (re_tab g) = Some (Some i) \<and> ZB_APS_FC_GET_ACK_FORMAT (ah_fc h) = 0"
| "event_at i (Re_confirm b fc) g \<longleftrightarrow> find (\<lambda>i. re_buf (re_tab g ! i) = b) [0..<ZB_N_APS_RETRANS_ENTRIES] = Some i
     \<and> ZB_APS_FC_GET_ACK_FORMAT fc = 0 \<and> re_state (re_tab g ! i) \<noteq> ZB_APS_RETRANS_ENT_SENT_MAC_CONFIRMED_ALRM_RUNNING"

text \<open>
  Any event that finds the entry \<open>i\<close>, with whatever frame control: that at the start of the entry's buffer, which the
  alarm reads, that of the acknowledgement, that of the frame confirmed. An event that ends the entry with the frame
  control of a command drops it: the buffer is freed, and nobody is told.
\<close>

fun event_hits :: "nat \<Rightarrow> retrans_event \<Rightarrow> 'z zb_globals_s_scheme \<Rightarrow> bool" where
  "event_hits i (Re_timer j) g \<longleftrightarrow> j = i"
| "event_hits i (Re_ack h) g \<longleftrightarrow> find_acked h 0 (re_tab g) = Some (Some i)"
| "event_hits i (Re_confirm b fc) g \<longleftrightarrow> find (\<lambda>i. re_buf (re_tab g ! i) = b) [0..<ZB_N_APS_RETRANS_ENTRIES] = Some i"

fun event_fc :: "retrans_event \<Rightarrow> 'z zb_globals_s_scheme \<Rightarrow> zb_uint8_t option" where
  "event_fc (Re_timer j) g = do {
     p \<leftarrow> get_buf (re_buf (re_tab g ! j)) g;
     rd8 (b_buf p) (ZB_BUF_BEGIN p) }"
| "event_fc (Re_ack h) g = Some (ah_fc h)"
| "event_fc (Re_confirm b fc) g = Some fc"

definition event_drops :: "nat \<Rightarrow> retrans_event \<Rightarrow> 'z zb_globals_s_scheme \<Rightarrow> bool" where
  "event_drops i ev g \<longleftrightarrow> fst (arq_step (arq_event_of ev) (arq_of (re_tab g ! i))) = Arq_idle
     \<and> (case event_fc ev g of Some fc \<Rightarrow> ZB_APS_FC_GET_ACK_FORMAT fc \<noteq> 0 | None \<Rightarrow> False)"

text \<open>A used entry, and room for one callback.\<close>

definition entry_ok :: "nat \<Rightarrow> 'z zb_globals_s_scheme \<Rightarrow> bool" where
  "entry_ok i g \<longleftrightarrow> i < 10 \<and> length (re_tab g) = 10 \<and> re_state (re_tab g ! i) \<noteq> ZB_APS_RETRANS_ENT_FREE
     \<and> re_buf (re_tab g ! i) < 16 \<and> length (bp_pool (bpool g)) = 16
     \<and> sched_wf (sched g) \<and> length (callbacks (sched g)) < 16"

text \<open>What the outputs are in the stack.\<close>

fun output_cb :: "arq_output \<Rightarrow> zb_callback" where
  "output_cb Arq_transmit = Cb_zb_nlde_data_request"
| "output_cb Arq_success = Cb_zb_apsde_data_confirm"
| "output_cb Arq_failure = Cb_zb_apsde_data_confirm"

fun output_status :: "arq_output \<Rightarrow> zb_uint16_t option" where
  "output_status Arq_transmit = None"
| "output_status Arq_success = Some 0"
| "output_status Arq_failure = Some (ucast (word_of_int RET_NO_ACK :: zb_uint8_t))"

section \<open>What the helpers do to the table\<close>

lemma upd_frames [simp]:
  "re_tab (put_buf b p g) = re_tab g" "re_tab (put_param b v g) = re_tab g"
  "sched (put_buf b p g) = sched g" "sched (put_param b v g) = sched g"
  "sched (re_upd i f g) = sched g" "bpool (re_upd i f g) = bpool g"
  "re_tab (re_upd i f g) = (re_tab g)[i := f (re_tab g ! i)]"
  "re_tab (fill_nldereq b a s g) = re_tab g" "sched (fill_nldereq b a s g) = sched g"
  "bpool (fill_nldereq b a s g) = bpool g"
  for g :: "'z zb_globals_s_scheme"
  by (simp_all add: put_buf_def put_param_def re_upd_def upd_retrans_def upd_aps_def fill_nldereq_def)

lemma re_tab_sched [simp]: "re_tab (g\<lparr>sched := s\<rparr>) = re_tab g" for g :: "'z zb_globals_s_scheme"
  by simp

lemma alarm_start:
  fixes g :: "'z zb_globals_s_scheme"
  assumes "sched_wf (sched g)"
  shows "\<exists>g'. start_ack_timer i g = Some g' \<and> sched_wf (sched g') \<and> callbacks (sched g') = callbacks (sched g)
    \<and> re_tab g' = re_tab g \<and> bpool g' = bpool g"
proof -
  obtain g' r where g': "zb_schedule_alarm Cb_zb_aps_ack_timer_cb (of_nat i) ZB_N_APS_ACK_WAIT_DURATION g = Some (g', r)"
      "sched_wf (sched g')" "tm_only (sched g) (sched g')" "zb_globals.more g' = zb_globals.more g"
    using schedule_alarm_spec [OF assms, of Cb_zb_aps_ack_timer_cb "of_nat i" ZB_N_APS_ACK_WAIT_DURATION] by blast
  moreover have "callbacks (sched g') = callbacks (sched g)" using tm_only_fields [OF g'(3)] by (simp add: callbacks_def)
  moreover have "aps g' = aps g" "bpool g' = bpool g" using more_fields [OF g'(4)] by simp_all
  ultimately show ?thesis by (simp add: start_ack_timer_def)
qed

lemma alarm_stop:
  fixes g :: "'z zb_globals_s_scheme"
  assumes "sched_wf (sched g)" "i < 10"
  shows "\<exists>g'. map_option fst (zb_schedule_alarm_cancel Cb_zb_aps_ack_timer_cb (of_nat i) g) = Some g'
    \<and> callbacks (sched g') = callbacks (sched g) \<and> re_tab g' = re_tab g \<and> bpool g' = bpool g
    \<and> alarms (sched g') = cancel_first (alarm_matches Cb_zb_aps_ack_timer_cb (of_nat i)) (alarms (sched g))"
proof -
  have n: "(of_nat i :: zb_uint8_t) \<noteq> ZB_ALARM_ALL_CB"
  proof
    assume "(of_nat i :: zb_uint8_t) = ZB_ALARM_ALL_CB"
    then have "unat (of_nat i :: zb_uint8_t) = unat ZB_ALARM_ALL_CB" by simp
    then show False using assms(2) unat8_of_nat [of i] by (simp add: ZB_ALARM_ALL_CB_def)
  qed
  obtain s r where s: "zb_schedule_alarm_cancel Cb_zb_aps_ack_timer_cb (of_nat i) g = Some (g\<lparr>sched := s\<rparr>, r)" "tm_only (sched g) s"
      "alarms s = cancel_first (alarm_matches Cb_zb_aps_ack_timer_cb (of_nat i)) (alarms (sched g))"
    using schedule_alarm_cancel_spec [OF assms(1), of Cb_zb_aps_ack_timer_cb "of_nat i"] n by auto
  then show ?thesis using tm_only_fields [OF s(2)] by (auto simp: callbacks_def)
qed

lemma entry_okD:
  assumes "entry_ok i g"
  shows "i < 10" "length (re_tab g) = 10" "re_state (re_tab g ! i) \<noteq> ZB_APS_RETRANS_ENT_FREE"
    "re_buf (re_tab g ! i) < 16" "length (bp_pool (bpool g)) = 16" "sched_wf (sched g)" "length (callbacks (sched g)) < 16"
    "aget (re_tab g) i = Some (re_tab g ! i)"
    "get_buf (re_buf (re_tab g ! i)) g = Some (bp_pool (bpool g) ! re_buf (re_tab g ! i))"
  using assms by (simp_all add: entry_ok_def get_buf_def)

text \<open>The effect of an event: the entry's state, the other entries, the callbacks and the status in the buffer.\<close>

definition event_effect :: "nat \<Rightarrow> arq \<Rightarrow> arq_output list \<Rightarrow> 'z zb_globals_s_scheme \<Rightarrow> 'z zb_globals_s_scheme \<Rightarrow> bool" where
  "event_effect i t os g g' \<longleftrightarrow> arq_of (re_tab g' ! i) = t \<and> length (re_tab g') = 10
     \<and> (\<forall>j. j \<noteq> i \<longrightarrow> re_tab g' ! j = re_tab g ! j)
     \<and> re_buf (re_tab g' ! i) = (if t = Arq_idle then 255 else re_buf (re_tab g ! i))
     \<and> callbacks (sched g') = callbacks (sched g)
         @ map (\<lambda>x. \<lparr>cb_func = output_cb x, cb_param = of_nat (re_buf (re_tab g ! i))\<rparr>) os
     \<and> (\<forall>x st. x \<in> set os \<and> output_status x = Some st \<longrightarrow>
         b_status (bp_pool (bpool g') ! re_buf (re_tab g ! i)) = st)"

lemma done_effect:
  assumes ok: "entry_ok i g" and fc: "ZB_APS_FC_GET_ACK_FORMAT fc = 0" and st: "output_status x = Some (ucast st)"
    "output_cb x = Cb_zb_apsde_data_confirm"
  shows "\<exists>g'. done_with_this_ack i fc st g = Some g' \<and> event_effect i Arq_idle [x] g g'"
proof -
  note o = entry_okD [OF ok]
  let ?b = "re_buf (re_tab g ! i)"
  let ?g1 = "put_buf ?b ((bp_pool (bpool g) ! ?b)\<lparr>b_status := ucast st\<rparr>) g"
  obtain q where q: "schedule_buf Cb_zb_apsde_data_confirm ?b ?g1 = Some (?g1\<lparr>sched := (sched g)\<lparr>cb_q := q\<rparr>\<rparr>)"
      "sched_wf ((sched g)\<lparr>cb_q := q\<rparr>)"
      "callbacks ((sched g)\<lparr>cb_q := q\<rparr>) = callbacks (sched g) @ [\<lparr>cb_func = Cb_zb_apsde_data_confirm, cb_param = of_nat ?b\<rparr>]"
    using schedule_buf_room [of ?g1 ?b Cb_zb_apsde_data_confirm] o(4,6,7) by auto
  let ?f = "\<lambda>e. e\<lparr>re_state := ZB_APS_RETRANS_ENT_FREE, re_addr := -1, re_buf := 255\<rparr>"
  let ?g3 = "re_upd i ?f (?g1\<lparr>sched := (sched g)\<lparr>cb_q := q\<rparr>\<rparr>)"
  obtain g' where g': "map_option fst (zb_schedule_alarm_cancel Cb_zb_aps_ack_timer_cb (of_nat i) ?g3) = Some g'"
      "callbacks (sched g') = callbacks (sched ?g3)" "re_tab g' = re_tab ?g3" "bpool g' = bpool ?g3"
    using alarm_stop [of ?g3 i] q(2) o(1) by auto
  have "done_with_this_ack i fc st g = Some g'"
    using o(8,9) fc q(1) g'(1) by (simp add: done_with_this_ack_def Let_def)
  moreover have "event_effect i Arq_idle [x] g g'"
    using g'(2-4) q(3) o(1,2,4,5) st by (auto simp: event_effect_def arq_of_def put_buf_def)
  ultimately show ?thesis by blast
qed

lemma state_effect:
  assumes "entry_ok i g" "arq_of (f (re_tab g ! i)) = t" "re_buf (f (re_tab g ! i)) = re_buf (re_tab g ! i)" "t \<noteq> Arq_idle"
  shows "event_effect i t [] g (re_upd i f g)"
  using entry_okD(1,2) [OF assms(1)] assms(2-4) by (simp add: event_effect_def)

definition left_after :: "zb_aps_retrans_ent \<Rightarrow> 5 word" where
  "left_after e = (if re_aps_retries e \<noteq> 0 then re_aps_retries e - 1 else re_aps_retries e)"

lemma left_after:
  "unat (left_after e) = unat (re_aps_retries e) - 1"
  "left_after e = 0 \<longleftrightarrow> unat (re_aps_retries e) \<le> 1"
proof -
  show *: "unat (left_after e) = unat (re_aps_retries e) - 1"
    by (cases "re_aps_retries e = 0") (simp_all add: left_after_def unat_minus_one)
  have "left_after e = 0 \<longleftrightarrow> unat (left_after e) = 0" by (simp add: unat_eq_0)
  then show "left_after e = 0 \<longleftrightarrow> unat (re_aps_retries e) \<le> 1" using * by simp
qed

definition counted :: "nat \<Rightarrow> 'z zb_globals_s_scheme \<Rightarrow> 'z zb_globals_s_scheme" where
  "counted i g = re_upd i (\<lambda>e. e\<lparr>re_aps_retries := left_after (re_tab g ! i)\<rparr>) g"

lemma counted_spec:
  fixes g :: "'z zb_globals_s_scheme"
  assumes "entry_ok i g"
  shows "entry_ok i (counted i g)" "sched (counted i g) = sched g" "bpool (counted i g) = bpool g"
    "re_tab (counted i g) = (re_tab g)[i := (re_tab g ! i)\<lparr>re_aps_retries := left_after (re_tab g ! i)\<rparr>]"
    "re_tab (counted i g) ! i = (re_tab g ! i)\<lparr>re_aps_retries := left_after (re_tab g ! i)\<rparr>"
  using assms by (simp_all add: counted_def entry_ok_def)

lemma timer_unfold:
  assumes "entry_ok i g" "rd8 (b_buf (bp_pool (bpool g) ! re_buf (re_tab g ! i)))
      (ZB_BUF_BEGIN (bp_pool (bpool g) ! re_buf (re_tab g ! i))) = Some fc"
  shows "zb_aps_ack_timer_cb i g =
     (if left_after (re_tab g ! i) = 0 \<and> re_state (re_tab g ! i) = ZB_APS_RETRANS_ENT_SENT_MAC_CONFIRMED_ALRM_RUNNING then
        done_with_this_ack i fc (word_of_int RET_NO_ACK) (counted i g)
      else do {
        g2 \<leftarrow> start_ack_timer i (counted i g);
        if re_state (re_tab g ! i) = ZB_APS_RETRANS_ENT_SENT_MAC_CONFIRMED_ALRM_RUNNING then
          schedule_buf Cb_zb_nlde_data_request (re_buf (re_tab g ! i))
            (re_upd i (\<lambda>e. e\<lparr>re_state := ZB_APS_RETRANS_ENT_SENT_MAC_NOT_CONFIRMED_ALRM_RUNNING\<rparr>)
              (fill_nldereq (re_buf (re_tab g ! i)) (re_addr (re_tab g ! i))
                (\<not> (re_nwk_insecure (re_tab g ! i) \<or> ZB_APS_FC_GET_SECURITY fc \<noteq> 0)) g2))
        else Some g2 })"
  by (simp only: zb_aps_ack_timer_cb_def entry_okD(8,9) [OF assms(1)] assms(2) bind.bind_lunit Let_def
        counted_def left_after_def)

lemma timer_ends:
  assumes ok: "entry_ok i g" and fc: "rd8 (b_buf (bp_pool (bpool g) ! re_buf (re_tab g ! i)))
      (ZB_BUF_BEGIN (bp_pool (bpool g) ! re_buf (re_tab g ! i))) = Some fc" "ZB_APS_FC_GET_ACK_FORMAT fc = 0"
    and st: "left_after (re_tab g ! i) = 0" "re_state (re_tab g ! i) = ZB_APS_RETRANS_ENT_SENT_MAC_CONFIRMED_ALRM_RUNNING"
  shows "\<exists>g'. zb_aps_ack_timer_cb i g = Some g' \<and> event_effect i Arq_idle [Arq_failure] g g'"
proof -
  note c = counted_spec [OF ok]
  obtain g' where g': "done_with_this_ack i fc (word_of_int RET_NO_ACK) (counted i g) = Some g'"
      "event_effect i Arq_idle [Arq_failure] (counted i g) g'"
    using done_effect [OF c(1) fc(2), of Arq_failure "word_of_int RET_NO_ACK"] by auto
  have "event_effect i Arq_idle [Arq_failure] g g'"
    using g'(2) c(2,4,5) by (simp add: event_effect_def)
  then show ?thesis using g'(1) timer_unfold [OF ok fc(1)] st by simp
qed

lemma timer_resends:
  assumes ok: "entry_ok i g" and fc: "rd8 (b_buf (bp_pool (bpool g) ! re_buf (re_tab g ! i)))
      (ZB_BUF_BEGIN (bp_pool (bpool g) ! re_buf (re_tab g ! i))) = Some fc"
    and st: "left_after (re_tab g ! i) \<noteq> 0" "re_state (re_tab g ! i) = ZB_APS_RETRANS_ENT_SENT_MAC_CONFIRMED_ALRM_RUNNING"
  shows "\<exists>g'. zb_aps_ack_timer_cb i g = Some g'
    \<and> event_effect i (Arq_sending False (unat (left_after (re_tab g ! i)))) [Arq_transmit] g g'"
proof -
  note o = entry_okD [OF ok] and c = counted_spec [OF ok]
  let ?b = "re_buf (re_tab g ! i)"
  obtain g2 where g2: "start_ack_timer i (counted i g) = Some g2" "sched_wf (sched g2)" "callbacks (sched g2) = callbacks (sched g)"
      "re_tab g2 = re_tab (counted i g)"
    using alarm_start [of "counted i g" i] o(6) c(2) by auto
  define g3 where "g3 = re_upd i (\<lambda>e. e\<lparr>re_state := ZB_APS_RETRANS_ENT_SENT_MAC_NOT_CONFIRMED_ALRM_RUNNING\<rparr>)
      (fill_nldereq ?b (re_addr (re_tab g ! i)) (\<not> (re_nwk_insecure (re_tab g ! i) \<or> ZB_APS_FC_GET_SECURITY fc \<noteq> 0)) g2)"
  have g3: "sched g3 = sched g2" "re_tab g3 = (re_tab g)[i := (re_tab g ! i)\<lparr>re_aps_retries := left_after (re_tab g ! i),
      re_state := ZB_APS_RETRANS_ENT_SENT_MAC_NOT_CONFIRMED_ALRM_RUNNING\<rparr>]"
    unfolding g3_def using g2(4) c(4) o(1,2) by simp_all
  obtain q where q: "schedule_buf Cb_zb_nlde_data_request ?b g3 = Some (g3\<lparr>sched := (sched g2)\<lparr>cb_q := q\<rparr>\<rparr>)"
      "callbacks ((sched g2)\<lparr>cb_q := q\<rparr>) = callbacks (sched g) @ [\<lparr>cb_func = Cb_zb_nlde_data_request, cb_param = of_nat ?b\<rparr>]"
    using schedule_buf_room [of g3 ?b Cb_zb_nlde_data_request] o(4,7) g2(2,3) g3(1) by auto
  have "zb_aps_ack_timer_cb i g = Some (g3\<lparr>sched := (sched g2)\<lparr>cb_q := q\<rparr>\<rparr>)"
    using timer_unfold [OF ok fc] st g2(1) q(1) by (simp add: g3_def)
  moreover have "event_effect i (Arq_sending False (unat (left_after (re_tab g ! i)))) [Arq_transmit] g
      (g3\<lparr>sched := (sched g2)\<lparr>cb_q := q\<rparr>\<rparr>)"
    using o(1,2) g3(2) q(2) by (simp add: event_effect_def arq_of_def)
  ultimately show ?thesis by blast
qed

lemma timer_counts:
  assumes ok: "entry_ok i g" and fc: "rd8 (b_buf (bp_pool (bpool g) ! re_buf (re_tab g ! i)))
      (ZB_BUF_BEGIN (bp_pool (bpool g) ! re_buf (re_tab g ! i))) = Some fc"
    and st: "arq_of (re_tab g ! i) = Arq_sending a m"
  shows "\<exists>g'. zb_aps_ack_timer_cb i g = Some g' \<and> event_effect i (Arq_sending a (m - 1)) [] g g'"
proof -
  note o = entry_okD [OF ok] and c = counted_spec [OF ok]
  obtain g2 where g2: "start_ack_timer i (counted i g) = Some g2" "callbacks (sched g2) = callbacks (sched g)"
      "re_tab g2 = re_tab (counted i g)"
    using alarm_start [of "counted i g" i] o(6) c(2) by auto
  have n: "re_state (re_tab g ! i) \<noteq> ZB_APS_RETRANS_ENT_SENT_MAC_CONFIRMED_ALRM_RUNNING"
    using st by (auto simp: arq_of_def)
  have "arq_of ((re_tab g ! i)\<lparr>re_aps_retries := left_after (re_tab g ! i)\<rparr>) = Arq_sending a (m - 1)"
    using st left_after(1) [of "re_tab g ! i"] by (auto simp: arq_of_def split: zb_aps_retrans_ent_state.splits)
  then have "event_effect i (Arq_sending a (m - 1)) [] g g2"
    using o(1,2) g2(2,3) c(4) by (simp add: event_effect_def)
  then show ?thesis using timer_unfold [OF ok fc] n g2(1) by simp
qed

lemma timer_effect:
  assumes ok: "entry_ok i g" and ev: "event_fc (Re_timer i) g = Some fc" "t = Arq_idle \<longrightarrow> ZB_APS_FC_GET_ACK_FORMAT fc = 0"
    and t: "arq_step Arq_timeout (arq_of (re_tab g ! i)) = (t, os)"
  shows "\<exists>g'. zb_aps_ack_timer_cb i g = Some g' \<and> event_effect i t os g g'"
proof -
  have fc: "rd8 (b_buf (bp_pool (bpool g) ! re_buf (re_tab g ! i)))
        (ZB_BUF_BEGIN (bp_pool (bpool g) ! re_buf (re_tab g ! i))) = Some fc" using ev(1) entry_okD(9) [OF ok] by simp
  note l = left_after [of "re_tab g ! i"]
  show ?thesis
  proof (cases "re_state (re_tab g ! i) = ZB_APS_RETRANS_ENT_SENT_MAC_CONFIRMED_ALRM_RUNNING")
    case True
    then have s: "arq_of (re_tab g ! i) = Arq_waiting (unat (re_aps_retries (re_tab g ! i)))" by (simp add: arq_of_def)
    show ?thesis
    proof (cases "left_after (re_tab g ! i) = 0")
      case n0: True
      then have "t = Arq_idle" "os = [Arq_failure]" using t s l(2) by simp_all
      then show ?thesis using timer_ends [OF ok fc _ n0 True] ev(2) by simp
    next
      case n1: False
      then have "t = Arq_sending False (unat (left_after (re_tab g ! i)))" "os = [Arq_transmit]" using t s l by simp_all
      then show ?thesis using timer_resends [OF ok fc n1 True] by simp
    qed
  next
    case False
    then obtain a m where am: "arq_of (re_tab g ! i) = Arq_sending a m"
      using entry_okD(3) [OF ok] by (cases "re_state (re_tab g ! i)") (auto simp: arq_of_def)
    then have "t = Arq_sending a (m - 1)" "os = []" using t by simp_all
    then show ?thesis using timer_counts [OF ok fc am] by simp
  qed
qed

lemma ack_effect:
  assumes ok: "entry_ok i g" and ev: "event_hits i (Re_ack h) g" "t = Arq_idle \<longrightarrow> ZB_APS_FC_GET_ACK_FORMAT (ah_fc h) = 0"
    and t: "arq_step Arq_acked (arq_of (re_tab g ! i)) = (t, os)"
  shows "\<exists>g'. aps_ack_frame_handle h g = Some g' \<and> event_effect i t os g g'"
proof (cases "re_state (re_tab g ! i) = ZB_APS_RETRANS_ENT_SENT_MAC_NOT_CONFIRMED_ALRM_RUNNING")
  case True
  then have "t = Arq_sending True (unat (re_aps_retries (re_tab g ! i)))" "os = []" using t by (simp_all add: arq_of_def)
  then show ?thesis using ev True
      state_effect [OF ok, of "\<lambda>e. e\<lparr>re_state := ZB_APS_RETRANS_ENT_SENT_MAC_NOT_CONFIRMED_APS_ACKED_ALRM_RUNNING\<rparr>"]
    by (simp add: aps_ack_frame_handle_def arq_of_def)
next
  case False
  then have "t = Arq_idle" "os = [Arq_success]"
    using t entry_okD(3) [OF ok] by (cases "re_state (re_tab g ! i)"; simp add: arq_of_def)+
  then show ?thesis using ev False done_effect [OF ok, of "ah_fc h" Arq_success 0]
    by (simp add: aps_ack_frame_handle_def)
qed

lemma confirm_effect:
  assumes ok: "entry_ok i g" and ev: "event_hits i (Re_confirm b fc) g" "t = Arq_idle \<longrightarrow> ZB_APS_FC_GET_ACK_FORMAT fc = 0"
    "re_state (re_tab g ! i) \<noteq> ZB_APS_RETRANS_ENT_SENT_MAC_CONFIRMED_ALRM_RUNNING"
    and t: "arq_step Arq_confirmed (arq_of (re_tab g ! i)) = (t, os)"
  shows "\<exists>g'. confirm_retrans b fc g = Some g' \<and> event_effect i t os g g'"
proof (cases "re_state (re_tab g ! i) = ZB_APS_RETRANS_ENT_SENT_MAC_NOT_CONFIRMED_ALRM_RUNNING")
  case True
  then have "t = Arq_waiting (unat (re_aps_retries (re_tab g ! i)))" "os = []" using t by (simp_all add: arq_of_def)
  then show ?thesis using ev True
      state_effect [OF ok, of "\<lambda>e. e\<lparr>re_state := ZB_APS_RETRANS_ENT_SENT_MAC_CONFIRMED_ALRM_RUNNING\<rparr>"]
    by (simp add: confirm_retrans_def arq_of_def)
next
  case False
  then have st: "re_state (re_tab g ! i) = ZB_APS_RETRANS_ENT_SENT_MAC_NOT_CONFIRMED_APS_ACKED_ALRM_RUNNING"
    using ev entry_okD(3) [OF ok] by (cases "re_state (re_tab g ! i)") simp_all
  then have "t = Arq_idle" "os = [Arq_success]" using t by (simp_all add: arq_of_def)
  then show ?thesis using ev st done_effect [OF ok, of fc Arq_success 0] by (simp add: confirm_retrans_def)
qed

section \<open>The refinement\<close>

lemma hits_effect:
  assumes ok: "entry_ok i g" and hits: "event_hits i ev g" and fc: "event_fc ev g = Some fc"
    "fst (arq_step (arq_event_of ev) (arq_of (re_tab g ! i))) = Arq_idle \<longrightarrow> ZB_APS_FC_GET_ACK_FORMAT fc = 0"
    and conf: "arq_event_of ev = Arq_confirmed
      \<longrightarrow> re_state (re_tab g ! i) \<noteq> ZB_APS_RETRANS_ENT_SENT_MAC_CONFIRMED_ALRM_RUNNING"
  shows "\<exists>g'. retrans_step ev g = Some g'
    \<and> event_effect i (fst (arq_step (arq_event_of ev) (arq_of (re_tab g ! i))))
        (snd (arq_step (arq_event_of ev) (arq_of (re_tab g ! i)))) g g'"
proof (cases ev)
  case (Re_timer j)
  then show ?thesis using hits fc timer_effect [OF ok, of fc] by simp
next
  case (Re_ack h)
  then show ?thesis using hits fc ack_effect [OF ok, of h] by simp
next
  case (Re_confirm b fc')
  then show ?thesis using hits fc conf confirm_effect [OF ok, of b fc'] by simp
qed

lemma step_effect:
  assumes "entry_ok i g" "event_at i ev g"
  shows "\<exists>g'. retrans_step ev g = Some g'
    \<and> event_effect i (fst (arq_step (arq_event_of ev) (arq_of (re_tab g ! i))))
        (snd (arq_step (arq_event_of ev) (arq_of (re_tab g ! i)))) g g'"
proof -
  have "event_hits i ev g" using assms(2) by (cases ev) simp_all
  moreover obtain fc where "event_fc ev g = Some fc" "ZB_APS_FC_GET_ACK_FORMAT fc = 0" using assms(2) by (cases ev) auto
  moreover have "arq_event_of ev = Arq_confirmed
      \<longrightarrow> re_state (re_tab g ! i) \<noteq> ZB_APS_RETRANS_ENT_SENT_MAC_CONFIRMED_ALRM_RUNNING" using assms(2) by (cases ev) simp_all
  ultimately show ?thesis using hits_effect [OF assms(1)] by blast
qed

section \<open>Any event of an entry\<close>

text \<open>An event that the handlers survive: the frame control has been read, and the confirm did not come twice.\<close>

lemma step_survives:
  assumes ok: "entry_ok i g" and hits: "event_hits i ev g" and st: "retrans_step ev g = Some g'"
  obtains fc where "event_fc ev g = Some fc"
    "arq_event_of ev = Arq_confirmed \<longrightarrow> re_state (re_tab g ! i) \<noteq> ZB_APS_RETRANS_ENT_SENT_MAC_CONFIRMED_ALRM_RUNNING"
proof (cases ev)
  case (Re_timer j)
  then show ?thesis using that hits st entry_okD(8) [OF ok]
    by (auto simp: zb_aps_ack_timer_cb_def bind_eq_Some_conv)
next
  case (Re_ack h)
  then show ?thesis using that by simp
next
  case (Re_confirm b fc)
  then have "re_state (re_tab g ! i) \<noteq> ZB_APS_RETRANS_ENT_SENT_MAC_CONFIRMED_ALRM_RUNNING"
    using hits st by (auto simp: confirm_retrans_def zb_assert_def)
  then show ?thesis using that Re_confirm by simp
qed

text \<open>Without a drop it is a step of the machine.\<close>

lemma step_keeps_machine:
  assumes "entry_ok i g" "event_hits i ev g" "\<not> event_drops i ev g" "retrans_step ev g = Some g'"
  shows "event_effect i (fst (arq_step (arq_event_of ev) (arq_of (re_tab g ! i))))
        (snd (arq_step (arq_event_of ev) (arq_of (re_tab g ! i)))) g g'"
proof -
  obtain fc where "event_fc ev g = Some fc"
    "arq_event_of ev = Arq_confirmed \<longrightarrow> re_state (re_tab g ! i) \<noteq> ZB_APS_RETRANS_ENT_SENT_MAC_CONFIRMED_ALRM_RUNNING"
    using step_survives [OF assms(1,2,4)] by blast
  then show ?thesis using hits_effect [OF assms(1,2)] assms(3,4) by (auto simp: event_drops_def)
qed

lemma alarm_cancel_loop_queue:
  "alarm_cancel_loop n f p e s r = Some (s', r') \<Longrightarrow> cb_q s' = cb_q s"
proof (induction n arbitrary: e s r)
  case 0
  then show ?case by (cases e) simp_all
next
  case (Suc n)
  show ?case
  proof (cases e)
    case None
    then show ?thesis using Suc.prems by simp
  next
    case (Some x)
    show ?thesis
    proof (cases "alarm_matches f p (tm_buffer s ! x)")
      case False
      then show ?thesis using Suc Some by (simp add: Let_def)
    next
      case True
      then obtain L q where "ZB_LIST_REMOVE (tm_links s) (tm_queue s) x = Some (L, q)"
        using Suc.prems Some by (auto simp: Let_def bind_eq_Some_conv)
      moreover obtain L' fl where "ZB_STK_PUSH L (tm_freelist s) x = (L', fl)" by (rule prod.exhaust)
      ultimately show ?thesis
        using Suc.prems Some True Suc.IH [of _ "s\<lparr>tm_links := L', tm_queue := q, tm_freelist := fl\<rparr>"]
        by (auto simp: Let_def split: if_splits)
    qed
  qed
qed

lemma alarm_cancel_queue:
  assumes "zb_schedule_alarm_cancel f p g = Some (g', r)"
  shows "\<exists>s. g' = g\<lparr>sched := s\<rparr> \<and> callbacks s = callbacks (sched g)"
  using assms alarm_cancel_loop_queue by (auto simp: zb_schedule_alarm_cancel_def bind_eq_Some_conv callbacks_def)

text \<open>
  A drop frees the buffer, and the entry; the only callback that it can put in the queue is the one that
  \<open>zb_free_buf\<close> schedules when a request waits for a buffer and is given this one.
\<close>

definition freed_entry :: "zb_aps_retrans_ent \<Rightarrow> zb_aps_retrans_ent" where
  "freed_entry = (\<lambda>e. e\<lparr>re_state := ZB_APS_RETRANS_ENT_FREE, re_addr := -1, re_buf := 255\<rparr>)"

definition dropped :: "nat \<Rightarrow> 'z zb_globals_s_scheme \<Rightarrow> 'z zb_globals_s_scheme \<Rightarrow> bool" where
  "dropped i g g' \<longleftrightarrow> re_tab g' = (re_tab g)[i := freed_entry (re_tab g' ! i)]
     \<and> (\<exists>(g1 :: 'z zb_globals_s_scheme) g2. sched g1 = sched g \<and> zb_free_buf (re_buf (re_tab g ! i)) g1 = Some g2
         \<and> callbacks (sched g') = callbacks (sched g2))"

lemma done_drops:
  fixes g :: "'z zb_globals_s_scheme"
  assumes ok: "entry_ok i g" and fc: "ZB_APS_FC_GET_ACK_FORMAT fc \<noteq> 0" and d: "done_with_this_ack i fc status g = Some g'"
  shows "dropped i g g'"
proof -
  let ?b = "re_buf (re_tab g ! i)"
  let ?g1 = "put_buf ?b ((bp_pool (bpool g) ! ?b)\<lparr>b_status := ucast status\<rparr>) g"
  obtain g2 r where g2: "zb_free_buf ?b ?g1 = Some g2"
      "zb_schedule_alarm_cancel Cb_zb_aps_ack_timer_cb (of_nat i) (re_upd i freed_entry g2) = Some (g', r)"
    using d fc entry_okD(8,9) [OF ok] by (auto simp: done_with_this_ack_def bind_eq_Some_conv simp flip: freed_entry_def)
  have "re_tab g2 = re_tab g" using free_buf_fields [OF g2(1)] by auto
  then have "re_tab (re_upd i freed_entry g2) = (re_tab g)[i := freed_entry (re_tab g ! i)]" by simp
  moreover obtain s where s: "g' = (re_upd i freed_entry g2)\<lparr>sched := s\<rparr>" "callbacks s = callbacks (sched g2)"
    using alarm_cancel_queue [OF g2(2)] by auto
  ultimately have "re_tab g' = (re_tab g)[i := freed_entry (re_tab g ! i)]" by simp
  then have "re_tab g' = (re_tab g)[i := freed_entry (re_tab g' ! i)]"
    using entry_okD(1,2) [OF ok] by (simp add: freed_entry_def)
  moreover have "sched ?g1 = sched g" by simp
  moreover have "callbacks (sched g') = callbacks (sched g2)" using s by simp
  ultimately show ?thesis unfolding dropped_def using g2(1) by blast
qed

lemma step_drops:
  fixes g :: "'z zb_globals_s_scheme"
  assumes ok: "entry_ok i g" and hits: "event_hits i ev g" and drop: "event_drops i ev g" and st: "retrans_step ev g = Some g'"
  shows "dropped i g g'"
proof -
  obtain fc where fc: "event_fc ev g = Some fc" "ZB_APS_FC_GET_ACK_FORMAT fc \<noteq> 0"
    and t: "fst (arq_step (arq_event_of ev) (arq_of (re_tab g ! i))) = Arq_idle"
    using drop by (auto simp: event_drops_def split: option.splits)
  show ?thesis
  proof (cases ev)
    case (Re_timer j)
    have n: "re_state (re_tab g ! i) = ZB_APS_RETRANS_ENT_SENT_MAC_CONFIRMED_ALRM_RUNNING" "left_after (re_tab g ! i) = 0"
      using t entry_okD(3) [OF ok] left_after(2) [of "re_tab g ! i"] Re_timer
      by (cases "re_state (re_tab g ! i)"; simp add: arq_of_def split: if_splits)+
    note c = counted_spec [OF ok]
    have "done_with_this_ack i fc (word_of_int RET_NO_ACK) (counted i g) = Some g'"
      using st fc(1) n hits Re_timer entry_okD(9) [OF ok] timer_unfold [OF ok, of fc] by simp
    from done_drops [OF c(1) fc(2) this] show ?thesis
      using c(2,4,5) entry_okD(2) [OF ok] by (simp add: dropped_def)
  next
    case (Re_ack h)
    then have "re_state (re_tab g ! i) \<noteq> ZB_APS_RETRANS_ENT_SENT_MAC_NOT_CONFIRMED_ALRM_RUNNING"
      using t by (auto simp: arq_of_def)
    then have "done_with_this_ack i (ah_fc h) 0 g = Some g'" using st hits Re_ack by (simp add: aps_ack_frame_handle_def)
    then show ?thesis using done_drops [OF ok] fc Re_ack by simp
  next
    case (Re_confirm b fc')
    then have "re_state (re_tab g ! i) = ZB_APS_RETRANS_ENT_SENT_MAC_NOT_CONFIRMED_APS_ACKED_ALRM_RUNNING"
      using t entry_okD(3) [OF ok] by (cases "re_state (re_tab g ! i)") (auto simp: arq_of_def)
    then have "done_with_this_ack i fc' 0 g = Some g'" using st hits Re_confirm by (simp add: confirm_retrans_def)
    then show ?thesis using done_drops [OF ok] fc Re_confirm by simp
  qed
qed

end
