(* ===== verification/Zb_Aps_Runs.thy ===== *)
theory Zb_Aps_Runs
  imports Zb_Aps_Arq Zb_Nwk_Main_Demo
begin

text \<open>
  Runs of the retransmission: what happens to one entry over any sequence of alarms, acknowledgements and confirms,
  with anything in between that leaves the entry alone. The properties of the sending side and their examples.
\<close>

section \<open>Runs\<close>

text \<open>
  \<open>entry_run i g g' cs k n\<close>: from \<open>g\<close> to \<open>g'\<close> there were \<open>n\<close> events of the entry \<open>i\<close>, the alarms during a
  transmission not counted: any alarm with its index, any acknowledgement that the search finds it for and any
  confirm of its buffer, each with whatever frame control. The handlers have put the callbacks \<open>cs\<close> for the frame in
  the queue, and \<open>k\<close> of the events dropped the frame, which leaves no callback for it (\<open>step_drops\<close>).
  Other code may do anything to the rest of the state; that there is room in the queue is only needed when an
  event comes.
\<close>

inductive entry_run :: "nat \<Rightarrow> 'z zb_globals_s_scheme \<Rightarrow> 'z zb_globals_s_scheme \<Rightarrow> zb_cb_q_ent list \<Rightarrow> nat \<Rightarrow> nat \<Rightarrow> bool"
  for i and g :: "'z zb_globals_s_scheme" where
  run_start: "entry_run i g g [] 0 0"
| run_other: "\<lbrakk>entry_run i g g1 cs k n; re_tab g2 ! i = re_tab g1 ! i\<rbrakk> \<Longrightarrow> entry_run i g g2 cs k n"
| run_event: "\<lbrakk>entry_run i g g1 cs k n; entry_ok i g1; event_hits i ev g1; \<not> event_drops i ev g1;
      retrans_step ev g1 = Some g2; callbacks (sched g2) = callbacks (sched g1) @ ds\<rbrakk>
    \<Longrightarrow> entry_run i g g2 (cs @ ds) k
      (if arq_stalled (arq_event_of ev) (arq_of (re_tab g1 ! i)) then n else n + 1)"
| run_drop: "\<lbrakk>entry_run i g g1 cs k n; entry_ok i g1; event_hits i ev g1; event_drops i ev g1;
      retrans_step ev g1 = Some g2\<rbrakk> \<Longrightarrow> entry_run i g g2 cs (k + 1) (n + 1)"

definition asked :: "zb_cb_q_ent list \<Rightarrow> nat" where
  "asked cs = length (filter (\<lambda>c. cb_func c = Cb_zb_nlde_data_request) cs)"

definition confirmed :: "zb_cb_q_ent list \<Rightarrow> nat" where
  "confirmed cs = length (filter (\<lambda>c. cb_func c = Cb_zb_apsde_data_confirm) cs)"

lemma counts_append [simp]:
  "asked (cs @ ds) = asked cs + asked ds" "confirmed (cs @ ds) = confirmed cs + confirmed ds"
  by (simp_all add: asked_def confirmed_def)

lemma counts_outputs:
  "asked (map (\<lambda>x. \<lparr>cb_func = output_cb x, cb_param = b\<rparr>) os) = arq_sent os"
  "confirmed (map (\<lambda>x. \<lparr>cb_func = output_cb x, cb_param = b\<rparr>) os) = arq_ended os"
proof -
  have o: "(output_cb x = Cb_zb_nlde_data_request) = (x = Arq_transmit)"
    "(output_cb x = Cb_zb_apsde_data_confirm) = (x \<noteq> Arq_transmit)" for x by (cases x; simp)+
  show "asked (map (\<lambda>x. \<lparr>cb_func = output_cb x, cb_param = b\<rparr>) os) = arq_sent os"
    "confirmed (map (\<lambda>x. \<lparr>cb_func = output_cb x, cb_param = b\<rparr>) os) = arq_ended os"
    by (simp_all add: asked_def confirmed_def arq_counts filter_map comp_def o)
qed

lemma arq_idle_iff: "arq_of e = Arq_idle \<longleftrightarrow> re_state e = ZB_APS_RETRANS_ENT_FREE"
  by (simp add: arq_of_def split: zb_aps_retrans_ent_state.split)

text \<open>One event: the counts, the rank and the buffer.\<close>

lemma event_counts:
  assumes ok: "entry_ok i g" and ev: "event_hits i ev g" "\<not> event_drops i ev g" and st: "retrans_step ev g = Some g'"
    and cs: "callbacks (sched g') = callbacks (sched g) @ ds"
  shows "asked ds + arq_left (arq_of (re_tab g' ! i)) \<le> arq_left (arq_of (re_tab g ! i))"
    "confirmed ds + arq_live (arq_of (re_tab g' ! i)) = arq_live (arq_of (re_tab g ! i))"
    "arq_rank (arq_of (re_tab g' ! i)) + of_bool (\<not> arq_stalled (arq_event_of ev) (arq_of (re_tab g ! i)))
      \<le> arq_rank (arq_of (re_tab g ! i))"
    "re_state (re_tab g' ! i) = ZB_APS_RETRANS_ENT_FREE \<or> re_buf (re_tab g' ! i) = re_buf (re_tab g ! i)"
    "\<forall>c \<in> set ds. cb_param c = of_nat (re_buf (re_tab g ! i))"
proof -
  let ?s = "arq_of (re_tab g ! i)" and ?a = "arq_event_of ev"
  have ef: "event_effect i (fst (arq_step ?a ?s)) (snd (arq_step ?a ?s)) g g'"
    by (rule step_keeps_machine [OF ok ev st])
  then have t: "arq_of (re_tab g' ! i) = fst (arq_step ?a ?s)"
    and d: "ds = map (\<lambda>x. \<lparr>cb_func = output_cb x, cb_param = of_nat (re_buf (re_tab g ! i))\<rparr>) (snd (arq_step ?a ?s))"
    and b: "arq_of (re_tab g' ! i) \<noteq> Arq_idle \<longrightarrow> re_buf (re_tab g' ! i) = re_buf (re_tab g ! i)"
    using cs by (auto simp: event_effect_def)
  show "asked ds + arq_left (arq_of (re_tab g' ! i)) \<le> arq_left ?s"
    "confirmed ds + arq_live (arq_of (re_tab g' ! i)) = arq_live ?s"
    using arq_step_bounds(1,2) [of ?a ?s] by (simp_all add: t d counts_outputs)
  show "re_state (re_tab g' ! i) = ZB_APS_RETRANS_ENT_FREE \<or> re_buf (re_tab g' ! i) = re_buf (re_tab g ! i)"
    using b by (auto simp: arq_idle_iff)
  show "\<forall>c \<in> set ds. cb_param c = of_nat (re_buf (re_tab g ! i))" by (auto simp: d)
  have idle: "?s \<noteq> Arq_idle" using entry_okD(3) [OF ok] by (simp add: arq_idle_iff)
  have conf: "?a = Arq_confirmed \<longrightarrow> (\<forall>n. ?s \<noteq> Arq_waiting n)"
    using step_survives [OF ok ev(1) st] by (auto simp: arq_of_def split: zb_aps_retrans_ent_state.splits)
  show "arq_rank (arq_of (re_tab g' ! i)) + of_bool (\<not> arq_stalled ?a ?s) \<le> arq_rank ?s"
    using arq_step_rank [OF idle _ conf] arq_step_bounds(3) [of ?a ?s]
    by (cases "arq_stalled ?a ?s") (simp_all add: t Suc_le_eq)
qed

text \<open>A drop: the entry was used, and had a step left.\<close>

lemma drop_counts:
  assumes ok: "entry_ok i g" and ev: "event_hits i ev g" "event_drops i ev g" and st: "retrans_step ev g = Some g'"
  shows "arq_of (re_tab g' ! i) = Arq_idle" "arq_live (arq_of (re_tab g ! i)) = 1" "0 < arq_rank (arq_of (re_tab g ! i))"
proof -
  have "re_tab g' = (re_tab g)[i := freed_entry (re_tab g' ! i)]"
    using step_drops [OF ok ev st] by (simp add: dropped_def)
  then have "re_tab g' ! i = freed_entry (re_tab g' ! i)" using entry_okD(1,2) [OF ok] by (metis nth_list_update_eq)
  moreover have "re_state (freed_entry e) = ZB_APS_RETRANS_ENT_FREE" for e by (simp add: freed_entry_def)
  ultimately have "re_state (re_tab g' ! i) = ZB_APS_RETRANS_ENT_FREE" by metis
  then show "arq_of (re_tab g' ! i) = Arq_idle" by (simp add: arq_idle_iff)
  have idle: "arq_of (re_tab g ! i) \<noteq> Arq_idle" using entry_okD(3) [OF ok] by (simp add: arq_idle_iff)
  then show "arq_live (arq_of (re_tab g ! i)) = 1" by (simp add: arq_live_def)
  show "0 < arq_rank (arq_of (re_tab g ! i))" using idle by (rule_tac arq_cases [of "arq_of (re_tab g ! i)"]) auto
qed

lemma entry_run_counts:
  assumes "entry_run i g g' cs k n"
  shows "asked cs + arq_left (arq_of (re_tab g' ! i)) \<le> arq_left (arq_of (re_tab g ! i))
    \<and> confirmed cs + k + arq_live (arq_of (re_tab g' ! i)) = arq_live (arq_of (re_tab g ! i))
    \<and> n + arq_rank (arq_of (re_tab g' ! i)) \<le> arq_rank (arq_of (re_tab g ! i))
    \<and> (re_state (re_tab g' ! i) = ZB_APS_RETRANS_ENT_FREE \<or> re_buf (re_tab g' ! i) = re_buf (re_tab g ! i))
    \<and> (\<forall>c \<in> set cs. cb_param c = of_nat (re_buf (re_tab g ! i)))"
  using assms
proof induction
  case run_start
  then show ?case by (simp add: asked_def confirmed_def)
next
  case (run_other g1 cs k n g2)
  then show ?case by simp
next
  case (run_event g1 cs k n ev g2 ds)
  note c = event_counts [OF run_event(2-6)]
  have b: "re_buf (re_tab g1 ! i) = re_buf (re_tab g ! i)"
    using run_event.IH entry_okD(3) [OF run_event(2)] by simp
  show ?case using run_event.IH c b by (auto split: if_splits)
next
  case (run_drop g1 cs k n ev g2)
  note c = drop_counts [OF run_drop(2-5)]
  have "re_state (re_tab g2 ! i) = ZB_APS_RETRANS_ENT_FREE" using c(1) by (simp add: arq_idle_iff)
  then show ?case using run_drop.IH c by (simp add: arq_live_def)
qed

text \<open>
  C4: the retransmission of a data frame is the abstract machine: on a used entry, with room in the queue, an
  alarm, an acknowledgement or a confirm of the network layer never fails an assertion, and it does to the entry
  what \<open>arq_step\<close> does to the state of one frame: the entry's state is the machine's, no other entry changes,
  exactly the callbacks of the machine's outputs are queued for the entry's buffer, and the status that the layer
  above gets there is success or \<open>RET_NO_ACK\<close> as the output says.
\<close>

theorem retransmission_refines_arq:
  assumes "entry_ok i g" "event_at i ev g"
  shows "\<exists>g'. retrans_step ev g = Some g'
    \<and> event_effect i (fst (arq_step (arq_event_of ev) (arq_of (re_tab g ! i))))
        (snd (arq_step (arq_event_of ev) (arq_of (re_tab g ! i)))) g g'"
  by (rule step_effect [OF assms])


section \<open>The acknowledgement finds its frame\<close>

lemma saved_entry:
  assumes "save_ack_data b req g0 = (g, 0, i)" "find_free_re g0 = Some i" "length (re_tab g0) = 10"
  shows "re_tab g = (re_tab g0)[i := re_tab g ! i]" "i < 10"
    "re_state (re_tab g ! i) = ZB_APS_RETRANS_ENT_SENT_MAC_NOT_CONFIRMED_ALRM_RUNNING"
    "re_buf (re_tab g ! i) = b" "re_clusterid (re_tab g ! i) = adr_clusterid req"
    "re_aps_counter (re_tab g ! i) = aps_counter (aib (aps g0)) - 1"
    "re_src_endpoint (re_tab g ! i) = adr_src_endpoint req" "re_dst_endpoint (re_tab g ! i) = adr_dst_endpoint req"
    "adr_addr_mode req = ZB_APS_ADDR_MODE_16_ENDP_PRESENT \<Longrightarrow> re_addr (re_tab g ! i) = req_short req"
proof -
  show i: "i < 10" using assms(2) by (auto simp: find_free_re_def find_Some_iff ZB_N_APS_RETRANS_ENTRIES_def)
  show "re_tab g = (re_tab g0)[i := re_tab g ! i]"
    "re_state (re_tab g ! i) = ZB_APS_RETRANS_ENT_SENT_MAC_NOT_CONFIRMED_ALRM_RUNNING"
    "re_buf (re_tab g ! i) = b" "re_clusterid (re_tab g ! i) = adr_clusterid req"
    "re_aps_counter (re_tab g ! i) = aps_counter (aib (aps g0)) - 1"
    "re_src_endpoint (re_tab g ! i) = adr_src_endpoint req" "re_dst_endpoint (re_tab g ! i) = adr_dst_endpoint req"
    "adr_addr_mode req = ZB_APS_ADDR_MODE_16_ENDP_PRESENT \<Longrightarrow> re_addr (re_tab g ! i) = req_short req"
    using assms i by (auto simp: save_ack_data_def re_upd_def upd_retrans_def upd_aps_def)
qed

text \<open>The acknowledgement has the bytes of a data header: that of a request with the endpoints exchanged.\<close>

definition ack_fc :: zb_uint8_t where "ack_fc = ZB_APS_FC_SET_ACK_FORMAT 0 (ZB_APS_FC_SET_FRAME_TYPE ZB_APS_FRAME_ACK 0)"

definition answer_to :: "zb_apsde_data_req \<Rightarrow> zb_apsde_data_req" where
  "answer_to req = req\<lparr>adr_dst_endpoint := adr_src_endpoint req, adr_src_endpoint := adr_dst_endpoint req\<rparr>"

lemma ack_fc_facts: "ZB_APS_FC_GET_ACK_FORMAT ack_fc = 0" "\<not> is_group ack_fc" "ZB_APS_FC_GET_FRAME_TYPE ack_fc = ZB_APS_FRAME_ACK"
  unfolding is_group_def by code_simp+

lemma ack_hdr_datareq:
  assumes "\<not> is_group fc" "ZB_APS_FC_GET_FRAME_TYPE fc \<noteq> ZB_APS_FRAME_COMMAND"
  shows "ack_hdr (datareq_parsed src dst fc req cnt) = Some (datareq_hdr ack_fc (answer_to req) cnt)"
  using assms ack_fc_facts(2) by (simp add: ack_hdr_def datareq_parsed_def datareq_hdr_def answer_to_def ack_fc_def)

lemma ack_fill_spec:
  assumes "ack_hdr h = Some bytes" "length bytes < 148" "buf_wf p"
  shows "\<exists>p'. ack_fill h p = Some p' \<and> buf_wf p' \<and> buf_data p' = bytes"
  using fill_packet_spec [OF assms(2,3)] assms(1) by (auto simp: ack_fill_def)

section \<open>Errors\<close>

text \<open>
  C37: a second acknowledgement takes the buffer from the network layer. When a frame is being sent that has
  been acknowledged already, another acknowledgement of it confirms the frame to the layer above and frees the entry
  although the network layer still has the buffer; the confirm of the network layer then finds no entry and
  frees the buffer, which belongs to the layer above by now.
\<close>

theorem second_ack_frees_sent_buffer:
  fixes g :: "'z zb_globals_s_scheme"
  assumes ok: "entry_ok i g" and ev: "event_at i (Re_ack h) g"
    and st: "re_state (re_tab g ! i) = ZB_APS_RETRANS_ENT_SENT_MAC_NOT_CONFIRMED_APS_ACKED_ALRM_RUNNING"
    and b: "re_buf (re_tab g ! i) = b" "\<forall>j. j < 10 \<and> j \<noteq> i \<longrightarrow> re_buf (re_tab g ! j) \<noteq> b"
  shows "\<exists>g'. aps_ack_frame_handle h g = Some g'
    \<and> callbacks (sched g') = callbacks (sched g) @ [\<lparr>cb_func = Cb_zb_apsde_data_confirm, cb_param = of_nat b\<rparr>]
    \<and> confirm_retrans b fc g' = zb_free_buf b g'"
proof -
  have t: "arq_step Arq_acked (arq_of (re_tab g ! i)) = (Arq_idle, [Arq_success])" using st by (simp add: arq_of_def)
  obtain g' where g': "aps_ack_frame_handle h g = Some g'" "event_effect i Arq_idle [Arq_success] g g'"
    using ack_effect [OF ok _ _ t] ev by auto
  have e: "re_buf (re_tab g' ! j) \<noteq> b" if "j < 10" for j
    using that b g'(2) entry_okD(4) [OF ok] by (cases "j = i") (auto simp: event_effect_def)
  then have "find (\<lambda>j. re_buf (re_tab g' ! j) = b) [0..<ZB_N_APS_RETRANS_ENTRIES] = None"
    by (auto simp: find_None_iff ZB_N_APS_RETRANS_ENTRIES_def)
  then have "confirm_retrans b fc g' = zb_free_buf b g'" by (simp add: confirm_retrans_def)
  then show ?thesis using g' b(1) by (auto simp: event_effect_def)
qed

text \<open>
  What can happen to the table after the entry \<open>i\<close> has been taken without an alarm: the alarms of other entries,
  acknowledgements that are for none or for another entry, confirms of any buffer, other frames and commands that take
  entries, and anything that leaves the table alone.
\<close>

inductive lost_run :: "nat \<Rightarrow> 'z zb_globals_s_scheme \<Rightarrow> 'z zb_globals_s_scheme \<Rightarrow> bool"
  for i and g :: "'z zb_globals_s_scheme" where
  lost_start: "lost_run i g g"
| lost_event: "\<lbrakk>lost_run i g g1; ev \<noteq> Re_timer i; \<forall>h. ev = Re_ack h \<longrightarrow> \<not> event_hits i ev g1;
      retrans_step ev g1 = Some g2\<rbrakk> \<Longrightarrow> lost_run i g g2"
| lost_save: "\<lbrakk>lost_run i g g1; save_ack_data b req g1 = (g2, r, j)\<rbrakk> \<Longrightarrow> lost_run i g g2"
| lost_command: "\<lbrakk>lost_run i g g1; zb_aps_send_command b dest cmd secure g1 = Some g2\<rbrakk> \<Longrightarrow> lost_run i g g2"
| lost_other: "\<lbrakk>lost_run i g g1; re_tab g2 = re_tab g1\<rbrakk> \<Longrightarrow> lost_run i g g2"

definition stuck :: "nat \<Rightarrow> 'z zb_globals_s_scheme \<Rightarrow> bool" where
  "stuck i g \<longleftrightarrow> length (re_tab g) = 10 \<and> re_state (re_tab g ! i) \<in>
     {ZB_APS_RETRANS_ENT_SENT_MAC_NOT_CONFIRMED_ALRM_RUNNING, ZB_APS_RETRANS_ENT_SENT_MAC_CONFIRMED_ALRM_RUNNING}"

lemma stuck_used: "stuck i g \<Longrightarrow> re_state (re_tab g ! i) \<noteq> ZB_APS_RETRANS_ENT_FREE"
  by (auto simp: stuck_def)

text \<open>Each operation changes one entry at most: the one that the event is for, or a free one.\<close>

lemma start_timer_tab: "start_ack_timer j g = Some g' \<Longrightarrow> re_tab g' = re_tab g"
  for g g' :: "'z zb_globals_s_scheme"
  by (auto simp: start_ack_timer_def zb_schedule_alarm_def Let_def bind_eq_Some_conv split: prod.splits option.splits)

lemma schedule_tab: "schedule_buf f b g = Some g' \<Longrightarrow> re_tab g' = re_tab g" for g g' :: "'z zb_globals_s_scheme"
  by (drule schedule_buf_sched) auto

lemma free_tab: "zb_free_buf b g = Some g' \<Longrightarrow> re_tab g' = re_tab g" for g g' :: "'z zb_globals_s_scheme"
  by (drule free_buf_fields) auto

lemma done_tab:
  fixes g g' :: "'z zb_globals_s_scheme"
  assumes "done_with_this_ack j fc status g = Some g'" shows "\<exists>e. re_tab g' = (re_tab g)[j := e]"
  using assms by (auto simp: done_with_this_ack_def Let_def bind_eq_Some_conv split: if_splits
      dest!: alarm_cancel_queue free_tab schedule_tab)

lemma step_tab:
  fixes g g' :: "'z zb_globals_s_scheme"
  assumes "retrans_step ev g = Some g'"
  shows "re_tab g' = re_tab g \<or> (\<exists>j e. event_hits j ev g \<and> re_tab g' = (re_tab g)[j := e])"
proof (cases ev)
  case (Re_timer j)
  obtain e p fc where e: "aget (re_tab g) j = Some e" "get_buf (re_buf e) g = Some p"
      "rd8 (b_buf p) (ZB_BUF_BEGIN p) = Some fc"
    using assms Re_timer by (auto simp: zb_aps_ack_timer_cb_def bind_eq_Some_conv)
  define f where "f = re_upd j (\<lambda>x. x\<lparr>re_aps_retries := if re_aps_retries e \<noteq> 0 then re_aps_retries e - 1 else re_aps_retries e\<rparr>) g"
  have "(\<exists>st. done_with_this_ack j fc st f = Some g') \<or> (\<exists>g2. start_ack_timer j f = Some g2 \<and>
      (g' = g2 \<or> (\<exists>cb b h a sec. schedule_buf cb b (re_upd j h (fill_nldereq b a sec g2)) = Some g')))"
    using assms unfolding Re_timer retrans_step.simps zb_aps_ack_timer_cb_def Let_def e bind.bind_lunit f_def [symmetric]
    by (auto simp: bind_eq_Some_conv split: if_splits)
  then have "\<exists>x. re_tab g' = (re_tab g)[j := x]"
  proof (elim disjE exE conjE)
    fix st assume "done_with_this_ack j fc st f = Some g'"
    from done_tab [OF this] show ?thesis by (auto simp: f_def)
  next
    fix g2 assume t: "start_ack_timer j f = Some g2" "g' = g2"
    show ?thesis using start_timer_tab [OF t(1)] t(2) by (auto simp: f_def)
  next
    fix g2 cb b h a sec
    assume t: "start_ack_timer j f = Some g2" "schedule_buf cb b (re_upd j h (fill_nldereq b a sec g2)) = Some g'"
    show ?thesis using start_timer_tab [OF t(1)] schedule_tab [OF t(2)] by (auto simp: f_def)
  qed
  then show ?thesis using Re_timer by auto
next
  case (Re_ack h)
  then show ?thesis using assms by (fastforce simp: aps_ack_frame_handle_def bind_eq_Some_conv
        split: option.splits if_splits dest: done_tab)
next
  case (Re_confirm b fc)
  then show ?thesis using assms by (fastforce simp: confirm_retrans_def bind_eq_Some_conv
        split: option.splits if_splits dest: done_tab free_tab)
qed

lemma free_re_state: "find_free_re g = Some j \<Longrightarrow> re_state (re_tab g ! j) = ZB_APS_RETRANS_ENT_FREE"
  by (auto simp: find_free_re_def find_Some_iff)

lemma stuck_put: "stuck i g \<Longrightarrow> j \<noteq> i \<Longrightarrow> re_tab g' = (re_tab g)[j := e] \<Longrightarrow> stuck i g'"
  by (simp add: stuck_def)

lemma stuck_take:
  assumes "stuck i g" "re_tab g' = re_tab g \<or> (\<exists>j e. find_free_re g = Some j \<and> re_tab g' = (re_tab g)[j := e])"
  shows "stuck i g'"
  using assms(2)
proof
  assume "re_tab g' = re_tab g"
  then show ?thesis using assms(1) by (simp add: stuck_def)
next
  assume "\<exists>j e. find_free_re g = Some j \<and> re_tab g' = (re_tab g)[j := e]"
  then obtain j e where j: "find_free_re g = Some j" "re_tab g' = (re_tab g)[j := e]" by blast
  have "j \<noteq> i" using free_re_state [OF j(1)] assms(1) by (auto simp: stuck_def)
  then show ?thesis using stuck_put [OF assms(1) _ j(2)] by simp
qed

lemma save_tab:
  fixes g g' :: "'z zb_globals_s_scheme"
  assumes "save_ack_data b req g = (g', r, j)"
  shows "re_tab g' = re_tab g \<or> (\<exists>j e. find_free_re g = Some j \<and> re_tab g' = (re_tab g)[j := e])"
  using assms by (auto simp: save_ack_data_def split: option.splits)

lemma command_tab:
  fixes g g' :: "'z zb_globals_s_scheme"
  assumes "zb_aps_send_command b dest cmd secure g = Some g'"
  shows "re_tab g' = re_tab g \<or> (\<exists>j e. find_free_re g = Some j \<and> re_tab g' = (re_tab g)[j := e])"
  using assms
  by (auto simp: zb_aps_send_command_def Let_def bind_eq_Some_conv upd_aib_def upd_aps_def
      dest!: schedule_tab start_timer_tab split: option.splits if_splits)

text \<open>A confirm of the entry's buffer moves it on once; a second one fails the assertion.\<close>

lemma stuck_confirm:
  fixes g g' :: "'z zb_globals_s_scheme"
  assumes "stuck i g" "i < 10" "event_hits i (Re_confirm b fc) g" "retrans_step (Re_confirm b fc) g = Some g'"
  shows "stuck i g'"
  using assms by (auto simp: stuck_def confirm_retrans_def)

lemma lost_run_stuck:
  assumes "lost_run i g g'" "stuck i g" "i < 10"
  shows "stuck i g'"
  using assms
proof induction
  case (lost_event g1 ev g2)
  then have s: "stuck i g1" by simp
  from step_tab [OF lost_event(4)] show ?case
  proof
    assume "re_tab g2 = re_tab g1"
    then show ?thesis using s by (simp add: stuck_def)
  next
    assume "\<exists>j e. event_hits j ev g1 \<and> re_tab g2 = (re_tab g1)[j := e]"
    then obtain j e where j: "event_hits j ev g1" "re_tab g2 = (re_tab g1)[j := e]" by blast
    show ?thesis
    proof (cases "j = i")
      case False
      then show ?thesis using stuck_put [OF s] j(2) by blast
    next
      case True
      then obtain b fc where "ev = Re_confirm b fc" using lost_event(2,3) j(1) by (cases ev) auto
      then show ?thesis using stuck_confirm [OF s lost_event.prems(2)] j(1) True lost_event(4) by blast
    qed
  qed
next
  case (lost_save g1 b req g2 r j)
  then show ?case using stuck_take [OF _ save_tab [OF lost_save(2)]] by simp
next
  case (lost_command g1 b dest cmd secure g2)
  then show ?case using stuck_take [OF _ command_tab [OF lost_command(2)]] by simp
qed (simp_all add: stuck_def)

text \<open>
  C38: the last entry of the table is lost. When only the tenth entry is free, \<open>save_ack_data\<close> takes it and still
  reports a full table: the frame is not sent, and the layer above gets its buffer back with that status. But the
  entry stays in use, with a buffer that the layer above is free to use again, and no alarm was started for it. In
  every later run in which no acknowledgement is found for it, although its frame was never sent, and no alarm has
  its index, it is still in use, whatever else is sent, acknowledged and confirmed, the buffer itself included.
\<close>

theorem last_entry_is_lost:
  fixes g :: "'z zb_globals_s_scheme"
  assumes last: "find_free_re g = Some 9" "length (re_tab g) = 10"
    and b: "get_buf b g = Some p" "buf_wf p" "unat (b_len p) \<le> 138" "b < 16"
    and fc: "ZB_APS_FC_GET_ACK_FORMAT fc = 0"
    and room: "sched_wf (sched g)" "length (callbacks (sched g)) < 16"
  shows "\<exists>g' p'. send_acked E b fc dst req g = Some g'
    \<and> callbacks (sched g') = callbacks (sched g) @ [\<lparr>cb_func = Cb_zb_apsde_data_confirm, cb_param = of_nat b\<rparr>]
    \<and> get_buf b g' = Some p' \<and> b_status p' = ucast ZB_APS_STATUS_TABLE_FULL
    \<and> alarms (sched g') = alarms (sched g) \<and> find_free_re g' = None
    \<and> re_state (re_tab g' ! 9) = ZB_APS_RETRANS_ENT_SENT_MAC_NOT_CONFIRMED_ALRM_RUNNING \<and> re_buf (re_tab g' ! 9) = b
    \<and> (\<forall>h. lost_run 9 g' h \<longrightarrow> re_state (re_tab h ! 9) \<noteq> ZB_APS_RETRANS_ENT_FREE)"
proof -
  obtain p1 where p1: "aps_data_hdr_fill_datareq fc req (aps_counter (aib (aps g))) p = Some p1"
    using fill_datareq_spec [OF b(2,3) fc] by blast
  define g1 where "g1 = upd_aib (\<lambda>a. a\<lparr>aps_counter := aps_counter a + 1\<rparr>) (put_buf b p1 g)"
  have f: "fill_datareq b fc req g = Some g1" using b(1) p1 by (simp add: fill_datareq_def g1_def)
  have g1: "re_tab g1 = re_tab g" "sched g1 = sched g" "get_buf b g1 = Some p1"
    using b(1) by (auto simp: g1_def upd_aib_def upd_aps_def put_buf_def get_buf_def aget_def split: if_splits)
  have free: "find_free_re g1 = Some 9" using last(1) by (simp add: find_free_re_def g1(1))
  obtain g2 where g2: "save_ack_data b req g1 = (g2, ZB_APS_STATUS_TABLE_FULL, 9)"
      "re_tab g2 = (re_tab g)[9 := re_tab g2 ! 9]" "re_buf (re_tab g2 ! 9) = b"
      "re_state (re_tab g2 ! 9) = ZB_APS_RETRANS_ENT_SENT_MAC_NOT_CONFIRMED_ALRM_RUNNING"
      "sched g2 = sched g" "get_buf b g2 = Some p1"
    using free g1 last(2)
    by (auto simp: save_ack_data_def re_upd_def upd_retrans_def upd_aps_def ZB_N_APS_RETRANS_ENTRIES_def get_buf_def)
  define g3 where "g3 = put_buf b (p1\<lparr>b_status := ucast ZB_APS_STATUS_TABLE_FULL\<rparr>) g2"
  have g3: "sched g3 = sched g" "re_tab g3 = re_tab g2" "get_buf b g3 = Some (p1\<lparr>b_status := ucast ZB_APS_STATUS_TABLE_FULL\<rparr>)"
    using g2(5,6) by (auto simp: g3_def put_buf_def get_buf_def aget_def split: if_splits)
  obtain q where q: "schedule_buf Cb_zb_apsde_data_confirm b g3 = Some (g3\<lparr>sched := (sched g)\<lparr>cb_q := q\<rparr>\<rparr>)"
      "callbacks ((sched g)\<lparr>cb_q := q\<rparr>) = callbacks (sched g) @ [\<lparr>cb_func = Cb_zb_apsde_data_confirm, cb_param = of_nat b\<rparr>]"
    using schedule_buf_room [of g3 b Cb_zb_apsde_data_confirm] room b(4) g3(1) by auto
  have "ZB_APS_STATUS_TABLE_FULL \<noteq> 0" by code_simp
  then have "send_acked E b fc dst req g = Some (g3\<lparr>sched := (sched g)\<lparr>cb_q := q\<rparr>\<rparr>)"
    using q(1) by (simp add: send_acked_def f g2(1,6) g3_def)
  moreover have "find_free_re g2 = None"
  proof -
    have "re_state (re_tab g ! j) \<noteq> ZB_APS_RETRANS_ENT_FREE" if "j < 9" for j
      using last(1) that by (auto simp: find_free_re_def find_Some_iff ZB_N_APS_RETRANS_ENTRIES_def)
    then have "re_state (re_tab g2 ! j) \<noteq> ZB_APS_RETRANS_ENT_FREE" if "j < 10" for j
      using that g2(4) nth_list_update_neq [of 9 j "re_tab g" "re_tab g2 ! 9"] by (cases "j = 9") (auto simp flip: g2(2))
    then show ?thesis by (auto simp: find_free_re_def find_None_iff ZB_N_APS_RETRANS_ENTRIES_def)
  qed
  moreover have "get_buf b (g3\<lparr>sched := (sched g)\<lparr>cb_q := q\<rparr>\<rparr>) = get_buf b g3"
    "alarms ((sched g)\<lparr>cb_q := q\<rparr>) = alarms (sched g)"
    "find_free_re (g3\<lparr>sched := (sched g)\<lparr>cb_q := q\<rparr>\<rparr>) = find_free_re g2"
    by (simp_all add: get_buf_def alarms_def alarm_ids_def find_free_re_def g3(2))
  moreover have "stuck 9 (g3\<lparr>sched := (sched g)\<lparr>cb_q := q\<rparr>\<rparr>)"
    using g2(2,4) last(2) g3(2) by (simp add: stuck_def) (metis length_list_update)
  then have "\<forall>h. lost_run 9 (g3\<lparr>sched := (sched g)\<lparr>cb_q := q\<rparr>\<rparr>) h \<longrightarrow> re_state (re_tab h ! 9) \<noteq> ZB_APS_RETRANS_ENT_FREE"
    using lost_run_stuck [of 9 "g3\<lparr>sched := (sched g)\<lparr>cb_q := q\<rparr>\<rparr>"] stuck_used by force
  ultimately show ?thesis using q(2) g2(3,4) g3(2,3) by simp
qed

end
