(* ===== verification/Zb_Apsme_Props.thy ===== *)
theory Zb_Apsme_Props
  imports Zb_Apsme Zb_Nwk_Mesh_Runs Zb_Secur_Demo
begin

text \<open>
  The way of a network key from the trust center to a device: what the request of one device puts into the frame,
  the command handler of another one reads out of it.
\<close>

section \<open>Buffers\<close>

lemma get_buf_put [simp]: "get_buf b g = Some p \<Longrightarrow> get_buf b (put_buf b q g) = Some q"
  for g :: "'z zb_globals_s_scheme"
  by (auto simp: get_buf_def put_buf_def aget_def split: if_splits)

lemma put_frames [simp]:
  "get_buf b (put_param c v g) = get_buf b g" "get_buf b (g\<lparr>sched := s\<rparr>) = get_buf b g" "get_buf b (g\<lparr>addr := A\<rparr>) = get_buf b g"
  "get_buf b (upd_aib f g) = get_buf b g" "sched (upd_aib f g) = sched g" "sched (put_buf c p g) = sched g"
  "sched (put_param c v g) = sched g" "buf_param (put_buf c p g) = buf_param g" "addr (put_buf c p g) = addr g"
  "aps (put_buf c p g) = aps g" "extended_address (put_buf c p g) = extended_address g"
  for g :: "'z zb_globals_s_scheme"
  by (simp_all add: get_buf_def put_param_def upd_aib_def upd_aps_def put_buf_def)

lemma fill_command_spec:
  fixes g :: "'z zb_globals_s_scheme"
  assumes "get_buf b g = Some p" "buf_wf p" "length bytes < 148"
  obtains p1 where "fill_command bytes b g = Some (put_buf b p1 g)" "buf_wf p1" "buf_data p1 = bytes"
  using fill_packet_spec [OF assms(3,2)] assms(1) that by (auto simp: fill_command_def)

text \<open>A command that is not to be acknowledged: its header is put in front of the body.\<close>

lemma send_command_spec:
  fixes g :: "'z zb_globals_s_scheme"
  assumes p: "get_buf b g = Some p" "buf_wf p" "length (buf_data p) < 145" "b < 16"
    and room: "sched_wf (sched g)" "length (callbacks (sched g)) < 16"
    and na: "ZB_NWK_IS_ADDRESS_BROADCAST dest \<or> c = APS_CMD_TRANSPORT_KEY"
  shows "\<exists>g' p'. zb_aps_send_command b dest c sec g = Some g'
    \<and> get_buf b g' = Some p' \<and> buf_wf p'
    \<and> buf_data p' = [ZB_APS_FC_SET_COMMAND False 0, aps_counter (aib (aps g)), c] @ buf_data p
    \<and> buf_param g' b = Nlde_data_req \<lparr>ndr_dst_addr = dest, ndr_radius = ZB_APS_COMMAND_RADIUS,
        ndr_addr_mode = ZB_ADDR_16BIT_DEV_OR_BROADCAST, ndr_nonmember_radius = 0, ndr_discovery_route = 1,
        ndr_security_enable = of_bool sec, ndr_ndsu_handle = 0\<rparr>
    \<and> callbacks (sched g') = callbacks (sched g) @ [\<lparr>cb_func = Cb_zb_nlde_data_request, cb_param = of_nat b\<rparr>]"
proof -
  let ?h = "[ZB_APS_FC_SET_COMMAND False 0, aps_counter (aib (aps g)), c]"
  have n: "unat (3 :: zb_uint8_t) = 3" by simp
  have "unat (3 :: zb_uint8_t) + unat (b_len p) < 148" using p(3) buf_data_len [OF p(2)] by simp
  then obtain p1 where p1: "zb_buf_smart_alloc_left 3 p = Some (p1, unat (b_data_offset p1))" "buf_wf p1"
      "unat (b_len p1) = unat (b_len p) + 3" "drop 3 (buf_data p1) = buf_data p"
    using alloc_left_spec [OF p(2), of 3] by auto
  have d: "buf_data p1 = [] @ take 3 (buf_data p1) @ buf_data p" using p1(4) append_take_drop_id [of 3 "buf_data p1"] by simp
  have l: "length ?h = length (take 3 (buf_data p1))" using length_buf_data [OF p1(2)] p1(3) by simp
  obtain m where m: "blit (b_buf p1) (unat (b_data_offset p1)) ?h = Some m" "buf_wf (p1\<lparr>b_buf := m\<rparr>)"
      "buf_data (p1\<lparr>b_buf := m\<rparr>) = ?h @ buf_data p"
    using blit_window [OF p1(2) d l, of "unat (b_data_offset p1)"] by (auto simp: ZB_BUF_BEGIN_def)
  define g2 where "g2 = fill_nldereq b dest sec (upd_aib (\<lambda>a. a\<lparr>aps_counter := aps_counter (aib (aps g)) + 1\<rparr>) (put_buf b (p1\<lparr>b_buf := m\<rparr>) g))"
  have g2: "sched g2 = sched g" "get_buf b g2 = Some (p1\<lparr>b_buf := m\<rparr>)"
    using p(1) by (simp_all add: g2_def fill_nldereq_def)
  obtain q where q: "schedule_buf Cb_zb_nlde_data_request b g2 = Some (g2\<lparr>sched := (sched g)\<lparr>cb_q := q\<rparr>\<rparr>)"
      "callbacks ((sched g)\<lparr>cb_q := q\<rparr>) = callbacks (sched g) @ [\<lparr>cb_func = Cb_zb_nlde_data_request, cb_param = of_nat b\<rparr>]"
    using schedule_buf_room [of g2 b Cb_zb_nlde_data_request] room p(4) g2(1) by auto
  have "zb_aps_send_command b dest c sec g = Some (g2\<lparr>sched := (sched g)\<lparr>cb_q := q\<rparr>\<rparr>)"
    using na p(1) p1(1) m(1) q(1) by (auto simp: zb_aps_send_command_def Let_def g2_def)
  moreover have "buf_param (g2\<lparr>sched := (sched g)\<lparr>cb_q := q\<rparr>\<rparr>) b = Nlde_data_req \<lparr>ndr_dst_addr = dest, ndr_radius = ZB_APS_COMMAND_RADIUS,
        ndr_addr_mode = ZB_ADDR_16BIT_DEV_OR_BROADCAST, ndr_nonmember_radius = 0, ndr_discovery_route = 1,
        ndr_security_enable = of_bool sec, ndr_ndsu_handle = 0\<rparr>"
    by (simp add: g2_def fill_nldereq_def put_param_def)
  ultimately show ?thesis using g2(2) m(2,3) q(2) by auto
qed

section \<open>A key on its way\<close>

text \<open>A request for a network key with arrays of the right sizes.\<close>

definition key_req_ok :: "zb_apsme_transport_key_req \<Rightarrow> bool" where
  "key_req_ok req \<longleftrightarrow> tkr_key_type req = ZB_STANDARD_NETWORK_KEY \<and> length (tkr_key req) = 16
     \<and> (\<forall>l. tkr_dest_address req = Dest_long l \<longrightarrow> length l = 8)"

text \<open>The device that the key is for.\<close>

definition key_is_for :: "zb_apsme_transport_key_req \<Rightarrow> zb_ieee_addr_t \<Rightarrow> bool" where
  "key_is_for req me \<longleftrightarrow> (case tkr_dest_address req of Dest_short a \<Rightarrow> True | Dest_long l \<Rightarrow> l = me \<or> l = replicate 8 0)"

lemma key_bytes_length:
  "key_req_ok req \<Longrightarrow> length src = 8 \<Longrightarrow> length (transport_key_bytes req src) = 34"
  by (auto simp: key_req_ok_def transport_key_bytes_def ZB_CCM_KEY_SIZE_def split: zb_dest_address.splits)

lemma transport_key_dest_buf:
  fixes g :: "'z zb_globals_s_scheme"
  assumes "transport_key_dest req g = Some (g\<lparr>addr := A\<rparr>, dest, sec)"
  shows "transport_key_dest req (put_buf b q g) = Some ((put_buf b q g)\<lparr>addr := A\<rparr>, dest, sec)"
proof -
  have e: "A' = A" if "g\<lparr>addr := A'\<rparr> = g\<lparr>addr := A\<rparr>" for A'
    using arg_cong [OF that, of addr] by simp
  have e': "(put_buf b q g)\<lparr>addr := A\<rparr> = put_buf b q g" if "g = g\<lparr>addr := A\<rparr>"
  proof -
    have "addr (put_buf b q g) = A" using arg_cong [OF that, of addr] by simp
    then show ?thesis by (cases "put_buf b q g") simp
  qed
  show ?thesis using assms
    by (auto simp: transport_key_dest_def bind_eq_Some_conv e' dest: e split: option.splits zb_dest_address.splits prod.splits)
qed

text \<open>What a receiver does with the body of a key.\<close>

lemma in_transport_key:
  fixes h :: "'y zb_globals_s_scheme"
  assumes req: "key_req_ok req" "length src = 8" "key_is_for req (extended_address h)"
    and q: "get_buf c h = Some q" "buf_wf q" "buf_data q = transport_key_bytes req src" "c < 16"
    and room: "sched_wf (sched h)" "length (callbacks (sched h)) < 16"
  shows "\<exists>h'. zb_aps_in_transport_key c h = Some h'
    \<and> buf_param h' c = Transport_key_ind \<lparr>tki_key_type = ZB_STANDARD_NETWORK_KEY, tki_src_address = src,
        tki_key = tkr_key req, tki_key_seq_number = tkr_key_seq_number req\<rparr>
    \<and> callbacks (sched h') = callbacks (sched h) @ [\<lparr>cb_func = Cb_zb_apsme_transport_key_indication, cb_param = of_nat c\<rparr>]"
proof -
  define dst where "dst = (case tkr_dest_address req of Dest_short a \<Rightarrow> replicate 8 0 | Dest_long l \<Rightarrow> l)"
  have l: "length dst = 8" "length (tkr_key req) = 16" "tkr_key_type req = ZB_STANDARD_NETWORK_KEY"
    using req(1) by (auto simp: key_req_ok_def dst_def split: zb_dest_address.splits)
  have me: "dst = extended_address h \<or> dst = replicate 8 0"
    using req(3) by (auto simp: key_is_for_def dst_def split: zb_dest_address.splits)
  have d: "buf_data q = [ZB_STANDARD_NETWORK_KEY] @ tkr_key req @ [tkr_key_seq_number req] @ dst @ src @ []"
    using l by (simp add: q(3) transport_key_bytes_def dst_def ZB_CCM_KEY_SIZE_def)
  let ?o = "ZB_BUF_BEGIN q"
  have r: "rd8 (b_buf q) ?o = Some ZB_STANDARD_NETWORK_KEY" "rdn 8 (b_buf q) (?o + 18) = Some dst"
    "rdn 8 (b_buf q) (?o + 26) = Some src" "rd8 (b_buf q) (?o + 17) = Some (tkr_key_seq_number req)"
    "rdn ZB_CCM_KEY_SIZE (b_buf q) (?o + 1) = Some (tkr_key req)"
    using d l req(2) rd8_window [OF q(2), of "[]"] rdn_window [OF q(2), of "[ZB_STANDARD_NETWORK_KEY] @ tkr_key req @ [tkr_key_seq_number req]" dst "src @ []" "?o + 18" 8]
      rdn_window [OF q(2), of "[ZB_STANDARD_NETWORK_KEY] @ tkr_key req @ [tkr_key_seq_number req] @ dst" src "[]" "?o + 26" 8]
      rd8_window [OF q(2), of "[ZB_STANDARD_NETWORK_KEY] @ tkr_key req" "tkr_key_seq_number req" "dst @ src" "?o + 17"]
      rdn_window [OF q(2), of "[ZB_STANDARD_NETWORK_KEY]" "tkr_key req" "[tkr_key_seq_number req] @ dst @ src" "?o + 1" 16]
    by (simp_all add: ZB_CCM_KEY_SIZE_def)
  define h1 where "h1 = put_param c (Transport_key_ind \<lparr>tki_key_type = ZB_STANDARD_NETWORK_KEY, tki_src_address = src,
        tki_key = tkr_key req, tki_key_seq_number = tkr_key_seq_number req\<rparr>) h"
  have h1: "sched h1 = sched h" by (simp add: h1_def)
  obtain s where s: "schedule_buf Cb_zb_apsme_transport_key_indication c h1 = Some (h1\<lparr>sched := (sched h)\<lparr>cb_q := s\<rparr>\<rparr>)"
      "callbacks ((sched h)\<lparr>cb_q := s\<rparr>) = callbacks (sched h) @ [\<lparr>cb_func = Cb_zb_apsme_transport_key_indication, cb_param = of_nat c\<rparr>]"
    using schedule_buf_room [of h1 c Cb_zb_apsme_transport_key_indication] room q(4) h1 by auto
  have "zb_aps_in_transport_key c h = Some (h1\<lparr>sched := (sched h)\<lparr>cb_q := s\<rparr>\<rparr>)"
    using q(1) r me s(1) by (auto simp: zb_aps_in_transport_key_def Let_def h1_def)
  then show ?thesis using s(2) by (simp add: h1_def put_param_def)
qed

text \<open>
  C12: a network key reaches the device that it is for. The request of the trust center puts key, sequence number and
  its own address into a command frame and gives it to the network layer for the device or, secured, for its
  parent; and whatever device gets these bytes for itself, or for everybody, and is not in a PRO network,
  passes exactly this key with this number and the trust center's address up, without an acknowledgement.
\<close>

theorem transport_key_reaches_device:
  fixes g :: "'z zb_globals_s_scheme"
  assumes req: "buf_param g b = Transport_key_req req" "key_req_ok req" "length (extended_address g) = 8"
    and p: "get_buf b g = Some p" "buf_wf p" "b < 16"
    and room: "sched_wf (sched g)" "length (callbacks (sched g)) < 16"
    and dest: "transport_key_dest req g = Some (g\<lparr>addr := A\<rparr>, dest, sec)"
  shows "\<exists>g' p'. zb_apsme_transport_key_request b g = Some g' \<and> get_buf b g' = Some p'
    \<and> buf_param g' b = Nlde_data_req \<lparr>ndr_dst_addr = dest, ndr_radius = ZB_APS_COMMAND_RADIUS,
        ndr_addr_mode = ZB_ADDR_16BIT_DEV_OR_BROADCAST, ndr_nonmember_radius = 0, ndr_discovery_route = 1,
        ndr_security_enable = of_bool sec, ndr_ndsu_handle = 0\<rparr>
    \<and> callbacks (sched g') = callbacks (sched g) @ [\<lparr>cb_func = Cb_zb_nlde_data_request, cb_param = of_nat b\<rparr>]
    \<and> (\<forall>(h :: 'z zb_globals_s_scheme) c q. get_buf c h = Some q \<and> buf_wf q \<and> c < 16 \<and> buf_data q = buf_data p'
        \<and> key_is_for req (extended_address h) \<and> sched_wf (sched h) \<and> length (callbacks (sched h)) < 16
      \<longrightarrow> (\<exists>h'. zb_aps_in_command_handle False c h = Some h'
        \<and> buf_param h' c = Transport_key_ind \<lparr>tki_key_type = ZB_STANDARD_NETWORK_KEY, tki_src_address = extended_address g,
            tki_key = tkr_key req, tki_key_seq_number = tkr_key_seq_number req\<rparr>
        \<and> callbacks (sched h') = callbacks (sched h) @ [\<lparr>cb_func = Cb_zb_apsme_transport_key_indication, cb_param = of_nat c\<rparr>]))"
proof -
  let ?body = "transport_key_bytes req (extended_address g)"
  have n: "length ?body = 34" by (rule key_bytes_length [OF req(2,3)])
  obtain p1 where p1: "fill_command ?body b g = Some (put_buf b p1 g)" "buf_wf p1" "buf_data p1 = ?body"
    using fill_command_spec [OF p(1,2), of ?body] n by auto
  note A = transport_key_dest_buf [OF dest, of b p1]
  define g1 where "g1 = (put_buf b p1 g)\<lparr>addr := A\<rparr>"
  have g1: "get_buf b g1 = Some p1" "sched g1 = sched g" "aps g1 = aps g" using p(1) by (simp_all add: g1_def)
  have "length (buf_data p1) < 145" using n p1(3) by simp
  note s = send_command_spec [OF g1(1) p1(2) this p(3), of dest APS_CMD_TRANSPORT_KEY sec, unfolded g1(2,3) p1(3), OF room disjI2 [OF refl]]
  then obtain g' p' where g': "zb_aps_send_command b dest APS_CMD_TRANSPORT_KEY sec g1 = Some g'" "get_buf b g' = Some p'"
      "buf_data p' = [ZB_APS_FC_SET_COMMAND False 0, aps_counter (aib (aps g)), APS_CMD_TRANSPORT_KEY] @ ?body"
      "buf_param g' b = Nlde_data_req \<lparr>ndr_dst_addr = dest, ndr_radius = ZB_APS_COMMAND_RADIUS,
        ndr_addr_mode = ZB_ADDR_16BIT_DEV_OR_BROADCAST, ndr_nonmember_radius = 0, ndr_discovery_route = 1,
        ndr_security_enable = of_bool sec, ndr_ndsu_handle = 0\<rparr>"
      "callbacks (sched g') = callbacks (sched g) @ [\<lparr>cb_func = Cb_zb_nlde_data_request, cb_param = of_nat b\<rparr>]"
    by blast
  have "zb_apsme_transport_key_request b g = Some g'"
    using req(1,2) p1(1) A g'(1) by (simp add: zb_apsme_transport_key_request_def key_req_ok_def g1_def)
  moreover have "\<exists>h'. zb_aps_in_command_handle False c h = Some h'
        \<and> buf_param h' c = Transport_key_ind \<lparr>tki_key_type = ZB_STANDARD_NETWORK_KEY, tki_src_address = extended_address g,
            tki_key = tkr_key req, tki_key_seq_number = tkr_key_seq_number req\<rparr>
        \<and> callbacks (sched h') = callbacks (sched h) @ [\<lparr>cb_func = Cb_zb_apsme_transport_key_indication, cb_param = of_nat c\<rparr>]"
    if h: "get_buf c h = Some q" "buf_wf q" "c < 16" "buf_data q = buf_data p'" "key_is_for req (extended_address h)"
      "sched_wf (sched h)" "length (callbacks (sched h)) < 16" for h :: "'z zb_globals_s_scheme" and c q
  proof -
    have ln: "unat (b_len q) = 37" using buf_data_len [OF h(2)] h(4) g'(3) n by simp
    obtain q1 where q1: "zb_buf_cut_left 3 q = Some (q1, unat (b_data_offset q1))" "buf_wf q1" "buf_data q1 = ?body"
      using cut_left_spec [OF h(2), of 3] ln h(4) g'(3) by auto
    have off: "unat (b_data_offset q1) = unat (b_data_offset q) + 3" "b_buf q1 = b_buf q"
      using q1(1) h(2) ln by (auto simp: zb_buf_cut_left_def buf_defs buf_wf_def unat8_add bind_eq_Some_conv split: if_splits)
    have "rd8 (b_buf q) (ZB_BUF_BEGIN q + 2) = Some APS_CMD_TRANSPORT_KEY"
      using rd8_window [OF h(2), of "[ZB_APS_FC_SET_COMMAND False 0, aps_counter (aib (aps g))]"] h(4) g'(3) by simp
    then have c: "rd8 (b_buf q1) (unat (b_data_offset q1) - 1) = Some APS_CMD_TRANSPORT_KEY"
      by (simp add: off ZB_BUF_BEGIN_def)
    have h1: "get_buf c (put_buf c q1 h) = Some q1" using h(1) by simp
    note t = in_transport_key [OF req(2,3) _ h1 q1(2,3) h(3)]
    have "zb_aps_in_command_handle False c h = zb_aps_in_transport_key c (put_buf c q1 h)"
      using h(1) q1(1) c off(1) by (simp add: zb_aps_in_command_handle_def)
    then show ?thesis using t h(5-7) by simp
  qed
  ultimately show ?thesis using g'(2,4,5) by blast
qed

section \<open>An example\<close>

definition key_req :: zb_apsme_transport_key_req where
  "key_req = \<lparr>tkr_key_type = ZB_STANDARD_NETWORK_KEY, tkr_dest_address = Dest_short 0xfffd, tkr_key = replicate 16 7,
     tkr_key_seq_number = 3, tkr_use_parent = None\<rparr>"

definition demo_tc :: zb_globals_s where "demo_tc = put_param 1 (Transport_key_req key_req) demo_s"

lemma transport_key_reaches_device_witness:
  "\<exists>g' p'. zb_apsme_transport_key_request 1 demo_tc = Some g' \<and> get_buf 1 g' = Some p'
    \<and> callbacks (sched g') = [\<lparr>cb_func = Cb_zb_nlde_data_request, cb_param = 1\<rparr>]"
proof -
  have pool: "bp_pool (bpool demo_base) = replicate 16 zero_buf"
    by (simp add: demo_base_def zb_init_buffers_def pool_zero_def)
  have f: "buf_param demo_tc 1 = Transport_key_req key_req" "extended_address demo_tc = demo_ext"
    "get_buf 1 demo_tc = Some zero_buf" "sched demo_tc = sched demo_base"
    by (simp_all add: demo_tc_def put_param_def get_buf_def pool aget_def)
  have "ZB_NWK_IS_ADDRESS_BROADCAST 0xfffd" by code_simp
  then have d: "transport_key_dest key_req demo_tc = Some (demo_tc\<lparr>addr := addr demo_tc\<rparr>, 0xfffd, True)"
    by (cases demo_tc) (simp add: transport_key_dest_def key_req_def)
  have o: "key_req_ok key_req" "length (extended_address demo_tc) = 8" "buf_wf zero_buf"
    by (simp_all add: key_req_ok_def key_req_def f demo_ext_def buf_wf_def zero_buf_def ZB_IO_BUF_SIZE_def)
  show ?thesis using transport_key_reaches_device [OF f(1) o(1,2) f(3) o(3) _ _ _ d] f(4) by auto
qed

end
