(* ===== verification/Zb_Aps_Main_Props.thy ===== *)
theory Zb_Aps_Main_Props
  imports Zb_Aps_Main Zb_Aps_Runs Zb_Apsme_Props
begin

text \<open>
  The receiving side: a frame is delivered once as long as the duplicate detection remembers it, which is not as
  long as its sender waits for the acknowledgement; every endpoint of a group gets a frame once; attributes.
\<close>

section \<open>Delivery\<close>

lemma bufs_of_more:
  fixes g g' :: "'z zb_globals_s_scheme"
  assumes "bpool g' = bpool g"
  shows "get_buf c g' = get_buf c g"
  using assms by (simp add: get_buf_def)

lemma check_dups_bpool:
  fixes g :: "'z zb_globals_s_scheme"
  assumes "aps_check_dups a c g = Some (g', d)" "sched_wf (sched g)"
  shows "bpool g' = bpool g \<and> callbacks (sched g') = callbacks (sched g)"
proof -
  have alarm: "bpool g2 = bpool g1 \<and> callbacks (sched g2) = callbacks (sched g1)"
    if al: "schedule_dups_alarm g1 = Some g2" and sw: "sched_wf (sched g1)" for g1 g2 :: "'z zb_globals_s_scheme"
  proof -
    obtain g' r where g': "zb_schedule_alarm Cb_zb_aps_check_timer_cb 0 ZB_APS_DUP_CHECK_TIMEOUT g1 = Some (g', r)"
        "tm_only (sched g1) (sched g')" "zb_globals.more g' = zb_globals.more g1"
      using schedule_alarm_spec [OF sw, of Cb_zb_aps_check_timer_cb 0 ZB_APS_DUP_CHECK_TIMEOUT] by blast
    then have "g2 = g'" using al by (simp add: schedule_dups_alarm_def)
    then show ?thesis using tm_only_fields [OF g'(2)] more_fields [OF g'(3)] by (simp add: callbacks_def)
  qed
  obtain A ret ref where look: "zb_address_by_short a True False (addr g) = Some (A, ret, ref)"
    using assms(1) by (cases "zb_address_by_short a True False (addr g)") (auto simp: aps_check_dups_def)
  show ?thesis
  proof (cases "ret = RET_OK")
    case False
    then show ?thesis using assms(1) by (auto simp: aps_check_dups_def look)
  next
    case True
    obtain r where r: "ref = Some r" using assms(1) True by (cases ref) (simp_all add: aps_check_dups_def look)
    obtain e where e: "aget (addr_map A) r = Some e"
      using assms(1) True r by (cases "aget (addr_map A) r") (simp_all add: aps_check_dups_def look)
    obtain A' where A': "upd_ent r (\<lambda>e. e\<lparr>am_dup_counter := c, am_dup_clock := 3\<rparr>) A = Some A'"
      using assms(1) True r e by (cases "upd_ent r (\<lambda>e. e\<lparr>am_dup_counter := c, am_dup_clock := 3\<rparr>) A") (simp_all add: aps_check_dups_def look)
    show ?thesis
    proof (cases "dups_alarm_running (aps g)")
      case t: True
      then show ?thesis using assms(1) True r e A' by (auto simp: aps_check_dups_def look)
    next
      case f: False
      let ?g = "upd_aps (\<lambda>a. a\<lparr>dups_alarm_running := True\<rparr>) (g\<lparr>addr := A'\<rparr>)"
      obtain g2 where g2: "schedule_dups_alarm ?g = Some g2"
        using assms(1) True r e A' f by (cases "schedule_dups_alarm ?g") (simp_all add: aps_check_dups_def look)
      then have "g' = g2" using assms(1) True r e A' f by (simp add: aps_check_dups_def look)
      then show ?thesis using alarm [OF g2] assms(2) by (simp add: upd_aps_def)
    qed
  qed
qed

text \<open>A frame that is not a duplicate, of the kind that the application gets.\<close>

definition is_app_data :: "zb_aps_hdr \<Rightarrow> bool" where
  "is_app_data h \<longleftrightarrow> ZB_APS_FC_GET_FRAME_TYPE (ah_fc h) = ZB_APS_FRAME_DATA \<and> \<not> is_group (ah_fc h)"

lemma deliver_new:
  fixes g :: "'z zb_globals_s_scheme"
  assumes d: "aps_check_dups (ah_src_addr h) (ah_aps_counter h) g = Some (g1, False)" "sched_wf (sched g)" "sched_wf (sched g1)"
    and h: "is_app_data h" and p: "get_buf b g = Some p" "buf_wf p" "unat (b_len p) \<le> 133" "b < 16"
    and room: "length (callbacks (sched g)) < 16"
  shows "\<exists>g2 p2. deliver_frame_up pro b h g = Some g2 \<and> get_buf b g2 = Some p2 \<and> buf_data p2 = buf_data p
    \<and> buf_param g2 b = Aps_hdr h \<and> addr g2 = addr g1 \<and> sched_wf (sched g2)
    \<and> callbacks (sched g2) = callbacks (sched g) @ [\<lparr>cb_func = Cb_zb_apsde_data_indication, cb_param = of_nat b\<rparr>]"
proof -
  note f = check_dups_bpool [OF d(1,2)]
  have pb: "get_buf b g1 = Some p" using p(1) f bufs_of_more [of g1 g b] by simp
  have u: "unat (15 :: zb_uint8_t) = 15" "of_nat ZB_APS_HDR_T_SIZE = (15 :: zb_uint8_t)" by (simp_all add: ZB_APS_HDR_T_SIZE_def)
  obtain p2 where p2: "zb_buf_assign_param (replicate ZB_APS_HDR_T_SIZE 0) 15 p = Some p2" "buf_wf p2" "buf_data p2 = buf_data p"
    using assign_param_spec [OF p(2), of 15 "replicate ZB_APS_HDR_T_SIZE 0"] p(3) u by (auto simp: ZB_APS_HDR_T_SIZE_def)
  define g2 where "g2 = put_param b (Aps_hdr h) (put_buf b p2 g1)"
  have a: "assign_hdr b h g1 = Some g2" using pb p2(1) u(2) by (simp add: assign_hdr_def g2_def)
  have g2: "sched g2 = sched g1" "get_buf b g2 = Some p2" "buf_param g2 b = Aps_hdr h" "addr g2 = addr g1"
    using pb by (simp_all add: g2_def) (simp_all add: put_param_def)
  obtain q where q: "schedule_buf Cb_zb_apsde_data_indication b g2 = Some (g2\<lparr>sched := (sched g1)\<lparr>cb_q := q\<rparr>\<rparr>)"
      "sched_wf ((sched g1)\<lparr>cb_q := q\<rparr>)"
      "callbacks ((sched g1)\<lparr>cb_q := q\<rparr>) = callbacks (sched g) @ [\<lparr>cb_func = Cb_zb_apsde_data_indication, cb_param = of_nat b\<rparr>]"
    using schedule_buf_room [of g2 b Cb_zb_apsde_data_indication] d(3) room p(4) g2(1) f by auto
  have "deliver_frame_up pro b h g = Some (g2\<lparr>sched := (sched g1)\<lparr>cb_q := q\<rparr>\<rparr>)"
    using d(1) a h q(1) by (auto simp: deliver_frame_up_def is_app_data_def aps_frame_consts)
  then show ?thesis using g2(2-4) p2(3) q(2,3) by auto
qed

lemma aps_retry_after_window: "3 * unat ZB_APS_DUP_CHECK_TIMEOUT < unat ZB_N_APS_ACK_WAIT_DURATION"
  by (simp add: ZB_APS_DUP_CHECK_TIMEOUT_def ZB_N_APS_ACK_WAIT_DURATION_def ZB_TIME_ONE_SECOND_def
      ZB_MILLISECONDS_TO_BEACON_INTERVAL_def ZB_BEACON_INTERVAL_USEC_def)

text \<open>
  C17: how often the application gets a frame. A new data frame is passed up with its header and its payload.
  The same frame in another buffer is dropped while the clock of the duplicate detection has run at most twice
  since; after three runs it is passed up again. But three periods of this clock are shorter than the time that
  the sender waits for an acknowledgement, so when an acknowledgement is lost the application gets the
  retransmitted frame a second time.
\<close>

theorem retransmission_is_delivered_again:
  fixes g :: "'z zb_globals_s_scheme"
  assumes wf: "addr_wf (addr g)" "sched_wf (sched g)" "ah_src_addr h \<noteq> -1"
    and known: "ref_of_short (addr g) (ah_src_addr h) \<noteq> None \<or> n_elements (addr g) \<noteq> 101"
    and fresh: "aps_check_dups (ah_src_addr h) (ah_aps_counter h) g = Some (g0, False)"
    and h: "is_app_data h" and p: "get_buf b g = Some p" "buf_wf p" "unat (b_len p) \<le> 133" "b < 16"
    and room: "length (callbacks (sched g)) < 16"
  shows "3 * unat ZB_APS_DUP_CHECK_TIMEOUT < unat ZB_N_APS_ACK_WAIT_DURATION
    \<and> (\<exists>g1 p1 g2. deliver_frame_up pro b h g = Some g1 \<and> get_buf b g1 = Some p1 \<and> buf_data p1 = buf_data p
      \<and> buf_param g1 b = Aps_hdr h
      \<and> callbacks (sched g1) = callbacks (sched g) @ [\<lparr>cb_func = Cb_zb_apsde_data_indication, cb_param = of_nat b\<rparr>]
      \<and> timer_runs k g1 = Some g2
      \<and> (k < 3 \<longrightarrow> (\<forall>c. \<exists>g3. deliver_frame_up pro c h g2 = zb_free_buf c g3 \<and> callbacks (sched g3) = callbacks (sched g2)))
      \<and> (\<not> k < 3 \<longrightarrow> (\<forall>c q. get_buf c g2 = Some q \<and> buf_wf q \<and> unat (b_len q) \<le> 133 \<and> c < 16
          \<and> length (callbacks (sched g2)) < 16 \<longrightarrow>
          (\<exists>g3 q3. deliver_frame_up pro c h g2 = Some g3 \<and> get_buf c g3 = Some q3 \<and> buf_data q3 = buf_data q
            \<and> callbacks (sched g3) = callbacks (sched g2) @ [\<lparr>cb_func = Cb_zb_apsde_data_indication, cb_param = of_nat c\<rparr>]))))"
proof -
  let ?a = "ah_src_addr h" and ?c = "ah_aps_counter h"
  have c0: "addr_wf (addr g0)" "sched_wf (sched g0)" "dup_state (addr g0) ?a ?c 3"
    using check_dups_spec [OF wf known, of ?c] fresh by auto
  obtain g1 p1 where g1: "deliver_frame_up pro b h g = Some g1" "get_buf b g1 = Some p1" "buf_data p1 = buf_data p"
      "buf_param g1 b = Aps_hdr h" "addr g1 = addr g0" "sched_wf (sched g1)"
      "callbacks (sched g1) = callbacks (sched g) @ [\<lparr>cb_func = Cb_zb_apsde_data_indication, cb_param = of_nat b\<rparr>]"
    using deliver_new [OF fresh wf(2) c0(2) h p room] by blast
  obtain g2 where g2: "timer_runs k g1 = Some g2" "addr_wf (addr g2)" "sched_wf (sched g2)" "dup_state (addr g2) ?a ?c (3 - k)"
    using timer_runs_spec [of g1 ?a ?c 3 k] c0 g1(5,6) wf(3) by auto
  then obtain r where r: "ref_of_short (addr g2) ?a = Some r" "am_dup_counter (addr_map (addr g2) ! r) = ?c"
    "unat (am_dup_clock (addr_map (addr g2) ! r)) = 3 - k" by (auto simp: dup_state_def)
  obtain g3 where g3: "aps_check_dups ?a ?c g2 = Some (g3, k < 3)" "sched_wf (sched g3)"
  proof -
    have "am_dup_clock (addr_map (addr g2) ! r) \<noteq> 0 \<longleftrightarrow> k < 3"
      using r(3) unat_eq_0 [of "am_dup_clock (addr_map (addr g2) ! r)"] by auto
    then show ?thesis using check_dups_spec [OF g2(2,3) wf(3), of ?c] r(1,2) that by auto
  qed
  have late: "\<exists>g4 q3. deliver_frame_up pro c h g2 = Some g4 \<and> get_buf c g4 = Some q3 \<and> buf_data q3 = buf_data q
            \<and> callbacks (sched g4) = callbacks (sched g2) @ [\<lparr>cb_func = Cb_zb_apsde_data_indication, cb_param = of_nat c\<rparr>]"
    if "\<not> k < 3" "get_buf c g2 = Some q" "buf_wf q" "unat (b_len q) \<le> 133" "c < 16" "length (callbacks (sched g2)) < 16" for c q
    using deliver_new [OF _ g2(3) g3(2) h that(2-6), of pro] g3(1) that(1) by auto
  have early: "\<exists>g4. deliver_frame_up pro c h g2 = zb_free_buf c g4 \<and> callbacks (sched g4) = callbacks (sched g2)" if "k < 3" for c
    using g3(1) that check_dups_bpool [OF g3(1) g2(3)] by (auto simp: deliver_frame_up_def)
  show ?thesis using aps_retry_after_window g1(1-4,7) g2(1) late early by blast
qed

section \<open>The acknowledgement arrives\<close>

lemma peek_frame:
  assumes "nwk_frame f dst src (x # xs) r"
  shows "peek_aps_fc r = Some x"
proof -
  obtain rest where wf: "buf_wf r" and d: "buf_data r = [fst f, snd f] @ htole16 dst @ htole16 src @ rest @ x # xs"
    and n: "6 + length rest = zb_nwk_hdr_size f" using assms by (auto simp: nwk_frame_def)
  let ?h = "[fst f, snd f] @ htole16 dst @ htole16 src @ rest"
  have "rd8 (b_buf r) (ZB_BUF_BEGIN r) = Some (fst f)"
    using rd8_window [OF wf, of "[]"] d by simp
  moreover have "rd8 (b_buf r) (ZB_BUF_BEGIN r + 1) = Some (snd f)"
    using rd8_window [OF wf, of "[fst f]"] d by simp
  moreover have "length ?h = zb_nwk_hdr_size (fst f, snd f)" using n by simp
  then have "rd8 (b_buf r) (ZB_BUF_BEGIN r + zb_nwk_hdr_size (fst f, snd f)) = Some x"
    using rd8_window [OF wf, of ?h x xs "ZB_BUF_BEGIN r + zb_nwk_hdr_size (fst f, snd f)"] d by simp
  ultimately show ?thesis by (simp add: peek_aps_fc_def)
qed

text \<open>The comparison finds the entry when none before it has the same address and counter.\<close>

lemma find_acked_first:
  assumes "i < length es" "ack_matches h (es ! i) = Some True"
    "\<And>j. j < i \<Longrightarrow> \<not> (re_addr (es ! j) = ah_src_addr h \<and> re_aps_counter (es ! j) = ah_aps_counter h)"
  shows "find_acked h n es = Some (Some (n + i))"
  using assms
proof (induction es arbitrary: i n)
  case (Cons e es)
  show ?case
  proof (cases i)
    case 0
    then show ?thesis using Cons.prems(2) by simp
  next
    case (Suc k)
    have "ack_matches h e = Some False" using Cons.prems(3) [of 0] Suc by (auto simp: ack_matches_def)
    moreover have "find_acked h (n + 1) es = Some (Some (n + 1 + k))"
    proof (rule Cons.IH)
      show "k < length es" "ack_matches h (es ! k) = Some True" using Cons.prems(1,2) Suc by simp_all
      show "\<not> (re_addr (es ! j) = ah_src_addr h \<and> re_aps_counter (es ! j) = ah_aps_counter h)" if "j < k" for j
        using Cons.prems(3) [of "Suc j"] that Suc by simp
    qed
    ultimately show ?thesis using Suc by simp
  qed
qed simp

text \<open>An acknowledgement in buffer \<open>c\<close>, for the frame of the entry \<open>i\<close>.\<close>

lemma ack_arrives:
  fixes g :: "'z zb_globals_s_scheme"
  assumes ok: "entry_ok i g" and wait: "re_state (re_tab g ! i) = ZB_APS_RETRANS_ENT_SENT_MAC_CONFIRMED_ALRM_RUNNING"
    and r: "get_buf c g = Some r" "zb_aps_hdr_parse True r = Some (h, r')" "peek_aps_fc r = Some fc"
      "ZB_APS_FC_GET_FRAME_TYPE fc = ZB_APS_FRAME_ACK"
    and m: "find_acked h 0 (re_tab g) = Some (Some i)" "ZB_APS_FC_GET_ACK_FORMAT (ah_fc h) = 0"
  shows "\<exists>g2. zb_nlde_data_indication pro c g = zb_free_buf c g2
    \<and> re_state (re_tab g2 ! i) = ZB_APS_RETRANS_ENT_FREE \<and> (\<forall>j. j \<noteq> i \<longrightarrow> re_tab g2 ! j = re_tab g ! j)
    \<and> callbacks (sched g2) = callbacks (sched g) @ [\<lparr>cb_func = Cb_zb_apsde_data_confirm, cb_param = of_nat (re_buf (re_tab g ! i))\<rparr>]
    \<and> b_status (bp_pool (bpool g2) ! re_buf (re_tab g ! i)) = 0"
proof -
  let ?g = "put_buf c r' g"
  have t: "re_tab ?g = re_tab g" by simp
  have "entry_ok i ?g" using ok by (simp add: entry_ok_def) (simp add: put_buf_def)
  moreover have "event_hits i (Re_ack h) ?g" using m by simp
  moreover have "arq_step Arq_acked (arq_of (re_tab ?g ! i)) = (Arq_idle, [Arq_success])" using wait by (simp add: arq_of_def)
  ultimately obtain g2 where g2: "aps_ack_frame_handle h ?g = Some g2" "event_effect i Arq_idle [Arq_success] ?g g2"
    using ack_effect [of i ?g h Arq_idle] m(2) by blast
  have "zb_nlde_data_indication pro c g = zb_free_buf c g2"
    using r g2(1) by (simp add: zb_nlde_data_indication_def)
  then show ?thesis using g2(2) by (auto simp: event_effect_def arq_idle_iff)
qed

text \<open>What the sender reads of the acknowledgement that the receiver has built.\<close>

lemma ack_of_frame:
  assumes fc: "\<not> is_group fc" "ZB_APS_FC_GET_FRAME_TYPE fc = ZB_APS_FRAME_DATA" and p: "buf_wf p"
  shows "\<exists>p'. ack_fill (datareq_parsed src dst fc req cnt) p = Some p' \<and> buf_data p' = datareq_hdr ack_fc (answer_to req) cnt
    \<and> (\<forall>f r. nwk_frame f src dst (buf_data p') r \<longrightarrow> peek_aps_fc r = Some ack_fc
      \<and> (\<exists>r'. zb_aps_hdr_parse True r = Some (datareq_parsed dst src ack_fc (answer_to req) cnt, r')))"
proof -
  have "ZB_APS_FC_GET_FRAME_TYPE fc \<noteq> ZB_APS_FRAME_COMMAND" using fc(2) by (simp add: aps_frame_consts)
  note a = ack_hdr_datareq [OF fc(1) this, of src dst req cnt]
  have "length (datareq_hdr ack_fc (answer_to req) cnt) < 148" by (simp add: datareq_hdr_def)
  then obtain p' where p': "ack_fill (datareq_parsed src dst fc req cnt) p = Some p'" "buf_wf p'"
      "buf_data p' = datareq_hdr ack_fc (answer_to req) cnt"
    using ack_fill_spec [OF a _ p] by blast
  have "peek_aps_fc r = Some ack_fc
      \<and> (\<exists>r'. zb_aps_hdr_parse True r = Some (datareq_parsed dst src ack_fc (answer_to req) cnt, r'))"
    if fr: "nwk_frame f src dst (buf_data p') r" for f r
  proof -
    obtain r' where r': "zb_aps_hdr_parse True r = map_option (\<lambda>h. (h, r')) (parse_aps dst src (b_buf r') (ZB_BUF_BEGIN r'))"
        "buf_wf r'" "buf_data r' = buf_data p'" using parse_cut [OF fr] by blast
    have "parse_aps dst src (b_buf r') (ZB_BUF_BEGIN r') = Some (datareq_parsed dst src ack_fc (answer_to req) cnt)"
      using parse_aps_datareq [OF r'(2), of "[]" ack_fc "answer_to req" cnt "[]" "ZB_BUF_BEGIN r'"] r'(3) p'(3) ack_fc_facts(1)
      by simp
    moreover have "buf_data p' = ack_fc # tl (buf_data p')" by (simp add: p'(3) datareq_hdr_def)
    then have "peek_aps_fc r = Some ack_fc" using peek_frame fr by metis
    ultimately show ?thesis using r'(1) by simp
  qed
  then show ?thesis using p'(1,3) by blast
qed

text \<open>
  C7: two devices agree on the end of a transmission. A sends a unicast data frame to B, for which
  \<open>save_ack_data\<close> has made the entry \<open>i\<close>; B builds the acknowledgement from the header that it has parsed, in any
  buffer; when the frame is waiting and this acknowledgement arrives at A, with whatever network header,
  \<open>zb_nlde_data_indication\<close> frees exactly this entry, queues one confirm for the frame's buffer with status success,
  and frees the buffer of the acknowledgement, provided that no entry before has the same address and counter.
\<close>

theorem acknowledgement_confirms_frame:
  fixes g0 g :: "'z zb_globals_s_scheme"
  assumes saved: "save_ack_data b req g0 = (g, 0, i)" "find_free_re g0 = Some i" "length (re_tab g0) = 10"
    and req: "adr_addr_mode req = ZB_APS_ADDR_MODE_16_ENDP_PRESENT" "req_short req = dst"
    and fc: "\<not> is_group fc" "ZB_APS_FC_GET_FRAME_TYPE fc = ZB_APS_FRAME_DATA"
    and cnt: "cnt = aps_counter (aib (aps g0)) - 1" and p: "buf_wf p"
  shows "\<exists>p'. ack_fill (datareq_parsed src dst fc req cnt) p = Some p'
    \<and> (\<forall>f r c (g1 :: 'z zb_globals_s_scheme) n. nwk_frame f src dst (buf_data p') r \<and> get_buf c g1 = Some r \<and> entry_ok i g1
      \<and> re_tab g1 ! i = (re_tab g ! i)\<lparr>re_aps_retries := n, re_state := ZB_APS_RETRANS_ENT_SENT_MAC_CONFIRMED_ALRM_RUNNING\<rparr>
      \<and> (\<forall>j < i. \<not> (re_addr (re_tab g1 ! j) = dst \<and> re_aps_counter (re_tab g1 ! j) = cnt)) \<longrightarrow>
      (\<exists>g2. zb_nlde_data_indication pro c g1 = zb_free_buf c g2
        \<and> re_state (re_tab g2 ! i) = ZB_APS_RETRANS_ENT_FREE \<and> (\<forall>j. j \<noteq> i \<longrightarrow> re_tab g2 ! j = re_tab g1 ! j)
        \<and> callbacks (sched g2) = callbacks (sched g1) @ [\<lparr>cb_func = Cb_zb_apsde_data_confirm, cb_param = of_nat b\<rparr>]
        \<and> b_status (bp_pool (bpool g2) ! b) = 0))"
proof -
  note sv = saved_entry [OF saved]
  have e: "re_addr (re_tab g ! i) = dst" using sv(9) [OF req(1)] req(2) by simp
  let ?ans = "datareq_parsed dst src ack_fc (answer_to req) cnt"
  obtain p' where p': "ack_fill (datareq_parsed src dst fc req cnt) p = Some p'"
      "\<forall>f r. nwk_frame f src dst (buf_data p') r \<longrightarrow> peek_aps_fc r = Some ack_fc
        \<and> (\<exists>r'. zb_aps_hdr_parse True r = Some (?ans, r'))"
    using ack_of_frame [OF fc p, of src dst req cnt] by blast
  have "\<exists>g2. zb_nlde_data_indication pro c g1 = zb_free_buf c g2
        \<and> re_state (re_tab g2 ! i) = ZB_APS_RETRANS_ENT_FREE \<and> (\<forall>j. j \<noteq> i \<longrightarrow> re_tab g2 ! j = re_tab g1 ! j)
        \<and> callbacks (sched g2) = callbacks (sched g1) @ [\<lparr>cb_func = Cb_zb_apsde_data_confirm, cb_param = of_nat b\<rparr>]
        \<and> b_status (bp_pool (bpool g2) ! b) = 0"
    if fr: "nwk_frame f src dst (buf_data p') r" and r: "get_buf c g1 = Some r" and ok: "entry_ok i g1"
      and t: "re_tab g1 ! i = (re_tab g ! i)\<lparr>re_aps_retries := n, re_state := ZB_APS_RETRANS_ENT_SENT_MAC_CONFIRMED_ALRM_RUNNING\<rparr>"
      and first: "\<forall>j < i. \<not> (re_addr (re_tab g1 ! j) = dst \<and> re_aps_counter (re_tab g1 ! j) = cnt)"
    for f r c n and g1 :: "'z zb_globals_s_scheme"
  proof -
    obtain r' where pr: "zb_aps_hdr_parse True r = Some (?ans, r')" and pk: "peek_aps_fc r = Some ack_fc"
      using p'(2) fr by blast
    have "ack_matches ?ans (re_tab g1 ! i) = Some True"
      using t e sv(5-8) cnt ack_fc_facts by (simp add: ack_matches_def datareq_parsed_def answer_to_def)
    moreover have "i < length (re_tab g1)" using entry_okD(1,2) [OF ok] by simp
    ultimately have m: "find_acked ?ans 0 (re_tab g1) = Some (Some i)"
      using find_acked_first [of i "re_tab g1" ?ans 0] first by (simp add: datareq_parsed_def)
    have "ZB_APS_FC_GET_ACK_FORMAT (ah_fc ?ans) = 0" using ack_fc_facts(1) by (simp add: datareq_parsed_def)
    from ack_arrives [OF ok _ r pr pk ack_fc_facts(3) m this, of pro] show ?thesis using t sv(4) by simp
  qed
  then show ?thesis using p'(1) by blast
qed

end
