(* ===== verification/Zb_Aps_Group_Runs.thy ===== *)
theory Zb_Aps_Group_Runs
  imports Zb_Aps_Main_Props
begin

text \<open>
  Group frames: the frame that is passed up stays in its buffer while every run of \<^verbatim>\<open>zb_aps_pass_group_msg_up\<close> puts
  a copy for the next endpoint into another one. And the attribute whose value is cut to a byte.
\<close>

section \<open>Buffers in use\<close>

lemma get_buf_delayed_frame:
  fixes g :: "'z zb_globals_s_scheme"
  assumes wf: "base_wf g" and use: "buf_in_use a (bpool g)"
    and g': "zb_get_buf_delayed cb d g = Some (g', r)"
  shows "get_buf a g' = get_buf a g \<and> aps g' = aps g \<and> buf_param g' = buf_param g"
proof -
  have rep: "pool_rep (bpool g) (free_bufs (bpool g))" and sw: "sched_wf (sched g)"
    using wf by (simp_all add: base_wf_def pool_wf_def)
  show ?thesis
  proof (cases "bufs_allocated (bpool g) ! of_bool d < 8")
    case True
    obtain b fr bp' where b: "free_bufs (bpool g) = b # fr" "b < 16" "zb_get_buf d (bpool g) = Some (bp', Some b)"
        "bp_pool bp' = (bp_pool (bpool g))[b := (buf_bzero_hdr (bp_pool (bpool g) ! b))\<lparr>b_is_in_buf := d\<rparr>]"
      using get_buf_ok [OF rep True] by auto
    have "a \<noteq> b" using use b(1) by (auto simp: buf_in_use_def)
    moreover have "zb_schedule_callback cb (of_nat b) (g\<lparr>bpool := bp'\<rparr>) = Some (g', r)"
      using g' b(3) by (simp add: zb_get_buf_delayed_def)
    then obtain s where "g' = g\<lparr>bpool := bp', sched := s\<rparr>" using schedule_callback_sched by fastforce
    ultimately show ?thesis using b(4) by (auto simp: get_buf_def aget_def)
  next
    case False
    have "bufs_allocated (bpool g) ! of_bool d = 8" using False pool_rep_dir(2) [OF rep, of d] by simp
    note lim = get_buf_limit [OF rep this]
    have "\<exists>s. g' = g\<lparr>sched := s\<rparr>" using g' lim
      by (auto simp: zb_get_buf_delayed_def Let_def split: option.splits prod.splits intro: exI [of _ "sched g"])
    then show ?thesis by (auto simp: get_buf_def)
  qed
qed

section \<open>One endpoint\<close>

text \<open>The frame that is being passed up: its buffer \<open>a\<close>, its header, and the group in slot \<open>i\<close>.\<close>

definition group_frame :: "nat \<Rightarrow> zb_aps_hdr \<Rightarrow> nat \<Rightarrow> 'z zb_globals_s_scheme \<Rightarrow> bool" where
  "group_frame a h i g \<longleftrightarrow> active_pass_up_buf (aps_group (aps g)) = Some a \<and> buf_param g a = Aps_hdr h
     \<and> (\<exists>ga. ah_group_addr h = Some ga \<and> find_group 0 (aps_group (aps g)) ga = Some (Some i))"

abbreviation group_endpoints :: "nat \<Rightarrow> 'z zb_globals_s_scheme \<Rightarrow> zb_uint8_t list" where
  "group_endpoints i g \<equiv> ge_endpoints (groups (aps_group (aps g)) ! i)"

abbreviation group_size :: "nat \<Rightarrow> 'z zb_globals_s_scheme \<Rightarrow> nat" where
  "group_size i g \<equiv> ge_n_endpoints (groups (aps_group (aps g)) ! i)"

lemma group_step:
  fixes g :: "'z zb_globals_s_scheme"
  assumes wf: "base_wf g" and use: "buf_in_use a (bpool g)" "buf_in_use b (bpool g)" "a \<noteq> b"
    and fr: "group_frame a h i g" and pa: "get_buf a g = Some pa"
    and k: "unat (b_handle pa) < group_size i g" "unat (b_handle pa) < length (group_endpoints i g)"
    and room: "length (callbacks (sched g)) < 16"
  shows "\<exists>g' p' cs. zb_aps_pass_group_msg_up b g = Some g'
    \<and> buf_param g' b = Aps_hdr (h\<lparr>ah_dst_endpoint := Some (group_endpoints i g ! unat (b_handle pa))\<rparr>)
    \<and> get_buf b g' = Some p' \<and> buf_data p' = buf_data pa
    \<and> group_frame a h i g' \<and> aps g' = aps g \<and> get_buf a g' = Some (pa\<lparr>b_handle := b_handle pa + 1\<rparr>)
    \<and> callbacks (sched g') = callbacks (sched g) @ \<lparr>cb_func = Cb_zb_apsde_data_indication, cb_param = of_nat b\<rparr> # cs"
proof -
  let ?ep = "group_endpoints i g ! unat (b_handle pa)"
  have lt: "a < 16" "b < 16" using use by (simp_all add: buf_in_use_def)
  have len: "length (bp_pool (bpool g)) = 16" using wf by (simp add: base_wf_def pool_wf_def pool_rep_def)
  define pb where "pb = bp_pool (bpool g) ! b"
  have pb: "get_buf b g = Some pb" and pa': "pa = bp_pool (bpool g) ! a"
    using len lt pa by (simp_all add: get_buf_def aget_def pb_def)
  define x where "x = (ZB_BUF_COPY pb pa)\<lparr>b_handle := 0\<rparr>"
  define y where "y = pa\<lparr>b_handle := b_handle pa + 1\<rparr>"
  define g3 where "g3 = put_param b (Aps_hdr (h\<lparr>ah_dst_endpoint := Some ?ep\<rparr>)) (put_buf b x (put_param b (Aps_hdr h) (put_buf b (ZB_BUF_COPY pb pa) g)))"
  define g4 where "g4 = put_buf a y g3"
  have ne: "next_endpoint (b_handle pa) ga (aps_group (aps g)) = Some (Some ?ep)"
    if "find_group 0 (aps_group (aps g)) ga = Some (Some i)" for ga
    using that k by (simp add: next_endpoint_def aget_def)
  have other: "get_buf a g3 = Some pa" "get_buf b g4 = Some x" "get_buf a g4 = Some y"
    using pa pb use(3) by (auto simp: g3_def g4_def get_buf_def put_buf_def put_param_def aget_def split: if_splits)
  have w3: "base_wf g3 \<and> (\<forall>j. buf_in_use j (bpool g3) = buf_in_use j (bpool g)) \<and> sched g3 = sched g"
  proof -
    have c: "b_is_in_buf (ZB_BUF_COPY pb pa) = b_is_in_buf (bp_pool (bpool g) ! b)" by (simp add: ZB_BUF_COPY_def pb_def)
    note p1 = put_buf_wf [OF wf lt(2) c]
    let ?h = "put_param b (Aps_hdr h) (put_buf b (ZB_BUF_COPY pb pa) g)"
    have "base_wf ?h" "b_is_in_buf x = b_is_in_buf (bp_pool (bpool ?h) ! b)"
      using p1(1,3) c by (simp_all add: base_wf_def put_param_def x_def)
    note p2 = put_buf_wf [OF this(1) lt(2) this(2)]
    show ?thesis using p1(2,4) p2(1,2,4) by (simp add: g3_def base_wf_def put_param_def)
  qed
  have "b_is_in_buf y = b_is_in_buf (bp_pool (bpool g3) ! a)"
    using other(1) by (auto simp: y_def get_buf_def aget_def split: if_splits)
  note w4 = put_buf_wf [OF conjunct1 [OF w3] lt(1) this, folded g4_def]
  have sw: "sched_wf (sched g4)" "sched g4 = sched g" using w4(1,4) w3 by (simp_all add: base_wf_def)
  obtain q where q: "schedule_buf Cb_zb_apsde_data_indication b g4 = Some (g4\<lparr>sched := (sched g)\<lparr>cb_q := q\<rparr>\<rparr>)"
      "sched_wf ((sched g)\<lparr>cb_q := q\<rparr>)"
      "callbacks ((sched g)\<lparr>cb_q := q\<rparr>) = callbacks (sched g) @ [\<lparr>cb_func = Cb_zb_apsde_data_indication, cb_param = of_nat b\<rparr>]"
    using schedule_buf_room [OF sw(1) _ lt(2), of Cb_zb_apsde_data_indication] room unfolding sw(2) by blast
  define g5 where "g5 = g4\<lparr>sched := (sched g)\<lparr>cb_q := q\<rparr>\<rparr>"
  have w5: "base_wf g5" "buf_in_use a (bpool g5)" "buf_in_use b (bpool g5)" "sched g5 = (sched g)\<lparr>cb_q := q\<rparr>"
    using w4(1,2) w3 q(2) use(1,2) by (simp_all add: g5_def base_wf_def)
  obtain g6 r where g6: "zb_get_buf_delayed Cb_zb_aps_pass_group_msg_up True g5 = Some (g6, r)"
      "\<exists>cs. callbacks (sched g6) = callbacks (sched g5) @ cs"
    using zb_get_buf_delayed_spec [OF w5(1), of Cb_zb_aps_pass_group_msg_up True] by (metis append_Nil2)
  have "zb_aps_pass_group_msg_up b g = Some g6"
  proof -
    obtain ga where ga: "ah_group_addr h = Some ga" "find_group 0 (aps_group (aps g)) ga = Some (Some i)"
      using fr by (auto simp: group_frame_def)
    have act: "active_pass_up_buf (aps_group (aps g)) = Some a" "buf_param g a = Aps_hdr h" using fr by (simp_all add: group_frame_def)
    have "group_msg_copy a b ?ep g = Some g6"
    proof -
      have c: "copy_buf b a g = Some (put_param b (Aps_hdr h) (put_buf b (ZB_BUF_COPY pb pa) g))"
        using pa pb act(2) by (simp add: copy_buf_def)
      have e: "get_buf b (put_param b (Aps_hdr h) (put_buf b (ZB_BUF_COPY pb pa) g)) = Some (ZB_BUF_COPY pb pa)"
        using pb by simp
      have f: "buf_param (put_buf b x (put_param b (Aps_hdr h) (put_buf b (ZB_BUF_COPY pb pa) g))) b = Aps_hdr h"
        by (simp add: put_param_def)
      show ?thesis unfolding group_msg_copy_def c bind.bind_lunit e Let_def x_def [symmetric] f
        using other(1) q(1) g6(1) by (simp add: g3_def [symmetric] y_def [symmetric] g4_def [symmetric] g5_def [symmetric] zb_get_in_buf_delayed_def)
    qed
    then show ?thesis using act pa ga ne [OF ga(2)] by (simp add: zb_aps_pass_group_msg_up_def)
  qed
  moreover have "get_buf b g6 = Some x" "get_buf a g6 = Some y" "aps g6 = aps g" "buf_param g6 = buf_param g3"
    using get_buf_delayed_frame [OF w5(1,2) g6(1)] get_buf_delayed_frame [OF w5(1,3) g6(1)] other(2,3)
    by (simp_all add: g5_def g4_def g3_def) (simp_all add: put_param_def)
  moreover have "buf_param g3 b = Aps_hdr (h\<lparr>ah_dst_endpoint := Some ?ep\<rparr>)" "buf_param g3 a = Aps_hdr h"
    using fr use(3) by (simp_all add: g3_def put_param_def group_frame_def)
  moreover have "buf_data x = buf_data pa" by (simp add: x_def ZB_BUF_COPY_def buf_data_def)
  ultimately show ?thesis using fr g6(2) q(3) w5(4) by (auto simp: group_frame_def y_def)
qed

section \<open>Runs\<close>

text \<open>
  \<open>group_run a i g g' bs\<close>: from \<open>g\<close> to \<open>g'\<close> the function has run once for each of the buffers \<open>bs\<close>, never with
  the buffer \<open>a\<close> of the frame itself, and not more often than the group has endpoints. Other code may run in between
  as long as it leaves the frame and the group alone.
\<close>

definition frame_kept :: "nat \<Rightarrow> nat \<Rightarrow> 'z zb_globals_s_scheme \<Rightarrow> 'z zb_globals_s_scheme \<Rightarrow> bool" where
  "frame_kept a i g g' \<longleftrightarrow> get_buf a g' = get_buf a g \<and> buf_param g' a = buf_param g a
     \<and> active_pass_up_buf (aps_group (aps g')) = active_pass_up_buf (aps_group (aps g))
     \<and> groups (aps_group (aps g')) = groups (aps_group (aps g)) \<and> n_groups (aps_group (aps g')) = n_groups (aps_group (aps g))"

inductive group_run :: "nat \<Rightarrow> nat \<Rightarrow> 'z zb_globals_s_scheme \<Rightarrow> 'z zb_globals_s_scheme \<Rightarrow> nat list \<Rightarrow> bool"
  for a i and g :: "'z zb_globals_s_scheme" where
  group_start: "group_run a i g g []"
| group_other: "\<lbrakk>group_run a i g g1 bs; frame_kept a i g1 g2\<rbrakk> \<Longrightarrow> group_run a i g g2 bs"
| group_pass: "\<lbrakk>group_run a i g g1 bs; length bs < group_size i g; base_wf g1; buf_in_use a (bpool g1); buf_in_use b (bpool g1);
      a \<noteq> b; length (callbacks (sched g1)) < 16; zb_aps_pass_group_msg_up b g1 = Some g2\<rbrakk> \<Longrightarrow> group_run a i g g2 (bs @ [b])"

lemma find_group_cong:
  "groups G' = groups G \<Longrightarrow> n_groups G' = n_groups G \<Longrightarrow> find_group k G' a = find_group k G a"
proof (induction k G a rule: find_group.induct)
  case (1 k G a)
  then show ?case by (subst (1 2) find_group.simps) auto
qed

lemma group_run_inv:
  fixes g :: "'z zb_globals_s_scheme"
  assumes run: "group_run a i g g' bs"
    and fr: "group_frame a h i g" and pa: "get_buf a g = Some pa" "b_handle pa = 0"
    and n: "group_size i g \<le> length (group_endpoints i g)" "group_size i g < 256"
  shows "length bs \<le> group_size i g \<and> group_frame a h i g' \<and> groups (aps_group (aps g')) = groups (aps_group (aps g))
    \<and> get_buf a g' = Some (pa\<lparr>b_handle := of_nat (length bs)\<rparr>)"
  using run
proof induction
  case group_start
  then show ?case using fr pa by simp
next
  case (group_other g1 bs g2)
  then show ?case using find_group_cong [of "aps_group (aps g2)" "aps_group (aps g1)"]
    by (auto simp: frame_kept_def group_frame_def)
next
  case (group_pass g1 bs b g2)
  let ?p = "pa\<lparr>b_handle := of_nat (length bs)\<rparr>"
  have u: "unat (b_handle ?p) = length bs" using group_pass.hyps(2) n(2) by (simp add: unat8_of_nat)
  have k: "unat (b_handle ?p) < group_size i g1" "unat (b_handle ?p) < length (group_endpoints i g1)"
    using group_pass.IH group_pass.hyps(2) n(1) u by simp_all
  have f: "group_frame a h i g1" "get_buf a g1 = Some ?p" using group_pass.IH by simp_all
  have "group_frame a h i g2 \<and> aps g2 = aps g1 \<and> get_buf a g2 = Some (?p\<lparr>b_handle := b_handle ?p + 1\<rparr>)"
    using group_step [OF group_pass.hyps(3,4,5,6) f k group_pass.hyps(7)] group_pass.hyps(8) by auto
  then show ?case using group_pass.IH group_pass.hyps(2) by simp
qed

text \<open>
  C13: every endpoint of a group gets the frame once, in order. Whatever runs in between, when the function has run
  with \<open>k\<close> buffers since the frame became active, the next run with a buffer in use never fails, gives the
  application a copy of the frame for endpoint \<open>k\<close> of the group, and leaves the frame as it is; when all endpoints
  have had it, the next run ends the frame.
\<close>

theorem group_frame_reaches_endpoints:
  fixes g :: "'z zb_globals_s_scheme"
  assumes fr: "group_frame a h i g" and pa: "get_buf a g = Some pa" "b_handle pa = 0"
    and n: "group_size i g \<le> length (group_endpoints i g)" "group_size i g < 256"
    and run: "group_run a i g g1 bs"
  shows "length bs \<le> group_size i g
    \<and> (length bs = group_size i g \<longrightarrow> zb_aps_pass_group_msg_up b g1 = group_msg_done a b g1)
    \<and> (length bs < group_size i g \<and> base_wf g1 \<and> buf_in_use a (bpool g1) \<and> buf_in_use b (bpool g1) \<and> a \<noteq> b
        \<and> length (callbacks (sched g1)) < 16 \<longrightarrow>
      (\<exists>g2 p cs. zb_aps_pass_group_msg_up b g1 = Some g2 \<and> group_run a i g g2 (bs @ [b])
        \<and> buf_param g2 b = Aps_hdr (h\<lparr>ah_dst_endpoint := Some (group_endpoints i g ! length bs)\<rparr>)
        \<and> get_buf b g2 = Some p \<and> buf_data p = buf_data pa
        \<and> callbacks (sched g2) = callbacks (sched g1) @ \<lparr>cb_func = Cb_zb_apsde_data_indication, cb_param = of_nat b\<rparr> # cs))"
proof -
  note inv = group_run_inv [OF run fr pa n]
  let ?p = "pa\<lparr>b_handle := of_nat (length bs)\<rparr>"
  have u: "unat (b_handle ?p) = length bs" using inv n(2) by (simp add: unat8_of_nat)
  have "zb_aps_pass_group_msg_up b g1 = group_msg_done a b g1" if "length bs = group_size i g"
  proof -
    obtain ga where ga: "ah_group_addr h = Some ga" "find_group 0 (aps_group (aps g1)) ga = Some (Some i)"
      "active_pass_up_buf (aps_group (aps g1)) = Some a" "buf_param g1 a = Aps_hdr h"
      using inv by (auto simp: group_frame_def)
    have "next_endpoint (b_handle ?p) ga (aps_group (aps g1)) = Some None"
      using ga(2) u that inv by (simp add: next_endpoint_def)
    then show ?thesis using ga inv by (simp add: zb_aps_pass_group_msg_up_def)
  qed
  moreover have "\<exists>g2 p cs. zb_aps_pass_group_msg_up b g1 = Some g2 \<and> group_run a i g g2 (bs @ [b])
        \<and> buf_param g2 b = Aps_hdr (h\<lparr>ah_dst_endpoint := Some (group_endpoints i g ! length bs)\<rparr>)
        \<and> get_buf b g2 = Some p \<and> buf_data p = buf_data pa
        \<and> callbacks (sched g2) = callbacks (sched g1) @ \<lparr>cb_func = Cb_zb_apsde_data_indication, cb_param = of_nat b\<rparr> # cs"
    if lt: "length bs < group_size i g" and st: "base_wf g1" "buf_in_use a (bpool g1)" "buf_in_use b (bpool g1)" "a \<noteq> b"
      "length (callbacks (sched g1)) < 16"
  proof -
    have "unat (b_handle ?p) < group_size i g1" "unat (b_handle ?p) < length (group_endpoints i g1)"
      using inv lt n(1) u by simp_all
    moreover have "group_frame a h i g1" "get_buf a g1 = Some ?p" using inv by simp_all
    ultimately obtain g2 p cs where s: "zb_aps_pass_group_msg_up b g1 = Some g2"
        "buf_param g2 b = Aps_hdr (h\<lparr>ah_dst_endpoint := Some (group_endpoints i g1 ! unat (b_handle ?p))\<rparr>)"
        "get_buf b g2 = Some p" "buf_data p = buf_data ?p"
        "callbacks (sched g2) = callbacks (sched g1) @ \<lparr>cb_func = Cb_zb_apsde_data_indication, cb_param = of_nat b\<rparr> # cs"
      using group_step [OF st(1-4) _ _ _ _ st(5)] by blast
    moreover have "buf_data ?p = buf_data pa" by (simp add: buf_data_def)
    moreover have "group_endpoints i g1 = group_endpoints i g" using inv by simp
    ultimately show ?thesis using group_pass [OF run lt st s(1)] u by auto
  qed
  ultimately show ?thesis using inv by blast
qed

section \<open>The channel mask\<close>

text \<open>
  the channel mask is cut to a byte. A request to set the mask succeeds, and tells so, but what is stored is the
  lowest of the four bytes; the channels of the 2.4 GHz band are the bits from 11 on, so no channel is left.
\<close>

theorem channel_mask_is_cut:
  fixes g :: "'z zb_globals_s_scheme" and v :: zb_uint32_t
  assumes p: "get_buf b g = Some p" "buf_wf p" "b < 16"
    and d: "buf_data p = htole32 ZB_APS_AIB_CHANNEL_MASK @ [4] @ htole32 v @ rest"
    and room: "sched_wf (sched g)" "length (callbacks (sched g)) < 16"
  shows "\<exists>g' p'. zb_apsme_set_request b g = Some g' \<and> aps_channel_mask (aib (aps g')) = v AND 0xff
    \<and> get_buf b g' = Some p' \<and> buf_data p' = htole32 0 @ htole32 ZB_APS_AIB_CHANNEL_MASK
    \<and> callbacks (sched g') = callbacks (sched g) @ [\<lparr>cb_func = Cb_zb_apsme_set_confirm, cb_param = of_nat b\<rparr>]"
proof -
  let ?o = "ZB_BUF_BEGIN p"
  have a: "rd32 (b_buf p) ?o = Some ZB_APS_AIB_CHANNEL_MASK"
    using rd32_window [OF p(2), of "[]" ZB_APS_AIB_CHANNEL_MASK "[4] @ htole32 v @ rest" ?o] d by simp
  have "buf_data p = (htole32 ZB_APS_AIB_CHANNEL_MASK @ [4]) @ ucast v # tl (htole32 v) @ rest" by (simp add: d htole32_def)
  then have low: "rd8 (b_buf p) (?o + 5) = Some (ucast v)" by (rule rd8_window [OF p(2)]) simp
  define A where "A = (aib (aps g))\<lparr>aps_channel_mask := ucast (ucast v :: zb_uint8_t)\<rparr>"
  have s: "set_aib ZB_APS_AIB_CHANNEL_MASK (b_buf p) (?o + 5) (aib (aps g)) = Some (A, 0)"
    using low by (simp add: set_aib_def aib_attr_defs A_def)
  obtain p' where p': "fill_packet (htole32 0 @ htole32 ZB_APS_AIB_CHANNEL_MASK) p = Some p'"
      "buf_data p' = htole32 0 @ htole32 ZB_APS_AIB_CHANNEL_MASK"
    using fill_packet_spec [OF _ p(2), of "htole32 0 @ htole32 ZB_APS_AIB_CHANNEL_MASK"] by auto
  define g1 where "g1 = put_buf b p' (upd_aib (\<lambda>_. A) g)"
  have g1: "sched g1 = sched g" "get_buf b g1 = Some p'" "aib (aps g1) = A"
    using p(1) by (simp_all add: g1_def) (simp add: upd_aib_def upd_aps_def)
  obtain q where q: "schedule_buf Cb_zb_apsme_set_confirm b g1 = Some (g1\<lparr>sched := (sched g)\<lparr>cb_q := q\<rparr>\<rparr>)"
      "callbacks ((sched g)\<lparr>cb_q := q\<rparr>) = callbacks (sched g) @ [\<lparr>cb_func = Cb_zb_apsme_set_confirm, cb_param = of_nat b\<rparr>]"
    using schedule_buf_room [of g1 b Cb_zb_apsme_set_confirm] room p(3) g1(1) by auto
  have "zb_apsme_set_request b g = Some (g1\<lparr>sched := (sched g)\<lparr>cb_q := q\<rparr>\<rparr>)"
    using p(1) a s p'(1) q(1) by (simp add: zb_apsme_set_request_def g1_def)
  moreover have "(ucast (ucast v :: zb_uint8_t) :: zb_uint32_t) = v AND 0xff"
  proof -
    have "(0xff :: zb_uint32_t) = mask 8" by (simp add: mask_eq_exp_minus_1)
    then show ?thesis by (auto simp: bit_eq_iff bit_simps)
  qed
  ultimately show ?thesis using g1(2,3) p'(2) q(2) by (simp add: A_def)
qed

end
