(* ===== verification/Zb_Aps_Demo.thy ===== *)
theory Zb_Aps_Demo
  imports Zb_Aps_Runs
begin

text \<open>A device that has sent a data frame to device 0x1234 and waits for its acknowledgement: examples for the properties.\<close>

section \<open>The frame\<close>

definition demo_req :: zb_apsde_data_req where
  "demo_req = \<lparr>adr_dst_addr = [0x34, 0x12, 0, 0, 0, 0, 0, 0], adr_profileid = 0x104, adr_clusterid = 6,
     adr_dst_endpoint = 2, adr_src_endpoint = 1, adr_radius = 0, adr_addr_mode = ZB_APS_ADDR_MODE_16_ENDP_PRESENT,
     adr_tx_options = 4\<rparr>"

definition demo_apdu :: zb_buf where
  "demo_apdu = (buf_bzero_hdr zero_buf)\<lparr>b_data_offset := 40, b_len := 3\<rparr>"

lemma demo_apdu_wf: "buf_wf demo_apdu" "unat (b_len demo_apdu) = 3"
  by (simp_all add: demo_apdu_def buf_wf_def buf_bzero_hdr_def zero_buf_def ZB_IO_BUF_SIZE_def)

definition demo_nwk :: "zb_uint16_t \<Rightarrow> zb_uint16_t \<Rightarrow> zb_uint8_t list \<Rightarrow> zb_buf" where
  "demo_nwk dst src pay = zero_buf\<lparr>b_len := of_nat (8 + length pay),
     b_buf := [8, 0] @ htole16 dst @ htole16 src @ [5, 77] @ pay @ replicate (140 - length pay) 0\<rparr>"

lemma demo_nwk:
  assumes "length pay \<le> 100"
  shows "nwk_frame (8, 0) dst src pay (demo_nwk dst src pay)"
proof -
  have n: "zb_nwk_hdr_size (8, 0) = 8" by code_simp
  have u: "unat (of_nat (8 + length pay) :: zb_uint8_t) = 8 + length pay" using assms by (intro unat8_of_nat) simp
  have wf: "buf_wf (demo_nwk dst src pay)" using assms u by (simp add: buf_wf_def demo_nwk_def zero_buf_def ZB_IO_BUF_SIZE_def)
  define xs where "xs = [8, 0] @ htole16 dst @ htole16 src @ [5, 77] @ pay"
  have "length xs = 8 + length pay" "b_buf (demo_nwk dst src pay) = xs @ replicate (140 - length pay) 0"
    by (simp_all add: xs_def demo_nwk_def)
  then have "buf_data (demo_nwk dst src pay) = xs"
    using u by (simp add: buf_data_def ZB_BUF_BEGIN_def) (simp add: demo_nwk_def zero_buf_def)
  then have "buf_data (demo_nwk dst src pay) = [8, 0] @ htole16 dst @ htole16 src @ [5, 77] @ pay" by (simp add: xs_def)
  then show ?thesis using wf n unfolding nwk_frame_def by (auto intro!: exI [of _ "[5, 77]"])
qed

lemma zb_aps_hdr_parse_fill_witness:
  "\<exists>b' r'. aps_data_hdr_fill_datareq 0x40 demo_req 7 demo_apdu = Some b'
    \<and> zb_aps_hdr_parse True (demo_nwk 0 0x1234 (buf_data b')) = Some (datareq_parsed 0x1234 0 0x40 demo_req 7, r')
    \<and> buf_data r' = datareq_hdr 0x40 demo_req 7 @ buf_data demo_apdu"
proof -
  have f: "ZB_APS_FC_GET_ACK_FORMAT 0x40 = 0" "ZB_APS_FC_GET_FRAME_TYPE 0x40 \<noteq> ZB_APS_FRAME_COMMAND" by code_simp+
  obtain b' where b': "aps_data_hdr_fill_datareq 0x40 demo_req 7 demo_apdu = Some b'"
      "\<forall>f dst src r. nwk_frame f dst src (buf_data b') r \<longrightarrow>
        (\<exists>r'. zb_aps_hdr_parse True r = Some (datareq_parsed src dst 0x40 demo_req 7, r') \<and> buf_data r' = buf_data b')"
    using zb_aps_hdr_parse_fill [OF demo_apdu_wf(1) _ f, of demo_req 7] demo_apdu_wf(2) by auto
  have d: "buf_data b' = datareq_hdr 0x40 demo_req 7 @ buf_data demo_apdu"
    using fill_datareq_spec [OF demo_apdu_wf(1) _ f(1), of demo_req 7] demo_apdu_wf(2) b'(1) by auto
  have "length (buf_data b') \<le> 100" using length_buf_data [OF demo_apdu_wf(1)] demo_apdu_wf(2) by (simp add: d datareq_hdr_def)
  from b'(2) [rule_format, OF demo_nwk [OF this]] show ?thesis using b'(1) d by metis
qed

section \<open>The entry\<close>

definition demo_save :: "zb_globals_s \<times> zb_uint8_t \<times> nat" where "demo_save = save_ack_data 2 demo_req demo_s"

definition demo_saved :: zb_globals_s where "demo_saved = fst demo_save"

lemma demo_tab: "re_tab demo_s = replicate 10 (re_tab demo_s ! 0)" "re_state (re_tab demo_s ! 0) = ZB_APS_RETRANS_ENT_FREE"
  "re_buf (re_tab demo_s ! 0) = 0" "aps_counter (aib (aps demo_s)) = 0"
  by (simp_all add: demo_aps_def)

lemma demo_free: "find_free_re demo_s = Some 0" "length (re_tab demo_s) = 10"
  using demo_tab(2) by (simp_all add: find_free_re_def ZB_N_APS_RETRANS_ENTRIES_def upt_rec demo_aps_def)

lemma demo_save: "save_ack_data 2 demo_req demo_s = (demo_saved, 0, 0)"
  using demo_free by (simp add: demo_saved_def demo_save_def save_ack_data_def ZB_N_APS_RETRANS_ENTRIES_def)

lemma demo_saved_fields [simp]: "sched demo_saved = sched demo_base" "bpool demo_saved = bpool demo_base"
  using demo_free by (simp_all add: demo_saved_def demo_save_def save_ack_data_def re_upd_def upd_retrans_def upd_aps_def)

lemma demo_req_short: "Zb_Mac_Mhr.addr_short [0x34, 0x12, 0, 0, 0, 0, 0, 0] = 0x1234"
  by code_simp

lemma demo_saved_tab: "length (re_tab demo_saved) = 10" "re_buf (re_tab demo_saved ! 0) = 2"
  "re_state (re_tab demo_saved ! 0) = ZB_APS_RETRANS_ENT_SENT_MAC_NOT_CONFIRMED_ALRM_RUNNING"
  "re_aps_retries (re_tab demo_saved ! 0) = 3" "re_addr (re_tab demo_saved ! 0) = 0x1234"
  "re_aps_counter (re_tab demo_saved ! 0) = -1"
  "\<And>j. 0 < j \<Longrightarrow> j < 10 \<Longrightarrow> re_buf (re_tab demo_saved ! j) = 0"
  using demo_free demo_tab
  by (simp_all add: demo_saved_def demo_save_def save_ack_data_def re_upd_def upd_retrans_def upd_aps_def demo_req_def
      ZB_N_APS_MAX_FRAME_ENTRIES_def demo_aps_def demo_req_short)

lemma demo_pool: "bp_pool (bpool demo_base) = replicate 16 zero_buf"
  by (simp add: demo_base_def zb_init_buffers_def pool_zero_def)

definition demo_in :: "zb_aps_retrans_ent_state \<Rightarrow> zb_globals_s" where
  "demo_in st = re_upd 0 (\<lambda>e. e\<lparr>re_state := st\<rparr>) demo_saved"

lemma demo_in_fields [simp]: "sched (demo_in st) = sched demo_base" "bpool (demo_in st) = bpool demo_base"
  "re_tab (demo_in st) = (re_tab demo_saved)[0 := (re_tab demo_saved ! 0)\<lparr>re_state := st\<rparr>]"
  by (simp_all add: demo_in_def)

lemma demo_ok: "st \<noteq> ZB_APS_RETRANS_ENT_FREE \<Longrightarrow> entry_ok 0 (demo_in st)" "entry_ok 0 demo_saved"
  using demo_saved_tab(1-3) demo_pool by (simp_all add: entry_ok_def)

definition demo_ack :: zb_aps_hdr where "demo_ack = datareq_parsed 0x1234 0 ack_fc (answer_to demo_req) (-1)"

lemma demo_ack:
  "find_acked demo_ack 0 (re_tab demo_saved) = Some (Some 0)" "find_acked demo_ack 0 (re_tab (demo_in st)) = Some (Some 0)"
  "ZB_APS_FC_GET_ACK_FORMAT (ah_fc demo_ack) = 0"
proof -
  obtain e es where t: "re_tab demo_saved = e # es" using demo_saved_tab(1) by (cases "re_tab demo_saved") auto
  have "re_addr e = 0x1234" "re_aps_counter e = -1" "re_clusterid e = 6" "re_src_endpoint e = 1" "re_dst_endpoint e = 2"
    using saved_entry(5-8) [OF demo_save demo_free] demo_saved_tab(5,6)
    unfolding t nth_Cons_0 by (simp_all add: demo_req_def)
  then have m: "ack_matches demo_ack e = Some True" "ack_matches demo_ack (e\<lparr>re_state := st\<rparr>) = Some True"
    using ack_fc_facts by (simp_all add: ack_matches_def demo_ack_def datareq_parsed_def answer_to_def demo_req_def)
  show "find_acked demo_ack 0 (re_tab demo_saved) = Some (Some 0)" "find_acked demo_ack 0 (re_tab (demo_in st)) = Some (Some 0)"
    using m by (simp_all add: t)
  show "ZB_APS_FC_GET_ACK_FORMAT (ah_fc demo_ack) = 0" using ack_fc_facts(1) by (simp add: demo_ack_def datareq_parsed_def)
qed

lemma demo_confirm: "find (\<lambda>i. re_buf (re_tab (demo_in st) ! i) = 2) [0..<ZB_N_APS_RETRANS_ENTRIES] = Some 0"
  using demo_saved_tab(1,2) by (simp add: ZB_N_APS_RETRANS_ENTRIES_def upt_rec [of 0 10])

section \<open>The properties\<close>

lemma retransmission_refines_arq_witness:
  "\<exists>g'. retrans_step (Re_timer 0) (demo_in ZB_APS_RETRANS_ENT_SENT_MAC_CONFIRMED_ALRM_RUNNING) = Some g'
    \<and> arq_of (re_tab g' ! 0) = Arq_sending False 2
    \<and> callbacks (sched g') = [\<lparr>cb_func = Cb_zb_nlde_data_request, cb_param = 2\<rparr>]"
proof -
  let ?g = "demo_in ZB_APS_RETRANS_ENT_SENT_MAC_CONFIRMED_ALRM_RUNNING"
  have "rd8 (b_buf zero_buf) (ZB_BUF_BEGIN zero_buf) = Some 0" "ZB_APS_FC_GET_ACK_FORMAT 0 = 0" by code_simp+
  then have ev: "event_at 0 (Re_timer 0) ?g"
    using demo_saved_tab(1,2) by (simp add: get_buf_def demo_pool aget_def)
  have a: "arq_of (re_tab ?g ! 0) = Arq_waiting 3" using demo_saved_tab(1,4) by (simp add: arq_of_def)
  have k: "entry_ok 0 ?g" by (rule demo_ok(1)) simp
  show ?thesis using retransmission_refines_arq [OF k ev, unfolded a arq_event_of.simps] demo_saved_tab(1,2)
    by (auto simp: event_effect_def)
qed


lemma second_ack_frees_sent_buffer_witness:
  "\<exists>g'. aps_ack_frame_handle demo_ack (demo_in ZB_APS_RETRANS_ENT_SENT_MAC_NOT_CONFIRMED_APS_ACKED_ALRM_RUNNING) = Some g'
    \<and> callbacks (sched g') = [\<lparr>cb_func = Cb_zb_apsde_data_confirm, cb_param = 2\<rparr>]
    \<and> confirm_retrans 2 0x40 g' = zb_free_buf 2 g'"
proof -
  let ?g = "demo_in ZB_APS_RETRANS_ENT_SENT_MAC_NOT_CONFIRMED_APS_ACKED_ALRM_RUNNING"
  have "\<forall>j. j < 10 \<and> j \<noteq> 0 \<longrightarrow> re_buf (re_tab ?g ! j) \<noteq> 2" using demo_saved_tab(1,7) by simp
  from second_ack_frees_sent_buffer [OF demo_ok(1), of _ demo_ack, OF _ _ _ _ this, of "0x40"] show ?thesis
    using demo_ack demo_saved_tab(1,2) by simp
qed

section \<open>One free entry\<close>

definition demo_full :: zb_globals_s where
  "demo_full = upd_retrans (\<lambda>r. r\<lparr>rt_hash := replicate 9 (re_tab demo_saved ! 0) @ [re_tab demo_s ! 0]\<rparr>) demo_s"

lemma demo_full: "re_tab demo_full = replicate 9 (re_tab demo_saved ! 0) @ [re_tab demo_s ! 0]"
  "sched demo_full = sched demo_base" "bpool demo_full = bpool demo_base"
  by (simp_all add: demo_full_def upd_retrans_def upd_aps_def)

definition demo_env :: "zb_globals_s aps_env" where
  "demo_env = \<lparr>env_get_peer = (\<lambda>ref param g. Some g), env_poll = (\<lambda>t g. Some g)\<rparr>"

lemma last_entry_is_lost_witness:
  "\<exists>g'. send_acked demo_env 5 0x40 0x1234 demo_req demo_full = Some g'
    \<and> callbacks (sched g') = [\<lparr>cb_func = Cb_zb_apsde_data_confirm, cb_param = 5\<rparr>]
    \<and> alarms (sched g') = [] \<and> re_buf (re_tab g' ! 9) = 5
    \<and> re_state (re_tab (fst (save_ack_data 7 demo_req g')) ! 9) \<noteq> ZB_APS_RETRANS_ENT_FREE"
proof -
  have "find_free_re demo_full = Some 9"
    using demo_saved_tab(3) demo_tab(2)
    by (auto simp: find_free_re_def demo_full ZB_N_APS_RETRANS_ENTRIES_def find_Some_iff nth_append intro!: exI [of _ 9])
  moreover have "get_buf 5 demo_full = Some zero_buf" by (simp add: get_buf_def demo_full demo_pool aget_def)
  moreover have "buf_wf zero_buf" "unat (b_len zero_buf) \<le> 138" by (simp_all add: buf_wf_def zero_buf_def ZB_IO_BUF_SIZE_def)
  moreover have "ZB_APS_FC_GET_ACK_FORMAT 0x40 = 0" by code_simp
  ultimately obtain g' where g': "send_acked demo_env 5 0x40 0x1234 demo_req demo_full = Some g'"
      "callbacks (sched g') = [\<lparr>cb_func = Cb_zb_apsde_data_confirm, cb_param = 5\<rparr>]" "alarms (sched g') = []"
      "re_buf (re_tab g' ! 9) = 5" "\<forall>h. lost_run 9 g' h \<longrightarrow> re_state (re_tab h ! 9) \<noteq> ZB_APS_RETRANS_ENT_FREE"
    using last_entry_is_lost [of demo_full 5 zero_buf "0x40" demo_env "0x1234" demo_req] by (auto simp: demo_full)
  obtain h r j where h: "save_ack_data 7 demo_req g' = (h, r, j)" by (rule prod_cases3)
  have "lost_run 9 g' h" by (rule lost_save [OF lost_start h])
  then show ?thesis using g' h by auto
qed

end
