(* ===== verification/Zb_Aps_Main_Demo.thy ===== *)
theory Zb_Aps_Main_Demo
  imports Zb_Aps_Group_Runs Zb_Aps_Demo
begin

text \<open>The receiving side of the APS layer on concrete frames: examples for the properties.\<close>

section \<open>A frame and its acknowledgement\<close>

definition demo_frame :: zb_aps_hdr where "demo_frame = datareq_parsed 0x1234 0 0x40 demo_req 6"

lemma demo_frame: "is_app_data demo_frame" "ah_src_addr demo_frame = 0x1234" "ah_aps_counter demo_frame = 6"
proof -
  have "ZB_APS_FC_GET_FRAME_TYPE 0x40 = ZB_APS_FRAME_DATA" "\<not> is_group 0x40" by code_simp+
  then show "is_app_data demo_frame" "ah_src_addr demo_frame = 0x1234" "ah_aps_counter demo_frame = 6"
    by (simp_all add: is_app_data_def demo_frame_def datareq_parsed_def)
qed

lemma demo_zero_buf: "buf_wf zero_buf" "get_buf b demo_s = (if b < 16 then Some zero_buf else None)"
  by (simp_all add: buf_wf_def zero_buf_def ZB_IO_BUF_SIZE_def get_buf_def demo_pool aget_def)

lemma retransmission_is_delivered_again_witness:
  "\<exists>d g g1 g2 g3. aps_check_dups 0x1234 5 demo_s = Some (g, d) \<and> deliver_frame_up True 0 demo_frame g = Some g1
    \<and> callbacks (sched g1) = [\<lparr>cb_func = Cb_zb_apsde_data_indication, cb_param = 0\<rparr>]
    \<and> timer_runs 2 g1 = Some g2 \<and> deliver_frame_up True 1 demo_frame g2 = zb_free_buf 1 g3"
proof -
  have n: "ref_of_short (addr demo_s) 0x1234 \<noteq> None \<or> n_elements (addr demo_s) \<noteq> 101" by (simp add: addr_zero_def)
  have wf: "addr_wf (addr demo_s)" "sched_wf (sched demo_s)" using addr_wf_zero by simp_all
  obtain g d where g: "aps_check_dups 0x1234 5 demo_s = Some (g, d)" "addr_wf (addr g)" "sched_wf (sched g)"
      "dup_state (addr g) 0x1234 5 3"
    using check_dups_spec [OF wf _ n, of 5] by auto
  then obtain r where r: "ref_of_short (addr g) 0x1234 = Some r" "am_dup_counter (addr_map (addr g) ! r) = 5"
    by (auto simp: dup_state_def)
  obtain g0 where g0: "aps_check_dups 0x1234 6 g = Some (g0, False)"
    using check_dups_spec [OF g(2,3), of "0x1234" 6] r by auto
  have b: "bpool g = bpool demo_s" "callbacks (sched g) = []" using check_dups_bpool [OF g(1) wf(2)] by simp_all
  then have p: "get_buf 0 g = Some zero_buf" using bufs_of_more [of g demo_s 0] demo_zero_buf(2) [of 0] by simp
  have "unat (b_len zero_buf) \<le> 133" by (simp add: zero_buf_def)
  from retransmission_is_delivered_again [of g demo_frame g0 0 zero_buf True 2] this
  show ?thesis using g(1-3) r(1) g0 demo_frame demo_zero_buf(1) p b(2) by fastforce
qed

lemma acknowledgement_confirms_frame_witness:
  "\<exists>p' (g1 :: zb_globals_s) g2. ack_fill (datareq_parsed 0 0x1234 0x40 demo_req (-1)) demo_apdu = Some p'
    \<and> get_buf 5 g1 = Some (demo_nwk 0 0x1234 (buf_data p')) \<and> zb_nlde_data_indication True 5 g1 = zb_free_buf 5 g2
    \<and> callbacks (sched g2) = [\<lparr>cb_func = Cb_zb_apsde_data_confirm, cb_param = 2\<rparr>]
    \<and> re_state (re_tab g2 ! 0) = ZB_APS_RETRANS_ENT_FREE"
proof -
  let ?st = "ZB_APS_RETRANS_ENT_SENT_MAC_CONFIRMED_ALRM_RUNNING"
  have f: "\<not> is_group 0x40" "ZB_APS_FC_GET_FRAME_TYPE 0x40 = ZB_APS_FRAME_DATA" by code_simp+
  have req: "adr_addr_mode demo_req = ZB_APS_ADDR_MODE_16_ENDP_PRESENT" "req_short demo_req = 0x1234"
    using demo_req_short by (simp_all add: demo_req_def)
  have c: "(-1 :: zb_uint8_t) = aps_counter (aib (aps demo_s)) - 1" using demo_tab(4) by simp
  obtain p' where p': "ack_fill (datareq_parsed 0 0x1234 0x40 demo_req (-1)) demo_apdu = Some p'"
    "\<forall>f r c (g1 :: zb_globals_s) n. nwk_frame f 0 0x1234 (buf_data p') r \<and> get_buf c g1 = Some r \<and> entry_ok 0 g1
      \<and> re_tab g1 ! 0 = (re_tab demo_saved ! 0)\<lparr>re_aps_retries := n, re_state := ?st\<rparr>
      \<and> (\<forall>j < 0. \<not> (re_addr (re_tab g1 ! j) = 0x1234 \<and> re_aps_counter (re_tab g1 ! j) = -1)) \<longrightarrow>
      (\<exists>g2. zb_nlde_data_indication True c g1 = zb_free_buf c g2
        \<and> re_state (re_tab g2 ! 0) = ZB_APS_RETRANS_ENT_FREE \<and> (\<forall>j. j \<noteq> 0 \<longrightarrow> re_tab g2 ! j = re_tab g1 ! j)
        \<and> callbacks (sched g2) = callbacks (sched g1) @ [\<lparr>cb_func = Cb_zb_apsde_data_confirm, cb_param = of_nat 2\<rparr>]
        \<and> b_status (bp_pool (bpool g2) ! 2) = 0)"
    using acknowledgement_confirms_frame [OF demo_save demo_free req f c demo_apdu_wf(1), of 0 True] by blast
  have d: "buf_data p' = datareq_hdr ack_fc (answer_to demo_req) (-1)"
    using ack_of_frame [OF f demo_apdu_wf(1), of 0 "0x1234" demo_req "-1"] p'(1) by auto
  then have "length (buf_data p') \<le> 100" by (simp add: datareq_hdr_def)
  note fr = demo_nwk [OF this, of 0 "0x1234"]
  let ?r = "demo_nwk 0 0x1234 (buf_data p')"
  define g1 where "g1 = put_buf 5 ?r (demo_in ?st)"
  have "get_buf 5 (demo_in ?st) = Some zero_buf" by (simp add: get_buf_def demo_pool aget_def)
  then have b: "get_buf 5 g1 = Some ?r" by (simp add: g1_def)
  have t: "re_tab g1 ! 0 = (re_tab demo_saved ! 0)\<lparr>re_aps_retries := 3, re_state := ?st\<rparr>"
    using demo_saved_tab(1,4) by (simp add: g1_def)
  have "entry_ok 0 (demo_in ?st)" by (rule demo_ok(1)) simp
  moreover have "re_tab g1 = re_tab (demo_in ?st)" "sched g1 = sched (demo_in ?st)"
    "length (bp_pool (bpool g1)) = length (bp_pool (bpool (demo_in ?st)))"
    unfolding g1_def by (simp_all only: put_frames) (simp add: put_buf_def)
  ultimately have k: "entry_ok 0 g1" unfolding entry_ok_def by metis
  have z: "\<forall>j < 0. \<not> (re_addr (re_tab g1 ! j) = 0x1234 \<and> re_aps_counter (re_tab g1 ! j) = -1)" by simp
  have "callbacks (sched g1) = []" by (simp add: g1_def)
  then obtain g2 where "zb_nlde_data_indication True 5 g1 = zb_free_buf 5 g2"
      "callbacks (sched g2) = [\<lparr>cb_func = Cb_zb_apsde_data_confirm, cb_param = 2\<rparr>]"
      "re_state (re_tab g2 ! 0) = ZB_APS_RETRANS_ENT_FREE"
    using p'(2) [rule_format, OF conjI [OF fr conjI [OF b conjI [OF k conjI [OF t z]]]]] by auto
  then show ?thesis using p'(1) b by blast
qed

section \<open>A group frame\<close>

lemma demo_two:
  "\<exists>bp. pool_wf bp \<and> buf_in_use 0 bp \<and> buf_in_use 1 bp \<and> bp_pool bp ! 0 = (buf_bzero_hdr zero_buf)\<lparr>b_is_in_buf := True\<rparr>"
proof -
  have "[0..<16] = 0 # 1 # [2..<(16 :: nat)]" by code_simp
  then have r: "pool_rep (bpool demo_base) (0 # 1 # [2..<16])" using init_buffers_rep by (simp add: demo_base_def)
  obtain b1 where b1: "pool_rep b1 (1 # [2..<16])"
      "bp_pool b1 = (bp_pool (bpool demo_base))[0 := (buf_bzero_hdr (bp_pool (bpool demo_base) ! 0))\<lparr>b_is_in_buf := True\<rparr>]"
      "bufs_allocated b1 = [0, 1]"
    using get_buf_ok [OF r, of True] by auto
  obtain b2 where b2: "pool_rep b2 [2..<16]"
      "bp_pool b2 = (bp_pool b1)[1 := (buf_bzero_hdr (bp_pool b1 ! 1))\<lparr>b_is_in_buf := True\<rparr>]"
    using get_buf_ok [OF b1(1), of True] b1(3) by auto
  have "bp_pool b2 ! 0 = (buf_bzero_hdr zero_buf)\<lparr>b_is_in_buf := True\<rparr>" by (simp add: b2(2) b1(2) demo_pool)
  moreover have "buf_in_use 0 b2" "buf_in_use 1 b2" "pool_wf b2"
    using pool_rep_free [OF b2(1)] pool_wfI [OF b2(1)] by (simp_all add: buf_in_use_def)
  ultimately show ?thesis by blast
qed

definition demo_groups :: "zb_aps_group_table_ent list" where
  "demo_groups = [\<lparr>ge_group_addr = 7, ge_endpoints = [11, 12, 0, 0, 0, 0, 0, 0], ge_n_endpoints = 2\<rparr>]"

definition demo_group_frame :: zb_aps_hdr where
  "demo_group_frame = \<lparr>ah_fc = 0x0c, ah_src_addr = 0x1234, ah_dst_addr = -1, ah_group_addr = Some 7,
     ah_dst_endpoint = None, ah_src_endpoint = 1, ah_clusterid = Some 6, ah_profileid = Some 0x104, ah_aps_counter = 9\<rparr>"

definition demo_g :: "zb_buf_pool \<Rightarrow> zb_globals_s" where
  "demo_g bp = put_param 0 (Aps_hdr demo_group_frame) ((upd_aps (\<lambda>a. a\<lparr>aps_group := (aps_group a)
     \<lparr>groups := demo_groups, n_groups := 1, active_pass_up_buf := Some 0\<rparr>\<rparr>) demo_s)\<lparr>bpool := bp\<rparr>)"

lemma group_frame_reaches_endpoints_witness:
  "\<exists>bp g2 cs. zb_aps_pass_group_msg_up 1 (demo_g bp) = Some g2 \<and> group_run 0 0 (demo_g bp) g2 [1]
    \<and> buf_param g2 1 = Aps_hdr (demo_group_frame\<lparr>ah_dst_endpoint := Some 11\<rparr>)
    \<and> callbacks (sched g2) = \<lparr>cb_func = Cb_zb_apsde_data_indication, cb_param = 1\<rparr> # cs"
proof -
  obtain bp where bp: "pool_wf bp" "buf_in_use 0 bp" "buf_in_use 1 bp"
      "bp_pool bp ! 0 = (buf_bzero_hdr zero_buf)\<lparr>b_is_in_buf := True\<rparr>" using demo_two by blast
  let ?g = "demo_g bp" and ?p = "(buf_bzero_hdr zero_buf)\<lparr>b_is_in_buf := True\<rparr>"
  have g: "aps_group (aps ?g) = (aps_group demo_aps)\<lparr>groups := demo_groups, n_groups := 1, active_pass_up_buf := Some 0\<rparr>"
    "buf_param ?g 0 = Aps_hdr demo_group_frame" "bpool ?g = bp" "sched ?g = sched demo_base"
    by (simp_all add: demo_g_def put_param_def upd_aps_def)
  have "length (bp_pool bp) = 16" using bp(1) by (simp add: pool_wf_def pool_rep_def)
  then have p: "get_buf 0 ?g = Some ?p" "b_handle ?p = 0"
    using bp(4) by (simp_all add: get_buf_def g(3) aget_def buf_bzero_hdr_def)
  have fr: "group_frame 0 demo_group_frame 0 ?g"
  proof -
    have "find_group 0 (aps_group (aps ?g)) 7 = Some (Some 0)" by (subst find_group.simps) (simp add: g(1) demo_groups_def)
    then show ?thesis by (simp add: group_frame_def g(2)) (simp add: g(1) demo_group_frame_def)
  qed
  have n: "group_size 0 ?g = 2" "group_endpoints 0 ?g ! 0 = 11" "length (group_endpoints 0 ?g) = 8"
    by (simp_all add: g(1) demo_groups_def)
  have "base_wf ?g" using bp(1) by (simp add: base_wf_def g(3,4))
  then have run: "length ([] :: nat list) < group_size 0 ?g \<and> base_wf ?g \<and> buf_in_use 0 (bpool ?g) \<and> buf_in_use 1 (bpool ?g)
      \<and> (0 :: nat) \<noteq> 1 \<and> length (callbacks (sched ?g)) < 16"
    using bp(2,3) n(1) g(3,4) by simp
  have m: "group_size 0 ?g \<le> length (group_endpoints 0 ?g)" "group_size 0 ?g < 256" using n by simp_all
  obtain g2 cs where "zb_aps_pass_group_msg_up 1 ?g = Some g2" "group_run 0 0 ?g g2 ([] @ [1])"
      "buf_param g2 1 = Aps_hdr (demo_group_frame\<lparr>ah_dst_endpoint := Some (group_endpoints 0 ?g ! length ([] :: nat list))\<rparr>)"
      "callbacks (sched g2) = callbacks (sched ?g) @ \<lparr>cb_func = Cb_zb_apsde_data_indication, cb_param = of_nat 1\<rparr> # cs"
    using group_frame_reaches_endpoints [OF fr p m group_start, of 1, THEN conjunct2, THEN conjunct2, THEN mp, OF run]
    by blast
  then show ?thesis using n(2) g(4) by auto
qed

section \<open>The channel mask\<close>

definition demo_mask_req :: zb_buf where
  "demo_mask_req = zero_buf\<lparr>b_len := 9,
     b_buf := htole32 ZB_APS_AIB_CHANNEL_MASK @ [4] @ htole32 0x07FFF801 @ replicate 139 0\<rparr>"

lemma channel_mask_is_cut_witness:
  "\<exists>g' p'. zb_apsme_set_request 3 (put_buf 3 demo_mask_req demo_s) = Some g' \<and> aps_channel_mask (aib (aps g')) = 1
    \<and> get_buf 3 g' = Some p' \<and> buf_data p' = htole32 0 @ htole32 ZB_APS_AIB_CHANNEL_MASK"
proof -
  let ?d = "htole32 ZB_APS_AIB_CHANNEL_MASK @ [4] @ htole32 0x07FFF801"
  have l: "length ?d = 9" by simp
  have "buf_data demo_mask_req = take 9 (?d @ replicate 139 0)"
    by (simp add: buf_data_def ZB_BUF_BEGIN_def) (simp add: demo_mask_req_def zero_buf_def)
  also have "\<dots> = ?d" using l by simp
  finally have d: "buf_data demo_mask_req = ?d @ []" by simp
  have wf: "buf_wf demo_mask_req" by (simp add: buf_wf_def demo_mask_req_def zero_buf_def ZB_IO_BUF_SIZE_def)
  have b: "get_buf 3 (put_buf 3 demo_mask_req demo_s) = Some demo_mask_req" using demo_zero_buf(2) [of 3] by simp
  have "(0x07FFF801 :: zb_uint32_t) AND 0xff = 1" by simp
  then show ?thesis using channel_mask_is_cut [OF b wf, of "0x07FFF801" "[]"] d by auto
qed

end
