(* ===== verification/Spec2Isabelle.thy ===== *)
theory Spec2Isabelle
  imports Zb_Sched_Runs Zb_Bind_Props Zb_Group Zb_Fcs Zb_Aes Zb_Ccm_Props Zb_Mac_Mhr Zb_Nwk_Join Zb_Nwk_Main_Demo Zb_Secur_Steps Zb_Aps_Main_Demo Zb_Apsme_Props
begin

text \<open>
  A model of the ZBOSS ZigBee stack (\<^verbatim>\<open>src/zboss_test_project/stack\<close>; all paths below are relative to
  it). The stack is one event loop in C: a scheduler runs callbacks and alarms, every callback gets a
  packet buffer, and all layers share one global record, \<^verbatim>\<open>ZG\<close>. The theories follow this structure.

  \<^bold>\<open>Configuration.\<close> The model is the program that the preprocessor leaves for the Linux simulator build of a
  router or coordinator: 32 bits, little endian, with \<^verbatim>\<open>ZB_SECURITY\<close>, tree and mesh routing,
  the trust center on the coordinator, debug assertions on, and without \<^verbatim>\<open>ZB_LIMITED_FEATURES\<close> and MAC
  security. Trace messages are left out.

  \<^bold>\<open>Conventions.\<close> A function of the code is an Isabelle function from the global state to an option: \<^verbatim>\<open>None\<close> is a
  failed \<^verbatim>\<open>ZB_ASSERT\<close>, an access outside an array, a null pointer or an indeterminate value; return codes
  are values. Bytes, addresses, counters of frames and bit fields are words of their width; table counters are
  natural numbers with the wrap-around written out (\<^verbatim>\<open>inc8\<close>, \<^verbatim>\<open>dec32\<close>). Arrays are lists, pointers into
  them are indices. The global record grows with the layers: \<^verbatim>\<open>zb_globals\<close> (scheduler, timer),
  \<^verbatim>\<open>zb_globals_b\<close> (buffers), \<^verbatim>\<open>zb_globals_a\<close> (addresses, APS), \<^verbatim>\<open>zb_globals_n\<close> (network layer, PIB)
  and \<^verbatim>\<open>zb_globals_s\<close> (security), each an extension of the one before, so that an operation is
  stated for every extension of the part it uses. Parameters that the code keeps in the tail of a buffer
  (\<^verbatim>\<open>ZB_GET_BUF_PARAM\<close>) are typed values beside its bytes; so the assertion of \<^verbatim>\<open>zb_get_buf_tail\<close> that
  they have room behind the payload, and their overlap with bytes written later, are outside the model, and a result
  \<^verbatim>\<open>Some\<close> is stated for buffers in which the parameters have room.

  \<^bold>\<open>The theories.\<close>
  \<^item> \<^verbatim>\<open>Zb_Prelude\<close>: integer types, return codes, array access; \<^verbatim>\<open>Zb_Bytes\<close>: reading and writing bytes.
  \<^item> \<^verbatim>\<open>Zb_List\<close>, \<^verbatim>\<open>Zb_Ring\<close>: the list and ring-buffer macros of \<^verbatim>\<open>include/zb_list_macros.h\<close> and
    \<^verbatim>\<open>include/zb_ringbuffer.h\<close>, against abstract lists and queues.
  \<^item> \<^verbatim>\<open>Zb_Time\<close>, \<^verbatim>\<open>Zb_Sched\<close>: \<^verbatim>\<open>common/zb_time.c\<close>, \<^verbatim>\<open>common/zb_scheduler.c\<close>. The alarm queue refines a
    list and stays sorted across the wrap-around of the 16-bit time. \<^verbatim>\<open>Zb_Sched_Runs\<close>: an iteration of the
    main loop ends and has run all that is due, with handlers that use the scheduler themselves, as long as every
    call adds less work than its own weight; the alarm handler of the duplicate detection is such a handler.
  \<^item> \<^verbatim>\<open>Zb_Buf\<close>, \<^verbatim>\<open>Zb_Buf_Window\<close>, \<^verbatim>\<open>Zb_Bufpool\<close>: \<^verbatim>\<open>common/zb_bufpool.c\<close>. A free buffer is never shared, a
    direction below its limit always gets one, and a freed one goes to the first callback that waits.
  \<^item> \<^verbatim>\<open>Zb_Addr\<close> with \<^verbatim>\<open>Zb_Addr_Facts\<close>, \<^verbatim>\<open>Zb_Addr_Props\<close>, \<^verbatim>\<open>Zb_Addr_Ieee\<close>, \<^verbatim>\<open>Zb_Addr_Update\<close>:
    \<^verbatim>\<open>common/zb_address.c\<close>. The hashed and sorted tables implement a map; references are stable.
  \<^item> \<^verbatim>\<open>Zb_Fcs\<close>: \<^verbatim>\<open>mac/mac_fcs.c\<close> is CRC-16. \<^verbatim>\<open>Zb_Ccm\<close>, \<^verbatim>\<open>Zb_Ccm_Props\<close>, \<^verbatim>\<open>Zb_Aes\<close>:
    \<^verbatim>\<open>secur/secur_ccm.c\<close>; decryption inverts encryption, a frame with a wrong code is erased, the tables are those of FIPS 197.
  \<^item> \<^verbatim>\<open>Zb_Aps_Globals\<close>, \<^verbatim>\<open>Zb_Dups\<close>, \<^verbatim>\<open>Zb_Bind\<close>, \<^verbatim>\<open>Zb_Bind_Props\<close>, \<^verbatim>\<open>Zb_Group\<close>: \<^verbatim>\<open>aps/aps_dups.c\<close> and
    \<^verbatim>\<open>aps/aps_bind.c\<close>: the window of the duplicate detection, the binding and group tables as relations.
  \<^item> \<^verbatim>\<open>Zb_Mac_Mhr\<close>: the MAC header of \<^verbatim>\<open>mac/mac.c\<close> and \<^verbatim>\<open>include/zb_mac.h\<close>, built and parsed.
  \<^item> \<^verbatim>\<open>Zb_Nwk_Globals\<close>, \<^verbatim>\<open>Zb_Neighbor\<close>, \<^verbatim>\<open>Zb_Neighbor_Props\<close>, \<^verbatim>\<open>Zb_Neighbor_Runs\<close>: the NIB and
    \<^verbatim>\<open>nwk/nwk_neighbor.c\<close>: base and extended table in one memory, as a map from addresses to neighbors.
  \<^item> \<^verbatim>\<open>Zb_Nwk_Hdr\<close>: network headers and commands of \<^verbatim>\<open>nwk/nwk_main.c\<close>.
  \<^item> \<^verbatim>\<open>Zb_Nwk_Tree\<close>, \<^verbatim>\<open>Zb_Nwk_Tree_Props\<close>, \<^verbatim>\<open>Zb_Nwk_Join\<close>: \<^verbatim>\<open>nwk/nwk_address_assign.c\<close>,
    \<^verbatim>\<open>nwk/nwk_cr_tree_routing.c\<close> and \<^verbatim>\<open>zb_nwk_accept_child\<close> of \<^verbatim>\<open>nwk/nwk_cr_join.c\<close>. A network is a tree of
    places; the address of a place is what the devices on the way hand out. Addresses are unique, routing
    goes in the right direction, and a device that joins gets the address of its place in all tables.
  \<^item> \<^verbatim>\<open>Zb_Nwk_Mesh\<close>, \<^verbatim>\<open>Zb_Nwk_Mesh_Props\<close>, \<^verbatim>\<open>Zb_Nwk_Mesh_Runs\<close>, \<^verbatim>\<open>Zb_Nwk_Mesh_Demo\<close>:
    \<^verbatim>\<open>nwk/nwk_cr_mesh_routing.c\<close>, \<^verbatim>\<open>nwk/nwk_cr_route_discovery.c\<close> and \<^verbatim>\<open>nwk_calc_destination\<close>. An inductive step
    relation over all handlers, with the invariant of the three tables; what a reply does to waiting packets.
  \<^item> \<^verbatim>\<open>Zb_Nwk_Nlme\<close>: the requests of \<^verbatim>\<open>nwk/nwk_nlme.c\<close> that read and write the NIB, and their confirms.
  \<^item> \<^verbatim>\<open>Zb_Nwk_Main\<close>, \<^verbatim>\<open>Zb_Nwk_Main_Props\<close>, \<^verbatim>\<open>Zb_Nwk_Unsecured\<close>, \<^verbatim>\<open>Zb_Nwk_Main_Runs\<close>, \<^verbatim>\<open>Zb_Nwk_Main_Demo\<close>: the way of a
    packet through \<^verbatim>\<open>nwk/nwk_main.c\<close>: data requests, forwarding, the retransmission of broadcasts with passive
    acknowledgements, indications and confirms. The tables that only this file uses (\<^verbatim>\<open>btt\<close>, \<^verbatim>\<open>brrt\<close>,
    \<^verbatim>\<open>wait_alloc\<close> of \<^verbatim>\<open>zb_nwk_handle_t\<close>) are a record beside the global context, and a state is the pair of both.
    A run counts the ticks of the clock of the broadcast table; a broadcast is accepted once in ten of them.
    What \<^verbatim>\<open>zb_nwk_unsecure_frame\<close> leaves of a header when it accepts a frame is in \<^verbatim>\<open>Zb_Nwk_Unsecured\<close>.
  \<^item> \<^verbatim>\<open>Zb_Secur_Keys\<close>, \<^verbatim>\<open>Zb_Secur_Keys_Props\<close>, \<^verbatim>\<open>Zb_Nwk_Secur\<close>, \<^verbatim>\<open>Zb_Nwk_Secur_Props\<close>, \<^verbatim>\<open>Zb_Secur_Demo\<close>,
    \<^verbatim>\<open>Zb_Secur_Steps\<close>: \<^verbatim>\<open>secur/zdo_secur.c\<close> and \<^verbatim>\<open>secur/nwk_secur.c\<close>. A secured frame is accepted by a
    receiver with the key and gives the payload back. The key material stays well typed in every run, with one
    exception that is stated with it: a request to set an attribute may write the index of a fourth key slot.
  \<^item> \<^verbatim>\<open>Zb_Aps_Hdr\<close>, \<^verbatim>\<open>Zb_Aps_Retrans\<close>, \<^verbatim>\<open>Zb_Aps_Main\<close>: \<^verbatim>\<open>aps/aps_main.c\<close>: the headers of data frames
    and acknowledgements, the sending side with the table of frames that wait for an acknowledgement, and the
    receiving side with group frames and the information base. \<^verbatim>\<open>Zb_Aps_Arq\<close>, \<^verbatim>\<open>Zb_Aps_Runs\<close>,
    \<^verbatim>\<open>Zb_Aps_Main_Props\<close>, \<^verbatim>\<open>Zb_Aps_Group_Runs\<close>, \<^verbatim>\<open>Zb_Aps_Demo\<close>, \<^verbatim>\<open>Zb_Aps_Main_Demo\<close>: an entry of the table
    refines an abstract machine for one frame, \<^verbatim>\<open>arq_step\<close>, from which follow the number of transmissions and that
    the application gets one answer; two devices agree on the end of a transmission; runs of a group frame.
  \<^item> \<^verbatim>\<open>Zb_Apsme\<close>, \<^verbatim>\<open>Zb_Apsme_Props\<close>: \<^verbatim>\<open>secur/apsme_secur.c\<close> and \<^verbatim>\<open>aps/aps_commands.c\<close>: the commands for keys
    and devices. A key that the trust center sends is the key that the device gets.

  \<^bold>\<open>Interfaces.\<close> Locales state what one component expects of another: a bounded queue (\<^verbatim>\<open>Zb_Ring\<close>,
  interpreted on the ring-buffer macros, which carry the callback queue), an address translation
  (\<^verbatim>\<open>Zb_Addr_Ieee\<close>, on \<^verbatim>\<open>zb_address_by_short\<close>), a table whose records get older and expire
  (\<^verbatim>\<open>Zb_Nwk_Main_Props\<close>, on the broadcast transactions) and a block cipher (\<^verbatim>\<open>Zb_Ccm_Props\<close>, on the AES-128 of the code).

  \<^bold>\<open>Loops and bounds.\<close> Most loops run over an explicit list of indices or recurse on the data. Loops over linked
  lists take the fuel \<^verbatim>\<open>ZB_LIST_FUEL\<close>, more than any list has elements; the loops of the unbind request take
  \<^verbatim>\<open>unbind_fuel\<close>, which bounds them because each pass advances an 8-bit index or removes an entry;
  the loop over the link quality ends within 8 steps; an iteration of the main loop needs fuel for two rounds for every
  unit of work, one that works and one that an interrupt breaks. That the fuel is enough is part of the refinement lemmas.

  \<^bold>\<open>Parameters.\<close> The callbacks that the main loop runs, the announcement of a device (\<^verbatim>\<open>zdo_send_device_annce\<close>),
  the base address of the random numbers, the handlers of the commands that \<^verbatim>\<open>nwk_frame_indication\<close> passes to other files
  (the record \<^verbatim>\<open>nwk_handlers\<close>), what the ZDO does for a data request (the look-up of a peer's address and the next
  poll of the parent, the record \<^verbatim>\<open>aps_env\<close>), the field \<^verbatim>\<open>joined_pro\<close> for the APS commands and the time-out of a
  rejoin, which depends on the MAC, are arguments.

  \<^bold>\<open>Errors of the code.\<close> Some properties state what the code does where this is not what it means to
  do; their texts say so. For example: an expired route discovery frees the routing entry of another one, a
  forged frame moves the counter of a neighbor, only the coordinator finds its child routers, and a frame whose
  acknowledgement is lost is delivered twice, because the receiver forgets it before the sender sends it again.

  \<^bold>\<open>Not modelled.\<close> The MAC requests and the transceiver drivers (hardware and timing), the sequences of
  network formation, scanning, joining and leaving that consist of MAC primitives, security in the APS and MAC layers (not compiled), the ZDO
  above these layers, non-volatile storage, drivers, tools and tests.
\<close>

end
